(* ===== verification/Prelude.thy ===== *)
theory Prelude
  imports
    Main
    "HOL-Library.Word"
    "HOL-Library.Char_ord"
    "HOL-Library.List_Lexorder"
    "HOL-Library.Product_Lexorder"
begin

text \<open>
  What every theory of the development shares: the machine integers of the Rust source, its
  \<open>Result\<close> values, the closures that talk to the operating system, and a few list lemmas.

  \<^item> \<open>Result<T, E>\<close> is the sum type \<open>'e + 'a\<close> with \<open>Inl\<close> for \<open>Err\<close>; the \<open>?\<close> operator is
    \<open>bind_res\<close>, \<open>ok_or_else\<close> is \<open>ok_or\<close>, and \<open>collect::<Result<Vec<_>, _>>\<close> is \<open>try_map\<close>.
  \<^item> A closure \<open>FnMut\<close> that asks the operating system is a function of the state \<open>'w\<close> of the
    world outside the program that also returns the next state; \<open>io_bind\<close> sequences two such
    calls and stops at the first error.
  \<^item> \<open>usize\<close> indices and lengths are \<open>nat\<close>; \<open>u8\<close>, \<open>u16\<close>, \<open>u32\<close> and \<open>u64\<close> are words, with
    \<open>checked_add\<close> returning \<open>None\<close> where the sum does not fit.
\<close>

unbundle bit_operations_syntax

section \<open>Machine integers\<close>

type_synonym u8 = "8 word"
type_synonym u16 = "16 word"
type_synonym u32 = "32 word"
type_synonym u64 = "64 word"

definition checked_add :: "'a::len word \<Rightarrow> 'a word \<Rightarrow> 'a word option" where
  "checked_add a b = (if unat a + unat b < 2 ^ LENGTH('a) then Some (a + b) else None)"

lemma checked_add_SomeD:
  "checked_add a b = Some c \<Longrightarrow> unat c = unat a + unat b"
  by (auto simp: checked_add_def unat_word_ariths split: if_splits)

lemma checked_add_Some_iff:
  "checked_add a b = Some c \<longleftrightarrow> unat c = unat a + unat b" for a b c :: "'a::len word"
proof
  assume c: "unat c = unat a + unat b"
  then have lt: "unat a + unat b < 2 ^ LENGTH('a)"
    by (metis unsigned_less)
  then have "unat (a + b) = unat c"
    using c by (simp add: unat_word_ariths)
  with lt show "checked_add a b = Some c"
    by (simp add: checked_add_def word_unat_eq_iff)
qed (rule checked_add_SomeD)

lemma checked_add_None_iff:
  "checked_add a b = None \<longleftrightarrow> 2 ^ LENGTH('a) \<le> unat a + unat b" for a b :: "'a::len word"
  by (auto simp: checked_add_def)

text \<open>A \<open>u64\<close> that the code only adds and multiplies with overflow checks is a \<open>nat\<close> below
  \<open>2 ^ 64\<close>.\<close>

definition checked_add_u64 :: "nat \<Rightarrow> nat \<Rightarrow> nat option" where
  "checked_add_u64 a b = (if a + b < 2 ^ 64 then Some (a + b) else None)"

definition checked_mul_u64 :: "nat \<Rightarrow> nat \<Rightarrow> nat option" where
  "checked_mul_u64 a b = (if a * b < 2 ^ 64 then Some (a * b) else None)"

definition checked_shl_u64 :: "nat \<Rightarrow> nat \<Rightarrow> nat option" where
  "checked_shl_u64 a n = (if n < 64 then Some (a * 2 ^ n mod 2 ^ 64) else None)"

definition u32_try_from :: "nat \<Rightarrow> u32 option" where
  "u32_try_from n = (if n < 2 ^ 32 then Some (of_nat n) else None)"

definition u16_try_from :: "nat \<Rightarrow> u16 option" where
  "u16_try_from n = (if n < 2 ^ 16 then Some (of_nat n) else None)"

lemma unat_of_nat_u32 [simp]: "n < 2 ^ 32 \<Longrightarrow> unat (of_nat n :: u32) = n"
  by (simp add: unat_of_nat)

lemma unat_of_nat_u16 [simp]: "n < 2 ^ 16 \<Longrightarrow> unat (of_nat n :: u16) = n"
  by (simp add: unat_of_nat)

lemma unat_u32_bound: "unat (w :: u32) < 4294967296"
  using unsigned_less [of w] by simp

lemma unat_u16_bound: "unat (w :: u16) < 65536"
  using unsigned_less [of w] by simp

lemma unat_u8_bound: "unat (w :: u8) < 256"
  using unsigned_less [of w] by simp

section \<open>Results\<close>

fun bind_res :: "'e + 'a \<Rightarrow> ('a \<Rightarrow> 'e + 'b) \<Rightarrow> 'e + 'b" where
  "bind_res (Inl e) f = Inl e"
| "bind_res (Inr a) f = f a"

fun ok_or :: "'a option \<Rightarrow> 'e \<Rightarrow> 'e + 'a" where
  "ok_or None e = Inl e"
| "ok_or (Some a) e = Inr a"

fun map_err :: "('e \<Rightarrow> 'f) \<Rightarrow> 'e + 'a \<Rightarrow> 'f + 'a" where
  "map_err f (Inl e) = Inl (f e)"
| "map_err f (Inr a) = Inr a"

fun res_ok :: "'e + 'a \<Rightarrow> 'a option" where
  "res_ok (Inl e) = None"
| "res_ok (Inr a) = Some a"

fun try_map :: "('a \<Rightarrow> 'e + 'b) \<Rightarrow> 'a list \<Rightarrow> 'e + 'b list" where
  "try_map f [] = Inr []"
| "try_map f (x # xs) = bind_res (f x) (\<lambda>y. bind_res (try_map f xs) (\<lambda>ys. Inr (y # ys)))"

text \<open>A loop that updates its state and may leave with an error.\<close>

fun try_fold :: "('s \<Rightarrow> 'a \<Rightarrow> 'e + 's) \<Rightarrow> 's \<Rightarrow> 'a list \<Rightarrow> 'e + 's" where
  "try_fold f s [] = Inr s"
| "try_fold f s (x # xs) = bind_res (f s x) (\<lambda>t. try_fold f t xs)"

lemma bind_res_cong [fundef_cong]:
  "m = n \<Longrightarrow> (\<And>a. n = Inr a \<Longrightarrow> f a = g a) \<Longrightarrow> bind_res m f = bind_res n g"
  by (cases n) auto

named_theorems result_elims \<open>when an operation that can fail returns a value\<close>

lemma bind_res_Inr_iff [result_elims]:
  "bind_res m f = Inr b \<longleftrightarrow> (\<exists>a. m = Inr a \<and> f a = Inr b)"
  by (cases m) auto

lemma bind_res_Inl_iff:
  "bind_res m f = Inl e \<longleftrightarrow> m = Inl e \<or> (\<exists>a. m = Inr a \<and> f a = Inl e)"
  by (cases m) auto

lemma ok_or_Inr_iff [result_elims]: "ok_or o' e = Inr a \<longleftrightarrow> o' = Some a"
  by (cases o') auto

lemma ok_or_Inl_iff: "ok_or o' e = Inl d \<longleftrightarrow> o' = None \<and> d = e"
  by (cases o') auto

lemma map_err_Inr_iff [result_elims]: "map_err f m = Inr a \<longleftrightarrow> m = Inr a"
  by (cases m) auto

lemma res_ok_Some_iff: "res_ok m = Some a \<longleftrightarrow> m = Inr a"
  by (cases m) auto

lemma try_map_Inr_iff:
  "try_map f xs = Inr ys \<longleftrightarrow> list_all2 (\<lambda>x y. f x = Inr y) xs ys"
  by (induction xs arbitrary: ys)
     (auto simp: bind_res_Inr_iff list_all2_Cons1)

lemma try_fold_append:
  "try_fold f s (xs @ ys) = bind_res (try_fold f s xs) (\<lambda>t. try_fold f t ys)"
proof (induction xs arbitrary: s)
  case (Cons x xs)
  then show ?case by (cases "f s x") simp_all
qed simp

lemma try_fold_invariant:
  assumes "try_fold f s xs = Inr t" "P [] s"
    and "\<And>ys x s t. set (ys @ [x]) \<subseteq> set xs \<Longrightarrow> P ys s \<Longrightarrow> f s x = Inr t \<Longrightarrow> P (ys @ [x]) t"
  shows "P xs t"
proof -
  have "try_fold f s' zs = Inr t \<Longrightarrow> P ys s' \<Longrightarrow> ys @ zs = xs \<Longrightarrow> P xs t" for s' ys zs
  proof (induction zs arbitrary: s' ys)
    case (Cons z zs)
    from Cons.prems(1) obtain u where u: "f s' z = Inr u" "try_fold f u zs = Inr t"
      by (auto simp: bind_res_Inr_iff)
    have "set (ys @ [z]) \<subseteq> set xs" using Cons.prems(3) by auto
    from assms(3) [OF this Cons.prems(2) u(1)] Cons.IH [OF u(2), of "ys @ [z]"] Cons.prems(3)
    show ?case by simp
  qed simp
  from this [OF assms(1,2)] show ?thesis by simp
qed

lemma try_map_map_Inr: "(\<And>x. x \<in> set xs \<Longrightarrow> f x = Inr (g x)) \<Longrightarrow> try_map f xs = Inr (map g xs)"
  by (induction xs) auto

section \<open>Calls to the world outside\<close>

type_synonym ('w, 'e, 'a) io = "'w \<Rightarrow> ('e + 'a) \<times> 'w"

definition io_return :: "'a \<Rightarrow> ('w, 'e, 'a) io" where
  "io_return a w = (Inr a, w)"

definition io_fail :: "'e \<Rightarrow> ('w, 'e, 'a) io" where
  "io_fail e w = (Inl e, w)"

definition io_bind :: "('w, 'e, 'a) io \<Rightarrow> ('a \<Rightarrow> ('w, 'e, 'b) io) \<Rightarrow> ('w, 'e, 'b) io" where
  "io_bind m f w = (case m w of (Inl e, w') \<Rightarrow> (Inl e, w') | (Inr a, w') \<Rightarrow> f a w')"

definition io_lift :: "'e + 'a \<Rightarrow> ('w, 'e, 'a) io" where
  "io_lift r w = (r, w)"

definition io_map_err :: "('e \<Rightarrow> 'f) \<Rightarrow> ('w, 'e, 'a) io \<Rightarrow> ('w, 'f, 'a) io" where
  "io_map_err f m w = (case m w of (r, w') \<Rightarrow> (map_err f r, w'))"

named_theorems io_elims \<open>when a computation over the world returns a value\<close>

lemma io_return_iff [io_elims]: "io_return a w = (Inr b, w') \<longleftrightarrow> b = a \<and> w' = w"
  by (auto simp: io_return_def)

lemma io_fail_iff [io_elims]: "io_fail e w = (Inr b, w') \<longleftrightarrow> False"
  by (auto simp: io_fail_def)

lemma io_lift_iff [io_elims]: "io_lift r w = (Inr b, w') \<longleftrightarrow> r = Inr b \<and> w' = w"
  by (auto simp: io_lift_def)

lemma io_bind_iff [io_elims]:
  "io_bind m f w = (Inr b, w') \<longleftrightarrow> (\<exists>a w1. m w = (Inr a, w1) \<and> f a w1 = (Inr b, w'))"
  by (auto simp: io_bind_def split: prod.splits sum.splits)

lemma io_bind_Inl_iff:
  "io_bind m f w = (Inl e, w') \<longleftrightarrow>
     m w = (Inl e, w') \<or> (\<exists>a w1. m w = (Inr a, w1) \<and> f a w1 = (Inl e, w'))"
  by (auto simp: io_bind_def split: prod.splits sum.splits)

lemma io_map_err_iff [io_elims]: "io_map_err f m w = (Inr b, w') \<longleftrightarrow> m w = (Inr b, w')"
  by (auto simp: io_map_err_def map_err_Inr_iff split: prod.splits)

lemmas io_defs = io_return_def io_fail_def io_bind_def io_lift_def io_map_err_def

text \<open>A loop whose body asks the world.\<close>

fun io_fold :: "('s \<Rightarrow> 'a \<Rightarrow> ('w, 'e, 's) io) \<Rightarrow> 's \<Rightarrow> 'a list \<Rightarrow> ('w, 'e, 's) io" where
  "io_fold f s [] = io_return s"
| "io_fold f s (x # xs) = io_bind (f s x) (\<lambda>t. io_fold f t xs)"

lemma io_fold_invariant:
  assumes "io_fold f s xs w = (Inr t, w')" "P [] s"
    and "\<And>ys x s t w w'. set (ys @ [x]) \<subseteq> set xs \<Longrightarrow> P ys s \<Longrightarrow> f s x w = (Inr t, w') \<Longrightarrow> P (ys @ [x]) t"
  shows "P xs t"
proof -
  have "io_fold f s' zs v = (Inr t, w') \<Longrightarrow> P ys s' \<Longrightarrow> ys @ zs = xs \<Longrightarrow> P xs t" for s' ys zs v
  proof (induction zs arbitrary: s' ys v)
    case Nil
    then show ?case by (simp add: io_elims)
  next
    case (Cons z zs)
    from Cons.prems(1) obtain u v1 where u: "f s' z v = (Inr u, v1)" "io_fold f u zs v1 = (Inr t, w')"
      by (auto simp: io_elims)
    have "set (ys @ [z]) \<subseteq> set xs" using Cons.prems(3) by auto
    from assms(3) [OF this Cons.prems(2) u(1)] Cons.IH [OF u(2), of "ys @ [z]"] Cons.prems(3)
    show ?case by simp
  qed
  from this [OF assms(1,2)] show ?thesis by simp
qed

lemma io_fold_error:
  "io_fold f s xs w = (Inl e, w') \<Longrightarrow> \<exists>x\<in>set xs. \<exists>t v. f t x v = (Inl e, w')"
proof (induction xs arbitrary: s w)
  case Nil
  then show ?case by (simp add: io_return_def)
next
  case (Cons x xs)
  then show ?case unfolding io_fold.simps io_bind_Inl_iff by fastforce
qed

section \<open>Lists\<close>

lemma find_Some_iff2: "List.find P xs = Some x \<Longrightarrow> x \<in> set xs \<and> P x"
  by (induction xs) (auto split: if_splits)

lemma find_None_iff2: "List.find P xs = None \<longleftrightarrow> (\<forall>x\<in>set xs. \<not> P x)"
  by (induction xs) auto

lemma find_distinct:
  assumes "distinct (map key xs)" "i < length xs" "P (xs ! i)"
    and "\<And>y. y \<in> set xs \<Longrightarrow> P y \<Longrightarrow> key y = key (xs ! i)"
  shows "List.find P xs = Some (xs ! i)"
proof -
  obtain x where x: "List.find P xs = Some x"
    using assms(2,3) find_None_iff2 [of P xs] by (cases "List.find P xs") auto
  then have "x \<in> set xs" "P x" using find_Some_iff2 by fastforce+
  then have "key x = key (xs ! i)" using assms(4) by blast
  with assms(1,2) \<open>x \<in> set xs\<close> have "x = xs ! i"
    by (auto simp: distinct_map dest: inj_onD)
  with x show ?thesis by simp
qed

definition filter_map :: "('a \<Rightarrow> 'b option) \<Rightarrow> 'a list \<Rightarrow> 'b list" where
  "filter_map f xs = List.map_filter f xs"

lemma filter_map_simps [simp]:
  "filter_map f [] = []"
  "filter_map f (x # xs) = (case f x of None \<Rightarrow> filter_map f xs | Some y \<Rightarrow> y # filter_map f xs)"
  by (auto simp: filter_map_def map_filter_def split: option.splits)

lemma set_filter_map: "set (filter_map f xs) = {y. \<exists>x\<in>set xs. f x = Some y}"
  by (induction xs) (auto split: option.splits)

end
