(* ===== verification/Rust_Str.thy ===== *)
theory Rust_Str
  imports Prelude
begin

text \<open>
  Rust's \<open>str\<close> and \<open>String\<close>: a \<open>string\<close> here is the list of the UTF-8 bytes. Comparison of
  strings is then the lexicographic order of the bytes, as in Rust. The operations are those of
  the standard library that the modelled code calls. The patterns of \<open>match_splits\<close> and
  \<open>str_replace\<close> are non-empty, as they are at every call.
\<close>

section \<open>Prefixes, suffixes and splitting\<close>

fun strip_prefix :: "string \<Rightarrow> string \<Rightarrow> string option" where
  "strip_prefix [] s = Some s"
| "strip_prefix (p # ps) [] = None"
| "strip_prefix (p # ps) (c # cs) = (if p = c then strip_prefix ps cs else None)"

definition starts_with :: "string \<Rightarrow> string \<Rightarrow> bool" where
  "starts_with p s = (strip_prefix p s \<noteq> None)"

definition strip_suffix :: "string \<Rightarrow> string \<Rightarrow> string option" where
  "strip_suffix p s = map_option rev (strip_prefix (rev p) (rev s))"

fun split_once :: "string \<Rightarrow> string \<Rightarrow> (string \<times> string) option" where
  "split_once p [] = (if p = [] then Some ([], []) else None)"
| "split_once p (c # cs) =
     (case strip_prefix p (c # cs) of
        Some r \<Rightarrow> Some ([], r)
      | None \<Rightarrow> map_option (\<lambda>(a, b). (c # a, b)) (split_once p cs))"

definition rsplit_once :: "string \<Rightarrow> string \<Rightarrow> (string \<times> string) option" where
  "rsplit_once p s = map_option (\<lambda>(a, b). (rev b, rev a)) (split_once (rev p) (rev s))"

definition str_contains :: "string \<Rightarrow> string \<Rightarrow> bool" where
  "str_contains p s = (split_once p s \<noteq> None)"

lemma strip_prefix_Some_iff: "strip_prefix p s = Some r \<longleftrightarrow> s = p @ r"
  by (induction p s rule: strip_prefix.induct) auto

lemma strip_prefix_append [simp]: "strip_prefix p (p @ r) = Some r"
  by (simp add: strip_prefix_Some_iff)

lemma strip_suffix_Some_iff: "strip_suffix p s = Some r \<longleftrightarrow> s = r @ p"
  by (auto simp: strip_suffix_def strip_prefix_Some_iff) (metis rev_append rev_rev_ident)+

lemma split_once_SomeD: "split_once p s = Some (a, b) \<Longrightarrow> s = a @ p @ b"
proof (induction p s arbitrary: a rule: split_once.induct)
  case (1 p)
  then show ?case by (auto split: if_splits)
next
  case (2 p c cs)
  then show ?case
    by (auto split: option.splits simp: strip_prefix_Some_iff)
qed

lemma split_once_char:
  "c \<notin> set a \<Longrightarrow> split_once [c] (a @ c # b) = Some (a, b)"
  by (induction a) auto

lemma split_once_char_None: "c \<notin> set s \<Longrightarrow> split_once [c] s = None"
  by (induction s) auto

lemma split_once_prefix: "split_once p (p @ b) = Some ([], b)"
proof (cases "p @ b")
  case Nil
  then show ?thesis by simp
next
  case (Cons c cs)
  moreover have "strip_prefix p (c # cs) = Some b"
    using Cons by (metis strip_prefix_append)
  ultimately show ?thesis by simp
qed

lemma split_once_NoneD: "split_once p s = None \<Longrightarrow> s \<noteq> a @ p @ b"
proof (induction a arbitrary: s)
  case Nil
  then show ?case by (auto simp: split_once_prefix)
next
  case (Cons c a)
  show ?case
  proof
    assume s: "s = (c # a) @ p @ b"
    with Cons.prems have "split_once p (a @ p @ b) = None"
      by (auto split: option.splits)
    then show False using Cons.IH by blast
  qed
qed

lemma str_contains_iff: "str_contains p s \<longleftrightarrow> (\<exists>a b. s = a @ p @ b)"
proof (cases "split_once p s")
  case None
  then show ?thesis using split_once_NoneD [OF None] by (auto simp: str_contains_def)
next
  case (Some ab)
  then show ?thesis by (cases ab) (auto simp: str_contains_def dest: split_once_SomeD)
qed

lemma rsplit_once_char: "c \<notin> set b \<Longrightarrow> rsplit_once [c] (a @ c # b) = Some (a, b)"
  using split_once_char [of c "rev b" "rev a"] by (simp add: rsplit_once_def)

lemma rsplit_once_SomeD: "rsplit_once p s = Some (a, b) \<Longrightarrow> s = a @ p @ b"
  by (auto simp: rsplit_once_def dest!: split_once_SomeD) (metis append.assoc rev_append rev_rev_ident)

section \<open>All occurrences\<close>

text \<open>
  \<open>match_indices\<close>: each occurrence, from the left and without overlaps, as the text before it
  and the text after it.
\<close>

function match_splits :: "string \<Rightarrow> string \<Rightarrow> string \<Rightarrow> (string \<times> string) list" where
  "match_splits p before s =
     (if p = [] then []
      else case split_once p s of
             None \<Rightarrow> []
           | Some (a, b) \<Rightarrow> (before @ a, b) # match_splits p (before @ a @ p) b)"
  by pat_completeness auto
termination
proof (relation "measure (\<lambda>(p, before, s). length s)", goal_cases)
  case (2 p before s x a b)
  then show ?case by (cases x) (auto dest!: split_once_SomeD)
qed simp

declare match_splits.simps [simp del]

function str_replace :: "string \<Rightarrow> string \<Rightarrow> string \<Rightarrow> string" where
  "str_replace p t s =
     (if p = [] then s
      else case split_once p s of
             None \<Rightarrow> s
           | Some (a, b) \<Rightarrow> a @ t @ str_replace p t b)"
  by pat_completeness auto
termination
proof (relation "measure (\<lambda>(p, t, s). length s)", goal_cases)
  case (2 p t s x a b)
  then show ?case by (cases x) (auto dest!: split_once_SomeD)
qed simp

declare str_replace.simps [simp del]

lemma match_splits_sound:
  "(x, y) \<in> set (match_splits p before s) \<Longrightarrow> before @ s = x @ p @ y"
proof (induction p before s rule: match_splits.induct)
  case (1 p before s)
  show ?case
  proof (cases "split_once p s")
    case None
    with 1(2) show ?thesis by (simp add: match_splits.simps split: if_splits)
  next
    case (Some ab)
    then obtain a b where ab: "split_once p s = Some (a, b)" by (cases ab) auto
    then have s: "s = a @ p @ b" by (rule split_once_SomeD)
    from 1(2) ab have ne: "p \<noteq> []" and
      "(x, y) = (before @ a, b) \<or> (x, y) \<in> set (match_splits p (before @ a @ p) b)"
      by (auto simp: match_splits.simps [of p before s] split: if_splits)
    then show ?thesis
      using 1(1) [OF ne ab] s by auto
  qed
qed

lemma split_once_first: "split_once p s = Some (u, v) \<Longrightarrow> s = x @ p @ y \<Longrightarrow> length u \<le> length x"
proof (induction p s arbitrary: u x rule: split_once.induct)
  case (1 p)
  then show ?case by (auto split: if_splits)
next
  case (2 p c cs)
  show ?case
  proof (cases "strip_prefix p (c # cs)")
    case (Some r)
    with 2(2) show ?thesis by simp
  next
    case None
    then obtain u' where u': "split_once p cs = Some (u', v)" "u = c # u'" using 2(2) by auto
    obtain x' where x': "x = c # x'" "cs = x' @ p @ y"
      using 2(3) None by (cases x) (auto simp: strip_prefix_Some_iff [symmetric])
    from 2(1) [OF None u'(1) x'(2)] show ?thesis by (simp add: u' x')
  qed
qed

lemma match_splits_of_head:
  assumes "p = c # q" "c \<notin> set q" "s = x @ p @ y"
  shows "(before @ x, y) \<in> set (match_splits p before s)"
  using assms
proof (induction p before s arbitrary: x rule: match_splits.induct)
  case (1 p before s)
  have ne: "p \<noteq> []" using "1.prems"(1) by simp
  obtain u v where uv: "split_once p s = Some (u, v)"
    using split_once_NoneD [of p s x y] "1.prems"(3) by (cases "split_once p s") auto
  have s: "s = u @ p @ v" using split_once_SomeD [OF uv] .
  have le: "length u \<le> length x" using split_once_first [OF uv "1.prems"(3)] .
  show ?case
  proof (cases "length u = length x")
    case True
    then have "u = x" "v = y" using s "1.prems"(3) by auto
    then show ?thesis using uv ne by (simp add: match_splits.simps [of p before s])
  next
    case False
    obtain w where w: "x = u @ w" "w \<noteq> []"
      using s "1.prems"(3) le False by (metis append_eq_append_conv_if append_take_drop_id append_Nil2)
    have pv: "p @ v = w @ p @ y" using s "1.prems"(3) w by simp
    have "length p \<le> length w"
    proof (rule ccontr)
      assume short: "\<not> length p \<le> length w"
      have "p ! length w = (p @ v) ! length w" using short by (simp add: nth_append)
      also have "\<dots> = c" unfolding pv using "1.prems"(1) by (simp add: nth_append)
      finally have at: "p ! length w = c" .
      have "q ! (length w - 1) = c" using at w(2) "1.prems"(1) by (cases w) simp_all
      moreover have "length w - 1 < length q" using short w(2) "1.prems"(1) by (cases w) simp_all
      ultimately show False using "1.prems"(2) nth_mem by metis
    qed
    then obtain x' where x': "w = p @ x'" "v = x' @ p @ y"
      using pv by (metis append_eq_append_conv_if append_take_drop_id append_assoc append_same_eq same_append_eq)
    have "((before @ u @ p) @ x', y) \<in> set (match_splits p (before @ u @ p) v)"
      using "1.IH" [OF ne uv refl "1.prems"(1,2) x'(2)] .
    then show ?thesis using uv ne w x' by (simp add: match_splits.simps [of p before s])
  qed
qed

lemma str_replace_absent: "\<not> str_contains p s \<Longrightarrow> str_replace p t s = s"
  by (auto simp: str_contains_def str_replace.simps [of p t s] split: option.splits)

section \<open>Splitting at every separator\<close>

text \<open>\<open>str::split\<close> with a pattern that matches single bytes: never empty, with an empty piece
  between adjacent separators and at the ends.\<close>

fun split_on :: "(char \<Rightarrow> bool) \<Rightarrow> string \<Rightarrow> string list" where
  "split_on sep [] = [[]]"
| "split_on sep (c # cs) =
     (if sep c then [] # split_on sep cs
      else case split_on sep cs of [] \<Rightarrow> [[c]] | piece # pieces \<Rightarrow> (c # piece) # pieces)"

lemma split_on_ne [simp]: "split_on sep s \<noteq> []"
  by (induction s) (auto split: list.splits)

lemma split_on_Cons:
  "\<not> sep c \<Longrightarrow> split_on sep (c # cs) = (c # hd (split_on sep cs)) # tl (split_on sep cs)"
  by (simp split: list.splits)

lemma split_on_none: "\<forall>c\<in>set s. \<not> sep c \<Longrightarrow> split_on sep s = [s]"
  by (induction s) auto

lemma split_on_map:
  "(\<And>c. sep (f c) \<longleftrightarrow> sep c) \<Longrightarrow> split_on sep (map f s) = map (map f) (split_on sep s)"
  by (induction s) (auto split: list.splits)

lemma split_on_pieces: "piece \<in> set (split_on sep s) \<Longrightarrow> c \<in> set piece \<Longrightarrow> c \<in> set s \<and> \<not> sep c"
proof (induction s arbitrary: piece)
  case (Cons d s)
  show ?case
  proof (cases "sep d")
    case True
    with Cons.prems have "piece \<in> set (split_on sep s)" by auto
    with Cons.IH Cons.prems(2) show ?thesis by simp
  next
    case False
    obtain p ps where ps: "split_on sep s = p # ps" by (cases "split_on sep s") auto
    with Cons.prems False have "piece = d # p \<or> piece \<in> set ps" by simp
    with Cons.IH [of p] Cons.IH [of piece] ps Cons.prems(2) False show ?thesis by auto
  qed
qed simp

lemma set_split_on: "c \<in> set s \<Longrightarrow> sep c \<or> (\<exists>piece\<in>set (split_on sep s). c \<in> set piece)"
proof (induction s)
  case (Cons d s)
  then show ?case by (cases "split_on sep s") (auto split: if_splits)
qed simp

section \<open>White space\<close>

text \<open>\<open>str::trim\<close> removes the characters with the Unicode property White\_Space, here by their
  UTF-8 encodings. An encoding never ends inside another character, so removing them from the
  end byte by byte is removing whole characters.\<close>

definition white_space :: "string list" where
  "white_space =
     [[CHR 0x09], [CHR 0x0A], [CHR 0x0B], [CHR 0x0C], [CHR 0x0D], [CHR 0x20],
      [CHR 0xC2, CHR 0x85], [CHR 0xC2, CHR 0xA0], [CHR 0xE1, CHR 0x9A, CHR 0x80],
      [CHR 0xE2, CHR 0x80, CHR 0x80], [CHR 0xE2, CHR 0x80, CHR 0x81],
      [CHR 0xE2, CHR 0x80, CHR 0x82], [CHR 0xE2, CHR 0x80, CHR 0x83],
      [CHR 0xE2, CHR 0x80, CHR 0x84], [CHR 0xE2, CHR 0x80, CHR 0x85],
      [CHR 0xE2, CHR 0x80, CHR 0x86], [CHR 0xE2, CHR 0x80, CHR 0x87],
      [CHR 0xE2, CHR 0x80, CHR 0x88], [CHR 0xE2, CHR 0x80, CHR 0x89],
      [CHR 0xE2, CHR 0x80, CHR 0x8A], [CHR 0xE2, CHR 0x80, CHR 0xA8],
      [CHR 0xE2, CHR 0x80, CHR 0xA9], [CHR 0xE2, CHR 0x80, CHR 0xAF],
      [CHR 0xE2, CHR 0x81, CHR 0x9F], [CHR 0xE3, CHR 0x80, CHR 0x80]]"

fun strip_any :: "string list \<Rightarrow> string \<Rightarrow> string option" where
  "strip_any [] s = None"
| "strip_any (w # ws) s =
     (case (if w = [] then None else strip_prefix w s) of
        Some r \<Rightarrow> Some r
      | None \<Rightarrow> strip_any ws s)"

lemma strip_any_shorter: "strip_any ws s = Some r \<Longrightarrow> length r < length s"
  by (induction ws) (auto simp: strip_prefix_Some_iff split: option.splits if_splits)

lemma strip_any_suffix: "strip_any ws s = Some r \<Longrightarrow> \<exists>w\<in>set ws. s = w @ r"
  by (induction ws) (auto simp: strip_prefix_Some_iff split: option.splits if_splits)

function trim_left :: "string list \<Rightarrow> string \<Rightarrow> string" where
  "trim_left ws s = (case strip_any ws s of None \<Rightarrow> s | Some r \<Rightarrow> trim_left ws r)"
  by pat_completeness auto
termination
  by (relation "measure (\<lambda>(ws, s). length s)") (auto dest: strip_any_shorter)

declare trim_left.simps [simp del]

definition trim :: "string \<Rightarrow> string" where
  "trim s = rev (trim_left (map rev white_space) (rev (trim_left white_space s)))"

lemma trim_left_None: "strip_any ws s = None \<Longrightarrow> trim_left ws s = s"
  by (simp add: trim_left.simps)

lemma trim_left_stop: "strip_any ws (trim_left ws s) = None"
  by (induction ws s rule: trim_left.induct)
     (metis option.case_eq_if option.collapse trim_left.simps)

lemma trim_left_suffix: "\<exists>p. s = p @ trim_left ws s"
proof (induction ws s rule: trim_left.induct)
  case (1 ws s)
  show ?case
  proof (cases "strip_any ws s")
    case None
    then show ?thesis by (simp add: trim_left_None)
  next
    case (Some r)
    with 1 obtain p where "r = p @ trim_left ws r" by blast
    moreover from Some obtain w where "s = w @ r" by (blast dest: strip_any_suffix)
    moreover from Some have "trim_left ws s = trim_left ws r" by (simp add: trim_left.simps [of ws s])
    ultimately show ?thesis by (metis append.assoc)
  qed
qed

lemma trim_id:
  "strip_any white_space s = None \<Longrightarrow> strip_any (map rev white_space) (rev s) = None \<Longrightarrow> trim s = s"
  by (simp add: trim_def trim_left_None)

section \<open>Case, lines of digits and numbers\<close>

definition to_ascii_lowercase :: "string \<Rightarrow> string" where
  "to_ascii_lowercase s =
     map (\<lambda>c. if 65 \<le> (of_char c :: nat) \<and> (of_char c :: nat) \<le> 90
              then char_of ((of_char c :: nat) + 32) else c) s"

definition is_ascii_digit :: "char \<Rightarrow> bool" where
  "is_ascii_digit c = (48 \<le> (of_char c :: nat) \<and> (of_char c :: nat) \<le> 57)"

definition is_ascii_lowercase :: "char \<Rightarrow> bool" where
  "is_ascii_lowercase c = (97 \<le> (of_char c :: nat) \<and> (of_char c :: nat) \<le> 122)"

definition is_ascii_alphanumeric :: "char \<Rightarrow> bool" where
  "is_ascii_alphanumeric c =
     (let n = (of_char c :: nat)
      in 48 \<le> n \<and> n \<le> 57 \<or> 65 \<le> n \<and> n \<le> 90 \<or> 97 \<le> n \<and> n \<le> 122)"

definition digit_char :: "nat \<Rightarrow> char" where
  "digit_char d = char_of (48 + d)"

text \<open>\<open>char::to_digit\<close> for a radix up to 16.\<close>

definition to_digit :: "nat \<Rightarrow> char \<Rightarrow> nat option" where
  "to_digit radix c =
     (let n = (of_char c :: nat);
          d = (if 48 \<le> n \<and> n \<le> 57 then Some (n - 48)
               else if 97 \<le> n \<and> n \<le> 102 then Some (n - 87)
               else if 65 \<le> n \<and> n \<le> 70 then Some (n - 55)
               else None)
      in case d of Some k \<Rightarrow> (if k < radix then Some k else None) | None \<Rightarrow> None)"

fun show_nat :: "nat \<Rightarrow> string" where
  "show_nat n = (if n < 10 then [digit_char n] else show_nat (n div 10) @ [digit_char (n mod 10)])"

declare show_nat.simps [simp del]

text \<open>\<open>str::parse\<close> for the unsigned types: an optional plus sign, then at least one digit, and
  an error as soon as the value exceeds the type's maximum.\<close>

fun parse_digits :: "nat \<Rightarrow> nat \<Rightarrow> string \<Rightarrow> nat option" where
  "parse_digits bound acc [] = Some acc"
| "parse_digits bound acc (c # cs) =
     (case to_digit 10 c of
        None \<Rightarrow> None
      | Some d \<Rightarrow> if acc * 10 + d \<le> bound then parse_digits bound (acc * 10 + d) cs else None)"

definition parse_unsigned :: "nat \<Rightarrow> string \<Rightarrow> nat option" where
  "parse_unsigned bound s =
     (case s of
        [] \<Rightarrow> None
      | c # cs \<Rightarrow> if c = CHR ''+'' then (if cs = [] then None else parse_digits bound 0 cs)
                  else parse_digits bound 0 s)"

definition parse_u8 :: "string \<Rightarrow> u8 option" where
  "parse_u8 s = map_option of_nat (parse_unsigned 255 s)"

definition parse_u16 :: "string \<Rightarrow> u16 option" where
  "parse_u16 s = map_option of_nat (parse_unsigned 65535 s)"

lemma of_char_digit_char [simp]: "d < 10 \<Longrightarrow> (of_char (digit_char d) :: nat) = 48 + d"
  by (simp add: digit_char_def)

lemma digit_char_simps [simp]:
  "digit_char 0 = CHR ''0''" "digit_char (Suc 0) = CHR ''1''" "digit_char 2 = CHR ''2''"
  "digit_char 3 = CHR ''3''" "digit_char 4 = CHR ''4''" "digit_char 5 = CHR ''5''"
  "digit_char 6 = CHR ''6''" "digit_char 7 = CHR ''7''" "digit_char 8 = CHR ''8''"
  "digit_char 9 = CHR ''9''"
  by (simp_all add: digit_char_def char_of_eq_iff)

lemma digit_char_ascii: "d < 10 \<Longrightarrow> is_ascii_digit (digit_char d)"
  by (simp add: is_ascii_digit_def)

lemma to_digit_digit_char [simp]: "d < 10 \<Longrightarrow> 10 \<le> r \<Longrightarrow> to_digit r (digit_char d) = Some d"
  by (simp add: to_digit_def)

lemma show_nat_nonempty [simp]: "show_nat n \<noteq> []"
  by (subst show_nat.simps) simp

lemma show_nat_digits: "\<forall>c\<in>set (show_nat n). is_ascii_digit c"
proof (induction n rule: show_nat.induct)
  case (1 n)
  then show ?case
    by (subst show_nat.simps) (auto intro!: digit_char_ascii)
qed

lemma non_digit_not_in_show: "\<not> is_ascii_digit c \<Longrightarrow> c \<notin> set (show_nat n)"
  using show_nat_digits by blast

lemma parse_digits_append:
  "parse_digits b acc (xs @ ys) =
     (case parse_digits b acc xs of None \<Rightarrow> None | Some a \<Rightarrow> parse_digits b a ys)"
  by (induction xs arbitrary: acc) (auto split: option.splits)

lemma parse_digits_show_nat: "n \<le> b \<Longrightarrow> parse_digits b 0 (show_nat n) = Some n"
proof (induction n rule: show_nat.induct)
  case (1 n)
  show ?case
  proof (cases "n < 10")
    case True
    with 1 show ?thesis by (subst show_nat.simps) simp
  next
    case False
    with 1 have "parse_digits b 0 (show_nat (n div 10)) = Some (n div 10)"
      by auto
    with False 1 show ?thesis
      by (subst show_nat.simps) (simp add: parse_digits_append)
  qed
qed

lemma show_nat_head: "hd (show_nat n) \<noteq> CHR ''+''"
proof -
  have "is_ascii_digit (hd (show_nat n))"
    using show_nat_digits [of n] show_nat_nonempty [of n] by (metis hd_in_set)
  then show ?thesis by (auto simp: is_ascii_digit_def)
qed

lemma parse_unsigned_show_nat: "n \<le> b \<Longrightarrow> parse_unsigned b (show_nat n) = Some n"
  using show_nat_head [of n] show_nat_nonempty [of n] parse_digits_show_nat [of n b]
  by (cases "show_nat n") (auto simp: parse_unsigned_def)

fun str_join :: "string \<Rightarrow> string list \<Rightarrow> string" where
  "str_join sep [] = []"
| "str_join sep [x] = x"
| "str_join sep (x # y # ys) = x @ sep @ str_join sep (y # ys)"

text \<open>\<open>format!\<close>: the pieces of a message in order. It is not unfolded in proofs, so that messages stay
  as they are written.\<close>

definition fmt :: "string list \<Rightarrow> string" where
  "fmt pieces = concat pieces"

text \<open>The text of an error with a context put before its cause.\<close>

definition with_context :: "string list \<Rightarrow> string \<Rightarrow> string" where
  "with_context message error = fmt (message @ ['': '', error])"

text \<open>Equations that evaluate these functions on literals.\<close>

lemmas str_eval = show_nat.simps parse_unsigned_def to_digit_def trim_def white_space_def
  trim_left.simps starts_with_def strip_suffix_def rsplit_once_def str_contains_def
  match_splits.simps str_replace.simps parse_u8_def parse_u16_def is_ascii_digit_def

end
