(* ===== verification/Ordered_Map.thy ===== *)
theory Ordered_Map
  imports Prelude
begin

text \<open>
  \<open>BTreeMap\<close> and \<open>BTreeSet\<close>. A map is the list of its entries in strictly ascending key order,
  which is the order in which Rust iterates over it; equality of lists is then equality of the
  maps. The interface is the locale \<open>ordered_map\<close>, whose laws the sorted association lists
  provide. A \<open>BTreeSet\<close> is a strictly ascending list, built with the library's
  \<open>insort_insert\<close>.
\<close>

type_synonym ('k, 'v) btree_map = "('k \<times> 'v) list"

definition bt_ok :: "('k::linorder, 'v) btree_map \<Rightarrow> bool" where
  "bt_ok m = sorted_wrt (<) (map fst m)"

fun bt_insert :: "'k::linorder \<Rightarrow> 'v \<Rightarrow> ('k, 'v) btree_map \<Rightarrow> ('k, 'v) btree_map" where
  "bt_insert k v [] = [(k, v)]"
| "bt_insert k v ((a, b) # m) =
     (if k < a then (k, v) # (a, b) # m
      else if k = a then (k, v) # m
      else (a, b) # bt_insert k v m)"

definition bt_remove :: "'k \<Rightarrow> ('k, 'v) btree_map \<Rightarrow> ('k, 'v) btree_map" where
  "bt_remove k m = filter (\<lambda>(a, b). a \<noteq> k) m"

definition bt_get :: "('k, 'v) btree_map \<Rightarrow> 'k \<Rightarrow> 'v option" where
  "bt_get m = map_of m"

definition bt_contains_key :: "('k, 'v) btree_map \<Rightarrow> 'k \<Rightarrow> bool" where
  "bt_contains_key m k = (bt_get m k \<noteq> None)"

definition bt_keys :: "('k, 'v) btree_map \<Rightarrow> 'k list" where
  "bt_keys m = map fst m"

text \<open>\<open>collect\<close> and \<open>extend\<close>: entries are inserted from left to right, so the last one wins.\<close>

definition bt_extend :: "('k::linorder, 'v) btree_map \<Rightarrow> ('k \<times> 'v) list \<Rightarrow> ('k, 'v) btree_map" where
  "bt_extend m xs = foldl (\<lambda>n (k, v). bt_insert k v n) m xs"

definition bt_collect :: "('k::linorder \<times> 'v) list \<Rightarrow> ('k, 'v) btree_map" where
  "bt_collect xs = bt_extend [] xs"

definition bs_collect :: "'k::linorder list \<Rightarrow> 'k list" where
  "bs_collect xs = foldl (\<lambda>s x. insort_insert x s) [] xs"

section \<open>The interface\<close>

locale ordered_map =
  fixes empty :: 'm
    and insert :: "'k::linorder \<Rightarrow> 'v \<Rightarrow> 'm \<Rightarrow> 'm"
    and remove :: "'k \<Rightarrow> 'm \<Rightarrow> 'm"
    and get :: "'m \<Rightarrow> 'k \<Rightarrow> 'v option"
    and entries :: "'m \<Rightarrow> ('k \<times> 'v) list"
    and ok :: "'m \<Rightarrow> bool"
  assumes get_empty: "get empty k = None"
    and get_insert: "get (insert k v m) = (get m)(k \<mapsto> v)"
    and get_remove: "get (remove k m) = (get m)(k := None)"
    and ok_empty: "ok empty"
    and ok_insert: "ok m \<Longrightarrow> ok (insert k v m)"
    and ok_remove: "ok m \<Longrightarrow> ok (remove k m)"
    and get_entries: "ok m \<Longrightarrow> get m k = Some v \<longleftrightarrow> (k, v) \<in> set (entries m)"
    and entries_sorted: "ok m \<Longrightarrow> sorted_wrt (<) (map fst (entries m))"
begin

definition insert_all :: "'m \<Rightarrow> ('k \<times> 'v) list \<Rightarrow> 'm" where
  "insert_all m xs = foldl (\<lambda>n (k, v). insert k v n) m xs"

lemma ok_insert_all: "ok m \<Longrightarrow> ok (insert_all m xs)"
  unfolding insert_all_def by (induction xs arbitrary: m) (auto intro: ok_insert)

lemma get_insert_all: "get (insert_all m xs) k =
    (case map_of (rev xs) k of Some v \<Rightarrow> Some v | None \<Rightarrow> get m k)"
  unfolding insert_all_def
proof (induction xs arbitrary: m)
  case (Cons x xs)
  obtain a b where x: "x = (a, b)" by (cases x)
  show ?case
    using Cons [of "insert a b m"]
    by (auto simp: x get_insert map_add_def split: option.splits)
qed simp

lemma get_insert_all_distinct:
  "distinct (map fst xs) \<Longrightarrow> (k, v) \<in> set xs \<Longrightarrow> get (insert_all m xs) k = Some v"
  by (simp add: get_insert_all rev_map [symmetric])

lemma entries_unique:
  "ok m \<Longrightarrow> (k, v) \<in> set (entries m) \<Longrightarrow> (k, w) \<in> set (entries m) \<Longrightarrow> v = w"
  using get_entries by (metis option.inject)

lemma entries_insert:
  "ok m \<Longrightarrow> set (entries (insert k v m)) =
     {(a, b). (a, b) \<in> set (entries m) \<and> a \<noteq> k} \<union> {(k, v)}"
  by (auto simp: get_entries [symmetric] ok_insert get_insert split: if_splits)

end

section \<open>Sorted association lists provide it\<close>

lemma bt_get_insert: "bt_get (bt_insert k v m) = (bt_get m)(k \<mapsto> v)"
  unfolding bt_get_def by (induction k v m rule: bt_insert.induct) auto

lemma bt_get_remove: "bt_get (bt_remove k m) = (bt_get m)(k := None)"
  unfolding bt_get_def bt_remove_def by (induction m) (auto simp: fun_eq_iff)

lemma fst_set_bt_insert: "fst ` set (bt_insert k v m) = insert k (fst ` set m)"
  by (induction k v m rule: bt_insert.induct) auto

lemma bt_ok_insert: "bt_ok m \<Longrightarrow> bt_ok (bt_insert k v m)"
proof (induction k v m rule: bt_insert.induct)
  case (2 k v a b m)
  then show ?case
    using fst_set_bt_insert [of k v m] by (auto simp: bt_ok_def dest: order.strict_trans)
qed (simp add: bt_ok_def)

lemma bt_ok_remove: "bt_ok m \<Longrightarrow> bt_ok (bt_remove k m)"
  unfolding bt_ok_def bt_remove_def by (induction m) auto

lemma bt_ok_distinct: "bt_ok m \<Longrightarrow> distinct (map fst m)"
  unfolding bt_ok_def strict_sorted_iff by simp

interpretation bt: ordered_map
  "[]" "bt_insert :: 'k::linorder \<Rightarrow> 'v \<Rightarrow> _" bt_remove bt_get "\<lambda>m. m" bt_ok
proof unfold_locales
  fix m :: "('k, 'v) btree_map" and k v
  show "bt_ok m \<Longrightarrow> bt_get m k = Some v \<longleftrightarrow> (k, v) \<in> set m"
    unfolding bt_get_def by (rule map_of_eq_Some_iff [OF bt_ok_distinct])
qed (auto simp: bt_get_insert bt_get_remove bt_ok_insert bt_ok_remove, auto simp: bt_get_def bt_ok_def)

lemma bt_extend_eq: "bt_extend m xs = bt.insert_all m xs"
  by (simp add: bt_extend_def bt.insert_all_def)

lemma bt_ok_collect [simp]: "bt_ok (bt_collect xs)"
  by (simp add: bt_collect_def bt_extend_eq bt.ok_insert_all bt.ok_empty)

lemma bt_get_collect:
  "bt_get (bt_collect xs) k = map_of (rev xs) k"
  by (simp add: bt_collect_def bt_extend_eq bt.get_insert_all bt.get_empty split: option.splits)

lemma bt_get_collect_distinct:
  "distinct (map fst xs) \<Longrightarrow> bt_get (bt_collect xs) = map_of xs"
  by (rule ext, unfold bt_get_collect, rule map_of_eqI [THEN fun_cong])
     (auto simp: rev_map [symmetric] map_of_eq_None_iff)

lemma bt_ok_Nil [simp]: "bt_ok []"
  by (simp add: bt_ok_def)

lemma bt_get_SomeD: "bt_get m k = Some v \<Longrightarrow> (k, v) \<in> set m"
  by (simp add: bt_get_def map_of_SomeD)

lemma set_bs_collect [simp]: "set (bs_collect xs) = set xs"
proof -
  have "set (foldl (\<lambda>s x. insort_insert x s) s xs) = set s \<union> set xs" for s
    by (induction xs arbitrary: s) (auto simp: set_insort_insert)
  then show ?thesis by (simp add: bs_collect_def)
qed

lemma sorted_bs_collect [simp]: "sorted (bs_collect xs)"
proof -
  have "sorted s \<Longrightarrow> sorted (foldl (\<lambda>s x. insort_insert x s) s xs)" for s
    by (induction xs arbitrary: s) (auto simp: sorted_insort_insert)
  then show ?thesis by (simp add: bs_collect_def)
qed

lemma distinct_bs_collect [simp]: "distinct (bs_collect xs)"
proof -
  have "distinct s \<Longrightarrow> distinct (foldl (\<lambda>s x. insort_insert x s) s xs)" for s
    by (induction xs arbitrary: s) (auto simp: distinct_insort_insert)
  then show ?thesis by (simp add: bs_collect_def)
qed

end
