(* ===== verification/Compose_Model.thy ===== *)
theory Compose_Model
  imports Rust_Str Ordered_Map
begin

text \<open>
  The Compose configuration of \<open>src/runtime/compose_cli/config.rs\<close>: JSON values of
  \<open>serde_json\<close>, the model that \<open>docker compose config\<close> is deserialized into, the three
  hand-written deserializers, and the model's queries and validations. The text of a JSON value
  in an error message is written by \<open>serde_json\<close> and is the parameter \<open>json_text\<close>. An error of
  \<open>anyhow\<close> is its message.
\<close>

type_synonym 'a result = "string + 'a"

section \<open>JSON values\<close>

text \<open>A number of \<open>serde_json\<close> is an unsigned or a negative integer or a float, whose text is kept
  as it is. An object is a \<open>BTreeMap\<close>.\<close>

datatype json_number = Pos_Int nat | Neg_Int int | Float_Text string

datatype json =
    J_Null
  | J_Bool bool
  | J_Number json_number
  | J_String string
  | J_Array "json list"
  | J_Object "(string \<times> json) list"

fun json_as_str :: "json \<Rightarrow> string option" where
  "json_as_str (J_String s) = Some s"
| "json_as_str _ = None"

fun json_as_object :: "json \<Rightarrow> (string, json) btree_map option" where
  "json_as_object (J_Object m) = Some m"
| "json_as_object _ = None"

fun number_as_u64 :: "json_number \<Rightarrow> nat option" where
  "number_as_u64 (Pos_Int n) = Some n"
| "number_as_u64 _ = None"

section \<open>The deserialized model\<close>

record compose_config_ipam_config =
  ic_subnet :: "string option"
  ic_gateway :: "string option"
  ic_ip_range :: "string option"
  ic_aux_addresses :: "(string, string) btree_map"
  ic_additional_fields :: "(string, json) btree_map"

record compose_config_ipam =
  ipam_driver :: "string option"
  ipam_config :: "compose_config_ipam_config list"

record compose_config_resource =
  res_name :: "string option"
  res_driver :: "string option"
  res_external :: bool
  res_ipam :: "compose_config_ipam option"

record compose_config_service =
  svc_image :: "string option"
  svc_build :: "json option"
  svc_user :: "string option"
  svc_working_dir :: "string option"
  svc_network_mode :: "string option"
  svc_ipc :: "string option"
  svc_pid :: "string option"
  svc_scale :: "nat option"
  svc_deploy_replicas :: "nat option"
  svc_entrypoint :: "string list option"
  svc_command :: "string list option"
  svc_container_name :: "string option"
  svc_networks :: "(string, json) btree_map"
  svc_ports :: "json list"
  svc_environment :: "(string, json) btree_map"
  svc_volumes_from :: "string list"
  svc_external_links :: "string list"

record compose_config_model =
  cm_services :: "(string, compose_config_service) btree_map"
  cm_networks :: "(string, compose_config_resource) btree_map"
  cm_volumes :: "(string, compose_config_resource) btree_map"
  cm_configs :: "(string, compose_config_resource) btree_map"
  cm_secrets :: "(string, compose_config_resource) btree_map"

section \<open>Deserializers\<close>

fun deserialize_compose_external :: "json option \<Rightarrow> bool" where
  "deserialize_compose_external (Some (J_Bool value)) = value"
| "deserialize_compose_external (Some (J_Object _)) = True"
| "deserialize_compose_external _ = False"

fun deserialize_compose_startup_value ::
  "(json \<Rightarrow> string) \<Rightarrow> json option \<Rightarrow> string list option result" where
  "deserialize_compose_startup_value json_text None = Inr None"
| "deserialize_compose_startup_value json_text (Some value) =
     (case value of
        J_Null \<Rightarrow> Inr None
      | J_String s \<Rightarrow> if s = [] then Inr (Some []) else Inr (Some [s])
      | J_Array values \<Rightarrow>
          bind_res
            (try_map
              (\<lambda>item. case item of
                 J_String s \<Rightarrow> Inr s
               | other \<Rightarrow> Inl (fmt [''Docker Compose startup value must contain only strings: '', json_text other]))
              values)
            (\<lambda>items. Inr (Some items))
      | other \<Rightarrow> Inl (fmt [''Docker Compose startup value must be null, string, or string array: '', json_text other]))"

fun deserialize_compose_service_networks ::
  "(json \<Rightarrow> string) \<Rightarrow> json \<Rightarrow> (string, json) btree_map result" where
  "deserialize_compose_service_networks json_text value =
     (case value of
        J_Object values \<Rightarrow> Inr (bt_collect values)
      | J_Array values \<Rightarrow>
          bind_res
            (try_map
              (\<lambda>item. case item of
                 J_String network \<Rightarrow> Inr (network, J_Null)
               | other \<Rightarrow> Inl (fmt [''Docker Compose service networks list must contain only strings: '', json_text other]))
              values)
            (\<lambda>entries. Inr (bt_collect entries))
      | J_Null \<Rightarrow> Inr []
      | other \<Rightarrow> Inl (fmt [''Docker Compose service networks must be an object or string array: '', json_text other]))"

section \<open>Queries\<close>

definition has_service :: "compose_config_model \<Rightarrow> string \<Rightarrow> bool" where
  "has_service model service = bt_contains_key (cm_services model) service"

definition model_service :: "compose_config_model \<Rightarrow> string \<Rightarrow> compose_config_service option" where
  "model_service model service = bt_get (cm_services model) service"

definition has_network :: "compose_config_model \<Rightarrow> string \<Rightarrow> bool" where
  "has_network model network = bt_contains_key (cm_networks model) network"

definition effective_replica_count :: "compose_config_service \<Rightarrow> nat" where
  "effective_replica_count service =
     (case (case svc_scale service of Some n \<Rightarrow> Some n | None \<Rightarrow> svc_deploy_replicas service) of
        Some n \<Rightarrow> n
      | None \<Rightarrow> 1)"

definition uses_host_network :: "compose_config_service \<Rightarrow> bool" where
  "uses_host_network service = (svc_network_mode service = Some ''host'')"

definition network_names :: "compose_config_service \<Rightarrow> string list" where
  "network_names service = bt_keys (svc_networks service)"

definition network_config :: "compose_config_service \<Rightarrow> string \<Rightarrow> json option" where
  "network_config service network = bt_get (svc_networks service) network"

definition environment_values :: "compose_config_service \<Rightarrow> (string \<times> string) list" where
  "environment_values service =
     filter_map (\<lambda>(name, value). map_option (\<lambda>s. (name, s)) (json_as_str value)) (svc_environment service)"

section \<open>Validation\<close>

record compose_service_validation =
  sv_primary_service :: string
  sv_run_services :: "string list option"
  sv_workspace_folder :: string
  sv_project_name :: string

definition missing_compose_service_error :: "string \<Rightarrow> string \<Rightarrow> string \<Rightarrow> string" where
  "missing_compose_service_error project_name role service =
     fmt [''Docker Compose project '', project_name, '' does not contain '', role, '' `'', service,
          ''`. The service may be disabled by Compose profiles'']"

definition validate_absolute_workspace_folder :: "string \<Rightarrow> unit result" where
  "validate_absolute_workspace_folder workspace_folder =
     (if starts_with ''/'' workspace_folder then Inr ()
      else Inl (fmt [''workspaceFolder must be an absolute container path: '', workspace_folder]))"

fun validate_run_services :: "compose_config_model \<Rightarrow> string \<Rightarrow> string list \<Rightarrow> unit result" where
  "validate_run_services model project_name [] = Inr ()"
| "validate_run_services model project_name (service # services) =
     (if \<not> has_service model service
      then Inl (missing_compose_service_error project_name ''runServices service'' service)
      else validate_run_services model project_name services)"

definition validate_services :: "compose_config_model \<Rightarrow> compose_service_validation \<Rightarrow> unit result" where
  "validate_services model validation =
     bind_res (validate_absolute_workspace_folder (sv_workspace_folder validation)) (\<lambda>_.
       if \<not> has_service model (sv_primary_service validation)
       then Inl (missing_compose_service_error (sv_project_name validation) ''primary service''
                  (sv_primary_service validation))
       else case sv_run_services validation of
              Some run_services \<Rightarrow> validate_run_services model (sv_project_name validation) run_services
            | None \<Rightarrow> Inr ())"

section \<open>The image of the primary service\<close>

record compose_primary_image =
  pi_base_image :: string
  pi_has_build :: bool

definition resolve_primary_image ::
  "string \<Rightarrow> string \<Rightarrow> compose_config_model \<Rightarrow> compose_primary_image result" where
  "resolve_primary_image project_name service model =
     (case model_service model service of
        None \<Rightarrow> Inl (fmt [''Docker Compose project '', project_name, '' primary service `'', service, ''` is missing''])
      | Some service_model \<Rightarrow>
          let has_build = (svc_build service_model \<noteq> None) in
          case (case svc_image service_model of
                  Some img \<Rightarrow> if trim img \<noteq> [] then Some img else None
                | None \<Rightarrow> None) of
            Some img \<Rightarrow> Inr \<lparr>pi_base_image = img, pi_has_build = has_build\<rparr>
          | None \<Rightarrow>
              if has_build
              then Inr \<lparr>pi_base_image = project_name @ ''-'' @ service, pi_has_build = has_build\<rparr>
              else Inl (fmt [''Docker Compose project '', project_name, '' primary service `'', service,
                         ''` did not resolve an image or build'']))"

section \<open>Lemmas\<close>

lemma validate_run_services_ok:
  "validate_run_services model p ss = Inr u \<longleftrightarrow> (\<forall>s\<in>set ss. has_service model s)"
  by (induction ss) auto

lemma has_service_iff: "has_service model s \<longleftrightarrow> model_service model s \<noteq> None"
  by (simp add: has_service_def model_service_def bt_contains_key_def)

lemma service_networks_ok:
  "deserialize_compose_service_networks json_text j = Inr m \<Longrightarrow> bt_ok m"
  by (cases j) (auto simp: bind_res_Inr_iff)

lemma set_environment_values:
  "(k, v) \<in> set (environment_values service) \<longleftrightarrow> (k, J_String v) \<in> set (svc_environment service)"
proof -
  have "json_as_str j = Some v \<longleftrightarrow> j = J_String v" for j by (cases j) auto
  then show ?thesis by (force simp: environment_values_def set_filter_map)
qed

section \<open>Properties\<close>

text \<open>validate_services accepts exactly the models that contain the primary service and
  every run service, with an absolute workspace folder.\<close>

theorem validated_services_exist:
  "validate_services model validation = Inr () \<longleftrightarrow>
     (\<exists>rest. sv_workspace_folder validation = CHR ''/'' # rest) \<and>
     model_service model (sv_primary_service validation) \<noteq> None \<and>
     (\<forall>services. sv_run_services validation = Some services \<longrightarrow>
        (\<forall>s\<in>set services. model_service model s \<noteq> None))"
  by (auto simp: validate_services_def bind_res_Inr_iff validate_absolute_workspace_folder_def
      starts_with_def has_service_iff validate_run_services_ok strip_prefix_Some_iff
      split: option.splits if_splits)

definition example_service :: compose_config_service where
  "example_service = \<lparr>svc_image = Some ''img'', svc_build = None, svc_user = None,
     svc_working_dir = None, svc_network_mode = None, svc_ipc = None, svc_pid = None,
     svc_scale = None, svc_deploy_replicas = None, svc_entrypoint = None, svc_command = None,
     svc_container_name = None, svc_networks = [], svc_ports = [], svc_environment = [],
     svc_volumes_from = [], svc_external_links = []\<rparr>"

definition example_model :: "(string \<times> compose_config_service) list \<Rightarrow> compose_config_model" where
  "example_model services = \<lparr>cm_services = services, cm_networks = [], cm_volumes = [],
     cm_configs = [], cm_secrets = []\<rparr>"

theorem validated_services_exist_witness:
  "validate_services (example_model [(''app'', example_service)])
     \<lparr>sv_primary_service = ''app'', sv_run_services = Some [''app''],
      sv_workspace_folder = ''/work'', sv_project_name = ''p''\<rparr> = Inr ()"
  unfolding validated_services_exist
  by (simp add: example_model_def model_service_def bt_get_def)

end
