(* ===== verification/Ip_Addr.thy ===== *)
theory Ip_Addr
  imports Rust_Str
begin

text \<open>
  The address parsers of Rust's \<open>std::net\<close>, which the planners call through \<open>str::parse\<close>, and
  the display of an IPv4 address. A parser consumes a prefix of the remaining bytes; where it
  fails it consumes nothing (\<open>read_atomically\<close>), so its result is an option.
\<close>

type_synonym ipv4_addr = u32

datatype ip_addr = V4 ipv4_addr | V6 "u16 list"

definition octet :: "ipv4_addr \<Rightarrow> nat \<Rightarrow> nat" where
  "octet a i = unat a div 256 ^ i mod 256"

definition show_ipv4 :: "ipv4_addr \<Rightarrow> string" where
  "show_ipv4 a = show_nat (octet a 3) @ ''.'' @ show_nat (octet a 2) @ ''.'' @
                 show_nat (octet a 1) @ ''.'' @ show_nat (octet a 0)"

definition ipv4_of_octets :: "nat \<Rightarrow> nat \<Rightarrow> nat \<Rightarrow> nat \<Rightarrow> ipv4_addr" where
  "ipv4_of_octets a b c d = of_nat (a * 16777216 + b * 65536 + c * 256 + d)"

section \<open>Reading numbers and separators\<close>

definition digits_value :: "nat \<Rightarrow> string \<Rightarrow> nat" where
  "digits_value radix ds = foldl (\<lambda>acc c. acc * radix + the (to_digit radix c)) 0 ds"

definition read_number :: "nat \<Rightarrow> nat \<Rightarrow> bool \<Rightarrow> nat \<Rightarrow> string \<Rightarrow> (nat \<times> string) option" where
  "read_number radix max_digits allow_zero_prefix bound s =
     (let ds = takeWhile (\<lambda>c. to_digit radix c \<noteq> None) s;
          rest = dropWhile (\<lambda>c. to_digit radix c \<noteq> None) s
      in if ds = [] \<or> max_digits < length ds then None
         else if \<not> allow_zero_prefix \<and> hd ds = CHR ''0'' \<and> 1 < length ds then None
         else if bound < digits_value radix ds then None
         else Some (digits_value radix ds, rest))"

definition read_separator ::
  "char \<Rightarrow> nat \<Rightarrow> (string \<Rightarrow> ('a \<times> string) option) \<Rightarrow> string \<Rightarrow> ('a \<times> string) option" where
  "read_separator sep index inner s =
     (if index = 0 then inner s
      else case s of
             [] \<Rightarrow> None
           | c # cs \<Rightarrow> if c = sep then inner cs else None)"

section \<open>IPv4\<close>

definition read_octet :: "string \<Rightarrow> (nat \<times> string) option" where
  "read_octet = read_number 10 3 False 255"

definition read_ipv4 :: "string \<Rightarrow> (ipv4_addr \<times> string) option" where
  "read_ipv4 s =
     (case read_separator CHR ''.'' 0 read_octet s of
        None \<Rightarrow> None
      | Some (a, s1) \<Rightarrow>
          (case read_separator CHR ''.'' 1 read_octet s1 of
             None \<Rightarrow> None
           | Some (b, s2) \<Rightarrow>
               (case read_separator CHR ''.'' 2 read_octet s2 of
                  None \<Rightarrow> None
                | Some (c, s3) \<Rightarrow>
                    (case read_separator CHR ''.'' 3 read_octet s3 of
                       None \<Rightarrow> None
                     | Some (d, s4) \<Rightarrow> Some (ipv4_of_octets a b c d, s4)))))"

text \<open>\<open>Ipv4Addr::from_str\<close> refuses more than 15 bytes and a remainder.\<close>

definition parse_ipv4 :: "string \<Rightarrow> ipv4_addr option" where
  "parse_ipv4 s =
     (if 15 < length s then None
      else case read_ipv4 s of
             Some (a, []) \<Rightarrow> Some a
           | _ \<Rightarrow> None)"

section \<open>IPv6\<close>

definition read_group :: "string \<Rightarrow> (nat \<times> string) option" where
  "read_group = read_number 16 4 True 65535"

text \<open>
  \<open>read_groups i n\<close> reads the groups with indices from \<open>i\<close>, where \<open>n\<close> of the limit are left:
  the groups read, whether they end in an embedded IPv4 address, and the remaining bytes. An
  embedded address needs two groups.
\<close>

fun read_groups :: "nat \<Rightarrow> nat \<Rightarrow> string \<Rightarrow> u16 list \<times> bool \<times> string" where
  "read_groups i 0 s = ([], False, s)"
| "read_groups i (Suc n) s =
     (case (if 0 < n then read_separator CHR '':'' i read_ipv4 s else None) of
        Some (v4, r) \<Rightarrow> ([of_nat (unat v4 div 65536), of_nat (unat v4 mod 65536)], True, r)
      | None \<Rightarrow>
          (case read_separator CHR '':'' i read_group s of
             None \<Rightarrow> ([], False, s)
           | Some (g, r) \<Rightarrow>
               (case read_groups (Suc i) n r of
                  (gs, v, t) \<Rightarrow> (of_nat g # gs, v, t))))"

definition read_ipv6 :: "string \<Rightarrow> (u16 list \<times> string) option" where
  "read_ipv6 s =
     (case read_groups 0 8 s of
        (head, head_ipv4, s1) \<Rightarrow>
          if length head = 8 then Some (head, s1)
          else if head_ipv4 then None
          else case strip_prefix ''::'' s1 of
                 None \<Rightarrow> None
               | Some s2 \<Rightarrow>
                   (case read_groups 0 (8 - (length head + 1)) s2 of
                      (tail, _, s3) \<Rightarrow>
                        Some (head @ replicate (8 - length head - length tail) 0 @ tail, s3)))"

definition parse_ip :: "string \<Rightarrow> ip_addr option" where
  "parse_ip s =
     (case read_ipv4 s of
        Some (a, r) \<Rightarrow> if r = [] then Some (V4 a) else None
      | None \<Rightarrow>
          (case read_ipv6 s of
             Some (gs, r) \<Rightarrow> if r = [] then Some (V6 gs) else None
           | None \<Rightarrow> None))"

fun is_unspecified :: "ip_addr \<Rightarrow> bool" where
  "is_unspecified (V4 a) = (a = 0)"
| "is_unspecified (V6 gs) = (gs = replicate 8 0)"

fun is_ipv6 :: "ip_addr \<Rightarrow> bool" where
  "is_ipv6 (V4 a) = False"
| "is_ipv6 (V6 gs) = True"

section \<open>An address read back from its display\<close>

lemma octet_bound [simp]: "octet a i < 256"
  by (simp add: octet_def)

lemma base_256_digits:
  "n = q1 * 256 + r0 \<Longrightarrow> q1 = q2 * 256 + r1 \<Longrightarrow> q2 = q3 * 256 + r2 \<Longrightarrow>
   q3 * 16777216 + r2 * 65536 + r1 * 256 + r0 = n" for n :: nat
  by simp

lemma nat_base_256:
  "n div 16777216 * 16777216 + n div 65536 mod 256 * 65536 + n div 256 mod 256 * 256 + n mod 256
   = n" for n :: nat
proof (rule base_256_digits [of n "n div 256" _ "n div 65536"])
  have q2: "n div 65536 = n div 256 div 256" by (simp add: div_mult2_eq [symmetric])
  have q3: "n div 16777216 = n div 65536 div 256" by (simp add: div_mult2_eq [symmetric])
  show "n = n div 256 * 256 + n mod 256" by simp
  show "n div 256 = n div 65536 * 256 + n div 256 mod 256" unfolding q2 by simp
  show "n div 65536 = n div 16777216 * 256 + n div 65536 mod 256" unfolding q3 by simp
qed

lemma octets_of_addr [simp]:
  "ipv4_of_octets (octet a 3) (octet a 2) (octet a (Suc 0)) (octet a 0) = a"
proof -
  have "unat a div 16777216 mod 256 = unat a div 16777216"
    using unat_u32_bound [of a] by (intro mod_less) (simp add: less_mult_imp_div_less)
  then show ?thesis
    using nat_base_256 [of "unat a"]
    by (simp add: ipv4_of_octets_def octet_def del: of_nat_add of_nat_mult)
qed

lemma octet_of_octets:
  assumes "a < 256" "b < 256" "c < 256" "d < 256"
  shows "unat (ipv4_of_octets a b c d) = a * 16777216 + b * 65536 + c * 256 + d"
  unfolding ipv4_of_octets_def by (rule unat_of_nat_u32) (use assms in simp)

lemma to_digit_ascii_digit: "is_ascii_digit c \<Longrightarrow> to_digit 10 c \<noteq> None"
  by (auto simp: is_ascii_digit_def to_digit_def Let_def)

lemma to_digit_of_show: "c \<in> set (show_nat n) \<Longrightarrow> to_digit 10 c \<noteq> None"
  using show_nat_digits to_digit_ascii_digit by blast

lemma digits_value_show_nat: "digits_value 10 (show_nat n) = n"
proof (induction n rule: show_nat.induct)
  case (1 n)
  show ?case
  proof (cases "n < 10")
    case True
    then show ?thesis by (subst show_nat.simps) (simp add: digits_value_def)
  next
    case False
    with 1 have "digits_value 10 (show_nat (n div 10)) = n div 10" by simp
    with False show ?thesis by (subst show_nat.simps) (simp add: digits_value_def)
  qed
qed

lemma show_nat_two: "n < 100 \<Longrightarrow> 10 \<le> n \<Longrightarrow> show_nat n = [digit_char (n div 10), digit_char (n mod 10)]"
  by (subst show_nat.simps, subst show_nat.simps) auto

lemma show_nat_three:
  "n < 1000 \<Longrightarrow> 100 \<le> n \<Longrightarrow>
   show_nat n = [digit_char (n div 100), digit_char (n div 10 mod 10), digit_char (n mod 10)]"
proof -
  assume n: "n < 1000" "100 \<le> n"
  then have "n div 10 < 100" "10 \<le> n div 10" by auto
  then have "show_nat (n div 10) = [digit_char (n div 10 div 10), digit_char (n div 10 mod 10)]"
    by (rule show_nat_two)
  moreover have "show_nat n = show_nat (n div 10) @ [digit_char (n mod 10)]"
    using n by (subst show_nat.simps) simp
  moreover have "n div 10 div 10 = n div 100" by (simp add: div_mult2_eq [symmetric])
  ultimately show ?thesis by simp
qed

lemma digit_char_eq_0: "d < 10 \<Longrightarrow> digit_char d = CHR ''0'' \<longleftrightarrow> d = 0"
proof -
  assume d: "d < 10"
  have "digit_char d = CHR ''0'' \<longleftrightarrow> (of_char (digit_char d) :: nat) = of_char (CHR ''0'')"
    by (metis char_of_char)
  then show ?thesis using d by simp
qed

lemma show_octet_shape:
  assumes "n < 256"
  shows "length (show_nat n) \<le> 3 \<and> (hd (show_nat n) = CHR ''0'' \<longrightarrow> length (show_nat n) = 1)"
proof -
  consider "n < 10" | "10 \<le> n" "n < 100" | "100 \<le> n" "n < 1000" using assms by linarith
  then show ?thesis
  proof cases
    case 1
    then have "show_nat n = [digit_char n]" by (subst show_nat.simps) simp
    then show ?thesis by simp
  next
    case 2
    then show ?thesis by (auto simp: show_nat_two digit_char_eq_0)
  next
    case 3
    then show ?thesis by (auto simp: show_nat_three digit_char_eq_0)
  qed
qed

lemma read_octet_show:
  assumes "n < 256" "\<forall>c. r \<noteq> [] \<longrightarrow> c = hd r \<longrightarrow> to_digit 10 c = None"
  shows "read_octet (show_nat n @ r) = Some (n, r)"
proof -
  have all: "\<forall>c\<in>set (show_nat n). to_digit 10 c \<noteq> None" using to_digit_of_show by blast
  have tk: "takeWhile (\<lambda>c. to_digit 10 c \<noteq> None) (show_nat n @ r) = show_nat n"
    using all assms(2) by (cases r) auto
  have dr: "dropWhile (\<lambda>c. to_digit 10 c \<noteq> None) (show_nat n @ r) = r"
    using all assms(2) by (cases r) auto
  show ?thesis
    unfolding read_octet_def read_number_def tk dr
    using show_octet_shape [OF assms(1)] assms(1)
    by (auto simp: Let_def digits_value_show_nat)
qed

lemma to_digit_dot [simp]: "to_digit 10 CHR ''.'' = None"
  by (simp add: to_digit_def)

lemma read_ipv4_show:
  assumes "\<forall>c. r \<noteq> [] \<longrightarrow> c = hd r \<longrightarrow> to_digit 10 c = None"
  shows "read_ipv4 (show_ipv4 a @ r) = Some (a, r)"
  using assms
  by (simp add: read_ipv4_def show_ipv4_def read_separator_def read_octet_show octets_of_addr)

lemma length_show_ipv4: "length (show_ipv4 a) \<le> 15"
proof -
  have "length (show_nat (octet a i)) \<le> 3" for i
    using show_octet_shape [of "octet a i"] by simp
  from this [of 0] this [of 1] this [of 2] this [of 3] show ?thesis
    by (simp add: show_ipv4_def)
qed

lemma parse_show_ipv4: "parse_ipv4 (show_ipv4 a) = Some a"
  using read_ipv4_show [of "[]" a] length_show_ipv4 [of a] by (simp add: parse_ipv4_def)

lemma parse_ip_show_ipv4: "parse_ip (show_ipv4 a) = Some (V4 a)"
  using read_ipv4_show [of "[]" a] by (simp add: parse_ip_def)

lemma slash_not_in_show_ipv4: "CHR ''/'' \<notin> set (show_ipv4 a)"
proof -
  have "CHR ''/'' \<notin> set (show_nat n)" for n
    by (rule non_digit_not_in_show) (simp add: is_ascii_digit_def)
  then show ?thesis by (simp add: show_ipv4_def)
qed

section \<open>An IPv4 address has one spelling\<close>

lemma to_digit_SomeD: "to_digit 10 c = Some k \<Longrightarrow> k < 10 \<and> digit_char k = c"
  by (auto simp: to_digit_def digit_char_def Let_def split: if_splits)

lemma digits_value_snoc: "digits_value 10 (ds @ [c]) = digits_value 10 ds * 10 + the (to_digit 10 c)"
  by (simp add: digits_value_def)

lemma show_digits_value:
  assumes "ds \<noteq> []" "\<forall>c\<in>set ds. to_digit 10 c \<noteq> None" "hd ds = CHR ''0'' \<longrightarrow> length ds = 1"
  shows "show_nat (digits_value 10 ds) = ds"
  using assms
proof (induction ds rule: rev_induct)
  case (snoc c ds)
  obtain k where k: "to_digit 10 c = Some k" using snoc.prems(2) by auto
  then have d: "k < 10" "digit_char k = c" using to_digit_SomeD by blast+
  show ?case
  proof (cases "ds = []")
    case True
    then show ?thesis
      using k d by (subst show_nat.simps) (simp add: digits_value_def)
  next
    case False
    then have hd: "hd ds \<noteq> CHR ''0''" using snoc.prems(3) by auto
    have IH: "show_nat (digits_value 10 ds) = ds" using snoc False hd by simp
    have pos: "0 < digits_value 10 ds"
    proof (rule ccontr)
      assume "\<not> 0 < digits_value 10 ds"
      then have "ds = ''0''" using IH by (subst (asm) show_nat.simps) simp
      then show False using hd by simp
    qed
    have n: "digits_value 10 (ds @ [c]) = digits_value 10 ds * 10 + k" using k by (simp add: digits_value_snoc)
    then show ?thesis using pos d IH by (subst show_nat.simps) simp
  qed
qed simp

lemma read_octet_SomeD: "read_octet s = Some (n, r) \<Longrightarrow> s = show_nat n @ r \<and> n < 256"
proof -
  assume a: "read_octet s = Some (n, r)"
  let ?ds = "takeWhile (\<lambda>c. to_digit 10 c \<noteq> None) s"
  have "?ds \<noteq> []" "hd ?ds = CHR ''0'' \<longrightarrow> \<not> 1 < length ?ds" "digits_value 10 ?ds \<le> 255"
      "n = digits_value 10 ?ds" "r = dropWhile (\<lambda>c. to_digit 10 c \<noteq> None) s"
    using a by (auto simp: read_octet_def read_number_def Let_def split: if_splits)
  moreover have "show_nat (digits_value 10 ?ds) = ?ds"
  proof (rule show_digits_value)
    show "?ds \<noteq> []" by fact
    show "\<forall>c\<in>set ?ds. to_digit 10 c \<noteq> None" by (auto dest: set_takeWhileD)
    show "hd ?ds = CHR ''0'' \<longrightarrow> length ?ds = 1"
      using \<open>hd ?ds = _ \<longrightarrow> _\<close> \<open>?ds \<noteq> []\<close> by (cases ?ds) auto
  qed
  ultimately show ?thesis by simp
qed

lemma read_separator_SomeD:
  "read_separator sep i inner s = Some (n, r) \<Longrightarrow> i \<noteq> 0 \<Longrightarrow> \<exists>t. s = sep # t \<and> inner t = Some (n, r)"
  by (auto simp: read_separator_def split: list.splits if_splits)

lemma low_byte: "d < 256 \<Longrightarrow> (m * 256 + d) mod 256 = d" "d < 256 \<Longrightarrow> (m * 256 + d) div 256 = m" for m d :: nat
  by simp_all

lemma octet_of_digits:
  assumes "a < 256" "b < 256" "c < 256" "d < 256"
  shows "octet (ipv4_of_octets a b c d) 3 = a" "octet (ipv4_of_octets a b c d) 2 = b"
    "octet (ipv4_of_octets a b c d) 1 = c" "octet (ipv4_of_octets a b c d) 0 = d"
proof -
  define n where "n = a * 16777216 + b * 65536 + c * 256 + d"
  have u: "unat (ipv4_of_octets a b c d) = n" unfolding n_def using assms by (rule octet_of_octets)
  have n: "n = ((a * 256 + b) * 256 + c) * 256 + d" unfolding n_def by simp
  have 1: "n mod 256 = d" "n div 256 = (a * 256 + b) * 256 + c" unfolding n by (rule low_byte [OF assms(4)])+
  have 2: "n div 256 mod 256 = c" "n div 256 div 256 = a * 256 + b" unfolding 1(2) by (rule low_byte [OF assms(3)])+
  have 3: "n div 256 div 256 mod 256 = b" "n div 256 div 256 div 256 = a" unfolding 2(2) by (rule low_byte [OF assms(2)])+
  have q: "n div 65536 = n div 256 div 256" "n div 16777216 = n div 256 div 256 div 256"
    by (simp_all add: div_mult2_eq [symmetric])
  show "octet (ipv4_of_octets a b c d) 3 = a" "octet (ipv4_of_octets a b c d) 2 = b"
    "octet (ipv4_of_octets a b c d) 1 = c" "octet (ipv4_of_octets a b c d) 0 = d"
    using assms(1) by (simp_all only: octet_def u) (simp_all add: q 1(1) 2(1) 3)
qed

lemma read_ipv4_SomeD:
  assumes "read_ipv4 s = Some (x, r)"
  shows "s = show_ipv4 x @ r"
proof -
  obtain a b c d s1 s2 s3 where
    a: "read_octet s = Some (a, s1)" and b: "read_separator CHR ''.'' 1 read_octet s1 = Some (b, s2)" and
    c: "read_separator CHR ''.'' 2 read_octet s2 = Some (c, s3)" and
    d: "read_separator CHR ''.'' 3 read_octet s3 = Some (d, r)" and x: "x = ipv4_of_octets a b c d"
    using assms by (auto simp: read_ipv4_def read_separator_def split: option.splits)
  obtain t1 where t1: "s1 = CHR ''.'' # t1" "read_octet t1 = Some (b, s2)"
    using read_separator_SomeD [OF b] by auto
  obtain t2 where t2: "s2 = CHR ''.'' # t2" "read_octet t2 = Some (c, s3)"
    using read_separator_SomeD [OF c] by auto
  obtain t3 where t3: "s3 = CHR ''.'' # t3" "read_octet t3 = Some (d, r)"
    using read_separator_SomeD [OF d] by auto
  note o = read_octet_SomeD [OF a] read_octet_SomeD [OF t1(2)] read_octet_SomeD [OF t2(2)] read_octet_SomeD [OF t3(2)]
  then have "octet x 3 = a" "octet x 2 = b" "octet x 1 = c" "octet x 0 = d"
    unfolding x using octet_of_digits [of a b c d] by blast+
  then show ?thesis using o t1 t2 t3 by (simp add: show_ipv4_def)
qed

lemma parse_ip_V4D: "parse_ip s = Some (V4 a) \<Longrightarrow> s = show_ipv4 a"
  using read_ipv4_SomeD [of s a "[]"] by (auto simp: parse_ip_def split: option.splits if_splits)

lemma parse_ipv4_SomeD: "parse_ipv4 s = Some a \<Longrightarrow> s = show_ipv4 a"
  using read_ipv4_SomeD [of s a "[]"]
  by (auto simp: parse_ipv4_def split: option.splits list.splits if_splits)

text \<open>Equations that evaluate the parsers on literals.\<close>

lemma read_groups_numeral [simp]:
  "read_groups i (numeral n) s =
     (case (if 0 < (pred_numeral n :: nat) then read_separator CHR '':'' i read_ipv4 s else None) of
        Some (v4, r) \<Rightarrow> ([of_nat (unat v4 div 65536), of_nat (unat v4 mod 65536)], True, r)
      | None \<Rightarrow>
          (case read_separator CHR '':'' i read_group s of
             None \<Rightarrow> ([], False, s)
           | Some (g, r) \<Rightarrow>
               (case read_groups (Suc i) (pred_numeral n) r of
                  (gs, v, t) \<Rightarrow> (of_nat g # gs, v, t))))"
  by (simp only: numeral_eq_Suc read_groups.simps)

lemmas ip_eval = parse_ip_def parse_ipv4_def read_ipv4_def read_separator_def read_octet_def
  read_number_def to_digit_def digits_value_def ipv4_of_octets_def read_ipv6_def read_group_def

end
