(* ===== verification/Subnet.thy ===== *)
theory Subnet
  imports Ip_Addr
begin

text \<open>
  IPv4 CIDR blocks and the allocator of \<open>src/runtime/compose_isolation/subnet.rs\<close>: the record
  \<open>ipv4_cidr\<close> is the struct \<open>Ipv4Cidr\<close>, and \<open>allocate_ipv4_subnet_slot\<close> with its helpers finds
  the first free slot of a pool at or after a slot chosen by a hash. SHA-256 comes from the
  crate \<open>sha2\<close>, so it is a parameter; no result below depends on what it returns. The contract
  that the planner relies on is the locale \<open>subnet_allocator\<close>.
\<close>

section \<open>CIDR blocks\<close>

record ipv4_cidr =
  cidr_network :: u32
  cidr_broadcast :: u32
  cidr_prefix :: u8

definition cidr_parse :: "string \<Rightarrow> ipv4_cidr option" where
  "cidr_parse value =
     (case split_once ''/'' value of
        None \<Rightarrow> None
      | Some (addr_text, prefix_text) \<Rightarrow>
          (case parse_ipv4 addr_text of
             None \<Rightarrow> None
           | Some addr \<Rightarrow>
               (case parse_u8 prefix_text of
                  None \<Rightarrow> None
                | Some prefix \<Rightarrow>
                    if 32 < prefix then None
                    else let mask = (if prefix = 0 then 0 else push_bit (32 - unat prefix) (- 1));
                             network = addr AND mask;
                             broadcast = network OR NOT mask
                         in Some \<lparr>cidr_network = network, cidr_broadcast = broadcast,
                                  cidr_prefix = prefix\<rparr>)))"

definition cidr_overlaps :: "ipv4_cidr \<Rightarrow> ipv4_cidr \<Rightarrow> bool" where
  "cidr_overlaps c d =
     (cidr_network c \<le> cidr_broadcast d \<and> cidr_network d \<le> cidr_broadcast c)"

definition cidr_contains :: "ipv4_cidr \<Rightarrow> ipv4_cidr \<Rightarrow> bool" where
  "cidr_contains c d =
     (cidr_network c \<le> cidr_network d \<and> cidr_broadcast d \<le> cidr_broadcast c)"

definition cidr_contains_address :: "ipv4_cidr \<Rightarrow> ipv4_addr \<Rightarrow> bool" where
  "cidr_contains_address c a = (cidr_network c \<le> a \<and> a \<le> cidr_broadcast c)"

definition cidr_address_at_offset :: "ipv4_cidr \<Rightarrow> u32 \<Rightarrow> ipv4_addr option" where
  "cidr_address_at_offset c offset =
     (case checked_add (cidr_network c) offset of
        None \<Rightarrow> None
      | Some address \<Rightarrow> if address \<le> cidr_broadcast c then Some address else None)"

definition cidr_show :: "ipv4_cidr \<Rightarrow> string" where
  "cidr_show c = show_ipv4 (cidr_network c) @ ''/'' @ show_nat (unat (cidr_prefix c))"

section \<open>The allocator\<close>

definition subnet_hash_version :: string where
  "subnet_hash_version = ''decune-clone-isolation-subnet-v1''"

text \<open>\<open>u64::from_be_bytes\<close> of the first eight bytes of a digest.\<close>

definition u64_from_be_bytes :: "u8 list \<Rightarrow> nat" where
  "u64_from_be_bytes bytes = foldl (\<lambda>n b. n * 256 + unat b) 0 (take 8 bytes)"

definition push_interval :: "(nat \<times> nat) list \<Rightarrow> nat \<times> nat \<Rightarrow> (nat \<times> nat) list" where
  "push_interval merged interval =
     (if merged \<noteq> [] \<and> fst interval \<le> snd (last merged) + 1
      then butlast merged @ [(fst (last merged), max (snd (last merged)) (snd interval))]
      else merged @ [interval])"

definition occupied_slot_intervals :: "ipv4_cidr \<Rightarrow> nat \<Rightarrow> ipv4_cidr list \<Rightarrow> (nat \<times> nat) list" where
  "occupied_slot_intervals pool slot_size unavailable =
     (let pool_network = unat (cidr_network pool);
          intervals =
            map (\<lambda>existing.
                   let overlap_start = unat (max (cidr_network pool) (cidr_network existing));
                       overlap_end = unat (min (cidr_broadcast pool) (cidr_broadcast existing))
                   in ((overlap_start - pool_network) div slot_size,
                       (overlap_end - pool_network) div slot_size))
              (filter (\<lambda>existing. cidr_overlaps pool existing) unavailable)
      in foldl push_interval [] (sort_key fst intervals))"

fun scan_free_slot :: "(nat \<times> nat) list \<Rightarrow> nat \<Rightarrow> nat \<Rightarrow> nat option" where
  "scan_free_slot [] candidate end_slot = Some candidate"
| "scan_free_slot ((occupied_start, occupied_end) # rest) candidate end_slot =
     (if occupied_end < candidate then scan_free_slot rest candidate end_slot
      else if end_slot \<le> occupied_start then Some candidate
      else if candidate < occupied_start then Some candidate
      else case checked_add_u64 occupied_end 1 of
             None \<Rightarrow> None
           | Some next_slot \<Rightarrow>
               if end_slot \<le> next_slot then None else scan_free_slot rest next_slot end_slot)"

definition first_free_slot :: "(nat \<times> nat) list \<Rightarrow> nat \<Rightarrow> nat \<Rightarrow> nat option" where
  "first_free_slot intervals start end_slot =
     (if end_slot \<le> start then None else scan_free_slot intervals start end_slot)"

definition allocate_ipv4_subnet_slot ::
  "(string \<Rightarrow> u8 list) \<Rightarrow> ipv4_cidr \<Rightarrow> u8 \<Rightarrow> string \<Rightarrow> string \<Rightarrow> ipv4_cidr list \<Rightarrow> ipv4_cidr option"
where
  "allocate_ipv4_subnet_slot sha256 pool subnet_prefix workspace_id compose_network unavailable =
     (if subnet_prefix < cidr_prefix pool \<or> 32 < subnet_prefix then None
      else
        let prefix_difference = unat (subnet_prefix - cidr_prefix pool) in
        case checked_shl_u64 1 prefix_difference of None \<Rightarrow> None | Some slot_count \<Rightarrow>
        case checked_shl_u64 1 (32 - unat subnet_prefix) of None \<Rightarrow> None | Some slot_size \<Rightarrow>
        let digest = sha256 (subnet_hash_version @ '':'' @ workspace_id @ '':'' @ compose_network);
            initial_slot = u64_from_be_bytes digest mod slot_count;
            occupied = occupied_slot_intervals pool slot_size unavailable
        in
        case (case first_free_slot occupied initial_slot slot_count of
                Some slot \<Rightarrow> Some slot
              | None \<Rightarrow> first_free_slot occupied 0 initial_slot) of
          None \<Rightarrow> None
        | Some slot \<Rightarrow>
        case checked_mul_u64 slot slot_size of None \<Rightarrow> None | Some offset \<Rightarrow>
        case checked_add_u64 (unat (cidr_network pool)) offset of None \<Rightarrow> None | Some network64 \<Rightarrow>
        case u32_try_from network64 of None \<Rightarrow> None | Some network \<Rightarrow>
        case u32_try_from (slot_size - 1) of None \<Rightarrow> None | Some last_offset \<Rightarrow>
        case checked_add network last_offset of None \<Rightarrow> None | Some broadcast \<Rightarrow>
        Some \<lparr>cidr_network = network, cidr_broadcast = broadcast, cidr_prefix = subnet_prefix\<rparr>)"

section \<open>Well-formed blocks\<close>

definition cidr_size :: "ipv4_cidr \<Rightarrow> nat" where
  "cidr_size c = 2 ^ (32 - unat (cidr_prefix c))"

definition cidr_ok :: "ipv4_cidr \<Rightarrow> bool" where
  "cidr_ok c \<longleftrightarrow>
     unat (cidr_prefix c) \<le> 32 \<and> cidr_size c dvd unat (cidr_network c) \<and>
     unat (cidr_broadcast c) = unat (cidr_network c) + cidr_size c - 1"

definition cidr_addresses :: "ipv4_cidr \<Rightarrow> ipv4_addr set" where
  "cidr_addresses c = {a. cidr_contains_address c a}"

lemma cidr_size_pos [simp]: "0 < cidr_size c"
  by (simp add: cidr_size_def)

lemma cidr_ok_le:
  assumes "cidr_ok c"
  shows "cidr_network c \<le> cidr_broadcast c"
proof -
  have "1 \<le> cidr_size c" using cidr_size_pos [of c] by linarith
  with assms show ?thesis unfolding cidr_ok_def word_le_nat_alt by linarith
qed

lemma unat_and_high_bits:
  "unat (a AND NOT (mask k) :: u32) = unat a div 2 ^ k * 2 ^ k"
proof -
  have "a AND NOT (mask k) = push_bit k (drop_bit k a)"
    by (rule bit_word_eqI) (auto simp: bit_simps)
  moreover have "unat (push_bit k (drop_bit k a)) = (unat a div 2 ^ k * 2 ^ k) mod 2 ^ 32"
    unfolding unsigned_push_bit_eq unsigned_drop_bit_eq
    using unat_u32_bound [of a] by (simp add: push_bit_eq_mult drop_bit_eq_div take_bit_eq_mod)
  ultimately have "unat (a AND NOT (mask k)) = (unat a div 2 ^ k * 2 ^ k) mod 2 ^ 32"
    by simp
  moreover have "unat a div 2 ^ k * 2 ^ k < 2 ^ 32"
    by (rule le_less_trans [OF div_times_less_eq_dividend]) (use unat_u32_bound [of a] in simp)
  ultimately show ?thesis by simp
qed

lemma multiple_below:
  fixes q :: nat
  assumes "k \<le> 32" "q * 2 ^ k < 2 ^ 32"
  shows "q * 2 ^ k + 2 ^ k \<le> 2 ^ 32"
proof -
  have e: "(2::nat) ^ 32 = 2 ^ (32 - k) * 2 ^ k"
    using assms(1) by (simp flip: power_add)
  with assms(2) have "q < 2 ^ (32 - k)" by (metis mult_less_cancel2)
  then have "Suc q * 2 ^ k \<le> 2 ^ (32 - k) * 2 ^ k" by (intro mult_right_mono) auto
  with e show ?thesis by simp
qed

lemma unat_or_low_bits:
  fixes a :: u32
  assumes k: "k \<le> 32"
  shows "unat ((a AND NOT (mask k)) OR mask k) = unat (a AND NOT (mask k)) + 2 ^ k - 1"
proof -
  let ?h = "a AND NOT (mask k)"
  have "?h AND mask k = 0" by (rule bit_word_eqI) (auto simp: bit_simps)
  then have "?h OR mask k = ?h + mask k" by (simp add: disjunctive_add_eq_or)
  moreover have "unat (mask k :: u32) = 2 ^ k - 1"
  proof -
    have "unat (mask k :: u32) = unat (take_bit k (- 1 :: u32))" by simp
    also have "\<dots> = take_bit k (unat (- 1 :: u32))" by (rule unsigned_take_bit_eq)
    also have "\<dots> = mask k" unfolding unsigned_minus_1_eq_mask using k by (simp add: min_def)
    finally show ?thesis by (simp add: mask_eq_exp_minus_1)
  qed
  moreover have "unat ?h + 2 ^ k \<le> 2 ^ 32"
    using multiple_below [OF k, of "unat a div 2 ^ k"] unat_u32_bound [of ?h]
    by (simp add: unat_and_high_bits)
  ultimately show ?thesis
    by (simp add: unat_word_ariths)
qed

lemma not_mask_of_prefix:
  "(if p = 0 then 0 else push_bit (32 - unat p) (- 1)) = (NOT (mask (32 - unat p)) :: u32)" for p :: u8
proof (cases "p = 0")
  case True
  have "NOT (mask 32) = (0 :: u32)" by (rule bit_word_eqI) (auto simp: bit_simps)
  with True show ?thesis by simp
qed simp

lemma cidr_parse_eq:
  assumes "cidr_parse s = Some c"
  obtains a p where "unat p \<le> 32"
    "c = \<lparr>cidr_network = a AND NOT (mask (32 - unat p)),
         cidr_broadcast = (a AND NOT (mask (32 - unat p))) OR mask (32 - unat p), cidr_prefix = p\<rparr>"
proof -
  from assms obtain a p where "\<not> 32 < p"
    "c = (let mask = (if p = 0 then 0 else push_bit (32 - unat p) (- 1));
              network = a AND mask;
              broadcast = network OR NOT mask
          in \<lparr>cidr_network = network, cidr_broadcast = broadcast, cidr_prefix = p\<rparr>)"
    by (auto simp: cidr_parse_def Let_def split: option.splits prod.splits if_splits)
  moreover from this(1) have "unat p \<le> 32" by (simp add: word_less_nat_alt)
  ultimately show ?thesis using that unfolding not_mask_of_prefix by (simp add: Let_def)
qed

lemma cidr_ok_of_mask:
  "unat p \<le> 32 \<Longrightarrow>
   cidr_ok \<lparr>cidr_network = a AND NOT (mask (32 - unat p)),
            cidr_broadcast = (a AND NOT (mask (32 - unat p))) OR mask (32 - unat p), cidr_prefix = p\<rparr>"
  by (simp add: cidr_ok_def cidr_size_def unat_or_low_bits) (simp add: unat_and_high_bits)

lemma cidr_parse_ok: "cidr_parse s = Some c \<Longrightarrow> cidr_ok c"
  by (erule cidr_parse_eq) (simp add: cidr_ok_of_mask)

lemma parse_u8_show: "parse_u8 (show_nat (unat p)) = Some p"
  using unat_u8_bound [of p] by (simp add: parse_u8_def parse_unsigned_show_nat)

lemma cidr_parse_show: 
  assumes "cidr_ok c"
  shows "cidr_parse (cidr_show c) = Some c"
proof -
  let ?k = "32 - unat (cidr_prefix c)"
  have "unat (cidr_network c AND NOT (mask ?k)) = unat (cidr_network c)"
    using assms by (simp add: unat_and_high_bits cidr_ok_def cidr_size_def)
  then have n: "cidr_network c AND NOT (mask ?k) = cidr_network c"
    by (simp add: word_unat_eq_iff)
  have "unat (cidr_network c OR mask ?k) = unat (cidr_broadcast c)"
    using unat_or_low_bits [of ?k "cidr_network c"] assms by (simp add: n cidr_ok_def cidr_size_def)
  then have b: "cidr_network c OR mask ?k = cidr_broadcast c"
    by (simp add: word_unat_eq_iff)
  have "\<not> 32 < cidr_prefix c" using assms by (simp add: cidr_ok_def word_less_nat_alt)
  then show ?thesis
    unfolding cidr_parse_def cidr_show_def
    by (simp add: split_once_char slash_not_in_show_ipv4 parse_show_ipv4 parse_u8_show
        not_mask_of_prefix n b Let_def)
qed

section \<open>Blocks as sets of addresses\<close>

lemma cidr_overlaps_iff:
  assumes "cidr_ok c" "cidr_ok d"
  shows "cidr_overlaps c d \<longleftrightarrow> cidr_addresses c \<inter> cidr_addresses d \<noteq> {}"
proof
  assume "cidr_overlaps c d"
  then have "max (cidr_network c) (cidr_network d) \<in> cidr_addresses c \<inter> cidr_addresses d"
    using cidr_ok_le [OF assms(1)] cidr_ok_le [OF assms(2)]
    by (auto simp: cidr_overlaps_def cidr_addresses_def cidr_contains_address_def max_def)
  then show "cidr_addresses c \<inter> cidr_addresses d \<noteq> {}" by blast
qed (auto simp: cidr_overlaps_def cidr_addresses_def cidr_contains_address_def)

lemma cidr_overlaps_sym: "cidr_overlaps c d \<longleftrightarrow> cidr_overlaps d c"
  by (auto simp: cidr_overlaps_def)

lemma cidr_contains_overlaps: "cidr_ok d \<Longrightarrow> cidr_contains c d \<Longrightarrow> cidr_overlaps c d"
  using cidr_ok_le [of d] by (auto simp: cidr_contains_def cidr_overlaps_def)

lemma cidr_contains_iff:
  "cidr_ok d \<Longrightarrow> cidr_contains c d \<longleftrightarrow> cidr_addresses d \<subseteq> cidr_addresses c"
  using cidr_ok_le [of d]
  by (auto simp: cidr_contains_def cidr_addresses_def cidr_contains_address_def subset_iff
      intro: order.trans)

lemma aligned_blocks_nest:
  fixes a b s t :: nat
  assumes "0 < s" "a * (t * s) \<le> b * s + s - 1" "b * s \<le> a * (t * s) + t * s - 1" "0 < t"
  shows "a * (t * s) \<le> b * s \<and> b * s + s \<le> a * (t * s) + t * s"
proof -
  have "a * t * s < Suc b * s" using assms(1,2) by (simp add: algebra_simps)
  then have "a * t \<le> b" by (metis less_Suc_eq_le mult_less_cancel2)
  moreover have "b * s < a * (t * s) + t * s"
  proof -
    have "0 < t * s" using assms(1,4) by simp
    with assms(3) show ?thesis by linarith
  qed
  then have "b * s < Suc a * t * s" by (simp add: algebra_simps)
  then have "Suc b \<le> Suc a * t" by (metis Suc_leI mult_less_cancel2)
  then have "Suc b * s \<le> Suc a * t * s" by (rule mult_le_mono1)
  ultimately show ?thesis by (simp add: algebra_simps)
qed

lemma cidr_block_bounds:
  "cidr_ok c \<Longrightarrow> unat (cidr_network c) + cidr_size c \<le> 4294967296"
  using unat_u32_bound [of "cidr_broadcast c"] cidr_size_pos [of c]
  unfolding cidr_ok_def by linarith

lemma cidr_nested_if_shorter:
  assumes "cidr_ok c" "cidr_ok d" "cidr_overlaps c d" "cidr_prefix c \<le> cidr_prefix d"
  shows "cidr_contains c d"
proof -
  let ?s = "cidr_size d" and ?t = "2 ^ (unat (cidr_prefix d) - unat (cidr_prefix c)) :: nat"
  have size: "cidr_size c = ?t * ?s"
    using assms unfolding cidr_size_def cidr_ok_def word_le_nat_alt by (simp flip: power_add)
  obtain a b where ab: "unat (cidr_network c) = a * (?t * ?s)" "unat (cidr_network d) = b * ?s"
    using assms(1,2) unfolding cidr_ok_def size by (metis dvd_def mult.commute)
  have "a * (?t * ?s) \<le> b * ?s + ?s - 1" "b * ?s \<le> a * (?t * ?s) + ?t * ?s - 1"
    using assms unfolding cidr_overlaps_def cidr_ok_def word_le_nat_alt size ab by auto
  then have "a * (?t * ?s) \<le> b * ?s \<and> b * ?s + ?s \<le> a * (?t * ?s) + ?t * ?s"
    by (intro aligned_blocks_nest) auto
  then show ?thesis
    using assms(1,2) unfolding cidr_contains_def cidr_ok_def word_le_nat_alt size ab
    by (auto intro: diff_le_mono)
qed

lemma cidr_laminar:
  "cidr_ok c \<Longrightarrow> cidr_ok d \<Longrightarrow> cidr_overlaps c d \<Longrightarrow> cidr_contains c d \<or> cidr_contains d c"
  using cidr_nested_if_shorter [of c d] cidr_nested_if_shorter [of d c] cidr_overlaps_sym [of c d]
  by (metis linear)

section \<open>Intervals of occupied slots\<close>

definition slot_covered :: "(nat \<times> nat) list \<Rightarrow> nat \<Rightarrow> bool" where
  "slot_covered intervals k \<longleftrightarrow> (\<exists>(s, e)\<in>set intervals. s \<le> k \<and> k \<le> e)"

lemma slot_covered_simps [simp]:
  "slot_covered [] k \<longleftrightarrow> False"
  "slot_covered ((s, e) # is) k \<longleftrightarrow> s \<le> k \<and> k \<le> e \<or> slot_covered is k"
  "slot_covered (is @ js) k \<longleftrightarrow> slot_covered is k \<or> slot_covered js k"
  by (auto simp: slot_covered_def)

lemma slot_covered_below: "\<forall>x\<in>set is. k < fst x \<Longrightarrow> \<not> slot_covered is k"
  by (auto simp: slot_covered_def)

lemma scan_free_slot_sound:
  "sorted (map fst is) \<Longrightarrow> scan_free_slot is c e = Some k \<Longrightarrow> c < e \<Longrightarrow>
   c \<le> k \<and> k < e \<and> \<not> slot_covered is k"
proof (induction "is" c e rule: scan_free_slot.induct)
  case (2 s t rest c e)
  from "2.prems"(1) have rest: "sorted (map fst rest)" and ge: "\<forall>x\<in>set rest. s \<le> fst x" by auto
  have stop: "\<not> slot_covered ((s, t) # rest) c" if "c < s"
    using that ge by (intro slot_covered_below) auto
  consider "t < c" | "c \<le> t" "e \<le> s \<or> c < s" | "c \<le> t" "s < e" "s \<le> c" by linarith
  then show ?case
  proof cases
    case 1
    with "2.IH"(1) "2.prems" rest show ?thesis by auto
  next
    case 2
    with "2.prems" stop show ?thesis by (auto split: if_splits)
  next
    case 3
    with "2.prems" have *: "checked_add_u64 t 1 = Some (t + 1)" "t + 1 < e"
      "scan_free_slot rest (t + 1) e = Some k"
      by (auto simp: checked_add_u64_def split: if_splits)
    have "t + 1 \<le> k \<and> k < e \<and> \<not> slot_covered rest k"
      using "2.IH"(2) [of "t + 1"] 3 * rest by auto
    with 3 show ?thesis by auto
  qed
qed simp

lemma scan_free_slot_complete:
  "scan_free_slot is c e = None \<Longrightarrow> \<forall>x\<in>set is. snd x + 1 < 2 ^ 64 \<Longrightarrow> c \<le> k \<Longrightarrow> k < e \<Longrightarrow>
   slot_covered is k"
proof (induction "is" c e rule: scan_free_slot.induct)
  case (2 s t rest c e)
  then show ?case
    by (cases "k \<le> t") (auto simp: checked_add_u64_def split: if_splits)
qed simp

lemma push_interval_covered:
  assumes "\<forall>x\<in>set acc. fst x \<le> s" "s \<le> t"
  shows "slot_covered (push_interval acc (s, t)) k \<longleftrightarrow> slot_covered acc k \<or> s \<le> k \<and> k \<le> t"
proof (cases acc rule: rev_cases)
  case Nil
  then show ?thesis by (simp add: push_interval_def)
next
  case (snoc ys y)
  obtain ps pe where y: "y = (ps, pe)" by (cases y)
  from assms snoc y have "ps \<le> s" by simp
  then show ?thesis using assms(2) by (auto simp: push_interval_def snoc y)
qed

lemma push_interval_fsts:
  "set (map fst (push_interval acc x)) \<subseteq> insert (fst x) (set (map fst acc))"
  by (cases acc rule: rev_cases) (auto simp: push_interval_def)

lemma push_interval_sorted:
  "sorted (map fst acc) \<Longrightarrow> \<forall>y\<in>set acc. fst y \<le> fst x \<Longrightarrow> sorted (map fst (push_interval acc x))"
  by (cases acc rule: rev_cases) (auto simp: push_interval_def sorted_append)

lemma push_interval_bound:
  "\<forall>y\<in>set acc. snd y \<le> b \<Longrightarrow> snd x \<le> b \<Longrightarrow> \<forall>y\<in>set (push_interval acc x). snd y \<le> b"
  by (cases acc rule: rev_cases) (auto simp: push_interval_def)

lemma merge_intervals:
  "sorted (map fst xs) \<Longrightarrow> sorted (map fst acc) \<Longrightarrow> \<forall>y\<in>set acc. \<forall>x\<in>set xs. fst y \<le> fst x \<Longrightarrow>
   \<forall>x\<in>set xs. fst x \<le> snd x \<and> snd x \<le> b \<Longrightarrow> \<forall>y\<in>set acc. snd y \<le> b \<Longrightarrow>
   sorted (map fst (foldl push_interval acc xs)) \<and>
   (\<forall>y\<in>set (foldl push_interval acc xs). snd y \<le> b) \<and>
   (\<forall>k. slot_covered (foldl push_interval acc xs) k \<longleftrightarrow> slot_covered acc k \<or> slot_covered xs k)"
proof (induction xs arbitrary: acc)
  case (Cons x xs)
  obtain s t where x: "x = (s, t)" by (cases x)
  let ?acc = "push_interval acc x"
  have below: "\<forall>y\<in>set acc. fst y \<le> fst x" using Cons.prems(3) by simp
  have fsts: "\<forall>y\<in>set ?acc. \<forall>z\<in>set xs. fst y \<le> fst z"
    using push_interval_fsts [of acc x] Cons.prems(1,3) by fastforce
  have "sorted (map fst (foldl push_interval ?acc xs)) \<and>
    (\<forall>y\<in>set (foldl push_interval ?acc xs). snd y \<le> b) \<and>
    (\<forall>k. slot_covered (foldl push_interval ?acc xs) k \<longleftrightarrow> slot_covered ?acc k \<or> slot_covered xs k)"
  proof (rule Cons.IH)
    show "sorted (map fst xs)" using Cons.prems(1) by simp
    show "sorted (map fst ?acc)" using Cons.prems(2) below by (rule push_interval_sorted)
    show "\<forall>y\<in>set ?acc. \<forall>z\<in>set xs. fst y \<le> fst z" by (rule fsts)
    show "\<forall>x\<in>set xs. fst x \<le> snd x \<and> snd x \<le> b" using Cons.prems(4) by simp
    show "\<forall>y\<in>set ?acc. snd y \<le> b"
      using Cons.prems(4,5) by (intro push_interval_bound) simp_all
  qed
  moreover have "slot_covered ?acc k \<longleftrightarrow> slot_covered acc k \<or> s \<le> k \<and> k \<le> t" for k
    using push_interval_covered [of acc s t] below Cons.prems(4) by (simp add: x)
  ultimately show ?case by (simp add: x disj_assoc)
qed simp

section \<open>Slots of a pool\<close>

definition slot_cidr :: "ipv4_cidr \<Rightarrow> u8 \<Rightarrow> nat \<Rightarrow> ipv4_cidr" where
  "slot_cidr pool p k =
     (let network = unat (cidr_network pool) + k * 2 ^ (32 - unat p)
      in \<lparr>cidr_network = of_nat network, cidr_broadcast = of_nat (network + 2 ^ (32 - unat p) - 1),
          cidr_prefix = p\<rparr>)"

definition slot_count :: "ipv4_cidr \<Rightarrow> u8 \<Rightarrow> nat" where
  "slot_count pool p = 2 ^ (unat p - unat (cidr_prefix pool))"

definition prefix_fits :: "ipv4_cidr \<Rightarrow> u8 \<Rightarrow> bool" where
  "prefix_fits pool p \<longleftrightarrow> cidr_prefix pool \<le> p \<and> p \<le> 32"

lemma prefix_fits_nat:
  "prefix_fits pool p \<Longrightarrow> unat (cidr_prefix pool) \<le> unat p \<and> unat p \<le> 32"
  by (simp add: prefix_fits_def word_le_nat_alt)

lemma pool_size_slots:
  "prefix_fits pool p \<Longrightarrow> cidr_size pool = slot_count pool p * 2 ^ (32 - unat p)"
  using prefix_fits_nat [of pool p]
  by (simp add: cidr_size_def slot_count_def flip: power_add)

lemma slot_end_in_pool:
  assumes "prefix_fits pool p" "k < slot_count pool p"
  shows "k * 2 ^ (32 - unat p) + 2 ^ (32 - unat p) \<le> cidr_size pool"
proof -
  have "Suc k * 2 ^ (32 - unat p) \<le> slot_count pool p * 2 ^ (32 - unat p)"
    using assms(2) by (intro mult_le_mono1) simp
  then show ?thesis by (simp add: pool_size_slots [OF assms(1)])
qed

lemma slot_cidr_bounds:
  assumes "cidr_ok pool" "prefix_fits pool p" "k < slot_count pool p"
  shows "unat (cidr_network (slot_cidr pool p k)) = unat (cidr_network pool) + k * 2 ^ (32 - unat p)"
    and "unat (cidr_broadcast (slot_cidr pool p k)) =
         unat (cidr_network pool) + k * 2 ^ (32 - unat p) + 2 ^ (32 - unat p) - 1"
proof -
  let ?S = "2 ^ (32 - unat p) :: nat" and ?n = "unat (cidr_network pool) + k * 2 ^ (32 - unat p)"
  have "?n + ?S \<le> 2 ^ 32"
    using slot_end_in_pool [OF assms(2,3)] cidr_block_bounds [OF assms(1)] by simp
  moreover have "0 < ?S" by simp
  ultimately have "?n < 2 ^ 32" "?n + ?S - 1 < 2 ^ 32" by linarith+
  then show "unat (cidr_network (slot_cidr pool p k)) = ?n"
    and "unat (cidr_broadcast (slot_cidr pool p k)) = ?n + ?S - 1"
    by (simp_all add: slot_cidr_def Let_def del: of_nat_add of_nat_mult of_nat_power)
qed

lemma slot_cidr_prefix [simp]: "cidr_prefix (slot_cidr pool p k) = p"
  by (simp add: slot_cidr_def Let_def)

lemma slot_cidr_ok:
  assumes "cidr_ok pool" "prefix_fits pool p" "k < slot_count pool p"
  shows "cidr_ok (slot_cidr pool p k)"
proof -
  have "2 ^ (32 - unat p) dvd unat (cidr_network pool)"
    using assms(1) pool_size_slots [OF assms(2)] unfolding cidr_ok_def
    by (metis dvd_mult_right)
  then show ?thesis
    using slot_cidr_bounds [OF assms] prefix_fits_nat [OF assms(2)]
    by (simp add: cidr_ok_def cidr_size_def)
qed

lemma slot_cidr_in_pool:
  assumes "cidr_ok pool" "prefix_fits pool p" "k < slot_count pool p"
  shows "cidr_contains pool (slot_cidr pool p k)"
  using slot_cidr_bounds [OF assms] slot_end_in_pool [OF assms(2,3)] assms(1)
  unfolding cidr_contains_def word_le_nat_alt cidr_ok_def by linarith

lemma cidr_is_slot:
  assumes "cidr_ok pool" "cidr_ok c" "prefix_fits pool (cidr_prefix c)" "cidr_contains pool c"
  obtains k where "k < slot_count pool (cidr_prefix c)" "c = slot_cidr pool (cidr_prefix c) k"
proof -
  let ?S = "2 ^ (32 - unat (cidr_prefix c)) :: nat" and ?N = "unat (cidr_network pool)"
  have S: "cidr_size c = ?S" by (simp add: cidr_size_def)
  have "?S dvd ?N"
    using assms(1) pool_size_slots [OF assms(3)] unfolding cidr_ok_def by (metis dvd_mult_right)
  moreover have "?S dvd unat (cidr_network c)" using assms(2) by (simp add: cidr_ok_def S)
  moreover have ge: "?N \<le> unat (cidr_network c)"
    using assms(4) by (simp add: cidr_contains_def word_le_nat_alt)
  ultimately have "?S dvd unat (cidr_network c) - ?N" by (simp add: dvd_diff_nat)
  then obtain k where "unat (cidr_network c) - ?N = k * ?S" by (metis dvdE mult.commute)
  with ge have n: "unat (cidr_network c) = ?N + k * ?S" by linarith
  have "unat (cidr_network c) + ?S - 1 \<le> ?N + cidr_size pool - 1"
    using assms(1,2,4) by (simp add: cidr_contains_def word_le_nat_alt cidr_ok_def S)
  then have "Suc k * ?S \<le> slot_count pool (cidr_prefix c) * ?S"
    using n cidr_size_pos [of pool] unfolding pool_size_slots [OF assms(3)] mult_Suc by linarith
  then have k: "k < slot_count pool (cidr_prefix c)" by (metis Suc_le_eq mult_le_cancel2 zero_less_power zero_less_numeral)
  have "unat (cidr_network c) = unat (cidr_network (slot_cidr pool (cidr_prefix c) k))"
    "unat (cidr_broadcast c) = unat (cidr_broadcast (slot_cidr pool (cidr_prefix c) k))"
    using slot_cidr_bounds [OF assms(1,3) k] n assms(2) by (simp_all add: cidr_ok_def S)
  then have "c = slot_cidr pool (cidr_prefix c) k"
    by (intro ipv4_cidr.equality) (simp_all add: word_unat_eq_iff)
  with k show ?thesis by (rule that)
qed

lemma slot_between:
  fixes S :: nat
  assumes "0 < S"
  shows "x div S \<le> k \<and> k \<le> y div S \<longleftrightarrow> x < k * S + S \<and> k * S \<le> y"
proof -
  have "x div S \<le> k \<longleftrightarrow> x < Suc k * S"
    using div_less_iff_less_mult [OF assms, of x "Suc k"] by (simp add: less_Suc_eq_le)
  then show ?thesis using less_eq_div_iff_mult_less_eq [OF assms] by (simp add: add.commute)
qed

lemma clipped_interval:
  fixes N S kS Z un ub :: nat
  assumes "0 < S" "kS + S \<le> Z" "N \<le> ub"
  shows "max N un - N < kS + S \<and> kS \<le> min (N + Z - 1) ub - N \<longleftrightarrow>
         N + kS \<le> ub \<and> un \<le> N + kS + S - 1"
proof -
  have "max N un - N < kS + S \<longleftrightarrow> un \<le> N + kS + S - 1" using assms by (cases "N \<le> un") auto
  moreover have "kS \<le> min (N + Z - 1) ub - N \<longleftrightarrow> N + kS \<le> ub"
    using assms by (cases "ub \<le> N + Z - 1") (simp_all add: min_def, linarith+)
  ultimately show ?thesis by blast
qed

lemma occupied_interval_iff:
  assumes ok: "cidr_ok pool" "prefix_fits pool p" "k < slot_count pool p" "cidr_ok u"
    and ov: "cidr_overlaps pool u"
  shows "(unat (max (cidr_network pool) (cidr_network u)) - unat (cidr_network pool))
            div 2 ^ (32 - unat p) \<le> k \<and>
         k \<le> (unat (min (cidr_broadcast pool) (cidr_broadcast u)) - unat (cidr_network pool))
            div 2 ^ (32 - unat p) \<longleftrightarrow>
         cidr_overlaps (slot_cidr pool p k) u"
proof -
  let ?S = "2 ^ (32 - unat p) :: nat" and ?N = "unat (cidr_network pool)"
  have S: "0 < ?S" by simp
  note slot = slot_cidr_bounds [OF ok(1-3)]
  have inside: "k * ?S + ?S \<le> cidr_size pool" by (rule slot_end_in_pool [OF ok(2,3)])
  have b: "unat (cidr_broadcast pool) = ?N + cidr_size pool - 1" using ok(1) by (simp add: cidr_ok_def)
  have "?N \<le> unat (cidr_broadcast u)" using ov by (simp add: cidr_overlaps_def word_le_nat_alt)
  moreover have "unat (max (cidr_network pool) (cidr_network u)) = max ?N (unat (cidr_network u))"
    by (simp add: max_def word_le_nat_alt)
  moreover have "unat (min (cidr_broadcast pool) (cidr_broadcast u)) =
      min (?N + cidr_size pool - 1) (unat (cidr_broadcast u))"
    by (simp add: min_def word_le_nat_alt b)
  ultimately show ?thesis
    unfolding slot_between [OF S] cidr_overlaps_def word_le_nat_alt slot
    using clipped_interval [OF S inside] by simp
qed

definition occupied_raw :: "ipv4_cidr \<Rightarrow> u8 \<Rightarrow> ipv4_cidr \<Rightarrow> nat \<times> nat" where
  "occupied_raw pool p u =
     ((unat (max (cidr_network pool) (cidr_network u)) - unat (cidr_network pool)) div 2 ^ (32 - unat p),
      (unat (min (cidr_broadcast pool) (cidr_broadcast u)) - unat (cidr_network pool)) div 2 ^ (32 - unat p))"

lemma occupied_slot_intervals_eq:
  "occupied_slot_intervals pool (2 ^ (32 - unat p)) us =
   foldl push_interval [] (sort_key fst (map (occupied_raw pool p) (filter (cidr_overlaps pool) us)))"
  by (simp add: occupied_slot_intervals_def occupied_raw_def [abs_def] Let_def)

lemma occupied_raw_ordered:
  assumes "cidr_ok pool" "cidr_ok u" "cidr_overlaps pool u"
  shows "fst (occupied_raw pool p u) \<le> snd (occupied_raw pool p u)"
    and "snd (occupied_raw pool p u) \<le> 2 ^ 32"
proof -
  have "max (cidr_network pool) (cidr_network u) \<le> min (cidr_broadcast pool) (cidr_broadcast u)"
    using assms cidr_ok_le by (auto simp: cidr_overlaps_def)
  then show "fst (occupied_raw pool p u) \<le> snd (occupied_raw pool p u)"
    by (auto simp: occupied_raw_def word_le_nat_alt intro!: div_le_mono diff_le_mono)
  have "snd (occupied_raw pool p u) \<le> unat (min (cidr_broadcast pool) (cidr_broadcast u))"
    unfolding occupied_raw_def snd_conv by (rule order.trans [OF div_le_dividend]) simp
  then show "snd (occupied_raw pool p u) \<le> 2 ^ 32"
    using unat_u32_bound [of "min (cidr_broadcast pool) (cidr_broadcast u)"] by simp
qed

lemma occupied_intervals:
  assumes pool: "cidr_ok pool" "prefix_fits pool p" and us: "\<forall>u\<in>set us. cidr_ok u"
  defines "occ \<equiv> occupied_slot_intervals pool (2 ^ (32 - unat p)) us"
  shows "sorted (map fst occ)" and "\<forall>x\<in>set occ. snd x + 1 < 2 ^ 64"
    and "k < slot_count pool p \<Longrightarrow>
         slot_covered occ k \<longleftrightarrow> (\<exists>u\<in>set us. cidr_overlaps (slot_cidr pool p k) u)"
proof -
  let ?raw = "map (occupied_raw pool p) (filter (cidr_overlaps pool) us)"
  have raw: "\<forall>x\<in>set ?raw. fst x \<le> snd x \<and> snd x \<le> 2 ^ 32"
    using occupied_raw_ordered [OF pool(1)] us by auto
  have merged: "sorted (map fst occ) \<and> (\<forall>y\<in>set occ. snd y \<le> 2 ^ 32) \<and>
      (\<forall>k. slot_covered occ k \<longleftrightarrow> slot_covered [] k \<or> slot_covered (sort_key fst ?raw) k)"
    unfolding occ_def occupied_slot_intervals_eq
    by (rule merge_intervals) (use raw in auto)
  then show "sorted (map fst occ)" by simp
  from merged show "\<forall>x\<in>set occ. snd x + 1 < 2 ^ 64" by fastforce
  assume k: "k < slot_count pool p"
  have "slot_covered occ k \<longleftrightarrow> slot_covered ?raw k"
    using merged by (simp add: slot_covered_def)
  also have "\<dots> \<longleftrightarrow> (\<exists>u\<in>set us. cidr_overlaps pool u \<and> cidr_overlaps (slot_cidr pool p k) u)"
    using occupied_interval_iff [OF pool k] us by (fastforce simp: slot_covered_def occupied_raw_def)
  also have "\<dots> \<longleftrightarrow> (\<exists>u\<in>set us. cidr_overlaps (slot_cidr pool p k) u)"
    using slot_cidr_in_pool [OF pool k]
    by (auto simp: cidr_contains_def cidr_overlaps_def intro: order.trans)
  finally show "slot_covered occ k \<longleftrightarrow> (\<exists>u\<in>set us. cidr_overlaps (slot_cidr pool p k) u)" .
qed

lemma first_free_slot_sound:
  "sorted (map fst is) \<Longrightarrow> first_free_slot is a b = Some k \<Longrightarrow> a \<le> k \<and> k < b \<and> \<not> slot_covered is k"
  using scan_free_slot_sound [of "is" a b k] by (auto simp: first_free_slot_def split: if_splits)

lemma first_free_slot_complete:
  "first_free_slot is a b = None \<Longrightarrow> \<forall>x\<in>set is. snd x + 1 < 2 ^ 64 \<Longrightarrow> a \<le> k \<Longrightarrow> k < b \<Longrightarrow>
   slot_covered is k"
  using scan_free_slot_complete [of "is" a b k] by (auto simp: first_free_slot_def split: if_splits)

section \<open>What the allocator returns\<close>

definition initial_slot :: "(string \<Rightarrow> u8 list) \<Rightarrow> ipv4_cidr \<Rightarrow> u8 \<Rightarrow> string \<Rightarrow> string \<Rightarrow> nat" where
  "initial_slot sha256 pool p workspace_id compose_network =
     u64_from_be_bytes (sha256 (subnet_hash_version @ '':'' @ workspace_id @ '':'' @ compose_network))
       mod slot_count pool p"

definition free_slot :: "(nat \<times> nat) list \<Rightarrow> nat \<Rightarrow> nat \<Rightarrow> nat option" where
  "free_slot occ i n = (case first_free_slot occ i n of Some k \<Rightarrow> Some k | None \<Rightarrow> first_free_slot occ 0 i)"

lemma allocate_eq:
  assumes pool: "cidr_ok pool" "prefix_fits pool p" and us: "\<forall>u\<in>set us. cidr_ok u"
  shows "allocate_ipv4_subnet_slot sha256 pool p w n us =
    map_option (slot_cidr pool p)
      (free_slot (occupied_slot_intervals pool (2 ^ (32 - unat p)) us)
        (initial_slot sha256 pool p w n) (slot_count pool p))"
    (is "_ = map_option _ ?slot")
proof -
  let ?S = "2 ^ (32 - unat p) :: nat" and ?N = "unat (cidr_network pool)"
  note nat = prefix_fits_nat [OF pool(2)]
  have fits: "\<not> (p < cidr_prefix pool \<or> 32 < p)" using pool(2) by (auto simp: prefix_fits_def)
  have "unat (p - cidr_prefix pool) = unat p - unat (cidr_prefix pool)"
    using nat by (simp add: unat_sub word_le_nat_alt)
  moreover have "(2::nat) ^ (unat p - unat (cidr_prefix pool)) < 2 ^ 64"
    by (rule power_strict_increasing) (use nat in auto)
  ultimately have count: "checked_shl_u64 1 (unat (p - cidr_prefix pool)) = Some (slot_count pool p)"
    using nat less_imp_diff_less [of "unat p" 64] by (simp add: checked_shl_u64_def slot_count_def)
  have "?S < 2 ^ 64" by (rule power_strict_increasing) (use nat in auto)
  then have size: "checked_shl_u64 1 (32 - unat p) = Some ?S"
    by (simp add: checked_shl_u64_def)
  have "0 < slot_count pool p" by (simp add: slot_count_def)
  then have i: "initial_slot sha256 pool p w n < slot_count pool p" by (simp add: initial_slot_def)
  have slot: "k < slot_count pool p" if "?slot = Some k" for k
    using that i first_free_slot_sound [OF occupied_intervals(1) [OF pool us]]
    by (fastforce simp: free_slot_def split: option.splits)
  have result: "(case checked_mul_u64 k ?S of None \<Rightarrow> None | Some offset \<Rightarrow>
      case checked_add_u64 ?N offset of None \<Rightarrow> None | Some network64 \<Rightarrow>
      case u32_try_from network64 of None \<Rightarrow> None | Some network \<Rightarrow>
      case u32_try_from (?S - 1) of None \<Rightarrow> None | Some last_offset \<Rightarrow>
      case checked_add network last_offset of None \<Rightarrow> None | Some broadcast \<Rightarrow>
      Some \<lparr>cidr_network = network, cidr_broadcast = broadcast, cidr_prefix = p\<rparr>)
    = Some (slot_cidr pool p k)" if "k < slot_count pool p" for k
  proof -
    have "?N + k * ?S + ?S \<le> 2 ^ 32"
      using slot_end_in_pool [OF pool(2) that] cidr_block_bounds [OF pool(1)] by simp
    moreover have "0 < ?S" "(2::nat) ^ 32 < 2 ^ 64" by simp_all
    ultimately have lt: "k * ?S < 2 ^ 64" "?N + k * ?S < 2 ^ 64" "?N + k * ?S < 2 ^ 32"
      "?S - 1 < 2 ^ 32" "?N + k * ?S + ?S - 1 < 2 ^ 32" by linarith+
    have "checked_add (of_nat (?N + k * ?S) :: u32) (of_nat (?S - 1)) =
        Some (of_nat (?N + k * ?S + ?S - 1))"
      unfolding checked_add_Some_iff using lt(3-5)
      by (simp only: unat_of_nat_u32) simp
    then show ?thesis
      using lt by (simp add: checked_mul_u64_def checked_add_u64_def u32_try_from_def slot_cidr_def Let_def
          del: of_nat_add of_nat_mult of_nat_power of_nat_diff)
  qed
  show ?thesis
    using slot result
    unfolding allocate_ipv4_subnet_slot_def if_not_P [OF fits] Let_def count size option.case
      initial_slot_def [symmetric] free_slot_def
    by (auto split: option.splits)
qed

definition subnet_is_available :: "ipv4_cidr \<Rightarrow> ipv4_cidr \<Rightarrow> ipv4_cidr list \<Rightarrow> bool" where
  "subnet_is_available candidate pool unavailable =
     (cidr_contains pool candidate \<and>
      list_all (\<lambda>existing. \<not> cidr_overlaps candidate existing) unavailable)"

definition subnet_fits :: "ipv4_cidr \<Rightarrow> u8 \<Rightarrow> ipv4_cidr list \<Rightarrow> ipv4_cidr \<Rightarrow> bool" where
  "subnet_fits pool p us c \<longleftrightarrow>
     cidr_ok c \<and> cidr_prefix c = p \<and> cidr_contains pool c \<and> (\<forall>u\<in>set us. \<not> cidr_overlaps c u)"

lemma allocate_fits:
  assumes pool: "cidr_ok pool" and us: "\<forall>u\<in>set us. cidr_ok u"
    and c: "allocate_ipv4_subnet_slot sha256 pool p w n us = Some c"
  shows "subnet_fits pool p us c"
proof -
  have fits: "prefix_fits pool p"
    using c by (auto simp: allocate_ipv4_subnet_slot_def prefix_fits_def split: if_splits)
  have "0 < slot_count pool p" by (simp add: slot_count_def)
  then have i: "initial_slot sha256 pool p w n < slot_count pool p" by (simp add: initial_slot_def)
  obtain k where k: "c = slot_cidr pool p k" and
    "free_slot (occupied_slot_intervals pool (2 ^ (32 - unat p)) us)
       (initial_slot sha256 pool p w n) (slot_count pool p) = Some k"
    using c by (auto simp: allocate_eq [OF pool fits us])
  then have "k < slot_count pool p \<and>
      \<not> slot_covered (occupied_slot_intervals pool (2 ^ (32 - unat p)) us) k"
    using first_free_slot_sound [OF occupied_intervals(1) [OF pool fits us]] i
    by (fastforce simp: free_slot_def split: option.splits)
  then have "k < slot_count pool p" and "\<not> (\<exists>u\<in>set us. cidr_overlaps (slot_cidr pool p k) u)"
    using occupied_intervals(3) [OF pool fits us] by blast+
  then show ?thesis
    using slot_cidr_ok [OF pool fits] slot_cidr_in_pool [OF pool fits]
    by (simp add: k subnet_fits_def)
qed

lemma allocate_none_overlap:
  assumes pool: "cidr_ok pool" and us: "\<forall>u\<in>set us. cidr_ok u"
    and none: "allocate_ipv4_subnet_slot sha256 pool p w n us = None"
    and c: "cidr_ok c" "cidr_prefix c = p" "cidr_contains pool c" "cidr_prefix pool \<le> p"
  shows "\<exists>u\<in>set us. cidr_overlaps c u"
proof -
  have fits: "prefix_fits pool p"
    using c by (simp add: prefix_fits_def cidr_ok_def word_le_nat_alt)
  let ?occ = "occupied_slot_intervals pool (2 ^ (32 - unat p)) us"
  let ?i = "initial_slot sha256 pool p w n"
  obtain k where k: "k < slot_count pool p" "c = slot_cidr pool p k"
    using cidr_is_slot [OF pool c(1)] fits c(2,3) by metis
  have "first_free_slot ?occ ?i (slot_count pool p) = None" "first_free_slot ?occ 0 ?i = None"
    using none by (auto simp: allocate_eq [OF pool fits us] free_slot_def split: option.splits)
  then have "slot_covered ?occ k"
    using first_free_slot_complete [OF _ occupied_intervals(2) [OF pool fits us]] k(1)
    by (metis linorder_not_le zero_le)
  then show ?thesis using occupied_intervals(3) [OF pool fits us k(1)] k(2) by simp
qed

section \<open>The contract of an allocator\<close>

text \<open>
  What a caller may rely on: a block that is returned has the prefix asked for, lies in the pool
  and meets nothing that is unavailable, and no block is withheld that would do. The planner
  accepts a candidate of its own by \<open>subnet_is_available\<close> and otherwise asks the allocator; the
  locale shows that either way the choice has the same properties.
\<close>

locale subnet_allocator =
  fixes alloc :: "ipv4_cidr \<Rightarrow> u8 \<Rightarrow> 'key \<Rightarrow> ipv4_cidr list \<Rightarrow> ipv4_cidr option"
  assumes alloc_fits: "cidr_ok pool \<Longrightarrow> \<forall>u\<in>set us. cidr_ok u \<Longrightarrow> alloc pool p key us = Some c \<Longrightarrow>
      subnet_fits pool p us c"
    and alloc_exhausted: "cidr_ok pool \<Longrightarrow> \<forall>u\<in>set us. cidr_ok u \<Longrightarrow> alloc pool p key us = None \<Longrightarrow>
      cidr_prefix pool \<le> p \<Longrightarrow> \<not> subnet_fits pool p us c"
begin

definition pick :: "ipv4_cidr option \<Rightarrow> ipv4_cidr \<Rightarrow> u8 \<Rightarrow> 'key \<Rightarrow> ipv4_cidr list \<Rightarrow> ipv4_cidr option" where
  "pick preferred pool p key us =
     (case preferred of Some c \<Rightarrow> Some c | None \<Rightarrow> alloc pool p key us)"

lemma pick_fits:
  assumes "cidr_ok pool" "\<forall>u\<in>set us. cidr_ok u" "pick preferred pool p key us = Some c"
    and "\<And>d. preferred = Some d \<Longrightarrow> cidr_ok d \<and> cidr_prefix d = p \<and> subnet_is_available d pool us"
  shows "subnet_fits pool p us c"
proof (cases preferred)
  case None
  with assms show ?thesis by (auto simp: pick_def intro: alloc_fits)
next
  case (Some d)
  with assms(3,4) show ?thesis
    by (auto simp: pick_def subnet_fits_def subnet_is_available_def list_all_iff)
qed

lemma pick_exhausted:
  "cidr_ok pool \<Longrightarrow> \<forall>u\<in>set us. cidr_ok u \<Longrightarrow> pick preferred pool p key us = None \<Longrightarrow>
   cidr_prefix pool \<le> p \<Longrightarrow> \<not> subnet_fits pool p us c"
  by (auto simp: pick_def intro: alloc_exhausted dest: alloc_exhausted split: option.splits)

end

lemma allocate_exhausted:
  "cidr_ok pool \<Longrightarrow> \<forall>u\<in>set us. cidr_ok u \<Longrightarrow>
   allocate_ipv4_subnet_slot sha256 pool p w n us = None \<Longrightarrow> cidr_prefix pool \<le> p \<Longrightarrow>
   \<not> subnet_fits pool p us c"
  unfolding subnet_fits_def using allocate_none_overlap by blast

definition slot_allocator ::
  "(string \<Rightarrow> u8 list) \<Rightarrow> ipv4_cidr \<Rightarrow> u8 \<Rightarrow> string \<times> string \<Rightarrow> ipv4_cidr list \<Rightarrow> ipv4_cidr option" where
  "slot_allocator sha256 pool p key us = allocate_ipv4_subnet_slot sha256 pool p (fst key) (snd key) us"

interpretation slot_alloc: subnet_allocator "slot_allocator sha256" for sha256
  by unfold_locales
     (auto simp only: slot_allocator_def intro: allocate_fits dest: allocate_exhausted)

text \<open>Equations that evaluate the allocator on literals.\<close>

lemmas subnet_eval = cidr_parse_def allocate_ipv4_subnet_slot_def checked_shl_u64_def
  u64_from_be_bytes_def occupied_slot_intervals_def cidr_overlaps_def push_interval_def
  first_free_slot_def checked_add_u64_def checked_mul_u64_def u32_try_from_def checked_add_def

section \<open>Properties\<close>

definition example_pool :: ipv4_cidr where
  "example_pool = \<lparr>cidr_network = 0x0A000000, cidr_broadcast = 0x0A0001FF, cidr_prefix = 23\<rparr>"

definition example_block :: "u32 \<Rightarrow> ipv4_cidr" where
  "example_block n = \<lparr>cidr_network = n, cidr_broadcast = n + 255, cidr_prefix = 24\<rparr>"

lemma example_blocks_ok:
  "cidr_ok example_pool" "cidr_ok (example_block 0x0A000000)" "cidr_ok (example_block 0x0A000100)"
  by (simp_all add: example_pool_def example_block_def cidr_ok_def cidr_size_def)

text \<open>C8. A subnet returned by allocate_ipv4_subnet_slot is a well-formed CIDR block with
  the requested prefix, lies inside the pool and shares no address with any unavailable subnet,
  whatever slot the hash proposes.\<close>

theorem allocated_subnet_is_free:
  assumes "cidr_ok pool" "\<forall>u\<in>set unavailable. cidr_ok u"
    and "allocate_ipv4_subnet_slot sha256 pool p workspace_id compose_network unavailable = Some c"
  shows "cidr_ok c \<and> cidr_prefix c = p \<and> cidr_addresses c \<subseteq> cidr_addresses pool \<and>
         (\<forall>u\<in>set unavailable. cidr_addresses c \<inter> cidr_addresses u = {})"
proof -
  have "subnet_fits pool p unavailable c" using assms by (rule allocate_fits)
  then show ?thesis
    using assms(2) cidr_contains_iff [of c pool] cidr_overlaps_iff [of c]
    unfolding subnet_fits_def by blast
qed

lemma example_allocation:
  "allocate_ipv4_subnet_slot (\<lambda>_. [0, 0, 0, 0, 0, 0, 0, 0]) example_pool 24 ''w'' ''n''
     [example_block 0x0A000000] = Some (example_block 0x0A000100)"
  by (simp add: subnet_eval example_pool_def example_block_def)

theorem allocated_subnet_is_free_witness:
  "cidr_addresses (example_block 0x0A000100) \<inter> cidr_addresses (example_block 0x0A000000) = {}"
  using allocated_subnet_is_free [OF example_blocks_ok(1) _ example_allocation] example_blocks_ok
  by simp

text \<open>C39. allocate_ipv4_subnet_slot returns None for a prefix that fits the pool only if
  every block of that prefix inside the pool shares an address with an unavailable subnet.\<close>

theorem pool_exhausted_only_if_full:
  assumes "cidr_ok pool" "\<forall>u\<in>set unavailable. cidr_ok u"
    and "allocate_ipv4_subnet_slot sha256 pool p workspace_id compose_network unavailable = None"
    and "cidr_ok c" "cidr_prefix c = p" "cidr_addresses c \<subseteq> cidr_addresses pool" "cidr_prefix pool \<le> p"
  shows "\<exists>u\<in>set unavailable. cidr_addresses c \<inter> cidr_addresses u \<noteq> {}"
  using allocate_none_overlap [of pool unavailable sha256 p workspace_id compose_network c] assms
  by (auto simp: cidr_contains_iff cidr_overlaps_iff)

lemma example_exhausted:
  "allocate_ipv4_subnet_slot (\<lambda>_. [0, 0, 0, 0, 0, 0, 0, 0]) example_pool 24 ''w'' ''n''
     [example_block 0x0A000000, example_block 0x0A000100] = None"
  by (simp add: subnet_eval example_pool_def example_block_def)

theorem pool_exhausted_only_if_full_witness:
  "\<exists>u\<in>set [example_block 0x0A000000, example_block 0x0A000100].
     cidr_addresses (example_block 0x0A000100) \<inter> cidr_addresses u \<noteq> {}"
  by (rule pool_exhausted_only_if_full [OF example_blocks_ok(1) _ example_exhausted])
     (use example_blocks_ok in \<open>simp_all add: cidr_contains_iff [symmetric] cidr_contains_def
        example_block_def example_pool_def\<close>)

text \<open>Parsing the display of a well-formed CIDR block gives the block back.\<close>

theorem cidr_display_parses_back:
  "cidr_ok c \<Longrightarrow> cidr_parse (cidr_show c) = Some c"
  by (rule cidr_parse_show)

theorem cidr_display_parses_back_witness:
  "cidr_parse (cidr_show example_pool) = Some example_pool"
  by (rule cidr_display_parses_back [OF example_blocks_ok(1)])

text \<open>Two parsed CIDR blocks are nested or disjoint as sets of addresses, and
  Ipv4Cidr::overlaps decides exactly whether they share an address.\<close>

theorem cidr_blocks_nest_or_are_disjoint:
  assumes "cidr_parse s = Some c" "cidr_parse t = Some d"
  shows "(cidr_addresses c \<subseteq> cidr_addresses d \<or> cidr_addresses d \<subseteq> cidr_addresses c \<or>
          cidr_addresses c \<inter> cidr_addresses d = {}) \<and>
         (cidr_overlaps c d \<longleftrightarrow> cidr_addresses c \<inter> cidr_addresses d \<noteq> {})"
  using cidr_parse_ok [OF assms(1)] cidr_parse_ok [OF assms(2)] cidr_laminar [of c d]
  by (auto simp: cidr_contains_iff cidr_overlaps_iff)

theorem cidr_blocks_nest_or_are_disjoint_witness:
  "cidr_overlaps example_pool (example_block 0x0A000000) \<longleftrightarrow>
   cidr_addresses example_pool \<inter> cidr_addresses (example_block 0x0A000000) \<noteq> {}"
  using cidr_blocks_nest_or_are_disjoint
    [OF cidr_parse_show [OF example_blocks_ok(1)] cidr_parse_show [OF example_blocks_ok(2)]]
  by blast

end
