(* ===== verification/Isolation_Types.thy ===== *)
theory Isolation_Types
  imports Compose_Model Subnet
begin

text \<open>
  The data of clone isolation, \<open>src/runtime/compose_isolation/types.rs\<close>: what a scan of the
  Compose model requests, what the Docker daemon reports, the plans, and the findings. A
  \<open>BTreeSet<String>\<close> is a sorted list.
\<close>

datatype resource_kind = Service_Container | Network_Kind | Volume_Kind | Config_Kind | Secret_Kind

text \<open>The derived \<open>Ord\<close> of the enum is the order of its variants.\<close>

fun kind_rank :: "resource_kind \<Rightarrow> nat" where
  "kind_rank Service_Container = 0"
| "kind_rank Network_Kind = 1"
| "kind_rank Volume_Kind = 2"
| "kind_rank Config_Kind = 3"
| "kind_rank Secret_Kind = 4"

lemma kind_rank_inject [simp]: "kind_rank a = kind_rank b \<longleftrightarrow> a = b"
  by (cases a; cases b) auto

instantiation resource_kind :: linorder
begin

definition less_eq_resource_kind :: "resource_kind \<Rightarrow> resource_kind \<Rightarrow> bool" where
  "less_eq_resource_kind a b \<longleftrightarrow> kind_rank a \<le> kind_rank b"

definition less_resource_kind :: "resource_kind \<Rightarrow> resource_kind \<Rightarrow> bool" where
  "less_resource_kind a b \<longleftrightarrow> kind_rank a < kind_rank b"

instance
  by standard (auto simp: less_eq_resource_kind_def less_resource_kind_def)

end

fun compose_label :: "resource_kind \<Rightarrow> string" where
  "compose_label Service_Container = ''service container''"
| "compose_label Network_Kind = ''network''"
| "compose_label Volume_Kind = ''volume''"
| "compose_label Config_Kind = ''config''"
| "compose_label Secret_Kind = ''secret''"

fun docker_label :: "resource_kind \<Rightarrow> string" where
  "docker_label Service_Container = ''container''"
| "docker_label Network_Kind = ''network''"
| "docker_label Volume_Kind = ''volume''"
| "docker_label Config_Kind = ''config''"
| "docker_label Secret_Kind = ''secret''"

section \<open>Requests\<close>

record network_request =
  nr_network :: string
  nr_driver :: "string option"
  nr_ipam_driver :: "string option"
  nr_subnet :: string
  nr_gateway :: "string option"
  nr_ip_range :: "string option"
  nr_aux_addresses :: "(string, string) btree_map"
  nr_has_unrepresented_ipam_configs :: bool
  nr_unsupported_ipam_fields :: "string list"

record fixed_name_request =
  fr_kind :: resource_kind
  fr_resource :: string
  fr_name :: string

record isolation_scan =
  scan_network_requests :: "network_request list"
  scan_fixed_names :: "fixed_name_request list"

definition scan_is_empty :: "isolation_scan \<Rightarrow> bool" where
  "scan_is_empty scan = (scan_network_requests scan = [] \<and> scan_fixed_names scan = [])"

definition has_fixed_names_of_kind :: "isolation_scan \<Rightarrow> resource_kind \<Rightarrow> bool" where
  "has_fixed_names_of_kind scan kind = list_ex (\<lambda>fixed. fr_kind fixed = kind) (scan_fixed_names scan)"

section \<open>Plans\<close>

record service_name_rewrite =
  sr_service :: string
  sr_original_name :: string
  sr_rewritten_name :: string
  sr_networks :: "string list"

record service_reference_rewrite =
  rr_service :: string
  rr_network_mode :: "string option"
  rr_ipc :: "string option"
  rr_pid :: "string option"
  rr_volumes_from :: "string list option"
  rr_external_links :: "string list option"

record resource_name_rewrite =
  rn_kind :: resource_kind
  rn_resource :: string
  rn_original_name :: string
  rn_rewritten_name :: string

record name_rewrite_plan =
  np_services :: "service_name_rewrite list"
  np_service_references :: "service_reference_rewrite list"
  np_resources :: "resource_name_rewrite list"

definition requires_reference_list_override_tag :: "name_rewrite_plan \<Rightarrow> bool" where
  "requires_reference_list_override_tag plan =
     list_ex (\<lambda>rewrite. rr_volumes_from rewrite \<noteq> None \<or> rr_external_links rewrite \<noteq> None)
       (np_service_references plan)"

record subnet_allocation =
  sa_network :: string
  sa_requested_subnet :: string
  sa_planned_subnet :: string
  sa_planned_gateway :: "string option"
  sa_planned_ip_range :: "string option"
  sa_planned_aux_addresses :: "(string, string) btree_map"
  sa_relocated :: bool

record subnet_plan =
  sp_allocations :: "subnet_allocation list"
  sp_networks_to_remove :: "string list"

record endpoint_declaration =
  ed_service :: string
  ed_env :: string
  ed_value :: string

record endpoint_plan =
  ep_services :: "(string, (string, string) btree_map) btree_map"

record persisted_subnet =
  ps_network :: string
  ps_requested_subnet :: string
  ps_planned_subnet :: string

section \<open>The daemon\<close>

record docker_ipam_config =
  di_subnet :: "string option"
  di_gateway :: "string option"
  di_ip_range :: "string option"
  di_auxiliary_addresses :: "(string, string) btree_map"

record docker_network =
  dn_name :: string
  dn_compose_project :: "string option"
  dn_compose_network :: "string option"
  dn_scope :: "string option"
  dn_ipam_driver :: "string option"
  dn_ipam_configs :: "docker_ipam_config list"
  dn_has_attached_containers :: bool

record docker_resource =
  dr_kind :: resource_kind
  dr_name :: string
  dr_compose_project :: "string option"

record daemon_snapshot =
  ds_networks :: "docker_network list"
  ds_resources :: "docker_resource list"

section \<open>Findings\<close>

datatype isolation_finding =
    Network_Subnet_Overlap
      (nf_compose_network: string) (nf_requested_subnet: string) (nf_requested_gateway: "string option")
      (nf_docker_network: string) (nf_docker_project: "string option") (nf_docker_subnet: string)
      (nf_docker_gateway: "string option")
  | Fixed_Name_Conflict
      (ff_kind: resource_kind) (ff_compose_resource: string) (ff_requested_name: string)
      (ff_docker_resource_name: string) (ff_docker_project: "string option")
  | Endpoint_Unsafe
      (ef_service: string) (ef_env: string) (ef_network: string) (ef_address: string)

section \<open>Diagnostic codes and small text helpers\<close>

definition compose_clone_isolation_invalid :: string where
  "compose_clone_isolation_invalid = ''compose_clone_isolation_invalid''"

definition compose_clone_isolation_unsupported :: string where
  "compose_clone_isolation_unsupported = ''compose_clone_isolation_unsupported''"

definition compose_clone_isolation_pool_exhausted :: string where
  "compose_clone_isolation_pool_exhausted = ''compose_clone_isolation_pool_exhausted''"

text \<open>\<open>src/text.rs\<close>.\<close>

definition non_empty_trimmed :: "string \<Rightarrow> string option" where
  "non_empty_trimmed s = (if trim s = [] then None else Some (trim s))"

lemma non_empty_trimmed_Some: "non_empty_trimmed s = Some t \<longleftrightarrow> t = trim s \<and> t \<noteq> []"
  by (auto simp: non_empty_trimmed_def)

end
