(* ===== verification/Isolation_Scan.thy ===== *)
theory Isolation_Scan
  imports Isolation_Types
begin

text \<open>
  What clone isolation asks of a Compose model and where it meets the Docker daemon:
  \<open>scan.rs\<close> (fixed subnets and fixed names), the conflict detection \<open>plan_compose_isolation\<close> of
  \<open>plan.rs\<close>, and \<open>diagnostics.rs\<close>.
\<close>

section \<open>The scan\<close>

definition empty_scan :: isolation_scan where
  "empty_scan = \<lparr>scan_network_requests = [], scan_fixed_names = []\<rparr>"

definition push_fixed_name :: "resource_kind \<Rightarrow> string \<Rightarrow> string \<Rightarrow> isolation_scan \<Rightarrow> isolation_scan" where
  "push_fixed_name kind resource_name name scan =
     scan\<lparr>scan_fixed_names :=
            scan_fixed_names scan @ [\<lparr>fr_kind = kind, fr_resource = resource_name, fr_name = name\<rparr>]\<rparr>"

definition scoped_resource_name :: "string \<Rightarrow> string \<Rightarrow> string" where
  "scoped_resource_name project_name resource_name = project_name @ ''_'' @ resource_name"

definition scan_named_resource ::
  "string \<Rightarrow> compose_config_resource \<Rightarrow> resource_kind \<Rightarrow> string \<Rightarrow> isolation_scan \<Rightarrow> isolation_scan" where
  "scan_named_resource resource_name resource_config kind project_name scan =
     (if res_external resource_config then scan
      else case Option.bind (res_name resource_config) non_empty_trimmed of
             None \<Rightarrow> scan
           | Some name \<Rightarrow>
               if name = scoped_resource_name project_name resource_name then scan
               else push_fixed_name kind resource_name name scan)"

definition scan_named_resources ::
  "(string, compose_config_resource) btree_map \<Rightarrow> resource_kind \<Rightarrow> string \<Rightarrow> isolation_scan \<Rightarrow> isolation_scan"
where
  "scan_named_resources resources kind project_name scan =
     foldl (\<lambda>s (name, config). scan_named_resource name config kind project_name s) scan resources"

definition has_config_without_subnet :: "compose_config_ipam \<Rightarrow> bool" where
  "has_config_without_subnet ipam =
     list_ex (\<lambda>config. Option.bind (ic_subnet config) non_empty_trimmed = None) (ipam_config ipam)"

definition network_requests_of ::
  "string \<Rightarrow> compose_config_resource \<Rightarrow> compose_config_ipam \<Rightarrow> network_request list" where
  "network_requests_of network_name network ipam =
     filter_map
       (\<lambda>config.
          map_option
            (\<lambda>subnet.
               \<lparr>nr_network = network_name,
                nr_driver = res_driver network,
                nr_ipam_driver = ipam_driver ipam,
                nr_subnet = subnet,
                nr_gateway = Option.bind (ic_gateway config) non_empty_trimmed,
                nr_ip_range = Option.bind (ic_ip_range config) non_empty_trimmed,
                nr_aux_addresses = ic_aux_addresses config,
                nr_has_unrepresented_ipam_configs = has_config_without_subnet ipam,
                nr_unsupported_ipam_fields = bt_keys (ic_additional_fields config)\<rparr>)
            (Option.bind (ic_subnet config) non_empty_trimmed))
       (ipam_config ipam)"

definition scan_network ::
  "string \<Rightarrow> compose_config_resource \<Rightarrow> string \<Rightarrow> isolation_scan \<Rightarrow> isolation_scan" where
  "scan_network network_name network project_name scan =
     (if res_external network then scan
      else
        scan_named_resource network_name network Network_Kind project_name
          (case res_ipam network of
             None \<Rightarrow> scan
           | Some ipam \<Rightarrow>
               scan\<lparr>scan_network_requests :=
                      scan_network_requests scan @ network_requests_of network_name network ipam\<rparr>))"

definition scan_networks ::
  "(string, compose_config_resource) btree_map \<Rightarrow> string \<Rightarrow> isolation_scan \<Rightarrow> isolation_scan" where
  "scan_networks networks project_name scan =
     foldl (\<lambda>s (name, network). scan_network name network project_name s) scan networks"

definition scan_container_names ::
  "(string, compose_config_service) btree_map \<Rightarrow> isolation_scan \<Rightarrow> isolation_scan" where
  "scan_container_names services scan =
     foldl (\<lambda>s (service_name, service).
              case Option.bind (svc_container_name service) non_empty_trimmed of
                None \<Rightarrow> s
              | Some name \<Rightarrow> push_fixed_name Service_Container service_name name s)
       scan services"

definition scan_compose_isolation :: "compose_config_model \<Rightarrow> string \<Rightarrow> isolation_scan" where
  "scan_compose_isolation model project_name =
     scan_named_resources (cm_secrets model) Secret_Kind project_name
       (scan_named_resources (cm_configs model) Config_Kind project_name
         (scan_named_resources (cm_volumes model) Volume_Kind project_name
           (scan_networks (cm_networks model) project_name
             (scan_container_names (cm_services model) empty_scan))))"

section \<open>IPAM address spaces\<close>

datatype ipam_address_space = Local_Space | Global_Space

definition non_empty_trim :: "string option \<Rightarrow> string option" where
  "non_empty_trim o' = Option.bind o' non_empty_trimmed"

definition effective_ipam_driver :: "string option \<Rightarrow> string" where
  "effective_ipam_driver driver =
     (case non_empty_trim driver of Some d \<Rightarrow> d | None \<Rightarrow> ''default'')"

definition requested_address_space :: "string option \<Rightarrow> ipam_address_space option" where
  "requested_address_space driver =
     (case non_empty_trim driver of
        None \<Rightarrow> Some Local_Space
      | Some d \<Rightarrow> if d \<in> {''bridge'', ''macvlan'', ''ipvlan''} then Some Local_Space
                  else if d = ''overlay'' then Some Global_Space
                  else None)"

definition existing_address_space :: "string option \<Rightarrow> ipam_address_space option" where
  "existing_address_space scope =
     (case non_empty_trim scope of
        None \<Rightarrow> None
      | Some s \<Rightarrow> if s = ''local'' then Some Local_Space
                  else if s \<in> {''swarm'', ''global''} then Some Global_Space
                  else None)"

definition uses_same_ipam_address_space :: "network_request \<Rightarrow> docker_network \<Rightarrow> bool" where
  "uses_same_ipam_address_space requested existing =
     (if effective_ipam_driver (nr_ipam_driver requested) \<noteq> effective_ipam_driver (dn_ipam_driver existing)
      then False
      else case (requested_address_space (nr_driver requested), existing_address_space (dn_scope existing)) of
             (Some r, Some e) \<Rightarrow> r = e
           | _ \<Rightarrow> True)"

definition is_self_project :: "string option \<Rightarrow> string \<Rightarrow> bool" where
  "is_self_project compose_project project_name = (compose_project = Some project_name)"

section \<open>Conflicts\<close>

record isolation_plan_input =
  pi_project_name :: string
  pi_scan :: isolation_scan
  pi_daemon :: daemon_snapshot

definition subnet_overlap_finding ::
  "network_request \<Rightarrow> ipv4_cidr \<Rightarrow> docker_network \<Rightarrow> docker_ipam_config \<Rightarrow> isolation_finding option" where
  "subnet_overlap_finding requested requested_subnet network existing_config =
     (case di_subnet existing_config of
        None \<Rightarrow> None
      | Some existing_subnet_text \<Rightarrow>
          (case cidr_parse existing_subnet_text of
             None \<Rightarrow> None
           | Some existing_subnet \<Rightarrow>
               if cidr_overlaps requested_subnet existing_subnet
               then Some (Network_Subnet_Overlap (nr_network requested) (nr_subnet requested)
                       (nr_gateway requested) (dn_name network) (dn_compose_project network)
                       existing_subnet_text (di_gateway existing_config))
               else None))"

definition plan_subnet_overlaps :: "isolation_plan_input \<Rightarrow> isolation_finding list" where
  "plan_subnet_overlaps input =
     concat (map (\<lambda>requested.
       case cidr_parse (nr_subnet requested) of
         None \<Rightarrow> []
       | Some requested_subnet \<Rightarrow>
           concat (map (\<lambda>network.
             if is_self_project (dn_compose_project network) (pi_project_name input) then []
             else if \<not> uses_same_ipam_address_space requested network then []
             else filter_map (subnet_overlap_finding requested requested_subnet network)
                    (dn_ipam_configs network))
           (ds_networks (pi_daemon input))))
     (scan_network_requests (pi_scan input)))"

definition fixed_name_finding ::
  "string \<Rightarrow> fixed_name_request \<Rightarrow> docker_resource \<Rightarrow> isolation_finding option" where
  "fixed_name_finding project_name fixed existing =
     (if fr_kind fixed \<noteq> dr_kind existing \<or> fr_name fixed \<noteq> dr_name existing then None
      else if is_self_project (dr_compose_project existing) project_name then None
      else Some (Fixed_Name_Conflict (fr_kind fixed) (fr_resource fixed) (fr_name fixed)
                  (dr_name existing) (dr_compose_project existing)))"

definition plan_fixed_name_conflicts :: "isolation_plan_input \<Rightarrow> isolation_finding list" where
  "plan_fixed_name_conflicts input =
     concat (map (\<lambda>fixed.
        filter_map (fixed_name_finding (pi_project_name input) fixed) (ds_resources (pi_daemon input)))
       (scan_fixed_names (pi_scan input)))"

definition plan_compose_isolation :: "isolation_plan_input \<Rightarrow> isolation_finding list" where
  "plan_compose_isolation input = plan_subnet_overlaps input @ plan_fixed_name_conflicts input"

section \<open>Diagnostics\<close>

text \<open>The diagnostic of a finding has its fields, so it is represented by the finding itself.\<close>

definition optional_value :: "string option \<Rightarrow> string" where
  "optional_value o' =
     (case o' of Some s \<Rightarrow> if trim s \<noteq> [] then s else ''<none>'' | None \<Rightarrow> ''<none>'')"

fun diagnostic_text :: "isolation_finding \<Rightarrow> string" where
  "diagnostic_text (Network_Subnet_Overlap compose_network requested_subnet requested_gateway
      docker_network docker_project docker_subnet docker_gateway) =
     fmt [''compose_network_subnet_overlap: Docker Compose network subnet overlaps an existing Docker network. network: `'',
       compose_network, ''`; requested subnet: '', requested_subnet, ''; requested gateway: '',
       optional_value requested_gateway, ''; existing network: `'', docker_network,
       ''`; existing subnet: '', docker_subnet, ''; existing gateway: '', optional_value docker_gateway,
       ''; existing compose project: '', optional_value docker_project,
       ''. decune does not rewrite Compose network IPAM in this mode. Suggested actions: stop or remove the conflicting Docker network/project, or change the Compose network subnet when that is compatible with external contracts.'']"
| "diagnostic_text (Fixed_Name_Conflict kind compose_resource requested_name docker_resource_name
      docker_project) =
     fmt [''compose_fixed_name_conflict: Docker Compose fixed resource name conflicts with an existing Docker resource. resource: '',
       compose_label kind, '' `'', compose_resource, ''`; requested name: `'', requested_name,
       ''`; existing resource: '', docker_label kind, '' `'', docker_resource_name,
       ''`; existing compose project: '', optional_value docker_project,
       ''. decune does not rewrite fixed Compose resource names in this mode. Suggested actions: stop or remove the conflicting Docker resource/project, or change the fixed name in the Compose file.'']"
| "diagnostic_text (Endpoint_Unsafe service env network address) =
     fmt [''compose_clone_isolation_endpoint_unsafe: Docker Compose service environment contains an original address from a relocated network after endpoint rendering. service: `'',
       service, ''`; environment variable: `'', env, ''`; network: `'', network,
       ''`; original address: '', address,
       ''. Replace the original address with the matching decune network placeholder in ['',
       ''[compose.clone_isolation.endpoints]'', ''] for this service and environment variable.'']"

definition validate_isolation_diagnostics :: "isolation_finding list \<Rightarrow> isolation_finding list + unit" where
  "validate_isolation_diagnostics findings =
     (if findings = [] then Inr () else Inl (sort_key diagnostic_text findings))"

definition diagnostics_text :: "isolation_finding list \<Rightarrow> string" where
  "diagnostics_text diagnostics =
     (case diagnostics of
        [diagnostic] \<Rightarrow> diagnostic_text diagnostic
      | _ \<Rightarrow>
          fmt [''Docker Compose clone isolation preflight detected '', show_nat (length diagnostics),
               '' conflicts:'', [CHR 10],
               str_join [CHR 10] (map (\<lambda>d. ''- '' @ diagnostic_text d) diagnostics)])"

section \<open>What the scan finds\<close>

definition fixed_name_of :: "resource_kind \<Rightarrow> string \<Rightarrow> string \<times> compose_config_resource \<Rightarrow> fixed_name_request list"
where
  "fixed_name_of kind project_name entry = scan_fixed_names
     (scan_named_resource (fst entry) (snd entry) kind project_name empty_scan)"

lemma set_fixed_name_of:
  "fixed \<in> set (fixed_name_of kind project_name (resource_name, config)) \<longleftrightarrow>
     fr_kind fixed = kind \<and> fr_resource fixed = resource_name \<and> \<not> res_external config \<and>
     Option.bind (res_name config) non_empty_trimmed = Some (fr_name fixed) \<and>
     fr_name fixed \<noteq> scoped_resource_name project_name resource_name"
  by (cases fixed)
     (auto simp: fixed_name_of_def scan_named_resource_def empty_scan_def push_fixed_name_def
       split: option.splits)

lemma scan_named_resource_eq:
  "scan_named_resource resource_name config kind project_name scan =
     scan\<lparr>scan_fixed_names := scan_fixed_names scan @ fixed_name_of kind project_name (resource_name, config)\<rparr>"
  by (simp add: fixed_name_of_def scan_named_resource_def empty_scan_def push_fixed_name_def
      split: option.splits)

lemma scan_named_resources_eq:
  "scan_named_resources resources kind project_name scan =
     scan\<lparr>scan_fixed_names :=
       scan_fixed_names scan @ concat (map (fixed_name_of kind project_name) resources)\<rparr>"
  unfolding scan_named_resources_def
  by (induction resources arbitrary: scan) (auto simp: scan_named_resource_eq)

definition network_requests :: "string \<times> compose_config_resource \<Rightarrow> network_request list" where
  "network_requests entry =
     (if res_external (snd entry) then []
      else case res_ipam (snd entry) of None \<Rightarrow> [] | Some ipam \<Rightarrow> network_requests_of (fst entry) (snd entry) ipam)"

lemma scan_networks_eq:
  "scan_networks networks project_name scan =
     scan\<lparr>scan_network_requests := scan_network_requests scan @ concat (map network_requests networks),
          scan_fixed_names :=
            scan_fixed_names scan @ concat (map (fixed_name_of Network_Kind project_name) networks)\<rparr>"
proof -
  have one: "scan_network n network project_name s =
      s\<lparr>scan_network_requests := scan_network_requests s @ network_requests (n, network),
        scan_fixed_names := scan_fixed_names s @ fixed_name_of Network_Kind project_name (n, network)\<rparr>"
    for n network s
  proof (cases "res_external network")
    case True
    then show ?thesis
      by (simp add: scan_network_def network_requests_def fixed_name_of_def scan_named_resource_def
          empty_scan_def)
  next
    case False
    then show ?thesis
      by (cases "res_ipam network") (simp_all add: scan_network_def scan_named_resource_eq network_requests_def)
  qed
  show ?thesis
    unfolding scan_networks_def by (induction networks arbitrary: scan) (auto simp: one)
qed

definition container_name_of :: "string \<times> compose_config_service \<Rightarrow> fixed_name_request list" where
  "container_name_of entry =
     (case Option.bind (svc_container_name (snd entry)) non_empty_trimmed of
        None \<Rightarrow> []
      | Some name \<Rightarrow> [\<lparr>fr_kind = Service_Container, fr_resource = fst entry, fr_name = name\<rparr>])"

lemma scan_container_names_eq:
  "scan_container_names services scan =
     scan\<lparr>scan_fixed_names := scan_fixed_names scan @ concat (map container_name_of services)\<rparr>"
  unfolding scan_container_names_def
  by (induction services arbitrary: scan)
     (auto simp: container_name_of_def push_fixed_name_def split: option.splits)

lemma scan_compose_isolation_eq:
  "scan_compose_isolation model project_name =
     \<lparr>scan_network_requests = concat (map network_requests (cm_networks model)),
      scan_fixed_names =
        concat (map container_name_of (cm_services model)) @
        concat (map (fixed_name_of Network_Kind project_name) (cm_networks model)) @
        concat (map (fixed_name_of Volume_Kind project_name) (cm_volumes model)) @
        concat (map (fixed_name_of Config_Kind project_name) (cm_configs model)) @
        concat (map (fixed_name_of Secret_Kind project_name) (cm_secrets model))\<rparr>"
  by (simp add: scan_compose_isolation_def scan_named_resources_eq scan_networks_eq
      scan_container_names_eq empty_scan_def)

text \<open>The resources of a kind that a model declares; containers belong to services.\<close>

fun resources_of_kind :: "resource_kind \<Rightarrow> compose_config_model \<Rightarrow> (string, compose_config_resource) btree_map"
where
  "resources_of_kind Service_Container model = []"
| "resources_of_kind Network_Kind model = cm_networks model"
| "resources_of_kind Volume_Kind model = cm_volumes model"
| "resources_of_kind Config_Kind model = cm_configs model"
| "resources_of_kind Secret_Kind model = cm_secrets model"

lemma in_container_name_of:
  "fixed \<in> set (container_name_of (n, service)) \<longleftrightarrow>
     fr_kind fixed = Service_Container \<and> fr_resource fixed = n \<and>
     Option.bind (svc_container_name service) non_empty_trimmed = Some (fr_name fixed)"
  by (cases fixed) (auto simp: container_name_of_def split: option.splits)

lemma in_scan_fixed_names:
  "fixed \<in> set (scan_fixed_names (scan_compose_isolation model project_name)) \<longleftrightarrow>
     (\<exists>(n, service) \<in> set (cm_services model). fixed \<in> set (container_name_of (n, service))) \<or>
     (\<exists>kind. \<exists>(n, config) \<in> set (resources_of_kind kind model).
        fixed \<in> set (fixed_name_of kind project_name (n, config)))"
proof -
  have ex: "(\<exists>kind. P kind) \<longleftrightarrow> P Service_Container \<or> P Network_Kind \<or> P Volume_Kind \<or>
      P Config_Kind \<or> P Secret_Kind" for P
    by (metis resource_kind.exhaust)
  show ?thesis
    unfolding ex by (simp add: scan_compose_isolation_eq case_prod_unfold)
qed

section \<open>What counts as a conflict\<close>

lemma subnet_overlap_finding_Some:
  "subnet_overlap_finding requested rs network config = Some f \<longleftrightarrow>
     (\<exists>text es. di_subnet config = Some text \<and> cidr_parse text = Some es \<and> cidr_overlaps rs es \<and>
        f = Network_Subnet_Overlap (nr_network requested) (nr_subnet requested) (nr_gateway requested)
              (dn_name network) (dn_compose_project network) text (di_gateway config))"
  by (auto simp: subnet_overlap_finding_def split: option.splits)

lemma in_plan_subnet_overlaps:
  "f \<in> set (plan_subnet_overlaps input) \<longleftrightarrow>
     (\<exists>requested\<in>set (scan_network_requests (pi_scan input)). \<exists>network\<in>set (ds_networks (pi_daemon input)).
        \<exists>config\<in>set (dn_ipam_configs network). \<exists>rs.
          cidr_parse (nr_subnet requested) = Some rs \<and>
          dn_compose_project network \<noteq> Some (pi_project_name input) \<and>
          uses_same_ipam_address_space requested network \<and>
          subnet_overlap_finding requested rs network config = Some f)"
proof -
  have per_request: "f \<in> set (case cidr_parse (nr_subnet requested) of None \<Rightarrow> [] | Some rs \<Rightarrow> g rs) \<longleftrightarrow>
      (\<exists>rs. cidr_parse (nr_subnet requested) = Some rs \<and> f \<in> set (g rs))" for requested g
    by (cases "cidr_parse (nr_subnet requested)") auto
  show ?thesis
    unfolding plan_subnet_overlaps_def set_concat set_map UN_iff bex_simps per_request is_self_project_def
    by (auto simp: set_filter_map split: if_splits)
qed

lemma in_plan_fixed_name_conflicts:
  "f \<in> set (plan_fixed_name_conflicts input) \<longleftrightarrow>
     (\<exists>fixed\<in>set (scan_fixed_names (pi_scan input)). \<exists>existing\<in>set (ds_resources (pi_daemon input)).
        fr_kind fixed = dr_kind existing \<and> fr_name fixed = dr_name existing \<and>
        dr_compose_project existing \<noteq> Some (pi_project_name input) \<and>
        f = Fixed_Name_Conflict (fr_kind fixed) (fr_resource fixed) (fr_name fixed)
              (dr_name existing) (dr_compose_project existing))"
proof -
  have some: "fixed_name_finding p fixed existing = Some f \<longleftrightarrow>
      fr_kind fixed = dr_kind existing \<and> fr_name fixed = dr_name existing \<and>
      dr_compose_project existing \<noteq> Some p \<and>
      f = Fixed_Name_Conflict (fr_kind fixed) (fr_resource fixed) (fr_name fixed)
            (dr_name existing) (dr_compose_project existing)" for p fixed existing
    unfolding fixed_name_finding_def is_self_project_def by (auto split: if_splits)
  show ?thesis
    unfolding plan_fixed_name_conflicts_def set_concat set_map UN_iff bex_simps set_filter_map some mem_Collect_eq
    by (rule refl)
qed

text \<open>A request and a daemon network collide when some address belongs to both subnets.\<close>

definition subnets_collide :: "network_request \<Rightarrow> docker_network \<Rightarrow> bool" where
  "subnets_collide requested network \<longleftrightarrow>
     (\<exists>config\<in>set (dn_ipam_configs network). \<exists>text rs es.
        di_subnet config = Some text \<and> cidr_parse text = Some es \<and>
        cidr_parse (nr_subnet requested) = Some rs \<and>
        cidr_addresses rs \<inter> cidr_addresses es \<noteq> {})"

lemma no_subnet_overlaps_iff:
  "plan_subnet_overlaps input = [] \<longleftrightarrow>
     (\<forall>requested\<in>set (scan_network_requests (pi_scan input)). \<forall>network\<in>set (ds_networks (pi_daemon input)).
        subnets_collide requested network \<longrightarrow> uses_same_ipam_address_space requested network \<longrightarrow>
        dn_compose_project network = Some (pi_project_name input))"
proof -
  have collide: "subnets_collide requested network \<longleftrightarrow>
      (\<exists>config\<in>set (dn_ipam_configs network). \<exists>rs f. cidr_parse (nr_subnet requested) = Some rs \<and>
         subnet_overlap_finding requested rs network config = Some f)" for requested network
    unfolding subnets_collide_def subnet_overlap_finding_Some
    using cidr_overlaps_iff [OF cidr_parse_ok cidr_parse_ok] by (metis (no_types, lifting))
  have "plan_subnet_overlaps input = [] \<longleftrightarrow> (\<forall>f. f \<notin> set (plan_subnet_overlaps input))"
    by (cases "plan_subnet_overlaps input") auto
  then show ?thesis
    unfolding in_plan_subnet_overlaps collide by blast
qed

lemma no_fixed_name_conflicts_iff:
  "plan_fixed_name_conflicts input = [] \<longleftrightarrow>
     (\<forall>fixed\<in>set (scan_fixed_names (pi_scan input)). \<forall>existing\<in>set (ds_resources (pi_daemon input)).
        fr_kind fixed = dr_kind existing \<longrightarrow> fr_name fixed = dr_name existing \<longrightarrow>
        dr_compose_project existing = Some (pi_project_name input))"
proof -
  have "plan_fixed_name_conflicts input = [] \<longleftrightarrow> (\<forall>f. f \<notin> set (plan_fixed_name_conflicts input))"
    by (cases "plan_fixed_name_conflicts input") auto
  then show ?thesis
    unfolding in_plan_fixed_name_conflicts by blast
qed

section \<open>Properties\<close>

text \<open>The preflight reports no diagnostic exactly when no requested subnet shares an address
  with a network of another project in the same address space and no fixed name is taken by a
  resource of the same kind of another project.\<close>

theorem preflight_passes_iff_no_conflict:
  "validate_isolation_diagnostics (plan_compose_isolation input) = Inr () \<longleftrightarrow>
     (\<forall>requested\<in>set (scan_network_requests (pi_scan input)). \<forall>network\<in>set (ds_networks (pi_daemon input)).
        subnets_collide requested network \<longrightarrow> uses_same_ipam_address_space requested network \<longrightarrow>
        dn_compose_project network = Some (pi_project_name input)) \<and>
     (\<forall>fixed\<in>set (scan_fixed_names (pi_scan input)). \<forall>existing\<in>set (ds_resources (pi_daemon input)).
        fr_kind fixed = dr_kind existing \<longrightarrow> fr_name fixed = dr_name existing \<longrightarrow>
        dr_compose_project existing = Some (pi_project_name input))"
  unfolding validate_isolation_diagnostics_def plan_compose_isolation_def
    no_subnet_overlaps_iff [symmetric] no_fixed_name_conflicts_iff [symmetric]
  by simp

definition example_input :: "string \<Rightarrow> isolation_plan_input" where
  "example_input project_name =
     \<lparr>pi_project_name = project_name,
      pi_scan = \<lparr>scan_network_requests = [],
        scan_fixed_names = [\<lparr>fr_kind = Volume_Kind, fr_resource = ''data'', fr_name = ''shared''\<rparr>]\<rparr>,
      pi_daemon = \<lparr>ds_networks = [], ds_resources =
        [\<lparr>dr_kind = Volume_Kind, dr_name = ''shared'', dr_compose_project = Some ''p''\<rparr>]\<rparr>\<rparr>"

theorem preflight_passes_iff_no_conflict_witness:
  "validate_isolation_diagnostics (plan_compose_isolation (example_input ''p'')) = Inr () \<and>
   validate_isolation_diagnostics (plan_compose_isolation (example_input ''q'')) \<noteq> Inr ()"
  unfolding preflight_passes_iff_no_conflict by (simp add: example_input_def)

text \<open>The fixed names of a scan are exactly the trimmed container names of the services and
  the trimmed names of the non-external resources that differ from the name Compose would give
  them.\<close>

theorem scan_finds_exactly_the_fixed_names:
  "fixed \<in> set (scan_fixed_names (scan_compose_isolation model project_name)) \<longleftrightarrow>
     fr_kind fixed = Service_Container \<and>
       (\<exists>service. (fr_resource fixed, service) \<in> set (cm_services model) \<and>
          Option.bind (svc_container_name service) non_empty_trimmed = Some (fr_name fixed)) \<or>
     (\<exists>config. (fr_resource fixed, config) \<in> set (resources_of_kind (fr_kind fixed) model) \<and>
        \<not> res_external config \<and>
        Option.bind (res_name config) non_empty_trimmed = Some (fr_name fixed) \<and>
        fr_name fixed \<noteq> project_name @ ''_'' @ fr_resource fixed)"
  unfolding in_scan_fixed_names in_container_name_of set_fixed_name_of scoped_resource_name_def
  by blast

end
