(* ===== verification/Isolation_Names.thy ===== *)
theory Isolation_Names
  imports Isolation_Scan
begin

text \<open>
  The renaming half of clone isolation in \<open>plan.rs\<close>: every fixed name that the policy covers gets
  the workspace id as a suffix, and the services that refer to a renamed container
  (\<open>network_mode\<close>, \<open>ipc\<close>, \<open>pid\<close>, \<open>volumes_from\<close>, \<open>external_links\<close>) get an override with the new
  name. The main result says that the model with those overrides refers to every renamed container
  by its new name and is otherwise unchanged.
\<close>

section \<open>References to containers\<close>

text \<open>The literal prefix \<open>container:\<close> of the source.\<close>

definition container_prefix :: string where
  "container_prefix = ''container:''"

type_synonym name_map = "(string, string) btree_map"

definition rewrite_container_mode :: "string \<Rightarrow> name_map \<Rightarrow> string option" where
  "rewrite_container_mode value rewritten_names =
     (case strip_prefix container_prefix value of
        None \<Rightarrow> None
      | Some original_name \<Rightarrow>
          map_option (\<lambda>rewritten_name. container_prefix @ rewritten_name)
            (bt_get rewritten_names original_name))"

definition rewrite_reference_list ::
  "string list \<Rightarrow> name_map \<Rightarrow> (string \<Rightarrow> name_map \<Rightarrow> string option) \<Rightarrow> string list option" where
  "rewrite_reference_list values rewritten_names rewrite =
     (let step = (\<lambda>(changed, rewritten) value.
            case rewrite value rewritten_names of
              None \<Rightarrow> (changed, rewritten @ [value])
            | Some new \<Rightarrow> (True, rewritten @ [new]));
          (changed, rewritten) = foldl step (False, []) values
      in if changed then Some rewritten else None)"

definition rewrite_volumes_from_reference :: "string \<Rightarrow> name_map \<Rightarrow> string option" where
  "rewrite_volumes_from_reference value rewritten_names =
     (case strip_prefix container_prefix value of
        None \<Rightarrow> None
      | Some reference \<Rightarrow>
          let (original_name, access) =
                (case rsplit_once '':'' reference of
                   Some (name, access) \<Rightarrow>
                     if access \<in> {''ro'', ''rw''} then (name, Some access) else (reference, None)
                 | None \<Rightarrow> (reference, None))
          in (case bt_get rewritten_names original_name of
                None \<Rightarrow> None
              | Some rewritten_name \<Rightarrow>
                  Some (container_prefix @ rewritten_name @
                    (case access of None \<Rightarrow> [] | Some a \<Rightarrow> '':'' @ a))))"

definition rewrite_external_link_reference :: "string \<Rightarrow> name_map \<Rightarrow> string option" where
  "rewrite_external_link_reference value rewritten_names =
     (let (original_name, alias) =
            (case split_once '':'' value of
               Some (name, alias) \<Rightarrow> (name, Some alias)
             | None \<Rightarrow> (value, None))
      in (case bt_get rewritten_names original_name of
            None \<Rightarrow> None
          | Some rewritten_name \<Rightarrow>
              Some (rewritten_name @ (case alias of None \<Rightarrow> [] | Some a \<Rightarrow> '':'' @ a))))"

definition service_reference_rewrite_of ::
  "name_map \<Rightarrow> string \<times> compose_config_service \<Rightarrow> service_reference_rewrite option" where
  "service_reference_rewrite_of rewritten_names entry =
     (let service = snd entry;
          mode = (\<lambda>field. Option.bind field (\<lambda>value. rewrite_container_mode value rewritten_names));
          rewrite = \<lparr>rr_service = fst entry,
                     rr_network_mode = mode (svc_network_mode service),
                     rr_ipc = mode (svc_ipc service),
                     rr_pid = mode (svc_pid service),
                     rr_volumes_from = rewrite_reference_list (svc_volumes_from service) rewritten_names
                                         rewrite_volumes_from_reference,
                     rr_external_links = rewrite_reference_list (svc_external_links service) rewritten_names
                                           rewrite_external_link_reference\<rparr>
      in if rr_network_mode rewrite = None \<and> rr_ipc rewrite = None \<and> rr_pid rewrite = None \<and>
            rr_volumes_from rewrite = None \<and> rr_external_links rewrite = None
         then None else Some rewrite)"

definition plan_compose_service_reference_rewrites ::
  "compose_config_model \<Rightarrow> service_name_rewrite list \<Rightarrow> service_reference_rewrite list" where
  "plan_compose_service_reference_rewrites model service_rewrites =
     (let rewritten_names =
            bt_collect (map (\<lambda>rewrite. (sr_original_name rewrite, sr_rewritten_name rewrite)) service_rewrites)
      in if rewritten_names = [] then []
         else filter_map (service_reference_rewrite_of rewritten_names) (cm_services model))"

section \<open>The plan\<close>

record name_rewrite_plan_input =
  ni_model :: compose_config_model
  ni_scan :: isolation_scan
  ni_workspace_id :: string
  ni_enabled :: bool
  ni_rewrite_container_names :: bool
  ni_rewrite_resource_names :: bool

definition empty_name_plan :: name_rewrite_plan where
  "empty_name_plan = \<lparr>np_services = [], np_service_references = [], np_resources = []\<rparr>"

definition push_name_rewrite ::
  "name_rewrite_plan_input \<Rightarrow> name_rewrite_plan \<Rightarrow> fixed_name_request \<Rightarrow> name_rewrite_plan" where
  "push_name_rewrite input plan fixed =
     (let rewritten_name = fr_name fixed @ ''-'' @ ni_workspace_id input
      in if fr_kind fixed = Service_Container
         then if ni_rewrite_container_names input
              then plan\<lparr>np_services := np_services plan @
                     [\<lparr>sr_service = fr_resource fixed, sr_original_name = fr_name fixed,
                       sr_rewritten_name = rewritten_name,
                       sr_networks = (case model_service (ni_model input) (fr_resource fixed) of
                                        None \<Rightarrow> [] | Some service \<Rightarrow> network_names service)\<rparr>]\<rparr>
              else plan
         else if ni_rewrite_resource_names input
              then plan\<lparr>np_resources := np_resources plan @
                     [\<lparr>rn_kind = fr_kind fixed, rn_resource = fr_resource fixed,
                       rn_original_name = fr_name fixed, rn_rewritten_name = rewritten_name\<rparr>]\<rparr>
              else plan)"

definition plan_compose_isolation_name_rewrites :: "name_rewrite_plan_input \<Rightarrow> name_rewrite_plan" where
  "plan_compose_isolation_name_rewrites input =
     (if \<not> ni_enabled input then empty_name_plan
      else let plan = foldl (push_name_rewrite input) empty_name_plan (scan_fixed_names (ni_scan input))
           in plan\<lparr>np_service_references :=
                     plan_compose_service_reference_rewrites (ni_model input) (np_services plan)\<rparr>)"

definition apply_name_rewrite :: "name_rewrite_plan \<Rightarrow> fixed_name_request \<Rightarrow> fixed_name_request" where
  "apply_name_rewrite plan fixed =
     (case (if fr_kind fixed = Service_Container
            then map_option sr_rewritten_name
                   (List.find (\<lambda>rewrite. sr_service rewrite = fr_resource fixed) (np_services plan))
            else map_option rn_rewritten_name
                   (List.find (\<lambda>rewrite. rn_kind rewrite = fr_kind fixed \<and> rn_resource rewrite = fr_resource fixed)
                     (np_resources plan))) of
        Some rewritten \<Rightarrow> fixed\<lparr>fr_name := rewritten\<rparr>
      | None \<Rightarrow> fixed)"

definition apply_compose_isolation_name_rewrites ::
  "isolation_scan \<Rightarrow> name_rewrite_plan \<Rightarrow> isolation_scan" where
  "apply_compose_isolation_name_rewrites scan plan =
     scan\<lparr>scan_fixed_names := map (apply_name_rewrite plan) (scan_fixed_names scan)\<rparr>"

section \<open>What the plan contains\<close>

lemma rewrite_reference_list_eq:
  "rewrite_reference_list values names rewrite =
     (if \<exists>v\<in>set values. rewrite v names \<noteq> None
      then Some (map (\<lambda>v. case rewrite v names of None \<Rightarrow> v | Some new \<Rightarrow> new) values) else None)"
proof -
  have "foldl (\<lambda>(changed, rewritten) value.
            case rewrite value names of
              None \<Rightarrow> (changed, rewritten @ [value])
            | Some new \<Rightarrow> (True, rewritten @ [new])) (b, ws) values =
        (b \<or> (\<exists>v\<in>set values. rewrite v names \<noteq> None),
         ws @ map (\<lambda>v. case rewrite v names of None \<Rightarrow> v | Some new \<Rightarrow> new) values)" for b ws
    by (induction "values" arbitrary: b ws) (auto split: option.splits)
  then show ?thesis
    by (simp add: rewrite_reference_list_def)
qed

text \<open>The plan is the two filtered lists of the scan's fixed names.\<close>

definition covers :: "name_rewrite_plan_input \<Rightarrow> fixed_name_request \<Rightarrow> bool" where
  "covers input fixed \<longleftrightarrow> ni_enabled input \<and>
     (if fr_kind fixed = Service_Container then ni_rewrite_container_names input
      else ni_rewrite_resource_names input)"

definition suffixed :: "string \<Rightarrow> string \<Rightarrow> string" where
  "suffixed workspace_id name = name @ ''-'' @ workspace_id"

definition service_rewrite_for :: "name_rewrite_plan_input \<Rightarrow> fixed_name_request \<Rightarrow> service_name_rewrite" where
  "service_rewrite_for input fixed =
     \<lparr>sr_service = fr_resource fixed, sr_original_name = fr_name fixed,
      sr_rewritten_name = suffixed (ni_workspace_id input) (fr_name fixed),
      sr_networks = (case model_service (ni_model input) (fr_resource fixed) of
                       None \<Rightarrow> [] | Some service \<Rightarrow> network_names service)\<rparr>"

definition resource_rewrite_for :: "name_rewrite_plan_input \<Rightarrow> fixed_name_request \<Rightarrow> resource_name_rewrite"
where
  "resource_rewrite_for input fixed =
     \<lparr>rn_kind = fr_kind fixed, rn_resource = fr_resource fixed, rn_original_name = fr_name fixed,
      rn_rewritten_name = suffixed (ni_workspace_id input) (fr_name fixed)\<rparr>"

lemma push_name_rewrites_eq:
  assumes "ni_enabled input"
  shows "foldl (push_name_rewrite input) plan fixed_names =
     plan\<lparr>np_services := np_services plan @ map (service_rewrite_for input)
            (filter (\<lambda>fixed. fr_kind fixed = Service_Container \<and> covers input fixed) fixed_names),
          np_resources := np_resources plan @ map (resource_rewrite_for input)
            (filter (\<lambda>fixed. fr_kind fixed \<noteq> Service_Container \<and> covers input fixed) fixed_names)\<rparr>"
  using assms
  by (induction fixed_names arbitrary: plan)
     (auto simp: push_name_rewrite_def covers_def service_rewrite_for_def resource_rewrite_for_def
        suffixed_def Let_def)

lemma np_services_eq:
  "np_services (plan_compose_isolation_name_rewrites input) = map (service_rewrite_for input)
     (filter (\<lambda>fixed. fr_kind fixed = Service_Container \<and> covers input fixed)
       (scan_fixed_names (ni_scan input)))"
  by (simp add: plan_compose_isolation_name_rewrites_def push_name_rewrites_eq empty_name_plan_def
      covers_def Let_def)

lemma np_resources_eq:
  "np_resources (plan_compose_isolation_name_rewrites input) = map (resource_rewrite_for input)
     (filter (\<lambda>fixed. fr_kind fixed \<noteq> Service_Container \<and> covers input fixed)
       (scan_fixed_names (ni_scan input)))"
  by (simp add: plan_compose_isolation_name_rewrites_def push_name_rewrites_eq empty_name_plan_def
      covers_def Let_def)

lemma np_references_eq:
  "ni_enabled input \<Longrightarrow>
   np_service_references (plan_compose_isolation_name_rewrites input) =
     plan_compose_service_reference_rewrites (ni_model input)
       (np_services (plan_compose_isolation_name_rewrites input))"
  by (simp add: plan_compose_isolation_name_rewrites_def push_name_rewrites_eq empty_name_plan_def Let_def)

text \<open>A model whose five maps are \<open>BTreeMap\<close>s has one fixed name at most for each resource.\<close>

definition model_ok :: "compose_config_model \<Rightarrow> bool" where
  "model_ok model \<longleftrightarrow> bt_ok (cm_services model) \<and> bt_ok (cm_networks model) \<and> bt_ok (cm_volumes model) \<and>
     bt_ok (cm_configs model) \<and> bt_ok (cm_secrets model)"

definition fixed_key :: "fixed_name_request \<Rightarrow> resource_kind \<times> string" where
  "fixed_key fixed = (fr_kind fixed, fr_resource fixed)"

lemma distinct_concat_keys:
  assumes "\<And>n c. map fixed_key (f (n, c)) = [] \<or> map fixed_key (f (n, c)) = [(kind, n)]"
    and "distinct (map fst m)"
  shows "distinct (map fixed_key (concat (map f m))) \<and>
    set (map fixed_key (concat (map f m))) \<subseteq> {kind} \<times> fst ` set m"
  using assms(2)
proof (induction m)
  case (Cons e m)
  obtain n c where e: "e = (n, c)" by (cases e)
  define ks where "ks = map fixed_key (concat (map f m))"
  have IH: "n \<notin> fst ` set m" "distinct ks" "set ks \<subseteq> {kind} \<times> fst ` set m"
    using Cons by (auto simp: e ks_def)
  have "map fixed_key (concat (map f (e # m))) = map fixed_key (f (n, c)) @ ks"
    by (simp add: e ks_def)
  moreover have "(kind, n) \<notin> set ks" using IH by blast
  ultimately show ?case
    using assms(1) [of n c] IH by (elim disjE) (simp_all add: e subset_iff)
qed simp

lemma fixed_name_of_keys:
  "map fixed_key (fixed_name_of kind p (n, c)) = [] \<or> map fixed_key (fixed_name_of kind p (n, c)) = [(kind, n)]"
  by (auto simp: fixed_name_of_def scan_named_resource_def empty_scan_def push_fixed_name_def fixed_key_def
      split: option.splits)

lemma container_name_of_keys:
  "map fixed_key (container_name_of (n, c)) = [] \<or>
   map fixed_key (container_name_of (n, c)) = [(Service_Container, n)]"
  by (auto simp: container_name_of_def fixed_key_def split: option.splits)

lemma scan_fixed_names_distinct:
  assumes "model_ok model"
  shows "distinct (map fixed_key (scan_fixed_names (scan_compose_isolation model project_name)))"
proof -
  have d: "distinct (map fst (cm_services model))" "distinct (map fst (cm_networks model))"
    "distinct (map fst (cm_volumes model))" "distinct (map fst (cm_configs model))"
    "distinct (map fst (cm_secrets model))"
    using assms by (simp_all add: model_ok_def bt_ok_distinct)
  note k = distinct_concat_keys [OF container_name_of_keys d(1)]
    distinct_concat_keys [OF fixed_name_of_keys [of Network_Kind project_name] d(2)]
    distinct_concat_keys [OF fixed_name_of_keys [of Volume_Kind project_name] d(3)]
    distinct_concat_keys [OF fixed_name_of_keys [of Config_Kind project_name] d(4)]
    distinct_concat_keys [OF fixed_name_of_keys [of Secret_Kind project_name] d(5)]
  show ?thesis
    unfolding scan_compose_isolation_eq isolation_scan.simps map_append distinct_append set_append
    using k by (intro conjI) (fast | blast)+
qed

lemma find_key:
  assumes "\<And>y. key' (g y) = key y" "inj_on key (set xs)" "x \<in> set xs"
  shows "List.find (\<lambda>y. key' y = key x) (map g (filter P xs)) = (if P x then Some (g x) else None)"
  using assms(2,3)
proof (induction xs)
  case (Cons y ys)
  show ?case
  proof (cases "x \<in> set ys")
    case True
    then show ?thesis using Cons by (auto simp: assms(1))
  next
    case False
    then have "x = y" "key x \<notin> key ` set ys" using Cons.prems by auto
    moreover have "key' z \<noteq> key x" if "z \<in> set (map g (filter P ys))" for z
    proof -
      from that obtain w where "w \<in> set ys" "z = g w" by auto
      then show ?thesis using \<open>key x \<notin> key ` set ys\<close> assms(1) by (metis imageI)
    qed
    ultimately have "List.find (\<lambda>y. key' y = key x) (map g (filter P ys)) = None"
      unfolding find_None_iff2 by blast
    then show ?thesis using \<open>x = y\<close> by (simp add: assms(1))
  qed
qed simp

lemma apply_name_rewrite_eq:
  assumes d: "distinct (map fixed_key (scan_fixed_names (ni_scan input)))"
    and mem: "fixed \<in> set (scan_fixed_names (ni_scan input))"
  shows "apply_name_rewrite (plan_compose_isolation_name_rewrites input) fixed =
     (if covers input fixed then fixed\<lparr>fr_name := suffixed (ni_workspace_id input) (fr_name fixed)\<rparr>
      else fixed)"
proof -
  let ?names = "scan_fixed_names (ni_scan input)"
  have inj: "inj_on fixed_key (set ?names)" using d by (simp add: distinct_map)
  let ?containers = "filter (\<lambda>fixed. fr_kind fixed = Service_Container) ?names"
  have split: "filter (\<lambda>fixed. fr_kind fixed = Service_Container \<and> covers input fixed) ?names =
      filter (covers input) ?containers"
    by (simp add: conj_commute)
  have inj2: "inj_on fr_resource (set ?containers)"
    using inj by (auto simp: inj_on_def fixed_key_def)
  let ?others = "filter (\<lambda>fixed. fr_kind fixed \<noteq> Service_Container) ?names"
  have split2: "filter (\<lambda>fixed. fr_kind fixed \<noteq> Service_Container \<and> covers input fixed) ?names =
      filter (covers input) ?others"
    by (simp add: conj_commute)
  have inj3: "inj_on fixed_key (set ?others)"
    using inj by (auto simp: inj_on_def)
  show ?thesis
  proof (cases "fr_kind fixed = Service_Container")
    case True
    then have "List.find (\<lambda>r. sr_service r = fr_resource fixed)
        (map (service_rewrite_for input) (filter (covers input) ?containers)) =
        (if covers input fixed then Some (service_rewrite_for input fixed) else None)"
      using mem by (intro find_key [OF _ inj2]) (auto simp: service_rewrite_for_def)
    then show ?thesis
      using True unfolding apply_name_rewrite_def np_services_eq split
      by (simp add: service_rewrite_for_def)
  next
    case False
    then have "List.find (\<lambda>r. (rn_kind r, rn_resource r) = fixed_key fixed)
        (map (resource_rewrite_for input) (filter (covers input) ?others)) =
        (if covers input fixed then Some (resource_rewrite_for input fixed) else None)"
      using mem by (intro find_key [OF _ inj3]) (auto simp: resource_rewrite_for_def fixed_key_def)
    then show ?thesis
      using False unfolding apply_name_rewrite_def np_resources_eq split2
      by (simp add: resource_rewrite_for_def fixed_key_def)
  qed
qed

section \<open>What happens to the references\<close>

text \<open>The names that the plan gives to the containers.\<close>

definition renamed_containers :: "name_rewrite_plan_input \<Rightarrow> string set" where
  "renamed_containers input =
     fr_name ` {fixed \<in> set (scan_fixed_names (ni_scan input)). fr_kind fixed = Service_Container \<and> covers input fixed}"

definition name_map_of :: "name_rewrite_plan_input \<Rightarrow> name_map" where
  "name_map_of input = bt_collect (map (\<lambda>rewrite. (sr_original_name rewrite, sr_rewritten_name rewrite))
     (np_services (plan_compose_isolation_name_rewrites input)))"

lemma name_map_get:
  "bt_get (name_map_of input) name =
     (if name \<in> renamed_containers input then Some (suffixed (ni_workspace_id input) name) else None)"
proof -
  have one: "map_of (rev (map (\<lambda>f. (fr_name f, suffixed ws (fr_name f))) fs)) name =
      (if name \<in> fr_name ` set fs then Some (suffixed ws name) else None)" for fs ws
    by (induction fs) (auto simp: map_add_def)
  have pair: "(\<lambda>rewrite. (sr_original_name rewrite, sr_rewritten_name rewrite)) \<circ> service_rewrite_for input =
      (\<lambda>f. (fr_name f, suffixed (ni_workspace_id input) (fr_name f)))"
    by (rule ext) (simp add: service_rewrite_for_def)
  show ?thesis
    unfolding name_map_of_def bt_get_collect np_services_eq map_map pair one renamed_containers_def set_filter
    by (rule refl)
qed

lemma bt_get_all_None: "(\<And>k. bt_get m k = None) \<Longrightarrow> m = []"
proof (cases m)
  case (Cons e m')
  moreover assume "\<And>k. bt_get m k = None"
  ultimately have "bt_get (e # m') (fst e) = None" by simp
  then show ?thesis by (cases e) (simp add: bt_get_def)
qed

text \<open>
  \<open>renames R ws prefix suffixes v v'\<close>: \<open>v'\<close> is \<open>v\<close> with the container name replaced when \<open>v\<close> is the
  prefix, a name in \<open>R\<close> and one of the suffixes, and \<open>v\<close> itself otherwise.
\<close>

definition renames ::
  "string set \<Rightarrow> string \<Rightarrow> string \<Rightarrow> string set \<Rightarrow> string \<Rightarrow> string \<Rightarrow> bool" where
  "renames R workspace_id prefix suffixes v v' \<longleftrightarrow>
     (\<exists>name\<in>R. \<exists>suffix\<in>suffixes. v = prefix @ name @ suffix \<and>
        v' = prefix @ suffixed workspace_id name @ suffix) \<or>
     (v' = v \<and> (\<forall>name\<in>R. \<forall>suffix\<in>suffixes. v \<noteq> prefix @ name @ suffix))"

lemma container_mode_renames:
  "renames (renamed_containers input) (ni_workspace_id input) container_prefix {[]} v
     (case rewrite_container_mode v (name_map_of input) of None \<Rightarrow> v | Some new \<Rightarrow> new)"
  by (cases "strip_prefix container_prefix v")
     (auto simp: renames_def rewrite_container_mode_def name_map_get strip_prefix_Some_iff)

lemma volumes_from_renames:
  assumes "\<forall>name\<in>renamed_containers input. CHR '':'' \<notin> set name"
  shows "renames (renamed_containers input) (ni_workspace_id input) container_prefix
     {[], '':ro'', '':rw''} v
     (case rewrite_volumes_from_reference v (name_map_of input) of None \<Rightarrow> v | Some new \<Rightarrow> new)"
proof (cases "strip_prefix container_prefix v")
  case None
  then have "\<forall>r. v \<noteq> container_prefix @ r" by (metis strip_prefix_append option.distinct(1))
  with None show ?thesis by (simp add: renames_def rewrite_volumes_from_reference_def)
next
  case (Some reference)
  then have v: "v = container_prefix @ reference" by (simp add: strip_prefix_Some_iff)
  define split where "split = (case rsplit_once '':'' reference of
      Some (name, access) \<Rightarrow> if access \<in> {''ro'', ''rw''} then (name, Some access) else (reference, None)
    | None \<Rightarrow> (reference, None))"
  obtain name access where na: "split = (name, access)" by (cases split)
  define suffix where "suffix = (case access of None \<Rightarrow> [] | Some a \<Rightarrow> '':'' @ a)"
  have ref: "reference = name @ suffix" "suffix \<in> {[], '':ro'', '':rw''}"
    using na rsplit_once_SomeD [of "'':''" reference]
    by (auto simp: split_def suffix_def split: option.splits if_splits)
  have uniq: "n = name" if "n \<in> renamed_containers input" "s \<in> {[], '':ro'', '':rw''}" "reference = n @ s" for n s
  proof -
    have n: "CHR '':'' \<notin> set n" using assms that by blast
    have "rsplit_once '':'' n = None"
      using n by (simp add: rsplit_once_def split_once_char_None)
    moreover have "rsplit_once '':'' (n @ CHR '':'' # ''ro'') = Some (n, ''ro'')"
        "rsplit_once '':'' (n @ CHR '':'' # ''rw'') = Some (n, ''rw'')"
      by (simp_all add: rsplit_once_char)
    ultimately have "fst split = n" using that(2,3) by (auto simp: split_def)
    then show ?thesis using na by simp
  qed
  have eval: "rewrite_volumes_from_reference v (name_map_of input) =
      (if name \<in> renamed_containers input
       then Some (container_prefix @ suffixed (ni_workspace_id input) name @ suffix) else None)"
    unfolding rewrite_volumes_from_reference_def Some option.case Let_def split_def [symmetric] na
    by (simp add: name_map_get suffix_def)
  show ?thesis
  proof (cases "name \<in> renamed_containers input")
    case True
    then show ?thesis unfolding renames_def eval using ref v by auto
  next
    case False
    then show ?thesis unfolding renames_def eval using uniq v by auto
  qed
qed

lemma external_link_renames:
  assumes "\<forall>name\<in>renamed_containers input. CHR '':'' \<notin> set name"
  shows "renames (renamed_containers input) (ni_workspace_id input) [] ({[]} \<union> range (\<lambda>alias. '':'' @ alias)) v
     (case rewrite_external_link_reference v (name_map_of input) of None \<Rightarrow> v | Some new \<Rightarrow> new)"
proof -
  define split where "split = (case split_once '':'' v of
      Some (name, alias) \<Rightarrow> (name, Some alias) | None \<Rightarrow> (v, None))"
  obtain name alias' where na: "split = (name, alias')" by (cases split)
  define suffix where "suffix = (case alias' of None \<Rightarrow> [] | Some a \<Rightarrow> '':'' @ a)"
  have ref: "v = name @ suffix" "suffix \<in> {[]} \<union> range (\<lambda>alias. '':'' @ alias)"
    using na split_once_SomeD [of "'':''" v] by (auto simp: split_def suffix_def split: option.splits)
  have uniq: "n = name" if "n \<in> renamed_containers input" "s \<in> {[]} \<union> range (\<lambda>alias. '':'' @ alias)" "v = n @ s"
    for n s
  proof -
    have "CHR '':'' \<notin> set n" using assms that by blast
    then have "fst split = n"
      using that(2,3) split_once_char_None [of "CHR '':''" n] split_once_char [of "CHR '':''" n]
      by (auto simp: split_def)
    then show ?thesis using na by simp
  qed
  have eval: "rewrite_external_link_reference v (name_map_of input) =
      (if name \<in> renamed_containers input
       then Some (suffixed (ni_workspace_id input) name @ suffix) else None)"
    unfolding rewrite_external_link_reference_def Let_def split_def [symmetric] na
    by (simp add: name_map_get suffix_def)
  show ?thesis
  proof (cases "name \<in> renamed_containers input")
    case True
    then show ?thesis unfolding renames_def eval using ref by auto
  next
    case False
    then show ?thesis unfolding renames_def eval using uniq by auto
  qed
qed

section \<open>The model with its overrides\<close>

text \<open>\<open>docker compose\<close> merges the override over the service: a reference that the plan rewrites is
  replaced, every other field stays.\<close>

definition override_with :: "'a option \<Rightarrow> 'a \<Rightarrow> 'a" where
  "override_with new old = (case new of Some n \<Rightarrow> n | None \<Rightarrow> old)"

definition effective_service ::
  "name_rewrite_plan \<Rightarrow> string \<Rightarrow> compose_config_service \<Rightarrow> compose_config_service" where
  "effective_service plan name service =
     (case List.find (\<lambda>rewrite. rr_service rewrite = name) (np_service_references plan) of
        None \<Rightarrow> service
      | Some rewrite \<Rightarrow>
          service\<lparr>svc_network_mode := override_with (map_option Some (rr_network_mode rewrite)) (svc_network_mode service),
                  svc_ipc := override_with (map_option Some (rr_ipc rewrite)) (svc_ipc service),
                  svc_pid := override_with (map_option Some (rr_pid rewrite)) (svc_pid service),
                  svc_volumes_from := override_with (rr_volumes_from rewrite) (svc_volumes_from service),
                  svc_external_links := override_with (rr_external_links rewrite) (svc_external_links service)\<rparr>)"

definition renamed_mode :: "name_map \<Rightarrow> string option \<Rightarrow> string option" where
  "renamed_mode names field =
     map_option (\<lambda>v. case rewrite_container_mode v names of None \<Rightarrow> v | Some new \<Rightarrow> new) field"

definition renamed_list ::
  "name_map \<Rightarrow> (string \<Rightarrow> name_map \<Rightarrow> string option) \<Rightarrow> string list \<Rightarrow> string list" where
  "renamed_list names rewrite values =
     map (\<lambda>v. case rewrite v names of None \<Rightarrow> v | Some new \<Rightarrow> new) values"

lemma override_mode:
  "override_with (map_option Some (Option.bind field (\<lambda>v. rewrite_container_mode v names))) field =
     renamed_mode names field"
  by (cases field) (auto simp: override_with_def renamed_mode_def split: option.splits)

lemma override_list:
  "override_with (rewrite_reference_list values names rewrite) values = renamed_list names rewrite values"
  by (auto simp: override_with_def renamed_list_def rewrite_reference_list_eq map_idI)

lemma rewrite_none_iff:
  "service_reference_rewrite_of names entry = None \<longrightarrow>
     override_with (map_option Some (Option.bind (svc_network_mode (snd entry)) (\<lambda>v. rewrite_container_mode v names)))
       (svc_network_mode (snd entry)) = svc_network_mode (snd entry) \<and>
     override_with (map_option Some (Option.bind (svc_ipc (snd entry)) (\<lambda>v. rewrite_container_mode v names)))
       (svc_ipc (snd entry)) = svc_ipc (snd entry) \<and>
     override_with (map_option Some (Option.bind (svc_pid (snd entry)) (\<lambda>v. rewrite_container_mode v names)))
       (svc_pid (snd entry)) = svc_pid (snd entry) \<and>
     override_with (rewrite_reference_list (svc_volumes_from (snd entry)) names rewrite_volumes_from_reference)
       (svc_volumes_from (snd entry)) = svc_volumes_from (snd entry) \<and>
     override_with (rewrite_reference_list (svc_external_links (snd entry)) names rewrite_external_link_reference)
       (svc_external_links (snd entry)) = svc_external_links (snd entry)"
  unfolding service_reference_rewrite_of_def Let_def
  by (simp only: service_reference_rewrite.simps split: if_splits) (simp add: override_with_def)

lemma find_filter_map:
  assumes "distinct (map fst m)" "(n, s) \<in> set m" "\<And>e r. f e = Some r \<Longrightarrow> rr_service r = fst e"
  shows "List.find (\<lambda>r. rr_service r = n) (filter_map f m) = f (n, s)"
  using assms(1,2)
proof (induction m)
  case (Cons e m)
  show ?case
  proof (cases "e = (n, s)")
    case True
    then have "n \<notin> fst ` set m" using Cons.prems by auto
    then have "List.find (\<lambda>r. rr_service r = n) (filter_map f m) = None"
      unfolding find_None_iff2 set_filter_map using assms(3) by fastforce
    then show ?thesis using True assms(3) by (auto split: option.splits)
  next
    case False
    then have mem: "(n, s) \<in> set m" using Cons.prems by simp
    then have "n \<in> fst ` set m" by force
    then have "fst e \<noteq> n" using Cons.prems by auto
    note mem this
    with Cons assms(3) [of e] show ?thesis by (auto split: option.splits)
  qed
qed simp

lemma effective_service_eq:
  assumes "ni_enabled input" "bt_ok (cm_services (ni_model input))"
    and mem: "(name, service) \<in> set (cm_services (ni_model input))"
  shows "effective_service (plan_compose_isolation_name_rewrites input) name service =
     service\<lparr>svc_network_mode := renamed_mode (name_map_of input) (svc_network_mode service),
             svc_ipc := renamed_mode (name_map_of input) (svc_ipc service),
             svc_pid := renamed_mode (name_map_of input) (svc_pid service),
             svc_volumes_from := renamed_list (name_map_of input) rewrite_volumes_from_reference (svc_volumes_from service),
             svc_external_links := renamed_list (name_map_of input) rewrite_external_link_reference (svc_external_links service)\<rparr>"
proof -
  let ?plan = "plan_compose_isolation_name_rewrites input"
  let ?find = "List.find (\<lambda>r. rr_service r = name) (np_service_references ?plan)"
  define found where "found = service_reference_rewrite_of (name_map_of input) (name, service)"
  have none: "service_reference_rewrite_of [] e = None" for e
  proof -
    have "rewrite_container_mode v [] = None" "rewrite_volumes_from_reference v [] = None"
      "rewrite_external_link_reference v [] = None" for v
      by (auto simp: rewrite_container_mode_def rewrite_volumes_from_reference_def
          rewrite_external_link_reference_def bt_get_def split: option.splits prod.splits)
    then show ?thesis
      by (simp add: service_reference_rewrite_of_def rewrite_reference_list_eq)
  qed
  have refs: "np_service_references ?plan =
      filter_map (service_reference_rewrite_of (name_map_of input)) (cm_services (ni_model input))"
  proof (cases "name_map_of input = []")
    case True
    have "filter_map (service_reference_rewrite_of []) m = []" for m
      by (induction m) (simp_all add: none)
    then show ?thesis
      using True assms(1) unfolding np_references_eq [OF assms(1)] plan_compose_service_reference_rewrites_def
        name_map_of_def [symmetric] Let_def by simp
  next
    case False
    then show ?thesis
      unfolding np_references_eq [OF assms(1)] plan_compose_service_reference_rewrites_def
        name_map_of_def [symmetric] Let_def by simp
  qed
  have "?find = found"
    unfolding refs found_def using bt_ok_distinct [OF assms(2)] mem
    by (rule find_filter_map) (auto simp: service_reference_rewrite_of_def Let_def split: if_splits)
  then show ?thesis
  proof (cases found)
    case None
    then have "service_reference_rewrite_of (name_map_of input) (name, service) = None"
      by (simp add: found_def)
    from rewrite_none_iff [rule_format, OF this] show ?thesis
      unfolding effective_service_def \<open>?find = found\<close> None option.case override_mode override_list
      by simp
  next
    case (Some r)
    then have "rr_network_mode r = Option.bind (svc_network_mode service) (\<lambda>v. rewrite_container_mode v (name_map_of input))"
      "rr_ipc r = Option.bind (svc_ipc service) (\<lambda>v. rewrite_container_mode v (name_map_of input))"
      "rr_pid r = Option.bind (svc_pid service) (\<lambda>v. rewrite_container_mode v (name_map_of input))"
      "rr_volumes_from r = rewrite_reference_list (svc_volumes_from service) (name_map_of input)
         rewrite_volumes_from_reference"
      "rr_external_links r = rewrite_reference_list (svc_external_links service) (name_map_of input)
         rewrite_external_link_reference"
      by (auto simp: found_def service_reference_rewrite_of_def Let_def split: if_splits)
    then show ?thesis
      unfolding effective_service_def \<open>?find = found\<close> Some option.case override_mode [symmetric]
        override_list [symmetric]
      by (simp only:)
  qed
qed

section \<open>Properties\<close>

lemma suffixed_distinct:
  "length w = length w' \<Longrightarrow> suffixed w n = suffixed w' n' \<Longrightarrow> w = w'"
  by (auto simp: suffixed_def append_eq_append_conv)

text \<open>C5. With the planned overrides, every network_mode, ipc, pid, volumes_from and
  external_links entry that names a renamed container, whose name has no colon, names it by its
  new name, with its access mode or alias kept, and everything else of the service is
  unchanged.\<close>

theorem references_follow_renames:
  fixes input :: name_rewrite_plan_input
  assumes "ni_enabled input" "bt_ok (cm_services (ni_model input))"
    and "\<forall>name\<in>renamed_containers input. CHR '':'' \<notin> set name"
    and "(name, service) \<in> set (cm_services (ni_model input))"
  shows "\<exists>network_mode ipc pid volumes_from external_links.
     effective_service (plan_compose_isolation_name_rewrites input) name service =
       service\<lparr>svc_network_mode := network_mode, svc_ipc := ipc, svc_pid := pid,
               svc_volumes_from := volumes_from, svc_external_links := external_links\<rparr> \<and>
     (let mode = renames (renamed_containers input) (ni_workspace_id input) ''container:'' {[]};
          volume = renames (renamed_containers input) (ni_workspace_id input) ''container:'' {[], '':ro'', '':rw''};
          link = renames (renamed_containers input) (ni_workspace_id input) [] ({[]} \<union> range (\<lambda>alias. '':'' @ alias))
      in rel_option mode (svc_network_mode service) network_mode \<and> rel_option mode (svc_ipc service) ipc \<and>
         rel_option mode (svc_pid service) pid \<and>
         list_all2 volume (svc_volumes_from service) volumes_from \<and>
         list_all2 link (svc_external_links service) external_links)"
proof -
  have mode: "rel_option (renames (renamed_containers input) (ni_workspace_id input) ''container:'' {[]})
      field (renamed_mode (name_map_of input) field)" for field
    using container_mode_renames [of input]
    by (cases field) (simp_all add: renamed_mode_def container_prefix_def)
  have list: "list_all2 (renames (renamed_containers input) (ni_workspace_id input) p sufs)
      values (renamed_list (name_map_of input) rewrite values)"
    if "\<And>v. renames (renamed_containers input) (ni_workspace_id input) p sufs v
          (case rewrite v (name_map_of input) of None \<Rightarrow> v | Some new \<Rightarrow> new)" for p sufs rewrite "values"
    unfolding renamed_list_def using that by (simp add: list.rel_map list.rel_refl)
  have "list_all2 (renames (renamed_containers input) (ni_workspace_id input) ''container:'' {[], '':ro'', '':rw''})
      values (renamed_list (name_map_of input) rewrite_volumes_from_reference values)" for "values"
    by (rule list, rule volumes_from_renames [OF assms(3), unfolded container_prefix_def])
  moreover have "list_all2 (renames (renamed_containers input) (ni_workspace_id input) []
      ({[]} \<union> range (\<lambda>alias. '':'' @ alias)))
      values (renamed_list (name_map_of input) rewrite_external_link_reference values)" for "values"
    by (rule list, rule external_link_renames [OF assms(3)])
  ultimately show ?thesis
    unfolding effective_service_eq [OF assms(1,2,4)] Let_def using mode by blast
qed

definition example_named_service :: compose_config_service where
  "example_named_service =
     example_service\<lparr>svc_container_name := Some ''db'', svc_pid := Some ''container:db''\<rparr>"

definition example_names :: name_rewrite_plan_input where
  "example_names =
     \<lparr>ni_model = example_model [(''app'', example_named_service)],
      ni_scan = \<lparr>scan_network_requests = [],
        scan_fixed_names = [\<lparr>fr_kind = Service_Container, fr_resource = ''app'', fr_name = ''db''\<rparr>]\<rparr>,
      ni_workspace_id = ''7f'', ni_enabled = True, ni_rewrite_container_names = True,
      ni_rewrite_resource_names = True\<rparr>"

lemma example_renamed: "renamed_containers example_names = {''db''}"
  unfolding renamed_containers_def set_filter [symmetric]
  by (simp add: example_names_def covers_def)

lemma example_in_model:
  "ni_enabled example_names" "bt_ok (cm_services (ni_model example_names))"
  "\<forall>name\<in>renamed_containers example_names. CHR '':'' \<notin> set name"
  "(''app'', example_named_service) \<in> set (cm_services (ni_model example_names))"
  "ni_workspace_id example_names = ''7f''"
  unfolding example_renamed
  by (simp_all add: example_names_def example_model_def bt_ok_def)

theorem references_follow_renames_witness:
  "rel_option (renames {''db''} ''7f'' ''container:'' {[]}) (svc_pid example_named_service)
     (svc_pid (effective_service (plan_compose_isolation_name_rewrites example_names) ''app'' example_named_service))"
  using references_follow_renames [OF example_in_model(1-4)]
  unfolding example_renamed example_in_model(5) Let_def by (elim exE conjE) simp

text \<open>Applying the plan of a model to its scan appends the workspace id to exactly the names
  that the two policy flags cover, in place and in order.\<close>

theorem fixed_names_rewritten_by_policy:
  assumes "model_ok (ni_model input)"
    and "ni_scan input = scan_compose_isolation (ni_model input) project_name"
  shows "scan_fixed_names (apply_compose_isolation_name_rewrites (ni_scan input)
           (plan_compose_isolation_name_rewrites input)) =
     map (\<lambda>fixed.
       if ni_enabled input \<and> (if fr_kind fixed = Service_Container then ni_rewrite_container_names input
                             else ni_rewrite_resource_names input)
       then fixed\<lparr>fr_name := fr_name fixed @ ''-'' @ ni_workspace_id input\<rparr> else fixed)
     (scan_fixed_names (ni_scan input))"
  unfolding apply_compose_isolation_name_rewrites_def
  using apply_name_rewrite_eq [of input] scan_fixed_names_distinct [OF assms(1)]
  by (simp add: assms(2) covers_def suffixed_def)

lemma example_scanned:
  "model_ok (ni_model example_names)"
  "ni_scan example_names = scan_compose_isolation (ni_model example_names) ''p''"
  by (simp add: example_names_def example_model_def model_ok_def bt_ok_def)
     (simp add: example_names_def example_model_def example_named_service_def scan_compose_isolation_eq
        container_name_of_def non_empty_trimmed_def str_eval)

theorem fixed_names_rewritten_by_policy_witness:
  "scan_fixed_names (apply_compose_isolation_name_rewrites (ni_scan example_names)
     (plan_compose_isolation_name_rewrites example_names)) =
   [\<lparr>fr_kind = Service_Container, fr_resource = ''app'', fr_name = ''db-7f''\<rparr>]"
  unfolding fixed_names_rewritten_by_policy [OF example_scanned]
  by (simp add: example_names_def)

text \<open>Two clones whose workspace ids differ and have the same length never get the same
  rewritten container name.\<close>

theorem clones_never_share_a_rewritten_name:
  assumes "length (ni_workspace_id a) = length (ni_workspace_id b)" "ni_workspace_id a \<noteq> ni_workspace_id b"
    and "r \<in> set (np_services (plan_compose_isolation_name_rewrites a))"
    and "s \<in> set (np_services (plan_compose_isolation_name_rewrites b))"
  shows "sr_rewritten_name r \<noteq> sr_rewritten_name s"
  using assms suffixed_distinct [OF assms(1)]
  by (auto simp: np_services_eq service_rewrite_for_def)

theorem clones_never_share_a_rewritten_name_witness:
  "let a = example_names; b = example_names\<lparr>ni_workspace_id := ''80''\<rparr>
   in sr_rewritten_name (hd (np_services (plan_compose_isolation_name_rewrites a))) \<noteq>
      sr_rewritten_name (hd (np_services (plan_compose_isolation_name_rewrites b)))"
  unfolding Let_def
  by (rule clones_never_share_a_rewritten_name
        [of example_names "example_names\<lparr>ni_workspace_id := ''80''\<rparr>"])
     (simp_all add: np_services_eq example_names_def covers_def)

end
