(* ===== verification/Isolation_Plan.thy ===== *)
theory Isolation_Plan
  imports Isolation_Scan
begin

text \<open>
  The subnet planner of clone isolation in \<open>plan.rs\<close>: it validates the networks with a fixed
  subnet, picks a new subnet for each (the one the project already has, the one of the last run,
  the requested one on a rebuild, or a free slot of the pool), moves gateway, range and auxiliary
  addresses to the same offset, and decides which Docker networks have to be created again.
  The planner reaches the allocator through the locale \<open>subnet_allocator\<close>.
\<close>

section \<open>Input\<close>

record subnet_plan_input =
  si_model :: compose_config_model
  si_project_name :: string
  si_workspace_id :: string
  si_scan :: isolation_scan
  si_daemon :: daemon_snapshot
  si_state :: "persisted_subnet list"
  si_enabled :: bool
  si_relocation :: bool
  si_subnet_pool :: "string option"
  si_subnet_prefix :: "u8 option"
  si_rebuild :: bool

record validated_relocation_request =
  vr_requested :: network_request
  vr_cidr :: ipv4_cidr

definition recreate_hint :: string where
  "recreate_hint = ''Run decune down, then decune rebuild.''"

section \<open>Validation\<close>

definition static_address_check :: "network_request \<Rightarrow> string \<times> compose_config_service \<Rightarrow> unit result" where
  "static_address_check requested entry =
     (case network_config (snd entry) (nr_network requested) of
        None \<Rightarrow> Inr ()
      | Some config \<Rightarrow>
          (case json_as_object config of
             None \<Rightarrow> Inr ()
           | Some service_network \<Rightarrow>
               try_fold (\<lambda>_ key.
                   if bt_contains_key service_network key
                   then Inl (fmt [compose_clone_isolation_unsupported,
                       '': static service network addressing cannot be relocated; service `'', fst entry,
                       ''`; network `'', nr_network requested, ''`; field `'', key, ''`''])
                   else Inr ())
                 () [''ipv4_address'', ''ipv6_address'', ''link_local_ips'']))"

definition validate_relocation_request ::
  "compose_config_model \<Rightarrow> string list \<Rightarrow> network_request \<Rightarrow> ipv4_cidr result" where
  "validate_relocation_request model networks requested =
     (if nr_has_unrepresented_ipam_configs requested
      then Inl (fmt [compose_clone_isolation_unsupported, '': Compose network `'', nr_network requested,
             ''` IPAM config entries without subnet cannot be relocated safely''])
      else if nr_unsupported_ipam_fields requested \<noteq> []
      then let fields = str_join '', '' (map (\<lambda>field. fmt [''`'', field, ''`'']) (nr_unsupported_ipam_fields requested))
           in if length (nr_unsupported_ipam_fields requested) = 1
              then Inl (fmt [compose_clone_isolation_unsupported, '': Compose network `'', nr_network requested,
                     ''` IPAM field '', fields, '' cannot be relocated safely''])
              else Inl (fmt [compose_clone_isolation_unsupported, '': Compose network `'', nr_network requested,
                     ''` IPAM fields '', fields, '' cannot be relocated safely''])
      else bind_res (ok_or (cidr_parse (nr_subnet requested))
             (fmt [compose_clone_isolation_unsupported,
                '': fixed IPv6 Compose network subnets cannot be relocated; network `'', nr_network requested,
                ''`; subnet '', nr_subnet requested])) (\<lambda>cidr.
           if nr_network requested \<in> set networks
           then Inl (fmt [compose_clone_isolation_unsupported,
                  '': multiple fixed IPAM subnets on Compose network `'', nr_network requested,
                  ''` cannot be relocated''])
           else bind_res (try_fold (\<lambda>_ entry. static_address_check requested entry) () (cm_services model))
                  (\<lambda>_. Inr cidr)))"

definition validate_relocation_requests :: "subnet_plan_input \<Rightarrow> validated_relocation_request list result" where
  "validate_relocation_requests input =

       (bind_res
         (try_fold (\<lambda>(networks, validated) requested.
             bind_res (validate_relocation_request (si_model input) networks requested) (\<lambda>cidr.
               Inr (networks @ [nr_network requested],
                    validated @ [\<lparr>vr_requested = requested, vr_cidr = cidr\<rparr>])))
           ([], []) (scan_network_requests (si_scan input)))
         (\<lambda>(networks, validated). Inr validated))"

section \<open>Candidates\<close>

definition parsed_subnets :: "docker_network \<Rightarrow> ipv4_cidr list" where
  "parsed_subnets network = filter_map (\<lambda>config. Option.bind (di_subnet config) cidr_parse) (dn_ipam_configs network)"

definition is_requested_self_network :: "subnet_plan_input \<Rightarrow> string \<Rightarrow> docker_network \<Rightarrow> bool" where
  "is_requested_self_network input compose_network network =
     (is_self_project (dn_compose_project network) (si_project_name input) \<and>
      dn_compose_network network = Some compose_network)"

definition unavailable_subnets ::
  "subnet_plan_input \<Rightarrow> network_request \<Rightarrow> ipv4_cidr list \<Rightarrow> ipv4_cidr list" where
  "unavailable_subnets input requested assigned =
     foldl (\<lambda>unavailable network.
         if is_requested_self_network input (nr_network requested) network \<or>
            \<not> uses_same_ipam_address_space requested network
         then unavailable
         else unavailable @ parsed_subnets network)
       assigned (ds_networks (si_daemon input))"

definition preferred_existing_subnet ::
  "subnet_plan_input \<Rightarrow> network_request \<Rightarrow> ipv4_cidr \<Rightarrow> u8 \<Rightarrow> ipv4_cidr list \<Rightarrow> ipv4_cidr option" where
  "preferred_existing_subnet input requested pool prefix unavailable =
     List.find (\<lambda>candidate. cidr_prefix candidate = prefix \<and> subnet_is_available candidate pool unavailable)
       (concat (map parsed_subnets
         (filter (is_requested_self_network input (nr_network requested)) (ds_networks (si_daemon input)))))"

definition filter_option :: "('a \<Rightarrow> bool) \<Rightarrow> 'a option \<Rightarrow> 'a option" where
  "filter_option P o' = (case o' of Some x \<Rightarrow> if P x then Some x else None | None \<Rightarrow> None)"

definition or_else :: "'a option \<Rightarrow> 'a option \<Rightarrow> 'a option" where
  "or_else a b = (case a of Some x \<Rightarrow> Some x | None \<Rightarrow> b)"

definition preferred_state_subnet ::
  "subnet_plan_input \<Rightarrow> network_request \<Rightarrow> ipv4_cidr \<Rightarrow> u8 \<Rightarrow> ipv4_cidr list \<Rightarrow> ipv4_cidr option" where
  "preferred_state_subnet input requested pool prefix unavailable =
     filter_option (\<lambda>candidate. subnet_is_available candidate pool unavailable)
       (filter_option (\<lambda>candidate. cidr_prefix candidate = prefix)
         (Option.bind
           (List.find (\<lambda>state. ps_network state = nr_network requested \<and>
                               ps_requested_subnet state = nr_subnet requested) (si_state input))
           (\<lambda>state. cidr_parse (ps_planned_subnet state))))"

section \<open>Moving the addresses\<close>

definition relocate_gateway :: "network_request \<Rightarrow> ipv4_cidr \<Rightarrow> ipv4_cidr \<Rightarrow> string option result" where
  "relocate_gateway requested requested_cidr planned =
     (case nr_gateway requested of
        None \<Rightarrow> Inr None
      | Some gateway_text \<Rightarrow>
          bind_res (ok_or (parse_ipv4 gateway_text)
            (fmt [compose_clone_isolation_invalid, '': gateway for Compose network `'', nr_network requested,
               ''` is not a valid IPv4 address: '', gateway_text, '': invalid IPv4 address syntax''])) (\<lambda>gateway.
          if \<not> cidr_contains_address requested_cidr gateway
          then Inl (fmt [compose_clone_isolation_invalid, '': gateway '', show_ipv4 gateway,
                 '' is outside requested subnet '', nr_subnet requested, '' for Compose network `'',
                 nr_network requested, ''`''])
          else let offset = gateway - cidr_network requested_cidr in
          bind_res (ok_or (cidr_address_at_offset planned offset)
            (fmt [compose_clone_isolation_invalid, '': gateway host offset from '', show_ipv4 gateway,
               '' does not fit planned subnet '', cidr_show planned, '' for Compose network `'',
               nr_network requested, ''`''])) (\<lambda>planned_gateway.
          Inr (Some (show_ipv4 planned_gateway)))))"

definition ip_range_does_not_fit :: "network_request \<Rightarrow> string" where
  "ip_range_does_not_fit requested =
     fmt [compose_clone_isolation_invalid, '': Compose network `'', nr_network requested,
       ''` IPAM field `ip_range` does not fit the planned subnet; choose a subnet_prefix that preserves the requested range offset'']"

definition relocate_ip_range :: "network_request \<Rightarrow> ipv4_cidr \<Rightarrow> ipv4_cidr \<Rightarrow> string option result" where
  "relocate_ip_range requested requested_cidr planned =
     (case nr_ip_range requested of
        None \<Rightarrow> Inr None
      | Some ip_range \<Rightarrow>
          bind_res (ok_or (cidr_parse ip_range)
            (let v6 = (case Option.bind (split_once ''/'' ip_range) (\<lambda>(address, _). parse_ip address) of
                         Some address \<Rightarrow> is_ipv6 address | None \<Rightarrow> False)
             in fmt [if v6 then compose_clone_isolation_unsupported else compose_clone_isolation_invalid,
                  '': Compose network `'', nr_network requested,
                  ''` IPAM field `ip_range` is not a relocatable IPv4 CIDR''])) (\<lambda>requested_range.
          if \<not> cidr_contains requested_cidr requested_range
          then Inl (fmt [compose_clone_isolation_invalid, '': Compose network `'', nr_network requested,
                 ''` IPAM field `ip_range` is outside its requested subnet''])
          else let offset = cidr_network requested_range - cidr_network requested_cidr in
          case cidr_address_at_offset planned offset of
            None \<Rightarrow> Inl (ip_range_does_not_fit requested)
          | Some planned_address \<Rightarrow>
              bind_res (ok_or
                (filter_option (\<lambda>range. cidr_network range = planned_address \<and> cidr_contains planned range)
                  (cidr_parse (show_ipv4 planned_address @ ''/'' @ show_nat (unat (cidr_prefix requested_range)))))
                (ip_range_does_not_fit requested)) (\<lambda>planned_range.
              Inr (Some (cidr_show planned_range)))))"

definition relocate_aux_address ::
  "network_request \<Rightarrow> ipv4_cidr \<Rightarrow> ipv4_cidr \<Rightarrow> string \<times> string \<Rightarrow> (string \<times> string) result" where
  "relocate_aux_address requested requested_cidr planned entry =
     (case parse_ip (snd entry) of
        Some (V6 _) \<Rightarrow>
          Inl (fmt [compose_clone_isolation_unsupported, '': Compose network `'', nr_network requested,
            ''` IPAM field `aux_addresses` contains a non-IPv4 address that cannot be relocated''])
      | None \<Rightarrow>
          Inl (fmt [compose_clone_isolation_invalid, '': Compose network `'', nr_network requested,
            ''` IPAM field `aux_addresses` contains an invalid IP address''])
      | Some (V4 address) \<Rightarrow>
          if \<not> cidr_contains_address requested_cidr address
          then Inl (fmt [compose_clone_isolation_invalid, '': Compose network `'', nr_network requested,
                 ''` IPAM field `aux_addresses` contains an address outside its requested subnet''])
          else let offset = address - cidr_network requested_cidr in
          bind_res (ok_or (cidr_address_at_offset planned offset)
            (fmt [compose_clone_isolation_invalid, '': Compose network `'', nr_network requested,
               ''` IPAM field `aux_addresses` does not fit the planned subnet; choose a subnet_prefix that preserves every requested address offset''])) (\<lambda>planned_address.
          Inr (fst entry, show_ipv4 planned_address)))"

definition relocate_aux_addresses ::
  "network_request \<Rightarrow> ipv4_cidr \<Rightarrow> ipv4_cidr \<Rightarrow> (string, string) btree_map result" where
  "relocate_aux_addresses requested requested_cidr planned =
     bind_res (try_map (relocate_aux_address requested requested_cidr planned) (nr_aux_addresses requested))
       (\<lambda>entries. Inr (bt_collect entries))"

section \<open>The planner\<close>

definition stable_subnet ::
  "subnet_plan_input \<Rightarrow> network_request \<Rightarrow> ipv4_cidr \<Rightarrow> u8 \<Rightarrow> ipv4_cidr list \<Rightarrow> ipv4_cidr option" where
  "stable_subnet input requested pool prefix unavailable =
     (if si_rebuild input then None
      else or_else (preferred_existing_subnet input requested pool prefix unavailable)
             (preferred_state_subnet input requested pool prefix unavailable))"

definition requested_on_rebuild ::
  "subnet_plan_input \<Rightarrow> ipv4_cidr \<Rightarrow> ipv4_cidr \<Rightarrow> u8 \<Rightarrow> ipv4_cidr list \<Rightarrow> ipv4_cidr option" where
  "requested_on_rebuild input requested_cidr pool prefix unavailable =
     filter_option (\<lambda>candidate. subnet_is_available candidate pool unavailable)
       (filter_option (\<lambda>candidate. cidr_prefix candidate = prefix)
         (if si_rebuild input then Some requested_cidr else None))"

definition plan_compose_isolation_subnet ::
  "(string \<Rightarrow> u8 list) \<Rightarrow> subnet_plan_input \<Rightarrow> ipv4_cidr \<Rightarrow> ipv4_cidr list \<times> subnet_allocation list \<Rightarrow>
   validated_relocation_request \<Rightarrow> (ipv4_cidr list \<times> subnet_allocation list) result" where
  "plan_compose_isolation_subnet sha256 input pool so_far validated =
     (let assigned = fst so_far;
          requested = vr_requested validated;
          requested_cidr = vr_cidr validated;
          prefix = (case si_subnet_prefix input of Some p \<Rightarrow> p | None \<Rightarrow> cidr_prefix requested_cidr)
      in if prefix < cidr_prefix pool
         then Inl (fmt [compose_clone_isolation_invalid, '': subnet prefix '', show_nat (unat prefix),
                '' for Compose network `'', nr_network requested, ''` does not fit subnet pool '', cidr_show pool])
         else
           let unavailable = unavailable_subnets input requested assigned in
           bind_res (ok_or
             (or_else (or_else (stable_subnet input requested pool prefix unavailable)
                        (requested_on_rebuild input requested_cidr pool prefix unavailable))
               (allocate_ipv4_subnet_slot sha256 pool prefix (si_workspace_id input) (nr_network requested)
                 unavailable))
             (fmt [compose_clone_isolation_pool_exhausted, '': no available /'', show_nat (unat prefix),
                '' subnet remains in pool '', cidr_show pool, '' for Compose network `'',
                nr_network requested, ''`''])) (\<lambda>planned.
           bind_res (relocate_gateway requested requested_cidr planned) (\<lambda>planned_gateway.
           bind_res (relocate_ip_range requested requested_cidr planned) (\<lambda>planned_ip_range.
           bind_res (relocate_aux_addresses requested requested_cidr planned) (\<lambda>planned_aux_addresses.
           Inr (assigned @ [planned],
                snd so_far @
                  [\<lparr>sa_network = nr_network requested, sa_requested_subnet = nr_subnet requested,
                    sa_planned_subnet = cidr_show planned, sa_planned_gateway = planned_gateway,
                    sa_planned_ip_range = planned_ip_range,
                    sa_planned_aux_addresses = planned_aux_addresses,
                    sa_relocated = (planned \<noteq> requested_cidr)\<rparr>]))))))"

definition empty_subnet_plan :: subnet_plan where
  "empty_subnet_plan = \<lparr>sp_allocations = [], sp_networks_to_remove = []\<rparr>"

definition plan_compose_isolation_subnets ::
  "(string \<Rightarrow> u8 list) \<Rightarrow> subnet_plan_input \<Rightarrow> subnet_plan result" where
  "plan_compose_isolation_subnets sha256 input =
     (if \<not> si_enabled input \<or> \<not> si_relocation input \<or> scan_network_requests (si_scan input) = []
      then Inr empty_subnet_plan
      else
        bind_res (validate_relocation_requests input) (\<lambda>validated_requests.
        bind_res (ok_or (si_subnet_pool input)
          (fmt [compose_clone_isolation_invalid,
             '': compose.clone_isolation.networks.subnet_pool is required when network relocation is enabled''])) (\<lambda>pool_text.
        bind_res (ok_or (cidr_parse pool_text)
          (fmt [compose_clone_isolation_invalid,
             '': clone isolation subnet pool is not a valid IPv4 CIDR: '', pool_text])) (\<lambda>pool.
        bind_res (try_fold (plan_compose_isolation_subnet sha256 input pool) ([], []) validated_requests)
          (\<lambda>(assigned, allocations).
        Inr (empty_subnet_plan\<lparr>sp_allocations := allocations\<rparr>))))))"

section \<open>Networks that have to be created again\<close>

definition docker_ipam_matches_allocation :: "docker_ipam_config \<Rightarrow> subnet_allocation \<Rightarrow> bool" where
  "docker_ipam_matches_allocation config allocation =
     (let subnet_matches =
            (Option.bind (di_subnet config) cidr_parse = cidr_parse (sa_planned_subnet allocation));
          gateway_matches =
            (case sa_planned_gateway allocation of
               None \<Rightarrow> True
             | Some planned \<Rightarrow> map_option trim (di_gateway config) = Some planned);
          ip_range_matches =
            (case sa_planned_ip_range allocation of
               None \<Rightarrow> (case di_ip_range config of None \<Rightarrow> True | Some value \<Rightarrow> trim value = [])
             | Some planned \<Rightarrow> Option.bind (di_ip_range config) cidr_parse = cidr_parse planned)
      in subnet_matches \<and> gateway_matches \<and> ip_range_matches \<and>
         di_auxiliary_addresses config = sa_planned_aux_addresses allocation)"

definition recreate_step ::
  "subnet_allocation \<Rightarrow> string list \<Rightarrow> docker_network \<Rightarrow> string list result" where
  "recreate_step allocation removals network =
     (if list_ex (\<lambda>config. docker_ipam_matches_allocation config allocation) (dn_ipam_configs network)
      then Inr removals
      else if dn_has_attached_containers network
      then Inl (fmt [compose_clone_isolation_invalid, '': Docker network `'', dn_name network,
             ''` for Compose network `'', sa_network allocation, ''` must be recreated with subnet '',
             sa_planned_subnet allocation, '', but containers are still attached. '', recreate_hint])
      else Inr (insort_insert (dn_name network) removals))"

definition networks_to_recreate :: "subnet_plan_input \<Rightarrow> subnet_allocation list \<Rightarrow> string list result" where
  "networks_to_recreate input allocations =
     try_fold (\<lambda>removals allocation.
         try_fold (recreate_step allocation) removals
           (filter (is_requested_self_network input (sa_network allocation)) (ds_networks (si_daemon input))))
       [] allocations"

definition finalize_compose_isolation_subnet_plan ::
  "subnet_plan_input \<Rightarrow> subnet_plan \<Rightarrow> subnet_plan result" where
  "finalize_compose_isolation_subnet_plan input plan =
     bind_res (networks_to_recreate input (sp_allocations plan)) (\<lambda>removals.
     Inr (plan\<lparr>sp_networks_to_remove := removals\<rparr>))"

section \<open>The effective scan\<close>

definition apply_subnet_allocation :: "subnet_plan \<Rightarrow> network_request \<Rightarrow> network_request" where
  "apply_subnet_allocation plan requested =
     (case List.find (\<lambda>allocation. sa_network allocation = nr_network requested \<and>
                                   sa_requested_subnet allocation = nr_subnet requested)
             (sp_allocations plan) of
        None \<Rightarrow> requested
      | Some allocation \<Rightarrow>
          requested\<lparr>nr_subnet := sa_planned_subnet allocation,
                    nr_gateway := sa_planned_gateway allocation,
                    nr_ip_range := sa_planned_ip_range allocation,
                    nr_aux_addresses := sa_planned_aux_addresses allocation\<rparr>)"

definition apply_compose_isolation_subnet_plan :: "isolation_scan \<Rightarrow> subnet_plan \<Rightarrow> isolation_scan" where
  "apply_compose_isolation_subnet_plan scan plan =
     scan\<lparr>scan_network_requests := map (apply_subnet_allocation plan) (scan_network_requests scan)\<rparr>"

section \<open>Validation gives one well-formed request for each network\<close>

lemma validate_relocation_request_ok:
  assumes "validate_relocation_request model networks requested = Inr cidr"
  shows "cidr_parse (nr_subnet requested) = Some cidr" "nr_network requested \<notin> set networks"
  using assms
  by (auto simp: validate_relocation_request_def result_elims Let_def split: if_splits)

lemma validate_relocation_requests_ok:
  assumes "validate_relocation_requests input = Inr vs"
  shows "map vr_requested vs = scan_network_requests (si_scan input) \<and>
     distinct (map nr_network (scan_network_requests (si_scan input))) \<and>
     (\<forall>v\<in>set vs. cidr_parse (nr_subnet (vr_requested v)) = Some (vr_cidr v))"
proof -
  define P where "P = (\<lambda>rs (ns, vs :: validated_relocation_request list). map vr_requested vs = rs \<and> ns = map nr_network rs \<and>
    distinct (map nr_network rs) \<and> (\<forall>v\<in>set vs. cidr_parse (nr_subnet (vr_requested v)) = Some (vr_cidr v)))"
  obtain ns where fold: "try_fold (\<lambda>(networks, validated) requested.
             bind_res (validate_relocation_request (si_model input) networks requested) (\<lambda>cidr.
               Inr (networks @ [nr_network requested],
                    validated @ [\<lparr>vr_requested = requested, vr_cidr = cidr\<rparr>])))
           ([], []) (scan_network_requests (si_scan input)) = Inr (ns, vs)"
    using assms by (auto simp: validate_relocation_requests_def bind_res_Inr_iff)
  have "P (scan_network_requests (si_scan input)) (ns, vs)"
  proof (rule try_fold_invariant [OF fold])
    show "P [] ([], [])" by (simp add: P_def)
  next
    fix ys x s t
    assume "P ys s" "(case s of (networks, validated) \<Rightarrow> \<lambda>requested.
        bind_res (validate_relocation_request (si_model input) networks requested) (\<lambda>cidr.
          Inr (networks @ [nr_network requested],
               validated @ [\<lparr>vr_requested = requested, vr_cidr = cidr\<rparr>]))) x = Inr t"
    then show "P (ys @ [x]) t"
      using validate_relocation_request_ok by (cases s) (fastforce simp: P_def bind_res_Inr_iff)
  qed
  then show ?thesis by (simp add: P_def)
qed

section \<open>The chosen subnet\<close>

lemma parsed_subnets_ok: "c \<in> set (parsed_subnets network) \<Longrightarrow> cidr_ok c"
  by (auto simp: parsed_subnets_def set_filter_map bind_eq_Some_conv intro: cidr_parse_ok)

lemma set_unavailable_subnets:
  "set (unavailable_subnets input requested assigned) = set assigned \<union>
     (\<Union>network \<in> {n \<in> set (ds_networks (si_daemon input)).
        \<not> is_requested_self_network input (nr_network requested) n \<and> uses_same_ipam_address_space requested n}.
      set (parsed_subnets network))"
proof -
  have "set (foldl (\<lambda>unavailable network. if Q network then unavailable else unavailable @ parsed_subnets network)
      assigned ns) = set assigned \<union> (\<Union>network \<in> {n \<in> set ns. \<not> Q n}. set (parsed_subnets network))" for Q ns
    by (induction ns arbitrary: assigned) auto
  then show ?thesis unfolding unavailable_subnets_def by simp
qed

lemma unavailable_subnets_ok:
  "\<forall>c\<in>set assigned. cidr_ok c \<Longrightarrow> \<forall>u\<in>set (unavailable_subnets input requested assigned). cidr_ok u"
  by (auto simp: set_unavailable_subnets parsed_subnets_ok)

lemma filter_option_Some: "filter_option P o' = Some x \<longleftrightarrow> o' = Some x \<and> P x"
  by (auto simp: filter_option_def split: option.splits)

lemma or_else_Some: "or_else a b = Some x \<longleftrightarrow> a = Some x \<or> a = None \<and> b = Some x"
  by (auto simp: or_else_def split: option.splits)

definition candidate_subnet ::
  "subnet_plan_input \<Rightarrow> network_request \<Rightarrow> ipv4_cidr \<Rightarrow> ipv4_cidr \<Rightarrow> u8 \<Rightarrow> ipv4_cidr list \<Rightarrow> ipv4_cidr option" where
  "candidate_subnet input requested requested_cidr pool prefix unavailable =
     or_else (stable_subnet input requested pool prefix unavailable)
       (requested_on_rebuild input requested_cidr pool prefix unavailable)"

lemma candidate_subnet_ok:
  assumes "cidr_ok requested_cidr"
    and c: "candidate_subnet input requested requested_cidr pool prefix unavailable = Some c"
  shows "cidr_ok c \<and> cidr_prefix c = prefix \<and> subnet_is_available c pool unavailable"
proof -
  consider "preferred_existing_subnet input requested pool prefix unavailable = Some c"
    | "preferred_state_subnet input requested pool prefix unavailable = Some c"
    | "requested_on_rebuild input requested_cidr pool prefix unavailable = Some c"
    using c by (auto simp: candidate_subnet_def stable_subnet_def or_else_Some split: if_splits)
  then show ?thesis
  proof cases
    case 1
    from find_Some_iff2 [OF this [unfolded preferred_existing_subnet_def]] show ?thesis
      using parsed_subnets_ok by auto
  next
    case 2
    then show ?thesis
      by (auto simp: preferred_state_subnet_def filter_option_Some bind_eq_Some_conv intro: cidr_parse_ok)
  next
    case 3
    then show ?thesis
      using assms by (auto simp: requested_on_rebuild_def filter_option_Some split: if_splits)
  qed
qed

definition planned_prefix :: "subnet_plan_input \<Rightarrow> validated_relocation_request \<Rightarrow> u8" where
  "planned_prefix input validated =
     (case si_subnet_prefix input of Some p \<Rightarrow> p | None \<Rightarrow> cidr_prefix (vr_cidr validated))"

definition pick_subnet ::
  "(string \<Rightarrow> u8 list) \<Rightarrow> subnet_plan_input \<Rightarrow> ipv4_cidr \<Rightarrow> ipv4_cidr list \<Rightarrow> validated_relocation_request \<Rightarrow>
   ipv4_cidr option" where
  "pick_subnet sha256 input pool assigned validated =
     (let requested = vr_requested validated;
          unavailable = unavailable_subnets input requested assigned;
          prefix = planned_prefix input validated
      in slot_alloc.pick sha256 (candidate_subnet input requested (vr_cidr validated) pool prefix unavailable)
           pool prefix (si_workspace_id input, nr_network requested) unavailable)"

lemma pick_subnet_fits:
  assumes "cidr_ok pool" "\<forall>c\<in>set assigned. cidr_ok c" "cidr_ok (vr_cidr v)"
    and "pick_subnet sha256 input pool assigned v = Some c"
  shows "subnet_fits pool (planned_prefix input v) (unavailable_subnets input (vr_requested v) assigned) c"
  using assms(4) unfolding pick_subnet_def Let_def
  by (rule slot_alloc.pick_fits [OF assms(1) unavailable_subnets_ok [OF assms(2)]])
     (rule candidate_subnet_ok [OF assms(3)])

lemma pick_subnet_none:
  assumes "cidr_ok pool" "\<forall>c\<in>set assigned. cidr_ok c" "cidr_prefix pool \<le> planned_prefix input v"
    and "pick_subnet sha256 input pool assigned v = None"
  shows "\<not> subnet_fits pool (planned_prefix input v) (unavailable_subnets input (vr_requested v) assigned) c"
  using assms(4) unfolding pick_subnet_def Let_def
  by (rule slot_alloc.pick_exhausted [OF assms(1) unavailable_subnets_ok [OF assms(2)]]) (rule assms(3))

section \<open>One step\<close>

definition allocation_for ::
  "validated_relocation_request \<Rightarrow> ipv4_cidr \<Rightarrow> subnet_allocation \<Rightarrow> bool" where
  "allocation_for v planned allocation \<longleftrightarrow>
     sa_network allocation = nr_network (vr_requested v) \<and>
     sa_requested_subnet allocation = nr_subnet (vr_requested v) \<and>
     sa_planned_subnet allocation = cidr_show planned \<and>
     relocate_gateway (vr_requested v) (vr_cidr v) planned = Inr (sa_planned_gateway allocation) \<and>
     relocate_ip_range (vr_requested v) (vr_cidr v) planned = Inr (sa_planned_ip_range allocation) \<and>
     relocate_aux_addresses (vr_requested v) (vr_cidr v) planned = Inr (sa_planned_aux_addresses allocation) \<and>
     sa_relocated allocation = (planned \<noteq> vr_cidr v)"

lemma plan_subnet_step_iff:
  "plan_compose_isolation_subnet sha256 input pool (assigned, allocations) v = Inr result \<longleftrightarrow>
     cidr_prefix pool \<le> planned_prefix input v \<and>
     (\<exists>planned allocation. pick_subnet sha256 input pool assigned v = Some planned \<and>
        allocation_for v planned allocation \<and> result = (assigned @ [planned], allocations @ [allocation]))"
proof -
  have pick: "or_else (or_else (stable_subnet input r pool p us) (requested_on_rebuild input rc pool p us))
      (allocate_ipv4_subnet_slot sha256 pool p (si_workspace_id input) n us) =
    slot_alloc.pick sha256 (candidate_subnet input r rc pool p us) pool p (si_workspace_id input, n) us"
    for r rc p us n
    unfolding slot_alloc.pick_def candidate_subnet_def [symmetric] by (simp add: or_else_def slot_allocator_def split: option.split)
  have alloc: "allocation_for v planned allocation \<longleftrightarrow>
      (\<exists>gateway range aux. relocate_gateway (vr_requested v) (vr_cidr v) planned = Inr gateway \<and>
         relocate_ip_range (vr_requested v) (vr_cidr v) planned = Inr range \<and>
         relocate_aux_addresses (vr_requested v) (vr_cidr v) planned = Inr aux \<and>
         allocation = \<lparr>sa_network = nr_network (vr_requested v), sa_requested_subnet = nr_subnet (vr_requested v),
                    sa_planned_subnet = cidr_show planned, sa_planned_gateway = gateway,
                    sa_planned_ip_range = range, sa_planned_aux_addresses = aux,
                    sa_relocated = (planned \<noteq> vr_cidr v)\<rparr>)" for planned allocation
    by (cases allocation) (auto simp: allocation_for_def)
  show ?thesis
    unfolding plan_compose_isolation_subnet_def Let_def fst_conv snd_conv pick planned_prefix_def [symmetric]
      alloc pick_subnet_def
    by (auto simp: result_elims not_less)
qed

section \<open>The whole plan\<close>

text \<open>
  \<open>plans input pool vs cs as\<close>: the requests \<open>vs\<close> got the subnets \<open>cs\<close> and the allocations \<open>as\<close>, each subnet fitting
  the pool next to what was assigned before it.
\<close>

definition plans ::
  "subnet_plan_input \<Rightarrow> ipv4_cidr \<Rightarrow> validated_relocation_request list \<Rightarrow> ipv4_cidr list \<Rightarrow> subnet_allocation list \<Rightarrow>
   bool" where
  "plans input pool vs cs allocations \<longleftrightarrow>
     length cs = length vs \<and> length allocations = length vs \<and>
     (\<forall>i<length vs. allocation_for (vs ! i) (cs ! i) (allocations ! i) \<and>
        cidr_prefix pool \<le> planned_prefix input (vs ! i) \<and>
        subnet_fits pool (planned_prefix input (vs ! i))
          (unavailable_subnets input (vr_requested (vs ! i)) (take i cs)) (cs ! i))"

lemma plans_snoc:
  assumes "plans input pool vs cs allocations" "allocation_for v c a" "cidr_prefix pool \<le> planned_prefix input v"
    "subnet_fits pool (planned_prefix input v) (unavailable_subnets input (vr_requested v) cs) c"
  shows "plans input pool (vs @ [v]) (cs @ [c]) (allocations @ [a])"
  using assms by (auto simp: plans_def nth_append less_Suc_eq)

lemma plans_cidr_ok: "plans input pool vs cs allocations \<Longrightarrow> c \<in> set cs \<Longrightarrow> cidr_ok c"
  by (auto simp: plans_def in_set_conv_nth subnet_fits_def)

lemma plan_fold:
  assumes "try_fold (plan_compose_isolation_subnet sha256 input pool) ([], []) vs = Inr (cs, allocations)"
    and "cidr_ok pool" "\<forall>v\<in>set vs. cidr_ok (vr_cidr v)"
  shows "plans input pool vs cs allocations"
proof -
  have "(\<lambda>vs (cs, as). plans input pool vs cs as) vs (cs, allocations)"
  proof (rule try_fold_invariant [OF assms(1)])
    show "case ([], []) of (cs, as) \<Rightarrow> plans input pool [] cs as" by (simp add: plans_def)
  next
    fix ys v s t
    assume vs: "set (ys @ [v]) \<subseteq> set vs" and s: "case s of (cs, as) \<Rightarrow> plans input pool ys cs as"
      and step: "plan_compose_isolation_subnet sha256 input pool s v = Inr t"
    obtain cs al where [simp]: "s = (cs, al)" by (cases s)
    obtain c a where c: "pick_subnet sha256 input pool cs v = Some c" "allocation_for v c a"
      "t = (cs @ [c], al @ [a])" "cidr_prefix pool \<le> planned_prefix input v"
      using step unfolding \<open>s = (cs, al)\<close> plan_subnet_step_iff by blast
    have "subnet_fits pool (planned_prefix input v) (unavailable_subnets input (vr_requested v) cs) c"
      using pick_subnet_fits [OF assms(2) _ _ c(1)] plans_cidr_ok [of input pool ys cs al] s vs assms(3)
      by auto
    with s c show "case t of (cs, as) \<Rightarrow> plans input pool (ys @ [v]) cs as"
      by (auto intro: plans_snoc)
  qed
  then show ?thesis by simp
qed

lemma plan_subnets_cases:
  assumes "plan_compose_isolation_subnets sha256 input = Inr plan"
  obtains (unused) "plan = empty_subnet_plan"
      "\<not> si_enabled input \<or> \<not> si_relocation input \<or> scan_network_requests (si_scan input) = []"
  | (planned) pool_text pool vs cs where
      "si_enabled input" "si_relocation input"
      "si_subnet_pool input = Some pool_text" "cidr_parse pool_text = Some pool"
      "validate_relocation_requests input = Inr vs"
      "try_fold (plan_compose_isolation_subnet sha256 input pool) ([], []) vs = Inr (cs, sp_allocations plan)"
      "sp_networks_to_remove plan = []"
proof (cases "\<not> si_enabled input \<or> \<not> si_relocation input \<or> scan_network_requests (si_scan input) = []")
  case True
  with assms unused show ?thesis by (simp add: plan_compose_isolation_subnets_def)
next
  case False
  then show ?thesis
    using assms planned by (auto simp: plan_compose_isolation_subnets_def result_elims empty_subnet_plan_def)
qed

lemma plan_subnets_planned:
  assumes "plan_compose_isolation_subnets sha256 input = Inr plan" "sp_allocations plan \<noteq> []"
  obtains pool_text pool vs cs where "si_subnet_pool input = Some pool_text" "cidr_parse pool_text = Some pool"
    "map vr_requested vs = scan_network_requests (si_scan input)"
    "distinct (map nr_network (scan_network_requests (si_scan input)))"
    "\<And>v. v \<in> set vs \<Longrightarrow> cidr_parse (nr_subnet (vr_requested v)) = Some (vr_cidr v)"
    "plans input pool vs cs (sp_allocations plan)"
  using assms(1)
proof (cases rule: plan_subnets_cases)
  case unused
  with assms(2) show ?thesis by (simp add: empty_subnet_plan_def)
next
  case (planned pool_text pool vs cs)
  note v = validate_relocation_requests_ok [OF planned(5)]
  then have "\<forall>v\<in>set vs. cidr_ok (vr_cidr v)" using cidr_parse_ok by blast
  from plan_fold [OF planned(6) cidr_parse_ok [OF planned(4)] this] show ?thesis
    using that planned v by blast
qed

lemma plans_disjoint:
  assumes "plans input pool vs cs allocations" "i < j" "j < length cs"
  shows "\<not> cidr_overlaps (cs ! i) (cs ! j)"
proof -
  have "cs ! i \<in> set (take j cs)" using assms(2,3) by (auto simp: in_set_conv_nth)
  then have "\<not> cidr_overlaps (cs ! j) (cs ! i)"
    using assms by (auto simp: plans_def subnet_fits_def set_unavailable_subnets)
  then show ?thesis by (simp add: cidr_overlaps_sym)
qed

lemma plans_avoid_foreign:
  assumes "plans input pool vs cs allocations" "i < length vs" "network \<in> set (ds_networks (si_daemon input))"
    "\<not> is_requested_self_network input (nr_network (vr_requested (vs ! i))) network"
    "uses_same_ipam_address_space (vr_requested (vs ! i)) network" "d \<in> set (parsed_subnets network)"
  shows "\<not> cidr_overlaps (cs ! i) d"
  using assms by (auto simp: plans_def subnet_fits_def set_unavailable_subnets)

section \<open>Addresses keep their offset\<close>

definition same_offset :: "ipv4_cidr \<Rightarrow> ipv4_addr \<Rightarrow> ipv4_cidr \<Rightarrow> ipv4_addr \<Rightarrow> bool" where
  "same_offset c a c' a' \<longleftrightarrow> a \<in> cidr_addresses c \<and> a' \<in> cidr_addresses c' \<and>
     unat a - unat (cidr_network c) = unat a' - unat (cidr_network c')"

lemma address_at_offset_same:
  assumes "cidr_contains_address c a" "cidr_address_at_offset c' (a - cidr_network c) = Some a'"
  shows "same_offset c a c' a'"
proof -
  have a': "unat a' = unat (cidr_network c') + unat (a - cidr_network c)" "a' \<le> cidr_broadcast c'"
    using assms(2) by (auto simp: cidr_address_at_offset_def checked_add_Some_iff split: option.splits if_splits)
  have "unat (a - cidr_network c) = unat a - unat (cidr_network c)"
    using assms(1) by (simp add: cidr_contains_address_def unat_sub)
  then have "unat a' = unat (cidr_network c') + (unat a - unat (cidr_network c))" using a'(1) by simp
  then show ?thesis
    using a'(2) assms(1) unfolding same_offset_def cidr_addresses_def cidr_contains_address_def mem_Collect_eq
      word_le_nat_alt by linarith
qed

lemma relocated_gateway:
  assumes "relocate_gateway requested c c' = Inr gateway"
  shows "(nr_gateway requested = None \<longrightarrow> gateway = None) \<and>
     (\<forall>g. nr_gateway requested = Some g \<longrightarrow>
        (\<exists>a a'. parse_ipv4 g = Some a \<and> gateway = Some (show_ipv4 a') \<and> same_offset c a c' a'))"
proof (cases "nr_gateway requested")
  case None
  with assms show ?thesis by (simp add: relocate_gateway_def)
next
  case (Some g)
  with assms obtain a a' where a: "parse_ipv4 g = Some a" "cidr_contains_address c a"
      "cidr_address_at_offset c' (a - cidr_network c) = Some a'" "gateway = Some (show_ipv4 a')"
    by (auto simp: relocate_gateway_def result_elims Let_def split: if_splits)
  with address_at_offset_same [OF a(2,3)] Some show ?thesis by auto
qed

lemma relocated_ip_range:
  assumes "relocate_ip_range requested c c' = Inr rng" "cidr_ok c"
  shows "(nr_ip_range requested = None \<longrightarrow> rng = None) \<and>
     (\<forall>r. nr_ip_range requested = Some r \<longrightarrow>
        (\<exists>d d'. cidr_parse r = Some d \<and> rng = Some (cidr_show d') \<and> cidr_ok d' \<and>
           cidr_prefix d' = cidr_prefix d \<and> cidr_addresses d' \<subseteq> cidr_addresses c' \<and>
           same_offset c (cidr_network d) c' (cidr_network d')))"
proof (cases "nr_ip_range requested")
  case None
  with assms show ?thesis by (simp add: relocate_ip_range_def)
next
  case (Some r)
  with assms obtain d a' d' where d: "cidr_parse r = Some d" "cidr_contains c d"
      "cidr_address_at_offset c' (cidr_network d - cidr_network c) = Some a'"
      "cidr_parse (show_ipv4 a' @ ''/'' @ show_nat (unat (cidr_prefix d))) = Some d'"
      "cidr_network d' = a'" "cidr_contains c' d'" "rng = Some (cidr_show d')"
    by (auto simp: relocate_ip_range_def result_elims filter_option_Some Let_def split: if_splits option.splits)
  have "cidr_ok d" "cidr_ok d'" using d(1,4) by (simp_all add: cidr_parse_ok)
  moreover have "cidr_contains_address c (cidr_network d)"
    using d(2) cidr_ok_le [OF \<open>cidr_ok d\<close>] unfolding cidr_contains_def cidr_contains_address_def
    by (metis order_trans)
  moreover have "cidr_prefix d' = cidr_prefix d"
  proof -
    have "split_once ''/'' (show_ipv4 a' @ ''/'' @ show_nat (unat (cidr_prefix d))) =
        Some (show_ipv4 a', show_nat (unat (cidr_prefix d)))"
      using split_once_char [OF slash_not_in_show_ipv4] by simp
    then show ?thesis
      using d(4) unfolding cidr_parse_def
      by (auto simp: parse_show_ipv4 parse_u8_show Let_def split: if_splits)
  qed
  ultimately show ?thesis
    using d Some address_at_offset_same [of c "cidr_network d" c' a'] cidr_contains_iff [of d' c']
    by auto
qed

lemma relocated_aux_address:
  "relocate_aux_address requested c c' (name, t) = Inr (name', t') \<Longrightarrow>
   name' = name \<and> (\<exists>a a'. parse_ip t = Some (V4 a) \<and> t' = show_ipv4 a' \<and> same_offset c a c' a')"
  unfolding relocate_aux_address_def
  by (auto simp: result_elims Let_def intro: address_at_offset_same split: option.splits ip_addr.splits if_splits)

lemma relocated_aux_addresses:
  assumes "relocate_aux_addresses requested c c' = Inr aux" "bt_ok (nr_aux_addresses requested)"
    and "(name, t) \<in> set (nr_aux_addresses requested)"
  shows "\<exists>a a'. parse_ip t = Some (V4 a) \<and> bt_get aux name = Some (show_ipv4 a') \<and> same_offset c a c' a'"
proof -
  obtain es where es: "list_all2 (\<lambda>x y. relocate_aux_address requested c c' x = Inr y) (nr_aux_addresses requested) es"
      "aux = bt_collect es"
    using assms(1) by (auto simp: relocate_aux_addresses_def bind_res_Inr_iff try_map_Inr_iff)
  have same: "relocate_aux_address requested c c' x = Inr y \<Longrightarrow> fst y = fst x" for x y
    using relocated_aux_address [of requested c c' "fst x" "snd x" "fst y" "snd y"] by simp
  have "map fst es = map fst (nr_aux_addresses requested)"
    using es(1) same by (induction rule: list_all2_induct) auto
  then have get: "bt_get aux = map_of es"
    using es(2) bt_ok_distinct [OF assms(2)] by (simp add: bt_get_collect_distinct)
  obtain y where "y \<in> set es" "relocate_aux_address requested c c' (name, t) = Inr y"
    using es(1) assms(3) unfolding list_all2_conv_all_nth in_set_conv_nth by metis
  moreover from this(2) relocated_aux_address [of requested c c' name t "fst y" "snd y"] obtain a a' where
    "fst y = name" "parse_ip t = Some (V4 a)" "snd y = show_ipv4 a'" "same_offset c a c' a'" by auto
  moreover have "distinct (map fst es)"
    using \<open>map fst es = _\<close> bt_ok_distinct [OF assms(2)] by simp
  ultimately have "map_of es name = Some (show_ipv4 a')"
    by (metis map_of_is_SomeI prod.collapse)
  with \<open>parse_ip t = _\<close> \<open>same_offset c a c' a'\<close> get show ?thesis by auto
qed

section \<open>The effective scan\<close>

lemma plans_networks:
  assumes "plans input pool vs cs allocations"
  shows "map sa_network allocations = map nr_network (map vr_requested vs)"
  using assms by (intro nth_equalityI) (auto simp: plans_def allocation_for_def)

lemma plans_find:
  assumes p: "plans input pool vs cs allocations" and d: "distinct (map nr_network (map vr_requested vs))"
    and i: "i < length vs"
  shows "List.find (\<lambda>allocation. sa_network allocation = nr_network (vr_requested (vs ! i)) \<and>
           sa_requested_subnet allocation = nr_subnet (vr_requested (vs ! i))) allocations = Some (allocations ! i)"
  using assms
  by (intro find_distinct [where key = sa_network])
     (auto simp: plans_networks, auto simp: plans_def allocation_for_def)

lemma uses_same_space_applied:
  "uses_same_ipam_address_space (apply_subnet_allocation plan requested) network =
   uses_same_ipam_address_space requested network"
  by (auto simp: apply_subnet_allocation_def uses_same_ipam_address_space_def split: option.splits)

lemma applied_request_avoids_foreign:
  assumes plan: "plan_compose_isolation_subnets sha256 input = Inr plan" "si_enabled input" "si_relocation input"
    and r: "requested \<in> set (scan_network_requests (si_scan input))"
    and n: "network \<in> set (ds_networks (si_daemon input))"
    and space: "uses_same_ipam_address_space requested network"
    and foreign: "\<not> is_requested_self_network input (nr_network requested) network"
  shows "\<not> subnets_collide (apply_subnet_allocation plan requested) network"
proof
  assume collide: "subnets_collide (apply_subnet_allocation plan requested) network"
  show False
    using plan(1)
  proof (cases rule: plan_subnets_cases)
    case unused
    with plan r show ?thesis by auto
  next
    case (planned pool_text pool vs cs)
    note v = validate_relocation_requests_ok [OF planned(5)]
    then have "\<forall>v\<in>set vs. cidr_ok (vr_cidr v)" using cidr_parse_ok by blast
    from plan_fold [OF planned(6) cidr_parse_ok [OF planned(4)] this]
    have p: "plans input pool vs cs (sp_allocations plan)" .
    obtain i where i: "i < length vs" "requested = vr_requested (vs ! i)"
      using r v by (metis in_set_conv_nth length_map nth_map)
    have "List.find (\<lambda>allocation. sa_network allocation = nr_network requested \<and>
        sa_requested_subnet allocation = nr_subnet requested) (sp_allocations plan) = Some (sp_allocations plan ! i)"
      using plans_find [OF p _ i(1)] v i(2) by simp
    then have "nr_subnet (apply_subnet_allocation plan requested) = cidr_show (cs ! i)"
      using p i(1) by (simp add: apply_subnet_allocation_def plans_def allocation_for_def)
    moreover have ok: "cidr_ok (cs ! i)" using p i(1) by (simp add: plans_def subnet_fits_def)
    ultimately obtain config block d where "config \<in> set (dn_ipam_configs network)" "di_subnet config = Some block"
        "cidr_parse block = Some d" "cidr_addresses (cs ! i) \<inter> cidr_addresses d \<noteq> {}"
      using collide cidr_parse_show [OF ok] unfolding subnets_collide_def by fastforce
    then have d: "d \<in> set (parsed_subnets network)" "cidr_addresses (cs ! i) \<inter> cidr_addresses d \<noteq> {}"
      unfolding parsed_subnets_def set_filter_map by (auto simp: bind_eq_Some_conv)
    have "\<not> cidr_overlaps (cs ! i) d"
      using plans_avoid_foreign [OF p i(1) n _ _ d(1)] space foreign i(2) by simp
    then show ?thesis using d cidr_overlaps_iff [OF ok parsed_subnets_ok [OF d(1)]] by simp
  qed
qed

section \<open>Planning again\<close>

text \<open>What the state of a run records of its plan.\<close>

definition persisted_subnet_of :: "subnet_allocation \<Rightarrow> persisted_subnet" where
  "persisted_subnet_of allocation =
     \<lparr>ps_network = sa_network allocation, ps_requested_subnet = sa_requested_subnet allocation,
      ps_planned_subnet = sa_planned_subnet allocation\<rparr>"

lemma fold_of_picks:
  assumes "length cs = length vs" "length allocations = length vs"
    and "\<And>i. i < length vs \<Longrightarrow> pick_subnet sha256 input pool (take i cs) (vs ! i) = Some (cs ! i) \<and>
      allocation_for (vs ! i) (cs ! i) (allocations ! i) \<and> cidr_prefix pool \<le> planned_prefix input (vs ! i)"
  shows "try_fold (plan_compose_isolation_subnet sha256 input pool) ([], []) vs = Inr (cs, allocations)"
  using assms
proof (induction vs arbitrary: cs allocations rule: rev_induct)
  case (snoc v vs)
  obtain cs' c where cs: "cs = cs' @ [c]" "length cs' = length vs"
    using snoc.prems(1) by (cases cs rule: rev_cases) auto
  obtain al a where al: "allocations = al @ [a]" "length al = length vs"
    using snoc.prems(2) by (cases allocations rule: rev_cases) auto
  have "try_fold (plan_compose_isolation_subnet sha256 input pool) ([], []) vs = Inr (cs', al)"
  proof (rule snoc.IH [OF cs(2) al(2)])
    fix i assume "i < length vs"
    then show "pick_subnet sha256 input pool (take i cs') (vs ! i) = Some (cs' ! i) \<and>
      allocation_for (vs ! i) (cs' ! i) (al ! i) \<and> cidr_prefix pool \<le> planned_prefix input (vs ! i)"
      using snoc.prems(3) [of i] cs al by (simp add: nth_append)
  qed
  moreover have "plan_compose_isolation_subnet sha256 input pool (cs', al) v = Inr (cs, allocations)"
    using snoc.prems(3) [of "length vs"] cs al by (auto simp: plan_subnet_step_iff nth_append)
  ultimately show ?case by (simp add: try_fold_append)
qed simp

lemma persisted_subnet_is_picked:
  assumes p: "plans input pool vs cs allocations" and i: "i < length vs"
    and d: "distinct (map nr_network (map vr_requested vs))"
    and own: "\<forall>network\<in>set (ds_networks (si_daemon input)). dn_compose_project network \<noteq> Some (si_project_name input)"
  shows "pick_subnet sha256 (input\<lparr>si_state := map persisted_subnet_of allocations, si_rebuild := False\<rparr>)
    pool (take i cs) (vs ! i) = Some (cs ! i)"
proof -
  let ?input = "input\<lparr>si_state := map persisted_subnet_of allocations, si_rebuild := False\<rparr>"
  let ?r = "vr_requested (vs ! i)" and ?a = "allocations ! i"
  let ?us = "unavailable_subnets ?input ?r (take i cs)"
  have same: "?us = unavailable_subnets input ?r (take i cs)" "planned_prefix ?input (vs ! i) = planned_prefix input (vs ! i)"
    by (simp_all add: unavailable_subnets_def is_requested_self_network_def planned_prefix_def)
  have a: "allocation_for (vs ! i) (cs ! i) ?a" and
    fits: "subnet_fits pool (planned_prefix input (vs ! i)) ?us (cs ! i)"
    using p i unfolding same by (simp_all add: plans_def)
  have "preferred_existing_subnet ?input ?r pool (planned_prefix input (vs ! i)) ?us = None"
    using own by (auto simp: preferred_existing_subnet_def find_None_iff2 is_requested_self_network_def is_self_project_def)
  moreover have "preferred_state_subnet ?input ?r pool (planned_prefix input (vs ! i)) ?us = Some (cs ! i)"
  proof -
    have find_map: "List.find P (map f xs) = map_option f (List.find (P \<circ> f) xs)" for P f xs
      by (induction xs) auto
    have "List.find (\<lambda>state. ps_network state = nr_network ?r \<and> ps_requested_subnet state = nr_subnet ?r)
        (map persisted_subnet_of allocations) = Some (persisted_subnet_of ?a)"
      using plans_find [OF p d i] unfolding find_map by (simp add: comp_def persisted_subnet_of_def)
    then show ?thesis
      using fits a cidr_parse_show [of "cs ! i"]
      by (simp add: preferred_state_subnet_def persisted_subnet_of_def allocation_for_def subnet_fits_def
          filter_option_def subnet_is_available_def list_all_iff)
  qed
  ultimately show ?thesis
    unfolding pick_subnet_def Let_def candidate_subnet_def stable_subnet_def same(2)
    by (simp add: or_else_def slot_alloc.pick_def)
qed

section \<open>Networks that are created again\<close>

lemma recreate_loop:
  assumes "try_fold (recreate_step allocation) removals networks = Inr result"
  shows "set result = set removals \<union> dn_name ` {n \<in> set networks.
      \<not> list_ex (\<lambda>config. docker_ipam_matches_allocation config allocation) (dn_ipam_configs n)} \<and>
    (\<forall>n\<in>set networks. list_ex (\<lambda>config. docker_ipam_matches_allocation config allocation) (dn_ipam_configs n) \<or>
       \<not> dn_has_attached_containers n)"
  using assms
proof (induction networks arbitrary: removals)
  case (Cons n ns)
  then obtain s where s: "recreate_step allocation removals n = Inr s" "try_fold (recreate_step allocation) s ns = Inr result"
    by (auto simp: bind_res_Inr_iff)
  from Cons.IH [OF s(2)] s(1) show ?case
    by (auto simp: recreate_step_def set_insort_insert split: if_splits)
qed simp

lemma networks_to_recreate_ok:
  assumes "networks_to_recreate input allocations = Inr result"
  shows "set result = {name. \<exists>allocation\<in>set allocations. \<exists>n\<in>set (ds_networks (si_daemon input)).
      name = dn_name n \<and> is_requested_self_network input (sa_network allocation) n \<and>
      \<not> list_ex (\<lambda>config. docker_ipam_matches_allocation config allocation) (dn_ipam_configs n)} \<and>
    (\<forall>allocation\<in>set allocations. \<forall>n\<in>set (ds_networks (si_daemon input)).
      is_requested_self_network input (sa_network allocation) n \<longrightarrow>
      list_ex (\<lambda>config. docker_ipam_matches_allocation config allocation) (dn_ipam_configs n) \<or>
      \<not> dn_has_attached_containers n)"
proof -
  have "try_fold (\<lambda>removals allocation. try_fold (recreate_step allocation) removals
      (filter (is_requested_self_network input (sa_network allocation)) (ds_networks (si_daemon input))))
      removals allocations = Inr result \<Longrightarrow>
    set result = set removals \<union> {name. \<exists>allocation\<in>set allocations. \<exists>n\<in>set (ds_networks (si_daemon input)).
      name = dn_name n \<and> is_requested_self_network input (sa_network allocation) n \<and>
      \<not> list_ex (\<lambda>config. docker_ipam_matches_allocation config allocation) (dn_ipam_configs n)} \<and>
    (\<forall>allocation\<in>set allocations. \<forall>n\<in>set (ds_networks (si_daemon input)).
      is_requested_self_network input (sa_network allocation) n \<longrightarrow>
      list_ex (\<lambda>config. docker_ipam_matches_allocation config allocation) (dn_ipam_configs n) \<or>
      \<not> dn_has_attached_containers n)" for removals
  proof (induction allocations arbitrary: removals)
    case (Cons a as)
    then obtain s where s: "try_fold (recreate_step a) removals
        (filter (is_requested_self_network input (sa_network a)) (ds_networks (si_daemon input))) = Inr s"
      by (auto simp: bind_res_Inr_iff)
    from recreate_loop [OF this] Cons.IH [of s] Cons.prems s show ?case by auto
  qed simp
  from this [of "[]"] assms show ?thesis by (simp add: networks_to_recreate_def)
qed

section \<open>An example\<close>

definition example_request :: "string \<Rightarrow> u32 \<Rightarrow> network_request" where
  "example_request network block =
     \<lparr>nr_network = network, nr_driver = None, nr_ipam_driver = None,
      nr_subnet = cidr_show (example_block block), nr_gateway = Some (show_ipv4 (block + 1)),
      nr_ip_range = None, nr_aux_addresses = [], nr_has_unrepresented_ipam_configs = False,
      nr_unsupported_ipam_fields = []\<rparr>"

definition example_foreign :: docker_network where
  "example_foreign =
     \<lparr>dn_name = ''other_net'', dn_compose_project = Some ''other'', dn_compose_network = Some ''net'',
      dn_scope = None, dn_ipam_driver = None,
      dn_ipam_configs = [\<lparr>di_subnet = Some (cidr_show (example_block 0x0A000000)), di_gateway = None,
        di_ip_range = None, di_auxiliary_addresses = []\<rparr>],
      dn_has_attached_containers = True\<rparr>"

definition example_subnets :: "network_request list \<Rightarrow> docker_network list \<Rightarrow> subnet_plan_input" where
  "example_subnets requests networks =
     \<lparr>si_model = example_model [], si_project_name = ''p'', si_workspace_id = ''w'',
      si_scan = \<lparr>scan_network_requests = requests, scan_fixed_names = []\<rparr>,
      si_daemon = \<lparr>ds_networks = networks, ds_resources = []\<rparr>, si_state = [],
      si_enabled = True, si_relocation = True, si_subnet_pool = Some (cidr_show example_pool),
      si_subnet_prefix = None, si_rebuild = False\<rparr>"

definition example_allocation_at :: "string \<Rightarrow> u32 \<Rightarrow> u32 \<Rightarrow> subnet_allocation" where
  "example_allocation_at network block planned =
     \<lparr>sa_network = network, sa_requested_subnet = cidr_show (example_block block),
      sa_planned_subnet = cidr_show (example_block planned),
      sa_planned_gateway = Some (show_ipv4 (planned + 1)), sa_planned_ip_range = None,
      sa_planned_aux_addresses = [], sa_relocated = (planned \<noteq> block)\<rparr>"

definition zero_hash :: "string \<Rightarrow> u8 list" where
  "zero_hash text = [0, 0, 0, 0, 0, 0, 0, 0]"

lemma example_parses [simp]:
  "cidr_parse (cidr_show example_pool) = Some example_pool"
  "cidr_parse (cidr_show (example_block 0x0A000000)) = Some (example_block 0x0A000000)"
  "cidr_parse (cidr_show (example_block 0x0A000100)) = Some (example_block 0x0A000100)"
  by (simp_all only: cidr_parse_show example_blocks_ok)

lemma example_slots:
  "allocate_ipv4_subnet_slot zero_hash example_pool 24 w n [] = Some (example_block 0x0A000000)"
  "allocate_ipv4_subnet_slot zero_hash example_pool 24 w n [example_block 0x0A000000] =
     Some (example_block 0x0A000100)"
  by (simp_all add: subnet_eval example_pool_def example_block_def zero_hash_def)

lemma example_unavailable:
  "unavailable_subnets (example_subnets rs []) r us = us"
  "unavailable_subnets (example_subnets rs [example_foreign]) (example_request n b) us =
     us @ [example_block 0x0A000000]"
  by (simp_all add: unavailable_subnets_def example_subnets_def is_requested_self_network_def is_self_project_def
      example_foreign_def example_request_def uses_same_ipam_address_space_def effective_ipam_driver_def
      non_empty_trim_def requested_address_space_def existing_address_space_def parsed_subnets_def)

lemma example_step:
  assumes "b \<in> {0x0A000000, 0x0A000100}" "c \<in> {0x0A000000, 0x0A000100}"
    and "ns = [] \<or> ns = [example_foreign]"
    and "allocate_ipv4_subnet_slot zero_hash example_pool 24 ''w'' n
      (unavailable_subnets (example_subnets rs ns) (example_request n b) us) = Some (example_block c)"
  shows "plan_compose_isolation_subnet zero_hash (example_subnets rs ns) example_pool (us, al)
     \<lparr>vr_requested = example_request n b, vr_cidr = example_block b\<rparr> =
     Inr (us @ [example_block c], al @ [example_allocation_at n b c])"
proof -
  let ?v = "\<lparr>vr_requested = example_request n b, vr_cidr = example_block b\<rparr>"
  have no_candidate: "candidate_subnet (example_subnets rs ns) (example_request n b) (example_block b) example_pool 24 vs = None"
    for vs
    using assms(3)
    by (auto simp: candidate_subnet_def stable_subnet_def requested_on_rebuild_def preferred_existing_subnet_def
        preferred_state_subnet_def is_requested_self_network_def is_self_project_def example_subnets_def
        example_foreign_def or_else_def filter_option_def)
  have prefix: "planned_prefix (example_subnets rs ns) ?v = 24"
    by (simp add: planned_prefix_def example_subnets_def example_block_def)
  have gateway: "relocate_gateway (example_request n b) (example_block b) (example_block c) =
      Inr (Some (show_ipv4 (c + 1)))"
    using assms(1,2)
    by (auto simp: relocate_gateway_def example_request_def parse_show_ipv4 cidr_contains_address_def
        example_block_def cidr_address_at_offset_def checked_add_def)
  have "allocation_for ?v (example_block c) (example_allocation_at n b c)"
    using gateway
    by (simp add: allocation_for_def example_allocation_at_def)
       (auto simp: example_request_def relocate_ip_range_def relocate_aux_addresses_def bt_collect_def
          bt_extend_def example_block_def)
  moreover have "pick_subnet zero_hash (example_subnets rs ns) example_pool us ?v = Some (example_block c)"
  proof -
    have "si_workspace_id (example_subnets rs ns) = ''w''" "nr_network (example_request n b) = n"
      by (simp_all add: example_subnets_def example_request_def)
    then show ?thesis
      unfolding pick_subnet_def Let_def prefix using assms(4)
      by (simp add: no_candidate slot_alloc.pick_def slot_allocator_def)
  qed
  moreover have "cidr_prefix example_pool \<le> planned_prefix (example_subnets rs ns) ?v"
    unfolding prefix by (simp add: example_pool_def)
  ultimately show ?thesis unfolding plan_subnet_step_iff by blast
qed

lemma example_validation:
  "validate_relocation_requests (example_subnets [example_request n 0x0A000000] ns) =
     Inr [\<lparr>vr_requested = example_request n 0x0A000000, vr_cidr = example_block 0x0A000000\<rparr>]"
  "validate_relocation_requests (example_subnets [example_request ''a'' 0x0A000000, example_request ''b'' 0x0A000000] ns) =
     Inr [\<lparr>vr_requested = example_request ''a'' 0x0A000000, vr_cidr = example_block 0x0A000000\<rparr>,
          \<lparr>vr_requested = example_request ''b'' 0x0A000000, vr_cidr = example_block 0x0A000000\<rparr>]"
  by (simp_all add: validate_relocation_requests_def validate_relocation_request_def example_subnets_def
      example_request_def example_model_def)

lemma example_subnets_sel:
  "si_enabled (example_subnets rs ns) = True" "si_relocation (example_subnets rs ns) = True"
  "si_subnet_pool (example_subnets rs ns) = Some (cidr_show example_pool)"
  "scan_network_requests (si_scan (example_subnets rs ns)) = rs"
  "ds_networks (si_daemon (example_subnets rs ns)) = ns"
  "si_project_name (example_subnets rs ns) = ''p''"
  by (simp_all add: example_subnets_def)

lemma example_one_plan:
  "plan_compose_isolation_subnets zero_hash (example_subnets [example_request ''n'' 0x0A000000] [example_foreign]) =
     Inr \<lparr>sp_allocations = [example_allocation_at ''n'' 0x0A000000 0x0A000100], sp_networks_to_remove = []\<rparr>"
  unfolding plan_compose_isolation_subnets_def example_validation example_subnets_sel
  by (simp add: example_step [where b = "0x0A000000" and c = "0x0A000100"] example_unavailable example_slots
      empty_subnet_plan_def)

lemma example_two_plan:
  "plan_compose_isolation_subnets zero_hash
     (example_subnets [example_request ''a'' 0x0A000000, example_request ''b'' 0x0A000000] []) =
     Inr \<lparr>sp_allocations = [example_allocation_at ''a'' 0x0A000000 0x0A000000,
            example_allocation_at ''b'' 0x0A000000 0x0A000100], sp_networks_to_remove = []\<rparr>"
  unfolding plan_compose_isolation_subnets_def example_validation example_subnets_sel
  by (simp add: example_step [where b = "0x0A000000" and c = "0x0A000000" and n = "''a''"]
      example_step [where b = "0x0A000000" and c = "0x0A000100" and n = "''b''"]
      example_unavailable example_slots empty_subnet_plan_def)

section \<open>Properties\<close>

text \<open>C1. The planned subnets of one plan parse back and are pairwise disjoint.\<close>

theorem planned_subnets_are_disjoint:
  assumes "plan_compose_isolation_subnets sha256 input = Inr plan"
    and "i < j" "j < length (sp_allocations plan)"
  shows "\<exists>c d. cidr_parse (sa_planned_subnet (sp_allocations plan ! i)) = Some c \<and>
     cidr_parse (sa_planned_subnet (sp_allocations plan ! j)) = Some d \<and>
     cidr_addresses c \<inter> cidr_addresses d = {}"
proof -
  have "sp_allocations plan \<noteq> []" using assms(3) by auto
  from plan_subnets_planned [OF assms(1) this] obtain pool vs cs where
    p: "plans input pool vs cs (sp_allocations plan)" by metis
  have len: "length cs = length (sp_allocations plan)" "length vs = length (sp_allocations plan)"
    using p by (simp_all add: plans_def)
  have ok: "cidr_ok (cs ! i)" "cidr_ok (cs ! j)"
    using plans_cidr_ok [OF p] assms len by simp_all
  have "cidr_addresses (cs ! i) \<inter> cidr_addresses (cs ! j) = {}"
    using plans_disjoint [OF p assms(2)] assms(3) len cidr_overlaps_iff [OF ok] by simp
  moreover have "sa_planned_subnet (sp_allocations plan ! i) = cidr_show (cs ! i)"
    "sa_planned_subnet (sp_allocations plan ! j) = cidr_show (cs ! j)"
    using p assms len by (simp_all add: plans_def allocation_for_def)
  ultimately show ?thesis using cidr_parse_show ok by simp
qed

theorem planned_subnets_are_disjoint_witness:
  "\<exists>c d. cidr_parse (cidr_show (example_block 0x0A000000)) = Some c \<and>
     cidr_parse (cidr_show (example_block 0x0A000100)) = Some d \<and> cidr_addresses c \<inter> cidr_addresses d = {}"
  using planned_subnets_are_disjoint [OF example_two_plan, of 0 1]
  by (simp add: example_allocation_at_def del: One_nat_def)

text \<open>C13. Each planned subnet lies in the configured pool, has the configured prefix (or
  that of the request), belongs to a request of the scan, and shares no address with any network
  of the same address space except the project's own network that it replaces.\<close>

theorem planned_subnets_fit:
  assumes "plan_compose_isolation_subnets sha256 input = Inr plan"
    and "allocation \<in> set (sp_allocations plan)"
  shows "\<exists>pool_text pool requested c.
     si_subnet_pool input = Some pool_text \<and> cidr_parse pool_text = Some pool \<and>
     requested \<in> set (scan_network_requests (si_scan input)) \<and>
     sa_network allocation = nr_network requested \<and> sa_requested_subnet allocation = nr_subnet requested \<and>
     cidr_parse (sa_planned_subnet allocation) = Some c \<and>
     cidr_addresses c \<subseteq> cidr_addresses pool \<and>
     Some (cidr_prefix c) = (case si_subnet_prefix input of Some p \<Rightarrow> Some p
        | None \<Rightarrow> map_option cidr_prefix (cidr_parse (nr_subnet requested))) \<and>
     (\<forall>network\<in>set (ds_networks (si_daemon input)). \<forall>config\<in>set (dn_ipam_configs network). \<forall>d.
        uses_same_ipam_address_space requested network \<longrightarrow>
        \<not> (dn_compose_project network = Some (si_project_name input) \<and>
           dn_compose_network network = Some (nr_network requested)) \<longrightarrow>
        Option.bind (di_subnet config) cidr_parse = Some d \<longrightarrow>
        cidr_addresses c \<inter> cidr_addresses d = {})"
proof -
  have "sp_allocations plan \<noteq> []" using assms(2) by auto
  from plan_subnets_planned [OF assms(1) this] obtain pool_text pool vs cs where
    t: "si_subnet_pool input = Some pool_text" "cidr_parse pool_text = Some pool"
    and vs: "map vr_requested vs = scan_network_requests (si_scan input)"
      "\<And>v. v \<in> set vs \<Longrightarrow> cidr_parse (nr_subnet (vr_requested v)) = Some (vr_cidr v)"
    and p: "plans input pool vs cs (sp_allocations plan)" by metis
  obtain i where i: "i < length vs" "allocation = sp_allocations plan ! i"
    using assms(2) p by (auto simp: in_set_conv_nth plans_def)
  let ?r = "vr_requested (vs ! i)" and ?c = "cs ! i"
  have a: "allocation_for (vs ! i) ?c allocation" and
    fits: "subnet_fits pool (planned_prefix input (vs ! i)) (unavailable_subnets input ?r (take i cs)) ?c"
    using p i by (simp_all add: plans_def)
  have ok: "cidr_ok ?c" "cidr_contains pool ?c" using fits by (simp_all add: subnet_fits_def)
  have r: "?r \<in> set (scan_network_requests (si_scan input))" using i(1) vs(1) by (metis length_map nth_map nth_mem)
  have prefix: "Some (cidr_prefix ?c) = (case si_subnet_prefix input of Some p \<Rightarrow> Some p
        | None \<Rightarrow> map_option cidr_prefix (cidr_parse (nr_subnet ?r)))"
    using fits vs(2) [of "vs ! i"] i(1) by (simp add: subnet_fits_def planned_prefix_def split: option.splits)
  have foreign: "cidr_addresses ?c \<inter> cidr_addresses d = {}"
    if "network \<in> set (ds_networks (si_daemon input))" "config \<in> set (dn_ipam_configs network)"
      "uses_same_ipam_address_space ?r network"
      "\<not> (dn_compose_project network = Some (si_project_name input) \<and>
         dn_compose_network network = Some (nr_network ?r))"
      "Option.bind (di_subnet config) cidr_parse = Some d" for network config d
  proof -
    have d: "d \<in> set (parsed_subnets network)" using that by (auto simp: parsed_subnets_def set_filter_map)
    have "\<not> cidr_overlaps ?c d"
      using plans_avoid_foreign [OF p i(1) that(1) _ that(3) d] that(4)
      by (simp add: is_requested_self_network_def is_self_project_def)
    then show ?thesis using cidr_overlaps_iff [OF ok(1) parsed_subnets_ok [OF d]] by simp
  qed
  have "cidr_parse (sa_planned_subnet allocation) = Some ?c" "sa_network allocation = nr_network ?r"
    "sa_requested_subnet allocation = nr_subnet ?r"
    using a cidr_parse_show [OF ok(1)] by (simp_all add: allocation_for_def)
  moreover have "cidr_addresses ?c \<subseteq> cidr_addresses pool"
    using cidr_contains_iff [OF ok(1)] ok(2) by simp
  ultimately show ?thesis using t r prefix foreign by (intro exI [of _ pool_text] exI [of _ pool] exI [of _ ?r] exI [of _ ?c]) blast
qed

theorem planned_subnets_fit_witness:
  "\<exists>pool c. cidr_parse (cidr_show example_pool) = Some pool \<and>
     cidr_parse (cidr_show (example_block 0x0A000100)) = Some c \<and> cidr_addresses c \<subseteq> cidr_addresses pool"
  using planned_subnets_fit [OF example_one_plan, of "example_allocation_at ''n'' 0x0A000000 0x0A000100"]
  by (auto simp: example_allocation_at_def example_subnets_sel)

text \<open>Gateway, ip_range and auxiliary addresses of a relocated network keep their offset
  from the network address and stay inside the planned subnet; the ip_range keeps its
  prefix.\<close>

theorem relocation_keeps_offsets:
  assumes "plan_compose_isolation_subnets sha256 input = Inr plan"
    and "\<forall>requested\<in>set (scan_network_requests (si_scan input)). bt_ok (nr_aux_addresses requested)"
    and "allocation \<in> set (sp_allocations plan)"
  shows "\<exists>requested c c'. requested \<in> set (scan_network_requests (si_scan input)) \<and>
     sa_network allocation = nr_network requested \<and>
     cidr_parse (nr_subnet requested) = Some c \<and> cidr_parse (sa_planned_subnet allocation) = Some c' \<and>
     (\<forall>g. nr_gateway requested = Some g \<longrightarrow>
        (\<exists>a a'. parse_ipv4 g = Some a \<and> sa_planned_gateway allocation = Some (show_ipv4 a') \<and>
           same_offset c a c' a')) \<and>
     (\<forall>r. nr_ip_range requested = Some r \<longrightarrow>
        (\<exists>d d'. cidr_parse r = Some d \<and> sa_planned_ip_range allocation = Some (cidr_show d') \<and>
           cidr_prefix d' = cidr_prefix d \<and> cidr_addresses d' \<subseteq> cidr_addresses c' \<and>
           same_offset c (cidr_network d) c' (cidr_network d'))) \<and>
     (\<forall>name t. (name, t) \<in> set (nr_aux_addresses requested) \<longrightarrow>
        (\<exists>a a'. parse_ip t = Some (V4 a) \<and>
           bt_get (sa_planned_aux_addresses allocation) name = Some (show_ipv4 a') \<and> same_offset c a c' a'))"
proof -
  have "sp_allocations plan \<noteq> []" using assms(3) by auto
  from plan_subnets_planned [OF assms(1) this] obtain pool vs cs where
    vs: "map vr_requested vs = scan_network_requests (si_scan input)"
      "\<And>v. v \<in> set vs \<Longrightarrow> cidr_parse (nr_subnet (vr_requested v)) = Some (vr_cidr v)"
    and p: "plans input pool vs cs (sp_allocations plan)" by metis
  obtain i where i: "i < length vs" "allocation = sp_allocations plan ! i"
    using assms(3) p by (auto simp: in_set_conv_nth plans_def)
  let ?v = "vs ! i" and ?c' = "cs ! i"
  have a: "allocation_for ?v ?c' allocation" and ok: "cidr_ok ?c'"
    using p i by (simp_all add: plans_def subnet_fits_def)
  have r: "vr_requested ?v \<in> set (scan_network_requests (si_scan input))"
    using i(1) vs(1) by (metis length_map nth_map nth_mem)
  have c: "cidr_parse (nr_subnet (vr_requested ?v)) = Some (vr_cidr ?v)" using vs(2) i(1) by simp
  have c': "cidr_parse (sa_planned_subnet allocation) = Some ?c'" "sa_network allocation = nr_network (vr_requested ?v)"
    using a cidr_parse_show [OF ok] by (simp_all add: allocation_for_def)
  note al = a [unfolded allocation_for_def]
  show ?thesis
    using relocated_gateway [of "vr_requested ?v" "vr_cidr ?v" ?c' "sa_planned_gateway allocation"]
      relocated_ip_range [of "vr_requested ?v" "vr_cidr ?v" ?c' "sa_planned_ip_range allocation", OF _ cidr_parse_ok [OF c]]
      relocated_aux_addresses [of "vr_requested ?v" "vr_cidr ?v" ?c' "sa_planned_aux_addresses allocation"]
      al assms(2) r
    by (intro exI [of _ "vr_requested ?v"] exI [of _ "vr_cidr ?v"] exI [of _ ?c'] conjI r c c') blast+
qed

theorem relocation_keeps_offsets_witness:
  "\<exists>c c' a a'. parse_ipv4 (show_ipv4 0x0A000001) = Some a \<and> same_offset c a c' a' \<and>
     show_ipv4 0x0A000101 = show_ipv4 a'"
  using relocation_keeps_offsets [OF example_one_plan, of "example_allocation_at ''n'' 0x0A000000 0x0A000100"]
  by (simp add: example_subnets_sel example_request_def example_allocation_at_def) blast

text \<open>After a successful subnet plan the effective scan has no subnet overlap left for the
  preflight to report.\<close>

theorem relocation_clears_subnet_overlaps:
  assumes "plan_compose_isolation_subnets sha256 input = Inr plan" "si_enabled input" "si_relocation input"
  shows "plan_subnet_overlaps
     \<lparr>pi_project_name = si_project_name input,
      pi_scan = apply_compose_isolation_subnet_plan (si_scan input) plan,
      pi_daemon = si_daemon input\<rparr> = []"
  using applied_request_avoids_foreign [OF assms]
  unfolding no_subnet_overlaps_iff
  by (auto simp: apply_compose_isolation_subnet_plan_def uses_same_space_applied is_requested_self_network_def
      is_self_project_def)

theorem relocation_clears_subnet_overlaps_witness:
  "plan_subnet_overlaps
     \<lparr>pi_project_name = ''p'',
      pi_scan = apply_compose_isolation_subnet_plan (si_scan (example_subnets [example_request ''n'' 0x0A000000] [example_foreign]))
        \<lparr>sp_allocations = [example_allocation_at ''n'' 0x0A000000 0x0A000100], sp_networks_to_remove = []\<rparr>,
      pi_daemon = si_daemon (example_subnets [example_request ''n'' 0x0A000000] [example_foreign])\<rparr> = []"
  using relocation_clears_subnet_overlaps [OF example_one_plan] by (simp add: example_subnets_sel)

text \<open>Planning again from the recorded state, without a rebuild and with the project's
  networks gone, gives the same plan, whatever the hash and the earlier state were.\<close>

theorem second_run_keeps_subnets:
  assumes "plan_compose_isolation_subnets sha256 input = Inr plan"
    and "\<forall>network\<in>set (ds_networks (si_daemon input)). dn_compose_project network \<noteq> Some (si_project_name input)"
  shows "plan_compose_isolation_subnets sha256'
     (input\<lparr>si_state := map persisted_subnet_of (sp_allocations plan), si_rebuild := False\<rparr>) = Inr plan"
  using assms(1)
proof (cases rule: plan_subnets_cases)
  case unused
  then show ?thesis by (auto simp: plan_compose_isolation_subnets_def)
next
  case (planned pool_text pool vs cs)
  let ?input = "input\<lparr>si_state := map persisted_subnet_of (sp_allocations plan), si_rebuild := False\<rparr>"
  note v = validate_relocation_requests_ok [OF planned(5)]
  then have "\<forall>v\<in>set vs. cidr_ok (vr_cidr v)" using cidr_parse_ok by blast
  from plan_fold [OF planned(6) cidr_parse_ok [OF planned(4)] this]
  have p: "plans input pool vs cs (sp_allocations plan)" .
  have "try_fold (plan_compose_isolation_subnet sha256' ?input pool) ([], []) vs = Inr (cs, sp_allocations plan)"
    using p persisted_subnet_is_picked [OF p _ _ assms(2)] v
    by (intro fold_of_picks) (auto simp: plans_def planned_prefix_def)
  moreover have "validate_relocation_requests ?input = Inr vs"
    using planned(5) by (simp add: validate_relocation_requests_def)
  moreover have "scan_network_requests (si_scan input) = [] \<longrightarrow> plan = empty_subnet_plan"
    using assms(1) by (auto simp: plan_compose_isolation_subnets_def)
  ultimately show ?thesis
    using planned by (auto simp: plan_compose_isolation_subnets_def empty_subnet_plan_def)
qed

theorem second_run_keeps_subnets_witness:
  "plan_compose_isolation_subnets (\<lambda>_. [255])
     (example_subnets [example_request ''n'' 0x0A000000] [example_foreign]
       \<lparr>si_state := [\<lparr>ps_network = ''n'', ps_requested_subnet = cidr_show (example_block 0x0A000000),
                     ps_planned_subnet = cidr_show (example_block 0x0A000100)\<rparr>],
        si_rebuild := False\<rparr>) =
     Inr \<lparr>sp_allocations = [example_allocation_at ''n'' 0x0A000000 0x0A000100], sp_networks_to_remove = []\<rparr>"
  using second_run_keeps_subnets [OF example_one_plan, of "\<lambda>_. [255]"]
  by (simp add: example_subnets_sel example_foreign_def persisted_subnet_of_def example_allocation_at_def)

text \<open>The networks a finalized plan removes are exactly the project's own networks whose
  IPAM differs from their allocation, and none of them has attached containers; the allocations
  are unchanged.\<close>

theorem recreated_networks_are_stale_and_detached:
  assumes "finalize_compose_isolation_subnet_plan input plan = Inr plan'"
  shows "sp_allocations plan' = sp_allocations plan \<and>
     (\<forall>name. name \<in> set (sp_networks_to_remove plan') \<longleftrightarrow>
        (\<exists>allocation\<in>set (sp_allocations plan). \<exists>n\<in>set (ds_networks (si_daemon input)).
           dn_name n = name \<and> dn_compose_project n = Some (si_project_name input) \<and>
           dn_compose_network n = Some (sa_network allocation) \<and> \<not> dn_has_attached_containers n \<and>
           (\<forall>config\<in>set (dn_ipam_configs n). \<not> docker_ipam_matches_allocation config allocation)))"
proof -
  obtain removals where r: "networks_to_recreate input (sp_allocations plan) = Inr removals"
      "plan' = plan\<lparr>sp_networks_to_remove := removals\<rparr>"
    using assms by (auto simp: finalize_compose_isolation_subnet_plan_def bind_res_Inr_iff)
  have plan': "sp_allocations plan' = sp_allocations plan" "sp_networks_to_remove plan' = removals"
    by (simp_all add: r(2))
  note ok = networks_to_recreate_ok [OF r(1), unfolded is_requested_self_network_def is_self_project_def list_ex_iff]
  show ?thesis
  proof (intro conjI allI plan' iffI)
    fix name assume "name \<in> set (sp_networks_to_remove plan')"
    then obtain a n where an: "a \<in> set (sp_allocations plan)" "n \<in> set (ds_networks (si_daemon input))" "name = dn_name n"
        "dn_compose_project n = Some (si_project_name input)" "dn_compose_network n = Some (sa_network a)"
        "\<not> (\<exists>config\<in>set (dn_ipam_configs n). docker_ipam_matches_allocation config a)"
      using ok [THEN conjunct1] unfolding plan' by blast
    moreover have "\<not> dn_has_attached_containers n" using ok [THEN conjunct2] an by blast
    ultimately show "\<exists>allocation\<in>set (sp_allocations plan). \<exists>n\<in>set (ds_networks (si_daemon input)).
           dn_name n = name \<and> dn_compose_project n = Some (si_project_name input) \<and>
           dn_compose_network n = Some (sa_network allocation) \<and> \<not> dn_has_attached_containers n \<and>
           (\<forall>config\<in>set (dn_ipam_configs n). \<not> docker_ipam_matches_allocation config allocation)"
      by blast
  next
    fix name assume "\<exists>allocation\<in>set (sp_allocations plan). \<exists>n\<in>set (ds_networks (si_daemon input)).
           dn_name n = name \<and> dn_compose_project n = Some (si_project_name input) \<and>
           dn_compose_network n = Some (sa_network allocation) \<and> \<not> dn_has_attached_containers n \<and>
           (\<forall>config\<in>set (dn_ipam_configs n). \<not> docker_ipam_matches_allocation config allocation)"
    then show "name \<in> set (sp_networks_to_remove plan')"
      using ok [THEN conjunct1] unfolding plan' by blast
  qed
qed

theorem recreated_networks_are_stale_and_detached_witness:
  "''p_net'' \<in> set (sp_networks_to_remove
     \<lparr>sp_allocations = [example_allocation_at ''net'' 0x0A000000 0x0A000100], sp_networks_to_remove = [''p_net'']\<rparr>)"
proof -
  let ?n = "example_foreign\<lparr>dn_name := ''p_net'', dn_compose_project := Some ''p'', dn_has_attached_containers := False\<rparr>"
  let ?plan = "\<lparr>sp_allocations = [example_allocation_at ''net'' 0x0A000000 0x0A000100], sp_networks_to_remove = []\<rparr>"
  have differ: "example_block 0x0A000000 \<noteq> example_block 0x0A000100" by (simp add: example_block_def)
  have "finalize_compose_isolation_subnet_plan (example_subnets [] [?n]) ?plan =
      Inr (?plan\<lparr>sp_networks_to_remove := [''p_net'']\<rparr>)"
    using differ by (simp add: finalize_compose_isolation_subnet_plan_def networks_to_recreate_def recreate_step_def
        is_requested_self_network_def is_self_project_def docker_ipam_matches_allocation_def
        example_subnets_sel example_allocation_at_def example_foreign_def insort_insert_key_def)
  from recreated_networks_are_stale_and_detached [OF this] show ?thesis
    using differ by (simp add: example_subnets_sel example_allocation_at_def example_foreign_def
        docker_ipam_matches_allocation_def)
qed

end
