(* ===== verification/Isolation_Endpoints.thy ===== *)
theory Isolation_Endpoints
  imports Isolation_Plan
begin

text \<open>
  \<open>endpoints.rs\<close>: environment values that name a network by a placeholder
  \<open>${decune.network.<name>.gateway}\<close> or \<open>.subnet\<close> are rendered with the planned addresses, and values
  that still hold an original address of a relocated network are reported. A mutable reference
  into the allocations is the zipper around it.
\<close>

section \<open>Placeholders\<close>

datatype endpoint_value_kind = Gateway_Value | Subnet_Value

record endpoint_placeholder =
  ph_text :: string
  ph_network :: string
  ph_kind :: endpoint_value_kind

text \<open>The literals of the parser.\<close>

definition placeholder_start :: string where
  "placeholder_start = ''${decune''"

definition placeholder_network :: string where
  "placeholder_network = ''decune.network.''"

definition unknown_placeholder :: "string \<Rightarrow> string" where
  "unknown_placeholder placeholder_text =
     fmt [compose_clone_isolation_invalid, '': endpoint value contains unknown placeholder `'', placeholder_text, ''`'']"

definition parse_placeholder :: "string \<Rightarrow> endpoint_placeholder result" where
  "parse_placeholder body_suffix =
     (let body = ''decune'' @ body_suffix;
          placeholder_text = ''${'' @ body @ ''}''
      in case strip_prefix placeholder_network body of
           None \<Rightarrow> Inl (unknown_placeholder placeholder_text)
         | Some network_and_kind \<Rightarrow>
             (case (case strip_suffix ''.gateway'' network_and_kind of
                      Some network \<Rightarrow> Some (network, Gateway_Value)
                    | None \<Rightarrow>
                        (case strip_suffix ''.subnet'' network_and_kind of
                           Some network \<Rightarrow> Some (network, Subnet_Value)
                         | None \<Rightarrow> None)) of
                None \<Rightarrow> Inl (unknown_placeholder placeholder_text)
              | Some (network, kind) \<Rightarrow>
                  if network = [] then Inl (unknown_placeholder placeholder_text)
                  else Inr \<lparr>ph_text = placeholder_text, ph_network = network, ph_kind = kind\<rparr>))"

function endpoint_placeholders :: "string \<Rightarrow> endpoint_placeholder list result" where
  "endpoint_placeholders remaining =
     (case split_once placeholder_start remaining of
        None \<Rightarrow> Inr []
      | Some (before, after_start) \<Rightarrow>
          (case split_once ''}'' after_start of
             None \<Rightarrow> Inl (fmt [compose_clone_isolation_invalid,
                              '': endpoint value contains an unterminated decune placeholder''])
           | Some (body_suffix, rest) \<Rightarrow>
               bind_res (parse_placeholder body_suffix) (\<lambda>placeholder.
               bind_res (endpoint_placeholders rest) (\<lambda>placeholders.
               Inr (placeholder # placeholders)))))"
  by pat_completeness auto
termination
  by (relation "measure length") (auto dest!: split_once_SomeD simp: placeholder_start_def)

declare endpoint_placeholders.simps [simp del]

section \<open>Rendering\<close>

fun endpoint_allocation ::
  "subnet_allocation list \<Rightarrow> string \<Rightarrow>
   (subnet_allocation list \<times> subnet_allocation \<times> subnet_allocation list) option" where
  "endpoint_allocation [] network = None"
| "endpoint_allocation (allocation # allocations) network =
     (if sa_network allocation = network then Some ([], allocation, allocations)
      else map_option (\<lambda>(before, found, after). (allocation # before, found, after))
             (endpoint_allocation allocations network))"

definition planned_gateway :: "subnet_allocation \<Rightarrow> (string \<times> subnet_allocation) result" where
  "planned_gateway allocation =
     (case sa_planned_gateway allocation of
        Some gateway \<Rightarrow> Inr (gateway, allocation)
      | None \<Rightarrow>
          bind_res (ok_or (cidr_parse (sa_planned_subnet allocation))
            (fmt [compose_clone_isolation_invalid, '': planned subnet for Compose network `'', sa_network allocation,
               ''` is not a valid IPv4 CIDR: '', sa_planned_subnet allocation])) (\<lambda>subnet.
          bind_res (ok_or (cidr_address_at_offset subnet 1)
            (fmt [compose_clone_isolation_invalid, '': planned subnet '', sa_planned_subnet allocation,
               '' for Compose network `'', sa_network allocation,
               ''` has no first host address for endpoint gateway derivation''])) (\<lambda>gateway.
          Inr (show_ipv4 gateway, allocation\<lparr>sa_planned_gateway := Some (show_ipv4 gateway)\<rparr>))))"

definition render_placeholder ::
  "compose_config_model \<Rightarrow> bool \<Rightarrow> endpoint_declaration \<Rightarrow> string \<times> subnet_allocation list \<Rightarrow>
   endpoint_placeholder \<Rightarrow> (string \<times> subnet_allocation list) result" where
  "render_placeholder model network_relocation_enabled declaration so_far placeholder =
     (if \<not> has_network model (ph_network placeholder)
      then Inl (fmt [compose_clone_isolation_invalid, '': endpoint declaration references missing Compose network `'',
             ph_network placeholder, ''`; service `'', ed_service declaration, ''`; environment variable `'',
             ed_env declaration, ''`''])
      else
        bind_res (ok_or (endpoint_allocation (snd so_far) (ph_network placeholder))
          (if network_relocation_enabled
           then fmt [compose_clone_isolation_invalid, '': endpoint declaration references Compose network `'',
                  ph_network placeholder, ''` that is not a network relocation target; service `'',
                  ed_service declaration, ''`; environment variable `'', ed_env declaration, ''`'']
           else fmt [compose_clone_isolation_invalid, '': endpoint declaration cannot render Compose network `'',
                  ph_network placeholder,
                  ''` because network relocation is disabled; set compose.clone_isolation.networks.relocation = true; service `'',
                  ed_service declaration, ''`; environment variable `'', ed_env declaration, ''`''])) (\<lambda>(before, allocation, after).
        bind_res (case ph_kind placeholder of
                    Subnet_Value \<Rightarrow> Inr (sa_planned_subnet allocation, allocation)
                  | Gateway_Value \<Rightarrow> planned_gateway allocation) (\<lambda>(replacement, allocation').
        Inr (str_replace (ph_text placeholder) replacement (fst so_far), before @ allocation' # after))))"

definition plan_endpoint ::
  "compose_config_model \<Rightarrow> bool \<Rightarrow> endpoint_plan \<times> subnet_allocation list \<Rightarrow> endpoint_declaration \<Rightarrow>
   (endpoint_plan \<times> subnet_allocation list) result" where
  "plan_endpoint model network_relocation_enabled so_far declaration =
     (if \<not> has_service model (ed_service declaration)
      then Inl (fmt [compose_clone_isolation_invalid, '': endpoint declaration references missing Compose service `'',
             ed_service declaration, ''`; environment variable `'', ed_env declaration, ''`''])
      else
        bind_res (endpoint_placeholders (ed_value declaration)) (\<lambda>placeholders.
        bind_res (try_fold (render_placeholder model network_relocation_enabled declaration)
                    (ed_value declaration, snd so_far) placeholders) (\<lambda>(rendered, allocations).
        let services = ep_services (fst so_far);
            service = (case bt_get services (ed_service declaration) of Some m \<Rightarrow> m | None \<Rightarrow> [])
        in Inr (\<lparr>ep_services = bt_insert (ed_service declaration)
                   (bt_insert (ed_env declaration) rendered service) services\<rparr>, allocations))))"

section \<open>Values that still hold an original address\<close>

definition digit_or_dot :: "char \<Rightarrow> bool" where
  "digit_or_dot ch \<longleftrightarrow> is_ascii_digit ch \<or> ch = CHR ''.''"

definition contains_address_token :: "string \<Rightarrow> string \<Rightarrow> bool" where
  "contains_address_token value address =
     list_ex (\<lambda>(before, after). (before = [] \<or> \<not> digit_or_dot (last before)) \<and>
                               (after = [] \<or> \<not> digit_or_dot (hd after)))
       (match_splits address [] value)"

text \<open>The set of visited services makes the recursion end: each call visits a service of the model for
  the first time.\<close>

function service_uses_network_inner ::
  "compose_config_model \<Rightarrow> string \<Rightarrow> string \<Rightarrow> string list \<Rightarrow> bool" where
  "service_uses_network_inner model service_name network visited =
     (if service_name \<in> set visited then False
      else case model_service model service_name of
             None \<Rightarrow> False
           | Some service \<Rightarrow>
               if list_ex (\<lambda>name. name = network) (network_names service) then True
               else case Option.bind (svc_network_mode service) (strip_prefix ''service:'') of
                      None \<Rightarrow> False
                    | Some shared_service \<Rightarrow>
                        service_uses_network_inner model shared_service network (service_name # visited))"
  by pat_completeness auto
termination
proof (relation "measure (\<lambda>(model, name, network, visited). card (fst ` set (cm_services model) - set visited))")
  fix model :: compose_config_model and service_name network visited and service :: compose_config_service
    and shared_service :: string
  assume "service_name \<notin> set visited" "model_service model service_name = Some service"
  then have "service_name \<in> fst ` set (cm_services model) - set visited"
    by (force simp: model_service_def dest: bt_get_SomeD)
  then have "card (fst ` set (cm_services model) - set visited - {service_name}) <
      card (fst ` set (cm_services model) - set visited)"
    by (intro card_Diff1_less) auto
  moreover have "fst ` set (cm_services model) - set (service_name # visited) =
      fst ` set (cm_services model) - set visited - {service_name}" by auto
  ultimately show "((model, shared_service, network, service_name # visited), model, service_name, network, visited)
      \<in> measure (\<lambda>(model, name, network, visited). card (fst ` set (cm_services model) - set visited))"
    by simp
qed simp

declare service_uses_network_inner.simps [simp del]

definition service_uses_network :: "compose_config_model \<Rightarrow> string \<Rightarrow> string \<Rightarrow> bool" where
  "service_uses_network model service network = service_uses_network_inner model service network []"

definition original_addresses :: "network_request \<Rightarrow> string list" where
  "original_addresses requested =
     bs_collect
       ((case cidr_parse (nr_subnet requested) of Some cidr \<Rightarrow> [show_ipv4 (cidr_network cidr)] | None \<Rightarrow> []) @
        (case nr_gateway requested of Some gateway \<Rightarrow> [gateway] | None \<Rightarrow> []))"

definition effective_environment ::
  "endpoint_plan \<Rightarrow> string \<Rightarrow> compose_config_service \<Rightarrow> (string, string) btree_map" where
  "effective_environment endpoint_plan service_name service =
     (let environment = bt_collect (environment_values service)
      in case bt_get (ep_services endpoint_plan) service_name of
           Some overrides \<Rightarrow> bt_extend environment overrides
         | None \<Rightarrow> environment)"

definition stale_endpoints_of ::
  "compose_config_model \<Rightarrow> endpoint_plan \<Rightarrow> subnet_allocation \<Rightarrow> network_request \<Rightarrow>
   (string \<times> string \<times> string \<times> string) list" where
  "stale_endpoints_of model endpoint_plan allocation requested =
     concat (map (\<lambda>(service_name, service).
       if \<not> service_uses_network model service_name (sa_network allocation) then []
       else concat (map (\<lambda>(env, value).
              map (\<lambda>address. (service_name, env, sa_network allocation, address))
                (filter (contains_address_token value) (original_addresses requested)))
            (effective_environment endpoint_plan service_name service)))
     (cm_services model))"

definition stale_endpoint_findings ::
  "compose_config_model \<Rightarrow> isolation_scan \<Rightarrow> subnet_allocation list \<Rightarrow> endpoint_plan \<Rightarrow>
   isolation_finding list" where
  "stale_endpoint_findings model scan allocations endpoint_plan =
     map (\<lambda>(service, env, network, address). Endpoint_Unsafe service env network address)
       (bs_collect (concat (map (\<lambda>allocation.
          case List.find (\<lambda>requested. nr_network requested = sa_network allocation \<and>
                                      nr_subnet requested = sa_requested_subnet allocation)
                 (scan_network_requests scan) of
            None \<Rightarrow> []
          | Some requested \<Rightarrow> stale_endpoints_of model endpoint_plan allocation requested)
        (filter sa_relocated allocations))))"

definition plan_compose_isolation_endpoints ::
  "compose_config_model \<Rightarrow> isolation_scan \<Rightarrow> endpoint_declaration list \<Rightarrow> bool \<Rightarrow> subnet_plan \<Rightarrow>
   (endpoint_plan \<times> isolation_finding list \<times> subnet_plan) result" where
  "plan_compose_isolation_endpoints model scan declarations network_relocation_enabled plan =
     bind_res (try_fold (plan_endpoint model network_relocation_enabled)
                 (\<lparr>ep_services = []\<rparr>, sp_allocations plan) declarations) (\<lambda>(endpoint_plan, allocations).
     Inr (endpoint_plan, stale_endpoint_findings model scan allocations endpoint_plan,
          plan\<lparr>sp_allocations := allocations\<rparr>))"

section \<open>Address tokens\<close>

text \<open>An occurrence that overlaps an earlier one is preceded by a character of the address, so skipping it loses
  no token.\<close>

lemma match_splits_complete:
  assumes "\<forall>ch\<in>set p. digit_or_dot ch" "p \<noteq> []" "s = x @ p @ y" "x = [] \<or> \<not> digit_or_dot (last x)"
  shows "(before @ x, y) \<in> set (match_splits p before s)"
  using assms
proof (induction p before s arbitrary: x rule: match_splits.induct)
  case (1 p before s)
  obtain u v where uv: "split_once p s = Some (u, v)"
    using split_once_NoneD [of p s x y] "1.prems"(3) by (cases "split_once p s") auto
  have s: "s = u @ p @ v" using split_once_SomeD [OF uv] .
  have le: "length u \<le> length x" using split_once_first [OF uv "1.prems"(3)] .
  show ?case
  proof (cases "length u = length x")
    case True
    then have "u = x" "v = y" using s "1.prems"(3) by auto
    then show ?thesis using uv "1.prems"(2) by (simp add: match_splits.simps [of p before s])
  next
    case False
    then have lt: "length u < length x" using le by simp
    obtain w where w: "x = u @ w" "w \<noteq> []"
      using s "1.prems"(3) lt by (metis append_eq_append_conv_if append_take_drop_id less_irrefl append_Nil2
          less_imp_le_nat)
    have pv: "p @ v = w @ p @ y" using s "1.prems"(3) w by simp
    have "length p \<le> length w"
    proof (rule ccontr)
      assume "\<not> length p \<le> length w"
      then have "w = take (length w) p" using pv by (metis append_eq_append_conv_if nat_le_linear)
      then have "last w \<in> set p" using w(2) by (metis in_set_takeD last_in_set)
      then show False using "1.prems"(1,4) w by simp
    qed
    then obtain x' where x': "w = p @ x'" "v = x' @ p @ y"
      using pv by (metis append_eq_append_conv_if append_take_drop_id append_assoc append_same_eq same_append_eq)
    have last: "x' = [] \<or> \<not> digit_or_dot (last x')"
      using "1.prems"(4) w x' by auto
    have "((before @ u @ p) @ x', y) \<in> set (match_splits p (before @ u @ p) v)"
      using "1.IH" [OF "1.prems"(2) uv refl "1.prems"(1,2) x'(2) last] .
    then show ?thesis using uv "1.prems"(2) w x' by (simp add: match_splits.simps [of p before s])
  qed
qed

lemma split_paired_Bex_iff: "(\<exists>p\<in>A. P p) \<longleftrightarrow> (\<exists>x y. (x, y) \<in> A \<and> P (x, y))"
  by force

lemma contains_address_token_iff:
  assumes "\<forall>ch\<in>set address. digit_or_dot ch" "address \<noteq> []"
  shows "contains_address_token value address \<longleftrightarrow>
     (\<exists>before after. value = before @ address @ after \<and>
        (before = [] \<or> \<not> digit_or_dot (last before)) \<and> (after = [] \<or> \<not> digit_or_dot (hd after)))"
proof -
  have "contains_address_token value address \<longleftrightarrow>
      (\<exists>before after. (before, after) \<in> set (match_splits address [] value) \<and>
        (before = [] \<or> \<not> digit_or_dot (last before)) \<and> (after = [] \<or> \<not> digit_or_dot (hd after)))"
    unfolding contains_address_token_def list_ex_iff by (simp only: split_paired_Bex_iff case_prod_conv)
  also have "\<dots> \<longleftrightarrow> (\<exists>before after. value = before @ address @ after \<and>
        (before = [] \<or> \<not> digit_or_dot (last before)) \<and> (after = [] \<or> \<not> digit_or_dot (hd after)))"
    using match_splits_complete [OF assms, of "value" _ _ "[]"] match_splits_sound [of _ _ address "[]" "value"]
    unfolding append_Nil by metis
  finally show ?thesis .
qed

section \<open>Networks through another service\<close>

text \<open>\<open>network_mode: service:t\<close> shares the network namespace of \<open>t\<close>.\<close>

definition shares_network :: "compose_config_model \<Rightarrow> (string \<times> string) set" where
  "shares_network model = {(s, t). \<exists>service. model_service model s = Some service \<and>
     svc_network_mode service = Some (''service:'' @ t)}"

definition on_network :: "compose_config_model \<Rightarrow> string \<Rightarrow> string \<Rightarrow> bool" where
  "on_network model network s \<longleftrightarrow>
     (\<exists>service. model_service model s = Some service \<and> network \<in> set (network_names service))"

lemma service_uses_network_inner_iff:
  assumes "\<forall>v\<in>set visited. \<not> on_network model network v \<and>
      (\<forall>w. (v, w) \<in> shares_network model \<longrightarrow> w \<in> insert service_name (set visited))"
  shows "service_uses_network_inner model service_name network visited \<longleftrightarrow>
     (\<exists>t. (service_name, t) \<in> (shares_network model)\<^sup>* \<and> on_network model network t)"
  using assms
proof (induction model service_name network visited rule: service_uses_network_inner.induct)
  case (1 model service_name network visited)
  let ?R = "shares_network model"
  note unfold = service_uses_network_inner.simps [of model service_name network visited]
  show ?case
  proof (cases "service_name \<in> set visited")
    case True
    have "(service_name, t) \<in> ?R\<^sup>* \<Longrightarrow> t \<in> set visited" for t
      by (induction rule: rtrancl_induct) (use "1.prems" True in auto)
    then show ?thesis using True "1.prems" by (auto simp: unfold)
  next
    case new: False
    show ?thesis
    proof (cases "model_service model service_name")
      case None
      then have "\<nexists>u. (service_name, u) \<in> ?R" by (simp add: shares_network_def)
      then have "(service_name, t) \<in> ?R\<^sup>* \<Longrightarrow> t = service_name" for t
        by (metis converse_rtranclE)
      then show ?thesis using None new by (simp add: unfold on_network_def) (metis option.distinct(1))
    next
      case (Some service)
      show ?thesis
      proof (cases "network \<in> set (network_names service)")
        case True
        then show ?thesis using Some new by (auto simp: unfold list_ex_iff on_network_def)
      next
        case off: False
        then have here: "\<not> on_network model network service_name" using Some by (simp add: on_network_def)
        have next_iff: "(service_name, t) \<in> ?R \<longleftrightarrow>
            Option.bind (svc_network_mode service) (strip_prefix ''service:'') = Some t" for t
          unfolding shares_network_def bind_eq_Some_conv strip_prefix_Some_iff using Some by auto
        have reach: "(\<exists>t. (service_name, t) \<in> ?R\<^sup>* \<and> on_network model network t) \<longleftrightarrow>
            (\<exists>u. (service_name, u) \<in> ?R \<and> (\<exists>t. (u, t) \<in> ?R\<^sup>* \<and> on_network model network t))"
          using here by (metis converse_rtranclE converse_rtrancl_into_rtrancl)
        show ?thesis
        proof (cases "Option.bind (svc_network_mode service) (strip_prefix ''service:'')")
          case None
          then have "\<not> (\<exists>u. (service_name, u) \<in> ?R)" using next_iff by simp
          then show ?thesis
            unfolding reach using None Some new off by (simp add: unfold list_ex_iff)
        next
          case (Some t)
          have inv: "\<forall>v\<in>set (service_name # visited). \<not> on_network model network v \<and>
              (\<forall>w. (v, w) \<in> ?R \<longrightarrow> w \<in> insert t (set (service_name # visited)))"
            using "1.prems" here next_iff Some by auto
          have off': "\<not> list_ex (\<lambda>name. name = network) (network_names service)"
            using off by (auto simp: list_ex_iff)
          have "service_uses_network_inner model service_name network visited =
              service_uses_network_inner model t network (service_name # visited)"
            using \<open>model_service model service_name = Some service\<close> Some new off' by (simp add: unfold)
          also have "\<dots> \<longleftrightarrow> (\<exists>u. (t, u) \<in> ?R\<^sup>* \<and> on_network model network u)"
            by (rule "1.IH" [OF new \<open>model_service model service_name = Some service\<close> off' Some inv])
          also have "\<dots> \<longleftrightarrow> (\<exists>t. (service_name, t) \<in> ?R\<^sup>* \<and> on_network model network t)"
            unfolding reach next_iff Some by auto
          finally show ?thesis .
        qed
      qed
    qed
  qed
qed

lemma service_uses_network_iff:
  "service_uses_network model service network \<longleftrightarrow>
     (\<exists>t. (service, t) \<in> (shares_network model)\<^sup>* \<and> on_network model network t)"
  unfolding service_uses_network_def by (rule service_uses_network_inner_iff) simp

section \<open>Rendering as simultaneous substitution\<close>

text \<open>
  The reference reading of a value: cut it at the placeholders and put the replacement of each in its
  place. The code replaces one placeholder text after the other in the whole value; the two agree
  when no replacement and no network name holds a dollar sign.
\<close>

function substitute :: "(endpoint_placeholder \<Rightarrow> string) \<Rightarrow> string \<Rightarrow> string" where
  "substitute replacement remaining =
     (case split_once placeholder_start remaining of
        None \<Rightarrow> remaining
      | Some (before, after_start) \<Rightarrow>
          (case split_once ''}'' after_start of
             None \<Rightarrow> remaining
           | Some (body_suffix, rest) \<Rightarrow>
               (case parse_placeholder body_suffix of
                  Inl e \<Rightarrow> remaining
                | Inr placeholder \<Rightarrow> before @ replacement placeholder @ substitute replacement rest)))"
  by pat_completeness auto
termination
  by (relation "measure (\<lambda>(r, s). length s)") (auto dest!: split_once_SomeD simp: placeholder_start_def)

declare substitute.simps [simp del]

definition placeholder_parts :: "string \<Rightarrow> (string \<times> endpoint_value_kind) option" where
  "placeholder_parts network_and_kind =
     (case strip_suffix ''.gateway'' network_and_kind of
        Some network \<Rightarrow> Some (network, Gateway_Value)
      | None \<Rightarrow>
          (case strip_suffix ''.subnet'' network_and_kind of
             Some network \<Rightarrow> Some (network, Subnet_Value)
           | None \<Rightarrow> None))"

lemma parse_placeholder_InrD:
  assumes "parse_placeholder b = Inr ph"
  shows "\<exists>rest. ''decune'' @ b = placeholder_network @ rest \<and>
     placeholder_parts rest = Some (ph_network ph, ph_kind ph) \<and>
     ph_text ph = ''${'' @ (''decune'' @ b) @ ''}''"
proof -
  define body where "body = ''decune'' @ b"
  have p: "(case strip_prefix placeholder_network body of
           None \<Rightarrow> Inl (unknown_placeholder (''${'' @ body @ ''}''))
         | Some network_and_kind \<Rightarrow>
             (case placeholder_parts network_and_kind of
                None \<Rightarrow> Inl (unknown_placeholder (''${'' @ body @ ''}''))
              | Some (network, kind) \<Rightarrow>
                  if network = [] then Inl (unknown_placeholder (''${'' @ body @ ''}''))
                  else Inr \<lparr>ph_text = ''${'' @ body @ ''}'', ph_network = network, ph_kind = kind\<rparr>)) = Inr ph"
    using assms unfolding parse_placeholder_def Let_def placeholder_parts_def body_def by blast
  obtain rest where rest: "strip_prefix placeholder_network body = Some rest"
    using p by (cases "strip_prefix placeholder_network body") simp_all
  obtain network kind where nk: "placeholder_parts rest = Some (network, kind)"
    using p rest by (cases "placeholder_parts rest") auto
  have "ph = \<lparr>ph_text = ''${'' @ body @ ''}'', ph_network = network, ph_kind = kind\<rparr>"
    using p unfolding rest nk option.case prod.case by (cases "network = []") simp_all
  with rest nk show ?thesis
    unfolding strip_prefix_Some_iff body_def by (intro exI [of _ rest]) (simp only: endpoint_placeholder.simps simp_thms)
qed

lemma parse_placeholder_text: "parse_placeholder b = Inr ph \<Longrightarrow> ph_text ph = placeholder_start @ b @ ''}''"
  by (drule parse_placeholder_InrD) (auto simp: placeholder_start_def)

lemma parse_placeholder_dollar:
  assumes "parse_placeholder b = Inr ph" "CHR ''$'' \<notin> set (ph_network ph)"
  shows "CHR ''$'' \<notin> set b"
proof -
  obtain rest where rest: "''decune'' @ b = placeholder_network @ rest" "placeholder_parts rest = Some (ph_network ph, ph_kind ph)"
    using parse_placeholder_InrD [OF assms(1)] by blast
  obtain suffix where suffix: "rest = ph_network ph @ suffix" "suffix \<in> {''.gateway'', ''.subnet''}"
  proof (cases "strip_suffix ''.gateway'' rest")
    case (Some n)
    then have "n = ph_network ph" using rest(2) by (simp add: placeholder_parts_def)
    then show ?thesis using Some that [of "''.gateway''"] by (simp only: strip_suffix_Some_iff) simp
  next
    case None
    then have "strip_suffix ''.subnet'' rest = Some (ph_network ph)"
      using rest(2) by (cases "strip_suffix ''.subnet'' rest") (simp_all add: placeholder_parts_def)
    then show ?thesis
      using that [of "''.subnet''"] by (simp only: strip_suffix_Some_iff) simp
  qed
  have "set b \<subseteq> set placeholder_network \<union> set (ph_network ph) \<union> set suffix"
    using rest(1) suffix(1) by (metis append_assoc set_append sup.cobounded2)
  moreover have "CHR ''$'' \<notin> set placeholder_network" "CHR ''$'' \<notin> set suffix"
    using suffix(2) by (auto simp: placeholder_network_def)
  ultimately show ?thesis using assms(2) by blast
qed

lemma parse_placeholder_inj:
  assumes "parse_placeholder b = Inr ph" "parse_placeholder b' = Inr ph'" "ph_text ph = ph_text ph'"
  shows "ph = ph'"
  using assms parse_placeholder_text [OF assms(1)] parse_placeholder_text [OF assms(2)] by simp

section \<open>Replacing one placeholder\<close>

text \<open>Text before which no occurrence of the pattern begins is left alone.\<close>

lemma split_once_skip:
  assumes "p \<noteq> []" "\<And>i. i < length l \<Longrightarrow> strip_prefix p (drop i (l @ r)) = None"
  shows "split_once p (l @ r) = map_option (\<lambda>(a, b). (l @ a, b)) (split_once p r)"
  using assms(2)
proof (induction l)
  case (Cons c l)
  have "strip_prefix p (c # l @ r) = None" using Cons.prems [of 0] by simp
  moreover have "split_once p (l @ r) = map_option (\<lambda>(a, b). (l @ a, b)) (split_once p r)"
    using Cons.prems [of "Suc i" for i] by (intro Cons.IH) simp
  ultimately show ?case by (cases "split_once p r") auto
qed (auto simp: option.map_ident_strong)

lemma str_replace_skip:
  assumes "p \<noteq> []" "\<And>i. i < length l \<Longrightarrow> strip_prefix p (drop i (l @ r)) = None"
  shows "str_replace p t (l @ r) = l @ str_replace p t r"
  using split_once_skip [OF assms] assms(1)
  by (cases "split_once p r") (auto simp: str_replace.simps [of p t])

lemma str_replace_hit: "p \<noteq> [] \<Longrightarrow> str_replace p t (p @ r) = t @ str_replace p t r"
  by (simp add: str_replace.simps [of p t "p @ r"] split_once_prefix)

definition address_text :: "string \<Rightarrow> bool" where
  "address_text t \<longleftrightarrow> t \<noteq> [] \<and> (\<forall>c\<in>set t. digit_or_dot c \<or> c = CHR ''/'')"

text \<open>The text of a placeholder: dollar only at its head, closing brace only at its end.\<close>

definition placeholder_text :: "string \<Rightarrow> bool" where
  "placeholder_text p \<longleftrightarrow>
     (\<exists>b. p = placeholder_start @ b @ ''}'' \<and> CHR ''$'' \<notin> set b \<and> CHR ''}'' \<notin> set b)"

lemma address_text_chars: "address_text t \<Longrightarrow> c \<in> set t \<Longrightarrow> c \<notin> set placeholder_start"
  by (auto simp: address_text_def placeholder_start_def digit_or_dot_def is_ascii_digit_def)

lemma placeholder_start_shape: "placeholder_start = CHR ''$'' # ''{decune''"
  by (simp add: placeholder_start_def)

lemma placeholder_text_not_address: "placeholder_text p \<Longrightarrow> \<not> address_text p"
  using address_text_chars [of p "CHR ''$''"] by (auto simp: placeholder_text_def placeholder_start_shape)

lemma no_hit_in_literal:
  assumes p: "placeholder_text p" and l: "split_once placeholder_start l = None"
    and r: "r = [] \<or> hd r \<notin> set ''{decune''" and i: "i < length l"
  shows "strip_prefix p (drop i (l @ r)) = None"
proof (rule ccontr)
  assume "strip_prefix p (drop i (l @ r)) \<noteq> None"
  then obtain z where z: "drop i l @ r = p @ z" using i by (auto simp: strip_prefix_Some_iff)
  obtain b where b: "p = placeholder_start @ b @ ''}''" using p by (auto simp: placeholder_text_def)
  have "drop i l \<noteq> []" using i by simp
  show False
  proof (cases "length placeholder_start \<le> length (drop i l)")
    case True
    then have "take (length placeholder_start) (drop i l) = placeholder_start"
      using arg_cong [OF z, of "take (length placeholder_start)"] b by simp
    then have "l = take i l @ placeholder_start @ drop (length placeholder_start) (drop i l)"
      by (metis append_take_drop_id)
    then show False using split_once_NoneD [OF l] by blast
  next
    case False
    then have "r \<noteq> []" using z b by (auto dest: arg_cong [of _ _ length])
    let ?k = "length (drop i l)"
    have k: "0 < ?k" "?k < length placeholder_start" using False \<open>drop i l \<noteq> []\<close> by auto
    have "hd r = (drop i l @ r) ! ?k" using \<open>r \<noteq> []\<close> by (simp add: nth_append hd_conv_nth)
    also have "\<dots> = placeholder_start ! ?k" using z b k(2) by (simp add: nth_append)
    also have "\<dots> \<in> set ''{decune''"
      using k unfolding placeholder_start_shape by (metis Suc_pred length_Cons not_less_eq nth_Cons_Suc nth_mem)
    finally show False using r \<open>r \<noteq> []\<close> by simp
  qed
qed

lemma no_hit_in_address:
  assumes p: "placeholder_text p" and a: "address_text a" and i: "i < length a"
  shows "strip_prefix p (drop i (a @ r)) = None"
proof (rule ccontr)
  assume "strip_prefix p (drop i (a @ r)) \<noteq> None"
  then obtain z where z: "drop i a @ r = p @ z" using i by (auto simp: strip_prefix_Some_iff)
  have "hd (drop i a @ r) = a ! i" using i by (simp add: hd_append hd_drop_conv_nth)
  moreover have "hd (p @ z) = CHR ''$''" using p by (auto simp: placeholder_text_def placeholder_start_shape)
  ultimately show False
    using z address_text_chars [OF a, of "a ! i"] i by (simp add: placeholder_start_shape)
qed

lemma no_hit_in_placeholder:
  assumes p: "placeholder_text p" and q: "placeholder_text q" and "p \<noteq> q" and i: "i < length q"
  shows "strip_prefix p (drop i (q @ r)) = None"
proof (rule ccontr)
  assume "strip_prefix p (drop i (q @ r)) \<noteq> None"
  then obtain z where z: "drop i q @ r = p @ z" using i by (auto simp: strip_prefix_Some_iff)
  obtain b where b: "p = placeholder_start @ b @ ''}''" "CHR ''}'' \<notin> set b" using p by (auto simp: placeholder_text_def)
  obtain c where c: "q = placeholder_start @ c @ ''}''" "CHR ''}'' \<notin> set c" "CHR ''$'' \<notin> set c"
    using q by (auto simp: placeholder_text_def)
  have "q ! i = hd (drop i q @ r)" using i by (simp add: hd_append hd_drop_conv_nth)
  also have "\<dots> = CHR ''$''" unfolding z b(1) placeholder_start_shape by simp
  finally have "i = 0"
  proof (rule contrapos_pp)
    assume "i \<noteq> 0"
    then have "q ! i \<in> set (tl q)" using i by (cases q) (auto simp: nth_Cons')
    moreover have "CHR ''$'' \<notin> set (tl q)" using c by (simp add: placeholder_start_shape)
    ultimately show "q ! i \<noteq> CHR ''$''" by auto
  qed
  then have "split_once ''}'' (c @ ''}'' @ r) = split_once ''}'' (b @ ''}'' @ z)"
    using z unfolding b(1) c(1) by simp
  then have "b = c" using split_once_char [OF b(2)] split_once_char [OF c(2)] by simp
  then show False using b(1) c(1) \<open>p \<noteq> q\<close> by simp
qed

section \<open>Replacing all placeholders\<close>

text \<open>A value as its literals and placeholders, with a text for each placeholder.\<close>

fun assemble :: "('x \<Rightarrow> string) \<Rightarrow> (string \<times> 'x) list \<Rightarrow> string \<Rightarrow> string" where
  "assemble text_of [] rest = rest"
| "assemble text_of ((l, x) # parts) rest = l @ text_of x @ assemble text_of parts rest"

definition text_ok :: "string \<Rightarrow> bool" where
  "text_ok t \<longleftrightarrow> placeholder_text t \<or> address_text t"

lemma text_ok_head: "text_ok t \<Longrightarrow> t @ r = [] \<or> hd (t @ r) \<notin> set ''{decune''"
proof -
  assume t: "text_ok t"
  then have "t \<noteq> []" by (auto simp: text_ok_def placeholder_text_def address_text_def placeholder_start_def)
  moreover have "hd t \<notin> set ''{decune''"
    using t
  proof (unfold text_ok_def, elim disjE)
    assume "placeholder_text t"
    then show ?thesis by (auto simp: placeholder_text_def placeholder_start_shape)
  next
    assume a: "address_text t"
    then have "hd t \<in> set t" by (simp add: address_text_def)
    from address_text_chars [OF a this] show ?thesis by (simp add: placeholder_start_shape)
  qed
  ultimately show ?thesis by simp
qed

lemma replace_in_assembly:
  assumes p: "placeholder_text p"
    and parts: "\<forall>(l, x)\<in>set parts. split_once placeholder_start l = None \<and> text_ok (text_of x)"
    and rest: "split_once placeholder_start rest = None"
  shows "str_replace p t (assemble text_of parts rest) =
    assemble (\<lambda>x. if text_of x = p then t else text_of x) parts rest"
  using parts
proof (induction parts)
  case Nil
  have "split_once p rest = None"
  proof (rule ccontr)
    assume "split_once p rest \<noteq> None"
    then obtain u v where "split_once p rest = Some (u, v)" by auto
    then have "rest = u @ p @ v" by (rule split_once_SomeD)
    moreover obtain b where "p = placeholder_start @ b" using p by (auto simp: placeholder_text_def)
    ultimately have "rest = u @ placeholder_start @ (b @ v)" by simp
    then show False using split_once_NoneD [OF rest] by blast
  qed
  then show ?case by (simp add: str_replace.simps [of p t rest])
next
  case (Cons part parts)
  obtain l x where part: "part = (l, x)" by (cases part)
  have l: "split_once placeholder_start l = None" and x: "text_ok (text_of x)" using Cons.prems part by auto
  let ?r = "assemble text_of parts rest"
  have ne: "p \<noteq> []" using p by (auto simp: placeholder_text_def)
  have IH: "str_replace p t ?r = assemble (\<lambda>x. if text_of x = p then t else text_of x) parts rest"
    using Cons by simp
  have "str_replace p t (l @ text_of x @ ?r) = l @ str_replace p t (text_of x @ ?r)"
    by (rule str_replace_skip [OF ne]) (rule no_hit_in_literal [OF p l text_ok_head [OF x]])
  also have "str_replace p t (text_of x @ ?r) = (if text_of x = p then t else text_of x) @ str_replace p t ?r"
  proof (cases "text_of x = p")
    case True
    then show ?thesis using str_replace_hit [OF ne] by simp
  next
    case False
    then have "str_replace p t (text_of x @ ?r) = text_of x @ str_replace p t ?r"
      using x no_hit_in_address [OF p] no_hit_in_placeholder [OF p] unfolding text_ok_def
      by (intro str_replace_skip [OF ne]) blast
    then show ?thesis using False by simp
  qed
  finally show ?case unfolding part IH by simp
qed

lemma assemble_cong:
  "(\<And>l x. (l, x) \<in> set parts \<Longrightarrow> f x = g x) \<Longrightarrow> assemble f parts rest = assemble g parts rest"
proof (induction parts)
  case (Cons part parts)
  obtain l x where part: "part = (l, x)" by (cases part)
  have "f x = g x" using Cons.prems [of l x] part by simp
  moreover have "assemble f parts rest = assemble g parts rest" using Cons by (meson list.set_intros(2))
  ultimately show ?case by (simp add: part)
qed simp

lemma replace_all:
  fixes \<sigma> :: "endpoint_placeholder \<Rightarrow> string"
  assumes parts: "\<forall>(l, x)\<in>set parts. split_once placeholder_start l = None \<and> placeholder_text (ph_text x) \<and> address_text (\<sigma> x)"
    and rest: "split_once placeholder_start rest = None"
    and inj: "inj_on ph_text (snd ` set parts)" and phs: "set phs \<subseteq> snd ` set parts"
  shows "foldl (\<lambda>r x. str_replace (ph_text x) (\<sigma> x) r) (assemble ph_text parts rest) phs =
    assemble (\<lambda>x. if x \<in> set phs then \<sigma> x else ph_text x) parts rest"
  using phs
proof (induction phs rule: rev_induct)
  case (snoc q phs)
  define f where "f = (\<lambda>x. if x \<in> set phs then \<sigma> x else ph_text x)"
  have q: "q \<in> snd ` set parts" "placeholder_text (ph_text q)" using snoc.prems parts by force+
  have ok: "\<forall>(l, x)\<in>set parts. split_once placeholder_start l = None \<and> text_ok (f x)"
    using parts by (fastforce simp: f_def text_ok_def)
  have "foldl (\<lambda>r x. str_replace (ph_text x) (\<sigma> x) r) (assemble ph_text parts rest) (phs @ [q]) =
      str_replace (ph_text q) (\<sigma> q) (assemble f parts rest)"
    using snoc by (simp add: f_def)
  also have "\<dots> = assemble (\<lambda>x. if f x = ph_text q then \<sigma> q else f x) parts rest"
    by (rule replace_in_assembly [OF q(2) ok rest])
  also have "\<dots> = assemble (\<lambda>x. if x \<in> set (phs @ [q]) then \<sigma> x else ph_text x) parts rest"
  proof (rule assemble_cong)
    fix l x assume lx: "(l, x) \<in> set parts"
    have x: "x \<in> snd ` set parts" "address_text (\<sigma> x)" using lx parts by force+
    have "\<sigma> x \<noteq> ph_text q" using x(2) placeholder_text_not_address [OF q(2)] by auto
    moreover have "ph_text x = ph_text q \<longleftrightarrow> x = q" using inj_onD [OF inj _ x(1) q(1)] by blast
    ultimately show "(if f x = ph_text q then \<sigma> q else f x) = (if x \<in> set (phs @ [q]) then \<sigma> x else ph_text x)"
      by (auto simp: f_def)
  qed
  finally show ?case .
qed (simp cong: assemble_cong)

text \<open>Parsing a value finds its parts.\<close>

lemma placeholders_parts:
  assumes "endpoint_placeholders v = Inr phs" "\<forall>ph\<in>set phs. CHR ''$'' \<notin> set (ph_network ph)"
  shows "\<exists>parts rest. v = assemble ph_text parts rest \<and> map snd parts = phs \<and>
    (\<forall>\<sigma>. substitute \<sigma> v = assemble \<sigma> parts rest) \<and>
    (\<forall>(l, x)\<in>set parts. split_once placeholder_start l = None \<and> placeholder_text (ph_text x) \<and>
       (\<exists>b. parse_placeholder b = Inr x)) \<and>
    split_once placeholder_start rest = None"
  using assms
proof (induction v arbitrary: phs rule: endpoint_placeholders.induct)
  case (1 v)
  show ?case
  proof (cases "split_once placeholder_start v")
    case None
    then have "phs = []" using "1.prems"(1) by (simp add: endpoint_placeholders.simps [of v])
    moreover have "substitute \<sigma> v = v" for \<sigma> using None by (simp add: substitute.simps [of _ v])
    ultimately show ?thesis using None by (intro exI [of _ "[]"] exI [of _ v]) simp
  next
    case (Some la)
    obtain l after where la: "la = (l, after)" by (cases la)
    show ?thesis
    proof (cases "split_once ''}'' after")
      case None
      then show ?thesis using "1.prems"(1) Some la by (simp add: endpoint_placeholders.simps [of v])
    next
      case (Some br)
      obtain b r where br: "br = (b, r)" by (cases br)
      note splits = \<open>split_once placeholder_start v = Some la\<close> [unfolded la] Some [unfolded br]
      obtain ph phs' where ph: "parse_placeholder b = Inr ph" "endpoint_placeholders r = Inr phs'" "phs = ph # phs'"
        using "1.prems"(1) splits by (auto simp: endpoint_placeholders.simps [of v] result_elims)
      have "\<forall>ph\<in>set phs'. CHR ''$'' \<notin> set (ph_network ph)" using "1.prems"(2) ph(3) by simp
      from "1.IH" [OF splits(1) refl splits(2) refl ph(1) ph(2) this] obtain parts rest where
        IH: "r = assemble ph_text parts rest" "map snd parts = phs'" "\<And>\<sigma>. substitute \<sigma> r = assemble \<sigma> parts rest"
          "\<forall>(l, x)\<in>set parts. split_once placeholder_start l = None \<and> placeholder_text (ph_text x) \<and>
             (\<exists>b. parse_placeholder b = Inr x)"
          "split_once placeholder_start rest = None" by blast
      have v: "v = l @ placeholder_start @ b @ ''}'' @ r"
        using split_once_SomeD [OF splits(1)] split_once_SomeD [OF splits(2)] by simp
      have l: "split_once placeholder_start l = None"
      proof (rule ccontr)
        assume "split_once placeholder_start l \<noteq> None"
        then obtain x y where xy: "split_once placeholder_start l = Some (x, y)" by auto
        then have "l = x @ placeholder_start @ y" by (rule split_once_SomeD)
        then have "v = x @ placeholder_start @ (y @ placeholder_start @ b @ ''}'' @ r)" using v by simp
        from split_once_first [OF splits(1) this] \<open>l = _\<close> show False by (simp add: placeholder_start_def)
      qed
      have dollar: "CHR ''$'' \<notin> set b" using parse_placeholder_dollar [OF ph(1)] "1.prems"(2) ph(3) by simp
      have brace: "CHR ''}'' \<notin> set b"
      proof
        assume "CHR ''}'' \<in> set b"
        then obtain x y where xy: "b = x @ CHR ''}'' # y" "CHR ''}'' \<notin> set x" by (meson split_list_first)
        have "after = x @ ''}'' @ (y @ ''}'' @ r)" using split_once_SomeD [OF splits(2)] xy(1) by simp
        from split_once_first [OF splits(2) this] xy(1) show False by simp
      qed
      have is_text: "placeholder_text (ph_text ph)"
        unfolding placeholder_text_def parse_placeholder_text [OF ph(1)] using dollar brace by blast
      have "substitute \<sigma> v = l @ \<sigma> ph @ substitute \<sigma> r" for \<sigma>
        using splits ph(1) by (simp add: substitute.simps [of _ v])
      then show ?thesis
        using IH l is_text ph v parse_placeholder_text [OF ph(1)]
        by (intro exI [of _ "(l, ph) # parts"] exI [of _ rest]) auto
    qed
  qed
qed

lemma rendering_is_substitution:
  assumes "endpoint_placeholders v = Inr phs" "\<forall>ph\<in>set phs. CHR ''$'' \<notin> set (ph_network ph)"
    and "\<forall>ph\<in>set phs. address_text (\<sigma> ph)"
  shows "foldl (\<lambda>r x. str_replace (ph_text x) (\<sigma> x) r) v phs = substitute \<sigma> v"
proof -
  obtain parts rest where p: "v = assemble ph_text parts rest" "map snd parts = phs"
      "\<And>\<sigma>. substitute \<sigma> v = assemble \<sigma> parts rest"
      "\<forall>(l, x)\<in>set parts. split_once placeholder_start l = None \<and> placeholder_text (ph_text x) \<and>
         (\<exists>b. parse_placeholder b = Inr x)"
      "split_once placeholder_start rest = None"
    using placeholders_parts [OF assms(1,2)] by blast
  have set: "snd ` set parts = set phs" using p(2) by (metis list.set_map)
  have inj: "inj_on ph_text (snd ` set parts)"
  proof (rule inj_onI)
    fix x y assume "x \<in> snd ` set parts" "y \<in> snd ` set parts" and eq: "ph_text x = ph_text y"
    then obtain l k where "(l, x) \<in> set parts" "(k, y) \<in> set parts" by auto
    with p(4) obtain b c where "parse_placeholder b = Inr x" "parse_placeholder c = Inr y" by blast
    from parse_placeholder_inj [OF this eq] show "x = y" .
  qed
  have ok: "\<forall>(l, x)\<in>set parts. split_once placeholder_start l = None \<and> placeholder_text (ph_text x) \<and> address_text (\<sigma> x)"
  proof (clarify, intro conjI)
    fix l x assume lx: "(l, x) \<in> set parts"
    then have "x \<in> set phs" unfolding set [symmetric] by force
    then show "address_text (\<sigma> x)" using assms(3) by blast
    show "split_once placeholder_start l = None" "placeholder_text (ph_text x)" using p(4) lx by blast+
  qed
  have "foldl (\<lambda>r x. str_replace (ph_text x) (\<sigma> x) r) v phs =
      assemble (\<lambda>x. if x \<in> set phs then \<sigma> x else ph_text x) parts rest"
    unfolding p(1) by (rule replace_all [OF ok p(5) inj]) (simp add: set)
  also have "\<dots> = assemble \<sigma> parts rest"
    using set by (intro assemble_cong) force
  finally show ?thesis by (simp add: p(3))
qed

section \<open>Gateways are filled in, never changed\<close>

definition filled :: "subnet_allocation \<Rightarrow> subnet_allocation \<Rightarrow> bool" where
  "filled a a' \<longleftrightarrow> a' = a \<or>
     (sa_planned_gateway a = None \<and>
      (\<exists>c g. cidr_parse (sa_planned_subnet a) = Some c \<and> cidr_address_at_offset c 1 = Some g \<and>
         a' = a\<lparr>sa_planned_gateway := Some (show_ipv4 g)\<rparr>))"

lemma filled_refl [simp]: "filled a a"
  by (simp add: filled_def)

lemma filled_trans: "filled a b \<Longrightarrow> filled b c \<Longrightarrow> filled a c"
  by (auto simp: filled_def)

lemma filled_network: "filled a b \<Longrightarrow> sa_network b = sa_network a \<and> sa_planned_subnet b = sa_planned_subnet a"
  by (auto simp: filled_def)

lemma filled_gateway: "filled a b \<Longrightarrow> sa_planned_gateway a = Some g \<Longrightarrow> sa_planned_gateway b = Some g"
  by (auto simp: filled_def)

lemma all_filled_trans:
  "list_all2 filled xs ys \<Longrightarrow> list_all2 filled ys zs \<Longrightarrow> list_all2 filled xs zs"
  by (rule list_all2_trans [of filled filled]) (auto intro: filled_trans)

definition allocation_of :: "subnet_allocation list \<Rightarrow> string \<Rightarrow> subnet_allocation option" where
  "allocation_of allocations network = List.find (\<lambda>a. sa_network a = network) allocations"

definition placeholder_value :: "subnet_allocation list \<Rightarrow> endpoint_placeholder \<Rightarrow> string option" where
  "placeholder_value allocations placeholder =
     Option.bind (allocation_of allocations (ph_network placeholder))
       (\<lambda>a. case ph_kind placeholder of Subnet_Value \<Rightarrow> Some (sa_planned_subnet a)
                                     | Gateway_Value \<Rightarrow> sa_planned_gateway a)"

lemma endpoint_allocation_SomeD:
  "endpoint_allocation al network = Some (b, a, c) \<Longrightarrow>
   al = b @ a # c \<and> sa_network a = network \<and>
   (\<forall>a'. sa_network a' = network \<longrightarrow> allocation_of (b @ a' # c) network = Some a')"
  by (induction al network arbitrary: b rule: endpoint_allocation.induct)
     (auto simp: allocation_of_def split: if_splits)

lemma planned_gateway_fills:
  "planned_gateway a = Inr (t, a') \<Longrightarrow> filled a a' \<and> sa_planned_gateway a' = Some t"
  unfolding planned_gateway_def
  by (auto simp: result_elims filled_def split: option.splits)

lemma allocation_of_filled:
  "list_all2 filled al al' \<Longrightarrow> allocation_of al network = Some a \<Longrightarrow>
   \<exists>a'. allocation_of al' network = Some a' \<and> filled a a'"
  by (induction rule: list_all2_induct) (auto simp: allocation_of_def dest: filled_network split: if_splits)

lemma placeholder_value_filled:
  assumes "list_all2 filled al al'" "placeholder_value al ph = Some t"
  shows "placeholder_value al' ph = Some t"
proof -
  obtain a where a: "allocation_of al (ph_network ph) = Some a"
      "(case ph_kind ph of Subnet_Value \<Rightarrow> Some (sa_planned_subnet a) | Gateway_Value \<Rightarrow> sa_planned_gateway a) = Some t"
    using assms(2) by (auto simp: placeholder_value_def bind_eq_Some_conv)
  obtain a' where a': "allocation_of al' (ph_network ph) = Some a'" "filled a a'"
    using allocation_of_filled [OF assms(1) a(1)] by blast
  show ?thesis
    using a a' filled_network [OF a'(2)] filled_gateway [OF a'(2)]
    by (auto simp: placeholder_value_def split: endpoint_value_kind.splits)
qed

lemma render_placeholder_ok:
  assumes "render_placeholder model enabled d (r, al) ph = Inr (r', al')"
  shows "list_all2 filled al al' \<and> has_network model (ph_network ph) \<and>
     (\<exists>t. placeholder_value al' ph = Some t \<and> r' = str_replace (ph_text ph) t r)"
proof -
  obtain b a c t a' where x: "has_network model (ph_network ph)"
      "endpoint_allocation al (ph_network ph) = Some (b, a, c)"
      "(case ph_kind ph of Subnet_Value \<Rightarrow> Inr (sa_planned_subnet a, a) | Gateway_Value \<Rightarrow> planned_gateway a) = Inr (t, a')"
      "r' = str_replace (ph_text ph) t r" "al' = b @ a' # c"
    using assms by (auto simp: render_placeholder_def result_elims split: if_splits)
  note al = endpoint_allocation_SomeD [OF x(2)]
  have f: "filled a a'" using x(3) planned_gateway_fills by (auto split: endpoint_value_kind.splits)
  have "list_all2 filled al al'"
    using al f by (simp add: x(5) list_all2_appendI list.rel_refl)
  moreover have "placeholder_value al' ph = Some t"
    using al x(3) filled_network [OF f] planned_gateway_fills [of a t a']
    by (auto simp: placeholder_value_def x(5) split: endpoint_value_kind.splits)
  ultimately show ?thesis using x by blast
qed

lemma render_placeholders_ok:
  "try_fold (render_placeholder model enabled d) (r, al) phs = Inr (r', al') \<Longrightarrow>
   list_all2 filled al al' \<and>
   (\<forall>ph\<in>set phs. has_network model (ph_network ph) \<and> placeholder_value al' ph \<noteq> None) \<and>
   r' = foldl (\<lambda>r x. str_replace (ph_text x) (the (placeholder_value al' x)) r) r phs"
proof (induction phs arbitrary: r al)
  case Nil
  then show ?case by (simp add: list.rel_refl)
next
  case (Cons ph phs)
  obtain r1 al1 where 1: "render_placeholder model enabled d (r, al) ph = Inr (r1, al1)"
      "try_fold (render_placeholder model enabled d) (r1, al1) phs = Inr (r', al')"
    using Cons.prems by (auto simp: bind_res_Inr_iff)
  note ok = render_placeholder_ok [OF 1(1)] and IH = Cons.IH [OF 1(2)]
  then obtain t where t: "placeholder_value al1 ph = Some t" "r1 = str_replace (ph_text ph) t r" by blast
  have "placeholder_value al' ph = Some t" using placeholder_value_filled [OF _ t(1)] IH by blast
  then show ?case using ok IH t all_filled_trans by auto
qed

lemma plan_endpoint_ok:
  assumes "plan_endpoint model enabled (plan, al) d = Inr (plan', al')"
  shows "has_service model (ed_service d) \<and> list_all2 filled al al' \<and>
    (\<exists>phs. endpoint_placeholders (ed_value d) = Inr phs \<and>
       (\<forall>ph\<in>set phs. has_network model (ph_network ph) \<and> placeholder_value al' ph \<noteq> None) \<and>
       plan' = \<lparr>ep_services = bt_insert (ed_service d)
         (bt_insert (ed_env d)
           (foldl (\<lambda>r x. str_replace (ph_text x) (the (placeholder_value al' x)) r) (ed_value d) phs)
           (case bt_get (ep_services plan) (ed_service d) of Some m \<Rightarrow> m | None \<Rightarrow> [])) (ep_services plan)\<rparr>)"
proof -
  obtain phs r where x: "has_service model (ed_service d)" "endpoint_placeholders (ed_value d) = Inr phs"
      "try_fold (render_placeholder model enabled d) (ed_value d, al) phs = Inr (r, al')"
      "plan' = \<lparr>ep_services = bt_insert (ed_service d) (bt_insert (ed_env d) r
           (case bt_get (ep_services plan) (ed_service d) of Some m \<Rightarrow> m | None \<Rightarrow> [])) (ep_services plan)\<rparr>"
    using assms by (auto simp: plan_endpoint_def result_elims Let_def split: if_splits)
  from x(1,2,4) render_placeholders_ok [OF x(3)] show ?thesis by blast
qed

lemma has_network_iff: "has_network model n \<longleftrightarrow> n \<in> fst ` set (cm_networks model)"
  unfolding has_network_def bt_contains_key_def bt_get_def by (simp add: map_of_eq_None_iff)

section \<open>Stale values\<close>

lemma in_original_addresses:
  "a \<in> set (original_addresses requested) \<longleftrightarrow>
     (\<exists>c. cidr_parse (nr_subnet requested) = Some c \<and> a = show_ipv4 (cidr_network c)) \<or>
     nr_gateway requested = Some a"
  by (cases "cidr_parse (nr_subnet requested)"; cases "nr_gateway requested") (auto simp: original_addresses_def)

lemma in_stale_endpoints:
  "(s, e, n, a) \<in> set (stale_endpoints_of model plan allocation requested) \<longleftrightarrow>
     n = sa_network allocation \<and> a \<in> set (original_addresses requested) \<and> service_uses_network model s n \<and>
     (\<exists>service v. (s, service) \<in> set (cm_services model) \<and> (e, v) \<in> set (effective_environment plan s service) \<and>
        contains_address_token v a)"
  unfolding stale_endpoints_of_def set_concat set_map UN_iff bex_simps
  by (fastforce split: if_splits)

lemma in_stale_endpoint_findings:
  "f \<in> set (stale_endpoint_findings model scan al plan) \<longleftrightarrow>
     (\<exists>s e n a. f = Endpoint_Unsafe s e n a \<and>
       (\<exists>allocation\<in>set al. sa_relocated allocation \<and>
          (\<exists>requested. List.find (\<lambda>requested. nr_network requested = sa_network allocation \<and>
               nr_subnet requested = sa_requested_subnet allocation) (scan_network_requests scan) = Some requested \<and>
             (s, e, n, a) \<in> set (stale_endpoints_of model plan allocation requested))))"
proof -
  have per: "x \<in> set (case o' of None \<Rightarrow> [] | Some r \<Rightarrow> g r) \<longleftrightarrow> (\<exists>r. o' = Some r \<and> x \<in> set (g r))" for x g o'
    by (cases o') auto
  show ?thesis
    unfolding stale_endpoint_findings_def set_map set_bs_collect set_concat image_iff split_paired_Bex_iff
      UN_iff bex_simps per set_filter mem_Collect_eq split_paired_Ex prod.case
    by blast
qed

lemma effective_environment_get:
  assumes "bt_ok (svc_environment service)"
  shows "(e, v) \<in> set (effective_environment plan s service) \<longleftrightarrow>
     (case Option.bind (bt_get (ep_services plan) s) (\<lambda>overrides. map_of (rev overrides) e) of
        Some w \<Rightarrow> v = w
      | None \<Rightarrow> bt_get (svc_environment service) e = Some (J_String v))"
proof -
  let ?env = "environment_values service"
  have d: "distinct (map fst ?env)"
  proof -
    have "map fst (filter_map (\<lambda>(n, v). map_option (\<lambda>s. (n, s)) (json_as_str v)) m) =
        map fst (filter (\<lambda>(n, v). json_as_str v \<noteq> None) m)" for m
      by (induction m) (auto split: option.splits)
    moreover have "distinct (map fst (filter P (svc_environment service)))" for P
      using bt_ok_distinct [OF assms] by (simp add: distinct_map_filter)
    ultimately show ?thesis unfolding environment_values_def by metis
  qed
  have base: "map_of ?env e = Some v \<longleftrightarrow> bt_get (svc_environment service) e = Some (J_String v)"
    using d bt_ok_distinct [OF assms] by (simp add: bt_get_def set_environment_values)
  have ok: "bt_ok (effective_environment plan s service)"
    by (auto simp: effective_environment_def Let_def bt_extend_eq bt.ok_insert_all split: option.splits)
  have "(e, v) \<in> set (effective_environment plan s service) \<longleftrightarrow> bt_get (effective_environment plan s service) e = Some v"
    using bt.get_entries [OF ok] by simp
  also have "\<dots> \<longleftrightarrow> (case Option.bind (bt_get (ep_services plan) s) (\<lambda>overrides. map_of (rev overrides) e) of
        Some w \<Rightarrow> v = w | None \<Rightarrow> map_of ?env e = Some v)"
    by (auto simp: effective_environment_def Let_def bt_extend_eq bt.get_insert_all
        bt_get_collect_distinct [OF d] split: option.splits)
  finally show ?thesis unfolding base .
qed

section \<open>Addresses as text\<close>

lemma show_nat_address: "c \<in> set (show_nat n) \<Longrightarrow> digit_or_dot c"
  using show_nat_digits [of n] by (auto simp: digit_or_dot_def)

lemma address_text_show [simp]: "address_text (show_ipv4 a)"
  by (auto simp: address_text_def show_ipv4_def show_nat_address digit_or_dot_def dest: show_nat_address)

lemma address_text_cidr [simp]: "address_text (cidr_show c)"
  using address_text_show [of "cidr_network c"]
  by (auto simp: address_text_def cidr_show_def show_nat_address)

lemma first_host:
  assumes "cidr_address_at_offset c 1 = Some g"
  shows "g \<in> cidr_addresses c \<and> unat g = unat (cidr_network c) + 1"
proof -
  have "unat g = unat (cidr_network c) + unat (1 :: u32)" "g \<le> cidr_broadcast c"
    using assms by (auto simp: cidr_address_at_offset_def checked_add_Some_iff split: option.splits if_splits)
  then show ?thesis
    by (simp add: cidr_addresses_def cidr_contains_address_def word_le_nat_alt)
qed

section \<open>An example\<close>

definition example_endpoint_service :: compose_config_service where
  "example_endpoint_service = example_service\<lparr>svc_networks := [(''n'', J_Null)],
     svc_environment := [(''URL'', J_String (show_ipv4 0x0A000000))]\<rparr>"

definition example_endpoint_model :: compose_config_model where
  "example_endpoint_model =
     \<lparr>cm_services = [(''app'', example_endpoint_service)],
      cm_networks = [(''n'', \<lparr>res_name = None, res_driver = None, res_external = False, res_ipam = None\<rparr>)],
      cm_volumes = [], cm_configs = [], cm_secrets = []\<rparr>"

definition example_declaration :: endpoint_declaration where
  "example_declaration = \<lparr>ed_service = ''app'', ed_env = ''NET'', ed_value = ''${decune.network.n.subnet}''\<rparr>"

lemma example_placeholders:
  "endpoint_placeholders (ed_value example_declaration) =
     Inr [\<lparr>ph_text = ''${decune.network.n.subnet}'', ph_network = ''n'', ph_kind = Subnet_Value\<rparr>]"
  by (simp add: example_declaration_def endpoint_placeholders.simps placeholder_start_def parse_placeholder_def
      placeholder_network_def strip_suffix_def)

definition example_endpoint_plan :: subnet_plan where
  "example_endpoint_plan =
     \<lparr>sp_allocations = [example_allocation_at ''n'' 0x0A000000 0x0A000100], sp_networks_to_remove = []\<rparr>"

lemma example_endpoint:
  "plan_endpoint example_endpoint_model True (\<lparr>ep_services = []\<rparr>, sp_allocations example_endpoint_plan) example_declaration =
     Inr (\<lparr>ep_services = [(''app'', [(''NET'', cidr_show (example_block 0x0A000100))])]\<rparr>,
          sp_allocations example_endpoint_plan)"
proof -
  have "str_replace ''${decune.network.n.subnet}'' t ''${decune.network.n.subnet}'' = t" for t
    using str_replace_hit [of "''${decune.network.n.subnet}''" t "[]"] by (simp add: str_replace.simps [of _ _ "[]"])
  then show ?thesis
    by (simp add: plan_endpoint_def example_placeholders)
       (simp add: example_declaration_def example_endpoint_model_def has_service_def has_network_def
         bt_contains_key_def bt_get_def render_placeholder_def example_endpoint_plan_def example_allocation_at_def)
qed

lemma example_endpoints:
  "\<exists>findings. plan_compose_isolation_endpoints example_endpoint_model
     \<lparr>scan_network_requests = [example_request ''n'' 0x0A000000], scan_fixed_names = []\<rparr>
     [example_declaration] True example_endpoint_plan =
   Inr (\<lparr>ep_services = [(''app'', [(''NET'', cidr_show (example_block 0x0A000100))])]\<rparr>, findings, example_endpoint_plan)"
proof -
  have "example_endpoint_plan\<lparr>sp_allocations := sp_allocations example_endpoint_plan\<rparr> = example_endpoint_plan"
    by (simp add: example_endpoint_plan_def)
  then show ?thesis by (simp add: plan_compose_isolation_endpoints_def example_endpoint)
qed

section \<open>Properties\<close>

text \<open>contains_address_token holds exactly when the address occurs somewhere in the value
  with no digit and no dot next to it, although the search skips overlapping occurrences.\<close>

theorem address_tokens_are_found:
  assumes "\<forall>ch\<in>set address. is_ascii_digit ch \<or> ch = CHR ''.''" "address \<noteq> []"
  shows "contains_address_token value address \<longleftrightarrow>
     (\<exists>before after. value = before @ address @ after \<and>
        (before = [] \<or> \<not> digit_or_dot (last before)) \<and> (after = [] \<or> \<not> digit_or_dot (hd after)))"
  using assms by (intro contains_address_token_iff) (simp_all add: digit_or_dot_def)

theorem address_tokens_are_found_witness:
  "contains_address_token ''tcp://10.1/'' ''10.1'' \<longleftrightarrow>
     (\<exists>before after. ''tcp://10.1/'' = before @ ''10.1'' @ after \<and>
        (before = [] \<or> \<not> digit_or_dot (last before)) \<and> (after = [] \<or> \<not> digit_or_dot (hd after)))"
  by (rule address_tokens_are_found) (simp_all add: is_ascii_digit_def)

text \<open>A service uses a network exactly when it or a service it shares its network namespace
  with, over any number of network_mode links and through cycles, is attached to the network; the
  recursion ends.\<close>

theorem network_use_follows_sharing:
  "service_uses_network model service network \<longleftrightarrow>
     (\<exists>t. (service, t) \<in> (shares_network model)\<^sup>* \<and>
        (\<exists>target. model_service model t = Some target \<and> network \<in> set (network_names target)))"
  unfolding service_uses_network_iff on_network_def by blast

text \<open>Replacing the placeholders of a declaration one text after the other gives the
  simultaneous substitution of every placeholder by the planned value of its network, for plans
  whose values are addresses and models whose network names have no dollar sign.\<close>

theorem endpoint_values_are_substituted:
  assumes "plan_endpoint model enabled (plan, allocations) declaration = Inr (plan', allocations')"
    and "\<forall>a\<in>set allocations. address_text (sa_planned_subnet a) \<and>
           (\<forall>g. sa_planned_gateway a = Some g \<longrightarrow> address_text g)"
    and "\<forall>n\<in>fst ` set (cm_networks model). CHR ''$'' \<notin> set n"
  shows "Option.bind (bt_get (ep_services plan') (ed_service declaration)) (\<lambda>env. bt_get env (ed_env declaration)) =
     Some (substitute (\<lambda>ph. the (placeholder_value allocations' ph)) (ed_value declaration))"
proof -
  let ?\<sigma> = "\<lambda>ph. the (placeholder_value allocations' ph)"
  obtain phs where phs: "endpoint_placeholders (ed_value declaration) = Inr phs"
      "list_all2 filled allocations allocations'"
      "\<forall>ph\<in>set phs. has_network model (ph_network ph) \<and> placeholder_value allocations' ph \<noteq> None"
      "plan' = \<lparr>ep_services = bt_insert (ed_service declaration)
         (bt_insert (ed_env declaration)
           (foldl (\<lambda>r x. str_replace (ph_text x) (?\<sigma> x) r) (ed_value declaration) phs)
           (case bt_get (ep_services plan) (ed_service declaration) of Some m \<Rightarrow> m | None \<Rightarrow> [])) (ep_services plan)\<rparr>"
    using plan_endpoint_ok [OF assms(1)] by blast
  have addresses: "address_text (sa_planned_subnet a') \<and> (\<forall>g. sa_planned_gateway a' = Some g \<longrightarrow> address_text g)"
    if a': "a' \<in> set allocations'" for a'
  proof -
    obtain a where a: "a \<in> set allocations" "filled a a'"
      using phs(2) a' by (metis in_set_conv_nth list_all2_conv_all_nth)
    then show ?thesis using assms(2) address_text_show by (auto simp: filled_def)
  qed
  have "address_text (?\<sigma> ph)" if "ph \<in> set phs" for ph
  proof -
    have some: "placeholder_value allocations' ph \<noteq> None" using phs(3) that by blast
    obtain a where a: "allocation_of allocations' (ph_network ph) = Some a"
        "placeholder_value allocations' ph =
         (case ph_kind ph of Subnet_Value \<Rightarrow> Some (sa_planned_subnet a) | Gateway_Value \<Rightarrow> sa_planned_gateway a)"
      using some by (cases "allocation_of allocations' (ph_network ph)") (auto simp: placeholder_value_def)
    have "a \<in> set allocations'" using find_Some_iff2 a(1) unfolding allocation_of_def by metis
    then show ?thesis using addresses [of a] a(2) some by (cases "ph_kind ph") auto
  qed
  moreover have "\<forall>ph\<in>set phs. CHR ''$'' \<notin> set (ph_network ph)"
    using phs(3) assms(3) unfolding has_network_iff by blast
  ultimately have "foldl (\<lambda>r x. str_replace (ph_text x) (?\<sigma> x) r) (ed_value declaration) phs =
      substitute ?\<sigma> (ed_value declaration)"
    using phs(1) by (intro rendering_is_substitution) auto
  then show ?thesis by (simp add: phs(4) bt_get_insert)
qed

theorem endpoint_values_are_substituted_witness:
  "substitute (\<lambda>ph. the (placeholder_value (sp_allocations example_endpoint_plan) ph)) (ed_value example_declaration) =
     cidr_show (example_block 0x0A000100)"
  using endpoint_values_are_substituted [OF example_endpoint]
  by (simp add: example_endpoint_model_def example_endpoint_plan_def example_allocation_at_def)
     (simp add: example_declaration_def bt_get_def)

text \<open>Endpoint planning changes nothing in the subnet plan but the gateway of an allocation
  that had none, which becomes the first host address of its planned subnet.\<close>

theorem endpoint_planning_only_fills_gateways:
  assumes "plan_compose_isolation_endpoints model scan declarations enabled plan = Inr (endpoints, findings, plan')"
  shows "sp_networks_to_remove plan' = sp_networks_to_remove plan \<and>
    list_all2 (\<lambda>a a'. a' = a \<or>
      (sa_planned_gateway a = None \<and>
       (\<exists>c g. cidr_parse (sa_planned_subnet a) = Some c \<and> g \<in> cidr_addresses c \<and>
          unat g = unat (cidr_network c) + 1 \<and> a' = a\<lparr>sa_planned_gateway := Some (show_ipv4 g)\<rparr>)))
      (sp_allocations plan) (sp_allocations plan')"
proof -
  obtain al where al: "try_fold (plan_endpoint model enabled) (\<lparr>ep_services = []\<rparr>, sp_allocations plan) declarations =
      Inr (endpoints, al)" "plan' = plan\<lparr>sp_allocations := al\<rparr>"
    using assms by (auto simp: plan_compose_isolation_endpoints_def bind_res_Inr_iff)
  have "list_all2 filled (sp_allocations plan) (snd (endpoints, al))"
    using al(1)
  proof (rule try_fold_invariant)
    fix ys x s t
    assume "list_all2 filled (sp_allocations plan) (snd s)" "plan_endpoint model enabled s x = Inr t"
    then show "list_all2 filled (sp_allocations plan) (snd t)"
      using plan_endpoint_ok [of model enabled "fst s" "snd s" x "fst t" "snd t"] all_filled_trans by simp
  qed (simp add: list.rel_refl)
  then have "list_all2 (\<lambda>a a'. a' = a \<or>
      (sa_planned_gateway a = None \<and>
       (\<exists>c g. cidr_parse (sa_planned_subnet a) = Some c \<and> g \<in> cidr_addresses c \<and>
          unat g = unat (cidr_network c) + 1 \<and> a' = a\<lparr>sa_planned_gateway := Some (show_ipv4 g)\<rparr>)))
      (sp_allocations plan) al"
    unfolding snd_conv
  proof (rule list_all2_mono)
    fix a a' assume "filled a a'"
    then show "a' = a \<or> (sa_planned_gateway a = None \<and>
       (\<exists>c g. cidr_parse (sa_planned_subnet a) = Some c \<and> g \<in> cidr_addresses c \<and>
          unat g = unat (cidr_network c) + 1 \<and> a' = a\<lparr>sa_planned_gateway := Some (show_ipv4 g)\<rparr>))"
      unfolding filled_def using first_host by blast
  qed
  then show ?thesis by (simp add: al(2))
qed

theorem endpoint_planning_only_fills_gateways_witness:
  "sp_networks_to_remove example_endpoint_plan = []"
proof -
  obtain findings where f: "plan_compose_isolation_endpoints example_endpoint_model
     \<lparr>scan_network_requests = [example_request ''n'' 0x0A000000], scan_fixed_names = []\<rparr>
     [example_declaration] True example_endpoint_plan =
     Inr (\<lparr>ep_services = [(''app'', [(''NET'', cidr_show (example_block 0x0A000100))])]\<rparr>, findings, example_endpoint_plan)"
    using example_endpoints by blast
  from endpoint_planning_only_fills_gateways [OF f] show ?thesis by (simp add: example_endpoint_plan_def)
qed

text \<open>An unsafe endpoint is reported exactly for a service on a relocated network and an
  environment variable whose effective value holds the original network address or gateway as an
  address token.\<close>

theorem unsafe_endpoints_are_reported:
  assumes "plan_compose_isolation_endpoints model scan declarations enabled plan = Inr (endpoints, findings, plan')"
    and "\<forall>service\<in>snd ` set (cm_services model). bt_ok (svc_environment service)"
  shows "Endpoint_Unsafe s e n a \<in> set findings \<longleftrightarrow>
     (\<exists>allocation\<in>set (sp_allocations plan'). sa_relocated allocation \<and>
        (\<exists>requested.
          List.find (\<lambda>requested. nr_network requested = sa_network allocation \<and>
            nr_subnet requested = sa_requested_subnet allocation) (scan_network_requests scan) = Some requested \<and>
          n = sa_network allocation \<and>
          ((\<exists>c. cidr_parse (nr_subnet requested) = Some c \<and> a = show_ipv4 (cidr_network c)) \<or>
           nr_gateway requested = Some a) \<and>
          service_uses_network model s n \<and>
          (\<exists>service v. (s, service) \<in> set (cm_services model) \<and>
            (case Option.bind (bt_get (ep_services endpoints) s) (\<lambda>overrides. map_of (rev overrides) e) of
               Some w \<Rightarrow> v = w
             | None \<Rightarrow> bt_get (svc_environment service) e = Some (J_String v)) \<and>
            contains_address_token v a)))"
proof -
  obtain al where al: "plan' = plan\<lparr>sp_allocations := al\<rparr>" "findings = stale_endpoint_findings model scan al endpoints"
    using assms by (auto simp: plan_compose_isolation_endpoints_def bind_res_Inr_iff)
  have env: "(e, v) \<in> set (effective_environment endpoints s service) \<longleftrightarrow>
      (case Option.bind (bt_get (ep_services endpoints) s) (\<lambda>overrides. map_of (rev overrides) e) of
           Some w \<Rightarrow> v = w
         | None \<Rightarrow> bt_get (svc_environment service) e = Some (J_String v))"
    if "(s, service) \<in> set (cm_services model)" for service v
    using assms(2) that by (intro effective_environment_get) force
  have al': "sp_allocations plan' = al" by (simp add: al(1))
  show ?thesis
    unfolding al(2) al' in_stale_endpoint_findings in_stale_endpoints in_original_addresses
    by (simp add: env cong: conj_cong)
qed

theorem unsafe_endpoints_are_reported_witness:
  "\<exists>findings. plan_compose_isolation_endpoints example_endpoint_model
     \<lparr>scan_network_requests = [example_request ''n'' 0x0A000000], scan_fixed_names = []\<rparr>
     [example_declaration] True example_endpoint_plan =
     Inr (\<lparr>ep_services = [(''app'', [(''NET'', cidr_show (example_block 0x0A000100))])]\<rparr>, findings, example_endpoint_plan) \<and>
   Endpoint_Unsafe ''app'' ''URL'' ''n'' (show_ipv4 0x0A000000) \<in> set findings"
proof -
  obtain findings where f: "plan_compose_isolation_endpoints example_endpoint_model
     \<lparr>scan_network_requests = [example_request ''n'' 0x0A000000], scan_fixed_names = []\<rparr>
     [example_declaration] True example_endpoint_plan =
     Inr (\<lparr>ep_services = [(''app'', [(''NET'', cidr_show (example_block 0x0A000100))])]\<rparr>, findings, example_endpoint_plan)"
    using example_endpoints by blast
  have uses: "service_uses_network example_endpoint_model ''app'' ''n''"
    by (simp add: service_uses_network_def service_uses_network_inner.simps model_service_def bt_get_def
        example_endpoint_model_def example_endpoint_service_def network_names_def bt_keys_def)
  have token: "contains_address_token (show_ipv4 0x0A000000) (show_ipv4 0x0A000000)"
    by (subst contains_address_token_iff)
       (auto simp: show_ipv4_def show_nat_address digit_or_dot_def dest: show_nat_address intro: exI [of _ "[]"])
  have "Endpoint_Unsafe ''app'' ''URL'' ''n'' (show_ipv4 0x0A000000) \<in> set findings"
  proof (subst unsafe_endpoints_are_reported [OF f])
    show "\<forall>service\<in>snd ` set (cm_services example_endpoint_model). bt_ok (svc_environment service)"
      by (simp add: example_endpoint_model_def example_endpoint_service_def bt_ok_def)
    let ?a = "example_allocation_at ''n'' 0x0A000000 0x0A000100"
    have "?a \<in> set (sp_allocations example_endpoint_plan)" by (simp add: example_endpoint_plan_def)
    moreover have "sa_relocated ?a" "sa_network ?a = ''n''" by (simp_all add: example_allocation_at_def)
    moreover have "List.find (\<lambda>requested. nr_network requested = sa_network ?a \<and>
        nr_subnet requested = sa_requested_subnet ?a) [example_request ''n'' 0x0A000000] = Some (example_request ''n'' 0x0A000000)"
      by (simp add: example_allocation_at_def example_request_def)
    moreover have "cidr_parse (nr_subnet (example_request ''n'' 0x0A000000)) = Some (example_block 0x0A000000)"
      by (simp add: example_request_def)
    moreover have "show_ipv4 0x0A000000 = show_ipv4 (cidr_network (example_block 0x0A000000))"
      by (simp add: example_block_def)
    moreover have "(''app'', example_endpoint_service) \<in> set (cm_services example_endpoint_model)"
        "bt_get (svc_environment example_endpoint_service) ''URL'' = Some (J_String (show_ipv4 0x0A000000))"
      by (simp_all add: example_endpoint_model_def example_endpoint_service_def bt_get_def)
    ultimately show "\<exists>allocation\<in>set (sp_allocations example_endpoint_plan). sa_relocated allocation \<and>
        (\<exists>requested.
          List.find (\<lambda>requested. nr_network requested = sa_network allocation \<and>
            nr_subnet requested = sa_requested_subnet allocation) (scan_network_requests
              \<lparr>scan_network_requests = [example_request ''n'' 0x0A000000], scan_fixed_names = []\<rparr>) = Some requested \<and>
          ''n'' = sa_network allocation \<and>
          ((\<exists>c. cidr_parse (nr_subnet requested) = Some c \<and> show_ipv4 0x0A000000 = show_ipv4 (cidr_network c)) \<or>
           nr_gateway requested = Some (show_ipv4 0x0A000000)) \<and>
          service_uses_network example_endpoint_model ''app'' ''n'' \<and>
          (\<exists>service v. (''app'', service) \<in> set (cm_services example_endpoint_model) \<and>
            (case Option.bind (bt_get (ep_services \<lparr>ep_services =
                [(''app'', [(''NET'', cidr_show (example_block 0x0A000100))])]\<rparr>) ''app'')
                (\<lambda>overrides. map_of (rev overrides) ''URL'') of
               Some w \<Rightarrow> v = w
             | None \<Rightarrow> bt_get (svc_environment service) ''URL'' = Some (J_String v)) \<and>
            contains_address_token v (show_ipv4 0x0A000000)))"
      using uses token
      by (intro bexI [of _ ?a] conjI exI [of _ "example_request ''n'' 0x0A000000"] disjI1
            exI [of _ "example_block 0x0A000000"] exI [of _ example_endpoint_service] exI [of _ "show_ipv4 0x0A000000"])
         (simp_all add: bt_get_def)
  qed
  with f show ?thesis by blast
qed

end
