(* ===== verification/Host_Ports.thy ===== *)
theory Host_Ports
  imports Ip_Addr Ordered_Map
begin

text \<open>
  \<open>src/docker/ports.rs\<close> with the port types of \<open>src/config\<close>: when two host port bindings conflict,
  the search for a free host port, and the resolution of configured and of automatically detected
  forward ports. The operating system is asked through a closure, so the searches pass the state of
  the world along. The relation \<open>conflict\<close> is used through the locale \<open>binding_conflict\<close>, also by
  the planner of Compose ports.
\<close>

section \<open>Types\<close>

datatype port_protocol = Tcp | Udp

datatype on_auto_forward = Notify | Silent | Ignore

definition default_port_host_ip :: string where
  "default_port_host_ip = ''127.0.0.1''"

definition default_auto_port_min :: u16 where
  "default_auto_port_min = 1024"

definition default_auto_port_max :: u16 where
  "default_auto_port_max = 32768"

record resolved_port =
  rp_enabled :: bool
  rp_service :: "string option"
  rp_container :: u16
  rp_host :: "u16 option"
  rp_host_ip :: string
  rp_protocol :: port_protocol
  rp_require_local :: bool
  rp_label :: "string option"

record resolved_publish_port =
  pp_container :: u16
  pp_host :: "u16 option"
  pp_host_ip :: "string option"
  pp_protocol :: port_protocol

record resolved_auto_ports =
  ap_enabled :: bool
  ap_min :: u16
  ap_max :: u16
  ap_ignore :: "u16 list"
  ap_on_auto_forward :: on_auto_forward

definition default_auto_ports :: resolved_auto_ports where
  "default_auto_ports = \<lparr>ap_enabled = True, ap_min = default_auto_port_min, ap_max = default_auto_port_max,
     ap_ignore = [], ap_on_auto_forward = Notify\<rparr>"

record resolved_port_attributes =
  pa_label :: "string option"
  pa_on_auto_forward :: "on_auto_forward option"
  pa_require_local_port :: "bool option"
  pa_unsupported_protocol :: "string option"
  pa_unsupported_elevate_if_needed :: "bool option"

record resolved_forward_port =
  fp_service :: "string option"
  fp_container :: u16
  fp_requested_host :: u16
  fp_host :: u16
  fp_host_ip :: string
  fp_protocol :: port_protocol
  fp_require_local :: bool
  fp_label :: "string option"

record resolved_auto_forward_port =
  af_port :: resolved_forward_port
  af_on_auto_forward :: on_auto_forward

record host_port_reservation =
  hr_host_ip :: string
  hr_host :: u16

datatype host_port_probe = Available | Occupied | Unprobeable

section \<open>Conflicting bindings\<close>

fun same_ip_family :: "ip_addr \<Rightarrow> ip_addr \<Rightarrow> bool" where
  "same_ip_family (V4 _) (V4 _) = True"
| "same_ip_family (V6 _) (V6 _) = True"
| "same_ip_family _ _ = False"

definition host_ip_bindings_conflict :: "string \<Rightarrow> string \<Rightarrow> bool" where
  "host_ip_bindings_conflict left right =
     (if left = right then True
      else case parse_ip left of
             None \<Rightarrow> False
           | Some l \<Rightarrow>
               (case parse_ip right of
                  None \<Rightarrow> False
                | Some r \<Rightarrow> (is_unspecified l \<or> is_unspecified r) \<and> same_ip_family l r))"

definition host_port_reservations_conflict :: "host_port_reservation list \<Rightarrow> string \<Rightarrow> u16 \<Rightarrow> bool" where
  "host_port_reservations_conflict reservations candidate_host_ip candidate_host =
     list_ex (\<lambda>existing. hr_host existing = candidate_host \<and>
         host_ip_bindings_conflict (hr_host_ip existing) candidate_host_ip) reservations"

definition resolved_forward_port_reservations :: "resolved_forward_port list \<Rightarrow> host_port_reservation list" where
  "resolved_forward_port_reservations resolved =
     map (\<lambda>port. \<lparr>hr_host_ip = fp_host_ip port, hr_host = fp_host port\<rparr>) resolved"

section \<open>Asking the operating system\<close>

text \<open>\<open>TcpListener::bind\<close> is outside; its error has a kind and a text.\<close>

datatype bind_error = Addr_In_Use string | Permission_Denied string | Other_Bind_Error string

fun bind_error_text :: "bind_error \<Rightarrow> string" where
  "bind_error_text (Addr_In_Use text) = text"
| "bind_error_text (Permission_Denied text) = text"
| "bind_error_text (Other_Bind_Error text) = text"

definition availability_error :: "bind_error \<Rightarrow> string \<Rightarrow> u16 \<Rightarrow> string" where
  "availability_error error host_ip host_port =
     fmt [''check host port availability for '', host_ip, '':'', show_nat (unat host_port), '': '',
          bind_error_text error]"

fun host_port_probe_from_bind_error :: "bind_error \<Rightarrow> string \<Rightarrow> u16 \<Rightarrow> string + host_port_probe" where
  "host_port_probe_from_bind_error (Addr_In_Use _) host_ip host_port = Inr Occupied"
| "host_port_probe_from_bind_error (Permission_Denied _) host_ip host_port = Inr Unprobeable"
| "host_port_probe_from_bind_error (Other_Bind_Error text) host_ip host_port =
     Inl (availability_error (Other_Bind_Error text) host_ip host_port)"

definition probe_host_port ::
  "(string \<Rightarrow> u16 \<Rightarrow> ('w, bind_error, unit) io) \<Rightarrow> string \<Rightarrow> u16 \<Rightarrow> ('w, string, host_port_probe) io" where
  "probe_host_port bind host_ip host_port w =
     (case bind host_ip host_port w of
        (Inr _, w') \<Rightarrow> (Inr Available, w')
      | (Inl error, w') \<Rightarrow> (host_port_probe_from_bind_error error host_ip host_port, w'))"

definition host_port_available ::
  "(string \<Rightarrow> u16 \<Rightarrow> ('w, bind_error, unit) io) \<Rightarrow> string \<Rightarrow> u16 \<Rightarrow> ('w, string, bool) io" where
  "host_port_available bind host_ip host_port w =
     (case bind host_ip host_port w of
        (Inr _, w') \<Rightarrow> (Inr True, w')
      | (Inl (Addr_In_Use _), w') \<Rightarrow> (Inr False, w')
      | (Inl error, w') \<Rightarrow> (Inl (availability_error error host_ip host_port), w'))"

section \<open>Searching for a port\<close>

text \<open>The loop of the searches: try the candidate, go on with the next, stop after port 65535.\<close>

function search_port :: "(u16 \<Rightarrow> ('w, 'e, bool) io) \<Rightarrow> u16 \<Rightarrow> ('w, 'e, u16 option) io" where
  "search_port acceptable candidate w =
     (case acceptable candidate w of
        (Inl e, w') \<Rightarrow> (Inl e, w')
      | (Inr available, w') \<Rightarrow>
          if available then (Inr (Some candidate), w')
          else case checked_add candidate 1 of
                 None \<Rightarrow> (Inr None, w')
               | Some next_candidate \<Rightarrow> search_port acceptable next_candidate w')"
  by pat_completeness auto
termination
proof (relation "measure (\<lambda>(acceptable, candidate, w). 65536 - unat candidate)")
  fix candidate next_candidate :: u16 and acceptable :: "u16 \<Rightarrow> ('w, 'e, bool) io" and w w'
  assume "checked_add candidate 1 = Some next_candidate"
  then have "unat next_candidate = unat candidate + unat (1 :: u16)" by (rule checked_add_SomeD)
  then show "((acceptable, next_candidate, w'), acceptable, candidate, w)
      \<in> measure (\<lambda>(acceptable, candidate, w). 65536 - unat candidate)"
    using unat_u16_bound [of next_candidate] by simp
qed simp

declare search_port.simps [simp del]

definition resolve_host_port ::
  "(string \<Rightarrow> u16 \<Rightarrow> ('w, 'e, bool) io) \<Rightarrow> resolved_port \<Rightarrow> u16 \<Rightarrow> resolved_forward_port list \<Rightarrow>
   host_port_reservation list \<Rightarrow> ('w, 'e, u16) io" where
  "resolve_host_port available port start_host resolved additional_host_reservations =
     (let reservations = resolved_forward_port_reservations resolved @ additional_host_reservations
      in io_bind
           (search_port (\<lambda>candidate.
               if host_port_reservations_conflict reservations (rp_host_ip port) candidate
               then io_return False
               else available (rp_host_ip port) candidate)
             start_host)
           (\<lambda>found. io_return (case found of Some candidate \<Rightarrow> candidate | None \<Rightarrow> 0)))"

section \<open>Configured forward ports\<close>

definition resolve_forward_port ::
  "(string \<Rightarrow> u16 \<Rightarrow> ('w, 'e, bool) io) \<Rightarrow> host_port_reservation list \<Rightarrow> resolved_forward_port list \<Rightarrow>
   resolved_port \<Rightarrow> ('w, 'e, resolved_forward_port list) io" where
  "resolve_forward_port available additional_host_reservations resolved port =
     (let start_host = (case rp_host port of Some host \<Rightarrow> host | None \<Rightarrow> rp_container port)
      in io_bind (resolve_host_port available port start_host resolved additional_host_reservations) (\<lambda>host.
         io_return (resolved @
           [\<lparr>fp_service = rp_service port, fp_container = rp_container port, fp_requested_host = start_host,
             fp_host = host, fp_host_ip = rp_host_ip port, fp_protocol = rp_protocol port,
             fp_require_local = rp_require_local port, fp_label = rp_label port\<rparr>])))"

definition resolve_forward_ports_inner ::
  "(string \<Rightarrow> u16 \<Rightarrow> ('w, 'e, bool) io) \<Rightarrow> resolved_port list \<Rightarrow> host_port_reservation list \<Rightarrow>
   ('w, 'e, resolved_forward_port list) io" where
  "resolve_forward_ports_inner available ports additional_host_reservations =
     io_fold (resolve_forward_port available additional_host_reservations) [] ports"

section \<open>Detected ports\<close>

record auto_forward_resolve_input =
  ai_existing_forward_ports :: "resolved_forward_port list"
  ai_publish_ports :: "resolved_publish_port list"
  ai_auto_ports :: resolved_auto_ports
  ai_port_attributes :: "(string, resolved_port_attributes) btree_map"
  ai_other_ports_attributes :: "resolved_port_attributes option"
  ai_additional_host_reservations :: "host_port_reservation list"

definition auto_forward_candidate :: "auto_forward_resolve_input \<Rightarrow> u16 \<Rightarrow> bool" where
  "auto_forward_candidate input container =
     (\<not> (container < ap_min (ai_auto_ports input) \<or> ap_max (ai_auto_ports input) \<le> container \<or>
         container \<in> set (ap_ignore (ai_auto_ports input)) \<or>
         container \<in> set (map fp_container (ai_existing_forward_ports input)) \<or>
         container \<in> set (map pp_container (filter (\<lambda>port. pp_protocol port = Tcp) (ai_publish_ports input)))))"

definition auto_forward_attributes :: "auto_forward_resolve_input \<Rightarrow> u16 \<Rightarrow> resolved_port_attributes option" where
  "auto_forward_attributes input container =
     (case bt_get (ai_port_attributes input) (show_nat (unat container)) of
        Some attributes \<Rightarrow> Some attributes
      | None \<Rightarrow> ai_other_ports_attributes input)"

definition on_auto_forward_of :: "auto_forward_resolve_input \<Rightarrow> u16 \<Rightarrow> on_auto_forward" where
  "on_auto_forward_of input container =
     (case Option.bind (auto_forward_attributes input container) pa_on_auto_forward of
        Some action \<Rightarrow> action
      | None \<Rightarrow> ap_on_auto_forward (ai_auto_ports input))"

definition resolve_auto_forward_port ::
  "(string \<Rightarrow> u16 \<Rightarrow> ('w, 'e, bool) io) \<Rightarrow> auto_forward_resolve_input \<Rightarrow>
   resolved_forward_port list \<times> resolved_auto_forward_port list \<Rightarrow> u16 \<Rightarrow>
   ('w, 'e, resolved_forward_port list \<times> resolved_auto_forward_port list) io" where
  "resolve_auto_forward_port available input so_far container =
     (if \<not> auto_forward_candidate input container then io_return so_far
      else
        let attributes = auto_forward_attributes input container;
            on_auto_forward = on_auto_forward_of input container
        in if on_auto_forward = Ignore then io_return so_far
           else
             let port = \<lparr>rp_enabled = True, rp_service = None, rp_container = container,
                         rp_host = Some container, rp_host_ip = default_port_host_ip, rp_protocol = Tcp,
                         rp_require_local =
                           (case Option.bind attributes pa_require_local_port of Some b \<Rightarrow> b | None \<Rightarrow> False),
                         rp_label = Option.bind attributes pa_label\<rparr>
             in io_bind (resolve_host_port available port container (fst so_far)
                          (ai_additional_host_reservations input)) (\<lambda>host.
                let forward = \<lparr>fp_service = None, fp_container = container, fp_requested_host = container,
                               fp_host = host, fp_host_ip = default_port_host_ip, fp_protocol = Tcp,
                               fp_require_local = rp_require_local port, fp_label = rp_label port\<rparr>
                in io_return (fst so_far @ [forward],
                     snd so_far @ [\<lparr>af_port = forward, af_on_auto_forward = on_auto_forward\<rparr>])))"

definition resolve_auto_forward_ports_inner ::
  "(string \<Rightarrow> u16 \<Rightarrow> ('w, 'e, bool) io) \<Rightarrow> u16 list \<Rightarrow> auto_forward_resolve_input \<Rightarrow>
   ('w, 'e, resolved_auto_forward_port list) io" where
  "resolve_auto_forward_ports_inner available detected_ports input =
     (if \<not> ap_enabled (ai_auto_ports input) then io_return []
      else
        io_bind (io_fold (resolve_auto_forward_port available input) (ai_existing_forward_ports input, [])
                   (remdups_adj (sort detected_ports))) (\<lambda>(resolved, additions).
        io_return additions))"

section \<open>The contract of a conflict relation\<close>

text \<open>
  A planner keeps a list of reservations and adds one that conflicts with none of them. All it needs
  of the relation is that it is reflexive and symmetric; then the list never holds two
  conflicting reservations, and in particular none twice.
\<close>

locale binding_conflict =
  fixes conflict :: "'r \<Rightarrow> 'r \<Rightarrow> bool"
  assumes conflict_refl: "conflict r r"
    and conflict_sym: "conflict r s \<Longrightarrow> conflict s r"
begin

definition free :: "'r list \<Rightarrow> 'r \<Rightarrow> bool" where
  "free rs r \<longleftrightarrow> (\<forall>s\<in>set rs. \<not> conflict s r)"

definition separate :: "'r list \<Rightarrow> bool" where
  "separate rs \<longleftrightarrow> sorted_wrt (\<lambda>r s. \<not> conflict r s) rs"

lemma separate_Nil [simp]: "separate []"
  by (simp add: separate_def)

lemma separate_snoc: "separate (rs @ [r]) \<longleftrightarrow> separate rs \<and> free rs r"
  by (auto simp: separate_def free_def sorted_wrt_append)

lemma separate_append: "separate (rs @ ss) \<longleftrightarrow> separate rs \<and> separate ss \<and> (\<forall>s\<in>set ss. free rs s)"
  by (auto simp: separate_def free_def sorted_wrt_append)

lemma separate_nth: "separate rs \<Longrightarrow> i < length rs \<Longrightarrow> j < length rs \<Longrightarrow> i \<noteq> j \<Longrightarrow> \<not> conflict (rs ! i) (rs ! j)"
  unfolding separate_def sorted_wrt_iff_nth_less using conflict_sym by (metis nat_neq_iff)

lemma separate_distinct: "separate rs \<Longrightarrow> distinct rs"
  unfolding distinct_conv_nth using separate_nth conflict_refl by metis

lemma separate_iff: "separate rs \<longleftrightarrow> distinct rs \<and> (\<forall>r\<in>set rs. \<forall>s\<in>set rs. r \<noteq> s \<longrightarrow> \<not> conflict r s)"
proof
  assume "separate rs"
  then show "distinct rs \<and> (\<forall>r\<in>set rs. \<forall>s\<in>set rs. r \<noteq> s \<longrightarrow> \<not> conflict r s)"
    using separate_distinct separate_nth by (metis in_set_conv_nth)
next
  assume "distinct rs \<and> (\<forall>r\<in>set rs. \<forall>s\<in>set rs. r \<noteq> s \<longrightarrow> \<not> conflict r s)"
  then show "separate rs"
    unfolding separate_def sorted_wrt_iff_nth_less by (metis nth_eq_iff_index_eq nth_mem nat_neq_iff order.strict_trans)
qed

text \<open>Sorting the list changes nothing.\<close>

lemma separate_sorted: "separate (map f (sort_key k xs)) \<longleftrightarrow> separate (map f xs)"
  by (simp add: separate_iff distinct_map)

lemma free_append: "free (rs @ ss) r \<longleftrightarrow> free rs r \<and> free ss r"
  by (auto simp: free_def)

end

definition reservation_conflict :: "host_port_reservation \<Rightarrow> host_port_reservation \<Rightarrow> bool" where
  "reservation_conflict r s \<longleftrightarrow> hr_host r = hr_host s \<and> host_ip_bindings_conflict (hr_host_ip r) (hr_host_ip s)"

lemma same_ip_family_sym: "same_ip_family a b = same_ip_family b a"
  by (cases a; cases b) auto

lemma same_ip_family_refl: "same_ip_family a a"
  by (cases a) auto

lemma host_ip_bindings_conflict_sym: "host_ip_bindings_conflict l r = host_ip_bindings_conflict r l"
  by (auto simp: host_ip_bindings_conflict_def same_ip_family_sym split: option.splits)

interpretation host_ports: binding_conflict reservation_conflict
proof
  fix r show "reservation_conflict r r"
    by (simp add: reservation_conflict_def host_ip_bindings_conflict_def)
next
  fix r s assume "reservation_conflict r s"
  then show "reservation_conflict s r"
    unfolding reservation_conflict_def using host_ip_bindings_conflict_sym by metis
qed

lemma reservations_conflict_iff:
  "host_port_reservations_conflict rs ip port \<longleftrightarrow> \<not> host_ports.free rs \<lparr>hr_host_ip = ip, hr_host = port\<rparr>"
  by (auto simp: host_port_reservations_conflict_def host_ports.free_def reservation_conflict_def list_ex_iff)

section \<open>What a binding occupies\<close>

fun bound_addresses :: "ip_addr \<Rightarrow> ip_addr set" where
  "bound_addresses a = (if is_unspecified a then {b. same_ip_family a b} else {a})"

lemma ipv4_conflict_iff:
  assumes l: "parse_ip l = Some (V4 a)" and r: "parse_ip r = Some b"
  shows "host_ip_bindings_conflict l r \<longleftrightarrow> bound_addresses (V4 a) \<inter> bound_addresses b \<noteq> {}"
proof (cases b)
  case (V6 gs)
  then have "l \<noteq> r" using l r by auto
  moreover have "\<not> (same_ip_family (V4 a) x \<and> same_ip_family (V6 gs) x)" for x by (cases x) auto
  ultimately show ?thesis using l r V6 by (auto simp: host_ip_bindings_conflict_def split: if_splits)
next
  case (V4 c)
  have same: "l = r \<longleftrightarrow> a = c" using l r V4 parse_ip_V4D by auto
  have all: "same_ip_family (V4 x) (V4 y)" for x y by simp
  show ?thesis
    using l r V4 same exI [of "same_ip_family (V4 0)", OF same_ip_family_refl]
    by (auto simp: host_ip_bindings_conflict_def)
qed

text \<open>Two spellings of one IPv6 address are taken for different bindings.\<close>

theorem ipv6_spellings_do_not_conflict:
  "parse_ip ''::1'' = parse_ip ''0:0:0:0:0:0:0:1'' \<and> parse_ip ''::1'' \<noteq> None \<and>
   \<not> host_ip_bindings_conflict ''::1'' ''0:0:0:0:0:0:0:1''"
  by (simp add: ip_eval host_ip_bindings_conflict_def) (simp add: eval_nat_numeral)

section \<open>The search\<close>

lemma search_port_Some:
  "search_port ok c w = (Inr (Some p), w') \<Longrightarrow>
   unat c \<le> unat p \<and> (\<exists>v. ok p v = (Inr True, w')) \<and>
   (\<forall>q. unat c \<le> unat q \<and> unat q < unat p \<longrightarrow> (\<exists>v v'. ok q v = (Inr False, v')))"
proof (induction ok c w rule: search_port.induct)
  case (1 ok c w)
  obtain r w1 where step: "ok c w = (r, w1)" by (cases "ok c w")
  show ?case
  proof (cases r)
    case (Inl e)
    then show ?thesis using "1.prems" step by (simp add: search_port.simps [of ok c w])
  next
    case (Inr available)
    show ?thesis
    proof (cases available)
      case True
      then have "p = c" "w' = w1" using "1.prems" step Inr by (simp_all add: search_port.simps [of ok c w])
      then show ?thesis using step Inr True by auto
    next
      case False
      then obtain n where n: "checked_add c 1 = Some n"
        using "1.prems" step Inr by (cases "checked_add c 1") (simp_all add: search_port.simps [of ok c w])
      have "search_port ok n w1 = (Inr (Some p), w')"
        using "1.prems" step Inr False n by (simp add: search_port.simps [of ok c w])
      from "1.IH" [OF step [symmetric] Inr False n this] have IH: "unat n \<le> unat p" "\<exists>v. ok p v = (Inr True, w')"
          "\<forall>q. unat n \<le> unat q \<and> unat q < unat p \<longrightarrow> (\<exists>v v'. ok q v = (Inr False, v'))" by blast+
      have "unat n = unat c + 1" using checked_add_SomeD [OF n] by simp
      have "\<exists>v v'. ok q v = (Inr False, v')" if "unat c \<le> unat q" "unat q < unat p" for q
      proof (cases "q = c")
        case True
        then show ?thesis using step Inr False by auto
      next
        case False
        then have "unat n \<le> unat q" using that \<open>unat n = _\<close> by (simp add: word_unat_eq_iff)
        then show ?thesis using IH(3) that by blast
      qed
      then show ?thesis using IH \<open>unat n = _\<close> by auto
    qed
  qed
qed

lemma search_port_None:
  "search_port ok c w = (Inr None, w') \<Longrightarrow> \<forall>q :: u16. unat c \<le> unat q \<longrightarrow> (\<exists>v v'. ok q v = (Inr False, v'))"
proof (induction ok c w rule: search_port.induct)
  case (1 ok c w)
  obtain r w1 where step: "ok c w = (r, w1)" by (cases "ok c w")
  obtain available where Inr: "r = Inr available"
    using "1.prems" step by (cases r) (simp_all add: search_port.simps [of ok c w])
  have False': "\<not> available"
    using "1.prems" step Inr by (cases available) (simp_all add: search_port.simps [of ok c w])
  show ?case
  proof (cases "checked_add c 1")
    case None
    then have "unat c = 65535"
      using checked_add_None_iff [of c 1] unat_u16_bound [of c] by simp
    then have "q = c" if "unat c \<le> unat q" for q :: u16
      using that unat_u16_bound [of q] by (simp add: word_unat_eq_iff)
    then show ?thesis using step Inr False' by auto
  next
    case (Some n)
    have "search_port ok n w1 = (Inr None, w')"
      using "1.prems" step Inr False' Some by (simp add: search_port.simps [of ok c w])
    note IH = "1.IH" [OF step [symmetric] Inr False' Some this]
    have n: "unat n = unat c + 1" using checked_add_SomeD [OF Some] by simp
    show ?thesis
    proof (intro allI impI)
      fix q :: u16 assume q: "unat c \<le> unat q"
      show "\<exists>v v'. ok q v = (Inr False, v')"
      proof (cases "q = c")
        case True
        then show ?thesis using step Inr False' by auto
      next
        case False
        then have "unat n \<le> unat q" using q n by (simp add: word_unat_eq_iff)
        then show ?thesis using IH by blast
      qed
    qed
  qed
qed

definition rejected ::
  "(string \<Rightarrow> u16 \<Rightarrow> ('w, 'e, bool) io) \<Rightarrow> host_port_reservation list \<Rightarrow> string \<Rightarrow> u16 \<Rightarrow> bool" where
  "rejected available rs ip q \<longleftrightarrow> \<not> host_ports.free rs \<lparr>hr_host_ip = ip, hr_host = q\<rparr> \<or>
     (\<exists>v v'. available ip q v = (Inr False, v'))"

lemma resolve_host_port_ok:
  assumes "resolve_host_port available port start resolved additional w = (Inr h, w')"
  defines "rs \<equiv> resolved_forward_port_reservations resolved @ additional"
  shows "(unat start \<le> unat h \<and> host_ports.free rs \<lparr>hr_host_ip = rp_host_ip port, hr_host = h\<rparr> \<and>
      (\<exists>v. available (rp_host_ip port) h v = (Inr True, w')) \<and>
      (\<forall>q. unat start \<le> unat q \<and> unat q < unat h \<longrightarrow> rejected available rs (rp_host_ip port) q)) \<or>
     (h = 0 \<and> (\<forall>q. unat start \<le> unat q \<longrightarrow> rejected available rs (rp_host_ip port) q))"
proof -
  let ?ok = "\<lambda>candidate. if host_port_reservations_conflict rs (rp_host_ip port) candidate
               then io_return False else available (rp_host_ip port) candidate"
  obtain found where f: "search_port ?ok start w = (Inr found, w')"
      "h = (case found of Some candidate \<Rightarrow> candidate | None \<Rightarrow> 0)"
    using assms(1) unfolding resolve_host_port_def Let_def rs_def by (auto simp: io_elims)
  have rej: "\<exists>v v'. ?ok q v = (Inr False, v') \<Longrightarrow> rejected available rs (rp_host_ip port) q" for q
    by (auto simp: rejected_def reservations_conflict_iff split: if_splits)
  show ?thesis
  proof (cases found)
    case None
    then show ?thesis using search_port_None [of ?ok start w w'] f rej by auto
  next
    case (Some p)
    then have p: "h = p" using f by simp
    from search_port_Some [of ?ok start w p w'] f(1) Some obtain v where
      v: "unat start \<le> unat p" "?ok p v = (Inr True, w')"
        "\<And>q. unat start \<le> unat q \<Longrightarrow> unat q < unat p \<Longrightarrow> \<exists>v v'. ?ok q v = (Inr False, v')" by auto
    from v(2) have "host_ports.free rs \<lparr>hr_host_ip = rp_host_ip port, hr_host = p\<rparr>"
        "available (rp_host_ip port) p v = (Inr True, w')"
      by (auto simp: reservations_conflict_iff io_elims split: if_splits)
    with v rej p show ?thesis by blast
  qed
qed

section \<open>Lists of forward ports\<close>

text \<open>Each resolved port is free of the reservations and of the ports before it, unless it was left to the
  operating system with port 0.\<close>

definition forwards_separate :: "host_port_reservation list \<Rightarrow> resolved_forward_port list \<Rightarrow> nat \<Rightarrow> bool" where
  "forwards_separate additional resolved j \<longleftrightarrow> fp_host (resolved ! j) = 0 \<or>
     host_ports.free (resolved_forward_port_reservations (take j resolved) @ additional)
       \<lparr>hr_host_ip = fp_host_ip (resolved ! j), hr_host = fp_host (resolved ! j)\<rparr>"

lemma forwards_separate_snoc:
  "i < length resolved \<Longrightarrow> forwards_separate additional (resolved @ [p]) i = forwards_separate additional resolved i"
  by (simp add: forwards_separate_def nth_append)

lemma resolve_host_port_separate:
  assumes "resolve_host_port available port start resolved additional w = (Inr (fp_host p), w')"
    and "fp_host_ip p = rp_host_ip port"
  shows "forwards_separate additional (resolved @ [p]) (length resolved)"
  using resolve_host_port_ok [OF assms(1)] assms(2)
  by (auto simp: forwards_separate_def nth_append)

lemma forwards_separate_pair:
  assumes "forwards_separate additional resolved j" "i < j" "j < length resolved" "fp_host (resolved ! i) \<noteq> 0"
  shows "\<not> (fp_host (resolved ! i) = fp_host (resolved ! j) \<and>
     host_ip_bindings_conflict (fp_host_ip (resolved ! i)) (fp_host_ip (resolved ! j)))"
proof (cases "fp_host (resolved ! j) = 0")
  case True
  then show ?thesis using assms(4) by auto
next
  case False
  let ?r = "\<lambda>p. \<lparr>hr_host_ip = fp_host_ip p, hr_host = fp_host p\<rparr>"
  have "resolved ! i \<in> set (take j resolved)" using assms(2,3) by (auto simp: in_set_conv_nth)
  then have "?r (resolved ! i) \<in> set (resolved_forward_port_reservations (take j resolved) @ additional)"
    by (auto simp: resolved_forward_port_reservations_def)
  then have "\<not> reservation_conflict (?r (resolved ! i)) (?r (resolved ! j))"
    using assms(1) False unfolding forwards_separate_def host_ports.free_def by blast
  then show ?thesis by (simp add: reservation_conflict_def)
qed

definition requested_host_of :: "resolved_port \<Rightarrow> u16" where
  "requested_host_of port = (case rp_host port of Some host \<Rightarrow> host | None \<Rightarrow> rp_container port)"

definition forwards :: "resolved_port \<Rightarrow> resolved_forward_port \<Rightarrow> bool" where
  "forwards port p \<longleftrightarrow>
     fp_service p = rp_service port \<and> fp_container p = rp_container port \<and>
     fp_requested_host p = requested_host_of port \<and> fp_host_ip p = rp_host_ip port \<and>
     fp_protocol p = rp_protocol port \<and> fp_require_local p = rp_require_local port \<and> fp_label p = rp_label port"

lemma resolve_forward_ports_ok:
  assumes "resolve_forward_ports_inner available ports additional w = (Inr resolved, w')"
  shows "list_all2 forwards ports resolved \<and> (\<forall>j<length resolved. forwards_separate additional resolved j)"
  using assms unfolding resolve_forward_ports_inner_def
proof (rule io_fold_invariant)
  fix ys port s t and v v'
  assume P: "list_all2 forwards ys s \<and> (\<forall>j<length s. forwards_separate additional s j)"
    and step: "resolve_forward_port available additional s port v = (Inr t, v')"
  obtain h where h: "resolve_host_port available port (requested_host_of port) s additional v = (Inr h, v')"
      "t = s @ [\<lparr>fp_service = rp_service port, fp_container = rp_container port,
             fp_requested_host = requested_host_of port,
             fp_host = h, fp_host_ip = rp_host_ip port, fp_protocol = rp_protocol port,
             fp_require_local = rp_require_local port, fp_label = rp_label port\<rparr>]"
    using step unfolding resolve_forward_port_def requested_host_of_def [symmetric] Let_def by (auto simp: io_elims)
  let ?p = "last t"
  have t: "t = s @ [?p]" "fp_host ?p = h" "fp_host_ip ?p = rp_host_ip port" "forwards port ?p"
    by (simp_all add: h(2) forwards_def)
  have "forwards_separate additional t (length s)"
    using resolve_host_port_separate [of available port _ s additional v ?p] h(1) t by metis
  then show "list_all2 forwards (ys @ [port]) t \<and> (\<forall>j<length t. forwards_separate additional t j)"
    using P t(1,4) forwards_separate_snoc by (metis length_append_singleton less_Suc_eq list_all2_Cons list_all2_Nil
        list_all2_appendI)
qed simp

section \<open>Detected ports\<close>

lemma distinct_remdups_adj_sorted: "sorted xs \<Longrightarrow> distinct (remdups_adj xs)"
  by (induction xs rule: remdups_adj.induct) (auto simp: order.antisym)

lemma remdups_adj_sort: "sorted_wrt (<) (remdups_adj (sort xs))"
proof -
  have "sorted (remdups_adj (sort xs))" by (simp add: sorted_remdups_adj)
  moreover have "distinct (remdups_adj (sort xs))"
    by (rule distinct_remdups_adj_sorted) simp
  ultimately show ?thesis by (simp add: strict_sorted_iff)
qed

lemma auto_forward_invariant:
  assumes "io_fold (resolve_auto_forward_port available input) (ai_existing_forward_ports input, []) ports w =
      (Inr (resolved, additions), w')"
  shows "map (\<lambda>a. fp_container (af_port a)) additions =
      filter (\<lambda>c. auto_forward_candidate input c \<and> on_auto_forward_of input c \<noteq> Ignore) ports \<and>
    resolved = ai_existing_forward_ports input @ map af_port additions \<and>
    (\<forall>a\<in>set additions. af_on_auto_forward a = on_auto_forward_of input (fp_container (af_port a)) \<and>
       fp_host_ip (af_port a) = default_port_host_ip \<and> fp_requested_host (af_port a) = fp_container (af_port a)) \<and>
    (\<forall>j. length (ai_existing_forward_ports input) \<le> j \<and> j < length resolved \<longrightarrow>
       forwards_separate (ai_additional_host_reservations input) resolved j)"
    (is "?P ports (resolved, additions)")
proof -
  define P where "P = (\<lambda>ports (resolved, additions :: resolved_auto_forward_port list). map (\<lambda>a. fp_container (af_port a)) additions =
      filter (\<lambda>c. auto_forward_candidate input c \<and> on_auto_forward_of input c \<noteq> Ignore) ports \<and>
    resolved = ai_existing_forward_ports input @ map af_port additions \<and>
    (\<forall>a\<in>set additions. af_on_auto_forward a = on_auto_forward_of input (fp_container (af_port a)) \<and>
       fp_host_ip (af_port a) = default_port_host_ip \<and> fp_requested_host (af_port a) = fp_container (af_port a)) \<and>
    (\<forall>j. length (ai_existing_forward_ports input) \<le> j \<and> j < length resolved \<longrightarrow>
       forwards_separate (ai_additional_host_reservations input) resolved j))"
  have "P ports (resolved, additions)"
    using assms
  proof (rule io_fold_invariant)
    show "P [] (ai_existing_forward_ports input, [])" by (auto simp: P_def)
  next
    fix ys c s t and v v'
    assume Ps: "P ys s" and step: "resolve_auto_forward_port available input s c v = (Inr t, v')"
    obtain rs as' where s: "s = (rs, as')" by (cases s)
    show "P (ys @ [c]) t"
    proof (cases "auto_forward_candidate input c \<and> on_auto_forward_of input c \<noteq> Ignore")
      case False
      then have "t = s" using step unfolding resolve_auto_forward_port_def Let_def by (auto simp: io_elims split: if_splits)
      then show ?thesis using Ps False by (auto simp: P_def s)
    next
      case True
      define port where "port = \<lparr>rp_enabled = True, rp_service = None, rp_container = c,
           rp_host = Some c, rp_host_ip = default_port_host_ip, rp_protocol = Tcp,
           rp_require_local = (case Option.bind (auto_forward_attributes input c) pa_require_local_port of
              Some b \<Rightarrow> b | None \<Rightarrow> False),
           rp_label = Option.bind (auto_forward_attributes input c) pa_label\<rparr>"
      define fwd where "fwd = (\<lambda>h. \<lparr>fp_service = None, fp_container = c, fp_requested_host = c,
           fp_host = h, fp_host_ip = default_port_host_ip, fp_protocol = Tcp,
           fp_require_local = rp_require_local port, fp_label = rp_label port\<rparr>)"
      obtain h where h: "resolve_host_port available port c rs (ai_additional_host_reservations input) v = (Inr h, v')"
          "t = (rs @ [fwd h], as' @ [\<lparr>af_port = fwd h, af_on_auto_forward = on_auto_forward_of input c\<rparr>])"
        using step True unfolding s resolve_auto_forward_port_def Let_def port_def [symmetric] fwd_def
        by (auto simp: io_elims)
      have "forwards_separate (ai_additional_host_reservations input) (rs @ [fwd h]) (length rs)"
        using h(1) by (intro resolve_host_port_separate) (auto simp: fwd_def port_def)
      then have "\<forall>j. length (ai_existing_forward_ports input) \<le> j \<and> j < length (rs @ [fwd h]) \<longrightarrow>
          forwards_separate (ai_additional_host_reservations input) (rs @ [fwd h]) j"
        using Ps unfolding P_def s prod.case by (auto simp: forwards_separate_snoc less_Suc_eq simp del: append_assoc)
      moreover have "fp_container (fwd h) = c" "fp_host_ip (fwd h) = default_port_host_ip"
          "fp_requested_host (fwd h) = c" by (simp_all add: fwd_def)
      ultimately show ?thesis
        using Ps True unfolding h(2) P_def s prod.case by (auto simp del: append_assoc)
    qed
  qed
  then show ?thesis unfolding P_def prod.case .
qed

section \<open>Examples\<close>

definition example_port :: "u16 \<Rightarrow> resolved_port" where
  "example_port container =
     \<lparr>rp_enabled = True, rp_service = None, rp_container = container, rp_host = None,
      rp_host_ip = default_port_host_ip, rp_protocol = Tcp, rp_require_local = False, rp_label = None\<rparr>"

definition example_forward :: "u16 \<Rightarrow> u16 \<Rightarrow> resolved_forward_port" where
  "example_forward container host =
     \<lparr>fp_service = None, fp_container = container, fp_requested_host = container, fp_host = host,
      fp_host_ip = default_port_host_ip, fp_protocol = Tcp, fp_require_local = False, fp_label = None\<rparr>"

text \<open>Only port 3000 of the host is taken.\<close>

definition example_host :: "string \<Rightarrow> u16 \<Rightarrow> (unit, string, bool) io" where
  "example_host host_ip port w = (Inr (port \<noteq> 3000), w)"

definition example_auto_input :: auto_forward_resolve_input where
  "example_auto_input = \<lparr>ai_existing_forward_ports = [], ai_publish_ports = [],
     ai_auto_ports = default_auto_ports, ai_port_attributes = [], ai_other_ports_attributes = None,
     ai_additional_host_reservations = []\<rparr>"

lemmas port_eval = resolve_host_port_def search_port.simps host_port_reservations_conflict_def
  host_ip_bindings_conflict_def resolved_forward_port_reservations_def checked_add_def io_defs

lemma example_forwards:
  "resolve_forward_ports_inner example_host [example_port 3000, example_port 3001] [] () =
     (Inr [example_forward 3000 3001, example_forward 3001 3002], ())"
  by (simp add: resolve_forward_ports_inner_def resolve_forward_port_def port_eval example_host_def
      example_port_def example_forward_def)

lemma example_auto:
  "resolve_auto_forward_ports_inner example_host [3000, 80, 3000] example_auto_input () =
     (Inr [\<lparr>af_port = example_forward 3000 3001, af_on_auto_forward = Notify\<rparr>], ())"
  by (simp add: resolve_auto_forward_ports_inner_def resolve_auto_forward_port_def port_eval example_host_def
      example_auto_input_def default_auto_ports_def default_auto_port_min_def default_auto_port_max_def
      auto_forward_candidate_def on_auto_forward_of_def auto_forward_attributes_def bt_get_def
      example_forward_def Let_def)

section \<open>Properties\<close>

text \<open>Two bindings, one of them IPv4, conflict exactly when some address is bound by both,
  where the unspecified address binds every address of its family.\<close>

theorem ipv4_bindings_conflict_exactly:
  assumes "parse_ip left = Some (V4 a)" "parse_ip right = Some b"
  shows "host_ip_bindings_conflict left right \<longleftrightarrow> bound_addresses (V4 a) \<inter> bound_addresses b \<noteq> {}"
  using assms by (rule ipv4_conflict_iff)

theorem ipv4_bindings_conflict_exactly_witness:
  "host_ip_bindings_conflict (show_ipv4 0) (show_ipv4 1) \<longleftrightarrow> bound_addresses (V4 0) \<inter> bound_addresses (V4 1) \<noteq> {}"
  by (rule ipv4_bindings_conflict_exactly [OF parse_ip_show_ipv4 parse_ip_show_ipv4])

text \<open>C35. resolve_host_port returns the least port from the start on that no reservation
  conflicts with and that is available, or 0 when there is none up to 65535.\<close>

theorem host_port_is_first_acceptable:
  assumes "resolve_host_port available port start resolved additional w = (Inr host, w')"
  defines "acceptable \<equiv> \<lambda>p. \<not> host_port_reservations_conflict
      (resolved_forward_port_reservations resolved @ additional) (rp_host_ip port) p"
  shows "(unat start \<le> unat host \<and> acceptable host \<and> (\<exists>v. available (rp_host_ip port) host v = (Inr True, w')) \<and>
      (\<forall>p. unat start \<le> unat p \<and> unat p < unat host \<longrightarrow>
         \<not> acceptable p \<or> (\<exists>v v'. available (rp_host_ip port) p v = (Inr False, v')))) \<or>
     (host = 0 \<and> (\<forall>p. unat start \<le> unat p \<longrightarrow>
         \<not> acceptable p \<or> (\<exists>v v'. available (rp_host_ip port) p v = (Inr False, v'))))"
  using resolve_host_port_ok [OF assms(1)]
  unfolding acceptable_def reservations_conflict_iff not_not rejected_def .

lemma example_search:
  "resolve_host_port example_host (example_port 3000) 3000 [example_forward 1 3001] [] () = (Inr 3002, ())"
  by (simp add: port_eval example_host_def example_port_def example_forward_def)

theorem host_port_is_first_acceptable_witness:
  "\<not> host_port_reservations_conflict (resolved_forward_port_reservations [example_forward 1 3001]) default_port_host_ip 3002"
  using host_port_is_first_acceptable [OF example_search] by (simp add: example_port_def)

text \<open>C36. Resolved forward ports correspond to the configured ones in order, and no two of
  them with a host port, nor one of them and an additional reservation, conflict.\<close>

theorem forward_ports_never_clash:
  assumes "resolve_forward_ports_inner available ports additional w = (Inr resolved, w')"
  shows "length resolved = length ports \<and>
     (\<forall>i<length ports. fp_container (resolved ! i) = rp_container (ports ! i) \<and>
        fp_host_ip (resolved ! i) = rp_host_ip (ports ! i) \<and>
        fp_requested_host (resolved ! i) =
          (case rp_host (ports ! i) of Some host \<Rightarrow> host | None \<Rightarrow> rp_container (ports ! i)) \<and>
        (fp_host (resolved ! i) \<noteq> 0 \<longrightarrow>
           \<not> host_port_reservations_conflict additional (fp_host_ip (resolved ! i)) (fp_host (resolved ! i)))) \<and>
     (\<forall>i j. i < j \<and> j < length ports \<and> fp_host (resolved ! i) \<noteq> 0 \<longrightarrow>
        \<not> (fp_host (resolved ! i) = fp_host (resolved ! j) \<and>
           host_ip_bindings_conflict (fp_host_ip (resolved ! i)) (fp_host_ip (resolved ! j))))"
proof -
  note ok = resolve_forward_ports_ok [OF assms]
  have len: "length resolved = length ports" using ok by (auto dest: list_all2_lengthD)
  show ?thesis
  proof (intro conjI allI impI)
    fix i assume i: "i < length ports"
    have f: "forwards (ports ! i) (resolved ! i)" using ok i list_all2_nthD by blast
    then show "fp_container (resolved ! i) = rp_container (ports ! i)" "fp_host_ip (resolved ! i) = rp_host_ip (ports ! i)"
      "fp_requested_host (resolved ! i) = (case rp_host (ports ! i) of Some host \<Rightarrow> host | None \<Rightarrow> rp_container (ports ! i))"
      by (simp_all add: forwards_def requested_host_of_def)
    assume "fp_host (resolved ! i) \<noteq> 0"
    then show "\<not> host_port_reservations_conflict additional (fp_host_ip (resolved ! i)) (fp_host (resolved ! i))"
      using ok i len unfolding forwards_separate_def reservations_conflict_iff host_ports.free_append by auto
  next
    fix i j assume "i < j \<and> j < length ports \<and> fp_host (resolved ! i) \<noteq> 0"
    then show "\<not> (fp_host (resolved ! i) = fp_host (resolved ! j) \<and>
           host_ip_bindings_conflict (fp_host_ip (resolved ! i)) (fp_host_ip (resolved ! j)))"
      using forwards_separate_pair [of additional resolved j i] ok len by auto
  qed (rule len)
qed

theorem forward_ports_never_clash_witness:
  "\<not> (fp_host (example_forward 3000 3001) = fp_host (example_forward 3001 3002) \<and>
      host_ip_bindings_conflict default_port_host_ip default_port_host_ip)"
  using forward_ports_never_clash [OF example_forwards] by (simp add: example_forward_def)

text \<open>The automatically forwarded ports are exactly the detected ones inside the configured
  range that are not ignored, not forwarded or published already and whose attributes do not say
  ignore, once each and ascending, and none conflicts with an existing forward port.\<close>

theorem detected_ports_forwarded_by_policy:
  assumes "resolve_auto_forward_ports_inner available detected input w = (Inr additions, w')"
    and "ap_enabled (ai_auto_ports input)"
  shows "sorted_wrt (<) (map (\<lambda>a. fp_container (af_port a)) additions) \<and>
     (\<forall>c. c \<in> set (map (\<lambda>a. fp_container (af_port a)) additions) \<longleftrightarrow>
        c \<in> set detected \<and> ap_min (ai_auto_ports input) \<le> c \<and> c < ap_max (ai_auto_ports input) \<and>
        c \<notin> set (ap_ignore (ai_auto_ports input)) \<and>
        c \<notin> set (map fp_container (ai_existing_forward_ports input)) \<and>
        (\<forall>p\<in>set (ai_publish_ports input). pp_protocol p = Tcp \<longrightarrow> pp_container p \<noteq> c) \<and>
        on_auto_forward_of input c \<noteq> Ignore) \<and>
     (\<forall>a\<in>set additions. fp_host (af_port a) \<noteq> 0 \<longrightarrow>
        (\<forall>p\<in>set (ai_existing_forward_ports input). \<not> (fp_host p = fp_host (af_port a) \<and>
           host_ip_bindings_conflict (fp_host_ip p) (fp_host_ip (af_port a)))))"
proof -
  let ?ports = "remdups_adj (sort detected)"
  obtain resolved where io: "io_fold (resolve_auto_forward_port available input) (ai_existing_forward_ports input, []) ?ports w =
      (Inr (resolved, additions), w')"
    using assms by (auto simp: resolve_auto_forward_ports_inner_def io_elims)
  note inv = auto_forward_invariant [OF io]
  have ports: "map (\<lambda>a. fp_container (af_port a)) additions =
      filter (\<lambda>c. auto_forward_candidate input c \<and> on_auto_forward_of input c \<noteq> Ignore) ?ports" using inv by blast
  have 1: "sorted_wrt (<) (map (\<lambda>a. fp_container (af_port a)) additions)"
    unfolding ports by (rule sorted_wrt_filter [OF remdups_adj_sort])
  have 2: "c \<in> set (map (\<lambda>a. fp_container (af_port a)) additions) \<longleftrightarrow>
        c \<in> set detected \<and> ap_min (ai_auto_ports input) \<le> c \<and> c < ap_max (ai_auto_ports input) \<and>
        c \<notin> set (ap_ignore (ai_auto_ports input)) \<and>
        c \<notin> set (map fp_container (ai_existing_forward_ports input)) \<and>
        (\<forall>p\<in>set (ai_publish_ports input). pp_protocol p = Tcp \<longrightarrow> pp_container p \<noteq> c) \<and>
        on_auto_forward_of input c \<noteq> Ignore" for c
    unfolding ports set_filter auto_forward_candidate_def by (auto simp: not_less not_le)
  have 3: "\<not> (fp_host p = fp_host (af_port a) \<and> host_ip_bindings_conflict (fp_host_ip p) (fp_host_ip (af_port a)))"
    if a: "a \<in> set additions" and nonzero: "fp_host (af_port a) \<noteq> 0"
      and p: "p \<in> set (ai_existing_forward_ports input)" for a p
  proof -
    let ?n = "length (ai_existing_forward_ports input)"
    have res: "resolved = ai_existing_forward_ports input @ map af_port additions" using inv by blast
    obtain k where k: "k < length additions" "additions ! k = a" using a by (metis in_set_conv_nth)
    obtain i where i: "i < ?n" "ai_existing_forward_ports input ! i = p" using p by (metis in_set_conv_nth)
    have j: "resolved ! (?n + k) = af_port a" "resolved ! i = p" using k i by (simp_all add: res nth_append)
    have "?n \<le> ?n + k \<and> ?n + k < length resolved" using k(1) by (simp add: res)
    then have "forwards_separate (ai_additional_host_reservations input) resolved (?n + k)" using inv by blast
    from forwards_separate_pair [OF this, of i] show ?thesis
      using i(1) k(1) j nonzero by (cases "fp_host p = 0") (simp_all add: res)
  qed
  show ?thesis by (intro conjI allI ballI impI) (fact 1, fact 2, rule 3)
qed

theorem detected_ports_forwarded_by_policy_witness:
  "(3000 :: u16) \<in> set (map (\<lambda>a. fp_container (af_port a)) [\<lparr>af_port = example_forward 3000 3001, af_on_auto_forward = Notify\<rparr>])"
  using detected_ports_forwarded_by_policy [OF example_auto]
  by (simp add: example_auto_input_def default_auto_ports_def example_forward_def)

end
