(* ===== verification/Compose_Ports.thy ===== *)
theory Compose_Ports
  imports Compose_Model Host_Ports
begin

text \<open>
  The data of Compose published ports (\<open>src/runtime/compose_ports/types.rs\<close>), endpoints
  (\<open>endpoint.rs\<close>), the classification of the port entries of a model (\<open>classify.rs\<close>) and the planning
  input (\<open>input.rs\<close>). The text of a JSON value in a message is the parameter \<open>json_text\<close>.
\<close>

section \<open>Types\<close>

datatype compose_port_syntax = Effective_Object

datatype compose_published_host_port =
    Single_Port u16
  | No_Port
  | Port_Range string
  | Invalid_Port string

datatype compose_port_host_ip = Omitted_Ip | Explicit_Ip string | Invalid_Ip string

datatype compose_port_protocol = Proto_Tcp | Proto_Udp | Proto_Other string | Proto_Invalid string

datatype compose_port_eligibility =
    Eligible_Fixed_Tcp
  | Unsupported_Container_Only
  | Unsupported_Udp
  | Unsupported_Range
  | Unsupported_Invalid
  | Unsupported_Other

record compose_port_entry =
  ce_service :: string
  ce_entry_index :: nat
  ce_service_replica_count :: nat
  ce_service_uses_host_network :: bool
  ce_syntax :: compose_port_syntax
  ce_target_port :: "u16 option"
  ce_published_host_port :: compose_published_host_port
  ce_host_ip :: compose_port_host_ip
  ce_protocol :: compose_port_protocol
  ce_original_fields :: "(string, json) btree_map"
  ce_eligibility :: compose_port_eligibility
  ce_unsupported_reason :: "string option"

datatype compose_published_port_host_ip = Omitted | Explicit string

record compose_published_port_endpoint =
  pe_host_ip :: compose_published_port_host_ip
  pe_host_port :: u16

record compose_published_port_mapping =
  cp_service :: string
  cp_port_entry_index :: nat
  cp_target_port :: u16
  cp_protocol :: compose_port_protocol
  cp_endpoint :: compose_published_port_endpoint

datatype planned_endpoint_probe = Planned_Available | Planned_Unprobeable

datatype allocation_reason = Reason_Available | Reason_Mapping | Reason_Reserved | Reason_Unavailable

datatype plan_source = Source_Compose

datatype plan_entry_type = Type_Published

record compose_published_port_plan_entry =
  pl_service :: string
  pl_port_entry_index :: nat
  pl_source :: plan_source
  pl_kind :: plan_entry_type
  pl_target_port :: u16
  pl_protocol :: compose_port_protocol
  pl_requested :: compose_published_port_endpoint
  pl_planned :: compose_published_port_endpoint
  pl_planned_endpoint_probe :: planned_endpoint_probe
  pl_relocated :: bool
  pl_allocation_reason :: allocation_reason

record compose_published_port_plan =
  plan_entries :: "compose_published_port_plan_entry list"

datatype reservation_source = Running_Container | Stopped_Container

record compose_published_port_reservation =
  cr_service :: string
  cr_target_port :: u16
  cr_protocol :: compose_port_protocol
  cr_endpoint :: compose_published_port_endpoint
  cr_source :: reservation_source

section \<open>Errors of the planner\<close>

datatype compose_published_port_plan_error =
    No_Automatic_Relocation_Candidate string nat compose_published_port_endpoint
  | Host_Port_Availability string u16 string
  | Inconsistent_Entry string nat string
  | Mapping_Conflict string

fun plan_error_text :: "compose_published_port_plan_error \<Rightarrow> string" where
  "plan_error_text (No_Automatic_Relocation_Candidate service port_entry_index requested) =
     fmt [''No automatic published port relocation candidate is available for Compose service `'', service,
       ''` port entry '', show_nat port_entry_index, '' requested host port '',
       show_nat (unat (pe_host_port requested))]"
| "plan_error_text (Host_Port_Availability host_ip host_port source) =
     fmt [''Failed to check Compose published port availability for '', host_ip, '':'',
       show_nat (unat host_port), '': '', source]"
| "plan_error_text (Inconsistent_Entry service port_entry_index detail) =
     fmt [''Internal Compose published port invariant failed for service `'', service, ''` port entry '',
       show_nat port_entry_index, '': '', detail]"
| "plan_error_text (Mapping_Conflict detail) = detail"

section \<open>Endpoints\<close>

definition omitted_host_ip_reservation :: string where
  "omitted_host_ip_reservation = ''0.0.0.0''"

fun protocol_order :: "compose_port_protocol \<Rightarrow> nat" where
  "protocol_order Proto_Tcp = 0"
| "protocol_order Proto_Udp = 1"
| "protocol_order (Proto_Other _) = 2"
| "protocol_order (Proto_Invalid _) = 3"

fun compose_port_protocol_name :: "compose_port_protocol \<Rightarrow> string" where
  "compose_port_protocol_name Proto_Tcp = ''tcp''"
| "compose_port_protocol_name Proto_Udp = ''udp''"
| "compose_port_protocol_name (Proto_Other value) = value"
| "compose_port_protocol_name (Proto_Invalid value) = value"

definition compose_published_port_endpoint_display :: "compose_published_port_endpoint \<Rightarrow> string" where
  "compose_published_port_endpoint_display endpoint =
     (case pe_host_ip endpoint of
        Omitted \<Rightarrow> fmt [''<host_ip omitted>:'', show_nat (unat (pe_host_port endpoint))]
      | Explicit value \<Rightarrow> fmt [value, '':'', show_nat (unat (pe_host_port endpoint))])"

definition requested_host_port :: "compose_port_entry \<Rightarrow> u16 option" where
  "requested_host_port entry =
     (case ce_published_host_port entry of Single_Port port \<Rightarrow> Some port | _ \<Rightarrow> None)"

fun host_ip_display_value :: "compose_port_host_ip \<Rightarrow> string" where
  "host_ip_display_value Omitted_Ip = []"
| "host_ip_display_value (Explicit_Ip value) = value"
| "host_ip_display_value (Invalid_Ip value) = value"

definition endpoint_for_entry ::
  "compose_port_entry \<Rightarrow> compose_published_port_plan_error + compose_published_port_endpoint" where
  "endpoint_for_entry entry =
     bind_res (case ce_host_ip entry of
                 Omitted_Ip \<Rightarrow> Inr Omitted
               | Explicit_Ip value \<Rightarrow> Inr (Explicit value)
               | Invalid_Ip value \<Rightarrow>
                   Inl (Inconsistent_Entry (ce_service entry) (ce_entry_index entry)
                     (fmt [''eligible fixed TCP entry has invalid host_ip `'', value, ''`'']))) (\<lambda>host_ip.
     bind_res (ok_or (requested_host_port entry)
                 (Inconsistent_Entry (ce_service entry) (ce_entry_index entry)
                   ''eligible fixed TCP entry is missing a single published host port'')) (\<lambda>host_port.
     Inr \<lparr>pe_host_ip = host_ip, pe_host_port = host_port\<rparr>))"

definition target_port_for_entry :: "compose_port_entry \<Rightarrow> compose_published_port_plan_error + u16" where
  "target_port_for_entry entry =
     ok_or (ce_target_port entry)
       (Inconsistent_Entry (ce_service entry) (ce_entry_index entry)
         ''eligible fixed TCP entry is missing a target port'')"

definition reservation_host_ip :: "compose_published_port_endpoint \<Rightarrow> string" where
  "reservation_host_ip endpoint =
     (case pe_host_ip endpoint of Omitted \<Rightarrow> omitted_host_ip_reservation | Explicit value \<Rightarrow> value)"

section \<open>Classification\<close>

definition validate_nonzero_port :: "u16 \<Rightarrow> string \<Rightarrow> u16 result" where
  "validate_nonzero_port port field =
     (if port = 0 then Inl (fmt [field, '' must be greater than 0: '', show_nat (unat port)]) else Inr port)"

definition parse_port_value :: "(json \<Rightarrow> string) \<Rightarrow> json \<Rightarrow> string \<Rightarrow> u16 result" where
  "parse_port_value json_text value field =
     (case value of
        J_Number number \<Rightarrow>
          (case number_as_u64 number of
             None \<Rightarrow> Inl (fmt [field, '' must be an unsigned integer: '', json_text (J_Number number)])
           | Some n \<Rightarrow>
               bind_res (ok_or (u16_try_from n) (fmt [field, '' is out of range: '', show_nat n]))
                 (\<lambda>port. validate_nonzero_port port field))
      | J_String s \<Rightarrow>
          if str_contains ''-'' s then Inl (fmt [field, '' is a range: '', s])
          else bind_res (ok_or (parse_u16 s) (fmt [field, '' is not a valid port: '', s]))
                 (\<lambda>port. validate_nonzero_port port field)
      | other \<Rightarrow> Inl (fmt [field, '' must be a number or string: '', json_text other]))"

definition parse_target_port :: "(json \<Rightarrow> string) \<Rightarrow> json option \<Rightarrow> u16 result" where
  "parse_target_port json_text field_value =
     (case field_value of
        None \<Rightarrow> Inl ''target port is missing''
      | Some value \<Rightarrow> parse_port_value json_text value ''target port'')"

definition parse_published_host_port :: "(json \<Rightarrow> string) \<Rightarrow> json option \<Rightarrow> compose_published_host_port" where
  "parse_published_host_port json_text field_value =
     (case field_value of
        None \<Rightarrow> No_Port
      | Some value \<Rightarrow>
          (case (case value of J_String s \<Rightarrow> if str_contains ''-'' s then Some s else None | _ \<Rightarrow> None) of
             Some port_range \<Rightarrow> Port_Range port_range
           | None \<Rightarrow>
               (case parse_port_value json_text value ''published host port'' of
                  Inr port \<Rightarrow> Single_Port port
                | Inl reason \<Rightarrow> Invalid_Port reason)))"

definition parse_host_ip :: "(json \<Rightarrow> string) \<Rightarrow> json option \<Rightarrow> compose_port_host_ip" where
  "parse_host_ip json_text field_value =
     (case field_value of
        None \<Rightarrow> Omitted_Ip
      | Some J_Null \<Rightarrow> Omitted_Ip
      | Some (J_String s) \<Rightarrow>
          if parse_ip s \<noteq> None then Explicit_Ip s
          else Invalid_Ip (fmt [''host_ip is not a valid IP address: '', s])
      | Some value \<Rightarrow> Invalid_Ip (fmt [''host_ip must be a string: '', json_text value]))"

definition parse_protocol :: "(json \<Rightarrow> string) \<Rightarrow> json option \<Rightarrow> compose_port_protocol" where
  "parse_protocol json_text field_value =
     (case field_value of
        None \<Rightarrow> Proto_Tcp
      | Some J_Null \<Rightarrow> Proto_Tcp
      | Some (J_String s) \<Rightarrow>
          if s = ''tcp'' then Proto_Tcp else if s = ''udp'' then Proto_Udp else Proto_Other s
      | Some value \<Rightarrow> Proto_Invalid (fmt [''protocol must be a string: '', json_text value]))"

definition invalid_port_entry :: "string \<Rightarrow> compose_port_eligibility \<times> string option" where
  "invalid_port_entry reason = (Unsupported_Invalid, Some reason)"

text \<open>The protocol is matched last; an invalid one was refused before, so that branch is unreachable in the
  source and has no message of its own here.\<close>

definition classify_eligibility ::
  "u16 result \<Rightarrow> compose_published_host_port \<Rightarrow> compose_port_host_ip \<Rightarrow> compose_port_protocol \<Rightarrow> bool \<Rightarrow>
   compose_port_eligibility \<times> string option" where
  "classify_eligibility target_port published_host_port host_ip protocol service_uses_host_network =
     (case target_port of Inl reason \<Rightarrow> invalid_port_entry reason | Inr _ \<Rightarrow>
      case host_ip of Invalid_Ip reason \<Rightarrow> invalid_port_entry reason | _ \<Rightarrow>
      case protocol of Proto_Invalid reason \<Rightarrow> invalid_port_entry reason | _ \<Rightarrow>
      case published_host_port of
        Invalid_Port reason \<Rightarrow> invalid_port_entry reason
      | Port_Range port_range \<Rightarrow>
          (Unsupported_Range, Some (fmt [''Published host port range is unsupported: '', port_range]))
      | No_Port \<Rightarrow>
          (Unsupported_Container_Only, Some ''Container-only Compose port is not relocation-eligible'')
      | Single_Port _ \<Rightarrow>
          if service_uses_host_network
          then (Unsupported_Other, Some ''Compose ports are ignored with network_mode: host'')
          else case protocol of
                 Proto_Tcp \<Rightarrow> (Eligible_Fixed_Tcp, None)
               | Proto_Udp \<Rightarrow>
                   (Unsupported_Udp, Some ''UDP Compose published ports are not relocation-eligible'')
               | Proto_Other name \<Rightarrow>
                   (Unsupported_Other,
                    Some (fmt [''Compose published port protocol is not supported for relocation: '', name]))
               | Proto_Invalid reason \<Rightarrow> invalid_port_entry reason)"

definition classify_port_entry ::
  "(json \<Rightarrow> string) \<Rightarrow> string \<Rightarrow> compose_config_service \<Rightarrow> nat \<Rightarrow> json \<Rightarrow> compose_port_entry" where
  "classify_port_entry json_text service service_model entry_index value =
     (case json_as_object value of
        None \<Rightarrow>
          \<lparr>ce_service = service, ce_entry_index = entry_index,
           ce_service_replica_count = effective_replica_count service_model,
           ce_service_uses_host_network = uses_host_network service_model,
           ce_syntax = Effective_Object, ce_target_port = None,
           ce_published_host_port = Invalid_Port ''non-object'', ce_host_ip = Omitted_Ip,
           ce_protocol = Proto_Tcp, ce_original_fields = [], ce_eligibility = Unsupported_Invalid,
           ce_unsupported_reason = Some ''Compose port entry is not an object''\<rparr>
      | Some entry_fields \<Rightarrow>
          let target_port = parse_target_port json_text (bt_get entry_fields ''target'');
              published_host_port = parse_published_host_port json_text (bt_get entry_fields ''published'');
              host_ip = parse_host_ip json_text (bt_get entry_fields ''host_ip'');
              protocol = parse_protocol json_text (bt_get entry_fields ''protocol'');
              (eligibility, unsupported_reason) =
                classify_eligibility target_port published_host_port host_ip protocol
                  (uses_host_network service_model)
          in \<lparr>ce_service = service, ce_entry_index = entry_index,
              ce_service_replica_count = effective_replica_count service_model,
              ce_service_uses_host_network = uses_host_network service_model,
              ce_syntax = Effective_Object, ce_target_port = res_ok target_port,
              ce_published_host_port = published_host_port, ce_host_ip = host_ip,
              ce_protocol = protocol, ce_original_fields = bt_collect entry_fields,
              ce_eligibility = eligibility, ce_unsupported_reason = unsupported_reason\<rparr>)"

definition classify_compose_published_ports ::
  "(json \<Rightarrow> string) \<Rightarrow> compose_config_model \<Rightarrow> compose_port_entry list" where
  "classify_compose_published_ports json_text model =
     concat (map (\<lambda>(service_name, service).
         map (\<lambda>(entry_index, value). classify_port_entry json_text service_name service entry_index value)
           (enumerate 0 (svc_ports service)))
       (cm_services model))"

section \<open>The planning input\<close>

record compose_active_service_set =
  as_primary_service :: string
  as_selected_services :: "string list"
  as_active_services :: "string list"

record compose_planning_input =
  pin_services :: compose_active_service_set
  pin_port_entries :: "compose_port_entry list"

definition push_active_service :: "string list \<Rightarrow> string list \<Rightarrow> string \<Rightarrow> string list" where
  "push_active_service active_services services service =
     (if service \<in> set active_services \<and> service \<notin> set services then services @ [service] else services)"

definition unique_active_services :: "string list \<Rightarrow> string list \<Rightarrow> string list" where
  "unique_active_services services active_services =
     foldl (\<lambda>unique service.
         if service \<in> set active_services \<and> service \<notin> set unique then unique @ [service] else unique)
       [] services"

definition new_active_service_set ::
  "compose_config_model \<Rightarrow> string \<Rightarrow> string list \<Rightarrow> compose_active_service_set" where
  "new_active_service_set model primary_service selected_services =
     (let active_services = bs_collect (bt_keys (cm_services model))
      in \<lparr>as_primary_service = primary_service,
          as_selected_services = unique_active_services selected_services active_services,
          as_active_services = active_services\<rparr>)"

definition active_set_contains :: "compose_active_service_set \<Rightarrow> string \<Rightarrow> bool" where
  "active_set_contains services service = (service \<in> set (as_active_services services))"

definition ordered_services_for_planning :: "compose_active_service_set \<Rightarrow> string list" where
  "ordered_services_for_planning services =
     (let active = as_active_services services
      in foldl (push_active_service active)
           (foldl (push_active_service active)
             (push_active_service active [] (as_primary_service services))
             (as_selected_services services))
           active)"

definition compose_published_port_planning_input ::
  "compose_config_model \<Rightarrow> compose_port_entry list \<Rightarrow> string \<Rightarrow> string list \<Rightarrow>
   compose_planning_input" where
  "compose_published_port_planning_input model published_port_entries primary_service selected_services =
     (let services = new_active_service_set model primary_service selected_services
      in \<lparr>pin_services = services,
          pin_port_entries = filter (\<lambda>entry. active_set_contains services (ce_service entry))
            published_port_entries\<rparr>)"

section \<open>The entries of a model\<close>

lemma validate_nonzero_port_ok: "validate_nonzero_port p f = Inr q \<longleftrightarrow> p \<noteq> 0 \<and> q = p"
  by (auto simp: validate_nonzero_port_def)

lemma parse_port_value_nonzero: "parse_port_value jt v f = Inr p \<Longrightarrow> p \<noteq> 0"
  by (cases v) (auto simp: parse_port_value_def validate_nonzero_port_ok result_elims split: option.splits if_splits)

lemma parse_target_port_nonzero: "parse_target_port jt v = Inr p \<Longrightarrow> p \<noteq> 0"
  by (auto simp: parse_target_port_def dest: parse_port_value_nonzero split: option.splits)

lemma parse_published_nonzero: "parse_published_host_port jt v = Single_Port p \<Longrightarrow> p \<noteq> 0"
  unfolding parse_published_host_port_def using parse_port_value_nonzero
  by (auto split: option.splits sum.splits)

lemma parse_host_ip_valid: "parse_host_ip jt v = Explicit_Ip ip \<Longrightarrow> parse_ip ip \<noteq> None"
  by (auto simp: parse_host_ip_def split: option.splits json.splits if_splits)

lemma classify_eligibility_iff:
  "classify_eligibility target published host_ip protocol host_network = (e, r) \<Longrightarrow>
   (e = Eligible_Fixed_Tcp \<longleftrightarrow> (\<exists>t p. target = Inr t \<and> published = Single_Port p) \<and>
      (\<forall>m. host_ip \<noteq> Invalid_Ip m) \<and> protocol = Proto_Tcp \<and> \<not> host_network) \<and>
   (e = Eligible_Fixed_Tcp \<longleftrightarrow> r = None)"
  by (cases target; cases host_ip; cases protocol; cases published)
     (auto simp: classify_eligibility_def invalid_port_entry_def split: if_splits)

definition usable :: "compose_port_entry \<Rightarrow> bool" where
  "usable entry \<longleftrightarrow> (\<exists>target port. ce_target_port entry = Some target \<and> target \<noteq> 0 \<and>
     ce_published_host_port entry = Single_Port port \<and> port \<noteq> 0 \<and>
     ce_protocol entry = Proto_Tcp \<and> \<not> ce_service_uses_host_network entry \<and>
     target_port_for_entry entry = Inr target \<and>
     (endpoint_for_entry entry = Inr \<lparr>pe_host_ip = Omitted, pe_host_port = port\<rparr> \<or>
      (\<exists>ip. parse_ip ip \<noteq> None \<and> endpoint_for_entry entry = Inr \<lparr>pe_host_ip = Explicit ip, pe_host_port = port\<rparr>)))"

lemma classify_port_entry_eligible:
  fixes jt service svc i v
  defines "entry \<equiv> classify_port_entry jt service svc i v"
  shows "(ce_eligibility entry = Eligible_Fixed_Tcp \<longleftrightarrow> usable entry) \<and>
    (ce_eligibility entry = Eligible_Fixed_Tcp \<longleftrightarrow> ce_unsupported_reason entry = None)"
proof (cases "json_as_object v")
  case None
  then show ?thesis by (simp add: entry_def classify_port_entry_def usable_def)
next
  case (Some fields)
  let ?t = "parse_target_port jt (bt_get fields ''target'')"
  let ?p = "parse_published_host_port jt (bt_get fields ''published'')"
  let ?h = "parse_host_ip jt (bt_get fields ''host_ip'')"
  let ?proto = "parse_protocol jt (bt_get fields ''protocol'')"
  obtain e r where er: "classify_eligibility ?t ?p ?h ?proto (uses_host_network svc) = (e, r)"
    by (cases "classify_eligibility ?t ?p ?h ?proto (uses_host_network svc)")
  have entry: "ce_eligibility entry = e" "ce_unsupported_reason entry = r" "ce_target_port entry = res_ok ?t"
    "ce_published_host_port entry = ?p" "ce_host_ip entry = ?h" "ce_protocol entry = ?proto"
    "ce_service_uses_host_network entry = uses_host_network svc"
    using Some er by (simp_all add: entry_def classify_port_entry_def Let_def)
  have "usable entry \<longleftrightarrow> (\<exists>t p. ?t = Inr t \<and> ?p = Single_Port p) \<and>
      (\<forall>m. ?h \<noteq> Invalid_Ip m) \<and> ?proto = Proto_Tcp \<and> \<not> uses_host_network svc"
    using parse_target_port_nonzero [of jt "bt_get fields ''target''"]
      parse_published_nonzero [of jt "bt_get fields ''published''"]
      parse_host_ip_valid [of jt "bt_get fields ''host_ip''"]
    by (cases ?h) (auto simp: usable_def entry res_ok_Some_iff endpoint_for_entry_def requested_host_port_def
          target_port_for_entry_def)
  with classify_eligibility_iff [OF er] show ?thesis unfolding entry by blast
qed

lemma classified_eligible_iff:
  "entry \<in> set (classify_compose_published_ports jt model) \<Longrightarrow>
   (ce_eligibility entry = Eligible_Fixed_Tcp \<longleftrightarrow> usable entry) \<and>
   (ce_eligibility entry = Eligible_Fixed_Tcp \<longleftrightarrow> ce_unsupported_reason entry = None)"
proof -
  assume "entry \<in> set (classify_compose_published_ports jt model)"
  then obtain service svc i v where "entry = classify_port_entry jt service svc i v"
    unfolding classify_compose_published_ports_def by auto
  then show ?thesis using classify_port_entry_eligible by metis
qed

text \<open>An entry of a classified model is eligible exactly when it has a non-zero target and
  fixed published port, TCP, a missing or valid host address and no host network; then its
  endpoint and target port can be read, and only then it has no reason for being
  unsupported.\<close>

theorem eligible_entries_exactly:
  assumes "entry \<in> set (classify_compose_published_ports json_text model)"
  shows "(ce_eligibility entry = Eligible_Fixed_Tcp \<longleftrightarrow>
      (\<exists>target port. ce_target_port entry = Some target \<and> target \<noteq> 0 \<and>
         ce_published_host_port entry = Single_Port port \<and> port \<noteq> 0 \<and>
         ce_protocol entry = Proto_Tcp \<and> \<not> ce_service_uses_host_network entry \<and>
         target_port_for_entry entry = Inr target \<and>
         (endpoint_for_entry entry = Inr \<lparr>pe_host_ip = Omitted, pe_host_port = port\<rparr> \<or>
          (\<exists>ip. parse_ip ip \<noteq> None \<and>
             endpoint_for_entry entry = Inr \<lparr>pe_host_ip = Explicit ip, pe_host_port = port\<rparr>)))) \<and>
    (ce_eligibility entry = Eligible_Fixed_Tcp \<longleftrightarrow> ce_unsupported_reason entry = None)"
  using classified_eligible_iff [OF assms] unfolding usable_def .

definition example_port_fields :: "(string, json) btree_map" where
  "example_port_fields = [(''protocol'', J_String ''tcp''), (''published'', J_Number (Pos_Int 8080)),
     (''target'', J_Number (Pos_Int 80))]"

definition example_published_model :: compose_config_model where
  "example_published_model = example_model [(''web'', example_service\<lparr>svc_ports := [J_Object example_port_fields]\<rparr>)]"

definition example_entry :: "string \<Rightarrow> u16 \<Rightarrow> u16 \<Rightarrow> compose_port_entry" where
  "example_entry service target published =
     \<lparr>ce_service = service, ce_entry_index = 0, ce_service_replica_count = 1, ce_service_uses_host_network = False,
      ce_syntax = Effective_Object, ce_target_port = Some target, ce_published_host_port = Single_Port published,
      ce_host_ip = Omitted_Ip, ce_protocol = Proto_Tcp, ce_original_fields = [], ce_eligibility = Eligible_Fixed_Tcp,
      ce_unsupported_reason = None\<rparr>"

lemma example_classified:
  "classify_compose_published_ports json_text example_published_model =
     [example_entry ''web'' 80 8080\<lparr>ce_original_fields := bt_collect example_port_fields\<rparr>]"
  by (simp add: classify_compose_published_ports_def example_published_model_def example_model_def
      example_service_def classify_port_entry_def example_port_fields_def example_entry_def bt_get_def
      parse_target_port_def parse_published_host_port_def parse_port_value_def parse_host_ip_def parse_protocol_def
      classify_eligibility_def validate_nonzero_port_def u16_try_from_def effective_replica_count_def
      uses_host_network_def)

theorem eligible_entries_exactly_witness:
  "endpoint_for_entry (example_entry ''web'' 80 8080\<lparr>ce_original_fields := bt_collect example_port_fields\<rparr>) =
     Inr \<lparr>pe_host_ip = Omitted, pe_host_port = 8080\<rparr>"
proof -
  let ?e = "example_entry ''web'' 80 8080\<lparr>ce_original_fields := bt_collect example_port_fields\<rparr>"
  have "?e \<in> set (classify_compose_published_ports (\<lambda>_. []) example_published_model)"
    by (simp only: example_classified list.set insert_iff simp_thms)
  from eligible_entries_exactly [OF this] show ?thesis
    by (auto simp: example_entry_def endpoint_for_entry_def requested_host_port_def)
qed

section \<open>The order of the services\<close>

definition first_occurrences :: "'a list \<Rightarrow> 'a list" where
  "first_occurrences xs = rev (remdups (rev xs))"

lemma first_occurrences_snoc:
  "first_occurrences (xs @ [x]) = (if x \<in> set xs then first_occurrences xs else first_occurrences xs @ [x])"
  by (simp add: first_occurrences_def)

lemma set_first_occurrences [simp]: "set (first_occurrences xs) = set xs"
  by (simp add: first_occurrences_def)

lemma distinct_first_occurrences [simp]: "distinct (first_occurrences xs)"
  by (simp add: first_occurrences_def)

lemma first_occurrences_append: "first_occurrences (xs @ first_occurrences ys) = first_occurrences (xs @ ys)"
proof (induction ys rule: rev_induct)
  case (snoc y ys)
  then show ?case
    using first_occurrences_snoc [of "xs @ ys" y] first_occurrences_snoc [of "xs @ first_occurrences ys" y]
    by (simp add: first_occurrences_snoc)
qed (simp add: first_occurrences_def)

lemma push_active_services:
  "foldl (push_active_service active) (first_occurrences acc) xs =
     first_occurrences (acc @ filter (\<lambda>s. s \<in> set active) xs)"
proof (induction xs arbitrary: acc)
  case (Cons x xs)
  have "push_active_service active (first_occurrences acc) x =
      first_occurrences (acc @ filter (\<lambda>s. s \<in> set active) [x])"
    by (simp add: push_active_service_def first_occurrences_snoc)
  then show ?case using Cons [of "acc @ filter (\<lambda>s. s \<in> set active) [x]"] by (simp add: Cons)
qed simp

lemma unique_active_services_eq:
  "unique_active_services xs active = first_occurrences (filter (\<lambda>s. s \<in> set active) xs)"
  using push_active_services [of active "[]" xs]
  by (simp add: unique_active_services_def push_active_service_def [abs_def] first_occurrences_def)

lemma filter_first_occurrences:
  "set ys \<subseteq> set active \<Longrightarrow> filter (\<lambda>s. s \<in> set active) (first_occurrences ys) = first_occurrences ys"
  by (rule filter_True) auto

lemma ordered_services_eq:
  "ordered_services_for_planning (new_active_service_set model primary selected) =
     first_occurrences (filter (\<lambda>s. s \<in> set (bt_keys (cm_services model)))
       (primary # selected @ bs_collect (bt_keys (cm_services model))))"
proof -
  let ?active = "bs_collect (bt_keys (cm_services model))"
  let ?in = "\<lambda>s. s \<in> set ?active"
  have one: "push_active_service ?active [] primary = first_occurrences (filter ?in [primary])"
    by (simp add: push_active_service_def first_occurrences_def)
  show ?thesis
    using first_occurrences_append [of "filter ?in [primary]" "filter ?in selected"]
      first_occurrences_append [of "[]" "filter ?in [primary] @ filter ?in selected"]
    by (simp add: ordered_services_for_planning_def new_active_service_set_def Let_def one
        push_active_services unique_active_services_eq filter_first_occurrences)
qed

text \<open>The services are planned as the first occurrences in the list of the primary service,
  the selected ones and all services in ascending order, restricted to the services of the
  model.\<close>

theorem planning_order_is_primary_selected_then_rest:
  "ordered_services_for_planning (new_active_service_set model primary selected) =
     rev (remdups (rev (filter (\<lambda>s. s \<in> set (bt_keys (cm_services model)))
       (primary # selected @ bs_collect (bt_keys (cm_services model)))))) \<and>
   distinct (ordered_services_for_planning (new_active_service_set model primary selected)) \<and>
   set (ordered_services_for_planning (new_active_service_set model primary selected)) =
     set (bt_keys (cm_services model)) \<and>
   sorted (bs_collect (bt_keys (cm_services model)))"
  unfolding ordered_services_eq by (auto simp: first_occurrences_def)

end
