(* ===== verification/Compose_Ports_Plan.thy ===== *)
theory Compose_Ports_Plan
  imports Compose_Ports
begin

text \<open>
  The planner of Compose published ports, \<open>src/runtime/compose_ports/planning.rs\<close>. The planner keeps a list
  of host port reservations and the plan so far; explicit mappings are planned first, then the other
  eligible entries, and the plan is put back into the order of the entries. The probe of a host port is
  a closure that asks the operating system. Two endpoints are kept apart by the locale
  \<open>binding_conflict\<close> of Host\_Ports.
\<close>

section \<open>State\<close>

record existing_project_bindings =
  eb_all :: "compose_published_port_reservation list"
  eb_reusable :: "compose_published_port_reservation list"

definition new_existing_project_bindings ::
  "compose_published_port_reservation list \<Rightarrow> bool \<Rightarrow> existing_project_bindings" where
  "new_existing_project_bindings all preserve =
     \<lparr>eb_all = all, eb_reusable = (if preserve then all else [])\<rparr>"

record published_port_planning_state =
  ps_existing_project_published_ports :: "compose_published_port_reservation list"
  ps_reusable_existing_project_published_ports :: "compose_published_port_reservation list"
  ps_running_project_reservations :: "host_port_reservation list"
  ps_reservations :: "host_port_reservation list"
  ps_plan_entries :: "compose_published_port_plan_entry list"

record planned_endpoint_decision =
  pd_planned :: compose_published_port_endpoint
  pd_allocation_reason :: allocation_reason
  pd_planned_endpoint_probe :: planned_endpoint_probe

record existing_port_candidate =
  ec_endpoint :: compose_published_port_endpoint
  ec_planned_endpoint_probe :: planned_endpoint_probe

type_synonym 'w host_port_prober = "string \<Rightarrow> u16 \<Rightarrow> ('w, string, host_port_probe) io"

type_synonym ('w, 'a) planning = "('w, compose_published_port_plan_error, 'a) io"

section \<open>Matching\<close>

definition mapping_matches_entry :: "compose_published_port_mapping \<Rightarrow> compose_port_entry \<Rightarrow> bool" where
  "mapping_matches_entry mapping entry \<longleftrightarrow>
     (cp_service mapping, cp_port_entry_index mapping, cp_target_port mapping, cp_protocol mapping) =
     (ce_service entry, ce_entry_index entry,
      (case ce_target_port entry of Some port \<Rightarrow> port | None \<Rightarrow> 0), ce_protocol entry)"

text \<open>Compares only the host addresses: both reservations get port 1.\<close>

definition host_ips_conflict ::
  "compose_published_port_endpoint \<Rightarrow> compose_published_port_endpoint \<Rightarrow> bool" where
  "host_ips_conflict existing candidate =
     host_port_reservations_conflict [\<lparr>hr_host_ip = reservation_host_ip existing, hr_host = 1\<rparr>]
       (reservation_host_ip candidate) 1"

definition existing_identity_matches_entry ::
  "compose_published_port_reservation \<Rightarrow> compose_port_entry \<Rightarrow> bool" where
  "existing_identity_matches_entry existing entry \<longleftrightarrow>
     cr_service existing = ce_service entry \<and> Some (cr_target_port existing) = ce_target_port entry \<and>
     cr_protocol existing = ce_protocol entry"

definition existing_matches_entry ::
  "compose_published_port_reservation \<Rightarrow> compose_port_entry \<Rightarrow> compose_published_port_endpoint \<Rightarrow> bool" where
  "existing_matches_entry existing entry requested \<longleftrightarrow>
     cr_service existing = ce_service entry \<and> Some (cr_target_port existing) = ce_target_port entry \<and>
     cr_protocol existing = ce_protocol entry \<and> host_ips_conflict (cr_endpoint existing) requested"

definition existing_planned_endpoint ::
  "compose_published_port_reservation \<Rightarrow> compose_published_port_endpoint \<Rightarrow> compose_published_port_endpoint" where
  "existing_planned_endpoint existing requested =
     \<lparr>pe_host_ip =
        (if reservation_host_ip (cr_endpoint existing) = reservation_host_ip requested
         then pe_host_ip requested else pe_host_ip (cr_endpoint existing)),
      pe_host_port = pe_host_port (cr_endpoint existing)\<rparr>"

definition running_project_reservations_with_filter ::
  "compose_published_port_reservation list \<Rightarrow> (compose_published_port_reservation \<Rightarrow> bool) \<Rightarrow>
   host_port_reservation list" where
  "running_project_reservations_with_filter existing include =
     map (\<lambda>reservation. \<lparr>hr_host_ip = reservation_host_ip (cr_endpoint reservation),
           hr_host = pe_host_port (cr_endpoint reservation)\<rparr>)
       (filter (\<lambda>reservation. cr_source reservation = Running_Container \<and> include reservation) existing)"

definition running_project_reservations :: "compose_published_port_reservation list \<Rightarrow> host_port_reservation list" where
  "running_project_reservations existing = running_project_reservations_with_filter existing (\<lambda>_. True)"

definition running_project_reservations_excluding_entry ::
  "compose_published_port_reservation list \<Rightarrow> compose_port_entry \<Rightarrow> host_port_reservation list" where
  "running_project_reservations_excluding_entry existing entry =
     running_project_reservations_with_filter existing
       (\<lambda>reservation. \<not> existing_identity_matches_entry reservation entry)"

section \<open>Asking for a port\<close>

definition probe_compose_published_host_port ::
  "'w host_port_prober \<Rightarrow> string \<Rightarrow> u16 \<Rightarrow> ('w, host_port_probe) planning" where
  "probe_compose_published_host_port probe host_ip host_port =
     io_map_err (\<lambda>source. Host_Port_Availability host_ip host_port source) (probe host_ip host_port)"

definition no_automatic_relocation_candidate ::
  "compose_port_entry \<Rightarrow> compose_published_port_endpoint \<Rightarrow> compose_published_port_plan_error" where
  "no_automatic_relocation_candidate entry requested =
     No_Automatic_Relocation_Candidate (ce_service entry) (ce_entry_index entry) requested"

definition allocate_automatic_relocation_host_port ::
  "compose_port_entry \<Rightarrow> compose_published_port_endpoint \<Rightarrow> string \<Rightarrow> host_port_reservation list \<Rightarrow>
   'w host_port_prober \<Rightarrow> ('w, u16) planning" where
  "allocate_automatic_relocation_host_port entry requested host_ip reservations probe =
     (case checked_add (pe_host_port requested) 1 of
        None \<Rightarrow> io_fail (no_automatic_relocation_candidate entry requested)
      | Some candidate \<Rightarrow>
          io_bind
            (search_port (\<lambda>candidate.
                io_bind
                  (if host_port_reservations_conflict reservations host_ip candidate then io_return Occupied
                   else probe_compose_published_host_port probe host_ip candidate)
                  (\<lambda>candidate_probe. io_return (candidate_probe = Available)))
              candidate)
            (\<lambda>found. case found of
                Some port \<Rightarrow> io_return port
              | None \<Rightarrow> io_fail (no_automatic_relocation_candidate entry requested)))"

section \<open>Decisions\<close>

definition decision_for_mapping ::
  "compose_published_port_mapping \<Rightarrow> compose_published_port_endpoint \<Rightarrow> host_port_reservation list \<Rightarrow> bool \<Rightarrow>
   'w host_port_prober \<Rightarrow> ('w, planned_endpoint_decision) planning" where
  "decision_for_mapping mapping requested reservations held_by_current_entry probe =
     (let desired_host_ip = reservation_host_ip (cp_endpoint mapping);
          desired_port = pe_host_port (cp_endpoint mapping)
      in io_bind
           (if host_port_reservations_conflict reservations desired_host_ip desired_port then io_return Occupied
            else if held_by_current_entry then io_return Available
            else probe_compose_published_host_port probe desired_host_ip desired_port)
           (\<lambda>result.
             if result = Occupied then
               io_fail (Mapping_Conflict
                 (fmt [''Compose published port mapping for service `'', cp_service mapping, ''`, target '',
                       show_nat (unat (cp_target_port mapping)), ''/tcp cannot use desired endpoint '',
                       compose_published_port_endpoint_display (cp_endpoint mapping),
                       '' because it is already reserved or occupied; requested endpoint: '',
                       compose_published_port_endpoint_display requested,
                       ''. Explicit mappings do not fall back to automatic relocation'']))
             else io_return \<lparr>pd_planned = cp_endpoint mapping, pd_allocation_reason = Reason_Mapping,
                    pd_planned_endpoint_probe =
                      (if result = Available then Planned_Available else Planned_Unprobeable)\<rparr>))"

definition decision_for_existing_project_candidate ::
  "existing_port_candidate \<Rightarrow> compose_published_port_endpoint \<Rightarrow> planned_endpoint_decision" where
  "decision_for_existing_project_candidate existing_candidate requested =
     \<lparr>pd_planned = ec_endpoint existing_candidate,
      pd_allocation_reason =
        (if ec_endpoint existing_candidate = requested then Reason_Available else Reason_Unavailable),
      pd_planned_endpoint_probe = ec_planned_endpoint_probe existing_candidate\<rparr>"

definition decision_for_requested_or_relocated_endpoint ::
  "compose_port_entry \<Rightarrow> compose_published_port_endpoint \<Rightarrow> string \<Rightarrow> bool \<Rightarrow> host_port_reservation list \<Rightarrow>
   'w host_port_prober \<Rightarrow> ('w, planned_endpoint_decision) planning" where
  "decision_for_requested_or_relocated_endpoint entry requested requested_host_ip requested_reserved
       reservations probe =
     io_bind
       (if requested_reserved then io_return Occupied
        else probe_compose_published_host_port probe requested_host_ip (pe_host_port requested))
       (\<lambda>requested_probe. case requested_probe of
          Available \<Rightarrow>
            io_return \<lparr>pd_planned = requested, pd_allocation_reason = Reason_Available,
              pd_planned_endpoint_probe = Planned_Available\<rparr>
        | Unprobeable \<Rightarrow>
            io_return \<lparr>pd_planned = requested, pd_allocation_reason = Reason_Available,
              pd_planned_endpoint_probe = Planned_Unprobeable\<rparr>
        | Occupied \<Rightarrow>
            io_bind (allocate_automatic_relocation_host_port entry requested requested_host_ip reservations probe)
              (\<lambda>planned_host_port.
                io_return \<lparr>pd_planned = \<lparr>pe_host_ip = pe_host_ip requested, pe_host_port = planned_host_port\<rparr>,
                  pd_allocation_reason = (if requested_reserved then Reason_Reserved else Reason_Unavailable),
                  pd_planned_endpoint_probe = Planned_Available\<rparr>))"

fun existing_project_published_port_candidate ::
  "compose_published_port_reservation list \<Rightarrow> compose_port_entry \<Rightarrow> compose_published_port_endpoint \<Rightarrow>
   host_port_reservation list \<Rightarrow> 'w host_port_prober \<Rightarrow>
   ('w, existing_port_candidate option) planning" where
  "existing_project_published_port_candidate [] entry requested reservations probe = io_return None"
| "existing_project_published_port_candidate (existing # rest) entry requested reservations probe =
     (if \<not> existing_matches_entry existing entry requested
      then existing_project_published_port_candidate rest entry requested reservations probe
      else
        let existing_host_ip = reservation_host_ip (cr_endpoint existing);
            existing_port = pe_host_port (cr_endpoint existing);
            candidate = (\<lambda>planned_probe. \<lparr>ec_endpoint = existing_planned_endpoint existing requested,
                          ec_planned_endpoint_probe = planned_probe\<rparr>)
        in if host_port_reservations_conflict reservations existing_host_ip existing_port
           then existing_project_published_port_candidate rest entry requested reservations probe
           else case cr_source existing of
                  Running_Container \<Rightarrow> io_return (Some (candidate Planned_Available))
                | Stopped_Container \<Rightarrow>
                    io_bind (probe_compose_published_host_port probe existing_host_ip existing_port)
                      (\<lambda>existing_probe. case existing_probe of
                         Available \<Rightarrow> io_return (Some (candidate Planned_Available))
                       | Unprobeable \<Rightarrow> io_return (Some (candidate Planned_Unprobeable))
                       | Occupied \<Rightarrow>
                           existing_project_published_port_candidate rest entry requested reservations probe))"

section \<open>Planning\<close>

definition plan_entry ::
  "compose_port_entry \<Rightarrow> compose_published_port_endpoint \<Rightarrow> u16 \<Rightarrow> planned_endpoint_decision \<Rightarrow>
   compose_published_port_plan_entry" where
  "plan_entry entry requested target_port decision =
     \<lparr>pl_service = ce_service entry, pl_port_entry_index = ce_entry_index entry, pl_source = Source_Compose,
      pl_kind = Type_Published, pl_target_port = target_port, pl_protocol = ce_protocol entry,
      pl_requested = requested, pl_planned = pd_planned decision,
      pl_planned_endpoint_probe = pd_planned_endpoint_probe decision,
      pl_relocated = (requested \<noteq> pd_planned decision),
      pl_allocation_reason = pd_allocation_reason decision\<rparr>"

text \<open>A decision is recorded by pushing its reservation and its plan entry.\<close>

definition push_decision ::
  "compose_port_entry \<Rightarrow> compose_published_port_endpoint \<Rightarrow> u16 \<Rightarrow> planned_endpoint_decision \<Rightarrow>
   published_port_planning_state \<Rightarrow> published_port_planning_state" where
  "push_decision entry requested target_port decision state =
     state\<lparr>ps_reservations := ps_reservations state @
             [\<lparr>hr_host_ip = reservation_host_ip (pd_planned decision),
               hr_host = pe_host_port (pd_planned decision)\<rparr>],
           ps_plan_entries := ps_plan_entries state @ [plan_entry entry requested target_port decision]\<rparr>"

definition plan_explicit_mapping ::
  "compose_port_entry list \<Rightarrow> 'w host_port_prober \<Rightarrow> published_port_planning_state \<Rightarrow>
   compose_published_port_mapping \<Rightarrow> ('w, published_port_planning_state) planning" where
  "plan_explicit_mapping ordered_entries probe state mapping =
     io_bind (io_lift (ok_or (List.find (mapping_matches_entry mapping) ordered_entries)
                (Inconsistent_Entry (cp_service mapping) (cp_port_entry_index mapping)
                  ''resolved mapping does not match an eligible Compose port entry''))) (\<lambda>entry.
     io_bind (io_lift (endpoint_for_entry entry)) (\<lambda>requested.
     io_bind (io_lift (target_port_for_entry entry)) (\<lambda>target_port.
       let existing = ps_existing_project_published_ports state;
           effective_reservations = ps_reservations state @
             running_project_reservations_excluding_entry existing entry;
           held_by_current_entry = list_ex (\<lambda>reservation. cr_source reservation = Running_Container \<and>
               existing_identity_matches_entry reservation entry \<and>
               host_ips_conflict (cr_endpoint reservation) (cp_endpoint mapping) \<and>
               pe_host_port (cr_endpoint reservation) = pe_host_port (cp_endpoint mapping)) existing
       in io_bind (decision_for_mapping mapping requested effective_reservations held_by_current_entry probe)
            (\<lambda>decision. io_return (push_decision entry requested target_port decision state)))))"

definition plan_explicit_mappings ::
  "compose_port_entry list \<Rightarrow> compose_published_port_mapping list \<Rightarrow> published_port_planning_state \<Rightarrow>
   'w host_port_prober \<Rightarrow> ('w, published_port_planning_state) planning" where
  "plan_explicit_mappings ordered_entries mappings state probe =
     io_fold (plan_explicit_mapping ordered_entries probe) state mappings"

definition plan_unmapped_entry_without_automatic_relocation ::
  "compose_port_entry \<Rightarrow> compose_published_port_endpoint \<Rightarrow> u16 \<Rightarrow> compose_published_port_mapping list \<Rightarrow>
   published_port_planning_state \<Rightarrow> compose_published_port_plan_error + published_port_planning_state" where
  "plan_unmapped_entry_without_automatic_relocation entry requested target_port mappings state =
     (case List.find (\<lambda>mapping. host_ips_conflict (cp_endpoint mapping) requested \<and>
             pe_host_port (cp_endpoint mapping) = pe_host_port requested) mappings of
        Some mapping \<Rightarrow>
          Inl (Mapping_Conflict
            (fmt [''Compose published port mapping for service `'', cp_service mapping, ''`, target '',
                  show_nat (unat (cp_target_port mapping)), ''/tcp reserves desired endpoint '',
                  compose_published_port_endpoint_display (cp_endpoint mapping),
                  '', which conflicts with the unchanged requested endpoint for service `'', ce_service entry,
                  ''`, target '', show_nat (unat target_port),
                  ''/tcp while automatic relocation is disabled'']))
      | None \<Rightarrow>
          Inr (push_decision entry requested target_port
            \<lparr>pd_planned = requested, pd_allocation_reason = Reason_Available,
             pd_planned_endpoint_probe = Planned_Unprobeable\<rparr> state))"

definition plan_unmapped_entry ::
  "bool \<Rightarrow> compose_published_port_mapping list \<Rightarrow> 'w host_port_prober \<Rightarrow> published_port_planning_state \<Rightarrow>
   compose_port_entry \<Rightarrow> ('w, published_port_planning_state) planning" where
  "plan_unmapped_entry automatic_relocation_enabled mappings probe state entry =
     (if list_ex (\<lambda>mapping. mapping_matches_entry mapping entry) mappings then io_return state
      else
        io_bind (io_lift (endpoint_for_entry entry)) (\<lambda>requested.
        io_bind (io_lift (target_port_for_entry entry)) (\<lambda>target_port.
          if \<not> automatic_relocation_enabled
          then io_lift (plan_unmapped_entry_without_automatic_relocation entry requested target_port mappings state)
          else
            io_bind (existing_project_published_port_candidate
                (ps_reusable_existing_project_published_ports state) entry requested (ps_reservations state) probe)
              (\<lambda>existing_endpoint.
                let requested_host_ip = reservation_host_ip requested;
                    effective_reservations = ps_reservations state @ ps_running_project_reservations state;
                    requested_reserved = host_port_reservations_conflict effective_reservations
                      requested_host_ip (pe_host_port requested)
                in io_bind
                     (case existing_endpoint of
                        Some existing_candidate \<Rightarrow>
                          io_return (decision_for_existing_project_candidate existing_candidate requested)
                      | None \<Rightarrow> decision_for_requested_or_relocated_endpoint entry requested requested_host_ip
                          requested_reserved effective_reservations probe)
                     (\<lambda>decision. io_return (push_decision entry requested target_port decision state))))))"

definition plan_unmapped_entries ::
  "compose_port_entry list \<Rightarrow> bool \<Rightarrow> compose_published_port_mapping list \<Rightarrow> published_port_planning_state \<Rightarrow>
   'w host_port_prober \<Rightarrow> ('w, published_port_planning_state) planning" where
  "plan_unmapped_entries ordered_entries automatic_relocation_enabled mappings state probe =
     io_fold (plan_unmapped_entry automatic_relocation_enabled mappings probe) state ordered_entries"

section \<open>The order of the entries\<close>

definition usize_max :: nat where
  "usize_max = 2 ^ 64 - 1"

definition index_map :: "'k::linorder list \<Rightarrow> ('k, nat) btree_map" where
  "index_map keys = bt_collect (map (\<lambda>(index, key). (key, index)) (enumerate 0 keys))"

definition position_in :: "('k, nat) btree_map \<Rightarrow> 'k \<Rightarrow> nat" where
  "position_in order key = (case bt_get order key of Some index \<Rightarrow> index | None \<Rightarrow> usize_max)"

definition ordered_eligible_port_entries :: "compose_planning_input \<Rightarrow> compose_port_entry list" where
  "ordered_eligible_port_entries input =
     (let service_order = index_map (ordered_services_for_planning (pin_services input))
      in sort_key (\<lambda>entry.
           (position_in service_order (ce_service entry),
            ce_entry_index entry,
            (case ce_target_port entry of Some port \<Rightarrow> port | None \<Rightarrow> 0xFFFF),
            protocol_order (ce_protocol entry),
            (case requested_host_port entry of Some port \<Rightarrow> port | None \<Rightarrow> 0xFFFF),
            host_ip_display_value (ce_host_ip entry)))
         (filter (\<lambda>entry. ce_eligibility entry = Eligible_Fixed_Tcp) (pin_port_entries input)))"

definition plan_compose_published_ports_inner ::
  "compose_planning_input \<Rightarrow> bool \<Rightarrow> resolved_forward_port list \<Rightarrow>
   compose_published_port_mapping list \<Rightarrow> existing_project_bindings \<Rightarrow> host_port_reservation list \<Rightarrow>
   'w host_port_prober \<Rightarrow> ('w, compose_published_port_plan) planning" where
  "plan_compose_published_ports_inner input automatic_relocation_enabled existing_forward_ports mappings
       existing_project_bindings external_host_reservations probe =
     (if \<not> automatic_relocation_enabled \<and> mappings = [] then io_return \<lparr>plan_entries = []\<rparr>
      else
        let state = \<lparr>ps_existing_project_published_ports = eb_all existing_project_bindings,
              ps_reusable_existing_project_published_ports = eb_reusable existing_project_bindings,
              ps_running_project_reservations =
                running_project_reservations (eb_reusable existing_project_bindings),
              ps_reservations = resolved_forward_port_reservations existing_forward_ports @
                external_host_reservations,
              ps_plan_entries = []\<rparr>;
            ordered_entries = ordered_eligible_port_entries input
        in io_bind (plan_explicit_mappings ordered_entries mappings state probe) (\<lambda>state.
           io_bind (plan_unmapped_entries ordered_entries automatic_relocation_enabled mappings state probe)
             (\<lambda>state.
               let order = index_map (map (\<lambda>entry. (ce_service entry, ce_entry_index entry)) ordered_entries)
               in io_return \<lparr>plan_entries =
                    sort_key (\<lambda>entry. position_in order (pl_service entry, pl_port_entry_index entry))
                      (ps_plan_entries state)\<rparr>)))"

definition plan_compose_published_ports_with_existing_project ::
  "'w host_port_prober \<Rightarrow> compose_planning_input \<Rightarrow> bool \<Rightarrow> resolved_forward_port list \<Rightarrow>
   compose_published_port_mapping list \<Rightarrow> compose_published_port_reservation list \<Rightarrow> bool \<Rightarrow>
   host_port_reservation list \<Rightarrow> ('w, compose_published_port_plan) planning" where
  "plan_compose_published_ports_with_existing_project probe input automatic_relocation_enabled
       existing_forward_ports mappings existing_project_published_ports preserve_existing_bindings
       external_host_reservations =
     plan_compose_published_ports_inner input automatic_relocation_enabled existing_forward_ports mappings
       (new_existing_project_bindings existing_project_published_ports preserve_existing_bindings)
       external_host_reservations probe"

section \<open>Plans\<close>

definition compose_published_port_plan_has_relocations :: "compose_published_port_plan \<Rightarrow> bool" where
  "compose_published_port_plan_has_relocations plan = list_ex pl_relocated (plan_entries plan)"

definition runtime_plan_entry ::
  "(string \<times> nat, compose_published_port_plan_entry) btree_map \<Rightarrow> compose_port_entry \<Rightarrow>
   compose_published_port_plan_error + compose_published_port_plan_entry" where
  "runtime_plan_entry planned_entries entry =
     bind_res (endpoint_for_entry entry) (\<lambda>requested.
     bind_res (target_port_for_entry entry) (\<lambda>target_port.
       case bt_get planned_entries (ce_service entry, ce_entry_index entry) of
         Some planned \<Rightarrow> Inr planned
       | None \<Rightarrow>
           Inr \<lparr>pl_service = ce_service entry, pl_port_entry_index = ce_entry_index entry,
                pl_source = Source_Compose, pl_kind = Type_Published, pl_target_port = target_port,
                pl_protocol = ce_protocol entry, pl_requested = requested, pl_planned = requested,
                pl_planned_endpoint_probe = Planned_Available, pl_relocated = False,
                pl_allocation_reason = Reason_Available\<rparr>))"

definition compose_published_port_runtime_plan ::
  "compose_planning_input \<Rightarrow> compose_published_port_plan \<Rightarrow>
   compose_published_port_plan_error + compose_published_port_plan" where
  "compose_published_port_runtime_plan input planned =
     (let planned_entries = bt_collect (map (\<lambda>entry. ((pl_service entry, pl_port_entry_index entry), entry))
            (plan_entries planned))
      in bind_res (try_map (runtime_plan_entry planned_entries)
             (filter (\<lambda>entry. ce_eligibility entry = Eligible_Fixed_Tcp) (pin_port_entries input)))
           (\<lambda>entries. Inr \<lparr>plan_entries = entries\<rparr>))"

section \<open>Ports found\<close>

definition endpoint_reservation :: "compose_published_port_endpoint \<Rightarrow> host_port_reservation" where
  "endpoint_reservation e = \<lparr>hr_host_ip = reservation_host_ip e, hr_host = pe_host_port e\<rparr>"

lemma endpoint_reservation_sel [simp]:
  "hr_host_ip (endpoint_reservation e) = reservation_host_ip e"
  "hr_host (endpoint_reservation e) = pe_host_port e"
  by (simp_all add: endpoint_reservation_def)

lemma free_endpoint:
  "host_ports.free rs (endpoint_reservation e) \<longleftrightarrow>
     \<not> host_port_reservations_conflict rs (reservation_host_ip e) (pe_host_port e)"
  by (simp add: reservations_conflict_iff endpoint_reservation_def)

lemma host_ips_conflict_iff:
  "host_ips_conflict a b \<longleftrightarrow> host_ip_bindings_conflict (reservation_host_ip a) (reservation_host_ip b)"
  by (simp add: host_ips_conflict_def host_port_reservations_conflict_def)

lemma host_ips_conflict_refl: "reservation_host_ip a = reservation_host_ip b \<Longrightarrow> host_ips_conflict a b"
  by (simp add: host_ips_conflict_iff host_ip_bindings_conflict_def)

lemma reservation_host_ip_planned [simp]:
  "reservation_host_ip (existing_planned_endpoint existing requested) = reservation_host_ip (cr_endpoint existing)"
  "pe_host_port (existing_planned_endpoint existing requested) = pe_host_port (cr_endpoint existing)"
  by (auto simp: existing_planned_endpoint_def reservation_host_ip_def)

lemma probe_ok_iff [io_elims]:
  "probe_compose_published_host_port probe ip port w = (Inr r, w') \<longleftrightarrow> probe ip port w = (Inr r, w')"
  by (simp add: probe_compose_published_host_port_def io_elims)

definition port_rejected :: "'w host_port_prober \<Rightarrow> host_port_reservation list \<Rightarrow> string \<Rightarrow> u16 \<Rightarrow> bool" where
  "port_rejected probe rs ip q \<longleftrightarrow> host_port_reservations_conflict rs ip q \<or>
     (\<exists>v r v'. probe ip q v = (Inr r, v') \<and> r \<noteq> Available)"

lemma relocation_step:
  fixes probe :: "'w host_port_prober"
  defines "ok \<equiv> \<lambda>rs ip c. io_bind
                  (if host_port_reservations_conflict rs ip c then io_return Occupied
                   else probe_compose_published_host_port probe ip c)
                  (\<lambda>candidate_probe. io_return (candidate_probe = Available))"
  shows "ok rs ip c v = (Inr True, v') \<longleftrightarrow>
      \<not> host_port_reservations_conflict rs ip c \<and> probe ip c v = (Inr Available, v')"
    and "ok rs ip c v = (Inr False, v') \<Longrightarrow> port_rejected probe rs ip c"
    and "ok rs ip c v = (Inl e, v') \<Longrightarrow> \<exists>source. e = Host_Port_Availability ip c source"
proof -
  show "ok rs ip c v = (Inr True, v') \<longleftrightarrow>
      \<not> host_port_reservations_conflict rs ip c \<and> probe ip c v = (Inr Available, v')"
    by (auto simp: ok_def io_elims)
  show "ok rs ip c v = (Inr False, v') \<Longrightarrow> port_rejected probe rs ip c"
    by (auto simp: ok_def io_elims port_rejected_def split: if_splits)
  show "ok rs ip c v = (Inl e, v') \<Longrightarrow> \<exists>source. e = Host_Port_Availability ip c source"
    by (cases "fst (probe ip c v)")
       (auto simp: ok_def io_defs probe_compose_published_host_port_def split: if_splits prod.splits)
qed

lemma allocate_ok:
  assumes "allocate_automatic_relocation_host_port entry requested ip rs probe w = (Inr p, w')"
  shows "unat (pe_host_port requested) < unat p \<and> \<not> host_port_reservations_conflict rs ip p \<and>
    (\<exists>v. probe ip p v = (Inr Available, w')) \<and>
    (\<forall>q. unat (pe_host_port requested) < unat q \<and> unat q < unat p \<longrightarrow> port_rejected probe rs ip q)"
proof -
  let ?ok = "\<lambda>c. io_bind (if host_port_reservations_conflict rs ip c then io_return Occupied
                   else probe_compose_published_host_port probe ip c)
                  (\<lambda>candidate_probe. io_return (candidate_probe = Available))"
  obtain c where c: "checked_add (pe_host_port requested) 1 = Some c" "search_port ?ok c w = (Inr (Some p), w')"
    using assms unfolding allocate_automatic_relocation_host_port_def
    by (auto simp: io_elims split: option.splits)
  have "unat c = unat (pe_host_port requested) + 1" using checked_add_SomeD [OF c(1)] by simp
  then have above: "unat c \<le> unat q \<longleftrightarrow> unat (pe_host_port requested) < unat q" for q :: u16 by (simp add: Suc_le_eq)
  from search_port_Some [OF c(2)] have
    s: "unat c \<le> unat p" "\<exists>v. ?ok p v = (Inr True, w')"
      "\<And>q. unat c \<le> unat q \<and> unat q < unat p \<Longrightarrow> \<exists>v v'. ?ok q v = (Inr False, v')" by blast+
  from s(2) have "\<not> host_port_reservations_conflict rs ip p" "\<exists>v. probe ip p v = (Inr Available, w')"
    unfolding relocation_step(1) by blast+
  with s(1,3) show ?thesis using relocation_step(2) unfolding above by metis
qed

lemma search_port_error: "search_port ok c w = (Inl e, w') \<Longrightarrow> \<exists>q v v'. ok q v = (Inl e, v')"
proof (induction ok c w rule: search_port.induct)
  case (1 ok c w)
  show ?case
  proof (cases "ok c w")
    case (Pair r w1)
    show ?thesis
    proof (cases r)
      case (Inl d)
      then show ?thesis using "1.prems" Pair by (auto simp: search_port.simps [of ok c w])
    next
      case (Inr b)
      then obtain n where "\<not> b" "checked_add c 1 = Some n" "search_port ok n w1 = (Inl e, w')"
        using "1.prems" Pair by (cases b; cases "checked_add c 1") (simp_all add: search_port.simps [of ok c w])
      then show ?thesis using "1.IH" Pair Inr by metis
    qed
  qed
qed

lemma allocate_error:
  assumes "allocate_automatic_relocation_host_port entry requested ip rs probe w = (Inl e, w')"
  shows "(\<exists>port source. e = Host_Port_Availability ip port source) \<or>
    (e = No_Automatic_Relocation_Candidate (ce_service entry) (ce_entry_index entry) requested \<and>
     (\<forall>q. unat (pe_host_port requested) < unat q \<longrightarrow> port_rejected probe rs ip q))"
proof -
  let ?ok = "\<lambda>c. io_bind (if host_port_reservations_conflict rs ip c then io_return Occupied
                   else probe_compose_published_host_port probe ip c)
                  (\<lambda>candidate_probe. io_return (candidate_probe = Available))"
  let ?none = "No_Automatic_Relocation_Candidate (ce_service entry) (ce_entry_index entry) requested"
  show ?thesis
  proof (cases "checked_add (pe_host_port requested) 1")
    case None
    then have "unat (pe_host_port requested) = 65535"
      using checked_add_None_iff [of "pe_host_port requested" 1] unat_u16_bound [of "pe_host_port requested"] by simp
    then have "\<not> unat (pe_host_port requested) < unat q" for q :: u16 using unat_u16_bound [of q] by simp
    moreover have "e = ?none" using assms None
      by (simp add: allocate_automatic_relocation_host_port_def io_fail_def no_automatic_relocation_candidate_def)
    ultimately show ?thesis by blast
  next
    case (Some c)
    have above: "unat c \<le> unat q \<longleftrightarrow> unat (pe_host_port requested) < unat q" for q :: u16
      using checked_add_SomeD [OF Some] by (simp add: Suc_le_eq)
    obtain r v where r: "search_port ?ok c w = (r, v)" by (cases "search_port ?ok c w")
    show ?thesis
    proof (cases r)
      case (Inl d)
      then have "e = d" using assms Some r
        by (simp add: allocate_automatic_relocation_host_port_def io_bind_def [of "search_port _ _"])
      then show ?thesis using search_port_error [of ?ok c w d v] r Inl relocation_step(3) by metis
    next
      case (Inr found)
      then have found: "found = None" "e = ?none" using assms Some r
        by (cases found; simp add: allocate_automatic_relocation_host_port_def io_bind_def [of "search_port _ _"]
            io_fail_def io_return_def no_automatic_relocation_candidate_def)+
      from search_port_None [of ?ok c w v] r Inr found(1)
      have "\<forall>q. unat c \<le> unat q \<longrightarrow> (\<exists>v v'. ?ok q v = (Inr False, v'))" by simp
      then show ?thesis using found(2) relocation_step(2) unfolding above by metis
    qed
  qed
qed

section \<open>Decisions are free of the reservations\<close>

abbreviation free_of :: "host_port_reservation list \<Rightarrow> compose_published_port_endpoint \<Rightarrow> bool" where
  "free_of rs e \<equiv> host_ports.free rs (endpoint_reservation e)"

lemma existing_candidate_ok:
  "existing_project_published_port_candidate existing entry requested rs probe w = (Inr (Some c), w') \<Longrightarrow>
   \<exists>x\<in>set existing. existing_matches_entry x entry requested \<and>
      ec_endpoint c = existing_planned_endpoint x requested \<and> free_of rs (ec_endpoint c)"
proof (induction existing arbitrary: w)
  case (Cons x rest)
  have rest: "existing_project_published_port_candidate rest entry requested rs probe v = (Inr (Some c), w') \<Longrightarrow> ?case" for v
    using Cons.IH [of v] by auto
  show ?case
  proof (cases "existing_matches_entry x entry requested \<and>
      \<not> host_port_reservations_conflict rs (reservation_host_ip (cr_endpoint x)) (pe_host_port (cr_endpoint x))")
    case False
    then have "existing_project_published_port_candidate rest entry requested rs probe w = (Inr (Some c), w')"
      using Cons.prems by (auto simp: Let_def split: if_splits)
    then show ?thesis by (rule rest)
  next
    case True
    then have free: "free_of rs (existing_planned_endpoint x requested)" by (simp add: free_endpoint)
    have "ec_endpoint c = existing_planned_endpoint x requested \<or>
        (\<exists>v. existing_project_published_port_candidate rest entry requested rs probe v = (Inr (Some c), w'))"
      using Cons.prems True
      by (cases "cr_source x") (auto simp: Let_def io_elims split: host_port_probe.splits, metis host_port_probe.exhaust)
    then show ?thesis using rest True free by auto
  qed
qed (simp add: io_elims)

lemma requested_or_relocated_ok:
  assumes "decision_for_requested_or_relocated_endpoint entry requested (reservation_host_ip requested)
      (host_port_reservations_conflict rs (reservation_host_ip requested) (pe_host_port requested)) rs probe w =
      (Inr d, w')"
  shows "pe_host_ip (pd_planned d) = pe_host_ip requested \<and> free_of rs (pd_planned d) \<and>
    unat (pe_host_port requested) \<le> unat (pe_host_port (pd_planned d)) \<and>
    (\<forall>q. unat (pe_host_port requested) \<le> unat q \<and> unat q < unat (pe_host_port (pd_planned d)) \<longrightarrow>
       port_rejected probe rs (reservation_host_ip requested) q)"
proof -
  let ?ip = "reservation_host_ip requested" and ?port = "pe_host_port requested"
  let ?reserved = "host_port_reservations_conflict rs ?ip ?port"
  obtain r v where r: "(if ?reserved then io_return Occupied else probe_compose_published_host_port probe ?ip ?port) w =
      (Inr r, v)" and rest: "(case r of
          Available \<Rightarrow>
            io_return \<lparr>pd_planned = requested, pd_allocation_reason = Reason_Available,
              pd_planned_endpoint_probe = Planned_Available\<rparr>
        | Unprobeable \<Rightarrow>
            io_return \<lparr>pd_planned = requested, pd_allocation_reason = Reason_Available,
              pd_planned_endpoint_probe = Planned_Unprobeable\<rparr>
        | Occupied \<Rightarrow>
            io_bind (allocate_automatic_relocation_host_port entry requested ?ip rs probe)
              (\<lambda>planned_host_port.
                io_return \<lparr>pd_planned = \<lparr>pe_host_ip = pe_host_ip requested, pe_host_port = planned_host_port\<rparr>,
                  pd_allocation_reason = (if ?reserved then Reason_Reserved else Reason_Unavailable),
                  pd_planned_endpoint_probe = Planned_Available\<rparr>)) v = (Inr d, w')"
    using assms unfolding decision_for_requested_or_relocated_endpoint_def io_bind_iff by blast
  show ?thesis
  proof (cases "r = Occupied")
    case False
    then have "pd_planned d = requested" using rest by (cases r) (auto simp: io_elims)
    moreover have "\<not> ?reserved" using r False by (auto simp: io_elims)
    ultimately show ?thesis by (auto simp: free_endpoint)
  next
    case True
    then obtain p where p: "allocate_automatic_relocation_host_port entry requested ?ip rs probe v = (Inr p, w')"
        "pd_planned d = \<lparr>pe_host_ip = pe_host_ip requested, pe_host_port = p\<rparr>"
      using rest by (auto simp: io_elims)
    have first: "port_rejected probe rs ?ip ?port"
      using r True by (auto simp: port_rejected_def io_elims split: if_splits)
    have ip: "reservation_host_ip (pd_planned d) = ?ip" by (simp add: p(2) reservation_host_ip_def)
    have port: "pe_host_port (pd_planned d) = p" by (simp add: p(2))
    note a = allocate_ok [OF p(1)]
    have "port_rejected probe rs ?ip q" if "unat ?port \<le> unat q" "unat q < unat p" for q
    proof (cases "q = ?port")
      case True
      then show ?thesis using first by simp
    next
      case False
      then have "unat ?port < unat q" using that(1) by (simp add: word_unat_eq_iff)
      then show ?thesis using a that(2) by blast
    qed
    then show ?thesis using a unfolding free_endpoint ip port by (simp add: p(2))
  qed
qed

lemma mapping_decision_ok:
  assumes "decision_for_mapping mapping requested rs held probe w = (Inr d, w')"
  shows "pd_planned d = cp_endpoint mapping \<and> pd_allocation_reason d = Reason_Mapping \<and>
    free_of rs (cp_endpoint mapping)"
  using assms unfolding decision_for_mapping_def Let_def
  by (auto simp: io_elims free_endpoint split: if_splits)

section \<open>Steps of the planner\<close>

definition step_plans ::
  "compose_port_entry \<Rightarrow> published_port_planning_state \<Rightarrow> published_port_planning_state \<Rightarrow>
   planned_endpoint_decision \<Rightarrow> bool" where
  "step_plans entry s t d \<longleftrightarrow> (\<exists>requested target_port.
     endpoint_for_entry entry = Inr requested \<and> target_port_for_entry entry = Inr target_port \<and>
     t = push_decision entry requested target_port d s)"

lemma explicit_mapping_step:
  assumes "plan_explicit_mapping ordered probe s mapping w = (Inr t, w')"
  shows "\<exists>entry d. entry \<in> set ordered \<and> mapping_matches_entry mapping entry \<and> step_plans entry s t d \<and>
    pd_planned d = cp_endpoint mapping \<and> pd_allocation_reason d = Reason_Mapping \<and>
    free_of (ps_reservations s) (pd_planned d)"
proof -
  obtain entry requested target_port d v rs held where
    e: "List.find (mapping_matches_entry mapping) ordered = Some entry" "endpoint_for_entry entry = Inr requested"
      "target_port_for_entry entry = Inr target_port" "t = push_decision entry requested target_port d s"
      and d: "decision_for_mapping mapping requested (ps_reservations s @ rs) held probe v = (Inr d, w')"
    using assms unfolding plan_explicit_mapping_def Let_def by (auto simp: io_elims result_elims)
  have "entry \<in> set ordered \<and> mapping_matches_entry mapping entry" using find_Some_iff2 [OF e(1)] .
  moreover have "step_plans entry s t d" using e by (auto simp: step_plans_def)
  ultimately show ?thesis using mapping_decision_ok [OF d] unfolding host_ports.free_append
    by (intro exI [of _ entry] exI [of _ d]) simp
qed

lemma unmapped_step_disabled:
  assumes "plan_unmapped_entry False mappings probe s entry w = (Inr t, w')"
    and "\<not> (\<exists>m\<in>set mappings. mapping_matches_entry m entry)"
  shows "\<exists>d. step_plans entry s t d \<and> endpoint_for_entry entry = Inr (pd_planned d) \<and>
    pd_allocation_reason d = Reason_Available \<and>
    free_of (map (\<lambda>m. endpoint_reservation (cp_endpoint m)) mappings) (pd_planned d)"
proof -
  have "\<not> list_ex (\<lambda>mapping. mapping_matches_entry mapping entry) mappings" using assms(2) by (auto simp: list_ex_iff)
  then obtain requested target_port where
    e: "endpoint_for_entry entry = Inr requested" "target_port_for_entry entry = Inr target_port"
      "plan_unmapped_entry_without_automatic_relocation entry requested target_port mappings s = Inr t"
    using assms(1) unfolding plan_unmapped_entry_def by (auto simp: io_elims)
  let ?d = "\<lparr>pd_planned = requested, pd_allocation_reason = Reason_Available,
             pd_planned_endpoint_probe = Planned_Unprobeable\<rparr>"
  have t: "t = push_decision entry requested target_port ?d s"
    and none: "\<forall>m\<in>set mappings. \<not> (host_ips_conflict (cp_endpoint m) requested \<and>
           pe_host_port (cp_endpoint m) = pe_host_port requested)"
    using e(3) by (auto simp: plan_unmapped_entry_without_automatic_relocation_def find_None_iff2 split: option.splits)
  have "free_of (map (\<lambda>m. endpoint_reservation (cp_endpoint m)) mappings) requested"
    using none by (auto simp: host_ports.free_def reservation_conflict_def host_ips_conflict_iff)
  then show ?thesis using e t by (intro exI [of _ ?d]) (auto simp: step_plans_def)
qed

lemma unmapped_step_enabled:
  assumes "plan_unmapped_entry True mappings probe s entry w = (Inr t, w')"
    and "\<not> (\<exists>m\<in>set mappings. mapping_matches_entry m entry)"
  shows "\<exists>d requested. step_plans entry s t d \<and> free_of (ps_reservations s) (pd_planned d) \<and>
    endpoint_for_entry entry = Inr requested \<and> pd_allocation_reason d \<noteq> Reason_Mapping \<and>
    host_ips_conflict (pd_planned d) requested"
proof -
  have "\<not> list_ex (\<lambda>mapping. mapping_matches_entry mapping entry) mappings" using assms(2) by (auto simp: list_ex_iff)
  then obtain requested target_port existing d v v' where
    e: "endpoint_for_entry entry = Inr requested" "target_port_for_entry entry = Inr target_port"
      "t = push_decision entry requested target_port d s"
    and x: "existing_project_published_port_candidate (ps_reusable_existing_project_published_ports s) entry
        requested (ps_reservations s) probe v = (Inr existing, v')"
    and d: "(case existing of
              Some existing_candidate \<Rightarrow>
                io_return (decision_for_existing_project_candidate existing_candidate requested)
            | None \<Rightarrow> decision_for_requested_or_relocated_endpoint entry requested (reservation_host_ip requested)
                (host_port_reservations_conflict (ps_reservations s @ ps_running_project_reservations s)
                   (reservation_host_ip requested) (pe_host_port requested))
                (ps_reservations s @ ps_running_project_reservations s) probe) v' = (Inr d, w')"
    using assms(1) unfolding plan_unmapped_entry_def Let_def by (auto simp: io_elims)
  have step: "step_plans entry s t d" using e by (auto simp: step_plans_def)
  show ?thesis
  proof (cases existing)
    case None
    from requested_or_relocated_ok [OF d [unfolded None option.case]]
    have ok: "pe_host_ip (pd_planned d) = pe_host_ip requested"
      "free_of (ps_reservations s @ ps_running_project_reservations s) (pd_planned d)" by blast+
    have "pd_allocation_reason d \<noteq> Reason_Mapping"
      using d unfolding None decision_for_requested_or_relocated_endpoint_def
      by (auto simp: io_elims split: host_port_probe.splits if_splits) (metis host_port_probe.exhaust)+
    moreover have "host_ips_conflict (pd_planned d) requested"
      using ok(1) by (intro host_ips_conflict_refl) (simp add: reservation_host_ip_def)
    ultimately show ?thesis using step e(1) ok(2) unfolding host_ports.free_append by blast
  next
    case (Some c)
    then have d: "d = decision_for_existing_project_candidate c requested" using d by (simp add: io_elims)
    obtain y where y: "existing_matches_entry y entry requested" "ec_endpoint c = existing_planned_endpoint y requested"
        "free_of (ps_reservations s) (ec_endpoint c)"
      using existing_candidate_ok [OF x [unfolded Some]] by blast
    have "host_ips_conflict (pd_planned d) requested"
      using y(1,2) by (simp add: d decision_for_existing_project_candidate_def existing_matches_entry_def host_ips_conflict_iff)
    moreover have "pd_planned d = ec_endpoint c" "pd_allocation_reason d \<noteq> Reason_Mapping"
      by (simp_all add: d decision_for_existing_project_candidate_def)
    ultimately show ?thesis using step e(1) y(3) by metis
  qed
qed

section \<open>Runs of the planner\<close>

definition plans :: "compose_port_entry \<Rightarrow> compose_published_port_plan_entry \<Rightarrow> bool" where
  "plans entry e \<longleftrightarrow> pl_service e = ce_service entry \<and> pl_port_entry_index e = ce_entry_index entry \<and>
     pl_protocol e = ce_protocol entry \<and> target_port_for_entry entry = Inr (pl_target_port e) \<and>
     endpoint_for_entry entry = Inr (pl_requested e) \<and>
     (pl_relocated e \<longleftrightarrow> pl_requested e \<noteq> pl_planned e)"

definition plans_mapping ::
  "compose_port_entry list \<Rightarrow> compose_published_port_mapping \<Rightarrow> compose_published_port_plan_entry \<Rightarrow> bool" where
  "plans_mapping ordered m e \<longleftrightarrow> (\<exists>entry\<in>set ordered. mapping_matches_entry m entry \<and> plans entry e) \<and>
     pl_planned e = cp_endpoint m \<and> pl_allocation_reason e = Reason_Mapping"

definition reservations_of :: "compose_published_port_plan_entry list \<Rightarrow> host_port_reservation list" where
  "reservations_of entries = map (\<lambda>e. endpoint_reservation (pl_planned e)) entries"

definition records :: "host_port_reservation list \<Rightarrow> published_port_planning_state \<Rightarrow> bool" where
  "records initial s \<longleftrightarrow> ps_reservations s = initial @ reservations_of (ps_plan_entries s)"

definition separated :: "host_port_reservation list \<Rightarrow> compose_published_port_plan_entry list \<Rightarrow> bool" where
  "separated initial entries \<longleftrightarrow> host_ports.separate (reservations_of entries) \<and>
     (\<forall>e\<in>set entries. free_of initial (pl_planned e))"

lemma separated_snoc:
  "separated initial (es @ [e]) \<longleftrightarrow> separated initial es \<and> free_of (initial @ reservations_of es) (pl_planned e)"
  by (auto simp: separated_def reservations_of_def host_ports.separate_snoc host_ports.free_append)

lemma step_plansD:
  assumes "step_plans entry s t d"
  shows "\<exists>e. ps_plan_entries t = ps_plan_entries s @ [e] \<and> plans entry e \<and> pl_planned e = pd_planned d \<and>
      pl_allocation_reason e = pd_allocation_reason d \<and>
      (\<forall>initial. records initial s \<longrightarrow> records initial t \<and> (free_of (ps_reservations s) (pd_planned d) \<longrightarrow>
         separated initial (ps_plan_entries s) \<longrightarrow> separated initial (ps_plan_entries t)))"
proof -
  obtain requested target_port where e: "endpoint_for_entry entry = Inr requested"
     "target_port_for_entry entry = Inr target_port" "t = push_decision entry requested target_port d s"
    using assms by (auto simp: step_plans_def)
  let ?e = "plan_entry entry requested target_port d"
  have sel: "ps_plan_entries t = ps_plan_entries s @ [?e]" "pl_planned ?e = pd_planned d"
    "pl_allocation_reason ?e = pd_allocation_reason d" "plans entry ?e"
    "ps_reservations t = ps_reservations s @ [endpoint_reservation (pd_planned d)]"
    using e by (simp_all add: push_decision_def plan_entry_def plans_def endpoint_reservation_def)
  have rec: "records initial t" if "records initial s" for initial
    using that by (simp add: records_def sel reservations_of_def)
  have "separated initial (ps_plan_entries t)" if "records initial s" "free_of (ps_reservations s) (pd_planned d)"
      "separated initial (ps_plan_entries s)" for initial
    using that by (simp add: separated_snoc sel records_def)
  then show ?thesis using sel rec by (intro exI [of _ ?e]) blast
qed

lemma explicit_mappings_run:
  assumes "plan_explicit_mappings ordered mappings s probe w = (Inr t, w')"
    and "records initial s" "ps_plan_entries s = []"
  shows "records initial t \<and> separated initial (ps_plan_entries t) \<and>
    list_all2 (plans_mapping ordered) mappings (ps_plan_entries t)"
  using assms(1) unfolding plan_explicit_mappings_def
proof (rule io_fold_invariant)
  show "records initial s \<and> separated initial (ps_plan_entries s) \<and>
      list_all2 (plans_mapping ordered) [] (ps_plan_entries s)"
    using assms(2,3) by (simp add: separated_def reservations_of_def)
next
  fix ms m u t' v v'
  assume P: "records initial u \<and> separated initial (ps_plan_entries u) \<and>
      list_all2 (plans_mapping ordered) ms (ps_plan_entries u)"
    and step: "plan_explicit_mapping ordered probe u m v = (Inr t', v')"
  from explicit_mapping_step [OF step] obtain entry d where
    d: "entry \<in> set ordered" "mapping_matches_entry m entry" "step_plans entry u t' d"
      "pd_planned d = cp_endpoint m" "pd_allocation_reason d = Reason_Mapping"
      "free_of (ps_reservations u) (pd_planned d)" by blast
  from step_plansD [OF d(3)] obtain e where
    e: "ps_plan_entries t' = ps_plan_entries u @ [e]" "plans entry e" "pl_planned e = pd_planned d"
      "pl_allocation_reason e = pd_allocation_reason d" "records initial t'" "separated initial (ps_plan_entries t')"
    using P d(6) by blast
  have "plans_mapping ordered m e" unfolding plans_mapping_def using d e by auto
  then show "records initial t' \<and> separated initial (ps_plan_entries t') \<and>
      list_all2 (plans_mapping ordered) (ms @ [m]) (ps_plan_entries t')"
    using e P by (simp add: list_all2_appendI)
qed

definition unmapped :: "compose_published_port_mapping list \<Rightarrow> compose_port_entry \<Rightarrow> bool" where
  "unmapped mappings entry \<longleftrightarrow> \<not> (\<exists>m\<in>set mappings. mapping_matches_entry m entry)"

definition plans_unmapped ::
  "bool \<Rightarrow> compose_published_port_mapping list \<Rightarrow> compose_port_entry \<Rightarrow> compose_published_port_plan_entry \<Rightarrow> bool" where
  "plans_unmapped enabled mappings entry e \<longleftrightarrow> plans entry e \<and> pl_allocation_reason e \<noteq> Reason_Mapping \<and>
     (if enabled then host_ips_conflict (pl_planned e) (pl_requested e)
      else pl_planned e = pl_requested e \<and>
        free_of (map (\<lambda>m. endpoint_reservation (cp_endpoint m)) mappings) (pl_planned e))"

lemma unmapped_step:
  assumes "plan_unmapped_entry enabled mappings probe s entry w = (Inr t, w')" "unmapped mappings entry"
  shows "\<exists>d. step_plans entry s t d \<and> (enabled \<longrightarrow> free_of (ps_reservations s) (pd_planned d)) \<and>
    (\<forall>e. plans entry e \<longrightarrow> pl_planned e = pd_planned d \<longrightarrow> pl_allocation_reason e = pd_allocation_reason d \<longrightarrow>
       plans_unmapped enabled mappings entry e)"
proof (cases enabled)
  case True
  from assms(1) True have "plan_unmapped_entry True mappings probe s entry w = (Inr t, w')" by simp
  from unmapped_step_enabled [OF this assms(2) [unfolded unmapped_def]] obtain d requested where
    d: "step_plans entry s t d" "free_of (ps_reservations s) (pd_planned d)" "endpoint_for_entry entry = Inr requested"
      "pd_allocation_reason d \<noteq> Reason_Mapping" "host_ips_conflict (pd_planned d) requested" by blast
  have "plans_unmapped enabled mappings entry e"
    if "plans entry e" "pl_planned e = pd_planned d" "pl_allocation_reason e = pd_allocation_reason d" for e
  proof -
    have "endpoint_for_entry entry = Inr (pl_requested e)" using that(1) by (simp add: plans_def)
    then show ?thesis using that d(3,4,5) True by (simp add: plans_unmapped_def)
  qed
  with d show ?thesis by blast
next
  case False
  from assms(1) False have "plan_unmapped_entry False mappings probe s entry w = (Inr t, w')" by simp
  from unmapped_step_disabled [OF this assms(2) [unfolded unmapped_def]] obtain d where
    d: "step_plans entry s t d" "endpoint_for_entry entry = Inr (pd_planned d)"
      "pd_allocation_reason d = Reason_Available"
      "free_of (map (\<lambda>m. endpoint_reservation (cp_endpoint m)) mappings) (pd_planned d)" by blast
  have "plans_unmapped enabled mappings entry e"
    if "plans entry e" "pl_planned e = pd_planned d" "pl_allocation_reason e = pd_allocation_reason d" for e
  proof -
    have "endpoint_for_entry entry = Inr (pl_requested e)" using that(1) by (simp add: plans_def)
    then show ?thesis using that d(2,3,4) False by (simp add: plans_unmapped_def)
  qed
  with d(1) False show ?thesis by blast
qed

lemma unmapped_entries_run:
  assumes "plan_unmapped_entries ordered enabled mappings s probe w = (Inr t, w')"
    and "records initial s" "separated initial (ps_plan_entries s)"
  shows "records initial t \<and> (enabled \<longrightarrow> separated initial (ps_plan_entries t)) \<and>
    (\<exists>us. ps_plan_entries t = ps_plan_entries s @ us \<and>
       list_all2 (plans_unmapped enabled mappings) (filter (unmapped mappings) ordered) us)"
  using assms(1) unfolding plan_unmapped_entries_def
proof (rule io_fold_invariant)
  show "records initial s \<and> (enabled \<longrightarrow> separated initial (ps_plan_entries s)) \<and>
      (\<exists>us. ps_plan_entries s = ps_plan_entries s @ us \<and>
        list_all2 (plans_unmapped enabled mappings) (filter (unmapped mappings) []) us)"
    using assms(2,3) by simp
next
  fix xs entry u t' v v'
  assume P: "records initial u \<and> (enabled \<longrightarrow> separated initial (ps_plan_entries u)) \<and>
      (\<exists>us. ps_plan_entries u = ps_plan_entries s @ us \<and>
        list_all2 (plans_unmapped enabled mappings) (filter (unmapped mappings) xs) us)"
    and step: "plan_unmapped_entry enabled mappings probe u entry v = (Inr t', v')"
  show "records initial t' \<and> (enabled \<longrightarrow> separated initial (ps_plan_entries t')) \<and>
      (\<exists>us. ps_plan_entries t' = ps_plan_entries s @ us \<and>
        list_all2 (plans_unmapped enabled mappings) (filter (unmapped mappings) (xs @ [entry])) us)"
  proof (cases "unmapped mappings entry")
    case False
    then have "t' = u" using step by (auto simp: plan_unmapped_entry_def unmapped_def list_ex_iff io_elims split: if_splits)
    then show ?thesis using P False by simp
  next
    case True
    from unmapped_step [OF step True] obtain d where
      d: "step_plans entry u t' d" "enabled \<longrightarrow> free_of (ps_reservations u) (pd_planned d)"
        "\<And>e. plans entry e \<Longrightarrow> pl_planned e = pd_planned d \<Longrightarrow>
           pl_allocation_reason e = pd_allocation_reason d \<Longrightarrow> plans_unmapped enabled mappings entry e" by blast
    from step_plansD [OF d(1)] obtain e where
      e: "ps_plan_entries t' = ps_plan_entries u @ [e]" "plans entry e" "pl_planned e = pd_planned d"
        "pl_allocation_reason e = pd_allocation_reason d" "records initial t'"
        "enabled \<longrightarrow> separated initial (ps_plan_entries t')"
      using P d(2) by blast
    have e': "plans_unmapped enabled mappings entry e" using d(3) [OF e(2,3,4)] .
    from P obtain us where us: "ps_plan_entries u = ps_plan_entries s @ us"
      "list_all2 (plans_unmapped enabled mappings) (filter (unmapped mappings) xs) us" by blast
    have "list_all2 (plans_unmapped enabled mappings) (filter (unmapped mappings) (xs @ [entry])) (us @ [e])"
      using us(2) e' True by (simp add: list_all2_appendI)
    moreover have "ps_plan_entries t' = ps_plan_entries s @ (us @ [e])" using e(1) us(1) by simp
    ultimately show ?thesis using e(5,6) by blast
  qed
qed

lemma planner_run:
  fixes input enabled forward_ports mappings existing external probe
  defines "ordered \<equiv> ordered_eligible_port_entries input"
  defines "initial \<equiv> resolved_forward_port_reservations forward_ports @ external"
  defines "order \<equiv> index_map (map (\<lambda>entry. (ce_service entry, ce_entry_index entry)) ordered)"
  assumes "plan_compose_published_ports_inner input enabled forward_ports mappings existing external probe w = (Inr plan, w')"
    and "enabled \<or> mappings \<noteq> []"
  shows "\<exists>es us. plan_entries plan =
        sort_key (\<lambda>entry. position_in order (pl_service entry, pl_port_entry_index entry)) (es @ us) \<and>
      list_all2 (plans_mapping ordered) mappings es \<and>
      list_all2 (plans_unmapped enabled mappings) (filter (unmapped mappings) ordered) us \<and>
      separated initial es \<and> (enabled \<longrightarrow> separated initial (es @ us))"
proof -
  let ?s = "\<lparr>ps_existing_project_published_ports = eb_all existing,
              ps_reusable_existing_project_published_ports = eb_reusable existing,
              ps_running_project_reservations =
                running_project_reservations (eb_reusable existing),
              ps_reservations = initial, ps_plan_entries = []\<rparr>"
  have "\<not> (\<not> enabled \<and> mappings = [])" using assms(5) by blast
  then obtain t u v where
    t: "plan_explicit_mappings ordered mappings ?s probe w = (Inr t, v)"
    and u: "plan_unmapped_entries ordered enabled mappings t probe v = (Inr u, w')"
    and plan: "plan_entries plan =
        sort_key (\<lambda>entry. position_in order (pl_service entry, pl_port_entry_index entry)) (ps_plan_entries u)"
    using assms(4) unfolding plan_compose_published_ports_inner_def Let_def
      ordered_def [symmetric] order_def [symmetric] initial_def [symmetric] append_assoc
    by (auto simp: io_elims)
  have r: "records initial ?s" by (simp add: records_def reservations_of_def)
  have e: "records initial t \<and> separated initial (ps_plan_entries t) \<and>
      list_all2 (plans_mapping ordered) mappings (ps_plan_entries t)"
    by (rule explicit_mappings_run [OF t r]) simp
  from unmapped_entries_run [OF u, of initial] e obtain us where
    us: "ps_plan_entries u = ps_plan_entries t @ us"
      "list_all2 (plans_unmapped enabled mappings) (filter (unmapped mappings) ordered) us"
      "enabled \<longrightarrow> separated initial (ps_plan_entries u)" by blast
  show ?thesis using plan e us by (intro exI [of _ "ps_plan_entries t"] exI [of _ us]) auto
qed

section \<open>The order of the plan\<close>

lemma map_sort_key: "map f (sort_key (\<lambda>x. g (f x)) xs) = sort_key g (map f xs)"
proof -
  have "map f (insort_key (\<lambda>x. g (f x)) x ys) = insort_key g (f x) (map f ys)" for x ys
    by (induction ys) auto
  then show ?thesis by (induction xs) auto
qed

lemma position_in_index_map:
  assumes "distinct keys" "i < length keys"
  shows "position_in (index_map keys) (keys ! i) = i"
proof -
  have keys: "map fst (map (\<lambda>(index, key). (key, index)) (enumerate 0 keys)) = keys"
    by (simp add: enumerate_eq_zip zip_map_fst_snd comp_def case_prod_beta)
  have "(keys ! i, i) \<in> set (map (\<lambda>(index, key). (key, index)) (enumerate 0 keys))"
    using assms(2) by (force simp: in_set_enumerate_eq)
  then have "map_of (map (\<lambda>(index, key). (key, index)) (enumerate 0 keys)) (keys ! i) = Some i"
    using assms(1) keys by (intro map_of_is_SomeI) simp_all
  then show ?thesis using assms(1) keys
    by (simp add: position_in_def index_map_def bt_get_collect_distinct)
qed

lemma sort_by_position:
  assumes "distinct keys" "distinct ks" "set ks = set keys"
  shows "sort_key (position_in (index_map keys)) ks = keys"
proof (rule map_sorted_distinct_set_unique)
  let ?pos = "position_in (index_map keys)"
  have pos: "map ?pos keys = [0..<length keys]"
    by (rule nth_equalityI) (simp_all add: position_in_index_map [OF assms(1)])
  show "sorted (map ?pos keys)" "distinct (map ?pos keys)" unfolding pos by simp_all
  then have inj: "inj_on ?pos (set keys)" unfolding distinct_map by blast
  then show "inj_on ?pos (set (sort_key ?pos ks) \<union> set keys)" by (simp add: assms(3))
  show "distinct (map ?pos (sort_key ?pos ks))" using inj assms by (simp add: distinct_map)
qed (simp_all add: assms)

section \<open>Which entry is planned where\<close>

definition entry_key :: "compose_port_entry \<Rightarrow> string \<times> nat" where
  "entry_key entry = (ce_service entry, ce_entry_index entry)"

definition plan_key :: "compose_published_port_plan_entry \<Rightarrow> string \<times> nat" where
  "plan_key e = (pl_service e, pl_port_entry_index e)"

definition mapping_key :: "compose_published_port_mapping \<Rightarrow> string \<times> nat" where
  "mapping_key m = (cp_service m, cp_port_entry_index m)"

lemma plans_key: "plans entry e \<Longrightarrow> plan_key e = entry_key entry"
  by (simp add: plans_def plan_key_def entry_key_def)

lemma mapping_matches_key: "mapping_matches_entry m entry \<Longrightarrow> mapping_key m = entry_key entry"
  by (simp add: mapping_matches_entry_def mapping_key_def entry_key_def)

lemma plans_mapping_keys: "list_all2 (plans_mapping ordered) mappings es \<Longrightarrow> map plan_key es = map mapping_key mappings"
  by (induction rule: list_all2_induct) (auto simp: plans_mapping_def dest!: plans_key mapping_matches_key)

lemma plans_unmapped_keys:
  "list_all2 (plans_unmapped enabled mappings) entries us \<Longrightarrow> map plan_key us = map entry_key entries"
  by (induction rule: list_all2_induct) (auto simp: plans_unmapped_def plans_key)

lemma planner_keys:
  assumes es: "list_all2 (plans_mapping ordered) mappings es"
    and us: "list_all2 (plans_unmapped enabled mappings) (filter (unmapped mappings) ordered) us"
    and keys: "distinct (map entry_key ordered)" "distinct (map mapping_key mappings)"
  shows "distinct (map plan_key (es @ us)) \<and> set (map plan_key (es @ us)) = set (map entry_key ordered)"
proof -
  have mapped: "\<exists>entry\<in>set ordered. mapping_matches_entry m entry" if "m \<in> set mappings" for m
    using es that by (auto simp: list_all2_conv_all_nth in_set_conv_nth plans_mapping_def)
  have inj: "entry = entry'" if "entry \<in> set ordered" "entry' \<in> set ordered" "entry_key entry = entry_key entry'" for entry entry'
    using keys(1) that by (meson distinct_map inj_onD)
  have "mapping_key m \<noteq> entry_key entry" if m: "m \<in> set mappings" and u: "entry \<in> set ordered" "unmapped mappings entry" for m entry
  proof
    assume same: "mapping_key m = entry_key entry"
    from mapped [OF m] obtain x where x: "x \<in> set ordered" "mapping_matches_entry m x" by blast
    then have "entry_key x = entry_key entry" using same mapping_matches_key by metis
    then have "x = entry" using inj x(1) u(1) by blast
    then show False using u(2) x(2) m by (auto simp: unmapped_def)
  qed
  then have disjoint: "set (map mapping_key mappings) \<inter> set (map entry_key (filter (unmapped mappings) ordered)) = {}"
    unfolding disjoint_iff by auto metis
  have "set (map mapping_key mappings) \<union> set (map entry_key (filter (unmapped mappings) ordered)) = set (map entry_key ordered)"
  proof (intro subset_antisym subsetI)
    fix k assume "k \<in> set (map mapping_key mappings) \<union> set (map entry_key (filter (unmapped mappings) ordered))"
    then show "k \<in> set (map entry_key ordered)" using mapped mapping_matches_key by fastforce
  next
    fix k assume "k \<in> set (map entry_key ordered)"
    then obtain x where x: "x \<in> set ordered" "k = entry_key x" by auto
    show "k \<in> set (map mapping_key mappings) \<union> set (map entry_key (filter (unmapped mappings) ordered))"
    proof (cases "unmapped mappings x")
      case False
      then obtain m where "m \<in> set mappings" "mapping_key m = k"
        using mapping_matches_key x(2) unfolding unmapped_def by blast
      then show ?thesis by auto
    qed (use x in auto)
  qed
  moreover have "distinct (map entry_key (filter (unmapped mappings) ordered))"
    using keys(1) by (rule distinct_map_filter)
  ultimately show ?thesis using keys(2) disjoint
    by (simp only: map_append distinct_append set_append plans_mapping_keys [OF es] plans_unmapped_keys [OF us])
qed


definition planned_for ::
  "bool \<Rightarrow> compose_published_port_mapping list \<Rightarrow> compose_port_entry \<Rightarrow> compose_published_port_plan_entry \<Rightarrow> bool" where
  "planned_for enabled mappings entry e \<longleftrightarrow> plans entry e \<and>
     ((\<exists>m\<in>set mappings. mapping_matches_entry m entry \<and> pl_planned e = cp_endpoint m \<and>
         pl_allocation_reason e = Reason_Mapping) \<or>
      unmapped mappings entry \<and> plans_unmapped enabled mappings entry e)"

lemma planner_result:
  fixes input
  defines "ordered \<equiv> ordered_eligible_port_entries input"
  assumes run: "plan_compose_published_ports_inner input enabled forward_ports mappings existing external probe w = (Inr plan, w')"
    and some: "enabled \<or> mappings \<noteq> []"
    and keys: "distinct (map entry_key ordered)" "distinct (map mapping_key mappings)"
  shows "list_all2 (planned_for enabled mappings) ordered (plan_entries plan)"
proof -
  define order where "order = index_map (map (\<lambda>entry. (ce_service entry, ce_entry_index entry)) ordered)"
  from planner_run [OF run some, folded ordered_def, folded order_def] obtain es us where
    plan: "plan_entries plan =
        sort_key (\<lambda>e. position_in order (pl_service e, pl_port_entry_index e)) (es @ us)"
    and es: "list_all2 (plans_mapping ordered) mappings es"
    and us: "list_all2 (plans_unmapped enabled mappings) (filter (unmapped mappings) ordered) us" by blast
  have order: "order = index_map (map entry_key ordered)" by (simp add: order_def entry_key_def [abs_def])
  have "map plan_key (plan_entries plan) = sort_key (position_in order) (map plan_key (es @ us))"
    unfolding plan map_sort_key [symmetric] by (simp add: plan_key_def)
  also have "\<dots> = map entry_key ordered"
    unfolding order using sort_by_position [OF keys(1)] planner_keys [OF es us keys] by blast
  finally have map: "map plan_key (plan_entries plan) = map entry_key ordered" .
  then have len: "length (plan_entries plan) = length ordered" by (metis length_map)
  show ?thesis
  proof (rule list_all2_all_nthI)
    fix i assume i: "i < length ordered"
    let ?e = "plan_entries plan ! i"
    have same: "plan_key ?e = entry_key (ordered ! i)" using map i len by (metis nth_map)
    have inj: "x = ordered ! i" if "x \<in> set ordered" "plans x ?e" for x
      using keys(1) that i same plans_key [OF that(2)] by (metis (no_types, lifting) distinct_map inj_onD nth_mem)
    have "?e \<in> set (plan_entries plan)" using i len by simp
    then consider "?e \<in> set es" | "?e \<in> set us" unfolding plan by auto
    then show "planned_for enabled mappings (ordered ! i) ?e"
    proof cases
      case 1
      then obtain k where "k < length es" "es ! k = ?e" by (metis in_set_conv_nth)
      then have "mappings ! k \<in> set mappings" "plans_mapping ordered (mappings ! k) ?e"
        using es by (metis list_all2_lengthD nth_mem, metis list_all2_nthD2)
      then show ?thesis using inj unfolding plans_mapping_def planned_for_def by blast
    next
      case 2
      then obtain k where k: "k < length us" "us ! k = ?e" by (metis in_set_conv_nth)
      let ?x = "filter (unmapped mappings) ordered ! k"
      have "?x \<in> set (filter (unmapped mappings) ordered)" using k(1) us by (metis list_all2_lengthD nth_mem)
      moreover have "plans_unmapped enabled mappings ?x ?e" using us k by (metis list_all2_nthD2)
      ultimately obtain x where "x \<in> set ordered" "unmapped mappings x" "plans_unmapped enabled mappings x ?e"
        by auto
      then show ?thesis using inj unfolding plans_unmapped_def planned_for_def by blast
    qed
  qed (simp add: len)
qed

section \<open>The entries of a planning input\<close>

lemma classified_keys_distinct:
  assumes "bt_ok (cm_services model)"
  shows "distinct (map entry_key (classify_compose_published_ports json_text model))"
proof -
  have key: "entry_key (classify_port_entry json_text s svc i v) = (s, i)" for s svc i v
    by (auto simp: entry_key_def classify_port_entry_def Let_def split: option.splits prod.splits)
  have idx: "distinct (map (\<lambda>(i, v). (s :: string, i)) (enumerate 0 vs))" for s and vs :: "json list"
    by (simp add: distinct_map inj_on_def enumerate_eq_zip distinct_zipI1 case_prod_beta)
       (metis in_set_zip fst_conv nth_upt add_0 snd_conv length_upt prod.collapse)
  have "distinct (map fst services) \<Longrightarrow>
      distinct (concat (map (\<lambda>(s, svc). map (\<lambda>(i, v). (s, i)) (enumerate 0 (svc_ports svc))) services))"
    for services :: "(string \<times> compose_config_service) list"
    by (induction services) (use idx in \<open>auto simp: rev_image_eqI\<close>)
  moreover have "map entry_key (classify_compose_published_ports json_text model) =
      concat (map (\<lambda>(s, svc). map (\<lambda>(i, v). (s, i)) (enumerate 0 (svc_ports svc))) (cm_services model))"
    by (simp add: classify_compose_published_ports_def map_concat comp_def case_prod_unfold key)
  ultimately show ?thesis using bt_ok_distinct [OF assms] by simp
qed

lemma ordered_keys_distinct:
  "distinct (map entry_key (pin_port_entries input)) \<Longrightarrow> distinct (map entry_key (ordered_eligible_port_entries input))"
  unfolding ordered_eligible_port_entries_def Let_def by (simp add: distinct_map inj_on_def)

lemma set_ordered_entries:
  "set (ordered_eligible_port_entries input) =
     {entry \<in> set (pin_port_entries input). ce_eligibility entry = Eligible_Fixed_Tcp}"
  by (simp add: ordered_eligible_port_entries_def Let_def)

lemma planning_input_keys_distinct:
  assumes "bt_ok (cm_services model)"
  shows "distinct (map entry_key (ordered_eligible_port_entries
     (compose_published_port_planning_input model (classify_compose_published_ports json_text model) primary selected)))"
  using classified_keys_distinct [OF assms, of json_text]
  by (intro ordered_keys_distinct) (simp add: compose_published_port_planning_input_def Let_def distinct_map_filter)

section \<open>Example\<close>

definition example_planning_input :: compose_planning_input where
  "example_planning_input = compose_published_port_planning_input example_published_model
     (classify_compose_published_ports (\<lambda>_. []) example_published_model) ''web'' []"

definition example_prober :: "unit host_port_prober" where
  "example_prober host_ip port w = (Inr (if port = 8080 then Occupied else Available), w)"

definition example_endpoint :: "u16 \<Rightarrow> compose_published_port_endpoint" where
  "example_endpoint port = \<lparr>pe_host_ip = Omitted, pe_host_port = port\<rparr>"

definition example_plan :: compose_published_port_plan where
  "example_plan = \<lparr>plan_entries = [\<lparr>pl_service = ''web'', pl_port_entry_index = 0, pl_source = Source_Compose,
      pl_kind = Type_Published, pl_target_port = 80, pl_protocol = Proto_Tcp, pl_requested = example_endpoint 8080,
      pl_planned = example_endpoint 8081, pl_planned_endpoint_probe = Planned_Available, pl_relocated = True,
      pl_allocation_reason = Reason_Unavailable\<rparr>]\<rparr>"

lemma example_ordered:
  "ordered_eligible_port_entries example_planning_input =
     [example_entry ''web'' 80 8080\<lparr>ce_original_fields := bt_collect example_port_fields\<rparr>]"
proof -
  have "active_set_contains (new_active_service_set example_published_model ''web'' []) ''web''"
    by (simp add: active_set_contains_def new_active_service_set_def example_published_model_def example_model_def bt_keys_def Let_def)
  then have "pin_port_entries example_planning_input =
      [example_entry ''web'' 80 8080\<lparr>ce_original_fields := bt_collect example_port_fields\<rparr>]"
    unfolding example_planning_input_def compose_published_port_planning_input_def example_classified Let_def
    by (simp add: example_entry_def)
  then show ?thesis by (simp add: ordered_eligible_port_entries_def example_entry_def)
qed

lemma example_relocation:
  "decision_for_requested_or_relocated_endpoint entry (example_endpoint 8080) ''0.0.0.0'' False [] example_prober () =
     (Inr \<lparr>pd_planned = example_endpoint 8081, pd_allocation_reason = Reason_Unavailable,
        pd_planned_endpoint_probe = Planned_Available\<rparr>, ())"
  by (simp add: decision_for_requested_or_relocated_endpoint_def allocate_automatic_relocation_host_port_def
      probe_compose_published_host_port_def example_prober_def example_endpoint_def io_defs checked_add_def
      search_port.simps host_port_reservations_conflict_def)

lemma example_planned:
  "plan_compose_published_ports_with_existing_project example_prober example_planning_input True [] [] [] True [] () =
     (Inr example_plan, ())"
proof -
  have e: "endpoint_for_entry (example_entry ''web'' 80 8080\<lparr>ce_original_fields := m\<rparr>) = Inr (example_endpoint 8080)"
    "target_port_for_entry (example_entry ''web'' 80 8080\<lparr>ce_original_fields := m\<rparr>) = Inr 80"
    "ce_service (example_entry ''web'' 80 8080\<lparr>ce_original_fields := m\<rparr>) = ''web''"
    "ce_entry_index (example_entry ''web'' 80 8080\<lparr>ce_original_fields := m\<rparr>) = 0"
    "ce_protocol (example_entry ''web'' 80 8080\<lparr>ce_original_fields := m\<rparr>) = Proto_Tcp" for m
    by (simp_all add: example_entry_def endpoint_for_entry_def target_port_for_entry_def requested_host_port_def
        example_endpoint_def)
  have r: "reservation_host_ip (example_endpoint p) = ''0.0.0.0''" for p
    by (simp add: reservation_host_ip_def example_endpoint_def omitted_host_ip_reservation_def)
  show ?thesis
    by (simp add: plan_compose_published_ports_with_existing_project_def plan_compose_published_ports_inner_def
        new_existing_project_bindings_def running_project_reservations_def running_project_reservations_with_filter_def
        resolved_forward_port_reservations_def Let_def plan_explicit_mappings_def plan_unmapped_entries_def
        example_ordered plan_unmapped_entry_def e r host_port_reservations_conflict_def push_decision_def
        plan_entry_def example_plan_def io_defs example_relocation [unfolded io_defs])
       (simp add: example_endpoint_def)
qed

section \<open>Properties\<close>

text \<open>C2. With automatic relocation, no planned endpoint conflicts with a forwarded port, an
  external reservation or another planned endpoint.\<close>

theorem planned_endpoints_never_clash:
  assumes "plan_compose_published_ports_with_existing_project probe input True forward_ports mappings existing
      preserve external w = (Inr plan, w')"
  shows "(\<forall>e\<in>set (plan_entries plan).
       \<not> host_port_reservations_conflict (resolved_forward_port_reservations forward_ports @ external)
           (reservation_host_ip (pl_planned e)) (pe_host_port (pl_planned e))) \<and>
    (\<forall>i j. i < length (plan_entries plan) \<and> j < length (plan_entries plan) \<and> i \<noteq> j \<longrightarrow>
       \<not> (pe_host_port (pl_planned (plan_entries plan ! i)) = pe_host_port (pl_planned (plan_entries plan ! j)) \<and>
          host_ips_conflict (pl_planned (plan_entries plan ! i)) (pl_planned (plan_entries plan ! j))))"
proof -
  let ?initial = "resolved_forward_port_reservations forward_ports @ external"
  from planner_run [OF assms [unfolded plan_compose_published_ports_with_existing_project_def], OF disjI1 [OF TrueI]]
  obtain f :: "compose_published_port_plan_entry \<Rightarrow> nat" and es us where
    plan: "plan_entries plan = sort_key f (es @ us)" and sep: "separated ?initial (es @ us)" by blast
  have sep': "host_ports.separate (reservations_of (plan_entries plan))"
    using sep unfolding plan separated_def reservations_of_def host_ports.separate_sorted by blast
  have 1: "\<forall>e\<in>set (plan_entries plan). free_of ?initial (pl_planned e)"
    using sep unfolding plan separated_def by auto
  have 2: "\<not> reservation_conflict (endpoint_reservation (pl_planned (plan_entries plan ! i)))
      (endpoint_reservation (pl_planned (plan_entries plan ! j)))"
    if "i < length (plan_entries plan)" "j < length (plan_entries plan)" "i \<noteq> j" for i j
    using host_ports.separate_nth [OF sep', of i j] that by (simp add: reservations_of_def)
  show ?thesis using 1 2 by (simp add: free_endpoint reservation_conflict_def host_ips_conflict_iff)
qed

theorem planned_endpoints_never_clash_witness:
  "\<not> host_port_reservations_conflict [] ''0.0.0.0'' 8081"
  using planned_endpoints_never_clash [OF example_planned]
  by (simp add: example_plan_def example_endpoint_def reservation_host_ip_def omitted_host_ip_reservation_def
      resolved_forward_port_reservations_def)

text \<open>The plan of a classified model has one entry per eligible port entry, in planning
  order; an explicit mapping gives its endpoint exactly, any other entry stays on a host address
  that conflicts with the requested one, unchanged when relocation is disabled, and is flagged as
  relocated exactly when its endpoint differs.\<close>

theorem plan_covers_the_eligible_entries:
  fixes model json_text primary selected
  defines "input \<equiv> compose_published_port_planning_input model
      (classify_compose_published_ports json_text model) primary selected"
  assumes "bt_ok (cm_services model)"
    and "plan_compose_published_ports_with_existing_project probe input enabled forward_ports mappings existing
      preserve external w = (Inr plan, w')"
    and "enabled \<or> mappings \<noteq> []"
    and "distinct (map (\<lambda>m. (cp_service m, cp_port_entry_index m)) mappings)"
  shows "set (ordered_eligible_port_entries input) =
      {entry \<in> set (pin_port_entries input). ce_eligibility entry = Eligible_Fixed_Tcp} \<and>
    list_all2 (\<lambda>entry e.
        pl_service e = ce_service entry \<and> pl_port_entry_index e = ce_entry_index entry \<and>
        Some (pl_target_port e) = ce_target_port entry \<and> endpoint_for_entry entry = Inr (pl_requested e) \<and>
        (pl_relocated e \<longleftrightarrow> pl_planned e \<noteq> pl_requested e) \<and>
        (\<forall>m\<in>set mappings. mapping_matches_entry m entry \<longrightarrow> pl_planned e = cp_endpoint m) \<and>
        ((\<forall>m\<in>set mappings. \<not> mapping_matches_entry m entry) \<longrightarrow>
           host_ips_conflict (pl_planned e) (pl_requested e) \<and>
           (\<not> enabled \<longrightarrow> pl_planned e = pl_requested e)))
      (ordered_eligible_port_entries input) (plan_entries plan)"
proof -
  have keys: "distinct (map mapping_key mappings)" using assms(5) by (simp add: mapping_key_def [abs_def])
  have "list_all2 (planned_for enabled mappings) (ordered_eligible_port_entries input) (plan_entries plan)"
    using assms(3) unfolding plan_compose_published_ports_with_existing_project_def
    by (rule planner_result) (use assms(4) keys planning_input_keys_distinct [OF assms(2)] in \<open>simp_all add: input_def\<close>)
  then show ?thesis
  proof (intro conjI set_ordered_entries, elim list_all2_mono)
    fix entry e assume p: "planned_for enabled mappings entry e"
    have "pl_planned e = cp_endpoint m" if m: "m \<in> set mappings" "mapping_matches_entry m entry" for m
    proof -
      obtain n where n: "n \<in> set mappings" "mapping_matches_entry n entry" "pl_planned e = cp_endpoint n"
        using p m unfolding planned_for_def unmapped_def by blast
      then have "mapping_key n = mapping_key m" using m mapping_matches_key by metis
      then have "n = m" using keys n(1) m(1) by (meson distinct_map inj_onD)
      then show ?thesis using n(3) by simp
    qed
    moreover have "host_ips_conflict (pl_planned e) (pl_requested e) \<and> (\<not> enabled \<longrightarrow> pl_planned e = pl_requested e)"
      if "\<forall>m\<in>set mappings. \<not> mapping_matches_entry m entry"
      using p that by (cases enabled) (auto simp: planned_for_def plans_unmapped_def intro: host_ips_conflict_refl)
    moreover have "plans entry e" using p by (auto simp: planned_for_def plans_unmapped_def)
    ultimately show "pl_service e = ce_service entry \<and> pl_port_entry_index e = ce_entry_index entry \<and>
        Some (pl_target_port e) = ce_target_port entry \<and> endpoint_for_entry entry = Inr (pl_requested e) \<and>
        (pl_relocated e \<longleftrightarrow> pl_planned e \<noteq> pl_requested e) \<and>
        (\<forall>m\<in>set mappings. mapping_matches_entry m entry \<longrightarrow> pl_planned e = cp_endpoint m) \<and>
        ((\<forall>m\<in>set mappings. \<not> mapping_matches_entry m entry) \<longrightarrow>
           host_ips_conflict (pl_planned e) (pl_requested e) \<and>
           (\<not> enabled \<longrightarrow> pl_planned e = pl_requested e))"
      by (auto simp: plans_def target_port_for_entry_def result_elims)
  qed
qed

theorem plan_covers_the_eligible_entries_witness:
  "length (ordered_eligible_port_entries example_planning_input) = length (plan_entries example_plan)"
proof -
  have "bt_ok (cm_services example_published_model)"
    by (simp add: example_published_model_def example_model_def bt_ok_def)
  from plan_covers_the_eligible_entries [OF this example_planned [unfolded example_planning_input_def]]
  show ?thesis by (auto simp: example_planning_input_def dest!: list_all2_lengthD)
qed

lemma decided_port_was_probed:
  assumes "decision_for_requested_or_relocated_endpoint entry requested host_ip reserved reservations probe w =
      (Inr decision, w')"
  shows "\<exists>v r. probe host_ip (pe_host_port (pd_planned decision)) v = (Inr r, w') \<and>
    (r = Available \<or> r = Unprobeable \<and> pd_planned decision = requested)"
proof -
  obtain r v where r: "(if reserved then io_return Occupied
        else probe_compose_published_host_port probe host_ip (pe_host_port requested)) w = (Inr r, v)"
    and rest: "(case r of
          Available \<Rightarrow>
            io_return \<lparr>pd_planned = requested, pd_allocation_reason = Reason_Available,
              pd_planned_endpoint_probe = Planned_Available\<rparr>
        | Unprobeable \<Rightarrow>
            io_return \<lparr>pd_planned = requested, pd_allocation_reason = Reason_Available,
              pd_planned_endpoint_probe = Planned_Unprobeable\<rparr>
        | Occupied \<Rightarrow>
            io_bind (allocate_automatic_relocation_host_port entry requested host_ip reservations probe)
              (\<lambda>planned_host_port.
                io_return \<lparr>pd_planned = \<lparr>pe_host_ip = pe_host_ip requested, pe_host_port = planned_host_port\<rparr>,
                  pd_allocation_reason = (if reserved then Reason_Reserved else Reason_Unavailable),
                  pd_planned_endpoint_probe = Planned_Available\<rparr>)) v = (Inr decision, w')"
    using assms unfolding decision_for_requested_or_relocated_endpoint_def io_bind_iff by blast
  show ?thesis
  proof (cases "r = Occupied")
    case True
    then show ?thesis using rest by (auto simp: io_elims dest!: allocate_ok) blast
  next
    case False
    then have "probe host_ip (pe_host_port requested) w = (Inr r, v)"
      using r by (auto simp: io_elims probe_compose_published_host_port_def split: if_splits)
    then show ?thesis using False rest by (cases r) (auto simp: io_elims)
  qed
qed

text \<open>C21. Without a binding of the project to keep, an entry keeps its host address and
  gets a port, from the requested one on, that no reservation conflicts with and that the probe
  finds available (the requested port also when the probe cannot tell); every smaller port from
  the requested one on is reserved or is one the probe can find to be not available.\<close>

theorem relocation_takes_the_first_free_port:
  assumes "decision_for_requested_or_relocated_endpoint entry requested (reservation_host_ip requested)
      (host_port_reservations_conflict reservations (reservation_host_ip requested) (pe_host_port requested))
      reservations probe w = (Inr decision, w')"
  shows "pe_host_ip (pd_planned decision) = pe_host_ip requested \<and>
    unat (pe_host_port requested) \<le> unat (pe_host_port (pd_planned decision)) \<and>
    \<not> host_port_reservations_conflict reservations (reservation_host_ip requested) (pe_host_port (pd_planned decision)) \<and>
    (\<forall>p. unat (pe_host_port requested) \<le> unat p \<and> unat p < unat (pe_host_port (pd_planned decision)) \<longrightarrow>
       host_port_reservations_conflict reservations (reservation_host_ip requested) p \<or>
       (\<exists>v r v'. probe (reservation_host_ip requested) p v = (Inr r, v') \<and> r \<noteq> Available)) \<and>
    (\<exists>v r. probe (reservation_host_ip requested) (pe_host_port (pd_planned decision)) v = (Inr r, w') \<and>
       (r = Available \<or> r = Unprobeable \<and> pd_planned decision = requested))"
proof -
  note ok = requested_or_relocated_ok [OF assms]
  then have "reservation_host_ip (pd_planned decision) = reservation_host_ip requested"
    by (simp add: reservation_host_ip_def)
  with ok decided_port_was_probed [OF assms] show ?thesis unfolding free_endpoint port_rejected_def by simp
qed

theorem relocation_takes_the_first_free_port_witness:
  "\<not> host_port_reservations_conflict [] ''0.0.0.0'' 8081"
proof -
  have r: "reservation_host_ip (example_endpoint 8080) = ''0.0.0.0''" "pe_host_port (example_endpoint p) = p" for p
    by (simp_all add: reservation_host_ip_def example_endpoint_def omitted_host_ip_reservation_def)
  have "decision_for_requested_or_relocated_endpoint entry (example_endpoint 8080)
      (reservation_host_ip (example_endpoint 8080))
      (host_port_reservations_conflict [] (reservation_host_ip (example_endpoint 8080)) (pe_host_port (example_endpoint 8080)))
      [] example_prober () =
     (Inr \<lparr>pd_planned = example_endpoint 8081, pd_allocation_reason = Reason_Unavailable,
        pd_planned_endpoint_probe = Planned_Available\<rparr>, ())" for entry
    unfolding r using example_relocation by (simp add: host_port_reservations_conflict_def)
  from relocation_takes_the_first_free_port [OF this] show ?thesis by (simp add: r)
qed

text \<open>Automatic relocation fails only because a probe failed or because every port above the
  requested one is reserved or refused.\<close>

theorem relocation_fails_only_when_exhausted:
  assumes "allocate_automatic_relocation_host_port entry requested host_ip reservations probe w =
      (Inl error, w')"
  shows "(\<exists>port source. error = Host_Port_Availability host_ip port source) \<or>
    (error = No_Automatic_Relocation_Candidate (ce_service entry) (ce_entry_index entry) requested \<and>
     (\<forall>p. unat (pe_host_port requested) < unat p \<longrightarrow>
        host_port_reservations_conflict reservations host_ip p \<or>
        (\<exists>v r v'. probe host_ip p v = (Inr r, v') \<and> r \<noteq> Available)))"
  using allocate_error [OF assms] unfolding port_rejected_def .

theorem relocation_fails_only_when_exhausted_witness:
  "No_Automatic_Relocation_Candidate (ce_service (example_entry ''web'' 80 65535)) 0 (example_endpoint 65535) \<noteq>
     Host_Port_Availability ''0.0.0.0'' 65535 []"
proof -
  have "allocate_automatic_relocation_host_port (example_entry ''web'' 80 65535) (example_endpoint 65535) ''0.0.0.0'' []
      example_prober () =
     (Inl (No_Automatic_Relocation_Candidate (ce_service (example_entry ''web'' 80 65535)) 0 (example_endpoint 65535)), ())"
    by (simp add: allocate_automatic_relocation_host_port_def example_endpoint_def checked_add_def io_fail_def
        no_automatic_relocation_candidate_def example_entry_def)
  from relocation_fails_only_when_exhausted [OF this] show ?thesis by auto
qed

end
