(* ===== verification/Compose_Ports_Runs.thy ===== *)
theory Compose_Ports_Runs
  imports Compose_Ports_Plan
begin

text \<open>
  Facts about whole runs of the planner of \<open>src/runtime/compose_ports/planning.rs\<close>: planning again while the
  containers of the last plan are running keeps their host ports and asks nobody; the errors that a
  run on a classified model can have; the runtime plan.
\<close>

section \<open>Planning again\<close>

lemma running_candidate:
  assumes "\<forall>x\<in>set existing. cr_source x = Running_Container"
    and "\<forall>x\<in>set existing. existing_matches_entry x entry requested \<longrightarrow> free_of rs (cr_endpoint x)"
    and "\<exists>x\<in>set existing. existing_matches_entry x entry requested"
  shows "\<exists>x\<in>set existing. existing_matches_entry x entry requested \<and>
    existing_project_published_port_candidate existing entry requested rs probe w =
      (Inr (Some \<lparr>ec_endpoint = existing_planned_endpoint x requested,
                   ec_planned_endpoint_probe = Planned_Available\<rparr>), w)"
  using assms
proof (induction existing)
  case (Cons x rest)
  show ?case
  proof (cases "existing_matches_entry x entry requested")
    case True
    then have "\<not> host_port_reservations_conflict rs (reservation_host_ip (cr_endpoint x)) (pe_host_port (cr_endpoint x))"
      using Cons.prems(2) by (simp add: free_endpoint)
    then show ?thesis using True Cons.prems(1) by (simp add: Let_def io_return_def)
  next
    case False
    then show ?thesis using Cons by auto
  qed
qed simp

definition same_place :: "compose_published_port_endpoint \<Rightarrow> compose_published_port_endpoint \<Rightarrow> bool" where
  "same_place a b \<longleftrightarrow> endpoint_reservation a = endpoint_reservation b"

lemma same_place_iff: "same_place a b \<longleftrightarrow> reservation_host_ip a = reservation_host_ip b \<and> pe_host_port a = pe_host_port b"
  by (simp add: same_place_def endpoint_reservation_def)

text \<open>The bindings of the running containers of a plan.\<close>

definition holds_plan :: "compose_published_port_reservation list \<Rightarrow> compose_published_port_plan_entry list \<Rightarrow> bool" where
  "holds_plan existing es \<longleftrightarrow>
     (\<forall>x\<in>set existing. cr_source x = Running_Container \<and>
        (\<exists>e\<in>set es. cr_service x = pl_service e \<and> cr_target_port x = pl_target_port e \<and>
           same_place (cr_endpoint x) (pl_planned e))) \<and>
     (\<forall>e\<in>set es. \<exists>x\<in>set existing. cr_service x = pl_service e \<and> cr_target_port x = pl_target_port e \<and>
        cr_protocol x = pl_protocol e \<and> same_place (cr_endpoint x) (pl_planned e))"

definition identity :: "compose_published_port_plan_entry \<Rightarrow> string \<times> u16" where
  "identity e = (pl_service e, pl_target_port e)"

lemma replan_step:
  assumes holds: "holds_plan existing es" and distinct: "distinct (map identity es)"
    and e: "e \<in> set es" "plans_unmapped True [] entry e"
    and free: "free_of (ps_reservations s) (pl_planned e)"
    and reusable: "ps_reusable_existing_project_published_ports s = existing"
  shows "\<exists>d. plan_unmapped_entry True [] probe s entry w =
      (Inr (push_decision entry (pl_requested e) (pl_target_port e) d s), w) \<and> same_place (pd_planned d) (pl_planned e)"
proof -
  have p: "endpoint_for_entry entry = Inr (pl_requested e)" "target_port_for_entry entry = Inr (pl_target_port e)"
    "pl_service e = ce_service entry" "pl_protocol e = ce_protocol entry"
    "host_ips_conflict (pl_planned e) (pl_requested e)"
    using e(2) by (simp_all add: plans_unmapped_def plans_def)
  have target: "ce_target_port entry = Some (pl_target_port e)"
    using p(2) by (simp add: target_port_for_entry_def result_elims)
  have same: "same_place (cr_endpoint x) (pl_planned e)"
    if x: "x \<in> set existing" "existing_matches_entry x entry (pl_requested e)" for x
  proof -
    obtain e' where e': "e' \<in> set es" "cr_service x = pl_service e'" "cr_target_port x = pl_target_port e'"
        "same_place (cr_endpoint x) (pl_planned e')"
      using holds x(1) unfolding holds_plan_def by blast
    have "identity e' = identity e"
      using x(2) e'(2,3) target p(3) by (simp add: identity_def existing_matches_entry_def)
    then have "e' = e" using distinct e(1) e'(1) by (meson distinct_map inj_onD)
    then show ?thesis using e'(4) by simp
  qed
  have free': "\<forall>x\<in>set existing. existing_matches_entry x entry (pl_requested e) \<longrightarrow> free_of (ps_reservations s) (cr_endpoint x)"
  proof (intro ballI impI)
    fix x assume "x \<in> set existing" "existing_matches_entry x entry (pl_requested e)"
    then show "free_of (ps_reservations s) (cr_endpoint x)"
      using same [unfolded same_place_def] free by simp
  qed
  obtain x where x: "x \<in> set existing" "cr_service x = pl_service e" "cr_target_port x = pl_target_port e"
      "cr_protocol x = pl_protocol e" "same_place (cr_endpoint x) (pl_planned e)"
    using holds e(1) unfolding holds_plan_def by blast
  then have "existing_matches_entry x entry (pl_requested e)"
    using p(3-5) target by (simp add: existing_matches_entry_def host_ips_conflict_iff same_place_iff)
  then have some: "\<exists>x\<in>set existing. existing_matches_entry x entry (pl_requested e)" using x(1) by blast
  have running: "\<forall>x\<in>set existing. cr_source x = Running_Container" using holds unfolding holds_plan_def by blast
  obtain y where y: "y \<in> set existing" "existing_matches_entry y entry (pl_requested e)"
    and c: "existing_project_published_port_candidate existing entry (pl_requested e) (ps_reservations s) probe w =
      (Inr (Some \<lparr>ec_endpoint = existing_planned_endpoint y (pl_requested e),
                   ec_planned_endpoint_probe = Planned_Available\<rparr>), w)"
    using running_candidate [OF running free' some, of probe w] by (elim bexE conjE) (rule that)
  let ?d = "decision_for_existing_project_candidate \<lparr>ec_endpoint = existing_planned_endpoint y (pl_requested e),
                   ec_planned_endpoint_probe = Planned_Available\<rparr> (pl_requested e)"
  have "plan_unmapped_entry True [] probe s entry w =
      (Inr (push_decision entry (pl_requested e) (pl_target_port e) ?d s), w)"
    by (simp add: plan_unmapped_entry_def io_bind_def io_lift_def io_return_def p(1,2) reusable c Let_def)
  moreover have "same_place (pd_planned ?d) (pl_planned e)"
    using same [OF y] by (simp add: decision_for_existing_project_candidate_def same_place_iff)
  ultimately show ?thesis by blast
qed

definition placed :: "compose_published_port_plan_entry \<Rightarrow> (string \<times> nat) \<times> host_port_reservation" where
  "placed e = (plan_key e, endpoint_reservation (pl_planned e))"

lemma separated_prefix: "separated initial (xs @ ys) \<Longrightarrow> separated initial xs"
  by (simp add: separated_def reservations_of_def host_ports.separate_append)

lemma in_set_middle: "x \<in> set (xs @ x # ys)"
  by simp

lemma replan_run:
  assumes holds: "holds_plan existing (earlier @ es)" and distinct: "distinct (map identity (earlier @ es))"
    and es: "list_all2 (plans_unmapped True []) entries es"
    and sep: "separated initial (earlier @ es)"
    and s: "map placed (ps_plan_entries s) = map placed earlier" "records initial s"
      "ps_reusable_existing_project_published_ports s = existing"
  shows "\<exists>t. plan_unmapped_entries entries True [] s probe w = (Inr t, w) \<and>
    map placed (ps_plan_entries t) = map placed (earlier @ es)"
  using es holds distinct sep s
proof (induction entries es arbitrary: "earlier" s rule: list_all2_induct)
  case Nil
  then show ?case by (simp add: plan_unmapped_entries_def io_return_def)
next
  case (Cons entry entries e es)
  have "map endpoint_reservation (map pl_planned (ps_plan_entries s)) = map endpoint_reservation (map pl_planned earlier)"
    using arg_cong [OF Cons.prems(4), of "map snd"] by (simp add: placed_def comp_def)
  then have rs: "ps_reservations s = initial @ reservations_of earlier"
    using Cons.prems(5) by (simp add: records_def reservations_of_def comp_def)
  have "separated initial (earlier @ [e])"
    using Cons.prems(3) separated_prefix [of initial "earlier @ [e]" es] by simp
  then have free: "free_of (ps_reservations s) (pl_planned e)" unfolding separated_snoc rs by blast
  obtain d where d: "plan_unmapped_entry True [] probe s entry w =
      (Inr (push_decision entry (pl_requested e) (pl_target_port e) d s), w)" "same_place (pd_planned d) (pl_planned e)"
    using replan_step [OF Cons.prems(1,2) in_set_middle Cons.hyps(1) free Cons.prems(6), of probe w]
    by (elim exE conjE) (rule that)
  let ?t = "push_decision entry (pl_requested e) (pl_target_port e) d s"
  have key: "plan_key e = entry_key entry" using Cons.hyps(1) by (simp add: plans_unmapped_def plans_key)
  have "placed (plan_entry entry (pl_requested e) (pl_target_port e) d) = placed e"
    using d(2) key by (simp add: placed_def plan_key_def entry_key_def plan_entry_def same_place_def)
  moreover have "ps_plan_entries ?t = ps_plan_entries s @ [plan_entry entry (pl_requested e) (pl_target_port e) d]"
    by (simp add: push_decision_def)
  ultimately have t: "map placed (ps_plan_entries ?t) = map placed (earlier @ [e])" using Cons.prems(4) by simp
  have t': "records initial ?t" "ps_reusable_existing_project_published_ports ?t = existing"
    using Cons.prems(5,6)
    by (simp_all add: push_decision_def records_def reservations_of_def plan_entry_def endpoint_reservation_def)
  from Cons.IH [of "earlier @ [e]" ?t] Cons.prems(1-3) t t' obtain u where
    "plan_unmapped_entries entries True [] ?t probe w = (Inr u, w)"
    "map placed (ps_plan_entries u) = map placed (earlier @ e # es)" by auto
  then show ?case using d(1) by (auto simp: plan_unmapped_entries_def io_bind_def)
qed


lemma sorted_plan:
  assumes "map plan_key es = keys" "distinct keys"
  shows "sort_key (\<lambda>p. position_in (index_map keys) (fst p)) (map placed es) = map placed es"
proof (rule sort_key_id_if_sorted)
  have "map (\<lambda>p. position_in (index_map keys) (fst p)) (map placed es) = map (position_in (index_map keys)) keys"
    unfolding assms(1) [symmetric] by (simp add: placed_def)
  also have "\<dots> = [0..<length keys]"
    by (rule nth_equalityI) (simp_all add: position_in_index_map [OF assms(2)])
  finally show "sorted (map (\<lambda>p. position_in (index_map keys) (fst p)) (map placed es))" by simp
qed

lemma replan:
  fixes input
  defines "ordered \<equiv> ordered_eligible_port_entries input"
  assumes keys: "distinct (map entry_key ordered)"
    and run: "plan_compose_published_ports_inner input True forward_ports [] existing external probe w = (Inr plan, w')"
    and distinct: "distinct (map identity (plan_entries plan))"
    and holds: "holds_plan running (plan_entries plan)"
  shows "\<exists>again. plan_compose_published_ports_inner input True forward_ports []
      (new_existing_project_bindings running True) external probe' v = (Inr again, v) \<and>
    map placed (plan_entries again) = map placed (plan_entries plan)"
proof -
  let ?initial = "resolved_forward_port_reservations forward_ports @ external"
  let ?es = "plan_entries plan"
  have each: "list_all2 (planned_for True []) ordered ?es"
    unfolding ordered_def by (rule planner_result [OF run disjI1 [OF TrueI]]) (use keys in \<open>simp_all add: ordered_def\<close>)
  then have es: "list_all2 (plans_unmapped True []) ordered ?es"
    by (rule list_all2_mono) (simp add: planned_for_def)
  have es_keys: "map plan_key ?es = map entry_key ordered" by (rule plans_unmapped_keys [OF es])
  from planner_run [OF run, OF disjI1 [OF TrueI]]
  obtain f :: "compose_published_port_plan_entry \<Rightarrow> nat" and xs ys where
    "?es = sort_key f (xs @ ys)" "separated ?initial (xs @ ys)" by blast
  then have sep: "separated ?initial ?es"
    unfolding separated_def reservations_of_def using host_ports.separate_sorted by (metis set_sort)
  let ?s = "\<lparr>ps_existing_project_published_ports = running,
              ps_reusable_existing_project_published_ports = running,
              ps_running_project_reservations = running_project_reservations running,
              ps_reservations = ?initial, ps_plan_entries = []\<rparr>"
  have "\<exists>t. plan_unmapped_entries ordered True [] ?s probe' v = (Inr t, v) \<and>
      map placed (ps_plan_entries t) = map placed ([] @ ?es)"
    by (rule replan_run [where initial = ?initial])
       (use holds distinct es sep in \<open>simp_all add: records_def reservations_of_def\<close>)
  then obtain t where t: "plan_unmapped_entries ordered True [] ?s probe' v = (Inr t, v)"
      "map placed (ps_plan_entries t) = map placed ?es" by auto
  let ?order = "index_map (map entry_key ordered)"
  let ?again = "\<lparr>plan_entries = sort_key (\<lambda>e. position_in ?order (plan_key e)) (ps_plan_entries t)\<rparr>"
  have "plan_compose_published_ports_inner input True forward_ports []
      (new_existing_project_bindings running True) external probe' v = (Inr ?again, v)"
    using t(1)
    by (simp add: plan_compose_published_ports_inner_def new_existing_project_bindings_def Let_def
        ordered_def [symmetric] plan_explicit_mappings_def io_bind_def io_return_def plan_key_def entry_key_def [abs_def])
  moreover have "map placed (plan_entries ?again) = map placed ?es"
    using sorted_plan [OF es_keys keys] t(2) map_sort_key [of placed "\<lambda>p. position_in ?order (fst p)" "ps_plan_entries t"]
    by (simp add: placed_def)
  ultimately show ?thesis by blast
qed

section \<open>Errors of a run\<close>

lemma endpoint_of_usable:
  "usable entry \<Longrightarrow> \<exists>requested target. endpoint_for_entry entry = Inr requested \<and> target_port_for_entry entry = Inr target"
  unfolding usable_def by blast

lemma planning_input_usable:
  assumes "entry \<in> set (pin_port_entries (compose_published_port_planning_input model
      (classify_compose_published_ports json_text model) primary selected))"
    and "ce_eligibility entry = Eligible_Fixed_Tcp"
  shows "usable entry"
proof -
  have "entry \<in> set (classify_compose_published_ports json_text model)"
    using assms(1) by (simp add: compose_published_port_planning_input_def Let_def)
  then show ?thesis using classified_eligible_iff assms(2) by blast
qed

fun inconsistent :: "compose_published_port_plan_error \<Rightarrow> bool" where
  "inconsistent (Inconsistent_Entry _ _ _) = True"
| "inconsistent _ = False"

lemma probe_consistent: "probe_compose_published_host_port probe ip port w = (Inl e, w') \<Longrightarrow> \<not> inconsistent e"
  by (cases "fst (probe ip port w)")
     (auto simp: probe_compose_published_host_port_def io_map_err_def split: prod.splits)

lemma allocate_consistent:
  "allocate_automatic_relocation_host_port entry requested ip rs probe w = (Inl e, w') \<Longrightarrow> \<not> inconsistent e"
  by (drule allocate_error) auto

lemma candidate_consistent:
  "existing_project_published_port_candidate existing entry requested rs probe w = (Inl e, w') \<Longrightarrow> \<not> inconsistent e"
proof (induction existing arbitrary: w)
  case (Cons x rest)
  from Cons.prems consider v where "existing_project_published_port_candidate rest entry requested rs probe v = (Inl e, w')"
    | v ip port where "probe_compose_published_host_port probe ip port v = (Inl e, w')"
    by (auto simp: Let_def io_bind_Inl_iff io_return_def
        split: if_splits reservation_source.splits host_port_probe.splits)
       (metis host_port_probe.exhaust)+
  then show ?case using Cons.IH probe_consistent by metis
qed (simp add: io_return_def)

lemma relocated_consistent:
  "decision_for_requested_or_relocated_endpoint entry requested ip reserved rs probe w = (Inl e, w') \<Longrightarrow> \<not> inconsistent e"
proof -
  assume "decision_for_requested_or_relocated_endpoint entry requested ip reserved rs probe w = (Inl e, w')"
  then consider v where "probe_compose_published_host_port probe ip (pe_host_port requested) v = (Inl e, w')"
    | v where "allocate_automatic_relocation_host_port entry requested ip rs probe v = (Inl e, w')"
    unfolding decision_for_requested_or_relocated_endpoint_def io_bind_Inl_iff
    by (auto simp: io_return_def io_bind_Inl_iff split: if_splits host_port_probe.splits)
       (metis host_port_probe.exhaust)+
  then show ?thesis using probe_consistent allocate_consistent by metis
qed

lemma mapping_consistent:
  "decision_for_mapping mapping requested rs held probe w = (Inl e, w') \<Longrightarrow> \<not> inconsistent e"
  by (auto simp: decision_for_mapping_def Let_def io_bind_Inl_iff io_return_def io_fail_def
      split: if_splits dest: probe_consistent)

lemma explicit_step_consistent:
  assumes "plan_explicit_mapping ordered probe s mapping w = (Inl e, w')"
    and "\<forall>entry\<in>set ordered. usable entry" and "\<exists>entry\<in>set ordered. mapping_matches_entry mapping entry"
  shows "\<not> inconsistent e"
proof -
  obtain entry where entry: "List.find (mapping_matches_entry mapping) ordered = Some entry"
    using assms(3) find_None_iff2 by (metis not_None_eq)
  then have "usable entry" using assms(2) find_Some_iff2 by metis
  then obtain requested target where "endpoint_for_entry entry = Inr requested" "target_port_for_entry entry = Inr target"
    using endpoint_of_usable by blast
  then obtain rs held v where "decision_for_mapping mapping requested rs held probe v = (Inl e, w')"
    using assms(1) entry unfolding plan_explicit_mapping_def Let_def
    by (auto simp: io_bind_Inl_iff io_lift_def io_return_def)
  then show ?thesis by (rule mapping_consistent)
qed

lemma unmapped_step_consistent:
  assumes "plan_unmapped_entry enabled mappings probe s entry w = (Inl e, w')" and "usable entry"
  shows "\<not> inconsistent e"
proof -
  obtain requested target where et: "endpoint_for_entry entry = Inr requested" "target_port_for_entry entry = Inr target"
    using endpoint_of_usable [OF assms(2)] by blast
  show ?thesis
  proof (cases enabled)
    case False
    then have "plan_unmapped_entry_without_automatic_relocation entry requested target mappings s = Inl e"
      using assms(1) et
      by (auto simp: plan_unmapped_entry_def io_bind_Inl_iff io_lift_def io_return_def split: if_splits)
    then show ?thesis
      by (auto simp: plan_unmapped_entry_without_automatic_relocation_def split: option.splits)
  next
    case True
    then consider rs v where "existing_project_published_port_candidate rs entry requested (ps_reservations s) probe v = (Inl e, w')"
      | ip reserved rs v where "decision_for_requested_or_relocated_endpoint entry requested ip reserved rs probe v = (Inl e, w')"
      using assms(1) et
      by (auto simp: plan_unmapped_entry_def io_bind_Inl_iff io_lift_def io_return_def Let_def split: if_splits option.splits)
    then show ?thesis using candidate_consistent relocated_consistent by metis
  qed
qed

section \<open>Properties\<close>

text \<open>C37. With automatic relocation on, no explicit mappings, a well-formed map of services
  and at most one entry for a service and target port: while the containers of a plan are running,
  planning again with the same reservations succeeds without asking about any port and keeps every
  host address and host port, whatever the probe.\<close>

theorem replanning_keeps_running_bindings:
  fixes model json_text primary selected
  defines "input \<equiv> compose_published_port_planning_input model
      (classify_compose_published_ports json_text model) primary selected"
  assumes "bt_ok (cm_services model)"
    and "plan_compose_published_ports_with_existing_project probe input True forward_ports [] existing preserve
      external w = (Inr plan, w')"
    and "distinct (map (\<lambda>e. (pl_service e, pl_target_port e)) (plan_entries plan))"
    and "holds_plan running (plan_entries plan)"
  shows "\<exists>again. plan_compose_published_ports_with_existing_project probe' input True forward_ports [] running True
      external v = (Inr again, v) \<and>
    map (\<lambda>e. ((pl_service e, pl_port_entry_index e), reservation_host_ip (pl_planned e), pe_host_port (pl_planned e)))
      (plan_entries again) =
    map (\<lambda>e. ((pl_service e, pl_port_entry_index e), reservation_host_ip (pl_planned e), pe_host_port (pl_planned e)))
      (plan_entries plan)"
proof -
  let ?p = "\<lambda>e. ((pl_service e, pl_port_entry_index e), reservation_host_ip (pl_planned e), pe_host_port (pl_planned e))"
  have p: "?p = (\<lambda>(k, r). (k, hr_host_ip r, hr_host r)) \<circ> placed"
    by (simp add: fun_eq_iff placed_def plan_key_def)
  have "distinct (map identity (plan_entries plan))" using assms(4) by (simp add: identity_def [abs_def])
  from replan [OF planning_input_keys_distinct [OF assms(2)]
      assms(3) [unfolded plan_compose_published_ports_with_existing_project_def input_def] this assms(5),
      folded input_def, of probe' v]
  obtain again where "plan_compose_published_ports_inner input True forward_ports []
      (new_existing_project_bindings running True) external probe' v = (Inr again, v)"
    "map placed (plan_entries again) = map placed (plan_entries plan)" by (elim exE conjE) (rule that)
  then show ?thesis unfolding p plan_compose_published_ports_with_existing_project_def
    by (intro exI [of _ again]) (metis map_map)
qed

definition example_running :: compose_published_port_reservation where
  "example_running = \<lparr>cr_service = ''web'', cr_target_port = 80, cr_protocol = Proto_Tcp,
     cr_endpoint = example_endpoint 8081, cr_source = Running_Container\<rparr>"

theorem replanning_keeps_running_bindings_witness:
  "\<exists>again. plan_compose_published_ports_with_existing_project (\<lambda>_ _ w. (Inl ''no answer'', w)) example_planning_input
     True [] [] [example_running] True [] () = (Inr again, ()) \<and>
   map (\<lambda>e. pe_host_port (pl_planned e)) (plan_entries again) = [8081]"
proof -
  have ok: "bt_ok (cm_services example_published_model)"
    by (simp add: example_published_model_def example_model_def bt_ok_def)
  have "holds_plan [example_running] (plan_entries example_plan)"
    by (simp add: holds_plan_def example_running_def example_plan_def same_place_def)
  from replanning_keeps_running_bindings [OF ok example_planned [unfolded example_planning_input_def] _ this,
      folded example_planning_input_def, of "\<lambda>_ _ w. (Inl ''no answer'', w)" "()"]
  show ?thesis by (auto simp: example_plan_def example_endpoint_def)
qed

lemma planner_never_inconsistent:
  fixes model json_text primary selected
  defines "input \<equiv> compose_published_port_planning_input model
      (classify_compose_published_ports json_text model) primary selected"
  assumes "plan_compose_published_ports_with_existing_project probe input enabled forward_ports mappings existing
      preserve external w = (Inl error, w')"
    and "\<forall>mapping\<in>set mappings. \<exists>entry\<in>set (ordered_eligible_port_entries input). mapping_matches_entry mapping entry"
  shows "\<not> inconsistent error"
proof -
  let ?ordered = "ordered_eligible_port_entries input"
  have usable: "\<forall>entry\<in>set ?ordered. usable entry"
    using planning_input_usable unfolding set_ordered_entries input_def by blast
  from assms(2) consider s v where "plan_explicit_mappings ?ordered mappings s probe v = (Inl error, w')"
    | s v where "plan_unmapped_entries ?ordered enabled mappings s probe v = (Inl error, w')"
    by (auto simp: plan_compose_published_ports_with_existing_project_def plan_compose_published_ports_inner_def Let_def
        io_bind_Inl_iff io_return_def split: if_splits)
  then show "\<not> inconsistent error"
  proof cases
    case 1
    from io_fold_error [OF 1 [unfolded plan_explicit_mappings_def]] obtain m t u where
      m: "m \<in> set mappings" "plan_explicit_mapping ?ordered probe t m u = (Inl error, w')" by blast
    then show ?thesis using explicit_step_consistent [OF m(2) usable] assms(3) by blast
  next
    case 2
    from io_fold_error [OF 2 [unfolded plan_unmapped_entries_def]] obtain x t u where
      x: "x \<in> set ?ordered" "plan_unmapped_entry enabled mappings probe t x u = (Inl error, w')" by blast
    then show ?thesis using unmapped_step_consistent [OF x(2)] usable by blast
  qed
qed

section \<open>The runtime plan\<close>

text \<open>The runtime plan of a classified model always exists and shows every eligible entry in
  model order, as planned where the plan has it and else at the requested endpoint.\<close>

theorem runtime_plan_shows_every_eligible_entry:
  fixes model json_text primary selected
  defines "input \<equiv> compose_published_port_planning_input model
      (classify_compose_published_ports json_text model) primary selected"
  shows "\<exists>runtime. compose_published_port_runtime_plan input planned = Inr runtime \<and>
    list_all2 (\<lambda>entry e. pl_service e = ce_service entry \<and> pl_port_entry_index e = ce_entry_index entry \<and>
        (if \<exists>p\<in>set (plan_entries planned). pl_service p = ce_service entry \<and> pl_port_entry_index p = ce_entry_index entry
         then e \<in> set (plan_entries planned)
         else endpoint_for_entry entry = Inr (pl_requested e) \<and> pl_planned e = pl_requested e \<and> \<not> pl_relocated e))
      (filter (\<lambda>entry. ce_eligibility entry = Eligible_Fixed_Tcp) (pin_port_entries input)) (plan_entries runtime)"
proof -
  let ?keyed = "map (\<lambda>e. ((pl_service e, pl_port_entry_index e), e)) (plan_entries planned)"
  let ?entries = "filter (\<lambda>entry. ce_eligibility entry = Eligible_Fixed_Tcp) (pin_port_entries input)"
  let ?shows = "\<lambda>entry e. pl_service e = ce_service entry \<and> pl_port_entry_index e = ce_entry_index entry \<and>
        (if \<exists>p\<in>set (plan_entries planned). pl_service p = ce_service entry \<and> pl_port_entry_index p = ce_entry_index entry
         then e \<in> set (plan_entries planned)
         else endpoint_for_entry entry = Inr (pl_requested e) \<and> pl_planned e = pl_requested e \<and> \<not> pl_relocated e)"
  have step: "\<exists>e. runtime_plan_entry (bt_collect ?keyed) entry = Inr e \<and> ?shows entry e"
    if entry: "entry \<in> set ?entries" for entry
  proof -
    obtain requested target where et: "endpoint_for_entry entry = Inr requested" "target_port_for_entry entry = Inr target"
      using endpoint_of_usable planning_input_usable entry unfolding input_def by (metis (mono_tags, lifting) mem_Collect_eq set_filter)
    let ?get = "bt_get (bt_collect ?keyed) (ce_service entry, ce_entry_index entry)"
    show ?thesis
    proof (cases ?get)
      case None
      then have "\<not> (\<exists>p\<in>set (plan_entries planned). pl_service p = ce_service entry \<and> pl_port_entry_index p = ce_entry_index entry)"
        unfolding bt_get_collect map_of_eq_None_iff by (force simp: rev_map)
      then show ?thesis using None et by (auto simp: runtime_plan_entry_def)
    next
      case (Some p)
      then have "((ce_service entry, ce_entry_index entry), p) \<in> set ?keyed"
        unfolding bt_get_collect using map_of_SomeD [of "rev ?keyed"] by simp
      then have p: "p \<in> set (plan_entries planned)" "pl_service p = ce_service entry" "pl_port_entry_index p = ce_entry_index entry"
        by auto
      then have "?shows entry p" by auto
      moreover have "runtime_plan_entry (bt_collect ?keyed) entry = Inr p" using Some et by (simp add: runtime_plan_entry_def)
      ultimately show ?thesis by blast
    qed
  qed
  define get where "get entry = projr (runtime_plan_entry (bt_collect ?keyed) entry)" for entry
  have get: "runtime_plan_entry (bt_collect ?keyed) entry = Inr (get entry)" if "entry \<in> set ?entries" for entry
    using step [OF that] by (auto simp: get_def)
  have all: "try_map (runtime_plan_entry (bt_collect ?keyed)) ?entries = Inr (map get ?entries)"
    by (rule try_map_map_Inr) (rule get)
  have "compose_published_port_runtime_plan input planned = Inr \<lparr>plan_entries = map get ?entries\<rparr>"
    by (simp only: compose_published_port_runtime_plan_def Let_def all bind_res.simps)
  moreover have "list_all2 ?shows ?entries (map get ?entries)"
    unfolding list_all2_map2 list_all2_same
  proof
    fix entry assume entry: "entry \<in> set ?entries"
    from step [OF this] obtain e where e: "runtime_plan_entry (bt_collect ?keyed) entry = Inr e" "?shows entry e" by blast
    then have same: "get entry = e" using get [OF entry] by simp
    show "?shows entry (get entry)" unfolding same by (rule e(2))
  qed
  ultimately show ?thesis by (intro exI [of _ "\<lparr>plan_entries = map get ?entries\<rparr>"]) simp
qed

end
