(* ===== verification/Compose_Ports_Override.thy ===== *)
theory Compose_Ports_Override
  imports Compose_Ports_Runs
begin

text \<open>
  From the configuration to the planner and back to Compose: \<open>src/runtime/compose_ports/diagnostics.rs\<close>,
  \<open>mappings.rs\<close>, which turns configured mappings into mappings of port entries, and \<open>overrides.rs\<close>, which
  writes the planned endpoints into the port objects of the relocated services.
\<close>

section \<open>Diagnostics\<close>

datatype compose_published_port_diagnostic =
    Multi_Replica_Unsupported string nat compose_published_port_endpoint u16 compose_port_protocol
  | Collision string compose_published_port_endpoint u16 compose_port_protocol
  | Bind_Race string compose_published_port_endpoint compose_published_port_endpoint u16 compose_port_protocol
  | Unsupported_Entry string nat string u16 compose_port_protocol string
  | Invalid_Ports string
  | Mapping_Invalid string
  | Mapping_In_Conflict string
  | Automatic_Relocation_Failed string

fun from_plan_error :: "compose_published_port_plan_error \<Rightarrow> compose_published_port_diagnostic" where
  "from_plan_error (No_Automatic_Relocation_Candidate service port_entry_index requested) =
     Automatic_Relocation_Failed
       (fmt [''No automatic relocation candidate is available for service `'', service, ''` port entry '',
             show_nat port_entry_index, '' requested endpoint '',
             compose_published_port_endpoint_display requested])"
| "from_plan_error (Host_Port_Availability host_ip host_port source) =
     Invalid_Ports
       (fmt [''Failed to check Compose published port availability for '', host_ip, '':'',
             show_nat (unat host_port), '': '', source])"
| "from_plan_error (Inconsistent_Entry service port_entry_index detail) =
     Invalid_Ports
       (fmt [''Internal Compose published port state is inconsistent for service `'', service,
             ''` port entry '', show_nat port_entry_index, '': '', detail])"
| "from_plan_error (Mapping_Conflict detail) = Mapping_In_Conflict detail"

fun port_diagnostic_text :: "compose_published_port_diagnostic \<Rightarrow> string" where
  "port_diagnostic_text (Multi_Replica_Unsupported service replica_count requested target_port protocol) =
     fmt [''compose_published_port_multi_replica_unsupported: Docker Compose service `'', service, ''` has '',
       show_nat replica_count, '' replicas and a fixed Compose published port. requested: '',
       compose_published_port_endpoint_display requested, ''; target: '', service, '':'',
       show_nat (unat target_port), ''/'', compose_port_protocol_name protocol,
       ''; source: compose. decune does not allocate separate published host ports per replica. Suggested actions: use a container-only Compose port, split replicas into explicit services with separate ports, use a Compose port range, or set the replica count to 1.'']"
| "port_diagnostic_text (Collision service requested target_port protocol) =
     fmt [''compose_published_port_collision: Compose published port collision. service: `'', service,
       ''`; requested: '', compose_published_port_endpoint_display requested, ''; target: '', service, '':'',
       show_nat (unat target_port), ''/'', compose_port_protocol_name protocol,
       ''; source: compose. The requested Docker/Compose published host port is unavailable. This is not a decune forwarding listener. decune automatic forwarding does not replace Compose published ports. Suggested actions: stop the process, Docker container, or workspace using the requested endpoint; change the Compose published port; use a container-only Compose port when appropriate; or enable automatic published port relocation explicitly.'']"
| "port_diagnostic_text (Bind_Race service requested planned target_port protocol) =
     fmt [''compose_published_port_bind_race: Compose published port bind race. service: `'', service,
       ''`; requested: '', compose_published_port_endpoint_display requested, ''; planned: '',
       compose_published_port_endpoint_display planned, ''; target: '', service, '':'',
       show_nat (unat target_port), ''/'', compose_port_protocol_name protocol,
       ''; source: compose. The planned Docker/Compose published host port was selected by decune before startup, but Docker Compose failed to bind it. Another process may have taken it concurrently. decune does not retry Compose startup automatically.'']"
| "port_diagnostic_text (Unsupported_Entry service port_entry_index requested target_port protocol reason) =
     fmt [''compose_published_port_unsupported: Compose published port startup failure involves an unsupported port entry. service: `'',
       service, ''`; port entry: '', show_nat port_entry_index, ''; requested: '', requested, ''; target: '',
       service, '':'', show_nat (unat target_port), ''/'', compose_port_protocol_name protocol,
       ''; source: compose. '', reason, ''. decune does not relocate this Compose published port entry.'']"
| "port_diagnostic_text (Invalid_Ports detail) = fmt [''compose_published_port_invalid: '', detail]"
| "port_diagnostic_text (Mapping_Invalid detail) = fmt [''compose_published_port_mapping_invalid: '', detail]"
| "port_diagnostic_text (Mapping_In_Conflict detail) = fmt [''compose_published_port_mapping_conflict: '', detail]"
| "port_diagnostic_text (Automatic_Relocation_Failed detail) =
     fmt [''compose_published_port_automatic_relocation_failed: '', detail]"

definition validate_replicas_of_entry ::
  "compose_port_entry \<Rightarrow> compose_published_port_diagnostic + unit" where
  "validate_replicas_of_entry entry =
     (if ce_service_uses_host_network entry \<or> ce_service_replica_count entry \<le> 1 \<or>
         ce_eligibility entry \<noteq> Eligible_Fixed_Tcp
      then Inr ()
      else
        bind_res (map_err from_plan_error (target_port_for_entry entry)) (\<lambda>target_port.
        bind_res (map_err from_plan_error (endpoint_for_entry entry)) (\<lambda>requested.
          Inl (Multi_Replica_Unsupported (ce_service entry) (ce_service_replica_count entry) requested
                 target_port (ce_protocol entry)))))"

definition validate_compose_published_port_diagnostics ::
  "compose_planning_input \<Rightarrow> compose_published_port_diagnostic + unit" where
  "validate_compose_published_port_diagnostics input =
     try_fold (\<lambda>_ entry. validate_replicas_of_entry entry) () (pin_port_entries input)"

definition compose_published_port_invalid_config_error ::
  "string \<Rightarrow> string \<Rightarrow> compose_published_port_diagnostic" where
  "compose_published_port_invalid_config_error project_name stderr =
     Invalid_Ports (fmt [''Docker Compose project '', project_name,
       '' contains an invalid Compose published port configuration: '', trim stderr])"

section \<open>Configured mappings\<close>

record resolved_compose_mapping =
  rm_service :: string
  rm_target :: u16
  rm_protocol :: port_protocol
  rm_host :: u16
  rm_host_ip :: "string option"

fun compose_protocol :: "port_protocol \<Rightarrow> compose_port_protocol" where
  "compose_protocol Tcp = Proto_Tcp"
| "compose_protocol Udp = Proto_Udp"

definition mapping_entry_matches :: "resolved_compose_mapping \<Rightarrow> compose_port_entry \<Rightarrow> bool" where
  "mapping_entry_matches mapping entry \<longleftrightarrow>
     ce_service entry = rm_service mapping \<and> ce_target_port entry = Some (rm_target mapping) \<and>
     ce_protocol entry = compose_protocol (rm_protocol mapping)"

definition resolve_compose_published_port_mapping ::
  "compose_config_model \<Rightarrow> compose_planning_input \<Rightarrow> compose_published_port_mapping list \<Rightarrow>
   resolved_compose_mapping \<Rightarrow> compose_published_port_diagnostic + compose_published_port_mapping list" where
  "resolve_compose_published_port_mapping full_model input resolved mapping =
     (if \<not> has_service full_model (rm_service mapping) then
        Inl (Mapping_Invalid
          (fmt [''Compose published port mapping references missing service `'', rm_service mapping,
                ''`; target: '', show_nat (unat (rm_target mapping)), ''/tcp'']))
      else if \<not> active_set_contains (pin_services input) (rm_service mapping) then Inr resolved
      else
        case filter (mapping_entry_matches mapping) (pin_port_entries input) of
          [] \<Rightarrow>
            Inl (Mapping_Invalid
              (fmt [''Compose published port mapping does not match a port entry for service `'',
                    rm_service mapping, ''`, target '', show_nat (unat (rm_target mapping)), ''/tcp'']))
        | [entry] \<Rightarrow>
            if ce_eligibility entry \<noteq> Eligible_Fixed_Tcp then
              Inl (Mapping_Invalid
                (fmt [''Compose published port mapping requires one fixed TCP published port for service `'',
                      rm_service mapping, ''`, target '', show_nat (unat (rm_target mapping)), ''/tcp: '',
                      (case ce_unsupported_reason entry of Some reason \<Rightarrow> reason
                       | None \<Rightarrow> ''port entry is not eligible for explicit mapping'')]))
            else
              bind_res (map_err from_plan_error (endpoint_for_entry entry)) (\<lambda>requested.
                Inr (resolved @
                  [\<lparr>cp_service = rm_service mapping, cp_port_entry_index = ce_entry_index entry,
                    cp_target_port = rm_target mapping, cp_protocol = compose_protocol (rm_protocol mapping),
                    cp_endpoint = \<lparr>pe_host_ip =
                        (case rm_host_ip mapping of Some host_ip \<Rightarrow> Explicit host_ip
                         | None \<Rightarrow> pe_host_ip requested),
                      pe_host_port = rm_host mapping\<rparr>\<rparr>]))
        | _ \<Rightarrow>
            Inl (Mapping_Invalid
              (fmt [''Compose published port mapping is ambiguous because service `'', rm_service mapping,
                    ''` has multiple port entries for target '', show_nat (unat (rm_target mapping)), ''/tcp''])))"

definition resolve_compose_published_port_mappings ::
  "compose_config_model \<Rightarrow> compose_planning_input \<Rightarrow> resolved_compose_mapping list \<Rightarrow>
   compose_published_port_diagnostic + compose_published_port_mapping list" where
  "resolve_compose_published_port_mappings full_model input mappings =
     try_fold (resolve_compose_published_port_mapping full_model input) [] mappings"

section \<open>The override\<close>

type_synonym override_port_entry = "(string, json) btree_map"

type_synonym port_override = "(string, override_port_entry list) btree_map"

definition ensure_compose_port_entry_can_be_overridden :: "compose_port_entry \<Rightarrow> unit result" where
  "ensure_compose_port_entry_can_be_overridden entry =
     (if ce_original_fields entry = [] then
        Inl (fmt [''Cannot apply Compose published port relocation for service `'', ce_service entry,
          ''` port entry '', show_nat (ce_entry_index entry),
          '' because Docker Compose config did not return a long-syntax port object''])
      else Inr ())"

definition override_port ::
  "(string \<times> nat, compose_published_port_plan_entry) btree_map \<Rightarrow> compose_port_entry \<Rightarrow>
   override_port_entry result" where
  "override_port planned_entries entry =
     bind_res (ensure_compose_port_entry_can_be_overridden entry) (\<lambda>_.
       Inr (case bt_get planned_entries (ce_service entry, ce_entry_index entry) of
              None \<Rightarrow> ce_original_fields entry
            | Some planned \<Rightarrow>
                let overridden = bt_insert ''published''
                      (J_String (show_nat (unat (pe_host_port (pl_planned planned))))) (ce_original_fields entry)
                in case pe_host_ip (pl_planned planned) of
                     Omitted \<Rightarrow> bt_remove ''host_ip'' overridden
                   | Explicit host_ip \<Rightarrow> bt_insert ''host_ip'' (J_String host_ip) overridden))"

definition override_service ::
  "compose_port_entry list \<Rightarrow> (string \<times> nat, compose_published_port_plan_entry) btree_map \<Rightarrow>
   port_override \<Rightarrow> string \<Rightarrow> port_override result" where
  "override_service port_entries planned_entries service_ports service =
     bind_res (try_map (override_port planned_entries)
         (sort_key ce_entry_index (filter (\<lambda>entry. ce_service entry = service) port_entries)))
       (\<lambda>ports. Inr (bt_insert service ports service_ports))"

definition compose_published_port_override ::
  "compose_port_entry list \<Rightarrow> compose_published_port_plan \<Rightarrow> port_override result" where
  "compose_published_port_override port_entries plan =
     (if \<not> compose_published_port_plan_has_relocations plan then Inr []
      else
        let relocated_services = bs_collect (map pl_service (filter pl_relocated (plan_entries plan)));
            planned_entries = bt_collect (map (\<lambda>entry. ((pl_service entry, pl_port_entry_index entry), entry))
              (plan_entries plan))
        in try_fold (override_service port_entries planned_entries) [] relocated_services)"

definition ports_for :: "port_override \<Rightarrow> string \<Rightarrow> override_port_entry list option" where
  "ports_for port_override service = bt_get port_override service"

section \<open>The planned endpoints come back\<close>

lemma no_dash_in_number: "\<not> str_contains ''-'' (show_nat n)"
proof
  assume "str_contains ''-'' (show_nat n)"
  then have "CHR ''-'' \<in> set (show_nat n)" by (auto simp: str_contains_iff)
  then show False using non_digit_not_in_show [of "CHR ''-''" n] by (simp add: is_ascii_digit_def)
qed

lemma parse_u16_show: "parse_u16 (show_nat (unat (p :: u16))) = Some p"
  using parse_unsigned_show_nat [of "unat p" 65535] unat_u16_bound [of p]
  by (simp add: parse_u16_def)

lemma published_port_parses_back:
  "p \<noteq> 0 \<Longrightarrow> parse_published_host_port json_text (Some (J_String (show_nat (unat p)))) = Single_Port p"
  by (simp add: parse_published_host_port_def parse_port_value_def no_dash_in_number parse_u16_show validate_nonzero_port_def)

definition valid_endpoint :: "compose_published_port_endpoint \<Rightarrow> bool" where
  "valid_endpoint e \<longleftrightarrow> pe_host_port e \<noteq> 0 \<and> (\<forall>ip. pe_host_ip e = Explicit ip \<longrightarrow> parse_ip ip \<noteq> None)"

definition planned_fields :: "compose_published_port_endpoint \<Rightarrow> override_port_entry \<Rightarrow> override_port_entry" where
  "planned_fields planned original =
     (let overridden = bt_insert ''published'' (J_String (show_nat (unat (pe_host_port planned)))) original
      in case pe_host_ip planned of
           Omitted \<Rightarrow> bt_remove ''host_ip'' overridden
         | Explicit host_ip \<Rightarrow> bt_insert ''host_ip'' (J_String host_ip) overridden)"

lemma get_planned_fields:
  "bt_get (planned_fields planned original) =
     (bt_get original)(''published'' \<mapsto> J_String (show_nat (unat (pe_host_port planned))),
       ''host_ip'' := (case pe_host_ip planned of Omitted \<Rightarrow> None | Explicit ip \<Rightarrow> Some (J_String ip)))"
  by (auto simp: planned_fields_def Let_def bt_get_insert bt_get_remove split: compose_published_port_host_ip.split)

lemma planned_fields_classified:
  assumes "bt_ok original" "valid_endpoint planned"
    and "ce_eligibility (classify_port_entry json_text service svc i (J_Object original)) = Eligible_Fixed_Tcp"
  shows "ce_eligibility (classify_port_entry json_text service svc i
      (J_Object (planned_fields planned (bt_collect original)))) = Eligible_Fixed_Tcp \<and>
    endpoint_for_entry (classify_port_entry json_text service svc i
      (J_Object (planned_fields planned (bt_collect original)))) = Inr planned \<and>
    ce_target_port (classify_port_entry json_text service svc i
      (J_Object (planned_fields planned (bt_collect original)))) =
      ce_target_port (classify_port_entry json_text service svc i (J_Object original))"
proof -
  let ?f = "planned_fields planned (bt_collect original)"
  have same: "bt_get (bt_collect original) = bt_get original"
    using bt_get_collect_distinct [OF bt_ok_distinct [OF assms(1)]] by (simp add: bt_get_def)
  have get: "bt_get ?f ''target'' = bt_get original ''target''" "bt_get ?f ''protocol'' = bt_get original ''protocol''"
    "bt_get ?f ''published'' = Some (J_String (show_nat (unat (pe_host_port planned))))"
    "bt_get ?f ''host_ip'' = (case pe_host_ip planned of Omitted \<Rightarrow> None | Explicit ip \<Rightarrow> Some (J_String ip))"
    unfolding get_planned_fields same by simp_all
  have pub: "parse_published_host_port json_text (bt_get ?f ''published'') = Single_Port (pe_host_port planned)"
    using assms(2) published_port_parses_back unfolding get valid_endpoint_def by blast
  have ip: "parse_host_ip json_text (bt_get ?f ''host_ip'') =
      (case pe_host_ip planned of Omitted \<Rightarrow> Omitted_Ip | Explicit ip \<Rightarrow> Explicit_Ip ip)"
    using assms(2) unfolding get valid_endpoint_def
    by (cases "pe_host_ip planned") (simp_all add: parse_host_ip_def)
  let ?t = "parse_target_port json_text (bt_get original ''target'')"
  let ?proto = "parse_protocol json_text (bt_get original ''protocol'')"
  obtain e r where old: "classify_eligibility ?t (parse_published_host_port json_text (bt_get original ''published''))
      (parse_host_ip json_text (bt_get original ''host_ip'')) ?proto (uses_host_network svc) = (e, r)"
    by (cases "classify_eligibility ?t (parse_published_host_port json_text (bt_get original ''published''))
      (parse_host_ip json_text (bt_get original ''host_ip'')) ?proto (uses_host_network svc)")
  then have "e = Eligible_Fixed_Tcp"
    using assms(3) by (simp add: classify_port_entry_def Let_def)
  then obtain t where t: "?t = Inr t" "?proto = Proto_Tcp" "\<not> uses_host_network svc"
    using classify_eligibility_iff [OF old] by blast
  show ?thesis
    using t old by (cases "pe_host_ip planned")
      (simp_all add: classify_port_entry_def Let_def pub ip get(1,2) endpoint_for_entry_def
        requested_host_port_def classify_eligibility_def)
qed

section \<open>The entries of one service\<close>

lemma classified_of_service:
  assumes "bt_ok (cm_services model)" "model_service model service = Some svc"
  shows "filter (\<lambda>entry. ce_service entry = service) (classify_compose_published_ports json_text model) =
     map (\<lambda>(i, v). classify_port_entry json_text service svc i v) (enumerate 0 (svc_ports svc))"
proof -
  have name: "ce_service (classify_port_entry json_text s x i v) = s" for s x i v
    by (auto simp: classify_port_entry_def Let_def split: option.splits prod.splits)
  have other: "service \<notin> fst ` set services \<Longrightarrow>
      filter (\<lambda>entry. ce_service entry = service) (concat (map (\<lambda>(service_name, service).
         map (\<lambda>(i, v). classify_port_entry json_text service_name service i v)
           (enumerate 0 (svc_ports service))) services)) = []" for services
    by (induction services) (auto simp: name filter_empty_conv)
  have "distinct (map fst services) \<Longrightarrow> (service, svc) \<in> set services \<Longrightarrow>
      filter (\<lambda>entry. ce_service entry = service) (concat (map (\<lambda>(service_name, service).
         map (\<lambda>(i, v). classify_port_entry json_text service_name service i v)
           (enumerate 0 (svc_ports service))) services)) =
      map (\<lambda>(i, v). classify_port_entry json_text service svc i v) (enumerate 0 (svc_ports svc))" for services
  proof (induction services)
    case (Cons x services)
    obtain a b where x: "x = (a, b)" by (cases x)
    show ?case
    proof (cases "x = (service, svc)")
      case True
      then have "service \<notin> fst ` set services" using Cons.prems(1) by auto
      moreover have "filter (\<lambda>entry. ce_service entry = service)
          (map (\<lambda>(i, v). classify_port_entry json_text service svc i v) (enumerate 0 (svc_ports svc))) =
          map (\<lambda>(i, v). classify_port_entry json_text service svc i v) (enumerate 0 (svc_ports svc))"
        by (rule filter_True) (auto simp: name)
      ultimately show ?thesis using True other [of services] by simp
    next
      case False
      then have "a \<noteq> service" using Cons.prems by (auto simp: x rev_image_eqI)
      then have none: "filter (\<lambda>entry. ce_service entry = service)
          (map (\<lambda>(i, v). classify_port_entry json_text a b i v) (enumerate 0 (svc_ports b))) = []"
        by (auto simp: filter_empty_conv name)
      have "(service, svc) \<in> set services" "distinct (map fst services)" using Cons.prems False by auto
      from Cons.IH [OF this(2,1)] show ?thesis by (simp only: x list.map prod.case concat.simps filter_append none append_Nil)
    qed
  qed simp
  moreover have "(service, svc) \<in> set (cm_services model)"
    using assms(2) by (simp add: model_service_def bt_get_SomeD)
  ultimately show ?thesis
    using bt_ok_distinct [OF assms(1)] unfolding classify_compose_published_ports_def by blast
qed

lemma classified_of_service_sorted:
  assumes "bt_ok (cm_services model)" "model_service model service = Some svc"
  shows "sort_key ce_entry_index (filter (\<lambda>entry. ce_service entry = service)
      (classify_compose_published_ports json_text model)) =
     map (\<lambda>(i, v). classify_port_entry json_text service svc i v) (enumerate 0 (svc_ports svc))"
proof -
  have index: "ce_entry_index (classify_port_entry json_text s x i v) = i" for s x i v
    by (auto simp: classify_port_entry_def Let_def split: option.splits prod.splits)
  have "map ce_entry_index (map (\<lambda>(i, v). classify_port_entry json_text service svc i v) (enumerate 0 (svc_ports svc))) =
      [0..<length (svc_ports svc)]"
    by (simp add: comp_def case_prod_beta index)
  then have "sorted (map ce_entry_index
      (map (\<lambda>(i, v). classify_port_entry json_text service svc i v) (enumerate 0 (svc_ports svc))))" by simp
  then show ?thesis unfolding classified_of_service [OF assms] by (rule sort_key_id_if_sorted)
qed

section \<open>The services of the override\<close>

lemma override_services:
  assumes "try_fold (override_service port_entries planned) m services = Inr result" "distinct services"
    and "\<forall>s\<in>set services. bt_get m s = None"
  shows "bt_get result service = (if service \<in> set services
     then res_ok (try_map (override_port planned)
         (sort_key ce_entry_index (filter (\<lambda>entry. ce_service entry = service) port_entries)))
     else bt_get m service) \<and>
    (service \<in> set services \<longrightarrow> bt_get result service \<noteq> None)"
  using assms
proof (induction services arbitrary: m)
  case (Cons s services)
  let ?ports = "\<lambda>s. try_map (override_port planned)
         (sort_key ce_entry_index (filter (\<lambda>entry. ce_service entry = s) port_entries))"
  from Cons.prems(1) obtain n where n: "override_service port_entries planned m s = Inr n"
      "try_fold (override_service port_entries planned) n services = Inr result"
    by (auto simp: bind_res_Inr_iff)
  from n(1) obtain ports where ports: "?ports s = Inr ports" "n = bt_insert s ports m"
    by (auto simp: override_service_def result_elims)
  have "\<forall>x\<in>set services. bt_get (bt_insert s ports m) x = None"
    using Cons.prems(2,3) by (auto simp: bt_get_insert)
  from Cons.IH [OF n(2) [unfolded ports(2)] _ this] Cons.prems(2) show ?case
    using ports(1) by (auto simp: bt_get_insert) metis
qed simp


definition entry_planned ::
  "compose_published_port_plan \<Rightarrow> string \<Rightarrow> nat \<Rightarrow> compose_published_port_plan_entry \<Rightarrow> bool" where
  "entry_planned plan service i e \<longleftrightarrow>
     e \<in> set (plan_entries plan) \<and> pl_service e = service \<and> pl_port_entry_index e = i"

lemma planned_entries_get:
  assumes "distinct (map plan_key (plan_entries plan))"
  shows "bt_get (bt_collect (map (\<lambda>entry. ((pl_service entry, pl_port_entry_index entry), entry))
      (plan_entries plan))) (service, i) = Some e \<longleftrightarrow> entry_planned plan service i e"
proof -
  let ?keyed = "map (\<lambda>entry. ((pl_service entry, pl_port_entry_index entry), entry)) (plan_entries plan)"
  have d: "distinct (map fst ?keyed)" using assms by (simp add: plan_key_def [abs_def] comp_def)
  show ?thesis unfolding bt_get_collect_distinct [OF d] map_of_eq_Some_iff [OF d]
    by (auto simp: entry_planned_def)
qed

lemma override_port_ok:
  assumes "override_port planned entry = Inr port"
  shows "ce_original_fields entry \<noteq> [] \<and> port =
    (case bt_get planned (ce_service entry, ce_entry_index entry) of
       None \<Rightarrow> ce_original_fields entry
     | Some p \<Rightarrow> planned_fields (pl_planned p) (ce_original_fields entry))"
  using assms
  by (auto simp: override_port_def ensure_compose_port_entry_can_be_overridden_def planned_fields_def result_elims
      Let_def split: if_splits option.splits)

lemma Some_res_ok_iff: "Some a = res_ok m \<longleftrightarrow> m = Inr a"
  using res_ok_Some_iff by metis

lemma override_ok:
  assumes "compose_published_port_override port_entries plan = Inr result"
  defines "planned \<equiv> bt_collect (map (\<lambda>entry. ((pl_service entry, pl_port_entry_index entry), entry)) (plan_entries plan))"
  shows "(ports_for result service \<noteq> None \<longleftrightarrow> (\<exists>e\<in>set (plan_entries plan). pl_relocated e \<and> pl_service e = service)) \<and>
    (\<forall>ports. ports_for result service = Some ports \<longrightarrow> try_map (override_port planned)
         (sort_key ce_entry_index (filter (\<lambda>entry. ce_service entry = service) port_entries)) = Inr ports)"
proof (cases "compose_published_port_plan_has_relocations plan")
  case False
  then have "result = []" using assms(1) by (simp add: compose_published_port_override_def)
  then show ?thesis using False
    by (auto simp: ports_for_def bt_get_def compose_published_port_plan_has_relocations_def list_ex_iff)
next
  case True
  let ?services = "bs_collect (map pl_service (filter pl_relocated (plan_entries plan)))"
  have "try_fold (override_service port_entries planned) [] ?services = Inr result"
    using assms(1) True by (simp add: compose_published_port_override_def planned_def Let_def)
  from override_services [OF this distinct_bs_collect, of service]
  show ?thesis by (auto simp: ports_for_def bt_get_def [of "[]"] res_ok_Some_iff Some_res_ok_iff split: if_splits)
qed

section \<open>Properties\<close>

abbreviation planned_by_key ::
  "compose_published_port_plan \<Rightarrow> (string \<times> nat, compose_published_port_plan_entry) btree_map" where
  "planned_by_key plan \<equiv>
     bt_collect (map (\<lambda>entry. ((pl_service entry, pl_port_entry_index entry), entry)) (plan_entries plan))"

lemma overridden_entries:
  assumes "bt_ok (cm_services model)" "model_service model service = Some svc"
    and "compose_published_port_override (classify_compose_published_ports json_text model) plan = Inr result"
    and "ports_for result service = Some ports"
  shows "length ports = length (svc_ports svc) \<and>
    (\<forall>i<length ports. override_port (planned_by_key plan)
       (classify_port_entry json_text service svc i (svc_ports svc ! i)) = Inr (ports ! i))"
proof -
  have "try_map (override_port (planned_by_key plan))
      (map (\<lambda>(i, v). classify_port_entry json_text service svc i v) (enumerate 0 (svc_ports svc))) = Inr ports"
    using override_ok [OF assms(3), of service] assms(4) unfolding classified_of_service_sorted [OF assms(1,2)] by blast
  then show ?thesis unfolding try_map_Inr_iff by (auto simp: list_all2_conv_all_nth nth_enumerate_eq)
qed

lemma classified_name:
  "ce_service (classify_port_entry json_text service svc i v) = service"
  "ce_entry_index (classify_port_entry json_text service svc i v) = i"
  by (auto simp: classify_port_entry_def Let_def split: option.splits prod.splits)

lemma overridden_fields:
  assumes "bt_ok original" "distinct (map plan_key (plan_entries plan))"
    and "port = (case bt_get (planned_by_key plan) (service, i) of None \<Rightarrow> bt_collect original
      | Some p \<Rightarrow> planned_fields (pl_planned p) (bt_collect original))"
  shows "bt_ok port \<and> (\<forall>name. bt_get port name = bt_get original name \<or>
      (\<exists>e. entry_planned plan service i e) \<and> name \<in> {''published'', ''host_ip''})"
proof -
  have same: "bt_get (bt_collect original) = bt_get original"
    using bt_get_collect_distinct [OF bt_ok_distinct [OF assms(1)]] by (simp add: bt_get_def)
  show ?thesis
  proof (cases "bt_get (planned_by_key plan) (service, i)")
    case None
    with assms(3) same show ?thesis by simp
  next
    case (Some e)
    with planned_entries_get [OF assms(2)] have "entry_planned plan service i e" by blast
    moreover have "bt_ok (planned_fields (pl_planned e) (bt_collect original))"
      by (auto simp: planned_fields_def Let_def bt_ok_insert bt_ok_remove split: compose_published_port_host_ip.split)
    ultimately show ?thesis using assms(3) Some by (auto simp: get_planned_fields same)
  qed
qed

lemma overridden_entry:
  assumes "\<forall>original. J_Object original \<in> set (svc_ports svc) \<longrightarrow> bt_ok original"
    and "distinct (map plan_key (plan_entries plan))"
    and "\<forall>e\<in>set (plan_entries plan). valid_endpoint (pl_planned e)" and i: "i < length (svc_ports svc)"
    and port: "override_port (planned_by_key plan) (classify_port_entry json_text service svc i (svc_ports svc ! i)) = Inr port"
  shows "let before = classify_port_entry json_text service svc i (svc_ports svc ! i);
             after = classify_port_entry json_text service svc i (J_Object port)
         in (\<forall>e. entry_planned plan service i e \<and> ce_eligibility before = Eligible_Fixed_Tcp \<longrightarrow>
               ce_eligibility after = Eligible_Fixed_Tcp \<and> endpoint_for_entry after = Inr (pl_planned e) \<and>
               ce_target_port after = ce_target_port before) \<and>
            ((\<forall>e. \<not> entry_planned plan service i e) \<longrightarrow> port = ce_original_fields before) \<and>
            (\<exists>original. svc_ports svc ! i = J_Object original \<and> bt_ok port \<and>
               (\<forall>name. bt_get port name = bt_get original name \<or>
                  (\<exists>e. entry_planned plan service i e) \<and> name \<in> {''published'', ''host_ip''}))"
proof -
  let ?before = "classify_port_entry json_text service svc i (svc_ports svc ! i)"
  from override_port_ok [OF port] have nonempty: "ce_original_fields ?before \<noteq> []"
    and p: "port = (case bt_get (planned_by_key plan) (service, i) of None \<Rightarrow> ce_original_fields ?before
        | Some p \<Rightarrow> planned_fields (pl_planned p) (ce_original_fields ?before))" unfolding classified_name by blast+
  obtain original where original: "svc_ports svc ! i = J_Object original"
    using nonempty by (cases "svc_ports svc ! i") (simp_all add: classify_port_entry_def)
  then have original_fields: "ce_original_fields ?before = bt_collect original"
    by (auto simp: classify_port_entry_def Let_def split: prod.splits)
  have good: "bt_ok original" using assms(1) original i by (metis nth_mem)
  have "ce_eligibility (classify_port_entry json_text service svc i (J_Object port)) = Eligible_Fixed_Tcp \<and>
      endpoint_for_entry (classify_port_entry json_text service svc i (J_Object port)) = Inr (pl_planned e) \<and>
      ce_target_port (classify_port_entry json_text service svc i (J_Object port)) = ce_target_port ?before"
    if e: "entry_planned plan service i e" and el: "ce_eligibility ?before = Eligible_Fixed_Tcp" for e
  proof -
    have "bt_get (planned_by_key plan) (service, i) = Some e" using planned_entries_get [OF assms(2)] e by blast
    then have port': "port = planned_fields (pl_planned e) (bt_collect original)" using p original_fields by simp
    have "valid_endpoint (pl_planned e)" using e assms(3) by (simp add: entry_planned_def)
    from planned_fields_classified [OF good this] el show ?thesis unfolding port' original by blast
  qed
  moreover have "port = ce_original_fields ?before" if "\<forall>e. \<not> entry_planned plan service i e"
  proof -
    have "bt_get (planned_by_key plan) (service, i) = None" using planned_entries_get [OF assms(2), of service i] that
      by (cases "bt_get (planned_by_key plan) (service, i)") auto
    then show ?thesis using p by simp
  qed
  moreover have "bt_ok port \<and> (\<forall>name. bt_get port name = bt_get original name \<or>
      (\<exists>e. entry_planned plan service i e) \<and> name \<in> {''published'', ''host_ip''})"
    using overridden_fields [OF good assms(2), of port service i] p unfolding original_fields by blast
  ultimately show ?thesis unfolding Let_def original by blast
qed

text \<open>C17. For a model with well-formed maps and a plan with at most one entry per port
  entry, each with a valid endpoint, the override lists exactly the services with a relocated
  entry, with one entry per port entry; an eligible entry that is planned, classified again,
  publishes the planned endpoint with the same target; every field other than published and
  host_ip is that of the model, and an entry that is not planned keeps all of its fields.\<close>

theorem override_publishes_the_plan:
  fixes model json_text plan
  assumes "bt_ok (cm_services model)" "model_service model service = Some svc"
    and "\<forall>original. J_Object original \<in> set (svc_ports svc) \<longrightarrow> bt_ok original"
    and "distinct (map plan_key (plan_entries plan))"
    and "\<forall>e\<in>set (plan_entries plan). valid_endpoint (pl_planned e)"
    and "compose_published_port_override (classify_compose_published_ports json_text model) plan = Inr result"
  shows "(ports_for result service \<noteq> None \<longleftrightarrow> (\<exists>e\<in>set (plan_entries plan). pl_relocated e \<and> pl_service e = service)) \<and>
    (\<forall>ports. ports_for result service = Some ports \<longrightarrow> length ports = length (svc_ports svc) \<and>
       (\<forall>i<length ports.
          let before = classify_port_entry json_text service svc i (svc_ports svc ! i);
              after = classify_port_entry json_text service svc i (J_Object (ports ! i))
          in (\<forall>e. entry_planned plan service i e \<and> ce_eligibility before = Eligible_Fixed_Tcp \<longrightarrow>
                ce_eligibility after = Eligible_Fixed_Tcp \<and> endpoint_for_entry after = Inr (pl_planned e) \<and>
                ce_target_port after = ce_target_port before) \<and>
             ((\<forall>e. \<not> entry_planned plan service i e) \<longrightarrow> ports ! i = ce_original_fields before) \<and>
             (\<exists>original. svc_ports svc ! i = J_Object original \<and> bt_ok (ports ! i) \<and>
                (\<forall>name. bt_get (ports ! i) name = bt_get original name \<or>
                   (\<exists>e. entry_planned plan service i e) \<and> name \<in> {''published'', ''host_ip''}))))"
proof -
  note each = overridden_entries [OF assms(1,2,6)]
  show ?thesis
  proof (intro conjI allI impI)
    show "(ports_for result service \<noteq> None) = (\<exists>e\<in>set (plan_entries plan). pl_relocated e \<and> pl_service e = service)"
      using override_ok [OF assms(6), of service] by blast
  next
    fix ports assume "ports_for result service = Some ports"
    from each [OF this] show "length ports = length (svc_ports svc)" by blast
  next
    fix ports i assume ports: "ports_for result service = Some ports" and i: "i < length ports"
    from each [OF ports] i have "i < length (svc_ports svc)"
      "override_port (planned_by_key plan) (classify_port_entry json_text service svc i (svc_ports svc ! i)) = Inr (ports ! i)" by simp_all
    then show "let before = classify_port_entry json_text service svc i (svc_ports svc ! i);
              after = classify_port_entry json_text service svc i (J_Object (ports ! i))
          in (\<forall>e. entry_planned plan service i e \<and> ce_eligibility before = Eligible_Fixed_Tcp \<longrightarrow>
                ce_eligibility after = Eligible_Fixed_Tcp \<and> endpoint_for_entry after = Inr (pl_planned e) \<and>
                ce_target_port after = ce_target_port before) \<and>
             ((\<forall>e. \<not> entry_planned plan service i e) \<longrightarrow> ports ! i = ce_original_fields before) \<and>
             (\<exists>original. svc_ports svc ! i = J_Object original \<and> bt_ok (ports ! i) \<and>
                (\<forall>name. bt_get (ports ! i) name = bt_get original name \<or>
                   (\<exists>e. entry_planned plan service i e) \<and> name \<in> {''published'', ''host_ip''}))"
      by (intro overridden_entry [OF assms(3-5)])
  qed
qed

lemma example_override:
  "compose_published_port_override (classify_compose_published_ports (\<lambda>_. []) example_published_model) example_plan =
     Inr [(''web'', [planned_fields (example_endpoint 8081) (bt_collect example_port_fields)])]"
proof -
  have e: "ce_service (example_entry ''web'' 80 8080\<lparr>ce_original_fields := m\<rparr>) = ''web''"
    "ce_entry_index (example_entry ''web'' 80 8080\<lparr>ce_original_fields := m\<rparr>) = 0"
    "ce_original_fields (example_entry ''web'' 80 8080\<lparr>ce_original_fields := m\<rparr>) = m" for m
    by (simp_all add: example_entry_def)
  have f: "bt_collect example_port_fields \<noteq> []"
    by (simp add: example_port_fields_def bt_collect_def bt_extend_def)
  show ?thesis unfolding example_classified
    by (simp add: compose_published_port_override_def compose_published_port_plan_has_relocations_def example_plan_def
        bs_collect_def bt_collect_def [of "[_]"] bt_extend_def [of "[]" "[_]"] override_service_def e override_port_def
        ensure_compose_port_entry_can_be_overridden_def f bt_get_def planned_fields_def insort_insert_key_def Let_def)
qed

theorem override_publishes_the_plan_witness:
  "endpoint_for_entry (classify_port_entry (\<lambda>_. []) ''web'' (example_service\<lparr>svc_ports := [J_Object example_port_fields]\<rparr>) 0
     (J_Object (planned_fields (example_endpoint 8081) (bt_collect example_port_fields)))) = Inr (example_endpoint 8081)"
proof -
  let ?svc = "example_service\<lparr>svc_ports := [J_Object example_port_fields]\<rparr>"
  have 1: "bt_ok (cm_services example_published_model)"
    by (simp add: example_published_model_def example_model_def bt_ok_def)
  have 2: "model_service example_published_model ''web'' = Some ?svc"
    by (simp add: example_published_model_def example_model_def model_service_def bt_get_def)
  have 3: "\<forall>original. J_Object original \<in> set (svc_ports ?svc) \<longrightarrow> bt_ok original"
    by (simp add: example_port_fields_def bt_ok_def list_less_def lexordp_simps)
  have 4: "distinct (map plan_key (plan_entries example_plan))"
    "\<forall>e\<in>set (plan_entries example_plan). valid_endpoint (pl_planned e)"
    by (simp_all add: example_plan_def valid_endpoint_def example_endpoint_def)
  have planned: "entry_planned example_plan ''web'' 0 (hd (plan_entries example_plan))"
    "pl_planned (hd (plan_entries example_plan)) = example_endpoint 8081"
    by (simp_all add: entry_planned_def example_plan_def)
  have "ce_eligibility (classify_port_entry (\<lambda>_. []) ''web'' ?svc 0 (J_Object example_port_fields)) = Eligible_Fixed_Tcp"
    using example_classified [of "\<lambda>_. []"]
    by (simp add: classify_compose_published_ports_def example_published_model_def example_model_def example_entry_def)
  then show ?thesis
    using override_publishes_the_plan [OF 1 2 3 4 example_override] planned
    by (simp add: ports_for_def bt_get_def Let_def)
qed

section \<open>Configured mappings are honoured\<close>

definition resolves_to ::
  "compose_planning_input \<Rightarrow> resolved_compose_mapping \<Rightarrow> compose_published_port_mapping \<Rightarrow> bool" where
  "resolves_to input m r \<longleftrightarrow> (\<exists>entry requested.
     filter (mapping_entry_matches m) (pin_port_entries input) = [entry] \<and>
     ce_eligibility entry = Eligible_Fixed_Tcp \<and> endpoint_for_entry entry = Inr requested \<and>
     mapping_matches_entry r entry \<and>
     cp_endpoint r = \<lparr>pe_host_ip = (case rm_host_ip m of Some ip \<Rightarrow> Explicit ip | None \<Rightarrow> pe_host_ip requested),
       pe_host_port = rm_host m\<rparr>)"

lemma resolve_step:
  assumes "resolve_compose_published_port_mapping full_model input resolved m = Inr resolved'"
  shows "if active_set_contains (pin_services input) (rm_service m)
    then \<exists>r. resolved' = resolved @ [r] \<and> resolves_to input m r else resolved' = resolved"
proof (cases "active_set_contains (pin_services input) (rm_service m)")
  case False
  then show ?thesis using assms by (simp add: resolve_compose_published_port_mapping_def split: if_splits)
next
  case True
  then obtain entry where e: "filter (mapping_entry_matches m) (pin_port_entries input) = [entry]"
    using assms by (auto simp: resolve_compose_published_port_mapping_def split: if_splits list.splits)
  then have "entry \<in> set (filter (mapping_entry_matches m) (pin_port_entries input))" by simp
  then have matches: "mapping_entry_matches m entry" by simp
  obtain requested where r: "ce_eligibility entry = Eligible_Fixed_Tcp" "endpoint_for_entry entry = Inr requested"
      "resolved' = resolved @ [\<lparr>cp_service = rm_service m, cp_port_entry_index = ce_entry_index entry,
                    cp_target_port = rm_target m, cp_protocol = compose_protocol (rm_protocol m),
                    cp_endpoint = \<lparr>pe_host_ip =
                        (case rm_host_ip m of Some host_ip \<Rightarrow> Explicit host_ip
                         | None \<Rightarrow> pe_host_ip requested),
                      pe_host_port = rm_host m\<rparr>\<rparr>]"
    using assms True e
    by (auto simp: resolve_compose_published_port_mapping_def result_elims split: if_splits)
  show ?thesis
    using True e r matches
    by (auto simp: resolves_to_def mapping_matches_entry_def mapping_entry_matches_def)
qed

lemma resolve_mappings_ok:
  assumes "resolve_compose_published_port_mappings full_model input configured = Inr mappings"
  shows "list_all2 (resolves_to input)
    (filter (\<lambda>m. active_set_contains (pin_services input) (rm_service m)) configured) mappings"
  using assms unfolding resolve_compose_published_port_mappings_def
proof (rule try_fold_invariant)
  fix ys m s t
  assume "list_all2 (resolves_to input) (filter (\<lambda>m. active_set_contains (pin_services input) (rm_service m)) ys) s"
    and "resolve_compose_published_port_mapping full_model input s m = Inr t"
  then show "list_all2 (resolves_to input)
      (filter (\<lambda>m. active_set_contains (pin_services input) (rm_service m)) (ys @ [m])) t"
    using resolve_step [of full_model input s m t] by (auto simp: list_all2_appendI split: if_splits)
qed simp

lemma resolves_to_entry:
  "resolves_to input m r \<Longrightarrow> \<exists>entry\<in>set (ordered_eligible_port_entries input).
     mapping_matches_entry r entry \<and> mapping_entry_matches m entry"
proof -
  assume "resolves_to input m r"
  then obtain entry where e: "filter (mapping_entry_matches m) (pin_port_entries input) = [entry]"
    "ce_eligibility entry = Eligible_Fixed_Tcp" "mapping_matches_entry r entry" unfolding resolves_to_def by blast
  then have "entry \<in> set (filter (mapping_entry_matches m) (pin_port_entries input))" by simp
  then have "entry \<in> set (pin_port_entries input)" "mapping_entry_matches m entry" by simp_all
  then show ?thesis using e(2,3) unfolding set_ordered_entries by blast
qed

lemma resolved_keys_distinct:
  assumes "list_all2 (resolves_to input) configured mappings"
    and "distinct (map entry_key (ordered_eligible_port_entries input))"
    and "distinct (map (\<lambda>m. (rm_service m, rm_target m, rm_protocol m)) configured)"
  shows "distinct (map mapping_key mappings)"
proof -
  have len: "length configured = length mappings" using assms(1) by (rule list_all2_lengthD)
  have proto: "compose_protocol p = compose_protocol q \<Longrightarrow> p = q" for p q by (cases p; cases q) auto
  have "i = j" if ij: "i < length mappings" "j < length mappings" "mapping_key (mappings ! i) = mapping_key (mappings ! j)" for i j
  proof -
    obtain e f where e: "e \<in> set (ordered_eligible_port_entries input)" "mapping_matches_entry (mappings ! i) e"
        "mapping_entry_matches (configured ! i) e"
      and f: "f \<in> set (ordered_eligible_port_entries input)" "mapping_matches_entry (mappings ! j) f"
        "mapping_entry_matches (configured ! j) f"
      using resolves_to_entry list_all2_nthD2 [OF assms(1) ij(1)] list_all2_nthD2 [OF assms(1) ij(2)] by meson
    have "entry_key e = entry_key f" using mapping_matches_key [OF e(2)] mapping_matches_key [OF f(2)] ij(3) by simp
    then have "e = f" using assms(2) e(1) f(1) by (meson distinct_map inj_onD)
    then have "(rm_service (configured ! i), rm_target (configured ! i), rm_protocol (configured ! i)) =
        (rm_service (configured ! j), rm_target (configured ! j), rm_protocol (configured ! j))"
      using e(3) f(3) proto by (auto simp: mapping_entry_matches_def)
    then show "i = j" using assms(3) ij(1,2) len by (simp add: distinct_conv_nth) metis
  qed
  then show ?thesis unfolding distinct_conv_nth by auto
qed

lemma resolved_mappings_are_honoured:
  fixes model json_text primary selected
  defines "input \<equiv> compose_published_port_planning_input model
      (classify_compose_published_ports json_text model) primary selected"
  assumes "bt_ok (cm_services model)"
    and "resolve_compose_published_port_mappings full_model input configured = Inr mappings"
    and "distinct (map (\<lambda>m. (rm_service m, rm_target m, rm_protocol m)) configured)"
    and "plan_compose_published_ports_with_existing_project probe input enabled forward_ports mappings existing
      preserve external w = (Inr plan, w')"
    and "m \<in> set configured" "active_set_contains (pin_services input) (rm_service m)"
  shows "\<exists>e\<in>set (plan_entries plan). pl_service e = rm_service m \<and> pl_target_port e = rm_target m \<and>
    pe_host_port (pl_planned e) = rm_host m \<and>
    pe_host_ip (pl_planned e) = (case rm_host_ip m of Some ip \<Rightarrow> Explicit ip | None \<Rightarrow> pe_host_ip (pl_requested e))"
proof -
  let ?ordered = "ordered_eligible_port_entries input"
  let ?active = "filter (\<lambda>m. active_set_contains (pin_services input) (rm_service m)) configured"
  have keys: "distinct (map entry_key ?ordered)"
    using planning_input_keys_distinct [OF assms(2)] unfolding input_def .
  note resolved = resolve_mappings_ok [OF assms(3)]
  have mkeys: "distinct (map mapping_key mappings)"
    by (rule resolved_keys_distinct [OF resolved keys]) (rule distinct_map_filter [OF assms(4)])
  have "m \<in> set ?active" using assms(6,7) by simp
  then obtain k where k: "k < length ?active" "?active ! k = m" by (metis in_set_conv_nth)
  let ?r = "mappings ! k"
  have r: "?r \<in> set mappings" "resolves_to input m ?r"
    using k list_all2_lengthD [OF resolved] list_all2_nthD [OF resolved k(1)] by (metis nth_mem, metis)
  then obtain entry requested where e: "filter (mapping_entry_matches m) (pin_port_entries input) = [entry]"
     "ce_eligibility entry = Eligible_Fixed_Tcp" "endpoint_for_entry entry = Inr requested"
     "mapping_matches_entry ?r entry"
     "cp_endpoint ?r = \<lparr>pe_host_ip = (case rm_host_ip m of Some ip \<Rightarrow> Explicit ip | None \<Rightarrow> pe_host_ip requested),
       pe_host_port = rm_host m\<rparr>" unfolding resolves_to_def by blast
  have "entry \<in> set (filter (mapping_entry_matches m) (pin_port_entries input))" using e(1) by simp
  then have m: "mapping_entry_matches m entry" "entry \<in> set ?ordered"
    using e(2) unfolding set_ordered_entries by auto
  have "list_all2 (planned_for enabled mappings) ?ordered (plan_entries plan)"
    using assms(5) unfolding plan_compose_published_ports_with_existing_project_def
    by (rule planner_result) (use r(1) keys mkeys in auto)
  then obtain p where p: "p \<in> set (plan_entries plan)" "planned_for enabled mappings entry p"
    using m(2) unfolding list_all2_conv_all_nth in_set_conv_nth by metis
  then obtain n where n: "n \<in> set mappings" "mapping_matches_entry n entry" "pl_planned p = cp_endpoint n"
    using r(1) e(4) unfolding planned_for_def unmapped_def by blast
  have "mapping_key n = mapping_key ?r" using mapping_matches_key [OF n(2)] mapping_matches_key [OF e(4)] by simp
  then have "n = ?r" using mkeys n(1) r(1) by (meson distinct_map inj_onD)
  moreover have "plans entry p" using p(2) by (auto simp: planned_for_def plans_unmapped_def)
  ultimately show ?thesis
    using p(1) n(3) e(3,5) m(1)
    by (intro bexI [of _ p]) (auto simp: plans_def mapping_entry_matches_def target_port_for_entry_def result_elims)
qed

definition example_configured :: resolved_compose_mapping where
  "example_configured = \<lparr>rm_service = ''web'', rm_target = 80, rm_protocol = Tcp, rm_host = 9000, rm_host_ip = None\<rparr>"

definition example_mapping :: compose_published_port_mapping where
  "example_mapping = \<lparr>cp_service = ''web'', cp_port_entry_index = 0, cp_target_port = 80, cp_protocol = Proto_Tcp,
     cp_endpoint = example_endpoint 9000\<rparr>"

lemma example_active: "active_set_contains (pin_services example_planning_input) ''web''"
  by (simp add: example_planning_input_def compose_published_port_planning_input_def Let_def active_set_contains_def
      new_active_service_set_def example_published_model_def example_model_def bt_keys_def)

lemma example_entries:
  "pin_port_entries example_planning_input =
     [example_entry ''web'' 80 8080\<lparr>ce_original_fields := bt_collect example_port_fields\<rparr>]"
  using example_active
  unfolding example_planning_input_def compose_published_port_planning_input_def example_classified Let_def
  by (simp add: example_entry_def)

lemmas example_entry_reads = example_entry_def endpoint_for_entry_def target_port_for_entry_def requested_host_port_def

lemma example_resolved:
  "resolve_compose_published_port_mappings example_published_model example_planning_input [example_configured] =
     Inr [example_mapping]"
proof -
  have "has_service example_published_model ''web''"
    by (simp add: has_service_iff model_service_def bt_get_def example_published_model_def example_model_def)
  then show ?thesis
    using example_active
    by (simp add: resolve_compose_published_port_mappings_def resolve_compose_published_port_mapping_def example_entries
        mapping_entry_matches_def example_configured_def example_entry_reads example_mapping_def example_endpoint_def)
qed

lemma example_mapped_plan:
  "\<exists>plan. plan_compose_published_ports_with_existing_project example_prober example_planning_input True []
     [example_mapping] [] True [] () = (Inr plan, ())"
proof -
  have e: "endpoint_for_entry (example_entry ''web'' 80 8080\<lparr>ce_original_fields := m\<rparr>) = Inr (example_endpoint 8080)"
    "target_port_for_entry (example_entry ''web'' 80 8080\<lparr>ce_original_fields := m\<rparr>) = Inr 80"
    "mapping_matches_entry example_mapping (example_entry ''web'' 80 8080\<lparr>ce_original_fields := m\<rparr>)" for m
    by (simp_all add: example_entry_reads example_endpoint_def mapping_matches_entry_def example_mapping_def)
  have p: "cp_endpoint example_mapping = example_endpoint 9000" by (simp add: example_mapping_def)
  show ?thesis
    by (simp add: plan_compose_published_ports_with_existing_project_def plan_compose_published_ports_inner_def
        new_existing_project_bindings_def running_project_reservations_def running_project_reservations_with_filter_def
        running_project_reservations_excluding_entry_def resolved_forward_port_reservations_def Let_def
        plan_explicit_mappings_def plan_unmapped_entries_def example_ordered plan_explicit_mapping_def plan_unmapped_entry_def
        e p host_port_reservations_conflict_def io_defs decision_for_mapping_def probe_compose_published_host_port_def
        example_prober_def example_endpoint_def)
qed

text \<open>Planning the classified entries with resolved mappings never fails with an internal
  inconsistency.\<close>

theorem planner_never_contradicts_classification:
  fixes model json_text primary selected
  defines "input \<equiv> compose_published_port_planning_input model
      (classify_compose_published_ports json_text model) primary selected"
  assumes "resolve_compose_published_port_mappings full_model input configured = Inr mappings"
    and "plan_compose_published_ports_with_existing_project probe input enabled forward_ports mappings existing
      preserve external w = (Inl error, w')"
  shows "error \<noteq> Inconsistent_Entry service entry_index detail"
proof -
  have "\<forall>mapping\<in>set mappings. \<exists>entry\<in>set (ordered_eligible_port_entries input). mapping_matches_entry mapping entry"
  proof
    fix r assume "r \<in> set mappings"
    then obtain k where "k < length mappings" "mappings ! k = r" by (metis in_set_conv_nth)
    with list_all2_nthD2 [OF resolve_mappings_ok [OF assms(2)] this(1)] resolves_to_entry
    show "\<exists>entry\<in>set (ordered_eligible_port_entries input). mapping_matches_entry r entry" by metis
  qed
  then have "\<not> inconsistent error"
    using planner_never_inconsistent [OF assms(3) [unfolded input_def]] unfolding input_def by blast
  then show ?thesis by auto
qed

theorem planner_never_contradicts_classification_witness:
  "Host_Port_Availability ''0.0.0.0'' 8080 ''denied'' \<noteq> Inconsistent_Entry ''web'' 0 []"
proof -
  have e: "endpoint_for_entry (example_entry ''web'' 80 8080\<lparr>ce_original_fields := m\<rparr>) = Inr (example_endpoint 8080)"
    "target_port_for_entry (example_entry ''web'' 80 8080\<lparr>ce_original_fields := m\<rparr>) = Inr 80" for m
    by (simp_all add: example_entry_def endpoint_for_entry_def target_port_for_entry_def requested_host_port_def
        example_endpoint_def)
  have r: "reservation_host_ip (example_endpoint p) = ''0.0.0.0''" "pe_host_port (example_endpoint p) = p" for p
    by (simp_all add: reservation_host_ip_def example_endpoint_def omitted_host_ip_reservation_def)
  have "plan_compose_published_ports_with_existing_project (\<lambda>_ _ w. (Inl ''denied'', w)) example_planning_input
     True [] [] [] True [] () = (Inl (Host_Port_Availability ''0.0.0.0'' 8080 ''denied''), ())"
    by (simp add: plan_compose_published_ports_with_existing_project_def plan_compose_published_ports_inner_def
        new_existing_project_bindings_def running_project_reservations_def running_project_reservations_with_filter_def
        resolved_forward_port_reservations_def Let_def plan_explicit_mappings_def plan_unmapped_entries_def
        example_ordered plan_unmapped_entry_def e r host_port_reservations_conflict_def io_defs
        decision_for_requested_or_relocated_endpoint_def probe_compose_published_host_port_def)
  from planner_never_contradicts_classification [OF _ this [unfolded example_planning_input_def]] show ?thesis
    by (simp add: resolve_compose_published_port_mappings_def)
qed

end
