(* ===== verification/Compose_Ports_Startup.thy ===== *)
theory Compose_Ports_Startup
  imports Compose_Ports_Override
begin

text \<open>
  \<open>src/runtime/compose_ports/startup_failure.rs\<close>: which port entry is to blame when Docker Compose fails to
  start the project, found by looking for endpoints in the text of the error.
\<close>

section \<open>Endpoints in the error text\<close>

definition contains_endpoint_token :: "string \<Rightarrow> string \<Rightarrow> bool" where
  "contains_endpoint_token haystack needle =
     list_ex (\<lambda>(before, after). after = [] \<or> \<not> is_ascii_digit (hd after)) (match_splits needle [] haystack)"

definition mentions_bind_conflict :: "string \<Rightarrow> bool" where
  "mentions_bind_conflict stderr =
     (let lower = to_ascii_lowercase stderr
      in str_contains ''bind'' lower \<and>
         (str_contains ''address already in use'' lower \<or>
          str_contains ''port is already allocated'' lower \<or>
          str_contains ''port is already in use'' lower \<or>
          str_contains ''ports are not available'' lower \<or>
          str_contains ''port is unavailable'' lower))"

definition mentions_endpoint :: "string \<Rightarrow> compose_published_port_endpoint \<Rightarrow> bool" where
  "mentions_endpoint stderr endpoint =
     (let lower = to_ascii_lowercase stderr;
          port_token = fmt ['':'', show_nat (unat (pe_host_port endpoint))]
      in if \<not> contains_endpoint_token lower port_token then False
         else case pe_host_ip endpoint of
                Omitted \<Rightarrow> True
              | Explicit ip \<Rightarrow>
                  let host_ip = to_ascii_lowercase ip
                  in contains_endpoint_token lower
                       (fmt [host_ip, '':'', show_nat (unat (pe_host_port endpoint))]) \<or>
                     contains_endpoint_token lower
                       (fmt [''['', host_ip, '']:'', show_nat (unat (pe_host_port endpoint))]))"

datatype protocol_hint = Hint_Tcp | Hint_Udp

definition startup_error_protocol_hint :: "string \<Rightarrow> protocol_hint option" where
  "startup_error_protocol_hint stderr =
     (let lower = to_ascii_lowercase stderr;
          mentions_tcp = str_contains ''listen tcp'' lower;
          mentions_udp = str_contains ''listen udp'' lower
      in if mentions_tcp \<and> \<not> mentions_udp then Some Hint_Tcp
         else if \<not> mentions_tcp \<and> mentions_udp then Some Hint_Udp
         else None)"

fun protocol_matches_hint :: "compose_port_protocol \<Rightarrow> protocol_hint \<Rightarrow> bool" where
  "protocol_matches_hint Proto_Tcp Hint_Tcp = True"
| "protocol_matches_hint Proto_Udp Hint_Udp = True"
| "protocol_matches_hint _ _ = False"

definition mentions_endpoint_for_protocol ::
  "string \<Rightarrow> compose_published_port_endpoint \<Rightarrow> compose_port_protocol \<Rightarrow> bool" where
  "mentions_endpoint_for_protocol stderr endpoint protocol =
     (if \<not> mentions_endpoint stderr endpoint then False
      else case startup_error_protocol_hint stderr of
             None \<Rightarrow> True
           | Some hint \<Rightarrow> protocol_matches_hint protocol hint)"

section \<open>Entries that are not planned\<close>

definition parse_published_host_port_range :: "string \<Rightarrow> (u16 \<times> u16) option" where
  "parse_published_host_port_range port_range =
     Option.bind (split_once ''-'' port_range) (\<lambda>(first, last').
     Option.bind (parse_u16 first) (\<lambda>start.
     Option.bind (parse_u16 last') (\<lambda>end'.
       if start = 0 \<or> end' = 0 \<or> end' < start then None else Some (start, end'))))"

definition range_endpoint_display :: "compose_published_port_host_ip \<Rightarrow> string \<Rightarrow> string" where
  "range_endpoint_display host_ip port_range =
     (case host_ip of
        Omitted \<Rightarrow> fmt [''<host_ip omitted>:'', port_range]
      | Explicit value \<Rightarrow> fmt [value, '':'', port_range])"

definition endpoint_host_ip_for_entry :: "compose_port_entry \<Rightarrow> compose_published_port_host_ip option" where
  "endpoint_host_ip_for_entry entry =
     (case ce_host_ip entry of
        Omitted_Ip \<Rightarrow> Some Omitted
      | Explicit_Ip value \<Rightarrow> Some (Explicit value)
      | Invalid_Ip _ \<Rightarrow> None)"

definition ports_of_range :: "u16 \<Rightarrow> u16 \<Rightarrow> u16 list" where
  "ports_of_range start end' = map of_nat [unat start..<Suc (unat end')]"

definition unsupported_requested_display :: "string \<Rightarrow> compose_port_entry \<Rightarrow> string option" where
  "unsupported_requested_display stderr entry =
     Option.bind (endpoint_host_ip_for_entry entry) (\<lambda>host_ip.
       case ce_published_host_port entry of
         Single_Port host_port \<Rightarrow>
           let endpoint = \<lparr>pe_host_ip = host_ip, pe_host_port = host_port\<rparr>
           in if mentions_endpoint_for_protocol stderr endpoint (ce_protocol entry)
              then Some (compose_published_port_endpoint_display endpoint) else None
       | Port_Range port_range \<Rightarrow>
           Option.bind (parse_published_host_port_range port_range) (\<lambda>(start, end').
             if list_ex (\<lambda>host_port. mentions_endpoint_for_protocol stderr
                   \<lparr>pe_host_ip = host_ip, pe_host_port = host_port\<rparr> (ce_protocol entry))
                 (ports_of_range start end')
             then Some (range_endpoint_display host_ip port_range) else None)
       | _ \<Rightarrow> None)"

definition index_of :: "'a \<Rightarrow> 'a list \<Rightarrow> nat option" where
  "index_of x xs = map_option fst (List.find (\<lambda>(_, y). y = x) (enumerate 0 xs))"

definition ordered_unsupported_entries :: "compose_planning_input \<Rightarrow> compose_port_entry list" where
  "ordered_unsupported_entries input =
     (let service_order = ordered_services_for_planning (pin_services input)
      in sort_key (\<lambda>entry.
           (case index_of (ce_service entry) service_order of Some index \<Rightarrow> index | None \<Rightarrow> usize_max,
            ce_service entry, ce_entry_index entry, protocol_order (ce_protocol entry)))
         (filter (\<lambda>entry. ce_eligibility entry \<noteq> Eligible_Fixed_Tcp \<and>
              ce_eligibility entry \<noteq> Unsupported_Container_Only \<and>
              ce_eligibility entry \<noteq> Unsupported_Invalid \<and> ce_target_port entry \<noteq> None)
           (pin_port_entries input)))"

definition unsupported_entry_diagnostic ::
  "string \<Rightarrow> compose_port_entry \<Rightarrow> compose_published_port_diagnostic option" where
  "unsupported_entry_diagnostic stderr entry =
     Option.bind (ce_target_port entry) (\<lambda>target_port.
     Option.bind (unsupported_requested_display stderr entry) (\<lambda>requested.
       Some (Unsupported_Entry (ce_service entry) (ce_entry_index entry) requested target_port (ce_protocol entry)
         (case ce_unsupported_reason entry of Some reason \<Rightarrow> reason
          | None \<Rightarrow> ''Compose published port entry is not relocation-eligible''))))"

fun find_map :: "('a \<Rightarrow> 'b option) \<Rightarrow> 'a list \<Rightarrow> 'b option" where
  "find_map f [] = None"
| "find_map f (x # xs) = (case f x of Some y \<Rightarrow> Some y | None \<Rightarrow> find_map f xs)"

definition classify_unsupported_startup_failure ::
  "string \<Rightarrow> compose_planning_input \<Rightarrow> compose_published_port_diagnostic option" where
  "classify_unsupported_startup_failure stderr input =
     find_map (unsupported_entry_diagnostic stderr) (ordered_unsupported_entries input)"

section \<open>The diagnosis\<close>

definition planned_endpoint_startup_failure ::
  "compose_published_port_plan_entry \<Rightarrow> compose_published_port_diagnostic" where
  "planned_endpoint_startup_failure entry =
     (if pl_allocation_reason entry = Reason_Mapping then
        Mapping_In_Conflict
          (fmt [''Compose published port mapping for service `'', pl_service entry, ''`, target '',
                show_nat (unat (pl_target_port entry)), ''/'', compose_port_protocol_name (pl_protocol entry),
                '' could not bind desired endpoint '', compose_published_port_endpoint_display (pl_planned entry),
                '' during Docker Compose startup. Explicit mappings do not fall back to automatic relocation''])
      else if pl_planned_endpoint_probe entry = Planned_Unprobeable then
        Collision (pl_service entry) (pl_planned entry) (pl_target_port entry) (pl_protocol entry)
      else
        Bind_Race (pl_service entry) (pl_requested entry) (pl_planned entry) (pl_target_port entry) (pl_protocol entry))"

record startup_diagnostics =
  sd_input :: compose_planning_input
  sd_plan :: compose_published_port_plan
  sd_planning_active :: bool

fun first_requested_collision ::
  "string \<Rightarrow> compose_port_entry list \<Rightarrow> compose_published_port_diagnostic + compose_published_port_diagnostic option" where
  "first_requested_collision stderr [] = Inr None"
| "first_requested_collision stderr (entry # entries) =
     bind_res (map_err from_plan_error (endpoint_for_entry entry)) (\<lambda>requested.
       if \<not> mentions_endpoint_for_protocol stderr requested (ce_protocol entry)
       then first_requested_collision stderr entries
       else bind_res (map_err from_plan_error (target_port_for_entry entry)) (\<lambda>target_port.
         Inr (Some (Collision (ce_service entry) requested target_port (ce_protocol entry)))))"

definition classify_startup_failure ::
  "string \<Rightarrow> startup_diagnostics \<Rightarrow>
   compose_published_port_diagnostic + compose_published_port_diagnostic option" where
  "classify_startup_failure stderr diagnostics =
     (if \<not> mentions_bind_conflict stderr then Inr None
      else if sd_planning_active diagnostics then
        case List.find (\<lambda>entry. mentions_endpoint_for_protocol stderr (pl_planned entry) (pl_protocol entry))
               (plan_entries (sd_plan diagnostics)) of
          Some entry \<Rightarrow> Inr (Some (planned_endpoint_startup_failure entry))
        | None \<Rightarrow> Inr (classify_unsupported_startup_failure stderr (sd_input diagnostics))
      else
        bind_res (first_requested_collision stderr (ordered_eligible_port_entries (sd_input diagnostics))) (\<lambda>found.
          case found of
            Some diagnostic \<Rightarrow> Inr (Some diagnostic)
          | None \<Rightarrow> Inr (classify_unsupported_startup_failure stderr (sd_input diagnostics))))"

section \<open>What is blamed\<close>

lemma port_token_iff:
  "contains_endpoint_token s ('':'' @ show_nat n) \<longleftrightarrow>
     (\<exists>before after. s = before @ '':'' @ show_nat n @ after \<and> (after = [] \<or> \<not> is_ascii_digit (hd after)))"
  (is "?l \<longleftrightarrow> ?r")
proof
  assume ?l
  then obtain x y where "(x, y) \<in> set (match_splits ('':'' @ show_nat n) [] s)" "y = [] \<or> \<not> is_ascii_digit (hd y)"
    by (auto simp: contains_endpoint_token_def list_ex_iff)
  then show ?r using match_splits_sound by fastforce
next
  assume ?r
  then obtain x y where s: "s = x @ ('':'' @ show_nat n) @ y" "y = [] \<or> \<not> is_ascii_digit (hd y)" by auto
  have "CHR '':'' \<notin> set (show_nat n)" by (rule non_digit_not_in_show) (simp add: is_ascii_digit_def)
  then have "([] @ x, y) \<in> set (match_splits ('':'' @ show_nat n) [] s)"
    by (intro match_splits_of_head [OF _ _ s(1)]) simp_all
  then show ?l using s(2) by (force simp: contains_endpoint_token_def list_ex_iff)
qed

definition names_port :: "string \<Rightarrow> u16 \<Rightarrow> bool" where
  "names_port stderr port \<longleftrightarrow> (\<exists>before after. to_ascii_lowercase stderr = before @ '':'' @ show_nat (unat port) @ after \<and>
     (after = [] \<or> \<not> is_ascii_digit (hd after)))"

lemma mentions_endpoint_names_port: "mentions_endpoint stderr endpoint \<Longrightarrow> names_port stderr (pe_host_port endpoint)"
  by (auto simp: mentions_endpoint_def Let_def fmt_def names_port_def port_token_iff [simplified] split: if_splits)

definition blamed_protocol_ok :: "string \<Rightarrow> compose_port_protocol \<Rightarrow> bool" where
  "blamed_protocol_ok stderr protocol \<longleftrightarrow>
     (\<forall>hint. startup_error_protocol_hint stderr = Some hint \<longrightarrow> protocol_matches_hint protocol hint)"

lemma mentions_for_protocolD:
  "mentions_endpoint_for_protocol stderr endpoint protocol \<Longrightarrow>
   names_port stderr (pe_host_port endpoint) \<and> blamed_protocol_ok stderr protocol"
  by (auto simp: mentions_endpoint_for_protocol_def blamed_protocol_ok_def mentions_endpoint_names_port
      split: if_splits option.splits)

lemma find_map_SomeD: "find_map f xs = Some y \<Longrightarrow> \<exists>x\<in>set xs. f x = Some y"
  by (induction xs) (auto split: option.splits)

lemma first_requested_collisionD:
  "first_requested_collision stderr entries = Inr (Some diagnostic) \<Longrightarrow>
   \<exists>entry\<in>set entries. \<exists>requested target_port. endpoint_for_entry entry = Inr requested \<and>
     diagnostic = Collision (ce_service entry) requested target_port (ce_protocol entry) \<and>
     target_port_for_entry entry = Inr target_port \<and>
     mentions_endpoint_for_protocol stderr requested (ce_protocol entry)"
  by (induction entries) (auto simp: result_elims split: if_splits)

lemma first_requested_collision_None:
  "first_requested_collision stderr entries = Inr None \<Longrightarrow> entry \<in> set entries \<Longrightarrow>
   \<exists>requested. endpoint_for_entry entry = Inr requested \<and>
     \<not> mentions_endpoint_for_protocol stderr requested (ce_protocol entry)"
  by (induction entries) (auto simp: result_elims split: if_splits)

definition published_names_port :: "string \<Rightarrow> compose_published_host_port \<Rightarrow> bool" where
  "published_names_port stderr published \<longleftrightarrow>
     (\<exists>p. published = Single_Port p \<and> names_port stderr p) \<or>
     (\<exists>r start end' p. published = Port_Range r \<and> parse_published_host_port_range r = Some (start, end') \<and>
        start \<le> p \<and> p \<le> end' \<and> names_port stderr p)"

lemma set_ports_of_range: "set (ports_of_range start end') = {p. start \<le> p \<and> p \<le> end'}"
proof (intro set_eqI iffI)
  fix p :: u16 assume "p \<in> set (ports_of_range start end')"
  then obtain n where n: "p = of_nat n" "unat start \<le> n" "n \<le> unat end'"
    by (auto simp: ports_of_range_def)
  then have "unat p = n" using unat_u16_bound [of end'] by simp
  then show "p \<in> {p. start \<le> p \<and> p \<le> end'}" using n by (simp add: word_le_nat_alt)
next
  fix p :: u16 assume "p \<in> {p. start \<le> p \<and> p \<le> end'}"
  then have "unat p \<in> set [unat start..<Suc (unat end')]" by (simp add: word_le_nat_alt le_imp_less_Suc del: upt_Suc)
  moreover have "p = of_nat (unat p)" by simp
  ultimately show "p \<in> set (ports_of_range start end')" unfolding ports_of_range_def by (metis image_eqI list.set_map)
qed

lemma unsupported_displayD:
  assumes "unsupported_requested_display stderr entry = Some display"
  shows "published_names_port stderr (ce_published_host_port entry) \<and> blamed_protocol_ok stderr (ce_protocol entry)"
proof -
  obtain ip where ip: "endpoint_host_ip_for_entry entry = Some ip"
    using assms by (auto simp: unsupported_requested_display_def split: Option.bind_splits)
  show ?thesis
  proof (cases "ce_published_host_port entry")
    case (Single_Port p)
    then have "mentions_endpoint_for_protocol stderr \<lparr>pe_host_ip = ip, pe_host_port = p\<rparr> (ce_protocol entry)"
      using assms ip by (auto simp: unsupported_requested_display_def Let_def split: if_splits)
    from mentions_for_protocolD [OF this] show ?thesis by (auto simp: published_names_port_def Single_Port)
  next
    case (Port_Range r)
    then obtain start end' where range: "parse_published_host_port_range r = Some (start, end')"
      and "list_ex (\<lambda>host_port. mentions_endpoint_for_protocol stderr
                   \<lparr>pe_host_ip = ip, pe_host_port = host_port\<rparr> (ce_protocol entry)) (ports_of_range start end')"
      using assms ip by (auto simp: unsupported_requested_display_def split: Option.bind_splits if_splits)
    then obtain p where "start \<le> p" "p \<le> end'"
      "mentions_endpoint_for_protocol stderr \<lparr>pe_host_ip = ip, pe_host_port = p\<rparr> (ce_protocol entry)"
      unfolding list_ex_iff set_ports_of_range by blast
    with range mentions_for_protocolD [OF this(3)] show ?thesis
      by (auto simp: published_names_port_def Port_Range)
  qed (use assms ip in \<open>simp_all add: unsupported_requested_display_def\<close>)
qed

lemma unsupported_failureD:
  assumes "classify_unsupported_startup_failure stderr input = Some diagnostic"
  shows "\<exists>entry\<in>set (pin_port_entries input). ce_eligibility entry \<noteq> Eligible_Fixed_Tcp \<and>
    (\<exists>display target_port reason. diagnostic = Unsupported_Entry (ce_service entry) (ce_entry_index entry) display
       target_port (ce_protocol entry) reason) \<and>
    published_names_port stderr (ce_published_host_port entry) \<and> blamed_protocol_ok stderr (ce_protocol entry)"
proof -
  obtain entry where entry: "entry \<in> set (ordered_unsupported_entries input)"
      "unsupported_entry_diagnostic stderr entry = Some diagnostic"
    using find_map_SomeD assms unfolding classify_unsupported_startup_failure_def by metis
  then have "entry \<in> set (pin_port_entries input)" "ce_eligibility entry \<noteq> Eligible_Fixed_Tcp"
    by (simp_all add: ordered_unsupported_entries_def Let_def)
  moreover obtain target_port display where "unsupported_requested_display stderr entry = Some display"
      "diagnostic = Unsupported_Entry (ce_service entry) (ce_entry_index entry) display target_port (ce_protocol entry)
         (case ce_unsupported_reason entry of Some reason \<Rightarrow> reason
          | None \<Rightarrow> ''Compose published port entry is not relocation-eligible'')"
    using entry(2) by (auto simp: unsupported_entry_diagnostic_def split: Option.bind_splits)
  ultimately show ?thesis using unsupported_displayD by blast
qed

text \<open>A port is blamed for a failed startup only if the error text mentions a bind conflict
  and that port as a whole number after a colon, and no other protocol.\<close>

theorem startup_diagnosis_names_the_port:
  assumes "classify_startup_failure stderr diagnostics = Inr (Some diagnostic)"
  shows "mentions_bind_conflict stderr \<and>
    ((sd_planning_active diagnostics \<and>
        (\<exists>e\<in>set (plan_entries (sd_plan diagnostics)). diagnostic = planned_endpoint_startup_failure e \<and>
           names_port stderr (pe_host_port (pl_planned e)) \<and> blamed_protocol_ok stderr (pl_protocol e))) \<or>
     (\<not> sd_planning_active diagnostics \<and>
        (\<exists>entry\<in>set (ordered_eligible_port_entries (sd_input diagnostics)). \<exists>requested target_port.
           endpoint_for_entry entry = Inr requested \<and>
           diagnostic = Collision (ce_service entry) requested target_port (ce_protocol entry) \<and>
           names_port stderr (pe_host_port requested) \<and> blamed_protocol_ok stderr (ce_protocol entry))) \<or>
     (\<exists>entry\<in>set (pin_port_entries (sd_input diagnostics)). ce_eligibility entry \<noteq> Eligible_Fixed_Tcp \<and>
        (\<exists>display target_port reason. diagnostic = Unsupported_Entry (ce_service entry) (ce_entry_index entry)
           display target_port (ce_protocol entry) reason) \<and>
        published_names_port stderr (ce_published_host_port entry) \<and> blamed_protocol_ok stderr (ce_protocol entry)))"
proof -
  have bind: "mentions_bind_conflict stderr"
    using assms by (simp add: classify_startup_failure_def split: if_splits)
  show ?thesis
  proof (cases "sd_planning_active diagnostics")
    case True
    show ?thesis
    proof (cases "List.find (\<lambda>entry. mentions_endpoint_for_protocol stderr (pl_planned entry) (pl_protocol entry))
               (plan_entries (sd_plan diagnostics))")
      case None
      then have "classify_unsupported_startup_failure stderr (sd_input diagnostics) = Some diagnostic"
        using assms True bind by (simp add: classify_startup_failure_def)
      from unsupported_failureD [OF this] bind show ?thesis by blast
    next
      case (Some e)
      then have "diagnostic = planned_endpoint_startup_failure e"
        using assms True bind by (simp add: classify_startup_failure_def)
      then show ?thesis using find_Some_iff2 [OF Some] mentions_for_protocolD True bind by blast
    qed
  next
    case False
    then obtain found where found: "first_requested_collision stderr (ordered_eligible_port_entries (sd_input diagnostics)) = Inr found"
      and d: "(case found of Some diagnostic \<Rightarrow> Inr (Some diagnostic)
          | None \<Rightarrow> Inr (classify_unsupported_startup_failure stderr (sd_input diagnostics))) =
          (Inr (Some diagnostic) :: compose_published_port_diagnostic + compose_published_port_diagnostic option)"
      using assms bind unfolding classify_startup_failure_def by (auto simp: result_elims)
    show ?thesis
    proof (cases found)
      case None
      then show ?thesis using d unsupported_failureD [of stderr "sd_input diagnostics" diagnostic] bind by auto
    next
      case (Some x)
      then have "first_requested_collision stderr (ordered_eligible_port_entries (sd_input diagnostics)) = Inr (Some diagnostic)"
        using found d by simp
      from first_requested_collisionD [OF this] mentions_for_protocolD False bind show ?thesis by blast
    qed
  qed
qed

definition example_startup :: startup_diagnostics where
  "example_startup = \<lparr>sd_input = example_planning_input, sd_plan = example_plan, sd_planning_active = True\<rparr>"

lemma example_startup_failure:
  "classify_startup_failure ''bind :8081 port is unavailable'' example_startup =
     Inr (Some (Bind_Race ''web'' (example_endpoint 8080) (example_endpoint 8081) 80 Proto_Tcp))"
proof -
  have lower: "to_ascii_lowercase ''bind :8081 port is unavailable'' = ''bind :8081 port is unavailable''"
    by (simp add: to_ascii_lowercase_def)
  have "''bind :8081 port is unavailable'' = [] @ ''bind'' @ '' :8081 port is unavailable''"
    "''bind :8081 port is unavailable'' = ''bind :8081 '' @ ''port is unavailable'' @ []" by simp_all
  then have bind: "mentions_bind_conflict ''bind :8081 port is unavailable''"
    unfolding mentions_bind_conflict_def lower Let_def str_contains_iff by blast
  have hint: "startup_error_protocol_hint ''bind :8081 port is unavailable'' = None"
    unfolding startup_error_protocol_hint_def lower by (simp add: str_contains_def)
  have "show_nat (unat (8081 :: u16)) = ''8081''" by (simp add: str_eval)
  then have "names_port ''bind :8081 port is unavailable'' 8081"
    unfolding names_port_def lower by (intro exI [of _ "''bind ''"] exI [of _ "'' port is unavailable''"]) (simp add: is_ascii_digit_def)
  then have "mentions_endpoint ''bind :8081 port is unavailable'' (example_endpoint 8081)"
    unfolding mentions_endpoint_def names_port_def Let_def fmt_def
    by (simp add: example_endpoint_def port_token_iff [simplified] lower)
  with bind hint show ?thesis
    by (simp add: classify_startup_failure_def example_startup_def example_plan_def mentions_endpoint_for_protocol_def
        planned_endpoint_startup_failure_def)
qed

theorem startup_diagnosis_names_the_port_witness:
  "names_port ''bind :8081 port is unavailable'' 8081"
  using startup_diagnosis_names_the_port [OF example_startup_failure]
  by (auto simp: example_startup_def example_plan_def planned_endpoint_startup_failure_def example_endpoint_def)

end
