(* ===== verification/Config_Variables.thy ===== *)
theory Config_Variables
  imports Compose_Model
begin

text \<open>
  \<open>src/config/variables.rs\<close>: the expansion of \<open>${...}\<close> expressions in configuration strings, and the
  tracking of the values that came from the local environment and have to be redacted in output. The
  local environment is the parameter \<open>local_env\<close>; a context that is added to an error is put before it.
\<close>

section \<open>State\<close>

record sensitive_env_value =
  sev_value :: string
  sev_redactions :: "string list"

type_synonym sensitive_env_map = "(string, sensitive_env_value) btree_map"

definition redaction_values :: "sensitive_env_map \<Rightarrow> string list" where
  "redaction_values sensitive = concat (map (\<lambda>(_, sev). sev_redactions sev) sensitive)"

record expanded_env_map =
  ee_values :: "(string, string) btree_map"
  ee_sensitive :: sensitive_env_map

record expanded_string =
  es_value :: string
  es_redactions :: "string list"

record variable_context =
  vc_local_workspace_folder :: string
  vc_local_workspace_folder_basename :: string
  vc_container_workspace_folder :: string
  vc_container_workspace_folder_basename :: string
  vc_devcontainer_id :: string
  vc_uid :: u32
  vc_gid :: u32
  vc_remote_user :: string
  vc_remote_user_home :: "string option"
  vc_container_env :: "(string, string) btree_map"
  vc_sensitive_container_env :: sensitive_env_map

definition with_container_env ::
  "variable_context \<Rightarrow> (string, string) btree_map \<Rightarrow> sensitive_env_map \<Rightarrow> variable_context" where
  "with_container_env context' container_env sensitive =
     context'\<lparr>vc_container_env := container_env, vc_sensitive_container_env := sensitive\<rparr>"

type_synonym local_env = "string \<Rightarrow> string option result"

section \<open>Expressions\<close>

text \<open>The text before the first expression, the expression and the text after it.\<close>

definition split_variable_expression :: "string \<Rightarrow> string \<Rightarrow> (string \<times> string \<times> string) result" where
  "split_variable_expression input rest =
     (let unclosed = fmt [''Unclosed variable expression in config string: '', input]
      in case split_once ''${'' rest of
           None \<Rightarrow> Inl unclosed
         | Some (before, after_start) \<Rightarrow>
             (case split_once ''}'' after_start of
                None \<Rightarrow> Inl unclosed
              | Some (expression, next_rest) \<Rightarrow> Inr (before, expression, next_rest)))"

lemma split_variable_expression_shorter:
  "split_variable_expression input rest = Inr (before, expression, next_rest) \<Longrightarrow> length next_rest < length rest"
  by (auto simp: split_variable_expression_def Let_def dest!: split_once_SomeD split: option.splits)

definition split_env_expression :: "string \<Rightarrow> string \<Rightarrow> (string \<times> string option) result" where
  "split_env_expression expression variable =
     (let (name, fallback) = (case split_once '':'' expression of
            None \<Rightarrow> (expression, None)
          | Some (name, fallback) \<Rightarrow> (name, Some fallback))
      in if name = [] then Inl (fmt [variable, '' variable name must not be empty'']) else Inr (name, fallback))"

definition resolve_local_env :: "local_env \<Rightarrow> string \<Rightarrow> string result" where
  "resolve_local_env local_env expression =
     bind_res (split_env_expression expression ''localEnv'') (\<lambda>(name, fallback).
     bind_res (local_env name) (\<lambda>found.
       case found of
         Some s \<Rightarrow> Inr s
       | None \<Rightarrow> ok_or fallback (fmt [''Local environment variable is not set: '', name])))"

definition resolve_local_env_tracked :: "local_env \<Rightarrow> string \<Rightarrow> expanded_string result" where
  "resolve_local_env_tracked local_env expression =
     bind_res (split_env_expression expression ''localEnv'') (\<lambda>(name, fallback).
     bind_res (local_env name) (\<lambda>found.
       case found of
         Some s \<Rightarrow> Inr \<lparr>es_value = s, es_redactions = [s]\<rparr>
       | None \<Rightarrow>
           bind_res (ok_or fallback (fmt [''Local environment variable is not set: '', name])) (\<lambda>s.
             Inr \<lparr>es_value = s, es_redactions = []\<rparr>)))"

definition resolve_container_env :: "variable_context \<Rightarrow> string \<Rightarrow> (string \<times> string) result" where
  "resolve_container_env context' expression =
     bind_res (split_env_expression expression ''containerEnv'') (\<lambda>(name, fallback).
     bind_res
       (case bt_get (vc_container_env context') name of
          None \<Rightarrow> ok_or fallback (fmt [''Container environment variable is not set: '', name])
        | Some s \<Rightarrow> Inr s)
       (\<lambda>s. Inr (name, s)))"

definition resolve_container_env_tracked :: "variable_context \<Rightarrow> string \<Rightarrow> expanded_string result" where
  "resolve_container_env_tracked context' expression =
     bind_res (resolve_container_env context' expression) (\<lambda>(name, s).
       Inr \<lparr>es_value = s, es_redactions =
         (case bt_get (vc_sensitive_container_env context') name of
            None \<Rightarrow> []
          | Some sensitive \<Rightarrow> if sev_value sensitive = s then sev_redactions sensitive else [])\<rparr>)"

definition resolve_expression :: "variable_context \<Rightarrow> local_env \<Rightarrow> string \<Rightarrow> string result" where
  "resolve_expression context' local_env expression =
     (case strip_prefix ''localEnv:'' expression of
        Some rest \<Rightarrow> resolve_local_env local_env rest
      | None \<Rightarrow>
     (case strip_prefix ''containerEnv:'' expression of
        Some rest \<Rightarrow> bind_res (resolve_container_env context' rest) (\<lambda>(_, s). Inr s)
      | None \<Rightarrow>
          if expression = ''localWorkspaceFolder'' then Inr (vc_local_workspace_folder context')
          else if expression = ''localWorkspaceFolderBasename''
          then Inr (vc_local_workspace_folder_basename context')
          else if expression = ''containerWorkspaceFolder'' then Inr (vc_container_workspace_folder context')
          else if expression = ''containerWorkspaceFolderBasename''
          then Inr (vc_container_workspace_folder_basename context')
          else if expression = ''devcontainerId'' then Inr (vc_devcontainer_id context')
          else if expression = ''uid'' then Inr (show_nat (unat (vc_uid context')))
          else if expression = ''gid'' then Inr (show_nat (unat (vc_gid context')))
          else if expression = ''remoteUser'' then Inr (vc_remote_user context')
          else if expression = ''remoteUserHome'' then
            ok_or (vc_remote_user_home context')
              ''${remoteUserHome} is unavailable because the remote user has no passwd entry''
          else Inl (fmt [''Unknown config variable: ${'', expression, ''}''])))"

definition resolve_expression_tracked ::
  "variable_context \<Rightarrow> local_env \<Rightarrow> string \<Rightarrow> expanded_string result" where
  "resolve_expression_tracked context' local_env expression =
     (case strip_prefix ''localEnv:'' expression of
        Some rest \<Rightarrow> resolve_local_env_tracked local_env rest
      | None \<Rightarrow>
     (case strip_prefix ''containerEnv:'' expression of
        Some rest \<Rightarrow> resolve_container_env_tracked context' rest
      | None \<Rightarrow>
          bind_res (resolve_expression context' local_env expression) (\<lambda>s.
            Inr \<lparr>es_value = s, es_redactions = []\<rparr>)))"

section \<open>Strings\<close>

function expand_loop :: "(string \<Rightarrow> string result) \<Rightarrow> string \<Rightarrow> string \<Rightarrow> string \<Rightarrow> string result" where
  "expand_loop resolve input output rest =
     (if split_once ''${'' rest = None then Inr (output @ rest)
      else case split_variable_expression input rest of
             Inl e \<Rightarrow> Inl e
           | Inr (before, expression, next_rest) \<Rightarrow>
               (case resolve expression of
                  Inl e \<Rightarrow> Inl e
                | Inr s \<Rightarrow> expand_loop resolve input (output @ before @ s) next_rest))"
  by pat_completeness auto
termination
  by (relation "measure (\<lambda>(resolve, input, output, rest). length rest)")
     (auto dest: split_variable_expression_shorter)

declare expand_loop.simps [simp del]

definition expand_variables_with :: "string \<Rightarrow> variable_context \<Rightarrow> local_env \<Rightarrow> string result" where
  "expand_variables_with input context' local_env =
     expand_loop (resolve_expression context' local_env) input [] input"

function expand_tracked_loop ::
  "(string \<Rightarrow> expanded_string result) \<Rightarrow> string \<Rightarrow> string \<Rightarrow> string list \<Rightarrow> string \<Rightarrow> expanded_string result" where
  "expand_tracked_loop resolve input output redactions rest =
     (if split_once ''${'' rest = None then Inr \<lparr>es_value = output @ rest, es_redactions = redactions\<rparr>
      else case split_variable_expression input rest of
             Inl e \<Rightarrow> Inl e
           | Inr (before, expression, next_rest) \<Rightarrow>
               (case resolve expression of
                  Inl e \<Rightarrow> Inl e
                | Inr resolved \<Rightarrow>
                    expand_tracked_loop resolve input (output @ before @ es_value resolved)
                      (redactions @ es_redactions resolved) next_rest))"
  by pat_completeness auto
termination
  by (relation "measure (\<lambda>(resolve, input, output, redactions, rest). length rest)")
     (auto dest: split_variable_expression_shorter)

declare expand_tracked_loop.simps [simp del]

definition expand_variables_tracked_with ::
  "string \<Rightarrow> variable_context \<Rightarrow> local_env \<Rightarrow> expanded_string result" where
  "expand_variables_tracked_with input context' local_env =
     expand_tracked_loop (resolve_expression_tracked context' local_env) input [] [] input"

section \<open>Environments\<close>

definition expand_env_entry ::
  "variable_context \<Rightarrow> local_env \<Rightarrow> expanded_env_map \<Rightarrow> string \<times> string \<Rightarrow> expanded_env_map result" where
  "expand_env_entry context' local_env so_far entry =
     (case entry of (key, input) \<Rightarrow>
       bind_res (map_err (\<lambda>e. fmt [''Failed to expand environment variable: '', key, '': '', e])
           (expand_variables_tracked_with input context' local_env)) (\<lambda>expanded.
         let redactions = es_redactions expanded;
             all = (if es_value expanded \<in> set redactions then redactions else redactions @ [es_value expanded])
         in Inr \<lparr>ee_values = bt_insert key (es_value expanded) (ee_values so_far),
              ee_sensitive =
                (if redactions = [] then ee_sensitive so_far
                 else bt_insert key \<lparr>sev_value = es_value expanded, sev_redactions = all\<rparr> (ee_sensitive so_far))\<rparr>))"

definition expand_env_map_tracked_with ::
  "(string, string) btree_map \<Rightarrow> variable_context \<Rightarrow> local_env \<Rightarrow> expanded_env_map result" where
  "expand_env_map_tracked_with values' context' local_env =
     try_fold (expand_env_entry context' local_env) \<lparr>ee_values = [], ee_sensitive = []\<rparr> values'"

section \<open>References\<close>

function variable_expressions_loop :: "string \<Rightarrow> string list \<Rightarrow> string \<Rightarrow> string list result" where
  "variable_expressions_loop input expressions rest =
     (if split_once ''${'' rest = None then Inr expressions
      else case split_variable_expression input rest of
             Inl e \<Rightarrow> Inl e
           | Inr (before, expression, next_rest) \<Rightarrow>
               variable_expressions_loop input (expressions @ [expression]) next_rest)"
  by pat_completeness auto
termination
  by (relation "measure (\<lambda>(input, expressions, rest). length rest)")
     (auto dest: split_variable_expression_shorter)

declare variable_expressions_loop.simps [simp del]

definition variable_expressions :: "string \<Rightarrow> string list result" where
  "variable_expressions input = variable_expressions_loop input [] input"

definition references_any_variable :: "string \<Rightarrow> string list \<Rightarrow> bool result" where
  "references_any_variable input names =
     bind_res (variable_expressions input) (\<lambda>expressions.
       Inr (list_ex (\<lambda>expression. expression \<in> set names) expressions))"

definition references_remote_user_variable :: "string \<Rightarrow> bool result" where
  "references_remote_user_variable input = references_any_variable input [''remoteUser'', ''remoteUserHome'']"

definition references_remote_user_home_variable :: "string \<Rightarrow> bool result" where
  "references_remote_user_home_variable input = references_any_variable input [''remoteUserHome'']"

definition reject_container_env_reference :: "unit \<Rightarrow> string \<times> string \<Rightarrow> unit result" where
  "reject_container_env_reference _ entry =
     bind_res (variable_expressions (snd entry)) (\<lambda>expressions.
       if list_ex (starts_with ''containerEnv:'') expressions then
         Inl (fmt [''Container environment value must not reference containerEnv because it would create a circular environment dependency: '',
           fst entry, ''. Check devcontainer.json containerEnv and decune config [container_env]''])
       else Inr ())"

definition reject_container_env_references :: "(string, string) btree_map \<Rightarrow> unit result" where
  "reject_container_env_references values' = try_fold reject_container_env_reference () values'"

definition expand_container_env_tracked ::
  "local_env \<Rightarrow> (string, string) btree_map \<Rightarrow> variable_context \<Rightarrow> expanded_env_map result" where
  "expand_container_env_tracked local_env container_env context' =
     bind_res (reject_container_env_references container_env) (\<lambda>_.
       expand_env_map_tracked_with container_env context' local_env)"

definition expand_remote_env_tracked ::
  "local_env \<Rightarrow> (string, string) btree_map \<Rightarrow> variable_context \<Rightarrow> expanded_env_map result" where
  "expand_remote_env_tracked local_env remote_env context' =
     expand_env_map_tracked_with remote_env context' local_env"

section \<open>Tracking does not change the value\<close>

definition untrack :: "expanded_string result \<Rightarrow> string result" where
  "untrack r = bind_res r (\<lambda>x. Inr (es_value x))"

lemma untrack_simps [simp]: "untrack (Inl e) = Inl e" "untrack (Inr x) = Inr (es_value x)"
  by (simp_all add: untrack_def)

lemma untrack_local_env: "untrack (resolve_local_env_tracked local_env e) = resolve_local_env local_env e"
proof (cases "split_env_expression e ''localEnv''")
  case (Inr p)
  obtain name fallback where p: "p = (name, fallback)" by (cases p)
  show ?thesis
  proof (cases "local_env name")
    case (Inr found)
    show ?thesis
      using \<open>split_env_expression e ''localEnv'' = Inr p\<close> Inr
      by (cases found; cases fallback) (simp_all add: p resolve_local_env_tracked_def resolve_local_env_def)
  qed (use Inr in \<open>simp add: p resolve_local_env_tracked_def resolve_local_env_def\<close>)
qed (simp add: resolve_local_env_tracked_def resolve_local_env_def)

lemma untrack_container_env:
  "untrack (resolve_container_env_tracked ctx e) = bind_res (resolve_container_env ctx e) (\<lambda>(_, s). Inr s)"
  by (cases "resolve_container_env ctx e") (auto simp: resolve_container_env_tracked_def)

lemma untrack_expression:
  "untrack (resolve_expression_tracked ctx local_env e) = resolve_expression ctx local_env e"
proof (cases "strip_prefix ''localEnv:'' e")
  case (Some rest)
  then show ?thesis by (simp add: resolve_expression_tracked_def resolve_expression_def untrack_local_env)
next
  case local: None
  show ?thesis
  proof (cases "strip_prefix ''containerEnv:'' e")
    case (Some rest)
    with local show ?thesis by (simp add: resolve_expression_tracked_def resolve_expression_def untrack_container_env)
  next
    case None
    with local show ?thesis
      by (cases "resolve_expression ctx local_env e") (simp_all add: resolve_expression_tracked_def)
  qed
qed

lemma untrack_loop:
  assumes "\<And>e. untrack (resolve_tracked e) = resolve e"
  shows "untrack (expand_tracked_loop resolve_tracked input out reds rest) = expand_loop resolve input out rest"
  using assms
proof (induction resolve_tracked input out reds rest rule: expand_tracked_loop.induct)
  case (1 rt input out reds rest)
  show ?case
  proof (cases "split_once ''${'' rest = None")
    case True
    then show ?thesis by (simp add: expand_tracked_loop.simps [of rt input out reds rest] expand_loop.simps [of _ input out rest])
  next
    case some: False
    show ?thesis
    proof (cases "split_variable_expression input rest")
      case (Inl e)
      then show ?thesis using some
        by (simp add: expand_tracked_loop.simps [of rt input out reds rest] expand_loop.simps [of _ input out rest])
    next
      case (Inr p)
      obtain before e after where p: "p = (before, e, after)" by (cases p)
      show ?thesis
      proof (cases "rt e")
        case (Inl err)
        then have "resolve e = Inl err" using "1.prems" [of e] by simp
        then show ?thesis using some \<open>split_variable_expression input rest = Inr p\<close> Inl
          by (simp add: p expand_tracked_loop.simps [of rt input out reds rest] expand_loop.simps [of _ input out rest])
      next
        case r: (Inr x)
        have "resolve e = Inr (es_value x)" using "1.prems" [of e] r by simp
        then show ?thesis using some Inr r "1.IH" [OF some Inr [unfolded p] refl refl r "1.prems"]
          by (auto simp: p expand_tracked_loop.simps [of rt input out reds rest] expand_loop.simps [of _ input out rest])
      qed
    qed
  qed
qed

section \<open>Values without redactions do not depend on the environment\<close>

definition same_variables_set :: "local_env \<Rightarrow> local_env \<Rightarrow> bool" where
  "same_variables_set env env' \<longleftrightarrow>
     (\<forall>name. case env name of Inr (Some _) \<Rightarrow> \<exists>s. env' name = Inr (Some s) | r \<Rightarrow> env' name = r)"

lemma same_variables_setD:
  assumes "same_variables_set env env'"
  shows "env name = Inr (Some s) \<Longrightarrow> \<exists>s'. env' name = Inr (Some s')" "env name = Inr None \<Longrightarrow> env' name = Inr None"
proof -
  have "case env name of Inr (Some _) \<Rightarrow> \<exists>s. env' name = Inr (Some s) | r \<Rightarrow> env' name = r"
    using assms unfolding same_variables_set_def by blast
  then show "env name = Inr (Some s) \<Longrightarrow> \<exists>s'. env' name = Inr (Some s')" "env name = Inr None \<Longrightarrow> env' name = Inr None"
    by simp_all
qed

text \<open>A container environment may also have come from the local environment: the names it marks.\<close>

definition marked_in :: "sensitive_env_map \<Rightarrow> (string, string) btree_map \<Rightarrow> string \<Rightarrow> bool" where
  "marked_in sensitive values' name \<longleftrightarrow>
     (case bt_get sensitive name of None \<Rightarrow> False
      | Some sev \<Rightarrow> bt_get values' name = Some (sev_value sev) \<and> sev_redactions sev \<noteq> [])"

definition agree_unless_marked ::
  "(string, string) btree_map \<Rightarrow> sensitive_env_map \<Rightarrow> (string, string) btree_map \<Rightarrow> bool" where
  "agree_unless_marked values' sensitive other \<longleftrightarrow>
     (\<forall>name. (bt_get other name = None) = (bt_get values' name = None) \<and>
        (marked_in sensitive values' name \<or> bt_get other name = bt_get values' name))"

lemma agree_unless_markedD:
  assumes "agree_unless_marked values' sensitive other"
  shows "(bt_get other name = None) = (bt_get values' name = None)"
    and "marked_in sensitive values' name \<or> bt_get other name = bt_get values' name"
  using assms unfolding agree_unless_marked_def by blast+

lemma resolve_expression_no_env:
  "strip_prefix ''localEnv:'' e = None \<Longrightarrow> strip_prefix ''containerEnv:'' e = None \<Longrightarrow>
   resolve_expression (with_container_env ctx values' sensitive) env' e = resolve_expression ctx env e"
  by (simp add: resolve_expression_def with_container_env_def)

lemma resolve_container_without_redactions:
  assumes "agree_unless_marked (vc_container_env ctx) (vc_sensitive_container_env ctx) other"
    and "resolve_container_env_tracked ctx e = Inr x"
  shows "\<exists>y. resolve_container_env_tracked (with_container_env ctx other sensitive) e = Inr y \<and>
    (es_redactions x = [] \<longrightarrow> es_value y = es_value x)"
proof -
  obtain name fallback where f: "split_env_expression e ''containerEnv'' = Inr (name, fallback)"
    using assms(2) by (auto simp: resolve_container_env_tracked_def resolve_container_env_def result_elims)
  show ?thesis
  proof (cases "bt_get (vc_container_env ctx) name")
    case None
    then have none: "bt_get other name = None" using agree_unless_markedD(1) [OF assms(1)] by simp
    with None assms(2) show ?thesis
      by (cases fallback)
        (auto simp: resolve_container_env_tracked_def resolve_container_env_def f with_container_env_def)
  next
    case (Some s)
    then obtain s' where s': "bt_get other name = Some s'"
      using agree_unless_markedD(1) [OF assms(1), of name] by auto
    have "s' = s" if "es_redactions x = []"
    proof -
      have "\<not> marked_in (vc_sensitive_container_env ctx) (vc_container_env ctx) name"
        using assms(2) that Some
        by (auto simp: marked_in_def resolve_container_env_tracked_def resolve_container_env_def f split: option.splits)
      then show ?thesis using agree_unless_markedD(2) [OF assms(1), of name] Some s' by simp
    qed
    then show ?thesis using assms(2) Some s'
      by (simp add: resolve_container_env_tracked_def resolve_container_env_def f with_container_env_def) auto
  qed
qed

lemma resolve_without_redactions:
  assumes "same_variables_set env env'"
    and "agree_unless_marked (vc_container_env ctx) (vc_sensitive_container_env ctx) other"
    and "resolve_expression_tracked ctx env e = Inr x"
  shows "\<exists>y. resolve_expression_tracked (with_container_env ctx other sensitive) env' e = Inr y \<and>
    (es_redactions x = [] \<longrightarrow> es_value y = es_value x)"
proof (cases "strip_prefix ''localEnv:'' e")
  case no_local: None
  show ?thesis
  proof (cases "strip_prefix ''containerEnv:'' e")
    case None
    with assms(3) no_local show ?thesis
      by (auto simp: resolve_expression_tracked_def resolve_expression_no_env [where env = env] result_elims)
  next
    case (Some rest)
    with assms(3) no_local show ?thesis
      using resolve_container_without_redactions [OF assms(2), of rest x]
      by (simp add: resolve_expression_tracked_def)
  qed
next
  case (Some rest)
  then obtain name fallback found where f: "split_env_expression rest ''localEnv'' = Inr (name, fallback)"
      "env name = Inr found"
    using assms(3) by (auto simp: resolve_expression_tracked_def resolve_local_env_tracked_def result_elims)
  show ?thesis
  proof (cases found)
    case None
    then have "env' name = Inr None" using same_variables_setD(2) [OF assms(1)] f(2) by simp
    then show ?thesis using assms(3) Some f None
      by (auto simp: resolve_expression_tracked_def resolve_local_env_tracked_def)
  next
    case (Some s)
    then obtain s' where "env' name = Inr (Some s')" using same_variables_setD(1) [OF assms(1)] f(2) by blast
    then show ?thesis using assms(3) \<open>strip_prefix _ e = _\<close> f Some
      by (auto simp: resolve_expression_tracked_def resolve_local_env_tracked_def)
  qed
qed

lemma loop_redactions:
  "expand_tracked_loop rt input out reds rest = Inr x \<Longrightarrow> \<exists>more. es_redactions x = reds @ more"
proof (induction rt input out reds rest rule: expand_tracked_loop.induct)
  case (1 rt input out reds rest)
  show ?case
  proof (cases "split_once ''${'' rest = None")
    case True
    then show ?thesis using "1.prems" by (auto simp: expand_tracked_loop.simps [of rt input out reds rest])
  next
    case False
    then obtain before e after y where s: "split_variable_expression input rest = Inr (before, e, after)" "rt e = Inr y"
      "expand_tracked_loop rt input (out @ before @ es_value y) (reds @ es_redactions y) after = Inr x"
      using "1.prems" by (auto simp: expand_tracked_loop.simps [of rt input out reds rest] split: sum.splits prod.splits)
    from "1.IH" [OF False s(1) refl refl s(2,3)] show ?thesis by auto
  qed
qed

lemma loop_without_redactions:
  assumes "\<And>e x. rt e = Inr x \<Longrightarrow> \<exists>y. rt' e = Inr y \<and> (es_redactions x = [] \<longrightarrow> es_value y = es_value x)"
    and "expand_tracked_loop rt input out reds rest = Inr x"
  shows "\<exists>y. expand_tracked_loop rt' input out' reds' rest = Inr y \<and>
    (es_redactions x = [] \<and> out' = out \<longrightarrow> es_value y = es_value x)"
  using assms
proof (induction rt input out reds rest arbitrary: out' reds' rule: expand_tracked_loop.induct)
  case (1 rt input out reds rest)
  show ?case
  proof (cases "split_once ''${'' rest = None")
    case True
    then show ?thesis using "1.prems"(2)
      by (auto simp: expand_tracked_loop.simps [of rt input out reds rest] expand_tracked_loop.simps [of rt' input out' reds' rest])
  next
    case False
    then obtain before e after y where s: "split_variable_expression input rest = Inr (before, e, after)" "rt e = Inr y"
      "expand_tracked_loop rt input (out @ before @ es_value y) (reds @ es_redactions y) after = Inr x"
      using "1.prems"(2) by (auto simp: expand_tracked_loop.simps [of rt input out reds rest] split: sum.splits prod.splits)
    obtain z where z: "rt' e = Inr z" "es_redactions y = [] \<longrightarrow> es_value z = es_value y" using "1.prems"(1) [OF s(2)] by blast
    obtain x' where x': "expand_tracked_loop rt' input (out' @ before @ es_value z) (reds' @ es_redactions z) after = Inr x'"
      "es_redactions x = [] \<and> out' @ before @ es_value z = out @ before @ es_value y \<longrightarrow> es_value x' = es_value x"
      using "1.IH" [OF False s(1) refl refl s(2) "1.prems"(1) s(3), of "out' @ before @ es_value z" "reds' @ es_redactions z"]
      by blast
    have "es_redactions y = []" if "es_redactions x = []" using loop_redactions [OF s(3)] that by simp
    then have "es_redactions x = [] \<and> out' = out \<longrightarrow> es_value x' = es_value x" using z(2) x'(2) by auto
    moreover have "expand_tracked_loop rt' input out' reds' rest = Inr x'"
      using False s(1) z(1) x'(1) by (auto simp: expand_tracked_loop.simps [of rt' input out' reds' rest])
    ultimately show ?thesis by blast
  qed
qed

lemma expand_without_redactions:
  assumes "same_variables_set env env'"
    and "agree_unless_marked (vc_container_env ctx) (vc_sensitive_container_env ctx) other"
    and "expand_variables_tracked_with input ctx env = Inr x"
  shows "\<exists>y. expand_variables_tracked_with input (with_container_env ctx other sensitive) env' = Inr y \<and>
    (es_redactions x = [] \<longrightarrow> es_value y = es_value x)"
  using loop_without_redactions [of "resolve_expression_tracked ctx env"
      "resolve_expression_tracked (with_container_env ctx other sensitive) env'" input "[]" "[]" input x "[]" "[]"]
    resolve_without_redactions [OF assms(1,2)] assms(3)
  unfolding expand_variables_tracked_with_def by blast

section \<open>Environment maps\<close>

definition tracked_entry :: "expanded_string \<Rightarrow> sensitive_env_value option" where
  "tracked_entry x = (if es_redactions x = [] then None
     else Some \<lparr>sev_value = es_value x, sev_redactions =
       (if es_value x \<in> set (es_redactions x) then es_redactions x else es_redactions x @ [es_value x])\<rparr>)"

lemma expand_env_entry_ok:
  "expand_env_entry ctx env so_far (key, input) = Inr after \<longleftrightarrow>
   (\<exists>x. expand_variables_tracked_with input ctx env = Inr x \<and>
      after = \<lparr>ee_values = bt_insert key (es_value x) (ee_values so_far),
        ee_sensitive = (case tracked_entry x of None \<Rightarrow> ee_sensitive so_far
          | Some sev \<Rightarrow> bt_insert key sev (ee_sensitive so_far))\<rparr>)"
proof (cases "expand_variables_tracked_with input ctx env")
  case (Inr x)
  then show ?thesis
    by (cases "es_redactions x = []") (auto simp: expand_env_entry_def tracked_entry_def Let_def)
qed (simp add: expand_env_entry_def)

lemma env_map_ok:
  assumes "try_fold (expand_env_entry ctx env) so_far entries = Inr e" "distinct (map fst entries)"
    and "\<forall>k\<in>fst ` set entries. bt_get (ee_sensitive so_far) k = None"
  shows "(\<forall>k input. (k, input) \<in> set entries \<longrightarrow> (\<exists>x. expand_variables_tracked_with input ctx env = Inr x \<and>
      bt_get (ee_values e) k = Some (es_value x) \<and> bt_get (ee_sensitive e) k = tracked_entry x)) \<and>
    (\<forall>k. k \<notin> fst ` set entries \<longrightarrow> bt_get (ee_values e) k = bt_get (ee_values so_far) k \<and>
      bt_get (ee_sensitive e) k = bt_get (ee_sensitive so_far) k)"
  using assms
proof (induction entries arbitrary: so_far)
  case (Cons entry entries)
  obtain k input where entry: "entry = (k, input)" by (cases entry)
  from Cons.prems(1) obtain next_map where n: "expand_env_entry ctx env so_far (k, input) = Inr next_map"
    "try_fold (expand_env_entry ctx env) next_map entries = Inr e" by (auto simp: entry result_elims)
  from n(1) obtain x where x: "expand_variables_tracked_with input ctx env = Inr x"
    "next_map = \<lparr>ee_values = bt_insert k (es_value x) (ee_values so_far),
        ee_sensitive = (case tracked_entry x of None \<Rightarrow> ee_sensitive so_far
          | Some sev \<Rightarrow> bt_insert k sev (ee_sensitive so_far))\<rparr>" by (auto simp: expand_env_entry_ok)
  have vals: "bt_get (ee_values next_map) = (bt_get (ee_values so_far))(k \<mapsto> es_value x)"
    by (simp add: x(2) bt_get_insert)
  have sens: "bt_get (ee_sensitive next_map) = (bt_get (ee_sensitive so_far))(k := tracked_entry x)"
    using Cons.prems(3) by (auto simp: x(2) entry bt_get_insert fun_eq_iff split: option.split)
  have k: "k \<notin> fst ` set entries" "distinct (map fst entries)" using Cons.prems(2) by (simp_all add: entry)
  have "\<forall>j\<in>fst ` set entries. bt_get (ee_sensitive next_map) j = None"
    using Cons.prems(3) k(1) unfolding sens by (auto simp: entry)
  from Cons.IH [OF n(2) k(2) this] have IH1: "\<forall>k input. (k, input) \<in> set entries \<longrightarrow> (\<exists>x. expand_variables_tracked_with input ctx env = Inr x \<and>
      bt_get (ee_values e) k = Some (es_value x) \<and> bt_get (ee_sensitive e) k = tracked_entry x)"
    and IH2: "\<forall>j. j \<notin> fst ` set entries \<longrightarrow> bt_get (ee_values e) j = bt_get (ee_values next_map) j \<and>
      bt_get (ee_sensitive e) j = bt_get (ee_sensitive next_map) j" by blast+
  from IH2 k(1) x(1) have "\<exists>x. expand_variables_tracked_with input ctx env = Inr x \<and>
      bt_get (ee_values e) k = Some (es_value x) \<and> bt_get (ee_sensitive e) k = tracked_entry x"
    unfolding vals sens by auto
  with IH1 IH2 show ?case unfolding vals sens by (auto simp: entry)
qed simp

lemma env_map_runs:
  assumes "\<forall>k input. (k, input) \<in> set entries \<longrightarrow> (\<exists>x. expand_variables_tracked_with input ctx env = Inr x)"
  shows "\<exists>e. try_fold (expand_env_entry ctx env) so_far entries = Inr e"
  using assms
proof (induction entries arbitrary: so_far)
  case (Cons entry entries)
  obtain k input where entry: "entry = (k, input)" by (cases entry)
  then obtain x where x: "expand_variables_tracked_with input ctx env = Inr x" using Cons.prems by auto
  obtain n where n: "expand_env_entry ctx env so_far (k, input) = Inr n" using x by (auto simp: expand_env_entry_ok)
  have "\<forall>k input. (k, input) \<in> set entries \<longrightarrow> (\<exists>x. expand_variables_tracked_with input ctx env = Inr x)" using Cons.prems by auto
  from Cons.IH [OF this, of n] show ?case by (simp add: entry n)
qed simp

section \<open>Properties\<close>

text \<open>Expansion with tracking gives exactly the value and the errors of the expansion
  without.\<close>

theorem tracking_does_not_change_the_expansion:
  "bind_res (expand_variables_tracked_with input ctx env) (\<lambda>x. Inr (es_value x)) = expand_variables_with input ctx env"
  using untrack_loop [of "resolve_expression_tracked ctx env" "resolve_expression ctx env" input "[]" "[]" input]
    untrack_expression
  unfolding expand_variables_tracked_with_def expand_variables_with_def untrack_def by blast

lemma tracked_values:
  assumes "bt_ok env_map" "expand_env_map_tracked_with env_map ctx env = Inr expanded"
    and "bt_get (ee_sensitive expanded) key = Some sensitive"
  shows "bt_get (ee_values expanded) key = Some (sev_value sensitive) \<and>
    sev_value sensitive \<in> set (sev_redactions sensitive)"
proof -
  let ?none = "\<lparr>ee_values = [], ee_sensitive = []\<rparr>"
  have none: "\<forall>k\<in>fst ` set env_map. bt_get (ee_sensitive ?none) k = None" by (simp add: bt_get_def)
  note ok = env_map_ok [OF assms(2) [unfolded expand_env_map_tracked_with_def] bt_ok_distinct [OF assms(1)] none]
  have "key \<in> fst ` set env_map"
  proof (rule ccontr)
    assume "key \<notin> fst ` set env_map"
    then have "bt_get (ee_sensitive expanded) key = bt_get (ee_sensitive ?none) key" using ok by blast
    then show False using assms(3) by (simp add: bt_get_def)
  qed
  then obtain input where "(key, input) \<in> set env_map" by auto
  then have "\<exists>x. expand_variables_tracked_with input ctx env = Inr x \<and>
      bt_get (ee_values expanded) key = Some (es_value x) \<and> bt_get (ee_sensitive expanded) key = tracked_entry x"
    using ok by blast
  then obtain x where x: "bt_get (ee_values expanded) key = Some (es_value x)"
    "bt_get (ee_sensitive expanded) key = tracked_entry x" by blast
  then have "tracked_entry x = Some sensitive" using assms(3) by simp
  then show ?thesis using x(1) by (auto simp: tracked_entry_def split: if_splits)
qed

text \<open>C12. A value that is not marked for redaction is the same for every local environment
  that sets the same variables and every container environment that differs only in values that
  are marked; a marked value is among its own redactions.\<close>

theorem unredacted_values_do_not_depend_on_the_environment:
  assumes "bt_ok env_map" "same_variables_set env env'"
    and "agree_unless_marked (vc_container_env ctx) (vc_sensitive_container_env ctx) container_env'"
    and "expand_env_map_tracked_with env_map ctx env = Inr expanded"
  shows "(\<forall>key sensitive. bt_get (ee_sensitive expanded) key = Some sensitive \<longrightarrow>
      bt_get (ee_values expanded) key = Some (sev_value sensitive) \<and>
      sev_value sensitive \<in> set (sev_redactions sensitive)) \<and>
    (\<exists>expanded'. expand_env_map_tracked_with env_map (with_container_env ctx container_env' sensitive') env' =
        Inr expanded' \<and>
      (\<forall>key. bt_get (ee_sensitive expanded) key = None \<longrightarrow>
         bt_get (ee_values expanded') key = bt_get (ee_values expanded) key) \<and>
      agree_unless_marked (ee_values expanded) (ee_sensitive expanded) (ee_values expanded'))"
proof -
  let ?none = "\<lparr>ee_values = [], ee_sensitive = []\<rparr>"
  let ?ctx = "with_container_env ctx container_env' sensitive'"
  have d: "distinct (map fst env_map)" by (rule bt_ok_distinct [OF assms(1)])
  have none: "\<forall>k\<in>fst ` set env_map. bt_get (ee_sensitive ?none) k = None" by (simp add: bt_get_def)
  note fold = assms(4) [unfolded expand_env_map_tracked_with_def]
  note ok = env_map_ok [OF fold d none]
  note expand = expand_without_redactions [OF assms(2,3)]
  have runs: "\<forall>k input. (k, input) \<in> set env_map \<longrightarrow> (\<exists>x. expand_variables_tracked_with input ?ctx env' = Inr x)"
    using ok expand by meson
  from env_map_runs [OF this, of ?none] obtain expanded' where
    fold': "try_fold (expand_env_entry ?ctx env') ?none env_map = Inr expanded'" by blast
  note ok' = env_map_ok [OF fold' d none]
  note sensitive = tracked_values [OF assms(1,4)]
  have same: "bt_get (ee_values expanded') key = bt_get (ee_values expanded) key"
    if none': "bt_get (ee_sensitive expanded) key = None" for key
  proof (cases "key \<in> fst ` set env_map")
    case True
    then obtain input where input: "(key, input) \<in> set env_map" by auto
    then obtain x where x: "expand_variables_tracked_with input ctx env = Inr x"
      "bt_get (ee_values expanded) key = Some (es_value x)" "tracked_entry x = None" using ok none' by force
    obtain y where y: "expand_variables_tracked_with input ?ctx env' = Inr y"
      "bt_get (ee_values expanded') key = Some (es_value y)" using ok' input by blast
    from x(3) have "es_redactions x = []" by (simp add: tracked_entry_def split: if_splits)
    then have "es_value y = es_value x" using expand [OF x(1), of sensitive'] y(1) by auto
    then show ?thesis using x(2) y(2) by simp
  next
    case False
    then show ?thesis using ok ok' by simp
  qed
  have defined: "(bt_get (ee_values expanded') key = None) = (bt_get (ee_values expanded) key = None)" for key
  proof (cases "key \<in> fst ` set env_map")
    case True
    then obtain input where "(key, input) \<in> set env_map" by auto
    then show ?thesis using ok ok' by force
  qed (use ok ok' in simp)
  have marked: "marked_in (ee_sensitive expanded) (ee_values expanded) key"
    if "bt_get (ee_sensitive expanded) key = Some sev" for key sev
    using sensitive [OF that] that by (auto simp: marked_in_def)
  have "marked_in (ee_sensitive expanded) (ee_values expanded) key \<or>
      bt_get (ee_values expanded') key = bt_get (ee_values expanded) key" for key
    using same [of key] marked [of key] by (cases "bt_get (ee_sensitive expanded) key") simp_all
  then have "agree_unless_marked (ee_values expanded) (ee_sensitive expanded) (ee_values expanded')"
    unfolding agree_unless_marked_def using defined by blast
  then show ?thesis using sensitive same fold' unfolding expand_env_map_tracked_with_def by blast
qed

definition example_context :: variable_context where
  "example_context = \<lparr>vc_local_workspace_folder = ''/w'', vc_local_workspace_folder_basename = ''w'',
     vc_container_workspace_folder = ''/c'', vc_container_workspace_folder_basename = ''c'', vc_devcontainer_id = ''id'',
     vc_uid = 1000, vc_gid = 1000, vc_remote_user = ''me'', vc_remote_user_home = None, vc_container_env = [],
     vc_sensitive_container_env = []\<rparr>"

definition example_marked_context :: variable_context where
  "example_marked_context = with_container_env example_context [(''S'', ''secret''), (''V'', ''plain'')]
     [(''S'', \<lparr>sev_value = ''secret'', sev_redactions = [''secret'']\<rparr>)]"

definition example_env_map :: "(string, string) btree_map" where
  "example_env_map = [(''A'', ''${localEnv:T}''), (''B'', ''${uid}''), (''C'', ''${containerEnv:S}''),
     (''D'', ''${containerEnv:V}'')]"

lemma example_expanded:
  "expand_env_map_tracked_with example_env_map example_marked_context (\<lambda>_. Inr (Some ''secret'')) =
     Inr \<lparr>ee_values = [(''A'', ''secret''), (''B'', ''1000''), (''C'', ''secret''), (''D'', ''plain'')],
       ee_sensitive = [(''A'', \<lparr>sev_value = ''secret'', sev_redactions = [''secret'']\<rparr>),
         (''C'', \<lparr>sev_value = ''secret'', sev_redactions = [''secret'']\<rparr>)]\<rparr>"
  by (simp add: expand_env_map_tracked_with_def expand_env_entry_def expand_variables_tracked_with_def
      expand_tracked_loop.simps split_variable_expression_def resolve_expression_tracked_def resolve_expression_def
      resolve_local_env_tracked_def resolve_container_env_tracked_def resolve_container_env_def
      split_env_expression_def example_context_def example_marked_context_def example_env_map_def
      with_container_env_def bt_get_def str_eval)

text \<open>Another environment, and a container environment that was expanded in it.\<close>

theorem unredacted_values_do_not_depend_on_the_environment_witness:
  "\<exists>expanded'. expand_env_map_tracked_with example_env_map
     (with_container_env example_marked_context [(''S'', ''hidden''), (''V'', ''plain'')] [])
     (\<lambda>_. Inr (Some ''other'')) = Inr expanded' \<and> bt_get (ee_values expanded') ''B'' = Some ''1000'' \<and>
     bt_get (ee_values expanded') ''D'' = Some ''plain''"
proof -
  have "bt_ok example_env_map" by (simp add: bt_ok_def example_env_map_def)
  moreover have "same_variables_set (\<lambda>_. Inr (Some ''secret'')) (\<lambda>_. Inr (Some ''other''))"
    by (simp add: same_variables_set_def)
  moreover have "agree_unless_marked (vc_container_env example_marked_context)
      (vc_sensitive_container_env example_marked_context) [(''S'', ''hidden''), (''V'', ''plain'')]"
    by (simp add: agree_unless_marked_def marked_in_def example_marked_context_def with_container_env_def bt_get_def)
  ultimately show ?thesis
    using unredacted_values_do_not_depend_on_the_environment [OF _ _ _ example_expanded] by (fastforce simp: bt_get_def)
qed

end
