(* ===== verification/Rust_Path.thy ===== *)
theory Rust_Path
  imports Rust_Str
begin

text \<open>
  \<open>std::path\<close> on Unix: a path is its text. Components ignore repeated slashes and single dots,
  except a dot at the start; paths are ordered by their components. \<open>parent\<close> and \<open>file_name\<close>
  look at the last component.
\<close>

text \<open>\<open>Path::components\<close>: the root and a leading dot are components; repeated and trailing slashes
  and further dots disappear.\<close>

datatype path_component = Root_Dir | Cur_Dir | Parent_Dir | Normal string

definition path_components :: "string \<Rightarrow> path_component list" where
  "path_components path =
     (let parts = split_on (\<lambda>c. c = CHR ''/'') path;
          rooted = starts_with ''/'' path;
          leading = (if rooted then [Root_Dir] else if hd parts = ''.'' then [Cur_Dir] else [])
      in leading @ filter_map (\<lambda>part. if part = [] \<or> part = ''.'' then None
           else if part = ''..'' then Some Parent_Dir else Some (Normal part)) parts)"

text \<open>\<open>Path::join\<close>.\<close>

definition path_push :: "string \<Rightarrow> string \<Rightarrow> string" where
  "path_push base path =
     (if starts_with ''/'' path then path
      else if base = [] \<or> last base = CHR ''/'' then base @ path
      else base @ ''/'' @ path)"

text \<open>The derived order of \<open>Component\<close>: by the constructor, then by the bytes of the name.\<close>

fun component_key :: "path_component \<Rightarrow> nat \<times> string" where
  "component_key Root_Dir = (1, [])"
| "component_key Cur_Dir = (2, [])"
| "component_key Parent_Dir = (3, [])"
| "component_key (Normal s) = (4, s)"

lemma component_key_inject: "component_key a = component_key b \<Longrightarrow> a = b"
  by (cases a; cases b) simp_all

instantiation path_component :: linorder
begin

definition less_eq_path_component :: "path_component \<Rightarrow> path_component \<Rightarrow> bool" where
  "less_eq_path_component a b = (component_key a \<le> component_key b)"

definition less_path_component :: "path_component \<Rightarrow> path_component \<Rightarrow> bool" where
  "less_path_component a b = (component_key a < component_key b)"

instance
  by standard (auto simp: less_eq_path_component_def less_path_component_def dest: component_key_inject)

end

definition is_absolute :: "string \<Rightarrow> bool" where
  "is_absolute p = starts_with ''/'' p"

definition path_segments :: "string \<Rightarrow> string list" where
  "path_segments = split_on (\<lambda>c. c = CHR ''/'')"

text \<open>Segments that are no component, unless they come first.\<close>

definition is_skipped :: "string \<Rightarrow> bool" where
  "is_skipped s = (s = [] \<or> s = ''.'')"

definition path_file_name :: "string \<Rightarrow> string option" where
  "path_file_name p =
     (if path_components p = [] then None
      else case last (path_components p) of Normal s \<Rightarrow> Some s | _ \<Rightarrow> None)"

text \<open>The segments up to the last component.\<close>

definition trim_segments :: "string list \<Rightarrow> string list" where
  "trim_segments segments = hd segments # rev (dropWhile is_skipped (rev (tl segments)))"

definition segments_path :: "string list \<Rightarrow> string" where
  "segments_path segments = (if segments = [[]] then ''/'' else str_join ''/'' segments)"

definition path_parent :: "string \<Rightarrow> string option" where
  "path_parent p =
     (case tl (trim_segments (path_segments p)) of
        [] \<Rightarrow> if is_absolute p \<or> p = [] then None else Some []
      | later \<Rightarrow> Some (segments_path (trim_segments (hd (path_segments p) # butlast later))))"

text \<open>A parent is shorter, which ends the loops that walk up a path.\<close>

lemma path_segments_text: "str_join ''/'' (path_segments p) = p"
proof (induction p)
  case (Cons c p)
  then show ?case
    by (cases "split_on (\<lambda>c. c = CHR ''/'') p"; cases "tl (split_on (\<lambda>c. c = CHR ''/'') p)") (auto simp: path_segments_def)
qed (simp add: path_segments_def)

definition segments_length :: "string list \<Rightarrow> nat" where
  "segments_length segments = length (concat segments) + length segments"

lemma segments_length_simps [simp]:
  "segments_length [] = 0" "segments_length (s # segments) = Suc (length s + segments_length segments)"
  "segments_length (xs @ ys) = segments_length xs + segments_length ys"
  "segments_length (rev xs) = segments_length xs"
  by (induction xs) (simp_all add: segments_length_def)

lemma length_str_join: "segments \<noteq> [] \<Longrightarrow> length (str_join [c] segments) + 1 = segments_length segments"
  by (induction segments rule: induct_list012) simp_all

lemma segments_length_dropWhile: "segments_length (dropWhile P xs) \<le> segments_length xs"
  by (induction xs) simp_all

lemma trim_segments_length: "segments \<noteq> [] \<Longrightarrow> segments_length (trim_segments segments) \<le> segments_length segments"
  using segments_length_dropWhile [of is_skipped "rev (tl segments)"] by (cases segments) (simp_all add: trim_segments_def)

lemma trimmed_last: "tl (trim_segments segments) \<noteq> [] \<Longrightarrow> last (tl (trim_segments segments)) \<noteq> []"
  using hd_dropWhile [of is_skipped "rev (tl segments)"] by (auto simp: trim_segments_def last_rev is_skipped_def)

lemma path_parent_shorter:
  assumes "path_parent p = Some q"
  shows "length q < length p"
proof (cases "tl (trim_segments (path_segments p)) = []")
  case True
  with assms show ?thesis by (auto simp: path_parent_def split: if_splits)
next
  case False
  define h where "h = hd (path_segments p)"
  define later where "later = tl (trim_segments (path_segments p))"
  have ne: "path_segments p \<noteq> []" by (simp add: path_segments_def)
  have q: "q = segments_path (trim_segments (h # butlast later))"
    using assms False by (cases later) (auto simp: path_parent_def h_def later_def [symmetric] split: list.splits)
  have later: "later = butlast later @ [last later]" "last later \<noteq> []"
    using False trimmed_last by (auto simp: later_def)
  have "segments_length (h # later) \<le> length p + 1"
    using trim_segments_length [OF ne] length_str_join [OF ne, of "CHR ''/''"] path_segments_text [of p]
    by (simp add: later_def h_def trim_segments_def)
  moreover have "segments_length later \<ge> Suc (segments_length (butlast later) + 1)"
    using later(2) arg_cong [OF later(1), of segments_length] by (cases "last later") simp_all
  moreover have "length q + 1 \<le> segments_length (h # butlast later) \<or> q = ''/''"
    using trim_segments_length [of "h # butlast later"] length_str_join [of "trim_segments (h # butlast later)" "CHR ''/''"]
    by (auto simp: q segments_path_def trim_segments_def)
  ultimately show ?thesis by auto
qed

end
