(* ===== verification/Feature_Reference.thy ===== *)
theory Feature_Reference
  imports Compose_Model Ip_Addr Rust_Path
begin

text \<open>
  References to devcontainer Features, from \<open>src/devcontainer/features/reference.rs\<close> and
  \<open>src/config/layer.rs\<close>: the parser of OCI references with its validation of registry, path, tag
  and digest, local references below the devcontainer directory, and the two canonical forms.
  A \<open>Path\<close> is its Unix bytes. A context that is added to an error is put before it.
\<close>

definition invalid_feature_ref :: "string \<Rightarrow> string \<Rightarrow> string" where
  "invalid_feature_ref input reason = fmt [''Invalid feature ref `'', input, ''`: '', reason]"

section \<open>The data\<close>

record oci_feature_ref =
  oci_original :: string
  oci_registry :: string
  oci_repository :: string
  oci_feature_id :: string
  oci_tag :: "string option"
  oci_digest :: "string option"
  oci_canonical_id :: string

record local_feature_ref =
  local_original :: string
  local_path :: string
  local_canonical_id :: string

datatype feature_ref = Oci oci_feature_ref | Local local_feature_ref

fun ref_canonical_id :: "feature_ref \<Rightarrow> string" where
  "ref_canonical_id (Oci reference) = oci_canonical_id reference"
| "ref_canonical_id (Local reference) = local_canonical_id reference"

fun ref_original :: "feature_ref \<Rightarrow> string" where
  "ref_original (Oci reference) = oci_original reference"
| "ref_original (Local reference) = local_original reference"

definition canonical_repository :: "oci_feature_ref \<Rightarrow> string" where
  "canonical_repository reference = fmt [oci_registry reference, ''/'', oci_repository reference]"

definition repository_path :: "oci_feature_ref \<Rightarrow> string" where
  "repository_path reference = fmt [oci_repository reference, ''/'', oci_feature_id reference]"

definition normalized_reference :: "oci_feature_ref \<Rightarrow> string" where
  "normalized_reference reference =
     (case oci_digest reference of
        None \<Rightarrow> fmt [oci_canonical_id reference, '':'',
                     case oci_tag reference of Some tag \<Rightarrow> tag | None \<Rightarrow> ''latest'']
      | Some digest \<Rightarrow> fmt [oci_canonical_id reference, ''@'', digest])"

section \<open>Splitting a reference\<close>

definition split_digest :: "string \<Rightarrow> (string \<times> string option) result" where
  "split_digest input =
     (case split_once ''@'' input of
        Some (base, digest) \<Rightarrow>
          if base \<noteq> [] \<and> digest \<noteq> [] then Inr (base, Some digest)
          else Inl (invalid_feature_ref input ''invalid digest'')
      | None \<Rightarrow> Inr (input, None))"

text \<open>The last colon is behind the last slash exactly when no slash follows it.\<close>

definition split_tag :: "string \<Rightarrow> string \<times> string option" where
  "split_tag input =
     (case rsplit_once '':'' input of
        Some (base, tag) \<Rightarrow> if CHR ''/'' \<notin> set tag then (base, Some tag) else (input, None)
      | None \<Rightarrow> (input, None))"

section \<open>Validation\<close>

definition is_ascii_control_or_space :: "char \<Rightarrow> bool" where
  "is_ascii_control_or_space c = ((of_char c :: nat) < 33 \<or> (of_char c :: nat) = 127)"

text \<open>\<open>char::is_control\<close> also holds for U+0080 to U+009F, which is the byte C2 before a byte from
  80 to 9F.\<close>

fun has_control_or_space :: "string \<Rightarrow> bool" where
  "has_control_or_space [] = False"
| "has_control_or_space (c # cs) =
     (is_ascii_control_or_space c \<or>
      (c = CHR 0xC2 \<and> cs \<noteq> [] \<and> 128 \<le> (of_char (hd cs) :: nat) \<and> (of_char (hd cs) :: nat) < 160) \<or>
      has_control_or_space cs)"

definition is_port_text :: "string \<Rightarrow> bool" where
  "is_port_text port = (port \<noteq> [] \<and> list_all is_ascii_digit port)"

definition validate_oci_feature_ipv6_registry :: "string \<Rightarrow> string \<Rightarrow> unit result" where
  "validate_oci_feature_ipv6_registry input registry =
     bind_res (ok_or (strip_prefix ''['' registry)
       (invalid_feature_ref input ''registry IPv6 host must be enclosed in brackets'')) (\<lambda>after_open.
     bind_res (ok_or (split_once '']'' after_open)
       (invalid_feature_ref input ''registry IPv6 host must be enclosed in brackets'')) (\<lambda>(host, rest).
       if host = [] then Inl (invalid_feature_ref input ''registry host is empty'')
       else if CHR ''%'' \<in> set host \<or>
         (case read_ipv6 host of Some (_, r) \<Rightarrow> r \<noteq> [] | None \<Rightarrow> True)
       then Inl (invalid_feature_ref input ''registry IPv6 host is invalid'')
       else if rest = [] then Inr ()
       else bind_res (ok_or (strip_prefix '':'' rest)
         (invalid_feature_ref input ''registry must be a host or host:port without a URL scheme'')) (\<lambda>port.
           if is_port_text port then Inr ()
           else Inl (invalid_feature_ref input ''registry port must contain only digits''))))"

definition valid_host_component :: "string \<Rightarrow> bool" where
  "valid_host_component part =
     (part \<noteq> [] \<and> hd part \<noteq> CHR ''-'' \<and> last part \<noteq> CHR ''-'' \<and>
      list_all (\<lambda>c. is_ascii_alphanumeric c \<or> c = CHR ''-'') part)"

definition validate_oci_feature_registry :: "string \<Rightarrow> string \<Rightarrow> unit result" where
  "validate_oci_feature_registry input registry =
     (if str_contains ''://'' registry \<or> CHR ''/'' \<in> set registry \<or> has_control_or_space registry
      then Inl (invalid_feature_ref input ''registry must be a host or host:port without a URL scheme'')
      else if starts_with ''['' registry then validate_oci_feature_ipv6_registry input registry
      else
        let (host, port) = (case rsplit_once '':'' registry of
               Some (host, port) \<Rightarrow> (host, Some port) | None \<Rightarrow> (registry, None))
        in if host = [] then Inl (invalid_feature_ref input ''registry host is empty'')
           else if (case port of Some p \<Rightarrow> \<not> is_port_text p | None \<Rightarrow> False)
           then Inl (invalid_feature_ref input ''registry port must contain only digits'')
           else if list_all valid_host_component (split_on (\<lambda>c. c = CHR ''.'') host) then Inr ()
           else Inl (invalid_feature_ref input ''registry host contains an invalid component''))"

text \<open>The loop of \<open>validate_oci_feature_path_component\<close> after the first character.\<close>

function validate_path_tail :: "string \<Rightarrow> string \<Rightarrow> string \<Rightarrow> unit result" where
  "validate_path_tail input label [] = Inr ()"
| "validate_path_tail input label (c # cs) =
     (if is_ascii_alphanumeric c then validate_path_tail input label cs
      else
        let rest = (if c = CHR ''-'' then Some (dropWhile (\<lambda>n. n = CHR ''-'') cs)
                    else if c = CHR ''_'' then Some (if cs \<noteq> [] \<and> hd cs = CHR ''_'' then tl cs else cs)
                    else if c = CHR ''.'' then Some cs
                    else None)
        in case rest of
             None \<Rightarrow> Inl (invalid_feature_ref input (fmt [label, '' contains an invalid character'']))
           | Some next' \<Rightarrow>
               if next' \<noteq> [] \<and> is_ascii_alphanumeric (hd next') then validate_path_tail input label next'
               else Inl (invalid_feature_ref input
                 (fmt [label, '' separator must be followed by an alphanumeric character''])))"
  by pat_completeness auto
termination
proof (relation "measure (\<lambda>(input, label, s). length s)", goal_cases)
  case (3 input label c cs x next')
  then show ?case using length_dropWhile_le [of "\<lambda>n. n = CHR ''-''" cs] by (auto split: if_splits)
qed simp_all

definition validate_oci_feature_path_component :: "string \<Rightarrow> string \<Rightarrow> string \<Rightarrow> unit result" where
  "validate_oci_feature_path_component input component label =
     (case component of
        [] \<Rightarrow> Inl (invalid_feature_ref input (fmt [label, '' contains an empty path component'']))
      | first # rest \<Rightarrow>
          if \<not> is_ascii_alphanumeric first
          then Inl (invalid_feature_ref input
                 (fmt [label, '' component must start with an alphanumeric character'']))
          else validate_path_tail input label rest)"

fun validate_path_components :: "string \<Rightarrow> string list \<Rightarrow> string \<Rightarrow> unit result" where
  "validate_path_components input [] label = Inr ()"
| "validate_path_components input (component # components) label =
     bind_res (validate_oci_feature_path_component input component label)
       (\<lambda>_. validate_path_components input components label)"

definition validate_oci_feature_path :: "string \<Rightarrow> string \<Rightarrow> string \<Rightarrow> unit result" where
  "validate_oci_feature_path input path label =
     validate_path_components input (split_on (\<lambda>c. c = CHR ''/'') path) label"

definition is_tag_char :: "char \<Rightarrow> bool" where
  "is_tag_char c = (is_ascii_alphanumeric c \<or> c = CHR ''_'' \<or> c = CHR ''.'' \<or> c = CHR ''-'')"

definition validate_oci_feature_tag :: "string \<Rightarrow> string \<Rightarrow> unit result" where
  "validate_oci_feature_tag input tag =
     (case tag of
        [] \<Rightarrow> Inl (invalid_feature_ref input ''tag is empty'')
      | first # rest \<Rightarrow>
          if \<not> is_ascii_alphanumeric first \<and> first \<noteq> CHR ''_''
          then Inl (invalid_feature_ref input ''tag must start with an alphanumeric character or underscore'')
          else if 128 < length tag \<or> \<not> list_all is_tag_char rest
          then Inl (invalid_feature_ref input ''tag contains invalid characters'')
          else Inr ())"

definition validate_oci_digest :: "string \<Rightarrow> unit result" where
  "validate_oci_digest digest =
     bind_res (ok_or (strip_prefix ''sha256:'' digest)
       (fmt [''Unsupported OCI digest algorithm: '', digest])) (\<lambda>expected.
       if length expected \<noteq> 64 \<or> \<not> list_all (\<lambda>c. to_digit 16 c \<noteq> None) expected
       then Inl (fmt [''Invalid OCI sha256 digest: '', digest])
       else if \<not> list_all (\<lambda>c. is_ascii_lowercase c \<or> is_ascii_digit c) expected
       then Inl (fmt [''OCI sha256 digest must use lowercase hex: '', digest])
       else Inr ())"

section \<open>The parsers\<close>

definition parse_oci_feature_ref :: "string \<Rightarrow> oci_feature_ref result" where
  "parse_oci_feature_ref input =
     (if starts_with ''http://'' input \<or> starts_with ''https://'' input
      then Inl (invalid_feature_ref input ''direct HTTPS Feature tarballs are not supported'')
      else
     bind_res (split_digest input) (\<lambda>(without_digest, digest).
     let (without_tag, tag) = split_tag without_digest in
     bind_res (ok_or (split_once ''/'' without_tag)
       (invalid_feature_ref input ''missing registry or repository'')) (\<lambda>(registry, path).
     bind_res (ok_or (rsplit_once ''/'' path)
       (invalid_feature_ref input ''missing repository or feature id'')) (\<lambda>(repository, feature_id).
     if registry = [] \<or> repository = [] \<or> feature_id = [] \<or> tag = Some []
     then Inl (invalid_feature_ref input
            ''expected <registry>/<repository>/<feature-id>:<tag> or @<digest>'')
     else
     bind_res (validate_oci_feature_registry input registry) (\<lambda>_.
     bind_res (validate_oci_feature_path input repository ''repository'') (\<lambda>_.
     bind_res (validate_oci_feature_path_component input feature_id ''feature id'') (\<lambda>_.
     bind_res (case tag of Some t \<Rightarrow> validate_oci_feature_tag input t | None \<Rightarrow> Inr ()) (\<lambda>_.
     bind_res (case digest of
         Some d \<Rightarrow> map_err (\<lambda>error. invalid_feature_ref input (fmt [''invalid digest: '', error]))
                     (validate_oci_digest d)
       | None \<Rightarrow> Inr ()) (\<lambda>_.
     let registry = to_ascii_lowercase registry; repository = to_ascii_lowercase repository;
         feature_id = to_ascii_lowercase feature_id
     in Inr \<lparr>oci_original = input, oci_registry = registry, oci_repository = repository,
             oci_feature_id = feature_id,
             oci_tag = (case tag of Some t \<Rightarrow> Some t
                        | None \<Rightarrow> if digest = None then Some ''latest'' else None),
             oci_digest = digest,
             oci_canonical_id = fmt [registry, ''/'', repository, ''/'', feature_id]\<rparr>)))))))))"

definition parse_feature_ref :: "string \<Rightarrow> feature_ref result" where
  "parse_feature_ref input = bind_res (parse_oci_feature_ref input) (\<lambda>reference. Inr (Oci reference))"

definition normalize_component :: "string \<Rightarrow> string \<Rightarrow> path_component \<Rightarrow> string result" where
  "normalize_component input normalized component =
     (case component of
        Normal part \<Rightarrow> Inr (path_push normalized part)
      | Cur_Dir \<Rightarrow> Inr normalized
      | Parent_Dir \<Rightarrow> Inl (invalid_feature_ref input ''local Feature path must not contain .. traversal'')
      | Root_Dir \<Rightarrow> Inl (invalid_feature_ref input
          ''local Feature path must be relative to the devcontainer directory''))"

definition normalize_local_feature_relative_path :: "string \<Rightarrow> string \<Rightarrow> string result" where
  "normalize_local_feature_relative_path input relative =
     bind_res (try_fold (normalize_component input) [] (path_components relative)) (\<lambda>normalized.
       if normalized = [] then Inl (invalid_feature_ref input ''local feature path is empty'')
       else Inr normalized)"

definition parse_local_feature_ref :: "string \<Rightarrow> string \<Rightarrow> local_feature_ref result" where
  "parse_local_feature_ref input devcontainer_dir =
     bind_res (ok_or (case strip_prefix ''./'' input of
         Some path \<Rightarrow> if path = [] then None else Some path | None \<Rightarrow> None)
       (invalid_feature_ref input ''local feature path is empty'')) (\<lambda>relative.
     bind_res (normalize_local_feature_relative_path input relative) (\<lambda>relative.
       Inr \<lparr>local_original = input, local_path = path_push devcontainer_dir relative,
            local_canonical_id = fmt [''local:'', relative]\<rparr>))"

definition looks_like_relative_local_feature_path :: "string \<Rightarrow> bool" where
  "looks_like_relative_local_feature_path input =
     (starts_with ''.'' input \<or> length (split_on (\<lambda>c. c = CHR ''/'') input) = 2)"

definition parse_feature_ref_from_devcontainer_dir :: "string \<Rightarrow> string \<Rightarrow> feature_ref result" where
  "parse_feature_ref_from_devcontainer_dir input devcontainer_dir =
     (if starts_with ''./'' input
      then bind_res (parse_local_feature_ref input devcontainer_dir) (\<lambda>reference. Inr (Local reference))
      else if starts_with ''/'' input
      then Inl (invalid_feature_ref input
        ''local Feature path must not be absolute; use a ./ path relative to the devcontainer directory'')
      else if str_contains ''://'' input
      then Inl (invalid_feature_ref input ''URL scheme Feature refs are not supported'')
      else if input = ''..'' \<or> starts_with ''../'' input
      then Inl (invalid_feature_ref input
        ''local Feature path must not contain .. traversal; use a ./ path inside the devcontainer directory'')
      else map_err (\<lambda>error.
          if looks_like_relative_local_feature_path input
          then invalid_feature_ref input
            ''local Feature paths must start with ./ and stay inside the devcontainer directory''
          else error) (parse_feature_ref input))"

section \<open>Canonical forms of the configuration\<close>

definition canonical_feature_id :: "string \<Rightarrow> string" where
  "canonical_feature_id id' =
     (if starts_with ''./'' id' then id'
      else
        let without_digest = (case split_once ''@'' id' of Some (base, _) \<Rightarrow> base | None \<Rightarrow> id')
        in to_ascii_lowercase (fst (split_tag without_digest)))"

definition feature_merge_identity :: "string \<Rightarrow> string" where
  "feature_merge_identity id' =
     (let canonical_id = canonical_feature_id id'
      in if starts_with ''./'' id' then canonical_id
         else case split_once ''@'' id' of
                Some (_, digest) \<Rightarrow> fmt [canonical_id, ''@'', digest]
              | None \<Rightarrow> fmt [canonical_id, '':'',
                  case snd (split_tag id') of Some tag \<Rightarrow> tag | None \<Rightarrow> ''latest''])"

section \<open>Lower case keeps a reference valid\<close>

definition lower_char :: "char \<Rightarrow> char" where
  "lower_char c = (if 65 \<le> (of_char c :: nat) \<and> (of_char c :: nat) \<le> 90
     then char_of ((of_char c :: nat) + 32) else c)"

lemma to_ascii_lowercase_map: "to_ascii_lowercase s = map lower_char s"
  by (simp add: to_ascii_lowercase_def lower_char_def)

lemma of_char_lower: "(of_char (lower_char c) :: nat) =
    (if 65 \<le> (of_char c :: nat) \<and> (of_char c :: nat) \<le> 90 then of_char c + 32 else of_char c)"
  by (simp add: lower_char_def)

lemma lower_char_eq:
  assumes "(of_char d :: nat) < 65 \<or> 90 < (of_char d :: nat) \<and> (of_char d :: nat) < 97 \<or> 122 < (of_char d :: nat)"
  shows "lower_char c = d \<longleftrightarrow> c = d"
proof
  assume "lower_char c = d"
  then have "(of_char (lower_char c) :: nat) = of_char d" by simp
  with assms have "lower_char c = c" by (auto simp: of_char_lower lower_char_def split: if_splits)
  with \<open>lower_char c = d\<close> show "c = d" by simp
qed (use assms in \<open>auto simp: lower_char_def\<close>)

lemma lower_char_separators [simp]:
  "lower_char c = CHR ''-'' \<longleftrightarrow> c = CHR ''-''" "lower_char c = CHR ''.'' \<longleftrightarrow> c = CHR ''.''"
  "lower_char c = CHR ''_'' \<longleftrightarrow> c = CHR ''_''" "lower_char c = CHR '':'' \<longleftrightarrow> c = CHR '':''"
  "lower_char c = CHR ''/'' \<longleftrightarrow> c = CHR ''/''" "lower_char c = CHR ''@'' \<longleftrightarrow> c = CHR ''@''"
  "lower_char c = CHR ''['' \<longleftrightarrow> c = CHR ''[''" "lower_char c = CHR '']'' \<longleftrightarrow> c = CHR '']''"
  "lower_char c = CHR ''%'' \<longleftrightarrow> c = CHR ''%''" "lower_char c = CHR ''0'' \<longleftrightarrow> c = CHR ''0''"
  "lower_char c = CHR 0xC2 \<longleftrightarrow> c = CHR 0xC2"
  by (simp_all add: lower_char_eq)

lemma lower_char_classes [simp]:
  "is_ascii_alphanumeric (lower_char c) = is_ascii_alphanumeric c"
  "is_ascii_digit (lower_char c) = is_ascii_digit c"
  "is_ascii_control_or_space (lower_char c) = is_ascii_control_or_space c"
  "128 \<le> (of_char (lower_char c) :: nat) \<longleftrightarrow> 128 \<le> (of_char c :: nat)"
  by (auto simp: is_ascii_alphanumeric_def is_ascii_digit_def is_ascii_control_or_space_def of_char_lower Let_def)

lemma lower_char_high: "128 \<le> (of_char c :: nat) \<Longrightarrow> lower_char c = c"
  by (simp add: lower_char_def)

lemma to_digit_lower [simp]: "to_digit r (lower_char c) = to_digit r c"
  by (auto simp: to_digit_def of_char_lower Let_def)

lemma lower_idem [simp]: "lower_char (lower_char c) = lower_char c"
  by (simp add: lower_char_def)

lemma in_lower: "(\<And>c. lower_char c = d \<longleftrightarrow> c = d) \<Longrightarrow> d \<in> lower_char ` set s \<longleftrightarrow> d \<in> set s"
  by (induction s) (auto dest: sym)

lemma has_control_lower: "has_control_or_space (map lower_char s) = has_control_or_space s"
proof (induction s)
  case (Cons c s)
  have "s \<noteq> [] \<Longrightarrow> 128 \<le> (of_char (hd s) :: nat) \<Longrightarrow> lower_char (hd s) = hd s" by (rule lower_char_high)
  with Cons show ?case by (cases s) (auto simp: hd_map)
qed simp

lemma split_once_map:
  "(\<And>d. f d = c \<longleftrightarrow> d = c) \<Longrightarrow>
     split_once [c] (map f s) = map_option (\<lambda>(a, b). (map f a, map f b)) (split_once [c] s)"
proof (induction s)
  case (Cons a s)
  have fa: "f a = c \<longleftrightarrow> a = c" and fc: "f c = c" using Cons.prems by blast+
  have ih: "split_once [c] (map f s) = map_option (\<lambda>(a, b). (map f a, map f b)) (split_once [c] s)"
    using Cons by blast
  show ?case
  proof (cases "a = c")
    case True
    then show ?thesis by (simp add: fc)
  next
    case False
    then have "f a \<noteq> c" by (simp add: fa)
    with False show ?thesis by (simp add: ih option.map_comp comp_def case_prod_beta)
  qed
qed simp

lemma rsplit_once_map:
  "(\<And>d. f d = c \<longleftrightarrow> d = c) \<Longrightarrow>
     rsplit_once [c] (map f s) = map_option (\<lambda>(a, b). (map f a, map f b)) (rsplit_once [c] s)"
  by (simp add: rsplit_once_def rev_map split_once_map option.map_comp comp_def case_prod_beta)

lemma read_number_lower:
  "read_number r m z b (map lower_char s) = map_option (apsnd (map lower_char)) (read_number r m z b s)"
  by (auto simp: read_number_def Let_def takeWhile_map dropWhile_map comp_def digits_value_def foldl_map hd_map)

lemma read_separator_lower:
  assumes "\<And>s. inner (map lower_char s) = map_option (apsnd (map lower_char)) (inner s)" "\<And>c. lower_char c = sep \<longleftrightarrow> c = sep"
  shows "read_separator sep i inner (map lower_char s) = map_option (apsnd (map lower_char)) (read_separator sep i inner s)"
  using assms by (auto simp: read_separator_def split: list.splits)

lemma read_ipv4_lower:
  "read_ipv4 (map lower_char s) = map_option (apsnd (map lower_char)) (read_ipv4 s)"
  unfolding read_ipv4_def read_octet_def
  by (simp add: read_separator_lower read_number_lower split: option.split prod.split)

lemma read_groups_lower:
  "read_groups i n (map lower_char s) = (case read_groups i n s of (gs, v, r) \<Rightarrow> (gs, v, map lower_char r))"
proof (induction i n s rule: read_groups.induct)
  case (2 i n s)
  have 4: "read_separator CHR '':'' i read_ipv4 (map lower_char s) =
      map_option (apsnd (map lower_char)) (read_separator CHR '':'' i read_ipv4 s)"
    by (simp add: read_separator_lower read_ipv4_lower)
  have 6: "read_separator CHR '':'' i read_group (map lower_char s) =
      map_option (apsnd (map lower_char)) (read_separator CHR '':'' i read_group s)"
    unfolding read_group_def by (simp add: read_separator_lower read_number_lower)
  show ?case
    using 2 by (auto simp: 4 6 split: option.split prod.split)
qed simp

lemma strip_prefix_map:
  "(\<And>d p'. p' \<in> set p \<Longrightarrow> f d = p' \<longleftrightarrow> d = p') \<Longrightarrow>
     strip_prefix p (map f s) = map_option (map f) (strip_prefix p s)"
proof (induction p s rule: strip_prefix.induct)
  case (3 p ps c cs)
  have "f c = p \<longleftrightarrow> c = p" using 3(2) by simp
  with 3 show ?case by auto
qed simp_all

lemma read_ipv6_lower:
  "read_ipv6 (map lower_char s) = map_option (apsnd (map lower_char)) (read_ipv6 s)"
proof -
  obtain head v r where head: "read_groups 0 8 s = (head, v, r)" by (metis prod_cases3)
  have colons: "strip_prefix ''::'' (map lower_char r) = map_option (map lower_char) (strip_prefix ''::'' r)"
    by (rule strip_prefix_map) auto
  show ?thesis
  proof (cases "strip_prefix ''::'' r")
    case None
    then show ?thesis unfolding read_ipv6_def read_groups_lower head prod.case colons by simp
  next
    case (Some r2)
    obtain tl' v' r' where tail: "read_groups 0 (8 - (length head + 1)) r2 = (tl', v', r')" by (metis prod_cases3)
    show ?thesis unfolding read_ipv6_def read_groups_lower head prod.case colons Some option.map option.case tail
      by simp
  qed
qed

lemma port_text_lower: "is_port_text (map lower_char s) = is_port_text s"
  by (simp add: is_port_text_def list_all_iff)

lemma host_component_lower: "valid_host_component (map lower_char s) = valid_host_component s"
  by (cases "s = []") (simp_all add: valid_host_component_def list_all_iff hd_map last_map)

lemma validate_path_tail_lower:
  "validate_path_tail i l (map lower_char s) = Inr () \<longleftrightarrow> validate_path_tail i' l' s = Inr ()"
proof (induction i' l' s rule: validate_path_tail.induct)
  case (2 input label c cs)
  let ?rest = "\<lambda>c cs. if c = CHR ''-'' then Some (dropWhile (\<lambda>n. n = CHR ''-'') cs)
                    else if c = CHR ''_'' then Some (if cs \<noteq> [] \<and> hd cs = CHR ''_'' then tl cs else cs)
                    else if c = CHR ''.'' then Some cs
                    else None"
  have rest: "?rest (lower_char c) (map lower_char cs) = map_option (map lower_char) (?rest c cs)"
    by (cases "cs = []") (simp_all add: dropWhile_map comp_def hd_map map_tl)
  show ?case
  proof (cases "is_ascii_alphanumeric c")
    case True
    with 2(1) show ?thesis by simp
  next
    case False
    have ih: "?rest c cs = Some r \<Longrightarrow> r \<noteq> [] \<and> is_ascii_alphanumeric (hd r) \<Longrightarrow>
        validate_path_tail i l (map lower_char r) = Inr () \<longleftrightarrow> validate_path_tail input label r = Inr ()" for r
      by (rule 2(2) [OF False refl])
    have step: "validate_path_tail j k (c' # cs') = Inr () \<longleftrightarrow>
        (\<exists>r. ?rest c' cs' = Some r \<and> r \<noteq> [] \<and> is_ascii_alphanumeric (hd r) \<and> validate_path_tail j k r = Inr ())"
      if "\<not> is_ascii_alphanumeric c'" for j k c' cs'
      using that unfolding validate_path_tail.simps Let_def
      by (cases "?rest c' cs'") (simp_all only: option.case if_False if_True option.distinct option.inject simp_thms sum.distinct split: if_split, auto)
    show ?thesis
    proof (cases "?rest c cs")
      case None
      with rest False show ?thesis by (simp only: list.map step lower_char_classes) simp
    next
      case (Some r)
      with rest have "?rest (lower_char c) (map lower_char cs) = Some (map lower_char r)" by simp
      with Some ih [OF Some] show ?thesis
        unfolding list.map step [OF False] step [of "lower_char c", unfolded lower_char_classes, OF False]
        by (cases "r = []") (simp_all add: hd_map cong: conj_cong)
    qed
  qed
qed simp

lemma validate_component_lower:
  "validate_oci_feature_path_component i (map lower_char s) l = Inr () \<longleftrightarrow>
     validate_oci_feature_path_component i' s l' = Inr ()"
  using validate_path_tail_lower [of i l _ i' l'] by (auto simp: validate_oci_feature_path_component_def split: list.splits)

lemma validate_components_lower:
  "validate_path_components i (map (map lower_char) ps) l = Inr () \<longleftrightarrow> validate_path_components i' ps l' = Inr ()"
  using validate_component_lower [of i _ l i' l']
  by (induction ps) (auto simp: bind_res_Inr_iff)

lemma validate_path_lower:
  "validate_oci_feature_path i (map lower_char s) l = Inr () \<longleftrightarrow> validate_oci_feature_path i' s l' = Inr ()"
  by (simp add: validate_oci_feature_path_def split_on_map validate_components_lower [of i _ l i' l'])


lemma validate_registry_lower:
  "validate_oci_feature_registry i (map lower_char s) = Inr () \<longleftrightarrow> validate_oci_feature_registry i' s = Inr ()"
proof -
  have slash: "CHR ''/'' \<in> lower_char ` set s \<longleftrightarrow> CHR ''/'' \<in> set s"
    by (rule in_lower) simp
  have scheme: "str_contains ''://'' (map lower_char s) = str_contains ''://'' s"
    if "CHR ''/'' \<notin> set s"
  proof -
    have "\<not> str_contains ''://'' t" if "CHR ''/'' \<notin> set t" for t
      using that by (auto simp: str_contains_iff)
    from this [of s] this [of "map lower_char s"] that show ?thesis by (simp add: slash)
  qed
  have bracket: "strip_prefix ''['' (map lower_char s) = map_option (map lower_char) (strip_prefix ''['' s)"
    by (rule strip_prefix_map) simp
  then have open': "starts_with ''['' (map lower_char s) = starts_with ''['' s"
    by (simp add: starts_with_def)
  have percent: "CHR ''%'' \<in> lower_char ` set h \<longleftrightarrow> CHR ''%'' \<in> set h" for h
    by (rule in_lower) simp
  have ipv6: "validate_oci_feature_ipv6_registry i (map lower_char s) = Inr () \<longleftrightarrow>
      validate_oci_feature_ipv6_registry i' s = Inr ()"
  proof (cases "strip_prefix ''['' s")
    case None
    then have "strip_prefix ''['' (map lower_char s) = None" by (simp add: bracket)
    with None show ?thesis by (simp add: validate_oci_feature_ipv6_registry_def)
  next
    case (Some r)
    then have 1: "strip_prefix ''['' (map lower_char s) = Some (map lower_char r)" by (simp add: bracket)
    show ?thesis
    proof (cases "split_once '']'' r")
      case None
      then have "split_once '']'' (map lower_char r) = None" by (simp add: split_once_map)
      with 1 Some None show ?thesis by (simp add: validate_oci_feature_ipv6_registry_def)
    next
      case (Some hp)
      obtain h p where hp: "split_once '']'' r = Some (h, p)" using Some by (cases hp) auto
      then have 2: "split_once '']'' (map lower_char r) = Some (map lower_char h, map lower_char p)"
        by (simp add: split_once_map)
      have 3: "strip_prefix '':'' (map lower_char p) = map_option (map lower_char) (strip_prefix '':'' p)"
        by (rule strip_prefix_map) simp
      show ?thesis
        unfolding validate_oci_feature_ipv6_registry_def 1 \<open>strip_prefix ''['' s = Some r\<close> ok_or.simps
          bind_res.simps 2 hp prod.case 3 set_map percent read_ipv6_lower
        by (cases "strip_prefix '':'' p"; cases "read_ipv6 h") (auto simp: port_text_lower split: prod.splits)
    qed
  qed
  have host: "list_all valid_host_component (split_on (\<lambda>c. c = CHR ''.'') (map lower_char h)) =
      list_all valid_host_component (split_on (\<lambda>c. c = CHR ''.'') h)" for h
    by (simp add: split_on_map list_all_iff host_component_lower)
  have colon: "rsplit_once '':'' (map lower_char s) = map_option (\<lambda>(a, b). (map lower_char a, map lower_char b)) (rsplit_once '':'' s)"
    by (rule rsplit_once_map) simp
  show ?thesis
  proof (cases "CHR ''/'' \<in> set s \<or> has_control_or_space s \<or> str_contains ''://'' s")
    case True
    then show ?thesis using scheme by (auto simp: validate_oci_feature_registry_def slash has_control_lower)
  next
    case False
    then have no: "\<not> str_contains ''://'' (map lower_char s)" using scheme by blast
    show ?thesis
    proof (cases "rsplit_once '':'' s")
      case None
      with False no colon ipv6 show ?thesis
        by (simp add: validate_oci_feature_registry_def slash has_control_lower open' host)
    next
      case (Some ab)
      with False no colon ipv6 show ?thesis
        by (cases ab) (simp add: validate_oci_feature_registry_def slash has_control_lower open' host port_text_lower)
    qed
  qed
qed


lemma in_dropWhile: "x \<in> set xs \<Longrightarrow> P x \<or> x \<in> set (dropWhile P xs)"
  by (induction xs) auto

lemma validate_path_tail_chars:
  "validate_path_tail i l s = Inr () \<Longrightarrow> \<forall>c\<in>set s. is_tag_char c"
proof (induction i l s rule: validate_path_tail.induct)
  case (2 input label c cs)
  show ?case
  proof (cases "is_ascii_alphanumeric c")
    case True
    with 2 show ?thesis by (simp add: is_tag_char_def)
  next
    case False
    obtain r where r: "(if c = CHR ''-'' then Some (dropWhile (\<lambda>n. n = CHR ''-'') cs)
                    else if c = CHR ''_'' then Some (if cs \<noteq> [] \<and> hd cs = CHR ''_'' then tl cs else cs)
                    else if c = CHR ''.'' then Some cs else None) = Some r"
      using 2(3) False by (auto simp: Let_def split: option.splits)
    have next': "r \<noteq> [] \<and> is_ascii_alphanumeric (hd r)" "validate_path_tail input label r = Inr ()"
      using 2(3) False r by (simp_all add: Let_def split: if_splits)
    have tail: "\<forall>c\<in>set r. is_tag_char c" using 2(2) [OF False refl r] next' by blast
    have "is_tag_char c" using r by (auto simp: is_tag_char_def split: if_splits)
    moreover have "\<forall>d\<in>set cs. is_tag_char d"
    proof
      fix d assume d: "d \<in> set cs"
      show "is_tag_char d"
      proof (cases "d \<in> set r")
        case True
        with tail show ?thesis by blast
      next
        case False
        with d r have "d = CHR ''-'' \<or> d = CHR ''_''"
          using in_dropWhile [of d cs "\<lambda>n. n = CHR ''-''"] by (cases cs) (auto split: if_splits)
        then show ?thesis by (auto simp: is_tag_char_def)
      qed
    qed
    ultimately show ?thesis by simp
  qed
qed simp


lemma component_chars:
  assumes "validate_oci_feature_path_component i s l = Inr ()"
  shows "\<forall>c\<in>set s. is_tag_char c"
  using assms validate_path_tail_chars
  by (auto simp: validate_oci_feature_path_component_def is_tag_char_def split: list.splits if_splits)

lemma path_chars:
  assumes "validate_oci_feature_path i s l = Inr ()"
  shows "\<forall>c\<in>set s. is_tag_char c \<or> c = CHR ''/''"
proof
  have all: "validate_path_components i ps l = Inr () \<Longrightarrow> p \<in> set ps \<Longrightarrow> \<forall>c\<in>set p. is_tag_char c" for ps p
    by (induction ps) (auto simp: bind_res_Inr_iff dest: component_chars)
  fix c assume "c \<in> set s"
  then have "c = CHR ''/'' \<or> (\<exists>p\<in>set (split_on (\<lambda>c. c = CHR ''/'') s). c \<in> set p)" by (rule set_split_on)
  with all assms show "is_tag_char c \<or> c = CHR ''/''"
    unfolding validate_oci_feature_path_def by blast
qed

lemma tag_char_not [simp]:
  "\<not> is_tag_char CHR '':''" "\<not> is_tag_char CHR ''/''" "\<not> is_tag_char CHR ''@''"
  by (simp_all add: is_tag_char_def is_ascii_alphanumeric_def)

lemma rsplit_once_last: "rsplit_once [c] s = Some (a, b) \<Longrightarrow> c \<notin> set b"
proof -
  have first: "split_once [c] t = Some (x, y) \<Longrightarrow> c \<notin> set x" for t x y
    by (induction t arbitrary: x) (auto split: if_splits)
  show "rsplit_once [c] s = Some (a, b) \<Longrightarrow> c \<notin> set b"
    by (auto simp: rsplit_once_def dest: first)
qed

lemma split_once_char_None_iff: "split_once [c] s = None \<longleftrightarrow> c \<notin> set s"
  by (induction s) auto

lemma split_once_before: "split_once [c] s = Some (a, b) \<Longrightarrow> c \<notin> set a"
  by (induction s arbitrary: a) (auto split: if_splits)

text \<open>The parts of a reference that parses, before they are put into lower case.\<close>

definition reference_parts ::
  "string \<Rightarrow> string \<Rightarrow> string \<Rightarrow> string \<Rightarrow> string option \<Rightarrow> string option \<Rightarrow> bool" where
  "reference_parts input registry repository feature_id tag digest \<longleftrightarrow>
     input = registry @ ''/'' @ repository @ ''/'' @ feature_id @
       (case tag of Some t \<Rightarrow> '':'' @ t | None \<Rightarrow> []) @ (case digest of Some d \<Rightarrow> ''@'' @ d | None \<Rightarrow> []) \<and>
     registry \<noteq> [] \<and> repository \<noteq> [] \<and> CHR ''/'' \<notin> set registry \<and> CHR ''@'' \<notin> set registry \<and>
     (\<exists>i. validate_oci_feature_registry i registry = Inr ()) \<and>
     (\<exists>i. validate_oci_feature_path i repository ''repository'' = Inr ()) \<and>
     (\<exists>i. validate_oci_feature_path_component i feature_id ''feature id'' = Inr ()) \<and>
     (case tag of Some t \<Rightarrow> \<exists>i. validate_oci_feature_tag i t = Inr () | None \<Rightarrow> True) \<and>
     (case digest of Some d \<Rightarrow> validate_oci_digest d = Inr () | None \<Rightarrow> True)"

lemma validate_registry_input: "validate_oci_feature_registry i s = Inr () \<longleftrightarrow> validate_oci_feature_registry i' s = Inr ()"
  using validate_registry_lower by blast

lemma validate_path_input: "validate_oci_feature_path i s l = Inr () \<longleftrightarrow> validate_oci_feature_path i' s l' = Inr ()"
  using validate_path_lower by blast

lemma validate_component_input:
  "validate_oci_feature_path_component i s l = Inr () \<longleftrightarrow> validate_oci_feature_path_component i' s l' = Inr ()"
  using validate_component_lower by blast

lemma validate_tag_input: "validate_oci_feature_tag i t = Inr () \<longleftrightarrow> validate_oci_feature_tag i' t = Inr ()"
  by (auto simp: validate_oci_feature_tag_def split: list.splits)

lemma tag_chars: "validate_oci_feature_tag i t = Inr () \<Longrightarrow> t \<noteq> [] \<and> (\<forall>c\<in>set t. is_tag_char c)"
  by (auto simp: validate_oci_feature_tag_def list_all_iff is_tag_char_def split: list.splits if_splits)

lemma digest_chars: "validate_oci_digest d = Inr () \<Longrightarrow> d \<noteq> [] \<and> CHR ''@'' \<notin> set d"
  by (fastforce simp: validate_oci_digest_def result_elims strip_prefix_Some_iff list_all_iff is_ascii_lowercase_def
      is_ascii_digit_def split: if_splits)

definition build_reference ::
  "string \<Rightarrow> string \<Rightarrow> string \<Rightarrow> string \<Rightarrow> string option \<Rightarrow> string option \<Rightarrow> oci_feature_ref" where
  "build_reference input registry repository feature_id tag digest =
     \<lparr>oci_original = input, oci_registry = map lower_char registry, oci_repository = map lower_char repository,
      oci_feature_id = map lower_char feature_id,
      oci_tag = (case tag of Some t \<Rightarrow> Some t | None \<Rightarrow> if digest = None then Some ''latest'' else None),
      oci_digest = digest,
      oci_canonical_id = map lower_char registry @ ''/'' @ map lower_char repository @ ''/'' @ map lower_char feature_id\<rparr>"

lemma parts_facts:
  assumes "reference_parts input registry repository feature_id tag digest"
  shows "validate_oci_feature_registry i registry = Inr ()"
    and "validate_oci_feature_path i repository ''repository'' = Inr ()"
    and "validate_oci_feature_path_component i feature_id ''feature id'' = Inr ()"
    and "feature_id \<noteq> []" "CHR ''/'' \<notin> set feature_id" "CHR '':'' \<notin> set feature_id"
proof -
  note parts = assms [unfolded reference_parts_def]
  from parts show "validate_oci_feature_registry i registry = Inr ()" using validate_registry_input by blast
  from parts show "validate_oci_feature_path i repository ''repository'' = Inr ()" using validate_path_input by blast
  from parts have fid: "validate_oci_feature_path_component i feature_id ''feature id'' = Inr ()" for i
    using validate_component_input by blast
  from fid show "validate_oci_feature_path_component i feature_id ''feature id'' = Inr ()" .
  from fid [of "[]"] show "feature_id \<noteq> []" by (auto simp: validate_oci_feature_path_component_def)
  from component_chars [OF fid] show "CHR ''/'' \<notin> set feature_id" "CHR '':'' \<notin> set feature_id"
    using tag_char_not by blast+
qed

lemma registry_not:
  assumes "validate_oci_feature_registry i registry = Inr ()"
  shows "registry \<noteq> ''http:''" "registry \<noteq> ''https:''" "registry \<noteq> ''.''"
  using assms
  by (auto simp: validate_oci_feature_registry_def str_eval is_ascii_control_or_space_def is_port_text_def
      valid_host_component_def split: if_splits)

lemma parts_prefix:
  assumes parts: "reference_parts input registry repository feature_id tag digest" and "CHR ''/'' \<notin> set p"
    and "starts_with (p @ ''/'') input"
  shows "registry = p"
proof -
  from assms(3) obtain r where r: "input = p @ CHR ''/'' # r" by (auto simp: starts_with_def strip_prefix_Some_iff)
  have "split_once ''/'' input = Some (p, r)" unfolding r by (rule split_once_char [OF assms(2)])
  moreover from parts obtain r' where "input = registry @ CHR ''/'' # r'" "CHR ''/'' \<notin> set registry"
    by (auto simp: reference_parts_def)
  then have "split_once ''/'' input = Some (registry, r')" by (auto intro: split_once_char)
  ultimately show ?thesis by simp
qed

lemma parts_split:
  fixes registry repository feature_id
  defines "path \<equiv> registry @ ''/'' @ repository @ ''/'' @ feature_id"
  assumes "reference_parts input registry repository feature_id tag digest"
  shows "split_digest input = Inr (path @ (case tag of Some t \<Rightarrow> '':'' @ t | None \<Rightarrow> []), digest)"
    and "split_tag (path @ (case tag of Some t \<Rightarrow> '':'' @ t | None \<Rightarrow> [])) = (path, tag)"
proof -
  note path_def [simp]
  note parts = assms(2) [unfolded reference_parts_def]
  from parts have reg: "validate_oci_feature_registry i registry = Inr ()" for i
    using validate_registry_input by blast
  from parts have repo: "validate_oci_feature_path i repository ''repository'' = Inr ()" for i
    using validate_path_input by blast
  from parts have fid: "validate_oci_feature_path_component i feature_id ''feature id'' = Inr ()" for i
    using validate_component_input by blast
  have tag: "t \<noteq> [] \<and> (\<forall>c\<in>set t. is_tag_char c)" "validate_oci_feature_tag i t = Inr ()" if "tag = Some t" for t i
    using parts that tag_chars validate_tag_input by (auto, blast+)
  have digest: "validate_oci_digest d = Inr ()" "d \<noteq> []" if "digest = Some d" for d
    using parts that digest_chars by auto
  have repo_chars: "\<forall>c\<in>set repository. is_tag_char c \<or> c = CHR ''/''" using path_chars [OF repo] .
  have fid_chars: "\<forall>c\<in>set feature_id. is_tag_char c" "feature_id \<noteq> []"
    using component_chars [OF fid] fid [of "[]"] by (auto simp: validate_oci_feature_path_component_def)
  have fid_no: "CHR ''/'' \<notin> set feature_id" "CHR '':'' \<notin> set feature_id"
    using fid_chars(1) tag_char_not by blast+
  have no_at: "CHR ''@'' \<notin> set (path @ (case tag of Some t \<Rightarrow> '':'' @ t | None \<Rightarrow> []))"
    using parts repo_chars fid_chars tag by (auto split: option.splits)
  show "split_digest input = Inr (path @ (case tag of Some t \<Rightarrow> '':'' @ t | None \<Rightarrow> []), digest)"
  proof (cases digest)
    case None
    then have "split_once ''@'' input = None" using no_at parts by (intro split_once_char_None) simp
    with None parts show ?thesis by (simp add: split_digest_def)
  next
    case (Some d)
    have "split_once ''@'' input = Some (path @ (case tag of Some t \<Rightarrow> '':'' @ t | None \<Rightarrow> []), d)"
      using split_once_char [OF no_at, of d] parts Some by simp
    with Some parts digest show ?thesis by (auto simp: split_digest_def)
  qed
  show "split_tag (path @ (case tag of Some t \<Rightarrow> '':'' @ t | None \<Rightarrow> [])) = (path, tag)"
  proof (cases tag)
    case None
    show ?thesis
    proof (cases "rsplit_once '':'' path")
      case None
      with \<open>tag = None\<close> show ?thesis by (simp add: split_tag_def)
    next
      case (Some ab)
      then obtain a b where ab: "rsplit_once '':'' path = Some (a, b)" by (cases ab) auto
      have path: "path = a @ '':'' @ b" using rsplit_once_SomeD [OF ab] .
      have "CHR ''/'' \<in> set b"
      proof (rule ccontr)
        assume no: "CHR ''/'' \<notin> set b"
        have "rsplit_once ''/'' path = Some (registry @ ''/'' @ repository, feature_id)"
          using rsplit_once_char [of "CHR ''/''" feature_id "registry @ ''/'' @ repository"] fid_no
          by simp
        moreover have "\<exists>x. rsplit_once ''/'' (a @ '':'' @ b) = Some x" 
          using calculation path by simp
        moreover have "CHR '':'' \<in> set (snd (the (rsplit_once ''/'' (a @ '':'' @ b))))"
        proof -
          obtain u v where uv: "rsplit_once ''/'' (a @ '':'' @ b) = Some (u, v)" using calculation(2) by auto
          from rsplit_once_SomeD [OF uv] have "a @ '':'' @ b = u @ ''/'' @ v" .
          then show ?thesis using no uv by (auto simp: append_eq_append_conv2 append_eq_Cons_conv Cons_eq_append_conv)
        qed
        ultimately show False using path fid_no by auto
      qed
      with ab \<open>tag = None\<close> show ?thesis by (simp add: split_tag_def)
    qed
  next
    case (Some t)
    then have "CHR '':'' \<notin> set t" "CHR ''/'' \<notin> set t" using tag by auto
    with Some rsplit_once_char [of "CHR '':''" t path] show ?thesis by (simp add: split_tag_def)
  qed
qed

lemma parse_oci_of_parts:
  assumes "reference_parts input registry repository feature_id tag digest"
  shows "parse_oci_feature_ref input = Inr (build_reference input registry repository feature_id tag digest)"
proof -
  note parts = assms [unfolded reference_parts_def] and facts = parts_facts [OF assms] and split = parts_split [OF assms]
  have tag: "t \<noteq> []" "validate_oci_feature_tag i t = Inr ()" if "tag = Some t" for t i
    using parts that tag_chars validate_tag_input by (auto, blast+)
  have 3: "split_once ''/'' (registry @ ''/'' @ repository @ ''/'' @ feature_id) =
      Some (registry, repository @ ''/'' @ feature_id)"
    using split_once_char [of "CHR ''/''" registry "repository @ ''/'' @ feature_id"] parts by simp
  have 4: "rsplit_once ''/'' (repository @ ''/'' @ feature_id) = Some (repository, feature_id)"
    using rsplit_once_char [of "CHR ''/''" feature_id repository] facts by simp
  have no_http: "\<not> starts_with ''http://'' input" "\<not> starts_with ''https://'' input"
  proof -
    have "starts_with (p @ ''/'') input" if "starts_with (p @ ''//'') input" for p
      using that by (auto simp: starts_with_def strip_prefix_Some_iff)
    from this [of "''http:''"] this [of "''https:''"] show "\<not> starts_with ''http://'' input" "\<not> starts_with ''https://'' input"
      using parts_prefix [OF assms, of "''http:''"] parts_prefix [OF assms, of "''https:''"]
        registry_not [OF facts(1)] by auto
  qed
  have ne: "(registry = [] \<or> repository = [] \<or> feature_id = [] \<or> tag = Some []) = False"
    using parts facts tag by auto
  have tag_ok: "(case tag of None \<Rightarrow> Inr () | Some t \<Rightarrow> validate_oci_feature_tag input t) = Inr ()"
    using tag by (cases tag) simp_all
  have digest_ok: "(case digest of None \<Rightarrow> Inr () | Some d \<Rightarrow> map_err f (validate_oci_digest d)) = Inr ()" for f
    using parts by (cases digest) simp_all
  show ?thesis
    unfolding parse_oci_feature_ref_def split bind_res.simps prod.case Let_def 3 4 ok_or.simps ne facts(1-3)
      tag_ok digest_ok build_reference_def to_ascii_lowercase_map fmt_def
    using no_http by simp
qed


lemma parts_of_parse:
  assumes "parse_oci_feature_ref input = Inr r"
  obtains registry repository feature_id tag digest where
    "reference_parts input registry repository feature_id tag digest"
    "r = build_reference input registry repository feature_id tag digest"
proof -
  from assms obtain without_digest digest where 1: "split_digest input = Inr (without_digest, digest)"
    by (auto simp: parse_oci_feature_ref_def bind_res_Inr_iff split: if_splits)
  obtain without_tag tag where 2: "split_tag without_digest = (without_tag, tag)" by (cases "split_tag without_digest") auto
  from assms 1 2 obtain registry path where 3: "split_once ''/'' without_tag = Some (registry, path)"
    by (auto simp: parse_oci_feature_ref_def result_elims split: if_splits)
  from assms 1 2 3 obtain repository feature_id where 4: "rsplit_once ''/'' path = Some (repository, feature_id)"
    by (auto simp: parse_oci_feature_ref_def result_elims split: if_splits)
  have ok: "registry \<noteq> []" "repository \<noteq> []" "tag \<noteq> Some []"
      "validate_oci_feature_registry input registry = Inr ()"
      "validate_oci_feature_path input repository ''repository'' = Inr ()"
      "validate_oci_feature_path_component input feature_id ''feature id'' = Inr ()"
      "\<forall>t. tag = Some t \<longrightarrow> validate_oci_feature_tag input t = Inr ()"
      "\<forall>d. digest = Some d \<longrightarrow> validate_oci_digest d = Inr ()"
    using assms unfolding parse_oci_feature_ref_def 1 bind_res.simps prod.case Let_def 2 3 4 ok_or.simps
    by (auto simp: result_elims split: if_splits option.splits)
  have r: "r = build_reference input registry repository feature_id tag digest"
    using assms unfolding parse_oci_feature_ref_def 1 bind_res.simps prod.case Let_def 2 3 4 ok_or.simps
    by (auto simp: result_elims build_reference_def to_ascii_lowercase_map fmt_def split: if_splits)
  have digest_text: "input = without_digest @ (case digest of Some d \<Rightarrow> ''@'' @ d | None \<Rightarrow> [])"
      "CHR ''@'' \<notin> set without_digest"
    using 1 split_once_char_None_iff split_once_SomeD [of "''@''" input] split_once_before [of "CHR ''@''" input]
    by (auto simp: split_digest_def split: option.splits if_splits)
  have tag_text: "without_digest = without_tag @ (case tag of Some t \<Rightarrow> '':'' @ t | None \<Rightarrow> [])"
    using 2 rsplit_once_SomeD [of "'':''" without_digest]
    by (auto simp: split_tag_def split: option.splits if_splits)
  have "reference_parts input registry repository feature_id tag digest"
    unfolding reference_parts_def
    using ok digest_text tag_text split_once_SomeD [OF 3] split_once_before [OF 3] rsplit_once_SomeD [OF 4]
    by (auto split: option.splits)
  with r show ?thesis using that by blast
qed


lemma latest_tag: "validate_oci_feature_tag i ''latest'' = Inr ()"
  by (simp add: validate_oci_feature_tag_def is_tag_char_def is_ascii_alphanumeric_def)

lemma parts_lower:
  assumes "reference_parts input registry repository feature_id tag digest"
    and "case t of Some t \<Rightarrow> \<exists>i. validate_oci_feature_tag i t = Inr () | None \<Rightarrow> True"
  shows "reference_parts (map lower_char registry @ ''/'' @ map lower_char repository @ ''/'' @ map lower_char feature_id @
       (case t of Some t \<Rightarrow> '':'' @ t | None \<Rightarrow> []) @ (case digest of Some d \<Rightarrow> ''@'' @ d | None \<Rightarrow> []))
     (map lower_char registry) (map lower_char repository) (map lower_char feature_id) t digest"
proof -
  note facts = parts_facts [OF assms(1)]
  have "validate_oci_feature_registry [] (map lower_char registry) = Inr ()"
    "validate_oci_feature_path [] (map lower_char repository) ''repository'' = Inr ()"
    "validate_oci_feature_path_component [] (map lower_char feature_id) ''feature id'' = Inr ()"
    using facts validate_registry_lower validate_path_lower validate_component_lower by blast+
  then show ?thesis using assms unfolding reference_parts_def by (auto simp: in_lower)
qed

lemma normalized_parses:
  assumes "parse_oci_feature_ref input = Inr r"
  shows "parse_oci_feature_ref (normalized_reference r) =
    Inr (r\<lparr>oci_original := normalized_reference r,
           oci_tag := (if oci_digest r = None then oci_tag r else None)\<rparr>)"
proof -
  from assms obtain registry repository feature_id tag digest where
    parts: "reference_parts input registry repository feature_id tag digest"
    and r: "r = build_reference input registry repository feature_id tag digest" by (rule parts_of_parse)
  define t where "t = (if digest = None then oci_tag r else None)"
  have t: "case t of Some t \<Rightarrow> \<exists>i. validate_oci_feature_tag i t = Inr () | None \<Rightarrow> True"
    using parts latest_tag by (auto simp: t_def r build_reference_def reference_parts_def split: option.splits)
  have normal: "normalized_reference r = map lower_char registry @ ''/'' @ map lower_char repository @ ''/'' @
      map lower_char feature_id @ (case t of Some t \<Rightarrow> '':'' @ t | None \<Rightarrow> []) @
      (case digest of Some d \<Rightarrow> ''@'' @ d | None \<Rightarrow> [])"
    by (auto simp: normalized_reference_def t_def r build_reference_def fmt_def split: option.splits)
  show ?thesis
    unfolding parse_oci_of_parts [OF parts_lower [OF parts t], folded normal]
    by (auto simp: r build_reference_def t_def comp_def split: option.splits)
qed

lemma canonical_agrees:
  assumes "parse_feature_ref input = Inr r"
  shows "canonical_feature_id input = ref_canonical_id r"
proof -
  from assms obtain oci where oci: "parse_oci_feature_ref input = Inr oci" "r = Oci oci"
    by (auto simp: parse_feature_ref_def bind_res_Inr_iff)
  from oci(1) obtain registry repository feature_id tag digest where
    parts: "reference_parts input registry repository feature_id tag digest"
    and r: "oci = build_reference input registry repository feature_id tag digest" by (rule parts_of_parse)
  have not_local: "\<not> starts_with ''./'' input"
    using parts_prefix [OF parts, of "''.''"] registry_not(3) [OF parts_facts(1) [OF parts]] by auto
  note split = parts_split [OF parts]
  have "(case split_once ''@'' input of Some (base, _) \<Rightarrow> base | None \<Rightarrow> input) =
      (registry @ ''/'' @ repository @ ''/'' @ feature_id) @ (case tag of Some t \<Rightarrow> '':'' @ t | None \<Rightarrow> [])"
    using split(1) by (auto simp: split_digest_def split: option.splits if_splits)
  then show ?thesis
    unfolding canonical_feature_id_def Let_def if_not_P [OF not_local] using split(2)
    by (simp add: oci(2) r build_reference_def to_ascii_lowercase_map)
qed

section \<open>Properties\<close>

text \<open>The normalized reference of a reference that parses parses back to the same registry,
  repository, Feature, canonical id and digest, and to the same tag where it has no
  digest.\<close>

theorem normalized_reference_parses_back:
  assumes "parse_oci_feature_ref input = Inr r"
  shows "parse_oci_feature_ref (normalized_reference r) =
    Inr (r\<lparr>oci_original := normalized_reference r,
           oci_tag := (if oci_digest r = None then oci_tag r else None)\<rparr>)"
  using assms by (rule normalized_parses)

text \<open>C20. The canonical id that the configuration computes textually for an OCI reference
  is the canonical id that the reference parser computes.\<close>

theorem canonical_ids_agree:
  assumes "parse_feature_ref input = Inr r"
  shows "canonical_feature_id input = ref_canonical_id r"
  using assms by (rule canonical_agrees)

lemmas reference_eval = parse_oci_feature_ref_def split_digest_def split_tag_def validate_oci_feature_registry_def
  validate_oci_feature_path_def validate_oci_feature_path_component_def validate_oci_feature_tag_def is_tag_char_def
  is_ascii_alphanumeric_def is_ascii_control_or_space_def is_port_text_def valid_host_component_def
  to_ascii_lowercase_map lower_char_def

lemma example_reference:
  "parse_oci_feature_ref ''GHCR.io/dev/features/go:1'' =
     Inr \<lparr>oci_original = ''GHCR.io/dev/features/go:1'', oci_registry = ''ghcr.io'', oci_repository = ''dev/features'',
          oci_feature_id = ''go'', oci_tag = Some ''1'', oci_digest = None, oci_canonical_id = ''ghcr.io/dev/features/go''\<rparr>"
  by (simp add: reference_eval str_eval fmt_def char_of_def bit_Suc_0_iff Let_def)

theorem normalized_reference_parses_back_witness:
  "\<exists>r. parse_oci_feature_ref ''GHCR.io/dev/features/go:1'' = Inr r \<and>
     normalized_reference r = ''ghcr.io/dev/features/go:1'' \<and>
     parse_oci_feature_ref ''ghcr.io/dev/features/go:1'' = Inr (r\<lparr>oci_original := ''ghcr.io/dev/features/go:1''\<rparr>)"
proof -
  define r where "r = \<lparr>oci_original = ''GHCR.io/dev/features/go:1'', oci_registry = ''ghcr.io'',
     oci_repository = ''dev/features'', oci_feature_id = ''go'', oci_tag = Some ''1'', oci_digest = None,
     oci_canonical_id = ''ghcr.io/dev/features/go''\<rparr>"
  have parsed: "parse_oci_feature_ref ''GHCR.io/dev/features/go:1'' = Inr r"
    unfolding r_def by (rule example_reference)
  have normal: "normalized_reference r = ''ghcr.io/dev/features/go:1''"
    by (simp add: r_def normalized_reference_def fmt_def)
  have "r\<lparr>oci_original := x, oci_tag := if oci_digest r = None then oci_tag r else None\<rparr> = r\<lparr>oci_original := x\<rparr>" for x
    by (simp add: r_def)
  note again = normalized_reference_parses_back [OF parsed, unfolded normal this]
  show ?thesis by (rule exI [of _ r], intro conjI parsed normal again)
qed

theorem canonical_ids_agree_witness:
  "canonical_feature_id ''GHCR.io/dev/features/go:1'' = ''ghcr.io/dev/features/go''"
proof -
  have parsed: "parse_feature_ref ''GHCR.io/dev/features/go:1'' = Inr (Oci
      \<lparr>oci_original = ''GHCR.io/dev/features/go:1'', oci_registry = ''ghcr.io'', oci_repository = ''dev/features'',
       oci_feature_id = ''go'', oci_tag = Some ''1'', oci_digest = None, oci_canonical_id = ''ghcr.io/dev/features/go''\<rparr>)"
    by (simp add: parse_feature_ref_def example_reference)
  from canonical_ids_agree [OF parsed] show ?thesis by simp
qed

lemma path_push_join:
  assumes "\<forall>p\<in>set ps. p \<noteq> [] \<and> CHR ''/'' \<notin> set p" "q \<noteq> []" "CHR ''/'' \<notin> set q" "ps \<noteq> []"
  shows "path_push (str_join ''/'' ps) q = str_join ''/'' (ps @ [q])"
proof -
  have last: "str_join ''/'' ps \<noteq> [] \<and> last (str_join ''/'' ps) \<noteq> CHR ''/''"
    using assms(1,4) by (induction "''/''" ps rule: str_join.induct) (auto dest: last_in_set)
  have join: "str_join ''/'' (ps @ [q]) = str_join ''/'' ps @ ''/'' @ q"
    using assms(4) by (induction "''/''" ps rule: str_join.induct) auto
  have "\<not> starts_with ''/'' q" using assms(2,3) by (cases q) (auto simp: starts_with_def)
  with last join show ?thesis by (simp add: path_push_def)
qed

lemma normal_iff: "(case c of Normal p \<Rightarrow> Some p | _ \<Rightarrow> None) = Some p \<longleftrightarrow> c = Normal p"
  by (cases c) auto

lemma normalize_components:
  assumes "try_fold (normalize_component input) (str_join ''/'' done') cs = Inr path"
    and "\<forall>p\<in>set done'. p \<noteq> [] \<and> CHR ''/'' \<notin> set p"
    and "\<forall>p. Normal p \<in> set cs \<longrightarrow> p \<noteq> [] \<and> CHR ''/'' \<notin> set p"
  shows "path = str_join ''/'' (done' @ filter_map (\<lambda>c. case c of Normal p \<Rightarrow> Some p | _ \<Rightarrow> None) cs)"
  using assms
proof (induction cs arbitrary: done')
  case (Cons c cs)
  show ?case
  proof (cases c)
    case (Normal p)
    have push: "path_push (str_join ''/'' done') p = str_join ''/'' (done' @ [p])"
    proof (cases "done' = []")
      case True
      then show ?thesis by (simp add: path_push_def)
    qed (use Cons.prems Normal path_push_join in simp)
    show ?thesis using Cons.IH [of "done' @ [p]"] Cons.prems Normal push
      by (simp add: normalize_component_def)
  qed (use Cons in \<open>simp_all add: normalize_component_def\<close>)
qed simp

text \<open>A local reference that parses names a path below the devcontainer directory whose
  components are no dots, and its canonical id is that relative path.\<close>

theorem local_features_stay_below:
  assumes "parse_feature_ref_from_devcontainer_dir input dir = Inr (Local r)"
  shows "\<exists>parts. parts \<noteq> [] \<and> (\<forall>p\<in>set parts. p \<noteq> [] \<and> p \<noteq> ''.'' \<and> p \<noteq> ''..'' \<and> CHR ''/'' \<notin> set p) \<and>
    local_path r = path_push dir (str_join ''/'' parts) \<and> local_canonical_id r = ''local:'' @ str_join ''/'' parts"
proof -
  from assms have "parse_local_feature_ref input dir = Inr r"
    by (auto simp: parse_feature_ref_from_devcontainer_dir_def parse_feature_ref_def result_elims split: if_splits)
  then obtain relative path where relative: "normalize_local_feature_relative_path input relative = Inr path"
    and r: "local_path r = path_push dir path" "local_canonical_id r = ''local:'' @ path"
    by (auto simp: parse_local_feature_ref_def result_elims fmt_def)
  from relative have fold: "try_fold (normalize_component input) (str_join ''/'' []) (path_components relative) = Inr path"
      and ne: "path \<noteq> []"
    by (auto simp: normalize_local_feature_relative_path_def bind_res_Inr_iff split: if_splits)
  have normal: "p \<noteq> [] \<and> p \<noteq> ''.'' \<and> p \<noteq> ''..'' \<and> CHR ''/'' \<notin> set p" if "Normal p \<in> set (path_components relative)" for p
    using that split_on_pieces [of p "\<lambda>c. c = CHR ''/''" relative]
    by (auto simp: path_components_def Let_def set_filter_map split: if_splits)
  define parts where "parts = filter_map (\<lambda>c. case c of Normal p \<Rightarrow> Some p | _ \<Rightarrow> None) (path_components relative)"
  have path: "path = str_join ''/'' parts"
    using normalize_components [OF fold] normal by (simp add: parts_def)
  have "\<forall>p\<in>set parts. p \<noteq> [] \<and> p \<noteq> ''.'' \<and> p \<noteq> ''..'' \<and> CHR ''/'' \<notin> set p"
    using normal unfolding parts_def set_filter_map normal_iff by blast
  moreover have "parts \<noteq> []" using ne path by auto
  ultimately show ?thesis using r path by blast
qed

theorem local_features_stay_below_witness:
  "\<exists>r. parse_feature_ref_from_devcontainer_dir ''./a//./b/'' ''/w'' = Inr (Local r) \<and> local_path r = ''/w/a/b'' \<and>
     (\<exists>parts. parts \<noteq> [] \<and> local_path r = path_push ''/w'' (str_join ''/'' parts))"
proof -
  have eval: "parse_feature_ref_from_devcontainer_dir ''./a//./b/'' ''/w'' =
      Inr (Local \<lparr>local_original = ''./a//./b/'', local_path = ''/w/a/b'', local_canonical_id = ''local:a/b''\<rparr>)"
    by (simp add: parse_feature_ref_from_devcontainer_dir_def parse_local_feature_ref_def starts_with_def
        normalize_local_feature_relative_path_def path_components_def normalize_component_def path_push_def fmt_def)
  from local_features_stay_below [OF eval] eval show ?thesis by auto
qed

end
