(* ===== verification/Feature_Options.thy ===== *)
theory Feature_Options
  imports Compose_Model
begin

text \<open>
  The options of a Feature, from \<open>src/devcontainer/features/options.rs\<close> and \<open>metadata.rs\<close>: the
  schema of an option, the validation of a metadata document, and the environment that passes
  the configured options and the defaults to the install script. A TOML value is that of the
  crate \<open>toml\<close>; a float is kept as its bits and, like a date, as the
  text the crate writes for it.
\<close>

datatype toml =
    T_String string
  | T_Integer int
  | T_Float u64 string
  | T_Boolean bool
  | T_Datetime string
  | T_Array "toml list"
  | T_Table "(string \<times> toml) list"

definition show_bool :: "bool \<Rightarrow> string" where
  "show_bool b = (if b then ''true'' else ''false'')"

definition show_int :: "int \<Rightarrow> string" where
  "show_int i = (if i < 0 then CHR ''-'' # show_nat (nat (- i)) else show_nat (nat i))"

section \<open>Metadata\<close>

record feature_option_schema =
  os_option_type :: "string option"
  os_default :: "json option"
  os_enum_values :: "string list"
  os_proposals :: "string list"
  os_description :: "string option"

record feature_metadata =
  fm_id :: string
  fm_version :: string
  fm_name :: string
  fm_legacy_ids :: "string list"
  fm_depends_on :: "(string, json) btree_map"
  fm_installs_after :: "string list"
  fm_options :: "(string, feature_option_schema) btree_map"

record resolved_feature =
  rf_id :: string
  rf_canonical_id :: string
  rf_options :: "(string, toml) btree_map"

fun json_is_string :: "json \<Rightarrow> bool" where
  "json_is_string (J_String _) = True"
| "json_is_string _ = False"

fun json_is_boolean :: "json \<Rightarrow> bool" where
  "json_is_boolean (J_Bool _) = True"
| "json_is_boolean _ = False"

fun json_is_object :: "json \<Rightarrow> bool" where
  "json_is_object (J_Object _) = True"
| "json_is_object _ = False"

fun json_array_is_strings :: "json \<Rightarrow> bool" where
  "json_array_is_strings (J_Array elements) = list_all json_is_string elements"
| "json_array_is_strings _ = False"

definition feature_metadata_property_is_supported :: "string \<Rightarrow> bool" where
  "feature_metadata_property_is_supported property =
     (property \<in> {''id'', ''version'', ''name'', ''description'', ''documentationURL'', ''licenseURL'', ''keywords'',
       ''legacyIds'', ''deprecated'', ''options'', ''dependsOn'', ''installsAfter'', ''containerEnv'',
       ''customizations'', ''entrypoint'', ''init'', ''privileged'', ''capAdd'', ''securityOpt'', ''mounts'',
       ''onCreateCommand'', ''updateContentCommand'', ''postCreateCommand'', ''postStartCommand'',
       ''postAttachCommand''})"

text \<open>The first element of a list that a check refuses gives the error.\<close>

fun check_all :: "('a \<Rightarrow> 'e option) \<Rightarrow> 'a list \<Rightarrow> 'e + unit" where
  "check_all check [] = Inr ()"
| "check_all check (x # xs) = (case check x of Some e \<Rightarrow> Inl e | None \<Rightarrow> check_all check xs)"

definition refuse :: "bool \<Rightarrow> string list \<Rightarrow> string option" where
  "refuse refused message = (if refused then Some (fmt message) else None)"

definition validate_feature_metadata_document :: "json \<Rightarrow> unit result" where
  "validate_feature_metadata_document raw =
     bind_res (ok_or (json_as_object raw) ''Feature metadata must be a JSON object'') (\<lambda>object.
     bind_res (check_all (\<lambda>required. refuse (\<not> bt_contains_key object required)
         [''Feature metadata must specify '', required]) [''id'', ''version'', ''name'']) (\<lambda>_.
     bind_res (check_all (\<lambda>property. refuse (\<not> feature_metadata_property_is_supported property)
         [''Unsupported Feature metadata property: '', property]) (bt_keys object)) (\<lambda>_.
     bind_res (check_all (\<lambda>property. case bt_get object property of
           Some v \<Rightarrow> refuse (\<not> json_is_object v) [''Feature metadata customizations must be an object'']
         | None \<Rightarrow> None) [''customizations'']) (\<lambda>_.
     bind_res (check_all (\<lambda>property. case bt_get object property of
           Some v \<Rightarrow> refuse (\<not> json_is_string v) [''Feature metadata '', property, '' must be a string'']
         | None \<Rightarrow> None)
       [''id'', ''version'', ''name'', ''description'', ''documentationURL'', ''licenseURL'']) (\<lambda>_.
     bind_res (check_all (\<lambda>property. case bt_get object property of
           Some v \<Rightarrow> refuse (\<not> json_array_is_strings v)
             [''Feature metadata '', property, '' must be an array of strings'']
         | None \<Rightarrow> None) [''keywords'', ''legacyIds'']) (\<lambda>_.
     check_all (\<lambda>property. case bt_get object property of
         Some v \<Rightarrow> refuse (\<not> json_is_boolean v) [''Feature metadata deprecated must be a boolean'']
       | None \<Rightarrow> None) [''deprecated'']))))))"

definition validate_feature_option_schema :: "string \<Rightarrow> string \<Rightarrow> feature_option_schema \<Rightarrow> unit result" where
  "validate_feature_option_schema feature_id option' schema =
     bind_res (ok_or (os_option_type schema)
       (fmt [''Feature option '', feature_id, ''.'', option', '' must specify type''])) (\<lambda>option_type.
     if option_type = ''string'' then
       bind_res (ok_or (os_default schema)
         (fmt [''Feature option '', feature_id, ''.'', option', '' must specify default''])) (\<lambda>default_value.
       if \<not> json_is_string default_value
       then Inl (fmt [''Feature option default '', feature_id, ''.'', option', '' must be a string''])
       else if os_enum_values schema \<noteq> [] \<and> os_proposals schema \<noteq> []
       then Inl (fmt [''Feature option '', feature_id, ''.'', option', '' must not declare both enum and proposals''])
       else Inr ())
     else if option_type = ''boolean'' then
       bind_res (ok_or (os_default schema)
         (fmt [''Feature option '', feature_id, ''.'', option', '' must specify default''])) (\<lambda>default_value.
       if \<not> json_is_boolean default_value
       then Inl (fmt [''Feature option default '', feature_id, ''.'', option', '' must be a boolean''])
       else if os_enum_values schema \<noteq> [] \<or> os_proposals schema \<noteq> []
       then Inl (fmt [''Feature option '', feature_id, ''.'', option',
                      '' boolean schema must not declare enum or proposals''])
       else Inr ())
     else Inl (fmt [''Unsupported Feature option type for '', feature_id, ''.'', option', '': '', option_type]))"

fun validate_option_schemas :: "string \<Rightarrow> (string \<times> feature_option_schema) list \<Rightarrow> unit result" where
  "validate_option_schemas feature_id [] = Inr ()"
| "validate_option_schemas feature_id ((option', schema) # schemas) =
     bind_res (validate_feature_option_schema feature_id option' schema)
       (\<lambda>_. validate_option_schemas feature_id schemas)"

definition validate_feature_metadata_schema :: "feature_metadata \<Rightarrow> unit result" where
  "validate_feature_metadata_schema metadata =
     (if trim (fm_id metadata) = [] then Inl ''Feature metadata id must not be empty''
      else if trim (fm_version metadata) = [] then Inl ''Feature metadata version must not be empty''
      else if trim (fm_name metadata) = [] then Inl ''Feature metadata name must not be empty''
      else validate_option_schemas (fm_id metadata) (fm_options metadata))"

section \<open>Option values\<close>

fun feature_option_sort_value :: "toml \<Rightarrow> string" where
  "feature_option_sort_value (T_String s) = s"
| "feature_option_sort_value (T_Boolean b) = show_bool b"
| "feature_option_sort_value (T_Integer i) = show_int i"
| "feature_option_sort_value (T_Float bits s) = s"
| "feature_option_sort_value (T_Datetime s) = s"
| "feature_option_sort_value (T_Array elements) = str_join '','' (map feature_option_sort_value elements)"
| "feature_option_sort_value (T_Table entries) =
     str_join '','' (map (\<lambda>(key, element). fmt [key, ''='', feature_option_sort_value element]) entries)"

definition feature_options_sort_key :: "(string, toml) btree_map \<Rightarrow> (string \<times> string) list" where
  "feature_options_sort_key options =
     map (\<lambda>(key, v). (key, feature_option_sort_value v)) (filter (\<lambda>(key, _). key \<noteq> ''enabled'') options)"

definition validate_feature_option_enum ::
  "string \<Rightarrow> string \<Rightarrow> string \<Rightarrow> feature_option_schema option \<Rightarrow> unit result" where
  "validate_feature_option_enum feature_id option' v schema =
     (case schema of
        Some s \<Rightarrow>
          if os_enum_values s \<noteq> [] \<and> v \<notin> set (os_enum_values s)
          then Inl (fmt [''Feature option '', feature_id, ''.'', option', '' must be one of the declared enum values''])
          else Inr ()
      | None \<Rightarrow> Inr ())"

definition schema_type :: "feature_option_schema option \<Rightarrow> string option" where
  "schema_type schema = Option.bind schema os_option_type"

definition feature_option_toml_value ::
  "string \<Rightarrow> string \<Rightarrow> toml \<Rightarrow> feature_option_schema option \<Rightarrow> string result" where
  "feature_option_toml_value feature_id option' v schema =
     bind_res
       (case v of
          T_String s \<Rightarrow>
            if schema_type schema = Some ''boolean''
            then Inl (fmt [''Feature option '', feature_id, ''.'', option', '' must be a boolean''])
            else Inr s
        | T_Boolean b \<Rightarrow>
            if schema_type schema = Some ''string''
            then Inl (fmt [''Feature option '', feature_id, ''.'', option', '' must be a string''])
            else Inr (show_bool b)
        | _ \<Rightarrow> Inl (fmt [''Unsupported Feature option value for '', feature_id, ''.'', option'])) (\<lambda>resolved.
     bind_res (validate_feature_option_enum feature_id option' resolved schema) (\<lambda>_. Inr resolved))"

definition feature_option_json_value ::
  "string \<Rightarrow> string \<Rightarrow> json \<Rightarrow> feature_option_schema \<Rightarrow> string result" where
  "feature_option_json_value feature_id option' v schema =
     bind_res
       (case v of
          J_String s \<Rightarrow>
            if os_option_type schema = Some ''boolean''
            then Inl (fmt [''Feature option default '', feature_id, ''.'', option', '' must be a boolean''])
            else Inr s
        | J_Bool b \<Rightarrow>
            if os_option_type schema = Some ''string''
            then Inl (fmt [''Feature option default '', feature_id, ''.'', option', '' must be a string''])
            else Inr (show_bool b)
        | _ \<Rightarrow> Inl (fmt [''Unsupported Feature option default for '', feature_id, ''.'', option'])) (\<lambda>resolved.
     bind_res (validate_feature_option_enum feature_id option' resolved (Some schema)) (\<lambda>_. Inr resolved))"

section \<open>The environment of the install script\<close>

definition to_ascii_uppercase :: "string \<Rightarrow> string" where
  "to_ascii_uppercase s =
     map (\<lambda>c. if 97 \<le> (of_char c :: nat) \<and> (of_char c :: nat) \<le> 122
              then char_of ((of_char c :: nat) - 32) else c) s"

text \<open>The characters of a string are the bytes that do not continue one; a character outside ASCII
  becomes a single underscore.\<close>

definition is_continuation_byte :: "char \<Rightarrow> bool" where
  "is_continuation_byte c = (128 \<le> (of_char c :: nat) \<and> (of_char c :: nat) < 192)"

definition feature_option_env_name :: "string \<Rightarrow> string" where
  "feature_option_env_name option' =
     (let sanitized = map (\<lambda>c. if is_ascii_alphanumeric c \<or> c = CHR ''_'' then c else CHR ''_'')
            (filter (\<lambda>c. \<not> is_continuation_byte c) option');
          tail = dropWhile (\<lambda>c. is_ascii_digit c \<or> c = CHR ''_'') sanitized
      in to_ascii_uppercase
           (if tail \<noteq> sanitized then CHR ''_'' # tail
            else if sanitized = [] then ''_'' else sanitized))"

type_synonym env_state = "(string, string) btree_map \<times> (string, string) btree_map"

definition insert_feature_option_env :: "string \<Rightarrow> env_state \<Rightarrow> string \<Rightarrow> string \<Rightarrow> env_state result" where
  "insert_feature_option_env feature_id state option' v =
     (case state of (env, env_sources) \<Rightarrow>
        let key = feature_option_env_name option'
        in case bt_get env_sources key of
             Some existing_option \<Rightarrow>
               Inl (fmt [''Feature option environment variable collision for '', feature_id, '': options `'',
                         existing_option, ''` and `'', option', ''` both map to '', key])
           | None \<Rightarrow> Inr (bt_insert key v env, bt_insert key option' env_sources))"

definition insert_default_option ::
  "resolved_feature \<Rightarrow> env_state \<Rightarrow> string \<times> feature_option_schema \<Rightarrow> env_state result" where
  "insert_default_option feature state entry =
     (case entry of (option', schema) \<Rightarrow>
        if option' = ''enabled'' then Inr state
        else bind_res (validate_feature_option_schema (rf_id feature) option' schema) (\<lambda>_.
          if bt_contains_key (rf_options feature) option' then Inr state
          else case os_default schema of
                 Some default_value \<Rightarrow>
                   bind_res (feature_option_json_value (rf_id feature) option' default_value schema)
                     (insert_feature_option_env (rf_id feature) state option')
               | None \<Rightarrow> Inr state))"

definition insert_configured_option ::
  "resolved_feature \<Rightarrow> feature_metadata \<Rightarrow> env_state \<Rightarrow> string \<times> toml \<Rightarrow> env_state result" where
  "insert_configured_option feature metadata state entry =
     (case entry of (option', v) \<Rightarrow>
        if option' = ''enabled'' then Inr state
        else
          let schema = bt_get (fm_options metadata) option'
          in bind_res (case schema of Some s \<Rightarrow> validate_feature_option_schema (rf_id feature) option' s
                       | None \<Rightarrow> Inr ()) (\<lambda>_.
             bind_res (feature_option_toml_value (rf_id feature) option' v schema)
               (insert_feature_option_env (rf_id feature) state option')))"

definition feature_option_env :: "resolved_feature \<Rightarrow> feature_metadata \<Rightarrow> (string, string) btree_map result" where
  "feature_option_env feature metadata =
     bind_res (try_fold (insert_default_option feature) ([], []) (fm_options metadata)) (\<lambda>state.
     bind_res (try_fold (insert_configured_option feature metadata) state (rf_options feature)) (\<lambda>(env, _).
       Inr env))"

section \<open>What the install script is given\<close>

fun toml_text :: "toml \<Rightarrow> string option" where
  "toml_text (T_String s) = Some s"
| "toml_text (T_Boolean b) = Some (show_bool b)"
| "toml_text _ = None"

fun default_text :: "json \<Rightarrow> string option" where
  "default_text (J_String s) = Some s"
| "default_text (J_Bool b) = Some (show_bool b)"
| "default_text _ = None"

definition option_value :: "resolved_feature \<Rightarrow> feature_metadata \<Rightarrow> string \<Rightarrow> string option" where
  "option_value feature metadata option' =
     (case bt_get (rf_options feature) option' of
        Some v \<Rightarrow> toml_text v
      | None \<Rightarrow> Option.bind (Option.bind (bt_get (fm_options metadata) option') os_default) default_text)"

definition passed_options :: "resolved_feature \<Rightarrow> feature_metadata \<Rightarrow> string set" where
  "passed_options feature metadata = {option'. option' \<noteq> ''enabled'' \<and>
     (bt_get (rf_options feature) option' \<noteq> None \<or> bt_get (fm_options metadata) option' \<noteq> None)}"

lemma toml_value_text:
  "feature_option_toml_value feature_id option' v schema = Inr s \<Longrightarrow> toml_text v = Some s"
  by (cases v) (auto simp: feature_option_toml_value_def bind_res_Inr_iff split: if_splits)

lemma json_value_text:
  "feature_option_json_value feature_id option' v schema = Inr s \<Longrightarrow> default_text v = Some s"
  by (cases v) (auto simp: feature_option_json_value_def bind_res_Inr_iff split: if_splits)

lemma schema_has_default:
  "validate_feature_option_schema feature_id option' schema = Inr () \<Longrightarrow> os_default schema \<noteq> None"
  by (auto simp: validate_feature_option_schema_def result_elims split: if_splits)

text \<open>The loop invariant: the options inserted so far, each under its own name with its value.\<close>

definition env_inv :: "string set \<Rightarrow> (string \<Rightarrow> string option) \<Rightarrow> env_state \<Rightarrow> bool" where
  "env_inv inserted v state \<longleftrightarrow>
     (\<forall>key option'. bt_get (snd state) key = Some option' \<longleftrightarrow> option' \<in> inserted \<and> feature_option_env_name option' = key) \<and>
     (\<forall>key. bt_get (fst state) key = Option.bind (bt_get (snd state) key) v) \<and>
     (\<forall>option'\<in>inserted. v option' \<noteq> None)"

lemma env_inv_insert:
  assumes "env_inv inserted v state" "insert_feature_option_env feature_id state option' s = Inr state'" "v option' = Some s"
  shows "env_inv (insert option' inserted) v state'"
proof -
  obtain env src where st: "state = (env, src)" by (cases state) auto
  have free: "bt_get src (feature_option_env_name option') = None"
    and st': "state' = (bt_insert (feature_option_env_name option') s env, bt_insert (feature_option_env_name option') option' src)"
    using assms(2) by (auto simp: st insert_feature_option_env_def Let_def split: option.splits)
  have none: "feature_option_env_name x \<noteq> feature_option_env_name option'" if "x \<in> inserted" for x
    using that assms(1) free by (auto simp: env_inv_def st) (metis option.distinct(1))
  show ?thesis
    using assms(1,3) none unfolding env_inv_def st' st
    by (auto simp: bt_get_insert)
qed

lemma default_step:
  assumes "bt_ok (fm_options metadata)" "(option', schema) \<in> set (fm_options metadata)"
    and "env_inv inserted (option_value feature metadata) state"
    and "insert_default_option feature state (option', schema) = Inr state'"
  shows "env_inv (if option' \<noteq> ''enabled'' \<and> bt_get (rf_options feature) option' = None
      then insert option' inserted else inserted) (option_value feature metadata) state'"
proof (cases "option' = ''enabled'' \<or> bt_contains_key (rf_options feature) option'")
  case True
  with assms(3,4) show ?thesis by (auto simp: insert_default_option_def bt_contains_key_def bind_res_Inr_iff split: if_splits)
next
  case False
  have get: "bt_get (fm_options metadata) option' = Some schema" using bt.get_entries [OF assms(1)] assms(2) by simp
  have "validate_feature_option_schema (rf_id feature) option' schema = Inr ()"
    using assms(4) False by (simp add: insert_default_option_def bind_res_Inr_iff)
  then obtain d where d: "os_default schema = Some d" using schema_has_default by blast
  from assms(4) False d obtain s where s: "feature_option_json_value (rf_id feature) option' d schema = Inr s"
    "insert_feature_option_env (rf_id feature) state option' s = Inr state'"
    by (simp add: insert_default_option_def bind_res_Inr_iff) blast
  have "option_value feature metadata option' = Some s"
    using False get d json_value_text [OF s(1)] by (simp add: option_value_def bt_contains_key_def)
  from env_inv_insert [OF assms(3) s(2) this] False show ?thesis by (simp add: bt_contains_key_def)
qed

lemma configured_step:
  assumes "bt_ok (rf_options feature)" "(option', v) \<in> set (rf_options feature)"
    and "env_inv inserted (option_value feature metadata) state"
    and "insert_configured_option feature metadata state (option', v) = Inr state'"
  shows "env_inv (if option' \<noteq> ''enabled'' then insert option' inserted else inserted)
      (option_value feature metadata) state'"
proof (cases "option' = ''enabled''")
  case True
  with assms(3,4) show ?thesis by (simp add: insert_configured_option_def)
next
  case False
  have get: "bt_get (rf_options feature) option' = Some v" using bt.get_entries [OF assms(1)] assms(2) by simp
  from assms(4) False obtain schema s where s: "feature_option_toml_value (rf_id feature) option' v schema = Inr s"
    "insert_feature_option_env (rf_id feature) state option' s = Inr state'"
    by (simp add: insert_configured_option_def Let_def bind_res_Inr_iff) blast
  have "option_value feature metadata option' = Some s"
    using get toml_value_text [OF s(1)] by (simp add: option_value_def)
  from env_inv_insert [OF assms(3) s(2) this] False show ?thesis by simp
qed

section \<open>Properties\<close>

lemma passed_options_inserted:
  assumes "bt_ok (rf_options feature)" "bt_ok (fm_options metadata)"
    and "feature_option_env feature metadata = Inr env"
  shows "\<exists>src. env_inv (passed_options feature metadata) (option_value feature metadata) (env, src)"
proof -
  let ?v = "option_value feature metadata"
  from assms(3) obtain state src where
    first: "try_fold (insert_default_option feature) ([], []) (fm_options metadata) = Inr state" and
    second: "try_fold (insert_configured_option feature metadata) state (rf_options feature) = Inr (env, src)"
    by (auto simp: feature_option_env_def bind_res_Inr_iff)
  define D where "D ys = {option'. \<exists>s. (option', s) \<in> set ys \<and> option' \<noteq> ''enabled'' \<and>
    bt_get (rf_options feature) option' = None}" for ys :: "(string \<times> feature_option_schema) list"
  define C where "C ys = {option'. \<exists>v. (option', v) \<in> set ys \<and> option' \<noteq> ''enabled''}" for ys :: "(string \<times> toml) list"
  have "env_inv (D (fm_options metadata)) ?v state"
  proof (rule try_fold_invariant [where P = "\<lambda>ys s. env_inv (D ys) ?v s", OF first])
    show "env_inv (D []) ?v ([], [])" by (auto simp: env_inv_def D_def bt_get_def)
  next
    fix ys x s t
    assume sub: "set (ys @ [x]) \<subseteq> set (fm_options metadata)" and inv: "env_inv (D ys) ?v s"
      and step: "insert_default_option feature s x = Inr t"
    obtain option' schema where x: "x = (option', schema)" by (cases x)
    have "D (ys @ [x]) = (if option' \<noteq> ''enabled'' \<and> bt_get (rf_options feature) option' = None
        then insert option' (D ys) else D ys)" by (auto simp: D_def x)
    with default_step [OF assms(2) _ inv step [unfolded x]] sub x show "env_inv (D (ys @ [x])) ?v t" by simp
  qed
  then have start: "env_inv (D (fm_options metadata) \<union> C []) ?v state" by (simp add: C_def)
  have "env_inv (D (fm_options metadata) \<union> C (rf_options feature)) ?v (env, src)"
  proof (rule try_fold_invariant [where P = "\<lambda>ys s. env_inv (D (fm_options metadata) \<union> C ys) ?v s", OF second start])
    fix ys x s t
    assume sub: "set (ys @ [x]) \<subseteq> set (rf_options feature)" and inv: "env_inv (D (fm_options metadata) \<union> C ys) ?v s"
      and step: "insert_configured_option feature metadata s x = Inr t"
    obtain option' v where x: "x = (option', v)" by (cases x)
    have "D (fm_options metadata) \<union> C (ys @ [x]) = (if option' \<noteq> ''enabled''
        then insert option' (D (fm_options metadata) \<union> C ys) else D (fm_options metadata) \<union> C ys)" by (auto simp: C_def x)
    with configured_step [OF assms(1) _ inv step [unfolded x]] sub x
    show "env_inv (D (fm_options metadata) \<union> C (ys @ [x])) ?v t" by simp
  qed
  moreover have "D (fm_options metadata) \<union> C (rf_options feature) = passed_options feature metadata"
    unfolding D_def C_def passed_options_def
    by (auto simp: bt.get_entries [OF assms(1), symmetric] bt.get_entries [OF assms(2), symmetric])
  ultimately have "env_inv (passed_options feature metadata) ?v (env, src)" by simp
  then show ?thesis ..
qed

text \<open>C32. When the environment of the install script can be built, every configured or
  declared option but enabled is passed under a variable of its own, with the configured value or
  else the default, and nothing else is passed.\<close>

theorem every_option_is_passed_once:
  assumes "bt_ok (rf_options feature)" "bt_ok (fm_options metadata)"
    and "feature_option_env feature metadata = Inr env"
  shows "(\<forall>option'\<in>passed_options feature metadata. option_value feature metadata option' \<noteq> None \<and>
       bt_get env (feature_option_env_name option') = option_value feature metadata option') \<and>
     inj_on feature_option_env_name (passed_options feature metadata) \<and>
     {key. bt_get env key \<noteq> None} = feature_option_env_name ` passed_options feature metadata"
proof -
  obtain src where inv: "env_inv (passed_options feature metadata) (option_value feature metadata) (env, src)"
    using passed_options_inserted [OF assms] ..
  have src: "bt_get src (feature_option_env_name x) = Some x" if "x \<in> passed_options feature metadata" for x
    using inv that by (simp add: env_inv_def)
  have "inj_on feature_option_env_name (passed_options feature metadata)"
    using src by (intro inj_onI) (metis option.inject)
  moreover have "{key. bt_get env key \<noteq> None} = feature_option_env_name ` passed_options feature metadata"
    using inv by (auto simp: env_inv_def bind_eq_Some_conv) blast
  moreover have "option_value feature metadata x \<noteq> None \<and>
      bt_get env (feature_option_env_name x) = option_value feature metadata x"
    if "x \<in> passed_options feature metadata" for x
  proof -
    have "bt_get env (feature_option_env_name x) = Option.bind (bt_get src (feature_option_env_name x)) (option_value feature metadata)"
      "option_value feature metadata x \<noteq> None"
      using inv that by (simp_all add: env_inv_def)
    then show ?thesis unfolding src [OF that] by simp
  qed
  ultimately show ?thesis by blast
qed

definition example_feature :: resolved_feature where
  "example_feature = \<lparr>rf_id = ''f'', rf_canonical_id = ''f'', rf_options = [(''a-b'', T_Boolean True)]\<rparr>"

definition example_metadata :: feature_metadata where
  "example_metadata = \<lparr>fm_id = ''f'', fm_version = ''1'', fm_name = ''F'', fm_legacy_ids = [], fm_depends_on = [],
     fm_installs_after = [], fm_options = [(''version'', \<lparr>os_option_type = Some ''string'',
       os_default = Some (J_String ''latest''), os_enum_values = [], os_proposals = [], os_description = None\<rparr>)]\<rparr>"

lemma example_env:
  "feature_option_env example_feature example_metadata = Inr [(''A_B'', ''true''), (''VERSION'', ''latest'')]"
  by (simp add: feature_option_env_def example_feature_def example_metadata_def insert_default_option_def
      insert_configured_option_def insert_feature_option_env_def feature_option_env_name_def bt_get_def bt_contains_key_def
      validate_feature_option_schema_def feature_option_json_value_def feature_option_toml_value_def
      validate_feature_option_enum_def is_ascii_alphanumeric_def is_continuation_byte_def is_ascii_digit_def
      to_ascii_uppercase_def char_of_def bit_Suc_0_iff Let_def show_bool_def schema_type_def list_less_def lexordp_simps)

theorem every_option_is_passed_once_witness:
  "\<exists>env. feature_option_env example_feature example_metadata = Inr env \<and>
     bt_get env (feature_option_env_name ''version'') = Some ''latest'' \<and>
     inj_on feature_option_env_name (passed_options example_feature example_metadata)"
proof -
  have ok: "bt_ok (rf_options example_feature)" "bt_ok (fm_options example_metadata)"
    by (simp_all add: example_feature_def example_metadata_def bt_ok_def)
  have "''version'' \<in> passed_options example_feature example_metadata"
    by (simp add: passed_options_def example_feature_def example_metadata_def bt_get_def)
  moreover have "option_value example_feature example_metadata ''version'' = Some ''latest''"
    by (simp add: option_value_def example_feature_def example_metadata_def bt_get_def)
  ultimately show ?thesis using every_option_is_passed_once [OF ok example_env] example_env by auto
qed

end
