(* ===== verification/Feature_Install.thy ===== *)
theory Feature_Install
  imports Feature_Reference Feature_Options "HOL-Library.Multiset"
begin

text \<open>
  The install order of the Features, from \<open>src/devcontainer/features/install.rs\<close>: the graph of
  the Features and their dependencies, which a resolver extends, the priorities of
  \<open>overrideFeatureInstallOrder\<close>, and the rounds that order the graph. The resolver is a
  parameter here, over a state of its own; \<open>Feature_Resolver\<close> models the one decune passes. A
  \<open>BTreeSet\<close> of keys is an ascending list. The queue of Features to scan may grow for ever when
  the resolver keeps returning new ones, so that loop has fuel.
\<close>

section \<open>The data\<close>

record feature_install_input =
  fi_feature :: resolved_feature
  fi_reference :: feature_ref
  fi_metadata :: feature_metadata
  fi_source_key :: string
  fi_instance_key :: string

record feature_install_plan_entry =
  fp_feature :: resolved_feature
  fp_metadata :: feature_metadata
  fp_source_key :: string
  fp_instance_key :: string
  fp_option_env :: "(string, string) btree_map"

record feature_dependency_request =
  fr_parent_canonical_id :: string
  fr_dependency :: string
  fr_reference :: string
  fr_canonical_id :: string
  fr_options :: "(string, toml) btree_map"

record feature_install_graph =
  fg_nodes :: "(string, feature_install_input) btree_map"
  fg_dependency_edges :: "(string, string list) btree_map"

record feature_dependency_target =
  ft_reference :: string
  ft_canonical_id :: string

record feature_dependency_scan =
  fs_parent_instance_key :: string
  fs_parent_canonical_id :: string
  fs_parent_reference :: feature_ref
  fs_dependencies :: "(string \<times> json) list"

type_synonym 'w resolver = "feature_dependency_request \<Rightarrow> ('w, string, feature_install_input) io"

abbreviation input_canonical_id :: "feature_install_input \<Rightarrow> string" where
  "input_canonical_id input \<equiv> rf_canonical_id (fi_feature input)"

section \<open>Keys of instances\<close>

definition unit_separator :: string where
  "unit_separator = [CHR 0x1F]"

definition record_separator :: string where
  "record_separator = [CHR 0x1E]"

definition options_key_text :: "(string, toml) btree_map \<Rightarrow> string" where
  "options_key_text options =
     str_join unit_separator (map (\<lambda>(key, v). fmt [key, ''='', v]) (feature_options_sort_key options))"

definition feature_instance_key :: "resolved_feature \<Rightarrow> feature_ref \<Rightarrow> string \<Rightarrow> nat option \<Rightarrow> string" where
  "feature_instance_key feature reference source_digest local_instance =
     (let options = options_key_text (rf_options feature)
      in case local_instance of
           None \<Rightarrow> fmt [''oci'', record_separator, rf_canonical_id feature, record_separator, source_digest,
                        record_separator, options]
         | Some n \<Rightarrow>
             let canonical_id = (case reference of Local r \<Rightarrow> local_canonical_id r | Oci _ \<Rightarrow> rf_canonical_id feature)
             in fmt [''local'', record_separator, canonical_id, record_separator, source_digest, record_separator,
                     options, record_separator, show_nat n])"

definition feature_install_input_instance_key :: "feature_install_input \<Rightarrow> string" where
  "feature_install_input_instance_key input =
     fmt [''test'', record_separator, input_canonical_id input, record_separator, rf_id (fi_feature input),
          record_separator, options_key_text (rf_options (fi_feature input))]"

definition feature_source_key :: "feature_ref \<Rightarrow> string" where
  "feature_source_key reference =
     (case reference of Oci r \<Rightarrow> normalized_reference r | Local r \<Rightarrow> local_canonical_id r)"

section \<open>Targets of dependencies\<close>

definition dependency_feature_target :: "feature_ref \<Rightarrow> string \<Rightarrow> feature_dependency_target result" where
  "dependency_feature_target parent dependency =
     (if starts_with ''./'' dependency
      then Inr \<lparr>ft_reference = dependency, ft_canonical_id = canonical_feature_id dependency\<rparr>
      else case parse_feature_ref dependency of
             Inr reference \<Rightarrow> Inr \<lparr>ft_reference = dependency, ft_canonical_id = ref_canonical_id reference\<rparr>
           | Inl _ \<Rightarrow>
               (case parent of
                  Local _ \<Rightarrow> Inl (fmt [''Local Feature dependency '', dependency,
                    '' must use a relative ./ path or full OCI Feature ref''])
                | Oci parent_ref \<Rightarrow>
                    let reference = fmt [canonical_repository parent_ref, ''/'', dependency]
                    in bind_res (map_err (with_context [''Failed to resolve Feature dependency ref: '', dependency])
                         (parse_feature_ref reference)) (\<lambda>parsed.
                       Inr \<lparr>ft_reference = reference, ft_canonical_id = ref_canonical_id parsed\<rparr>)))"

definition soft_order_feature_target ::
  "feature_ref \<Rightarrow> string \<Rightarrow> string \<Rightarrow> feature_dependency_target result" where
  "soft_order_feature_target parent dependency property =
     map_err (with_context [''Failed to resolve Feature '', property, '' ref: '', dependency])
       (dependency_feature_target parent dependency)"

definition ensure_feature_order_identifier_is_unpinned :: "string \<Rightarrow> string \<Rightarrow> unit result" where
  "ensure_feature_order_identifier_is_unpinned v property =
     bind_res (split_digest v) (\<lambda>(without_digest, digest).
       if digest \<noteq> None
       then Inl (fmt [''Feature '', property, '' value `'', v, ''` must not include a digest''])
       else if snd (split_tag without_digest) \<noteq> None
       then Inl (fmt [''Feature '', property, '' value `'', v, ''` must not include a version tag''])
       else Inr ())"

definition feature_order_value_is_unqualified :: "string \<Rightarrow> bool" where
  "feature_order_value_is_unqualified v =
     (\<not> starts_with ''./'' v \<and> (case parse_feature_ref v of Inl _ \<Rightarrow> True | Inr _ \<Rightarrow> False))"

fun reference_is_local :: "feature_ref \<Rightarrow> bool" where
  "reference_is_local (Local _) = True"
| "reference_is_local (Oci _) = False"

fun legacy_ids_match :: "feature_install_input \<Rightarrow> string \<Rightarrow> string list \<Rightarrow> bool result" where
  "legacy_ids_match input canonical_id [] = Inr False"
| "legacy_ids_match input canonical_id (legacy_id # legacy_ids) =
     bind_res (ensure_feature_order_identifier_is_unpinned legacy_id ''legacyIds'') (\<lambda>_.
     if feature_order_value_is_unqualified legacy_id \<and> reference_is_local (fi_reference input)
     then legacy_ids_match input canonical_id legacy_ids
     else bind_res (map_err (with_context [''Failed to resolve Feature legacyIds value for '',
              input_canonical_id input, '': '', legacy_id])
            (dependency_feature_target (fi_reference input) legacy_id)) (\<lambda>target.
          if ft_canonical_id target = canonical_id then Inr True
          else legacy_ids_match input canonical_id legacy_ids))"

definition feature_matches_order_target :: "feature_install_input \<Rightarrow> string \<Rightarrow> bool result" where
  "feature_matches_order_target input canonical_id =
     (if input_canonical_id input = canonical_id then Inr True
      else legacy_ids_match input canonical_id (fm_legacy_ids (fi_metadata input)))"

definition feature_matches_order_value :: "feature_install_input \<Rightarrow> string \<Rightarrow> string \<Rightarrow> bool result" where
  "feature_matches_order_value input v property =
     bind_res (ensure_feature_order_identifier_is_unpinned v property) (\<lambda>_.
     if feature_order_value_is_unqualified v \<and> reference_is_local (fi_reference input) then Inr False
     else bind_res (map_err (with_context [''Failed to resolve Feature '', property, '' ref: '', v])
            (dependency_feature_target (fi_reference input) v)) (\<lambda>target.
          feature_matches_order_target input (ft_canonical_id target)))"

section \<open>The graph\<close>

definition feature_dependency_option_value :: "string \<Rightarrow> string \<Rightarrow> string \<Rightarrow> json \<Rightarrow> toml result" where
  "feature_dependency_option_value parent_canonical_id dependency option' v =
     (case v of
        J_String s \<Rightarrow> Inr (T_String s)
      | J_Bool b \<Rightarrow> Inr (T_Boolean b)
      | _ \<Rightarrow> Inl (fmt [''Unsupported Feature dependsOn option value for '', parent_canonical_id,
                      '' dependency '', dependency, ''.'', option']))"

definition feature_dependency_options :: "string \<Rightarrow> string \<Rightarrow> json \<Rightarrow> (string, toml) btree_map result" where
  "feature_dependency_options parent_canonical_id dependency v =
     (case v of
        J_Object entries \<Rightarrow>
          bind_res (try_map (\<lambda>(option', v). bind_res
              (feature_dependency_option_value parent_canonical_id dependency option' v) (\<lambda>t. Inr (option', t))) entries)
            (\<lambda>options. Inr (bt_collect options))
      | J_String version \<Rightarrow> Inr [(''version'', T_String version)]
      | _ \<Rightarrow> Inl (fmt [''Unsupported Feature dependsOn value for '', parent_canonical_id, '' dependency '', dependency]))"

definition feature_reference_matches :: "feature_install_input \<Rightarrow> string \<Rightarrow> bool" where
  "feature_reference_matches input dependency_ref =
     (rf_id (fi_feature input) = dependency_ref \<or>
      (case parse_feature_ref dependency_ref of
         Inr (Oci dependency) \<Rightarrow>
           (case fi_reference input of
              Oci existing \<Rightarrow> oci_canonical_id existing = oci_canonical_id dependency \<and>
                oci_tag existing = oci_tag dependency \<and> oci_digest existing = oci_digest dependency
            | Local _ \<Rightarrow> False)
       | _ \<Rightarrow> False))"

definition find_existing_feature_instance ::
  "(string, feature_install_input) btree_map \<Rightarrow> string \<Rightarrow> string \<Rightarrow> (string, toml) btree_map \<Rightarrow> string option" where
  "find_existing_feature_instance nodes dependency_id dependency_ref options =
     map_option fst (List.find (\<lambda>(_, input).
       input_canonical_id input = dependency_id \<and> feature_reference_matches input dependency_ref \<and>
       feature_options_sort_key (rf_options (fi_feature input)) = feature_options_sort_key options) nodes)"

definition new_graph :: "feature_install_input list \<Rightarrow> feature_install_graph" where
  "new_graph inputs =
     \<lparr>fg_nodes = foldl (\<lambda>nodes input. if bt_contains_key nodes (fi_instance_key input) then nodes
                         else bt_insert (fi_instance_key input) input nodes) [] inputs,
      fg_dependency_edges = []\<rparr>"

definition dependency_scan :: "feature_install_graph \<Rightarrow> string \<Rightarrow> feature_dependency_scan result" where
  "dependency_scan graph instance_key =
     bind_res (ok_or (bt_get (fg_nodes graph) instance_key)
       (fmt [''Feature install graph is missing queued Feature: '', instance_key])) (\<lambda>input.
       Inr \<lparr>fs_parent_instance_key = instance_key, fs_parent_canonical_id = input_canonical_id input,
            fs_parent_reference = fi_reference input, fs_dependencies = fm_depends_on (fi_metadata input)\<rparr>)"

definition add_dependency_edge :: "feature_install_graph \<Rightarrow> string \<Rightarrow> string \<Rightarrow> feature_install_graph" where
  "add_dependency_edge graph parent_instance_key dependency_instance_key =
     (let edges = fg_dependency_edges graph;
          old = (case bt_get edges parent_instance_key of Some keys \<Rightarrow> keys | None \<Rightarrow> [])
      in graph\<lparr>fg_dependency_edges := bt_insert parent_instance_key (insort_insert dependency_instance_key old) edges\<rparr>)"

definition resolved_dependency_input ::
  "'w resolver \<Rightarrow> feature_dependency_request \<Rightarrow> ('w, string, feature_install_input) io" where
  "resolved_dependency_input resolve_dependency request =
     io_bind (io_map_err (with_context [''Failed to resolve Feature dependency '', fr_dependency request,
         '' for Feature '', fr_parent_canonical_id request]) (resolve_dependency request)) (\<lambda>input.
       if input_canonical_id input \<noteq> fr_canonical_id request
       then io_fail (fmt [''Feature dependency resolver returned '', input_canonical_id input, '' for '',
              fr_dependency request, '', expected '', fr_canonical_id request])
       else if rf_options (fi_feature input) \<noteq> fr_options request
       then let changed = input\<lparr>fi_feature := (fi_feature input)\<lparr>rf_options := fr_options request\<rparr>\<rparr>
            in io_return (changed\<lparr>fi_instance_key := feature_install_input_instance_key changed\<rparr>)
       else io_return input)"

type_synonym scan_state = "feature_install_graph \<times> string list"

definition resolve_feature_dependency ::
  "'w resolver \<Rightarrow> feature_dependency_scan \<Rightarrow> scan_state \<Rightarrow> string \<times> json \<Rightarrow> ('w, string, scan_state) io" where
  "resolve_feature_dependency resolve_dependency scan state pending =
     (case state of (graph, scan_queue) \<Rightarrow> case pending of (dependency, value_options) \<Rightarrow>
      io_bind (io_lift (dependency_feature_target (fs_parent_reference scan) dependency)) (\<lambda>target.
      io_bind (io_lift (feature_dependency_options (fs_parent_canonical_id scan) dependency value_options)) (\<lambda>options.
      case find_existing_feature_instance (fg_nodes graph) (ft_canonical_id target) (ft_reference target) options of
        Some existing_instance_key \<Rightarrow>
          io_return (add_dependency_edge graph (fs_parent_instance_key scan) existing_instance_key, scan_queue)
      | None \<Rightarrow>
          io_bind (resolved_dependency_input resolve_dependency
              \<lparr>fr_parent_canonical_id = fs_parent_canonical_id scan, fr_dependency = dependency,
               fr_reference = ft_reference target, fr_canonical_id = ft_canonical_id target,
               fr_options = options\<rparr>) (\<lambda>dependency_input.
            let key = fi_instance_key dependency_input;
                graph = add_dependency_edge graph (fs_parent_instance_key scan) key
            in io_return
                 (graph\<lparr>fg_nodes := bt_insert key dependency_input (fg_nodes graph)\<rparr>,
                  if bt_contains_key (fg_nodes graph) key then scan_queue else scan_queue @ [key])))))"

definition scan_feature :: "'w resolver \<Rightarrow> scan_state \<Rightarrow> string \<Rightarrow> ('w, string, scan_state) io" where
  "scan_feature resolve_dependency state instance_key =
     io_bind (io_lift (dependency_scan (fst state) instance_key)) (\<lambda>scan.
       io_fold (resolve_feature_dependency resolve_dependency scan) state (fs_dependencies scan))"

fun resolve_dependency_edges ::
  "nat \<Rightarrow> 'w resolver \<Rightarrow> scan_state \<Rightarrow> 'w \<Rightarrow> ((string + feature_install_graph) \<times> 'w) option" where
  "resolve_dependency_edges fuel resolve_dependency (graph, []) w = Some (Inr graph, w)"
| "resolve_dependency_edges 0 resolve_dependency (graph, instance_key # scan_queue) w = None"
| "resolve_dependency_edges (Suc fuel) resolve_dependency (graph, instance_key # scan_queue) w =
     (case scan_feature resolve_dependency (graph, scan_queue) instance_key w of
        (Inl error, w') \<Rightarrow> Some (Inl error, w')
      | (Inr state, w') \<Rightarrow> resolve_dependency_edges fuel resolve_dependency state w')"

definition add_candidate :: "string \<Rightarrow> string list \<Rightarrow> string \<times> feature_install_input \<Rightarrow> string list result" where
  "add_candidate canonical_id required candidate =
     bind_res (feature_matches_order_target (snd candidate) canonical_id) (\<lambda>matches.
       Inr (if matches then insort_insert (fst candidate) required else required))"

definition add_soft_order_dependency ::
  "(string, feature_install_input) btree_map \<Rightarrow> feature_install_input \<Rightarrow> string list \<Rightarrow> string \<Rightarrow> string list result" where
  "add_soft_order_dependency nodes input required dependency =
     bind_res (soft_order_feature_target (fi_reference input) dependency ''installsAfter'') (\<lambda>target.
       try_fold (add_candidate (ft_canonical_id target)) required nodes)"

definition add_soft_order_dependencies ::
  "(string, feature_install_input) btree_map \<Rightarrow> feature_install_input \<Rightarrow> string list \<Rightarrow> string list result" where
  "add_soft_order_dependencies nodes input required =
     try_fold (add_soft_order_dependency nodes input) required (fm_installs_after (fi_metadata input))"

definition dependency_requirement ::
  "feature_install_graph \<Rightarrow> string \<times> feature_install_input \<Rightarrow> (string \<times> string list) result" where
  "dependency_requirement graph node =
     bind_res (add_soft_order_dependencies (fg_nodes graph) (snd node)
         (case bt_get (fg_dependency_edges graph) (fst node) of Some keys \<Rightarrow> keys | None \<Rightarrow> []))
       (\<lambda>required. Inr (fst node, required))"

definition dependency_requirements :: "feature_install_graph \<Rightarrow> (string, string list) btree_map result" where
  "dependency_requirements graph =
     bind_res (try_map (dependency_requirement graph) (fg_nodes graph)) (\<lambda>requirements. Inr (bt_collect requirements))"

section \<open>The order\<close>

definition add_priority ::
  "string \<Rightarrow> nat \<Rightarrow> (string, nat) btree_map \<Rightarrow> string \<times> feature_install_input \<Rightarrow> (string, nat) btree_map result" where
  "add_priority feature priority priorities node =
     bind_res (feature_matches_order_value (snd node) feature ''overrideFeatureInstallOrder'') (\<lambda>matches.
       Inr (if matches then bt_insert (fst node) priority priorities else priorities))"

definition override_feature_install_priorities ::
  "(string, feature_install_input) btree_map \<Rightarrow> string list \<Rightarrow> (string, nat) btree_map result" where
  "override_feature_install_priorities nodes override_order =
     try_fold (\<lambda>priorities (index, feature).
         bind_res (ensure_feature_order_identifier_is_unpinned feature ''overrideFeatureInstallOrder'') (\<lambda>_.
           try_fold (add_priority feature (length override_order - index)) priorities nodes))
       [] (enumerate 0 override_order)"

definition feature_round_priority :: "string \<Rightarrow> (string, nat) btree_map \<Rightarrow> nat" where
  "feature_round_priority instance_key priorities =
     (case bt_get priorities instance_key of Some priority \<Rightarrow> priority | None \<Rightarrow> 0)"

datatype feature_tag_part = Tag_Number nat | Tag_Text string
datatype feature_tag_key = Tag_Parts "feature_tag_part list" | Tag_Latest | Tag_Digest | Tag_Local

text \<open>The derived orders: constructors in the order of their declaration, then their arguments.\<close>

fun tag_part_rank :: "feature_tag_part \<Rightarrow> nat \<times> nat \<times> string" where
  "tag_part_rank (Tag_Number n) = (0, n, [])"
| "tag_part_rank (Tag_Text s) = (1, 0, s)"

lemma tag_part_rank_inj: "tag_part_rank p = tag_part_rank q \<Longrightarrow> p = q"
  by (cases p; cases q) simp_all

instantiation feature_tag_part :: linorder
begin

definition less_eq_feature_tag_part :: "feature_tag_part \<Rightarrow> feature_tag_part \<Rightarrow> bool" where
  "less_eq_feature_tag_part p q = (tag_part_rank p \<le> tag_part_rank q)"

definition less_feature_tag_part :: "feature_tag_part \<Rightarrow> feature_tag_part \<Rightarrow> bool" where
  "less_feature_tag_part p q = (tag_part_rank p < tag_part_rank q)"

instance
  by standard (auto simp: less_eq_feature_tag_part_def less_feature_tag_part_def dest: tag_part_rank_inj)

end

fun tag_key_rank :: "feature_tag_key \<Rightarrow> nat \<times> feature_tag_part list" where
  "tag_key_rank (Tag_Parts parts) = (0, parts)"
| "tag_key_rank Tag_Latest = (1, [])"
| "tag_key_rank Tag_Digest = (2, [])"
| "tag_key_rank Tag_Local = (3, [])"

lemma tag_key_rank_inj: "tag_key_rank p = tag_key_rank q \<Longrightarrow> p = q"
  by (cases p; cases q) simp_all

instantiation feature_tag_key :: linorder
begin

definition less_eq_feature_tag_key :: "feature_tag_key \<Rightarrow> feature_tag_key \<Rightarrow> bool" where
  "less_eq_feature_tag_key p q = (tag_key_rank p \<le> tag_key_rank q)"

definition less_feature_tag_key :: "feature_tag_key \<Rightarrow> feature_tag_key \<Rightarrow> bool" where
  "less_feature_tag_key p q = (tag_key_rank p < tag_key_rank q)"

instance
  by standard (auto simp: less_eq_feature_tag_key_def less_feature_tag_key_def dest: tag_key_rank_inj)

end

definition feature_tag_parts :: "string \<Rightarrow> feature_tag_part list" where
  "feature_tag_parts tag =
     map (\<lambda>part. case parse_unsigned (2 ^ 64 - 1) part of
            Some n \<Rightarrow> Tag_Number n | None \<Rightarrow> Tag_Text (to_ascii_lowercase part))
       (filter (\<lambda>part. part \<noteq> []) (split_on (\<lambda>c. c = CHR ''.'' \<or> c = CHR ''-'' \<or> c = CHR ''_'') tag))"

definition feature_tag_sort_key :: "feature_install_input \<Rightarrow> feature_tag_key" where
  "feature_tag_sort_key input =
     (case fi_reference input of
        Local _ \<Rightarrow> Tag_Local
      | Oci reference \<Rightarrow>
          if oci_digest reference \<noteq> None then Tag_Digest
          else if oci_tag reference = Some ''latest'' then Tag_Latest
          else Tag_Parts (feature_tag_parts (case oci_tag reference of Some tag \<Rightarrow> tag | None \<Rightarrow> [])))"

definition feature_resource_sort_name :: "feature_install_input \<Rightarrow> string" where
  "feature_resource_sort_name input =
     (case fi_reference input of Oci reference \<Rightarrow> oci_canonical_id reference | Local _ \<Rightarrow> input_canonical_id input)"

definition feature_canonical_sort_name :: "feature_install_input \<Rightarrow> string" where
  "feature_canonical_sort_name input =
     (case fi_reference input of
        Oci reference \<Rightarrow> (case oci_digest reference of Some digest \<Rightarrow> digest | None \<Rightarrow> fi_instance_key input)
      | Local _ \<Rightarrow> fi_instance_key input)"

text \<open>\<open>stable_feature_order\<close> compares lexicographically; more options come first.\<close>

definition stable_feature_order ::
  "feature_install_input \<Rightarrow> string \<times> feature_tag_key \<times> int \<times> (string \<times> string) list \<times> string \<times> string" where
  "stable_feature_order input =
     (feature_resource_sort_name input, feature_tag_sort_key input, - int (length (rf_options (fi_feature input))),
      feature_options_sort_key (rf_options (fi_feature input)), feature_canonical_sort_name input,
      rf_id (fi_feature input))"

definition ready_feature_instances ::
  "(string, string list) btree_map \<Rightarrow> string list \<Rightarrow> string list \<Rightarrow> string list" where
  "ready_feature_instances dependencies worklist installed =
     filter (\<lambda>key. case bt_get dependencies key of
         None \<Rightarrow> True | Some required \<Rightarrow> list_all (\<lambda>r. r \<in> set installed) required) worklist"

definition raise_priority ::
  "(string, feature_install_input) btree_map \<Rightarrow> (string, nat) btree_map \<Rightarrow> nat \<Rightarrow> string \<Rightarrow> nat result" where
  "raise_priority nodes priorities max_priority instance_key =
     bind_res (ok_or (bt_get nodes instance_key)
       (fmt [''Feature install graph is missing ready Feature: '', instance_key])) (\<lambda>input.
       Inr (max max_priority (feature_round_priority (fi_instance_key input) priorities)))"

definition max_feature_round_priority ::
  "(string, feature_install_input) btree_map \<Rightarrow> (string, nat) btree_map \<Rightarrow> string list \<Rightarrow> nat result" where
  "max_feature_round_priority nodes priorities ready = try_fold (raise_priority nodes priorities) 0 ready"

definition next_feature_install_round ::
  "(string, feature_install_input) btree_map \<Rightarrow> (string, string list) btree_map \<Rightarrow> (string, nat) btree_map \<Rightarrow>
   string list \<Rightarrow> string list \<Rightarrow> string list result" where
  "next_feature_install_round nodes dependencies priorities worklist installed =
     (let ready = ready_feature_instances dependencies worklist installed
      in if ready = []
         then Inl (fmt [''Feature install order contains a dependency cycle involving: '', str_join '', '' worklist])
         else bind_res (max_feature_round_priority nodes priorities ready) (\<lambda>max_priority.
           Inr (map fst (sort_key (\<lambda>(_, input). stable_feature_order input)
             (filter (\<lambda>(_, input). feature_round_priority (fi_instance_key input) priorities = max_priority)
               (filter_map (\<lambda>key. map_option (Pair key) (bt_get nodes key)) ready))))))"

definition feature_install_plan_entry_of :: "feature_install_input \<Rightarrow> feature_install_plan_entry result" where
  "feature_install_plan_entry_of input =
     bind_res (feature_option_env (fi_feature input) (fi_metadata input)) (\<lambda>option_env.
       Inr \<lparr>fp_feature = fi_feature input, fp_metadata = fi_metadata input, fp_source_key = fi_source_key input,
            fp_instance_key = fi_instance_key input, fp_option_env = option_env\<rparr>)"

type_synonym install_progress = "string list \<times> string list \<times> feature_install_plan_entry list"

definition install_feature ::
  "(string, feature_install_input) btree_map \<Rightarrow> install_progress \<Rightarrow> string \<Rightarrow> install_progress result" where
  "install_feature nodes progress key =
     (case progress of (worklist, installed, ordered) \<Rightarrow>
      bind_res (ok_or (bt_get nodes key) (fmt [''Feature install graph is missing ready Feature: '', key])) (\<lambda>input.
      bind_res (feature_install_plan_entry_of input) (\<lambda>entry.
        Inr (filter (\<lambda>k. k \<noteq> key) worklist, insort_insert key installed, ordered @ [entry]))))"

lemma raise_priority_iff: "raise_priority nodes priorities m k = Inr q \<longleftrightarrow>
    (\<exists>input. bt_get nodes k = Some input \<and> q = max m (feature_round_priority (fi_instance_key input) priorities))"
  by (auto simp: raise_priority_def result_elims)

lemma install_feature_iff: "install_feature nodes (worklist, installed, ordered) k = Inr progress \<longleftrightarrow>
    (\<exists>input entry. bt_get nodes k = Some input \<and> feature_install_plan_entry_of input = Inr entry \<and>
       progress = (filter (\<lambda>j. j \<noteq> k) worklist, insort_insert k installed, ordered @ [entry]))"
  by (auto simp: install_feature_def result_elims)

lemma max_priority_attained:
  assumes "try_fold (raise_priority nodes priorities) m ready = Inr p"
  shows "m \<le> p \<and> (\<forall>k\<in>set ready. bt_get nodes k \<noteq> None) \<and>
    (p = m \<or> (\<exists>k\<in>set ready. \<exists>input. bt_get nodes k = Some input \<and> feature_round_priority (fi_instance_key input) priorities = p)) \<and>
    (\<forall>k\<in>set ready. \<forall>input. bt_get nodes k = Some input \<longrightarrow> feature_round_priority (fi_instance_key input) priorities \<le> p)"
  using assms
proof (induction ready arbitrary: m)
  case (Cons k ready)
  from Cons.prems obtain input where input: "bt_get nodes k = Some input"
    "try_fold (raise_priority nodes priorities) (max m (feature_round_priority (fi_instance_key input) priorities)) ready = Inr p"
    by (auto simp: raise_priority_iff bind_res_Inr_iff)
  from Cons.IH [OF input(2)] input(1) show ?case by (auto simp: max_def split: if_splits)
qed simp

lemma next_round:
  assumes "next_feature_install_round nodes dependencies priorities worklist installed = Inr round"
  shows "round \<noteq> []" "set round \<subseteq> set (ready_feature_instances dependencies worklist installed)"
    and "set round = {k \<in> set (ready_feature_instances dependencies worklist installed). \<exists>input. bt_get nodes k = Some input \<and>
      (\<forall>j\<in>set (ready_feature_instances dependencies worklist installed). \<forall>other. bt_get nodes j = Some other \<longrightarrow>
         feature_round_priority (fi_instance_key other) priorities \<le> feature_round_priority (fi_instance_key input) priorities)}"
proof -
  let ?ready = "ready_feature_instances dependencies worklist installed"
  from assms obtain p where ne: "?ready \<noteq> []" and p: "try_fold (raise_priority nodes priorities) 0 ?ready = Inr p"
    and round: "round = map fst (sort_key (\<lambda>(_, input). stable_feature_order input)
             (filter (\<lambda>(_, input). feature_round_priority (fi_instance_key input) priorities = p)
               (filter_map (\<lambda>key. map_option (Pair key) (bt_get nodes key)) ?ready)))"
    by (auto simp: next_feature_install_round_def Let_def max_feature_round_priority_def bind_res_Inr_iff split: if_splits)
  have set_round: "set round = {k \<in> set ?ready. \<exists>input. bt_get nodes k = Some input \<and>
      feature_round_priority (fi_instance_key input) priorities = p}"
    unfolding round by (force simp: set_filter_map)
  note attained = max_priority_attained [OF p]
  have "\<exists>k\<in>set ?ready. \<exists>input. bt_get nodes k = Some input \<and> feature_round_priority (fi_instance_key input) priorities = p"
  proof (cases "p = 0")
    case True
    obtain k where k: "k \<in> set ?ready" using ne by (meson list.set_sel(1))
    with attained obtain input where "bt_get nodes k = Some input" by blast
    moreover from this attained k True have "feature_round_priority (fi_instance_key input) priorities = p" by force
    ultimately show ?thesis using k by blast
  next
    case False
    with attained show ?thesis by blast
  qed
  then obtain k input where k: "k \<in> set ?ready" "bt_get nodes k = Some input"
    "feature_round_priority (fi_instance_key input) priorities = p" by blast
  with set_round show "round \<noteq> []" by auto
  show "set round \<subseteq> set ?ready" using set_round by blast
  show "set round = {k \<in> set ?ready. \<exists>input. bt_get nodes k = Some input \<and>
      (\<forall>j\<in>set ?ready. \<forall>other. bt_get nodes j = Some other \<longrightarrow>
         feature_round_priority (fi_instance_key other) priorities \<le> feature_round_priority (fi_instance_key input) priorities)}"
    unfolding set_round using attained k by (auto, metis le_antisym)
qed

lemma install_features_worklist:
  "try_fold (install_feature nodes) (worklist, installed, ordered) round = Inr (worklist', installed', ordered') \<Longrightarrow>
     worklist' = filter (\<lambda>k. k \<notin> set round) worklist"
proof (induction round arbitrary: worklist installed ordered)
  case (Cons k round)
  then obtain installed1 ordered1 where
    "try_fold (install_feature nodes) (filter (\<lambda>j. j \<noteq> k) worklist, installed1, ordered1) round = Inr (worklist', installed', ordered')"
    by (auto simp: install_feature_iff bind_res_Inr_iff)
  from Cons.IH [OF this] show ?case by (auto simp: filter_filter intro: filter_cong)
qed simp

text \<open>The \<open>while\<close> loop of \<open>order_feature_install_plan\<close>: a round is never empty, so the worklist shrinks.\<close>

function install_rounds ::
  "(string, feature_install_input) btree_map \<Rightarrow> (string, string list) btree_map \<Rightarrow> (string, nat) btree_map \<Rightarrow>
   install_progress \<Rightarrow> feature_install_plan_entry list result" where
  "install_rounds nodes dependencies priorities progress =
     (case progress of (worklist, installed, ordered) \<Rightarrow>
        if worklist = [] then Inr ordered
        else bind_res (next_feature_install_round nodes dependencies priorities worklist installed) (\<lambda>round.
          bind_res (try_fold (install_feature nodes) progress round) (\<lambda>progress'.
            install_rounds nodes dependencies priorities progress')))"
  by pat_completeness auto
termination
proof (relation "measure (\<lambda>(nodes, dependencies, priorities, progress). length (fst progress))", goal_cases)
  case (2 nodes dependencies priorities progress worklist y installed ordered round progress')
  from 2(1,2) have progress: "progress = (worklist, installed, ordered)" by simp
  obtain worklist' installed' ordered' where progress': "progress' = (worklist', installed', ordered')" by (cases progress')
  have w': "worklist' = filter (\<lambda>k. k \<notin> set round) worklist"
    using install_features_worklist 2(5) unfolding progress progress' by blast
  obtain k where k: "k \<in> set round" using next_round(1) [OF 2(4)] by (cases round) auto
  with next_round(2) [OF 2(4)] have "k \<in> set worklist" by (auto simp: ready_feature_instances_def)
  then have "length worklist' < length worklist" using k unfolding w' by (intro length_filter_less) auto
  then show ?case by (simp add: progress progress')
qed simp

declare install_rounds.simps [simp del]

definition order_feature_install_plan ::
  "(string, feature_install_input) btree_map \<Rightarrow> (string, string list) btree_map \<Rightarrow> (string, nat) btree_map \<Rightarrow>
   feature_install_plan_entry list result" where
  "order_feature_install_plan nodes dependencies priorities =
     install_rounds nodes dependencies priorities (bt_keys nodes, [], [])"

definition resolve_feature_install_order ::
  "nat \<Rightarrow> feature_install_input list \<Rightarrow> string list \<Rightarrow> 'w resolver \<Rightarrow> 'w \<Rightarrow>
   ((string + feature_install_plan_entry list) \<times> 'w) option" where
  "resolve_feature_install_order fuel inputs override_order resolve_dependency w =
     (let graph = new_graph inputs
      in case resolve_dependency_edges fuel resolve_dependency (graph, bt_keys (fg_nodes graph)) w of
           None \<Rightarrow> None
         | Some (Inl error, w') \<Rightarrow> Some (Inl error, w')
         | Some (Inr graph, w') \<Rightarrow> Some
             (bind_res (dependency_requirements graph) (\<lambda>dependencies.
              bind_res (override_feature_install_priorities (fg_nodes graph) override_order) (\<lambda>priorities.
                order_feature_install_plan (fg_nodes graph) dependencies priorities)), w'))"

section \<open>Orders that respect the requirements\<close>

definition required :: "(string, string list) btree_map \<Rightarrow> string \<Rightarrow> string set" where
  "required dependencies key = (case bt_get dependencies key of Some keys \<Rightarrow> set keys | None \<Rightarrow> {})"

definition installs :: "(string, feature_install_input) btree_map \<Rightarrow> string \<Rightarrow> feature_install_plan_entry \<Rightarrow> bool" where
  "installs nodes key entry \<longleftrightarrow>
     (\<exists>input. bt_get nodes key = Some input \<and> feature_install_plan_entry_of input = Inr entry)"

definition ordered_so_far ::
  "(string, feature_install_input) btree_map \<Rightarrow> (string, string list) btree_map \<Rightarrow> string list \<Rightarrow>
   install_progress \<Rightarrow> bool" where
  "ordered_so_far nodes dependencies keys progress \<longleftrightarrow>
     (case progress of (worklist, installed, ordered) \<Rightarrow>
        distinct (worklist @ keys) \<and> set keys = set installed \<and> set worklist \<union> set keys = set (bt_keys nodes) \<and>
        list_all2 (installs nodes) keys ordered \<and>
        (\<forall>i<length keys. required dependencies (keys ! i) \<subseteq> set (take i keys)))"

lemma ordered_install_feature:
  assumes "ordered_so_far nodes dependencies keys (worklist, installed, ordered)"
    and "install_feature nodes (worklist, installed, ordered) key = Inr progress"
    and "key \<in> set worklist" "required dependencies key \<subseteq> set keys"
  shows "ordered_so_far nodes dependencies (keys @ [key]) progress"
  using assms unfolding install_feature_iff ordered_so_far_def
  by (auto simp: installs_def set_insort_insert nth_append less_Suc_eq intro!: list_all2_appendI)

lemma ordered_round:
  assumes "ordered_so_far nodes dependencies keys progress"
    and "try_fold (install_feature nodes) progress round = Inr progress'"
    and "distinct round" "set round \<subseteq> set (fst progress)" "\<forall>key\<in>set round. required dependencies key \<subseteq> set keys"
  shows "ordered_so_far nodes dependencies (keys @ round) progress'"
  using assms
proof (induction round arbitrary: keys progress)
  case (Cons key round)
  obtain worklist installed ordered where p: "progress = (worklist, installed, ordered)" by (cases progress)
  from Cons.prems(2) obtain p1 where p1: "install_feature nodes progress key = Inr p1"
    "try_fold (install_feature nodes) p1 round = Inr progress'" by (auto simp: bind_res_Inr_iff)
  have "ordered_so_far nodes dependencies (keys @ [key]) p1"
    using ordered_install_feature Cons.prems p1(1) unfolding p by (metis fst_conv insert_subset list.simps(15) list.set_intros(1))
  moreover have "fst p1 = filter (\<lambda>j. j \<noteq> key) worklist" using p1(1) unfolding p install_feature_iff by auto
  then have "set round \<subseteq> set (fst p1)" using Cons.prems(3,4) p by auto
  ultimately have "ordered_so_far nodes dependencies ((keys @ [key]) @ round) progress'"
    using Cons.prems(3,5) by (intro Cons.IH [OF _ p1(2)]) auto
  then show ?case by simp
qed simp

lemma next_round_distinct:
  assumes "next_feature_install_round nodes dependencies priorities worklist installed = Inr round" "distinct worklist"
  shows "distinct round"
proof -
  let ?pairs = "filter_map (\<lambda>key. map_option (Pair key) (bt_get nodes key)) (ready_feature_instances dependencies worklist installed)"
  have "distinct (map fst (filter_map (\<lambda>key. map_option (Pair key) (bt_get nodes key)) ks)) \<and>
      fst ` set (filter_map (\<lambda>key. map_option (Pair key) (bt_get nodes key)) ks) \<subseteq> set ks" if "distinct ks" for ks
    using that by (induction ks) (auto split: option.splits)
  moreover have "distinct (ready_feature_instances dependencies worklist installed)"
    using assms(2) by (simp add: ready_feature_instances_def)
  ultimately have d: "distinct (map fst ?pairs)" by blast
  have "distinct (map fst (sort_key f (filter P ?pairs)))" for f P
  proof -
    have "mset (map fst (sort_key f (filter P ?pairs))) = mset (map fst (filter P ?pairs))"
      unfolding mset_map mset_sort ..
    moreover have "distinct (map fst (filter P ?pairs))" using d by (rule distinct_map_filter)
    ultimately show ?thesis using mset_eq_imp_distinct_iff by blast
  qed
  then show ?thesis using assms(1)
    by (auto simp: next_feature_install_round_def Let_def bind_res_Inr_iff split: if_splits)
qed

lemma ready_required: "key \<in> set (ready_feature_instances dependencies worklist installed) \<Longrightarrow>
    key \<in> set worklist \<and> required dependencies key \<subseteq> set installed"
  by (auto simp: ready_feature_instances_def required_def list_all_iff split: option.splits)

lemma install_rounds_ordered:
  assumes "install_rounds nodes dependencies priorities progress = Inr plan"
    and "ordered_so_far nodes dependencies keys progress"
  shows "\<exists>installed order. ordered_so_far nodes dependencies order ([], installed, plan)"
  using assms
proof (induction nodes dependencies priorities progress arbitrary: keys rule: install_rounds.induct)
  case (1 nodes dependencies priorities progress)
  obtain worklist installed ordered where p: "progress = (worklist, installed, ordered)" by (cases progress)
  show ?case
  proof (cases "worklist = []")
    case True
    with 1(2) p have "ordered = plan" by (simp add: install_rounds.simps)
    with 1(3) p True show ?thesis by blast
  next
    case False
    from 1(2) have "bind_res (next_feature_install_round nodes dependencies priorities worklist installed) (\<lambda>round.
        bind_res (try_fold (install_feature nodes) progress round)
          (\<lambda>progress'. install_rounds nodes dependencies priorities progress')) = Inr plan"
      using False p by (subst (asm) install_rounds.simps) simp
    then obtain round progress' where
      round: "next_feature_install_round nodes dependencies priorities worklist installed = Inr round"
      and progress': "try_fold (install_feature nodes) progress round = Inr progress'"
      and rest: "install_rounds nodes dependencies priorities progress' = Inr plan"
      unfolding bind_res_Inr_iff by blast
    have ready: "\<forall>key\<in>set round. key \<in> set worklist \<and> required dependencies key \<subseteq> set installed"
      using next_round(2) [OF round] ready_required by blast
    have "ordered_so_far nodes dependencies (keys @ round) progress'"
    proof (rule ordered_round [OF 1(3) progress'])
      show "distinct round" using next_round_distinct [OF round] 1(3) p by (auto simp: ordered_so_far_def)
      show "set round \<subseteq> set (fst progress)" using ready p by auto
      show "\<forall>key\<in>set round. required dependencies key \<subseteq> set keys"
        using ready 1(3) p by (auto simp: ordered_so_far_def)
    qed
    then show ?thesis using 1(1) [OF p [symmetric] refl False round progress' rest] p by blast
  qed
qed

lemma order_feature_install_plan_ordered:
  assumes "bt_ok nodes" "order_feature_install_plan nodes dependencies priorities = Inr plan"
  shows "\<exists>order. distinct order \<and> set order = set (bt_keys nodes) \<and> list_all2 (installs nodes) order plan \<and>
    (\<forall>i<length order. required dependencies (order ! i) \<subseteq> set (take i order))"
proof -
  have "ordered_so_far nodes dependencies [] (bt_keys nodes, [], [])"
    using bt_ok_distinct [OF assms(1)] by (simp add: ordered_so_far_def bt_keys_def)
  from install_rounds_ordered [OF assms(2) [unfolded order_feature_install_plan_def] this]
  show ?thesis by (auto simp: ordered_so_far_def)
qed

definition requirement_graph ::
  "(string, feature_install_input) btree_map \<Rightarrow> (string, string list) btree_map \<Rightarrow> (string \<times> string) set" where
  "requirement_graph nodes dependencies = {(r, key). key \<in> set (bt_keys nodes) \<and> r \<in> required dependencies key}"

lemma order_acyclic:
  assumes "set order = set (bt_keys nodes)"
    and "\<forall>i<length order. required dependencies (order ! i) \<subseteq> set (take i order)"
    and "distinct order"
  shows "acyclic (requirement_graph nodes dependencies)"
proof -
  define position where "position key = (LEAST i. i < length order \<and> order ! i = key)" for key
  have position: "position (order ! i) = i" if "i < length order" for i
    unfolding position_def using that assms(3) by (intro Least_equality) (auto simp: nth_eq_iff_index_eq)
  have less: "position r < position key" if "(r, key) \<in> requirement_graph nodes dependencies" for r key
  proof -
    from that assms(1) have "key \<in> set order" by (auto simp: requirement_graph_def)
    then obtain i where i: "i < length order" "key = order ! i"
      by (auto simp: in_set_conv_nth)
    with that assms(2) have "r \<in> set (take i order)" by (auto simp: requirement_graph_def)
    then obtain j where "j < i" "r = order ! j" using i(1) by (auto simp: in_set_conv_nth)
    with i position show ?thesis by simp
  qed
  have "(r, key) \<in> (requirement_graph nodes dependencies)\<^sup>+ \<Longrightarrow> position r < position key" for r key
    by (induction rule: trancl_induct) (auto dest: less)
  then show ?thesis by (auto simp: acyclic_def)
qed

lemma max_priority_total:
  "\<forall>k\<in>set ready. bt_get nodes k \<noteq> None \<Longrightarrow> \<exists>p. try_fold (raise_priority nodes priorities) m ready = Inr p"
proof (induction ready arbitrary: m)
  case (Cons k ready)
  then obtain input where "bt_get nodes k = Some input" by auto
  then show ?case using Cons by (auto simp: raise_priority_def)
qed simp

lemma round_total:
  assumes "set worklist \<subseteq> set (bt_keys nodes)" "ready_feature_instances dependencies worklist installed \<noteq> []"
  shows "\<exists>round. next_feature_install_round nodes dependencies priorities worklist installed = Inr round"
proof -
  have "\<forall>k\<in>set (ready_feature_instances dependencies worklist installed). bt_get nodes k \<noteq> None"
  proof
    fix k assume "k \<in> set (ready_feature_instances dependencies worklist installed)"
    then have "k \<in> set (bt_keys nodes)" using assms(1) ready_required by blast
    then show "bt_get nodes k \<noteq> None" by (simp add: bt_keys_def bt_get_def map_of_eq_None_iff)
  qed
  from max_priority_total [OF this] obtain p where
    "try_fold (raise_priority nodes priorities) 0 (ready_feature_instances dependencies worklist installed) = Inr p" by blast
  with assms(2) show ?thesis
    by (auto simp: next_feature_install_round_def Let_def max_feature_round_priority_def)
qed

lemma plan_entry_fails: "feature_install_plan_entry_of input = Inl e \<longleftrightarrow>
    feature_option_env (fi_feature input) (fi_metadata input) = Inl e"
  by (cases "feature_option_env (fi_feature input) (fi_metadata input)") (simp_all add: feature_install_plan_entry_of_def)

lemma install_outcome:
  assumes "\<forall>k\<in>set round. bt_get nodes k \<noteq> None"
  shows "(\<exists>progress'. try_fold (install_feature nodes) progress round = Inr progress') \<or>
    (\<exists>k\<in>set round. \<exists>input e. bt_get nodes k = Some input \<and>
       feature_option_env (fi_feature input) (fi_metadata input) = Inl e \<and>
       try_fold (install_feature nodes) progress round = Inl e)"
  using assms
proof (induction round arbitrary: progress)
  case (Cons k round)
  obtain worklist installed ordered where p: "progress = (worklist, installed, ordered)" by (cases progress)
  from Cons.prems obtain input where input: "bt_get nodes k = Some input" by auto
  show ?case
  proof (cases "feature_install_plan_entry_of input")
    case (Inl e)
    then have "try_fold (install_feature nodes) progress (k # round) = Inl e"
      by (simp add: p install_feature_def input)
    then show ?thesis using Inl input by (auto simp: plan_entry_fails simp del: try_fold.simps)
  next
    case (Inr entry)
    obtain p1 where p1: "install_feature nodes progress k = Inr p1"
      unfolding p using install_feature_iff input Inr by fastforce
    then have "try_fold (install_feature nodes) progress (k # round) = try_fold (install_feature nodes) p1 round" by simp
    moreover have "\<forall>k\<in>set round. bt_get nodes k \<noteq> None" using Cons.prems by simp
    ultimately show ?thesis using Cons.IH [of p1] unfolding list.set(2) by (metis insert_iff)
  qed
qed (simp del: split_paired_Ex)

definition cycle_error :: "string list \<Rightarrow> string" where
  "cycle_error worklist = fmt [''Feature install order contains a dependency cycle involving: '', str_join '', '' worklist]"

lemma install_rounds_total:
  assumes "ordered_so_far nodes dependencies keys progress"
    and known: "\<forall>k. required dependencies k \<subseteq> set (bt_keys nodes)"
  shows "(\<exists>plan. install_rounds nodes dependencies priorities progress = Inr plan) \<or>
    (\<exists>blocked. install_rounds nodes dependencies priorities progress = Inl (cycle_error blocked) \<and> blocked \<noteq> [] \<and>
       set blocked \<subseteq> set (bt_keys nodes) \<and>
       (\<forall>key\<in>set blocked. \<exists>r\<in>set blocked. (r, key) \<in> requirement_graph nodes dependencies)) \<or>
    (\<exists>key input e. bt_get nodes key = Some input \<and>
       feature_option_env (fi_feature input) (fi_metadata input) = Inl e \<and>
       install_rounds nodes dependencies priorities progress = Inl e)"
  using assms(1)
proof (induction "length (fst progress)" arbitrary: keys progress rule: less_induct)
  case less
  obtain worklist installed ordered where p: "progress = (worklist, installed, ordered)" by (cases progress)
  from less(2) p have sets: "set worklist \<union> set keys = set (bt_keys nodes)" "set keys = set installed" "distinct worklist"
    by (auto simp: ordered_so_far_def)
  show ?case
  proof (cases "worklist = []")
    case True
    with p show ?thesis by (auto simp: install_rounds.simps)
  next
    case False
    show ?thesis
    proof (cases "ready_feature_instances dependencies worklist installed = []")
      case True
      have "next_feature_install_round nodes dependencies priorities worklist installed = Inl (cycle_error worklist)"
        using True by (simp add: next_feature_install_round_def cycle_error_def)
      then have "install_rounds nodes dependencies priorities progress = Inl (cycle_error worklist)"
        using p False by (subst install_rounds.simps) simp
      moreover have "\<forall>key\<in>set worklist. \<exists>r\<in>set worklist. (r, key) \<in> requirement_graph nodes dependencies"
      proof
        fix key assume key: "key \<in> set worklist"
        with True have "\<exists>r\<in>required dependencies key. r \<notin> set installed"
          unfolding ready_feature_instances_def filter_empty_conv
          by (auto simp: required_def list_all_iff split: option.splits)
        then obtain r where r: "r \<in> required dependencies key" "r \<notin> set installed" by blast
        then have "r \<in> set worklist" using known sets by blast
        with key r sets show "\<exists>r\<in>set worklist. (r, key) \<in> requirement_graph nodes dependencies"
          by (auto simp: requirement_graph_def)
      qed
      ultimately show ?thesis using False sets(1) by blast
    next
      case ready: False
      obtain round where round: "next_feature_install_round nodes dependencies priorities worklist installed = Inr round"
        using round_total [OF _ ready] sets(1) by blast
      have in_round: "\<forall>key\<in>set round. key \<in> set worklist \<and> required dependencies key \<subseteq> set installed"
        using next_round(2) [OF round] ready_required by blast
      have "\<forall>k\<in>set round. bt_get nodes k \<noteq> None"
        using in_round sets(1) by (auto simp: bt_keys_def bt_get_def map_of_eq_None_iff)
      from install_outcome [OF this, of progress] show ?thesis
      proof (elim disjE)
        assume "\<exists>k\<in>set round. \<exists>input e. bt_get nodes k = Some input \<and>
            feature_option_env (fi_feature input) (fi_metadata input) = Inl e \<and>
            try_fold (install_feature nodes) progress round = Inl e"
        then obtain k input e where bad: "bt_get nodes k = Some input"
          "feature_option_env (fi_feature input) (fi_metadata input) = Inl e"
          "try_fold (install_feature nodes) progress round = Inl e" by blast
        have "install_rounds nodes dependencies priorities progress = Inl e"
          using p False round bad(3) by (subst install_rounds.simps) simp
        with bad show ?thesis by blast
      next
        assume "\<exists>progress'. try_fold (install_feature nodes) progress round = Inr progress'"
        then obtain progress' where progress': "try_fold (install_feature nodes) progress round = Inr progress'" ..
        have inv: "ordered_so_far nodes dependencies (keys @ round) progress'"
          using in_round p sets next_round_distinct [OF round]
          by (intro ordered_round [OF less(2) progress']) auto
        obtain w' i' o' where p': "progress' = (w', i', o')" by (cases progress')
        have "w' = filter (\<lambda>k. k \<notin> set round) worklist"
          using install_features_worklist progress' unfolding p p' by blast
        moreover obtain k where "k \<in> set round" using next_round(1) [OF round] by (cases round) auto
        ultimately have "length w' < length worklist"
          using in_round by (auto intro: length_filter_less)
        then have shorter: "length (fst progress') < length (fst progress)" by (simp add: p p')
        have "install_rounds nodes dependencies priorities progress = install_rounds nodes dependencies priorities progress'"
          using p False round progress' by (subst install_rounds.simps) simp
        with less(1) [OF shorter inv] show ?thesis by simp
      qed
    qed
  qed
qed

section \<open>Properties of the order\<close>

text \<open>C34. For a map of Features whose requirements are among them, the rounds order it
  exactly when the requirements have no cycle and the option environment of every Feature can be
  built; a failure is the error of such an environment, or names a non-empty set of Features each
  of which requires a Feature of the set, itself or another.\<close>

theorem ordering_fails_exactly_on_cycles:
  assumes "bt_ok nodes" and "\<forall>key. required dependencies key \<subseteq> set (bt_keys nodes)"
  shows "((\<exists>plan. order_feature_install_plan nodes dependencies priorities = Inr plan) \<longleftrightarrow>
      acyclic (requirement_graph nodes dependencies) \<and>
      (\<forall>(key, input)\<in>set nodes. \<exists>env. feature_option_env (fi_feature input) (fi_metadata input) = Inr env)) \<and>
    (\<forall>error. order_feature_install_plan nodes dependencies priorities = Inl error \<longrightarrow>
      (\<exists>blocked. error = cycle_error blocked \<and> blocked \<noteq> [] \<and> set blocked \<subseteq> set (bt_keys nodes) \<and>
        (\<forall>key\<in>set blocked. \<exists>r\<in>set blocked. (r, key) \<in> requirement_graph nodes dependencies)) \<or>
      (\<exists>(key, input)\<in>set nodes. feature_option_env (fi_feature input) (fi_metadata input) = Inl error))"
proof -
  let ?options = "\<forall>(key, input)\<in>set nodes. \<exists>env. feature_option_env (fi_feature input) (fi_metadata input) = Inr env"
  have start: "ordered_so_far nodes dependencies [] (bt_keys nodes, [], [])"
    using bt_ok_distinct [OF assms(1)] by (simp add: ordered_so_far_def bt_keys_def)
  note total = install_rounds_total [OF start assms(2), of priorities, folded order_feature_install_plan_def]
  have success: "acyclic (requirement_graph nodes dependencies)" "?options"
    if plan: "order_feature_install_plan nodes dependencies priorities = Inr plan" for plan
  proof -
    from order_feature_install_plan_ordered [OF assms(1) plan] obtain order where order: "distinct order"
      "set order = set (bt_keys nodes)" "list_all2 (installs nodes) order plan"
      "\<forall>i<length order. required dependencies (order ! i) \<subseteq> set (take i order)" by blast
    show "acyclic (requirement_graph nodes dependencies)" by (rule order_acyclic [OF order(2,4,1)])
    have "\<exists>env. feature_option_env (fi_feature input) (fi_metadata input) = Inr env" if node: "(key, input) \<in> set nodes"
      for key input
    proof -
      have "key \<in> set order" using node order(2) by (force simp: bt_keys_def)
      then obtain entry where "installs nodes key entry"
        using order(3) by (auto simp: list_all2_conv_all_nth in_set_conv_nth)
      moreover have "bt_get nodes key = Some input" using bt.get_entries [OF assms(1)] node by simp
      ultimately show ?thesis by (auto simp: installs_def feature_install_plan_entry_of_def result_elims)
    qed
    then show "?options" by blast
  qed
  have "\<not> acyclic (requirement_graph nodes dependencies)"
    if blocked: "blocked \<noteq> []" "\<forall>key\<in>set blocked. \<exists>r\<in>set blocked. (r, key) \<in> requirement_graph nodes dependencies"
    for blocked
  proof
    assume "acyclic (requirement_graph nodes dependencies)"
    moreover have "requirement_graph nodes dependencies \<subseteq> set (bt_keys nodes) \<times> set (bt_keys nodes)"
      using assms(2) by (auto simp: requirement_graph_def)
    then have "finite (requirement_graph nodes dependencies)" by (rule finite_subset) simp
    ultimately have "wf (requirement_graph nodes dependencies)" by (rule finite_acyclic_wf [rotated])
    moreover obtain k where "k \<in> set blocked" using blocked(1) by (cases blocked) auto
    ultimately have "\<exists>z\<in>set blocked. \<forall>y. (y, z) \<in> requirement_graph nodes dependencies \<longrightarrow> y \<notin> set blocked"
      using wfE_min by metis
    with blocked(2) show False by blast
  qed
  moreover have "\<not> ?options \<and> (\<exists>(key, input)\<in>set nodes. feature_option_env (fi_feature input) (fi_metadata input) = Inl e)"
    if "bt_get nodes key = Some input" "feature_option_env (fi_feature input) (fi_metadata input) = Inl e" for key input e
    using bt_get_SomeD [OF that(1)] that(2) by force
  ultimately show ?thesis using total success by (metis (lifting) Inl_inject sum.distinct(1))
qed

section \<open>An example\<close>

definition sample_metadata :: "string \<Rightarrow> feature_metadata" where
  "sample_metadata key = \<lparr>fm_id = key, fm_version = ''1'', fm_name = key, fm_legacy_ids = [],
     fm_depends_on = (if key = ''./a'' then [(''./b'', J_Object [])] else []), fm_installs_after = [], fm_options = []\<rparr>"

definition sample_reference :: "string \<Rightarrow> feature_ref" where
  "sample_reference key = Local \<lparr>local_original = key, local_path = key, local_canonical_id = key\<rparr>"

definition sample_input :: "string \<Rightarrow> feature_install_input" where
  "sample_input key = \<lparr>fi_feature = \<lparr>rf_id = key, rf_canonical_id = key, rf_options = []\<rparr>,
     fi_reference = sample_reference key, fi_metadata = sample_metadata key, fi_source_key = key, fi_instance_key = key\<rparr>"

theorem ordering_fails_exactly_on_cycles_witness:
  "\<exists>blocked. order_feature_install_plan [(''./b'', sample_input ''./b'')] [(''./b'', [''./b''])] [] = Inl (cycle_error blocked) \<and>
     set blocked \<subseteq> {''./b''}"
proof -
  let ?nodes = "[(''./b'', sample_input ''./b'')]" and ?deps = "[(''./b'', [''./b''])]"
  have 1: "bt_ok ?nodes" by (simp add: bt_ok_def)
  have 2: "\<forall>key. required ?deps key \<subseteq> set (bt_keys ?nodes)"
    by (simp add: required_def bt_get_def bt_keys_def)
  have "(''./b'', ''./b'') \<in> requirement_graph ?nodes ?deps"
    by (simp add: requirement_graph_def bt_keys_def required_def bt_get_def)
  then have "\<not> acyclic (requirement_graph ?nodes ?deps)" by (auto simp: acyclic_def)
  then obtain error where "order_feature_install_plan ?nodes ?deps [] = Inl error"
    using ordering_fails_exactly_on_cycles [OF 1 2, of "[]"] by (cases "order_feature_install_plan ?nodes ?deps []") auto
  moreover have "feature_option_env (fi_feature (sample_input ''./b'')) (fi_metadata (sample_input ''./b'')) \<noteq> Inl error"
    by (simp add: sample_input_def sample_metadata_def feature_option_env_def)
  ultimately show ?thesis using ordering_fails_exactly_on_cycles [OF 1 2, of "[]"] by (auto simp: bt_keys_def)
qed

end
