(* ===== verification/Feature_Lock.thy ===== *)
theory Feature_Lock
  imports Feature_Reference "HOL-Library.Multiset"
begin

text \<open>
  The lock file of the Features, from \<open>src/devcontainer/features/lock.rs\<close>: its entries, their
  order, and the reference that a locked Feature is pulled by. Reading and writing the file and
  its TOML text are outside.
\<close>

record feature_lock_entry =
  le_id :: string
  le_reference :: string
  le_digest :: string

record feature_lock_file =
  lf_version :: nat
  lf_features :: "feature_lock_entry list"

definition feature_lock_version :: nat where
  "feature_lock_version = 1"

definition empty_lock :: feature_lock_file where
  "empty_lock = \<lparr>lf_version = feature_lock_version, lf_features = []\<rparr>"

definition lock_sort_key :: "feature_lock_entry \<Rightarrow> string \<times> string \<times> string" where
  "lock_sort_key entry = (le_id entry, le_reference entry, le_digest entry)"

definition sorted_lock :: "feature_lock_file \<Rightarrow> feature_lock_file" where
  "sorted_lock lock = lock\<lparr>lf_features := sort_key lock_sort_key (lf_features lock)\<rparr>"

definition oci_feature_ref_lock_key :: "oci_feature_ref \<Rightarrow> string" where
  "oci_feature_ref_lock_key reference =
     (case oci_digest reference of
        None \<Rightarrow> fmt [oci_canonical_id reference, '':'',
                     case oci_tag reference of Some tag \<Rightarrow> tag | None \<Rightarrow> ''latest'']
      | Some digest \<Rightarrow> fmt [oci_canonical_id reference, ''@'', digest])"

definition feature_lock_reference_matches :: "string \<Rightarrow> oci_feature_ref \<Rightarrow> bool" where
  "feature_lock_reference_matches locked requested =
     (case parse_feature_ref locked of
        Inr (Oci reference) \<Rightarrow> oci_feature_ref_lock_key reference = oci_feature_ref_lock_key requested
      | _ \<Rightarrow> False)"

definition digest_for_reference :: "feature_lock_file \<Rightarrow> oci_feature_ref \<Rightarrow> string option" where
  "digest_for_reference lock reference =
     map_option le_digest (List.find (\<lambda>entry.
       canonical_feature_id (le_id entry) = oci_canonical_id reference \<and>
       feature_lock_reference_matches (le_reference entry) reference) (lf_features lock))"

definition resolve_locked_feature_ref :: "feature_ref \<Rightarrow> feature_lock_file \<Rightarrow> bool \<Rightarrow> string" where
  "resolve_locked_feature_ref feature lock update_features =
     (if update_features then ref_original feature
      else case feature of
             Oci reference \<Rightarrow>
               (case digest_for_reference lock reference of
                  None \<Rightarrow> oci_original reference
                | Some digest \<Rightarrow> fmt [oci_canonical_id reference, ''@'', digest])
           | Local reference \<Rightarrow> local_path reference)"

text \<open>The entry that a Feature pulled by a reference adds to the lock file.\<close>

definition lock_entry_of :: "oci_feature_ref \<Rightarrow> string \<Rightarrow> feature_lock_entry" where
  "lock_entry_of reference digest =
     \<lparr>le_id = oci_canonical_id reference, le_reference = normalized_reference reference, le_digest = digest\<rparr>"

section \<open>A recorded Feature is found again\<close>

lemma lock_key_normalized: "oci_feature_ref_lock_key reference = normalized_reference reference"
  by (simp add: oci_feature_ref_lock_key_def normalized_reference_def)

lemma canonical_parses:
  assumes "parse_oci_feature_ref input = Inr r"
  shows "\<exists>r'. parse_oci_feature_ref (oci_canonical_id r) = Inr r' \<and> oci_canonical_id r' = oci_canonical_id r"
proof -
  from assms obtain registry repository feature_id tag digest where
    parts: "reference_parts input registry repository feature_id tag digest"
    and r: "r = build_reference input registry repository feature_id tag digest" by (rule parts_of_parse)
  have "reference_parts (registry @ ''/'' @ repository @ ''/'' @ feature_id) registry repository feature_id None None"
    using parts by (auto simp: reference_parts_def)
  from parse_oci_of_parts [OF parts_lower [OF this, of None]] show ?thesis
    by (simp add: r build_reference_def comp_def)
qed

lemma canonical_id_fixed:
  assumes "parse_oci_feature_ref input = Inr r"
  shows "canonical_feature_id (oci_canonical_id r) = oci_canonical_id r"
proof -
  obtain r' where "parse_oci_feature_ref (oci_canonical_id r) = Inr r'" "oci_canonical_id r' = oci_canonical_id r"
    using canonical_parses [OF assms] by blast
  then show ?thesis using canonical_agrees [of "oci_canonical_id r" "Oci r'"] by (simp add: parse_feature_ref_def)
qed

lemma lock_entry_matches:
  assumes "parse_oci_feature_ref input = Inr r" "normalized_reference r = normalized_reference reference"
  shows "feature_lock_reference_matches (le_reference (lock_entry_of r digest)) reference"
proof -
  have "oci_feature_ref_lock_key (r\<lparr>oci_original := x, oci_tag := if oci_digest r = None then oci_tag r else None\<rparr>) =
      normalized_reference r" for x
    by (auto simp: oci_feature_ref_lock_key_def normalized_reference_def split: option.splits)
  with normalized_parses [OF assms(1)] assms(2) show ?thesis
    by (simp add: feature_lock_reference_matches_def parse_feature_ref_def lock_entry_of_def lock_key_normalized)
qed

lemma pinned_parses:
  assumes "parse_oci_feature_ref input = Inr r" "validate_oci_digest digest = Inr ()"
  shows "parse_oci_feature_ref (oci_canonical_id r @ ''@'' @ digest) =
    Inr (r\<lparr>oci_original := oci_canonical_id r @ ''@'' @ digest, oci_tag := None, oci_digest := Some digest\<rparr>)"
proof -
  from assms(1) obtain registry repository feature_id tag old where
    parts: "reference_parts input registry repository feature_id tag old"
    and r: "r = build_reference input registry repository feature_id tag old" by (rule parts_of_parse)
  have "reference_parts (registry @ ''/'' @ repository @ ''/'' @ feature_id @ ''@'' @ digest) registry repository feature_id
      None (Some digest)"
    using parts assms(2) by (auto simp: reference_parts_def)
  from parse_oci_of_parts [OF parts_lower [OF this, of None]] show ?thesis
    by (simp add: r build_reference_def comp_def)
qed

section \<open>Properties\<close>

text \<open>A Feature whose normalized reference the lock file records resolves to a reference
  that parses, is pinned to a digest the lock file records for that reference, and keeps its
  canonical id.\<close>

theorem locked_features_stay_pinned:
  assumes "parse_oci_feature_ref input = Inr reference" "parse_oci_feature_ref input' = Inr recorded"
    and "normalized_reference recorded = normalized_reference reference"
    and "lock_entry_of recorded digest \<in> set (lf_features lock)"
    and "\<forall>entry\<in>set (lf_features lock). validate_oci_digest (le_digest entry) = Inr ()"
  shows "\<exists>entry\<in>set (lf_features lock). \<exists>pinned. feature_lock_reference_matches (le_reference entry) reference \<and>
    parse_oci_feature_ref (resolve_locked_feature_ref (Oci reference) lock False) = Inr pinned \<and>
    oci_digest pinned = Some (le_digest entry) \<and> oci_canonical_id pinned = oci_canonical_id reference"
proof -
  have same: "oci_canonical_id recorded = oci_canonical_id reference"
  proof -
    have "canonical_feature_id (normalized_reference r) = oci_canonical_id r" if "parse_oci_feature_ref i = Inr r" for i r
      using canonical_agrees [of "normalized_reference r"] normalized_parses [OF that]
      by (simp add: parse_feature_ref_def)
    from this [OF assms(1)] this [OF assms(2)] assms(3) show ?thesis by simp
  qed
  let ?P = "\<lambda>entry. canonical_feature_id (le_id entry) = oci_canonical_id reference \<and>
       feature_lock_reference_matches (le_reference entry) reference"
  have "?P (lock_entry_of recorded digest)"
    using canonical_id_fixed [OF assms(2)] lock_entry_matches [OF assms(2,3), of digest] same
    by (simp add: lock_entry_of_def)
  with assms(4) obtain entry where entry: "List.find ?P (lf_features lock) = Some entry"
    by (cases "List.find ?P (lf_features lock)") (auto simp: find_None_iff2)
  then have member: "entry \<in> set (lf_features lock)" "?P entry" using find_Some_iff2 by fastforce+
  have "resolve_locked_feature_ref (Oci reference) lock False = oci_canonical_id reference @ ''@'' @ le_digest entry"
    using entry by (simp add: resolve_locked_feature_ref_def digest_for_reference_def fmt_def)
  with pinned_parses [OF assms(1), of "le_digest entry"] assms(5) member show ?thesis by auto
qed

definition example_pinned :: oci_feature_ref where
  "example_pinned = \<lparr>oci_original = ''GHCR.io/dev/features/go:1'', oci_registry = ''ghcr.io'',
     oci_repository = ''dev/features'', oci_feature_id = ''go'', oci_tag = Some ''1'', oci_digest = None,
     oci_canonical_id = ''ghcr.io/dev/features/go''\<rparr>"

definition example_digest :: string where
  "example_digest = ''sha256:'' @ replicate 64 CHR ''1''"

lemma example_digest_ok: "validate_oci_digest example_digest = Inr ()"
  by (simp add: validate_oci_digest_def example_digest_def list_all_iff to_digit_def is_ascii_lowercase_def
      is_ascii_digit_def Let_def)

theorem locked_features_stay_pinned_witness:
  "\<exists>pinned. parse_oci_feature_ref (resolve_locked_feature_ref (Oci example_pinned)
       \<lparr>lf_version = 1, lf_features = [lock_entry_of example_pinned example_digest]\<rparr> False) = Inr pinned \<and>
     oci_digest pinned = Some example_digest"
proof -
  let ?lock = "\<lparr>lf_version = 1, lf_features = [lock_entry_of example_pinned example_digest]\<rparr>"
  have parsed: "parse_oci_feature_ref ''GHCR.io/dev/features/go:1'' = Inr example_pinned"
    unfolding example_pinned_def by (rule example_reference)
  have digests: "\<forall>entry\<in>set (lf_features ?lock). validate_oci_digest (le_digest entry) = Inr ()"
    using example_digest_ok by (simp add: lock_entry_of_def)
  have recorded: "lock_entry_of example_pinned example_digest \<in> set (lf_features ?lock)" by simp
  have digest: "le_digest (lock_entry_of example_pinned example_digest) = example_digest" by (simp add: lock_entry_of_def)
  from locked_features_stay_pinned [OF parsed parsed refl recorded digests] show ?thesis
    by (auto simp: digest)
qed

end
