(* ===== verification/Canonical_Text.thy ===== *)
theory Canonical_Text
  imports Feature_Options
begin

text \<open>
  The canonical text of \<open>src/config/canonical.rs\<close>. Every method of \<open>CanonicalWriter\<close> appends to
  one string, so a method is the text it appends and two calls in a row are \<open>@\<close>. Texts are
  length-prefixed and delimited so that a reader could take them apart again: the locale
  \<open>canonical\<close> says what a reader gets back of a value, its view, and shows that sequences, maps
  and optional values of such texts can be taken apart as well.
\<close>

section \<open>Hexadecimal bytes\<close>

definition hex_digit :: "nat \<Rightarrow> char" where
  "hex_digit n = ''0123456789abcdef'' ! n"

definition push_hex_byte :: "u8 \<Rightarrow> string" where
  "push_hex_byte b = [hex_digit (unat (drop_bit 4 b)), hex_digit (unat (b AND 0x0f))]"

definition to_be_bytes :: "u64 \<Rightarrow> u8 list" where
  "to_be_bytes v = map (\<lambda>i. ucast (drop_bit i v)) [56, 48, 40, 32, 24, 16, 8, 0]"

definition push_hex_u64 :: "u64 \<Rightarrow> string" where
  "push_hex_u64 v = concat (map push_hex_byte (to_be_bytes v))"

definition sha256_hex :: "(string \<Rightarrow> u8 list) \<Rightarrow> string \<Rightarrow> string" where
  "sha256_hex sha256 s = concat (map push_hex_byte (sha256 s))"

section \<open>The writer\<close>

definition canon_string :: "string \<Rightarrow> string" where
  "canon_string v = ''s'' @ show_nat (length v) @ '':'' @ v"

definition canon_object :: "string \<Rightarrow> string \<Rightarrow> string" where
  "canon_object name written = ''object'' @ canon_string name @ ''['' @ written @ '']''"

definition canon_field :: "string \<Rightarrow> string \<Rightarrow> string" where
  "canon_field name written = ''field'' @ canon_string name @ ''='' @ written @ '';''"

definition canon_seq :: "('a \<Rightarrow> string) \<Rightarrow> 'a list \<Rightarrow> string" where
  "canon_seq write_value xs = ''seq['' @ concat (map (\<lambda>x. write_value x @ '';'') xs) @ '']''"

definition canon_map :: "('v \<Rightarrow> string) \<Rightarrow> (string \<times> 'v) list \<Rightarrow> string" where
  "canon_map write_value entries =
     ''map{'' @ concat (map (\<lambda>(k, v). canon_string k @ ''='' @ write_value v @ '';'') (sort_key fst entries)) @ ''}''"

definition canon_bool :: "bool \<Rightarrow> string" where
  "canon_bool v = (if v then ''b1'' else ''b0'')"

definition canon_i64 :: "int \<Rightarrow> string" where
  "canon_i64 v = ''i'' @ show_int v"

definition canon_f64 :: "u64 \<Rightarrow> string" where
  "canon_f64 bits = ''f'' @ push_hex_u64 bits"

definition canon_none :: string where
  "canon_none = ''none''"

definition canon_option :: "('a \<Rightarrow> string) \<Rightarrow> 'a option \<Rightarrow> string" where
  "canon_option write_value v = (case v of Some x \<Rightarrow> write_value x | None \<Rightarrow> canon_none)"

definition option_string :: "string option \<Rightarrow> string" where
  "option_string v = canon_option canon_string v"

lemma canon_seq_cong [fundef_cong]:
  "xs = ys \<Longrightarrow> (\<And>x. x \<in> set ys \<Longrightarrow> f x = g x) \<Longrightarrow> canon_seq f xs = canon_seq g ys"
  by (simp add: canon_seq_def cong: map_cong)

lemma canon_map_cong [fundef_cong]:
  "m = n \<Longrightarrow> (\<And>k v. (k, v) \<in> set n \<Longrightarrow> f v = g v) \<Longrightarrow> canon_map f m = canon_map g n"
  by (auto simp: canon_map_def intro!: arg_cong [of _ _ concat])

fun canon_toml :: "toml \<Rightarrow> string" where
  "canon_toml (T_String v) = ''toml-string'' @ canon_string v"
| "canon_toml (T_Integer v) = ''toml-integer'' @ canon_i64 v"
| "canon_toml (T_Float bits v) = ''toml-float'' @ canon_f64 bits"
| "canon_toml (T_Boolean v) = ''toml-boolean'' @ canon_bool v"
| "canon_toml (T_Datetime v) = ''toml-datetime'' @ canon_string v"
| "canon_toml (T_Array vs) = ''toml-array'' @ canon_seq canon_toml vs"
| "canon_toml (T_Table m) = ''toml-table'' @ canon_map canon_toml m"

fun number_text :: "json_number \<Rightarrow> string" where
  "number_text (Pos_Int n) = show_nat n"
| "number_text (Neg_Int i) = show_int i"
| "number_text (Float_Text s) = s"

fun canon_json :: "json \<Rightarrow> string" where
  "canon_json J_Null = ''json-null''"
| "canon_json (J_Bool v) = ''json-bool'' @ canon_bool v"
| "canon_json (J_Number v) = ''json-number'' @ canon_string (number_text v)"
| "canon_json (J_String v) = ''json-string'' @ canon_string v"
| "canon_json (J_Array vs) = ''json-array'' @ canon_seq canon_json vs"
| "canon_json (J_Object m) = ''json-object'' @ canon_map canon_json m"

section \<open>Texts can be taken apart\<close>

lemma hex_digit_inj: "m < 16 \<Longrightarrow> n < 16 \<Longrightarrow> hex_digit m = hex_digit n \<longleftrightarrow> m = n"
  unfolding hex_digit_def by (subst nth_eq_iff_index_eq) simp_all

lemma nibble_bounds: "unat (drop_bit 4 (b :: u8)) < 16" "unat ((b :: u8) AND 0x0f) < 16"
proof -
  show "unat (drop_bit 4 b) < 16"
    using unat_u8_bound [of b] by (simp add: drop_bit_eq_div unat_div less_mult_imp_div_less)
  have "(b AND 0x0f) = take_bit 4 b" by (simp add: take_bit_eq_mask mask_numeral)
  then show "unat (b AND 0x0f) < 16" by (simp add: unsigned_take_bit_eq take_bit_nat_less_exp [of 4, simplified])
qed

lemma push_hex_byte_inj [simp]: "push_hex_byte a = push_hex_byte b \<longleftrightarrow> a = b"
proof
  assume "push_hex_byte a = push_hex_byte b"
  then have "drop_bit 4 a = drop_bit 4 b" "a AND 0x0f = b AND 0x0f"
    by (simp_all add: push_hex_byte_def hex_digit_inj nibble_bounds word_unat_eq_iff)
  then have "drop_bit 4 a = drop_bit 4 b" "take_bit 4 a = take_bit 4 b"
    by (simp_all add: take_bit_eq_mask mask_numeral)
  then show "a = b" by (metis bits_ident)
qed simp

lemma length_push_hex_byte [simp]: "length (push_hex_byte b) = 2"
  by (simp add: push_hex_byte_def)

lemma to_be_bytes_inj: "to_be_bytes v = to_be_bytes w \<Longrightarrow> v = w"
proof (rule bit_eqI)
  fix n
  assume bytes: "to_be_bytes v = to_be_bytes w" and "possible_bit TYPE(64 word) n"
  then have n: "n < 64" by simp
  then have "8 * (n div 8) \<in> {56, 48, 40, 32, 24, 16, 8, 0}" by auto
  then have "(ucast (drop_bit (8 * (n div 8)) v) :: u8) = ucast (drop_bit (8 * (n div 8)) w)"
    using bytes by (auto simp: to_be_bytes_def)
  then have "bit (ucast (drop_bit (8 * (n div 8)) v) :: u8) (n mod 8) =
      bit (ucast (drop_bit (8 * (n div 8)) w) :: u8) (n mod 8)" by simp
  then show "bit v n = bit w n" by (simp add: bit_simps)
qed

lemma push_hex_u64_inj [simp]: "push_hex_u64 v = push_hex_u64 w \<longleftrightarrow> v = w"
proof
  assume "push_hex_u64 v = push_hex_u64 w"
  then have "to_be_bytes v = to_be_bytes w"
    by (simp add: push_hex_u64_def to_be_bytes_def append_eq_append_conv)
  then show "v = w" by (rule to_be_bytes_inj)
qed simp

lemma length_push_hex_u64 [simp]: "length (push_hex_u64 v) = 16"
  by (simp add: push_hex_u64_def to_be_bytes_def)

lemma stop_char:
  "c \<notin> set a \<Longrightarrow> c \<notin> set b \<Longrightarrow> a @ c # r = b @ c # s \<longleftrightarrow> a = b \<and> r = s"
proof (induction a arbitrary: b)
  case Nil
  then show ?case by (cases b) auto
next
  case (Cons x a)
  then show ?case by (cases b) auto
qed

lemma show_nat_inj [simp]: "show_nat m = show_nat n \<longleftrightarrow> m = n"
  by (metis max.cobounded1 max.cobounded2 option.inject parse_unsigned_show_nat)

lemma show_nat_stop:
  "\<not> is_ascii_digit c \<Longrightarrow> show_nat m @ c # r = show_nat n @ c # s \<longleftrightarrow> m = n \<and> r = s"
  by (simp add: stop_char non_digit_not_in_show)

lemma minus_not_a_number [simp]:
  "CHR ''-'' # t \<noteq> show_nat n" "show_nat n \<noteq> CHR ''-'' # t"
proof -
  have "CHR ''-'' \<notin> set (show_nat n)" by (simp add: non_digit_not_in_show is_ascii_digit_def)
  then show "CHR ''-'' # t \<noteq> show_nat n" "show_nat n \<noteq> CHR ''-'' # t" by (auto dest!: sym [of _ "show_nat n"])
qed

lemma show_int_inj [simp]: "show_int i = show_int j \<longleftrightarrow> i = j"
  by (auto simp: show_int_def)

lemma show_int_stop: "show_int i @ CHR '';'' # r = show_int j @ CHR '';'' # s \<longleftrightarrow> i = j \<and> r = s"
  by (subst stop_char) (auto simp: show_int_def non_digit_not_in_show is_ascii_digit_def)

lemma canon_string_cancel [simp]: "canon_string a @ r = canon_string b @ s \<longleftrightarrow> a = b \<and> r = s"
proof -
  have "canon_string a @ r = canon_string b @ s \<longleftrightarrow>
      show_nat (length a) @ CHR '':'' # a @ r = show_nat (length b) @ CHR '':'' # b @ s"
    by (simp add: canon_string_def)
  also have "\<dots> \<longleftrightarrow> length a = length b \<and> a @ r = b @ s"
    by (simp add: show_nat_stop is_ascii_digit_def)
  finally show ?thesis by auto
qed

lemma canon_field_cancel [simp]:
  "canon_field n v @ r = canon_field m w @ s \<longleftrightarrow> n = m \<and> v @ CHR '';'' # r = w @ CHR '';'' # s"
  by (simp add: canon_field_def)

lemma canon_object_cancel [simp]:
  "canon_object n v @ r = canon_object m w @ s \<longleftrightarrow> n = m \<and> v @ CHR '']'' # r = w @ CHR '']'' # s"
  by (simp add: canon_object_def)

lemma canon_bool_cancel [simp]: "canon_bool a @ r = canon_bool b @ s \<longleftrightarrow> a = b \<and> r = s"
  by (simp add: canon_bool_def)

text \<open>The first characters: a text never starts with a closing bracket, and only the text of
  nothing starts with an \<open>n\<close>.\<close>

definition text_head :: "string \<Rightarrow> bool" where
  "text_head t = (t \<noteq> [] \<and> hd t \<notin> set '']}n'')"

lemma text_head_intros [simp]:
  "text_head (canon_string v)" "text_head (canon_object n f)" "text_head (canon_seq f1 xs)"
  "text_head (canon_map f2 m)" "text_head (canon_bool b)"
  by (simp_all add: text_head_def canon_string_def canon_object_def canon_seq_def canon_map_def canon_bool_def)

lemma text_head_differs:
  "text_head t \<Longrightarrow> t @ r \<noteq> CHR '']'' # s" "text_head t \<Longrightarrow> CHR '']'' # s \<noteq> t @ r"
  "text_head t \<Longrightarrow> t @ r \<noteq> CHR ''}'' # s" "text_head t \<Longrightarrow> CHR ''}'' # s \<noteq> t @ r"
  "text_head t \<Longrightarrow> t @ r \<noteq> canon_none @ s" "text_head t \<Longrightarrow> canon_none @ s \<noteq> t @ r"
  by (cases t; auto simp: text_head_def canon_none_def)+

lemma canon_seq_cancel_on:
  assumes "\<And>x y r s. x \<in> set xs \<Longrightarrow> f x @ CHR '';'' # r = f y @ CHR '';'' # s \<longleftrightarrow> p x = p y \<and> r = s"
    and "\<And>x. text_head (f x)"
  shows "canon_seq f xs @ r = canon_seq f ys @ s \<longleftrightarrow> map p xs = map p ys \<and> r = s"
proof -
  have "concat (map (\<lambda>x. f x @ '';'') xs) @ CHR '']'' # r = concat (map (\<lambda>x. f x @ '';'') ys) @ CHR '']'' # s \<longleftrightarrow>
      map p xs = map p ys \<and> r = s"
    using assms(1)
  proof (induction xs arbitrary: ys)
    case Nil
    then show ?case by (cases ys) (auto simp: text_head_differs [OF assms(2)])
  next
    case (Cons x xs)
    then show ?case by (cases ys) (auto simp: text_head_differs [OF assms(2)])
  qed
  then show ?thesis by (simp add: canon_seq_def)
qed

definition map_view :: "('v \<Rightarrow> 'w) \<Rightarrow> (string \<times> 'v) list \<Rightarrow> (string \<times> 'w) list" where
  "map_view p m = map (\<lambda>(k, v). (k, p v)) (sort_key fst m)"

lemma map_view_cong [fundef_cong]:
  "m = n \<Longrightarrow> (\<And>k v. (k, v) \<in> set n \<Longrightarrow> p v = q v) \<Longrightarrow> map_view p m = map_view q n"
  by (auto simp: map_view_def)

lemma map_view_ident [simp]: "map_view (\<lambda>v. v) m = sort_key fst m"
  by (simp add: map_view_def)

lemma canon_map_cancel_on:
  assumes "\<And>k v w r s. (k, v) \<in> set m \<Longrightarrow> f v @ CHR '';'' # r = f w @ CHR '';'' # s \<longleftrightarrow> p v = p w \<and> r = s"
  shows "canon_map f m @ r = canon_map f n @ s \<longleftrightarrow> map_view p m = map_view p n \<and> r = s"
proof -
  let ?entry = "\<lambda>(k, v). canon_string k @ CHR ''='' # f v @ '';''"
  have stop: "canon_string k @ t \<noteq> CHR ''}'' # u" "CHR ''}'' # u \<noteq> canon_string k @ t" for k t u
    by (rule text_head_differs, simp)+
  have "concat (map ?entry a) @ CHR ''}'' # r = concat (map ?entry b) @ CHR ''}'' # s \<longleftrightarrow>
      map (\<lambda>(k, v). (k, p v)) a = map (\<lambda>(k, v). (k, p v)) b \<and> r = s"
    if "\<And>k v w r s. (k, v) \<in> set a \<Longrightarrow> f v @ CHR '';'' # r = f w @ CHR '';'' # s \<longleftrightarrow> p v = p w \<and> r = s" for a b
    using that
  proof (induction a arbitrary: b)
    case Nil
    then show ?case by (cases b) (auto simp: stop split: prod.splits)
  next
    case (Cons x a)
    have IH: "concat (map ?entry a) @ CHR ''}'' # r = concat (map ?entry b) @ CHR ''}'' # s \<longleftrightarrow>
        map (\<lambda>(k, v). (k, p v)) a = map (\<lambda>(k, v). (k, p v)) b \<and> r = s" for b
      by (rule Cons.IH, rule Cons.prems) (rule list.set_intros(2))
    obtain k v where x: "x = (k, v)" by (cases x)
    have v: "f v @ CHR '';'' # r = f w @ CHR '';'' # s \<longleftrightarrow> p v = p w \<and> r = s" for w r s
      by (rule Cons.prems [of k]) (simp add: x)
    show ?case
    proof (cases b)
      case (Cons y b')
      obtain k' w where y: "y = (k', w)" by (cases y)
      show ?thesis by (simp add: Cons x y v IH)
    qed (simp add: stop x)
  qed
  from this [of "sort_key fst m" "sort_key fst n"] assms show ?thesis
    by (simp add: canon_map_def map_view_def)
qed

section \<open>The interface\<close>

locale canonical =
  fixes writes :: "'a \<Rightarrow> string"
    and view :: "'a \<Rightarrow> 'b"
  assumes cancel: "writes x @ CHR '';'' # r = writes y @ CHR '';'' # s \<longleftrightarrow> view x = view y \<and> r = s"
    and head: "text_head (writes x)"
begin

lemma seq_cancel: "canon_seq writes xs @ r = canon_seq writes ys @ s \<longleftrightarrow> map view xs = map view ys \<and> r = s"
  by (rule canon_seq_cancel_on) (rule cancel head)+

lemma map_cancel: "canon_map writes m @ r = canon_map writes n @ s \<longleftrightarrow> map_view view m = map_view view n \<and> r = s"
  by (rule canon_map_cancel_on) (rule cancel)

lemma option_cancel:
  "canon_option writes a @ CHR '';'' # r = canon_option writes b @ CHR '';'' # s \<longleftrightarrow>
     map_option view a = map_option view b \<and> r = s"
  by (cases a; cases b) (simp_all add: canon_option_def cancel text_head_differs [OF head])

lemma option_same_text: "canon_option writes a = canon_option writes b \<longleftrightarrow> map_option view a = map_option view b"
  using option_cancel [of a "[]" b "[]"] by simp

end

interpretation canon_string: canonical canon_string "\<lambda>v. v"
  by unfold_locales simp_all

interpretation canon_bool: canonical canon_bool "\<lambda>v. v"
  by unfold_locales simp_all

section \<open>TOML and JSON values\<close>

fun toml_view :: "toml \<Rightarrow> toml" where
  "toml_view (T_Float bits v) = T_Float bits []"
| "toml_view (T_Array vs) = T_Array (map toml_view vs)"
| "toml_view (T_Table m) = T_Table (map_view toml_view m)"
| "toml_view v = v"

fun json_view :: "json \<Rightarrow> json" where
  "json_view (J_Number v) = J_Number (Float_Text (number_text v))"
| "json_view (J_Array vs) = J_Array (map json_view vs)"
| "json_view (J_Object m) = J_Object (map_view json_view m)"
| "json_view v = v"

lemma canon_toml_head [simp]: "text_head (canon_toml v)"
  by (cases v) (simp_all add: text_head_def)

lemma canon_json_head [simp]: "text_head (canon_json v)"
  by (cases v) (simp_all add: text_head_def)

lemma canon_toml_cancel:
  "canon_toml v @ CHR '';'' # r = canon_toml w @ CHR '';'' # s \<longleftrightarrow> toml_view v = toml_view w \<and> r = s"
proof (induction v arbitrary: w r s rule: canon_toml.induct)
  case (2 v)
  then show ?case by (cases w) (simp_all add: canon_i64_def show_int_stop)
next
  case (3 bits v)
  then show ?case by (cases w) (simp_all add: canon_f64_def append_eq_append_conv)
next
  case (6 vs)
  then show ?case by (cases w) (simp_all add: canon_seq_cancel_on [where p = toml_view])
next
  case (7 m)
  then show ?case by (cases w) (simp_all add: canon_map_cancel_on [where p = toml_view])
qed (case_tac w; simp)+

lemma canon_json_cancel:
  "canon_json v @ CHR '';'' # r = canon_json w @ CHR '';'' # s \<longleftrightarrow> json_view v = json_view w \<and> r = s"
proof (induction v arbitrary: w r s rule: canon_json.induct)
  case (5 vs)
  then show ?case by (cases w) (simp_all add: canon_seq_cancel_on [where p = json_view])
next
  case (6 m)
  then show ?case by (cases w) (simp_all add: canon_map_cancel_on [where p = json_view])
qed (case_tac w; simp)+

interpretation canon_toml: canonical canon_toml toml_view
  by unfold_locales (simp_all add: canon_toml_cancel)

interpretation canon_json: canonical canon_json json_view
  by unfold_locales (simp_all add: canon_json_cancel)

end
