(* ===== verification/Lifecycle_Types.thy ===== *)
theory Lifecycle_Types
  imports Compose_Model
begin

text \<open>
  Lifecycle commands of \<open>src/devcontainer/lifecycle/types.rs\<close> and \<open>parse.rs\<close>: the commands a
  \<open>devcontainer.json\<close> or an image label configures for each stage, their parser, and how the
  definitions of several layers are merged. The parser accepts exactly the texts of well-formed
  commands, and what it returns is the command itself.
\<close>

section \<open>Stages and hooks\<close>

datatype lifecycle_stage = Initialize | On_Create | Update_Content | Post_Create | Post_Start | Post_Attach

datatype lifecycle_property =
    Initialize_Command
  | On_Create_Command
  | Update_Content_Command
  | Post_Create_Command
  | Post_Start_Command
  | Post_Attach_Command
  | Wait_For_Property

datatype wait_for = Wait_Initialize | Wait_On_Create | Wait_Update_Content | Wait_Post_Create | Wait_Post_Start

datatype lifecycle_run_path = New_Container | Started_Container | Container_Running

datatype hook_location = On_Host | In_Container

datatype hook_stage =
    Before_Initialize
  | After_Initialize
  | Before_On_Create
  | After_On_Create
  | Before_Update_Content
  | After_Update_Content
  | Before_Post_Create
  | After_Post_Create
  | Before_Post_Start
  | After_Post_Start
  | Before_Post_Attach
  | After_Post_Attach

text \<open>The derived orders: the order of the constructors.\<close>

fun stage_rank :: "lifecycle_stage \<Rightarrow> nat" where
  "stage_rank Initialize = 0"
| "stage_rank On_Create = 1"
| "stage_rank Update_Content = 2"
| "stage_rank Post_Create = 3"
| "stage_rank Post_Start = 4"
| "stage_rank Post_Attach = 5"

lemma stage_rank_inj: "stage_rank p = stage_rank q \<Longrightarrow> p = q"
  by (cases p; cases q) simp_all

instantiation lifecycle_stage :: linorder
begin

definition less_eq_lifecycle_stage :: "lifecycle_stage \<Rightarrow> lifecycle_stage \<Rightarrow> bool" where
  "less_eq_lifecycle_stage p q = (stage_rank p \<le> stage_rank q)"

definition less_lifecycle_stage :: "lifecycle_stage \<Rightarrow> lifecycle_stage \<Rightarrow> bool" where
  "less_lifecycle_stage p q = (stage_rank p < stage_rank q)"

instance
  by standard (auto simp: less_eq_lifecycle_stage_def less_lifecycle_stage_def dest: stage_rank_inj)

end

fun property_rank :: "lifecycle_property \<Rightarrow> nat" where
  "property_rank Initialize_Command = 0"
| "property_rank On_Create_Command = 1"
| "property_rank Update_Content_Command = 2"
| "property_rank Post_Create_Command = 3"
| "property_rank Post_Start_Command = 4"
| "property_rank Post_Attach_Command = 5"
| "property_rank Wait_For_Property = 6"

lemma property_rank_inj: "property_rank p = property_rank q \<Longrightarrow> p = q"
  by (cases p; cases q) simp_all

instantiation lifecycle_property :: linorder
begin

definition less_eq_lifecycle_property :: "lifecycle_property \<Rightarrow> lifecycle_property \<Rightarrow> bool" where
  "less_eq_lifecycle_property p q = (property_rank p \<le> property_rank q)"

definition less_lifecycle_property :: "lifecycle_property \<Rightarrow> lifecycle_property \<Rightarrow> bool" where
  "less_lifecycle_property p q = (property_rank p < property_rank q)"

instance
  by standard (auto simp: less_eq_lifecycle_property_def less_lifecycle_property_def dest: property_rank_inj)

end

fun stage_property_name :: "lifecycle_stage \<Rightarrow> string" where
  "stage_property_name Initialize = ''initializeCommand''"
| "stage_property_name On_Create = ''onCreateCommand''"
| "stage_property_name Update_Content = ''updateContentCommand''"
| "stage_property_name Post_Create = ''postCreateCommand''"
| "stage_property_name Post_Start = ''postStartCommand''"
| "stage_property_name Post_Attach = ''postAttachCommand''"

fun hook_property_name :: "hook_stage \<Rightarrow> string" where
  "hook_property_name Before_Initialize = ''before_initialize''"
| "hook_property_name After_Initialize = ''after_initialize''"
| "hook_property_name Before_On_Create = ''before_on_create''"
| "hook_property_name After_On_Create = ''after_on_create''"
| "hook_property_name Before_Update_Content = ''before_update_content''"
| "hook_property_name After_Update_Content = ''after_update_content''"
| "hook_property_name Before_Post_Create = ''before_post_create''"
| "hook_property_name After_Post_Create = ''after_post_create''"
| "hook_property_name Before_Post_Start = ''before_post_start''"
| "hook_property_name After_Post_Start = ''after_post_start''"
| "hook_property_name Before_Post_Attach = ''before_post_attach''"
| "hook_property_name After_Post_Attach = ''after_post_attach''"

fun default_location :: "hook_stage \<Rightarrow> hook_location" where
  "default_location Before_Initialize = On_Host"
| "default_location After_Initialize = On_Host"
| "default_location _ = In_Container"

fun stage_of_property :: "lifecycle_property \<Rightarrow> lifecycle_stage result" where
  "stage_of_property Initialize_Command = Inr Initialize"
| "stage_of_property On_Create_Command = Inr On_Create"
| "stage_of_property Update_Content_Command = Inr Update_Content"
| "stage_of_property Post_Create_Command = Inr Post_Create"
| "stage_of_property Post_Start_Command = Inr Post_Start"
| "stage_of_property Post_Attach_Command = Inr Post_Attach"
| "stage_of_property Wait_For_Property = Inl ''waitFor is not a lifecycle command''"

section \<open>Commands and definitions\<close>

datatype lifecycle_command =
    Shell_Command string
  | Args_Command "string list"
  | Parallel_Command "(string \<times> lifecycle_command) list"

record lifecycle_definition =
  ld_commands :: "(lifecycle_stage, lifecycle_command list) btree_map"
  ld_wait_for :: wait_for

record layer_lifecycle_definition =
  ll_commands :: "(lifecycle_stage, lifecycle_command list) btree_map"
  ll_wait_for :: "wait_for option"

definition default_wait_for :: wait_for where
  "default_wait_for = Wait_Update_Content"

definition definition_commands :: "lifecycle_definition \<Rightarrow> lifecycle_stage \<Rightarrow> lifecycle_command list" where
  "definition_commands d stage = (case bt_get (ld_commands d) stage of None \<Rightarrow> [] | Some commands \<Rightarrow> commands)"

definition has_commands :: "lifecycle_definition \<Rightarrow> bool" where
  "has_commands d = list_ex (\<lambda>(stage, commands). commands \<noteq> []) (ld_commands d)"

definition append_stage_commands ::
  "(lifecycle_stage, lifecycle_command list) btree_map \<Rightarrow> lifecycle_stage \<times> lifecycle_command list \<Rightarrow>
   (lifecycle_stage, lifecycle_command list) btree_map" where
  "append_stage_commands m e =
     (let existing = (case bt_get m (fst e) of None \<Rightarrow> [] | Some commands \<Rightarrow> commands)
      in bt_insert (fst e) (existing @ snd e) m)"

definition merge_lifecycle_layer :: "lifecycle_definition \<Rightarrow> layer_lifecycle_definition \<Rightarrow> lifecycle_definition" where
  "merge_lifecycle_layer d layer =
     \<lparr>ld_commands = foldl append_stage_commands (ld_commands d) (ll_commands layer),
      ld_wait_for = (case ll_wait_for layer of None \<Rightarrow> ld_wait_for d | Some w \<Rightarrow> w)\<rparr>"

definition lifecycle_into_resolved :: "layer_lifecycle_definition \<Rightarrow> lifecycle_definition" where
  "lifecycle_into_resolved layer =
     \<lparr>ld_commands = ll_commands layer,
      ld_wait_for = (case ll_wait_for layer of None \<Rightarrow> default_wait_for | Some w \<Rightarrow> w)\<rparr>"

section \<open>Parsing\<close>

fun parse_arg :: "lifecycle_stage \<Rightarrow> json \<Rightarrow> string result" where
  "parse_arg stage (J_String arg) = Inr arg"
| "parse_arg stage _ = Inl (fmt [stage_property_name stage, '' command array entries must be strings''])"

definition parse_args :: "lifecycle_stage \<Rightarrow> json list \<Rightarrow> lifecycle_command result" where
  "parse_args stage values' =
     (if values' = [] then Inl (fmt [stage_property_name stage, '' command array must not be empty''])
      else bind_res (try_map (parse_arg stage) values') (\<lambda>args. Inr (Args_Command args)))"

text \<open>\<open>parse_lifecycle_command\<close> and \<open>parse_parallel\<close>, whose loop is the third function.\<close>

fun parse_lifecycle_command :: "lifecycle_stage \<Rightarrow> json \<Rightarrow> lifecycle_command result"
and parse_parallel_entries :: "lifecycle_stage \<Rightarrow> (string, lifecycle_command) btree_map \<Rightarrow>
    (string \<times> json) list \<Rightarrow> (string, lifecycle_command) btree_map result" where
  "parse_lifecycle_command stage (J_String command) = Inr (Shell_Command command)"
| "parse_lifecycle_command stage (J_Array values') = parse_args stage values'"
| "parse_lifecycle_command stage (J_Object entries) =
     (if entries = [] then Inl (fmt [stage_property_name stage, '' command object must not be empty''])
      else bind_res (parse_parallel_entries stage [] entries) (\<lambda>commands. Inr (Parallel_Command commands)))"
| "parse_lifecycle_command stage _ =
     Inl (fmt [stage_property_name stage, '' must be a string, string array, or object command''])"
| "parse_parallel_entries stage commands [] = Inr commands"
| "parse_parallel_entries stage commands ((name, v) # rest) =
     bind_res
       (case v of
          J_String _ \<Rightarrow> parse_lifecycle_command stage v
        | J_Array _ \<Rightarrow> parse_lifecycle_command stage v
        | _ \<Rightarrow> Inl (fmt [stage_property_name stage, '' parallel command entry '', name,
                 '' must be a string or string array'']))
       (\<lambda>command. parse_parallel_entries stage (bt_insert name command commands) rest)"

fun parse_wait_for :: "json option \<Rightarrow> wait_for result" where
  "parse_wait_for None = Inr default_wait_for"
| "parse_wait_for (Some (J_String stage)) =
     (if stage = ''initializeCommand'' then Inr Wait_Initialize
      else if stage = ''onCreateCommand'' then Inr Wait_On_Create
      else if stage = ''updateContentCommand'' then Inr Wait_Update_Content
      else if stage = ''postCreateCommand'' then Inr Wait_Post_Create
      else if stage = ''postStartCommand'' then Inr Wait_Post_Start
      else Inl (fmt [''Unsupported waitFor lifecycle stage: '', stage]))"
| "parse_wait_for (Some _) = Inl ''waitFor must be a lifecycle stage string''"

definition parse_lifecycle_property ::
  "(lifecycle_stage, lifecycle_command list) btree_map \<Rightarrow> lifecycle_property \<times> json \<Rightarrow>
   (lifecycle_stage, lifecycle_command list) btree_map result" where
  "parse_lifecycle_property commands e =
     (if fst e = Wait_For_Property then Inr commands
      else bind_res (stage_of_property (fst e)) (\<lambda>stage.
           bind_res (parse_lifecycle_command stage (snd e)) (\<lambda>command.
           Inr (bt_insert stage [command] commands))))"

definition parse_lifecycle_layer_definition ::
  "(lifecycle_property, json) btree_map \<Rightarrow> layer_lifecycle_definition option result" where
  "parse_lifecycle_layer_definition values' =
     bind_res (try_fold parse_lifecycle_property [] values') (\<lambda>commands.
     bind_res (case bt_get values' Wait_For_Property of
                 None \<Rightarrow> Inr None
               | Some v \<Rightarrow> bind_res (parse_wait_for (Some v)) (\<lambda>w. Inr (Some w))) (\<lambda>wait_for.
     if commands = [] \<and> wait_for = None then Inr None
     else Inr (Some \<lparr>ll_commands = commands, ll_wait_for = wait_for\<rparr>)))"

section \<open>Well-formed commands\<close>

fun wf_simple_command :: "lifecycle_command \<Rightarrow> bool" where
  "wf_simple_command (Shell_Command c) = True"
| "wf_simple_command (Args_Command args) = (args \<noteq> [])"
| "wf_simple_command (Parallel_Command cs) = False"

fun wf_command :: "lifecycle_command \<Rightarrow> bool" where
  "wf_command (Parallel_Command cs) =
     (cs \<noteq> [] \<and> bt_ok cs \<and> list_all (\<lambda>(name, c). wf_simple_command c) cs)"
| "wf_command c = wf_simple_command c"

text \<open>The JSON text of a command.\<close>

fun command_json :: "lifecycle_command \<Rightarrow> json" where
  "command_json (Shell_Command c) = J_String c"
| "command_json (Args_Command args) = J_Array (map J_String args)"
| "command_json (Parallel_Command cs) = J_Object (map (\<lambda>(name, c). (name, command_json c)) cs)"

text \<open>An object read by \<open>serde_json\<close> is a map.\<close>

fun json_object_ok :: "json \<Rightarrow> bool" where
  "json_object_ok (J_Object m) = bt_ok m"
| "json_object_ok _ = True"

lemma parse_arg_Inr_iff: "parse_arg stage v = Inr s \<longleftrightarrow> v = J_String s"
  by (cases v) auto

lemma try_map_parse_arg: "try_map (parse_arg stage) vs = Inr args \<longleftrightarrow> vs = map J_String args"
  unfolding try_map_Inr_iff parse_arg_Inr_iff
  by (auto simp: list_all2_conv_all_nth intro: nth_equalityI)

lemma parse_args_Inr_iff:
  "parse_args stage vs = Inr c \<longleftrightarrow> (\<exists>args. args \<noteq> [] \<and> c = Args_Command args \<and> vs = map J_String args)"
  by (auto simp: parse_args_def bind_res_Inr_iff try_map_parse_arg)

lemma parse_simple_iff:
  "(case v of J_String _ \<Rightarrow> parse_lifecycle_command stage v | J_Array _ \<Rightarrow> parse_lifecycle_command stage v
      | _ \<Rightarrow> Inl e) = Inr c \<longleftrightarrow> wf_simple_command c \<and> v = command_json c"
proof (cases v)
  case (J_String s)
  then show ?thesis by (cases c) auto
next
  case (J_Array vs)
  then show ?thesis by (cases c) (auto simp: parse_args_Inr_iff)
qed (cases c; simp)+

text \<open>Inserting entries in ascending order appends them.\<close>

lemma bt_insert_last:
  "\<forall>a\<in>fst ` set m. a < k \<Longrightarrow> bt_insert k v m = m @ [(k, v)]"
proof (induction m)
  case (Cons e m)
  then have "fst e < k" by simp
  then have "\<not> k < fst e" "k \<noteq> fst e" by (simp_all add: order.strict_implies_not_eq [symmetric])
  with Cons show ?case by (cases e) simp
qed simp

lemma parse_parallel_entries_iff:
  assumes "bt_ok entries" "\<forall>a\<in>fst ` set commands. \<forall>b\<in>fst ` set entries. a < b"
  shows "parse_parallel_entries stage commands entries = Inr result \<longleftrightarrow>
    (\<exists>cs. result = commands @ cs \<and> entries = map (\<lambda>(name, c). (name, command_json c)) cs \<and>
       (\<forall>(name, c)\<in>set cs. wf_simple_command c))"
  using assms
proof (induction entries arbitrary: commands)
  case (Cons e rest)
  obtain name v where e: "e = (name, v)" by (cases e)
  have rest: "bt_ok rest" and above: "\<forall>b\<in>fst ` set rest. name < b"
    using Cons.prems(1) by (auto simp: bt_ok_def e)
  have ins: "bt_insert name c commands = commands @ [(name, c)]" for c
  proof (rule bt_insert_last)
    show "\<forall>a\<in>fst ` set commands. a < name" using Cons.prems(2) unfolding e by simp
  qed
  have ih: "parse_parallel_entries stage (commands @ [(name, c)]) rest = Inr result \<longleftrightarrow>
      (\<exists>cs. result = (commands @ [(name, c)]) @ cs \<and> rest = map (\<lambda>(name, c). (name, command_json c)) cs \<and>
         (\<forall>(name, c)\<in>set cs. wf_simple_command c))" for c
  proof (rule Cons.IH [OF rest])
    show "\<forall>a\<in>fst ` set (commands @ [(name, c)]). \<forall>b\<in>fst ` set rest. a < b"
      using Cons.prems(2) above unfolding e by simp
  qed
  have "parse_parallel_entries stage commands (e # rest) = Inr result \<longleftrightarrow>
      (\<exists>c. (wf_simple_command c \<and> v = command_json c) \<and>
         parse_parallel_entries stage (commands @ [(name, c)]) rest = Inr result)"
    unfolding e parse_parallel_entries.simps bind_res_Inr_iff parse_simple_iff ins ..
  also have "\<dots> \<longleftrightarrow> (\<exists>cs. result = commands @ cs \<and> e # rest = map (\<lambda>(name, c). (name, command_json c)) cs \<and>
       (\<forall>(name, c)\<in>set cs. wf_simple_command c))"
    (is "?l = ?r")
  proof
    assume ?l
    then obtain c where c: "wf_simple_command c" "v = command_json c"
      "parse_parallel_entries stage (commands @ [(name, c)]) rest = Inr result" by (elim exE conjE)
    from c(3) obtain cs where "result = (commands @ [(name, c)]) @ cs"
      "rest = map (\<lambda>(name, c). (name, command_json c)) cs" "\<forall>(name, c)\<in>set cs. wf_simple_command c" unfolding ih by (elim exE conjE)
    with c show ?r by (intro exI [of _ "(name, c) # cs"]) (simp add: e)
  next
    assume ?r
    then obtain cs where cs: "result = commands @ cs" "e # rest = map (\<lambda>(name, c). (name, command_json c)) cs"
      "\<forall>(name, c)\<in>set cs. wf_simple_command c" by (elim exE conjE)
    then obtain x cs' where "cs = x # cs'" by (cases cs) auto
    moreover obtain a c where "x = (a, c)" by (cases x)
    ultimately have "wf_simple_command c" "v = command_json c" "result = (commands @ [(name, c)]) @ cs'"
      "rest = map (\<lambda>(name, c). (name, command_json c)) cs'" "\<forall>(name, c)\<in>set cs'. wf_simple_command c"
      using cs by (simp_all add: e)
    then show ?l unfolding ih by (intro exI conjI)
  qed
  finally show ?case .
qed auto

lemma bt_ok_map_values: "bt_ok (map (\<lambda>(name, c). (name, f c)) m) \<longleftrightarrow> bt_ok m"
  by (simp add: bt_ok_def comp_def case_prod_beta)

lemma parse_lifecycle_command_Inr_iff:
  assumes "json_object_ok j"
  shows "parse_lifecycle_command stage j = Inr c \<longleftrightarrow> wf_command c \<and> j = command_json c"
proof (cases j)
  case (J_Object m)
  then have ok: "bt_ok m" using assms by simp
  show ?thesis
  proof
    assume "parse_lifecycle_command stage j = Inr c"
    then obtain cs where "m \<noteq> []" "c = Parallel_Command cs" "parse_parallel_entries stage [] m = Inr cs"
      by (auto simp: J_Object bind_res_Inr_iff split: if_splits)
    moreover have "m = map (\<lambda>(name, c). (name, command_json c)) cs" "\<forall>(name, c)\<in>set cs. wf_simple_command c"
      using calculation(3) by (auto simp: parse_parallel_entries_iff [OF ok])
    ultimately show "wf_command c \<and> j = command_json c"
      using ok by (auto simp: J_Object bt_ok_map_values list_all_iff)
  next
    assume c: "wf_command c \<and> j = command_json c"
    then obtain cs where cs: "c = Parallel_Command cs" by (cases c) (auto simp: J_Object)
    with c have m: "m = map (\<lambda>(name, c). (name, command_json c)) cs" "cs \<noteq> []"
      "\<forall>(name, c)\<in>set cs. wf_simple_command c" by (auto simp: J_Object list_all_iff)
    have "parse_parallel_entries stage [] m = Inr cs"
      unfolding parse_parallel_entries_iff [OF ok, of "[]", simplified] using m by blast
    then show "parse_lifecycle_command stage j = Inr c" using m by (simp add: J_Object cs)
  qed
next
  case (J_Array vs)
  then show ?thesis by (cases c) (auto simp: parse_args_Inr_iff)
qed (cases c; simp)+

text \<open>C33. A JSON value is accepted as a lifecycle command exactly when it is the text of a
  well-formed command, and parsing returns that command.\<close>

theorem lifecycle_commands_parse_back:
  assumes "json_object_ok j"
  shows "parse_lifecycle_command stage j = Inr c \<longleftrightarrow> wf_command c \<and> j = command_json c"
  using assms by (rule parse_lifecycle_command_Inr_iff)

theorem lifecycle_commands_parse_back_witness:
  "parse_lifecycle_command Post_Create (J_Object [(''a'', J_String ''make''), (''b'', J_Array [J_String ''npm''])]) =
     Inr (Parallel_Command [(''a'', Shell_Command ''make''), (''b'', Args_Command [''npm''])])"
proof -
  have "json_object_ok (J_Object [(''a'', J_String ''make''), (''b'', J_Array [J_String ''npm''])])"
    by (simp add: bt_ok_def list_less_def lexordp_simps)
  from lifecycle_commands_parse_back [OF this]
  show ?thesis by (simp add: bt_ok_def list_less_def lexordp_simps)
qed

section \<open>Definitions stay well formed\<close>

definition wf_stage_commands :: "(lifecycle_stage, lifecycle_command list) btree_map \<Rightarrow> bool" where
  "wf_stage_commands m = (bt_ok m \<and> list_all (\<lambda>(stage, cs). list_all wf_command cs) m)"

definition wf_definition :: "lifecycle_definition \<Rightarrow> bool" where
  "wf_definition d = wf_stage_commands (ld_commands d)"

definition layer_commands :: "layer_lifecycle_definition \<Rightarrow> lifecycle_stage \<Rightarrow> lifecycle_command list" where
  "layer_commands layer stage = (case bt_get (ll_commands layer) stage of None \<Rightarrow> [] | Some cs \<Rightarrow> cs)"

lemma wf_stage_commands_Nil [simp]: "wf_stage_commands []"
  by (simp add: wf_stage_commands_def)

lemma wf_stage_commands_insert:
  assumes "wf_stage_commands m" "list_all wf_command cs"
  shows "wf_stage_commands (bt_insert stage cs m)"
proof -
  have "bt_ok m" using assms(1) by (simp add: wf_stage_commands_def)
  from bt.entries_insert [OF this, of stage cs] bt_ok_insert [OF this, of stage cs] assms
  show ?thesis by (auto simp: wf_stage_commands_def list_all_iff)
qed

lemma wf_stage_commands_get:
  "wf_stage_commands m \<Longrightarrow> bt_get m stage = Some cs \<Longrightarrow> list_all wf_command cs"
  by (auto simp: wf_stage_commands_def list_all_iff dest!: bt_get_SomeD)

lemma wf_append_stage_commands:
  assumes "wf_stage_commands m" "list_all wf_command (snd e)"
  shows "wf_stage_commands (append_stage_commands m e)"
  using assms wf_stage_commands_get [OF assms(1), of "fst e"]
  by (auto simp: append_stage_commands_def intro!: wf_stage_commands_insert split: option.split)

lemma wf_merge_lifecycle_layer:
  assumes "wf_definition d" "wf_stage_commands (ll_commands layer)"
  shows "wf_definition (merge_lifecycle_layer d layer)"
proof -
  have "list_all (\<lambda>(stage, cs). list_all wf_command cs) es \<Longrightarrow> wf_stage_commands m \<Longrightarrow>
      wf_stage_commands (foldl append_stage_commands m es)" for es m
    by (induction es arbitrary: m) (auto simp: wf_append_stage_commands)
  then show ?thesis using assms
    by (simp add: wf_definition_def merge_lifecycle_layer_def wf_stage_commands_def)
qed

lemma definition_commands_append:
  "definition_commands (d\<lparr>ld_commands := append_stage_commands m e\<rparr>) stage =
     definition_commands (d\<lparr>ld_commands := m\<rparr>) stage @ (if stage = fst e then snd e else [])"
  by (auto simp: definition_commands_def append_stage_commands_def bt_get_insert split: option.split)

lemma definition_commands_merge:
  assumes "bt_ok (ll_commands layer)"
  shows "definition_commands (merge_lifecycle_layer d layer) stage =
    definition_commands d stage @ layer_commands layer stage"
proof -
  have "distinct (map fst es) \<Longrightarrow>
      definition_commands (d\<lparr>ld_commands := foldl append_stage_commands m es\<rparr>) stage =
      definition_commands (d\<lparr>ld_commands := m\<rparr>) stage @ (case map_of es stage of None \<Rightarrow> [] | Some cs \<Rightarrow> cs)" for es m
  proof (induction es arbitrary: m)
    case (Cons e es)
    have "map_of es (fst e) = None" using Cons.prems by (simp add: map_of_eq_None_iff)
    with Cons show ?case by (cases e) (auto simp: definition_commands_append split: option.split)
  qed simp
  from this [OF bt_ok_distinct [OF assms], of "ld_commands d"] show ?thesis
    by (simp add: merge_lifecycle_layer_def definition_commands_def layer_commands_def bt_get_def)
qed

lemma parsed_layer_wf:
  assumes "\<forall>(p, v)\<in>set values'. json_object_ok v"
    and "parse_lifecycle_layer_definition values' = Inr (Some layer)"
  shows "wf_stage_commands (ll_commands layer)"
proof -
  obtain commands where commands: "try_fold parse_lifecycle_property [] values' = Inr commands"
    "ll_commands layer = commands"
    using assms(2) by (auto simp: parse_lifecycle_layer_definition_def bind_res_Inr_iff split: if_splits)
  have "wf_stage_commands commands"
  proof (rule try_fold_invariant [where P = "\<lambda>_. wf_stage_commands", OF commands(1)])
    fix ys x s t
    assume sub: "set (ys @ [x]) \<subseteq> set values'" and s: "wf_stage_commands s" and
      step: "parse_lifecycle_property s x = Inr t"
    have "json_object_ok (snd x)" using sub assms(1) by auto
    with s step show "wf_stage_commands t"
      by (auto simp: parse_lifecycle_property_def bind_res_Inr_iff parse_lifecycle_command_Inr_iff
            intro!: wf_stage_commands_insert split: if_splits)
  qed simp
  with commands(2) show ?thesis by simp
qed

end
