(* ===== verification/Config_Types.thy ===== *)
theory Config_Types
  imports Lifecycle_Types Compose_Ports_Override Feature_Options Feature_Reference Isolation_Plan
begin

text \<open>
  The configuration types of \<open>src/config/types.rs\<close>, \<open>layer.rs\<close> and \<open>resolved.rs\<close>: a layer as one
  source contributes it, with an option for every value the source may leave out, and the
  resolved configuration, with the value that is used. The records of ports and of Compose
  mappings are those of the port theories. The last section is \<open>ResolvedConfig::validate\<close>.
\<close>

section \<open>Values\<close>

datatype dotfile_conflict = Conflict_Fail | Conflict_Replace_Symlink | Conflict_Backup

definition default_dotfile_conflict :: dotfile_conflict where
  "default_dotfile_conflict = Conflict_Fail"

datatype mount_type = Bind_Mount | Volume_Mount | Tmpfs_Mount

datatype mount_create = Create_Directory

datatype git_https_mode = Https_Off | Https_Host_Helper | Https_Host_Helper_Read_Only

datatype ssh_agent_mode = Ssh_Off | Ssh_Auto | Ssh_Required

datatype github_credentials_mode = Github_Off | Gh_Token_File

datatype config_command = Shell string | Args "string list"

datatype config_path_origin = Origin_Global | Origin_Project

section \<open>Layers\<close>

record layer_feature =
  laf_id :: string
  laf_canonical_id :: string
  laf_enabled :: bool
  laf_options :: "(string, toml) btree_map"

definition new_layer_feature :: "string \<Rightarrow> layer_feature" where
  "new_layer_feature id' =
     \<lparr>laf_id = id', laf_canonical_id = canonical_feature_id id', laf_enabled = True, laf_options = []\<rparr>"

record layer_dotfile =
  lad_enabled :: bool
  lad_source :: "string option"
  lad_target :: string
  lad_read_only :: bool
  lad_resolve_symlink :: bool
  lad_on_conflict :: dotfile_conflict
  lad_origin :: config_path_origin

record layer_mount =
  lam_enabled :: bool
  lam_source :: "string option"
  lam_target :: string
  lam_type :: "mount_type option"
  lam_read_only :: bool
  lam_resolve_symlink :: bool
  lam_create :: "mount_create option"
  lam_origin :: config_path_origin

record layer_forward_port =
  lafp_port :: resolved_port
  lafp_attribute_keys :: "string list"

record layer_auto_ports =
  lap_enabled :: "bool option"
  lap_min :: "u16 option"
  lap_max :: "u16 option"
  lap_ignore :: "u16 list option"
  lap_on_auto_forward :: "on_auto_forward option"

record layer_compose_mapping =
  lcm_enabled :: bool
  lcm_service :: string
  lcm_target :: u16
  lcm_protocol :: port_protocol
  lcm_host :: "u16 option"
  lcm_host_ip :: "string option"

record layer_published_ports =
  lpp_automatic_relocation :: "bool option"
  lpp_warn_on_relocation :: "bool option"
  lpp_mappings :: "layer_compose_mapping list"

record isolation_endpoint =
  ie_service :: string
  ie_env :: string
  ie_value :: string

record layer_isolation_networks =
  lin_relocation :: "bool option"
  lin_subnet_pool :: "string option"
  lin_subnet_prefix :: "u8 option"

record layer_isolation_names =
  lim_rewrite_container_names :: "bool option"
  lim_rewrite_resource_names :: "bool option"

record layer_clone_isolation =
  lci_enabled :: "bool option"
  lci_networks :: layer_isolation_networks
  lci_names :: layer_isolation_names
  lci_endpoints :: "isolation_endpoint list"

record layer_compose =
  lco_published_ports :: layer_published_ports
  lco_clone_isolation :: layer_clone_isolation

record layer_container =
  lct_cli_enabled :: "bool option"

record devcontainer_build =
  db_dockerfile :: string
  db_context :: "string option"
  db_args :: "(string, string) btree_map"
  db_options :: "string list"
  db_target :: "string option"
  db_cache_from :: "string list"

record devcontainer_compose =
  dc_files :: "string list"
  dc_service :: string
  dc_run_services :: "string list option"

datatype devcontainer_source =
    Source_Image string
  | Source_Dockerfile devcontainer_build
  | Source_Compose_Files devcontainer_compose

datatype shutdown_action = Shutdown_None | Stop_Container | Stop_Compose

datatype devcontainer_mount = Mount_String string | Mount_Object "(string \<times> json) list"

datatype user_env_probe = Probe_None | Login_Shell | Interactive_Shell | Login_Interactive_Shell

datatype run_arg = Add_Host string | Dns string | Dns_Search string | Passthrough string string

record layer_devcontainer =
  ldc_source :: "devcontainer_source option"
  ldc_override_feature_install_order :: "string list"
  ldc_mounts :: "devcontainer_mount list"
  ldc_workspace_mount :: "string option"
  ldc_workspace_folder :: "string option"
  ldc_container_env :: "(string, string) btree_map"
  ldc_remote_env :: "(string, string) btree_map"
  ldc_remote_user :: "string option"
  ldc_container_user :: "string option"
  ldc_update_remote_user_uid :: "bool option"
  ldc_override_command :: "bool option"
  ldc_user_env_probe :: "user_env_probe option"
  ldc_publish_ports :: "resolved_publish_port list"
  ldc_port_attributes :: "(string, resolved_port_attributes) btree_map"
  ldc_other_ports_attributes :: "resolved_port_attributes option"
  ldc_run_args :: "run_arg list"
  ldc_init :: "bool option"
  ldc_privileged :: "bool option"
  ldc_cap_add :: "string list"
  ldc_security_opt :: "string list"
  ldc_entrypoints :: "string list"
  ldc_shutdown_action :: "shutdown_action option"
  ldc_lifecycle :: "layer_lifecycle_definition option"

record layer_git_credentials =
  lgc_enabled :: "bool option"
  lgc_copy_user :: "bool option"
  lgc_copy_global_config :: "bool option"
  lgc_https :: "git_https_mode option"
  lgc_ssh_agent :: "ssh_agent_mode option"

record layer_github_credentials =
  lhc_enabled :: "bool option"
  lhc_mode :: "github_credentials_mode option"
  lhc_install_feature_if_missing :: "bool option"

record layer_credentials =
  lcr_git :: layer_git_credentials
  lcr_github :: layer_github_credentials

record hook =
  hk_command :: config_command
  hk_location :: "hook_location option"
  hk_user :: "string option"
  hk_shell :: bool
  hk_workdir :: "string option"

record hooks =
  hs_before_initialize :: "hook list"
  hs_after_initialize :: "hook list"
  hs_before_on_create :: "hook list"
  hs_after_on_create :: "hook list"
  hs_before_update_content :: "hook list"
  hs_after_update_content :: "hook list"
  hs_before_post_create :: "hook list"
  hs_after_post_create :: "hook list"
  hs_before_post_start :: "hook list"
  hs_after_post_start :: "hook list"
  hs_before_post_attach :: "hook list"
  hs_after_post_attach :: "hook list"

definition append_hooks :: "hooks \<Rightarrow> hooks \<Rightarrow> hooks" where
  "append_hooks h other = \<lparr>
     hs_before_initialize = hs_before_initialize h @ hs_before_initialize other,
     hs_after_initialize = hs_after_initialize h @ hs_after_initialize other,
     hs_before_on_create = hs_before_on_create h @ hs_before_on_create other,
     hs_after_on_create = hs_after_on_create h @ hs_after_on_create other,
     hs_before_update_content = hs_before_update_content h @ hs_before_update_content other,
     hs_after_update_content = hs_after_update_content h @ hs_after_update_content other,
     hs_before_post_create = hs_before_post_create h @ hs_before_post_create other,
     hs_after_post_create = hs_after_post_create h @ hs_after_post_create other,
     hs_before_post_start = hs_before_post_start h @ hs_before_post_start other,
     hs_after_post_start = hs_after_post_start h @ hs_after_post_start other,
     hs_before_post_attach = hs_before_post_attach h @ hs_before_post_attach other,
     hs_after_post_attach = hs_after_post_attach h @ hs_after_post_attach other\<rparr>"

definition no_hooks :: hooks where
  "no_hooks = \<lparr>hs_before_initialize = [], hs_after_initialize = [], hs_before_on_create = [],
     hs_after_on_create = [], hs_before_update_content = [], hs_after_update_content = [],
     hs_before_post_create = [], hs_after_post_create = [], hs_before_post_start = [],
     hs_after_post_start = [], hs_before_post_attach = [], hs_after_post_attach = []\<rparr>"

record config_layer =
  cl_shell :: "string option"
  cl_features :: "layer_feature list"
  cl_dotfiles :: "layer_dotfile list"
  cl_mounts :: "layer_mount list"
  cl_ports :: "resolved_port list"
  cl_forward_ports :: "layer_forward_port list"
  cl_auto_ports :: "layer_auto_ports option"
  cl_compose :: layer_compose
  cl_container :: layer_container
  cl_devcontainer :: "layer_devcontainer option"
  cl_credentials :: layer_credentials
  cl_hooks :: hooks

record config_merge_input =
  mi_image_metadata :: "config_layer list"
  mi_feature_metadata :: "config_layer list"
  mi_global :: "config_layer option"
  mi_devcontainer :: "config_layer option"
  mi_project :: "config_layer option"
  mi_cli :: "config_layer option"

text \<open>The layers that set nothing, \<open>ConfigLayer::default\<close> and \<open>LayerDevcontainerMetadata::default\<close>.\<close>

definition empty_layer :: config_layer where
  "empty_layer = \<lparr>cl_shell = None, cl_features = [], cl_dotfiles = [], cl_mounts = [], cl_ports = [],
     cl_forward_ports = [], cl_auto_ports = None,
     cl_compose = \<lparr>lco_published_ports = \<lparr>lpp_automatic_relocation = None, lpp_warn_on_relocation = None,
         lpp_mappings = []\<rparr>,
       lco_clone_isolation = \<lparr>lci_enabled = None,
         lci_networks = \<lparr>lin_relocation = None, lin_subnet_pool = None, lin_subnet_prefix = None\<rparr>,
         lci_names = \<lparr>lim_rewrite_container_names = None, lim_rewrite_resource_names = None\<rparr>, lci_endpoints = []\<rparr>\<rparr>,
     cl_container = \<lparr>lct_cli_enabled = None\<rparr>, cl_devcontainer = None,
     cl_credentials = \<lparr>
       lcr_git = \<lparr>lgc_enabled = None, lgc_copy_user = None, lgc_copy_global_config = None, lgc_https = None,
         lgc_ssh_agent = None\<rparr>,
       lcr_github = \<lparr>lhc_enabled = None, lhc_mode = None, lhc_install_feature_if_missing = None\<rparr>\<rparr>,
     cl_hooks = no_hooks\<rparr>"

definition empty_metadata :: layer_devcontainer where
  "empty_metadata = \<lparr>ldc_source = None, ldc_override_feature_install_order = [], ldc_mounts = [],
     ldc_workspace_mount = None, ldc_workspace_folder = None, ldc_container_env = [], ldc_remote_env = [],
     ldc_remote_user = None, ldc_container_user = None, ldc_update_remote_user_uid = None,
     ldc_override_command = None, ldc_user_env_probe = None, ldc_publish_ports = [], ldc_port_attributes = [],
     ldc_other_ports_attributes = None, ldc_run_args = [], ldc_init = None, ldc_privileged = None,
     ldc_cap_add = [], ldc_security_opt = [], ldc_entrypoints = [], ldc_shutdown_action = None, ldc_lifecycle = None\<rparr>"

section \<open>The resolved configuration\<close>

record resolved_dotfile =
  rd_source :: string
  rd_target :: string
  rd_read_only :: bool
  rd_resolve_symlink :: bool
  rd_on_conflict :: dotfile_conflict
  rd_origin :: config_path_origin

record resolved_dotfile_disable =
  rdd_target :: string
  rdd_origin :: config_path_origin

datatype resolved_dotfile_entry = Enabled_Dotfile resolved_dotfile | Disabled_Dotfile resolved_dotfile_disable

record resolved_mount =
  rmo_source :: "string option"
  rmo_target :: string
  rmo_type :: mount_type
  rmo_read_only :: bool
  rmo_resolve_symlink :: bool
  rmo_create :: "mount_create option"
  rmo_origin :: config_path_origin

record resolved_ports =
  rpo_entries :: "resolved_port list"
  rpo_auto :: resolved_auto_ports

record resolved_published_ports =
  rpp_automatic_relocation :: bool
  rpp_warn_on_relocation :: bool
  rpp_mappings :: "resolved_compose_mapping list"

record resolved_isolation_networks =
  rin_relocation :: bool
  rin_subnet_pool :: "string option"
  rin_subnet_prefix :: "u8 option"

record resolved_isolation_names =
  rim_rewrite_container_names :: bool
  rim_rewrite_resource_names :: bool

record resolved_clone_isolation =
  rci_enabled :: bool
  rci_networks :: resolved_isolation_networks
  rci_names :: resolved_isolation_names
  rci_endpoints :: "isolation_endpoint list"

record resolved_compose =
  rco_published_ports :: resolved_published_ports
  rco_clone_isolation :: resolved_clone_isolation

record resolved_container =
  rct_cli_enabled :: bool

record resolved_devcontainer =
  rdc_source :: "devcontainer_source option"
  rdc_override_feature_install_order :: "string list"
  rdc_mounts :: "devcontainer_mount list"
  rdc_workspace_mount :: "string option"
  rdc_workspace_folder :: "string option"
  rdc_container_env :: "(string, string) btree_map"
  rdc_remote_env :: "(string, string) btree_map"
  rdc_remote_user :: "string option"
  rdc_container_user :: "string option"
  rdc_update_remote_user_uid :: bool
  rdc_override_command :: bool
  rdc_user_env_probe :: "user_env_probe option"
  rdc_publish_ports :: "resolved_publish_port list"
  rdc_port_attributes :: "(string, resolved_port_attributes) btree_map"
  rdc_other_ports_attributes :: "resolved_port_attributes option"
  rdc_run_args :: "run_arg list"
  rdc_init :: "bool option"
  rdc_privileged :: "bool option"
  rdc_cap_add :: "string list"
  rdc_security_opt :: "string list"
  rdc_entrypoints :: "string list"
  rdc_shutdown_action :: shutdown_action
  rdc_lifecycle :: "lifecycle_definition option"

record resolved_git_credentials =
  rgc_enabled :: bool
  rgc_copy_user :: bool
  rgc_copy_global_config :: bool
  rgc_https :: git_https_mode
  rgc_ssh_agent :: ssh_agent_mode

record resolved_github_credentials =
  rhc_enabled :: bool
  rhc_mode :: github_credentials_mode
  rhc_install_feature_if_missing :: bool

record resolved_credentials =
  rcr_git :: resolved_git_credentials
  rcr_github :: resolved_github_credentials

record resolved_config =
  rc_shell :: "string option"
  rc_features :: "resolved_feature list"
  rc_dotfile_entries :: "resolved_dotfile_entry list"
  rc_dotfiles :: "resolved_dotfile list"
  rc_mounts :: "resolved_mount list"
  rc_ports :: resolved_ports
  rc_compose :: resolved_compose
  rc_container :: resolved_container
  rc_devcontainer :: resolved_devcontainer
  rc_credentials :: resolved_credentials
  rc_hooks :: hooks

definition init_enabled :: "resolved_devcontainer \<Rightarrow> bool" where
  "init_enabled d = (case rdc_init d of Some b \<Rightarrow> b | None \<Rightarrow> False)"

definition privileged_enabled :: "resolved_devcontainer \<Rightarrow> bool" where
  "privileged_enabled d = (case rdc_privileged d of Some b \<Rightarrow> b | None \<Rightarrow> False)"

section \<open>Defaults\<close>

definition default_container :: resolved_container where
  "default_container = \<lparr>rct_cli_enabled = True\<rparr>"

definition default_isolation_names :: resolved_isolation_names where
  "default_isolation_names = \<lparr>rim_rewrite_container_names = True, rim_rewrite_resource_names = True\<rparr>"

definition default_compose :: resolved_compose where
  "default_compose = \<lparr>
     rco_published_ports = \<lparr>rpp_automatic_relocation = False, rpp_warn_on_relocation = False, rpp_mappings = []\<rparr>,
     rco_clone_isolation = \<lparr>rci_enabled = False,
       rci_networks = \<lparr>rin_relocation = False, rin_subnet_pool = None, rin_subnet_prefix = None\<rparr>,
       rci_names = default_isolation_names, rci_endpoints = []\<rparr>\<rparr>"

definition default_devcontainer :: resolved_devcontainer where
  "default_devcontainer = \<lparr>rdc_source = None, rdc_override_feature_install_order = [], rdc_mounts = [],
     rdc_workspace_mount = None, rdc_workspace_folder = None, rdc_container_env = [], rdc_remote_env = [],
     rdc_remote_user = None, rdc_container_user = None, rdc_update_remote_user_uid = True,
     rdc_override_command = True, rdc_user_env_probe = None, rdc_publish_ports = [], rdc_port_attributes = [],
     rdc_other_ports_attributes = None, rdc_run_args = [], rdc_init = None, rdc_privileged = None,
     rdc_cap_add = [], rdc_security_opt = [], rdc_entrypoints = [], rdc_shutdown_action = Stop_Container,
     rdc_lifecycle = None\<rparr>"

definition default_git_credentials :: resolved_git_credentials where
  "default_git_credentials = \<lparr>rgc_enabled = True, rgc_copy_user = True, rgc_copy_global_config = False,
     rgc_https = Https_Host_Helper, rgc_ssh_agent = Ssh_Auto\<rparr>"

definition default_github_credentials :: resolved_github_credentials where
  "default_github_credentials =
     \<lparr>rhc_enabled = True, rhc_mode = Gh_Token_File, rhc_install_feature_if_missing = True\<rparr>"

definition default_credentials :: resolved_credentials where
  "default_credentials = \<lparr>rcr_git = default_git_credentials, rcr_github = default_github_credentials\<rparr>"

section \<open>Validation\<close>

definition invalid_clone_isolation :: "string \<Rightarrow> string" where
  "invalid_clone_isolation detail = fmt [compose_clone_isolation_invalid, '': '', detail]"

definition validate_subnet_pool :: "resolved_isolation_networks \<Rightarrow> ipv4_cidr option result" where
  "validate_subnet_pool networks =
     (case rin_subnet_pool networks of
        Some v \<Rightarrow>
          bind_res (ok_or (cidr_parse v) (invalid_clone_isolation
              (fmt [''compose.clone_isolation.networks.subnet_pool must be a valid IPv4 CIDR; got `'', v, ''`''])))
            (\<lambda>pool. Inr (Some pool))
      | None \<Rightarrow>
          if rin_relocation networks
          then Inl (invalid_clone_isolation
                 ''compose.clone_isolation.networks.subnet_pool is required when network relocation is enabled'')
          else Inr None)"

definition validate_subnet_prefix :: "resolved_isolation_networks \<Rightarrow> ipv4_cidr option \<Rightarrow> unit result" where
  "validate_subnet_prefix networks pool =
     (case rin_subnet_prefix networks of
        None \<Rightarrow> Inr ()
      | Some prefix \<Rightarrow>
          if 31 \<le> prefix
          then Inl (invalid_clone_isolation
                 (fmt [''compose.clone_isolation.networks.subnet_prefix must be less than 31; got '',
                    show_nat (unat prefix)]))
          else (case pool of
              None \<Rightarrow> Inr ()
            | Some pool \<Rightarrow>
                if prefix < cidr_prefix pool
                then Inl (invalid_clone_isolation
                       (fmt [''compose.clone_isolation.networks.subnet_prefix must be at least the subnet pool prefix '',
                          show_nat (unat (cidr_prefix pool)), ''; got '', show_nat (unat prefix)]))
                else Inr ()))"

definition check_endpoint_key ::
  "(string \<times> string) list \<Rightarrow> isolation_endpoint \<Rightarrow> (string \<times> string) list result" where
  "check_endpoint_key endpoint_keys endpoint =
     (if (ie_service endpoint, ie_env endpoint) \<in> set endpoint_keys
      then Inl (invalid_clone_isolation
             (fmt [''compose.clone_isolation.endpoints contains duplicate service and env pair: service `'',
                ie_service endpoint, ''`; env `'', ie_env endpoint, ''`'']))
      else Inr ((ie_service endpoint, ie_env endpoint) # endpoint_keys))"

definition validate_clone_isolation :: "resolved_clone_isolation \<Rightarrow> unit result" where
  "validate_clone_isolation isolation =
     (if \<not> rci_enabled isolation then Inr ()
      else bind_res (validate_subnet_pool (rci_networks isolation)) (\<lambda>pool.
           bind_res (validate_subnet_prefix (rci_networks isolation) pool) (\<lambda>_.
           bind_res (try_fold check_endpoint_key [] (rci_endpoints isolation)) (\<lambda>_. Inr ()))))"

definition validate_config :: "resolved_config \<Rightarrow> unit result" where
  "validate_config config = validate_clone_isolation (rco_clone_isolation (rc_compose config))"

lemma check_endpoint_keys_ok:
  "(\<exists>keys'. try_fold check_endpoint_key keys es = Inr keys') \<longleftrightarrow>
     distinct (map (\<lambda>e. (ie_service e, ie_env e)) es) \<and>
     (\<forall>e\<in>set es. (ie_service e, ie_env e) \<notin> set keys)"
proof (induction es arbitrary: keys)
  case (Cons e es)
  show ?case
  proof (cases "(ie_service e, ie_env e) \<in> set keys")
    case False
    then have "check_endpoint_key keys e = Inr ((ie_service e, ie_env e) # keys)"
      by (simp add: check_endpoint_key_def)
    with Cons.IH [of "(ie_service e, ie_env e) # keys"] False show ?thesis by (auto simp: image_iff)
  qed (simp add: check_endpoint_key_def)
qed simp

lemma validated_clone_isolation_iff:
  "validate_clone_isolation isolation = Inr () \<longleftrightarrow> \<not> rci_enabled isolation \<or>
     ((case rin_subnet_pool (rci_networks isolation) of
         None \<Rightarrow> \<not> rin_relocation (rci_networks isolation)
       | Some pool_text \<Rightarrow> cidr_parse pool_text \<noteq> None) \<and>
      (\<forall>prefix. rin_subnet_prefix (rci_networks isolation) = Some prefix \<longrightarrow> prefix < 31 \<and>
         (\<forall>pool_text pool. rin_subnet_pool (rci_networks isolation) = Some pool_text \<longrightarrow>
            cidr_parse pool_text = Some pool \<longrightarrow> cidr_prefix pool \<le> prefix)) \<and>
      distinct (map (\<lambda>e. (ie_service e, ie_env e)) (rci_endpoints isolation)))"
proof -
  let ?networks = "rci_networks isolation"
  note keys = check_endpoint_keys_ok [of "[]" "rci_endpoints isolation", simplified]
  note defs = validate_clone_isolation_def bind_res_Inr_iff validate_subnet_pool_def validate_subnet_prefix_def keys
  show ?thesis
  proof (cases "rin_subnet_pool ?networks")
    case None
    then show ?thesis by (cases "rin_subnet_prefix ?networks") (auto simp: defs not_le)
  next
    case (Some pool_text)
    then show ?thesis
      by (cases "rin_subnet_prefix ?networks"; cases "cidr_parse pool_text") (auto simp: defs not_le not_less)
  qed
qed

end
