(* ===== verification/Config_Hash.thy ===== *)
theory Config_Hash
  imports Canonical_Text Config_Types
begin

text \<open>
  The hash of a configuration, \<open>src/config/hash.rs\<close>: what \<open>decune up\<close> compares to decide whether
  a container has to be created again. The text that is hashed is \<open>config_hash_text\<close>; SHA-256 is
  a parameter, for it also digests the values taken from the environment. The view of an input
  is what a reader of the text gets back: the text is the same exactly if the views are.
\<close>

section \<open>The input\<close>

record compose_file_hash_input =
  hcf_canonical_path :: string
  hcf_digest :: string

record compose_generated_override_hash_input =
  hgo_path :: string
  hgo_content_hash :: string

record mount_bind_options_hash_input =
  hbo_propagation :: "string option"
  hbo_non_recursive :: "bool option"
  hbo_create_mountpoint :: "bool option"
  hbo_read_only_non_recursive :: "bool option"
  hbo_read_only_force_recursive :: "bool option"

record mount_volume_driver_config_hash_input =
  hdc_name :: "string option"
  hdc_options :: "(string, string) btree_map option"

record mount_volume_options_hash_input =
  hvo_no_copy :: "bool option"
  hvo_labels :: "(string, string) btree_map option"
  hvo_driver_config :: "mount_volume_driver_config_hash_input option"
  hvo_subpath :: "string option"

record mount_hash_input =
  hmt_source :: "string option"
  hmt_target :: string
  hmt_mount_type :: mount_type
  hmt_read_only :: bool
  hmt_consistency :: "string option"
  hmt_bind_options :: "mount_bind_options_hash_input option"
  hmt_volume_options :: "mount_volume_options_hash_input option"

record feature_lock_hash_entry =
  hfl_feature_id :: string
  hfl_digest :: string

record startup_command_hash_input =
  hsc_entrypoint :: "string list"
  hsc_command :: "string list"

datatype uid_gid_sync_hash_state = Hash_Sync | Hash_Noop string

record uid_gid_sync_hash_input =
  hug_state :: uid_gid_sync_hash_state
  hug_host_uid :: u32
  hug_host_gid :: u32
  hug_target_kind :: "string option"
  hug_target_user :: "string option"

record build_hash_input =
  hbi_dockerfile_path :: "string option"
  hbi_dockerfile_content_hash :: "string option"
  hbi_context_path :: "string option"
  hbi_dockerignore_path :: "string option"
  hbi_dockerignore_content_hash :: "string option"
  hbi_context_content_hash :: "string option"

record config_hash_input =
  chi_config :: resolved_config
  chi_feature_locks :: "feature_lock_hash_entry list"
  chi_cli_flags :: "(string, toml) btree_map"
  chi_internal_versions :: "(string, string) btree_map"
  chi_build :: "build_hash_input option"
  chi_compose_files :: "compose_file_hash_input list"
  chi_compose_generated_override :: "compose_generated_override_hash_input option"
  chi_compose_canonical_model :: "json option"
  chi_resolved_mounts :: "mount_hash_input list"
  chi_startup_command :: "startup_command_hash_input option"
  chi_uid_gid_sync :: "uid_gid_sync_hash_input option"
  chi_sensitive_container_env_keys :: "string list"
  chi_sensitive_build_arg_keys :: "string list"

definition new_config_hash_input :: "resolved_config \<Rightarrow> config_hash_input" where
  "new_config_hash_input config = \<lparr>chi_config = config, chi_feature_locks = [], chi_cli_flags = [],
     chi_internal_versions = [], chi_build = None, chi_compose_files = [], chi_compose_generated_override = None,
     chi_compose_canonical_model = None, chi_resolved_mounts = [], chi_startup_command = None,
     chi_uid_gid_sync = None, chi_sensitive_container_env_keys = [], chi_sensitive_build_arg_keys = []\<rparr>"

section \<open>Names\<close>

fun dotfile_conflict_name :: "dotfile_conflict \<Rightarrow> string" where
  "dotfile_conflict_name Conflict_Fail = ''fail''"
| "dotfile_conflict_name Conflict_Replace_Symlink = ''replace-symlink''"
| "dotfile_conflict_name Conflict_Backup = ''backup''"

fun config_path_origin_name :: "config_path_origin \<Rightarrow> string" where
  "config_path_origin_name Origin_Global = ''global''"
| "config_path_origin_name Origin_Project = ''project''"

fun mount_type_name :: "mount_type \<Rightarrow> string" where
  "mount_type_name Bind_Mount = ''bind''"
| "mount_type_name Volume_Mount = ''volume''"
| "mount_type_name Tmpfs_Mount = ''tmpfs''"

fun mount_create_name :: "mount_create \<Rightarrow> string" where
  "mount_create_name Create_Directory = ''directory''"

fun user_env_probe_name :: "user_env_probe \<Rightarrow> string" where
  "user_env_probe_name Probe_None = ''none''"
| "user_env_probe_name Login_Shell = ''loginShell''"
| "user_env_probe_name Interactive_Shell = ''interactiveShell''"
| "user_env_probe_name Login_Interactive_Shell = ''loginInteractiveShell''"

fun shutdown_action_name :: "shutdown_action \<Rightarrow> string" where
  "shutdown_action_name Shutdown_None = ''none''"
| "shutdown_action_name Stop_Container = ''stopContainer''"
| "shutdown_action_name Stop_Compose = ''stopCompose''"

fun port_protocol_name :: "port_protocol \<Rightarrow> string" where
  "port_protocol_name Tcp = ''tcp''"
| "port_protocol_name Udp = ''udp''"

fun lifecycle_stage_name :: "lifecycle_stage \<Rightarrow> string" where
  "lifecycle_stage_name Initialize = ''initializeCommand''"
| "lifecycle_stage_name On_Create = ''onCreateCommand''"
| "lifecycle_stage_name Update_Content = ''updateContentCommand''"
| "lifecycle_stage_name Post_Create = ''postCreateCommand''"
| "lifecycle_stage_name Post_Start = ''postStartCommand''"
| "lifecycle_stage_name Post_Attach = ''postAttachCommand''"

fun wait_for_name :: "wait_for \<Rightarrow> string" where
  "wait_for_name Wait_Initialize = ''initializeCommand''"
| "wait_for_name Wait_On_Create = ''onCreateCommand''"
| "wait_for_name Wait_Update_Content = ''updateContentCommand''"
| "wait_for_name Wait_Post_Create = ''postCreateCommand''"
| "wait_for_name Wait_Post_Start = ''postStartCommand''"

fun git_https_mode_name :: "git_https_mode \<Rightarrow> string" where
  "git_https_mode_name Https_Off = ''off''"
| "git_https_mode_name Https_Host_Helper = ''host-helper''"
| "git_https_mode_name Https_Host_Helper_Read_Only = ''host-helper-read-only''"

fun ssh_agent_mode_name :: "ssh_agent_mode \<Rightarrow> string" where
  "ssh_agent_mode_name Ssh_Off = ''off''"
| "ssh_agent_mode_name Ssh_Auto = ''auto''"
| "ssh_agent_mode_name Ssh_Required = ''required''"

fun github_credentials_mode_name :: "github_credentials_mode \<Rightarrow> string" where
  "github_credentials_mode_name Github_Off = ''off''"
| "github_credentials_mode_name Gh_Token_File = ''gh-token-file''"

fun hook_location_name :: "hook_location \<Rightarrow> string" where
  "hook_location_name On_Host = ''host''"
| "hook_location_name In_Container = ''container''"

section \<open>Values from the environment\<close>

text \<open>The writer of a number or of a name of an enumeration, as a string.\<close>

definition canon_u16 :: "u16 \<Rightarrow> string" where
  "canon_u16 v = canon_string (show_nat (unat v))"

definition local_env_derived_container_env_digest :: "(string \<Rightarrow> u8 list) \<Rightarrow> string \<Rightarrow> string \<Rightarrow> string" where
  "local_env_derived_container_env_digest sha256 key v =
     fmt [''<localEnv-derived-value-sha256:'',
       sha256_hex sha256 (canon_object ''LocalEnvDerivedContainerEnvDigest''
         (canon_field ''version'' (canon_string ''decune-container-env-digest-v1'') @
          canon_field ''key'' (canon_string key) @
          canon_field ''value'' (canon_string v))), ''>'']"

definition container_env_for_hash ::
  "(string \<Rightarrow> u8 list) \<Rightarrow> (string, string) btree_map \<Rightarrow> string list \<Rightarrow> (string, string) btree_map" where
  "container_env_for_hash sha256 env sensitive_keys =
     bt_collect (map (\<lambda>(key, v).
       (key, if list_ex (\<lambda>sensitive. sensitive = key) sensitive_keys
             then local_env_derived_container_env_digest sha256 key v else v)) env)"

definition local_env_derived_build_arg_digest :: "(string \<Rightarrow> u8 list) \<Rightarrow> string \<Rightarrow> string \<Rightarrow> string" where
  "local_env_derived_build_arg_digest sha256 key v =
     fmt [''<localEnv-derived-build-arg-sha256:'',
       sha256_hex sha256 (canon_object ''LocalEnvDerivedBuildArgDigest''
         (canon_field ''version'' (canon_string ''decune-build-arg-digest-v1'') @
          canon_field ''key'' (canon_string key) @
          canon_field ''value'' (canon_string v))), ''>'']"

definition build_args_for_hash ::
  "(string \<Rightarrow> u8 list) \<Rightarrow> (string, string) btree_map \<Rightarrow> string list \<Rightarrow> (string, string) btree_map" where
  "build_args_for_hash sha256 args sensitive_keys =
     bt_collect (map (\<lambda>(key, v).
       (key, if list_ex (\<lambda>sensitive. sensitive = key) sensitive_keys
             then local_env_derived_build_arg_digest sha256 key v else v)) args)"

definition compose_env_value_hash_version :: string where
  "compose_env_value_hash_version = ''decune-compose-env-value-hash-v1''"

fun json_value_type_name :: "json \<Rightarrow> string" where
  "json_value_type_name J_Null = ''null''"
| "json_value_type_name (J_Bool _) = ''boolean''"
| "json_value_type_name (J_Number _) = ''number''"
| "json_value_type_name (J_String _) = ''string''"
| "json_value_type_name (J_Array _) = ''array''"
| "json_value_type_name (J_Object _) = ''object''"

definition compose_environment_value_digest :: "(string \<Rightarrow> u8 list) \<Rightarrow> string list \<Rightarrow> json \<Rightarrow> string" where
  "compose_environment_value_digest sha256 path v =
     sha256_hex sha256
       (canon_field ''version'' (canon_string compose_env_value_hash_version) @
        canon_field ''json_path'' (canon_seq canon_string path) @
        canon_field ''json_value_type'' (canon_string (json_value_type_name v)) @
        canon_field ''canonical_json_value'' (canon_json v))"

definition compose_environment_value_hash_marker :: "(string \<Rightarrow> u8 list) \<Rightarrow> string list \<Rightarrow> json \<Rightarrow> string" where
  "compose_environment_value_hash_marker sha256 path v =
     fmt [compose_env_value_hash_version, '':sha256:'', compose_environment_value_digest sha256 path v]"

definition key_segment :: "string \<Rightarrow> string" where
  "key_segment k = fmt [''key:'', k]"

definition index_segment :: "nat \<Rightarrow> string" where
  "index_segment i = fmt [''index:'', show_nat i]"

definition is_compose_service_environment_path :: "string list \<Rightarrow> bool" where
  "is_compose_service_environment_path path =
     (length path = 3 \<and> path ! 0 = ''key:services'' \<and> path ! 2 = ''key:environment'')"

lemma enumerate_size [termination_simp]:
  assumes "(i, v) \<in> set (List.enumerate n vs)"
  shows "size v < Suc (size_list size vs)"
proof -
  have "v \<in> set vs" using assms by (simp add: enumerate_eq_zip set_zip_rightD)
  then have "size v \<le> size_list size vs" by (rule size_list_estimation') simp
  then show ?thesis by simp
qed

fun digest_json_leaf_values :: "(string \<Rightarrow> u8 list) \<Rightarrow> string list \<Rightarrow> json \<Rightarrow> json" where
  "digest_json_leaf_values sha256 path (J_Object m) =
     J_Object (map (\<lambda>(k, v). (k, digest_json_leaf_values sha256 (path @ [key_segment k]) v)) m)"
| "digest_json_leaf_values sha256 path (J_Array vs) =
     J_Array (map (\<lambda>(i, v). digest_json_leaf_values sha256 (path @ [index_segment i]) v) (List.enumerate 0 vs))"
| "digest_json_leaf_values sha256 path v = J_String (compose_environment_value_hash_marker sha256 path v)"

fun sanitize_compose_canonical_model_value :: "(string \<Rightarrow> u8 list) \<Rightarrow> string list \<Rightarrow> json \<Rightarrow> json" where
  "sanitize_compose_canonical_model_value sha256 path (J_Object m) =
     (if is_compose_service_environment_path path then digest_json_leaf_values sha256 path (J_Object m)
      else J_Object (map (\<lambda>(k, v).
        (k, sanitize_compose_canonical_model_value sha256 (path @ [key_segment k]) v)) m))"
| "sanitize_compose_canonical_model_value sha256 path (J_Array vs) =
     J_Array (map (\<lambda>(i, v).
       sanitize_compose_canonical_model_value sha256 (path @ [index_segment i]) v) (List.enumerate 0 vs))"
| "sanitize_compose_canonical_model_value sha256 path v = v"

definition sanitize_compose_canonical_model_for_hash :: "(string \<Rightarrow> u8 list) \<Rightarrow> json \<Rightarrow> json" where
  "sanitize_compose_canonical_model_for_hash sha256 model = sanitize_compose_canonical_model_value sha256 [] model"

section \<open>Writing the input\<close>

definition canon_strings :: "string list \<Rightarrow> string" where
  "canon_strings = canon_seq canon_string"

definition canon_string_map :: "(string, string) btree_map \<Rightarrow> string" where
  "canon_string_map = canon_map canon_string"

definition write_option_bool :: "bool option \<Rightarrow> string" where
  "write_option_bool v = canon_option canon_bool v"

definition write_compose_generated_override_input :: "compose_generated_override_hash_input \<Rightarrow> string" where
  "write_compose_generated_override_input input = canon_object ''ComposeGeneratedOverride''
     (canon_field ''path'' (canon_string (hgo_path input)) @
      canon_field ''content_hash'' (canon_string (hgo_content_hash input)))"

definition write_compose_file_input :: "compose_file_hash_input \<Rightarrow> string" where
  "write_compose_file_input input = canon_object ''ComposeFile''
     (canon_field ''canonical_path'' (canon_string (hcf_canonical_path input)) @
      canon_field ''digest'' (canon_string (hcf_digest input)))"

definition write_compose_file_inputs :: "compose_file_hash_input list \<Rightarrow> string" where
  "write_compose_file_inputs inputs = canon_seq write_compose_file_input inputs"

fun uid_gid_state_text :: "uid_gid_sync_hash_state \<Rightarrow> string" where
  "uid_gid_state_text Hash_Sync = ''sync''"
| "uid_gid_state_text (Hash_Noop reason) = fmt [''noop:'', reason]"

definition write_uid_gid_sync_input :: "uid_gid_sync_hash_input \<Rightarrow> string" where
  "write_uid_gid_sync_input input = canon_object ''UidGidSync''
     (canon_field ''state'' (canon_string (uid_gid_state_text (hug_state input))) @
      canon_field ''host_uid'' (canon_string (show_nat (unat (hug_host_uid input)))) @
      canon_field ''host_gid'' (canon_string (show_nat (unat (hug_host_gid input)))) @
      canon_field ''target_kind'' (option_string (hug_target_kind input)) @
      canon_field ''target_user'' (option_string (hug_target_user input)))"

definition write_startup_command :: "startup_command_hash_input \<Rightarrow> string" where
  "write_startup_command startup_command = canon_object ''StartupCommand''
     (canon_field ''entrypoint'' (canon_strings (hsc_entrypoint startup_command)) @
      canon_field ''command'' (canon_strings (hsc_command startup_command)))"

definition write_mount_bind_options :: "mount_bind_options_hash_input \<Rightarrow> string" where
  "write_mount_bind_options options = canon_object ''MountBindOptions''
     (canon_field ''propagation'' (option_string (hbo_propagation options)) @
      canon_field ''non_recursive'' (write_option_bool (hbo_non_recursive options)) @
      canon_field ''create_mountpoint'' (write_option_bool (hbo_create_mountpoint options)) @
      canon_field ''read_only_non_recursive'' (write_option_bool (hbo_read_only_non_recursive options)) @
      canon_field ''read_only_force_recursive'' (write_option_bool (hbo_read_only_force_recursive options)))"

definition write_mount_volume_driver_config :: "mount_volume_driver_config_hash_input \<Rightarrow> string" where
  "write_mount_volume_driver_config driver_config = canon_object ''MountVolumeDriverConfig''
     (canon_field ''name'' (option_string (hdc_name driver_config)) @
      canon_field ''options'' (canon_option canon_string_map (hdc_options driver_config)))"

definition write_mount_volume_options :: "mount_volume_options_hash_input \<Rightarrow> string" where
  "write_mount_volume_options options = canon_object ''MountVolumeOptions''
     (canon_field ''no_copy'' (write_option_bool (hvo_no_copy options)) @
      canon_field ''labels'' (canon_option canon_string_map (hvo_labels options)) @
      canon_field ''driver_config'' (canon_option write_mount_volume_driver_config (hvo_driver_config options)) @
      canon_field ''subpath'' (option_string (hvo_subpath options)))"

definition write_resolved_mount :: "mount_hash_input \<Rightarrow> string" where
  "write_resolved_mount mount = canon_object ''ResolvedMountSpec''
     (canon_field ''source'' (option_string (hmt_source mount)) @
      canon_field ''target'' (canon_string (hmt_target mount)) @
      canon_field ''type'' (canon_string (mount_type_name (hmt_mount_type mount))) @
      canon_field ''read_only'' (canon_bool (hmt_read_only mount)) @
      canon_field ''consistency'' (option_string (hmt_consistency mount)) @
      canon_field ''bind_options'' (canon_option write_mount_bind_options (hmt_bind_options mount)) @
      canon_field ''volume_options'' (canon_option write_mount_volume_options (hmt_volume_options mount)))"

definition write_resolved_mounts :: "mount_hash_input list \<Rightarrow> string" where
  "write_resolved_mounts mounts = canon_seq write_resolved_mount mounts"

definition write_compose_mapping :: "resolved_compose_mapping \<Rightarrow> string" where
  "write_compose_mapping mapping = canon_object ''PublishedPortMapping''
     (canon_field ''service'' (canon_string (rm_service mapping)) @
      canon_field ''target'' (canon_u16 (rm_target mapping)) @
      canon_field ''protocol'' (canon_string (port_protocol_name (rm_protocol mapping))) @
      canon_field ''host'' (canon_u16 (rm_host mapping)) @
      canon_field ''host_ip'' (option_string (rm_host_ip mapping)))"

definition write_isolation_networks :: "resolved_isolation_networks \<Rightarrow> string" where
  "write_isolation_networks networks = canon_object ''Networks''
     (canon_field ''relocation'' (canon_bool (rin_relocation networks)) @
      canon_field ''subnet_pool'' (option_string (rin_subnet_pool networks)) @
      canon_field ''subnet_prefix''
        (canon_option (\<lambda>prefix. canon_string (show_nat (unat prefix))) (rin_subnet_prefix networks)))"

definition write_isolation_names :: "resolved_isolation_names \<Rightarrow> string" where
  "write_isolation_names names = canon_object ''Names''
     (canon_field ''rewrite_container_names'' (canon_bool (rim_rewrite_container_names names)) @
      canon_field ''rewrite_resource_names'' (canon_bool (rim_rewrite_resource_names names)))"

definition write_isolation_endpoint :: "isolation_endpoint \<Rightarrow> string" where
  "write_isolation_endpoint endpoint = canon_object ''Endpoint''
     (canon_field ''service'' (canon_string (ie_service endpoint)) @
      canon_field ''env'' (canon_string (ie_env endpoint)) @
      canon_field ''value'' (canon_string (ie_value endpoint)))"

definition write_clone_isolation :: "resolved_clone_isolation \<Rightarrow> string" where
  "write_clone_isolation isolation = canon_object ''CloneIsolation''
     (canon_field ''enabled'' (canon_bool (rci_enabled isolation)) @
      (if \<not> rci_enabled isolation then []
       else canon_field ''networks'' (write_isolation_networks (rci_networks isolation)) @
            canon_field ''names'' (write_isolation_names (rci_names isolation)) @
            canon_field ''endpoints'' (canon_seq write_isolation_endpoint (rci_endpoints isolation))))"

definition write_config_compose :: "resolved_config \<Rightarrow> string" where
  "write_config_compose config =
     (let mappings = rpp_mappings (rco_published_ports (rc_compose config))
      in canon_object ''Compose''
           ((if mappings = [] then []
             else canon_field ''published_port_mappings'' (canon_seq write_compose_mapping mappings)) @
            canon_field ''clone_isolation'' (write_clone_isolation (rco_clone_isolation (rc_compose config)))))"

definition write_feature :: "resolved_feature \<Rightarrow> string" where
  "write_feature feature = canon_object ''Feature''
     (canon_field ''id'' (canon_string (rf_id feature)) @
      canon_field ''canonical_id'' (canon_string (rf_canonical_id feature)) @
      canon_field ''options'' (canon_map canon_toml (rf_options feature)))"

definition write_config_features :: "resolved_config \<Rightarrow> string" where
  "write_config_features config = canon_seq write_feature (rc_features config)"

definition write_enabled_dotfile :: "resolved_dotfile \<Rightarrow> string" where
  "write_enabled_dotfile dotfile = canon_object ''Dotfile''
     (canon_field ''source'' (canon_string (rd_source dotfile)) @
      canon_field ''target'' (canon_string (rd_target dotfile)) @
      canon_field ''read_only'' (canon_bool (rd_read_only dotfile)) @
      canon_field ''resolve_symlink'' (canon_bool (rd_resolve_symlink dotfile)) @
      canon_field ''on_conflict'' (canon_string (dotfile_conflict_name (rd_on_conflict dotfile))) @
      canon_field ''origin'' (canon_string (config_path_origin_name (rd_origin dotfile))))"

definition write_disabled_dotfile :: "resolved_dotfile_disable \<Rightarrow> string" where
  "write_disabled_dotfile dotfile = canon_object ''Dotfile''
     (canon_field ''target'' (canon_string (rdd_target dotfile)) @
      canon_field ''enabled'' (canon_bool False) @
      canon_field ''origin'' (canon_string (config_path_origin_name (rdd_origin dotfile))))"

fun write_dotfile_entry :: "resolved_dotfile_entry \<Rightarrow> string" where
  "write_dotfile_entry (Enabled_Dotfile dotfile) = write_enabled_dotfile dotfile"
| "write_dotfile_entry (Disabled_Dotfile dotfile) = write_disabled_dotfile dotfile"

definition write_config_dotfiles :: "resolved_config \<Rightarrow> string" where
  "write_config_dotfiles config =
     (if rc_dotfile_entries config = [] then canon_seq write_enabled_dotfile (rc_dotfiles config)
      else canon_seq write_dotfile_entry (rc_dotfile_entries config))"

definition write_config_mount :: "resolved_mount \<Rightarrow> string" where
  "write_config_mount mount = canon_object ''Mount''
     (canon_field ''source'' (option_string (rmo_source mount)) @
      canon_field ''target'' (canon_string (rmo_target mount)) @
      canon_field ''type'' (canon_string (mount_type_name (rmo_type mount))) @
      canon_field ''read_only'' (canon_bool (rmo_read_only mount)) @
      canon_field ''resolve_symlink'' (canon_bool (rmo_resolve_symlink mount)) @
      canon_field ''create'' (canon_option (\<lambda>create. canon_string (mount_create_name create)) (rmo_create mount)))"

definition write_config_mounts :: "resolved_config \<Rightarrow> string" where
  "write_config_mounts config = canon_seq write_config_mount (rc_mounts config)"

definition write_git_credentials :: "resolved_git_credentials \<Rightarrow> string" where
  "write_git_credentials git = canon_object ''GitCredentials''
     (canon_field ''enabled'' (canon_bool (rgc_enabled git)) @
      canon_field ''copy_user'' (canon_bool (rgc_copy_user git)) @
      canon_field ''copy_global_config'' (canon_bool (rgc_copy_global_config git)) @
      canon_field ''https'' (canon_string (git_https_mode_name (rgc_https git))) @
      canon_field ''ssh_agent'' (canon_string (ssh_agent_mode_name (rgc_ssh_agent git))))"

definition write_github_credentials :: "resolved_github_credentials \<Rightarrow> string" where
  "write_github_credentials github = canon_object ''GithubCredentials''
     (canon_field ''enabled'' (canon_bool (rhc_enabled github)) @
      canon_field ''mode'' (canon_string (github_credentials_mode_name (rhc_mode github))) @
      canon_field ''install_feature_if_missing'' (canon_bool (rhc_install_feature_if_missing github)))"

definition write_config_credentials :: "resolved_config \<Rightarrow> string" where
  "write_config_credentials config = canon_object ''Credentials''
     (canon_field ''git'' (write_git_credentials (rcr_git (rc_credentials config))) @
      canon_field ''github'' (write_github_credentials (rcr_github (rc_credentials config))))"

fun write_command :: "config_command \<Rightarrow> string" where
  "write_command (Shell command) = canon_object ''ShellCommand'' (canon_field ''value'' (canon_string command))"
| "write_command (Args args) = canon_object ''ArgsCommand'' (canon_field ''value'' (canon_strings args))"

definition write_hook :: "hook \<Rightarrow> string" where
  "write_hook h = canon_object ''Hook''
     (canon_field ''command'' (write_command (hk_command h)) @
      canon_field ''location'' (canon_option (\<lambda>l. canon_string (hook_location_name l)) (hk_location h)) @
      canon_field ''user'' (option_string (hk_user h)) @
      canon_field ''shell'' (canon_bool (hk_shell h)) @
      canon_field ''workdir'' (option_string (hk_workdir h)))"

definition write_hooks :: "hook list \<Rightarrow> string" where
  "write_hooks hs = canon_seq write_hook hs"

definition write_config_hooks :: "resolved_config \<Rightarrow> string" where
  "write_config_hooks config =
     (let h = rc_hooks config
      in canon_object ''Hooks''
        (canon_field ''before_initialize'' (write_hooks (hs_before_initialize h)) @
         canon_field ''after_initialize'' (write_hooks (hs_after_initialize h)) @
         canon_field ''before_on_create'' (write_hooks (hs_before_on_create h)) @
         canon_field ''after_on_create'' (write_hooks (hs_after_on_create h)) @
         canon_field ''before_update_content'' (write_hooks (hs_before_update_content h)) @
         canon_field ''after_update_content'' (write_hooks (hs_after_update_content h)) @
         canon_field ''before_post_create'' (write_hooks (hs_before_post_create h)) @
         canon_field ''after_post_create'' (write_hooks (hs_after_post_create h)) @
         canon_field ''before_post_start'' (write_hooks (hs_before_post_start h)) @
         canon_field ''after_post_start'' (write_hooks (hs_after_post_start h)) @
         canon_field ''before_post_attach'' (write_hooks (hs_before_post_attach h)) @
         canon_field ''after_post_attach'' (write_hooks (hs_after_post_attach h))))"

fun write_devcontainer_mount :: "devcontainer_mount \<Rightarrow> string" where
  "write_devcontainer_mount (Mount_String v) =
     canon_object ''DevcontainerMountString'' (canon_field ''value'' (canon_string v))"
| "write_devcontainer_mount (Mount_Object vs) =
     canon_object ''DevcontainerMountObject'' (canon_field ''value'' (canon_map canon_json vs))"

definition write_dockerfile_source ::
  "(string \<Rightarrow> u8 list) \<Rightarrow> string list \<Rightarrow> devcontainer_build \<Rightarrow> string" where
  "write_dockerfile_source sha256 sensitive_build_arg_keys build = canon_object ''DockerfileSource''
     (canon_field ''dockerfile'' (canon_string (db_dockerfile build)) @
      canon_field ''context'' (option_string (db_context build)) @
      canon_field ''args'' (canon_string_map (build_args_for_hash sha256 (db_args build) sensitive_build_arg_keys)) @
      canon_field ''options'' (canon_strings (db_options build)) @
      canon_field ''target'' (option_string (db_target build)) @
      canon_field ''cache_from'' (canon_strings (db_cache_from build)))"

definition write_compose_source :: "devcontainer_compose \<Rightarrow> string" where
  "write_compose_source compose = canon_object ''ComposeSource''
     (canon_field ''files'' (canon_strings (dc_files compose)) @
      canon_field ''service'' (canon_string (dc_service compose)) @
      canon_field ''run_services'' (canon_option canon_strings (dc_run_services compose)))"

fun write_devcontainer_source ::
  "(string \<Rightarrow> u8 list) \<Rightarrow> string list \<Rightarrow> devcontainer_source \<Rightarrow> string" where
  "write_devcontainer_source sha256 sensitive_build_arg_keys (Source_Image image') =
     canon_object ''ImageSource'' (canon_field ''image'' (canon_string image'))"
| "write_devcontainer_source sha256 sensitive_build_arg_keys (Source_Dockerfile build) =
     write_dockerfile_source sha256 sensitive_build_arg_keys build"
| "write_devcontainer_source sha256 sensitive_build_arg_keys (Source_Compose_Files compose) =
     write_compose_source compose"

definition write_publish_port :: "resolved_publish_port \<Rightarrow> string" where
  "write_publish_port port = canon_object ''PublishPort''
     (canon_field ''container'' (canon_u16 (pp_container port)) @
      canon_field ''host'' (canon_option canon_u16 (pp_host port)) @
      canon_field ''host_ip'' (option_string (pp_host_ip port)) @
      canon_field ''protocol'' (canon_string (port_protocol_name (pp_protocol port))))"

fun write_run_arg :: "run_arg \<Rightarrow> string" where
  "write_run_arg (Add_Host v) = canon_object ''AddHost'' (canon_field ''value'' (canon_string v))"
| "write_run_arg (Dns v) = canon_object ''Dns'' (canon_field ''value'' (canon_string v))"
| "write_run_arg (Dns_Search v) = canon_object ''DnsSearch'' (canon_field ''value'' (canon_string v))"
| "write_run_arg (Passthrough option' v) = canon_object ''Passthrough''
     (canon_field ''option'' (canon_string option') @ canon_field ''value'' (canon_string v))"

fun write_lifecycle_command :: "lifecycle_command \<Rightarrow> string" where
  "write_lifecycle_command (Shell_Command command) =
     canon_object ''LifecycleShell'' (canon_field ''value'' (canon_string command))"
| "write_lifecycle_command (Args_Command args) =
     canon_object ''LifecycleArgs'' (canon_field ''value'' (canon_strings args))"
| "write_lifecycle_command (Parallel_Command commands) =
     canon_object ''LifecycleParallel'' (canon_field ''value'' (canon_map write_lifecycle_command commands))"

definition hashed_stages :: "lifecycle_stage list" where
  "hashed_stages = [Initialize, On_Create, Update_Content, Post_Create, Post_Start, Post_Attach]"

definition write_stage_commands :: "lifecycle_command list \<Rightarrow> string" where
  "write_stage_commands commands =
     (if commands = [] then canon_none else canon_seq write_lifecycle_command commands)"

definition write_lifecycle :: "lifecycle_definition \<Rightarrow> string" where
  "write_lifecycle lifecycle = canon_object ''Lifecycle''
     (concat (map (\<lambda>stage. canon_field (lifecycle_stage_name stage)
         (write_stage_commands (definition_commands lifecycle stage))) hashed_stages) @
      canon_field ''wait_for'' (canon_string (wait_for_name (ld_wait_for lifecycle))))"

definition write_devcontainer ::
  "(string \<Rightarrow> u8 list) \<Rightarrow> resolved_devcontainer \<Rightarrow> string list \<Rightarrow> string list \<Rightarrow> string" where
  "write_devcontainer sha256 devcontainer sensitive_container_env_keys sensitive_build_arg_keys =
     canon_object ''Devcontainer''
       (canon_field ''source''
          (canon_option (write_devcontainer_source sha256 sensitive_build_arg_keys) (rdc_source devcontainer)) @
        canon_field ''override_feature_install_order''
          (canon_strings (rdc_override_feature_install_order devcontainer)) @
        canon_field ''mounts'' (canon_seq write_devcontainer_mount (rdc_mounts devcontainer)) @
        canon_field ''workspace_mount'' (option_string (rdc_workspace_mount devcontainer)) @
        canon_field ''workspace_folder'' (option_string (rdc_workspace_folder devcontainer)) @
        canon_field ''container_env'' (canon_string_map
          (container_env_for_hash sha256 (rdc_container_env devcontainer) sensitive_container_env_keys)) @
        canon_field ''remote_env'' (canon_string_map (rdc_remote_env devcontainer)) @
        canon_field ''remote_user'' (option_string (rdc_remote_user devcontainer)) @
        canon_field ''container_user'' (option_string (rdc_container_user devcontainer)) @
        canon_field ''update_remote_user_uid'' (canon_bool (rdc_update_remote_user_uid devcontainer)) @
        canon_field ''override_command'' (canon_bool (rdc_override_command devcontainer)) @
        canon_field ''shutdown_action'' (canon_string (shutdown_action_name (rdc_shutdown_action devcontainer))) @
        canon_field ''user_env_probe''
          (canon_option (\<lambda>v. canon_string (user_env_probe_name v)) (rdc_user_env_probe devcontainer)) @
        canon_field ''publish_ports'' (canon_seq write_publish_port (rdc_publish_ports devcontainer)) @
        canon_field ''run_args'' (canon_seq write_run_arg (rdc_run_args devcontainer)) @
        canon_field ''init'' (write_option_bool (rdc_init devcontainer)) @
        canon_field ''privileged'' (write_option_bool (rdc_privileged devcontainer)) @
        canon_field ''cap_add'' (canon_strings (rdc_cap_add devcontainer)) @
        canon_field ''security_opt'' (canon_strings (rdc_security_opt devcontainer)) @
        canon_field ''entrypoints'' (canon_strings (rdc_entrypoints devcontainer)) @
        canon_field ''lifecycle'' (canon_option write_lifecycle (rdc_lifecycle devcontainer)))"

definition write_resolved_config :: "(string \<Rightarrow> u8 list) \<Rightarrow> config_hash_input \<Rightarrow> string" where
  "write_resolved_config sha256 input =
     (let config = chi_config input
      in canon_object ''ResolvedConfig''
        (canon_field ''shell'' (option_string (rc_shell config)) @
         canon_field ''features'' (write_config_features config) @
         canon_field ''dotfiles'' (write_config_dotfiles config) @
         canon_field ''mounts'' (write_config_mounts config) @
         canon_field ''compose'' (write_config_compose config) @
         canon_field ''devcontainer'' (write_devcontainer sha256 (rc_devcontainer config)
           (chi_sensitive_container_env_keys input) (chi_sensitive_build_arg_keys input)) @
         canon_field ''credentials'' (write_config_credentials config) @
         canon_field ''hooks'' (write_config_hooks config)))"

definition write_feature_lock :: "feature_lock_hash_entry \<Rightarrow> string" where
  "write_feature_lock entry = canon_object ''FeatureLock''
     (canon_field ''feature_id'' (canon_string (hfl_feature_id entry)) @
      canon_field ''digest'' (canon_string (hfl_digest entry)))"

definition write_feature_locks :: "feature_lock_hash_entry list \<Rightarrow> string" where
  "write_feature_locks entries =
     canon_seq write_feature_lock (sort_key (\<lambda>e. (hfl_feature_id e, hfl_digest e)) entries)"

definition write_build_input :: "build_hash_input \<Rightarrow> string" where
  "write_build_input build = canon_object ''Build''
     (canon_field ''dockerfile_path'' (option_string (hbi_dockerfile_path build)) @
      canon_field ''dockerfile_content_hash'' (option_string (hbi_dockerfile_content_hash build)) @
      canon_field ''context_path'' (option_string (hbi_context_path build)) @
      canon_field ''dockerignore_path'' (option_string (hbi_dockerignore_path build)) @
      canon_field ''dockerignore_content_hash'' (option_string (hbi_dockerignore_content_hash build)) @
      canon_field ''context_content_hash'' (option_string (hbi_context_content_hash build)))"

definition config_hash_text :: "(string \<Rightarrow> u8 list) \<Rightarrow> config_hash_input \<Rightarrow> string" where
  "config_hash_text sha256 input =
     canon_field ''version'' (canon_string ''decune-config-hash-v1'') @
     canon_field ''resolved_config'' (write_resolved_config sha256 input) @
     canon_field ''feature_locks'' (write_feature_locks (chi_feature_locks input)) @
     canon_field ''cli_flags'' (canon_map canon_toml (chi_cli_flags input)) @
     canon_field ''internal_versions'' (canon_string_map (chi_internal_versions input)) @
     canon_field ''build'' (canon_option write_build_input (chi_build input)) @
     (if chi_compose_files input = [] then []
      else canon_field ''compose_files'' (write_compose_file_inputs (chi_compose_files input))) @
     (case chi_compose_generated_override input of
        Some generated_override \<Rightarrow>
          canon_field ''compose_generated_override'' (write_compose_generated_override_input generated_override)
      | None \<Rightarrow> []) @
     (case chi_compose_canonical_model input of
        Some model \<Rightarrow>
          canon_field ''compose_canonical_model'' (canon_json (sanitize_compose_canonical_model_for_hash sha256 model))
      | None \<Rightarrow> []) @
     canon_field ''resolved_mounts'' (write_resolved_mounts (chi_resolved_mounts input)) @
     canon_field ''startup_command'' (canon_option write_startup_command (chi_startup_command input)) @
     canon_field ''uid_gid_sync'' (canon_option write_uid_gid_sync_input (chi_uid_gid_sync input))"

definition config_hash :: "(string \<Rightarrow> u8 list) \<Rightarrow> config_hash_input \<Rightarrow> string" where
  "config_hash sha256 input = sha256_hex sha256 (config_hash_text sha256 input)"

end
