(* ===== verification/Utf8.thy ===== *)
theory Utf8
  imports Rust_Str
begin

text \<open>
  UTF-8, as \<open>String::from_utf8\<close> of Rust's standard library checks it: a text is a sequence of
  encoded characters of one to four bytes, without overlong forms, surrogates and values above
  U+10FFFF. The facts are about cutting a text at an ASCII byte. Control characters and lines are
  found on the bytes.
\<close>

definition byte :: "char \<Rightarrow> nat" where
  "byte c = of_char c"

definition is_ascii :: "char \<Rightarrow> bool" where
  "is_ascii c = (byte c < 0x80)"

definition is_continuation :: "char \<Rightarrow> bool" where
  "is_continuation c = (0x80 \<le> byte c \<and> byte c < 0xC0)"

fun utf8_char :: "string \<Rightarrow> bool" where
  "utf8_char [a] = is_ascii a"
| "utf8_char [a, b] = (0xC2 \<le> byte a \<and> byte a \<le> 0xDF \<and> is_continuation b)"
| "utf8_char [a, b, c] =
     (0xE0 \<le> byte a \<and> byte a \<le> 0xEF \<and> is_continuation b \<and> is_continuation c \<and>
      (byte a = 0xE0 \<longrightarrow> 0xA0 \<le> byte b) \<and> (byte a = 0xED \<longrightarrow> byte b < 0xA0))"
| "utf8_char [a, b, c, d] =
     (0xF0 \<le> byte a \<and> byte a \<le> 0xF4 \<and> is_continuation b \<and> is_continuation c \<and> is_continuation d \<and>
      (byte a = 0xF0 \<longrightarrow> 0x90 \<le> byte b) \<and> (byte a = 0xF4 \<longrightarrow> byte b < 0x90))"
| "utf8_char _ = False"

definition char_lengths :: "nat list" where
  "char_lengths = [1, 2, 3, 4]"

function utf8_ok :: "string \<Rightarrow> bool" where
  "utf8_ok s = (if s = [] then True else \<exists>n\<in>set char_lengths. utf8_char (take n s) \<and> utf8_ok (drop n s))"
  by pat_completeness auto
termination
  by (relation "measure length") (auto simp: char_lengths_def)

declare utf8_ok.simps [simp del]

lemma utf8_ok_Nil [simp]: "utf8_ok []"
  by (simp add: utf8_ok.simps)

lemma utf8_char_length: "utf8_char w \<Longrightarrow> length w \<in> set char_lengths"
  by (induction w rule: utf8_char.induct) (simp_all add: char_lengths_def)

lemma utf8_ok_char:
  assumes "utf8_char w" "utf8_ok s"
  shows "utf8_ok (w @ s)"
proof -
  have "\<exists>n\<in>set char_lengths. utf8_char (take n (w @ s)) \<and> utf8_ok (drop n (w @ s))"
    using assms by (intro bexI [OF _ utf8_char_length [OF assms(1)]]) simp
  then show ?thesis by (subst utf8_ok.simps) simp
qed

lemma utf8_ok_induct [consumes 1, case_names Nil char]:
  assumes "utf8_ok s" "P []" "\<And>w s. utf8_char w \<Longrightarrow> utf8_ok s \<Longrightarrow> P s \<Longrightarrow> P (w @ s)"
  shows "P s"
  using assms(1)
proof (induction s rule: utf8_ok.induct)
  case (1 s)
  show ?case
  proof (cases "s = []")
    case False
    with iffD1 [OF utf8_ok.simps "1.prems"]
    obtain n where n: "n \<in> set char_lengths" "utf8_char (take n s)" "utf8_ok (drop n s)" by auto
    have "P (take n s @ drop n s)" using n "1.IH" [OF False n(1)] by (intro assms(3)) simp_all
    then show ?thesis by simp
  qed (simp add: assms(2))
qed

lemma utf8_ok_append: "utf8_ok a \<Longrightarrow> utf8_ok b \<Longrightarrow> utf8_ok (a @ b)"
  by (induction a rule: utf8_ok_induct) (simp_all add: utf8_ok_char)

lemma utf8_ok_ascii: "\<forall>c\<in>set s. is_ascii c \<Longrightarrow> utf8_ok s"
proof (induction s)
  case (Cons c s)
  then show ?case using utf8_ok_char [of "[c]" s] by simp
qed simp

lemma is_continuation_not_ascii: "is_continuation c \<Longrightarrow> \<not> is_ascii c"
  by (simp add: is_continuation_def is_ascii_def)

text \<open>A byte of a character that is ASCII is the whole character.\<close>

lemma utf8_char_ascii: "utf8_char w \<Longrightarrow> c \<in> set w \<Longrightarrow> is_ascii c \<Longrightarrow> w = [c]"
  by (cases w rule: utf8_char.cases) (auto simp: is_ascii_def is_continuation_def)

lemma utf8_ok_split: "utf8_ok (a @ c # b) \<Longrightarrow> is_ascii c \<Longrightarrow> utf8_ok a \<and> utf8_ok b"
proof (induction "a @ c # b" arbitrary: a rule: utf8_ok_induct)
  case (char w s)
  show ?case
  proof (cases "length w \<le> length a")
    case True
    with char.hyps(4) obtain a' where "a = w @ a'" "s = a' @ c # b" by (auto simp: append_eq_append_conv2)
    with char show ?thesis by (auto intro: utf8_ok_char)
  next
    case False
    with char.hyps(4) obtain us where us: "w = a @ us" "us @ s = c # b" "us \<noteq> []" by (auto simp: append_eq_append_conv2)
    then obtain r where r: "w = a @ c # r" "b = r @ s" by (cases us) auto
    with utf8_char_ascii [OF char.hyps(1), of c] char.prems have "a = []" "r = []" by (auto simp: append_eq_Cons_conv)
    with r char.hyps show ?thesis by simp
  qed
qed simp

lemma utf8_ok_ascii_Cons [simp]: "is_ascii c \<Longrightarrow> utf8_ok (c # s) \<longleftrightarrow> utf8_ok s"
  using utf8_ok_split [of "[]" c s] utf8_ok_char [of "[c]" s] by auto

definition from_utf8 :: "(string \<Rightarrow> string) \<Rightarrow> string \<Rightarrow> string + string" where
  "from_utf8 utf8_error s = (if utf8_ok s then Inr s else Inl (utf8_error s))"

section \<open>Control characters and lines\<close>

text \<open>\<open>char::is_control\<close> on a character of one byte, and of the two bytes 0xC2 and \<open>d\<close>.\<close>

definition is_control_byte :: "char \<Rightarrow> bool" where
  "is_control_byte c = (byte c < 0x20 \<or> byte c = 0x7F)"

definition is_control_pair :: "char \<Rightarrow> char \<Rightarrow> bool" where
  "is_control_pair c d = (byte c = 0xC2 \<and> 0x80 \<le> byte d \<and> byte d \<le> 0x9F)"

fun has_control :: "string \<Rightarrow> bool" where
  "has_control [] = False"
| "has_control (c # s) =
     (is_control_byte c \<or> (case s of d # _ \<Rightarrow> is_control_pair c d | [] \<Rightarrow> False) \<or> has_control s)"

text \<open>\<open>str::lines\<close>: a line ends with a line feed, a carriage return before it is dropped, and a text
  that ends with a line feed has no further line.\<close>

definition drop_carriage_return :: "string \<Rightarrow> string" where
  "drop_carriage_return line = (if line \<noteq> [] \<and> last line = CHR 0x0D then butlast line else line)"

definition str_lines :: "string \<Rightarrow> string list" where
  "str_lines s =
     (let pieces = split_on (\<lambda>c. c = CHR 0x0A) s
      in map drop_carriage_return (butlast pieces) @ (if last pieces = [] then [] else [last pieces]))"

end
