(* ===== verification/Feature_Resolver.thy ===== *)
theory Feature_Resolver
  imports Feature_Install Feature_Lock Config_Hash Utf8
begin

text \<open>
  The resolver of \<open>src/devcontainer/features/install.rs\<close>, which turns a configured Feature or a
  dependency into an input of the install order, and the preparation of the plan around it. It keeps
  the sources it has read and numbers the instances of local Features. Files, the contents of a
  Feature directory, the cache of archives and the registry are the operations of \<open>feature_world\<close>
  over the state of the world. A \<open>Path\<close> is its Unix bytes; the cache and extract directories
  belong to the operation that pulls a Feature.
\<close>

section \<open>The sources of Features\<close>

text \<open>The fields of \<open>OciFeatureArtifact\<close> that are used.\<close>

record pulled_feature =
  pl_digest :: string
  pl_extracted_dir :: string
  pl_metadata_path :: string

record 'w feature_world =
  fw_canonicalize :: "string \<Rightarrow> ('w, string, string) io"
  fw_is_file :: "string \<Rightarrow> ('w, string, bool) io"
  fw_read_document :: "string \<Rightarrow> ('w, string, feature_metadata \<times> config_layer) io"
  fw_content_digest :: "string \<Rightarrow> ('w, string, string) io"
  fw_pull :: "oci_feature_ref \<Rightarrow> ('w, string, pulled_feature) io"
  fw_read_lock :: "string \<Rightarrow> ('w, string, feature_lock_file) io"
  fw_write_lock :: "string \<Rightarrow> feature_lock_file \<Rightarrow> ('w, string, unit) io"
  fw_remove_lock :: "string \<Rightarrow> ('w, string, unit) io"

record feature_source =
  so_source_dir :: string
  so_metadata :: feature_metadata
  so_layer :: config_layer
  so_container_env :: "(string, string) btree_map"
  so_digest :: string
  so_lock_file_entry :: "feature_lock_entry option"

definition feature_layer_container_env :: "config_layer \<Rightarrow> (string, string) btree_map" where
  "feature_layer_container_env layer =
     (case cl_devcontainer layer of Some devcontainer \<Rightarrow> ldc_container_env devcontainer | None \<Rightarrow> [])"

definition feature_runtime_metadata_layer :: "config_layer \<Rightarrow> config_layer" where
  "feature_runtime_metadata_layer layer =
     layer\<lparr>cl_devcontainer := map_option (\<lambda>devcontainer. devcontainer\<lparr>ldc_container_env := []\<rparr>) (cl_devcontainer layer)\<rparr>"

definition ensure_feature_files :: "'w feature_world \<Rightarrow> string \<Rightarrow> string \<Rightarrow> ('w, string, unit) io" where
  "ensure_feature_files world source_dir feature_reference =
     io_bind (fw_is_file world (path_push source_dir ''install.sh'')) (\<lambda>script.
     if \<not> script
     then io_fail (fmt [''Invalid local Feature `'', feature_reference, ''`: missing required install.sh in '', source_dir])
     else io_bind (fw_is_file world (path_push source_dir ''devcontainer-feature.json'')) (\<lambda>metadata.
       if \<not> metadata
       then io_fail (fmt [''Invalid local Feature `'', feature_reference,
              ''`: missing required devcontainer-feature.json in '', source_dir])
       else io_return ()))"

definition validate_local_feature_directory_name :: "string \<Rightarrow> string \<Rightarrow> string \<Rightarrow> unit result" where
  "validate_local_feature_directory_name source_dir metadata_id feature_reference =
     bind_res (ok_or (case path_file_name source_dir of
           Some name \<Rightarrow> if utf8_ok name then Some name else None | None \<Rightarrow> None)
         (fmt [''Failed to resolve local Feature directory name: '', source_dir])) (\<lambda>directory_name.
       if directory_name \<noteq> metadata_id
       then Inl (fmt [''Invalid local Feature `'', feature_reference,
              ''`: local Feature directory name must match Feature metadata id: '', source_dir,
              '' has directory name `'', directory_name, ''` but metadata id `'', metadata_id, ''`''])
       else Inr ())"

text \<open>\<open>Path::starts_with\<close> compares components.\<close>

definition path_starts_with :: "string \<Rightarrow> string \<Rightarrow> bool" where
  "path_starts_with path base =
     (take (length (path_components base)) (path_components path) = path_components base)"

definition resolve_local_source ::
  "'w feature_world \<Rightarrow> string \<Rightarrow> local_feature_ref \<Rightarrow> ('w, string, feature_source) io" where
  "resolve_local_source world devcontainer_dir reference =
     io_bind (io_map_err (with_context [''Failed to resolve devcontainer directory: '', devcontainer_dir])
        (fw_canonicalize world devcontainer_dir)) (\<lambda>canonical_dir.
     io_bind (io_map_err (with_context [''Failed to resolve local Feature directory for `'', local_original reference,
          ''`: '', local_path reference])
        (fw_canonicalize world (local_path reference))) (\<lambda>source_dir.
     if \<not> path_starts_with source_dir canonical_dir
     then io_fail (fmt [''Invalid local Feature `'', local_original reference,
            ''`: canonical path must stay inside devcontainer directory '', canonical_dir, '' but resolved to '', source_dir])
     else io_bind (ensure_feature_files world source_dir (local_original reference)) (\<lambda>_.
     io_bind (io_map_err (with_context [''Failed to read local Feature `'', local_original reference, ''`''])
        (fw_read_document world (path_push source_dir ''devcontainer-feature.json''))) (\<lambda>(metadata, layer).
     io_bind (io_lift (validate_local_feature_directory_name source_dir (fm_id metadata) (local_original reference))) (\<lambda>_.
     io_bind (fw_content_digest world source_dir) (\<lambda>digest.
       io_return \<lparr>so_source_dir = source_dir, so_metadata = metadata, so_layer = layer,
         so_container_env = feature_layer_container_env layer, so_digest = digest, so_lock_file_entry = None\<rparr>))))))"

definition resolve_oci_source ::
  "'w feature_world \<Rightarrow> feature_lock_file \<Rightarrow> bool \<Rightarrow> oci_feature_ref \<Rightarrow> ('w, string, feature_source) io" where
  "resolve_oci_source world lock update_features reference =
     io_bind (io_lift (map_err (with_context [''Failed to parse locked Feature ref for '', oci_original reference])
        (parse_feature_ref (resolve_locked_feature_ref (Oci reference) lock update_features)))) (\<lambda>locked.
     case locked of
       Local _ \<Rightarrow> io_fail (fmt [''OCI Feature resolved to a non-OCI reference: '', oci_original reference])
     | Oci locked_reference \<Rightarrow>
         io_bind (fw_pull world locked_reference) (\<lambda>artifact.
         io_bind (fw_read_document world (pl_metadata_path artifact)) (\<lambda>(metadata, layer).
           io_return \<lparr>so_source_dir = pl_extracted_dir artifact, so_metadata = metadata, so_layer = layer,
             so_container_env = feature_layer_container_env layer, so_digest = pl_digest artifact,
             so_lock_file_entry = Some (lock_entry_of reference (pl_digest artifact))\<rparr>)))"

definition resolve_source ::
  "'w feature_world \<Rightarrow> string \<Rightarrow> feature_lock_file \<Rightarrow> bool \<Rightarrow> feature_ref \<Rightarrow> ('w, string, feature_source) io" where
  "resolve_source world devcontainer_dir lock update_features reference =
     (case reference of
        Local local_reference \<Rightarrow> resolve_local_source world devcontainer_dir local_reference
      | Oci oci_reference \<Rightarrow> resolve_oci_source world lock update_features oci_reference)"

section \<open>The resolver\<close>

text \<open>The fields of \<open>FeatureResolver\<close> that change, and those that do not.\<close>

record feature_resolver =
  re_sources :: "(string, feature_source) btree_map"
  re_next_local_instance :: nat

record 'w feature_context =
  fc_devcontainer_dir :: string
  fc_source :: "feature_ref \<Rightarrow> ('w, string, feature_source) io"

definition take_local_instance :: "feature_ref \<Rightarrow> feature_resolver \<Rightarrow> nat option \<times> feature_resolver" where
  "take_local_instance reference resolver =
     (if reference_is_local reference
      then (Some (re_next_local_instance resolver),
            resolver\<lparr>re_next_local_instance := re_next_local_instance resolver + 1\<rparr>)
      else (None, resolver))"

definition resolved_input :: "resolved_feature \<Rightarrow> feature_ref \<Rightarrow> feature_source \<Rightarrow> nat option \<Rightarrow> feature_install_input" where
  "resolved_input feature reference source local_instance =
     \<lparr>fi_feature = feature, fi_reference = reference, fi_metadata = so_metadata source,
      fi_source_key = feature_source_key reference,
      fi_instance_key = feature_instance_key feature reference (so_digest source) local_instance\<rparr>"

definition resolve_input ::
  "'w feature_context \<Rightarrow> resolved_feature \<Rightarrow> (feature_resolver \<times> 'w, string, feature_install_input) io" where
  "resolve_input ctx feature state =
     (case map_err (with_context [''Failed to parse Feature ref: '', rf_id feature])
         (parse_feature_ref_from_devcontainer_dir (rf_id feature) (fc_devcontainer_dir ctx)) of
        Inl error \<Rightarrow> (Inl error, state)
      | Inr reference \<Rightarrow>
          (case take_local_instance reference (fst state) of (local_instance, resolver) \<Rightarrow>
           case bt_get (re_sources resolver) (feature_source_key reference) of
             Some source \<Rightarrow> (Inr (resolved_input feature reference source local_instance), (resolver, snd state))
           | None \<Rightarrow>
               (case fc_source ctx reference (snd state) of
                  (Inl error, w') \<Rightarrow> (Inl error, (resolver, w'))
                | (Inr source, w') \<Rightarrow>
                    (Inr (resolved_input feature reference source local_instance),
                     (resolver\<lparr>re_sources := bt_insert (feature_source_key reference) source (re_sources resolver)\<rparr>, w')))))"

fun resolve_inputs ::
  "'w feature_context \<Rightarrow> resolved_feature list \<Rightarrow> (feature_resolver \<times> 'w, string, feature_install_input list) io" where
  "resolve_inputs ctx [] = io_return []"
| "resolve_inputs ctx (feature # features) =
     io_bind (resolve_input ctx feature) (\<lambda>input.
     io_bind (resolve_inputs ctx features) (\<lambda>inputs. io_return (input # inputs)))"

text \<open>The closure that \<open>prepare_feature_install_plan\<close> passes to the install order.\<close>

definition requested_feature :: "feature_dependency_request \<Rightarrow> resolved_feature" where
  "requested_feature request =
     \<lparr>rf_id = fr_reference request, rf_canonical_id = fr_canonical_id request, rf_options = fr_options request\<rparr>"

definition resolve_request :: "'w feature_context \<Rightarrow> (feature_resolver \<times> 'w) resolver" where
  "resolve_request ctx request = resolve_input ctx (requested_feature request)"

definition empty_resolver :: feature_resolver where
  "empty_resolver = \<lparr>re_sources = [], re_next_local_instance = 0\<rparr>"

text \<open>The part of the preparation that resolves and orders the Features.\<close>

definition resolved_install_order ::
  "nat \<Rightarrow> 'w feature_context \<Rightarrow> resolved_feature list \<Rightarrow> string list \<Rightarrow> 'w \<Rightarrow>
   ((string + feature_install_plan_entry list) \<times> (feature_resolver \<times> 'w)) option" where
  "resolved_install_order fuel ctx features override_order w =
     (case resolve_inputs ctx features (empty_resolver, w) of
        (Inl error, state) \<Rightarrow> Some (Inl error, state)
      | (Inr inputs, state) \<Rightarrow> resolve_feature_install_order fuel inputs override_order (resolve_request ctx) state)"

section \<open>The prepared plan\<close>

record prepared_feature_entry =
  pfe_feature :: resolved_feature
  pfe_source_dir :: string
  pfe_option_env :: "(string, string) btree_map"
  pfe_container_env :: "(string, string) btree_map"

record prepared_feature_plan =
  pfp_entries :: "prepared_feature_entry list"
  pfp_metadata_layers :: "config_layer list"
  pfp_lock_entries :: "feature_lock_hash_entry list"

text \<open>What one entry of the install order adds to the three lists of the plan.\<close>

definition prepared_entry ::
  "feature_resolver \<Rightarrow> feature_install_plan_entry \<Rightarrow>
   (prepared_feature_entry \<times> config_layer \<times> feature_lock_hash_entry) result" where
  "prepared_entry resolver entry =
     bind_res (ok_or (bt_get (re_sources resolver) (fp_source_key entry))
       (fmt [''Feature source was not prepared for '', rf_canonical_id (fp_feature entry)])) (\<lambda>source.
       Inr (\<lparr>pfe_feature = fp_feature entry, pfe_source_dir = so_source_dir source,
             pfe_option_env = fp_option_env entry, pfe_container_env = so_container_env source\<rparr>,
            feature_runtime_metadata_layer (so_layer source),
            \<lparr>hfl_feature_id = fp_instance_key entry, hfl_digest = so_digest source\<rparr>))"

definition lock_file_entries :: "feature_resolver \<Rightarrow> feature_lock_entry list" where
  "lock_file_entries resolver =
     remdups_adj (sort_key lock_sort_key (filter_map so_lock_file_entry (map snd (re_sources resolver))))"

definition finish_feature_plan ::
  "'w feature_world \<Rightarrow> string \<Rightarrow> feature_resolver \<Rightarrow> feature_install_plan_entry list \<Rightarrow>
   ('w, string, prepared_feature_plan option) io" where
  "finish_feature_plan world lock_path resolver entries =
     io_bind (io_lift (try_map (prepared_entry resolver) entries)) (\<lambda>prepared.
     let lock_entries = remdups_adj (sort_key hfl_feature_id (map (\<lambda>(_, _, lock_entry). lock_entry) prepared));
         file_entries = lock_file_entries resolver
     in io_bind (if file_entries = [] then fw_remove_lock world lock_path
                 else fw_write_lock world lock_path \<lparr>lf_version = feature_lock_version, lf_features = file_entries\<rparr>) (\<lambda>_.
          io_return (Some \<lparr>pfp_entries = map fst prepared, pfp_metadata_layers = map (\<lambda>(_, layer, _). layer) prepared,
            pfp_lock_entries = lock_entries\<rparr>)))"

definition prepare_feature_install_plan ::
  "nat \<Rightarrow> 'w feature_world \<Rightarrow> resolved_feature list \<Rightarrow> string \<Rightarrow> string \<Rightarrow> string list \<Rightarrow> bool \<Rightarrow> 'w \<Rightarrow>
   ((string + prepared_feature_plan option) \<times> 'w) option" where
  "prepare_feature_install_plan fuel world features devcontainer_file workspace_root override_order update_features w =
     (let lock_path = path_push (path_push workspace_root ''.decune'') ''features.lock.toml''
      in if features = [] then Some (io_bind (fw_remove_lock world lock_path) (\<lambda>_. io_return None) w)
         else case path_parent devcontainer_file of
           None \<Rightarrow> Some (Inl (fmt [''Failed to resolve devcontainer directory for '', devcontainer_file]), w)
         | Some devcontainer_dir \<Rightarrow>
             (case fw_read_lock world lock_path w of
                (Inl error, w1) \<Rightarrow> Some (Inl error, w1)
              | (Inr lock, w1) \<Rightarrow>
                  (case resolved_install_order fuel
                      \<lparr>fc_devcontainer_dir = devcontainer_dir,
                       fc_source = resolve_source world devcontainer_dir lock update_features\<rparr>
                      features override_order w1 of
                     None \<Rightarrow> None
                   | Some (Inl error, (_, w2)) \<Rightarrow> Some (Inl error, w2)
                   | Some (Inr entries, (resolver, w2)) \<Rightarrow>
                       Some (finish_feature_plan world lock_path resolver entries w2))))"

section \<open>What the graph holds\<close>

abbreviation graph_keys :: "feature_install_graph \<Rightarrow> string set" where
  "graph_keys graph \<equiv> set (bt_keys (fg_nodes graph))"

abbreviation graph_edges :: "feature_install_graph \<Rightarrow> string \<Rightarrow> string set" where
  "graph_edges graph \<equiv> required (fg_dependency_edges graph)"

abbreviation node :: "feature_install_graph \<Rightarrow> string \<Rightarrow> feature_install_input option" where
  "node graph key \<equiv> bt_get (fg_nodes graph) key"

text \<open>What a target is relative to: the repository of an OCI Feature.\<close>

fun reference_scope :: "feature_ref \<Rightarrow> string option" where
  "reference_scope (Local _) = None"
| "reference_scope (Oci reference) = Some (canonical_repository reference)"

lemma target_of_scope:
  "reference_scope a = reference_scope b \<Longrightarrow> dependency_feature_target a d = dependency_feature_target b d"
  by (cases a; cases b) (auto simp: dependency_feature_target_def split: sum.split)

text \<open>An input may take the place of another with the same key: they differ at most in the spelling of
  the reference and the tag.\<close>

definition alike :: "feature_install_input \<Rightarrow> feature_install_input \<Rightarrow> bool" where
  "alike a b \<longleftrightarrow> input_canonical_id a = input_canonical_id b \<and>
     reference_scope (fi_reference a) = reference_scope (fi_reference b) \<and> fi_metadata a = fi_metadata b \<and>
     options_key_text (rf_options (fi_feature a)) = options_key_text (rf_options (fi_feature b))"

lemma alike_refl [simp]: "alike a a"
  by (simp add: alike_def)

lemma alike_trans: "alike a b \<Longrightarrow> alike b c \<Longrightarrow> alike a c"
  by (simp add: alike_def)

text \<open>What the graph relies on of a resolver: its state remembers what the inputs came from, and an
  input with the key of an earlier one is alike.\<close>

definition resolver_contract ::
  "('s \<Rightarrow> bool) \<Rightarrow> ('s \<Rightarrow> feature_install_input \<Rightarrow> bool) \<Rightarrow> 's resolver \<Rightarrow> bool" where
  "resolver_contract good fits resolve_dependency \<longleftrightarrow>
     (\<forall>request s input s'. good s \<longrightarrow> fr_canonical_id request = canonical_feature_id (fr_reference request) \<longrightarrow>
        resolve_dependency request s = (Inr input, s') \<longrightarrow>
        good s' \<and> fits s' input \<and> fi_feature input = requested_feature request \<and>
        (\<forall>i. fits s i \<longrightarrow> fits s' i \<and>
           (fi_instance_key i = fi_instance_key input \<longrightarrow> alike i input \<and> \<not> reference_is_local (fi_reference i))))"

definition graph_ok :: "('s \<Rightarrow> feature_install_input \<Rightarrow> bool) \<Rightarrow> 's \<Rightarrow> feature_install_graph \<Rightarrow> bool" where
  "graph_ok fits s graph \<longleftrightarrow> bt_ok (fg_nodes graph) \<and>
     (\<forall>(key, input)\<in>set (fg_nodes graph). fi_instance_key input = key \<and> fits s input) \<and>
     (\<forall>key. graph_edges graph key \<subseteq> graph_keys graph)"

definition grows :: "feature_install_graph \<Rightarrow> feature_install_graph \<Rightarrow> bool" where
  "grows graph graph' \<longleftrightarrow>
     (\<forall>key i. node graph key = Some i \<longrightarrow> (\<exists>i'. node graph' key = Some i' \<and> alike i i' \<and>
        (reference_is_local (fi_reference i) \<longrightarrow> i' = i))) \<and>
     (\<forall>key. graph_edges graph key \<subseteq> graph_edges graph' key)"

text \<open>An entry of dependsOn is covered by an edge to a Feature with the canonical id it targets and
  the options it gives.\<close>

definition meets :: "feature_install_input \<Rightarrow> string \<times> json \<Rightarrow> feature_install_input \<Rightarrow> bool" where
  "meets input dependency candidate \<longleftrightarrow>
     (\<exists>target options. dependency_feature_target (fi_reference input) (fst dependency) = Inr target \<and>
        feature_dependency_options (input_canonical_id input) (fst dependency) (snd dependency) = Inr options \<and>
        input_canonical_id candidate = ft_canonical_id target \<and>
        options_key_text (rf_options (fi_feature candidate)) = options_key_text options)"

definition covered :: "feature_install_graph \<Rightarrow> string \<Rightarrow> string \<times> json \<Rightarrow> bool" where
  "covered graph key dependency \<longleftrightarrow>
     (\<exists>input k candidate. node graph key = Some input \<and> k \<in> graph_edges graph key \<and> node graph k = Some candidate \<and>
        meets input dependency candidate)"

lemma grows_refl [simp]: "grows graph graph"
  by (simp add: grows_def)

lemma growsD:
  assumes "grows graph graph'" "node graph key = Some i"
  obtains i' where "node graph' key = Some i'" "alike i i'" "reference_is_local (fi_reference i) \<longrightarrow> i' = i"
  using assms unfolding grows_def by blast

lemma grows_edges: "grows graph graph' \<Longrightarrow> k \<in> graph_edges graph key \<Longrightarrow> k \<in> graph_edges graph' key"
  unfolding grows_def by blast

lemma node_iff: "(\<exists>i. node graph key = Some i) \<longleftrightarrow> key \<in> graph_keys graph"
  using map_of_eq_None_iff [of "fg_nodes graph" key] by (auto simp: bt_get_def bt_keys_def)

lemma grows_keys: "grows graph graph' \<Longrightarrow> graph_keys graph \<subseteq> graph_keys graph'"
  using node_iff growsD by (metis subsetI)

lemma grows_trans:
  assumes "grows a b" "grows b c"
  shows "grows a c"
proof -
  have "\<exists>k. node c key = Some k \<and> alike i k \<and> (reference_is_local (fi_reference i) \<longrightarrow> k = i)"
    if "node a key = Some i" for key i
  proof -
    from growsD [OF assms(1) that] obtain j where j: "node b key = Some j" "alike i j"
      "reference_is_local (fi_reference i) \<longrightarrow> j = i" .
    from growsD [OF assms(2) j(1)] obtain k where "node c key = Some k" "alike j k"
      "reference_is_local (fi_reference j) \<longrightarrow> k = j" .
    with j(2,3) alike_trans show ?thesis by blast
  qed
  then show ?thesis using assms unfolding grows_def by blast
qed

lemma meets_alike: "meets input dependency candidate \<Longrightarrow> alike input input' \<Longrightarrow> alike candidate candidate' \<Longrightarrow>
    meets input' dependency candidate'"
  using target_of_scope [of "fi_reference input" "fi_reference input'"] by (auto simp: meets_def alike_def)

lemma covered_grows:
  assumes "covered graph key dependency" "grows graph graph'"
  shows "covered graph' key dependency"
proof -
  from assms(1) obtain input k candidate where c: "node graph key = Some input" "k \<in> graph_edges graph key"
    "node graph k = Some candidate" "meets input dependency candidate" unfolding covered_def by blast
  from growsD [OF assms(2) c(1)] obtain input' where i: "node graph' key = Some input'" "alike input input'" .
  from growsD [OF assms(2) c(3)] obtain candidate' where k: "node graph' k = Some candidate'" "alike candidate candidate'" .
  show ?thesis unfolding covered_def
    using i(1) k(1) grows_edges [OF assms(2) c(2)] meets_alike [OF c(4) i(2) k(2)] by blast
qed

lemma graph_edges_add:
  "graph_edges (add_dependency_edge graph parent key) k =
     (if k = parent then insert key (graph_edges graph k) else graph_edges graph k)"
  by (auto simp: required_def add_dependency_edge_def Let_def bt_get_insert set_insort_insert split: option.splits)

lemma add_edge_nodes [simp]: "fg_nodes (add_dependency_edge graph parent key) = fg_nodes graph"
  by (simp add: add_dependency_edge_def Let_def)

lemma set_bt_keys_insert: "set (bt_keys (bt_insert k v m)) = insert k (set (bt_keys m))"
  by (simp add: bt_keys_def fst_set_bt_insert)

lemma bt_contains_key_iff: "bt_contains_key m k \<longleftrightarrow> k \<in> set (bt_keys m)"
  by (simp add: bt_contains_key_def bt_get_def bt_keys_def map_of_eq_None_iff)

lemma target_canonical:
  assumes "dependency_feature_target parent dependency = Inr target"
  shows "ft_canonical_id target = canonical_feature_id (ft_reference target)"
proof -
  have "ref_canonical_id r = canonical_feature_id x" if "parse_feature_ref x = Inr r" for x r
    using canonical_agrees [OF that] by simp
  then show ?thesis using assms
    by (auto simp: dependency_feature_target_def Let_def result_elims split: if_splits sum.splits feature_ref.splits)
qed

text \<open>The requests that a parent makes, up to the names in the messages.\<close>

type_synonym request_key = "string \<times> string \<times> (string, toml) btree_map"

definition request_key :: "feature_dependency_request \<Rightarrow> request_key" where
  "request_key request = (fr_reference request, fr_canonical_id request, fr_options request)"

definition requests :: "feature_install_input \<Rightarrow> request_key set" where
  "requests input = {(ft_reference target, ft_canonical_id target, options) | target options.
     \<exists>(dependency, v)\<in>set (fm_depends_on (fi_metadata input)).
       dependency_feature_target (fi_reference input) dependency = Inr target \<and>
       feature_dependency_options (input_canonical_id input) dependency v = Inr options}"

lemma requests_alike: "alike a b \<Longrightarrow> requests a = requests b"
  using target_of_scope [of "fi_reference a" "fi_reference b"] by (simp add: requests_def alike_def)

text \<open>One dependency of the Feature that is scanned: either an existing node covers it, or the resolver
  is asked and its answer covers it.\<close>

definition scanned :: "feature_dependency_scan \<Rightarrow> feature_install_graph \<Rightarrow> bool" where
  "scanned scan graph \<longleftrightarrow>
     (\<exists>input. node graph (fs_parent_instance_key scan) = Some input \<and>
        fs_parent_canonical_id scan = input_canonical_id input \<and>
        reference_scope (fs_parent_reference scan) = reference_scope (fi_reference input) \<and>
        fs_dependencies scan = fm_depends_on (fi_metadata input))"

lemma scanned_grows: "scanned scan graph \<Longrightarrow> grows graph graph' \<Longrightarrow> scanned scan graph'"
proof -
  assume scan: "scanned scan graph" and grows: "grows graph graph'"
  from scan obtain input where input: "node graph (fs_parent_instance_key scan) = Some input"
    "fs_parent_canonical_id scan = input_canonical_id input"
    "reference_scope (fs_parent_reference scan) = reference_scope (fi_reference input)"
    "fs_dependencies scan = fm_depends_on (fi_metadata input)" unfolding scanned_def by blast
  from growsD [OF grows input(1)] obtain input' where "node graph' (fs_parent_instance_key scan) = Some input'"
    "alike input input'" .
  with input(2-4) show ?thesis by (auto simp: scanned_def alike_def)
qed

lemma existing_instance:
  assumes "find_existing_feature_instance nodes id' reference options = Some key"
  shows "\<exists>input. (key, input) \<in> set nodes \<and> input_canonical_id input = id' \<and>
    options_key_text (rf_options (fi_feature input)) = options_key_text options"
  using assms
proof -
  obtain input where found: "List.find (\<lambda>(_, input). input_canonical_id input = id' \<and>
       feature_reference_matches input reference \<and>
       feature_options_sort_key (rf_options (fi_feature input)) = feature_options_sort_key options) nodes = Some (key, input)"
    using assms unfolding find_existing_feature_instance_def by auto
  from find_Some_iff2 [OF found] show ?thesis by (intro exI [of _ input]) (simp add: options_key_text_def)
qed

text \<open>The outcome of a step: nothing new, or the answer of the resolver to a request.\<close>

definition asked ::
  "'s resolver \<Rightarrow> feature_install_graph \<Rightarrow> 's \<Rightarrow> request_key \<Rightarrow> feature_install_input \<Rightarrow> 's \<Rightarrow> bool" where
  "asked resolve_dependency graph s key input s' \<longleftrightarrow>
     (\<exists>request. request_key request = key \<and> fr_canonical_id request = canonical_feature_id (fr_reference request) \<and>
        find_existing_feature_instance (fg_nodes graph) (fr_canonical_id request) (fr_reference request)
          (fr_options request) = None \<and>
        resolve_dependency request s = (Inr input, s'))"

lemma graph_ok_fits:
  assumes "graph_ok fits s graph" "node graph key = Some i"
  shows "fi_instance_key i = key" "fits s i"
  using assms(1) bt_get_SomeD [OF assms(2)] by (auto simp: graph_ok_def)

lemma contract_step:
  assumes "resolver_contract good fits resolve_dependency" "good s"
    and "fr_canonical_id request = canonical_feature_id (fr_reference request)"
    and "resolve_dependency request s = (Inr input, s')"
  shows "good s'" "fits s' input" "fi_feature input = requested_feature request" "fits s i \<Longrightarrow> fits s' i"
    and "fits s i \<Longrightarrow> fi_instance_key i = fi_instance_key input \<Longrightarrow> alike i input"
    and "fits s i \<Longrightarrow> fi_instance_key i = fi_instance_key input \<Longrightarrow> \<not> reference_is_local (fi_reference i)"
  using assms unfolding resolver_contract_def by blast+

lemma resolved_dependency:
  assumes "resolver_contract good fits resolve_dependency" "good s"
    and "fr_canonical_id request = canonical_feature_id (fr_reference request)"
    and "resolved_dependency_input resolve_dependency request s = (Inr input, s')"
  shows "resolve_dependency request s = (Inr input, s')"
proof -
  from assms(4) obtain found where found: "resolve_dependency request s = (Inr found, s')"
    by (auto simp: resolved_dependency_input_def io_elims io_return_def io_fail_def Let_def split: if_splits)
  have "fi_feature found = requested_feature request" by (rule contract_step(3) [OF assms(1-3) found])
  then have "rf_options (fi_feature found) = fr_options request" "input_canonical_id found = fr_canonical_id request"
    by (simp_all add: requested_feature_def)
  with assms(4) found have "input = found"
    by (auto simp: resolved_dependency_input_def io_bind_def io_map_err_def io_return_def)
  with found show ?thesis by simp
qed

text \<open>How the graph and the queue change in a step.\<close>

definition extends ::
  "'s resolver \<Rightarrow> feature_install_input \<Rightarrow> feature_install_graph \<Rightarrow> string list \<Rightarrow> 's \<Rightarrow>
   feature_install_graph \<Rightarrow> string list \<Rightarrow> 's \<Rightarrow> bool" where
  "extends resolve_dependency parent graph scan_queue s graph' scan_queue' s' \<longleftrightarrow>
     (s' = s \<and> scan_queue' = scan_queue \<and> fg_nodes graph' = fg_nodes graph) \<or>
     (\<exists>rk input. rk \<in> requests parent \<and> asked resolve_dependency graph s rk input s' \<and>
        fg_nodes graph' = bt_insert (fi_instance_key input) input (fg_nodes graph) \<and>
        scan_queue' = (if fi_instance_key input \<in> graph_keys graph then scan_queue
          else scan_queue @ [fi_instance_key input]))"

lemma dependency_step:
  assumes contract: "resolver_contract good fits resolve_dependency" and good: "good s"
    and ok: "graph_ok fits s graph" and scan: "scanned scan graph"
    and pending: "pending \<in> set (fs_dependencies scan)"
    and parent: "node graph (fs_parent_instance_key scan) = Some parent"
    and step: "resolve_feature_dependency resolve_dependency scan (graph, scan_queue) pending s = (Inr (graph', scan_queue'), s')"
  shows "good s'" "graph_ok fits s' graph'" "grows graph graph'" "covered graph' (fs_parent_instance_key scan) pending"
    and "extends resolve_dependency parent graph scan_queue s graph' scan_queue' s'"
proof -
  let ?parent = "fs_parent_instance_key scan"
  obtain dependency v where p: "pending = (dependency, v)" by (cases pending)
  have id: "fs_parent_canonical_id scan = input_canonical_id parent"
    "reference_scope (fs_parent_reference scan) = reference_scope (fi_reference parent)"
    "fs_dependencies scan = fm_depends_on (fi_metadata parent)"
    using scan parent by (auto simp: scanned_def)
  from step obtain target options where
    target: "dependency_feature_target (fi_reference parent) dependency = Inr target" and
    options: "feature_dependency_options (input_canonical_id parent) dependency v = Inr options"
    by (auto simp: resolve_feature_dependency_def io_elims p id(1) target_of_scope [OF id(2)])
  have rk: "(ft_reference target, ft_canonical_id target, options) \<in> requests parent"
    using pending target options by (force simp: requests_def p id(3))
  let ?existing = "find_existing_feature_instance (fg_nodes graph) (ft_canonical_id target) (ft_reference target) options"
  have "good s' \<and> graph_ok fits s' graph' \<and> grows graph graph' \<and> covered graph' ?parent pending \<and>
    extends resolve_dependency parent graph scan_queue s graph' scan_queue' s'"
  proof (cases ?existing)
    case (Some key)
    then have graph': "graph' = add_dependency_edge graph ?parent key" "scan_queue' = scan_queue" "s' = s"
      using step target options
      by (auto simp: resolve_feature_dependency_def io_elims p id(1) target_of_scope [OF id(2)])
    from existing_instance [OF Some] obtain input where input: "(key, input) \<in> set (fg_nodes graph)"
      "input_canonical_id input = ft_canonical_id target"
      "options_key_text (rf_options (fi_feature input)) = options_key_text options" by blast
    have node: "node graph key = Some input"
      using input(1) ok bt.get_entries [of "fg_nodes graph"] by (simp add: graph_ok_def)
    then have "key \<in> graph_keys graph" using node_iff by blast
    moreover have "covered graph' ?parent pending"
      unfolding covered_def
    proof (intro exI conjI)
      show "meets parent pending input" using target options input(2,3) by (simp add: meets_def p)
      show "node graph' ?parent = Some parent" "node graph' key = Some input" using parent node by (simp_all add: graph'(1))
      show "key \<in> graph_edges graph' ?parent" by (simp add: graph'(1) graph_edges_add)
    qed
    ultimately show ?thesis using ok good unfolding extends_def
      by (auto simp: graph' graph_ok_def grows_def graph_edges_add)
  next
    case None
    define request where "request = \<lparr>fr_parent_canonical_id = fs_parent_canonical_id scan, fr_dependency = dependency,
               fr_reference = ft_reference target, fr_canonical_id = ft_canonical_id target, fr_options = options\<rparr>"
    from None step target options obtain input where
      found: "resolved_dependency_input resolve_dependency request s = (Inr input, s')"
      and graph': "graph' = (add_dependency_edge graph ?parent (fi_instance_key input))
          \<lparr>fg_nodes := bt_insert (fi_instance_key input) input (fg_nodes graph)\<rparr>"
      and queue': "scan_queue' = (if bt_contains_key (fg_nodes graph) (fi_instance_key input) then scan_queue
          else scan_queue @ [fi_instance_key input])"
      by (auto simp: resolve_feature_dependency_def io_elims Let_def request_def p id(1) target_of_scope [OF id(2)])
    have canonical: "fr_canonical_id request = canonical_feature_id (fr_reference request)"
      using target_canonical [OF target] by (simp add: request_def)
    note asked = resolved_dependency [OF contract good canonical found]
    note c = contract_step [OF contract good canonical asked]
    let ?key = "fi_instance_key input"
    have nodes: "fg_nodes graph' = bt_insert ?key input (fg_nodes graph)" by (simp add: graph')
    have node': "node graph' k = (if k = ?key then Some input else node graph k)" for k
      by (simp add: nodes bt_get_insert)
    have edges: "graph_edges graph' k = (if k = ?parent then insert ?key (graph_edges graph k) else graph_edges graph k)" for k
      by (simp add: graph' graph_edges_add)
    have grows: "grows graph graph'"
      unfolding grows_def
    proof (intro conjI allI impI)
      fix key i assume i: "node graph key = Some i"
      have "alike i input \<and> \<not> reference_is_local (fi_reference i)" if "key = ?key"
        using c(5,6) [OF graph_ok_fits(2) [OF ok i]] graph_ok_fits(1) [OF ok i] that by simp
      then show "\<exists>i'. node graph' key = Some i' \<and> alike i i' \<and> (reference_is_local (fi_reference i) \<longrightarrow> i' = i)"
        using i by (simp add: node')
    qed (auto simp: edges)
    have keys: "graph_keys graph' = insert ?key (graph_keys graph)" by (simp add: nodes set_bt_keys_insert)
    have graph_ok: "graph_ok fits s' graph'"
    proof -
      have bt: "bt_ok (fg_nodes graph)" using ok by (simp add: graph_ok_def)
      have "fi_instance_key i = k \<and> fits s' i" if "(k, i) \<in> set (fg_nodes graph')" for k i
        using that bt.entries_insert [OF bt, of ?key input] c(2) c(4) [of i] ok by (auto simp: nodes graph_ok_def)
      moreover have "bt_ok (fg_nodes graph')" by (simp add: nodes bt_ok_insert [OF bt])
      ultimately show ?thesis using ok keys edges by (auto simp: graph_ok_def)
    qed
    have "covered graph' ?parent pending"
    proof -
      from growsD [OF grows parent] obtain parent' where parent': "node graph' ?parent = Some parent'" "alike parent parent'" .
      have "meets parent pending input"
        using target options c(3) by (auto simp: meets_def p requested_feature_def request_def)
      from meets_alike [OF this parent'(2) alike_refl] parent'(1) show ?thesis
        unfolding covered_def by (intro exI [of _ parent'] exI [of _ ?key] exI [of _ input]) (simp add: edges node')
    qed
    moreover have "asked resolve_dependency graph s (ft_reference target, ft_canonical_id target, options) input s'"
      unfolding asked_def using asked canonical None by (intro exI [of _ request]) (simp add: request_key_def request_def)
    ultimately show ?thesis
      using c(1) graph_ok grows rk nodes queue' unfolding extends_def bt_contains_key_iff by blast
  qed
  then show "good s'" "graph_ok fits s' graph'" "grows graph graph'" "covered graph' ?parent pending"
    "extends resolve_dependency parent graph scan_queue s graph' scan_queue' s'" by blast+
qed

text \<open>A key that is new in the graph is in the queue.\<close>

definition enqueued :: "feature_install_graph \<Rightarrow> string list \<Rightarrow> feature_install_graph \<Rightarrow> string list \<Rightarrow> bool" where
  "enqueued graph scan_queue graph' scan_queue' \<longleftrightarrow> set scan_queue \<subseteq> set scan_queue' \<and>
     graph_keys graph' \<subseteq> graph_keys graph \<union> set scan_queue' \<and>
     set scan_queue' \<subseteq> set scan_queue \<union> graph_keys graph'"

lemma enqueued_refl: "enqueued graph q graph q"
  by (auto simp: enqueued_def)

lemma enqueued_trans: "enqueued a p b q \<Longrightarrow> enqueued b q c r \<Longrightarrow> grows b c \<Longrightarrow> enqueued a p c r"
  using grows_keys [of b c] unfolding enqueued_def by blast

lemma extends_enqueued: "extends resolve_dependency parent graph q s graph' q' s' \<Longrightarrow> enqueued graph q graph' q'"
  by (auto simp: extends_def enqueued_def set_bt_keys_insert split: if_splits)

lemma dependencies_fold:
  assumes contract: "resolver_contract good fits resolve_dependency" and "good s" "graph_ok fits s graph" "scanned scan graph"
    and "set ds \<subseteq> set (fs_dependencies scan)"
    and "io_fold (resolve_feature_dependency resolve_dependency scan) (graph, scan_queue) ds s = (Inr (graph', scan_queue'), s')"
  shows "good s' \<and> graph_ok fits s' graph' \<and> grows graph graph' \<and>
    (\<forall>d\<in>set ds. covered graph' (fs_parent_instance_key scan) d) \<and> enqueued graph scan_queue graph' scan_queue'"
  using assms(2-6)
proof (induction ds arbitrary: graph scan_queue s)
  case Nil
  then show ?case by (auto simp: io_elims enqueued_refl)
next
  case (Cons d ds)
  from Cons.prems(5) obtain graph1 queue1 s1 where
    1: "resolve_feature_dependency resolve_dependency scan (graph, scan_queue) d s = (Inr (graph1, queue1), s1)" and
    2: "io_fold (resolve_feature_dependency resolve_dependency scan) (graph1, queue1) ds s1 = (Inr (graph', scan_queue'), s')"
    by (auto simp: io_elims)
  obtain parent where parent: "node graph (fs_parent_instance_key scan) = Some parent"
    using Cons.prems(3) by (auto simp: scanned_def)
  have d: "d \<in> set (fs_dependencies scan)" using Cons.prems(4) by simp
  note step = dependency_step [OF contract Cons.prems(1-3) d parent 1]
  have rest: "good s' \<and> graph_ok fits s' graph' \<and> grows graph1 graph' \<and>
    (\<forall>d\<in>set ds. covered graph' (fs_parent_instance_key scan) d) \<and> enqueued graph1 queue1 graph' scan_queue'"
    using Cons.prems(4) by (intro Cons.IH [OF step(1,2) scanned_grows [OF Cons.prems(3) step(3)] _ 2]) simp
  then have "covered graph' (fs_parent_instance_key scan) d" using step(4) covered_grows by blast
  moreover have "enqueued graph scan_queue graph' scan_queue'"
    using rest extends_enqueued [OF step(5)] enqueued_trans by blast
  moreover have "grows graph graph'" using step(3) rest grows_trans by blast
  ultimately show ?case using rest by simp
qed

text \<open>The invariant of the queue: whatever left it has all its dependencies in the graph.\<close>

definition scan_inv ::
  "('s \<Rightarrow> feature_install_input \<Rightarrow> bool) \<Rightarrow> 's \<Rightarrow> feature_install_graph \<Rightarrow> string list \<Rightarrow> bool" where
  "scan_inv fits s graph scan_queue \<longleftrightarrow> graph_ok fits s graph \<and> set scan_queue \<subseteq> graph_keys graph \<and>
     (\<forall>key input. node graph key = Some input \<longrightarrow> key \<notin> set scan_queue \<longrightarrow>
        (\<forall>d\<in>set (fm_depends_on (fi_metadata input)). covered graph key d))"

lemma scan_parts:
  assumes "scan_feature resolve_dependency (graph, scan_queue) key s = (Inr state, s')"
  obtains scan where "scanned scan graph" "fs_parent_instance_key scan = key"
    "io_fold (resolve_feature_dependency resolve_dependency scan) (graph, scan_queue) (fs_dependencies scan) s = (Inr state, s')"
proof -
  from assms obtain scan where scan: "dependency_scan graph key = Inr scan"
    "io_fold (resolve_feature_dependency resolve_dependency scan) (graph, scan_queue) (fs_dependencies scan) s = (Inr state, s')"
    by (auto simp: scan_feature_def io_elims)
  from scan(1) obtain input where "node graph key = Some input"
    "scan = \<lparr>fs_parent_instance_key = key, fs_parent_canonical_id = input_canonical_id input,
       fs_parent_reference = fi_reference input, fs_dependencies = fm_depends_on (fi_metadata input)\<rparr>"
    by (auto simp: dependency_scan_def result_elims)
  then have "scanned scan graph" "fs_parent_instance_key scan = key" by (simp_all add: scanned_def)
  with scan(2) show ?thesis using that by blast
qed

lemma scan_step:
  assumes contract: "resolver_contract good fits resolve_dependency" and good: "good s"
    and inv: "scan_inv fits s graph (key # scan_queue)"
    and step: "scan_feature resolve_dependency (graph, scan_queue) key s = (Inr (graph', scan_queue'), s')"
  shows "good s' \<and> scan_inv fits s' graph' scan_queue' \<and> grows graph graph'"
proof -
  from inv have ok: "graph_ok fits s graph" by (simp add: scan_inv_def)
  from scan_parts [OF step] obtain scan where scan: "scanned scan graph" "fs_parent_instance_key scan = key"
    and fold: "io_fold (resolve_feature_dependency resolve_dependency scan) (graph, scan_queue) (fs_dependencies scan) s =
      (Inr (graph', scan_queue'), s')" .
  note result = dependencies_fold [OF contract good ok scan(1) subset_refl fold]
  then have grows: "grows graph graph'" and enqueued: "enqueued graph scan_queue graph' scan_queue'" by blast+
  have "set scan_queue' \<subseteq> graph_keys graph'"
    using enqueued grows_keys [OF grows] inv by (auto simp: scan_inv_def enqueued_def)
  moreover have "covered graph' k d"
    if k: "node graph' k = Some input'" "k \<notin> set scan_queue'" and d: "d \<in> set (fm_depends_on (fi_metadata input'))"
    for k input' d
  proof (cases "k = key")
    case True
    have "scanned scan graph'" by (rule scanned_grows [OF scan(1) grows])
    then have "fs_dependencies scan = fm_depends_on (fi_metadata input')"
      using k(1) True scan(2) by (simp add: scanned_def)
    then show ?thesis using result d True scan(2) by simp
  next
    case False
    have "k \<in> graph_keys graph'" using k(1) node_iff by blast
    then have "k \<in> graph_keys graph" using enqueued k(2) by (auto simp: enqueued_def)
    then obtain input where input: "node graph k = Some input" using node_iff by blast
    from growsD [OF grows input] obtain i where i: "node graph' k = Some i" "alike input i" .
    then have "d \<in> set (fm_depends_on (fi_metadata input))" using k(1) d by (simp add: alike_def)
    moreover have "k \<notin> set (key # scan_queue)" using False k(2) enqueued by (auto simp: enqueued_def)
    ultimately have "covered graph k d" using inv input by (auto simp: scan_inv_def)
    then show ?thesis using grows covered_grows by blast
  qed
  ultimately show ?thesis using result by (auto simp: scan_inv_def)
qed


lemma new_graph_ok:
  assumes "\<forall>input\<in>set inputs. fits s input"
  shows "scan_inv fits s (new_graph inputs) (bt_keys (fg_nodes (new_graph inputs)))"
    and "graph_keys (new_graph inputs) = fi_instance_key ` set inputs"
proof -
  let ?step = "\<lambda>nodes input. if bt_contains_key nodes (fi_instance_key input) then nodes
      else bt_insert (fi_instance_key input) input nodes"
  have "bt_ok (foldl ?step nodes inputs) \<and>
      (\<forall>(key, input)\<in>set (foldl ?step nodes inputs). fi_instance_key input = key \<and> fits s input) \<and>
      set (bt_keys (foldl ?step nodes inputs)) = set (bt_keys nodes) \<union> fi_instance_key ` set inputs"
    if "bt_ok nodes" "\<forall>(key, input)\<in>set nodes. fi_instance_key input = key \<and> fits s input" for nodes
    using that assms
  proof (induction inputs arbitrary: nodes)
    case (Cons input inputs)
    show ?case
    proof (cases "bt_contains_key nodes (fi_instance_key input)")
      case True
      with Cons show ?thesis by (auto simp: bt_contains_key_iff insert_absorb)
    next
      case False
      have "bt_ok (bt_insert (fi_instance_key input) input nodes)" using Cons.prems(1) by (rule bt_ok_insert)
      moreover have "\<forall>(key, i)\<in>set (bt_insert (fi_instance_key input) input nodes). fi_instance_key i = key \<and> fits s i"
        using Cons.prems bt.entries_insert [OF Cons.prems(1), of "fi_instance_key input" input] by auto
      ultimately show ?thesis using Cons.IH [of "bt_insert (fi_instance_key input) input nodes"] Cons.prems(3) False
        by (simp add: set_bt_keys_insert)
    qed
  qed simp
  from this [of "[]"] have nodes: "bt_ok (fg_nodes (new_graph inputs))"
      "\<forall>(key, input)\<in>set (fg_nodes (new_graph inputs)). fi_instance_key input = key \<and> fits s input"
      "graph_keys (new_graph inputs) = fi_instance_key ` set inputs"
    by (simp_all add: new_graph_def bt_keys_def)
  from nodes(3) show "graph_keys (new_graph inputs) = fi_instance_key ` set inputs" .
  have "key \<in> graph_keys (new_graph inputs)" if "node (new_graph inputs) key = Some i" for key i
    using that node_iff by blast
  moreover have "graph_edges (new_graph inputs) key = {}" for key
    by (simp add: new_graph_def required_def bt_get_def)
  ultimately show "scan_inv fits s (new_graph inputs) (bt_keys (fg_nodes (new_graph inputs)))"
    using nodes(1,2) by (auto simp: scan_inv_def graph_ok_def)
qed












section \<open>The resolver keeps the contract\<close>

text \<open>A digest identifies the contents of a Feature, and thereby its metadata.\<close>

definition content_addressed :: "(feature_ref \<Rightarrow> ('w, string, feature_source) io) \<Rightarrow> bool" where
  "content_addressed source_of \<longleftrightarrow>
     (\<forall>reference w source w'. source_of reference w = (Inr source, w') \<longrightarrow>
        CHR 0x1E \<notin> set (so_digest source) \<and>
        (\<forall>other v found v'. source_of other v = (Inr found, v') \<longrightarrow> so_digest found = so_digest source \<longrightarrow>
           so_metadata found = so_metadata source))"

definition resolver_good :: "'w feature_context \<Rightarrow> feature_resolver \<times> 'w \<Rightarrow> bool" where
  "resolver_good ctx state \<longleftrightarrow>
     (\<forall>key source. bt_get (re_sources (fst state)) key = Some source \<longrightarrow>
        (\<exists>id' reference w w'. parse_feature_ref_from_devcontainer_dir id' (fc_devcontainer_dir ctx) = Inr reference \<and>
           feature_source_key reference = key \<and> fc_source ctx reference w = (Inr source, w')))"

definition resolver_fits :: "'w feature_context \<Rightarrow> feature_resolver \<times> 'w \<Rightarrow> feature_install_input \<Rightarrow> bool" where
  "resolver_fits ctx state input \<longleftrightarrow>
     parse_feature_ref_from_devcontainer_dir (rf_id (fi_feature input)) (fc_devcontainer_dir ctx) = Inr (fi_reference input) \<and>
     input_canonical_id input = canonical_feature_id (rf_id (fi_feature input)) \<and>
     (\<exists>source local_instance. bt_get (re_sources (fst state)) (feature_source_key (fi_reference input)) = Some source \<and>
        input = resolved_input (fi_feature input) (fi_reference input) source local_instance \<and>
        (if reference_is_local (fi_reference input)
         then \<exists>n<re_next_local_instance (fst state). local_instance = Some n else local_instance = None))"

text \<open>The parts of a key are separated by a character that is in none of them.\<close>

lemma separated: "x \<notin> set a \<Longrightarrow> x \<notin> set b \<Longrightarrow> a @ x # c = b @ x # d \<longleftrightarrow> a = b \<and> c = d"
  by (induction a arbitrary: b) (case_tac b; auto)+

lemma separated_last:
  assumes "x \<notin> set c" "x \<notin> set d" "a @ x # c = b @ x # d"
  shows "c = d"
proof -
  have "rev c @ x # rev a = rev d @ x # rev b"
    using assms(3) by (metis append_assoc append_Cons append_Nil rev.simps(2) rev_append)
  then show ?thesis using separated [of x "rev c" "rev d" "rev a" "rev b"] assms(1,2) by simp
qed

lemma oci_instance_key: "feature_instance_key feature reference digest None =
    ''oci'' @ CHR 0x1E # rf_canonical_id feature @ CHR 0x1E # digest @ CHR 0x1E # options_key_text (rf_options feature)"
  by (simp add: feature_instance_key_def fmt_def record_separator_def Let_def)

lemma local_instance_key: "\<exists>t. feature_instance_key feature (Local r) digest (Some n) = ''local'' @ t @ CHR 0x1E # show_nat n"
  by (simp add: feature_instance_key_def fmt_def record_separator_def Let_def)

lemma separator_not_in_nat: "CHR 0x1E \<notin> set (show_nat n)"
  by (rule non_digit_not_in_show) (simp add: is_ascii_digit_def)

lemma oci_reference_parses:
  assumes "parse_feature_ref_from_devcontainer_dir id' dir = Inr (Oci r)"
  shows "parse_oci_feature_ref id' = Inr r" "parse_feature_ref id' = Inr (Oci r)"
  using assms
  by (auto simp: parse_feature_ref_from_devcontainer_dir_def parse_feature_ref_def result_elims split: if_splits)

lemma oci_canonical:
  assumes "parse_feature_ref_from_devcontainer_dir id' dir = Inr (Oci r)"
  shows "oci_canonical_id r = canonical_feature_id id'"
  using canonical_agrees [OF oci_reference_parses(2) [OF assms]] by simp

lemma canonical_parts:
  assumes "parse_oci_feature_ref id' = Inr r"
  shows "CHR 0x1E \<notin> set (oci_canonical_id r)"
    and "oci_canonical_id r = canonical_repository r @ CHR ''/'' # oci_feature_id r" "CHR ''/'' \<notin> set (oci_feature_id r)"
proof -
  obtain registry repository feature_id tag digest where
    parts: "reference_parts id' registry repository feature_id tag digest"
    and r: "r = build_reference id' registry repository feature_id tag digest" using parts_of_parse [OF assms] .
  note facts = parts_facts [OF parts]
  have tag: "\<not> is_tag_char CHR 0x1E" by (simp add: is_tag_char_def is_ascii_alphanumeric_def)
  have "has_control_or_space s" if "CHR 0x1E \<in> set s" for s
    using that by (induction s) (auto simp: is_ascii_control_or_space_def)
  then have "CHR 0x1E \<notin> set registry"
    using facts(1) [of "[]"] by (auto simp: validate_oci_feature_registry_def split: if_splits)
  moreover have "CHR 0x1E \<notin> set repository" using path_chars [OF facts(2) [of "[]"]] tag by auto
  moreover have "CHR 0x1E \<notin> set feature_id" using component_chars [OF facts(3) [of "[]"]] tag by auto
  moreover have "lower_char c = CHR 0x1E \<longleftrightarrow> c = CHR 0x1E" for c by (rule lower_char_eq) simp
  ultimately show "CHR 0x1E \<notin> set (oci_canonical_id r)"
    by (simp add: r build_reference_def in_lower)
  show "oci_canonical_id r = canonical_repository r @ CHR ''/'' # oci_feature_id r"
    by (simp add: r build_reference_def canonical_repository_def fmt_def)
  show "CHR ''/'' \<notin> set (oci_feature_id r)" using facts(5) by (simp add: r build_reference_def in_lower)
qed

lemma fits_source:
  assumes "resolver_fits ctx state input"
  obtains source local_instance where
    "bt_get (re_sources (fst state)) (feature_source_key (fi_reference input)) = Some source"
    "input = resolved_input (fi_feature input) (fi_reference input) source local_instance"
    "if reference_is_local (fi_reference input)
     then \<exists>n<re_next_local_instance (fst state). local_instance = Some n else local_instance = None"
  using assms unfolding resolver_fits_def by blast

lemma fits_fields:
  assumes "resolver_fits ctx state input"
  shows "parse_feature_ref_from_devcontainer_dir (rf_id (fi_feature input)) (fc_devcontainer_dir ctx) = Inr (fi_reference input)"
    and "input_canonical_id input = canonical_feature_id (rf_id (fi_feature input))"
  using assms by (simp_all add: resolver_fits_def)

text \<open>OCI Features with the same key.\<close>

lemma oci_inputs_alike:
  assumes content: "content_addressed (fc_source ctx)" and good: "resolver_good ctx state"
    and fits: "resolver_fits ctx state a" "resolver_fits ctx state b"
    and oci: "fi_reference a = Oci r" "fi_reference b = Oci q"
    and key: "fi_instance_key a = fi_instance_key b"
  shows "alike a b"
proof -
  from fits_source [OF fits(1)] oci(1) obtain source where a:
    "bt_get (re_sources (fst state)) (feature_source_key (Oci r)) = Some source"
    "a = resolved_input (fi_feature a) (Oci r) source None" by auto
  from fits_source [OF fits(2)] oci(2) obtain found where b:
    "bt_get (re_sources (fst state)) (feature_source_key (Oci q)) = Some found"
    "b = resolved_input (fi_feature b) (Oci q) found None" by auto
  note pa = fits_fields [OF fits(1), unfolded oci(1)] and pb = fits_fields [OF fits(2), unfolded oci(2)]
  note ra = canonical_parts [OF oci_reference_parses(1) [OF pa(1)]]
  note rb = canonical_parts [OF oci_reference_parses(1) [OF pb(1)]]
  have ca: "input_canonical_id a = oci_canonical_id r" and cb: "input_canonical_id b = oci_canonical_id q"
    using pa pb oci_canonical [OF pa(1)] oci_canonical [OF pb(1)] by simp_all
  from good a(1) obtain r' w w' where sa: "fc_source ctx r' w = (Inr source, w')" unfolding resolver_good_def by blast
  from good b(1) obtain q' v v' where sb: "fc_source ctx q' v = (Inr found, v')" unfolding resolver_good_def by blast
  have digests: "CHR 0x1E \<notin> set (so_digest source)" "CHR 0x1E \<notin> set (so_digest found)"
    using content sa sb unfolding content_addressed_def by blast+
  have "fi_instance_key a = ''oci'' @ CHR 0x1E # input_canonical_id a @ CHR 0x1E # so_digest source @
      CHR 0x1E # options_key_text (rf_options (fi_feature a))"
    using arg_cong [OF a(2), of fi_instance_key] by (simp add: resolved_input_def oci_instance_key)
  moreover have "fi_instance_key b = ''oci'' @ CHR 0x1E # input_canonical_id b @ CHR 0x1E # so_digest found @
      CHR 0x1E # options_key_text (rf_options (fi_feature b))"
    using arg_cong [OF b(2), of fi_instance_key] by (simp add: resolved_input_def oci_instance_key)
  ultimately have same: "oci_canonical_id r = oci_canonical_id q" "so_digest source = so_digest found"
    "options_key_text (rf_options (fi_feature a)) = options_key_text (rf_options (fi_feature b))"
    using key ra(1) rb(1) digests by (simp_all add: ca cb separated)
  have "canonical_repository r = canonical_repository q"
  proof -
    have "rev (oci_feature_id r) @ CHR ''/'' # rev (canonical_repository r) =
        rev (oci_feature_id q) @ CHR ''/'' # rev (canonical_repository q)"
      using arg_cong [OF same(1), of rev] by (simp add: ra(2) rb(2))
    then show ?thesis using separated [of "CHR ''/''" "rev (oci_feature_id r)" "rev (oci_feature_id q)"] ra(3) rb(3) by simp
  qed
  moreover have "so_metadata source = so_metadata found"
    using content sa sb same(2) unfolding content_addressed_def by metis
  moreover have "fi_metadata a = so_metadata source" "fi_metadata b = so_metadata found"
    using arg_cong [OF a(2), of fi_metadata] arg_cong [OF b(2), of fi_metadata] by (simp_all add: resolved_input_def)
  ultimately show ?thesis using same by (simp add: alike_def oci ca cb)
qed

text \<open>The outcome of \<open>resolve_input\<close>.\<close>

lemma resolve_input_cases:
  assumes "resolve_input ctx feature state = (Inr input, state')"
  obtains reference local_instance resolver source where
    "parse_feature_ref_from_devcontainer_dir (rf_id feature) (fc_devcontainer_dir ctx) = Inr reference"
    "take_local_instance reference (fst state) = (local_instance, resolver)"
    "input = resolved_input feature reference source local_instance"
    "bt_get (re_sources (fst state)) (feature_source_key reference) = Some source \<and> state' = (resolver, snd state) \<or>
     bt_get (re_sources (fst state)) (feature_source_key reference) = None \<and>
       (\<exists>w'. fc_source ctx reference (snd state) = (Inr source, w') \<and>
          state' = (resolver\<lparr>re_sources := bt_insert (feature_source_key reference) source (re_sources (fst state))\<rparr>, w'))"
proof -
  from assms obtain reference where
    parsed: "parse_feature_ref_from_devcontainer_dir (rf_id feature) (fc_devcontainer_dir ctx) = Inr reference"
    by (cases "parse_feature_ref_from_devcontainer_dir (rf_id feature) (fc_devcontainer_dir ctx)")
      (auto simp: resolve_input_def)
  obtain local_instance resolver where local: "take_local_instance reference (fst state) = (local_instance, resolver)"
    by fastforce
  have sources: "re_sources resolver = re_sources (fst state)"
    using local by (auto simp: take_local_instance_def split: if_splits)
  show ?thesis
  proof (cases "bt_get (re_sources (fst state)) (feature_source_key reference)")
    case (Some source)
    then show ?thesis using that [OF parsed local, of source] assms parsed local sources
      by (auto simp: resolve_input_def)
  next
    case None
    obtain r w' where run: "fc_source ctx reference (snd state) = (r, w')" by fastforce
    then obtain source where "r = Inr source" using assms parsed local sources None
      by (cases r) (auto simp: resolve_input_def)
    then show ?thesis using that [OF parsed local, of source] assms parsed local sources None run
      by (auto simp: resolve_input_def)
  qed
qed

lemma take_local_instance_next:
  assumes "take_local_instance reference resolver = (local_instance, resolver')"
  shows "re_sources resolver' = re_sources resolver"
    and "re_next_local_instance resolver \<le> re_next_local_instance resolver'"
    and "if reference_is_local reference
      then local_instance = Some (re_next_local_instance resolver) \<and>
        re_next_local_instance resolver' = re_next_local_instance resolver + 1
      else local_instance = None"
  using assms by (auto simp: take_local_instance_def split: if_splits)

lemma resolve_input_sources:
  assumes "resolve_input ctx feature state = (Inr input, state')"
  shows "bt_get (re_sources (fst state)) key = Some source \<Longrightarrow> bt_get (re_sources (fst state')) key = Some source"
    and "re_next_local_instance (fst state) \<le> re_next_local_instance (fst state')"
proof -
  have "(bt_get (re_sources (fst state)) key = Some source \<longrightarrow> bt_get (re_sources (fst state')) key = Some source) \<and>
      re_next_local_instance (fst state) \<le> re_next_local_instance (fst state')"
    using assms
  proof (cases rule: resolve_input_cases)
    case (1 reference local_instance resolver found)
    note taken = take_local_instance_next(1,2) [OF 1(2)]
    from 1(4) show ?thesis using taken by (auto simp: bt_get_insert)
  qed
  then show "bt_get (re_sources (fst state)) key = Some source \<Longrightarrow> bt_get (re_sources (fst state')) key = Some source"
    "re_next_local_instance (fst state) \<le> re_next_local_instance (fst state')" by blast+
qed

lemma resolve_input_good:
  assumes "resolver_good ctx state" "resolve_input ctx feature state = (Inr input, state')"
  shows "resolver_good ctx state'"
  using assms(2)
proof (cases rule: resolve_input_cases)
  case (1 reference local_instance resolver source)
  show ?thesis
    unfolding resolver_good_def
  proof (intro allI impI)
    fix key found assume found: "bt_get (re_sources (fst state')) key = Some found"
    from 1(4) show "\<exists>id' reference w w'. parse_feature_ref_from_devcontainer_dir id' (fc_devcontainer_dir ctx) = Inr reference \<and>
        feature_source_key reference = key \<and> fc_source ctx reference w = (Inr found, w')"
    proof (elim disjE conjE exE)
      assume "state' = (resolver, snd state)"
      then have "bt_get (re_sources (fst state)) key = Some found" using found take_local_instance_next(1) [OF 1(2)] by simp
      with assms(1) show ?thesis unfolding resolver_good_def by blast
    next
      fix w' assume run: "fc_source ctx reference (snd state) = (Inr source, w')" and
        state': "state' = (resolver\<lparr>re_sources := bt_insert (feature_source_key reference) source (re_sources (fst state))\<rparr>, w')"
      show ?thesis
      proof (cases "key = feature_source_key reference")
        case True
        then show ?thesis using found run 1(1) by (auto simp: state' bt_get_insert)
      next
        case False
        then have "bt_get (re_sources (fst state)) key = Some found" using found by (simp add: state' bt_get_insert)
        with assms(1) show ?thesis unfolding resolver_good_def by blast
      qed
    qed
  qed
qed

lemma resolve_input_fits:
  assumes "rf_canonical_id feature = canonical_feature_id (rf_id feature)"
    and "resolve_input ctx feature state = (Inr input, state')"
  shows "resolver_fits ctx state' input" "fi_feature input = feature"
proof -
  from assms(2) have "resolver_fits ctx state' input \<and> fi_feature input = feature"
  proof (cases rule: resolve_input_cases)
    case (1 reference local_instance resolver source)
    note instance_facts = take_local_instance_next [OF 1(2)]
    have fields: "fi_feature input = feature" "fi_reference input = reference" by (simp_all add: 1(3) resolved_input_def)
    have "bt_get (re_sources (fst state')) (feature_source_key reference) = Some source"
      using 1(4) instance_facts(1) by (auto simp: bt_get_insert)
    moreover have "re_next_local_instance (fst state') = re_next_local_instance resolver" using 1(4) by auto
    then have "if reference_is_local reference
        then \<exists>n<re_next_local_instance (fst state'). local_instance = Some n else local_instance = None"
      using instance_facts(3) by (auto split: if_splits)
    moreover have "input = resolved_input (fi_feature input) reference source local_instance"
      by (simp add: 1(3) resolved_input_def)
    ultimately show ?thesis using assms(1) 1(1) fields unfolding resolver_fits_def by metis
  qed
  then show "resolver_fits ctx state' input" "fi_feature input = feature" by blast+
qed

lemma fits_kept:
  assumes "resolve_input ctx feature state = (Inr input, state')" "resolver_fits ctx state i"
  shows "resolver_fits ctx state' i"
proof -
  from fits_source [OF assms(2)] obtain source local_instance where s:
    "bt_get (re_sources (fst state)) (feature_source_key (fi_reference i)) = Some source"
    "i = resolved_input (fi_feature i) (fi_reference i) source local_instance"
    "if reference_is_local (fi_reference i)
     then \<exists>n<re_next_local_instance (fst state). local_instance = Some n else local_instance = None" .
  have "bt_get (re_sources (fst state')) (feature_source_key (fi_reference i)) = Some source"
    by (rule resolve_input_sources(1) [OF assms(1) s(1)])
  moreover have "if reference_is_local (fi_reference i)
     then \<exists>n<re_next_local_instance (fst state'). local_instance = Some n else local_instance = None"
    using s(3) resolve_input_sources(2) [OF assms(1)] by (auto intro: less_le_trans split: if_splits)
  ultimately show ?thesis using s(2) fits_fields [OF assms(2)] unfolding resolver_fits_def by blast
qed

text \<open>A local instance has a number of its own.\<close>

lemma local_keys_differ:
  assumes "reference_is_local a" "reference_is_local b"
    and "feature_instance_key f a d (Some m) = feature_instance_key g b e (Some n)"
  shows "m = n"
proof -
  obtain p q where ab: "a = Local p" "b = Local q" using assms(1,2) by (cases a; cases b) simp_all
  obtain t where t: "feature_instance_key f a d (Some m) = ''local'' @ t @ CHR 0x1E # show_nat m"
    using local_instance_key [of f p d m] unfolding ab by blast
  obtain u where u: "feature_instance_key g b e (Some n) = ''local'' @ u @ CHR 0x1E # show_nat n"
    using local_instance_key [of g q e n] unfolding ab by blast
  have "(''local'' @ t) @ CHR 0x1E # show_nat m = (''local'' @ u) @ CHR 0x1E # show_nat n"
    using t u assms(3) by (simp only: append_assoc)
  from separated_last [OF separator_not_in_nat separator_not_in_nat this] have "show_nat m = show_nat n" .
  moreover have "parse_unsigned (max m n) (show_nat m) = Some m" by (rule parse_unsigned_show_nat) simp
  moreover have "parse_unsigned (max m n) (show_nat n) = Some n" by (rule parse_unsigned_show_nat) simp
  ultimately show ?thesis by simp
qed

lemma oci_and_local_keys_differ:
  assumes "reference_is_local b"
  shows "feature_instance_key f a d None \<noteq> feature_instance_key g b e (Some n)"
proof -
  obtain q where b: "b = Local q" using assms by (cases b) simp_all
  obtain u where "feature_instance_key g b e (Some n) = ''local'' @ u @ CHR 0x1E # show_nat n"
    using local_instance_key [of g q e n] unfolding b by blast
  then show ?thesis by (simp add: oci_instance_key)
qed

lemma fresh_instance:
  assumes "resolver_fits ctx state i" "resolve_input ctx feature state = (Inr input, state')"
    and "fi_instance_key i = fi_instance_key input"
  shows "\<not> reference_is_local (fi_reference i) \<and> \<not> reference_is_local (fi_reference input)"
  using assms(2)
proof (cases rule: resolve_input_cases)
  case (1 reference local_instance resolver source)
  note taken = take_local_instance_next(3) [OF 1(2)]
  from fits_source [OF assms(1)] obtain found n where i:
    "i = resolved_input (fi_feature i) (fi_reference i) found n"
    "if reference_is_local (fi_reference i) then \<exists>m<re_next_local_instance (fst state). n = Some m else n = None" by blast
  have reference: "fi_reference input = reference" by (simp add: 1(3) resolved_input_def)
  have "fi_instance_key i = feature_instance_key (fi_feature i) (fi_reference i) (so_digest found) n"
    using arg_cong [OF i(1), of fi_instance_key] by (simp add: resolved_input_def)
  then have keys: "feature_instance_key (fi_feature i) (fi_reference i) (so_digest found) n =
      feature_instance_key feature reference (so_digest source) local_instance"
    using assms(3) by (simp add: 1(3) resolved_input_def)
  show ?thesis
  proof (cases "reference_is_local (fi_reference i)")
    case True
    then obtain m where m: "m < re_next_local_instance (fst state)" "n = Some m" using i(2) by auto
    show ?thesis
    proof (cases "reference_is_local reference")
      case local: True
      then have "local_instance = Some (re_next_local_instance (fst state))" using taken by simp
      then have "m = re_next_local_instance (fst state)" using local_keys_differ [OF True local] keys m(2) by metis
      with m(1) show ?thesis by simp
    next
      case False
      then have "local_instance = None" using taken by simp
      then show ?thesis using oci_and_local_keys_differ [OF True] keys m(2) by metis
    qed
  next
    case False
    then have "n = None" using i(2) by simp
    moreover have "local_instance = Some (re_next_local_instance (fst state))" if "reference_is_local reference"
      using taken that by simp
    ultimately show ?thesis using oci_and_local_keys_differ keys False reference by metis
  qed
qed

lemma resolve_input_alike:
  assumes "content_addressed (fc_source ctx)" "resolver_good ctx state"
    and "rf_canonical_id feature = canonical_feature_id (rf_id feature)"
    and "resolve_input ctx feature state = (Inr input, state')"
    and "resolver_fits ctx state i" "fi_instance_key i = fi_instance_key input"
  shows "alike i input" "\<not> reference_is_local (fi_reference i)"
proof -
  note oci = fresh_instance [OF assms(5,4,6)]
  then show "\<not> reference_is_local (fi_reference i)" by simp
  from oci obtain r q where "fi_reference i = Oci r" "fi_reference input = Oci q"
    by (cases "fi_reference i"; cases "fi_reference input") simp_all
  then show "alike i input"
    using oci_inputs_alike [OF assms(1) resolve_input_good [OF assms(2,4)] fits_kept [OF assms(4,5)]
      resolve_input_fits(1) [OF assms(3,4)] _ _ assms(6)] by simp
qed

lemma resolver_keeps_contract:
  assumes "content_addressed (fc_source ctx)"
  shows "resolver_contract (resolver_good ctx) (resolver_fits ctx) (resolve_request ctx)"
  unfolding resolver_contract_def resolve_request_def
proof (intro allI impI)
  fix request state input state'
  assume good: "resolver_good ctx state" and id: "fr_canonical_id request = canonical_feature_id (fr_reference request)"
    and run: "resolve_input ctx (requested_feature request) state = (Inr input, state')"
  have canonical: "rf_canonical_id (requested_feature request) = canonical_feature_id (rf_id (requested_feature request))"
    using id by (simp add: requested_feature_def)
  show "resolver_good ctx state' \<and> resolver_fits ctx state' input \<and> fi_feature input = requested_feature request \<and>
      (\<forall>i. resolver_fits ctx state i \<longrightarrow> resolver_fits ctx state' i \<and>
         (fi_instance_key i = fi_instance_key input \<longrightarrow> alike i input \<and> \<not> reference_is_local (fi_reference i)))"
    using resolve_input_good [OF good run] resolve_input_fits [OF canonical run] fits_kept [OF run]
      resolve_input_alike [OF assms good canonical run] by blast
qed

section \<open>Properties\<close>

lemma alike_sym: "alike a b \<Longrightarrow> alike b a"
  by (simp add: alike_def)

lemma resolved_inputs:
  assumes "content_addressed (fc_source ctx)" "resolver_good ctx state"
    and "\<forall>feature\<in>set features. rf_canonical_id feature = canonical_feature_id (rf_id feature)"
    and "resolve_inputs ctx features state = (Inr inputs, state')"
  shows "resolver_good ctx state' \<and> map fi_feature inputs = features \<and>
    (\<forall>i. resolver_fits ctx state i \<longrightarrow> resolver_fits ctx state' i) \<and> (\<forall>i\<in>set inputs. resolver_fits ctx state' i) \<and>
    (\<forall>i j. resolver_fits ctx state i \<or> i \<in> set inputs \<longrightarrow> j \<in> set inputs \<longrightarrow> fi_instance_key i = fi_instance_key j \<longrightarrow> alike i j)"
  using assms(2-4)
proof (induction features arbitrary: state inputs)
  case Nil
  then show ?case by (simp add: io_elims)
next
  case (Cons feature features)
  from Cons.prems(3) obtain input state1 rest where
    1: "resolve_input ctx feature state = (Inr input, state1)" and
    2: "resolve_inputs ctx features state1 = (Inr rest, state')" and inputs: "inputs = input # rest"
    by (auto simp: io_elims)
  have canonical: "rf_canonical_id feature = canonical_feature_id (rf_id feature)" using Cons.prems(2) by simp
  note good1 = resolve_input_good [OF Cons.prems(1) 1] and fits1 = resolve_input_fits [OF canonical 1]
  note kept = fits_kept [OF 1] and alike1 = resolve_input_alike(1) [OF assms(1) Cons.prems(1) canonical 1]
  have ih: "resolver_good ctx state'" "map fi_feature rest = features"
    "\<forall>i. resolver_fits ctx state1 i \<longrightarrow> resolver_fits ctx state' i" "\<forall>i\<in>set rest. resolver_fits ctx state' i"
    "\<And>i j. resolver_fits ctx state1 i \<or> i \<in> set rest \<Longrightarrow> j \<in> set rest \<Longrightarrow> fi_instance_key i = fi_instance_key j \<Longrightarrow> alike i j"
    using Cons.IH [OF good1 _ 2] Cons.prems(2) by auto
  have "alike i j" if i: "resolver_fits ctx state i \<or> i \<in> set inputs" and j: "j \<in> set inputs"
    and key: "fi_instance_key i = fi_instance_key j" for i j
  proof (cases "j = input")
    case True
    consider "resolver_fits ctx state i" | "i = input" | "i \<in> set rest" using i inputs by auto
    then show ?thesis
    proof cases
      case 1
      then show ?thesis using alike1 key True by simp
    next
      case 2
      then show ?thesis using True by simp
    next
      case 3
      then show ?thesis using ih(5) [of input i] fits1(1) key True alike_sym by simp
    qed
  next
    case False
    then have "j \<in> set rest" using j inputs by simp
    moreover have "resolver_fits ctx state1 i \<or> i \<in> set rest" using i inputs kept fits1(1) by auto
    ultimately show ?thesis using ih(5) key by blast
  qed
  then show ?case using ih fits1 kept inputs by auto
qed

lemma empty_resolver_good: "resolver_good ctx (empty_resolver, w)"
  by (simp add: resolver_good_def empty_resolver_def bt_get_def)



section \<open>The resolution ends\<close>

text \<open>The requests that the Features of the sources can make.\<close>

definition possible_requests :: "'w feature_context \<Rightarrow> request_key set" where
  "possible_requests ctx = {(ft_reference target, ft_canonical_id target, options) | target options.
     \<exists>id' reference other w source w' parent_id dependency v.
       parse_feature_ref_from_devcontainer_dir id' (fc_devcontainer_dir ctx) = Inr reference \<and>
       fc_source ctx other w = (Inr source, w') \<and> feature_source_key other = feature_source_key reference \<and>
       (dependency, v) \<in> set (fm_depends_on (so_metadata source)) \<and>
       dependency_feature_target reference dependency = Inr target \<and>
       feature_dependency_options parent_id dependency v = Inr options}"

lemma requests_possible:
  assumes "resolver_good ctx state" "resolver_fits ctx state input"
  shows "requests input \<subseteq> possible_requests ctx"
proof
  fix rk assume "rk \<in> requests input"
  then obtain target options dependency v where rk: "rk = (ft_reference target, ft_canonical_id target, options)"
    "(dependency, v) \<in> set (fm_depends_on (fi_metadata input))"
    "dependency_feature_target (fi_reference input) dependency = Inr target"
    "feature_dependency_options (input_canonical_id input) dependency v = Inr options"
    unfolding requests_def by blast
  from fits_source [OF assms(2)] obtain source local_instance where
    source: "bt_get (re_sources (fst state)) (feature_source_key (fi_reference input)) = Some source"
    "input = resolved_input (fi_feature input) (fi_reference input) source local_instance" by blast
  have "fi_metadata input = so_metadata source"
    using arg_cong [OF source(2), of fi_metadata] by (simp add: resolved_input_def)
  moreover from assms(1) source(1) obtain other w w' where "fc_source ctx other w = (Inr source, w')"
    "feature_source_key other = feature_source_key (fi_reference input)" unfolding resolver_good_def by blast
  ultimately show "rk \<in> possible_requests ctx"
    using rk fits_fields(1) [OF assms(2)] unfolding possible_requests_def by simp blast
qed

text \<open>A request is served when it cannot add a node any more: a local Feature is found, and an OCI
  Feature has the key of a node.\<close>

definition served :: "'w feature_context \<Rightarrow> feature_install_graph \<Rightarrow> feature_resolver \<Rightarrow> request_key \<Rightarrow> bool" where
  "served ctx graph resolver rk \<longleftrightarrow>
     (case rk of (reference_text, canonical_id, options) \<Rightarrow>
        let feature = \<lparr>rf_id = reference_text, rf_canonical_id = canonical_id, rf_options = options\<rparr>
        in (\<exists>key input. node graph key = Some input \<and> reference_is_local (fi_reference input) \<and> fi_feature input = feature) \<or>
           (\<exists>r source. parse_feature_ref_from_devcontainer_dir reference_text (fc_devcontainer_dir ctx) = Inr (Oci r) \<and>
              bt_get (re_sources resolver) (feature_source_key (Oci r)) = Some source \<and>
              feature_instance_key feature (Oci r) (so_digest source) None \<in> graph_keys graph))"

lemma served_mono:
  assumes "served ctx graph resolver rk" "grows graph graph'"
    and "\<And>key source. bt_get (re_sources resolver) key = Some source \<Longrightarrow> bt_get (re_sources resolver') key = Some source"
  shows "served ctx graph' resolver' rk"
proof -
  obtain reference_text canonical_id options where rk: "rk = (reference_text, canonical_id, options)" by (cases rk)
  let ?feature = "\<lparr>rf_id = reference_text, rf_canonical_id = canonical_id, rf_options = options\<rparr>"
  consider key input where "node graph key = Some input" "reference_is_local (fi_reference input)" "fi_feature input = ?feature"
    | r source where "parse_feature_ref_from_devcontainer_dir reference_text (fc_devcontainer_dir ctx) = Inr (Oci r)"
      "bt_get (re_sources resolver) (feature_source_key (Oci r)) = Some source"
      "feature_instance_key ?feature (Oci r) (so_digest source) None \<in> graph_keys graph"
    using assms(1) unfolding served_def rk Let_def prod.case by blast
  then show ?thesis
  proof cases
    case 1
    from growsD [OF assms(2) 1(1)] 1 have "node graph' key = Some input" by metis
    with 1 show ?thesis unfolding served_def rk Let_def prod.case by blast
  next
    case 2
    then show ?thesis using assms(3) grows_keys [OF assms(2)] unfolding served_def rk Let_def prod.case by blast
  qed
qed

lemma asked_resolves:
  assumes "asked (resolve_request ctx) graph state rk input state'"
  obtains request where "request_key request = rk" "resolve_input ctx (requested_feature request) state = (Inr input, state')"
    "rf_canonical_id (requested_feature request) = canonical_feature_id (rf_id (requested_feature request))"
    "find_existing_feature_instance (fg_nodes graph) (fr_canonical_id request) (fr_reference request) (fr_options request) = None"
  using assms by (auto simp: asked_def resolve_request_def requested_feature_def)

lemma served_adds_nothing:
  assumes "asked (resolve_request ctx) graph state rk input state'" "served ctx graph (fst state) rk"
  shows "fi_instance_key input \<in> graph_keys graph"
proof -
  from asked_resolves [OF assms(1)] obtain request where request: "request_key request = rk"
    "resolve_input ctx (requested_feature request) state = (Inr input, state')"
    "find_existing_feature_instance (fg_nodes graph) (fr_canonical_id request) (fr_reference request) (fr_options request) = None" .
  have rk: "rk = (fr_reference request, fr_canonical_id request, fr_options request)"
    using request(1) by (simp add: request_key_def)
  have "input' \<notin> snd ` set (fg_nodes graph)" if "fi_feature input' = requested_feature request" for input'
    using request(3) that
    by (auto simp: find_existing_feature_instance_def find_None_iff2 feature_reference_matches_def requested_feature_def)
  then have "node graph key \<noteq> Some input'" if "fi_feature input' = requested_feature request" for key input'
    using that bt_get_SomeD [of "fg_nodes graph" key input'] by force
  then obtain r source where found: "parse_feature_ref_from_devcontainer_dir (fr_reference request) (fc_devcontainer_dir ctx) = Inr (Oci r)"
    "bt_get (re_sources (fst state)) (feature_source_key (Oci r)) = Some source"
    "feature_instance_key (requested_feature request) (Oci r) (so_digest source) None \<in> graph_keys graph"
    using assms(2) unfolding served_def rk Let_def prod.case requested_feature_def by blast
  have "rf_id (requested_feature request) = fr_reference request" by (simp add: requested_feature_def)
  then have "fi_instance_key input = feature_instance_key (requested_feature request) (Oci r) (so_digest source) None"
    using request(2) found(1,2) by (auto simp: resolve_input_def take_local_instance_def resolved_input_def)
  then show ?thesis using found(3) by simp
qed

lemma asked_is_served:
  assumes "asked (resolve_request ctx) graph state rk input state'"
    and "node graph' (fi_instance_key input) = Some input"
  shows "served ctx graph' (fst state') rk"
proof -
  from asked_resolves [OF assms(1)] obtain request where request: "request_key request = rk"
    "resolve_input ctx (requested_feature request) state = (Inr input, state')"
    "rf_canonical_id (requested_feature request) = canonical_feature_id (rf_id (requested_feature request))" .
  have rk: "rk = (fr_reference request, fr_canonical_id request, fr_options request)"
    using request(1) by (simp add: request_key_def)
  note fits = resolve_input_fits [OF request(3,2)]
  from fits_source [OF fits(1)] obtain source local_instance where source:
    "bt_get (re_sources (fst state')) (feature_source_key (fi_reference input)) = Some source"
    "input = resolved_input (fi_feature input) (fi_reference input) source local_instance"
    "if reference_is_local (fi_reference input)
     then \<exists>n<re_next_local_instance (fst state'). local_instance = Some n else local_instance = None" .
  show ?thesis
  proof (cases "fi_reference input")
    case (Local r)
    then show ?thesis using assms(2) fits(2)
      unfolding served_def rk Let_def prod.case requested_feature_def by (intro disjI1 exI [of _ "fi_instance_key input"]) auto
  next
    case (Oci r)
    have "fi_instance_key input = feature_instance_key (requested_feature request) (Oci r) (so_digest source) None"
      using arg_cong [OF source(2), of fi_instance_key] source(3) fits(2) Oci by (simp add: resolved_input_def)
    moreover have "fi_instance_key input \<in> graph_keys graph'" using assms(2) node_iff by blast
    moreover have "parse_feature_ref_from_devcontainer_dir (fr_reference request) (fc_devcontainer_dir ctx) = Inr (Oci r)"
      using fits_fields(1) [OF fits(1)] fits(2) Oci by (simp add: requested_feature_def)
    ultimately show ?thesis using source(1) Oci
      unfolding served_def rk Let_def prod.case requested_feature_def by auto
  qed
qed

definition unserved :: "'w feature_context \<Rightarrow> feature_install_graph \<Rightarrow> feature_resolver \<times> 'w \<Rightarrow> nat" where
  "unserved ctx graph state = card {rk \<in> possible_requests ctx. \<not> served ctx graph (fst state) rk}"

lemma step_bound:
  assumes finite: "finite (possible_requests ctx)" and possible: "requests parent \<subseteq> possible_requests ctx"
    and grows: "grows graph graph'"
    and step: "extends (resolve_request ctx) parent graph q state graph' q' state'"
  shows "length q' + unserved ctx graph' state' \<le> length q + unserved ctx graph state"
  using step unfolding extends_def
proof (elim disjE conjE exE)
  assume "state' = state" "q' = q" "fg_nodes graph' = fg_nodes graph"
  moreover from this have "served ctx graph' (fst state) rk = served ctx graph (fst state) rk" for rk
    by (simp add: served_def)
  ultimately show ?thesis by (simp add: unserved_def)
next
  fix rk input
  assume rk: "rk \<in> requests parent" and asked: "asked (resolve_request ctx) graph state rk input state'"
    and nodes: "fg_nodes graph' = bt_insert (fi_instance_key input) input (fg_nodes graph)"
    and queue: "q' = (if fi_instance_key input \<in> graph_keys graph then q else q @ [fi_instance_key input])"
  from asked_resolves [OF asked] obtain request where
    run: "resolve_input ctx (requested_feature request) state = (Inr input, state')" .
  have kept: "served ctx graph' (fst state') k" if "served ctx graph (fst state) k" for k
    by (rule served_mono [OF that grows]) (rule resolve_input_sources(1) [OF run])
  have now: "served ctx graph' (fst state') rk"
    by (rule asked_is_served [OF asked]) (simp add: nodes bt_get_insert)
  let ?before = "{k \<in> possible_requests ctx. \<not> served ctx graph (fst state) k}"
  let ?after = "{k \<in> possible_requests ctx. \<not> served ctx graph' (fst state') k}"
  have sub: "?after \<subseteq> ?before" using kept by blast
  have fin: "finite ?before" using finite by simp
  show ?thesis
  proof (cases "fi_instance_key input \<in> graph_keys graph")
    case True
    then show ?thesis using queue card_mono [OF fin sub] by (simp add: unserved_def)
  next
    case False
    then have "rk \<in> ?before" using served_adds_nothing [OF asked] rk possible by blast
    then have "?after \<subset> ?before" using sub now by blast
    then have "card ?after < card ?before" by (rule psubset_card_mono [OF fin])
    then show ?thesis using queue False by (simp add: unserved_def)
  qed
qed

lemma dependencies_bound:
  assumes content: "content_addressed (fc_source ctx)" and finite: "finite (possible_requests ctx)"
    and "resolver_good ctx state" "graph_ok (resolver_fits ctx) state graph" "scanned scan graph"
    and "set ds \<subseteq> set (fs_dependencies scan)"
    and "io_fold (resolve_feature_dependency (resolve_request ctx) scan) (graph, q) ds state = (Inr (graph', q'), state')"
  shows "length q' + unserved ctx graph' state' \<le> length q + unserved ctx graph state"
  using assms(3-7)
proof (induction ds arbitrary: graph q state)
  case Nil
  then show ?case by (simp add: io_elims)
next
  case (Cons d ds)
  from Cons.prems(5) obtain graph1 queue1 state1 where
    1: "resolve_feature_dependency (resolve_request ctx) scan (graph, q) d state = (Inr (graph1, queue1), state1)" and
    2: "io_fold (resolve_feature_dependency (resolve_request ctx) scan) (graph1, queue1) ds state1 = (Inr (graph', q'), state')"
    by (auto simp: io_elims)
  obtain parent where parent: "node graph (fs_parent_instance_key scan) = Some parent"
    using Cons.prems(3) by (auto simp: scanned_def)
  have d: "d \<in> set (fs_dependencies scan)" using Cons.prems(4) by simp
  note step = dependency_step [OF resolver_keeps_contract [OF content] Cons.prems(1-3) d parent 1]
  have "length queue1 + unserved ctx graph1 state1 \<le> length q + unserved ctx graph state"
    using step_bound [OF finite requests_possible [OF Cons.prems(1) graph_ok_fits(2) [OF Cons.prems(2) parent]] step(3,5)] .
  moreover have "length q' + unserved ctx graph' state' \<le> length queue1 + unserved ctx graph1 state1"
    using Cons.prems(4) by (intro Cons.IH [OF step(1,2) scanned_grows [OF Cons.prems(3) step(3)] _ 2]) simp
  ultimately show ?case by simp
qed

lemma dependency_edges_end:
  assumes content: "content_addressed (fc_source ctx)" and finite: "finite (possible_requests ctx)"
    and "resolver_good ctx state" "scan_inv (resolver_fits ctx) state graph scan_queue"
    and "length scan_queue + unserved ctx graph state \<le> n"
  shows "resolve_dependency_edges n (resolve_request ctx) (graph, scan_queue) state \<noteq> None"
  using assms(3-5)
proof (induction n arbitrary: graph scan_queue state)
  case 0
  then show ?case by simp
next
  case (Suc n)
  show ?case
  proof (cases scan_queue)
    case (Cons key queue)
    obtain r state1 where run: "scan_feature (resolve_request ctx) (graph, queue) key state = (r, state1)" by (metis surj_pair)
    show ?thesis
    proof (cases r)
      case (Inl e)
      then show ?thesis by (simp add: Cons run)
    next
      case (Inr found)
      obtain graph1 queue1 where found: "found = (graph1, queue1)" by (cases found)
      note scan = run [unfolded Inr found]
      note step = scan_step [OF resolver_keeps_contract [OF content] Suc.prems(1) Suc.prems(2) [unfolded Cons] scan]
      have ok: "graph_ok (resolver_fits ctx) state graph" using Suc.prems(2) by (simp add: scan_inv_def)
      from scan_parts [OF scan] obtain s where s: "scanned s graph"
        "io_fold (resolve_feature_dependency (resolve_request ctx) s) (graph, queue) (fs_dependencies s) state =
           (Inr (graph1, queue1), state1)" .
      have "length queue1 + unserved ctx graph1 state1 \<le> length queue + unserved ctx graph state"
        by (rule dependencies_bound [OF content finite Suc.prems(1) ok s(1) subset_refl s(2)])
      then have "length queue1 + unserved ctx graph1 state1 \<le> n" using Suc.prems(3) by (simp add: Cons)
      then have "resolve_dependency_edges n (resolve_request ctx) (graph1, queue1) state1 \<noteq> None"
        using step by (intro Suc.IH) simp_all
      then show ?thesis by (simp add: Cons run Inr found)
    qed
  qed simp
qed

text \<open>C38. When digests are free of the separator of the keys and equal digests mean equal
  metadata, each configured Feature carries the canonical id of its reference, and the Features
  can make only finitely many requests, resolving the install order ends: as many steps as
  configured Features and possible requests are enough, although every request for a local Feature
  numbers a new instance.\<close>

theorem dependency_resolution_ends:
  assumes "content_addressed (fc_source ctx)"
    and "\<forall>feature\<in>set features. rf_canonical_id feature = canonical_feature_id (rf_id feature)"
    and "finite (possible_requests ctx)" "length features + card (possible_requests ctx) \<le> fuel"
  shows "resolved_install_order fuel ctx features override_order w \<noteq> None"
proof -
  obtain r state where run: "resolve_inputs ctx features (empty_resolver, w) = (r, state)" by (metis surj_pair)
  show ?thesis
  proof (cases r)
    case (Inl e)
    then show ?thesis by (simp add: resolved_install_order_def run)
  next
    case (Inr inputs)
    note resolved = resolved_inputs [OF assms(1) empty_resolver_good assms(2) run [unfolded Inr]]
    then have good: "resolver_good ctx state" and fits: "\<forall>input\<in>set inputs. resolver_fits ctx state input"
      and features: "map fi_feature inputs = features" by blast+
    let ?graph = "new_graph inputs" and ?queue = "bt_keys (fg_nodes (new_graph inputs))"
    note inv = new_graph_ok(1) [where fits = "resolver_fits ctx" and s = state, OF fits]
    have "distinct ?queue" using inv bt_ok_distinct by (auto simp: scan_inv_def graph_ok_def bt_keys_def)
    then have "length ?queue = card (fi_instance_key ` set inputs)"
      using new_graph_ok(2) [where fits = "resolver_fits ctx" and s = state, OF fits] by (metis distinct_card)
    also have "\<dots> \<le> length inputs" using card_image_le [of "set inputs" fi_instance_key] card_length [of inputs] by simp
    also have "\<dots> = length features" using arg_cong [OF features, of length] by simp
    finally have queue: "length ?queue \<le> length features" .
    have "unserved ctx ?graph state \<le> card (possible_requests ctx)"
      unfolding unserved_def by (rule card_mono [OF assms(3)]) blast
    with queue have "length ?queue + unserved ctx ?graph state \<le> fuel" using assms(4) by simp
    from dependency_edges_end [OF assms(1,3) good inv this] show ?thesis
      by (auto simp: resolved_install_order_def run Inr resolve_feature_install_order_def Let_def split: sum.splits)
  qed
qed

section \<open>An example\<close>

text \<open>A local Feature depends on an OCI Feature that is configured with another tag of the same digest.\<close>

definition plain_metadata :: "string \<Rightarrow> (string \<times> json) list \<Rightarrow> feature_metadata" where
  "plain_metadata id' depends_on = \<lparr>fm_id = id', fm_version = ''1'', fm_name = id', fm_legacy_ids = [],
     fm_depends_on = depends_on, fm_installs_after = [], fm_options = []\<rparr>"

definition plain_source :: "string \<Rightarrow> feature_metadata \<Rightarrow> feature_source" where
  "plain_source digest metadata = \<lparr>so_source_dir = ''/s'', so_metadata = metadata, so_layer = empty_layer,
     so_container_env = [], so_digest = digest, so_lock_file_entry = None\<rparr>"

definition plain_context :: "unit feature_context" where
  "plain_context = \<lparr>fc_devcontainer_dir = ''/d'',
     fc_source = (\<lambda>reference. case reference of
         Local _ \<Rightarrow> io_return (plain_source ''c'' (plain_metadata ''c'' [(''r.io/a/b'', J_Object [])]))
       | Oci _ \<Rightarrow> io_return (plain_source ''b'' (plain_metadata ''b'' [])))\<rparr>"

definition plain_features :: "resolved_feature list" where
  "plain_features = [\<lparr>rf_id = ''r.io/a/b:1'', rf_canonical_id = ''r.io/a/b'', rf_options = []\<rparr>,
     \<lparr>rf_id = ''./c'', rf_canonical_id = ''./c'', rf_options = []\<rparr>]"


lemma plain_addressed: "content_addressed (fc_source plain_context)"
  by (auto simp: content_addressed_def plain_context_def plain_source_def io_return_def split: feature_ref.splits)

lemma plain_canonical: "\<forall>feature\<in>set plain_features. rf_canonical_id feature = canonical_feature_id (rf_id feature)"
proof -
  have "list_all (\<lambda>feature. rf_canonical_id feature = canonical_feature_id (rf_id feature)) plain_features" by code_simp
  then show ?thesis by (simp add: list_all_iff)
qed

lemma plain_requests: "possible_requests plain_context \<subseteq> {(''r.io/a/b'', ''r.io/a/b'', [])}"
proof -
  have parsed: "case parse_feature_ref ''r.io/a/b'' of Inr r \<Rightarrow> ref_canonical_id r = ''r.io/a/b'' | Inl _ \<Rightarrow> False" by code_simp
  have "\<not> starts_with ''./'' ''r.io/a/b''" by code_simp
  then have target: "target = \<lparr>ft_reference = ''r.io/a/b'', ft_canonical_id = ''r.io/a/b''\<rparr>"
    if "dependency_feature_target parent ''r.io/a/b'' = Inr target" for parent target
    using that parsed by (auto simp: dependency_feature_target_def split: sum.splits)
  have options: "options = []" if "feature_dependency_options parent_id dependency (J_Object []) = Inr options"
    for parent_id dependency options
    using that by (simp add: feature_dependency_options_def bt_collect_def bt_extend_def)
  have depends: "dependency = ''r.io/a/b'' \<and> v = J_Object []"
    if "fc_source plain_context other w = (Inr source, w')" "(dependency, v) \<in> set (fm_depends_on (so_metadata source))"
    for other w source w' dependency v
    using that by (auto simp: plain_context_def plain_source_def plain_metadata_def io_return_def split: feature_ref.splits)
  show ?thesis
  proof
    fix rk assume "rk \<in> possible_requests plain_context"
    then obtain t opts other w source w' parent_id dependency v reference where
      rk: "rk = (ft_reference t, ft_canonical_id t, opts)" and
      source: "fc_source plain_context other w = (Inr source, w')" "(dependency, v) \<in> set (fm_depends_on (so_metadata source))" and
      t: "dependency_feature_target reference dependency = Inr t" and
      opts: "feature_dependency_options parent_id dependency v = Inr opts"
      unfolding possible_requests_def by blast
    from depends [OF source] t opts have "t = \<lparr>ft_reference = ''r.io/a/b'', ft_canonical_id = ''r.io/a/b''\<rparr>" "opts = []"
      using target options by simp_all
    then show "rk \<in> {(''r.io/a/b'', ''r.io/a/b'', [])}" by (simp add: rk)
  qed
qed


theorem dependency_resolution_ends_witness:
  "resolved_install_order 3 plain_context plain_features [] () \<noteq> None"
proof (rule dependency_resolution_ends)
  show "content_addressed (fc_source plain_context)" by (rule plain_addressed)
  show "\<forall>feature\<in>set plain_features. rf_canonical_id feature = canonical_feature_id (rf_id feature)" by (rule plain_canonical)
  show finite: "finite (possible_requests plain_context)" by (rule finite_subset [OF plain_requests]) simp
  have "card (possible_requests plain_context) \<le> 1" using card_mono [OF _ plain_requests] by simp
  then show "length plain_features + card (possible_requests plain_context) \<le> 3" by (simp add: plain_features_def)
qed

text \<open>The key of a source does not say whether it is local: a local Feature below a directory \<open>80\<close> and a
  Feature of a registry on a host \<open>local\<close> can share one, and then the source read first serves both.\<close>

lemma feature_source_keys_collide:
  "case (parse_feature_ref_from_devcontainer_dir ''./80/a/b:1'' ''/d'',
         parse_feature_ref_from_devcontainer_dir ''local:80/a/b:1'' ''/d'') of
     (Inr (Local here), Inr (Oci there)) \<Rightarrow> feature_source_key (Local here) = feature_source_key (Oci there)
   | _ \<Rightarrow> False"
  by code_simp

end
