(* ===== verification/Lifecycle_Run.thy ===== *)
theory Lifecycle_Run
  imports Config_Types
begin

text \<open>
  Running the lifecycle: \<open>command.rs\<close>, \<open>hooks.rs\<close>, \<open>sequence.rs\<close>, \<open>run.rs\<close> and \<open>context.rs\<close> of
  \<open>src/devcontainer/lifecycle\<close>, and the completion flags of \<open>src/state.rs\<close>. The processes a stage
  starts, in the container or on the host, and the schedulers that run several of them at once
  are the fields of a record over the state of the world. Progress lines on the terminal are left
  out. Bytes of an output are the characters of a string.
\<close>

section \<open>Output text\<close>

text \<open>\<open>String::from_utf8_lossy\<close>: the length of the well-formed sequence or of the longest ill-formed
  prefix at the start of the bytes, and whether it is well formed.\<close>

definition byte_in :: "string \<Rightarrow> nat \<Rightarrow> nat \<Rightarrow> nat \<Rightarrow> bool" where
  "byte_in bytes i low high = (i < length bytes \<and> low \<le> of_char (bytes ! i) \<and> of_char (bytes ! i) \<le> high)"

definition continuation_run :: "string \<Rightarrow> nat \<Rightarrow> nat \<Rightarrow> bool \<times> nat" where
  "continuation_run bytes i n =
     (let good = length (takeWhile (\<lambda>k. byte_in bytes k 0x80 0xBF) [i..<i + n])
      in (good = n, i + good))"

definition utf8_chunk :: "string \<Rightarrow> bool \<times> nat" where
  "utf8_chunk bytes =
     (if bytes = [] then (True, 0)
      else let b = of_char (hd bytes) :: nat
      in if b < 0x80 then (True, 1)
         else if b \<in> {0xC2..0xDF} then continuation_run bytes 1 1
         else if b \<in> {0xE0..0xEF} then
           (if (b = 0xE0 \<and> byte_in bytes 1 0xA0 0xBF) \<or> (b = 0xED \<and> byte_in bytes 1 0x80 0x9F) \<or>
               (b \<notin> {0xE0, 0xED} \<and> byte_in bytes 1 0x80 0xBF)
            then continuation_run bytes 2 1 else (False, 1))
         else if b \<in> {0xF0..0xF4} then
           (if (b = 0xF0 \<and> byte_in bytes 1 0x90 0xBF) \<or> (b = 0xF4 \<and> byte_in bytes 1 0x80 0x8F) \<or>
               (b \<notin> {0xF0, 0xF4} \<and> byte_in bytes 1 0x80 0xBF)
            then continuation_run bytes 2 2 else (False, 1))
         else (False, 1))"

definition replacement_character :: string where
  "replacement_character = map char_of [0xEF, 0xBF, 0xBD :: nat]"

lemma utf8_chunk_pos: "bytes \<noteq> [] \<Longrightarrow> 0 < snd (utf8_chunk bytes)"
  by (simp add: utf8_chunk_def continuation_run_def Let_def)

function from_utf8_lossy :: "string \<Rightarrow> string" where
  "from_utf8_lossy bytes =
     (if bytes = [] then []
      else case utf8_chunk bytes of
          (ok, n) \<Rightarrow> (if ok then take n bytes else replacement_character) @ from_utf8_lossy (drop n bytes))"
  by pat_completeness auto
termination
proof (relation "measure length", goal_cases)
  case (2 bytes ok n)
  then have "0 < n" using utf8_chunk_pos [of bytes] by (metis snd_conv)
  with 2(1) show ?case by simp
qed simp

declare from_utf8_lossy.simps [simp del]

definition max_tail_bytes :: nat where
  "max_tail_bytes = 4096"

definition output_tail :: "string \<Rightarrow> string" where
  "output_tail output = trim (from_utf8_lossy (drop (length output - max_tail_bytes) output))"

definition redacted_text :: string where
  "redacted_text = ''[REDACTED]''"

definition redact_values :: "string \<Rightarrow> string list \<Rightarrow> string" where
  "redact_values v redactions =
     foldl (\<lambda>redacted secret. str_replace secret redacted_text redacted) v
       (filter (\<lambda>secret. secret \<noteq> []) redactions)"

section \<open>Processes\<close>

record exec_command_spec =
  xs_command :: "string list"
  xs_user :: "string option"
  xs_working_dir :: "string option"
  xs_env :: "(string, string) btree_map"
  xs_redactions :: "string list"
  xs_tty :: bool

record exec_output =
  eo_stdout :: string
  eo_stderr :: string
  eo_exit_code :: int

record host_output =
  ho_stdout :: string
  ho_stderr :: string
  ho_code :: "int option"

text \<open>
  \<open>exec_capture_output\<close> of a container, \<open>Command::output\<close> of a program with its arguments and its
  directory, \<open>join_all\<close> of futures, and the threads of \<open>std::thread\<close> with the results of joining
  them in order, \<open>None\<close> for a thread that panicked.
\<close>

record 'w lifecycle_host =
  lh_exec :: "string \<Rightarrow> exec_command_spec \<Rightarrow> ('w, string, exec_output) io"
  lh_process :: "string \<Rightarrow> string list \<Rightarrow> string \<Rightarrow> ('w, string, host_output) io"
  lh_join_all :: "('w, string, unit) io list \<Rightarrow> 'w \<Rightarrow> unit result list \<times> 'w"
  lh_join_threads :: "('w, string, unit) io list \<Rightarrow> 'w \<Rightarrow> unit result option list \<times> 'w"

record resolved_remote_user =
  ru_user :: string
  ru_home :: "string option"
  ru_shell :: "string option"

record lifecycle_context =
  pl_container :: string
  pl_config :: resolved_config
  pl_workspace_root :: string
  pl_workspace_folder :: string
  pl_remote_user :: resolved_remote_user
  pl_remote_env :: "(string, string) btree_map"
  pl_remote_process_env :: "(string, string) btree_map"
  pl_lifecycle_redactions :: "string list"

definition ensure_lifecycle_success ::
  "string \<Rightarrow> string list \<Rightarrow> exec_output \<Rightarrow> string list \<Rightarrow> unit result" where
  "ensure_lifecycle_success stage_name command output redactions =
     (if eo_exit_code output = 0 then Inr ()
      else Inl (fmt [''Lifecycle stage '', stage_name, '' failed: command `'',
        redact_values (str_join '' '' command) redactions, ''` exited with exit code '',
        show_int (eo_exit_code output), ''. stdout tail: `'',
        redact_values (output_tail (eo_stdout output)) redactions, ''` stderr tail: `'',
        redact_values (output_tail (eo_stderr output)) redactions, ''`'']))"

definition docker_user_lookup_key :: "string \<Rightarrow> string" where
  "docker_user_lookup_key user =
     trim (case split_once '':'' user of None \<Rightarrow> user | Some (name, _) \<Rightarrow> name)"

definition is_root_user :: "string \<Rightarrow> bool" where
  "is_root_user user = (user = ''root'' \<or> user = ''0'')"

definition same_container_user :: "string \<Rightarrow> string \<Rightarrow> bool" where
  "same_container_user left right =
     (let l = docker_user_lookup_key left; r = docker_user_lookup_key right
      in l = r \<or> (is_root_user l \<and> is_root_user r))"

definition lifecycle_process_env :: "lifecycle_context \<Rightarrow> string \<Rightarrow> (string, string) btree_map" where
  "lifecycle_process_env context' user =
     (if same_container_user user (ru_user (pl_remote_user context')) then pl_remote_process_env context'
      else pl_remote_env context')"

definition run_container_process ::
  "'w lifecycle_host \<Rightarrow> lifecycle_context \<Rightarrow> string \<Rightarrow> string list \<Rightarrow> (string \<times> string) option \<Rightarrow>
   ('w, string, unit) io" where
  "run_container_process host context' stage_name command hook_context =
     (case (case hook_context of Some c \<Rightarrow> c
              | None \<Rightarrow> (ru_user (pl_remote_user context'), pl_workspace_folder context')) of
        (user, working_dir) \<Rightarrow>
          io_bind (io_map_err (with_context [''Failed to run lifecycle stage '', stage_name])
              (lh_exec host (pl_container context')
                 \<lparr>xs_command = command, xs_user = Some user, xs_working_dir = Some working_dir,
                  xs_env = lifecycle_process_env context' user,
                  xs_redactions = pl_lifecycle_redactions context', xs_tty = False\<rparr>))
            (\<lambda>output. io_lift
               (ensure_lifecycle_success stage_name command output (pl_lifecycle_redactions context'))))"

definition run_host_process ::
  "'w lifecycle_host \<Rightarrow> string \<Rightarrow> string list \<Rightarrow> string \<Rightarrow> ('w, string, unit) io" where
  "run_host_process host stage_name command_argv workdir =
     (case command_argv of
        [] \<Rightarrow> io_fail (fmt [''Lifecycle stage '', stage_name, '' command must not be empty''])
      | program # args \<Rightarrow>
          io_bind (io_map_err (with_context [''Failed to run lifecycle stage '', stage_name, '' in directory: '', workdir])
              (lh_process host program args workdir))
            (\<lambda>output. io_lift (ensure_lifecycle_success stage_name command_argv
               \<lparr>eo_stdout = ho_stdout output, eo_stderr = ho_stderr output,
                eo_exit_code = (case ho_code output of None \<Rightarrow> - 1 | Some code \<Rightarrow> code)\<rparr> [])))"

section \<open>Lifecycle commands\<close>

definition shell_argv :: "string \<Rightarrow> string list" where
  "shell_argv command = [''/bin/sh'', ''-lc'', command]"

fun lifecycle_command_argv :: "lifecycle_command \<Rightarrow> string list" where
  "lifecycle_command_argv (Shell_Command command) = shell_argv command"
| "lifecycle_command_argv (Args_Command args) = args"
| "lifecycle_command_argv (Parallel_Command _) = []"

fun hook_command_argv :: "config_command \<Rightarrow> bool \<Rightarrow> string list" where
  "hook_command_argv (Shell command) True = shell_argv command"
| "hook_command_argv (Shell command) False = [command]"
| "hook_command_argv (Args args) False = args"
| "hook_command_argv (Args args) True = shell_argv (str_join '' '' args)"

text \<open>The first error of the results, in order.\<close>

definition first_error :: "unit result list \<Rightarrow> unit result" where
  "first_error results = (case List.find (\<lambda>r. r \<noteq> Inr ()) results of None \<Rightarrow> Inr () | Some r \<Rightarrow> r)"

definition run_container_lifecycle_command ::
  "'w lifecycle_host \<Rightarrow> lifecycle_context \<Rightarrow> lifecycle_stage \<Rightarrow> lifecycle_command \<Rightarrow> ('w, string, unit) io" where
  "run_container_lifecycle_command host context' stage command =
     (case command of
        Parallel_Command commands \<Rightarrow>
          (\<lambda>w. case lh_join_all host
                 (map (\<lambda>(name, command). run_container_process host context'
                    (fmt [stage_property_name stage, ''.'', name]) (lifecycle_command_argv command) None) commands) w of
               (results, w') \<Rightarrow> (first_error results, w'))
      | _ \<Rightarrow> run_container_process host context' (stage_property_name stage) (lifecycle_command_argv command) None)"

definition run_host_parallel ::
  "'w lifecycle_host \<Rightarrow> string \<Rightarrow> lifecycle_stage \<Rightarrow> (string \<times> lifecycle_command) list \<Rightarrow> ('w, string, unit) io" where
  "run_host_parallel host workspace_root stage commands w =
     (case lh_join_threads host
        (map (\<lambda>(name, command). run_host_process host (fmt [stage_property_name stage, ''.'', name])
           (lifecycle_command_argv command) workspace_root) commands) w of
       (results, w') \<Rightarrow>
         (first_error (map (\<lambda>result. case result of
              Some r \<Rightarrow> r
            | None \<Rightarrow> Inl (fmt [''Lifecycle stage '', stage_property_name stage,
                 '' failed because a host command thread panicked''])) results), w'))"

definition run_host_lifecycle_command_value ::
  "'w lifecycle_host \<Rightarrow> string \<Rightarrow> lifecycle_stage \<Rightarrow> lifecycle_command \<Rightarrow> ('w, string, unit) io" where
  "run_host_lifecycle_command_value host workspace_root stage command =
     (case command of
        Parallel_Command commands \<Rightarrow> run_host_parallel host workspace_root stage commands
      | _ \<Rightarrow> run_host_process host (stage_property_name stage) (lifecycle_command_argv command) workspace_root)"

definition config_stage_commands :: "resolved_config \<Rightarrow> lifecycle_stage \<Rightarrow> lifecycle_command list" where
  "config_stage_commands config stage =
     (case rdc_lifecycle (rc_devcontainer config) of
        None \<Rightarrow> [] | Some lifecycle \<Rightarrow> definition_commands lifecycle stage)"

definition run_lifecycle_stage ::
  "'w lifecycle_host \<Rightarrow> lifecycle_context \<Rightarrow> lifecycle_stage \<Rightarrow> ('w, string, unit) io" where
  "run_lifecycle_stage host context' stage =
     io_fold (\<lambda>_. run_container_lifecycle_command host context' stage) ()
       (config_stage_commands (pl_config context') stage)"

definition run_host_lifecycle_command ::
  "'w lifecycle_host \<Rightarrow> resolved_config \<Rightarrow> string \<Rightarrow> lifecycle_stage \<Rightarrow> ('w, string, unit) io" where
  "run_host_lifecycle_command host config workspace_root stage =
     io_fold (\<lambda>_. run_host_lifecycle_command_value host workspace_root stage) ()
       (config_stage_commands config stage)"

section \<open>Hooks\<close>

fun hooks_for_stage :: "resolved_config \<Rightarrow> hook_stage \<Rightarrow> hook list" where
  "hooks_for_stage config Before_Initialize = hs_before_initialize (rc_hooks config)"
| "hooks_for_stage config After_Initialize = hs_after_initialize (rc_hooks config)"
| "hooks_for_stage config Before_On_Create = hs_before_on_create (rc_hooks config)"
| "hooks_for_stage config After_On_Create = hs_after_on_create (rc_hooks config)"
| "hooks_for_stage config Before_Update_Content = hs_before_update_content (rc_hooks config)"
| "hooks_for_stage config After_Update_Content = hs_after_update_content (rc_hooks config)"
| "hooks_for_stage config Before_Post_Create = hs_before_post_create (rc_hooks config)"
| "hooks_for_stage config After_Post_Create = hs_after_post_create (rc_hooks config)"
| "hooks_for_stage config Before_Post_Start = hs_before_post_start (rc_hooks config)"
| "hooks_for_stage config After_Post_Start = hs_after_post_start (rc_hooks config)"
| "hooks_for_stage config Before_Post_Attach = hs_before_post_attach (rc_hooks config)"
| "hooks_for_stage config After_Post_Attach = hs_after_post_attach (rc_hooks config)"

definition host_hook_workdir :: "string \<Rightarrow> hook \<Rightarrow> string" where
  "host_hook_workdir workspace_root h =
     (case hk_workdir h of None \<Rightarrow> workspace_root
      | Some workdir \<Rightarrow> if starts_with ''/'' workdir then workdir else path_push workspace_root workdir)"

definition hook_user :: "resolved_remote_user \<Rightarrow> hook \<Rightarrow> string" where
  "hook_user remote_user h =
     (case hk_user h of None \<Rightarrow> ru_user remote_user
      | Some user \<Rightarrow> if user = ''remote'' then ru_user remote_user else if user = ''root'' then ''root'' else user)"

definition hook_location_of :: "hook_stage \<Rightarrow> hook \<Rightarrow> hook_location" where
  "hook_location_of stage h = (case hk_location h of None \<Rightarrow> default_location stage | Some l \<Rightarrow> l)"

definition run_host_hook :: "'w lifecycle_host \<Rightarrow> string \<Rightarrow> hook_stage \<Rightarrow> hook \<Rightarrow> ('w, string, unit) io" where
  "run_host_hook host workspace_root stage h =
     (if hk_user h \<noteq> None
      then io_fail (fmt [''Host hook '', hook_property_name stage, '' must not specify a container user''])
      else run_host_process host (hook_property_name stage) (hook_command_argv (hk_command h) (hk_shell h))
             (host_hook_workdir workspace_root h))"

definition run_container_hook ::
  "'w lifecycle_host \<Rightarrow> lifecycle_context \<Rightarrow> hook_stage \<Rightarrow> hook \<Rightarrow> ('w, string, unit) io" where
  "run_container_hook host context' stage h =
     run_container_process host context' (hook_property_name stage)
       (hook_command_argv (hk_command h) (hk_shell h))
       (Some (hook_user (pl_remote_user context') h,
              case hk_workdir h of Some workdir \<Rightarrow> workdir | None \<Rightarrow> pl_workspace_folder context'))"

definition run_hook :: "'w lifecycle_host \<Rightarrow> lifecycle_context \<Rightarrow> hook_stage \<Rightarrow> hook \<Rightarrow> ('w, string, unit) io" where
  "run_hook host context' stage h =
     (case hook_location_of stage h of
        On_Host \<Rightarrow> run_host_hook host (pl_workspace_root context') stage h
      | In_Container \<Rightarrow> run_container_hook host context' stage h)"

definition run_hook_stage ::
  "'w lifecycle_host \<Rightarrow> lifecycle_context \<Rightarrow> hook_stage \<Rightarrow> ('w, string, unit) io" where
  "run_hook_stage host context' stage =
     io_fold (\<lambda>_. run_hook host context' stage) () (hooks_for_stage (pl_config context') stage)"

definition run_hook_without_container ::
  "'w lifecycle_host \<Rightarrow> string \<Rightarrow> hook_stage \<Rightarrow> hook \<Rightarrow> ('w, string, unit) io" where
  "run_hook_without_container host workspace_root stage h =
     (if hook_location_of stage h \<noteq> On_Host
      then io_fail (fmt [''Hook '', hook_property_name stage, '' must run on host before container creation''])
      else run_host_hook host workspace_root stage h)"

definition run_hook_stage_without_container ::
  "'w lifecycle_host \<Rightarrow> resolved_config \<Rightarrow> string \<Rightarrow> hook_stage \<Rightarrow> ('w, string, unit) io" where
  "run_hook_stage_without_container host config workspace_root stage =
     io_fold (\<lambda>_. run_hook_without_container host workspace_root stage) () (hooks_for_stage config stage)"

section \<open>Redaction\<close>

lemma occurrence_avoids:
  assumes "x @ u @ y = a @ t @ r" "set u \<inter> set t = {}" "t \<noteq> []"
  shows "(\<exists>x' y'. a = x' @ u @ y') \<or> (\<exists>x' y'. r = x' @ u @ y')"
proof -
  consider "length (x @ u) \<le> length a" | "length (a @ t) \<le> length x" | "u = []"
    | "length a < length (x @ u)" "length x < length (a @ t)" "u \<noteq> []" by linarith
  then show ?thesis
  proof cases
    case 1
    have "take (length (x @ u)) ((x @ u) @ y) = take (length (x @ u)) (a @ t @ r)" using assms(1) by simp
    with 1 have "x @ u = take (length (x @ u)) a" by simp
    then have "a = x @ u @ drop (length (x @ u)) a" by (metis append.assoc append_take_drop_id)
    then show ?thesis by blast
  next
    case 2
    have "drop (length (a @ t)) (x @ u @ y) = drop (length (a @ t)) ((a @ t) @ r)" using assms(1) by simp
    with 2 have "r = drop (length (a @ t)) x @ u @ y" by simp
    then show ?thesis by blast
  next
    case 3
    then show ?thesis by auto
  next
    case 4
    let ?i = "max (length x) (length a)"
    have "(x @ u @ y) ! ?i \<in> set u" using 4 by (auto simp: nth_append max_def)
    moreover have "(a @ t @ r) ! ?i \<in> set t" using 4 assms(3) by (auto simp: nth_append max_def)
    ultimately show ?thesis using assms(1,2) by auto
  qed
qed

lemma str_replace_occurrence:
  assumes "p \<noteq> []" "t \<noteq> []" "set u \<inter> set t = {}" "str_contains u (str_replace p t s)"
  shows "str_contains u s \<and> \<not> str_contains p u"
  using assms
proof (induction p t s rule: str_replace.induct)
  case (1 p t s)
  show ?case
  proof (cases "split_once p s")
    case None
    then have "str_contains u s" using 1 by (simp add: str_replace.simps [of p t s])
    moreover have "\<not> str_contains p s" using None by (simp add: str_contains_def)
    ultimately show ?thesis by (auto simp: str_contains_iff) (metis append.assoc)
  next
    case (Some ab)
    then obtain a b where ab: "split_once p s = Some (a, b)" by (cases ab) auto
    have s: "s = a @ p @ b" using split_once_SomeD [OF ab] .
    have "str_contains u (a @ t @ str_replace p t b)"
      using 1(5) 1(2) ab by (simp add: str_replace.simps [of p t s])
    then consider "\<exists>x y. a = x @ u @ y" | "str_contains u (str_replace p t b)"
      unfolding str_contains_iff using occurrence_avoids [OF _ 1(4,3)] by metis
    then show ?thesis
    proof cases
      case 1
      then obtain x y where xy: "a = x @ u @ y" by blast
      have "\<not> str_contains p u"
      proof
        assume "str_contains p u"
        then obtain c d where "u = c @ p @ d" by (auto simp: str_contains_iff)
        then have "s = (x @ c) @ p @ (d @ y @ p @ b)" by (simp add: s xy)
        from split_once_first [OF ab this] show False
          using \<open>u = c @ p @ d\<close> xy \<open>p \<noteq> []\<close> by simp
      qed
      moreover have "str_contains u s" using s xy by (auto simp: str_contains_iff)
      ultimately show ?thesis by blast
    next
      case 2
      from "1.IH" [OF 1(2) ab refl 1(2-4) 2]
      show ?thesis using s by (auto simp: str_contains_iff) (metis append.assoc)
    qed
  qed
qed

lemma redact_values_occurrence:
  assumes "set u \<inter> set redacted_text = {}" "str_contains u (redact_values v redactions)"
  shows "str_contains u v \<and> (\<forall>secret\<in>set redactions. secret \<noteq> [] \<longrightarrow> \<not> str_contains secret u)"
proof -
  have marker: "redacted_text \<noteq> []" by (simp add: redacted_text_def)
  have "str_contains u (foldl (\<lambda>r secret. str_replace secret redacted_text r) v secrets) \<Longrightarrow> [] \<notin> set secrets \<Longrightarrow>
      str_contains u v \<and> (\<forall>secret\<in>set secrets. \<not> str_contains secret u)" for secrets
  proof (induction secrets arbitrary: v)
    case (Cons secret secrets)
    then have *: "str_contains u (str_replace secret redacted_text v)" "\<forall>secret\<in>set secrets. \<not> str_contains secret u"
      by simp_all
    have "secret \<noteq> []" using Cons.prems(2) by auto
    from str_replace_occurrence [OF this marker assms(1) *(1)] *(2) show ?case by simp
  qed simp
  from this [OF assms(2) [unfolded redact_values_def]] show ?thesis by auto
qed

text \<open>A redaction value that shares no character with the marker does not occur in redacted
  text.\<close>

theorem redacted_secrets_do_not_occur:
  assumes "secret \<in> set redactions" "secret \<noteq> []" "set secret \<inter> set redacted_text = {}"
  shows "\<not> str_contains secret (redact_values v redactions)"
proof
  assume "str_contains secret (redact_values v redactions)"
  moreover have "str_contains secret secret" unfolding str_contains_iff by (metis append_Nil append_Nil2)
  ultimately show False using redact_values_occurrence [OF assms(3)] assms(1,2) by blast
qed

theorem redacted_secrets_do_not_occur_witness:
  "\<not> str_contains ''token'' (redact_values ''login token failed'' [''pass'', ''token''])"
  by (rule redacted_secrets_do_not_occur) (simp_all add: redacted_text_def)

text \<open>A secret that begins with a shorter one is not redacted as a whole: its tail stays.\<close>

lemma redaction_leaves_a_tail:
  "redact_values ''abcdef'' [''abc'', ''abcdef''] = ''[REDACTED]def''"
  by (simp add: redact_values_def redacted_text_def str_replace.simps)

section \<open>Commands that are run\<close>

lemma argv_of_wf_simple: "wf_simple_command c \<Longrightarrow> lifecycle_command_argv c \<noteq> []"
  by (cases c) (simp_all add: shell_argv_def)

end
