(* ===== verification/Lifecycle_Sequence.thy ===== *)
theory Lifecycle_Sequence
  imports Lifecycle_Run
begin

text \<open>
  The order of the lifecycle: \<open>sequence.rs\<close> and \<open>run.rs\<close> of \<open>src/devcontainer/lifecycle\<close> and the
  completion flags of \<open>src/state.rs\<close>, which survive a failed run. The hooks, the stages and the
  saving of the state are three operations over the state of the world, which the run threads
  together with the completion flags. Observed runs record what was attempted; an abstract
  machine says which attempts the flags on disk allow, and every sequence of runs, each of which
  may fail anywhere and starts from the flags last saved, is a run of that machine.
\<close>

section \<open>Completion flags\<close>

datatype lifecycle_completion = Completion_On_Create | Completion_Update_Content | Completion_Post_Create

record stage_completion =
  sc_completed :: bool
  sc_after_completed :: bool

record lifecycle_state =
  ls_on_create :: stage_completion
  ls_update_content :: stage_completion
  ls_post_create :: stage_completion

definition fresh_lifecycle_state :: lifecycle_state where
  "fresh_lifecycle_state =
     (let none = \<lparr>sc_completed = False, sc_after_completed = False\<rparr>
      in \<lparr>ls_on_create = none, ls_update_content = none, ls_post_create = none\<rparr>)"

fun is_command_completed :: "lifecycle_state \<Rightarrow> lifecycle_completion \<Rightarrow> bool" where
  "is_command_completed s Completion_On_Create = sc_completed (ls_on_create s)"
| "is_command_completed s Completion_Update_Content = sc_completed (ls_update_content s)"
| "is_command_completed s Completion_Post_Create = sc_completed (ls_post_create s)"

fun is_after_hook_completed :: "lifecycle_state \<Rightarrow> lifecycle_completion \<Rightarrow> bool" where
  "is_after_hook_completed s Completion_On_Create = sc_after_completed (ls_on_create s)"
| "is_after_hook_completed s Completion_Update_Content = sc_after_completed (ls_update_content s)"
| "is_after_hook_completed s Completion_Post_Create = sc_after_completed (ls_post_create s)"

definition is_completed :: "lifecycle_state \<Rightarrow> lifecycle_completion \<Rightarrow> bool" where
  "is_completed s c = (is_command_completed s c \<and> is_after_hook_completed s c)"

fun mark_command_completed :: "lifecycle_completion \<Rightarrow> lifecycle_state \<Rightarrow> lifecycle_state" where
  "mark_command_completed Completion_On_Create s = s\<lparr>ls_on_create := (ls_on_create s)\<lparr>sc_completed := True\<rparr>\<rparr>"
| "mark_command_completed Completion_Update_Content s =
     s\<lparr>ls_update_content := (ls_update_content s)\<lparr>sc_completed := True\<rparr>\<rparr>"
| "mark_command_completed Completion_Post_Create s = s\<lparr>ls_post_create := (ls_post_create s)\<lparr>sc_completed := True\<rparr>\<rparr>"

fun mark_after_hook_completed :: "lifecycle_completion \<Rightarrow> lifecycle_state \<Rightarrow> lifecycle_state" where
  "mark_after_hook_completed Completion_On_Create s =
     s\<lparr>ls_on_create := (ls_on_create s)\<lparr>sc_after_completed := True\<rparr>\<rparr>"
| "mark_after_hook_completed Completion_Update_Content s =
     s\<lparr>ls_update_content := (ls_update_content s)\<lparr>sc_after_completed := True\<rparr>\<rparr>"
| "mark_after_hook_completed Completion_Post_Create s =
     s\<lparr>ls_post_create := (ls_post_create s)\<lparr>sc_after_completed := True\<rparr>\<rparr>"

section \<open>The sequence\<close>

record creation_stage =
  cs_completion :: lifecycle_completion
  cs_before_hook :: hook_stage
  cs_lifecycle_stage :: lifecycle_stage

definition creation_lifecycle_stages :: "creation_stage list" where
  "creation_lifecycle_stages =
     [\<lparr>cs_completion = Completion_On_Create, cs_before_hook = Before_On_Create, cs_lifecycle_stage = On_Create\<rparr>,
      \<lparr>cs_completion = Completion_Update_Content, cs_before_hook = Before_Update_Content,
       cs_lifecycle_stage = Update_Content\<rparr>,
      \<lparr>cs_completion = Completion_Post_Create, cs_before_hook = Before_Post_Create,
       cs_lifecycle_stage = Post_Create\<rparr>]"

definition has_pending_creation_lifecycle :: "lifecycle_state \<Rightarrow> bool" where
  "has_pending_creation_lifecycle s =
     list_ex (\<lambda>stage. \<not> is_completed s (cs_completion stage)) creation_lifecycle_stages"

fun after_hook_stage :: "hook_stage \<Rightarrow> hook_stage result" where
  "after_hook_stage Before_On_Create = Inr After_On_Create"
| "after_hook_stage Before_Update_Content = Inr After_Update_Content"
| "after_hook_stage Before_Post_Create = Inr After_Post_Create"
| "after_hook_stage Before_Post_Start = Inr After_Post_Start"
| "after_hook_stage Before_Post_Attach = Inr After_Post_Attach"
| "after_hook_stage Before_Initialize = Inl ''Hook stage does not have a container after hook''"
| "after_hook_stage After_Initialize = Inl ''Hook stage does not have a container after hook''"
| "after_hook_stage _ = Inl ''Hook stage is already an after hook''"

section \<open>Running it\<close>

record 'w lifecycle_runner =
  lr_hook :: "hook_stage \<Rightarrow> ('w, string, unit) io"
  lr_stage :: "lifecycle_stage \<Rightarrow> ('w, string, unit) io"
  lr_save :: "lifecycle_state \<Rightarrow> ('w, string, unit) io"

text \<open>The runner of the program: hooks and stages in the container, and the caller's saving.\<close>

definition container_runner ::
  "'w lifecycle_host \<Rightarrow> lifecycle_context \<Rightarrow> (lifecycle_state \<Rightarrow> ('w, string, unit) io) \<Rightarrow> 'w lifecycle_runner" where
  "container_runner host context' save_state =
     \<lparr>lr_hook = run_hook_stage host context', lr_stage = run_lifecycle_stage host context', lr_save = save_state\<rparr>"

type_synonym ('w, 'a) stateful = "('w \<times> lifecycle_state, string, 'a) io"

definition on_world :: "('w, string, 'a) io \<Rightarrow> ('w, 'a) stateful" where
  "on_world m p = (case m (fst p) of (r, w) \<Rightarrow> (r, (w, snd p)))"

definition update_flags :: "(lifecycle_state \<Rightarrow> lifecycle_state) \<Rightarrow> ('w, unit) stateful" where
  "update_flags f p = (Inr (), (fst p, f (snd p)))"

definition save_flags :: "'w lifecycle_runner \<Rightarrow> ('w, unit) stateful" where
  "save_flags runner p = on_world (lr_save runner (snd p)) p"

definition run_creation_command :: "'w lifecycle_runner \<Rightarrow> creation_stage \<Rightarrow> ('w, unit) stateful" where
  "run_creation_command runner stage =
     io_bind (on_world (lr_hook runner (cs_before_hook stage))) (\<lambda>_.
     io_bind (on_world (lr_stage runner (cs_lifecycle_stage stage))) (\<lambda>_.
     io_bind (update_flags (mark_command_completed (cs_completion stage))) (\<lambda>_. save_flags runner)))"

definition run_creation_after_hook :: "'w lifecycle_runner \<Rightarrow> creation_stage \<Rightarrow> ('w, unit) stateful" where
  "run_creation_after_hook runner stage =
     io_bind (io_lift (after_hook_stage (cs_before_hook stage))) (\<lambda>after_hook.
     io_bind (on_world (lr_hook runner after_hook)) (\<lambda>_.
     io_bind (update_flags (mark_after_hook_completed (cs_completion stage))) (\<lambda>_. save_flags runner)))"

definition run_container_creation_stage :: "'w lifecycle_runner \<Rightarrow> creation_stage \<Rightarrow> ('w, unit) stateful" where
  "run_container_creation_stage runner stage p =
     (if is_completed (snd p) (cs_completion stage) then io_return () p
      else io_bind
        (\<lambda>p. if is_command_completed (snd p) (cs_completion stage) then io_return () p
             else run_creation_command runner stage p)
        (\<lambda>_ p. if is_after_hook_completed (snd p) (cs_completion stage) then io_return () p
               else run_creation_after_hook runner stage p) p)"

definition run_pending_creation_lifecycle :: "'w lifecycle_runner \<Rightarrow> ('w, unit) stateful" where
  "run_pending_creation_lifecycle runner =
     io_fold (\<lambda>_. run_container_creation_stage runner) () creation_lifecycle_stages"

definition run_container_stage :: "'w lifecycle_runner \<Rightarrow> hook_stage \<Rightarrow> lifecycle_stage \<Rightarrow> ('w, string, unit) io" where
  "run_container_stage runner before_hook stage =
     io_bind (lr_hook runner before_hook) (\<lambda>_.
     io_bind (lr_stage runner stage) (\<lambda>_.
     io_bind (io_lift (after_hook_stage before_hook)) (\<lambda>after_hook. lr_hook runner after_hook)))"

definition run_container_start_lifecycle ::
  "lifecycle_run_path \<Rightarrow> 'w lifecycle_runner \<Rightarrow> ('w, unit) stateful" where
  "run_container_start_lifecycle path runner p =
     (let pending_creation = has_pending_creation_lifecycle (snd p)
      in io_bind (run_pending_creation_lifecycle runner) (\<lambda>_.
           case path of
             Container_Running \<Rightarrow>
               if pending_creation then on_world (run_container_stage runner Before_Post_Start Post_Start)
               else io_return ()
           | _ \<Rightarrow> on_world (run_container_stage runner Before_Post_Start Post_Start)) p)"

definition run_attach_lifecycle :: "'w lifecycle_runner \<Rightarrow> ('w, string, unit) io" where
  "run_attach_lifecycle runner = run_container_stage runner Before_Post_Attach Post_Attach"

definition run_host_initialize_lifecycle ::
  "'w lifecycle_host \<Rightarrow> resolved_config \<Rightarrow> string \<Rightarrow> ('w, string, unit) io" where
  "run_host_initialize_lifecycle host config workspace_root =
     io_bind (run_hook_stage_without_container host config workspace_root Before_Initialize) (\<lambda>_.
     io_bind (run_host_lifecycle_command host config workspace_root Initialize) (\<lambda>_.
     run_hook_stage_without_container host config workspace_root After_Initialize))"

section \<open>The plan\<close>

text \<open>What a run without failures executes, as \<open>container_start_lifecycle_plan_with_state\<close> lists it
  after the steps that prepare the container.\<close>

datatype lifecycle_step = Hook_Step hook_stage | Stage_Step lifecycle_stage

definition creation_steps :: "lifecycle_state \<Rightarrow> creation_stage \<Rightarrow> lifecycle_step list" where
  "creation_steps s stage =
     (let c = cs_completion stage
      in if is_completed s c then []
         else (if is_command_completed s c then []
               else [Hook_Step (cs_before_hook stage), Stage_Step (cs_lifecycle_stage stage)]) @
              (if is_after_hook_completed s c then []
               else (case after_hook_stage (cs_before_hook stage) of
                       Inr h \<Rightarrow> [Hook_Step h] | Inl _ \<Rightarrow> [])))"

definition start_lifecycle_steps :: "lifecycle_run_path \<Rightarrow> lifecycle_state \<Rightarrow> lifecycle_step list" where
  "start_lifecycle_steps path s =
     concat (map (creation_steps s) creation_lifecycle_stages) @
     (if path \<noteq> Container_Running \<or> has_pending_creation_lifecycle s
      then [Hook_Step Before_Post_Start, Stage_Step Post_Start, Hook_Step After_Post_Start] else [])"

section \<open>Observed runs\<close>

datatype lifecycle_event = Step_Event lifecycle_step | Save_Event lifecycle_state

type_synonym lifecycle_log = "(lifecycle_event \<times> bool) list"

definition observe :: "lifecycle_event \<Rightarrow> ('w, string, unit) io \<Rightarrow> ('w \<times> lifecycle_log, string, unit) io" where
  "observe e m p = (case m (fst p) of (r, w) \<Rightarrow> (r, (w, snd p @ [(e, r = Inr ())])))"

definition observed :: "'w lifecycle_runner \<Rightarrow> ('w \<times> lifecycle_log) lifecycle_runner" where
  "observed runner =
     \<lparr>lr_hook = \<lambda>h. observe (Step_Event (Hook_Step h)) (lr_hook runner h),
      lr_stage = \<lambda>t. observe (Step_Event (Stage_Step t)) (lr_stage runner t),
      lr_save = \<lambda>s. observe (Save_Event s) (lr_save runner s)\<rparr>"

text \<open>The flags on disk: those of the last successful save.\<close>

definition disk_step :: "lifecycle_state \<Rightarrow> lifecycle_event \<times> bool \<Rightarrow> lifecycle_state" where
  "disk_step d e = (case e of (Save_Event s, True) \<Rightarrow> s | _ \<Rightarrow> d)"

definition disk :: "lifecycle_state \<Rightarrow> lifecycle_log \<Rightarrow> lifecycle_state" where
  "disk d l = foldl disk_step d l"

text \<open>A run reads the flags from disk, whatever happened to the run before it.\<close>

fun run_sessions ::
  "'w lifecycle_runner \<Rightarrow> lifecycle_state \<Rightarrow> lifecycle_run_path list \<Rightarrow> 'w \<times> lifecycle_log \<Rightarrow> 'w \<times> lifecycle_log" where
  "run_sessions runner d [] p = p"
| "run_sessions runner d (path # paths) p =
     run_sessions runner d paths
       (fst (snd (run_container_start_lifecycle path (observed runner) (p, disk d (snd p)))))"

section \<open>The machine of the flags on disk\<close>

fun earlier :: "lifecycle_completion \<Rightarrow> lifecycle_completion list" where
  "earlier Completion_On_Create = []"
| "earlier Completion_Update_Content = [Completion_On_Create]"
| "earlier Completion_Post_Create = [Completion_On_Create, Completion_Update_Content]"

definition due :: "lifecycle_state \<Rightarrow> creation_stage \<Rightarrow> bool" where
  "due d stage = (\<forall>c\<in>set (earlier (cs_completion stage)). is_completed d c)"

abbreviation hook_event :: "hook_stage \<Rightarrow> lifecycle_event" where
  "hook_event h \<equiv> Step_Event (Hook_Step h)"

abbreviation stage_event :: "lifecycle_stage \<Rightarrow> lifecycle_event" where
  "stage_event t \<equiv> Step_Event (Stage_Step t)"

text \<open>
  What may be attempted, given the flags on disk and the event before it when it succeeded.
\<close>

inductive allowed :: "lifecycle_state \<Rightarrow> lifecycle_event option \<Rightarrow> lifecycle_event \<Rightarrow> bool" where
  before_hook: "stage \<in> set creation_lifecycle_stages \<Longrightarrow> due d stage \<Longrightarrow>
    \<not> is_command_completed d (cs_completion stage) \<Longrightarrow> allowed d previous (hook_event (cs_before_hook stage))"
| command: "stage \<in> set creation_lifecycle_stages \<Longrightarrow> due d stage \<Longrightarrow>
    \<not> is_command_completed d (cs_completion stage) \<Longrightarrow> previous = Some (hook_event (cs_before_hook stage)) \<Longrightarrow>
    allowed d previous (stage_event (cs_lifecycle_stage stage))"
| save_command: "stage \<in> set creation_lifecycle_stages \<Longrightarrow> due d stage \<Longrightarrow>
    \<not> is_command_completed d (cs_completion stage) \<Longrightarrow> previous = Some (stage_event (cs_lifecycle_stage stage)) \<Longrightarrow>
    allowed d previous (Save_Event (mark_command_completed (cs_completion stage) d))"
| after_hook: "stage \<in> set creation_lifecycle_stages \<Longrightarrow> due d stage \<Longrightarrow>
    is_command_completed d (cs_completion stage) \<Longrightarrow> \<not> is_after_hook_completed d (cs_completion stage) \<Longrightarrow>
    after_hook_stage (cs_before_hook stage) = Inr h \<Longrightarrow> allowed d previous (hook_event h)"
| save_after_hook: "stage \<in> set creation_lifecycle_stages \<Longrightarrow> due d stage \<Longrightarrow>
    is_command_completed d (cs_completion stage) \<Longrightarrow> \<not> is_after_hook_completed d (cs_completion stage) \<Longrightarrow>
    after_hook_stage (cs_before_hook stage) = Inr h \<Longrightarrow> previous = Some (hook_event h) \<Longrightarrow>
    allowed d previous (Save_Event (mark_after_hook_completed (cs_completion stage) d))"
| before_post_start: "\<not> has_pending_creation_lifecycle d \<Longrightarrow> allowed d previous (hook_event Before_Post_Start)"
| post_start: "\<not> has_pending_creation_lifecycle d \<Longrightarrow> previous = Some (hook_event Before_Post_Start) \<Longrightarrow>
    allowed d previous (stage_event Post_Start)"
| after_post_start: "\<not> has_pending_creation_lifecycle d \<Longrightarrow> previous = Some (stage_event Post_Start) \<Longrightarrow>
    allowed d previous (hook_event After_Post_Start)"

inductive_simps allowed_stage: "allowed d previous (stage_event t)"
inductive_simps allowed_hook: "allowed d previous (hook_event h)"
inductive_simps allowed_save: "allowed d previous (Save_Event s)"

definition previous_event :: "lifecycle_log \<Rightarrow> lifecycle_event option" where
  "previous_event l = (if l \<noteq> [] \<and> snd (last l) then Some (fst (last l)) else None)"

inductive lawful :: "lifecycle_state \<Rightarrow> lifecycle_log \<Rightarrow> bool" for d :: lifecycle_state where
  start: "lawful d []"
| attempt: "lawful d l \<Longrightarrow> allowed (disk d l) (previous_event l) e \<Longrightarrow> lawful d (l @ [(e, ok)])"

inductive_cases lawful_snocE: "lawful d (l @ [x])"

section \<open>Runs are lawful\<close>

definition triple ::
  "(lifecycle_log \<Rightarrow> lifecycle_state \<Rightarrow> bool) \<Rightarrow> ('w \<times> lifecycle_log, 'a) stateful \<Rightarrow>
   (lifecycle_log \<Rightarrow> lifecycle_state \<Rightarrow> bool) \<Rightarrow> (lifecycle_log \<Rightarrow> bool) \<Rightarrow> bool" where
  "triple P m Q E = (\<forall>w l s. P l s \<longrightarrow>
     (case m ((w, l), s) of
        (Inr _, ((_, l'), s')) \<Rightarrow> Q l' s'
      | (Inl _, ((_, l'), _)) \<Rightarrow> E l'))"

lemma triple_bind:
  assumes "triple P m Q E" "\<And>a. triple Q (f a) R E"
  shows "triple P (io_bind m f) R E"
  unfolding triple_def
proof (intro allI impI)
  fix w l s
  assume "P l s"
  with assms(1) have 1: "case m ((w, l), s) of (Inr _, ((_, l'), s')) \<Rightarrow> Q l' s' | (Inl _, ((_, l'), _)) \<Rightarrow> E l'"
    by (simp add: triple_def)
  obtain r w' l' s' where m: "m ((w, l), s) = (r, ((w', l'), s'))" by (metis surj_pair)
  show "case io_bind m f ((w, l), s) of (Inr _, ((_, l'), s')) \<Rightarrow> R l' s' | (Inl _, ((_, l'), _)) \<Rightarrow> E l'"
  proof (cases r)
    case (Inr a)
    then have "Q l' s'" using 1 m by simp
    with assms(2) [of a] show ?thesis by (simp add: triple_def io_bind_def m Inr)
  qed (use 1 m in \<open>simp add: io_bind_def\<close>)
qed

lemma triple_return: "(\<And>l s. P l s \<Longrightarrow> Q l s) \<Longrightarrow> triple P (io_return a) Q E"
  by (simp add: triple_def io_return_def)

lemma triple_observe:
  assumes "\<And>l s. P l s \<Longrightarrow> Q (l @ [(e, True)]) s" "\<And>l s. P l s \<Longrightarrow> E (l @ [(e, False)])"
  shows "triple P (on_world (observe e m)) Q E"
  using assms by (auto simp: triple_def on_world_def observe_def split: prod.splits sum.splits)

lemma triple_save:
  assumes "\<And>l s. P l s \<Longrightarrow> Q (l @ [(Save_Event s, True)]) s" "\<And>l s. P l s \<Longrightarrow> E (l @ [(Save_Event s, False)])"
  shows "triple P (save_flags (observed runner)) Q E"
  using assms
  by (auto simp: triple_def save_flags_def observed_def on_world_def observe_def split: prod.splits sum.splits)

lemma triple_update: "(\<And>l s. P l s \<Longrightarrow> Q l (f s)) \<Longrightarrow> triple P (update_flags f) Q E"
  by (simp add: triple_def update_flags_def)

lemma triple_if:
  assumes "triple (\<lambda>l s. P l s \<and> c s) m Q E" "triple (\<lambda>l s. P l s \<and> \<not> c s) n Q E"
  shows "triple P (\<lambda>p. if c (snd p) then m p else n p) Q E"
  using assms by (simp add: triple_def)

lemma triple_weaken: "triple P m Q E \<Longrightarrow> (\<And>l s. P' l s \<Longrightarrow> P l s) \<Longrightarrow> (\<And>l s. Q l s \<Longrightarrow> Q' l s) \<Longrightarrow> triple P' m Q' E"
  by (simp add: triple_def split: prod.splits sum.splits) blast

text \<open>Between two steps of a run the flags in memory are those on disk.\<close>

definition in_step :: "lifecycle_state \<Rightarrow> lifecycle_log \<Rightarrow> lifecycle_state \<Rightarrow> bool" where
  "in_step d l s = (lawful d l \<and> s = disk d l)"

lemma disk_snoc [simp]: "disk d (l @ [x]) = disk_step (disk d l) x"
  by (simp add: disk_def)

lemma disk_step_simps [simp]:
  "disk_step d (Step_Event st, ok) = d" "disk_step d (Save_Event s, True) = s" "disk_step d (e, False) = d"
  by (auto simp: disk_step_def split: lifecycle_event.split)

lemma previous_event_snoc [simp]:
  "previous_event (l @ [(e, True)]) = Some e" "previous_event (l @ [(e, False)]) = None"
  by (simp_all add: previous_event_def)

lemma lawful_step:
  assumes "in_step d l s" "allowed s (previous_event l) (Step_Event st)"
  shows "in_step d (l @ [(Step_Event st, ok)]) s"
  using assms by (auto simp: in_step_def intro: lawful.attempt)

lemma lawful_save:
  assumes "in_step d l s" "allowed s (previous_event l) (Save_Event t)"
  shows "lawful d (l @ [(Save_Event t, ok)])" "in_step d (l @ [(Save_Event t, True)]) t"
  using assms by (auto simp: in_step_def intro: lawful.attempt)

lemma mark_command_simps [simp]:
  "is_command_completed (mark_command_completed c s) c' = (c' = c \<or> is_command_completed s c')"
  "is_after_hook_completed (mark_command_completed c s) c' = is_after_hook_completed s c'"
  "is_command_completed (mark_after_hook_completed c s) c' = is_command_completed s c'"
  "is_after_hook_completed (mark_after_hook_completed c s) c' = (c' = c \<or> is_after_hook_completed s c')"
  by (cases c; cases c'; simp)+

lemma not_earlier [simp]: "c \<notin> set (earlier c)"
  by (cases c) simp_all

lemma due_mark [simp]:
  "due (mark_command_completed (cs_completion stage) s) stage = due s stage"
  "due (mark_after_hook_completed (cs_completion stage) s) stage = due s stage"
  by (auto simp: due_def is_completed_def)

lemma creation_command_triple:
  assumes stage: "stage \<in> set creation_lifecycle_stages"
  shows "triple (\<lambda>l s. in_step d l s \<and> due s stage \<and> \<not> is_command_completed s (cs_completion stage))
    (run_creation_command (observed runner) stage)
    (\<lambda>l s. in_step d l s \<and> due s stage \<and> is_command_completed s (cs_completion stage)) (lawful d)"
proof -
  let ?P = "\<lambda>l s. in_step d l s \<and> due s stage \<and> \<not> is_command_completed s (cs_completion stage)"
  let ?hook = "hook_event (cs_before_hook stage)" and ?cmd = "stage_event (cs_lifecycle_stage stage)"
  let ?mark = "mark_command_completed (cs_completion stage)"
  have 1: "triple ?P (on_world (lr_hook (observed runner) (cs_before_hook stage)))
      (\<lambda>l s. ?P l s \<and> previous_event l = Some ?hook) (lawful d)"
    unfolding observed_def lifecycle_runner.simps
    by (rule triple_observe)
       (use lawful_step [OF _ allowed.before_hook [OF stage]] in \<open>auto simp: in_step_def\<close>)
  have 2: "triple (\<lambda>l s. ?P l s \<and> previous_event l = Some ?hook)
      (on_world (lr_stage (observed runner) (cs_lifecycle_stage stage)))
      (\<lambda>l s. ?P l s \<and> previous_event l = Some ?cmd) (lawful d)"
    unfolding observed_def lifecycle_runner.simps
    by (rule triple_observe)
       (use lawful_step [OF _ allowed.command [OF stage]] in \<open>auto simp: in_step_def\<close>)
  let ?M = "\<lambda>l s. \<exists>s'. s = ?mark s' \<and> ?P l s' \<and> previous_event l = Some ?cmd"
  have 3: "triple (\<lambda>l s. ?P l s \<and> previous_event l = Some ?cmd) (update_flags ?mark) ?M (lawful d)"
    by (rule triple_update) blast
  have 4: "triple ?M (save_flags (observed runner))
      (\<lambda>l s. in_step d l s \<and> due s stage \<and> is_command_completed s (cs_completion stage)) (lawful d)"
  proof (rule triple_save)
    fix l s
    assume "?M l s"
    then obtain s' where s': "s = ?mark s'" "in_step d l s'" "due s' stage"
      "\<not> is_command_completed s' (cs_completion stage)" "previous_event l = Some ?cmd" by blast
    note save = lawful_save [OF s'(2) allowed.save_command [OF stage s'(3,4,5)]]
    show "in_step d (l @ [(Save_Event s, True)]) s \<and> due s stage \<and> is_command_completed s (cs_completion stage)"
      using save(2) s' by simp
    show "lawful d (l @ [(Save_Event s, False)])" using save(1) s'(1) by simp
  qed
  show ?thesis unfolding run_creation_command_def by (intro triple_bind [OF 1] triple_bind [OF 2] triple_bind [OF 3] 4)
qed

lemma creation_after_hook_triple:
  assumes stage: "stage \<in> set creation_lifecycle_stages"
  shows "triple (\<lambda>l s. in_step d l s \<and> due s stage \<and> is_command_completed s (cs_completion stage) \<and>
      \<not> is_after_hook_completed s (cs_completion stage))
    (run_creation_after_hook (observed runner) stage)
    (\<lambda>l s. in_step d l s \<and> due s stage \<and> is_completed s (cs_completion stage)) (lawful d)"
proof -
  let ?c = "cs_completion stage"
  let ?P = "\<lambda>l s. in_step d l s \<and> due s stage \<and> is_command_completed s ?c \<and> \<not> is_after_hook_completed s ?c"
  let ?mark = "mark_after_hook_completed ?c"
  obtain h where h: "after_hook_stage (cs_before_hook stage) = Inr h"
    using stage by (auto simp: creation_lifecycle_stages_def)
  let ?M = "\<lambda>l s. \<exists>s'. s = ?mark s' \<and> ?P l s' \<and> previous_event l = Some (hook_event h)"
  have 1: "triple ?P (on_world (lr_hook (observed runner) h))
      (\<lambda>l s. ?P l s \<and> previous_event l = Some (hook_event h)) (lawful d)"
    unfolding observed_def lifecycle_runner.simps
    by (rule triple_observe)
       (use lawful_step [OF _ allowed.after_hook [OF stage _ _ _ h]] in \<open>auto simp: in_step_def\<close>)
  have 2: "triple (\<lambda>l s. ?P l s \<and> previous_event l = Some (hook_event h)) (update_flags ?mark) ?M (lawful d)"
    by (rule triple_update) blast
  have 3: "triple ?M (save_flags (observed runner))
      (\<lambda>l s. in_step d l s \<and> due s stage \<and> is_completed s ?c) (lawful d)"
  proof (rule triple_save)
    fix l s
    assume "?M l s"
    then obtain s' where s': "s = ?mark s'" "in_step d l s'" "due s' stage" "is_command_completed s' ?c"
      "\<not> is_after_hook_completed s' ?c" "previous_event l = Some (hook_event h)" by blast
    note save = lawful_save [OF s'(2) allowed.save_after_hook [OF stage s'(3,4,5) h s'(6)]]
    show "in_step d (l @ [(Save_Event s, True)]) s \<and> due s stage \<and> is_completed s ?c"
      using save(2) s' by (simp add: is_completed_def)
    show "lawful d (l @ [(Save_Event s, False)])" using save(1) s'(1) by simp
  qed
  have "triple ?P (io_bind (io_lift (Inr h)) (\<lambda>after_hook.
      io_bind (on_world (lr_hook (observed runner) after_hook)) (\<lambda>_.
      io_bind (update_flags ?mark) (\<lambda>_. save_flags (observed runner)))))
      (\<lambda>l s. in_step d l s \<and> due s stage \<and> is_completed s ?c) (lawful d)"
    using triple_bind [OF 1 triple_bind [OF 2 3]] by (simp add: triple_def io_bind_def [of "io_lift _"] io_lift_def)
  then show ?thesis by (simp add: run_creation_after_hook_def h)
qed

lemma creation_stage_triple:
  assumes stage: "stage \<in> set creation_lifecycle_stages"
  shows "triple (\<lambda>l s. in_step d l s \<and> due s stage) (run_container_creation_stage (observed runner) stage)
    (\<lambda>l s. in_step d l s \<and> due s stage \<and> is_completed s (cs_completion stage)) (lawful d)"
proof -
  let ?c = "cs_completion stage"
  let ?Q = "\<lambda>l s. in_step d l s \<and> due s stage \<and> is_completed s ?c"
  let ?M = "\<lambda>l s. in_step d l s \<and> due s stage \<and> is_command_completed s ?c"
  have 1: "triple (\<lambda>l s. in_step d l s \<and> due s stage)
      (\<lambda>p. if is_command_completed (snd p) ?c then io_return () p else run_creation_command (observed runner) stage p)
      ?M (lawful d)"
    by (rule triple_if)
       (auto intro: triple_return triple_weaken [OF creation_command_triple [OF stage]])
  have 2: "triple ?M
      (\<lambda>p. if is_after_hook_completed (snd p) ?c then io_return () p
           else run_creation_after_hook (observed runner) stage p) ?Q (lawful d)"
  proof (rule triple_if)
    show "triple (\<lambda>l s. ?M l s \<and> is_after_hook_completed s ?c) (io_return ()) ?Q (lawful d)"
      by (rule triple_return) (simp add: is_completed_def)
    show "triple (\<lambda>l s. ?M l s \<and> \<not> is_after_hook_completed s ?c)
        (run_creation_after_hook (observed runner) stage) ?Q (lawful d)"
      by (rule triple_weaken [OF creation_after_hook_triple [OF stage]]) simp_all
  qed
  show ?thesis unfolding run_container_creation_stage_def
    by (rule triple_if [where c = "\<lambda>s. is_completed s ?c"])
       (auto intro: triple_return triple_weaken [OF triple_bind [OF 1 2]])
qed

lemma pending_creation_triple:
  "triple (in_step d) (run_pending_creation_lifecycle (observed runner))
    (\<lambda>l s. in_step d l s \<and> \<not> has_pending_creation_lifecycle s) (lawful d)"
proof -
  let ?stage = "\<lambda>k. creation_lifecycle_stages ! k"
  have stages: "creation_lifecycle_stages = [?stage 0, ?stage 1, ?stage 2]"
    "?stage 0 \<in> set creation_lifecycle_stages" "?stage 1 \<in> set creation_lifecycle_stages"
    "?stage 2 \<in> set creation_lifecycle_stages"
    by (simp_all add: creation_lifecycle_stages_def)
  have due: "due s (?stage 0)" "due s (?stage 1) \<longleftrightarrow> is_completed s (cs_completion (?stage 0))"
    "due s (?stage 2) \<longleftrightarrow> due s (?stage 1) \<and> is_completed s (cs_completion (?stage 1))"
    "\<not> has_pending_creation_lifecycle s \<longleftrightarrow> due s (?stage 2) \<and> is_completed s (cs_completion (?stage 2))" for s
    by (auto simp: due_def creation_lifecycle_stages_def has_pending_creation_lifecycle_def)
  note t = creation_stage_triple [of _ d runner]
  have 1: "triple (in_step d) (run_container_creation_stage (observed runner) (?stage 0))
      (\<lambda>l s. in_step d l s \<and> due s (?stage 1)) (lawful d)"
    by (rule triple_weaken [OF t [OF stages(2)]]) (auto simp only: due)
  have 2: "triple (\<lambda>l s. in_step d l s \<and> due s (?stage 1)) (run_container_creation_stage (observed runner) (?stage 1))
      (\<lambda>l s. in_step d l s \<and> due s (?stage 2)) (lawful d)"
    by (rule triple_weaken [OF t [OF stages(3)]]) (auto simp only: due)
  have 3: "triple (\<lambda>l s. in_step d l s \<and> due s (?stage 2)) (run_container_creation_stage (observed runner) (?stage 2))
      (\<lambda>l s. in_step d l s \<and> \<not> has_pending_creation_lifecycle s) (lawful d)"
    by (rule triple_weaken [OF t [OF stages(4)]]) (auto simp only: due)
  have 4: "triple (\<lambda>l s. in_step d l s \<and> \<not> has_pending_creation_lifecycle s) (io_return a)
      (\<lambda>l s. in_step d l s \<and> \<not> has_pending_creation_lifecycle s) (lawful d)" for a :: unit
    by (rule triple_return)
  show ?thesis unfolding run_pending_creation_lifecycle_def
    by (subst stages(1), unfold io_fold.simps)
       (intro triple_bind [OF 1] triple_bind [OF 2] triple_bind [OF 3] 4)
qed

lemma on_world_bind: "on_world (io_bind m f) = io_bind (on_world m) (\<lambda>a. on_world (f a))"
  by (rule ext) (auto simp: on_world_def io_bind_def split: prod.splits sum.splits)

lemma on_world_lift: "on_world (io_lift r) = io_lift r"
  by (rule ext) (simp add: on_world_def io_lift_def)

lemma io_bind_lift_Inr [simp]: "io_bind (io_lift (Inr a)) f = f a"
  by (rule ext) (simp add: io_bind_def io_lift_def)

lemma post_start_triple:
  "triple (\<lambda>l s. in_step d l s \<and> \<not> has_pending_creation_lifecycle s)
    (on_world (run_container_stage (observed runner) Before_Post_Start Post_Start)) (\<lambda>l s. lawful d l) (lawful d)"
proof -
  let ?P = "\<lambda>l s. in_step d l s \<and> \<not> has_pending_creation_lifecycle s"
  have 1: "triple ?P (on_world (lr_hook (observed runner) Before_Post_Start))
      (\<lambda>l s. ?P l s \<and> previous_event l = Some (hook_event Before_Post_Start)) (lawful d)"
    unfolding observed_def lifecycle_runner.simps
    by (rule triple_observe) (use lawful_step [OF _ allowed.before_post_start] in \<open>auto simp: in_step_def\<close>)
  have 2: "triple (\<lambda>l s. ?P l s \<and> previous_event l = Some (hook_event Before_Post_Start))
      (on_world (lr_stage (observed runner) Post_Start))
      (\<lambda>l s. ?P l s \<and> previous_event l = Some (stage_event Post_Start)) (lawful d)"
    unfolding observed_def lifecycle_runner.simps
    by (rule triple_observe) (use lawful_step [OF _ allowed.post_start] in \<open>auto simp: in_step_def\<close>)
  have 3: "triple (\<lambda>l s. ?P l s \<and> previous_event l = Some (stage_event Post_Start))
      (on_world (lr_hook (observed runner) After_Post_Start)) (\<lambda>l s. lawful d l) (lawful d)"
    unfolding observed_def lifecycle_runner.simps
    by (rule triple_observe) (use lawful_step [OF _ allowed.after_post_start] in \<open>auto simp: in_step_def\<close>)
  show ?thesis unfolding run_container_stage_def on_world_bind on_world_lift after_hook_stage.simps io_bind_lift_Inr
    by (intro triple_bind [OF 1] triple_bind [OF 2] 3)
qed

lemma triple_result:
  "triple P m (\<lambda>l s. R l) R \<Longrightarrow> P l s \<Longrightarrow> R (snd (fst (snd (m ((w, l), s)))))"
proof -
  assume "triple P m (\<lambda>l s. R l) R" "P l s"
  then have "case m ((w, l), s) of (Inr _, ((_, l'), _)) \<Rightarrow> R l' | (Inl _, ((_, l'), _)) \<Rightarrow> R l'"
    by (simp add: triple_def)
  then show ?thesis by (cases "m ((w, l), s)"; cases "fst (m ((w, l), s))") (auto split: prod.splits)
qed

lemma run_is_lawful:
  assumes "lawful d l"
  shows "lawful d (snd (fst (snd (run_container_start_lifecycle path (observed runner) ((w, l), disk d l)))))"
proof -
  let ?post = "on_world (run_container_stage (observed runner) Before_Post_Start Post_Start)"
  have skip: "triple (\<lambda>l s. in_step d l s \<and> \<not> has_pending_creation_lifecycle s) (io_return ()) (\<lambda>l s. lawful d l) (lawful d)"
    by (rule triple_return) (simp add: in_step_def)
  have "triple (in_step d) (io_bind (run_pending_creation_lifecycle (observed runner)) (\<lambda>_.
      case path of Container_Running \<Rightarrow> if pending then ?post else io_return () | _ \<Rightarrow> ?post))
      (\<lambda>l s. lawful d l) (lawful d)" for pending
    by (rule triple_bind [OF pending_creation_triple])
       (cases path; simp add: post_start_triple skip)
  from triple_result [OF this, of l "disk d l" "has_pending_creation_lifecycle (disk d l)" w] assms
  show ?thesis unfolding run_container_start_lifecycle_def Let_def snd_conv by (simp add: in_step_def)
qed

lemma sessions_are_lawful:
  "lawful d (snd p) \<Longrightarrow> lawful d (snd (run_sessions runner d paths p))"
proof (induction paths arbitrary: p)
  case (Cons path paths)
  show ?case unfolding run_sessions.simps
    by (rule Cons.IH) (use run_is_lawful [OF Cons.prems, of path runner "fst p"] in simp)
qed simp

section \<open>What lawful runs do\<close>

lemma lawful_prefix: "lawful d (a @ b) \<Longrightarrow> lawful d a"
proof (induction b rule: rev_induct)
  case (snoc x b)
  then show ?case by (metis append.assoc lawful_snocE)
qed simp

lemma lawful_allowed:
  assumes "lawful d (a @ (e, ok) # b)"
  shows "allowed (disk d a) (previous_event a) e"
proof -
  have "lawful d (a @ [(e, ok)])" using lawful_prefix [of d "a @ [(e, ok)]" b] assms by simp
  then show ?thesis by (auto elim: lawful_snocE)
qed

text \<open>Flags on disk are only ever set.\<close>

definition extends_flags :: "lifecycle_state \<Rightarrow> lifecycle_state \<Rightarrow> bool" where
  "extends_flags s t = (\<forall>c. (is_command_completed s c \<longrightarrow> is_command_completed t c) \<and>
     (is_after_hook_completed s c \<longrightarrow> is_after_hook_completed t c))"

lemma allowed_save_extends: "allowed s previous (Save_Event t) \<Longrightarrow> extends_flags s t"
  by (auto simp: allowed_save extends_flags_def)

lemma disk_extends:
  "lawful d (a @ b) \<Longrightarrow> extends_flags (disk d a) (disk d (a @ b))"
proof (induction b rule: rev_induct)
  case Nil
  show ?case by (simp add: extends_flags_def)
next
  case (snoc x b)
  obtain e ok where x: "x = (e, ok)" by (cases x)
  have law: "lawful d (a @ b)" using lawful_prefix [of d "a @ b" "[x]"] snoc.prems by simp
  have "allowed (disk d (a @ b)) (previous_event (a @ b)) e"
    using lawful_allowed [of d "a @ b" e ok "[]"] snoc.prems by (simp add: x)
  then have "extends_flags (disk d (a @ b)) (disk d (a @ b @ [x]))"
    using allowed_save_extends [of "disk d (a @ b)"] disk_snoc [of d "a @ b" x]
    by (cases e; cases ok) (auto simp: x extends_flags_def)
  with snoc.IH [OF law] show ?case by (auto simp: extends_flags_def)
qed

lemma stage_of_lifecycle_stage:
  assumes "stage \<in> set creation_lifecycle_stages" "stage' \<in> set creation_lifecycle_stages"
    and "cs_lifecycle_stage stage = cs_lifecycle_stage stage'"
  shows "stage = stage'"
  using assms by (auto simp: creation_lifecycle_stages_def)

lemma creation_stage_not_post_start:
  "stage \<in> set creation_lifecycle_stages \<Longrightarrow> cs_lifecycle_stage stage \<noteq> Post_Start"
  by (auto simp: creation_lifecycle_stages_def)

lemma allowed_creation_command:
  assumes "stage \<in> set creation_lifecycle_stages" "allowed s previous (stage_event (cs_lifecycle_stage stage))"
  shows "due s stage" "\<not> is_command_completed s (cs_completion stage)"
    "previous = Some (hook_event (cs_before_hook stage))"
  using assms stage_of_lifecycle_stage creation_stage_not_post_start
  by (auto simp: allowed_stage)

text \<open>C4. In any sequence of runs, each of which may fail anywhere and resumes from the
  saved flags, a creation command is attempted only while no save has recorded it as completed,
  only after every earlier stage is completed on disk, and right after its before hook
  succeeded.\<close>

theorem creation_commands_run_once_and_in_order:
  assumes "snd (run_sessions runner d paths (w, [])) = a @ (stage_event (cs_lifecycle_stage stage), ok) # b"
    and "stage \<in> set creation_lifecycle_stages"
  shows "\<not> is_command_completed d (cs_completion stage) \<and>
    (\<forall>s. (Save_Event s, True) \<in> set a \<longrightarrow> \<not> is_command_completed s (cs_completion stage)) \<and>
    (\<forall>c\<in>set (earlier (cs_completion stage)). is_completed (disk d a) c) \<and>
    previous_event a = Some (hook_event (cs_before_hook stage))"
proof -
  have law: "lawful d (a @ (stage_event (cs_lifecycle_stage stage), ok) # b)"
    using sessions_are_lawful [of d "(w, [])" runner paths] assms(1) by (simp add: lawful.start)
  note allowed = allowed_creation_command [OF assms(2) lawful_allowed [OF law]]
  have lawa: "lawful d a" using lawful_prefix [OF law] .
  have "\<not> is_command_completed s (cs_completion stage)" if saved: "(Save_Event s, True) \<in> set a" for s
  proof -
    obtain x y where "a = (x @ [(Save_Event s, True)]) @ y" using split_list [OF saved] by auto
    with disk_extends [of d "x @ [(Save_Event s, True)]" y] lawa allowed(2) show ?thesis
      by (auto simp: extends_flags_def)
  qed
  moreover have "\<not> is_command_completed d (cs_completion stage)"
    using disk_extends [of d "[]" a] lawa allowed(2) by (auto simp: extends_flags_def disk_def)
  ultimately show ?thesis using allowed by (simp add: due_def)
qed

text \<open>A flag that is set on disk was set after its command succeeded.\<close>

lemma saved_flags_are_earned:
  assumes "lawful d l" "stage \<in> set creation_lifecycle_stages"
    and "is_command_completed (disk d l) (cs_completion stage)" "\<not> is_command_completed d (cs_completion stage)"
  shows "(stage_event (cs_lifecycle_stage stage), True) \<in> set l"
  using assms
proof (induction rule: lawful.induct)
  case start
  then show ?case by (simp add: disk_def)
next
  case (attempt l e ok)
  show ?case
  proof (cases "is_command_completed (disk d l) (cs_completion stage)")
    case True
    with attempt show ?thesis by simp
  next
    case False
    with attempt.prems(2) obtain s where e: "e = Save_Event s" "ok"
      and s: "is_command_completed s (cs_completion stage)"
      by (cases e; cases ok) auto
    from attempt.hyps(2) False s have "previous_event l = Some (stage_event (cs_lifecycle_stage stage))"
      using attempt.prems(1) by (auto simp: e allowed_save creation_lifecycle_stages_def)
    then have "(stage_event (cs_lifecycle_stage stage), True) \<in> set l"
      by (auto simp: previous_event_def split: if_splits) (metis last_in_set prod.collapse)
    then show ?thesis by simp
  qed
qed

text \<open>A creation stage is recorded as completed on disk only after its command has
  succeeded, however runs fail and resume.\<close>

theorem completed_flags_are_earned:
  assumes "snd (run_sessions runner d paths (w, [])) = l" "stage \<in> set creation_lifecycle_stages"
    and "is_command_completed (disk d l) (cs_completion stage)" "\<not> is_command_completed d (cs_completion stage)"
  shows "(stage_event (cs_lifecycle_stage stage), True) \<in> set l"
proof (rule saved_flags_are_earned [OF _ assms(2-4)])
  show "lawful d l" using sessions_are_lawful [of d "(w, [])" runner paths] assms(1) by (simp add: lawful.start)
qed

definition example_runner :: "unit lifecycle_runner" where
  "example_runner = \<lparr>lr_hook = \<lambda>_. io_return (), lr_stage = \<lambda>_. io_return (), lr_save = \<lambda>_. io_return ()\<rparr>"

definition example_flags :: "bool \<Rightarrow> bool \<Rightarrow> lifecycle_state" where
  "example_flags command after =
     (let full = \<lparr>sc_completed = True, sc_after_completed = True\<rparr>
      in \<lparr>ls_on_create = full, ls_update_content = full,
          ls_post_create = \<lparr>sc_completed = command, sc_after_completed = after\<rparr>\<rparr>)"

lemma observed_example:
  "lr_hook (observed example_runner) h = (\<lambda>p. (Inr (), (fst p, snd p @ [(hook_event h, True)])))"
  "lr_stage (observed example_runner) t = (\<lambda>p. (Inr (), (fst p, snd p @ [(stage_event t, True)])))"
  "lr_save (observed example_runner) s = (\<lambda>p. (Inr (), (fst p, snd p @ [(Save_Event s, True)])))"
  by (auto simp: observed_def observe_def example_runner_def io_return_def)

lemma example_sessions:
  "snd (run_sessions example_runner (example_flags False False) [Container_Running] ((), [])) =
    [(hook_event Before_Post_Create, True)] @ (stage_event Post_Create, True) #
    [(Save_Event (example_flags True False), True), (hook_event After_Post_Create, True),
     (Save_Event (example_flags True True), True), (hook_event Before_Post_Start, True),
     (stage_event Post_Start, True), (hook_event After_Post_Start, True)]"
  by (simp add: run_container_start_lifecycle_def run_pending_creation_lifecycle_def creation_lifecycle_stages_def
      run_container_creation_stage_def is_completed_def example_flags_def run_creation_command_def
      run_creation_after_hook_def run_container_stage_def Let_def io_bind_def io_return_def io_lift_def on_world_def
      update_flags_def save_flags_def observed_example has_pending_creation_lifecycle_def disk_def)

theorem creation_commands_run_once_and_in_order_witness:
  "is_completed (disk (example_flags False False) [(hook_event Before_Post_Create, True)]) Completion_Update_Content"
  using creation_commands_run_once_and_in_order [of example_runner "example_flags False False"
      "[Container_Running]" "()" _ "creation_lifecycle_stages ! 2"] example_sessions
  by (simp add: creation_lifecycle_stages_def)

theorem completed_flags_are_earned_witness:
  "(stage_event Post_Create, True) \<in>
     set (snd (run_sessions example_runner (example_flags False False) [Container_Running] ((), [])))"
  unfolding example_sessions
  using completed_flags_are_earned [OF example_sessions, of "creation_lifecycle_stages ! 2"]
  by (simp add: creation_lifecycle_stages_def disk_def disk_step_def example_flags_def Let_def)

section \<open>A run follows the plan\<close>

definition steps_of :: "lifecycle_log \<Rightarrow> lifecycle_step list" where
  "steps_of l = filter_map (\<lambda>(e, ok). case e of Step_Event st \<Rightarrow> Some st | Save_Event _ \<Rightarrow> None) l"

lemma steps_of_simps [simp]:
  "steps_of [] = []"
  "steps_of ((Step_Event st, ok) # l) = st # steps_of l"
  "steps_of ((Save_Event s, ok) # l) = steps_of l"
  by (simp_all add: steps_of_def)

lemma steps_of_append [simp]: "steps_of (a @ b) = steps_of a @ steps_of b"
  by (induction a) (auto simp: steps_of_def split: lifecycle_event.split)

text \<open>
  From the flags \<open>s\<close> the computation attempts the steps \<open>p\<close> and ends with the flags \<open>t\<close>, or it
  fails at an attempt and has made those up to there.
\<close>

definition follows ::
  "('w \<times> lifecycle_log, 'a) stateful \<Rightarrow> lifecycle_state \<Rightarrow> lifecycle_step list \<Rightarrow> lifecycle_state \<Rightarrow> bool" where
  "follows m s p t = (\<forall>w l.
     (case m ((w, l), s) of
        (Inr _, ((_, l'), s')) \<Rightarrow> s' = t \<and> (\<exists>x. l' = l @ x \<and> steps_of x = p \<and> list_all snd x)
      | (Inl _, ((_, l'), _)) \<Rightarrow> (\<exists>x e q. l' = l @ x @ [(e, False)] \<and> list_all snd x \<and>
          p = steps_of (x @ [(e, False)]) @ q)))"

lemma follows_bind:
  assumes "follows m s p t" "\<And>a. follows (f a) t q u"
  shows "follows (io_bind m f) s (p @ q) u"
  unfolding follows_def
proof (intro allI)
  fix w l
  obtain r w' l' s' where m: "m ((w, l), s) = (r, ((w', l'), s'))" by (metis surj_pair)
  from assms(1) have 1: "case m ((w, l), s) of
      (Inr _, ((_, l'), s')) \<Rightarrow> s' = t \<and> (\<exists>x. l' = l @ x \<and> steps_of x = p \<and> list_all snd x)
    | (Inl _, ((_, l'), _)) \<Rightarrow> (\<exists>x e q. l' = l @ x @ [(e, False)] \<and> list_all snd x \<and>
        p = steps_of (x @ [(e, False)]) @ q)" by (simp add: follows_def)
  show "case io_bind m f ((w, l), s) of
      (Inr _, ((_, l'), s')) \<Rightarrow> s' = u \<and> (\<exists>x. l' = l @ x \<and> steps_of x = p @ q \<and> list_all snd x)
    | (Inl _, ((_, l'), _)) \<Rightarrow> (\<exists>x e r. l' = l @ x @ [(e, False)] \<and> list_all snd x \<and>
        p @ q = steps_of (x @ [(e, False)]) @ r)"
  proof (cases r)
    case (Inl err)
    then show ?thesis using 1 by (auto simp: io_bind_def m)
  next
    case (Inr a)
    then obtain x where x: "s' = t" "l' = l @ x" "steps_of x = p" "list_all snd x" using 1 by (auto simp: m)
    obtain r2 w2 l2 s2 where f: "f a ((w', l'), t) = (r2, ((w2, l2), s2))" by (metis surj_pair)
    have bind: "io_bind m f ((w, l), s) = (r2, ((w2, l2), s2))" by (simp add: io_bind_def m Inr x(1) f)
    from assms(2) [of a] have 2: "case f a ((w', l'), t) of
        (Inr _, ((_, l''), s'')) \<Rightarrow> s'' = u \<and> (\<exists>y. l'' = l' @ y \<and> steps_of y = q \<and> list_all snd y)
      | (Inl _, ((_, l''), _)) \<Rightarrow> (\<exists>y e r. l'' = l' @ y @ [(e, False)] \<and> list_all snd y \<and>
          q = steps_of (y @ [(e, False)]) @ r)" by (simp add: follows_def)
    show ?thesis
    proof (cases r2)
      case (Inr b)
      then obtain y where "s2 = u" "l2 = l' @ y" "steps_of y = q" "list_all snd y" using 2 by (auto simp: f)
      with x show ?thesis by (auto simp: bind Inr)
    next
      case (Inl err)
      then obtain y e z where "l2 = l' @ y @ [(e, False)]" "list_all snd y" "q = steps_of (y @ [(e, False)]) @ z"
        using 2 by (auto simp: f)
      then have "l2 = l @ (x @ y) @ [(e, False)]" "list_all snd (x @ y)"
        "p @ q = steps_of ((x @ y) @ [(e, False)]) @ z" using x by simp_all
      then show ?thesis unfolding bind Inl by auto
    qed
  qed
qed

lemma follows_return: "follows (io_return a) s [] s"
  by (simp add: follows_def io_return_def)

lemma follows_step: "follows (on_world (observe (Step_Event st) m)) s [st] s"
  unfolding follows_def
proof (intro allI)
  fix w l
  obtain r w' where "m w = (r, w')" by (cases "m w")
  then show "case on_world (observe (Step_Event st) m) ((w, l), s) of
      (Inr _, ((_, l'), s')) \<Rightarrow> s' = s \<and> (\<exists>x. l' = l @ x \<and> steps_of x = [st] \<and> list_all snd x)
    | (Inl _, ((_, l'), _)) \<Rightarrow> (\<exists>x e q. l' = l @ x @ [(e, False)] \<and> list_all snd x \<and>
        [st] = steps_of (x @ [(e, False)]) @ q)"
    by (cases r) (auto simp: on_world_def observe_def intro: exI [of _ "[]"])
qed

lemma follows_save: "follows (save_flags (observed runner)) s [] s"
  unfolding follows_def
proof (intro allI)
  fix w l
  obtain r w' where "lr_save runner s w = (r, w')" by (cases "lr_save runner s w")
  then show "case save_flags (observed runner) ((w, l), s) of
      (Inr _, ((_, l'), s')) \<Rightarrow> s' = s \<and> (\<exists>x. l' = l @ x \<and> steps_of x = [] \<and> list_all snd x)
    | (Inl _, ((_, l'), _)) \<Rightarrow> (\<exists>x e q. l' = l @ x @ [(e, False)] \<and> list_all snd x \<and>
        [] = steps_of (x @ [(e, False)]) @ q)"
    by (cases r) (auto simp: save_flags_def observed_def on_world_def observe_def intro: exI [of _ "[]"])
qed

lemma follows_update: "follows (update_flags f) s [] (f s)"
  by (simp add: follows_def update_flags_def)

lemma follows_if:
  "(c s \<Longrightarrow> follows m s p t) \<Longrightarrow> (\<not> c s \<Longrightarrow> follows n s p t) \<Longrightarrow>
   follows (\<lambda>x. if c (snd x) then m x else n x) s p t"
  by (cases "c s") (simp_all add: follows_def)

lemma follows_hook: "follows (on_world (lr_hook (observed runner) h)) s [Hook_Step h] s"
  unfolding observed_def lifecycle_runner.simps by (rule follows_step)

lemma follows_stage: "follows (on_world (lr_stage (observed runner) t)) s [Stage_Step t] s"
  unfolding observed_def lifecycle_runner.simps by (rule follows_step)

definition completed_by :: "lifecycle_completion \<Rightarrow> lifecycle_state \<Rightarrow> lifecycle_state" where
  "completed_by c s = mark_after_hook_completed c (mark_command_completed c s)"

lemma marks_idle:
  "is_command_completed s c \<Longrightarrow> mark_command_completed c s = s"
  "is_after_hook_completed s c \<Longrightarrow> mark_after_hook_completed c s = s"
  by (cases c; simp)+

lemma creation_command_follows:
  "follows (run_creation_command (observed runner) stage) s
     [Hook_Step (cs_before_hook stage), Stage_Step (cs_lifecycle_stage stage)]
     (mark_command_completed (cs_completion stage) s)"
  unfolding run_creation_command_def
  using follows_bind [OF follows_hook follows_bind [OF follows_stage follows_bind [OF follows_update follows_save]]]
  by simp

lemma creation_after_hook_follows:
  assumes "after_hook_stage (cs_before_hook stage) = Inr h"
  shows "follows (run_creation_after_hook (observed runner) stage) s [Hook_Step h]
     (mark_after_hook_completed (cs_completion stage) s)"
  unfolding run_creation_after_hook_def assms io_bind_lift_Inr
  using follows_bind [OF follows_hook follows_bind [OF follows_update follows_save]]
  by simp

lemma creation_stage_follows:
  assumes "stage \<in> set creation_lifecycle_stages"
  shows "follows (run_container_creation_stage (observed runner) stage) s (creation_steps s stage)
     (completed_by (cs_completion stage) s)"
proof -
  let ?c = "cs_completion stage"
  obtain h where h: "after_hook_stage (cs_before_hook stage) = Inr h"
    using assms by (auto simp: creation_lifecycle_stages_def)
  have 1: "follows (\<lambda>p. if is_command_completed (snd p) ?c then io_return () p
        else run_creation_command (observed runner) stage p) s
      (if is_command_completed s ?c then [] else [Hook_Step (cs_before_hook stage), Stage_Step (cs_lifecycle_stage stage)])
      (mark_command_completed ?c s)"
    by (rule follows_if) (simp_all add: marks_idle follows_return creation_command_follows)
  have 2: "follows (\<lambda>p. if is_after_hook_completed (snd p) ?c then io_return () p
        else run_creation_after_hook (observed runner) stage p) (mark_command_completed ?c s)
      (if is_after_hook_completed s ?c then [] else [Hook_Step h]) (completed_by ?c s)"
    unfolding completed_by_def
    by (rule follows_if) (simp_all add: marks_idle follows_return creation_after_hook_follows [OF h])
  show ?thesis unfolding run_container_creation_stage_def
  proof (rule follows_if [where c = "\<lambda>s. is_completed s ?c"])
    assume "is_completed s ?c"
    then show "follows (io_return ()) s (creation_steps s stage) (completed_by ?c s)"
      by (simp add: is_completed_def completed_by_def marks_idle follows_return creation_steps_def)
  next
    assume "\<not> is_completed s ?c"
    then have "creation_steps s stage =
        (if is_command_completed s ?c then [] else [Hook_Step (cs_before_hook stage), Stage_Step (cs_lifecycle_stage stage)]) @
        (if is_after_hook_completed s ?c then [] else [Hook_Step h])"
      by (simp add: creation_steps_def h Let_def)
    with follows_bind [OF 1 2] show "follows (io_bind
        (\<lambda>p. if is_command_completed (snd p) ?c then io_return () p
             else run_creation_command (observed runner) stage p)
        (\<lambda>_ p. if is_after_hook_completed (snd p) ?c then io_return () p
               else run_creation_after_hook (observed runner) stage p)) s (creation_steps s stage) (completed_by ?c s)"
      by (simp only:)
  qed
qed

lemma completed_by_simps [simp]:
  "is_command_completed (completed_by c s) c' = (c' = c \<or> is_command_completed s c')"
  "is_after_hook_completed (completed_by c s) c' = (c' = c \<or> is_after_hook_completed s c')"
  by (simp_all add: completed_by_def)

lemma creation_steps_other:
  "cs_completion stage \<noteq> c \<Longrightarrow> creation_steps (completed_by c s) stage = creation_steps s stage"
  by (auto simp: creation_steps_def is_completed_def Let_def)

definition all_completed :: "lifecycle_state \<Rightarrow> lifecycle_state" where
  "all_completed s = completed_by Completion_Post_Create
     (completed_by Completion_Update_Content (completed_by Completion_On_Create s))"

lemma pending_creation_follows:
  "follows (run_pending_creation_lifecycle (observed runner)) s
     (concat (map (creation_steps s) creation_lifecycle_stages)) (all_completed s)"
proof -
  let ?stage = "\<lambda>k. creation_lifecycle_stages ! k"
  have stages: "creation_lifecycle_stages = [?stage 0, ?stage 1, ?stage 2]"
    "?stage 0 \<in> set creation_lifecycle_stages" "?stage 1 \<in> set creation_lifecycle_stages"
    "?stage 2 \<in> set creation_lifecycle_stages"
    by (simp_all add: creation_lifecycle_stages_def)
  let ?s1 = "completed_by Completion_On_Create s" and ?run = "run_container_creation_stage (observed runner)"
  let ?s2 = "completed_by Completion_Update_Content ?s1"
  have completions: "cs_completion (?stage 0) = Completion_On_Create"
    "cs_completion (?stage 1) = Completion_Update_Content" "cs_completion (?stage 2) = Completion_Post_Create"
    by (simp_all add: creation_lifecycle_stages_def)
  note run = creation_stage_follows [of _ runner]
  have 1: "follows (?run (?stage 0)) s (creation_steps s (?stage 0)) ?s1"
    using run [OF stages(2), of s] unfolding completions .
  have 2: "follows (?run (?stage 1)) ?s1 (creation_steps s (?stage 1)) ?s2"
    using run [OF stages(3), of ?s1] creation_steps_other [of "?stage 1" Completion_On_Create s]
    unfolding completions by simp
  have 3: "follows (?run (?stage 2)) ?s2 (creation_steps s (?stage 2)) (all_completed s)"
    using run [OF stages(4), of ?s2] creation_steps_other [of "?stage 2" Completion_On_Create s]
      creation_steps_other [of "?stage 2" Completion_Update_Content ?s1]
    unfolding completions all_completed_def by simp
  have "follows (run_pending_creation_lifecycle (observed runner)) s
     (creation_steps s (?stage 0) @ creation_steps s (?stage 1) @ creation_steps s (?stage 2) @ []) (all_completed s)"
    unfolding run_pending_creation_lifecycle_def
    by (subst stages(1), unfold io_fold.simps)
       (rule follows_bind [OF 1], rule follows_bind [OF 2], rule follows_bind [OF 3], rule follows_return)
  moreover have "concat (map (creation_steps s) creation_lifecycle_stages) =
      creation_steps s (?stage 0) @ creation_steps s (?stage 1) @ creation_steps s (?stage 2) @ []"
    by (subst stages(1)) simp
  ultimately show ?thesis by simp
qed

lemma container_stage_follows:
  "follows (on_world (run_container_stage (observed runner) Before_Post_Start Post_Start)) s
     [Hook_Step Before_Post_Start, Stage_Step Post_Start, Hook_Step After_Post_Start] s"
  unfolding run_container_stage_def on_world_bind on_world_lift after_hook_stage.simps io_bind_lift_Inr
  using follows_bind [OF follows_hook follows_bind [OF follows_stage follows_hook]] by simp

lemma start_lifecycle_follows:
  "follows (run_container_start_lifecycle path (observed runner)) s (start_lifecycle_steps path s) (all_completed s)"
proof -
  let ?pending = "has_pending_creation_lifecycle s"
  let ?post = "on_world (run_container_stage (observed runner) Before_Post_Start Post_Start)"
  let ?tail = "\<lambda>pending. case path of Container_Running \<Rightarrow> if pending then ?post else io_return () | _ \<Rightarrow> ?post"
  have "follows (?tail ?pending) (all_completed s)
      (if path \<noteq> Container_Running \<or> ?pending
       then [Hook_Step Before_Post_Start, Stage_Step Post_Start, Hook_Step After_Post_Start] else []) (all_completed s)"
    by (cases path) (simp_all add: container_stage_follows follows_return)
  then have "follows (io_bind (run_pending_creation_lifecycle (observed runner)) (\<lambda>_. ?tail ?pending)) s
      (start_lifecycle_steps path s) (all_completed s)"
    unfolding start_lifecycle_steps_def by (intro follows_bind [OF pending_creation_follows])
  then show ?thesis by (simp add: follows_def run_container_start_lifecycle_def)
qed

text \<open>C9. A run that succeeds attempts exactly the planned steps in order and leaves every
  creation stage completed; a run that fails has attempted a prefix of the plan and stopped at its
  first failure.\<close>

theorem lifecycle_follows_the_plan:
  assumes "run_container_start_lifecycle path (observed runner) ((w, []), s) = (r, ((w', l), s'))"
  shows "(r = Inr () \<longrightarrow> steps_of l = start_lifecycle_steps path s \<and> list_all snd l \<and>
       \<not> has_pending_creation_lifecycle s') \<and>
    (r \<noteq> Inr () \<longrightarrow> (\<exists>rest. steps_of l @ rest = start_lifecycle_steps path s) \<and>
       list_all snd (butlast l) \<and> \<not> snd (last l) \<and> l \<noteq> [])"
proof -
  have "\<not> has_pending_creation_lifecycle (all_completed s)"
    by (simp add: has_pending_creation_lifecycle_def creation_lifecycle_stages_def is_completed_def all_completed_def)
  moreover have "case (r, ((w', l), s')) of
      (Inr _, ((_, l'), s')) \<Rightarrow> s' = all_completed s \<and>
        (\<exists>x. l' = [] @ x \<and> steps_of x = start_lifecycle_steps path s \<and> list_all snd x)
    | (Inl _, ((_, l'), _)) \<Rightarrow> (\<exists>x e q. l' = [] @ x @ [(e, False)] \<and> list_all snd x \<and>
        start_lifecycle_steps path s = steps_of (x @ [(e, False)]) @ q)"
    using start_lifecycle_follows [of path runner s] unfolding follows_def assms [symmetric]
    by (elim allE)
  ultimately show ?thesis by (cases r) auto
qed

theorem lifecycle_follows_the_plan_witness:
  "steps_of (snd (run_sessions example_runner (example_flags False False) [Container_Running] ((), []))) =
     start_lifecycle_steps Container_Running (example_flags False False)"
proof -
  obtain r w' l s' where run: "run_container_start_lifecycle Container_Running (observed example_runner)
      (((), []), example_flags False False) = (r, ((w', l), s'))" by (metis surj_pair)
  have "l = snd (run_sessions example_runner (example_flags False False) [Container_Running] ((), []))"
    using run by (simp add: disk_def)
  moreover have "snd (last l)" unfolding calculation example_sessions by simp
  ultimately show ?thesis using lifecycle_follows_the_plan [OF run] by blast
qed

end
