(* ===== verification/Config_Merge.thy ===== *)
theory Config_Merge
  imports Lifecycle_Run "HOL-Library.Multiset"
begin

text \<open>
  Merging the configuration layers: \<open>src/config/merge.rs\<close>. Layers are applied from the weakest
  source to the strongest. A value that a layer sets replaces the one before; lists of mounts,
  ports, dotfiles and Compose mappings are kept by the identity of their entries, an interface
  stated as a locale; environments are extended key by key; hooks and lifecycle commands are
  appended.
\<close>

section \<open>Lists kept by identity\<close>

fun replace_by_identity :: "('a \<Rightarrow> 'a \<Rightarrow> bool) \<Rightarrow> 'a \<Rightarrow> 'a list \<Rightarrow> 'a list" where
  "replace_by_identity same entry [] = [entry]"
| "replace_by_identity same entry (x # xs) =
     (if same x entry then entry # xs else x # replace_by_identity same entry xs)"

definition remove_by_identity :: "('a \<Rightarrow> bool) \<Rightarrow> 'a list \<Rightarrow> 'a list" where
  "remove_by_identity same entries = filter (\<lambda>existing. \<not> same existing) entries"

definition append_unique :: "string list \<Rightarrow> string list \<Rightarrow> string list" where
  "append_unique target vs =
     foldl (\<lambda>target v. if list_ex (\<lambda>existing. existing = v) target then target else target @ [v]) target vs"

definition override :: "'a option \<Rightarrow> 'a \<Rightarrow> 'a" where
  "override new old = (case new of None \<Rightarrow> old | Some x \<Rightarrow> x)"

definition override_option :: "'a option \<Rightarrow> 'a option \<Rightarrow> 'a option" where
  "override_option new old = (case new of None \<Rightarrow> old | Some x \<Rightarrow> Some x)"

section \<open>The accumulator\<close>

datatype port_source_priority = Prio_Image_Metadata | Prio_Global | Prio_Devcontainer | Prio_Project | Prio_Cli

fun priority_rank :: "port_source_priority \<Rightarrow> nat" where
  "priority_rank Prio_Image_Metadata = 0"
| "priority_rank Prio_Global = 1"
| "priority_rank Prio_Devcontainer = 2"
| "priority_rank Prio_Project = 3"
| "priority_rank Prio_Cli = 4"

fun protocol_rank :: "port_protocol \<Rightarrow> nat" where
  "protocol_rank Tcp = 0"
| "protocol_rank Udp = 1"

record merged_port =
  mp_port :: resolved_port
  mp_forward_attribute_keys :: "string list"
  mp_source_priority :: port_source_priority

definition plain_port :: "resolved_port \<Rightarrow> port_source_priority \<Rightarrow> merged_port" where
  "plain_port port priority = \<lparr>mp_port = port, mp_forward_attribute_keys = [], mp_source_priority = priority\<rparr>"

definition forward_port :: "layer_forward_port \<Rightarrow> port_source_priority \<Rightarrow> merged_port" where
  "forward_port port priority =
     \<lparr>mp_port = lafp_port port, mp_forward_attribute_keys = lafp_attribute_keys port, mp_source_priority = priority\<rparr>"

record merge_accumulator =
  ma_shell :: "string option"
  ma_features :: "resolved_feature list"
  ma_dotfile_entries :: "resolved_dotfile_entry list"
  ma_dotfiles :: "resolved_dotfile list"
  ma_mounts :: "resolved_mount list"
  ma_ports :: "merged_port list"
  ma_auto_ports :: resolved_auto_ports
  ma_compose :: resolved_compose
  ma_container :: resolved_container
  ma_relocation_explicit :: bool
  ma_devcontainer :: resolved_devcontainer
  ma_init :: "bool option"
  ma_privileged :: "bool option"
  ma_credentials :: resolved_credentials
  ma_hooks :: hooks

definition default_accumulator :: merge_accumulator where
  "default_accumulator = \<lparr>ma_shell = None, ma_features = [], ma_dotfile_entries = [], ma_dotfiles = [],
     ma_mounts = [], ma_ports = [], ma_auto_ports = default_auto_ports, ma_compose = default_compose,
     ma_container = default_container, ma_relocation_explicit = False, ma_devcontainer = default_devcontainer,
     ma_init = None, ma_privileged = None, ma_credentials = default_credentials, ma_hooks = no_hooks\<rparr>"

section \<open>Merging one value\<close>

fun merge_existing_feature :: "layer_feature \<Rightarrow> resolved_feature list \<Rightarrow> resolved_feature list" where
  "merge_existing_feature feature [] =
     [\<lparr>rf_id = laf_id feature, rf_canonical_id = laf_canonical_id feature, rf_options = laf_options feature\<rparr>]"
| "merge_existing_feature feature (entry # rest) =
     (if feature_merge_identity (rf_id entry) = feature_merge_identity (laf_id feature)
      then entry\<lparr>rf_id := laf_id feature, rf_options := bt_extend (rf_options entry) (laf_options feature)\<rparr> # rest
      else entry # merge_existing_feature feature rest)"

definition merge_feature :: "resolved_feature list \<Rightarrow> layer_feature \<Rightarrow> resolved_feature list" where
  "merge_feature features feature =
     (if laf_enabled feature then merge_existing_feature feature features
      else remove_by_identity (\<lambda>existing. rf_canonical_id existing = laf_canonical_id feature) features)"

fun dotfile_entry_target :: "resolved_dotfile_entry \<Rightarrow> string" where
  "dotfile_entry_target (Enabled_Dotfile dotfile) = rd_target dotfile"
| "dotfile_entry_target (Disabled_Dotfile dotfile) = rdd_target dotfile"

definition same_dotfile_target :: "resolved_dotfile \<Rightarrow> resolved_dotfile \<Rightarrow> bool" where
  "same_dotfile_target left right = (rd_target left = rd_target right)"

definition replace_dotfile_entry_by_target ::
  "resolved_dotfile_entry \<Rightarrow> resolved_dotfile_entry list \<Rightarrow> resolved_dotfile_entry list" where
  "replace_dotfile_entry_by_target =
     replace_by_identity (\<lambda>existing entry. dotfile_entry_target existing = dotfile_entry_target entry)"

definition merge_dotfile ::
  "resolved_dotfile list \<times> resolved_dotfile_entry list \<Rightarrow> layer_dotfile \<Rightarrow>
   resolved_dotfile list \<times> resolved_dotfile_entry list" where
  "merge_dotfile state dotfile =
     (case state of (dotfiles, entries) \<Rightarrow>
        if \<not> lad_enabled dotfile
        then (remove_by_identity (\<lambda>existing. rd_target existing = lad_target dotfile) dotfiles,
              replace_dotfile_entry_by_target
                (Disabled_Dotfile \<lparr>rdd_target = lad_target dotfile, rdd_origin = lad_origin dotfile\<rparr>) entries)
        else case lad_source dotfile of
            None \<Rightarrow> (dotfiles, entries)
          | Some source \<Rightarrow>
              let resolved = \<lparr>rd_source = source, rd_target = lad_target dotfile, rd_read_only = lad_read_only dotfile,
                    rd_resolve_symlink = lad_resolve_symlink dotfile, rd_on_conflict = lad_on_conflict dotfile,
                    rd_origin = lad_origin dotfile\<rparr>
              in (replace_by_identity same_dotfile_target resolved dotfiles,
                  replace_dotfile_entry_by_target (Enabled_Dotfile resolved) entries))"

definition same_mount_target :: "resolved_mount \<Rightarrow> resolved_mount \<Rightarrow> bool" where
  "same_mount_target left right = (rmo_target left = rmo_target right)"

definition merge_mount :: "resolved_mount list \<Rightarrow> layer_mount \<Rightarrow> resolved_mount list" where
  "merge_mount mounts mount =
     (if \<not> lam_enabled mount
      then remove_by_identity (\<lambda>existing. rmo_target existing = lam_target mount) mounts
      else case lam_type mount of
          None \<Rightarrow> mounts
        | Some ty \<Rightarrow> replace_by_identity same_mount_target
            \<lparr>rmo_source = lam_source mount, rmo_target = lam_target mount, rmo_type = ty,
             rmo_read_only = lam_read_only mount, rmo_resolve_symlink = lam_resolve_symlink mount,
             rmo_create = lam_create mount, rmo_origin = lam_origin mount\<rparr> mounts)"

definition same_port_identity :: "resolved_port \<Rightarrow> resolved_port \<Rightarrow> bool" where
  "same_port_identity left right =
     (rp_protocol left = rp_protocol right \<and> rp_service left = rp_service right \<and>
      rp_container left = rp_container right \<and> rp_host_ip left = rp_host_ip right)"

definition same_merged_port_identity :: "merged_port \<Rightarrow> merged_port \<Rightarrow> bool" where
  "same_merged_port_identity left right = same_port_identity (mp_port left) (mp_port right)"

definition merge_port :: "port_source_priority \<Rightarrow> merged_port list \<Rightarrow> resolved_port \<Rightarrow> merged_port list" where
  "merge_port priority ports port =
     (if \<not> rp_enabled port
      then remove_by_identity (\<lambda>existing. rp_protocol (mp_port existing) = rp_protocol port \<and>
             rp_service (mp_port existing) = rp_service port \<and>
             rp_container (mp_port existing) = rp_container port \<and>
             rp_host_ip (mp_port existing) = rp_host_ip port) ports
      else replace_by_identity same_merged_port_identity (plain_port port priority) ports)"

definition merge_forward_port ::
  "port_source_priority \<Rightarrow> merged_port list \<Rightarrow> layer_forward_port \<Rightarrow> merged_port list" where
  "merge_forward_port priority ports port =
     replace_by_identity same_merged_port_identity (forward_port port priority) ports"

definition merge_auto_ports :: "resolved_auto_ports \<Rightarrow> layer_auto_ports \<Rightarrow> resolved_auto_ports" where
  "merge_auto_ports auto layer = \<lparr>ap_enabled = override (lap_enabled layer) (ap_enabled auto),
     ap_min = override (lap_min layer) (ap_min auto), ap_max = override (lap_max layer) (ap_max auto),
     ap_ignore = override (lap_ignore layer) (ap_ignore auto),
     ap_on_auto_forward = override (lap_on_auto_forward layer) (ap_on_auto_forward auto)\<rparr>"

definition same_mapping_identity :: "resolved_compose_mapping \<Rightarrow> resolved_compose_mapping \<Rightarrow> bool" where
  "same_mapping_identity left right =
     (rm_service left = rm_service right \<and> rm_target left = rm_target right \<and> rm_protocol left = rm_protocol right)"

definition merge_compose_mapping ::
  "resolved_compose_mapping list \<Rightarrow> layer_compose_mapping \<Rightarrow> resolved_compose_mapping list" where
  "merge_compose_mapping mappings mapping =
     (if \<not> lcm_enabled mapping
      then remove_by_identity (\<lambda>existing. rm_service existing = lcm_service mapping \<and>
             rm_target existing = lcm_target mapping \<and> rm_protocol existing = lcm_protocol mapping) mappings
      else case lcm_host mapping of
          None \<Rightarrow> mappings
        | Some h \<Rightarrow> replace_by_identity same_mapping_identity
            \<lparr>rm_service = lcm_service mapping, rm_target = lcm_target mapping, rm_protocol = lcm_protocol mapping,
             rm_host = h, rm_host_ip = lcm_host_ip mapping\<rparr> mappings)"

definition merge_clone_isolation ::
  "resolved_clone_isolation \<Rightarrow> layer_clone_isolation \<Rightarrow> resolved_clone_isolation" where
  "merge_clone_isolation isolation layer = \<lparr>
     rci_enabled = override (lci_enabled layer) (rci_enabled isolation),
     rci_networks = (let networks = rci_networks isolation; n = lci_networks layer in \<lparr>
       rin_relocation = override (lin_relocation n) (rin_relocation networks),
       rin_subnet_pool = override_option (lin_subnet_pool n) (rin_subnet_pool networks),
       rin_subnet_prefix = override_option (lin_subnet_prefix n) (rin_subnet_prefix networks)\<rparr>),
     rci_names = (let names = rci_names isolation; n = lci_names layer in \<lparr>
       rim_rewrite_container_names = override (lim_rewrite_container_names n) (rim_rewrite_container_names names),
       rim_rewrite_resource_names = override (lim_rewrite_resource_names n) (rim_rewrite_resource_names names)\<rparr>),
     rci_endpoints = rci_endpoints isolation @ lci_endpoints layer\<rparr>"

definition merge_compose :: "resolved_compose \<Rightarrow> layer_compose \<Rightarrow> resolved_compose" where
  "merge_compose compose layer =
     (let ports = rco_published_ports compose; p = lco_published_ports layer in \<lparr>
        rco_published_ports = \<lparr>
          rpp_automatic_relocation = override (lpp_automatic_relocation p) (rpp_automatic_relocation ports),
          rpp_warn_on_relocation = override (lpp_warn_on_relocation p) (rpp_warn_on_relocation ports),
          rpp_mappings = foldl merge_compose_mapping (rpp_mappings ports) (lpp_mappings p)\<rparr>,
        rco_clone_isolation = merge_clone_isolation (rco_clone_isolation compose) (lco_clone_isolation layer)\<rparr>)"

definition merge_container :: "resolved_container \<Rightarrow> layer_container \<Rightarrow> resolved_container" where
  "merge_container container layer = \<lparr>rct_cli_enabled = override (lct_cli_enabled layer) (rct_cli_enabled container)\<rparr>"

definition merge_credentials :: "resolved_credentials \<Rightarrow> layer_credentials \<Rightarrow> resolved_credentials" where
  "merge_credentials credentials layer =
     (let git = rcr_git credentials; g = lcr_git layer; github = rcr_github credentials; h = lcr_github layer in \<lparr>
        rcr_git = \<lparr>
          rgc_enabled = override (lgc_enabled g) (rgc_enabled git),
          rgc_copy_user = override (lgc_copy_user g) (rgc_copy_user git),
          rgc_copy_global_config = override (lgc_copy_global_config g) (rgc_copy_global_config git),
          rgc_https = override (lgc_https g) (rgc_https git),
          rgc_ssh_agent = override (lgc_ssh_agent g) (rgc_ssh_agent git)\<rparr>,
        rcr_github = \<lparr>
          rhc_enabled = override (lhc_enabled h) (rhc_enabled github),
          rhc_mode = override (lhc_mode h) (rhc_mode github),
          rhc_install_feature_if_missing =
            override (lhc_install_feature_if_missing h) (rhc_install_feature_if_missing github)\<rparr>\<rparr>)"

definition same_publish_port_identity :: "resolved_publish_port \<Rightarrow> resolved_publish_port \<Rightarrow> bool" where
  "same_publish_port_identity left right =
     (pp_protocol left = pp_protocol right \<and> pp_container left = pp_container right \<and>
      pp_host left = pp_host right \<and> pp_host_ip left = pp_host_ip right)"

definition merge_optional_port_attributes ::
  "resolved_port_attributes option \<Rightarrow> resolved_port_attributes option \<Rightarrow> resolved_port_attributes option" where
  "merge_optional_port_attributes target source =
     (case source of
        None \<Rightarrow> target
      | Some s \<Rightarrow>
          (case target of
             None \<Rightarrow> Some s
           | Some t \<Rightarrow> Some \<lparr>
               pa_label = override_option (pa_label s) (pa_label t),
               pa_on_auto_forward = override_option (pa_on_auto_forward s) (pa_on_auto_forward t),
               pa_require_local_port = override_option (pa_require_local_port s) (pa_require_local_port t),
               pa_unsupported_protocol = override_option (pa_unsupported_protocol s) (pa_unsupported_protocol t),
               pa_unsupported_elevate_if_needed =
                 override_option (pa_unsupported_elevate_if_needed s) (pa_unsupported_elevate_if_needed t)\<rparr>))"

definition merge_lifecycle ::
  "lifecycle_definition option \<Rightarrow> layer_lifecycle_definition option \<Rightarrow> lifecycle_definition option" where
  "merge_lifecycle target layer =
     (case layer of
        None \<Rightarrow> target
      | Some lifecycle \<Rightarrow>
          (case target of
             Some t \<Rightarrow> Some (merge_lifecycle_layer t lifecycle)
           | None \<Rightarrow> Some (lifecycle_into_resolved lifecycle)))"

text \<open>The fields \<open>init\<close> and \<open>privileged\<close> are kept in the accumulator until the end.\<close>

definition merge_devcontainer :: "resolved_devcontainer \<Rightarrow> layer_devcontainer \<Rightarrow> resolved_devcontainer" where
  "merge_devcontainer d layer = \<lparr>
     rdc_source = override_option (ldc_source layer) (rdc_source d),
     rdc_override_feature_install_order =
       (if ldc_override_feature_install_order layer = [] then rdc_override_feature_install_order d
        else ldc_override_feature_install_order layer),
     rdc_mounts = rdc_mounts d @ ldc_mounts layer,
     rdc_workspace_mount = override_option (ldc_workspace_mount layer) (rdc_workspace_mount d),
     rdc_workspace_folder = override_option (ldc_workspace_folder layer) (rdc_workspace_folder d),
     rdc_container_env = bt_extend (rdc_container_env d) (ldc_container_env layer),
     rdc_remote_env = bt_extend (rdc_remote_env d) (ldc_remote_env layer),
     rdc_remote_user = override_option (ldc_remote_user layer) (rdc_remote_user d),
     rdc_container_user = override_option (ldc_container_user layer) (rdc_container_user d),
     rdc_update_remote_user_uid = override (ldc_update_remote_user_uid layer) (rdc_update_remote_user_uid d),
     rdc_override_command = override (ldc_override_command layer) (rdc_override_command d),
     rdc_user_env_probe = override_option (ldc_user_env_probe layer) (rdc_user_env_probe d),
     rdc_publish_ports = foldl (\<lambda>ports port. replace_by_identity same_publish_port_identity port ports)
       (rdc_publish_ports d) (ldc_publish_ports layer),
     rdc_port_attributes = bt_extend (rdc_port_attributes d) (ldc_port_attributes layer),
     rdc_other_ports_attributes =
       merge_optional_port_attributes (rdc_other_ports_attributes d) (ldc_other_ports_attributes layer),
     rdc_run_args = rdc_run_args d @ ldc_run_args layer,
     rdc_init = rdc_init d,
     rdc_privileged = rdc_privileged d,
     rdc_cap_add = append_unique (rdc_cap_add d) (ldc_cap_add layer),
     rdc_security_opt = append_unique (rdc_security_opt d) (ldc_security_opt layer),
     rdc_entrypoints = rdc_entrypoints d @ ldc_entrypoints layer,
     rdc_shutdown_action = override (ldc_shutdown_action layer) (rdc_shutdown_action d),
     rdc_lifecycle = merge_lifecycle (rdc_lifecycle d) (ldc_lifecycle layer)\<rparr>"

section \<open>Applying the layers\<close>

definition apply_layer ::
  "merge_accumulator \<Rightarrow> config_layer \<times> port_source_priority \<Rightarrow> merge_accumulator" where
  "apply_layer acc entry =
     (case entry of (layer, priority) \<Rightarrow>
       let (dotfiles, dotfile_entries) =
             foldl merge_dotfile (ma_dotfiles acc, ma_dotfile_entries acc) (cl_dotfiles layer)
       in \<lparr>ma_shell = override_option (cl_shell layer) (ma_shell acc),
           ma_features = foldl merge_feature (ma_features acc) (cl_features layer),
           ma_dotfile_entries = dotfile_entries,
           ma_dotfiles = dotfiles,
           ma_mounts = foldl merge_mount (ma_mounts acc) (cl_mounts layer),
           ma_ports = foldl (merge_forward_port priority)
             (foldl (merge_port priority) (ma_ports acc) (cl_ports layer)) (cl_forward_ports layer),
           ma_auto_ports = (case cl_auto_ports layer of None \<Rightarrow> ma_auto_ports acc
              | Some auto_ports \<Rightarrow> merge_auto_ports (ma_auto_ports acc) auto_ports),
           ma_compose = merge_compose (ma_compose acc) (cl_compose layer),
           ma_container = merge_container (ma_container acc) (cl_container layer),
           ma_relocation_explicit = (ma_relocation_explicit acc \<or>
              lpp_automatic_relocation (lco_published_ports (cl_compose layer)) \<noteq> None),
           ma_devcontainer = (case cl_devcontainer layer of None \<Rightarrow> ma_devcontainer acc
              | Some devcontainer \<Rightarrow> merge_devcontainer (ma_devcontainer acc) devcontainer),
           ma_init = override_option (Option.bind (cl_devcontainer layer) ldc_init) (ma_init acc),
           ma_privileged = override_option (Option.bind (cl_devcontainer layer) ldc_privileged) (ma_privileged acc),
           ma_credentials = merge_credentials (ma_credentials acc) (cl_credentials layer),
           ma_hooks = append_hooks (ma_hooks acc) (cl_hooks layer)\<rparr>)"

definition attributes_for_keys ::
  "(string, resolved_port_attributes) btree_map \<Rightarrow> string list \<Rightarrow> resolved_port_attributes option" where
  "attributes_for_keys attributes keys = (case filter_map (bt_get attributes) keys of [] \<Rightarrow> None | a # _ \<Rightarrow> Some a)"

definition apply_forward_attributes ::
  "(string, resolved_port_attributes) btree_map \<Rightarrow> merged_port \<Rightarrow> merged_port" where
  "apply_forward_attributes port_attributes entry =
     (if mp_forward_attribute_keys entry = [] then entry
      else let attributes = attributes_for_keys port_attributes (mp_forward_attribute_keys entry)
           in entry\<lparr>mp_port := (mp_port entry)\<lparr>rp_label := Option.bind attributes pa_label,
                rp_require_local := (case Option.bind attributes pa_require_local_port of
                   Some b \<Rightarrow> b | None \<Rightarrow> False)\<rparr>\<rparr>)"

definition mapping_sort_key :: "resolved_compose_mapping \<Rightarrow> string \<times> nat \<times> nat" where
  "mapping_sort_key m = (rm_service m, protocol_rank (rm_protocol m), unat (rm_target m))"

definition merge_into_resolved :: "merge_accumulator \<Rightarrow> resolved_config" where
  "merge_into_resolved acc =
     (let ports = map (apply_forward_attributes (rdc_port_attributes (ma_devcontainer acc))) (ma_ports acc);
          compose = ma_compose acc;
          published = rco_published_ports compose
      in \<lparr>rc_shell = ma_shell acc, rc_features = ma_features acc, rc_dotfile_entries = ma_dotfile_entries acc,
          rc_dotfiles = ma_dotfiles acc, rc_mounts = ma_mounts acc,
          rc_ports = \<lparr>rpo_entries = map mp_port (sort_key (\<lambda>e. 4 - priority_rank (mp_source_priority e)) ports),
             rpo_auto = ma_auto_ports acc\<rparr>,
          rc_compose = compose\<lparr>rco_published_ports := published\<lparr>
             rpp_automatic_relocation :=
               (if ma_relocation_explicit acc then rpp_automatic_relocation published
                else rci_enabled (rco_clone_isolation compose)),
             rpp_mappings := sort_key mapping_sort_key (rpp_mappings published)\<rparr>\<rparr>,
          rc_container = ma_container acc,
          rc_devcontainer = (ma_devcontainer acc)\<lparr>rdc_init := ma_init acc, rdc_privileged := ma_privileged acc\<rparr>,
          rc_credentials = ma_credentials acc, rc_hooks = ma_hooks acc\<rparr>)"

text \<open>The layers with their priorities, in the order they are applied.\<close>

definition merge_order :: "config_merge_input \<Rightarrow> (config_layer \<times> port_source_priority) list" where
  "merge_order input =
     map (\<lambda>layer. (layer, Prio_Image_Metadata)) (mi_image_metadata input) @
     map (\<lambda>layer. (layer, Prio_Image_Metadata)) (mi_feature_metadata input) @
     filter_map (\<lambda>(layer, priority). map_option (\<lambda>l. (l, priority)) layer)
       [(mi_global input, Prio_Global), (mi_devcontainer input, Prio_Devcontainer),
        (mi_project input, Prio_Project), (mi_cli input, Prio_Cli)]"

definition resolve_config :: "config_merge_input \<Rightarrow> resolved_config" where
  "resolve_config input = merge_into_resolved (foldl apply_layer default_accumulator (merge_order input))"

section \<open>The interface of lists kept by identity\<close>

text \<open>
  A client calls \<open>put\<close> with a new entry and \<open>drop\<close> with an identity; the entries with their
  identities are then a map from identities to entries.
\<close>

definition last_mention :: "('c \<Rightarrow> bool) \<Rightarrow> 'c list \<Rightarrow> 'c option" where
  "last_mention P cs = (case filter P (rev cs) of [] \<Rightarrow> None | c # _ \<Rightarrow> Some c)"

lemma filter_map_conv: "filter_map f xs = map (\<lambda>x. the (f x)) (filter (\<lambda>x. f x \<noteq> None) xs)"
  by (induction xs) (auto split: option.split)

locale keyed_entries =
  fixes same :: "'a \<Rightarrow> 'a \<Rightarrow> bool"
    and key :: "'a \<Rightarrow> 'k"
  assumes same_iff: "same x y \<longleftrightarrow> key x = key y"
begin

abbreviation put :: "'a \<Rightarrow> 'a list \<Rightarrow> 'a list" where
  "put \<equiv> replace_by_identity same"

abbreviation drop_key :: "'k \<Rightarrow> 'a list \<Rightarrow> 'a list" where
  "drop_key k \<equiv> remove_by_identity (\<lambda>x. key x = k)"

definition look :: "'a list \<Rightarrow> 'k \<Rightarrow> 'a option" where
  "look xs k = map_of (map (\<lambda>x. (key x, x)) xs) k"

lemma key_set_put: "key ` set (put e xs) = insert (key e) (key ` set xs)"
  by (induction xs) (auto simp: same_iff)

lemma distinct_put: "distinct (map key xs) \<Longrightarrow> distinct (map key (put e xs))"
  using key_set_put by (induction xs) (auto simp: same_iff)

lemma distinct_drop: "distinct (map key xs) \<Longrightarrow> distinct (map key (remove_by_identity p xs))"
  unfolding remove_by_identity_def by (rule distinct_map_filter)

lemma look_put: "look (put e xs) = (look xs)(key e \<mapsto> e)"
  by (induction xs) (auto simp: look_def same_iff fun_eq_iff)

lemma look_drop: "look (drop_key k xs) = (look xs)(k := None)"
  by (induction xs) (auto simp: look_def remove_by_identity_def fun_eq_iff)

lemma look_Nil [simp]: "look [] k = None"
  by (simp add: look_def)

lemma look_eq: "distinct (map key xs) \<Longrightarrow> look xs k = Some x \<longleftrightarrow> x \<in> set xs \<and> key x = k"
  by (auto simp: look_def map_of_eq_Some_iff comp_def image_iff)

text \<open>A sequence of changes: what an item puts or drops, if anything.\<close>

definition change :: "('c \<Rightarrow> 'a option) \<Rightarrow> ('c \<Rightarrow> 'k option) \<Rightarrow> 'a list \<Rightarrow> 'c \<Rightarrow> 'a list" where
  "change puts drops xs c =
     (case drops c of Some k \<Rightarrow> drop_key k xs | None \<Rightarrow>
        (case puts c of Some e \<Rightarrow> put e xs | None \<Rightarrow> xs))"

text \<open>What the changes say of an identity: nothing, that it is dropped, or its entry.\<close>

definition says :: "('c \<Rightarrow> 'a option) \<Rightarrow> ('c \<Rightarrow> 'k option) \<Rightarrow> 'k \<Rightarrow> 'c \<Rightarrow> 'a option option" where
  "says puts drops k c =
     (case drops c of Some k' \<Rightarrow> if k' = k then Some None else None
      | None \<Rightarrow> (case puts c of Some e \<Rightarrow> if key e = k then Some (Some e) else None | None \<Rightarrow> None))"

lemma distinct_changes:
  "distinct (map key xs) \<Longrightarrow> distinct (map key (foldl (change puts drops) xs cs))"
  by (induction cs arbitrary: xs)
     (simp_all add: change_def distinct_put distinct_drop split: option.split)

lemma look_change:
  "look (change puts drops xs c) k = (case says puts drops k c of None \<Rightarrow> look xs k | Some v \<Rightarrow> v)"
  by (auto simp: change_def says_def look_put look_drop split: option.split)

lemma look_changes:
  "look (foldl (change puts drops) xs cs) k =
     (case filter_map (says puts drops k) (rev cs) of [] \<Rightarrow> look xs k | v # _ \<Rightarrow> v)"
proof (induction cs rule: rev_induct)
  case (snoc c cs)
  then show ?case by (simp add: look_change split: option.split)
qed simp

lemma last_change_decides:
  assumes "distinct (map key xs)"
  shows "x \<in> set (foldl (change puts drops) xs cs) \<longleftrightarrow>
    (case filter_map (says puts drops (key x)) (rev cs) of
       [] \<Rightarrow> x \<in> set xs
     | v # _ \<Rightarrow> v = Some x)"
  using look_changes [of puts drops xs cs "key x"] look_eq [OF assms, of "key x" x]
    look_eq [OF distinct_changes [OF assms], of puts drops cs "key x" x]
  by (cases "filter_map (says puts drops (key x)) (rev cs)") simp_all

text \<open>From the empty list, an entry is there exactly when the last item that says anything of its
  identity puts it.\<close>

lemma last_mention_decides:
  "x \<in> set (foldl (change puts drops) [] cs) \<longleftrightarrow>
     (\<exists>c. last_mention (\<lambda>c. says puts drops (key x) c \<noteq> None) cs = Some c \<and>
        says puts drops (key x) c = Some (Some x))"
  using last_change_decides [of "[]" x puts drops cs]
  by (auto simp: last_mention_def filter_map_conv filter_eq_Cons_iff split: list.splits)

end

interpretation mounts: keyed_entries same_mount_target rmo_target
  by unfold_locales (simp add: same_mount_target_def)

interpretation dotfiles: keyed_entries same_dotfile_target rd_target
  by unfold_locales (simp add: same_dotfile_target_def)

interpretation dotfile_entries: keyed_entries
  "\<lambda>existing entry. dotfile_entry_target existing = dotfile_entry_target entry" dotfile_entry_target
  by unfold_locales simp

definition port_identity :: "resolved_port \<Rightarrow> port_protocol \<times> string option \<times> u16 \<times> string" where
  "port_identity p = (rp_protocol p, rp_service p, rp_container p, rp_host_ip p)"

interpretation ports: keyed_entries same_merged_port_identity "\<lambda>e. port_identity (mp_port e)"
  by unfold_locales (simp add: same_merged_port_identity_def same_port_identity_def port_identity_def)

definition mapping_identity :: "resolved_compose_mapping \<Rightarrow> string \<times> u16 \<times> port_protocol" where
  "mapping_identity m = (rm_service m, rm_target m, rm_protocol m)"

interpretation mappings: keyed_entries same_mapping_identity mapping_identity
  by unfold_locales (simp add: same_mapping_identity_def mapping_identity_def)

definition publish_identity :: "resolved_publish_port \<Rightarrow> port_protocol \<times> u16 \<times> u16 option \<times> string option" where
  "publish_identity p = (pp_protocol p, pp_container p, pp_host p, pp_host_ip p)"

interpretation publish_ports: keyed_entries same_publish_port_identity publish_identity
  by unfold_locales (simp add: same_publish_port_identity_def publish_identity_def)

section \<open>Folding over the layers\<close>

abbreviation accumulated :: "config_merge_input \<Rightarrow> merge_accumulator" where
  "accumulated input \<equiv> foldl apply_layer default_accumulator (merge_order input)"

definition layers_of :: "config_merge_input \<Rightarrow> config_layer list" where
  "layers_of input = map fst (merge_order input)"

lemma apply_layer_fields:
  "ma_shell (apply_layer acc (layer, p)) = override_option (cl_shell layer) (ma_shell acc)"
  "ma_features (apply_layer acc (layer, p)) = foldl merge_feature (ma_features acc) (cl_features layer)"
  "(ma_dotfiles (apply_layer acc (layer, p)), ma_dotfile_entries (apply_layer acc (layer, p))) =
     foldl merge_dotfile (ma_dotfiles acc, ma_dotfile_entries acc) (cl_dotfiles layer)"
  "ma_mounts (apply_layer acc (layer, p)) = foldl merge_mount (ma_mounts acc) (cl_mounts layer)"
  "ma_ports (apply_layer acc (layer, p)) =
     foldl (merge_forward_port p) (foldl (merge_port p) (ma_ports acc) (cl_ports layer)) (cl_forward_ports layer)"
  "ma_compose (apply_layer acc (layer, p)) = merge_compose (ma_compose acc) (cl_compose layer)"
  "ma_container (apply_layer acc (layer, p)) = merge_container (ma_container acc) (cl_container layer)"
  "ma_relocation_explicit (apply_layer acc (layer, p)) = (ma_relocation_explicit acc \<or>
     lpp_automatic_relocation (lco_published_ports (cl_compose layer)) \<noteq> None)"
  "ma_devcontainer (apply_layer acc (layer, p)) = (case cl_devcontainer layer of None \<Rightarrow> ma_devcontainer acc
     | Some devcontainer \<Rightarrow> merge_devcontainer (ma_devcontainer acc) devcontainer)"
  "ma_init (apply_layer acc (layer, p)) = override_option (Option.bind (cl_devcontainer layer) ldc_init) (ma_init acc)"
  "ma_privileged (apply_layer acc (layer, p)) =
     override_option (Option.bind (cl_devcontainer layer) ldc_privileged) (ma_privileged acc)"
  "ma_credentials (apply_layer acc (layer, p)) = merge_credentials (ma_credentials acc) (cl_credentials layer)"
  "ma_hooks (apply_layer acc (layer, p)) = append_hooks (ma_hooks acc) (cl_hooks layer)"
  by (auto simp: apply_layer_def Let_def split: prod.split)

text \<open>A component of the accumulator that depends on itself and the layer only.\<close>

lemma fold_component:
  assumes "\<And>acc layer p. field (apply_layer acc (layer, p)) = step (field acc) layer"
  shows "field (foldl apply_layer acc es) = foldl step (field acc) (map fst es)"
  by (induction es arbitrary: acc) (auto simp: assms)

lemma fold_items: "foldl (\<lambda>s layer. foldl f s (items layer)) s ls = foldl f s (concat (map items ls))"
  by (induction ls arbitrary: s) simp_all

text \<open>The last layer that sets a value.\<close>

definition last_set :: "(config_layer \<Rightarrow> 'a option) \<Rightarrow> config_merge_input \<Rightarrow> 'a option" where
  "last_set f input = (case filter_map f (rev (layers_of input)) of [] \<Rightarrow> None | v # _ \<Rightarrow> Some v)"

lemma fold_override:
  "foldl (\<lambda>s layer. override (f layer) s) s ls = override (case filter_map f (rev ls) of [] \<Rightarrow> None | v # _ \<Rightarrow> Some v) s"
  by (induction ls rule: rev_induct) (auto simp: override_def split: option.split list.split)

lemma fold_override_option:
  "foldl (\<lambda>s layer. override_option (f layer) s) s ls =
     (case filter_map f (rev ls) of [] \<Rightarrow> s | v # _ \<Rightarrow> Some v)"
  by (induction ls rule: rev_induct) (auto simp: override_option_def split: option.split list.split)

lemma last_set_override:
  assumes "\<And>acc layer p. field (apply_layer acc (layer, p)) = override (f layer) (field acc)"
  shows "field (accumulated input) = override (last_set f input) (field default_accumulator)"
  unfolding fold_component [where step = "\<lambda>s layer. override (f layer) s", OF assms] fold_override
  by (simp add: last_set_def layers_of_def)

lemma last_set_override_option:
  assumes "\<And>acc layer p. field (apply_layer acc (layer, p)) = override_option (f layer) (field acc)"
    and "field default_accumulator = None"
  shows "field (accumulated input) = last_set f input"
  unfolding fold_component [where step = "\<lambda>s layer. override_option (f layer) s", OF assms(1)] fold_override_option assms(2)
  by (simp add: last_set_def layers_of_def)

definition all_mounts :: "config_merge_input \<Rightarrow> layer_mount list" where
  "all_mounts input = concat (map cl_mounts (layers_of input))"

definition all_mappings :: "config_merge_input \<Rightarrow> layer_compose_mapping list" where
  "all_mappings input = concat (map (\<lambda>l. lpp_mappings (lco_published_ports (cl_compose l))) (layers_of input))"

text \<open>What one item of a list puts and drops.\<close>

definition puts_mount :: "layer_mount \<Rightarrow> resolved_mount option" where
  "puts_mount m = map_option (\<lambda>ty. \<lparr>rmo_source = lam_source m, rmo_target = lam_target m, rmo_type = ty,
     rmo_read_only = lam_read_only m, rmo_resolve_symlink = lam_resolve_symlink m, rmo_create = lam_create m,
     rmo_origin = lam_origin m\<rparr>) (lam_type m)"

definition drops_mount :: "layer_mount \<Rightarrow> string option" where
  "drops_mount m = (if lam_enabled m then None else Some (lam_target m))"

lemma merge_mount_change: "merge_mount = mounts.change puts_mount drops_mount"
  by (intro ext)
     (auto simp: merge_mount_def mounts.change_def puts_mount_def drops_mount_def split: option.split)

definition puts_mapping :: "layer_compose_mapping \<Rightarrow> resolved_compose_mapping option" where
  "puts_mapping m = map_option (\<lambda>h. \<lparr>rm_service = lcm_service m, rm_target = lcm_target m,
     rm_protocol = lcm_protocol m, rm_host = h, rm_host_ip = lcm_host_ip m\<rparr>) (lcm_host m)"

definition drops_mapping :: "layer_compose_mapping \<Rightarrow> (string \<times> u16 \<times> port_protocol) option" where
  "drops_mapping m = (if lcm_enabled m then None else Some (lcm_service m, lcm_target m, lcm_protocol m))"

lemma merge_mapping_change: "merge_compose_mapping = mappings.change puts_mapping drops_mapping"
  by (intro ext)
     (auto simp: merge_compose_mapping_def mappings.change_def puts_mapping_def drops_mapping_def
        mapping_identity_def split: option.split)

lemma accumulated_mounts: "ma_mounts (accumulated input) = foldl merge_mount [] (all_mounts input)"
  using fold_component [where field = ma_mounts and step = "\<lambda>s l. foldl merge_mount s (cl_mounts l)",
      OF apply_layer_fields(4), of default_accumulator "merge_order input"]
  by (simp add: fold_items all_mounts_def layers_of_def default_accumulator_def)

lemma accumulated_mappings:
  "rpp_mappings (rco_published_ports (ma_compose (accumulated input))) =
     foldl merge_compose_mapping [] (all_mappings input)"
proof -
  have "rpp_mappings (rco_published_ports (ma_compose (apply_layer acc (layer, p)))) =
      foldl merge_compose_mapping (rpp_mappings (rco_published_ports (ma_compose acc)))
        (lpp_mappings (lco_published_ports (cl_compose layer)))" for acc layer p
    by (simp add: apply_layer_fields merge_compose_def Let_def)
  from fold_component [where field = "\<lambda>a. rpp_mappings (rco_published_ports (ma_compose a))", OF this,
      of default_accumulator "merge_order input"]
  show ?thesis by (simp add: fold_items all_mappings_def layers_of_def default_accumulator_def default_compose_def)
qed

lemma resolved_mounts: "rc_mounts (resolve_config input) = ma_mounts (accumulated input)"
  by (simp add: resolve_config_def merge_into_resolved_def Let_def)

definition config_mappings :: "resolved_config \<Rightarrow> resolved_compose_mapping list" where
  "config_mappings config = rpp_mappings (rco_published_ports (rc_compose config))"

lemma resolved_mappings:
  "config_mappings (resolve_config input) =
     sort_key mapping_sort_key (rpp_mappings (rco_published_ports (ma_compose (accumulated input))))"
  by (simp add: resolve_config_def merge_into_resolved_def Let_def config_mappings_def)

lemma resolved_mappings_distinct: "distinct (map mapping_identity (config_mappings (resolve_config input)))"
  using mappings.distinct_changes [of "[]" puts_mapping drops_mapping "all_mappings input"]
  by (simp add: resolved_mappings accumulated_mappings merge_mapping_change distinct_map)

lemma resolved_mapping_iff:
  "x \<in> set (config_mappings (resolve_config input)) \<longleftrightarrow>
     (\<exists>m. last_mention (\<lambda>m. (lcm_service m, lcm_target m, lcm_protocol m) = mapping_identity x \<and>
           (lcm_enabled m \<longrightarrow> lcm_host m \<noteq> None)) (all_mappings input) = Some m \<and>
        lcm_enabled m \<and> puts_mapping m = Some x)"
proof -
  have says: "mappings.says puts_mapping drops_mapping k m =
      (if (lcm_service m, lcm_target m, lcm_protocol m) = k \<and> (lcm_enabled m \<longrightarrow> lcm_host m \<noteq> None)
       then Some (if lcm_enabled m then puts_mapping m else None) else None)" for k m
    by (cases "lcm_host m") (auto simp: mappings.says_def puts_mapping_def drops_mapping_def mapping_identity_def)
  have "puts_mapping m = Some x \<Longrightarrow> (lcm_service m, lcm_target m, lcm_protocol m) = mapping_identity x \<and> lcm_host m \<noteq> None" for m
    by (auto simp: puts_mapping_def mapping_identity_def)
  then show ?thesis
    unfolding resolved_mappings set_sort accumulated_mappings merge_mapping_change mappings.last_mention_decides says
    by (auto split: if_splits)
qed

lemma resolved_mount_iff:
  "x \<in> set (rc_mounts (resolve_config input)) \<longleftrightarrow>
     (\<exists>m. last_mention (\<lambda>m. lam_target m = rmo_target x \<and> (lam_enabled m \<longrightarrow> lam_type m \<noteq> None))
           (all_mounts input) = Some m \<and>
        lam_enabled m \<and> puts_mount m = Some x)"
proof -
  have says: "mounts.says puts_mount drops_mount k m =
      (if lam_target m = k \<and> (lam_enabled m \<longrightarrow> lam_type m \<noteq> None)
       then Some (if lam_enabled m then puts_mount m else None) else None)" for k m
    by (cases "lam_type m") (auto simp: mounts.says_def puts_mount_def drops_mount_def)
  have "puts_mount m = Some x \<Longrightarrow> lam_target m = rmo_target x \<and> lam_type m \<noteq> None" for m
    by (auto simp: puts_mount_def)
  then show ?thesis
    unfolding resolved_mounts accumulated_mounts merge_mount_change mounts.last_mention_decides says
    by (auto split: if_splits)
qed

section \<open>Scalars\<close>

lemma compose_fields:
  "rpp_automatic_relocation (rco_published_ports (merge_compose c l)) =
     override (lpp_automatic_relocation (lco_published_ports l)) (rpp_automatic_relocation (rco_published_ports c))"
  "rpp_warn_on_relocation (rco_published_ports (merge_compose c l)) =
     override (lpp_warn_on_relocation (lco_published_ports l)) (rpp_warn_on_relocation (rco_published_ports c))"
  "rci_enabled (rco_clone_isolation (merge_compose c l)) =
     override (lci_enabled (lco_clone_isolation l)) (rci_enabled (rco_clone_isolation c))"
  "rin_subnet_pool (rci_networks (rco_clone_isolation (merge_compose c l))) =
     override_option (lin_subnet_pool (lci_networks (lco_clone_isolation l)))
       (rin_subnet_pool (rci_networks (rco_clone_isolation c)))"
  "rin_relocation (rci_networks (rco_clone_isolation (merge_compose c l))) =
     override (lin_relocation (lci_networks (lco_clone_isolation l)))
       (rin_relocation (rci_networks (rco_clone_isolation c)))"
  by (simp_all add: merge_compose_def merge_clone_isolation_def Let_def)

lemma credentials_fields:
  "rgc_enabled (rcr_git (merge_credentials c l)) = override (lgc_enabled (lcr_git l)) (rgc_enabled (rcr_git c))"
  "rgc_https (rcr_git (merge_credentials c l)) = override (lgc_https (lcr_git l)) (rgc_https (rcr_git c))"
  "rgc_ssh_agent (rcr_git (merge_credentials c l)) = override (lgc_ssh_agent (lcr_git l)) (rgc_ssh_agent (rcr_git c))"
  "rhc_enabled (rcr_github (merge_credentials c l)) = override (lhc_enabled (lcr_github l)) (rhc_enabled (rcr_github c))"
  "rhc_mode (rcr_github (merge_credentials c l)) = override (lhc_mode (lcr_github l)) (rhc_mode (rcr_github c))"
  by (simp_all add: merge_credentials_def Let_def)

text \<open>A scalar of the devcontainer metadata, through the layers that have any.\<close>

abbreviation metadata :: "(layer_devcontainer \<Rightarrow> 'a option) \<Rightarrow> config_layer \<Rightarrow> 'a option" where
  "metadata f layer \<equiv> Option.bind (cl_devcontainer layer) f"

lemma devcontainer_fields:
  "rdc_source (ma_devcontainer (apply_layer acc (layer, p))) =
     override_option (metadata ldc_source layer) (rdc_source (ma_devcontainer acc))"
  "rdc_workspace_folder (ma_devcontainer (apply_layer acc (layer, p))) =
     override_option (metadata ldc_workspace_folder layer) (rdc_workspace_folder (ma_devcontainer acc))"
  "rdc_remote_user (ma_devcontainer (apply_layer acc (layer, p))) =
     override_option (metadata ldc_remote_user layer) (rdc_remote_user (ma_devcontainer acc))"
  "rdc_container_user (ma_devcontainer (apply_layer acc (layer, p))) =
     override_option (metadata ldc_container_user layer) (rdc_container_user (ma_devcontainer acc))"
  "rdc_user_env_probe (ma_devcontainer (apply_layer acc (layer, p))) =
     override_option (metadata ldc_user_env_probe layer) (rdc_user_env_probe (ma_devcontainer acc))"
  "rdc_update_remote_user_uid (ma_devcontainer (apply_layer acc (layer, p))) =
     override (metadata ldc_update_remote_user_uid layer) (rdc_update_remote_user_uid (ma_devcontainer acc))"
  "rdc_override_command (ma_devcontainer (apply_layer acc (layer, p))) =
     override (metadata ldc_override_command layer) (rdc_override_command (ma_devcontainer acc))"
  "rdc_shutdown_action (ma_devcontainer (apply_layer acc (layer, p))) =
     override (metadata ldc_shutdown_action layer) (rdc_shutdown_action (ma_devcontainer acc))"
  by (simp_all add: apply_layer_fields merge_devcontainer_def override_def override_option_def split: option.split)

lemma resolved_fields:
  "rc_shell (resolve_config input) = ma_shell (accumulated input)"
  "rct_cli_enabled (rc_container (resolve_config input)) = rct_cli_enabled (ma_container (accumulated input))"
  "rc_credentials (resolve_config input) = ma_credentials (accumulated input)"
  "rdc_source (rc_devcontainer (resolve_config input)) = rdc_source (ma_devcontainer (accumulated input))"
  "rdc_workspace_folder (rc_devcontainer (resolve_config input)) = rdc_workspace_folder (ma_devcontainer (accumulated input))"
  "rdc_remote_user (rc_devcontainer (resolve_config input)) = rdc_remote_user (ma_devcontainer (accumulated input))"
  "rdc_container_user (rc_devcontainer (resolve_config input)) = rdc_container_user (ma_devcontainer (accumulated input))"
  "rdc_user_env_probe (rc_devcontainer (resolve_config input)) = rdc_user_env_probe (ma_devcontainer (accumulated input))"
  "rdc_update_remote_user_uid (rc_devcontainer (resolve_config input)) =
     rdc_update_remote_user_uid (ma_devcontainer (accumulated input))"
  "rdc_override_command (rc_devcontainer (resolve_config input)) =
     rdc_override_command (ma_devcontainer (accumulated input))"
  "rdc_shutdown_action (rc_devcontainer (resolve_config input)) =
     rdc_shutdown_action (ma_devcontainer (accumulated input))"
  "rdc_init (rc_devcontainer (resolve_config input)) = ma_init (accumulated input)"
  "rdc_privileged (rc_devcontainer (resolve_config input)) = ma_privileged (accumulated input)"
  "rdc_container_env (rc_devcontainer (resolve_config input)) = rdc_container_env (ma_devcontainer (accumulated input))"
  "rdc_remote_env (rc_devcontainer (resolve_config input)) = rdc_remote_env (ma_devcontainer (accumulated input))"
  "rdc_lifecycle (rc_devcontainer (resolve_config input)) = rdc_lifecycle (ma_devcontainer (accumulated input))"
  "rco_clone_isolation (rc_compose (resolve_config input)) = rco_clone_isolation (ma_compose (accumulated input))"
  "rpp_automatic_relocation (rco_published_ports (rc_compose (resolve_config input))) =
     (if ma_relocation_explicit (accumulated input)
      then rpp_automatic_relocation (rco_published_ports (ma_compose (accumulated input)))
      else rci_enabled (rco_clone_isolation (ma_compose (accumulated input))))"
  "rc_hooks (resolve_config input) = ma_hooks (accumulated input)"
  "rc_dotfiles (resolve_config input) = ma_dotfiles (accumulated input)"
  "rc_dotfile_entries (resolve_config input) = ma_dotfile_entries (accumulated input)"
  by (simp_all add: resolve_config_def merge_into_resolved_def Let_def)

lemma relocation_explicit:
  "ma_relocation_explicit (accumulated input) \<longleftrightarrow>
     last_set (\<lambda>l. lpp_automatic_relocation (lco_published_ports (cl_compose l))) input \<noteq> None"
proof -
  have "foldl (\<lambda>s layer. s \<or> lpp_automatic_relocation (lco_published_ports (cl_compose layer)) \<noteq> None) b ls \<longleftrightarrow>
      b \<or> (\<exists>l\<in>set ls. lpp_automatic_relocation (lco_published_ports (cl_compose l)) \<noteq> None)" for b ls
    by (induction ls arbitrary: b) auto
  note fold = this
  have "(\<exists>l\<in>set ls. f l \<noteq> None) \<longleftrightarrow> (case filter_map f (rev ls) of [] \<Rightarrow> None | v # _ \<Rightarrow> Some v) \<noteq> None"
    for f :: "config_layer \<Rightarrow> bool option" and ls
    by (induction ls rule: rev_induct) (auto split: list.split option.split)
  note some = this
  show ?thesis
    unfolding fold_component [where field = ma_relocation_explicit, OF apply_layer_fields(8)] fold last_set_def
      layers_of_def [symmetric] some
    by (simp add: default_accumulator_def)
qed

lemmas scalar_simps = devcontainer_fields compose_fields credentials_fields apply_layer_fields(1,6,7,10-12)
  default_accumulator_def default_devcontainer_def default_compose_def default_credentials_def
  default_git_credentials_def default_github_credentials_def default_container_def merge_container_def

lemma accumulated_options:
  shows "ma_shell (accumulated input) = last_set cl_shell input"
    and "ma_init (accumulated input) = last_set (metadata ldc_init) input"
    and "ma_privileged (accumulated input) = last_set (metadata ldc_privileged) input"
    and "rdc_source (ma_devcontainer (accumulated input)) = last_set (metadata ldc_source) input"
    and "rdc_workspace_folder (ma_devcontainer (accumulated input)) = last_set (metadata ldc_workspace_folder) input"
    and "rdc_remote_user (ma_devcontainer (accumulated input)) = last_set (metadata ldc_remote_user) input"
    and "rdc_container_user (ma_devcontainer (accumulated input)) = last_set (metadata ldc_container_user) input"
    and "rdc_user_env_probe (ma_devcontainer (accumulated input)) = last_set (metadata ldc_user_env_probe) input"
proof -
  show "ma_shell (accumulated input) = last_set cl_shell input"
    by (rule last_set_override_option [where field = "\<lambda>a. ma_shell a"])
       (simp_all add: scalar_simps)
  show "ma_init (accumulated input) = last_set (metadata ldc_init) input"
    by (rule last_set_override_option [where field = "\<lambda>a. ma_init a"])
       (simp_all add: scalar_simps)
  show "ma_privileged (accumulated input) = last_set (metadata ldc_privileged) input"
    by (rule last_set_override_option [where field = "\<lambda>a. ma_privileged a"])
       (simp_all add: scalar_simps)
  show "rdc_source (ma_devcontainer (accumulated input)) = last_set (metadata ldc_source) input"
    by (rule last_set_override_option [where field = "\<lambda>a. rdc_source (ma_devcontainer a)"])
       (simp_all add: scalar_simps)
  show "rdc_workspace_folder (ma_devcontainer (accumulated input)) = last_set (metadata ldc_workspace_folder) input"
    by (rule last_set_override_option [where field = "\<lambda>a. rdc_workspace_folder (ma_devcontainer a)"])
       (simp_all add: scalar_simps)
  show "rdc_remote_user (ma_devcontainer (accumulated input)) = last_set (metadata ldc_remote_user) input"
    by (rule last_set_override_option [where field = "\<lambda>a. rdc_remote_user (ma_devcontainer a)"])
       (simp_all add: scalar_simps)
  show "rdc_container_user (ma_devcontainer (accumulated input)) = last_set (metadata ldc_container_user) input"
    by (rule last_set_override_option [where field = "\<lambda>a. rdc_container_user (ma_devcontainer a)"])
       (simp_all add: scalar_simps)
  show "rdc_user_env_probe (ma_devcontainer (accumulated input)) = last_set (metadata ldc_user_env_probe) input"
    by (rule last_set_override_option [where field = "\<lambda>a. rdc_user_env_probe (ma_devcontainer a)"])
       (simp_all add: scalar_simps)
qed

lemma accumulated_defaults:
  shows "rdc_update_remote_user_uid (ma_devcontainer (accumulated input)) =
      override (last_set (metadata ldc_update_remote_user_uid) input) True"
    and "rdc_override_command (ma_devcontainer (accumulated input)) =
      override (last_set (metadata ldc_override_command) input) True"
    and "rdc_shutdown_action (ma_devcontainer (accumulated input)) =
      override (last_set (metadata ldc_shutdown_action) input) Stop_Container"
    and "rct_cli_enabled (ma_container (accumulated input)) =
      override (last_set (\<lambda>l. lct_cli_enabled (cl_container l)) input) True"
    and "rgc_ssh_agent (rcr_git (ma_credentials (accumulated input))) =
      override (last_set (\<lambda>l. lgc_ssh_agent (lcr_git (cl_credentials l))) input) Ssh_Auto"
    and "rhc_mode (rcr_github (ma_credentials (accumulated input))) =
      override (last_set (\<lambda>l. lhc_mode (lcr_github (cl_credentials l))) input) Gh_Token_File"
    and "rci_enabled (rco_clone_isolation (ma_compose (accumulated input))) =
      override (last_set (\<lambda>l. lci_enabled (lco_clone_isolation (cl_compose l))) input) False"
    and "rpp_automatic_relocation (rco_published_ports (ma_compose (accumulated input))) =
      override (last_set (\<lambda>l. lpp_automatic_relocation (lco_published_ports (cl_compose l))) input) False"
proof -
  show "rdc_update_remote_user_uid (ma_devcontainer (accumulated input)) =
      override (last_set (metadata ldc_update_remote_user_uid) input) True"
    using last_set_override [where field = "\<lambda>a. rdc_update_remote_user_uid (ma_devcontainer a)",
      of "metadata ldc_update_remote_user_uid" input] by (simp add: scalar_simps)
  show "rdc_override_command (ma_devcontainer (accumulated input)) =
      override (last_set (metadata ldc_override_command) input) True"
    using last_set_override [where field = "\<lambda>a. rdc_override_command (ma_devcontainer a)",
      of "metadata ldc_override_command" input] by (simp add: scalar_simps)
  show "rdc_shutdown_action (ma_devcontainer (accumulated input)) =
      override (last_set (metadata ldc_shutdown_action) input) Stop_Container"
    using last_set_override [where field = "\<lambda>a. rdc_shutdown_action (ma_devcontainer a)",
      of "metadata ldc_shutdown_action" input] by (simp add: scalar_simps)
  show "rct_cli_enabled (ma_container (accumulated input)) =
      override (last_set (\<lambda>l. lct_cli_enabled (cl_container l)) input) True"
    using last_set_override [where field = "\<lambda>a. rct_cli_enabled (ma_container a)",
      of "\<lambda>l. lct_cli_enabled (cl_container l)" input] by (simp add: scalar_simps)
  show "rgc_ssh_agent (rcr_git (ma_credentials (accumulated input))) =
      override (last_set (\<lambda>l. lgc_ssh_agent (lcr_git (cl_credentials l))) input) Ssh_Auto"
    using last_set_override [where field = "\<lambda>a. rgc_ssh_agent (rcr_git (ma_credentials a))",
      of "\<lambda>l. lgc_ssh_agent (lcr_git (cl_credentials l))" input] by (simp add: scalar_simps)
  show "rhc_mode (rcr_github (ma_credentials (accumulated input))) =
      override (last_set (\<lambda>l. lhc_mode (lcr_github (cl_credentials l))) input) Gh_Token_File"
    using last_set_override [where field = "\<lambda>a. rhc_mode (rcr_github (ma_credentials a))",
      of "\<lambda>l. lhc_mode (lcr_github (cl_credentials l))" input] by (simp add: scalar_simps)
  show "rci_enabled (rco_clone_isolation (ma_compose (accumulated input))) =
      override (last_set (\<lambda>l. lci_enabled (lco_clone_isolation (cl_compose l))) input) False"
    using last_set_override [where field = "\<lambda>a. rci_enabled (rco_clone_isolation (ma_compose a))",
      of "\<lambda>l. lci_enabled (lco_clone_isolation (cl_compose l))" input] by (simp add: scalar_simps)
  show "rpp_automatic_relocation (rco_published_ports (ma_compose (accumulated input))) =
      override (last_set (\<lambda>l. lpp_automatic_relocation (lco_published_ports (cl_compose l))) input) False"
    using last_set_override [where field = "\<lambda>a. rpp_automatic_relocation (rco_published_ports (ma_compose a))",
      of "\<lambda>l. lpp_automatic_relocation (lco_published_ports (cl_compose l))" input] by (simp add: scalar_simps)
qed

lemma resolved_scalars:
  "rdc_workspace_mount (rc_devcontainer (resolve_config input)) = rdc_workspace_mount (ma_devcontainer (accumulated input))"
  "rin_subnet_pool (rci_networks (rco_clone_isolation (rc_compose (resolve_config input)))) = rin_subnet_pool (rci_networks (rco_clone_isolation (ma_compose (accumulated input))))"
  "rin_subnet_prefix (rci_networks (rco_clone_isolation (rc_compose (resolve_config input)))) = rin_subnet_prefix (rci_networks (rco_clone_isolation (ma_compose (accumulated input))))"
  "rpp_warn_on_relocation (rco_published_ports (rc_compose (resolve_config input))) = rpp_warn_on_relocation (rco_published_ports (ma_compose (accumulated input)))"
  "rin_relocation (rci_networks (rco_clone_isolation (rc_compose (resolve_config input)))) = rin_relocation (rci_networks (rco_clone_isolation (ma_compose (accumulated input))))"
  "rim_rewrite_container_names (rci_names (rco_clone_isolation (rc_compose (resolve_config input)))) = rim_rewrite_container_names (rci_names (rco_clone_isolation (ma_compose (accumulated input))))"
  "rim_rewrite_resource_names (rci_names (rco_clone_isolation (rc_compose (resolve_config input)))) = rim_rewrite_resource_names (rci_names (rco_clone_isolation (ma_compose (accumulated input))))"
  "rgc_enabled (rcr_git (rc_credentials (resolve_config input))) = rgc_enabled (rcr_git (ma_credentials (accumulated input)))"
  "rgc_copy_user (rcr_git (rc_credentials (resolve_config input))) = rgc_copy_user (rcr_git (ma_credentials (accumulated input)))"
  "rgc_copy_global_config (rcr_git (rc_credentials (resolve_config input))) = rgc_copy_global_config (rcr_git (ma_credentials (accumulated input)))"
  "rgc_https (rcr_git (rc_credentials (resolve_config input))) = rgc_https (rcr_git (ma_credentials (accumulated input)))"
  "rhc_enabled (rcr_github (rc_credentials (resolve_config input))) = rhc_enabled (rcr_github (ma_credentials (accumulated input)))"
  "rhc_install_feature_if_missing (rcr_github (rc_credentials (resolve_config input))) = rhc_install_feature_if_missing (rcr_github (ma_credentials (accumulated input)))"
  "ap_enabled (rpo_auto (rc_ports (resolve_config input))) = ap_enabled (ma_auto_ports (accumulated input))"
  "ap_min (rpo_auto (rc_ports (resolve_config input))) = ap_min (ma_auto_ports (accumulated input))"
  "ap_max (rpo_auto (rc_ports (resolve_config input))) = ap_max (ma_auto_ports (accumulated input))"
  "ap_ignore (rpo_auto (rc_ports (resolve_config input))) = ap_ignore (ma_auto_ports (accumulated input))"
  "ap_on_auto_forward (rpo_auto (rc_ports (resolve_config input))) = ap_on_auto_forward (ma_auto_ports (accumulated input))"
  by (simp_all add: resolve_config_def merge_into_resolved_def Let_def)

lemma apply_layer_auto_ports:
  "ma_auto_ports (apply_layer acc (layer, p)) = (case cl_auto_ports layer of None \<Rightarrow> ma_auto_ports acc
     | Some auto_ports \<Rightarrow> merge_auto_ports (ma_auto_ports acc) auto_ports)"
  by (simp add: apply_layer_def Let_def split: prod.split)

lemma scalar_fields:
  "rdc_workspace_mount (ma_devcontainer (apply_layer acc (layer, p))) =
     override_option (metadata ldc_workspace_mount layer) (rdc_workspace_mount (ma_devcontainer acc))"
  "rin_subnet_pool (rci_networks (rco_clone_isolation (ma_compose (apply_layer acc (layer, p))))) =
     override_option (lin_subnet_pool (lci_networks (lco_clone_isolation (cl_compose layer)))) (rin_subnet_pool (rci_networks (rco_clone_isolation (ma_compose acc))))"
  "rin_subnet_prefix (rci_networks (rco_clone_isolation (ma_compose (apply_layer acc (layer, p))))) =
     override_option (lin_subnet_prefix (lci_networks (lco_clone_isolation (cl_compose layer)))) (rin_subnet_prefix (rci_networks (rco_clone_isolation (ma_compose acc))))"
  "rpp_warn_on_relocation (rco_published_ports (ma_compose (apply_layer acc (layer, p)))) =
     override (lpp_warn_on_relocation (lco_published_ports (cl_compose layer))) (rpp_warn_on_relocation (rco_published_ports (ma_compose acc)))"
  "rin_relocation (rci_networks (rco_clone_isolation (ma_compose (apply_layer acc (layer, p))))) =
     override (lin_relocation (lci_networks (lco_clone_isolation (cl_compose layer)))) (rin_relocation (rci_networks (rco_clone_isolation (ma_compose acc))))"
  "rim_rewrite_container_names (rci_names (rco_clone_isolation (ma_compose (apply_layer acc (layer, p))))) =
     override (lim_rewrite_container_names (lci_names (lco_clone_isolation (cl_compose layer)))) (rim_rewrite_container_names (rci_names (rco_clone_isolation (ma_compose acc))))"
  "rim_rewrite_resource_names (rci_names (rco_clone_isolation (ma_compose (apply_layer acc (layer, p))))) =
     override (lim_rewrite_resource_names (lci_names (lco_clone_isolation (cl_compose layer)))) (rim_rewrite_resource_names (rci_names (rco_clone_isolation (ma_compose acc))))"
  "rgc_enabled (rcr_git (ma_credentials (apply_layer acc (layer, p)))) =
     override (lgc_enabled (lcr_git (cl_credentials layer))) (rgc_enabled (rcr_git (ma_credentials acc)))"
  "rgc_copy_user (rcr_git (ma_credentials (apply_layer acc (layer, p)))) =
     override (lgc_copy_user (lcr_git (cl_credentials layer))) (rgc_copy_user (rcr_git (ma_credentials acc)))"
  "rgc_copy_global_config (rcr_git (ma_credentials (apply_layer acc (layer, p)))) =
     override (lgc_copy_global_config (lcr_git (cl_credentials layer))) (rgc_copy_global_config (rcr_git (ma_credentials acc)))"
  "rgc_https (rcr_git (ma_credentials (apply_layer acc (layer, p)))) =
     override (lgc_https (lcr_git (cl_credentials layer))) (rgc_https (rcr_git (ma_credentials acc)))"
  "rhc_enabled (rcr_github (ma_credentials (apply_layer acc (layer, p)))) =
     override (lhc_enabled (lcr_github (cl_credentials layer))) (rhc_enabled (rcr_github (ma_credentials acc)))"
  "rhc_install_feature_if_missing (rcr_github (ma_credentials (apply_layer acc (layer, p)))) =
     override (lhc_install_feature_if_missing (lcr_github (cl_credentials layer))) (rhc_install_feature_if_missing (rcr_github (ma_credentials acc)))"
  "ap_enabled (ma_auto_ports (apply_layer acc (layer, p))) =
     override (Option.bind (cl_auto_ports layer) lap_enabled) (ap_enabled (ma_auto_ports acc))"
  "ap_min (ma_auto_ports (apply_layer acc (layer, p))) =
     override (Option.bind (cl_auto_ports layer) lap_min) (ap_min (ma_auto_ports acc))"
  "ap_max (ma_auto_ports (apply_layer acc (layer, p))) =
     override (Option.bind (cl_auto_ports layer) lap_max) (ap_max (ma_auto_ports acc))"
  "ap_ignore (ma_auto_ports (apply_layer acc (layer, p))) =
     override (Option.bind (cl_auto_ports layer) lap_ignore) (ap_ignore (ma_auto_ports acc))"
  "ap_on_auto_forward (ma_auto_ports (apply_layer acc (layer, p))) =
     override (Option.bind (cl_auto_ports layer) lap_on_auto_forward) (ap_on_auto_forward (ma_auto_ports acc))"
  by (simp_all add: apply_layer_fields apply_layer_auto_ports merge_devcontainer_def merge_compose_def merge_clone_isolation_def
    merge_credentials_def merge_auto_ports_def Let_def override_def override_option_def split: option.split)

lemmas default_simps = default_accumulator_def default_devcontainer_def default_compose_def
  default_credentials_def default_auto_ports_def default_isolation_names_def default_git_credentials_def
  default_github_credentials_def

lemma accumulated_scalar_options:
  shows "rdc_workspace_mount (ma_devcontainer (accumulated input)) = last_set (metadata ldc_workspace_mount) input"
    and "rin_subnet_pool (rci_networks (rco_clone_isolation (ma_compose (accumulated input)))) = last_set (\<lambda>l. lin_subnet_pool (lci_networks (lco_clone_isolation (cl_compose l)))) input"
    and "rin_subnet_prefix (rci_networks (rco_clone_isolation (ma_compose (accumulated input)))) = last_set (\<lambda>l. lin_subnet_prefix (lci_networks (lco_clone_isolation (cl_compose l)))) input"
proof -
  show "rdc_workspace_mount (ma_devcontainer (accumulated input)) = last_set (metadata ldc_workspace_mount) input"
    by (rule last_set_override_option [where field = "\<lambda>a. rdc_workspace_mount (ma_devcontainer a)"])
       (simp_all add: scalar_fields default_simps)
  show "rin_subnet_pool (rci_networks (rco_clone_isolation (ma_compose (accumulated input)))) = last_set (\<lambda>l. lin_subnet_pool (lci_networks (lco_clone_isolation (cl_compose l)))) input"
    by (rule last_set_override_option [where field = "\<lambda>a. rin_subnet_pool (rci_networks (rco_clone_isolation (ma_compose a)))"])
       (simp_all add: scalar_fields default_simps)
  show "rin_subnet_prefix (rci_networks (rco_clone_isolation (ma_compose (accumulated input)))) = last_set (\<lambda>l. lin_subnet_prefix (lci_networks (lco_clone_isolation (cl_compose l)))) input"
    by (rule last_set_override_option [where field = "\<lambda>a. rin_subnet_prefix (rci_networks (rco_clone_isolation (ma_compose a)))"])
       (simp_all add: scalar_fields default_simps)
qed

lemma accumulated_scalar_defaults:
  shows "rpp_warn_on_relocation (rco_published_ports (ma_compose (accumulated input))) =
      override (last_set (\<lambda>l. lpp_warn_on_relocation (lco_published_ports (cl_compose l))) input) False"
    and "rin_relocation (rci_networks (rco_clone_isolation (ma_compose (accumulated input)))) =
      override (last_set (\<lambda>l. lin_relocation (lci_networks (lco_clone_isolation (cl_compose l)))) input) False"
    and "rim_rewrite_container_names (rci_names (rco_clone_isolation (ma_compose (accumulated input)))) =
      override (last_set (\<lambda>l. lim_rewrite_container_names (lci_names (lco_clone_isolation (cl_compose l)))) input) True"
    and "rim_rewrite_resource_names (rci_names (rco_clone_isolation (ma_compose (accumulated input)))) =
      override (last_set (\<lambda>l. lim_rewrite_resource_names (lci_names (lco_clone_isolation (cl_compose l)))) input) True"
    and "rgc_enabled (rcr_git (ma_credentials (accumulated input))) =
      override (last_set (\<lambda>l. lgc_enabled (lcr_git (cl_credentials l))) input) True"
    and "rgc_copy_user (rcr_git (ma_credentials (accumulated input))) =
      override (last_set (\<lambda>l. lgc_copy_user (lcr_git (cl_credentials l))) input) True"
    and "rgc_copy_global_config (rcr_git (ma_credentials (accumulated input))) =
      override (last_set (\<lambda>l. lgc_copy_global_config (lcr_git (cl_credentials l))) input) False"
    and "rgc_https (rcr_git (ma_credentials (accumulated input))) =
      override (last_set (\<lambda>l. lgc_https (lcr_git (cl_credentials l))) input) Https_Host_Helper"
    and "rhc_enabled (rcr_github (ma_credentials (accumulated input))) =
      override (last_set (\<lambda>l. lhc_enabled (lcr_github (cl_credentials l))) input) True"
    and "rhc_install_feature_if_missing (rcr_github (ma_credentials (accumulated input))) =
      override (last_set (\<lambda>l. lhc_install_feature_if_missing (lcr_github (cl_credentials l))) input) True"
    and "ap_enabled (ma_auto_ports (accumulated input)) =
      override (last_set (\<lambda>l. Option.bind (cl_auto_ports l) lap_enabled) input) True"
    and "ap_min (ma_auto_ports (accumulated input)) =
      override (last_set (\<lambda>l. Option.bind (cl_auto_ports l) lap_min) input) default_auto_port_min"
    and "ap_max (ma_auto_ports (accumulated input)) =
      override (last_set (\<lambda>l. Option.bind (cl_auto_ports l) lap_max) input) default_auto_port_max"
    and "ap_ignore (ma_auto_ports (accumulated input)) =
      override (last_set (\<lambda>l. Option.bind (cl_auto_ports l) lap_ignore) input) []"
    and "ap_on_auto_forward (ma_auto_ports (accumulated input)) =
      override (last_set (\<lambda>l. Option.bind (cl_auto_ports l) lap_on_auto_forward) input) Notify"
proof -
  show "rpp_warn_on_relocation (rco_published_ports (ma_compose (accumulated input))) = override (last_set (\<lambda>l. lpp_warn_on_relocation (lco_published_ports (cl_compose l))) input) False"
    using last_set_override [where field = "\<lambda>a. rpp_warn_on_relocation (rco_published_ports (ma_compose a))",
      of "\<lambda>l. lpp_warn_on_relocation (lco_published_ports (cl_compose l))" input] by (simp add: scalar_fields default_simps)
  show "rin_relocation (rci_networks (rco_clone_isolation (ma_compose (accumulated input)))) = override (last_set (\<lambda>l. lin_relocation (lci_networks (lco_clone_isolation (cl_compose l)))) input) False"
    using last_set_override [where field = "\<lambda>a. rin_relocation (rci_networks (rco_clone_isolation (ma_compose a)))",
      of "\<lambda>l. lin_relocation (lci_networks (lco_clone_isolation (cl_compose l)))" input] by (simp add: scalar_fields default_simps)
  show "rim_rewrite_container_names (rci_names (rco_clone_isolation (ma_compose (accumulated input)))) = override (last_set (\<lambda>l. lim_rewrite_container_names (lci_names (lco_clone_isolation (cl_compose l)))) input) True"
    using last_set_override [where field = "\<lambda>a. rim_rewrite_container_names (rci_names (rco_clone_isolation (ma_compose a)))",
      of "\<lambda>l. lim_rewrite_container_names (lci_names (lco_clone_isolation (cl_compose l)))" input] by (simp add: scalar_fields default_simps)
  show "rim_rewrite_resource_names (rci_names (rco_clone_isolation (ma_compose (accumulated input)))) = override (last_set (\<lambda>l. lim_rewrite_resource_names (lci_names (lco_clone_isolation (cl_compose l)))) input) True"
    using last_set_override [where field = "\<lambda>a. rim_rewrite_resource_names (rci_names (rco_clone_isolation (ma_compose a)))",
      of "\<lambda>l. lim_rewrite_resource_names (lci_names (lco_clone_isolation (cl_compose l)))" input] by (simp add: scalar_fields default_simps)
  show "rgc_enabled (rcr_git (ma_credentials (accumulated input))) = override (last_set (\<lambda>l. lgc_enabled (lcr_git (cl_credentials l))) input) True"
    using last_set_override [where field = "\<lambda>a. rgc_enabled (rcr_git (ma_credentials a))",
      of "\<lambda>l. lgc_enabled (lcr_git (cl_credentials l))" input] by (simp add: scalar_fields default_simps)
  show "rgc_copy_user (rcr_git (ma_credentials (accumulated input))) = override (last_set (\<lambda>l. lgc_copy_user (lcr_git (cl_credentials l))) input) True"
    using last_set_override [where field = "\<lambda>a. rgc_copy_user (rcr_git (ma_credentials a))",
      of "\<lambda>l. lgc_copy_user (lcr_git (cl_credentials l))" input] by (simp add: scalar_fields default_simps)
  show "rgc_copy_global_config (rcr_git (ma_credentials (accumulated input))) = override (last_set (\<lambda>l. lgc_copy_global_config (lcr_git (cl_credentials l))) input) False"
    using last_set_override [where field = "\<lambda>a. rgc_copy_global_config (rcr_git (ma_credentials a))",
      of "\<lambda>l. lgc_copy_global_config (lcr_git (cl_credentials l))" input] by (simp add: scalar_fields default_simps)
  show "rgc_https (rcr_git (ma_credentials (accumulated input))) = override (last_set (\<lambda>l. lgc_https (lcr_git (cl_credentials l))) input) Https_Host_Helper"
    using last_set_override [where field = "\<lambda>a. rgc_https (rcr_git (ma_credentials a))",
      of "\<lambda>l. lgc_https (lcr_git (cl_credentials l))" input] by (simp add: scalar_fields default_simps)
  show "rhc_enabled (rcr_github (ma_credentials (accumulated input))) = override (last_set (\<lambda>l. lhc_enabled (lcr_github (cl_credentials l))) input) True"
    using last_set_override [where field = "\<lambda>a. rhc_enabled (rcr_github (ma_credentials a))",
      of "\<lambda>l. lhc_enabled (lcr_github (cl_credentials l))" input] by (simp add: scalar_fields default_simps)
  show "rhc_install_feature_if_missing (rcr_github (ma_credentials (accumulated input))) = override (last_set (\<lambda>l. lhc_install_feature_if_missing (lcr_github (cl_credentials l))) input) True"
    using last_set_override [where field = "\<lambda>a. rhc_install_feature_if_missing (rcr_github (ma_credentials a))",
      of "\<lambda>l. lhc_install_feature_if_missing (lcr_github (cl_credentials l))" input] by (simp add: scalar_fields default_simps)
  show "ap_enabled (ma_auto_ports (accumulated input)) = override (last_set (\<lambda>l. Option.bind (cl_auto_ports l) lap_enabled) input) True"
    using last_set_override [where field = "\<lambda>a. ap_enabled (ma_auto_ports a)",
      of "\<lambda>l. Option.bind (cl_auto_ports l) lap_enabled" input] by (simp add: scalar_fields default_simps)
  show "ap_min (ma_auto_ports (accumulated input)) = override (last_set (\<lambda>l. Option.bind (cl_auto_ports l) lap_min) input) default_auto_port_min"
    using last_set_override [where field = "\<lambda>a. ap_min (ma_auto_ports a)",
      of "\<lambda>l. Option.bind (cl_auto_ports l) lap_min" input] by (simp add: scalar_fields default_simps)
  show "ap_max (ma_auto_ports (accumulated input)) = override (last_set (\<lambda>l. Option.bind (cl_auto_ports l) lap_max) input) default_auto_port_max"
    using last_set_override [where field = "\<lambda>a. ap_max (ma_auto_ports a)",
      of "\<lambda>l. Option.bind (cl_auto_ports l) lap_max" input] by (simp add: scalar_fields default_simps)
  show "ap_ignore (ma_auto_ports (accumulated input)) = override (last_set (\<lambda>l. Option.bind (cl_auto_ports l) lap_ignore) input) []"
    using last_set_override [where field = "\<lambda>a. ap_ignore (ma_auto_ports a)",
      of "\<lambda>l. Option.bind (cl_auto_ports l) lap_ignore" input] by (simp add: scalar_fields default_simps)
  show "ap_on_auto_forward (ma_auto_ports (accumulated input)) = override (last_set (\<lambda>l. Option.bind (cl_auto_ports l) lap_on_auto_forward) input) Notify"
    using last_set_override [where field = "\<lambda>a. ap_on_auto_forward (ma_auto_ports a)",
      of "\<lambda>l. Option.bind (cl_auto_ports l) lap_on_auto_forward" input] by (simp add: scalar_fields default_simps)
qed

text \<open>C25. Every scalar of the resolved configuration (shell, devcontainer metadata,
  Compose, container, credentials and automatic ports; not the attributes of single ports) is that
  of the last layer that sets it, or its default; automatic relocation defaults to clone
  isolation.\<close>

theorem last_layer_that_sets_a_value_wins:
  fixes input
  defines "config \<equiv> resolve_config input"
  shows "rc_shell config = last_set cl_shell input \<and>
    rdc_source (rc_devcontainer config) = last_set (metadata ldc_source) input \<and>
    rdc_workspace_folder (rc_devcontainer config) = last_set (metadata ldc_workspace_folder) input \<and>
    rdc_remote_user (rc_devcontainer config) = last_set (metadata ldc_remote_user) input \<and>
    rdc_container_user (rc_devcontainer config) = last_set (metadata ldc_container_user) input \<and>
    rdc_user_env_probe (rc_devcontainer config) = last_set (metadata ldc_user_env_probe) input \<and>
    rdc_init (rc_devcontainer config) = last_set (metadata ldc_init) input \<and>
    rdc_privileged (rc_devcontainer config) = last_set (metadata ldc_privileged) input \<and>
    rdc_update_remote_user_uid (rc_devcontainer config) =
      override (last_set (metadata ldc_update_remote_user_uid) input) True \<and>
    rdc_override_command (rc_devcontainer config) = override (last_set (metadata ldc_override_command) input) True \<and>
    rdc_shutdown_action (rc_devcontainer config) =
      override (last_set (metadata ldc_shutdown_action) input) Stop_Container \<and>
    rct_cli_enabled (rc_container config) = override (last_set (\<lambda>l. lct_cli_enabled (cl_container l)) input) True \<and>
    rgc_ssh_agent (rcr_git (rc_credentials config)) =
      override (last_set (\<lambda>l. lgc_ssh_agent (lcr_git (cl_credentials l))) input) Ssh_Auto \<and>
    rhc_mode (rcr_github (rc_credentials config)) =
      override (last_set (\<lambda>l. lhc_mode (lcr_github (cl_credentials l))) input) Gh_Token_File \<and>
    rci_enabled (rco_clone_isolation (rc_compose config)) =
      override (last_set (\<lambda>l. lci_enabled (lco_clone_isolation (cl_compose l))) input) False \<and>
    rdc_workspace_mount (rc_devcontainer config) = last_set (metadata ldc_workspace_mount) input \<and>
    rin_subnet_pool (rci_networks (rco_clone_isolation (rc_compose config))) = last_set (\<lambda>l. lin_subnet_pool (lci_networks (lco_clone_isolation (cl_compose l)))) input \<and>
    rin_subnet_prefix (rci_networks (rco_clone_isolation (rc_compose config))) = last_set (\<lambda>l. lin_subnet_prefix (lci_networks (lco_clone_isolation (cl_compose l)))) input \<and>
    rpp_warn_on_relocation (rco_published_ports (rc_compose config)) =
      override (last_set (\<lambda>l. lpp_warn_on_relocation (lco_published_ports (cl_compose l))) input) False \<and>
    rin_relocation (rci_networks (rco_clone_isolation (rc_compose config))) =
      override (last_set (\<lambda>l. lin_relocation (lci_networks (lco_clone_isolation (cl_compose l)))) input) False \<and>
    rim_rewrite_container_names (rci_names (rco_clone_isolation (rc_compose config))) =
      override (last_set (\<lambda>l. lim_rewrite_container_names (lci_names (lco_clone_isolation (cl_compose l)))) input) True \<and>
    rim_rewrite_resource_names (rci_names (rco_clone_isolation (rc_compose config))) =
      override (last_set (\<lambda>l. lim_rewrite_resource_names (lci_names (lco_clone_isolation (cl_compose l)))) input) True \<and>
    rgc_enabled (rcr_git (rc_credentials config)) =
      override (last_set (\<lambda>l. lgc_enabled (lcr_git (cl_credentials l))) input) True \<and>
    rgc_copy_user (rcr_git (rc_credentials config)) =
      override (last_set (\<lambda>l. lgc_copy_user (lcr_git (cl_credentials l))) input) True \<and>
    rgc_copy_global_config (rcr_git (rc_credentials config)) =
      override (last_set (\<lambda>l. lgc_copy_global_config (lcr_git (cl_credentials l))) input) False \<and>
    rgc_https (rcr_git (rc_credentials config)) =
      override (last_set (\<lambda>l. lgc_https (lcr_git (cl_credentials l))) input) Https_Host_Helper \<and>
    rhc_enabled (rcr_github (rc_credentials config)) =
      override (last_set (\<lambda>l. lhc_enabled (lcr_github (cl_credentials l))) input) True \<and>
    rhc_install_feature_if_missing (rcr_github (rc_credentials config)) =
      override (last_set (\<lambda>l. lhc_install_feature_if_missing (lcr_github (cl_credentials l))) input) True \<and>
    ap_enabled (rpo_auto (rc_ports config)) =
      override (last_set (\<lambda>l. Option.bind (cl_auto_ports l) lap_enabled) input) True \<and>
    ap_min (rpo_auto (rc_ports config)) =
      override (last_set (\<lambda>l. Option.bind (cl_auto_ports l) lap_min) input) default_auto_port_min \<and>
    ap_max (rpo_auto (rc_ports config)) =
      override (last_set (\<lambda>l. Option.bind (cl_auto_ports l) lap_max) input) default_auto_port_max \<and>
    ap_ignore (rpo_auto (rc_ports config)) =
      override (last_set (\<lambda>l. Option.bind (cl_auto_ports l) lap_ignore) input) [] \<and>
    ap_on_auto_forward (rpo_auto (rc_ports config)) =
      override (last_set (\<lambda>l. Option.bind (cl_auto_ports l) lap_on_auto_forward) input) Notify \<and>
    rpp_automatic_relocation (rco_published_ports (rc_compose config)) =
      override (last_set (\<lambda>l. lpp_automatic_relocation (lco_published_ports (cl_compose l))) input)
        (rci_enabled (rco_clone_isolation (rc_compose config)))"
  unfolding config_def resolved_fields resolved_scalars accumulated_options accumulated_scalar_options
    accumulated_defaults accumulated_scalar_defaults
  using relocation_explicit [of input] by (auto simp: override_def split: option.split)

section \<open>Lists of the resolved configuration\<close>

text \<open>A layer entry decides about a target when it disables it or gives a mount for it.\<close>

definition decides_mount :: "string \<Rightarrow> layer_mount \<Rightarrow> bool" where
  "decides_mount target m = (lam_target m = target \<and> (lam_enabled m \<longrightarrow> lam_type m \<noteq> None))"

text \<open>C16. The resolved mounts have distinct targets, and a mount is there exactly when the
  last layer entry that says anything of its target enables it with these values.\<close>

theorem mounts_follow_their_last_mention:
  "distinct (map rmo_target (rc_mounts (resolve_config input))) \<and>
   (\<forall>x. x \<in> set (rc_mounts (resolve_config input)) \<longleftrightarrow>
     (\<exists>m. last_mention (decides_mount (rmo_target x)) (all_mounts input) = Some m \<and>
        lam_enabled m \<and> puts_mount m = Some x))"
  using resolved_mount_iff mounts.distinct_changes [of "[]" puts_mount drops_mount "all_mounts input"]
  by (auto simp: resolved_mounts accumulated_mounts merge_mount_change decides_mount_def [abs_def])

context keyed_entries
begin

lemma set_put: "distinct (map key xs) \<Longrightarrow> set (put e xs) = {x \<in> set xs. key x \<noteq> key e} \<union> {e}"
proof (rule set_eqI)
  fix x
  assume "distinct (map key xs)"
  from look_eq [OF distinct_put [OF this], of e "key x" x] look_eq [OF this, of "key x" x]
  show "x \<in> set (put e xs) \<longleftrightarrow> x \<in> {x \<in> set xs. key x \<noteq> key e} \<union> {e}"
    by (auto simp: look_put split: if_splits)
qed

end

definition dotfiles_agree :: "resolved_dotfile list \<times> resolved_dotfile_entry list \<Rightarrow> bool" where
  "dotfiles_agree s = (distinct (map rd_target (fst s)) \<and> distinct (map dotfile_entry_target (snd s)) \<and>
     (\<forall>d. d \<in> set (fst s) \<longleftrightarrow> Enabled_Dotfile d \<in> set (snd s)))"

lemma merge_dotfile_agrees:
  assumes "dotfiles_agree s"
  shows "dotfiles_agree (merge_dotfile s dotfile)"
proof -
  obtain ds es where s: "s = (ds, es)" by (cases s)
  have d: "distinct (map rd_target ds)" "distinct (map dotfile_entry_target es)"
    "\<And>d. d \<in> set ds \<longleftrightarrow> Enabled_Dotfile d \<in> set es" using assms by (simp_all add: dotfiles_agree_def s)
  note put = dotfiles.set_put [OF d(1)] dotfile_entries.set_put [OF d(2)]
    dotfiles.distinct_put [OF d(1)] dotfile_entries.distinct_put [OF d(2)] dotfiles.distinct_drop [OF d(1)]
  show ?thesis
    by (cases "lad_source dotfile")
       (auto simp: merge_dotfile_def s dotfiles_agree_def Let_def replace_dotfile_entry_by_target_def put d
          remove_by_identity_def distinct_map_filter)
qed

text \<open>Resolved dotfiles and dotfile entries have distinct targets, and the dotfiles are
  exactly the enabled entries.\<close>

theorem dotfiles_are_the_enabled_entries:
  "distinct (map rd_target (rc_dotfiles (resolve_config input))) \<and>
   distinct (map dotfile_entry_target (rc_dotfile_entries (resolve_config input))) \<and>
   (\<forall>d. d \<in> set (rc_dotfiles (resolve_config input)) \<longleftrightarrow>
      Enabled_Dotfile d \<in> set (rc_dotfile_entries (resolve_config input)))"
proof -
  have step: "dotfiles_agree s \<Longrightarrow> dotfiles_agree (foldl merge_dotfile s ds)" for s ds
    by (induction ds arbitrary: s) (simp_all add: merge_dotfile_agrees)
  have "dotfiles_agree (ma_dotfiles acc, ma_dotfile_entries acc) \<Longrightarrow>
      dotfiles_agree (ma_dotfiles (foldl apply_layer acc es), ma_dotfile_entries (foldl apply_layer acc es))" for acc es
  proof (induction es arbitrary: acc)
    case (Cons e es)
    then have "dotfiles_agree (ma_dotfiles (apply_layer acc e), ma_dotfile_entries (apply_layer acc e))"
      using step by (cases e) (simp add: apply_layer_fields(3))
    from Cons.IH [OF this] show ?case by simp
  qed simp
  from this [of default_accumulator "merge_order input"] show ?thesis
    by (simp add: resolved_fields dotfiles_agree_def default_accumulator_def)
qed

lemma map_of_rev_distinct: "distinct (map fst xs) \<Longrightarrow> map_of (rev xs) k = map_of xs k"
proof (induction xs)
  case (Cons x xs)
  have "map_of xs (fst x) = None" using Cons.prems by (simp add: map_of_eq_None_iff)
  with Cons show ?case by (cases x) (auto simp: map_add_def split: option.split)
qed simp

lemma bt_get_extend: "bt_ok env \<Longrightarrow> bt_get (bt_extend m env) k = override_option (bt_get env k) (bt_get m k)"
  by (simp add: bt_extend_eq bt.get_insert_all override_option_def map_of_rev_distinct [OF bt_ok_distinct]
      bt_get_def [of env])

lemma last_set_environment:
  assumes "\<forall>l\<in>set (layers_of input). \<forall>d. cl_devcontainer l = Some d \<longrightarrow> bt_ok (layer_env d)"
    and step: "\<And>d layer. env (merge_devcontainer d layer) = bt_extend (env d) (layer_env layer)"
    and "env default_devcontainer = []"
  shows "bt_get (env (ma_devcontainer (accumulated input))) k = last_set (metadata (\<lambda>d. bt_get (layer_env d) k)) input"
proof -
  let ?f = "metadata (\<lambda>d. bt_get (layer_env d) k)"
  have "\<forall>l\<in>set (map fst es). \<forall>d. cl_devcontainer l = Some d \<longrightarrow> bt_ok (layer_env d) \<Longrightarrow>
      bt_get (env (ma_devcontainer (foldl apply_layer acc es))) k =
      (case filter_map ?f (rev (map fst es)) of [] \<Rightarrow> bt_get (env (ma_devcontainer acc)) k | v # _ \<Rightarrow> Some v)" for acc es
  proof (induction es rule: rev_induct)
    case (snoc e es)
    obtain layer p where e: "e = (layer, p)" by (cases e)
    show ?case
    proof (cases "cl_devcontainer layer")
      case (Some d)
      with snoc.prems have "bt_ok (layer_env d)" by (simp add: e)
      with snoc Some show ?thesis
        by (auto simp: e apply_layer_fields step bt_get_extend override_option_def split: option.split)
    qed (use snoc in \<open>simp add: e apply_layer_fields\<close>)
  qed simp
  from this [of "merge_order input" default_accumulator] assms(1,3) show ?thesis
    by (simp add: last_set_def layers_of_def default_accumulator_def bt_get_def split: list.split)
qed

text \<open>A variable of containerEnv or remoteEnv has the value of the last layer that sets
  it.\<close>

theorem environments_follow_the_last_layer:
  assumes "\<forall>l\<in>set (layers_of input). \<forall>d. cl_devcontainer l = Some d \<longrightarrow>
      bt_ok (ldc_container_env d) \<and> bt_ok (ldc_remote_env d)"
  shows "bt_get (rdc_container_env (rc_devcontainer (resolve_config input))) k =
      last_set (metadata (\<lambda>d. bt_get (ldc_container_env d) k)) input \<and>
    bt_get (rdc_remote_env (rc_devcontainer (resolve_config input))) k =
      last_set (metadata (\<lambda>d. bt_get (ldc_remote_env d) k)) input"
  unfolding resolved_fields
  using assms last_set_environment [of input ldc_container_env rdc_container_env k]
    last_set_environment [of input ldc_remote_env rdc_remote_env k]
  by (auto simp: merge_devcontainer_def default_devcontainer_def)

section \<open>Lifecycle commands\<close>

lemma wf_merge_lifecycle:
  assumes "\<forall>d. target = Some d \<longrightarrow> wf_definition d" "\<forall>l. layer = Some l \<longrightarrow> wf_stage_commands (ll_commands l)"
    and "merge_lifecycle target layer = Some d"
  shows "wf_definition d"
  using assms wf_merge_lifecycle_layer
  by (auto simp: merge_lifecycle_def lifecycle_into_resolved_def wf_definition_def split: option.splits)

definition stage_commands_of :: "lifecycle_definition option \<Rightarrow> lifecycle_stage \<Rightarrow> lifecycle_command list" where
  "stage_commands_of d stage = (case d of None \<Rightarrow> [] | Some d \<Rightarrow> definition_commands d stage)"

definition layer_stage_commands :: "lifecycle_stage \<Rightarrow> config_layer \<Rightarrow> lifecycle_command list" where
  "layer_stage_commands stage l =
     (case metadata ldc_lifecycle l of None \<Rightarrow> [] | Some layer \<Rightarrow> layer_commands layer stage)"

lemma stage_commands_merge:
  assumes "\<forall>l. layer = Some l \<longrightarrow> wf_stage_commands (ll_commands l)"
  shows "stage_commands_of (merge_lifecycle target layer) stage =
    stage_commands_of target stage @ (case layer of None \<Rightarrow> [] | Some l \<Rightarrow> layer_commands l stage)"
  using assms definition_commands_merge
  by (auto simp: merge_lifecycle_def stage_commands_of_def lifecycle_into_resolved_def definition_commands_def
      layer_commands_def wf_stage_commands_def split: option.split)

lemma accumulated_lifecycle:
  "rdc_lifecycle (ma_devcontainer (apply_layer acc (layer, p))) =
     merge_lifecycle (rdc_lifecycle (ma_devcontainer acc)) (metadata ldc_lifecycle layer)"
  by (simp add: apply_layer_fields merge_devcontainer_def merge_lifecycle_def split: option.split)

lemma resolved_stage_commands:
  assumes "\<forall>l\<in>set (layers_of input). \<forall>layer. metadata ldc_lifecycle l = Some layer \<longrightarrow>
      wf_stage_commands (ll_commands layer)"
  shows "(\<forall>d. rdc_lifecycle (rc_devcontainer (resolve_config input)) = Some d \<longrightarrow> wf_definition d) \<and>
    config_stage_commands (resolve_config input) stage = concat (map (layer_stage_commands stage) (layers_of input))"
proof -
  let ?ok = "\<lambda>l. \<forall>layer. metadata ldc_lifecycle l = Some layer \<longrightarrow> wf_stage_commands (ll_commands layer)"
  have "\<forall>l\<in>set (map fst es). ?ok l \<Longrightarrow>
      (\<forall>d. rdc_lifecycle (ma_devcontainer (foldl apply_layer default_accumulator es)) = Some d \<longrightarrow> wf_definition d) \<and>
      stage_commands_of (rdc_lifecycle (ma_devcontainer (foldl apply_layer default_accumulator es))) stage =
      concat (map (layer_stage_commands stage) (map fst es))" for es
  proof (induction es rule: rev_induct)
    case Nil
    show ?case by (simp add: default_accumulator_def default_devcontainer_def stage_commands_of_def)
  next
    case (snoc e es)
    obtain layer p where e: "e = (layer, p)" by (cases e)
    have ok: "?ok layer" and rest: "\<forall>l\<in>set (map fst es). ?ok l" using snoc.prems by (simp_all add: e)
    note ih = snoc.IH [OF rest]
    show ?case
    proof
      show "\<forall>d. rdc_lifecycle (ma_devcontainer (foldl apply_layer default_accumulator (es @ [e]))) = Some d \<longrightarrow>
          wf_definition d"
        using wf_merge_lifecycle [OF conjunct1 [OF ih] ok] by (simp add: e accumulated_lifecycle)
      show "stage_commands_of (rdc_lifecycle (ma_devcontainer (foldl apply_layer default_accumulator (es @ [e])))) stage =
          concat (map (layer_stage_commands stage) (map fst (es @ [e])))"
        using ih by (simp add: e accumulated_lifecycle stage_commands_merge [OF ok] layer_stage_commands_def [of stage layer])
    qed
  qed
  from this [of "merge_order input"] assms show ?thesis
    by (simp add: resolved_fields layers_of_def config_stage_commands_def stage_commands_of_def)
qed

text \<open>C40. If the lifecycle commands of every layer are well formed, those of the resolved
  configuration are, and the commands of a stage are those of the layers one after the
  other.\<close>

theorem lifecycle_commands_are_appended_layer_by_layer:
  assumes "\<forall>l\<in>set (layers_of input). \<forall>layer. metadata ldc_lifecycle l = Some layer \<longrightarrow>
      wf_stage_commands (ll_commands layer)"
  shows "(\<forall>d. rdc_lifecycle (rc_devcontainer (resolve_config input)) = Some d \<longrightarrow> wf_definition d) \<and>
    config_stage_commands (resolve_config input) stage = concat (map (layer_stage_commands stage) (layers_of input))"
  using assms by (rule resolved_stage_commands)

section \<open>From the layers to the plan of the published ports\<close>

text \<open>C6. From the configuration layers to the plan: when planning succeeds, the last layer
  entry that mentions the port of an active service and enables it decides the host port and
  address the plan publishes it at.\<close>

theorem configured_mappings_reach_the_plan:
  fixes model json_text primary selected layers
  defines "input \<equiv> compose_published_port_planning_input model
      (classify_compose_published_ports json_text model) primary selected"
  assumes "bt_ok (cm_services model)"
    and "resolve_compose_published_port_mappings full_model input (config_mappings (resolve_config layers)) = Inr mappings"
    and "plan_compose_published_ports_with_existing_project probe input enabled forward_ports mappings existing
      preserve external w = (Inr plan, w')"
    and "last_mention (\<lambda>m. (lcm_service m, lcm_target m, lcm_protocol m) = (service, target, protocol) \<and>
        (lcm_enabled m \<longrightarrow> lcm_host m \<noteq> None)) (all_mappings layers) = Some m"
    and "lcm_enabled m" "lcm_host m = Some host_port" "active_set_contains (pin_services input) service"
  shows "\<exists>e\<in>set (plan_entries plan). pl_service e = service \<and> pl_target_port e = target \<and>
    pe_host_port (pl_planned e) = host_port \<and>
    pe_host_ip (pl_planned e) = (case lcm_host_ip m of Some ip \<Rightarrow> Explicit ip | None \<Rightarrow> pe_host_ip (pl_requested e))"
proof -
  have "m \<in> set (filter (\<lambda>m. (lcm_service m, lcm_target m, lcm_protocol m) = (service, target, protocol) \<and>
        (lcm_enabled m \<longrightarrow> lcm_host m \<noteq> None)) (rev (all_mappings layers)))"
    using assms(5) unfolding last_mention_def by (auto split: list.splits simp del: set_filter)
  then have key: "lcm_service m = service" "lcm_target m = target" "lcm_protocol m = protocol" by auto
  let ?x = "\<lparr>rm_service = service, rm_target = target, rm_protocol = protocol, rm_host = host_port,
     rm_host_ip = lcm_host_ip m\<rparr>"
  have "?x \<in> set (config_mappings (resolve_config layers))"
    unfolding resolved_mapping_iff
    by (rule exI [of _ m]) (use assms(5-7) key in \<open>simp add: puts_mapping_def mapping_identity_def\<close>)
  moreover have "distinct (map (\<lambda>m. (rm_service m, rm_target m, rm_protocol m)) (config_mappings (resolve_config layers)))"
    using resolved_mappings_distinct [of layers] by (simp add: mapping_identity_def [abs_def])
  ultimately show ?thesis
    using resolved_mappings_are_honoured [OF assms(2) assms(3) [unfolded input_def] _ assms(4) [unfolded input_def],
        of ?x] assms(8)
    by (auto simp: input_def)
qed

section \<open>Examples\<close>

definition example_mapping_layer :: config_layer where
  "example_mapping_layer = empty_layer\<lparr>cl_compose := (cl_compose empty_layer)\<lparr>lco_published_ports :=
     \<lparr>lpp_automatic_relocation = None, lpp_warn_on_relocation = None,
      lpp_mappings = [\<lparr>lcm_enabled = True, lcm_service = ''web'', lcm_target = 80, lcm_protocol = Tcp,
        lcm_host = Some 9000, lcm_host_ip = None\<rparr>]\<rparr>\<rparr>\<rparr>"

definition example_metadata_layer :: "string \<Rightarrow> config_layer" where
  "example_metadata_layer v = empty_layer\<lparr>cl_devcontainer := Some (empty_metadata\<lparr>
     ldc_container_env := [(''A'', v)],
     ldc_lifecycle := Some \<lparr>ll_commands = [(Post_Create, [Shell_Command v])], ll_wait_for = None\<rparr>\<rparr>)\<rparr>"

definition example_layers :: config_merge_input where
  "example_layers = \<lparr>mi_image_metadata = [], mi_feature_metadata = [], mi_global = Some example_mapping_layer,
     mi_devcontainer = Some (example_metadata_layer ''1''), mi_project = Some (example_metadata_layer ''2''),
     mi_cli = None\<rparr>"

lemma example_layers_of:
  "layers_of example_layers = [example_mapping_layer, example_metadata_layer ''1'', example_metadata_layer ''2'']"
  by (simp add: layers_of_def merge_order_def example_layers_def)

lemmas example_layer_defs = example_metadata_layer_def example_mapping_layer_def empty_layer_def empty_metadata_def

theorem environments_follow_the_last_layer_witness:
  "bt_get (rdc_container_env (rc_devcontainer (resolve_config example_layers))) ''A'' = Some ''2''"
proof -
  have "\<forall>l\<in>set (layers_of example_layers). \<forall>d. cl_devcontainer l = Some d \<longrightarrow>
      bt_ok (ldc_container_env d) \<and> bt_ok (ldc_remote_env d)"
    by (simp add: example_layers_of example_layer_defs bt_ok_def)
  from environments_follow_the_last_layer [OF this, of "''A''"] show ?thesis
    by (simp add: last_set_def example_layers_of example_layer_defs bt_get_def)
qed

theorem lifecycle_commands_are_appended_layer_by_layer_witness:
  "config_stage_commands (resolve_config example_layers) Post_Create = [Shell_Command ''1'', Shell_Command ''2'']"
proof -
  have "\<forall>l\<in>set (layers_of example_layers). \<forall>layer. metadata ldc_lifecycle l = Some layer \<longrightarrow>
      wf_stage_commands (ll_commands layer)"
    by (simp add: example_layers_of example_layer_defs wf_stage_commands_def bt_ok_def)
  from lifecycle_commands_are_appended_layer_by_layer [OF this, of Post_Create] show ?thesis
    by (simp add: example_layers_of example_layer_defs layer_stage_commands_def layer_commands_def bt_get_def)
qed

lemma example_config_mappings: "config_mappings (resolve_config example_layers) = [example_configured]"
  by (simp add: resolved_mappings accumulated_mappings all_mappings_def example_layers_of example_layer_defs
      merge_compose_mapping_def example_configured_def)

theorem configured_mappings_reach_the_plan_witness:
  "\<exists>plan. plan_compose_published_ports_with_existing_project example_prober example_planning_input True []
     [example_mapping] [] True [] () = (Inr plan, ()) \<and>
   (\<exists>e\<in>set (plan_entries plan). pl_service e = ''web'' \<and> pe_host_port (pl_planned e) = 9000)"
proof -
  obtain plan where plan: "plan_compose_published_ports_with_existing_project example_prober example_planning_input
      True [] [example_mapping] [] True [] () = (Inr plan, ())" using example_mapped_plan by blast
  have ok: "bt_ok (cm_services example_published_model)"
    by (simp add: example_published_model_def example_model_def bt_ok_def)
  have last: "last_mention (\<lambda>m. (lcm_service m, lcm_target m, lcm_protocol m) = (''web'', 80, Tcp) \<and>
      (lcm_enabled m \<longrightarrow> lcm_host m \<noteq> None)) (all_mappings example_layers) =
      Some \<lparr>lcm_enabled = True, lcm_service = ''web'', lcm_target = 80, lcm_protocol = Tcp,
        lcm_host = Some 9000, lcm_host_ip = None\<rparr>"
    by (simp add: last_mention_def all_mappings_def example_layers_of example_layer_defs)
  have "\<exists>e\<in>set (plan_entries plan). pl_service e = ''web'' \<and> pe_host_port (pl_planned e) = 9000"
    using configured_mappings_reach_the_plan [OF ok, where layers = example_layers, unfolded example_config_mappings,
        OF example_resolved [unfolded example_planning_input_def] plan [unfolded example_planning_input_def] last]
      example_active [unfolded example_planning_input_def]
    by auto
  with plan show ?thesis by blast
qed

section \<open>Ports\<close>

lemma merge_port_distinct:
  assumes "distinct (map (\<lambda>e. port_identity (mp_port e)) ports)"
  shows "distinct (map (\<lambda>e. port_identity (mp_port e)) (merge_port p ports port))"
    and "distinct (map (\<lambda>e. port_identity (mp_port e)) (merge_forward_port p ports fwd))"
  using ports.distinct_put [OF assms] ports.distinct_drop [OF assms]
  by (simp_all add: merge_port_def merge_forward_port_def)

lemma accumulated_ports_distinct:
  "distinct (map (\<lambda>e. port_identity (mp_port e)) (ma_ports (accumulated input)))"
proof -
  let ?d = "\<lambda>ports. distinct (map (\<lambda>e. port_identity (mp_port e)) ports)"
  have plain: "?d ports \<Longrightarrow> ?d (foldl (merge_port p) ports xs)" for ports p xs
    by (induction xs arbitrary: ports) (simp_all add: merge_port_distinct)
  have forward: "?d ports \<Longrightarrow> ?d (foldl (merge_forward_port p) ports xs)" for ports p xs
    by (induction xs arbitrary: ports) (simp_all add: merge_port_distinct)
  have "?d (ma_ports acc) \<Longrightarrow> ?d (ma_ports (foldl apply_layer acc es))" for acc es
  proof (induction es arbitrary: acc)
    case (Cons e es)
    have "?d (ma_ports (apply_layer acc e))"
      by (cases e) (simp add: apply_layer_fields plain forward Cons.prems)
    from Cons.IH [OF this] show ?case by simp
  qed simp
  then show ?thesis by (simp add: default_accumulator_def)
qed

lemma apply_forward_attributes_keeps [simp]:
  "port_identity (mp_port (apply_forward_attributes attributes e)) = port_identity (mp_port e)"
  "mp_source_priority (apply_forward_attributes attributes e) = mp_source_priority e"
  by (simp_all add: apply_forward_attributes_def Let_def port_identity_def)

text \<open>The resolved ports are the merged ports with their attributes, have distinct
  identities, and ports of a stronger source come first.\<close>

theorem ports_are_distinct_and_strongest_first:
  "\<exists>ports. rpo_entries (rc_ports (resolve_config input)) = map mp_port ports \<and>
     set ports = apply_forward_attributes (rdc_port_attributes (rc_devcontainer (resolve_config input))) `
       set (ma_ports (accumulated input)) \<and>
     distinct (map port_identity (rpo_entries (rc_ports (resolve_config input)))) \<and>
     sorted_wrt (\<lambda>a b. priority_rank (mp_source_priority b) \<le> priority_rank (mp_source_priority a)) ports"
proof -
  let ?attributes = "rdc_port_attributes (ma_devcontainer (accumulated input))"
  let ?key = "\<lambda>e. 4 - priority_rank (mp_source_priority e)"
  let ?merged = "map (apply_forward_attributes ?attributes) (ma_ports (accumulated input))"
  let ?ports = "sort_key ?key ?merged"
  have entries: "rpo_entries (rc_ports (resolve_config input)) = map mp_port ?ports"
    "rdc_port_attributes (rc_devcontainer (resolve_config input)) = ?attributes"
    by (simp_all add: resolve_config_def merge_into_resolved_def Let_def)
  have "distinct (map (\<lambda>e. port_identity (mp_port e)) ?merged)"
    using accumulated_ports_distinct [of input] by (simp add: comp_def)
  moreover have "mset (map port_identity (map mp_port ?ports)) = mset (map (\<lambda>e. port_identity (mp_port e)) ?merged)"
    unfolding mset_map mset_sort by (simp add: multiset.map_comp comp_def)
  ultimately have "distinct (map port_identity (map mp_port ?ports))"
    by (metis mset_eq_imp_distinct_iff)
  moreover have "priority_rank q \<le> 4" for q by (cases q) simp_all
  then have "sorted_wrt (\<lambda>a b. priority_rank (mp_source_priority b) \<le> priority_rank (mp_source_priority a)) ?ports"
    using sorted_sort_key [of ?key ?merged]
    by (auto simp: sorted_wrt_map elim!: sorted_wrt_mono_rel [rotated]) (metis diff_le_mono2 diff_diff_cancel)
  ultimately show ?thesis using entries by (intro exI [of _ ?ports]) simp
qed

end
