(* ===== verification/Config_Hash_View.thy ===== *)
theory Config_Hash_View
  imports Config_Hash
begin

text \<open>
  What the hash of a configuration depends on. The view of an input is the input without what
  the hash leaves out: ports are set to a fixed value, maps are sorted, values that come from
  the environment are replaced by their digests. Each section shows of one writer that its text
  can be taken apart into the view of the value; the last one composes them.
\<close>

section \<open>Names are distinct\<close>

lemma dotfile_conflict_name_inj [simp]: "dotfile_conflict_name a = dotfile_conflict_name b \<longleftrightarrow> a = b"
  by (cases a; cases b) (simp_all)

lemma config_path_origin_name_inj [simp]: "config_path_origin_name a = config_path_origin_name b \<longleftrightarrow> a = b"
  by (cases a; cases b) (simp_all)

lemma mount_type_name_inj [simp]: "mount_type_name a = mount_type_name b \<longleftrightarrow> a = b"
  by (cases a; cases b) (simp_all)

lemma mount_create_name_inj [simp]: "mount_create_name a = mount_create_name b \<longleftrightarrow> a = b"
  by (cases a; cases b) (simp_all)

lemma user_env_probe_name_inj [simp]: "user_env_probe_name a = user_env_probe_name b \<longleftrightarrow> a = b"
  by (cases a; cases b) (simp_all)

lemma shutdown_action_name_inj [simp]: "shutdown_action_name a = shutdown_action_name b \<longleftrightarrow> a = b"
  by (cases a; cases b) (simp_all)

lemma port_protocol_name_inj [simp]: "port_protocol_name a = port_protocol_name b \<longleftrightarrow> a = b"
  by (cases a; cases b) (simp_all)

lemma wait_for_name_inj [simp]: "wait_for_name a = wait_for_name b \<longleftrightarrow> a = b"
  by (cases a; cases b) (simp_all)

lemma git_https_mode_name_inj [simp]: "git_https_mode_name a = git_https_mode_name b \<longleftrightarrow> a = b"
  by (cases a; cases b) (simp_all)

lemma ssh_agent_mode_name_inj [simp]: "ssh_agent_mode_name a = ssh_agent_mode_name b \<longleftrightarrow> a = b"
  by (cases a; cases b) (simp_all)

lemma github_credentials_mode_name_inj [simp]: "github_credentials_mode_name a = github_credentials_mode_name b \<longleftrightarrow> a = b"
  by (cases a; cases b) (simp_all)

lemma hook_location_name_inj [simp]: "hook_location_name a = hook_location_name b \<longleftrightarrow> a = b"
  by (cases a; cases b) (simp_all)

lemma uid_gid_state_text_inj [simp]: "uid_gid_state_text a = uid_gid_state_text b \<longleftrightarrow> a = b"
  by (cases a; cases b) (simp_all add: fmt_def)

section \<open>Simple values\<close>

named_theorems cancels \<open>texts that start with the text of a value\<close>

lemmas [cancels] = canon_string.map_cancel canon_string.seq_cancel canon_bool.option_cancel
  canon_string.option_cancel canon_toml.map_cancel canon_json.cancel canon_json.map_cancel canon_json.option_cancel

lemma option_string_cancel [cancels]:
  "option_string a @ CHR '';'' # r = option_string b @ CHR '';'' # s \<longleftrightarrow> a = b \<and> r = s"
  by (simp add: option_string_def canon_string.option_cancel option.map_ident)

lemma write_option_bool_cancel [cancels]:
  "write_option_bool a @ CHR '';'' # r = write_option_bool b @ CHR '';'' # s \<longleftrightarrow> a = b \<and> r = s"
  by (simp add: write_option_bool_def canon_bool.option_cancel option.map_ident)

interpretation canon_u16: canonical canon_u16 "\<lambda>v. v"
  by unfold_locales (simp_all add: canon_u16_def word_unat_eq_iff [symmetric])

interpretation canon_u8: canonical "\<lambda>v :: u8. canon_string (show_nat (unat v))" "\<lambda>v. v"
  by unfold_locales (simp_all add: word_unat_eq_iff [symmetric])

interpretation canon_strings: canonical canon_strings "\<lambda>v. v"
  by unfold_locales (simp_all add: canon_strings_def canon_string.seq_cancel)

interpretation canon_string_map: canonical canon_string_map "sort_key fst"
  by unfold_locales (simp_all add: canon_string_map_def canon_string.map_cancel)

interpretation mount_create_text: canonical "\<lambda>c. canon_string (mount_create_name c)" "\<lambda>v. v"
  by unfold_locales simp_all

interpretation hook_location_text: canonical "\<lambda>c. canon_string (hook_location_name c)" "\<lambda>v. v"
  by unfold_locales simp_all

interpretation user_env_probe_text: canonical "\<lambda>c. canon_string (user_env_probe_name c)" "\<lambda>v. v"
  by unfold_locales simp_all

lemmas [cancels] = canon_u16.cancel canon_u16.option_cancel canon_u8.option_cancel canon_strings.cancel
  canon_strings.option_cancel canon_string_map.cancel canon_string_map.option_cancel
  mount_create_text.option_cancel hook_location_text.option_cancel user_env_probe_text.option_cancel
  option.map_ident word_unat_eq_iff [symmetric]

section \<open>Compose files, mounts, the build and the startup command\<close>

interpretation write_compose_generated_override_input: canonical write_compose_generated_override_input "\<lambda>v. v"
proof unfold_locales
  fix a b r s
  show "write_compose_generated_override_input a @ CHR '';'' # r = write_compose_generated_override_input b @ CHR '';'' # s \<longleftrightarrow> a = b \<and> r = s"
    by (cases a; cases b) (simp add: write_compose_generated_override_input_def cancels)
qed (simp add: write_compose_generated_override_input_def)

interpretation write_compose_file_input: canonical write_compose_file_input "\<lambda>v. v"
proof unfold_locales
  fix a b r s
  show "write_compose_file_input a @ CHR '';'' # r = write_compose_file_input b @ CHR '';'' # s \<longleftrightarrow> a = b \<and> r = s"
    by (cases a; cases b) (simp add: write_compose_file_input_def cancels)
qed (simp add: write_compose_file_input_def)

interpretation write_uid_gid_sync_input: canonical write_uid_gid_sync_input "\<lambda>v. v"
proof unfold_locales
  fix a b r s
  show "write_uid_gid_sync_input a @ CHR '';'' # r = write_uid_gid_sync_input b @ CHR '';'' # s \<longleftrightarrow> a = b \<and> r = s"
    by (cases a; cases b) (simp add: write_uid_gid_sync_input_def cancels)
qed (simp add: write_uid_gid_sync_input_def)

interpretation write_startup_command: canonical write_startup_command "\<lambda>v. v"
proof unfold_locales
  fix a b r s
  show "write_startup_command a @ CHR '';'' # r = write_startup_command b @ CHR '';'' # s \<longleftrightarrow> a = b \<and> r = s"
    by (cases a; cases b) (simp add: write_startup_command_def cancels)
qed (simp add: write_startup_command_def)

interpretation write_build_input: canonical write_build_input "\<lambda>v. v"
proof unfold_locales
  fix a b r s
  show "write_build_input a @ CHR '';'' # r = write_build_input b @ CHR '';'' # s \<longleftrightarrow> a = b \<and> r = s"
    by (cases a; cases b) (simp add: write_build_input_def cancels)
qed (simp add: write_build_input_def)

interpretation write_mount_bind_options: canonical write_mount_bind_options "\<lambda>v. v"
proof unfold_locales
  fix a b r s
  show "write_mount_bind_options a @ CHR '';'' # r = write_mount_bind_options b @ CHR '';'' # s \<longleftrightarrow> a = b \<and> r = s"
    by (cases a; cases b) (simp add: write_mount_bind_options_def cancels)
qed (simp add: write_mount_bind_options_def)

lemmas [cancels] = write_compose_generated_override_input.cancel write_compose_file_input.seq_cancel write_uid_gid_sync_input.option_cancel write_startup_command.option_cancel write_build_input.option_cancel write_mount_bind_options.option_cancel

text \<open>Maps are written in the order of their keys.\<close>

definition driver_config_view :: "mount_volume_driver_config_hash_input \<Rightarrow> mount_volume_driver_config_hash_input" where
  "driver_config_view x = x\<lparr>hdc_options := map_option (sort_key fst) (hdc_options x)\<rparr>"

interpretation write_mount_volume_driver_config: canonical write_mount_volume_driver_config "driver_config_view"
proof unfold_locales
  fix a b r s
  show "write_mount_volume_driver_config a @ CHR '';'' # r = write_mount_volume_driver_config b @ CHR '';'' # s \<longleftrightarrow> driver_config_view a = driver_config_view b \<and> r = s"
    by (cases a; cases b) (simp add: write_mount_volume_driver_config_def cancels driver_config_view_def)
qed (simp add: write_mount_volume_driver_config_def)

lemmas [cancels] = write_mount_volume_driver_config.option_cancel

definition volume_options_view :: "mount_volume_options_hash_input \<Rightarrow> mount_volume_options_hash_input" where
  "volume_options_view x = x\<lparr>hvo_labels := map_option (sort_key fst) (hvo_labels x),
     hvo_driver_config := map_option driver_config_view (hvo_driver_config x)\<rparr>"

interpretation write_mount_volume_options: canonical write_mount_volume_options "volume_options_view"
proof unfold_locales
  fix a b r s
  show "write_mount_volume_options a @ CHR '';'' # r = write_mount_volume_options b @ CHR '';'' # s \<longleftrightarrow> volume_options_view a = volume_options_view b \<and> r = s"
    by (cases a; cases b) (simp add: write_mount_volume_options_def cancels volume_options_view_def)
qed (simp add: write_mount_volume_options_def)

lemmas [cancels] = write_mount_volume_options.option_cancel

definition mount_view :: "mount_hash_input \<Rightarrow> mount_hash_input" where
  "mount_view x = x\<lparr>hmt_volume_options := map_option volume_options_view (hmt_volume_options x)\<rparr>"

interpretation write_resolved_mount: canonical write_resolved_mount "mount_view"
proof unfold_locales
  fix a b r s
  show "write_resolved_mount a @ CHR '';'' # r = write_resolved_mount b @ CHR '';'' # s \<longleftrightarrow> mount_view a = mount_view b \<and> r = s"
    by (cases a; cases b) (simp add: write_resolved_mount_def cancels mount_view_def)
qed (simp add: write_resolved_mount_def)

section \<open>Compose, Features, dotfiles, mounts, credentials and hooks\<close>

interpretation write_compose_mapping: canonical write_compose_mapping "\<lambda>v. v"
proof unfold_locales
  fix a b r s
  show "write_compose_mapping a @ CHR '';'' # r = write_compose_mapping b @ CHR '';'' # s \<longleftrightarrow> a = b \<and> r = s"
    by (cases a; cases b) (simp add: write_compose_mapping_def cancels)
qed (simp add: write_compose_mapping_def)

interpretation write_isolation_networks: canonical write_isolation_networks "\<lambda>v. v"
proof unfold_locales
  fix a b r s
  show "write_isolation_networks a @ CHR '';'' # r = write_isolation_networks b @ CHR '';'' # s \<longleftrightarrow> a = b \<and> r = s"
    by (cases a; cases b) (simp add: write_isolation_networks_def cancels)
qed (simp add: write_isolation_networks_def)

interpretation write_isolation_names: canonical write_isolation_names "\<lambda>v. v"
proof unfold_locales
  fix a b r s
  show "write_isolation_names a @ CHR '';'' # r = write_isolation_names b @ CHR '';'' # s \<longleftrightarrow> a = b \<and> r = s"
    by (cases a; cases b) (simp add: write_isolation_names_def cancels)
qed (simp add: write_isolation_names_def)

interpretation write_isolation_endpoint: canonical write_isolation_endpoint "\<lambda>v. v"
proof unfold_locales
  fix a b r s
  show "write_isolation_endpoint a @ CHR '';'' # r = write_isolation_endpoint b @ CHR '';'' # s \<longleftrightarrow> a = b \<and> r = s"
    by (cases a; cases b) (simp add: write_isolation_endpoint_def cancels)
qed (simp add: write_isolation_endpoint_def)

lemmas [cancels] = write_resolved_mount.seq_cancel write_compose_mapping.seq_cancel write_isolation_networks.cancel write_isolation_names.cancel write_isolation_endpoint.seq_cancel

text \<open>Clone isolation that is switched off is written as such and nothing else.\<close>

definition clone_isolation_view :: "resolved_clone_isolation \<Rightarrow> resolved_clone_isolation" where
  "clone_isolation_view x = (if rci_enabled x then x else rco_clone_isolation default_compose)"

interpretation write_clone_isolation: canonical write_clone_isolation "clone_isolation_view"
proof unfold_locales
  fix a b r s
  show "write_clone_isolation a @ CHR '';'' # r = write_clone_isolation b @ CHR '';'' # s \<longleftrightarrow> clone_isolation_view a = clone_isolation_view b \<and> r = s"
    by (cases a; cases b) (simp add: write_clone_isolation_def cancels clone_isolation_view_def default_compose_def)
qed (simp add: write_clone_isolation_def)

lemmas [cancels] = write_clone_isolation.cancel

definition compose_view :: "resolved_compose \<Rightarrow> resolved_compose" where
  "compose_view x = \<lparr>
     rco_published_ports = (rco_published_ports default_compose)\<lparr>rpp_mappings := rpp_mappings (rco_published_ports x)\<rparr>,
     rco_clone_isolation = clone_isolation_view (rco_clone_isolation x)\<rparr>"

interpretation write_config_compose: canonical write_config_compose "\<lambda>c. compose_view (rc_compose c)"
proof unfold_locales
  fix a b r s
  show "write_config_compose a @ CHR '';'' # r = write_config_compose b @ CHR '';'' # s \<longleftrightarrow>
      compose_view (rc_compose a) = compose_view (rc_compose b) \<and> r = s"
    by (auto simp: write_config_compose_def compose_view_def default_compose_def Let_def cancels)
qed (simp add: write_config_compose_def Let_def)

definition feature_view :: "resolved_feature \<Rightarrow> resolved_feature" where
  "feature_view x = x\<lparr>rf_options := map_view toml_view (rf_options x)\<rparr>"

interpretation write_feature: canonical write_feature "feature_view"
proof unfold_locales
  fix a b r s
  show "write_feature a @ CHR '';'' # r = write_feature b @ CHR '';'' # s \<longleftrightarrow> feature_view a = feature_view b \<and> r = s"
    by (cases a; cases b) (simp add: write_feature_def cancels feature_view_def)
qed (simp add: write_feature_def)

interpretation write_enabled_dotfile: canonical write_enabled_dotfile "\<lambda>v. v"
proof unfold_locales
  fix a b r s
  show "write_enabled_dotfile a @ CHR '';'' # r = write_enabled_dotfile b @ CHR '';'' # s \<longleftrightarrow> a = b \<and> r = s"
    by (cases a; cases b) (simp add: write_enabled_dotfile_def cancels)
qed (simp add: write_enabled_dotfile_def)

interpretation write_disabled_dotfile: canonical write_disabled_dotfile "\<lambda>v. v"
proof unfold_locales
  fix a b r s
  show "write_disabled_dotfile a @ CHR '';'' # r = write_disabled_dotfile b @ CHR '';'' # s \<longleftrightarrow> a = b \<and> r = s"
    by (cases a; cases b) (simp add: write_disabled_dotfile_def cancels)
qed (simp add: write_disabled_dotfile_def)

lemmas [cancels] = write_config_compose.cancel write_feature.seq_cancel write_enabled_dotfile.cancel write_disabled_dotfile.cancel

interpretation write_dotfile_entry: canonical write_dotfile_entry "\<lambda>v. v"
proof unfold_locales
  fix a b r s
  show "write_dotfile_entry a @ CHR '';'' # r = write_dotfile_entry b @ CHR '';'' # s \<longleftrightarrow> a = b \<and> r = s"
    by (cases a; cases b)
       (auto simp: cancels, simp_all add: write_enabled_dotfile_def write_disabled_dotfile_def)
  show "text_head (write_dotfile_entry a)"
    by (cases a) (simp_all add: write_enabled_dotfile.head write_disabled_dotfile.head)
qed

text \<open>A configuration without entries writes its dotfiles as entries that are all enabled.\<close>

definition dotfiles_view :: "resolved_config \<Rightarrow> resolved_dotfile_entry list" where
  "dotfiles_view config =
     (if rc_dotfile_entries config = [] then map Enabled_Dotfile (rc_dotfiles config) else rc_dotfile_entries config)"

lemma write_config_dotfiles_entries:
  "write_config_dotfiles config = canon_seq write_dotfile_entry (dotfiles_view config)"
  by (simp add: write_config_dotfiles_def dotfiles_view_def canon_seq_def comp_def)

definition config_mount_view :: "resolved_mount \<Rightarrow> resolved_mount" where
  "config_mount_view x = x\<lparr>rmo_origin := Origin_Global\<rparr>"

interpretation write_config_mount: canonical write_config_mount "config_mount_view"
proof unfold_locales
  fix a b r s
  show "write_config_mount a @ CHR '';'' # r = write_config_mount b @ CHR '';'' # s \<longleftrightarrow> config_mount_view a = config_mount_view b \<and> r = s"
    by (cases a; cases b) (simp add: write_config_mount_def cancels config_mount_view_def)
qed (simp add: write_config_mount_def)

interpretation write_git_credentials: canonical write_git_credentials "\<lambda>v. v"
proof unfold_locales
  fix a b r s
  show "write_git_credentials a @ CHR '';'' # r = write_git_credentials b @ CHR '';'' # s \<longleftrightarrow> a = b \<and> r = s"
    by (cases a; cases b) (simp add: write_git_credentials_def cancels)
qed (simp add: write_git_credentials_def)

interpretation write_github_credentials: canonical write_github_credentials "\<lambda>v. v"
proof unfold_locales
  fix a b r s
  show "write_github_credentials a @ CHR '';'' # r = write_github_credentials b @ CHR '';'' # s \<longleftrightarrow> a = b \<and> r = s"
    by (cases a; cases b) (simp add: write_github_credentials_def cancels)
qed (simp add: write_github_credentials_def)

interpretation write_command: canonical write_command "\<lambda>v. v"
proof unfold_locales
  fix a b r s
  show "write_command a @ CHR '';'' # r = write_command b @ CHR '';'' # s \<longleftrightarrow> a = b \<and> r = s"
    by (cases a; cases b) (simp_all add: cancels)
  show "text_head (write_command a)" by (cases a) simp_all
qed

lemmas [cancels] = write_dotfile_entry.seq_cancel write_config_mount.seq_cancel write_git_credentials.cancel write_github_credentials.cancel write_command.cancel

interpretation write_hook: canonical write_hook "\<lambda>v. v"
proof unfold_locales
  fix a b r s
  show "write_hook a @ CHR '';'' # r = write_hook b @ CHR '';'' # s \<longleftrightarrow> a = b \<and> r = s"
    by (cases a; cases b) (simp add: write_hook_def cancels)
qed (simp add: write_hook_def)

lemmas [cancels] = write_hook.seq_cancel

section \<open>The devcontainer\<close>

lemma sort_key_sorted: "sorted (map f xs) \<Longrightarrow> sort_key f xs = xs"
proof (induction xs)
  case (Cons x xs)
  then show ?case by (simp add: insort_is_Cons)
qed simp

lemma sort_key_bt_ok [simp]: "bt_ok m \<Longrightarrow> sort_key fst m = m"
  by (simp add: sort_key_sorted bt_ok_def strict_sorted_imp_sorted)

fun devcontainer_mount_view :: "devcontainer_mount \<Rightarrow> devcontainer_mount" where
  "devcontainer_mount_view (Mount_String v) = Mount_String v"
| "devcontainer_mount_view (Mount_Object m) = Mount_Object (map_view json_view m)"

interpretation write_devcontainer_mount: canonical write_devcontainer_mount devcontainer_mount_view
proof unfold_locales
  fix a b r s
  show "write_devcontainer_mount a @ CHR '';'' # r = write_devcontainer_mount b @ CHR '';'' # s \<longleftrightarrow>
      devcontainer_mount_view a = devcontainer_mount_view b \<and> r = s"
    by (cases a; cases b) (simp_all add: cancels)
  show "text_head (write_devcontainer_mount a)" by (cases a) simp_all
qed

interpretation write_compose_source: canonical write_compose_source "\<lambda>v. v"
proof unfold_locales
  fix a b r s
  show "write_compose_source a @ CHR '';'' # r = write_compose_source b @ CHR '';'' # s \<longleftrightarrow> a = b \<and> r = s"
    by (cases a; cases b) (simp add: write_compose_source_def cancels)
qed (simp add: write_compose_source_def)

fun source_view :: "(string \<Rightarrow> u8 list) \<Rightarrow> string list \<Rightarrow> devcontainer_source \<Rightarrow> devcontainer_source" where
  "source_view sha256 keys (Source_Dockerfile build) =
     Source_Dockerfile (build\<lparr>db_args := build_args_for_hash sha256 (db_args build) keys\<rparr>)"
| "source_view sha256 keys source = source"

lemma write_devcontainer_source_head: "text_head (write_devcontainer_source sha256 keys v)"
  by (cases v) (simp_all add: write_dockerfile_source_def write_compose_source_def)

lemma write_devcontainer_source_cancel:
  "write_devcontainer_source sha256 keys a @ CHR '';'' # r = write_devcontainer_source sha256 keys' b @ CHR '';'' # s \<longleftrightarrow>
     source_view sha256 keys a = source_view sha256 keys' b \<and> r = s"
proof (cases a; cases b)
  fix x y
  assume "a = Source_Dockerfile x" "b = Source_Dockerfile y"
  then show ?thesis
    by (cases x; cases y) (simp add: write_dockerfile_source_def cancels build_args_for_hash_def)
next
  fix x y
  assume "a = Source_Compose_Files x" "b = Source_Compose_Files y"
  then show ?thesis by (simp add: write_compose_source.cancel)
qed (simp_all add: write_dockerfile_source_def write_compose_source_def cancels)

lemma source_option_cancel [cancels]:
  "canon_option (write_devcontainer_source sha256 keys) a @ CHR '';'' # r =
     canon_option (write_devcontainer_source sha256 keys') b @ CHR '';'' # s \<longleftrightarrow>
   map_option (source_view sha256 keys) a = map_option (source_view sha256 keys') b \<and> r = s"
  by (cases a; cases b)
     (simp_all add: canon_option_def write_devcontainer_source_cancel text_head_differs [OF write_devcontainer_source_head])

interpretation write_publish_port: canonical write_publish_port "\<lambda>v. v"
proof unfold_locales
  fix a b r s
  show "write_publish_port a @ CHR '';'' # r = write_publish_port b @ CHR '';'' # s \<longleftrightarrow> a = b \<and> r = s"
    by (cases a; cases b) (simp add: write_publish_port_def cancels)
qed (simp add: write_publish_port_def)

interpretation write_run_arg: canonical write_run_arg "\<lambda>v. v"
proof unfold_locales
  fix a b r s
  show "write_run_arg a @ CHR '';'' # r = write_run_arg b @ CHR '';'' # s \<longleftrightarrow> a = b \<and> r = s"
    by (cases a; cases b) (simp_all add: cancels)
  show "text_head (write_run_arg a)" by (cases a) simp_all
qed

fun command_view :: "lifecycle_command \<Rightarrow> lifecycle_command" where
  "command_view (Parallel_Command m) = Parallel_Command (map_view command_view m)"
| "command_view c = c"

lemma write_lifecycle_command_cancel:
  "write_lifecycle_command a @ CHR '';'' # r = write_lifecycle_command b @ CHR '';'' # s \<longleftrightarrow>
     command_view a = command_view b \<and> r = s"
proof (induction a arbitrary: b r s rule: write_lifecycle_command.induct)
  case (3 m)
  then show ?case by (cases b) (simp_all add: canon_map_cancel_on [where p = command_view])
qed (case_tac b; simp add: cancels)+

interpretation write_lifecycle_command: canonical write_lifecycle_command command_view
proof unfold_locales
  fix a
  show "text_head (write_lifecycle_command a)" by (cases a) simp_all
qed (rule write_lifecycle_command_cancel)

lemma write_stage_commands_cancel:
  "write_stage_commands a @ CHR '';'' # r = write_stage_commands b @ CHR '';'' # s \<longleftrightarrow>
      map command_view a = map command_view b \<and> r = s"
  by (auto simp: write_stage_commands_def write_lifecycle_command.seq_cancel text_head_differs)

text \<open>The commands of all stages, an empty list for a stage that has none.\<close>

definition lifecycle_view :: "lifecycle_definition \<Rightarrow> lifecycle_definition" where
  "lifecycle_view l = \<lparr>
     ld_commands = map (\<lambda>stage. (stage, map command_view (definition_commands l stage))) hashed_stages,
     ld_wait_for = ld_wait_for l\<rparr>"

interpretation write_lifecycle: canonical write_lifecycle lifecycle_view
proof unfold_locales
  fix a b r s
  show "write_lifecycle a @ CHR '';'' # r = write_lifecycle b @ CHR '';'' # s \<longleftrightarrow>
      lifecycle_view a = lifecycle_view b \<and> r = s"
    by (simp add: write_lifecycle_def lifecycle_view_def hashed_stages_def write_stage_commands_cancel)
qed (simp add: write_lifecycle_def)

lemmas [cancels] = write_devcontainer_mount.seq_cancel write_publish_port.seq_cancel write_run_arg.seq_cancel write_lifecycle.option_cancel

text \<open>The attributes of forwarded ports are left out.\<close>

definition devcontainer_view ::
  "(string \<Rightarrow> u8 list) \<Rightarrow> string list \<Rightarrow> string list \<Rightarrow> resolved_devcontainer \<Rightarrow> resolved_devcontainer" where
  "devcontainer_view sha256 env_keys arg_keys d = d\<lparr>
     rdc_source := map_option (source_view sha256 arg_keys) (rdc_source d),
     rdc_mounts := map devcontainer_mount_view (rdc_mounts d),
     rdc_container_env := container_env_for_hash sha256 (rdc_container_env d) env_keys,
     rdc_remote_env := sort_key fst (rdc_remote_env d),
     rdc_port_attributes := [],
     rdc_other_ports_attributes := None,
     rdc_lifecycle := map_option lifecycle_view (rdc_lifecycle d)\<rparr>"

lemma write_devcontainer_cancel:
  "write_devcontainer sha256 a ek ak @ CHR '';'' # r = write_devcontainer sha256 b ek' ak' @ CHR '';'' # s \<longleftrightarrow>
     devcontainer_view sha256 ek ak a = devcontainer_view sha256 ek' ak' b \<and> r = s"
  by (cases a; cases b)
     (auto simp: write_devcontainer_def devcontainer_view_def cancels container_env_for_hash_def)

section \<open>The whole input\<close>

definition config_view :: "(string \<Rightarrow> u8 list) \<Rightarrow> config_hash_input \<Rightarrow> resolved_config" where
  "config_view sha256 input =
     (let config = chi_config input
      in config\<lparr>
        rc_features := map feature_view (rc_features config),
        rc_dotfile_entries := dotfiles_view config,
        rc_dotfiles := [],
        rc_mounts := map config_mount_view (rc_mounts config),
        rc_ports := \<lparr>rpo_entries = [], rpo_auto = default_auto_ports\<rparr>,
        rc_compose := compose_view (rc_compose config),
        rc_container := default_container,
        rc_devcontainer := devcontainer_view sha256 (chi_sensitive_container_env_keys input)
          (chi_sensitive_build_arg_keys input) (rc_devcontainer config)\<rparr>)"

definition hash_view :: "(string \<Rightarrow> u8 list) \<Rightarrow> config_hash_input \<Rightarrow> config_hash_input" where
  "hash_view sha256 input = input\<lparr>
     chi_config := config_view sha256 input,
     chi_feature_locks := sort_key (\<lambda>e. (hfl_feature_id e, hfl_digest e)) (chi_feature_locks input),
     chi_cli_flags := map_view toml_view (chi_cli_flags input),
     chi_internal_versions := sort_key fst (chi_internal_versions input),
     chi_compose_canonical_model :=
       map_option (\<lambda>model. json_view (sanitize_compose_canonical_model_for_hash sha256 model))
         (chi_compose_canonical_model input),
     chi_resolved_mounts := map mount_view (chi_resolved_mounts input),
     chi_sensitive_container_env_keys := [],
     chi_sensitive_build_arg_keys := []\<rparr>"

lemma write_credentials_cancel:
  "write_config_credentials a @ CHR '';'' # r = write_config_credentials b @ CHR '';'' # s \<longleftrightarrow>
     rc_credentials a = rc_credentials b \<and> r = s"
  by (cases "rc_credentials a"; cases "rc_credentials b") (simp add: write_config_credentials_def cancels)

lemma write_hooks_cancel:
  "write_config_hooks a @ CHR '';'' # r = write_config_hooks b @ CHR '';'' # s \<longleftrightarrow>
     rc_hooks a = rc_hooks b \<and> r = s"
  by (cases "rc_hooks a"; cases "rc_hooks b") (simp add: write_config_hooks_def write_hooks_def Let_def cancels)

lemma write_resolved_config_cancel:
  "write_resolved_config sha256 a @ CHR '';'' # r = write_resolved_config sha256 b @ CHR '';'' # s \<longleftrightarrow>
     config_view sha256 a = config_view sha256 b \<and> r = s"
  by (cases "chi_config a"; cases "chi_config b")
     (simp add: write_resolved_config_def config_view_def Let_def cancels write_config_features_def
       write_config_dotfiles_entries write_config_mounts_def write_credentials_cancel write_hooks_cancel
       write_devcontainer_cancel)

interpretation write_feature_lock: canonical write_feature_lock "\<lambda>v. v"
proof unfold_locales
  fix a b r s
  show "write_feature_lock a @ CHR '';'' # r = write_feature_lock b @ CHR '';'' # s \<longleftrightarrow> a = b \<and> r = s"
    by (cases a; cases b) (simp add: write_feature_lock_def cancels)
qed (simp add: write_feature_lock_def)

lemmas [cancels] = write_feature_lock.seq_cancel

lemma canon_field_cancel_end:
  "canon_field n v = canon_field m w \<longleftrightarrow> n = m \<and> v = w"
  using canon_field_cancel [of n v "[]" m w "[]"] by simp

lemma config_hash_text_iff:
  "config_hash_text sha256 a = config_hash_text sha256 b \<longleftrightarrow> hash_view sha256 a = hash_view sha256 b"
proof (cases a; cases b)
  fix ca fa cfa va ba fla oa ma ra sa ua ka qa cb fb cfb vb bb flb ob mb rb sb ub kb qb
  assume "a = \<lparr>chi_config = ca, chi_feature_locks = fa, chi_cli_flags = cfa, chi_internal_versions = va,
      chi_build = ba, chi_compose_files = fla, chi_compose_generated_override = oa,
      chi_compose_canonical_model = ma, chi_resolved_mounts = ra, chi_startup_command = sa,
      chi_uid_gid_sync = ua, chi_sensitive_container_env_keys = ka, chi_sensitive_build_arg_keys = qa\<rparr>"
    and "b = \<lparr>chi_config = cb, chi_feature_locks = fb, chi_cli_flags = cfb, chi_internal_versions = vb,
      chi_build = bb, chi_compose_files = flb, chi_compose_generated_override = ob,
      chi_compose_canonical_model = mb, chi_resolved_mounts = rb, chi_startup_command = sb,
      chi_uid_gid_sync = ub, chi_sensitive_container_env_keys = kb, chi_sensitive_build_arg_keys = qb\<rparr>"
  then show ?thesis
    by (cases "fla = []"; cases "flb = []"; cases oa; cases ob; cases ma; cases mb)
       (simp_all add: config_hash_text_def hash_view_def cancels write_resolved_config_cancel write_feature_locks_def
          write_compose_file_inputs_def write_resolved_mounts_def canon_field_cancel_end
          write_uid_gid_sync_input.option_same_text option.map_ident conj_ac)
qed

section \<open>What the hash leaves out\<close>

text \<open>
  Values that come from the environment: those of the sensitive keys of the container
  environment and of the build arguments, and the environment of every service of the Compose
  model. Blanking removes them from an input.
\<close>

definition blank_values :: "string list \<Rightarrow> (string, string) btree_map \<Rightarrow> (string, string) btree_map" where
  "blank_values keys m = map (\<lambda>(k, v). (k, if k \<in> set keys then [] else v)) m"

fun blank_source :: "string list \<Rightarrow> devcontainer_source \<Rightarrow> devcontainer_source" where
  "blank_source keys (Source_Dockerfile build) = Source_Dockerfile (build\<lparr>db_args := blank_values keys (db_args build)\<rparr>)"
| "blank_source keys source = source"

fun fill_leaves :: "json \<Rightarrow> json \<Rightarrow> json" where
  "fill_leaves c (J_Object m) = J_Object (map (\<lambda>(k, v). (k, fill_leaves c v)) m)"
| "fill_leaves c (J_Array vs) = J_Array (map (fill_leaves c) vs)"
| "fill_leaves c v = c"

fun on_children :: "(json \<Rightarrow> json) \<Rightarrow> json \<Rightarrow> json" where
  "on_children f (J_Object m) = J_Object (map (\<lambda>(k, v). (k, f v)) m)"
| "on_children f (J_Array vs) = J_Array (map f vs)"
| "on_children f v = v"

fun on_entry :: "string \<Rightarrow> (json \<Rightarrow> json) \<Rightarrow> json \<Rightarrow> json" where
  "on_entry key f (J_Object m) = J_Object (map (\<lambda>(k, v). (k, if k = key then f v else v)) m)"
| "on_entry key f v = v"

fun fill_object :: "json \<Rightarrow> json \<Rightarrow> json" where
  "fill_object c (J_Object m) = fill_leaves c (J_Object m)"
| "fill_object c v = v"

definition fill_environments :: "json \<Rightarrow> json \<Rightarrow> json" where
  "fill_environments c model = on_entry ''services'' (on_children (on_entry ''environment'' (fill_object c))) model"

definition blank_secrets :: "config_hash_input \<Rightarrow> config_hash_input" where
  "blank_secrets input =
     (let config = chi_config input; d = rc_devcontainer config
      in input\<lparr>
        chi_config := config\<lparr>rc_devcontainer := d\<lparr>
          rdc_container_env := blank_values (chi_sensitive_container_env_keys input) (rdc_container_env d),
          rdc_source := map_option (blank_source (chi_sensitive_build_arg_keys input)) (rdc_source d)\<rparr>\<rparr>,
        chi_compose_canonical_model := map_option (fill_environments J_Null) (chi_compose_canonical_model input)\<rparr>)"

text \<open>Every digest is the same: then the text has to be the same without the values.\<close>

lemma fill_blanked [simp]: "fill_leaves c (fill_leaves J_Null v) = fill_leaves c v"
  by (induction c v rule: fill_leaves.induct) (auto simp: case_prod_beta)

lemma fill_object_blanked [simp]: "fill_object c (fill_object J_Null v) = fill_object c v"
  by (cases v) (auto simp: case_prod_beta)

lemma on_entry_comp [simp]: "on_entry k f (on_entry k g v) = on_entry k (\<lambda>x. f (g x)) v"
  by (cases v) (auto simp: case_prod_beta)

lemma on_children_comp [simp]: "on_children f (on_children g v) = on_children (\<lambda>x. f (g x)) v"
  by (cases v) (auto simp: case_prod_beta)

lemma fill_environments_blanked: "fill_environments c (fill_environments J_Null v) = fill_environments c v"
  by (simp add: fill_environments_def)

lemma marker_constant:
  "compose_environment_value_hash_marker (\<lambda>_. d) path v = compose_environment_value_hash_marker (\<lambda>_. d) [] J_Null"
  by (simp add: compose_environment_value_hash_marker_def compose_environment_value_digest_def sha256_hex_def)

lemma map_enumerate:
  assumes "\<And>i v. (i, v) \<in> set (List.enumerate n vs) \<Longrightarrow> g i v = f v"
  shows "map (\<lambda>(i, v). g i v) (List.enumerate n vs) = map f vs"
proof -
  have "map (\<lambda>(i, v). g i v) (List.enumerate n vs) = map f (map snd (List.enumerate n vs))"
    using assms by (simp add: case_prod_beta comp_def del: map_snd_enumerate)
  then show ?thesis by simp
qed

lemma map_enumerate_id:
  assumes "\<And>i v. (i, v) \<in> set (List.enumerate n vs) \<Longrightarrow> g i v = v"
  shows "map (\<lambda>(i, v). g i v) (List.enumerate n vs) = vs"
  using map_enumerate [of n vs g "\<lambda>v. v"] assms by simp

definition constant_marker :: "u8 list \<Rightarrow> json" where
  "constant_marker d = J_String (compose_environment_value_hash_marker (\<lambda>_. d) [] J_Null)"

lemma digest_leaves_constant: "digest_json_leaf_values (\<lambda>_. d) path v = fill_leaves (constant_marker d) v"
proof (induction "\<lambda>_ :: string. d" path v rule: digest_json_leaf_values.induct)
  case (1 path m)
  have "(k, v) \<in> set m \<Longrightarrow> digest_json_leaf_values (\<lambda>_. d) (path @ [key_segment k]) v =
      fill_leaves (constant_marker d) v" for k v
    by (rule 1 [OF _ refl])
  then show ?case by auto
next
  case (2 path vs)
  show ?case by (simp add: map_enumerate [OF 2 [OF _ refl]])
qed (simp_all add: constant_marker_def, (rule marker_constant)+)

text \<open>The walk over a Compose model changes only the environments of the services.\<close>

definition outside :: "string list \<Rightarrow> bool" where
  "outside path = (4 \<le> length path \<or> (1 \<le> length path \<and> path ! 0 \<noteq> ''key:services'') \<or>
     (3 \<le> length path \<and> path ! 2 \<noteq> ''key:environment''))"

lemma outside_further: "outside path \<Longrightarrow> outside (path @ [x])"
  by (auto simp: outside_def nth_append)

lemma sanitize_outside: "outside path \<Longrightarrow> sanitize_compose_canonical_model_value sha256 path v = v"
proof (induction sha256 path v rule: sanitize_compose_canonical_model_value.induct)
  case (1 sha256 path m)
  have "\<not> is_compose_service_environment_path path"
    using 1 by (auto simp: outside_def is_compose_service_environment_path_def)
  moreover from this have "(k, v) \<in> set m \<Longrightarrow>
      sanitize_compose_canonical_model_value sha256 (path @ [key_segment k]) v = v" for k v
    by (rule 1(1)) (auto simp: outside_further 1(2))
  then have "map (\<lambda>(k, v). (k, sanitize_compose_canonical_model_value sha256 (path @ [key_segment k]) v)) m = m"
    by (auto intro!: map_idI)
  ultimately show ?case by simp
next
  case (2 sha256 path vs)
  show ?case by (simp add: map_enumerate_id outside_further 2)
qed simp_all

lemma segment_names:
  "key_segment k = ''key:services'' \<longleftrightarrow> k = ''services''" "key_segment k = ''key:environment'' \<longleftrightarrow> k = ''environment''"
  "index_segment i \<noteq> ''key:services''" "index_segment i \<noteq> ''key:environment''"
  by (simp_all add: key_segment_def index_segment_def fmt_def)

lemmas walk_simps = is_compose_service_environment_path_def outside_def sanitize_outside segment_names

lemma sanitize_service_environment:
  "sanitize_compose_canonical_model_value (\<lambda>_. d) [''key:services'', x, ''key:environment''] v =
     fill_object (constant_marker d) v"
proof (cases v)
  case (J_Array vs)
  then show ?thesis by (simp add: walk_simps map_enumerate_id)
qed (simp_all add: walk_simps digest_leaves_constant del: digest_json_leaf_values.simps)

lemma sanitize_service:
  "sanitize_compose_canonical_model_value (\<lambda>_. d) [''key:services'', x] v =
     on_entry ''environment'' (fill_object (constant_marker d)) v"
proof (cases v)
  case (J_Object m)
  have "sanitize_compose_canonical_model_value (\<lambda>_. d) [''key:services'', x, key_segment k] w =
      (if k = ''environment'' then fill_object (constant_marker d) w else w)" for k w
  proof (cases "k = ''environment''")
    case True
    then have "key_segment k = ''key:environment''" by (simp add: segment_names)
    then show ?thesis using True by (simp add: sanitize_service_environment)
  qed (simp add: walk_simps)
  then show ?thesis by (simp add: J_Object walk_simps)
next
  case (J_Array vs)
  then show ?thesis by (simp add: walk_simps map_enumerate_id)
qed simp_all

lemma sanitize_services:
  "sanitize_compose_canonical_model_value (\<lambda>_. d) [''key:services''] v =
     on_children (on_entry ''environment'' (fill_object (constant_marker d))) v"
  by (cases v) (simp_all add: walk_simps sanitize_service map_enumerate
      [where f = "on_entry ''environment'' (fill_object (constant_marker d))"])

lemma sanitize_constant:
  "sanitize_compose_canonical_model_for_hash (\<lambda>_. d) model = fill_environments (constant_marker d) model"
proof (cases model)
  case (J_Object m)
  have "sanitize_compose_canonical_model_value (\<lambda>_. d) [key_segment k] w =
      (if k = ''services'' then on_children (on_entry ''environment'' (fill_object (constant_marker d))) w else w)" for k w
  proof (cases "k = ''services''")
    case True
    then have "key_segment k = ''key:services''" by (simp add: segment_names)
    then show ?thesis using True by (simp add: sanitize_services)
  qed (simp add: walk_simps)
  then show ?thesis
    by (simp add: J_Object walk_simps sanitize_compose_canonical_model_for_hash_def fill_environments_def)
next
  case (J_Array vs)
  then show ?thesis
    by (simp add: walk_simps map_enumerate_id sanitize_compose_canonical_model_for_hash_def fill_environments_def)
qed (simp_all add: sanitize_compose_canonical_model_for_hash_def fill_environments_def)

lemma blanked_container_env:
  "container_env_for_hash (\<lambda>_. d) (blank_values keys env) keys = container_env_for_hash (\<lambda>_. d) env keys"
  by (auto simp: container_env_for_hash_def blank_values_def local_env_derived_container_env_digest_def
      sha256_hex_def list_ex_iff comp_def case_prod_beta intro!: arg_cong [of _ _ bt_collect])

lemma blanked_build_args:
  "build_args_for_hash (\<lambda>_. d) (blank_values keys env) keys = build_args_for_hash (\<lambda>_. d) env keys"
  by (auto simp: build_args_for_hash_def blank_values_def local_env_derived_build_arg_digest_def
      sha256_hex_def list_ex_iff comp_def case_prod_beta intro!: arg_cong [of _ _ bt_collect])

lemma blanked_source: "source_view (\<lambda>_. d) keys (blank_source keys v) = source_view (\<lambda>_. d) keys v"
  by (cases v) (simp_all add: blanked_build_args)

lemma blanked_view: "hash_view (\<lambda>_. d) (blank_secrets input) = hash_view (\<lambda>_. d) input"
  by (simp add: hash_view_def blank_secrets_def config_view_def devcontainer_view_def Let_def blanked_container_env
      option.map_comp comp_def blanked_source sanitize_constant fill_environments_blanked dotfiles_view_def)

text \<open>C10. The hashed text depends on a sensitive container variable, build argument or
  Compose service environment value only through its digest: with one digest for all values, the
  text is that of the input with these values blanked.\<close>

theorem hashed_text_hides_sensitive_values:
  "config_hash_text (\<lambda>_. d) (blank_secrets input) = config_hash_text (\<lambda>_. d) input"
  by (simp add: config_hash_text_iff blanked_view)

text \<open>C7. Two inputs are hashed as the same text exactly when they have the same view: they
  agree on everything but forwarded ports and their attributes, the container CLI switch,
  relocation flags, mount origins, clone isolation settings that are switched off, the order of
  feature locks and of map entries, and the values from the environment beyond their
  digests.\<close>

theorem same_hash_text_iff_same_view:
  "config_hash_text sha256 a = config_hash_text sha256 b \<longleftrightarrow> hash_view sha256 a = hash_view sha256 b"
  by (rule config_hash_text_iff)

text \<open>Forwarded ports, the attributes of ports and the container CLI switch do not change
  the hash, whatever their values.\<close>

theorem runtime_settings_keep_the_hash:
  "config_hash sha256 (input\<lparr>chi_config := (chi_config input)\<lparr>rc_ports := ports, rc_container := container,
     rc_devcontainer := (rc_devcontainer (chi_config input))\<lparr>rdc_port_attributes := attributes,
       rdc_other_ports_attributes := others\<rparr>\<rparr>\<rparr>) = config_hash sha256 input"
proof -
  have "hash_view sha256 (input\<lparr>chi_config := (chi_config input)\<lparr>rc_ports := ports, rc_container := container,
     rc_devcontainer := (rc_devcontainer (chi_config input))\<lparr>rdc_port_attributes := attributes,
       rdc_other_ports_attributes := others\<rparr>\<rparr>\<rparr>) = hash_view sha256 input"
    by (simp add: hash_view_def config_view_def devcontainer_view_def Let_def dotfiles_view_def)
  then show ?thesis by (simp add: config_hash_def flip: config_hash_text_iff)
qed

end
