(* ===== verification/Port_Specs.thy ===== *)
theory Port_Specs
  imports Config_Types
begin

text \<open>
  The ports of a \<open>devcontainer.json\<close>: \<open>src/config/ports.rs\<close> splits the text of a port into its
  segments, \<open>src/devcontainer/ports.rs\<close> reads the entries of \<open>forwardPorts\<close> and \<open>appPort\<close>. The
  splitter accepts exactly the texts of well-formed segments; a published port is read back from
  its text.
\<close>

section \<open>Splitting\<close>

datatype port_spec_segments =
    One_Segment string
  | Two_Segments string string bool
  | Three_Segments string string string bool

definition is_bracket :: "char \<Rightarrow> bool" where
  "is_bracket c = (c = CHR ''['' \<or> c = CHR '']'')"

definition is_colon :: "char \<Rightarrow> bool" where
  "is_colon c = (c = CHR '':'')"

text \<open>The last match of either function, on the segments between colons.\<close>

fun bracketed_segments :: "string \<Rightarrow> string \<Rightarrow> string list \<Rightarrow> port_spec_segments result" where
  "bracketed_segments v host_ip [container] = Inr (Two_Segments host_ip container True)"
| "bracketed_segments v host_ip [host, container] = Inr (Three_Segments host_ip host container True)"
| "bracketed_segments v host_ip _ =
     Inl (fmt [''invalid port specification: too many '', [CHR 0x27], '':'', [CHR 0x27],
       '' separators after bracketed host IP in '', v])"

fun plain_segments :: "string \<Rightarrow> string list \<Rightarrow> port_spec_segments result" where
  "plain_segments v [container] = Inr (One_Segment container)"
| "plain_segments v [left, container] = Inr (Two_Segments left container False)"
| "plain_segments v [host_ip, host, container] = Inr (Three_Segments host_ip host container False)"
| "plain_segments v _ =
     Inl (fmt [''invalid port specification: too many '', [CHR 0x27], '':'', [CHR 0x27],
       '' separators in '', v, ''; IPv6 host IP must be enclosed in brackets''])"

fun_cases bracketed_segmentsE: "bracketed_segments v host_ip ps = Inr segments"
fun_cases plain_segmentsE: "plain_segments v ps = Inr segments"

text \<open>\<open>find(']')\<close> with \<open>split_at\<close> and the \<open>strip_prefix\<close> after it is \<open>split_once\<close>.\<close>

definition split_bracketed_host_port_spec :: "string \<Rightarrow> port_spec_segments result" where
  "split_bracketed_host_port_spec v =
     (case strip_prefix ''['' v of
        None \<Rightarrow> Inl (fmt [''malformed bracketed host IP in port specification: '', v])
      | Some after_open \<Rightarrow>
     (case split_once '']'' after_open of
        None \<Rightarrow> Inl (fmt [''missing closing '', [CHR 0x27], '']'', [CHR 0x27], '' in port specification: '', v])
      | Some (host_ip, after_bracket) \<Rightarrow>
          if host_ip = [] then Inl (fmt [''bracketed host IP must not be empty in port specification: '', v])
          else (case strip_prefix '':'' after_bracket of
            None \<Rightarrow> Inl (fmt [''bracketed host IP must be followed by '', [CHR 0x27], '':'', [CHR 0x27],
                      '' in port specification: '', v])
          | Some rest \<Rightarrow>
              if rest = [] then Inl (fmt [''missing port after bracketed host IP in port specification: '', v])
              else if list_ex is_bracket rest
              then Inl (fmt [''malformed bracketed host IP in port specification: '', v])
              else bracketed_segments v host_ip (split_on is_colon rest))))"

definition split_port_spec :: "string \<Rightarrow> port_spec_segments result" where
  "split_port_spec v =
     (if v = [] then Inl ''port specification must not be empty''
      else if starts_with ''['' v then split_bracketed_host_port_spec v
      else if list_ex is_bracket v
      then Inl (fmt [''malformed bracketed host IP in port specification: '', v])
      else plain_segments v (split_on is_colon v))"

section \<open>Entries of forwardPorts and appPort\<close>

datatype devcontainer_on_auto_forward =
    Auto_Notify | Auto_Silent | Auto_Ignore | Open_Browser | Open_Browser_Once | Open_Preview

record devcontainer_port_attributes =
  dpa_label :: "string option"
  dpa_on_auto_forward :: "devcontainer_on_auto_forward option"
  dpa_require_local_port :: "bool option"
  dpa_unsupported_protocol :: "string option"
  dpa_unsupported_elevate_if_needed :: "bool option"

datatype devcontainer_port = Port_Number u16 | Port_String string

record parsed_port =
  ppo_service :: "string option"
  ppo_container :: u16
  ppo_host :: "u16 option"
  ppo_host_ip :: "string option"
  ppo_protocol :: port_protocol

fun on_auto_forward_to_config :: "devcontainer_on_auto_forward \<Rightarrow> on_auto_forward" where
  "on_auto_forward_to_config Auto_Silent = Silent"
| "on_auto_forward_to_config Auto_Ignore = Ignore"
| "on_auto_forward_to_config _ = Notify"

text \<open>The error of \<open>str::parse\<close> for \<open>u16\<close>.\<close>

fun digits_error :: "nat \<Rightarrow> string \<Rightarrow> string" where
  "digits_error acc [] = []"
| "digits_error acc (c # cs) =
     (case to_digit 10 c of
        None \<Rightarrow> ''invalid digit found in string''
      | Some d \<Rightarrow> if acc * 10 + d \<le> 65535 then digits_error (acc * 10 + d) cs
                  else ''number too large to fit in target type'')"

fun parse_u16_error :: "string \<Rightarrow> string" where
  "parse_u16_error [] = ''cannot parse integer from empty string''"
| "parse_u16_error (c # cs) =
     (if c = CHR ''+'' then (if cs = [] then ''invalid digit found in string'' else digits_error 0 cs)
      else digits_error 0 (c # cs))"

definition parse_u16_port :: "string \<Rightarrow> string \<Rightarrow> u16 result" where
  "parse_u16_port v label =
     ok_or (parse_u16 v) (fmt [''Invalid '', label, '' in devcontainer port '', v, '': '', parse_u16_error v])"

definition parse_port_protocol :: "string \<Rightarrow> (string \<times> port_protocol) result" where
  "parse_port_protocol v =
     (case split_once ''/'' v of
        None \<Rightarrow> Inr (v, Tcp)
      | Some (port, protocol) \<Rightarrow>
          if protocol = ''tcp'' then Inr (port, Tcp)
          else Inl (fmt [''Unsupported devcontainer port protocol: '', protocol, ''. decune supports tcp only'']))"

definition parse_compose_service_name :: "string \<Rightarrow> string \<Rightarrow> string result" where
  "parse_compose_service_name v original =
     (if v = [] then Inl (fmt [''Invalid devcontainer forwardPorts entry: '', original,
                       ''. Compose service name must not be empty''])
      else Inr v)"

definition is_numeric_port_candidate :: "string \<Rightarrow> bool" where
  "is_numeric_port_candidate v = (v \<noteq> [] \<and> list_all is_ascii_digit v)"

definition is_local_forwarding_host :: "string \<Rightarrow> bool" where
  "is_local_forwarding_host v = (v = ''localhost'')"

definition normalize_host_ip :: "string \<Rightarrow> string result" where
  "normalize_host_ip v =
     (if v = [] then Inl ''Devcontainer port host IP must not be empty''
      else if v = ''localhost'' then Inr default_port_host_ip
      else Inr v)"

definition parse_forwarding_port_string :: "string \<Rightarrow> parsed_port result" where
  "parse_forwarding_port_string original =
     bind_res (parse_port_protocol original) (\<lambda>(v, protocol).
     bind_res (map_err (\<lambda>error. fmt [''Invalid devcontainer forwardPorts entry: '', original, ''. '', error])
         (split_port_spec v)) (\<lambda>segments.
     case segments of
       Two_Segments left container bracketed \<Rightarrow>
         if bracketed
         then bind_res (parse_u16_port container ''container port'') (\<lambda>container_port.
              bind_res (normalize_host_ip left) (\<lambda>host_ip.
              Inr \<lparr>ppo_service = None, ppo_container = container_port, ppo_host = None,
                ppo_host_ip = Some host_ip, ppo_protocol = protocol\<rparr>))
         else if is_local_forwarding_host left
         then bind_res (parse_u16_port container ''container port'') (\<lambda>container_port.
              Inr \<lparr>ppo_service = None, ppo_container = container_port, ppo_host = None,
                ppo_host_ip = Some default_port_host_ip, ppo_protocol = protocol\<rparr>)
         else if is_numeric_port_candidate left
         then bind_res (parse_u16_port container ''container port'') (\<lambda>_.
              Inl (fmt [''Invalid devcontainer forwardPorts entry: '', original,
                ''. Use a numeric JSON value for a current-container port; host-port mappings are not supported in forwardPorts'']))
         else bind_res (parse_compose_service_name left original) (\<lambda>service.
              bind_res (parse_u16_port container ''container port'') (\<lambda>container_port.
              Inr \<lparr>ppo_service = Some service, ppo_container = container_port, ppo_host = None,
                ppo_host_ip = Some default_port_host_ip, ppo_protocol = protocol\<rparr>))
     | One_Segment container \<Rightarrow>
         bind_res (parse_u16_port container ''container port'') (\<lambda>container_port.
         Inr \<lparr>ppo_service = None, ppo_container = container_port, ppo_host = None,
           ppo_host_ip = Some default_port_host_ip, ppo_protocol = protocol\<rparr>)
     | Three_Segments _ _ _ _ \<Rightarrow>
         Inl (fmt [''Invalid devcontainer forwardPorts entry: '', original,
           ''. host-port mappings are not supported in forwardPorts''])))"

definition parse_publish_port_string :: "string \<Rightarrow> parsed_port result" where
  "parse_publish_port_string original =
     bind_res (parse_port_protocol original) (\<lambda>(v, protocol).
     bind_res (map_err (\<lambda>error. fmt [''Invalid devcontainer port specification: '', v, ''. '', error])
         (split_port_spec v)) (\<lambda>segments.
     case segments of
       One_Segment container \<Rightarrow>
         bind_res (parse_u16_port container ''container port'') (\<lambda>container_port.
         Inr \<lparr>ppo_service = None, ppo_container = container_port, ppo_host = None, ppo_host_ip = None,
           ppo_protocol = protocol\<rparr>)
     | Two_Segments left container bracketed \<Rightarrow>
         if \<not> bracketed \<and> is_numeric_port_candidate left
         then bind_res (parse_u16_port container ''container port'') (\<lambda>container_port.
              bind_res (parse_u16_port left ''host port'') (\<lambda>host_port.
              Inr \<lparr>ppo_service = None, ppo_container = container_port, ppo_host = Some host_port,
                ppo_host_ip = None, ppo_protocol = protocol\<rparr>))
         else bind_res (parse_u16_port container ''container port'') (\<lambda>container_port.
              bind_res (normalize_host_ip left) (\<lambda>host_ip.
              Inr \<lparr>ppo_service = None, ppo_container = container_port, ppo_host = None,
                ppo_host_ip = Some host_ip, ppo_protocol = protocol\<rparr>))
     | Three_Segments host_ip host container _ \<Rightarrow>
         bind_res (parse_u16_port container ''container port'') (\<lambda>container_port.
         bind_res (parse_u16_port host ''host port'') (\<lambda>host_port.
         bind_res (normalize_host_ip host_ip) (\<lambda>host_ip.
         Inr \<lparr>ppo_service = None, ppo_container = container_port, ppo_host = Some host_port,
           ppo_host_ip = Some host_ip, ppo_protocol = protocol\<rparr>)))))"

fun parse_forwarding_port :: "devcontainer_port \<Rightarrow> parsed_port result" where
  "parse_forwarding_port (Port_Number container) =
     Inr \<lparr>ppo_service = None, ppo_container = container, ppo_host = None,
       ppo_host_ip = Some default_port_host_ip, ppo_protocol = Tcp\<rparr>"
| "parse_forwarding_port (Port_String v) = parse_forwarding_port_string v"

fun parse_publish_port :: "devcontainer_port \<Rightarrow> parsed_port result" where
  "parse_publish_port (Port_Number container) =
     Inr \<lparr>ppo_service = None, ppo_container = container, ppo_host = Some container, ppo_host_ip = None,
       ppo_protocol = Tcp\<rparr>"
| "parse_publish_port (Port_String v) = parse_publish_port_string v"

definition attribute_keys_for_port :: "string option \<Rightarrow> u16 \<Rightarrow> devcontainer_port \<Rightarrow> string list" where
  "attribute_keys_for_port service container_port original =
     (let container_key = show_nat (unat container_port);
          service_key = map_option (\<lambda>service. fmt [service, '':'', container_key]) service
      in case original of
           Port_Number _ \<Rightarrow> [container_key]
         | Port_String v \<Rightarrow>
             if v = container_key then [container_key]
             else let keys = (case service_key of None \<Rightarrow> [] | Some k \<Rightarrow> [k]) @ [container_key]
                  in if list_ex (\<lambda>key. key = v) keys then keys else keys @ [v])"

fun port_attributes_for_keys ::
  "(string, devcontainer_port_attributes) btree_map \<Rightarrow> string list \<Rightarrow> devcontainer_port_attributes option" where
  "port_attributes_for_keys attributes [] = None"
| "port_attributes_for_keys attributes (key # keys) =
     (case bt_get attributes key of Some a \<Rightarrow> Some a | None \<Rightarrow> port_attributes_for_keys attributes keys)"

definition forwarding_port_to_layer ::
  "devcontainer_port \<Rightarrow> (string, devcontainer_port_attributes) btree_map \<Rightarrow> layer_forward_port result" where
  "forwarding_port_to_layer port attributes =
     bind_res (parse_forwarding_port port) (\<lambda>parsed.
       let attribute_keys = attribute_keys_for_port (ppo_service parsed) (ppo_container parsed) port;
           port_attributes = port_attributes_for_keys attributes attribute_keys
       in Inr \<lparr>
         lafp_port = \<lparr>rp_enabled = True, rp_service = ppo_service parsed, rp_container = ppo_container parsed,
           rp_host = ppo_host parsed,
           rp_host_ip = (case ppo_host_ip parsed of Some ip \<Rightarrow> ip | None \<Rightarrow> default_port_host_ip),
           rp_protocol = ppo_protocol parsed,
           rp_require_local = (case Option.bind port_attributes dpa_require_local_port of
                                 Some b \<Rightarrow> b | None \<Rightarrow> False),
           rp_label = Option.bind port_attributes dpa_label\<rparr>,
         lafp_attribute_keys = attribute_keys\<rparr>)"

definition publish_port_to_layer :: "devcontainer_port \<Rightarrow> resolved_publish_port result" where
  "publish_port_to_layer port =
     bind_res (parse_publish_port port) (\<lambda>parsed.
       Inr \<lparr>pp_container = ppo_container parsed, pp_host = ppo_host parsed, pp_host_ip = ppo_host_ip parsed,
         pp_protocol = ppo_protocol parsed\<rparr>)"

definition port_attributes_to_layer :: "devcontainer_port_attributes \<Rightarrow> resolved_port_attributes" where
  "port_attributes_to_layer attributes = \<lparr>
     pa_label = dpa_label attributes,
     pa_on_auto_forward = map_option on_auto_forward_to_config (dpa_on_auto_forward attributes),
     pa_require_local_port = dpa_require_local_port attributes,
     pa_unsupported_protocol = dpa_unsupported_protocol attributes,
     pa_unsupported_elevate_if_needed = dpa_unsupported_elevate_if_needed attributes\<rparr>"

section \<open>The texts of ports\<close>

text \<open>The text of segments, and the segments that have one.\<close>

fun segments_text :: "port_spec_segments \<Rightarrow> string" where
  "segments_text (One_Segment container) = container"
| "segments_text (Two_Segments left container bracketed) =
     (if bracketed then ''['' @ left @ '']:'' @ container else left @ '':'' @ container)"
| "segments_text (Three_Segments host_ip host container bracketed) =
     (if bracketed then ''['' @ host_ip @ '']:'' @ host @ '':'' @ container
      else host_ip @ '':'' @ host @ '':'' @ container)"

definition plain_segment :: "string \<Rightarrow> bool" where
  "plain_segment s = (\<forall>c\<in>set s. \<not> is_colon c \<and> \<not> is_bracket c)"

fun segments_ok :: "port_spec_segments \<Rightarrow> bool" where
  "segments_ok (One_Segment container) = (container \<noteq> [] \<and> plain_segment container)"
| "segments_ok (Two_Segments left container bracketed) =
     (if bracketed then left \<noteq> [] \<and> CHR '']'' \<notin> set left \<and> container \<noteq> [] \<and> plain_segment container
      else plain_segment left \<and> plain_segment container)"
| "segments_ok (Three_Segments host_ip host container bracketed) =
     ((if bracketed then host_ip \<noteq> [] \<and> CHR '']'' \<notin> set host_ip else plain_segment host_ip) \<and>
      plain_segment host \<and> plain_segment container)"

lemma split_on_join2: "\<forall>c\<in>set a. \<not> is_colon c \<Longrightarrow> split_on is_colon (a @ CHR '':'' # b) = a # split_on is_colon b"
  by (induction a) (simp_all add: is_colon_def)

lemma split_on_text: "str_join '':'' (split_on is_colon s) = s"
proof (induction s)
  case (Cons c s)
  obtain p ps where "split_on is_colon s = p # ps" by (cases "split_on is_colon s") auto
  moreover have "c = CHR '':''" if "is_colon c" using that by (simp add: is_colon_def)
  ultimately show ?case using Cons by (cases "is_colon c"; cases ps) auto
qed simp

lemma plain_no_bracket: "plain_segment s \<Longrightarrow> \<not> list_ex is_bracket s"
  by (auto simp: plain_segment_def list_ex_iff)

lemma plain_split [simp]: "plain_segment s \<Longrightarrow> split_on is_colon s = [s]"
  by (auto simp: plain_segment_def intro: split_on_none)

lemma plain_join [simp]: "plain_segment a \<Longrightarrow> split_on is_colon (a @ CHR '':'' # b) = a # split_on is_colon b"
  by (rule split_on_join2) (simp add: plain_segment_def)

lemma plain_pieces:
  assumes "\<not> list_ex is_bracket s" "piece \<in> set (split_on is_colon s)"
  shows "plain_segment piece"
  using split_on_pieces [OF assms(2)] assms(1) by (auto simp: plain_segment_def list_ex_iff)

lemma split_segments_text:
  assumes "segments_ok segments"
  shows "split_port_spec (segments_text segments) = Inr segments"
proof -
  have no_open: "\<not> starts_with ''['' (s @ t)" if "plain_segment s" "s = [] \<longrightarrow> \<not> starts_with ''['' t" for s t
    using that by (cases s) (auto simp: starts_with_def plain_segment_def is_bracket_def)
  have colon: "\<not> starts_with ''['' (CHR '':'' # t)" for t by (simp add: starts_with_def)
  have brackets: "\<not> is_bracket CHR '':''"
    by (simp add: is_bracket_def)
  show ?thesis
  proof (cases segments)
    case (One_Segment c)
    then show ?thesis
      using assms no_open [of c "[]"] by (simp add: split_port_spec_def plain_no_bracket starts_with_def)
  next
    case (Two_Segments l c b)
    then show ?thesis
    proof (cases b)
      case True
      with Two_Segments assms show ?thesis
        by (simp add: split_port_spec_def split_bracketed_host_port_spec_def starts_with_def split_once_char plain_no_bracket)
    next
      case False
      with Two_Segments assms no_open [of l "CHR '':'' # c"] colon show ?thesis
        by (simp add: split_port_spec_def plain_no_bracket brackets)
    qed
  next
    case (Three_Segments ip h c b)
    then show ?thesis
    proof (cases b)
      case True
      with Three_Segments assms show ?thesis
        by (simp add: split_port_spec_def split_bracketed_host_port_spec_def starts_with_def split_once_char
            plain_no_bracket brackets)
    next
      case False
      with Three_Segments assms no_open [of ip "CHR '':'' # h @ CHR '':'' # c"] colon show ?thesis
        by (simp add: split_port_spec_def plain_no_bracket brackets)
    qed
  qed
qed

lemma bracketed_Inr_iff:
  "split_bracketed_host_port_spec v = Inr segments \<longleftrightarrow>
     (\<exists>after_open host_ip rest. v = CHR ''['' # after_open \<and>
        split_once '']'' after_open = Some (host_ip, CHR '':'' # rest) \<and> host_ip \<noteq> [] \<and> rest \<noteq> [] \<and>
        \<not> list_ex is_bracket rest \<and> bracketed_segments v host_ip (split_on is_colon rest) = Inr segments)"
proof (cases "strip_prefix ''['' v")
  case None
  then have "v \<noteq> CHR ''['' # a" for a by auto
  with None show ?thesis by (simp add: split_bracketed_host_port_spec_def)
next
  case (Some after_open)
  then have v: "v = CHR ''['' # after_open" by (simp add: strip_prefix_Some_iff)
  show ?thesis
  proof (cases "split_once '']'' after_open")
    case None
    with Some v show ?thesis by (simp add: split_bracketed_host_port_spec_def)
  next
    case (Some p)
    note split = this
    obtain host_ip after where p: "p = (host_ip, after)" by (cases p)
    show ?thesis
    proof (cases "strip_prefix '':'' after")
      case None
      then have "after \<noteq> CHR '':'' # r" for r by auto
      with None split p v show ?thesis by (simp add: split_bracketed_host_port_spec_def)
    next
      case (Some rest)
      then have "after = CHR '':'' # rest" by (simp add: strip_prefix_Some_iff)
      with Some split p v show ?thesis by (simp add: split_bracketed_host_port_spec_def)
    qed
  qed
qed

lemma split_once_char_absent: "split_once [c] s = Some (a, b) \<Longrightarrow> c \<notin> set a"
proof
  assume s: "split_once [c] s = Some (a, b)" and "c \<in> set a"
  then obtain x y where a: "a = x @ c # y" "c \<notin> set x" by (metis split_list_first)
  have "s = a @ [c] @ b" by (rule split_once_SomeD [OF s])
  then have "split_once [c] s = Some (x, y @ [c] @ b)" using a by (simp add: split_once_char)
  with s a show False by simp
qed

lemma split_bracketed_text:
  assumes "split_bracketed_host_port_spec v = Inr segments"
  shows "segments_ok segments \<and> v = segments_text segments"
proof -
  obtain after_open host_ip rest where v: "v = CHR ''['' # after_open"
    and host: "split_once '']'' after_open = Some (host_ip, CHR '':'' # rest)" "host_ip \<noteq> []"
    and rest: "rest \<noteq> []" "\<not> list_ex is_bracket rest"
    and segs: "bracketed_segments v host_ip (split_on is_colon rest) = Inr segments"
    using assms unfolding bracketed_Inr_iff by (elim exE conjE)
  have after: "v = ''['' @ host_ip @ '']:'' @ rest" using v split_once_SomeD [OF host(1)] by simp
  note closed = split_once_char_absent [OF host(1)]
  have plain: "piece \<in> set (split_on is_colon rest) \<Longrightarrow> plain_segment piece" for piece
    by (rule plain_pieces [OF rest(2)])
  show ?thesis
  proof (rule bracketed_segmentsE [OF segs])
    fix container
    assume "split_on is_colon rest = [container]" "segments = Two_Segments host_ip container True"
    moreover from this have "rest = container" using split_on_text [of rest] by simp
    ultimately show ?thesis using plain host(2) closed rest(1) after by simp
  next
    fix h container
    assume pieces: "split_on is_colon rest = [h, container]" and segments: "segments = Three_Segments host_ip h container True"
    have "rest = h @ '':'' @ container" using split_on_text [of rest] pieces by simp
    moreover have "plain_segment h" "plain_segment container" using plain pieces by simp_all
    ultimately show ?thesis unfolding segments after using host(2) closed by simp
  qed
qed

lemma split_port_spec_text:
  assumes "split_port_spec v = Inr segments"
  shows "segments_ok segments \<and> v = segments_text segments"
proof (cases "starts_with ''['' v")
  case True
  then have "v \<noteq> []" by (auto simp: starts_with_def)
  with True assms have "split_bracketed_host_port_spec v = Inr segments" by (simp add: split_port_spec_def)
  then show ?thesis by (rule split_bracketed_text)
next
  case False
  have "v \<noteq> []" using assms by (cases "v = []") (simp_all add: split_port_spec_def)
  moreover have bracket: "\<not> list_ex is_bracket v"
    using assms False \<open>v \<noteq> []\<close> by (cases "list_ex is_bracket v") (simp_all add: split_port_spec_def)
  ultimately have segs: "plain_segments v (split_on is_colon v) = Inr segments"
    using assms False by (simp add: split_port_spec_def)
  have plain: "piece \<in> set (split_on is_colon v) \<Longrightarrow> plain_segment piece" for piece
    by (rule plain_pieces [OF bracket])
  show ?thesis
  proof (rule plain_segmentsE [OF segs])
    fix a
    assume "split_on is_colon v = [a]" "segments = One_Segment a"
    then show ?thesis using split_on_text [of v] plain \<open>v \<noteq> []\<close> by simp
  next
    fix a b
    assume "split_on is_colon v = [a, b]" "segments = Two_Segments a b False"
    then show ?thesis using split_on_text [of v] plain by simp
  next
    fix a b c
    assume "split_on is_colon v = [a, b, c]" "segments = Three_Segments a b c False"
    then show ?thesis using split_on_text [of v] plain by simp
  qed
qed

text \<open>C29. A port specification parses to given segments exactly when it is their text, the
  host in brackets or not, and the segments are free of the delimiters and not empty where one is
  required.\<close>

theorem port_specs_parse_exactly:
  "split_port_spec v = Inr segments \<longleftrightarrow> segments_ok segments \<and> v = segments_text segments"
  using split_port_spec_text split_segments_text by blast

section \<open>Ports read back\<close>

definition publish_text :: "resolved_publish_port \<Rightarrow> string" where
  "publish_text p =
     (let container = show_nat (unat (pp_container p))
      in case (pp_host_ip p, pp_host p) of
           (None, None) \<Rightarrow> container
         | (None, Some host) \<Rightarrow> show_nat (unat host) @ '':'' @ container
         | (Some ip, None) \<Rightarrow> ''['' @ ip @ '']:'' @ container
         | (Some ip, Some host) \<Rightarrow> ''['' @ ip @ '']:'' @ show_nat (unat host) @ '':'' @ container)"

definition host_ip_text_ok :: "string option \<Rightarrow> bool" where
  "host_ip_text_ok ip = (case ip of None \<Rightarrow> True
     | Some s \<Rightarrow> s \<noteq> [] \<and> CHR '']'' \<notin> set s \<and> CHR ''/'' \<notin> set s \<and> s \<noteq> ''localhost'')"

definition publish_segments :: "resolved_publish_port \<Rightarrow> port_spec_segments" where
  "publish_segments p =
     (let container = show_nat (unat (pp_container p))
      in case (pp_host_ip p, pp_host p) of
           (None, None) \<Rightarrow> One_Segment container
         | (None, Some host) \<Rightarrow> Two_Segments (show_nat (unat host)) container False
         | (Some ip, None) \<Rightarrow> Two_Segments ip container True
         | (Some ip, Some host) \<Rightarrow> Three_Segments ip (show_nat (unat host)) container True)"

lemma plain_show_nat [simp]: "plain_segment (show_nat n)"
proof -
  have "\<not> is_ascii_digit c \<Longrightarrow> c \<notin> set (show_nat n)" for c by (rule non_digit_not_in_show)
  then show ?thesis by (auto simp: plain_segment_def is_colon_def is_bracket_def is_ascii_digit_def)
qed

lemma publish_segments_ok: "host_ip_text_ok (pp_host_ip p) \<Longrightarrow> segments_ok (publish_segments p)"
  by (simp add: publish_segments_def host_ip_text_ok_def Let_def split: option.splits)

lemma publish_segments_text: "segments_text (publish_segments p) = publish_text p"
  by (simp add: publish_segments_def publish_text_def Let_def split: option.splits)

lemma slash_not_in_publish_text:
  assumes "host_ip_text_ok (pp_host_ip p)"
  shows "CHR ''/'' \<notin> set (publish_text p)"
proof -
  have "CHR ''/'' \<notin> set (show_nat n)" for n by (rule non_digit_not_in_show) (simp add: is_ascii_digit_def)
  with assms show ?thesis
    by (simp add: publish_text_def host_ip_text_ok_def Let_def split: option.splits)
qed

lemma parse_u16_port_show [simp]: "parse_u16_port (show_nat (unat p)) label = Inr p"
  by (simp add: parse_u16_port_def parse_u16_show)

lemma numeric_show_nat [simp]: "is_numeric_port_candidate (show_nat n)"
  using show_nat_digits [of n] by (simp add: is_numeric_port_candidate_def list_all_iff)

text \<open>Written as a port specification, a published port of appPort reads back as
  itself.\<close>

theorem published_ports_read_back:
  assumes "host_ip_text_ok (pp_host_ip p)" "pp_protocol p = Tcp"
  shows "publish_port_to_layer (Port_String (publish_text p)) = Inr p"
proof -
  have protocol: "parse_port_protocol (publish_text p) = Inr (publish_text p, Tcp)"
    using slash_not_in_publish_text [OF assms(1)] by (simp add: parse_port_protocol_def split_once_char_None)
  have split: "split_port_spec (publish_text p) = Inr (publish_segments p)"
    using split_segments_text [OF publish_segments_ok [OF assms(1)]] by (simp add: publish_segments_text)
  obtain c h ip where p: "p = \<lparr>pp_container = c, pp_host = h, pp_host_ip = ip, pp_protocol = Tcp\<rparr>"
    using assms(2) by (cases p) simp
  have "normalize_host_ip s = Inr s" if "ip = Some s" for s
    using assms(1) that by (simp add: p host_ip_text_ok_def normalize_host_ip_def)
  then show ?thesis
    using protocol split
    by (cases ip; cases h) (simp_all add: publish_port_to_layer_def parse_publish_port_string_def p publish_segments_def)
qed

theorem published_ports_read_back_witness:
  "publish_port_to_layer (Port_String ''[::1]:8080:80'') =
     Inr \<lparr>pp_container = 80, pp_host = Some 8080, pp_host_ip = Some ''::1'', pp_protocol = Tcp\<rparr>"
  using published_ports_read_back [of "\<lparr>pp_container = 80, pp_host = Some 8080, pp_host_ip = Some ''::1'', pp_protocol = Tcp\<rparr>"]
  by (simp add: publish_text_def host_ip_text_ok_def str_eval)

text \<open>What an entry of forwardPorts names: a port of the primary container, of a service, or of a
  host address in brackets, with the number \<open>c\<close> in decimal. The address is the default one but for
  one in brackets.\<close>

definition forwarded_text :: "string option \<Rightarrow> string \<Rightarrow> string \<Rightarrow> string \<Rightarrow> bool" where
  "forwarded_text service ip c w \<longleftrightarrow>
     (case service of
        Some s \<Rightarrow> plain_segment s \<and> s \<noteq> [] \<and> s \<noteq> ''localhost'' \<and> \<not> is_numeric_port_candidate s \<and>
                  w = s @ '':'' @ c \<and> ip = default_port_host_ip
      | None \<Rightarrow> (w = c \<or> w = ''localhost:'' @ c \<or> w = ''[localhost]:'' @ c) \<and> ip = default_port_host_ip \<or>
                w = ''['' @ ip @ '']:'' @ c \<and> ip \<noteq> [] \<and> ip \<noteq> ''localhost'')"

fun forwards :: "devcontainer_port \<Rightarrow> resolved_port \<Rightarrow> bool" where
  "forwards (Port_Number n) p \<longleftrightarrow>
     rp_container p = n \<and> rp_service p = None \<and> rp_host_ip p = default_port_host_ip"
| "forwards (Port_String v) p \<longleftrightarrow>
     (\<exists>c w. parse_u16 c = Some (rp_container p) \<and> (v = w \<or> v = w @ ''/tcp'') \<and>
        forwarded_text (rp_service p) (rp_host_ip p) c w)"

lemma parse_port_protocol_text:
  "parse_port_protocol v = Inr (w, protocol) \<Longrightarrow> protocol = Tcp \<and> (v = w \<or> v = w @ ''/tcp'')"
  by (auto simp: parse_port_protocol_def dest!: split_once_SomeD split: option.splits prod.splits if_splits)

lemma parse_u16_port_Inr: "parse_u16_port c label = Inr p \<longleftrightarrow> parse_u16 c = Some p"
  by (cases "parse_u16 c") (simp_all add: parse_u16_port_def)

lemma normalize_host_ip_Inr:
  "normalize_host_ip v = Inr ip \<longleftrightarrow> v \<noteq> [] \<and> ip = (if v = ''localhost'' then default_port_host_ip else v)"
  by (auto simp: normalize_host_ip_def)

lemma forwarding_port_string_text:
  assumes "parse_forwarding_port_string v = Inr parsed"
  shows "ppo_host parsed = None \<and> ppo_protocol parsed = Tcp \<and>
    (\<exists>ip. ppo_host_ip parsed = Some ip \<and>
       (\<exists>c w. parse_u16 c = Some (ppo_container parsed) \<and> (v = w \<or> v = w @ ''/tcp'') \<and>
          forwarded_text (ppo_service parsed) ip c w))"
proof -
  obtain w protocol where w: "parse_port_protocol v = Inr (w, protocol)"
    using assms by (auto simp: parse_forwarding_port_string_def bind_res_Inr_iff)
  obtain segments where segments: "split_port_spec w = Inr segments"
    using assms w by (auto simp: parse_forwarding_port_string_def result_elims)
  note shape = split_port_spec_text [OF segments]
  have "ppo_host parsed = None \<and> ppo_protocol parsed = protocol \<and>
      (\<exists>ip c. ppo_host_ip parsed = Some ip \<and> parse_u16 c = Some (ppo_container parsed) \<and>
         forwarded_text (ppo_service parsed) ip c w)"
  proof (cases segments)
    case (One_Segment c)
    then show ?thesis using assms w segments shape
      by (auto simp: parse_forwarding_port_string_def result_elims forwarded_text_def parse_u16_port_Inr)
  next
    case (Two_Segments left c bracketed)
    show ?thesis
    proof (cases bracketed)
      case True
      then obtain ip p where ip: "parse_u16 c = Some p" "normalize_host_ip left = Inr ip"
          "parsed = \<lparr>ppo_service = None, ppo_container = p, ppo_host = None, ppo_host_ip = Some ip, ppo_protocol = protocol\<rparr>"
        using assms w segments Two_Segments
        by (auto simp: parse_forwarding_port_string_def result_elims parse_u16_port_Inr)
      moreover have "w = ''['' @ left @ '']:'' @ c" using shape Two_Segments True by simp
      ultimately have "forwarded_text None ip c w"
        by (auto simp: forwarded_text_def normalize_host_ip_Inr)
      with ip show ?thesis by auto
    next
      case False
      with shape Two_Segments have left: "w = left @ '':'' @ c" "plain_segment left" by simp_all
      then show ?thesis using assms w segments Two_Segments False
        by (auto simp: parse_forwarding_port_string_def result_elims forwarded_text_def parse_u16_port_Inr
            is_local_forwarding_host_def parse_compose_service_name_def split: if_splits)
    qed
  next
    case (Three_Segments a b c d)
    then show ?thesis using assms w segments by (simp add: parse_forwarding_port_string_def)
  qed
  with parse_port_protocol_text [OF w] show ?thesis by blast
qed

text \<open>C26. Every entry of forwardPorts that is accepted is enabled, leaves the host port
  open, is TCP, and is named by its container port among its attribute keys; the entry reads
  exactly as a number, or as the text of a port, localhost and a port, an address in brackets and
  a port, or a service and a port, with an optional /tcp, and its host address is the one in
  brackets, or the default where there is none or it is localhost.\<close>

theorem forwarded_ports_never_map_a_host_port:
  assumes "forwarding_port_to_layer port attributes = Inr f"
  shows "rp_enabled (lafp_port f) \<and> rp_host (lafp_port f) = None \<and> rp_protocol (lafp_port f) = Tcp \<and>
    show_nat (unat (rp_container (lafp_port f))) \<in> set (lafp_attribute_keys f) \<and>
    (rp_service (lafp_port f) \<noteq> None \<longrightarrow> rp_host_ip (lafp_port f) = default_port_host_ip) \<and>
    forwards port (lafp_port f)"
proof -
  obtain parsed where parsed: "parse_forwarding_port port = Inr parsed"
    using assms by (auto simp: forwarding_port_to_layer_def bind_res_Inr_iff)
  have f: "lafp_attribute_keys f = attribute_keys_for_port (ppo_service parsed) (ppo_container parsed) port"
      "rp_enabled (lafp_port f)" "rp_host (lafp_port f) = ppo_host parsed" "rp_protocol (lafp_port f) = ppo_protocol parsed"
      "rp_container (lafp_port f) = ppo_container parsed" "rp_service (lafp_port f) = ppo_service parsed"
      "rp_host_ip (lafp_port f) = (case ppo_host_ip parsed of Some ip \<Rightarrow> ip | None \<Rightarrow> default_port_host_ip)"
    using assms parsed by (auto simp: forwarding_port_to_layer_def Let_def)
  have key: "show_nat (unat c) \<in> set (attribute_keys_for_port s c port)" for s c
    by (simp add: attribute_keys_for_port_def Let_def split: devcontainer_port.split option.split)
  show ?thesis
  proof (cases port)
    case (Port_Number n)
    then show ?thesis using parsed f key by auto
  next
    case (Port_String v)
    then have "parse_forwarding_port_string v = Inr parsed" using parsed by simp
    from forwarding_port_string_text [OF this] obtain ip c w where t: "ppo_host parsed = None" "ppo_protocol parsed = Tcp"
        "ppo_host_ip parsed = Some ip" "parse_u16 c = Some (ppo_container parsed)" "v = w \<or> v = w @ ''/tcp''"
        "forwarded_text (ppo_service parsed) ip c w" by blast
    have "forwards port (lafp_port f)" unfolding Port_String forwards.simps f using t by (intro exI conjI) simp_all
    moreover have "ppo_service parsed \<noteq> None \<longrightarrow> ip = default_port_host_ip"
      using t(6) by (auto simp: forwarded_text_def)
    ultimately show ?thesis using t f key by simp
  qed
qed

theorem forwarded_ports_never_map_a_host_port_witness:
  "\<exists>f. forwarding_port_to_layer (Port_String ''[::1]:80'') [] = Inr f \<and> rp_host (lafp_port f) = None \<and>
     forwards (Port_String ''[::1]:80'') (lafp_port f)"
proof -
  obtain f where f: "forwarding_port_to_layer (Port_String ''[::1]:80'') [] = Inr f"
    by (simp add: forwarding_port_to_layer_def parse_forwarding_port_string_def parse_port_protocol_def
        split_port_spec_def split_bracketed_host_port_spec_def is_bracket_def is_colon_def parse_u16_port_def
        parse_u16_def normalize_host_ip_def Let_def str_eval)
  with forwarded_ports_never_map_a_host_port [OF f] show ?thesis by simp
qed

end
