(* ===== verification/Devcontainer_Args.thy ===== *)
theory Devcontainer_Args
  imports Port_Specs
begin

text \<open>
  The arguments a \<open>devcontainer.json\<close> passes through to Docker:
  \<open>src/devcontainer/metadata/args.rs\<close> checks the build options and reads \<open>runArgs\<close>. What passes
  cannot set an option that decune sets itself, and the two spellings of an option with a value
  mean the same.
\<close>

datatype devcontainer_run_arg =
    Run_Init
  | Run_Privileged
  | Cap_Add string
  | Security_Opt string
  | Run_Add_Host string
  | Run_Dns string
  | Run_Dns_Search string
  | Run_Passthrough string string

section \<open>Build options\<close>

definition is_reserved_build_option :: "string \<Rightarrow> bool" where
  "is_reserved_build_option option' =
     (option' \<in> {''-f'', ''-t'', ''-o'', ''--file'', ''--tag'', ''--label'', ''--build-arg'', ''--target'',
        ''--cache-from'', ''--rm'', ''--force-rm'', ''--no-cache'', ''--pull'', ''--iidfile'', ''--metadata-file'',
        ''--output''} \<or>
      starts_with ''-f'' option' \<or> starts_with ''-t'' option' \<or> starts_with ''-o'' option')"

definition build_option_allows_separate_value :: "string \<Rightarrow> bool" where
  "build_option_allows_separate_value option' =
     (option' \<in> {''--add-host'', ''--allow'', ''--attest'', ''--build-context'', ''--cache-to'', ''--cgroup-parent'',
        ''--network'', ''--platform'', ''--progress'', ''--secret'', ''--shm-size'', ''--ssh''})"

definition option_name :: "string \<Rightarrow> string" where
  "option_name current = (case split_once ''='' current of Some (option', _) \<Rightarrow> option' | None \<Rightarrow> current)"

function validate_build_options :: "string list \<Rightarrow> unit result" where
  "validate_build_options [] = Inr ()"
| "validate_build_options (current # rest) =
     (if current = [] then Inl ''build.options entries must not be empty''
      else if current = ''--'' then Inl ''build.options must not contain --''
      else if \<not> starts_with ''-'' current
      then Inl (fmt [''build.options entries must be Docker build options, not context paths or values: '', current])
      else let option' = option_name current in
        if is_reserved_build_option option'
        then Inl (fmt [''build.options must not specify decune-managed Docker build option: '', option'])
        else if CHR ''='' \<in> set current
        then (if last current = CHR ''=''
              then Inl (fmt [''build.options option value must not be empty: '', option'])
              else validate_build_options rest)
        else if build_option_allows_separate_value option'
        then (case rest of
                [] \<Rightarrow> Inl (fmt [''build.options option requires a value: '', option'])
              | v # rest' \<Rightarrow>
                  if v = [] \<or> v = ''--'' \<or> starts_with ''-'' v
                  then Inl (fmt [''build.options option requires a value before another option: '', option'])
                  else validate_build_options rest')
        else validate_build_options rest)"
  by pat_completeness auto
termination by (relation "measure length") auto

section \<open>Run arguments\<close>

definition run_arg_allows_separate_value :: "string \<Rightarrow> bool" where
  "run_arg_allows_separate_value option' =
     (option' \<in> {''--cap-add'', ''--security-opt'', ''--add-host'', ''--dns'', ''--dns-search'', ''--network'',
        ''--network-alias'', ''--hostname'', ''--device'', ''--group-add'', ''--ulimit'', ''--ipc'', ''--shm-size'', ''--gpus''})"

definition is_passthrough_run_arg :: "string \<Rightarrow> bool" where
  "is_passthrough_run_arg option' =
     (option' \<in> {''--network'', ''--network-alias'', ''--hostname'', ''--device'', ''--group-add'', ''--ulimit'',
        ''--ipc'', ''--shm-size'', ''--gpus''})"

definition is_reserved_run_arg_option :: "string \<Rightarrow> bool" where
  "is_reserved_run_arg_option option' =
     (option' \<in> {''--name'', ''--entrypoint'', ''-e'', ''--env'', ''--env-file'', ''-u'', ''--user'', ''-w'', ''--workdir'',
        ''-v'', ''--volume'', ''--mount'', ''--tmpfs'', ''--volumes-from'', ''-p'', ''--publish'', ''-P'', ''--publish-all'',
        ''--expose'', ''--label'', ''--label-file'', ''--rm'', ''--detach'', ''-d'', ''--restart''})"

definition run_arg_with_value :: "string \<Rightarrow> string \<Rightarrow> devcontainer_run_arg result" where
  "run_arg_with_value option' v =
     (if v = [] then Inl (fmt [''Missing value for runArgs option '', option'])
      else if option' = ''--cap-add'' then Inr (Cap_Add v)
      else if option' = ''--security-opt'' then Inr (Security_Opt v)
      else if option' = ''--add-host'' then Inr (Run_Add_Host v)
      else if option' = ''--dns'' then Inr (Run_Dns v)
      else if option' = ''--dns-search'' then Inr (Run_Dns_Search v)
      else if is_passthrough_run_arg option' then Inr (Run_Passthrough option' v)
      else if option' = ''--init'' \<or> option' = ''--privileged''
      then Inl (fmt [''runArgs option '', option', '' does not accept a value''])
      else if is_reserved_run_arg_option option'
      then Inl (fmt [''Unsupported runArgs option controlled by decune: '', option'])
      else Inl (fmt [''Unsupported runArgs option: '', option']))"

definition required_run_arg_value :: "string list \<Rightarrow> string \<Rightarrow> string result" where
  "required_run_arg_value rest option' =
     (case rest of
        [] \<Rightarrow> Inl (fmt [''Missing value for runArgs option '', option'])
      | v # _ \<Rightarrow> if v = [] \<or> starts_with ''-'' v then Inl (fmt [''Missing value for runArgs option '', option'])
                 else Inr v)"

text \<open>The loop over an index is the recursion over the arguments that are left.\<close>

function normalize_run_args :: "string list \<Rightarrow> devcontainer_run_arg list result" where
  "normalize_run_args [] = Inr []"
| "normalize_run_args (current # rest) =
     (if current = [] then Inl (fmt [''Unsupported runArgs option: '', current])
      else case split_once ''='' current of
        Some (option', v) \<Rightarrow>
          bind_res (run_arg_with_value option' v) (\<lambda>arg.
          bind_res (normalize_run_args rest) (\<lambda>args. Inr (arg # args)))
      | None \<Rightarrow>
          if current = ''--init'' then bind_res (normalize_run_args rest) (\<lambda>args. Inr (Run_Init # args))
          else if current = ''--privileged'' then bind_res (normalize_run_args rest) (\<lambda>args. Inr (Run_Privileged # args))
          else if run_arg_allows_separate_value current
          then bind_res (required_run_arg_value rest current) (\<lambda>v.
               bind_res (run_arg_with_value current v) (\<lambda>arg.
               bind_res (normalize_run_args (tl rest)) (\<lambda>args. Inr (arg # args))))
          else if is_reserved_run_arg_option current
          then Inl (fmt [''Unsupported runArgs option controlled by decune: '', current])
          else Inl (fmt [''Unsupported runArgs option: '', current]))"
  by pat_completeness auto
termination by (relation "measure length") auto

section \<open>Build options never set what decune sets\<close>

lemma accepted_build_option:
  "validate_build_options (current # rest) = Inr () \<Longrightarrow>
     current \<noteq> [] \<and> current \<noteq> ''--'' \<and> starts_with ''-'' current \<and> \<not> is_reserved_build_option (option_name current) \<and>
     (validate_build_options rest = Inr () \<or>
      (\<exists>v rest'. rest = v # rest' \<and> v \<noteq> [] \<and> \<not> starts_with ''-'' v \<and> validate_build_options rest' = Inr ()))"
  by (auto simp: Let_def split: if_splits list.splits)

lemma build_options_safe:
  "validate_build_options options = Inr () \<Longrightarrow> s \<in> set options \<Longrightarrow>
     s \<noteq> [] \<and> s \<noteq> ''--'' \<and> (starts_with ''-'' s \<longrightarrow> \<not> is_reserved_build_option (option_name s))"
proof (induction options arbitrary: s rule: length_induct)
  case (1 options)
  note IH = 1(1) [rule_format]
  show ?case
  proof (cases options)
    case (Cons current rest)
    note first = accepted_build_option [OF 1(2) [unfolded Cons]]
    consider "validate_build_options rest = Inr ()"
      | v rest' where "rest = v # rest'" "v \<noteq> []" "\<not> starts_with ''-'' v" "validate_build_options rest' = Inr ()"
      using first by blast
    then show ?thesis
    proof cases
      case 1
      with first IH [of rest s] \<open>s \<in> set options\<close> show ?thesis unfolding Cons by auto
    next
      case 2
      have "s = current \<or> s = v \<or> s \<in> set rest'" using \<open>s \<in> set options\<close> Cons 2 by auto
      moreover have "v \<noteq> ''--''" using 2(3) by (auto simp: starts_with_def)
      ultimately show ?thesis using first IH [of rest' s] Cons 2 by auto
    qed
  qed (use 1(3) in simp)
qed

text \<open>C15. In accepted build options, no entry is, or is the name part of, an option that
  decune sets itself, unless it is the separate value of the option before it.\<close>

theorem build_options_never_override_decune:
  "validate_build_options options = Inr () \<Longrightarrow> s \<in> set options \<Longrightarrow>
     s \<noteq> [] \<and> s \<noteq> ''--'' \<and> (starts_with ''-'' s \<longrightarrow> \<not> is_reserved_build_option (option_name s))"
  by (rule build_options_safe)

theorem build_options_never_override_decune_witness:
  "\<not> is_reserved_build_option (option_name ''--ssh'')"
proof -
  have "validate_build_options [''--ssh'', ''default''] = Inr ()"
    by (simp add: option_name_def is_reserved_build_option_def build_option_allows_separate_value_def str_eval)
  from build_options_never_override_decune [OF this, of "''--ssh''"] show ?thesis by (simp add: str_eval)
qed

section \<open>Run arguments read back\<close>

fun run_arg_text :: "devcontainer_run_arg \<Rightarrow> string" where
  "run_arg_text Run_Init = ''--init''"
| "run_arg_text Run_Privileged = ''--privileged''"
| "run_arg_text (Cap_Add v) = ''--cap-add='' @ v"
| "run_arg_text (Security_Opt v) = ''--security-opt='' @ v"
| "run_arg_text (Run_Add_Host v) = ''--add-host='' @ v"
| "run_arg_text (Run_Dns v) = ''--dns='' @ v"
| "run_arg_text (Run_Dns_Search v) = ''--dns-search='' @ v"
| "run_arg_text (Run_Passthrough option' v) = option' @ ''='' @ v"

fun run_arg_ok :: "devcontainer_run_arg \<Rightarrow> bool" where
  "run_arg_ok Run_Init = True"
| "run_arg_ok Run_Privileged = True"
| "run_arg_ok (Cap_Add v) = (v \<noteq> [])"
| "run_arg_ok (Security_Opt v) = (v \<noteq> [])"
| "run_arg_ok (Run_Add_Host v) = (v \<noteq> [])"
| "run_arg_ok (Run_Dns v) = (v \<noteq> [])"
| "run_arg_ok (Run_Dns_Search v) = (v \<noteq> [])"
| "run_arg_ok (Run_Passthrough option' v) = (is_passthrough_run_arg option' \<and> v \<noteq> [])"

lemma run_arg_with_value_ok: "run_arg_with_value option' v = Inr arg \<Longrightarrow> run_arg_ok arg"
  by (auto simp: run_arg_with_value_def split: if_splits)

lemma split_option: "CHR ''='' \<notin> set option' \<Longrightarrow> split_once ''='' (option' @ CHR ''='' # v) = Some (option', v)"
  by (rule split_once_char)

lemma normalize_step:
  "CHR ''='' \<notin> set option' \<Longrightarrow> run_arg_with_value option' v = Inr arg \<Longrightarrow>
     normalize_run_args ((option' @ ''='' @ v) # rest) =
     bind_res (normalize_run_args rest) (\<lambda>args. Inr (arg # args))"
  by (simp add: split_option)

lemma no_equals: "split_once ''='' ''--init'' = None" "split_once ''='' ''--privileged'' = None"
  by (rule split_once_char_None, simp)+

lemma passthrough_cases:
  assumes "is_passthrough_run_arg option'" "v \<noteq> []"
  shows "CHR ''='' \<notin> set option' \<and> run_arg_with_value option' v = Inr (Run_Passthrough option' v)"
  using assms(1)[unfolded is_passthrough_run_arg_def]
  by (elim insertE emptyE) (simp_all add: run_arg_with_value_def is_passthrough_run_arg_def assms(2))

lemma normalize_run_arg_text:
  assumes "run_arg_ok arg"
  shows "normalize_run_args (run_arg_text arg # rest) = bind_res (normalize_run_args rest) (\<lambda>args. Inr (arg # args))"
proof (cases arg)
  case Run_Init
  then show ?thesis by (simp add: no_equals)
next
  case Run_Privileged
  then show ?thesis by (simp add: no_equals)
next
  case (Cap_Add v)
  then show ?thesis using normalize_step [of "''--cap-add''" v arg rest] assms by (simp add: run_arg_with_value_def del: normalize_run_args.simps)
next
  case (Security_Opt v)
  then show ?thesis using normalize_step [of "''--security-opt''" v arg rest] assms by (simp add: run_arg_with_value_def del: normalize_run_args.simps)
next
  case (Run_Add_Host v)
  then show ?thesis using normalize_step [of "''--add-host''" v arg rest] assms by (simp add: run_arg_with_value_def del: normalize_run_args.simps)
next
  case (Run_Dns v)
  then show ?thesis using normalize_step [of "''--dns''" v arg rest] assms by (simp add: run_arg_with_value_def del: normalize_run_args.simps)
next
  case (Run_Dns_Search v)
  then show ?thesis using normalize_step [of "''--dns-search''" v arg rest] assms by (simp add: run_arg_with_value_def del: normalize_run_args.simps)
next
  case (Run_Passthrough option' v)
  then show ?thesis using normalize_step [of option' v arg rest] passthrough_cases [of option' v] assms
    by (simp del: normalize_run_args.simps)
qed

lemma run_arg_texts_parse: "list_all run_arg_ok args \<Longrightarrow> normalize_run_args (map run_arg_text args) = Inr args"
  by (induction args) (simp_all add: normalize_run_arg_text del: normalize_run_args.simps(2))

lemma normalized_run_args_ok: "normalize_run_args vs = Inr args \<Longrightarrow> list_all run_arg_ok args"
proof (induction vs arbitrary: args rule: length_induct)
  case (1 vs)
  show ?case
  proof (cases vs)
    case (Cons current rest)
    have rest: "length rest < length vs" "length (tl rest) < length vs" by (simp_all add: Cons)
    show ?thesis
      using 1(2) unfolding Cons
      by (auto simp: bind_res_Inr_iff dest: run_arg_with_value_ok 1(1) [rule_format, OF rest(1)] 1(1) [rule_format, OF rest(2)]
          split: if_splits option.splits prod.splits)
  qed (use 1(2) in simp)
qed

text \<open>Writing the accepted run arguments as text and reading them again gives the same
  arguments, and exactly the well-formed ones are read.\<close>

theorem run_args_read_back:
  "list_all run_arg_ok args \<longleftrightarrow> normalize_run_args (map run_arg_text args) = Inr args"
  using run_arg_texts_parse normalized_run_args_ok by blast

lemma separate_value_spelling:
  assumes "run_arg_allows_separate_value option'" "v \<noteq> []" "\<not> starts_with ''-'' v"
  shows "normalize_run_args (option' # v # rest) = normalize_run_args ((option' @ ''='' @ v) # rest)"
proof -
  have o: "CHR ''='' \<notin> set option'" "option' \<noteq> []" "option' \<noteq> ''--init''" "option' \<noteq> ''--privileged''"
    using assms(1) by (auto simp: run_arg_allows_separate_value_def)
  then have "split_once ''='' option' = None" by (simp add: split_once_char_None)
  with assms o show ?thesis by (simp add: split_option required_run_arg_value_def)
qed

text \<open>An option of runArgs that takes a value reads the same with the value after an equals
  sign and as the next entry.\<close>

theorem run_arg_spellings_agree:
  "run_arg_allows_separate_value option' \<Longrightarrow> v \<noteq> [] \<Longrightarrow> \<not> starts_with ''-'' v \<Longrightarrow>
     normalize_run_args (option' # v # rest) = normalize_run_args ((option' @ ''='' @ v) # rest)"
  by (rule separate_value_spelling)

theorem run_arg_spellings_agree_witness:
  "normalize_run_args [''--dns'', ''1.1.1.1''] = normalize_run_args [''--dns=1.1.1.1'']"
  using run_arg_spellings_agree [of "''--dns''" "''1.1.1.1''" "[]"]
  by (simp add: run_arg_allows_separate_value_def starts_with_def del: normalize_run_args.simps)

end
