(* ===== verification/Devcontainer_Metadata.thy ===== *)
theory Devcontainer_Metadata
  imports Devcontainer_Args Config_Merge
begin

text \<open>
  The metadata of a \<open>devcontainer.json\<close>, of a Feature and of an image label, from
  \<open>src/devcontainer/metadata\<close>: the checks of \<open>raw.rs\<close> and \<open>serde_helpers.rs\<close> and the conversion to
  a layer of the configuration in \<open>conversion.rs\<close>. The derived deserializers are outside: a raw
  document is the record they return. Sources, mounts, probes and shutdown actions are those of a
  layer, which have the same constructors. The value of a JSON number as a float is the
  parameter \<open>json_float\<close>, the error of a derived deserializer the parameter \<open>serde_error\<close>.
\<close>

section \<open>The raw document\<close>

record raw_devcontainer_build =
  rb_dockerfile :: string
  rb_context :: "string option"
  rb_args :: "(string, string) btree_map"
  rb_options :: "string list"
  rb_target :: "string option"
  rb_cache_from :: "string list"

record raw_devcontainer_metadata =
  rw_image :: "string option"
  rw_build :: "raw_devcontainer_build option"
  rw_docker_compose_file :: "json option"
  rw_service :: "string option"
  rw_run_services :: "string list option"
  rw_features :: "(string, json) btree_map"
  rw_override_feature_install_order :: "string list"
  rw_mounts :: "devcontainer_mount list"
  rw_workspace_mount :: "string option"
  rw_workspace_folder :: "string option"
  rw_container_env :: "(string, string) btree_map"
  rw_remote_env :: "(string, string) btree_map"
  rw_remote_user :: "string option"
  rw_container_user :: "string option"
  rw_update_remote_user_uid :: "bool option"
  rw_override_command :: "bool option"
  rw_user_env_probe :: "user_env_probe option"
  rw_forward_ports :: "devcontainer_port list"
  rw_ports_attributes :: "(string, devcontainer_port_attributes) btree_map"
  rw_other_ports_attributes :: "devcontainer_port_attributes option"
  rw_app_port :: "devcontainer_port list"
  rw_run_args :: "string list"
  rw_init :: "bool option"
  rw_privileged :: "bool option"
  rw_cap_add :: "string list"
  rw_security_opt :: "string list"
  rw_entrypoint :: "string option"
  rw_shutdown_action :: "shutdown_action option"
  rw_initialize_command :: "json option"
  rw_on_create_command :: "json option"
  rw_update_content_command :: "json option"
  rw_post_create_command :: "json option"
  rw_post_start_command :: "json option"
  rw_post_attach_command :: "json option"
  rw_wait_for :: "json option"
  rw_customizations :: "json option"
  rw_unsupported_properties :: "(string, json) btree_map"

record devcontainer_metadata =
  dm_source :: "devcontainer_source option"
  dm_features :: "(string, json) btree_map"
  dm_override_feature_install_order :: "string list"
  dm_mounts :: "devcontainer_mount list"
  dm_workspace_mount :: "string option"
  dm_workspace_folder :: "string option"
  dm_container_env :: "(string, string) btree_map"
  dm_remote_env :: "(string, string) btree_map"
  dm_remote_user :: "string option"
  dm_container_user :: "string option"
  dm_update_remote_user_uid :: "bool option"
  dm_override_command :: "bool option"
  dm_user_env_probe :: "user_env_probe option"
  dm_forward_ports :: "devcontainer_port list"
  dm_ports_attributes :: "(string, devcontainer_port_attributes) btree_map"
  dm_other_ports_attributes :: "devcontainer_port_attributes option"
  dm_app_port :: "devcontainer_port list"
  dm_run_args :: "devcontainer_run_arg list"
  dm_init :: "bool option"
  dm_privileged :: "bool option"
  dm_cap_add :: "string list"
  dm_security_opt :: "string list"
  dm_entrypoints :: "string list"
  dm_shutdown_action :: "shutdown_action option"
  dm_lifecycle :: "(lifecycle_property, json) btree_map"
  dm_customizations :: "json option"
  dm_unsupported_properties :: "(string, json) btree_map"

datatype source_requirement = Source_Required | Source_Optional

datatype metadata_layer_kind = Devcontainer_Json | Generic_Layer | Image_Label

section \<open>Deserializers written by hand\<close>

definition build_arg_of_json :: "string \<times> json \<Rightarrow> (string \<times> string) result" where
  "build_arg_of_json e =
     bind_res (ok_or (json_as_str (snd e)) (fmt [''build.args.'', fst e, '' must be a string'']))
       (\<lambda>v. Inr (fst e, v))"

definition deserialize_build_args :: "(string, json) btree_map \<Rightarrow> (string, string) btree_map result" where
  "deserialize_build_args m = bind_res (try_map build_arg_of_json m) (\<lambda>args. Inr (bt_collect args))"

text \<open>The untagged enumeration \<open>DevcontainerPort\<close>.\<close>

fun port_of_json :: "(json \<Rightarrow> string) \<Rightarrow> json \<Rightarrow> devcontainer_port result" where
  "port_of_json serde_error (J_Number (Pos_Int n)) =
     ok_or (map_option Port_Number (u16_try_from n)) (serde_error (J_Number (Pos_Int n)))"
| "port_of_json serde_error (J_String s) = Inr (Port_String s)"
| "port_of_json serde_error v = Inl (serde_error v)"

fun deserialize_ports :: "(json \<Rightarrow> string) \<Rightarrow> json option \<Rightarrow> devcontainer_port list result" where
  "deserialize_ports serde_error None = Inr []"
| "deserialize_ports serde_error (Some (J_Array vs)) = try_map (port_of_json serde_error) vs"
| "deserialize_ports serde_error (Some v) = bind_res (port_of_json serde_error v) (\<lambda>port. Inr [port])"

fun string_of_json :: "(json \<Rightarrow> string) \<Rightarrow> json \<Rightarrow> string result" where
  "string_of_json serde_error (J_String s) = Inr s"
| "string_of_json serde_error v = Inl (serde_error v)"

fun deserialize_string_or_strings :: "(json \<Rightarrow> string) \<Rightarrow> json option \<Rightarrow> string list result" where
  "deserialize_string_or_strings serde_error None = Inr []"
| "deserialize_string_or_strings serde_error (Some (J_String s)) = Inr [s]"
| "deserialize_string_or_strings serde_error (Some (J_Array vs)) = try_map (string_of_json serde_error) vs"
| "deserialize_string_or_strings serde_error (Some _) = Inl ''expected string or string array''"

section \<open>Validation\<close>

definition validate_build :: "raw_devcontainer_build \<Rightarrow> devcontainer_build result" where
  "validate_build raw =
     bind_res (validate_build_options (rb_options raw)) (\<lambda>_.
       Inr \<lparr>db_dockerfile = rb_dockerfile raw, db_context = rb_context raw, db_args = rb_args raw,
         db_options = rb_options raw, db_target = rb_target raw, db_cache_from = rb_cache_from raw\<rparr>)"

definition lifecycle_values :: "raw_devcontainer_metadata \<Rightarrow> (lifecycle_property, json) btree_map" where
  "lifecycle_values raw = bt_collect (filter_map (\<lambda>(key, v). map_option (\<lambda>v. (key, v)) v)
     [(Initialize_Command, rw_initialize_command raw), (On_Create_Command, rw_on_create_command raw),
      (Update_Content_Command, rw_update_content_command raw), (Post_Create_Command, rw_post_create_command raw),
      (Post_Start_Command, rw_post_start_command raw), (Post_Attach_Command, rw_post_attach_command raw),
      (Wait_For_Property, rw_wait_for raw)])"

fun human_join :: "string list \<Rightarrow> string" where
  "human_join [] = []"
| "human_join [v] = v"
| "human_join [left, right] = fmt [left, '' and '', right]"
| "human_join vs = fmt [str_join '', '' (butlast vs), '', and '', last vs]"

definition validate_compose_only_properties :: "raw_devcontainer_metadata \<Rightarrow> bool \<Rightarrow> unit result" where
  "validate_compose_only_properties raw has_docker_compose_file =
     (if rw_run_services raw = None then Inr ()
      else let missing = (if has_docker_compose_file then [] else [''dockerComposeFile'']) @
                         (if rw_service raw = None then [''service''] else [])
           in if missing \<noteq> []
              then Inl (fmt [''runServices is only supported in Docker Compose mode and requires '', human_join missing])
              else Inr ())"

definition validate_compose_unsupported_properties :: "raw_devcontainer_metadata \<Rightarrow> unit result" where
  "validate_compose_unsupported_properties raw =
     (if rw_workspace_mount raw \<noteq> None
      then Inl ''workspaceMount is not supported in Docker Compose mode; define workspace volumes in the Compose file''
      else if rw_app_port raw \<noteq> []
      then Inl ''appPort is not supported in Docker Compose mode; define published ports in the Compose file''
      else if rw_run_args raw \<noteq> []
      then Inl ''runArgs is not supported in Docker Compose mode; define service options in the Compose file''
      else Inr ())"

fun compose_file_entry :: "json \<Rightarrow> string result" where
  "compose_file_entry (J_String s) = Inr s"
| "compose_file_entry _ = Inl ''dockerComposeFile entries must be strings''"

definition parse_docker_compose_file :: "json option \<Rightarrow> string list option result" where
  "parse_docker_compose_file v =
     (case v of
        None \<Rightarrow> Inr None
      | Some v \<Rightarrow>
          bind_res (case v of
              J_String s \<Rightarrow> Inr [s]
            | J_Array vs \<Rightarrow> try_map compose_file_entry vs
            | _ \<Rightarrow> Inl ''dockerComposeFile must be a string or string array'') (\<lambda>files.
          if files = [] then Inl ''dockerComposeFile must not be empty'' else Inr (Some files)))"

text \<open>The branch of \<open>validate\<close> for Docker Compose: the source, and the properties it fills in.\<close>

definition compose_source_of ::
  "raw_devcontainer_metadata \<Rightarrow> string list option \<Rightarrow> (devcontainer_source \<times> raw_devcontainer_metadata) result" where
  "compose_source_of raw docker_compose_file =
     bind_res (validate_compose_unsupported_properties raw) (\<lambda>_.
     if rw_image raw \<noteq> None then Inl ''Devcontainer metadata must not specify image with dockerComposeFile''
     else if rw_build raw \<noteq> None then Inl ''Devcontainer metadata must not specify build with dockerComposeFile''
     else bind_res (ok_or docker_compose_file
            ''Docker Compose devcontainer metadata must specify dockerComposeFile'') (\<lambda>files.
          bind_res (ok_or (rw_service raw)
            ''Docker Compose devcontainer metadata must specify service'') (\<lambda>service.
          Inr (Source_Compose_Files \<lparr>dc_files = files, dc_service = service, dc_run_services = rw_run_services raw\<rparr>,
            raw\<lparr>rw_workspace_folder := (case rw_workspace_folder raw of None \<Rightarrow> Some ''/'' | f \<Rightarrow> f),
              rw_override_command := (case rw_override_command raw of None \<Rightarrow> Some False | c \<Rightarrow> c),
              rw_shutdown_action := (case rw_shutdown_action raw of None \<Rightarrow> Some Stop_Compose | a \<Rightarrow> a)\<rparr>))))"

definition plain_source_of ::
  "raw_devcontainer_metadata \<Rightarrow> source_requirement \<Rightarrow> devcontainer_source option result" where
  "plain_source_of raw source_requirement =
     (case (rw_image raw, rw_build raw) of
        (Some _, Some _) \<Rightarrow> Inl ''Devcontainer metadata must not specify both image and build''
      | (Some image', None) \<Rightarrow> Inr (Some (Source_Image image'))
      | (None, Some build) \<Rightarrow> bind_res (validate_build build) (\<lambda>build. Inr (Some (Source_Dockerfile build)))
      | (None, None) \<Rightarrow>
          if source_requirement = Source_Required
          then Inl ''Devcontainer metadata must specify either image, build, or dockerComposeFile with service''
          else Inr None)"

definition assemble_metadata ::
  "raw_devcontainer_metadata \<Rightarrow> devcontainer_source option \<Rightarrow> devcontainer_run_arg list \<Rightarrow>
   (lifecycle_property, json) btree_map \<Rightarrow> devcontainer_metadata" where
  "assemble_metadata raw source run_args lifecycle = \<lparr>
     dm_source = source,
     dm_features = rw_features raw,
     dm_override_feature_install_order = rw_override_feature_install_order raw,
     dm_mounts = rw_mounts raw,
     dm_workspace_mount = rw_workspace_mount raw,
     dm_workspace_folder = rw_workspace_folder raw,
     dm_container_env = rw_container_env raw,
     dm_remote_env = rw_remote_env raw,
     dm_remote_user = rw_remote_user raw,
     dm_container_user = rw_container_user raw,
     dm_update_remote_user_uid = rw_update_remote_user_uid raw,
     dm_override_command = rw_override_command raw,
     dm_user_env_probe = rw_user_env_probe raw,
     dm_forward_ports = rw_forward_ports raw,
     dm_ports_attributes = rw_ports_attributes raw,
     dm_other_ports_attributes = rw_other_ports_attributes raw,
     dm_app_port = rw_app_port raw,
     dm_run_args = run_args,
     dm_init = rw_init raw,
     dm_privileged = rw_privileged raw,
     dm_cap_add = rw_cap_add raw,
     dm_security_opt = rw_security_opt raw,
     dm_entrypoints = (case rw_entrypoint raw of None \<Rightarrow> [] | Some e \<Rightarrow> [e]),
     dm_shutdown_action = rw_shutdown_action raw,
     dm_lifecycle = lifecycle,
     dm_customizations = rw_customizations raw,
     dm_unsupported_properties = rw_unsupported_properties raw\<rparr>"

definition validate_metadata ::
  "raw_devcontainer_metadata \<Rightarrow> source_requirement \<Rightarrow> metadata_layer_kind \<Rightarrow> devcontainer_metadata result" where
  "validate_metadata raw source_requirement layer_kind =
     (if layer_kind = Image_Label \<and> rw_initialize_command raw \<noteq> None
      then Inl ''Image devcontainer metadata must not specify initializeCommand''
      else bind_res (parse_docker_compose_file (rw_docker_compose_file raw)) (\<lambda>docker_compose_file.
           bind_res (validate_compose_only_properties raw (docker_compose_file \<noteq> None)) (\<lambda>_.
           if docker_compose_file \<noteq> None \<or> rw_service raw \<noteq> None \<or> rw_run_services raw \<noteq> None
           then bind_res (compose_source_of raw docker_compose_file) (\<lambda>(source, raw').
                Inr (assemble_metadata raw' (Some source) [] (lifecycle_values raw)))
           else bind_res (plain_source_of raw source_requirement) (\<lambda>source.
                bind_res (normalize_run_args (rw_run_args raw)) (\<lambda>run_args.
                Inr (assemble_metadata raw source run_args (lifecycle_values raw)))))))"

definition parse_metadata :: "raw_devcontainer_metadata \<Rightarrow> devcontainer_metadata result" where
  "parse_metadata raw = validate_metadata raw Source_Required Devcontainer_Json"

definition parse_metadata_layer :: "raw_devcontainer_metadata \<Rightarrow> devcontainer_metadata result" where
  "parse_metadata_layer raw = validate_metadata raw Source_Optional Generic_Layer"

definition parse_image_metadata_layer :: "raw_devcontainer_metadata \<Rightarrow> devcontainer_metadata result" where
  "parse_image_metadata_layer raw = validate_metadata raw Source_Optional Image_Label"

section \<open>Conversion to a layer\<close>

lemma try_map_cong [fundef_cong]:
  "xs = ys \<Longrightarrow> (\<And>x. x \<in> set ys \<Longrightarrow> f x = g x) \<Longrightarrow> try_map f xs = try_map g ys"
  by (induction ys arbitrary: xs) auto

fun json_to_toml :: "(json_number \<Rightarrow> u64 \<times> string) \<Rightarrow> json \<Rightarrow> toml result" where
  "json_to_toml json_float (J_String v) = Inr (T_String v)"
| "json_to_toml json_float (J_Bool v) = Inr (T_Boolean v)"
| "json_to_toml json_float (J_Number (Pos_Int n)) =
     (if n < 2 ^ 63 then Inr (T_Integer (int n))
      else Inr (case json_float (Pos_Int n) of (bits, s) \<Rightarrow> T_Float bits s))"
| "json_to_toml json_float (J_Number (Neg_Int i)) = Inr (T_Integer i)"
| "json_to_toml json_float (J_Number (Float_Text s)) =
     Inr (case json_float (Float_Text s) of (bits, s) \<Rightarrow> T_Float bits s)"
| "json_to_toml json_float (J_Array vs) =
     bind_res (try_map (json_to_toml json_float) vs) (\<lambda>ts. Inr (T_Array ts))"
| "json_to_toml json_float (J_Object m) =
     bind_res (try_map (\<lambda>(k, v). bind_res (json_to_toml json_float v) (\<lambda>t. Inr (k, t))) m)
       (\<lambda>ts. Inr (T_Table (bt_collect ts)))"
| "json_to_toml json_float J_Null = Inl ''JSON null cannot be represented as TOML''"

definition feature_to_layer ::
  "(json_number \<Rightarrow> u64 \<times> string) \<Rightarrow> string \<times> json \<Rightarrow> layer_feature result" where
  "feature_to_layer json_float e =
     (let feature = new_layer_feature (fst e)
      in case snd e of
           J_Object options \<Rightarrow>
             bind_res (try_map (\<lambda>(k, v). bind_res (json_to_toml json_float v) (\<lambda>t. Inr (k, t))) options)
               (\<lambda>ts. Inr (feature\<lparr>laf_options := bt_collect ts\<rparr>))
         | J_String version \<Rightarrow> Inr (feature\<lparr>laf_options := bt_insert ''version'' (T_String version) (laf_options feature)\<rparr>)
         | J_Bool enabled \<Rightarrow> Inr (feature\<lparr>laf_enabled := enabled\<rparr>)
         | J_Null \<Rightarrow> Inr feature
         | _ \<Rightarrow> Inl (fmt [''Feature '', fst e, '' value must be an object, boolean, or null'']))"

definition to_devcontainer_layer :: "devcontainer_metadata \<Rightarrow> layer_devcontainer result" where
  "to_devcontainer_layer md =
     bind_res (try_map publish_port_to_layer (dm_app_port md)) (\<lambda>publish_ports.
     bind_res (parse_lifecycle_layer_definition (dm_lifecycle md)) (\<lambda>lifecycle.
     Inr \<lparr>ldc_source = dm_source md,
       ldc_override_feature_install_order = dm_override_feature_install_order md,
       ldc_mounts = dm_mounts md,
       ldc_workspace_mount = dm_workspace_mount md,
       ldc_workspace_folder = dm_workspace_folder md,
       ldc_container_env = dm_container_env md,
       ldc_remote_env = dm_remote_env md,
       ldc_remote_user = dm_remote_user md,
       ldc_container_user = dm_container_user md,
       ldc_update_remote_user_uid = dm_update_remote_user_uid md,
       ldc_override_command = dm_override_command md,
       ldc_user_env_probe = dm_user_env_probe md,
       ldc_publish_ports = publish_ports,
       ldc_port_attributes = bt_collect (map (\<lambda>(k, a). (k, port_attributes_to_layer a)) (dm_ports_attributes md)),
       ldc_other_ports_attributes = map_option port_attributes_to_layer (dm_other_ports_attributes md),
       ldc_run_args = [],
       ldc_init = dm_init md,
       ldc_privileged = dm_privileged md,
       ldc_cap_add = dm_cap_add md,
       ldc_security_opt = dm_security_opt md,
       ldc_entrypoints = dm_entrypoints md,
       ldc_shutdown_action = dm_shutdown_action md,
       ldc_lifecycle = lifecycle\<rparr>))"

fun apply_run_arg :: "layer_devcontainer \<Rightarrow> devcontainer_run_arg \<Rightarrow> layer_devcontainer" where
  "apply_run_arg d Run_Init = d\<lparr>ldc_init := Some True\<rparr>"
| "apply_run_arg d Run_Privileged = d\<lparr>ldc_privileged := Some True\<rparr>"
| "apply_run_arg d (Cap_Add c) = d\<lparr>ldc_cap_add := ldc_cap_add d @ [c]\<rparr>"
| "apply_run_arg d (Security_Opt o') = d\<lparr>ldc_security_opt := ldc_security_opt d @ [o']\<rparr>"
| "apply_run_arg d (Run_Add_Host v) = d\<lparr>ldc_run_args := ldc_run_args d @ [Add_Host v]\<rparr>"
| "apply_run_arg d (Run_Dns v) = d\<lparr>ldc_run_args := ldc_run_args d @ [Dns v]\<rparr>"
| "apply_run_arg d (Run_Dns_Search v) = d\<lparr>ldc_run_args := ldc_run_args d @ [Dns_Search v]\<rparr>"
| "apply_run_arg d (Run_Passthrough option' v) = d\<lparr>ldc_run_args := ldc_run_args d @ [Passthrough option' v]\<rparr>"

definition to_config_layer_with_forward_ports ::
  "(json_number \<Rightarrow> u64 \<times> string) \<Rightarrow> devcontainer_metadata \<Rightarrow> bool \<Rightarrow> config_layer result" where
  "to_config_layer_with_forward_ports json_float md include_forward_ports =
     bind_res (try_map (feature_to_layer json_float) (dm_features md)) (\<lambda>features.
     bind_res (if include_forward_ports
               then try_map (\<lambda>port. forwarding_port_to_layer port (dm_ports_attributes md)) (dm_forward_ports md)
               else Inr []) (\<lambda>forward_ports.
     bind_res (to_devcontainer_layer md) (\<lambda>devcontainer.
     Inr (empty_layer\<lparr>cl_features := features, cl_forward_ports := forward_ports,
       cl_devcontainer := Some (foldl apply_run_arg devcontainer (dm_run_args md))\<rparr>))))"

definition to_config_layer :: "(json_number \<Rightarrow> u64 \<times> string) \<Rightarrow> devcontainer_metadata \<Rightarrow> config_layer result" where
  "to_config_layer json_float md = to_config_layer_with_forward_ports json_float md True"

definition to_config_layer_without_forward_ports ::
  "(json_number \<Rightarrow> u64 \<times> string) \<Rightarrow> devcontainer_metadata \<Rightarrow> config_layer result" where
  "to_config_layer_without_forward_ports json_float md = to_config_layer_with_forward_ports json_float md False"

section \<open>What a document is accepted as\<close>

definition describes_source :: "raw_devcontainer_metadata \<Rightarrow> source_requirement \<Rightarrow> devcontainer_source option \<Rightarrow> bool" where
  "describes_source raw source_requirement source = (case source of
     Some (Source_Image image') \<Rightarrow>
       rw_image raw = Some image' \<and> rw_build raw = None \<and> rw_docker_compose_file raw = None \<and> rw_service raw = None
   | Some (Source_Dockerfile build) \<Rightarrow>
       rw_image raw = None \<and> map_option validate_build (rw_build raw) = Some (Inr build) \<and>
       rw_docker_compose_file raw = None \<and> rw_service raw = None
   | Some (Source_Compose_Files compose) \<Rightarrow>
       rw_image raw = None \<and> rw_build raw = None \<and> dc_files compose \<noteq> [] \<and>
       parse_docker_compose_file (rw_docker_compose_file raw) = Inr (Some (dc_files compose)) \<and>
       rw_service raw = Some (dc_service compose) \<and> rw_run_services raw = dc_run_services compose \<and>
       rw_workspace_mount raw = None \<and> rw_app_port raw = [] \<and> rw_run_args raw = []
   | None \<Rightarrow> source_requirement = Source_Optional \<and> rw_image raw = None \<and> rw_build raw = None \<and>
       rw_docker_compose_file raw = None \<and> rw_service raw = None)"

lemma parse_docker_compose_file_None [simp]: "parse_docker_compose_file v = Inr None \<longleftrightarrow> v = None"
  by (cases v) (auto simp: parse_docker_compose_file_def bind_res_Inr_iff split: if_splits)

lemma parse_docker_compose_file_Some: "parse_docker_compose_file v = Inr (Some files) \<Longrightarrow> files \<noteq> []"
  by (cases v) (auto simp: parse_docker_compose_file_def bind_res_Inr_iff split: if_splits)

lemma compose_source_of_Inr:
  assumes "compose_source_of raw files = Inr (source, raw')"
  shows "\<exists>fs service. files = Some fs \<and> rw_service raw = Some service \<and> rw_image raw = None \<and> rw_build raw = None \<and>
    rw_workspace_mount raw = None \<and> rw_app_port raw = [] \<and> rw_run_args raw = [] \<and>
    source = Source_Compose_Files \<lparr>dc_files = fs, dc_service = service, dc_run_services = rw_run_services raw\<rparr>"
proof -
  have ok: "validate_compose_unsupported_properties raw = Inr ()"
    using assms by (auto simp: compose_source_of_def bind_res_Inr_iff)
  then have none: "rw_workspace_mount raw = None" "rw_app_port raw = []" "rw_run_args raw = []"
    by (auto simp: validate_compose_unsupported_properties_def split: if_splits)
  have "rw_image raw = None" "rw_build raw = None"
    using assms ok by (auto simp: compose_source_of_def split: if_splits)
  with assms ok none show ?thesis
    by (auto simp: compose_source_of_def result_elims)
qed

lemma plain_source_of_Inr:
  assumes "plain_source_of raw req = Inr source" "rw_docker_compose_file raw = None" "rw_service raw = None"
  shows "describes_source raw req source"
  using assms
  by (cases req; cases "rw_image raw"; cases "rw_build raw")
     (auto simp: plain_source_of_def describes_source_def bind_res_Inr_iff)

lemma validate_metadata_cases:
  assumes "validate_metadata raw req kind = Inr md"
  obtains (compose) files source raw' where
      "parse_docker_compose_file (rw_docker_compose_file raw) = Inr files"
      "compose_source_of raw files = Inr (source, raw')"
      "md = assemble_metadata raw' (Some source) [] (lifecycle_values raw)"
    | (plain) source run_args where
      "rw_docker_compose_file raw = None" "rw_service raw = None"
      "plain_source_of raw req = Inr source" "normalize_run_args (rw_run_args raw) = Inr run_args"
      "md = assemble_metadata raw source run_args (lifecycle_values raw)"
proof -
  obtain files where files: "parse_docker_compose_file (rw_docker_compose_file raw) = Inr files"
    using assms by (auto simp: validate_metadata_def bind_res_Inr_iff split: if_splits)
  have kind: "\<not> (kind = Image_Label \<and> rw_initialize_command raw \<noteq> None)"
    using assms by (auto simp: validate_metadata_def split: if_splits)
  have only: "validate_compose_only_properties raw (files \<noteq> None) = Inr ()"
    using assms kind files by (cases "validate_compose_only_properties raw (files \<noteq> None)") (auto simp: validate_metadata_def)
  have rest: "(if files \<noteq> None \<or> rw_service raw \<noteq> None \<or> rw_run_services raw \<noteq> None
      then bind_res (compose_source_of raw files) (\<lambda>(source, raw').
           Inr (assemble_metadata raw' (Some source) [] (lifecycle_values raw)))
      else bind_res (plain_source_of raw req) (\<lambda>source.
           bind_res (normalize_run_args (rw_run_args raw)) (\<lambda>run_args.
           Inr (assemble_metadata raw source run_args (lifecycle_values raw))))) = Inr md"
    using assms unfolding validate_metadata_def if_not_P [OF kind] files bind_res.simps only by this
  show thesis
  proof (cases "files \<noteq> None \<or> rw_service raw \<noteq> None \<or> rw_run_services raw \<noteq> None")
    case True
    with rest obtain source raw' where "compose_source_of raw files = Inr (source, raw')"
        "md = assemble_metadata raw' (Some source) [] (lifecycle_values raw)"
      by (auto simp: bind_res_Inr_iff)
    with files show thesis by (rule compose)
  next
    case False
    with rest obtain source run_args where "plain_source_of raw req = Inr source"
        "normalize_run_args (rw_run_args raw) = Inr run_args"
        "md = assemble_metadata raw source run_args (lifecycle_values raw)"
      by (auto simp: bind_res_Inr_iff)
    moreover have "rw_docker_compose_file raw = None" "rw_service raw = None" using False files by auto
    ultimately show thesis by (intro plain)
  qed
qed

lemma validated_source:
  assumes "validate_metadata raw req kind = Inr md"
  shows "describes_source raw req (dm_source md)"
  using assms
proof (cases rule: validate_metadata_cases)
  case (compose files source raw')
  obtain fs service where f: "files = Some fs" "rw_service raw = Some service" "rw_image raw = None"
    "rw_build raw = None" "rw_workspace_mount raw = None" "rw_app_port raw = []" "rw_run_args raw = []"
    "source = Source_Compose_Files \<lparr>dc_files = fs, dc_service = service, dc_run_services = rw_run_services raw\<rparr>"
    using compose_source_of_Inr [OF compose(2)] by (elim exE conjE)
  then have "fs \<noteq> []" using compose(1) parse_docker_compose_file_Some by simp
  with f compose show ?thesis by (simp add: describes_source_def assemble_metadata_def)
next
  case (plain source run_args)
  then show ?thesis using plain_source_of_Inr [OF plain(3,1,2)] by (simp add: assemble_metadata_def)
qed

text \<open>A document is accepted only with exactly one source: an image, a Dockerfile with valid
  options, or Compose files with a service and none of the properties Compose mode forbids, or no
  source where none is required.\<close>

theorem accepted_documents_have_one_source:
  assumes "validate_metadata raw source_requirement kind = Inr md"
  shows "describes_source raw source_requirement (dm_source md)"
  using assms by (rule validated_source)

definition empty_document :: raw_devcontainer_metadata where
  "empty_document = \<lparr>rw_image = None, rw_build = None, rw_docker_compose_file = None, rw_service = None,
     rw_run_services = None, rw_features = [], rw_override_feature_install_order = [], rw_mounts = [],
     rw_workspace_mount = None, rw_workspace_folder = None, rw_container_env = [], rw_remote_env = [],
     rw_remote_user = None, rw_container_user = None, rw_update_remote_user_uid = None, rw_override_command = None,
     rw_user_env_probe = None, rw_forward_ports = [], rw_ports_attributes = [], rw_other_ports_attributes = None,
     rw_app_port = [], rw_run_args = [], rw_init = None, rw_privileged = None, rw_cap_add = [], rw_security_opt = [],
     rw_entrypoint = None, rw_shutdown_action = None, rw_initialize_command = None, rw_on_create_command = None,
     rw_update_content_command = None, rw_post_create_command = None, rw_post_start_command = None,
     rw_post_attach_command = None, rw_wait_for = None, rw_customizations = None, rw_unsupported_properties = []\<rparr>"

lemma example_compose_document:
  "\<exists>md. validate_metadata (empty_document\<lparr>rw_docker_compose_file := Some (J_String ''compose.yml''),
     rw_service := Some ''app''\<rparr>) Source_Required Devcontainer_Json = Inr md"
  by (simp add: validate_metadata_def empty_document_def parse_docker_compose_file_def
      validate_compose_only_properties_def compose_source_of_def validate_compose_unsupported_properties_def)

theorem accepted_documents_have_one_source_witness:
  "\<exists>md :: devcontainer_metadata. describes_source (empty_document\<lparr>rw_docker_compose_file := Some (J_String ''compose.yml''),
     rw_service := Some ''app''\<rparr>) Source_Required (dm_source md)"
proof -
  obtain md where "validate_metadata (empty_document\<lparr>rw_docker_compose_file := Some (J_String ''compose.yml''),
     rw_service := Some ''app''\<rparr>) Source_Required Devcontainer_Json = Inr md"
    using example_compose_document by (elim exE)
  then show ?thesis by (intro exI) (rule accepted_documents_have_one_source)
qed

section \<open>What reaches the layer\<close>

fun layer_run_arg :: "devcontainer_run_arg \<Rightarrow> run_arg option" where
  "layer_run_arg (Run_Add_Host v) = Some (Add_Host v)"
| "layer_run_arg (Run_Dns v) = Some (Dns v)"
| "layer_run_arg (Run_Dns_Search v) = Some (Dns_Search v)"
| "layer_run_arg (Run_Passthrough option' v) = Some (Passthrough option' v)"
| "layer_run_arg _ = None"

fun cap_of :: "devcontainer_run_arg \<Rightarrow> string option" where
  "cap_of (Cap_Add c) = Some c"
| "cap_of _ = None"

fun security_opt_of :: "devcontainer_run_arg \<Rightarrow> string option" where
  "security_opt_of (Security_Opt o') = Some o'"
| "security_opt_of _ = None"

lemma apply_run_args:
  "foldl apply_run_arg d args = d\<lparr>
     ldc_init := (if Run_Init \<in> set args then Some True else ldc_init d),
     ldc_privileged := (if Run_Privileged \<in> set args then Some True else ldc_privileged d),
     ldc_cap_add := ldc_cap_add d @ filter_map cap_of args,
     ldc_security_opt := ldc_security_opt d @ filter_map security_opt_of args,
     ldc_run_args := ldc_run_args d @ filter_map layer_run_arg args\<rparr>"
proof (induction args arbitrary: d)
  case (Cons arg args)
  show ?case by (cases arg) (simp_all add: Cons)
qed simp

lemma layer_of_metadata:
  assumes "to_config_layer_with_forward_ports json_float md with_ports = Inr layer"
  shows "\<exists>d. to_devcontainer_layer md = Inr d \<and> cl_devcontainer layer = Some (foldl apply_run_arg d (dm_run_args md))"
  using assms by (auto simp: to_config_layer_with_forward_ports_def bind_res_Inr_iff)

text \<open>In the layer of a document, runArgs switch init and privileged on, are appended to
  capAdd and securityOpt, and the remaining ones are its run arguments in order.\<close>

theorem run_args_reach_the_layer:
  assumes "to_config_layer_with_forward_ports json_float md include_forward_ports = Inr layer"
  shows "\<exists>d. cl_devcontainer layer = Some d \<and>
    ldc_init d = (if Run_Init \<in> set (dm_run_args md) then Some True else dm_init md) \<and>
    ldc_privileged d = (if Run_Privileged \<in> set (dm_run_args md) then Some True else dm_privileged md) \<and>
    ldc_cap_add d = dm_cap_add md @ filter_map cap_of (dm_run_args md) \<and>
    ldc_security_opt d = dm_security_opt md @ filter_map security_opt_of (dm_run_args md) \<and>
    ldc_run_args d = filter_map layer_run_arg (dm_run_args md)"
proof -
  obtain d where d: "to_devcontainer_layer md = Inr d"
    "cl_devcontainer layer = Some (foldl apply_run_arg d (dm_run_args md))"
    using layer_of_metadata [OF assms] by (elim exE conjE)
  then have "ldc_init d = dm_init md \<and> ldc_privileged d = dm_privileged md \<and> ldc_cap_add d = dm_cap_add md \<and>
      ldc_security_opt d = dm_security_opt md \<and> ldc_run_args d = []"
    by (auto simp: to_devcontainer_layer_def bind_res_Inr_iff)
  with d(2) show ?thesis by (simp add: apply_run_args)
qed

lemma example_layer:
  "\<exists>layer. to_config_layer_with_forward_ports json_float
     (assemble_metadata empty_document None [Cap_Add ''SYS_PTRACE'', Run_Init] []) True = Inr layer"
  by (simp add: to_config_layer_with_forward_ports_def to_devcontainer_layer_def assemble_metadata_def empty_document_def
      parse_lifecycle_layer_definition_def bt_get_def)

theorem run_args_reach_the_layer_witness:
  "\<exists>(layer :: config_layer) d. cl_devcontainer layer = Some d \<and> ldc_cap_add d = [''SYS_PTRACE''] \<and> ldc_init d = Some True"
proof -
  obtain layer where "to_config_layer_with_forward_ports (\<lambda>_. (0, []))
     (assemble_metadata empty_document None [Cap_Add ''SYS_PTRACE'', Run_Init] []) True = Inr layer"
    by (rule exE [OF example_layer])
  from run_args_reach_the_layer [OF this] obtain d where "cl_devcontainer layer = Some d"
    "ldc_cap_add d = [''SYS_PTRACE'']" "ldc_init d = Some True"
    by (elim exE conjE) (simp add: assemble_metadata_def empty_document_def)
  then show ?thesis by (intro exI conjI)
qed

section \<open>Image labels run nothing on the host\<close>

lemma no_initialize_property:
  assumes "parse_lifecycle_layer_definition vs = Inr (Some layer)" "Initialize_Command \<notin> fst ` set vs"
  shows "layer_commands layer Initialize = []"
proof -
  obtain commands where commands: "try_fold parse_lifecycle_property [] vs = Inr commands" "ll_commands layer = commands"
    using assms(1) by (auto simp: parse_lifecycle_layer_definition_def bind_res_Inr_iff split: if_splits)
  have "bt_get commands Initialize = None"
  proof (rule try_fold_invariant [OF commands(1), where P = "\<lambda>_ m. bt_get m Initialize = None"])
    fix ys e m m'
    assume "set (ys @ [e]) \<subseteq> set vs" "bt_get m Initialize = None" "parse_lifecycle_property m e = Inr m'"
    moreover from this have "fst e \<noteq> Initialize_Command" using assms(2) by force
    ultimately show "bt_get m' Initialize = None"
      by (cases "fst e") (auto simp: parse_lifecycle_property_def bind_res_Inr_iff bt_get_insert split: if_splits)
  qed (simp add: bt_get_def)
  then show ?thesis by (simp add: layer_commands_def commands(2))
qed

lemma image_metadata_lifecycle:
  assumes "parse_image_metadata_layer raw = Inr md"
  shows "dm_lifecycle md = lifecycle_values raw" "Initialize_Command \<notin> fst ` set (lifecycle_values raw)"
proof -
  have valid: "validate_metadata raw Source_Optional Image_Label = Inr md"
    using assms by (simp add: parse_image_metadata_layer_def)
  then show "dm_lifecycle md = lifecycle_values raw"
    by (cases rule: validate_metadata_cases) (simp_all add: assemble_metadata_def)
  have none: "rw_initialize_command raw = None" using valid by (auto simp: validate_metadata_def split: if_splits)
  show "Initialize_Command \<notin> fst ` set (lifecycle_values raw)"
  proof
    assume "Initialize_Command \<in> fst ` set (lifecycle_values raw)"
    then obtain v where "(Initialize_Command, v) \<in> set (lifecycle_values raw)" by force
    then have "bt_get (lifecycle_values raw) Initialize_Command = Some v"
      by (simp add: bt.get_entries lifecycle_values_def)
    then show False by (auto simp: lifecycle_values_def bt_get_collect none dest!: map_of_SomeD split: option.splits if_splits)
  qed
qed

lemma image_layer_lifecycle:
  assumes "parse_image_metadata_layer raw = Inr md" "\<forall>(p, v)\<in>set (lifecycle_values raw). json_object_ok v"
    and "to_config_layer_with_forward_ports json_float md with_ports = Inr l"
  shows "layer_stage_commands Initialize l = [] \<and>
    (\<forall>layer. metadata ldc_lifecycle l = Some layer \<longrightarrow> wf_stage_commands (ll_commands layer))"
proof -
  obtain d where d: "to_devcontainer_layer md = Inr d" "cl_devcontainer l = Some (foldl apply_run_arg d (dm_run_args md))"
    using layer_of_metadata [OF assms(3)] by (elim exE conjE)
  then have parsed: "parse_lifecycle_layer_definition (lifecycle_values raw) = Inr (ldc_lifecycle d)"
    by (auto simp: to_devcontainer_layer_def bind_res_Inr_iff image_metadata_lifecycle [OF assms(1)])
  have lifecycle: "metadata ldc_lifecycle l = ldc_lifecycle d" by (simp add: d(2) apply_run_args)
  have "layer_commands layer Initialize = [] \<and> wf_stage_commands (ll_commands layer)" if "ldc_lifecycle d = Some layer" for layer
    using no_initialize_property [of "lifecycle_values raw" layer] parsed_layer_wf [OF assms(2), of layer] parsed that
      image_metadata_lifecycle(2) [OF assms(1)] by simp
  then show ?thesis by (auto simp: layer_stage_commands_def lifecycle split: option.split)
qed

text \<open>C14. From the labels of an image to the resolved configuration: layers parsed from
  image labels add no initialize command, the lifecycle command of the devcontainer metadata that
  runs on the host.\<close>

theorem image_labels_run_nothing_on_the_host:
  assumes "\<forall>l\<in>set (mi_image_metadata input). \<exists>raw md include_forward_ports. parse_image_metadata_layer raw = Inr md \<and>
      (\<forall>(p, v)\<in>set (lifecycle_values raw). json_object_ok v) \<and>
      to_config_layer_with_forward_ports json_float md include_forward_ports = Inr l"
    and "\<forall>l\<in>set (layers_of (input\<lparr>mi_image_metadata := []\<rparr>)). \<forall>layer.
      metadata ldc_lifecycle l = Some layer \<longrightarrow> wf_stage_commands (ll_commands layer)"
  shows "config_stage_commands (resolve_config input) Initialize =
    config_stage_commands (resolve_config (input\<lparr>mi_image_metadata := []\<rparr>)) Initialize"
proof -
  have image: "layer_stage_commands Initialize l = [] \<and>
      (\<forall>layer. metadata ldc_lifecycle l = Some layer \<longrightarrow> wf_stage_commands (ll_commands layer))"
    if l: "l \<in> set (mi_image_metadata input)" for l
  proof -
    obtain raw md with_ports where "parse_image_metadata_layer raw = Inr md"
      "\<forall>(p, v)\<in>set (lifecycle_values raw). json_object_ok v"
      "to_config_layer_with_forward_ports json_float md with_ports = Inr l"
      using bspec [OF assms(1) l] by (elim exE conjE)
    then show ?thesis by (rule image_layer_lifecycle)
  qed
  have layers: "layers_of input = mi_image_metadata input @ layers_of (input\<lparr>mi_image_metadata := []\<rparr>)"
    by (simp add: layers_of_def merge_order_def comp_def)
  have "\<forall>l\<in>set (layers_of input). \<forall>layer. metadata ldc_lifecycle l = Some layer \<longrightarrow> wf_stage_commands (ll_commands layer)"
    using image assms(2) by (auto simp: layers)
  note all = conjunct2 [OF resolved_stage_commands [OF this, of Initialize]]
  note rest = conjunct2 [OF resolved_stage_commands [OF assms(2), of Initialize]]
  have "concat (map (layer_stage_commands Initialize) (mi_image_metadata input)) = []" using image by simp
  then show ?thesis by (simp add: all rest layers)
qed

definition label_document :: raw_devcontainer_metadata where
  "label_document = empty_document\<lparr>rw_on_create_command := Some (J_String ''make'')\<rparr>"

definition label_metadata :: devcontainer_metadata where
  "label_metadata = assemble_metadata label_document None [] (lifecycle_values label_document)"

definition label_layer :: config_layer where
  "label_layer = (case to_config_layer_without_forward_ports (\<lambda>_. (0, [])) label_metadata of Inr l \<Rightarrow> l | Inl _ \<Rightarrow> empty_layer)"

lemma label_metadata_parsed: "parse_image_metadata_layer label_document = Inr label_metadata"
  by (simp add: parse_image_metadata_layer_def validate_metadata_def label_document_def empty_document_def
      label_metadata_def parse_docker_compose_file_def validate_compose_only_properties_def plain_source_of_def)

lemma label_layer_made:
  "to_config_layer_with_forward_ports (\<lambda>_. (0, [])) label_metadata False = Inr label_layer"
  by (simp add: label_layer_def to_config_layer_without_forward_ports_def to_config_layer_with_forward_ports_def
      label_metadata_def label_document_def empty_document_def assemble_metadata_def to_devcontainer_layer_def
      lifecycle_values_def bt_collect_def bt_extend_def parse_lifecycle_layer_definition_def
      parse_lifecycle_property_def bt_get_def)

definition image_only :: config_merge_input where
  "image_only = \<lparr>mi_image_metadata = [label_layer], mi_feature_metadata = [], mi_global = None, mi_devcontainer = None,
     mi_project = None, mi_cli = None\<rparr>"

theorem image_labels_run_nothing_on_the_host_witness:
  "config_stage_commands (resolve_config image_only) Initialize =
    config_stage_commands (resolve_config (image_only\<lparr>mi_image_metadata := []\<rparr>)) Initialize"
proof (rule image_labels_run_nothing_on_the_host)
  have "\<forall>(p, v)\<in>set (lifecycle_values label_document). json_object_ok v"
    by (simp add: lifecycle_values_def label_document_def empty_document_def bt_collect_def bt_extend_def)
  with label_metadata_parsed label_layer_made
  show "\<forall>l\<in>set (mi_image_metadata image_only). \<exists>raw md include_forward_ports. parse_image_metadata_layer raw = Inr md \<and>
      (\<forall>(p, v)\<in>set (lifecycle_values raw). json_object_ok v) \<and>
      to_config_layer_with_forward_ports (\<lambda>_. (0, [])) md include_forward_ports = Inr l"
    by (auto simp: image_only_def)
qed (simp add: image_only_def layers_of_def merge_order_def)

end
