(* ===== verification/Config_Raw.thy ===== *)
theory Config_Raw
  imports Rust_Path Config_Merge
begin

text \<open>
  Reading a configuration file of decune: \<open>src/config/load.rs\<close>, the deserializers written by hand
  in \<open>schema.rs\<close>, and the conversion of the raw configuration to a layer in \<open>layer.rs\<close> and
  \<open>types.rs\<close>. What the derived deserializers and the TOML parser return is a parsed
  configuration: a raw configuration with the TOML values still in place where a deserializer
  written by hand reads them. The order of the errors of different parts is that of the struct.
  Parameters: the TOML parser, the derived deserializers of single values, and the text of
  their errors.
\<close>

section \<open>Raw configurations\<close>

datatype raw_dotfile_conflict = Raw_Fail | Raw_Replace_Symlink | Raw_Backup
datatype raw_mount_type = Raw_Bind | Raw_Volume | Raw_Tmpfs
datatype raw_mount_create = Raw_Directory
datatype raw_port_protocol = Raw_Tcp
datatype raw_on_auto_forward = Raw_Notify | Raw_Silent | Raw_Ignore | Raw_Open_Browser
datatype raw_git_https_mode = Raw_Https_Off | Raw_Host_Helper | Raw_Host_Helper_Read_Only
datatype raw_ssh_agent_mode = Raw_Ssh_Off | Raw_Ssh_Auto | Raw_Ssh_Required
datatype raw_github_credentials_mode = Raw_Github_Off | Raw_Gh_Token_File
datatype raw_hook_location = Raw_Host | Raw_Container
datatype raw_command = Raw_Shell string | Raw_Args "string list"

record raw_feature =
  rf_enabled :: "bool option"
  rf_options :: "(string, toml) btree_map"

record raw_dotfile =
  rwd_enabled :: "bool option"
  rwd_source :: "string option"
  rwd_target :: string
  rwd_read_only :: "bool option"
  rwd_resolve_symlink :: "bool option"
  rwd_on_conflict :: "raw_dotfile_conflict option"

record 'c raw_mount =
  rwm_enabled :: "bool option"
  rwm_source :: "string option"
  rwm_target :: string
  rwm_type :: "raw_mount_type option"
  rwm_read_only :: "bool option"
  rwm_resolve_symlink :: "bool option"
  rwm_create :: "'c option"

record raw_port =
  rwp_enabled :: "bool option"
  rwp_service :: "string option"
  rwp_container :: u16
  rwp_host :: "u16 option"
  rwp_host_ip :: "string option"
  rwp_protocol :: "raw_port_protocol option"
  rwp_require_local :: "bool option"
  rwp_label :: "string option"

record raw_auto_ports =
  rwa_enabled :: "bool option"
  rwa_min :: "u16 option"
  rwa_max :: "u16 option"
  rwa_ignore :: "u16 list option"
  rwa_on_auto_forward :: "raw_on_auto_forward option"

record raw_ports =
  rws_entries :: "raw_port list"
  rws_auto :: "raw_auto_ports option"

record 'q raw_mapping =
  rmp_enabled :: "bool option"
  rmp_service :: string
  rmp_target :: u16
  rmp_protocol :: "'q option"
  rmp_host :: "u16 option"
  rmp_host_ip :: "string option"

record 'q raw_published_ports =
  rpb_automatic_relocation :: "bool option"
  rpb_warn_on_relocation :: "bool option"
  rpb_mappings :: "'q raw_mapping list"

record raw_isolation_networks =
  rin_relocation :: "bool option"
  rin_subnet_pool :: "string option"
  rin_subnet_prefix :: "u8 option"

record raw_isolation_names =
  rim_rewrite_container_names :: "bool option"
  rim_rewrite_resource_names :: "bool option"

record raw_isolation_endpoint =
  rie_service :: string
  rie_env :: string
  rie_value :: string

record raw_clone_isolation =
  rci_enabled :: "bool option"
  rci_networks :: "raw_isolation_networks option"
  rci_names :: "raw_isolation_names option"
  rci_endpoints :: "raw_isolation_endpoint list"

record 'q raw_compose =
  rco_published_ports :: "'q raw_published_ports option"
  rco_clone_isolation :: "raw_clone_isolation option"

record raw_git_credentials =
  rgc_enabled :: "bool option"
  rgc_copy_user :: "bool option"
  rgc_copy_global_config :: "bool option"
  rgc_https :: "raw_git_https_mode option"
  rgc_ssh_agent :: "raw_ssh_agent_mode option"

record raw_github_credentials =
  rhc_enabled :: "bool option"
  rhc_mode :: "raw_github_credentials_mode option"
  rhc_install_feature_if_missing :: "bool option"

record raw_credentials =
  rcr_git :: "raw_git_credentials option"
  rcr_github :: "raw_github_credentials option"

record 'd raw_hook =
  rhk_command :: 'd
  rhk_location :: "raw_hook_location option"
  rhk_user :: "string option"
  rhk_shell :: "bool option"
  rhk_workdir :: "string option"

record 'd raw_hooks =
  rhs_before_initialize :: "'d raw_hook list"
  rhs_after_initialize :: "'d raw_hook list"
  rhs_before_on_create :: "'d raw_hook list"
  rhs_after_on_create :: "'d raw_hook list"
  rhs_before_update_content :: "'d raw_hook list"
  rhs_after_update_content :: "'d raw_hook list"
  rhs_before_post_create :: "'d raw_hook list"
  rhs_after_post_create :: "'d raw_hook list"
  rhs_before_post_start :: "'d raw_hook list"
  rhs_after_post_start :: "'d raw_hook list"
  rhs_before_post_attach :: "'d raw_hook list"
  rhs_after_post_attach :: "'d raw_hook list"

text \<open>Parsed, features, ports and commands are TOML values, as are \<open>create\<close> and a protocol's text.\<close>

record ('f, 'c, 'p, 'q, 'd) raw_decune_config =
  rwc_version :: "u32 option"
  rwc_use_global_config :: "bool option"
  rwc_shell :: "string option"
  rwc_features :: "(string, 'f) btree_map"
  rwc_container_env :: "(string, string) btree_map"
  rwc_remote_env :: "(string, string) btree_map"
  rwc_dotfiles :: "raw_dotfile list"
  rwc_mounts :: "'c raw_mount list"
  rwc_ports :: 'p
  rwc_compose :: "'q raw_compose"
  rwc_container_cli_enabled :: "bool option"
  rwc_credentials :: raw_credentials
  rwc_hooks :: "'d raw_hooks"

type_synonym parsed_config = "((string, toml) btree_map, toml, toml option, string, toml) raw_decune_config"
type_synonym raw_config = "(raw_feature, raw_mount_create, raw_ports, raw_port_protocol, raw_command) raw_decune_config"

definition no_raw_hooks :: "'d raw_hooks" where
  "no_raw_hooks = \<lparr>rhs_before_initialize = [], rhs_after_initialize = [], rhs_before_on_create = [],
     rhs_after_on_create = [], rhs_before_update_content = [], rhs_after_update_content = [],
     rhs_before_post_create = [], rhs_after_post_create = [], rhs_before_post_start = [],
     rhs_after_post_start = [], rhs_before_post_attach = [], rhs_after_post_attach = []\<rparr>"

definition empty_raw_config :: raw_config where
  "empty_raw_config = \<lparr>rwc_version = None, rwc_use_global_config = None, rwc_shell = None, rwc_features = [],
     rwc_container_env = [], rwc_remote_env = [], rwc_dotfiles = [], rwc_mounts = [],
     rwc_ports = \<lparr>rws_entries = [], rws_auto = None\<rparr>,
     rwc_compose = \<lparr>rco_published_ports = None, rco_clone_isolation = None\<rparr>,
     rwc_container_cli_enabled = None, rwc_credentials = \<lparr>rcr_git = None, rcr_github = None\<rparr>,
     rwc_hooks = no_raw_hooks\<rparr>"

section \<open>Deserializers written by hand\<close>

text \<open>The derived deserializers of single values, and the text of an error.\<close>

record toml_deserializers =
  td_bool :: "toml \<Rightarrow> bool result"
  td_string :: "toml \<Rightarrow> string result"
  td_port :: "toml \<Rightarrow> raw_port result"
  td_auto_ports :: "toml \<Rightarrow> raw_auto_ports result"
  td_missing_field :: "string \<Rightarrow> string"

definition deserialize_feature :: "toml_deserializers \<Rightarrow> (string, toml) btree_map \<Rightarrow> raw_feature result" where
  "deserialize_feature td table =
     bind_res (case bt_get table ''enabled'' of
         Some v \<Rightarrow> bind_res (td_bool td v) (\<lambda>b. Inr (Some b))
       | None \<Rightarrow> Inr None) (\<lambda>enabled.
     Inr \<lparr>rf_enabled = enabled, rf_options = bt_remove ''enabled'' table\<rparr>)"

definition deserialize_dotfile :: "toml_deserializers \<Rightarrow> raw_dotfile \<Rightarrow> raw_dotfile result" where
  "deserialize_dotfile td helper =
     (if rwd_enabled helper \<noteq> Some False \<and> rwd_source helper = None
      then Inl (td_missing_field td ''source'') else Inr helper)"

definition deserialize_mount_create :: "toml option \<Rightarrow> raw_mount_create option result" where
  "deserialize_mount_create v =
     (if v = None \<or> v = Some (T_Boolean False) then Inr None
      else if v = Some (T_String ''directory'') then Inr (Some Raw_Directory)
      else Inl ''expected false or \"directory\" for mount create'')"

definition deserialize_mount :: "toml_deserializers \<Rightarrow> toml raw_mount \<Rightarrow> raw_mount_create raw_mount result" where
  "deserialize_mount td helper =
     bind_res (deserialize_mount_create (rwm_create helper)) (\<lambda>create.
     let enabled = (rwm_enabled helper \<noteq> Some False)
     in if enabled \<and> rwm_type helper = None then Inl (td_missing_field td ''type'')
        else if enabled \<and> rwm_type helper = Some Raw_Bind \<and> rwm_source helper = None
        then Inl (td_missing_field td ''source'')
        else Inr \<lparr>rwm_enabled = rwm_enabled helper, rwm_source = rwm_source helper, rwm_target = rwm_target helper,
          rwm_type = rwm_type helper, rwm_read_only = rwm_read_only helper,
          rwm_resolve_symlink = rwm_resolve_symlink helper, rwm_create = create\<rparr>)"

definition port_from_value ::
  "toml_deserializers \<Rightarrow> raw_ports \<Rightarrow> toml \<Rightarrow> raw_ports result" where
  "port_from_value td ports v =
     (case v of
        T_Table table \<Rightarrow>
          bind_res (case bt_get table ''auto'' of
              None \<Rightarrow> Inr (rws_auto ports)
            | Some auto \<Rightarrow>
                if rws_auto ports \<noteq> None then Inl ''duplicate [ports.auto] table''
                else bind_res (td_auto_ports td auto) (\<lambda>auto. Inr (Some auto))) (\<lambda>auto.
          bind_res (td_port td (T_Table (bt_remove ''auto'' table))) (\<lambda>port.
          Inr \<lparr>rws_entries = rws_entries ports @ [port], rws_auto = auto\<rparr>))
      | _ \<Rightarrow> Inl ''expected table entry in [[ports]]'')"

definition ports_from_array :: "toml_deserializers \<Rightarrow> toml list \<Rightarrow> raw_ports result" where
  "ports_from_array td = try_fold (port_from_value td) \<lparr>rws_entries = [], rws_auto = None\<rparr>"

definition deserialize_ports_config :: "toml_deserializers \<Rightarrow> toml option \<Rightarrow> raw_ports result" where
  "deserialize_ports_config td v =
     (case v of
        None \<Rightarrow> Inr \<lparr>rws_entries = [], rws_auto = None\<rparr>
      | Some (T_Array vs) \<Rightarrow> ports_from_array td vs
      | Some (T_Table table) \<Rightarrow>
          bind_res (case bt_get table ''auto'' of
              None \<Rightarrow> Inr None
            | Some auto \<Rightarrow> bind_res (td_auto_ports td auto) (\<lambda>auto. Inr (Some auto))) (\<lambda>auto.
          if bt_remove ''auto'' table = [] then Inr \<lparr>rws_entries = [], rws_auto = auto\<rparr>
          else Inl ''expected [ports.auto] or [[ports]] entries'')
      | Some _ \<Rightarrow> Inl ''expected [ports.auto] or [[ports]] entries'')"

definition deserialize_command :: "toml_deserializers \<Rightarrow> toml \<Rightarrow> raw_command result" where
  "deserialize_command td v =
     (case v of
        T_String command \<Rightarrow> Inr (Raw_Shell command)
      | T_Array vs \<Rightarrow>
          bind_res (try_map (td_string td) vs) (\<lambda>args.
            if args = [] then Inl ''command array must not be empty'' else Inr (Raw_Args args))
      | _ \<Rightarrow> Inl ''expected string or string array command'')"

definition mapping_invalid :: string where
  "mapping_invalid = ''compose_published_port_mapping_invalid''"

definition deserialize_mapping_protocol :: "string option \<Rightarrow> raw_port_protocol option result" where
  "deserialize_mapping_protocol protocol =
     (case protocol of
        None \<Rightarrow> Inr None
      | Some p \<Rightarrow>
          if p = ''tcp'' then Inr (Some Raw_Tcp)
          else Inl (fmt [mapping_invalid, '': Compose published port mapping protocol `'', p,
            ''` is unsupported; expected `tcp`'']))"

text \<open>The checks of \<open>validate_compose_published_port_mappings\<close>, one mapping after the other. The state
  is the set of the identities that were seen.\<close>

definition raw_protocol :: "raw_port_protocol raw_mapping \<Rightarrow> raw_port_protocol" where
  "raw_protocol mapping = (case rmp_protocol mapping of Some p \<Rightarrow> p | None \<Rightarrow> Raw_Tcp)"

definition raw_mapping_identity :: "raw_port_protocol raw_mapping \<Rightarrow> string \<times> raw_port_protocol \<times> u16" where
  "raw_mapping_identity mapping = (rmp_service mapping, raw_protocol mapping, rmp_target mapping)"

definition check_mapping ::
  "(string \<times> raw_port_protocol \<times> u16) list \<Rightarrow> raw_port_protocol raw_mapping \<Rightarrow>
   (string \<times> raw_port_protocol \<times> u16) list result" where
  "check_mapping identities mapping =
     (let target = show_nat (unat (rmp_target mapping));
          failure = (\<lambda>pieces. Inl (fmt ([mapping_invalid, '': ''] @ pieces)))
      in if raw_mapping_identity mapping \<in> set identities
         then failure [''duplicate Compose published port mapping for service `'', rmp_service mapping,
           ''`, target '', target, ''/tcp'']
         else let identities = raw_mapping_identity mapping # identities
         in if trim (rmp_service mapping) = []
         then failure [''Compose published port mapping service must not be empty'']
         else if rmp_target mapping = 0
         then failure [''Compose published port mapping target must be in 1..=65535 for service `'',
           rmp_service mapping, ''`'']
         else if rmp_enabled mapping = Some False
         then (if rmp_host mapping \<noteq> None \<or> rmp_host_ip mapping \<noteq> None
               then failure [''disabled Compose published port mapping must contain only its service, target, protocol, and enabled fields'']
               else Inr identities)
         else case rmp_host mapping of
                None \<Rightarrow> failure [''Compose published port mapping host is required for service `'', rmp_service mapping,
                  ''`, target '', target, ''/tcp'']
              | Some host \<Rightarrow>
                  if host = 0
                  then failure [''Compose published port mapping host must be in 1..=65535 for service `'',
                    rmp_service mapping, ''`, target '', target, ''/tcp'']
                  else (case rmp_host_ip mapping of
                          Some host_ip \<Rightarrow>
                            if parse_ip host_ip = None
                            then failure [''Compose published port mapping host_ip is not a valid IP address for service `'',
                              rmp_service mapping, ''`, target '', target, ''/tcp: '', host_ip]
                            else Inr identities
                        | None \<Rightarrow> Inr identities))"

definition validate_compose_published_port_mappings :: "raw_port_protocol raw_mapping list \<Rightarrow> unit result" where
  "validate_compose_published_port_mappings mappings =
     bind_res (try_fold check_mapping [] mappings) (\<lambda>_. Inr ())"

definition deserialize_mapping :: "string raw_mapping \<Rightarrow> raw_port_protocol raw_mapping result" where
  "deserialize_mapping m =
     bind_res (deserialize_mapping_protocol (rmp_protocol m)) (\<lambda>protocol.
     Inr \<lparr>rmp_enabled = rmp_enabled m, rmp_service = rmp_service m, rmp_target = rmp_target m,
       rmp_protocol = protocol, rmp_host = rmp_host m, rmp_host_ip = rmp_host_ip m\<rparr>)"

definition deserialize_published_ports :: "string raw_published_ports \<Rightarrow> raw_port_protocol raw_published_ports result" where
  "deserialize_published_ports parsed =
     bind_res (try_map deserialize_mapping (rpb_mappings parsed)) (\<lambda>mappings.
     bind_res (validate_compose_published_port_mappings mappings) (\<lambda>_.
     Inr \<lparr>rpb_automatic_relocation = rpb_automatic_relocation parsed,
       rpb_warn_on_relocation = rpb_warn_on_relocation parsed, rpb_mappings = mappings\<rparr>))"

definition deserialize_hook :: "toml_deserializers \<Rightarrow> toml raw_hook \<Rightarrow> raw_command raw_hook result" where
  "deserialize_hook td h =
     bind_res (deserialize_command td (rhk_command h)) (\<lambda>command.
     Inr \<lparr>rhk_command = command, rhk_location = rhk_location h, rhk_user = rhk_user h, rhk_shell = rhk_shell h,
       rhk_workdir = rhk_workdir h\<rparr>)"

definition deserialize_hooks :: "toml_deserializers \<Rightarrow> toml raw_hooks \<Rightarrow> raw_command raw_hooks result" where
  "deserialize_hooks td h =
     (let hooks = try_map (deserialize_hook td) in
     bind_res (hooks (rhs_before_initialize h)) (\<lambda>before_initialize.
     bind_res (hooks (rhs_after_initialize h)) (\<lambda>after_initialize.
     bind_res (hooks (rhs_before_on_create h)) (\<lambda>before_on_create.
     bind_res (hooks (rhs_after_on_create h)) (\<lambda>after_on_create.
     bind_res (hooks (rhs_before_update_content h)) (\<lambda>before_update_content.
     bind_res (hooks (rhs_after_update_content h)) (\<lambda>after_update_content.
     bind_res (hooks (rhs_before_post_create h)) (\<lambda>before_post_create.
     bind_res (hooks (rhs_after_post_create h)) (\<lambda>after_post_create.
     bind_res (hooks (rhs_before_post_start h)) (\<lambda>before_post_start.
     bind_res (hooks (rhs_after_post_start h)) (\<lambda>after_post_start.
     bind_res (hooks (rhs_before_post_attach h)) (\<lambda>before_post_attach.
     bind_res (hooks (rhs_after_post_attach h)) (\<lambda>after_post_attach.
     Inr \<lparr>rhs_before_initialize = before_initialize,
       rhs_after_initialize = after_initialize,
       rhs_before_on_create = before_on_create,
       rhs_after_on_create = after_on_create,
       rhs_before_update_content = before_update_content,
       rhs_after_update_content = after_update_content,
       rhs_before_post_create = before_post_create,
       rhs_after_post_create = after_post_create,
       rhs_before_post_start = before_post_start,
       rhs_after_post_start = after_post_start,
       rhs_before_post_attach = before_post_attach,
       rhs_after_post_attach = after_post_attach\<rparr>)))))))))))))"

definition deserialize_config :: "toml_deserializers \<Rightarrow> parsed_config \<Rightarrow> raw_config result" where
  "deserialize_config td parsed =
     bind_res (try_map (\<lambda>(id', table). bind_res (deserialize_feature td table) (\<lambda>f. Inr (id', f)))
       (rwc_features parsed)) (\<lambda>features.
     bind_res (try_map (deserialize_dotfile td) (rwc_dotfiles parsed)) (\<lambda>dotfiles.
     bind_res (try_map (deserialize_mount td) (rwc_mounts parsed)) (\<lambda>mounts.
     bind_res (deserialize_ports_config td (rwc_ports parsed)) (\<lambda>ports.
     bind_res (case rco_published_ports (rwc_compose parsed) of
         None \<Rightarrow> Inr None
       | Some p \<Rightarrow> bind_res (deserialize_published_ports p) (\<lambda>p. Inr (Some p))) (\<lambda>published_ports.
     bind_res (deserialize_hooks td (rwc_hooks parsed)) (\<lambda>hooks.
     Inr \<lparr>rwc_version = rwc_version parsed, rwc_use_global_config = rwc_use_global_config parsed,
       rwc_shell = rwc_shell parsed, rwc_features = features, rwc_container_env = rwc_container_env parsed,
       rwc_remote_env = rwc_remote_env parsed, rwc_dotfiles = dotfiles, rwc_mounts = mounts, rwc_ports = ports,
       rwc_compose = \<lparr>rco_published_ports = published_ports,
         rco_clone_isolation = rco_clone_isolation (rwc_compose parsed)\<rparr>,
       rwc_container_cli_enabled = rwc_container_cli_enabled parsed,
       rwc_credentials = rwc_credentials parsed, rwc_hooks = hooks\<rparr>))))))"

section \<open>Loading\<close>

definition supported_config_version :: u32 where
  "supported_config_version = 1"

definition validate_version :: "raw_config \<Rightarrow> string \<Rightarrow> unit result" where
  "validate_version config path =
     (case rwc_version config of
        Some v \<Rightarrow>
          if v = supported_config_version then Inr ()
          else Inl (fmt [''Unsupported decune config version '', show_nat (unat v), '' in '', path,
            ''; expected version '', show_nat (unat supported_config_version)])
      | None \<Rightarrow> Inl (fmt [''Missing required decune config version in '', path]))"

definition parse_config_str ::
  "(string \<Rightarrow> parsed_config result) \<Rightarrow> toml_deserializers \<Rightarrow> string \<Rightarrow> string \<Rightarrow> raw_config result" where
  "parse_config_str parse_toml td contents path =
     bind_res (map_err (with_context [''Failed to parse decune config file: '', path])
         (bind_res (parse_toml contents) (deserialize_config td))) (\<lambda>config.
     bind_res (validate_version config path) (\<lambda>_. Inr config))"

datatype file_contents = File_Contents string | File_Not_Found | File_Error string

definition load_config_file ::
  "(string \<Rightarrow> parsed_config result) \<Rightarrow> toml_deserializers \<Rightarrow> (string \<Rightarrow> file_contents) \<Rightarrow> string \<Rightarrow> raw_config result" where
  "load_config_file parse_toml td read_file path =
     (case read_file path of
        File_Contents contents \<Rightarrow> parse_config_str parse_toml td contents path
      | File_Not_Found \<Rightarrow> Inr empty_raw_config
      | File_Error e \<Rightarrow> Inl (with_context [''Failed to read decune config file: '', path] e))"

section \<open>Conversion to a layer\<close>

fun dotfile_conflict_from :: "raw_dotfile_conflict \<Rightarrow> dotfile_conflict" where
  "dotfile_conflict_from Raw_Fail = Conflict_Fail"
| "dotfile_conflict_from Raw_Replace_Symlink = Conflict_Replace_Symlink"
| "dotfile_conflict_from Raw_Backup = Conflict_Backup"

fun mount_type_from :: "raw_mount_type \<Rightarrow> mount_type" where
  "mount_type_from Raw_Bind = Bind_Mount"
| "mount_type_from Raw_Volume = Volume_Mount"
| "mount_type_from Raw_Tmpfs = Tmpfs_Mount"

fun mount_create_from :: "raw_mount_create \<Rightarrow> mount_create" where
  "mount_create_from Raw_Directory = Create_Directory"

fun port_protocol_from :: "raw_port_protocol \<Rightarrow> port_protocol" where
  "port_protocol_from Raw_Tcp = Tcp"

fun on_auto_forward_from :: "raw_on_auto_forward \<Rightarrow> on_auto_forward" where
  "on_auto_forward_from Raw_Notify = Notify"
| "on_auto_forward_from Raw_Open_Browser = Notify"
| "on_auto_forward_from Raw_Silent = Silent"
| "on_auto_forward_from Raw_Ignore = Ignore"

fun git_https_mode_from :: "raw_git_https_mode \<Rightarrow> git_https_mode" where
  "git_https_mode_from Raw_Https_Off = Https_Off"
| "git_https_mode_from Raw_Host_Helper = Https_Host_Helper"
| "git_https_mode_from Raw_Host_Helper_Read_Only = Https_Host_Helper_Read_Only"

fun ssh_agent_mode_from :: "raw_ssh_agent_mode \<Rightarrow> ssh_agent_mode" where
  "ssh_agent_mode_from Raw_Ssh_Off = Ssh_Off"
| "ssh_agent_mode_from Raw_Ssh_Auto = Ssh_Auto"
| "ssh_agent_mode_from Raw_Ssh_Required = Ssh_Required"

fun github_credentials_mode_from :: "raw_github_credentials_mode \<Rightarrow> github_credentials_mode" where
  "github_credentials_mode_from Raw_Github_Off = Github_Off"
| "github_credentials_mode_from Raw_Gh_Token_File = Gh_Token_File"

fun command_from :: "raw_command \<Rightarrow> config_command" where
  "command_from (Raw_Shell command) = Shell command"
| "command_from (Raw_Args args) = Args args"

fun hook_location_from :: "raw_hook_location \<Rightarrow> hook_location" where
  "hook_location_from Raw_Host = On_Host"
| "hook_location_from Raw_Container = In_Container"

definition unwrap_or :: "'a option \<Rightarrow> 'a \<Rightarrow> 'a" where
  "unwrap_or v d = (case v of Some x \<Rightarrow> x | None \<Rightarrow> d)"

definition layer_feature_from_raw :: "string \<times> raw_feature \<Rightarrow> layer_feature" where
  "layer_feature_from_raw e =
     \<lparr>laf_id = fst e, laf_canonical_id = canonical_feature_id (fst e),
      laf_enabled = unwrap_or (rf_enabled (snd e)) True, laf_options = rf_options (snd e)\<rparr>"

definition layer_dotfile_from_raw :: "config_path_origin \<Rightarrow> raw_dotfile \<Rightarrow> layer_dotfile" where
  "layer_dotfile_from_raw origin raw =
     \<lparr>lad_enabled = unwrap_or (rwd_enabled raw) True, lad_source = rwd_source raw, lad_target = rwd_target raw,
      lad_read_only = unwrap_or (rwd_read_only raw) True, lad_resolve_symlink = unwrap_or (rwd_resolve_symlink raw) True,
      lad_on_conflict = unwrap_or (map_option dotfile_conflict_from (rwd_on_conflict raw)) default_dotfile_conflict,
      lad_origin = origin\<rparr>"

definition layer_mount_from_raw :: "config_path_origin \<Rightarrow> raw_mount_create raw_mount \<Rightarrow> layer_mount" where
  "layer_mount_from_raw origin raw =
     \<lparr>lam_enabled = unwrap_or (rwm_enabled raw) True, lam_source = rwm_source raw, lam_target = rwm_target raw,
      lam_type = map_option mount_type_from (rwm_type raw), lam_read_only = unwrap_or (rwm_read_only raw) False,
      lam_resolve_symlink = unwrap_or (rwm_resolve_symlink raw) True,
      lam_create = map_option mount_create_from (rwm_create raw), lam_origin = origin\<rparr>"

definition layer_port_from_raw :: "raw_port \<Rightarrow> resolved_port" where
  "layer_port_from_raw raw =
     \<lparr>rp_enabled = unwrap_or (rwp_enabled raw) True, rp_service = rwp_service raw, rp_container = rwp_container raw,
      rp_host = rwp_host raw, rp_host_ip = unwrap_or (rwp_host_ip raw) default_port_host_ip,
      rp_protocol = port_protocol_from (unwrap_or (rwp_protocol raw) Raw_Tcp),
      rp_require_local = unwrap_or (rwp_require_local raw) False, rp_label = rwp_label raw\<rparr>"

definition layer_auto_ports_from_raw :: "raw_auto_ports \<Rightarrow> layer_auto_ports" where
  "layer_auto_ports_from_raw raw =
     \<lparr>lap_enabled = rwa_enabled raw, lap_min = rwa_min raw, lap_max = rwa_max raw, lap_ignore = rwa_ignore raw,
      lap_on_auto_forward = map_option on_auto_forward_from (rwa_on_auto_forward raw)\<rparr>"

definition layer_mapping_from_raw :: "raw_port_protocol raw_mapping \<Rightarrow> layer_compose_mapping" where
  "layer_mapping_from_raw raw =
     \<lparr>lcm_enabled = unwrap_or (rmp_enabled raw) True, lcm_service = rmp_service raw, lcm_target = rmp_target raw,
      lcm_protocol = port_protocol_from (raw_protocol raw), lcm_host = rmp_host raw, lcm_host_ip = rmp_host_ip raw\<rparr>"

definition layer_published_ports_from_raw :: "raw_port_protocol raw_published_ports \<Rightarrow> layer_published_ports" where
  "layer_published_ports_from_raw raw =
     \<lparr>lpp_automatic_relocation = rpb_automatic_relocation raw, lpp_warn_on_relocation = rpb_warn_on_relocation raw,
      lpp_mappings = map layer_mapping_from_raw (rpb_mappings raw)\<rparr>"

definition layer_networks_from_raw :: "raw_isolation_networks \<Rightarrow> layer_isolation_networks" where
  "layer_networks_from_raw raw =
     \<lparr>lin_relocation = rin_relocation raw, lin_subnet_pool = rin_subnet_pool raw,
      lin_subnet_prefix = rin_subnet_prefix raw\<rparr>"

definition layer_names_from_raw :: "raw_isolation_names \<Rightarrow> layer_isolation_names" where
  "layer_names_from_raw raw =
     \<lparr>lim_rewrite_container_names = rim_rewrite_container_names raw,
      lim_rewrite_resource_names = rim_rewrite_resource_names raw\<rparr>"

definition layer_endpoint_from_raw :: "raw_isolation_endpoint \<Rightarrow> isolation_endpoint" where
  "layer_endpoint_from_raw raw = \<lparr>ie_service = rie_service raw, ie_env = rie_env raw, ie_value = rie_value raw\<rparr>"

definition layer_clone_isolation_from_raw :: "raw_clone_isolation \<Rightarrow> layer_clone_isolation" where
  "layer_clone_isolation_from_raw raw =
     (let none = lco_clone_isolation (cl_compose empty_layer)
      in \<lparr>lci_enabled = rci_enabled raw,
          lci_networks = unwrap_or (map_option layer_networks_from_raw (rci_networks raw)) (lci_networks none),
          lci_names = unwrap_or (map_option layer_names_from_raw (rci_names raw)) (lci_names none),
          lci_endpoints = map layer_endpoint_from_raw (rci_endpoints raw)\<rparr>)"

definition layer_compose_from_raw :: "raw_port_protocol raw_compose \<Rightarrow> layer_compose" where
  "layer_compose_from_raw raw =
     (let none = cl_compose empty_layer
      in \<lparr>lco_published_ports =
            unwrap_or (map_option layer_published_ports_from_raw (rco_published_ports raw)) (lco_published_ports none),
          lco_clone_isolation =
            unwrap_or (map_option layer_clone_isolation_from_raw (rco_clone_isolation raw)) (lco_clone_isolation none)\<rparr>)"

definition layer_git_from_raw :: "raw_git_credentials \<Rightarrow> layer_git_credentials" where
  "layer_git_from_raw raw =
     \<lparr>lgc_enabled = rgc_enabled raw, lgc_copy_user = rgc_copy_user raw, lgc_copy_global_config = rgc_copy_global_config raw,
      lgc_https = map_option git_https_mode_from (rgc_https raw),
      lgc_ssh_agent = map_option ssh_agent_mode_from (rgc_ssh_agent raw)\<rparr>"

definition layer_github_from_raw :: "raw_github_credentials \<Rightarrow> layer_github_credentials" where
  "layer_github_from_raw raw =
     \<lparr>lhc_enabled = rhc_enabled raw, lhc_mode = map_option github_credentials_mode_from (rhc_mode raw),
      lhc_install_feature_if_missing = rhc_install_feature_if_missing raw\<rparr>"

definition layer_credentials_from_raw :: "raw_credentials \<Rightarrow> layer_credentials" where
  "layer_credentials_from_raw raw =
     (let none = cl_credentials empty_layer
      in \<lparr>lcr_git = unwrap_or (map_option layer_git_from_raw (rcr_git raw)) (lcr_git none),
          lcr_github = unwrap_or (map_option layer_github_from_raw (rcr_github raw)) (lcr_github none)\<rparr>)"

definition is_shell_command :: "config_command \<Rightarrow> bool" where
  "is_shell_command command = (case command of Shell _ \<Rightarrow> True | Args _ \<Rightarrow> False)"

definition layer_hook_from_raw :: "raw_command raw_hook \<Rightarrow> hook" where
  "layer_hook_from_raw raw =
     (let command = command_from (rhk_command raw)
      in \<lparr>hk_command = command, hk_location = map_option hook_location_from (rhk_location raw), hk_user = rhk_user raw,
          hk_shell = unwrap_or (rhk_shell raw) (is_shell_command command), hk_workdir = rhk_workdir raw\<rparr>)"

definition layer_hooks_from_raw :: "raw_command raw_hooks \<Rightarrow> hooks" where
  "layer_hooks_from_raw raw = \<lparr>
     hs_before_initialize = map layer_hook_from_raw (rhs_before_initialize raw),
     hs_after_initialize = map layer_hook_from_raw (rhs_after_initialize raw),
     hs_before_on_create = map layer_hook_from_raw (rhs_before_on_create raw),
     hs_after_on_create = map layer_hook_from_raw (rhs_after_on_create raw),
     hs_before_update_content = map layer_hook_from_raw (rhs_before_update_content raw),
     hs_after_update_content = map layer_hook_from_raw (rhs_after_update_content raw),
     hs_before_post_create = map layer_hook_from_raw (rhs_before_post_create raw),
     hs_after_post_create = map layer_hook_from_raw (rhs_after_post_create raw),
     hs_before_post_start = map layer_hook_from_raw (rhs_before_post_start raw),
     hs_after_post_start = map layer_hook_from_raw (rhs_after_post_start raw),
     hs_before_post_attach = map layer_hook_from_raw (rhs_before_post_attach raw),
     hs_after_post_attach = map layer_hook_from_raw (rhs_after_post_attach raw)\<rparr>"

definition layer_from_raw_decune :: "raw_config \<Rightarrow> config_path_origin \<Rightarrow> config_layer" where
  "layer_from_raw_decune raw origin = \<lparr>
     cl_shell = rwc_shell raw,
     cl_features = map layer_feature_from_raw (rwc_features raw),
     cl_dotfiles = map (layer_dotfile_from_raw origin) (rwc_dotfiles raw),
     cl_mounts = map (layer_mount_from_raw origin) (rwc_mounts raw),
     cl_ports = map layer_port_from_raw (rws_entries (rwc_ports raw)),
     cl_forward_ports = [],
     cl_auto_ports = map_option layer_auto_ports_from_raw (rws_auto (rwc_ports raw)),
     cl_compose = layer_compose_from_raw (rwc_compose raw),
     cl_container = \<lparr>lct_cli_enabled = rwc_container_cli_enabled raw\<rparr>,
     cl_devcontainer =
       (if rwc_container_env raw = [] \<and> rwc_remote_env raw = [] then None
        else Some (empty_metadata\<lparr>ldc_container_env := rwc_container_env raw, ldc_remote_env := rwc_remote_env raw\<rparr>)),
     cl_credentials = layer_credentials_from_raw (rwc_credentials raw),
     cl_hooks = layer_hooks_from_raw (rwc_hooks raw)\<rparr>"

section \<open>What is accepted\<close>

definition mapping_ok :: "raw_port_protocol raw_mapping \<Rightarrow> bool" where
  "mapping_ok m = (trim (rmp_service m) \<noteq> [] \<and> rmp_target m \<noteq> 0 \<and>
     (if rmp_enabled m = Some False then rmp_host m = None \<and> rmp_host_ip m = None
      else rmp_host m \<notin> {None, Some 0} \<and> pred_option (\<lambda>ip. parse_ip ip \<noteq> None) (rmp_host_ip m)))"

lemma check_mapping_Inr_iff:
  "check_mapping identities m = Inr identities' \<longleftrightarrow>
    raw_mapping_identity m \<notin> set identities \<and> mapping_ok m \<and> identities' = raw_mapping_identity m # identities"
proof (cases "raw_mapping_identity m \<in> set identities \<or> trim (rmp_service m) = [] \<or> rmp_target m = 0")
  case True
  then show ?thesis by (elim disjE) (simp_all add: check_mapping_def mapping_ok_def Let_def)
next
  case False
  then show ?thesis
    by (cases "rmp_enabled m = Some False"; cases "rmp_host m"; cases "rmp_host_ip m")
       (auto simp: check_mapping_def mapping_ok_def Let_def)
qed

lemma check_mappings_Inr_iff:
  "try_fold check_mapping identities ms = Inr identities' \<longleftrightarrow>
    list_all mapping_ok ms \<and> distinct (map raw_mapping_identity ms) \<and>
    set (map raw_mapping_identity ms) \<inter> set identities = {} \<and>
    identities' = rev (map raw_mapping_identity ms) @ identities"
  by (induction ms arbitrary: identities) (auto simp: bind_res_Inr_iff check_mapping_Inr_iff)

lemma validated_mappings:
  "validate_compose_published_port_mappings ms = Inr () \<longleftrightarrow> list_all mapping_ok ms \<and> distinct (map raw_mapping_identity ms)"
  by (auto simp: validate_compose_published_port_mappings_def bind_res_Inr_iff check_mappings_Inr_iff)

text \<open>The mappings of a file are accepted exactly when their identities are distinct,
  services are not blank, targets are not 0, disabled ones say nothing else, and enabled ones have
  a host port other than 0 and a valid host address if any.\<close>

theorem port_mappings_validated_exactly:
  "validate_compose_published_port_mappings mappings = Inr () \<longleftrightarrow>
    list_all mapping_ok mappings \<and> distinct (map raw_mapping_identity mappings)"
  by (rule validated_mappings)

text \<open>The entries that a merge drops without a word: mounts without a type, dotfiles without a source,
  mappings without a host port.\<close>

definition complete_layer :: "config_layer \<Rightarrow> bool" where
  "complete_layer l =
     (list_all (\<lambda>m. lam_enabled m \<longrightarrow> lam_type m \<noteq> None \<and> (lam_type m = Some Bind_Mount \<longrightarrow> lam_source m \<noteq> None)) (cl_mounts l) \<and>
      list_all (\<lambda>d. lad_enabled d \<longrightarrow> lad_source d \<noteq> None) (cl_dotfiles l) \<and>
      list_all (\<lambda>m. lcm_target m \<noteq> 0 \<and> trim (lcm_service m) \<noteq> [] \<and>
        (lcm_enabled m \<longrightarrow> lcm_host m \<notin> {None, Some 0} \<and> pred_option (\<lambda>ip. parse_ip ip \<noteq> None) (lcm_host_ip m)))
        (lpp_mappings (lco_published_ports (cl_compose l))) \<and>
      distinct (map (\<lambda>m. (lcm_service m, lcm_target m, lcm_protocol m)) (lpp_mappings (lco_published_ports (cl_compose l)))))"

definition complete_raw :: "raw_config \<Rightarrow> bool" where
  "complete_raw raw =
     (list_all (\<lambda>m. rwm_enabled m \<noteq> Some False \<longrightarrow> rwm_type m \<noteq> None \<and> (rwm_type m = Some Raw_Bind \<longrightarrow> rwm_source m \<noteq> None)) (rwc_mounts raw) \<and>
      list_all (\<lambda>d. rwd_enabled d \<noteq> Some False \<longrightarrow> rwd_source d \<noteq> None) (rwc_dotfiles raw) \<and>
      pred_option (\<lambda>p. list_all mapping_ok (rpb_mappings p) \<and> distinct (map raw_mapping_identity (rpb_mappings p)))
        (rco_published_ports (rwc_compose raw)))"

lemma try_map_list_all: "try_map f xs = Inr ys \<Longrightarrow> (\<And>x y. f x = Inr y \<Longrightarrow> P y) \<Longrightarrow> list_all P ys"
  by (induction xs arbitrary: ys) (auto simp: bind_res_Inr_iff)

lemma deserialized_complete:
  assumes "deserialize_config td parsed = Inr raw"
  shows "complete_raw raw"
proof -
  obtain mounts dotfiles published where
    m: "try_map (deserialize_mount td) (rwc_mounts parsed) = Inr mounts" "rwc_mounts raw = mounts" and
    d: "try_map (deserialize_dotfile td) (rwc_dotfiles parsed) = Inr dotfiles" "rwc_dotfiles raw = dotfiles" and
    p: "(case rco_published_ports (rwc_compose parsed) of None \<Rightarrow> Inr None
       | Some p \<Rightarrow> bind_res (deserialize_published_ports p) (\<lambda>p. Inr (Some p))) = Inr published"
       "rco_published_ports (rwc_compose raw) = published"
    using assms by (auto simp: deserialize_config_def bind_res_Inr_iff)
  have "list_all (\<lambda>m. rwm_enabled m \<noteq> Some False \<longrightarrow> rwm_type m \<noteq> None \<and> (rwm_type m = Some Raw_Bind \<longrightarrow> rwm_source m \<noteq> None)) mounts"
    by (rule try_map_list_all [OF m(1)]) (auto simp: deserialize_mount_def bind_res_Inr_iff Let_def split: if_splits)
  moreover have "list_all (\<lambda>d. rwd_enabled d \<noteq> Some False \<longrightarrow> rwd_source d \<noteq> None) dotfiles"
    by (rule try_map_list_all [OF d(1)]) (auto simp: deserialize_dotfile_def split: if_splits)
  moreover have "pred_option (\<lambda>p. list_all mapping_ok (rpb_mappings p) \<and> distinct (map raw_mapping_identity (rpb_mappings p))) published"
    using p(1) by (cases "rco_published_ports (rwc_compose parsed)")
      (auto simp: deserialize_published_ports_def bind_res_Inr_iff validated_mappings)
  ultimately show ?thesis by (simp add: complete_raw_def m(2) d(2) p(2))
qed

lemma unwrap_or_True: "unwrap_or b True \<longleftrightarrow> b \<noteq> Some False"
  by (auto simp: unwrap_or_def split: option.split)

lemma raw_protocol_Tcp: "raw_protocol m = Raw_Tcp"
  by (cases "raw_protocol m") simp

lemma complete_layer_from_raw: "complete_raw raw \<Longrightarrow> complete_layer (layer_from_raw_decune raw origin)"
proof -
  assume raw: "complete_raw raw"
  have mount_bind: "mount_type_from ty = Bind_Mount \<longleftrightarrow> ty = Raw_Bind" for ty by (cases ty) simp_all
  have mappings: "lpp_mappings (lco_published_ports (cl_compose (layer_from_raw_decune raw origin))) =
      (case rco_published_ports (rwc_compose raw) of None \<Rightarrow> [] | Some p \<Rightarrow> map layer_mapping_from_raw (rpb_mappings p))"
    by (simp add: layer_from_raw_decune_def layer_compose_from_raw_def Let_def unwrap_or_def empty_layer_def
        layer_published_ports_from_raw_def split: option.split)
  have "distinct (map (\<lambda>m. (lcm_service m, lcm_target m, lcm_protocol m)) (map layer_mapping_from_raw ms))"
    if "distinct (map raw_mapping_identity ms)" for ms
    using that by (auto simp: distinct_map inj_on_def raw_mapping_identity_def raw_protocol_Tcp layer_mapping_from_raw_def)
  moreover have "mapping_ok m \<Longrightarrow> lcm_target (layer_mapping_from_raw m) \<noteq> 0 \<and> trim (lcm_service (layer_mapping_from_raw m)) \<noteq> [] \<and>
      (lcm_enabled (layer_mapping_from_raw m) \<longrightarrow> lcm_host (layer_mapping_from_raw m) \<notin> {None, Some 0} \<and>
        pred_option (\<lambda>ip. parse_ip ip \<noteq> None) (lcm_host_ip (layer_mapping_from_raw m)))" for m
    by (simp add: mapping_ok_def layer_mapping_from_raw_def unwrap_or_True split: if_splits)
  moreover have "list_all (\<lambda>m. lam_enabled m \<longrightarrow> lam_type m \<noteq> None \<and> (lam_type m = Some Bind_Mount \<longrightarrow> lam_source m \<noteq> None))
      (cl_mounts (layer_from_raw_decune raw origin))"
    using raw by (auto simp: complete_raw_def layer_from_raw_decune_def layer_mount_from_raw_def list_all_iff unwrap_or_True mount_bind)
  moreover have "list_all (\<lambda>d. lad_enabled d \<longrightarrow> lad_source d \<noteq> None) (cl_dotfiles (layer_from_raw_decune raw origin))"
    using raw by (auto simp: complete_raw_def layer_from_raw_decune_def layer_dotfile_from_raw_def list_all_iff unwrap_or_True)
  ultimately show "complete_layer (layer_from_raw_decune raw origin)"
    using raw unfolding complete_layer_def mappings complete_raw_def
    by (cases "rco_published_ports (rwc_compose raw)") (auto simp: list_all_iff)
qed

lemma loaded_config:
  assumes "load_config_file parse_toml td read_file path = Inr raw"
  shows "complete_raw raw \<and> (read_file path = File_Not_Found \<and> raw = empty_raw_config \<or>
    (\<exists>contents. read_file path = File_Contents contents \<and> rwc_version raw = Some supported_config_version))"
proof (cases "read_file path")
  case (File_Contents contents)
  with assms obtain parsed where "deserialize_config td parsed = Inr raw" "validate_version raw path = Inr ()"
    by (auto simp: load_config_file_def parse_config_str_def bind_res_Inr_iff map_err_Inr_iff)
  then show ?thesis using deserialized_complete File_Contents
    by (auto simp: validate_version_def split: option.splits if_splits)
next
  case File_Not_Found
  with assms have "raw = empty_raw_config" by (simp add: load_config_file_def)
  then show ?thesis using File_Not_Found by (simp add: complete_raw_def empty_raw_config_def)
qed (use assms in \<open>simp add: load_config_file_def\<close>)

text \<open>C24. In the layer of a loaded file, every enabled mount has its type and every enabled
  bind mount its source, every enabled dotfile its source, every enabled mapping a host port, and
  mappings are distinct: the entries that a merge would drop without a word do not occur.\<close>

theorem loaded_layers_are_complete:
  assumes "load_config_file parse_toml td read_file path = Inr raw"
  shows "complete_layer (layer_from_raw_decune raw origin)"
  using loaded_config [OF assms] complete_layer_from_raw by blast

lemma empty_config_layer: "layer_from_raw_decune empty_raw_config origin = empty_layer"
  by (simp add: layer_from_raw_decune_def empty_raw_config_def empty_layer_def layer_compose_from_raw_def unwrap_or_def
      layer_credentials_from_raw_def layer_hooks_from_raw_def no_raw_hooks_def no_hooks_def)

text \<open>A loaded file has the supported version, or there is no file and its layer sets
  nothing.\<close>

theorem missing_file_sets_nothing:
  assumes "load_config_file parse_toml td read_file path = Inr raw"
  shows "rwc_version raw = Some supported_config_version \<or>
    read_file path = File_Not_Found \<and> layer_from_raw_decune raw origin = empty_layer"
  using loaded_config [OF assms] empty_config_layer by auto

definition example_toml :: toml_deserializers where
  "example_toml = \<lparr>td_bool = (\<lambda>v. case v of T_Boolean b \<Rightarrow> Inr b | _ \<Rightarrow> Inl ''bool''),
     td_string = (\<lambda>v. case v of T_String s \<Rightarrow> Inr s | _ \<Rightarrow> Inl ''string''),
     td_port = (\<lambda>_. Inl ''port''), td_auto_ports = (\<lambda>_. Inl ''auto''), td_missing_field = (\<lambda>f. f)\<rparr>"

definition example_parsed :: parsed_config where
  "example_parsed = \<lparr>rwc_version = Some 1, rwc_use_global_config = None, rwc_shell = None, rwc_features = [],
     rwc_container_env = [], rwc_remote_env = [],
     rwc_dotfiles = [\<lparr>rwd_enabled = None, rwd_source = Some ''~/.vimrc'', rwd_target = ''.vimrc'', rwd_read_only = None,
       rwd_resolve_symlink = None, rwd_on_conflict = None\<rparr>],
     rwc_mounts = [\<lparr>rwm_enabled = Some True, rwm_source = None, rwm_target = ''/cache'', rwm_type = Some Raw_Volume,
       rwm_read_only = None, rwm_resolve_symlink = None, rwm_create = Some (T_Boolean False)\<rparr>],
     rwc_ports = None,
     rwc_compose = \<lparr>rco_published_ports = Some \<lparr>rpb_automatic_relocation = None, rpb_warn_on_relocation = None,
         rpb_mappings = [\<lparr>rmp_enabled = None, rmp_service = ''db'', rmp_target = 5432, rmp_protocol = Some ''tcp'',
           rmp_host = Some 15432, rmp_host_ip = None\<rparr>]\<rparr>, rco_clone_isolation = None\<rparr>,
     rwc_container_cli_enabled = None, rwc_credentials = \<lparr>rcr_git = None, rcr_github = None\<rparr>,
     rwc_hooks = no_raw_hooks\<rparr>"

lemma example_loaded:
  "\<exists>raw. load_config_file (\<lambda>_. Inr example_parsed) example_toml (\<lambda>_. File_Contents []) ''decune.toml'' = Inr raw \<and>
    length (rwc_mounts raw) = 1"
  by (simp add: load_config_file_def parse_config_str_def example_parsed_def deserialize_config_def deserialize_dotfile_def
      deserialize_mount_def deserialize_mount_create_def deserialize_ports_config_def deserialize_published_ports_def
      deserialize_mapping_def deserialize_mapping_protocol_def validated_mappings [THEN iffD2]
      mapping_ok_def deserialize_hooks_def no_raw_hooks_def validate_version_def supported_config_version_def str_eval)

theorem loaded_layers_are_complete_witness:
  "\<exists>raw. length (rwc_mounts (raw :: raw_config)) = 1 \<and> complete_layer (layer_from_raw_decune raw Origin_Global)"
proof -
  obtain raw where raw: "load_config_file (\<lambda>_. Inr example_parsed) example_toml (\<lambda>_. File_Contents []) ''decune.toml'' = Inr raw"
    "length (rwc_mounts raw) = 1" using example_loaded by (elim exE conjE)
  from loaded_layers_are_complete [OF raw(1)] raw(2) show ?thesis by (intro exI conjI)
qed

theorem missing_file_sets_nothing_witness:
  "layer_from_raw_decune empty_raw_config Origin_Project = empty_layer"
proof -
  have "load_config_file (\<lambda>_. Inl []) example_toml (\<lambda>_. File_Not_Found) ''decune.toml'' = Inr empty_raw_config"
    by (simp add: load_config_file_def)
  from missing_file_sets_nothing [OF this, of Origin_Project] show ?thesis by (simp add: empty_raw_config_def)
qed

end
