(* ===== verification/Host_Path.thy ===== *)
theory Host_Path
  imports Rust_Path Utf8 Config_Variables Config_Types
begin

text \<open>
  Host paths in the configuration, \<open>src/config/path.rs\<close>: a leading tilde and the variables are
  expanded, relative paths are joined to the workspace, and the file system resolves the result.
  A missing directory is created, or, when nothing may be written, resolved from its nearest
  ancestor that exists. The file system is a parameter: what it answers in a world, and the
  creation of directories, the only operation that changes the world.
\<close>

datatype path_create = Create_None | Create_Path_Directory | Create_Directory_Read_Only

datatype symlink_resolution = Resolve_Symlink | Preserve_Symlink

record host_path_options =
  hp_origin :: config_path_origin
  hp_workspace_root :: string
  hp_variables :: variable_context
  hp_local_env :: local_env
  hp_home_dir :: "string option"
  hp_create :: path_create
  hp_symlink_resolution :: symlink_resolution

text \<open>What \<open>fs::metadata\<close> answers. \<open>Path_Missing\<close> are the kinds \<open>NotFound\<close> and \<open>NotADirectory\<close>.\<close>

datatype path_metadata = Path_Is_Dir | Path_Is_Other | Path_Missing string | Path_Failed string

record 'w host_fs =
  hf_metadata :: "'w \<Rightarrow> string \<Rightarrow> path_metadata"
  hf_symlink_exists :: "'w \<Rightarrow> string \<Rightarrow> bool"
  hf_canonicalize :: "'w \<Rightarrow> string \<Rightarrow> string result"
  hf_create_dir_all :: "string \<Rightarrow> ('w, string, unit) io"
  hf_display :: "string \<Rightarrow> string"

definition path_context :: "'w host_fs \<Rightarrow> string \<Rightarrow> string \<Rightarrow> string \<Rightarrow> string" where
  "path_context fs action p = with_context [''Failed to '', action, '': '', hf_display fs p]"

definition resolve_existing_host_path ::
  "'w host_fs \<Rightarrow> 'w \<Rightarrow> string \<Rightarrow> symlink_resolution \<Rightarrow> string result" where
  "resolve_existing_host_path fs w absolute_path symlink_resolution =
     (case symlink_resolution of
        Resolve_Symlink \<Rightarrow>
          map_err (path_context fs ''canonicalize host path'' absolute_path) (hf_canonicalize fs w absolute_path)
      | Preserve_Symlink \<Rightarrow>
          (case hf_metadata fs w absolute_path of
             Path_Missing e \<Rightarrow> Inl (path_context fs ''read host path metadata'' absolute_path e)
           | Path_Failed e \<Rightarrow> Inl (path_context fs ''read host path metadata'' absolute_path e)
           | _ \<Rightarrow> Inr absolute_path))"

function resolve_missing ::
  "'w host_fs \<Rightarrow> 'w \<Rightarrow> string \<Rightarrow> symlink_resolution \<Rightarrow> string list \<Rightarrow> string \<Rightarrow> string result" where
  "resolve_missing fs w absolute_path symlink_resolution missing_components current =
     (let canonical = map_err (path_context fs ''canonicalize host path ancestor'' current) (hf_canonicalize fs w current)
      in case hf_metadata fs w current of
           Path_Is_Other \<Rightarrow>
             Inl (if missing_components = []
                  then fmt [''Host path is not a directory: '', hf_display fs current]
                  else fmt [''Host path ancestor is not a directory: '', hf_display fs current])
         | Path_Is_Dir \<Rightarrow>
             if missing_components = [] then resolve_existing_host_path fs w absolute_path symlink_resolution
             else if symlink_resolution = Preserve_Symlink then Inr absolute_path
             else bind_res canonical (\<lambda>resolved. Inr (foldl path_push resolved (rev missing_components)))
         | Path_Missing _ \<Rightarrow>
             if hf_symlink_exists fs w current then canonical
             else (case path_file_name current of
                     None \<Rightarrow> canonical
                   | Some file_name \<Rightarrow>
                       (case path_parent current of
                          None \<Rightarrow> Inl (fmt [''Host path has no existing ancestor: '', hf_display fs absolute_path])
                        | Some parent \<Rightarrow>
                            resolve_missing fs w absolute_path symlink_resolution (missing_components @ [file_name]) parent))
         | Path_Failed e \<Rightarrow>
             Inl (with_context [''Failed to read host path metadata: '', hf_display fs current] e))"
  by pat_completeness auto
termination
  by (relation "measure (\<lambda>(fs, w, p, s, m, current). length current)") (simp_all add: path_parent_shorter)

definition resolve_read_only_directory_path ::
  "'w host_fs \<Rightarrow> 'w \<Rightarrow> string \<Rightarrow> symlink_resolution \<Rightarrow> string result" where
  "resolve_read_only_directory_path fs w absolute_path symlink_resolution =
     resolve_missing fs w absolute_path symlink_resolution [] absolute_path"

definition path_to_string :: "'w host_fs \<Rightarrow> string \<Rightarrow> string result" where
  "path_to_string fs p =
     (if utf8_ok p then Inr p else Inl (fmt [''Config path is not valid Unicode: '', hf_display fs p]))"

definition expand_home :: "'w host_fs \<Rightarrow> string \<Rightarrow> string option \<Rightarrow> string result" where
  "expand_home fs input home_dir =
     (if input = ''~''
      then (case home_dir of
              Some home \<Rightarrow> path_to_string fs home
            | None \<Rightarrow> Inl ''HOME is not set; cannot expand ~ in config path'')
      else case strip_prefix ''~/'' input of
             Some rest \<Rightarrow>
               bind_res (ok_or home_dir ''HOME is not set; cannot expand ~ in config path'') (\<lambda>home.
                 path_to_string fs (path_push home rest))
           | None \<Rightarrow> Inr input)"

definition absolutize_config_path ::
  "'w host_fs \<Rightarrow> string \<Rightarrow> config_path_origin \<Rightarrow> string \<Rightarrow> string result" where
  "absolutize_config_path fs p origin workspace_root =
     (if is_absolute p then Inr p
      else case origin of
             Origin_Global \<Rightarrow>
               Inl (fmt [''Relative host paths are not allowed in global config: '', hf_display fs p])
           | Origin_Project \<Rightarrow> Inr (path_push workspace_root p))"

definition resolve_checked_host_path ::
  "'w host_fs \<Rightarrow> string \<Rightarrow> host_path_options \<Rightarrow> ('w, string, string) io" where
  "resolve_checked_host_path fs input options =
     io_bind (io_lift (absolutize_config_path fs input (hp_origin options) (hp_workspace_root options))) (\<lambda>absolute_path.
       case hp_create options of
         Create_None \<Rightarrow>
           (\<lambda>w. (resolve_existing_host_path fs w absolute_path (hp_symlink_resolution options), w))
       | Create_Path_Directory \<Rightarrow>
           io_bind (io_map_err (path_context fs ''create host path directory'' absolute_path)
                     (hf_create_dir_all fs absolute_path)) (\<lambda>_ w.
             (resolve_existing_host_path fs w absolute_path (hp_symlink_resolution options), w))
       | Create_Directory_Read_Only \<Rightarrow>
           (\<lambda>w. (resolve_read_only_directory_path fs w absolute_path (hp_symlink_resolution options), w)))"

definition resolve_host_path ::
  "'w host_fs \<Rightarrow> string \<Rightarrow> host_path_options \<Rightarrow> ('w, string, string) io" where
  "resolve_host_path fs input options =
     io_bind (io_lift (expand_home fs input (hp_home_dir options))) (\<lambda>expanded_home.
     io_bind (io_lift (expand_variables_with expanded_home (hp_variables options) (hp_local_env options)))
       (\<lambda>expanded_variables.
     resolve_checked_host_path fs expanded_variables options))"

definition resolve_expanded_host_path ::
  "'w host_fs \<Rightarrow> string \<Rightarrow> host_path_options \<Rightarrow> ('w, string, string) io" where
  "resolve_expanded_host_path fs input options =
     io_bind (io_lift (expand_home fs input (hp_home_dir options))) (\<lambda>expanded_home.
     resolve_checked_host_path fs expanded_home options)"

section \<open>Resolving without writing\<close>

text \<open>Walking up from a path: the missing components, last one first.\<close>

inductive walks :: "'w host_fs \<Rightarrow> 'w \<Rightarrow> string \<Rightarrow> string \<Rightarrow> string list \<Rightarrow> bool" for fs w p where
  start: "walks fs w p p []"
| up: "walks fs w p current missing \<Longrightarrow> hf_metadata fs w current = Path_Missing e \<Longrightarrow> \<not> hf_symlink_exists fs w current \<Longrightarrow>
    path_file_name current = Some name \<Longrightarrow> path_parent current = Some parent \<Longrightarrow> walks fs w p parent (missing @ [name])"

text \<open>What \<open>create_dir_all\<close> promises when it succeeds: the path is a directory, and its canonical
  form is that of the nearest directory that was there, with the missing components behind it.\<close>

definition creates_missing_directories :: "'w host_fs \<Rightarrow> 'w \<Rightarrow> string \<Rightarrow> bool" where
  "creates_missing_directories fs w p =
     (\<forall>w'. hf_create_dir_all fs p w = (Inr (), w') \<longrightarrow> hf_metadata fs w' p = Path_Is_Dir \<and>
        (\<exists>current missing. walks fs w p current missing \<and> hf_metadata fs w current = Path_Is_Dir \<and>
           (\<forall>c. hf_canonicalize fs w' p = Inr c \<longrightarrow>
              (\<exists>c'. hf_canonicalize fs w current = Inr c' \<and> c = foldl path_push c' (rev missing)))))"

lemma resolve_missing_walks:
  "walks fs w p current missing \<Longrightarrow> resolve_missing fs w p sr [] p = resolve_missing fs w p sr missing current"
proof (induction rule: walks.induct)
  case (up current missing e name parent)
  then have "resolve_missing fs w p sr missing current = resolve_missing fs w p sr (missing @ [name]) parent"
    by (subst resolve_missing.simps) simp
  with up.IH show ?case by simp
qed simp

lemma read_only_agrees:
  assumes "creates_missing_directories fs w p" "hf_create_dir_all fs p w = (Inr (), w')"
    and "resolve_existing_host_path fs w' p sr = Inr s"
  shows "resolve_read_only_directory_path fs w p sr = Inr s"
proof -
  obtain current missing where walk: "walks fs w p current missing" "hf_metadata fs w current = Path_Is_Dir"
    and dir: "hf_metadata fs w' p = Path_Is_Dir"
    and canonical: "\<And>c. hf_canonicalize fs w' p = Inr c \<Longrightarrow>
      \<exists>c'. hf_canonicalize fs w current = Inr c' \<and> c = foldl path_push c' (rev missing)"
    using assms(1,2) by (auto simp: creates_missing_directories_def)
  have dry: "resolve_read_only_directory_path fs w p sr = resolve_missing fs w p sr missing current"
    unfolding resolve_read_only_directory_path_def by (rule resolve_missing_walks [OF walk(1)])
  have same: "current = p" if "missing = []" using walk(1) that by (cases rule: walks.cases) simp_all
  show ?thesis
  proof (cases sr)
    case Preserve_Symlink
    with assms(3) dir have "s = p" by (simp add: resolve_existing_host_path_def)
    with Preserve_Symlink walk(2) same show ?thesis
      unfolding dry by (subst resolve_missing.simps) (auto simp: resolve_existing_host_path_def)
  next
    case Resolve_Symlink
    with assms(3) have "hf_canonicalize fs w' p = Inr s" by (simp add: resolve_existing_host_path_def map_err_Inr_iff)
    from canonical [OF this] obtain c' where "hf_canonicalize fs w current = Inr c'" "s = foldl path_push c' (rev missing)" by blast
    with Resolve_Symlink walk(2) same show ?thesis
      unfolding dry by (subst resolve_missing.simps) (auto simp: resolve_existing_host_path_def)
  qed
qed

lemma checked_read_only:
  assumes "\<forall>p. creates_missing_directories fs w p" "hp_create options = Create_Path_Directory"
    and "resolve_checked_host_path fs input options w = (Inr s, w')"
  shows "resolve_checked_host_path fs input (options\<lparr>hp_create := Create_Directory_Read_Only\<rparr>) w = (Inr s, w)"
proof -
  obtain p where p: "absolutize_config_path fs input (hp_origin options) (hp_workspace_root options) = Inr p"
    and made: "hf_create_dir_all fs p w = (Inr (), w')"
    and s: "resolve_existing_host_path fs w' p (hp_symlink_resolution options) = Inr s"
    using assms(2,3) by (auto simp: resolve_checked_host_path_def io_elims)
  have "resolve_read_only_directory_path fs w p (hp_symlink_resolution options) = Inr s"
    using assms(1) made s by (intro read_only_agrees) auto
  with p show ?thesis by (simp add: resolve_checked_host_path_def io_defs)
qed

text \<open>When directories are created as create_dir_all promises, resolving a host path without
  writing gives the path that resolving it with the creation of missing directories gives.\<close>

theorem dry_run_resolves_alike:
  assumes "\<forall>p. creates_missing_directories fs w p" "hp_create options = Create_Path_Directory"
    and "resolve_host_path fs input options w = (Inr s, w')"
  shows "resolve_host_path fs input (options\<lparr>hp_create := Create_Directory_Read_Only\<rparr>) w = (Inr s, w)"
proof -
  obtain home vars where e: "expand_home fs input (hp_home_dir options) = Inr home"
    "expand_variables_with home (hp_variables options) (hp_local_env options) = Inr vars"
    "resolve_checked_host_path fs vars options w = (Inr s, w')"
    using assms(3) by (auto simp: resolve_host_path_def io_elims)
  from checked_read_only [OF assms(1,2) e(3)] e(1,2) show ?thesis by (simp add: resolve_host_path_def io_defs)
qed

text \<open>A file system with the root directory, below which \<open>/a\<close> can be created.\<close>

definition small_fs :: "bool host_fs" where
  "small_fs = \<lparr>hf_metadata = (\<lambda>w p. if p = ''/'' \<or> w \<and> p = ''/a'' then Path_Is_Dir else Path_Missing ''not found''),
     hf_symlink_exists = (\<lambda>w p. False), hf_canonicalize = (\<lambda>w p. Inr p),
     hf_create_dir_all = (\<lambda>p w. if p = ''/a'' then (Inr (), True) else (Inl ''denied'', w)), hf_display = id\<rparr>"

definition small_options :: host_path_options where
  "small_options = \<lparr>hp_origin = Origin_Project, hp_workspace_root = ''/'', hp_variables = example_context,
     hp_local_env = (\<lambda>_. Inr None), hp_home_dir = None, hp_create = Create_Path_Directory,
     hp_symlink_resolution = Resolve_Symlink\<rparr>"

lemma small_fs_creates: "creates_missing_directories small_fs w p"
proof -
  have "\<exists>current missing. walks small_fs w ''/a'' current missing \<and> hf_metadata small_fs w current = Path_Is_Dir \<and>
      foldl path_push current (rev missing) = ''/a''"
  proof (cases w)
    case True
    show ?thesis by (intro exI conjI, rule start) (simp_all add: small_fs_def True)
  next
    case False
    have "walks small_fs w ''/a'' ''/'' ([] @ [''a''])"
      by (rule up [OF start])
        (simp_all add: small_fs_def False path_file_name_def path_components_def path_segments_def is_skipped_def
          is_absolute_def starts_with_def path_parent_def trim_segments_def segments_path_def)
    moreover have "hf_metadata small_fs w ''/'' = Path_Is_Dir" "foldl path_push ''/'' (rev ([] @ [''a''])) = ''/a''"
      by (simp_all add: small_fs_def path_push_def starts_with_def)
    ultimately show ?thesis by (intro exI conjI)
  qed
  then obtain current missing where walk: "walks small_fs w ''/a'' current missing"
    "hf_metadata small_fs w current = Path_Is_Dir" "foldl path_push current (rev missing) = ''/a''"
    by (elim exE conjE)
  have create: "hf_create_dir_all small_fs p w = (Inr (), w') \<longleftrightarrow> p = ''/a'' \<and> w'" for w'
    by (simp add: small_fs_def)
  have world: "hf_metadata small_fs True ''/a'' = Path_Is_Dir" "hf_canonicalize small_fs v q = Inr q" for v q
    by (simp_all add: small_fs_def)
  show ?thesis
    unfolding creates_missing_directories_def create
  proof (intro allI impI, elim conjE)
    fix w' assume p: "p = ''/a''" and w': w'
    show "hf_metadata small_fs w' p = Path_Is_Dir \<and>
        (\<exists>current missing. walks small_fs w p current missing \<and> hf_metadata small_fs w current = Path_Is_Dir \<and>
           (\<forall>c. hf_canonicalize small_fs w' p = Inr c \<longrightarrow>
              (\<exists>c'. hf_canonicalize small_fs w current = Inr c' \<and> c = foldl path_push c' (rev missing))))"
      unfolding p world(2)
      by (intro conjI exI [of _ current] exI [of _ missing] allI impI walk exI [of _ current])
         (simp_all only: w' world(1) walk(3) sum.inject)
  qed
qed

theorem dry_run_resolves_alike_witness:
  "resolve_host_path small_fs ''a'' (small_options\<lparr>hp_create := Create_Directory_Read_Only\<rparr>) False = (Inr ''/a'', False)"
proof (rule dry_run_resolves_alike)
  show "\<forall>p. creates_missing_directories small_fs False p" using small_fs_creates by simp
  show "resolve_host_path small_fs ''a'' small_options False = (Inr ''/a'', True)"
    by (simp add: resolve_host_path_def small_options_def small_fs_def expand_home_def expand_variables_with_def
        expand_loop.simps split_variable_expression_def resolve_checked_host_path_def absolutize_config_path_def
        path_push_def is_absolute_def starts_with_def io_defs resolve_existing_host_path_def)
qed (simp add: small_options_def)

end
