(* ===== verification/Docker_Mounts.thy ===== *)
theory Docker_Mounts
  imports Host_Path Config_Merge
begin

text \<open>
  The mounts of the container, \<open>src/docker/mounts.rs\<close>: the mounts of the configuration and of
  \<open>devcontainer.json\<close>, the latter as text in Docker's comma separated form or as an object,
  become the mounts passed to Docker. The world is that of \<open>Host_Path\<close>.
\<close>

datatype mount_bind_propagation =
  Prop_R_Private | Prop_Private | Prop_R_Shared | Prop_Shared | Prop_R_Slave | Prop_Slave

fun bind_propagation_str :: "mount_bind_propagation \<Rightarrow> string" where
  "bind_propagation_str Prop_R_Private = ''rprivate''"
| "bind_propagation_str Prop_Private = ''private''"
| "bind_propagation_str Prop_R_Shared = ''rshared''"
| "bind_propagation_str Prop_Shared = ''shared''"
| "bind_propagation_str Prop_R_Slave = ''rslave''"
| "bind_propagation_str Prop_Slave = ''slave''"

record mount_bind_options =
  mbo_propagation :: "mount_bind_propagation option"
  mbo_non_recursive :: "bool option"
  mbo_create_mountpoint :: "bool option"
  mbo_read_only_non_recursive :: "bool option"
  mbo_read_only_force_recursive :: "bool option"

record mount_volume_driver_config =
  mvd_name :: "string option"
  mvd_options :: "(string, string) btree_map option"

record mount_volume_options =
  mvo_no_copy :: "bool option"
  mvo_labels :: "(string, string) btree_map option"
  mvo_driver_config :: "mount_volume_driver_config option"
  mvo_subpath :: "string option"

record docker_mount_spec =
  dms_source :: "string option"
  dms_target :: string
  dms_type :: mount_type
  dms_read_only :: bool
  dms_consistency :: "string option"
  dms_bind_options :: "mount_bind_options option"
  dms_volume_options :: "mount_volume_options option"

datatype host_path_create_mode = Materialize | Read_Only_Paths

record parsed_mount =
  pmt_source :: "string option"
  pmt_target :: string
  pmt_type :: mount_type
  pmt_read_only :: bool
  pmt_consistency :: "string option"
  pmt_bind_options :: "mount_bind_options option"
  pmt_volume_options :: "mount_volume_options option"

datatype mount_field_value = Field_String string | Field_Bool bool

type_synonym mount_fields = "(string, mount_field_value) btree_map"

text \<open>What every call gets: the root of the workspace, the variables, the environment and \<open>HOME\<close>.\<close>

record mount_context =
  mc_workspace_root :: string
  mc_variables :: variable_context
  mc_local_env :: local_env
  mc_home_dir :: "string option"

section \<open>Docker's comma separated form\<close>

definition dquote :: char where
  "dquote = CHR 0x22"

fun csv_loop :: "string \<Rightarrow> bool \<Rightarrow> bool \<Rightarrow> bool \<Rightarrow> string \<Rightarrow> string \<Rightarrow> string list result" where
  "csv_loop input quoted after_quote field_start field [] =
     (if quoted then Inl (fmt [''Unterminated quoted Docker mount field: '', input]) else Inr [field])"
| "csv_loop input quoted after_quote field_start field (c # cs) =
     (if quoted
      then (if c \<noteq> dquote then csv_loop input True after_quote field_start (field @ [c]) cs
            else case cs of
                   d # ds \<Rightarrow>
                     if d = dquote then csv_loop input True after_quote field_start (field @ [d]) ds
                     else csv_loop input False True field_start field cs
                 | [] \<Rightarrow> csv_loop input False True field_start field cs)
      else if c = CHR '','' then bind_res (csv_loop input False False True [] cs) (\<lambda>entries. Inr (field # entries))
      else if c = dquote \<and> field_start then csv_loop input True after_quote False field cs
      else if c = dquote then Inl (fmt [''Invalid quote in Docker mount field: '', input])
      else if after_quote then Inl (fmt [''Invalid character after quoted Docker mount field: '', input])
      else csv_loop input False after_quote False (field @ [c]) cs)"

definition docker_mount_csv_fields :: "string \<Rightarrow> string list result" where
  "docker_mount_csv_fields input = csv_loop input False False True [] input"

definition normalize_mount_key :: "string \<Rightarrow> string" where
  "normalize_mount_key key =
     (let key = trim key
      in if key = ''src'' then ''source''
         else if key = ''dst'' \<or> key = ''destination'' then ''target''
         else if key \<in> {''readonly'', ''readOnly'', ''read_only'', ''ro''} then ''readonly''
         else key)"

definition mount_string_field :: "mount_fields \<Rightarrow> string \<Rightarrow> mount_fields result" where
  "mount_string_field entries segment =
     (case split_once ''='' segment of
        Some (key, v) \<Rightarrow> Inr (bt_insert (normalize_mount_key key) (Field_String (trim v)) entries)
      | None \<Rightarrow>
          (let key = normalize_mount_key segment
           in if key \<in> {''readonly'', ''bind-create-src'', ''volume-nocopy''}
              then Inr (bt_insert key (Field_Bool True) entries)
              else Inl (fmt [''Unsupported Docker mount flag: '', segment])))"

definition docker_mount_string_fields :: "string \<Rightarrow> mount_fields result" where
  "docker_mount_string_fields input =
     bind_res (docker_mount_csv_fields input) (\<lambda>segments.
       try_fold mount_string_field [] (filter (\<lambda>segment. segment \<noteq> []) (map trim segments)))"

definition mount_object_field :: "string \<times> json \<Rightarrow> (string \<times> mount_field_value) result" where
  "mount_object_field e =
     bind_res (case snd e of
         J_String v \<Rightarrow> Inr (Field_String v)
       | J_Bool b \<Rightarrow> Inr (Field_Bool b)
       | _ \<Rightarrow> Inl (fmt [''Mount field must be a string or boolean: '', fst e]))
       (\<lambda>v. Inr (normalize_mount_key (fst e), v))"

definition devcontainer_mount_object_fields :: "(string, json) btree_map \<Rightarrow> mount_fields result" where
  "devcontainer_mount_object_fields m =
     bind_res (try_map mount_object_field m) (\<lambda>entries. Inr (bt_collect entries))"

definition expand_mount_field :: "mount_context \<Rightarrow> string \<times> mount_field_value \<Rightarrow> (string \<times> mount_field_value) result" where
  "expand_mount_field ctx e =
     (case snd e of
        Field_String v \<Rightarrow>
          bind_res (map_err (with_context [''Failed to expand mount field: '', fst e])
              (expand_variables_with v (mc_variables ctx) (mc_local_env ctx)))
            (\<lambda>v. Inr (fst e, Field_String v))
      | Field_Bool b \<Rightarrow> Inr (fst e, Field_Bool b))"

definition expand_mount_fields :: "mount_context \<Rightarrow> mount_fields \<Rightarrow> mount_fields result" where
  "expand_mount_fields ctx entries =
     bind_res (try_map (expand_mount_field ctx) entries) (\<lambda>entries. Inr (bt_collect entries))"

section \<open>Reading the fields\<close>

text \<open>Each reader removes what it reads, so that what is left was not understood.\<close>

definition string_field :: "mount_fields \<Rightarrow> string \<Rightarrow> (string option \<times> mount_fields) result" where
  "string_field entries key =
     (case bt_get entries key of
        Some (Field_String v) \<Rightarrow> Inr (Some v, bt_remove key entries)
      | Some (Field_Bool _) \<Rightarrow> Inl (fmt [''Mount field must be a string: '', key])
      | None \<Rightarrow> Inr (None, entries))"

definition bool_field :: "mount_fields \<Rightarrow> string \<Rightarrow> (bool option \<times> mount_fields) result" where
  "bool_field entries key =
     (case bt_get entries key of
        Some (Field_Bool b) \<Rightarrow> Inr (Some b, bt_remove key entries)
      | Some (Field_String v) \<Rightarrow>
          if v = ''true'' then Inr (Some True, bt_remove key entries)
          else if v = ''false'' then Inr (Some False, bt_remove key entries)
          else Inl (fmt [''Mount field must be a boolean: '', key])
      | None \<Rightarrow> Inr (None, entries))"

fun mount_type_of :: "string option \<Rightarrow> mount_type result" where
  "mount_type_of None = Inl ''Mount type is required''"
| "mount_type_of (Some v) =
     (if v = ''bind'' then Inr Bind_Mount
      else if v = ''volume'' then Inr Volume_Mount
      else if v = ''tmpfs'' then Inr Tmpfs_Mount
      else Inl (fmt [''Unsupported mount type: '', v]))"

definition mount_type_field :: "mount_fields \<Rightarrow> (mount_type \<times> mount_fields) result" where
  "mount_type_field entries =
     bind_res (string_field entries ''type'') (\<lambda>(v, entries).
     bind_res (mount_type_of v) (\<lambda>ty. Inr (ty, entries)))"

definition consistency_field :: "mount_fields \<Rightarrow> (string option \<times> mount_fields) result" where
  "consistency_field entries =
     bind_res (string_field entries ''consistency'') (\<lambda>(v, entries).
     case v of
       None \<Rightarrow> Inr (None, entries)
     | Some consistency \<Rightarrow>
         if consistency \<in> {''default'', ''consistent'', ''cached'', ''delegated''}
         then Inr (Some consistency, entries)
         else Inl (fmt [''Unsupported mount consistency: '', consistency]))"

definition parse_bind_propagation :: "string \<Rightarrow> mount_bind_propagation result" where
  "parse_bind_propagation v =
     (if v = ''rprivate'' then Inr Prop_R_Private
      else if v = ''private'' then Inr Prop_Private
      else if v = ''rshared'' then Inr Prop_R_Shared
      else if v = ''shared'' then Inr Prop_Shared
      else if v = ''rslave'' then Inr Prop_R_Slave
      else if v = ''slave'' then Inr Prop_Slave
      else Inl (fmt [''Unsupported bind propagation: '', v]))"

definition bind_options :: "mount_fields \<Rightarrow> (mount_bind_options option \<times> mount_fields) result" where
  "bind_options entries =
     bind_res (string_field entries ''bind-propagation'') (\<lambda>(v, entries).
     bind_res (case v of
         None \<Rightarrow> Inr None
       | Some v \<Rightarrow> bind_res (parse_bind_propagation v) (\<lambda>p. Inr (Some p))) (\<lambda>propagation.
     bind_res (bool_field entries ''bind-create-src'') (\<lambda>(create_mountpoint, entries).
     Inr (if propagation = None \<and> create_mountpoint = None then None
          else Some \<lparr>mbo_propagation = propagation, mbo_non_recursive = None,
            mbo_create_mountpoint = create_mountpoint, mbo_read_only_non_recursive = None,
            mbo_read_only_force_recursive = None\<rparr>, entries))))"

definition volume_options :: "mount_fields \<Rightarrow> (mount_volume_options option \<times> mount_fields) result" where
  "volume_options entries =
     bind_res (bool_field entries ''volume-nocopy'') (\<lambda>(no_copy, entries).
     bind_res (string_field entries ''volume-subpath'') (\<lambda>(subpath, entries).
     Inr (if no_copy = None \<and> subpath = None then None
          else Some \<lparr>mvo_no_copy = no_copy, mvo_labels = None, mvo_driver_config = None, mvo_subpath = subpath\<rparr>,
          entries)))"

definition parse_devcontainer_mount_fields :: "mount_fields \<Rightarrow> bool \<Rightarrow> parsed_mount result" where
  "parse_devcontainer_mount_fields entries docker_options =
     bind_res (mount_type_field entries) (\<lambda>(ty, entries).
     bind_res (string_field entries ''target'') (\<lambda>(target, entries).
     bind_res (ok_or target ''Mount target is required'') (\<lambda>target.
     bind_res (string_field entries ''source'') (\<lambda>(source, entries).
     bind_res (bool_field entries ''readonly'') (\<lambda>(read_only, entries).
     bind_res (if docker_options then consistency_field entries else Inr (None, entries)) (\<lambda>(consistency, entries).
     bind_res (if docker_options \<and> ty = Bind_Mount then bind_options entries else Inr (None, entries)) (\<lambda>(bind, entries).
     bind_res (if docker_options \<and> ty = Volume_Mount then volume_options entries else Inr (None, entries))
       (\<lambda>(volume, entries).
     if entries \<noteq> [] then Inl (fmt [''Unsupported mount option: '', str_join '', '' (bt_keys entries)])
     else Inr \<lparr>pmt_source = source, pmt_target = target, pmt_type = ty, pmt_read_only = (read_only = Some True),
       pmt_consistency = consistency, pmt_bind_options = bind, pmt_volume_options = volume\<rparr>))))))))"

definition parse_devcontainer_mount :: "mount_context \<Rightarrow> devcontainer_mount \<Rightarrow> parsed_mount result" where
  "parse_devcontainer_mount ctx mount =
     (case mount of
        Mount_String v \<Rightarrow>
          bind_res (docker_mount_string_fields v) (\<lambda>entries.
          bind_res (map_err (with_context [''Failed to parse devcontainer mount: '', v]) (expand_mount_fields ctx entries))
            (\<lambda>entries. parse_devcontainer_mount_fields entries True))
      | Mount_Object m \<Rightarrow>
          bind_res (devcontainer_mount_object_fields m) (\<lambda>entries.
          bind_res (map_err (with_context [''Failed to parse devcontainer mount object'']) (expand_mount_fields ctx entries))
            (\<lambda>entries. parse_devcontainer_mount_fields entries True)))"

definition devcontainer_mount_type :: "devcontainer_mount \<Rightarrow> mount_type result" where
  "devcontainer_mount_type mount =
     bind_res (case mount of
         Mount_String v \<Rightarrow> docker_mount_string_fields v
       | Mount_Object m \<Rightarrow> devcontainer_mount_object_fields m) (\<lambda>entries.
     bind_res (mount_type_field entries) (\<lambda>(ty, _). Inr ty))"

section \<open>The mounts passed to Docker\<close>

text \<open>The stack of components of \<open>normalize_container_path\<close>.\<close>

definition push_component :: "string list \<Rightarrow> string \<Rightarrow> string list" where
  "push_component components component =
     (if component = [] \<or> component = ''.'' then components
      else if component = ''..'' then butlast components
      else components @ [component])"

definition normalize_container_path :: "string \<Rightarrow> string" where
  "normalize_container_path target =
     (let components = foldl push_component [] (split_on (\<lambda>c. c = CHR ''/'') target)
      in if components = [] then ''/'' else ''/'' @ str_join ''/'' components)"

definition reserved_targets :: "string list" where
  "reserved_targets = [''/opt/decune'', ''/run/decune'']"

definition is_reserved_decune_target :: "string \<Rightarrow> bool" where
  "is_reserved_decune_target target =
     list_ex (\<lambda>reserved. target = reserved \<or> starts_with (reserved @ ''/'') target) reserved_targets"

definition validate_target :: "string \<Rightarrow> string result" where
  "validate_target target =
     (if \<not> starts_with ''/'' target
      then Inl (fmt [''Mount target must be an absolute container path: '', target])
      else let normalized = normalize_container_path target
        in if is_reserved_decune_target normalized
           then Inl (fmt [''Mount target is reserved for decune internal use: '', target])
           else Inr normalized)"

fun path_create_of :: "mount_create option \<Rightarrow> host_path_create_mode \<Rightarrow> path_create" where
  "path_create_of (Some Create_Directory) Materialize = Create_Path_Directory"
| "path_create_of (Some Create_Directory) Read_Only_Paths = Create_Directory_Read_Only"
| "path_create_of None _ = Create_None"

definition bind_path_create :: "mount_bind_options option \<Rightarrow> host_path_create_mode \<Rightarrow> path_create" where
  "bind_path_create options host_path_create =
     (case options of
        Some o' \<Rightarrow>
          if mbo_create_mountpoint o' = Some True
          then (case host_path_create of
                  Materialize \<Rightarrow> Create_Path_Directory
                | Read_Only_Paths \<Rightarrow> Create_Directory_Read_Only)
          else Create_None
      | None \<Rightarrow> Create_None)"

definition symlink_resolution_of :: "bool \<Rightarrow> symlink_resolution" where
  "symlink_resolution_of resolve_symlink = (if resolve_symlink then Resolve_Symlink else Preserve_Symlink)"

definition host_options ::
  "mount_context \<Rightarrow> config_path_origin \<Rightarrow> path_create \<Rightarrow> symlink_resolution \<Rightarrow> host_path_options" where
  "host_options ctx origin create symlink = \<lparr>hp_origin = origin, hp_workspace_root = mc_workspace_root ctx,
     hp_variables = mc_variables ctx, hp_local_env = mc_local_env ctx, hp_home_dir = mc_home_dir ctx,
     hp_create = create, hp_symlink_resolution = symlink\<rparr>"

definition expand_context :: "mount_context \<Rightarrow> string \<Rightarrow> string \<Rightarrow> string result" where
  "expand_context ctx what s =
     map_err (with_context [''Failed to expand mount '', what, '': '', s])
       (expand_variables_with s (mc_variables ctx) (mc_local_env ctx))"

definition resolved_mount_spec ::
  "'w host_fs \<Rightarrow> mount_context \<Rightarrow> host_path_create_mode \<Rightarrow> resolved_mount \<Rightarrow> ('w, string, docker_mount_spec) io" where
  "resolved_mount_spec fs ctx host_path_create mount =
     io_bind (io_lift (expand_context ctx ''target'' (rmo_target mount))) (\<lambda>expanded.
     io_bind (io_lift (validate_target expanded)) (\<lambda>target.
     io_bind (case rmo_type mount of
         Bind_Mount \<Rightarrow>
           io_bind (io_lift (ok_or (rmo_source mount) (fmt [''Bind mount source is required for target: '', target])))
             (\<lambda>source.
           io_bind (io_map_err (with_context [''Failed to resolve bind mount source for target: '', target])
               (resolve_host_path fs source (host_options ctx (rmo_origin mount)
                  (path_create_of (rmo_create mount) host_path_create)
                  (symlink_resolution_of (rmo_resolve_symlink mount)))))
             (\<lambda>path. io_return (Some (hf_display fs path))))
       | Volume_Mount \<Rightarrow>
           (case rmo_source mount of
              None \<Rightarrow> io_return None
            | Some source \<Rightarrow>
                io_bind (io_lift (expand_context ctx ''source'' source)) (\<lambda>s. io_return (Some s)))
       | Tmpfs_Mount \<Rightarrow> io_fail (fmt [''tmpfs mounts are not supported yet: '', target])) (\<lambda>source.
     io_return \<lparr>dms_source = source, dms_target = target, dms_type = rmo_type mount,
       dms_read_only = rmo_read_only mount, dms_consistency = None, dms_bind_options = None,
       dms_volume_options = None\<rparr>)))"

definition devcontainer_mount_spec ::
  "'w host_fs \<Rightarrow> mount_context \<Rightarrow> host_path_create_mode \<Rightarrow> devcontainer_mount \<Rightarrow> ('w, string, docker_mount_spec) io" where
  "devcontainer_mount_spec fs ctx host_path_create mount =
     io_bind (io_lift (parse_devcontainer_mount ctx mount)) (\<lambda>parsed.
     io_bind (io_lift (validate_target (pmt_target parsed))) (\<lambda>target.
     case pmt_type parsed of
       Bind_Mount \<Rightarrow>
         io_bind (io_lift (ok_or (pmt_source parsed) (fmt [''Bind mount source is required for target: '', target])))
           (\<lambda>source.
         io_bind (io_map_err (with_context [''Failed to resolve devcontainer bind mount source for target: '', target])
             (resolve_expanded_host_path fs source (host_options ctx Origin_Project
                (bind_path_create (pmt_bind_options parsed) host_path_create) Resolve_Symlink)))
           (\<lambda>path. io_return \<lparr>dms_source = Some (hf_display fs path), dms_target = target, dms_type = Bind_Mount,
              dms_read_only = pmt_read_only parsed, dms_consistency = pmt_consistency parsed,
              dms_bind_options = pmt_bind_options parsed, dms_volume_options = None\<rparr>))
     | Volume_Mount \<Rightarrow>
         io_return \<lparr>dms_source = pmt_source parsed, dms_target = target, dms_type = Volume_Mount,
           dms_read_only = pmt_read_only parsed, dms_consistency = pmt_consistency parsed,
           dms_bind_options = None, dms_volume_options = pmt_volume_options parsed\<rparr>
     | Tmpfs_Mount \<Rightarrow> io_fail (fmt [''tmpfs mounts are not supported yet: '', target])))"

definition same_docker_target :: "docker_mount_spec \<Rightarrow> docker_mount_spec \<Rightarrow> bool" where
  "same_docker_target existing mount = (dms_target existing = dms_target mount)"

definition replace_mount_by_target :: "docker_mount_spec list \<Rightarrow> docker_mount_spec \<Rightarrow> docker_mount_spec list" where
  "replace_mount_by_target mounts mount = replace_by_identity same_docker_target mount mounts"

definition add_mounts ::
  "('a \<Rightarrow> ('w, string, docker_mount_spec) io) \<Rightarrow> docker_mount_spec list \<Rightarrow> 'a list \<Rightarrow>
   ('w, string, docker_mount_spec list) io" where
  "add_mounts spec =
     io_fold (\<lambda>mounts entry. io_bind (spec entry) (\<lambda>s. io_return (replace_mount_by_target mounts s)))"

definition config_mount_specs ::
  "'w host_fs \<Rightarrow> mount_context \<Rightarrow> host_path_create_mode \<Rightarrow> resolved_config \<Rightarrow> ('w, string, docker_mount_spec list) io" where
  "config_mount_specs fs ctx host_path_create config =
     io_bind (add_mounts (resolved_mount_spec fs ctx host_path_create) []
       (filter (\<lambda>mount. rmo_origin mount = Origin_Global) (rc_mounts config))) (\<lambda>mounts.
     io_bind (add_mounts (devcontainer_mount_spec fs ctx host_path_create) mounts
       (rdc_mounts (rc_devcontainer config))) (\<lambda>mounts.
     add_mounts (resolved_mount_spec fs ctx host_path_create) mounts
       (filter (\<lambda>mount. rmo_origin mount = Origin_Project) (rc_mounts config))))"

section \<open>The comma separated form, exactly\<close>

datatype csv_field = Bare string | In_Quotes string

fun doubled :: "string \<Rightarrow> string" where
  "doubled [] = []"
| "doubled (c # cs) = (if c = dquote then dquote # dquote # doubled cs else c # doubled cs)"

fun csv_text :: "csv_field \<Rightarrow> string" where
  "csv_text (Bare s) = s"
| "csv_text (In_Quotes s) = dquote # doubled s @ [dquote]"

fun csv_value :: "csv_field \<Rightarrow> string" where
  "csv_value (Bare s) = s"
| "csv_value (In_Quotes s) = s"

definition bare_text :: "string \<Rightarrow> bool" where
  "bare_text s = (CHR '','' \<notin> set s \<and> dquote \<notin> set s)"

fun csv_ok :: "csv_field \<Rightarrow> bool" where
  "csv_ok (Bare s) = bare_text s"
| "csv_ok (In_Quotes s) = True"

lemma comma_not_dquote [simp]: "CHR '','' \<noteq> dquote" "dquote \<noteq> CHR '',''"
  by (simp_all add: dquote_def)

text \<open>What follows a field: the end, or a comma and the next fields.\<close>

definition csv_rest :: "string \<Rightarrow> string \<Rightarrow> string \<Rightarrow> string list result" where
  "csv_rest input field rest =
     (case rest of [] \<Rightarrow> Inr [field]
      | c # cs \<Rightarrow> bind_res (csv_loop input False False True [] cs) (\<lambda>entries. Inr (field # entries)))"

lemma csv_bare:
  "bare_text s \<Longrightarrow> rest = [] \<or> hd rest = CHR '','' \<Longrightarrow>
   csv_loop input False False start field (s @ rest) = csv_rest input (field @ s) rest"
proof (induction s arbitrary: field start)
  case Nil
  then show ?case by (cases rest) (simp_all add: csv_rest_def)
next
  case (Cons c s)
  then have "c \<noteq> CHR '',''" "c \<noteq> dquote" "bare_text s" by (auto simp: bare_text_def)
  with Cons show ?case by simp
qed

lemma csv_quoted:
  "rest = [] \<or> hd rest = CHR '','' \<Longrightarrow>
   csv_loop input True after start field (doubled s @ dquote # rest) = csv_rest input (field @ s) rest"
proof (induction s arbitrary: field)
  case Nil
  then show ?case by (cases rest) (simp_all add: csv_rest_def)
qed simp

lemma csv_field_text:
  "csv_ok f \<Longrightarrow> rest = [] \<or> hd rest = CHR '','' \<Longrightarrow>
   csv_loop input False False True [] (csv_text f @ rest) = csv_rest input (csv_value f) rest"
  using csv_bare [of _ rest input True "[]"] csv_quoted [of rest input False False "[]"] by (cases f) simp_all

lemma csv_fields_text:
  "list_all csv_ok fs \<Longrightarrow> fs \<noteq> [] \<Longrightarrow>
   csv_loop input False False True [] (str_join '','' (map csv_text fs)) = Inr (map csv_value fs)"
proof (induction fs rule: induct_list012)
  case (2 f)
  then show ?case using csv_field_text [of f "[]" input] by (simp add: csv_rest_def)
next
  case (3 f g fs)
  then show ?case
    using csv_field_text [of f "CHR '','' # str_join '','' (map csv_text (g # fs))" input] by (simp add: csv_rest_def)
qed simp

lemma csv_after_quote:
  assumes "csv_loop input False True start field s = Inr values'" "start = False"
  shows "(s = [] \<or> hd s = CHR '','') \<and> csv_rest input field s = Inr values'"
  using assms by (cases s) (auto simp: csv_rest_def split: if_splits)

lemma csv_loop_quoted:
  "csv_loop input True after False field s = Inr values' \<Longrightarrow>
   \<exists>v rest. s = doubled v @ dquote # rest \<and> (rest = [] \<or> hd rest = CHR '','') \<and> csv_rest input (field @ v) rest = Inr values'"
proof (induction s arbitrary: field rule: induct_list012)
  case (2 c)
  show ?case
  proof (cases "c = dquote")
    case True
    with 2 show ?thesis by (intro exI [of _ "[]"] exI [of _ "[]"]) (simp add: csv_rest_def)
  qed (use 2 in simp)
next
  case (3 c d s)
  show ?case
  proof (cases "c = dquote")
    case False
    with "3.prems" have "csv_loop input True after False (field @ [c]) (d # s) = Inr values'" by simp
    from "3.IH"(2) [OF this] obtain v rest where v: "d # s = doubled v @ dquote # rest" "rest = [] \<or> hd rest = CHR '',''"
      "csv_rest input ((field @ [c]) @ v) rest = Inr values'" by blast
    with False show ?thesis by (intro exI [of _ "c # v"] exI [of _ rest]) simp
  next
    case c: True
    show ?thesis
    proof (cases "d = dquote")
      case True
      with c "3.prems" have "csv_loop input True after False (field @ [d]) s = Inr values'" by simp
      from "3.IH"(1) [OF this] obtain v rest where v: "s = doubled v @ dquote # rest" "rest = [] \<or> hd rest = CHR '',''"
        "csv_rest input ((field @ [d]) @ v) rest = Inr values'" by blast
      with c True show ?thesis by (intro exI [of _ "d # v"] exI [of _ rest]) simp
    next
      case False
      with c "3.prems" have "csv_loop input False True False field (d # s) = Inr values'" by simp
      from csv_after_quote [OF this] have "hd (d # s) = CHR '',''" "csv_rest input field (d # s) = Inr values'" by auto
      then show ?thesis by (intro exI [of _ "[]"] exI [of _ "d # s"] conjI) (simp_all add: c)
    qed
  qed
qed simp

lemma csv_loop_bare:
  "csv_loop input False False start field s = Inr values' \<Longrightarrow> start \<longrightarrow> s = [] \<or> hd s \<noteq> dquote \<Longrightarrow>
   \<exists>v rest. s = v @ rest \<and> bare_text v \<and> (rest = [] \<or> hd rest = CHR '','') \<and> csv_rest input (field @ v) rest = Inr values'"
proof (induction s arbitrary: field start)
  case Nil
  then show ?case by (intro exI [of _ "[]"] exI [of _ "[]"]) (simp add: csv_rest_def bare_text_def)
next
  case (Cons c s)
  show ?case
  proof (cases "c = CHR '',''")
    case True
    with Cons.prems show ?thesis by (intro exI [of _ "[]"] exI [of _ "c # s"]) (simp add: csv_rest_def bare_text_def)
  next
    case False
    with Cons.prems have c: "c \<noteq> dquote" by (auto split: if_splits)
    with Cons.prems False have "csv_loop input False False False (field @ [c]) s = Inr values'" by simp
    from Cons.IH [OF this] obtain v rest where "s = v @ rest" "bare_text v" "rest = [] \<or> hd rest = CHR '',''"
      "csv_rest input ((field @ [c]) @ v) rest = Inr values'" by blast
    with c False show ?thesis by (intro exI [of _ "c # v"] exI [of _ rest]) (simp add: bare_text_def)
  qed
qed

lemma csv_first_field:
  assumes "csv_loop input False False True [] s = Inr values'"
  shows "\<exists>f rest. s = csv_text f @ rest \<and> csv_ok f \<and> (rest = [] \<or> hd rest = CHR '','') \<and>
    csv_rest input (csv_value f) rest = Inr values'"
proof (cases "s \<noteq> [] \<and> hd s = dquote")
  case True
  then obtain t where t: "s = dquote # t" by (cases s) auto
  with assms csv_loop_quoted [of input False "[]" t values'] obtain v rest where v: "t = doubled v @ dquote # rest"
    "rest = [] \<or> hd rest = CHR '',''" "csv_rest input v rest = Inr values'" by auto
  with t show ?thesis by (intro exI [of _ "In_Quotes v"] exI [of _ rest]) simp
next
  case False
  with csv_loop_bare [OF assms] obtain v rest where v: "s = v @ rest" "bare_text v" "rest = [] \<or> hd rest = CHR '',''"
    "csv_rest input v rest = Inr values'" by auto
  then show ?thesis by (intro exI [of _ "Bare v"] exI [of _ rest]) simp
qed

lemma csv_text_of_fields:
  "csv_loop input False False True [] s = Inr values' \<Longrightarrow>
   \<exists>fs. fs \<noteq> [] \<and> list_all csv_ok fs \<and> s = str_join '','' (map csv_text fs) \<and> values' = map csv_value fs"
proof (induction s arbitrary: values' rule: length_induct)
  case (1 s)
  from csv_first_field [OF "1.prems"] obtain f rest where f: "s = csv_text f @ rest" "csv_ok f"
    "rest = [] \<or> hd rest = CHR '',''" "csv_rest input (csv_value f) rest = Inr values'" by blast
  show ?case
  proof (cases rest)
    case Nil
    with f show ?thesis by (intro exI [of _ "[f]"]) (simp add: csv_rest_def)
  next
    case (Cons c cs)
    with f(4) obtain vs where vs: "csv_loop input False False True [] cs = Inr vs" "values' = csv_value f # vs"
      by (auto simp: csv_rest_def bind_res_Inr_iff)
    have "length cs < length s" using f(1) Cons by simp
    with "1.IH" vs(1) obtain fs where fs: "fs \<noteq> []" "list_all csv_ok fs" "cs = str_join '','' (map csv_text fs)"
      "vs = map csv_value fs" by blast
    then show ?thesis using f Cons vs(2) by (intro exI [of _ "f # fs"], cases fs) simp_all
  qed
qed

text \<open>C31. A mount string is split into given fields exactly when it is their text, each
  bare or in quotes with doubled quotes, joined by commas.\<close>

theorem mount_fields_parse_exactly:
  "docker_mount_csv_fields input = Inr entries \<longleftrightarrow>
    (\<exists>fs. fs \<noteq> [] \<and> list_all csv_ok fs \<and> input = str_join '','' (map csv_text fs) \<and> entries = map csv_value fs)"
proof
  assume "docker_mount_csv_fields input = Inr entries"
  then show "\<exists>fs. fs \<noteq> [] \<and> list_all csv_ok fs \<and> input = str_join '','' (map csv_text fs) \<and> entries = map csv_value fs"
    unfolding docker_mount_csv_fields_def by (rule csv_text_of_fields)
next
  assume "\<exists>fs. fs \<noteq> [] \<and> list_all csv_ok fs \<and> input = str_join '','' (map csv_text fs) \<and> entries = map csv_value fs"
  then show "docker_mount_csv_fields input = Inr entries"
    unfolding docker_mount_csv_fields_def by (elim exE conjE) (simp add: csv_fields_text)
qed


section \<open>Targets\<close>

text \<open>A normalized path: a slash, and the components between slashes.\<close>

definition plain_component :: "string \<Rightarrow> bool" where
  "plain_component s = (s \<noteq> [] \<and> s \<noteq> ''.'' \<and> s \<noteq> ''..'' \<and> CHR ''/'' \<notin> set s)"

definition normalized_path :: "string \<Rightarrow> bool" where
  "normalized_path p = (\<exists>components. list_all plain_component components \<and>
     p = (if components = [] then ''/'' else ''/'' @ str_join ''/'' components))"

definition safe_target :: "string \<Rightarrow> bool" where
  "safe_target target = (normalized_path target \<and> \<not> is_reserved_decune_target target)"

lemma push_components_plain:
  "list_all plain_component components \<Longrightarrow> \<forall>s\<in>set parts. CHR ''/'' \<notin> set s \<Longrightarrow>
   list_all plain_component (foldl push_component components parts)"
proof (induction parts arbitrary: components)
  case (Cons part parts)
  have "list_all plain_component (push_component components part)"
    using Cons.prems by (auto simp: push_component_def plain_component_def list_all_iff dest: in_set_butlastD)
  with Cons show ?case by simp
qed simp

lemma push_components_id: "list_all plain_component parts \<Longrightarrow> foldl push_component components parts = components @ parts"
  by (induction parts arbitrary: components) (simp_all add: push_component_def plain_component_def)

lemma normalized: "normalized_path (normalize_container_path target)"
proof -
  have "\<forall>s\<in>set (split_on (\<lambda>c. c = CHR ''/'') target). CHR ''/'' \<notin> set s"
    using split_on_pieces [of _ "\<lambda>c. c = CHR ''/''" target] by auto
  from push_components_plain [OF _ this, of "[]"] show ?thesis
    unfolding normalized_path_def normalize_container_path_def Let_def by (intro exI conjI) simp_all
qed

lemma split_plain_components:
  "list_all plain_component components \<Longrightarrow> components \<noteq> [] \<Longrightarrow>
   split_on (\<lambda>c. c = CHR ''/'') (str_join ''/'' components) = components"
proof (induction components rule: induct_list012)
  case (2 s)
  then show ?case by (auto simp: plain_component_def intro!: split_on_none)
next
  case (3 s t components)
  have "\<forall>c\<in>set s. c \<noteq> CHR ''/''" using 3 by (auto simp: plain_component_def)
  then have "split_on (\<lambda>c. c = CHR ''/'') (s @ CHR ''/'' # r) = s # split_on (\<lambda>c. c = CHR ''/'') r" for r
    by (induction s) simp_all
  with 3 show ?case by simp
qed simp

lemma normalized_fixed: "normalized_path p \<Longrightarrow> normalize_container_path p = p"
proof -
  assume "normalized_path p"
  then obtain components where c: "list_all plain_component components"
    "p = (if components = [] then ''/'' else ''/'' @ str_join ''/'' components)" by (auto simp: normalized_path_def)
  have "foldl push_component [] (split_on (\<lambda>c. c = CHR ''/'') p) = components"
    using c push_components_id [OF c(1), of "[]"] split_plain_components [OF c(1)] by (simp add: push_component_def)
  with c(2) show "normalize_container_path p = p" by (simp add: normalize_container_path_def)
qed

text \<open>A normalized container path is a slash or plain components between slashes, and
  normalizing it again changes nothing.\<close>

theorem container_paths_are_normalized_once:
  "normalized_path (normalize_container_path target) \<and>
   normalize_container_path (normalize_container_path target) = normalize_container_path target"
  using normalized normalized_fixed by simp

lemma validate_target_safe: "validate_target target = Inr t \<Longrightarrow> safe_target t"
  using normalized by (auto simp: validate_target_def safe_target_def Let_def split: if_splits)

lemma resolved_mount_target:
  "resolved_mount_spec fs ctx mode mount w = (Inr s, w') \<Longrightarrow> safe_target (dms_target s)"
  by (auto simp: resolved_mount_spec_def io_elims dest: validate_target_safe)

lemma devcontainer_mount_target:
  "devcontainer_mount_spec fs ctx mode mount w = (Inr s, w') \<Longrightarrow> safe_target (dms_target s)"
proof -
  assume ok: "devcontainer_mount_spec fs ctx mode mount w = (Inr s, w')"
  then obtain parsed where parsed: "parse_devcontainer_mount ctx mount = Inr parsed"
    by (auto simp: devcontainer_mount_spec_def io_elims)
  show "safe_target (dms_target s)"
    using ok by (cases "pmt_type parsed") (auto simp: devcontainer_mount_spec_def io_elims parsed dest: validate_target_safe)
qed


section \<open>The list of mounts\<close>

interpretation docker_mounts: keyed_entries same_docker_target dms_target
  by unfold_locales (simp add: same_docker_target_def)

definition yields :: "('a \<Rightarrow> ('w, string, docker_mount_spec) io) \<Rightarrow> 'a \<Rightarrow> docker_mount_spec \<Rightarrow> bool" where
  "yields spec entry s = (\<exists>w w'. spec entry w = (Inr s, w'))"

lemma add_mounts_yields:
  "add_mounts spec mounts entries w = (Inr mounts', w') \<Longrightarrow>
   \<exists>specs. list_all2 (yields spec) entries specs \<and> mounts' = foldl replace_mount_by_target mounts specs"
proof (induction entries arbitrary: mounts w)
  case Nil
  then show ?case by (intro exI [of _ "[]"]) (simp add: add_mounts_def io_elims)
next
  case (Cons e entries)
  then obtain s v where s: "spec e w = (Inr s, v)" "add_mounts spec (replace_mount_by_target mounts s) entries v = (Inr mounts', w')"
    by (auto simp: add_mounts_def io_elims)
  from Cons.IH [OF s(2)] obtain specs where "list_all2 (yields spec) entries specs"
    "mounts' = foldl replace_mount_by_target (replace_mount_by_target mounts s) specs" by blast
  moreover have "yields spec e s" using s(1) by (auto simp: yields_def)
  ultimately show ?case by (intro exI [of _ "s # specs"]) simp
qed

text \<open>The entries that no later entry with the same target replaces.\<close>

definition not_replaced :: "docker_mount_spec list \<Rightarrow> docker_mount_spec \<Rightarrow> bool" where
  "not_replaced specs m = (\<exists>before after. specs = before @ m # after \<and> dms_target m \<notin> dms_target ` set after)"

lemma not_replaced_snoc: "not_replaced (specs @ [s]) m \<longleftrightarrow> m = s \<or> not_replaced specs m \<and> dms_target m \<noteq> dms_target s"
proof
  assume "not_replaced (specs @ [s]) m"
  then obtain before after where "specs @ [s] = before @ m # after" "dms_target m \<notin> dms_target ` set after"
    by (auto simp: not_replaced_def)
  then show "m = s \<or> not_replaced specs m \<and> dms_target m \<noteq> dms_target s"
    by (cases after rule: rev_cases) (auto simp: not_replaced_def)
next
  assume "m = s \<or> not_replaced specs m \<and> dms_target m \<noteq> dms_target s"
  then show "not_replaced (specs @ [s]) m"
  proof
    assume "m = s"
    then show ?thesis unfolding not_replaced_def by (intro exI [of _ specs] exI [of _ "[]"]) simp
  next
    assume "not_replaced specs m \<and> dms_target m \<noteq> dms_target s"
    then obtain before after where "specs = before @ m # after" "dms_target m \<notin> dms_target ` set after"
      "dms_target m \<noteq> dms_target s" by (auto simp: not_replaced_def)
    then show ?thesis unfolding not_replaced_def by (intro exI [of _ before] exI [of _ "after @ [s]"]) auto
  qed
qed

lemma not_replaced_set: "not_replaced specs m \<Longrightarrow> m \<in> set specs"
  unfolding not_replaced_def by (elim exE conjE) simp

lemma set_replaced:
  "distinct (map dms_target ms) \<Longrightarrow>
   m \<in> set (replace_mount_by_target ms s) \<longleftrightarrow> m = s \<or> m \<in> set ms \<and> dms_target m \<noteq> dms_target s"
  unfolding replace_mount_by_target_def by (induction ms) (auto simp: same_docker_target_def image_iff)

lemma replaced_mounts:
  "distinct (map dms_target (foldl replace_mount_by_target [] specs)) \<and>
   (\<forall>m. m \<in> set (foldl replace_mount_by_target [] specs) \<longleftrightarrow> not_replaced specs m)"
proof (induction specs rule: rev_induct)
  case Nil
  show ?case by (simp add: not_replaced_def)
next
  case (snoc s specs)
  let ?ms = "foldl replace_mount_by_target [] specs"
  have distinct: "distinct (map dms_target (replace_mount_by_target ?ms s))"
    by (rule docker_mounts.distinct_put [OF conjunct1 [OF snoc], folded replace_mount_by_target_def])
  have "m \<in> set (replace_mount_by_target ?ms s) \<longleftrightarrow> m = s \<or> m \<in> set ?ms \<and> dms_target m \<noteq> dms_target s" for m
    using set_replaced [OF conjunct1 [OF snoc]] by blast
  then show ?case using distinct snoc by (simp add: not_replaced_snoc del: replace_by_identity.simps)
qed

lemma config_mounts:
  assumes "config_mount_specs fs ctx mode config w = (Inr mounts, w')"
  shows "\<exists>global dev project.
    list_all2 (yields (resolved_mount_spec fs ctx mode))
      (filter (\<lambda>mount. rmo_origin mount = Origin_Global) (rc_mounts config)) global \<and>
    list_all2 (yields (devcontainer_mount_spec fs ctx mode)) (rdc_mounts (rc_devcontainer config)) dev \<and>
    list_all2 (yields (resolved_mount_spec fs ctx mode))
      (filter (\<lambda>mount. rmo_origin mount = Origin_Project) (rc_mounts config)) project \<and>
    mounts = foldl replace_mount_by_target [] (global @ dev @ project)"
proof -
  obtain ms1 w1 ms2 w2 where
    1: "add_mounts (resolved_mount_spec fs ctx mode) [] (filter (\<lambda>mount. rmo_origin mount = Origin_Global) (rc_mounts config)) w =
        (Inr ms1, w1)" and
    2: "add_mounts (devcontainer_mount_spec fs ctx mode) ms1 (rdc_mounts (rc_devcontainer config)) w1 = (Inr ms2, w2)" and
    3: "add_mounts (resolved_mount_spec fs ctx mode) ms2 (filter (\<lambda>mount. rmo_origin mount = Origin_Project) (rc_mounts config)) w2 =
        (Inr mounts, w')"
    using assms by (auto simp: config_mount_specs_def io_elims)
  from add_mounts_yields [OF 1] add_mounts_yields [OF 2] add_mounts_yields [OF 3] show ?thesis
    by (elim exE conjE) (intro exI conjI, auto)
qed

text \<open>The mounts passed to Docker have distinct targets, and they are the last mount of each
  target in the order global file, devcontainer.json, project file.\<close>

theorem docker_mounts_follow_their_last_mention:
  assumes "config_mount_specs fs ctx mode config w = (Inr mounts, w')"
  shows "distinct (map dms_target mounts) \<and>
    (\<exists>global dev project.
      list_all2 (yields (resolved_mount_spec fs ctx mode))
        (filter (\<lambda>mount. rmo_origin mount = Origin_Global) (rc_mounts config)) global \<and>
      list_all2 (yields (devcontainer_mount_spec fs ctx mode)) (rdc_mounts (rc_devcontainer config)) dev \<and>
      list_all2 (yields (resolved_mount_spec fs ctx mode))
        (filter (\<lambda>mount. rmo_origin mount = Origin_Project) (rc_mounts config)) project \<and>
      (\<forall>m. m \<in> set mounts \<longleftrightarrow> not_replaced (global @ dev @ project) m))"
  using config_mounts [OF assms] replaced_mounts by blast

lemma yields_safe:
  "yields (resolved_mount_spec fs ctx mode) e s \<Longrightarrow> safe_target (dms_target s)"
  "yields (devcontainer_mount_spec fs ctx mode) d s \<Longrightarrow> safe_target (dms_target s)"
  by (auto simp: yields_def dest: resolved_mount_target devcontainer_mount_target)

lemma list_all2_set: "list_all2 P xs ys \<Longrightarrow> y \<in> set ys \<Longrightarrow> \<exists>x. P x y"
  by (induction rule: list_all2_induct) auto

text \<open>C23. Every configured mount that is passed to Docker has a normalized absolute target
  that is not below the directories decune reserves for itself; the mounts decune adds of its own
  are not among them.\<close>

theorem mount_targets_are_safe:
  assumes "config_mount_specs fs ctx mode config w = (Inr mounts, w')" "m \<in> set mounts"
  shows "normalized_path (dms_target m) \<and> \<not> is_reserved_decune_target (dms_target m)"
proof -
  from config_mounts [OF assms(1)] obtain global dev project where
    specs: "list_all2 (yields (resolved_mount_spec fs ctx mode))
      (filter (\<lambda>mount. rmo_origin mount = Origin_Global) (rc_mounts config)) global"
    "list_all2 (yields (devcontainer_mount_spec fs ctx mode)) (rdc_mounts (rc_devcontainer config)) dev"
    "list_all2 (yields (resolved_mount_spec fs ctx mode))
      (filter (\<lambda>mount. rmo_origin mount = Origin_Project) (rc_mounts config)) project"
    "mounts = foldl replace_mount_by_target [] (global @ dev @ project)" by (elim exE conjE)
  then have "not_replaced (global @ dev @ project) m" using assms(2) replaced_mounts by blast
  then have "m \<in> set (global @ dev @ project)" by (rule not_replaced_set)
  then consider "m \<in> set global" | "m \<in> set dev" | "m \<in> set project" by auto
  then have "safe_target (dms_target m)"
  proof cases
    case 1
    then show ?thesis using list_all2_set [OF specs(1)] yields_safe(1) by blast
  next
    case 2
    then show ?thesis using list_all2_set [OF specs(2)] yields_safe(2) by blast
  next
    case 3
    then show ?thesis using list_all2_set [OF specs(3)] yields_safe(1) by blast
  qed
  then show ?thesis by (simp add: safe_target_def)
qed


section \<open>Planning without writing\<close>

lemma io_bind_unchanged:
  assumes "\<And>w. snd (m w) = w" "\<And>a w. snd (k a w) = w"
  shows "snd (io_bind m k w) = w"
  using assms by (auto simp: io_bind_def split: prod.splits sum.splits) (metis snd_conv)+

lemma io_simple_unchanged [simp]:
  "snd (io_return a w) = w" "snd (io_fail e w) = w" "snd (io_lift r w) = w" "(\<And>w. snd (m w) = w) \<Longrightarrow> snd (io_map_err f m w) = w"
  by (auto simp: io_defs split: prod.splits) (metis snd_conv)

lemma io_fold_unchanged: "(\<And>s x w. snd (f s x w) = w) \<Longrightarrow> snd (io_fold f s xs w) = w"
  by (induction xs arbitrary: s w) (simp_all add: io_bind_unchanged)

lemma resolve_host_path_unchanged:
  "hp_create options \<noteq> Create_Path_Directory \<Longrightarrow> snd (resolve_checked_host_path fs input options w) = w"
  "hp_create options \<noteq> Create_Path_Directory \<Longrightarrow> snd (resolve_host_path fs input options w) = w"
  "hp_create options \<noteq> Create_Path_Directory \<Longrightarrow> snd (resolve_expanded_host_path fs input options w) = w"
proof -
  assume create: "hp_create options \<noteq> Create_Path_Directory"
  show checked: "snd (resolve_checked_host_path fs input options w) = w" for input w
    unfolding resolve_checked_host_path_def
    by (rule io_bind_unchanged) (use create in \<open>auto split: path_create.splits\<close>)
  show "snd (resolve_host_path fs input options w) = w"
    unfolding resolve_host_path_def by (intro io_bind_unchanged) (simp_all add: checked)
  show "snd (resolve_expanded_host_path fs input options w) = w"
    unfolding resolve_expanded_host_path_def by (intro io_bind_unchanged) (simp_all add: checked)
qed

lemma read_only_create [simp]:
  "path_create_of c Read_Only_Paths \<noteq> Create_Path_Directory" "bind_path_create o' Read_Only_Paths \<noteq> Create_Path_Directory"
  by (cases c rule: option.exhaust; cases "the c"; simp) (simp add: bind_path_create_def split: option.split)

lemma mount_specs_unchanged:
  "snd (resolved_mount_spec fs ctx Read_Only_Paths mount w) = w"
  "snd (devcontainer_mount_spec fs ctx Read_Only_Paths dmount w) = w"
proof -
  show "snd (resolved_mount_spec fs ctx Read_Only_Paths mount w) = w"
    unfolding resolved_mount_spec_def
    by (intro io_bind_unchanged)
       (auto simp: host_options_def intro!: io_bind_unchanged io_simple_unchanged resolve_host_path_unchanged
         split: mount_type.splits option.splits)
  show "snd (devcontainer_mount_spec fs ctx Read_Only_Paths dmount w) = w"
    unfolding devcontainer_mount_spec_def
    by (intro io_bind_unchanged)
       (auto simp: host_options_def intro!: io_bind_unchanged io_simple_unchanged resolve_host_path_unchanged
         split: mount_type.splits)
qed

text \<open>Planning the mounts without creating host paths leaves the world as it is, whether it
  succeeds or fails.\<close>

theorem read_only_planning_writes_nothing:
  "snd (config_mount_specs fs ctx Read_Only_Paths config w) = w"
  unfolding config_mount_specs_def add_mounts_def
  by (intro io_bind_unchanged io_fold_unchanged) (simp_all add: mount_specs_unchanged)

definition mount_ctx :: mount_context where
  "mount_ctx = \<lparr>mc_workspace_root = ''/w'', mc_variables = example_context, mc_local_env = (\<lambda>_. Inr None),
     mc_home_dir = None\<rparr>"

definition volume_mount :: "string \<Rightarrow> resolved_mount" where
  "volume_mount source = \<lparr>rmo_source = Some source, rmo_target = ''/data/./x'', rmo_type = Volume_Mount, rmo_read_only = True,
     rmo_resolve_symlink = True, rmo_create = None, rmo_origin = Origin_Global\<rparr>"

definition mounts_config :: resolved_config where
  "mounts_config = (resolve_config example_layers)\<lparr>rc_mounts := [volume_mount ''a'', volume_mount ''b''],
     rc_devcontainer := (rc_devcontainer (resolve_config example_layers))\<lparr>rdc_mounts := []\<rparr>\<rparr>"

definition volume_spec :: "string \<Rightarrow> docker_mount_spec" where
  "volume_spec source = \<lparr>dms_source = Some source, dms_target = ''/data/x'', dms_type = Volume_Mount, dms_read_only = True,
     dms_consistency = None, dms_bind_options = None, dms_volume_options = None\<rparr>"

lemma volume_mount_spec:
  assumes "source \<in> {''a'', ''b''}"
  shows "resolved_mount_spec small_fs mount_ctx Materialize (volume_mount source) w = (Inr (volume_spec source), w)"
  using assms
  by (elim insertE emptyE)
     (simp_all add: resolved_mount_spec_def volume_mount_def expand_context_def mount_ctx_def expand_variables_with_def
       expand_loop.simps split_variable_expression_def io_defs validate_target_def normalize_container_path_def
       push_component_def is_reserved_decune_target_def reserved_targets_def starts_with_def volume_spec_def)

lemma mounts_config_specs:
  "config_mount_specs small_fs mount_ctx Materialize mounts_config False = (Inr [volume_spec ''b''], False)"
  by (simp add: config_mount_specs_def add_mounts_def mounts_config_def io_bind_def io_return_def volume_mount_spec
      replace_mount_by_target_def same_docker_target_def)
     (simp add: volume_mount_def volume_spec_def)

theorem docker_mounts_follow_their_last_mention_witness: "distinct (map dms_target [volume_spec ''b''])"
  by (rule conjunct1 [OF docker_mounts_follow_their_last_mention [OF mounts_config_specs]])

theorem mount_targets_are_safe_witness: "normalized_path ''/data/x'' \<and> \<not> is_reserved_decune_target ''/data/x''"
  using mount_targets_are_safe [OF mounts_config_specs, of "volume_spec ''b''"] by (simp add: volume_spec_def)

end
