(* ===== verification/Jsonc.thy ===== *)
theory Jsonc
  imports Utf8 Compose_Model
begin

text \<open>
  Reading a \<open>devcontainer.json\<close>, \<open>src/devcontainer/json.rs\<close>: JSON with comments and trailing
  commas becomes JSON by replacing them with blanks, byte by byte, so that the positions in the
  errors of the JSON parser are those of the file; and the file is searched for in a fixed order.
  The loops of the source over an index are recursions over the bytes that are left. Parameters:
  the JSON parser, the text of a UTF-8 error, and what the file system answers.
\<close>

section \<open>The normalizer\<close>

definition quote :: char where
  "quote = CHR 0x22"

definition backslash :: char where
  "backslash = CHR 0x5C"

definition is_line_ending :: "char \<Rightarrow> bool" where
  "is_line_ending c = (c = CHR 0x0A \<or> c = CHR 0x0D)"

definition is_ascii_whitespace :: "char \<Rightarrow> bool" where
  "is_ascii_whitespace c = (c \<in> {CHR 0x20, CHR 0x09, CHR 0x0A, CHR 0x0C, CHR 0x0D})"

definition is_json_value_end :: "char \<Rightarrow> bool" where
  "is_json_value_end c =
     (c \<in> {quote, CHR '']'', CHR ''}'', CHR ''e'', CHR ''E'', CHR ''l''} \<or> is_ascii_digit c)"

text \<open>The loop of \<open>copy_string\<close> behind the opening quote: what is copied and what is left.\<close>

fun copy_string :: "string \<Rightarrow> string \<times> string" where
  "copy_string [] = ([], [])"
| "copy_string (c # cs) =
     (if c = backslash
      then (case cs of
              [] \<Rightarrow> ([c], [])
            | d # ds \<Rightarrow> (c # d # fst (copy_string ds), snd (copy_string ds)))
      else if c = quote then ([c], cs)
      else (c # fst (copy_string cs), snd (copy_string cs)))"

definition blank_byte :: "char \<Rightarrow> char" where
  "blank_byte c = (if is_line_ending c then c else CHR '' '')"

fun blank_line :: "string \<Rightarrow> string \<times> string" where
  "blank_line [] = ([], [])"
| "blank_line (c # cs) =
     (if is_line_ending c then ([blank_byte c], cs)
      else (blank_byte c # fst (blank_line cs), snd (blank_line cs)))"

fun blank_block :: "string \<Rightarrow> (string \<times> string) option" where
  "blank_block [] = None"
| "blank_block (c # cs) =
     (if c = CHR ''*'' \<and> starts_with ''/'' cs then Some (''  '', tl cs)
      else map_option (\<lambda>(out, rest). (blank_byte c # out, rest)) (blank_block cs))"

text \<open>Characters are counted by their first bytes.\<close>

fun count_position :: "nat \<times> nat \<Rightarrow> char \<Rightarrow> nat \<times> nat" where
  "count_position (line, column) c =
     (if is_continuation c then (line, column)
      else if c = CHR 0x0A then (line + 1, 1)
      else (line, column + 1))"

definition line_column :: "string \<Rightarrow> nat \<Rightarrow> nat \<times> nat" where
  "line_column contents byte_index = foldl count_position (1, 1) (take byte_index contents)"

definition unterminated_comment :: "string \<Rightarrow> nat \<Rightarrow> string" where
  "unterminated_comment contents comment_start =
     (case line_column contents comment_start of (line, column) \<Rightarrow>
        fmt [''Unterminated block comment in devcontainer metadata at line '', show_nat line,
          '' column '', show_nat column])"

lemma copy_string_splits: "fst (copy_string s) @ snd (copy_string s) = s"
proof (induction s rule: copy_string.induct)
  case (2 c cs)
  then show ?case by (cases "c = backslash"; cases "c = quote"; cases cs) simp_all
qed simp

lemma copy_string_shorter: "length (snd (copy_string s)) \<le> length s"
  using arg_cong [OF copy_string_splits [of s], of length] by simp

lemma blank_line_shorter: "length (snd (blank_line s)) \<le> length s"
  by (induction s) auto

lemma blank_block_shorter: "blank_block s = Some (out, rest) \<Longrightarrow> length rest < length s"
  by (induction s arbitrary: out) (auto split: if_splits dest: le_imp_less_Suc intro: less_SucI)

function strip_from :: "string \<Rightarrow> string \<Rightarrow> string result" where
  "strip_from contents [] = Inr []"
| "strip_from contents (b # rest) =
     (if b = quote
      then bind_res (strip_from contents (snd (copy_string rest))) (\<lambda>out.
             Inr (b # fst (copy_string rest) @ out))
      else if b = CHR ''/'' \<and> starts_with ''/'' rest
      then bind_res (strip_from contents (snd (blank_line (tl rest)))) (\<lambda>out.
             Inr (''  '' @ fst (blank_line (tl rest)) @ out))
      else if b = CHR ''/'' \<and> starts_with ''*'' rest
      then (case blank_block (tl rest) of
              None \<Rightarrow> Inl (unterminated_comment contents (length contents - length (b # rest)))
            | Some (blanks, rest') \<Rightarrow>
                bind_res (strip_from contents rest') (\<lambda>out. Inr (''  '' @ blanks @ out)))
      else bind_res (strip_from contents rest) (\<lambda>out. Inr (b # out)))"
  by pat_completeness auto
termination
proof (relation "measure (\<lambda>(contents, s). length s)")
  fix b :: char and rest contents :: string
  show "((contents, snd (copy_string rest)), (contents, b # rest)) \<in> measure (\<lambda>(contents, s). length s)"
    using copy_string_shorter [of rest] by simp
  show "((contents, snd (blank_line (tl rest))), (contents, b # rest)) \<in> measure (\<lambda>(contents, s). length s)"
    using blank_line_shorter [of "tl rest"] by (simp add: diff_le_self le_imp_less_Suc le_trans)
  fix x blanks rest'
  assume "blank_block (tl rest) = Some x" "(blanks, rest') = x"
  then show "((contents, rest'), (contents, b # rest)) \<in> measure (\<lambda>(contents, s). length s)"
    using blank_block_shorter [of "tl rest" blanks rest'] by simp
qed simp_all

definition strip_jsonc_comments :: "(string \<Rightarrow> string) \<Rightarrow> string \<Rightarrow> string result" where
  "strip_jsonc_comments utf8_error contents =
     bind_res (strip_from contents contents) (from_utf8 utf8_error)"

definition next_non_whitespace :: "string \<Rightarrow> char option" where
  "next_non_whitespace = List.find (\<lambda>c. \<not> is_ascii_whitespace c)"

text \<open>The bytes before the current one are kept in reverse order.\<close>

definition is_trailing_comma :: "string \<Rightarrow> string \<Rightarrow> bool" where
  "is_trailing_comma before rest =
     ((case next_non_whitespace rest of Some c \<Rightarrow> c \<in> {CHR '']'', CHR ''}''} | None \<Rightarrow> False) \<and>
      (case next_non_whitespace before of Some c \<Rightarrow> is_json_value_end c | None \<Rightarrow> False))"

function remove_from :: "string \<Rightarrow> string \<Rightarrow> string" where
  "remove_from before [] = []"
| "remove_from before (b # rest) =
     (if b = quote
      then b # fst (copy_string rest) @
           remove_from (rev (fst (copy_string rest)) @ b # before) (snd (copy_string rest))
      else if b = CHR '','' \<and> is_trailing_comma before rest
      then CHR '' '' # remove_from (b # before) rest
      else b # remove_from (b # before) rest)"
  by pat_completeness auto
termination
  by (relation "measure (\<lambda>(before, s). length s)") (simp_all add: copy_string_shorter le_imp_less_Suc)

definition remove_trailing_commas :: "(string \<Rightarrow> string) \<Rightarrow> string \<Rightarrow> string result" where
  "remove_trailing_commas utf8_error contents = from_utf8 utf8_error (remove_from [] contents)"

definition normalize_jsonc :: "(string \<Rightarrow> string) \<Rightarrow> string \<Rightarrow> string result" where
  "normalize_jsonc utf8_error contents =
     bind_res (strip_jsonc_comments utf8_error contents) (remove_trailing_commas utf8_error)"

definition parse_str ::
  "(string \<Rightarrow> string) \<Rightarrow> (string \<Rightarrow> json result) \<Rightarrow> string \<Rightarrow> json result" where
  "parse_str utf8_error parse_json contents =
     bind_res (normalize_jsonc utf8_error contents) parse_json"

section \<open>The pieces of a document\<close>

datatype piece = Plain char | Quoted string | Line_Comment string | Block_Comment string

fun piece_text :: "piece \<Rightarrow> string" where
  "piece_text (Plain c) = [c]"
| "piece_text (Quoted s) = quote # s"
| "piece_text (Line_Comment b) = ''//'' @ b"
| "piece_text (Block_Comment b) = ''/*'' @ b @ ''*/''"

fun piece_blanked :: "piece \<Rightarrow> string" where
  "piece_blanked (Plain c) = [c]"
| "piece_blanked (Quoted s) = quote # s"
| "piece_blanked (Line_Comment b) = ''  '' @ map blank_byte b"
| "piece_blanked (Block_Comment b) = ''  '' @ map blank_byte b @ ''  ''"

abbreviation document :: "piece list \<Rightarrow> string" where
  "document ps \<equiv> concat (map piece_text ps)"

abbreviation blanked :: "piece list \<Rightarrow> string" where
  "blanked ps \<equiv> concat (map piece_blanked ps)"

text \<open>A literal behind its opening quote: up to the first quote that is not escaped, or without one.\<close>

fun closed_literal :: "string \<Rightarrow> bool" where
  "closed_literal [] = False"
| "closed_literal (c # cs) =
     (if c = backslash then cs \<noteq> [] \<and> closed_literal (tl cs) else if c = quote then cs = [] else closed_literal cs)"

fun open_literal :: "string \<Rightarrow> bool" where
  "open_literal [] = True"
| "open_literal (c # cs) = (if c = backslash then open_literal (tl cs) else c \<noteq> quote \<and> open_literal cs)"

fun piece_ok :: "piece \<Rightarrow> string \<Rightarrow> bool" where
  "piece_ok (Plain c) rest =
     (c \<noteq> quote \<and> (c = CHR ''/'' \<longrightarrow> \<not> starts_with ''/'' rest \<and> \<not> starts_with ''*'' rest))"
| "piece_ok (Quoted s) rest = (closed_literal s \<or> open_literal s \<and> rest = [])"
| "piece_ok (Line_Comment b) rest =
     ((\<forall>c\<in>set b. \<not> is_line_ending c) \<and> (rest = [] \<or> is_line_ending (hd rest)))"
| "piece_ok (Block_Comment b) rest = (\<not> str_contains ''*/'' b)"

fun pieces_ok :: "piece list \<Rightarrow> string \<Rightarrow> bool" where
  "pieces_ok [] rest = True"
| "pieces_ok (p # ps) rest = (piece_ok p (document ps @ rest) \<and> pieces_ok ps rest)"

lemma starts_with_char [simp]: "starts_with [c] s \<longleftrightarrow> s \<noteq> [] \<and> hd s = c"
  by (cases s) (auto simp: starts_with_def)

lemma special_bytes [simp]:
  "CHR ''/'' \<noteq> quote" "CHR ''*'' \<noteq> quote" "CHR '' '' \<noteq> quote" "CHR '','' \<noteq> quote" "quote \<noteq> backslash"
  "quote \<noteq> CHR ''/''" "quote \<noteq> CHR '',''"
  by (simp_all add: quote_def backslash_def)

lemma copy_closed: "closed_literal s \<Longrightarrow> copy_string (s @ rest) = (s, rest)"
proof (induction s rule: closed_literal.induct)
  case (2 c cs)
  then show ?case by (cases "c = backslash"; cases "c = quote"; cases cs) simp_all
qed simp

lemma copy_open: "open_literal s \<Longrightarrow> copy_string s = (s, [])"
proof (induction s rule: open_literal.induct)
  case (2 c cs)
  then show ?case by (cases "c = backslash"; cases "c = quote"; cases cs) simp_all
qed simp

lemma copy_string_literal:
  "closed_literal (fst (copy_string s)) \<or> open_literal (fst (copy_string s)) \<and> snd (copy_string s) = []"
proof (induction s rule: copy_string.induct)
  case (2 c cs)
  then show ?case by (cases "c = backslash"; cases "c = quote"; cases cs) auto
qed simp

lemma copy_quoted: "piece_ok (Quoted s) rest \<Longrightarrow> copy_string (s @ rest) = (s, rest)"
  using copy_closed copy_open by auto

lemma line_ending_simps [simp]:
  "is_line_ending c \<Longrightarrow> blank_byte c = c" "\<not> is_line_ending quote" "\<not> is_line_ending (CHR ''/'')"
  by (simp_all add: blank_byte_def is_line_ending_def quote_def)

lemma blank_line_comment:
  "piece_ok (Line_Comment b) rest \<Longrightarrow>
   blank_line (b @ rest) = (map blank_byte b @ take 1 rest, tl rest)"
  by (induction b) (cases rest; simp)+

lemma star_slash: "str_contains ''*/'' (c # s) \<longleftrightarrow> c = CHR ''*'' \<and> starts_with ''/'' s \<or> str_contains ''*/'' s"
  by (cases s) (auto simp: str_contains_def starts_with_def split: option.splits)

lemma blank_block_comment:
  "\<not> str_contains ''*/'' b \<Longrightarrow> blank_block (b @ ''*/'' @ rest) = Some (map blank_byte b @ ''  '', rest)"
proof (induction b)
  case (Cons c b)
  then have "\<not> (c = CHR ''*'' \<and> starts_with ''/'' (b @ ''*/'' @ rest))" by (cases b) (auto simp: star_slash)
  with Cons show ?case by (simp add: star_slash)
qed simp

lemma blank_block_cases:
  "case blank_block s of
     None \<Rightarrow> \<not> str_contains ''*/'' s
   | Some (out, rest) \<Rightarrow> \<exists>b. s = b @ ''*/'' @ rest \<and> \<not> str_contains ''*/'' b"
proof (induction s)
  case Nil
  show ?case by (simp add: str_contains_def)
next
  case (Cons c s)
  show ?case
  proof (cases "c = CHR ''*'' \<and> starts_with ''/'' s")
    case True
    then show ?thesis by (cases s) (auto intro!: exI [of _ "[]"] simp: str_contains_def)
  next
    case False
    show ?thesis
    proof (cases "blank_block s")
      case (Some r)
      with Cons False obtain b where "s = b @ ''*/'' @ snd r" "\<not> str_contains ''*/'' b" by (cases r) auto
      with False have "c # s = (c # b) @ ''*/'' @ snd r" "\<not> str_contains ''*/'' (c # b)" by (cases b; auto simp: star_slash)+
      moreover have "blank_block (c # s) = Some (blank_byte c # fst r, snd r)" using Some False by (cases r) auto
      ultimately show ?thesis by (simp only: option.case prod.case) blast
    qed (use Cons False in \<open>auto simp: star_slash\<close>)
  qed
qed

lemma strip_piece:
  assumes "piece_ok p rest"
  shows "strip_from contents (piece_text p @ rest) = bind_res (strip_from contents rest) (\<lambda>out. Inr (piece_blanked p @ out))"
proof (cases p)
  case (Plain c)
  have c: "c \<noteq> quote" "\<not> (c = CHR ''/'' \<and> starts_with ''/'' rest)" "\<not> (c = CHR ''/'' \<and> starts_with ''*'' rest)"
    using assms Plain by auto
  show ?thesis
    unfolding Plain piece_text.simps append_Cons append_Nil strip_from.simps if_not_P [OF c(1)] if_not_P [OF c(2)]
      if_not_P [OF c(3)] by simp
next
  case (Quoted s)
  with assms copy_quoted [of s rest] show ?thesis by simp
next
  case (Line_Comment b)
  have b: "blank_line (b @ rest) = (map blank_byte b @ take 1 rest, tl rest)"
    using assms Line_Comment by (intro blank_line_comment) simp
  show ?thesis
  proof (cases rest)
    case (Cons c r)
    with assms Line_Comment have c: "c \<noteq> quote" "c \<noteq> CHR ''/''" by auto
    show ?thesis using b by (cases "strip_from contents r") (simp_all add: Line_Comment Cons c)
  qed (use b Line_Comment in simp)
next
  case (Block_Comment b)
  with assms blank_block_comment [of b rest] show ?thesis by (simp add: quote_def)
qed

lemma strip_pieces:
  "pieces_ok ps rest \<Longrightarrow>
   strip_from contents (document ps @ rest) = bind_res (strip_from contents rest) (\<lambda>out. Inr (blanked ps @ out))"
proof (induction ps)
  case Nil
  show ?case by (cases "strip_from contents rest") simp_all
next
  case (Cons p ps)
  then show ?case using strip_piece [of p "document ps @ rest" contents]
    by (cases "strip_from contents rest") simp_all
qed

definition open_comment :: "string \<Rightarrow> bool" where
  "open_comment s = (\<exists>b. s = ''/*'' @ b \<and> \<not> str_contains ''*/'' b)"

lemma first_piece:
  assumes "s \<noteq> []"
  shows "open_comment s \<or> (\<exists>p rest. s = piece_text p @ rest \<and> piece_ok p rest \<and> length rest < length s)"
proof (cases s)
  case (Cons b r)
  consider (quoted) "b = quote" | (line) "b = CHR ''/''" "starts_with ''/'' r" | (block) "b = CHR ''/''" "starts_with ''*'' r"
    | (plain) "b \<noteq> quote" "b = CHR ''/'' \<longrightarrow> \<not> starts_with ''/'' r \<and> \<not> starts_with ''*'' r" by blast
  then show ?thesis
  proof cases
    case quoted
    have "s = piece_text (Quoted (fst (copy_string r))) @ snd (copy_string r)"
      using Cons quoted copy_string_splits [of r] by simp
    moreover have "piece_ok (Quoted (fst (copy_string r))) (snd (copy_string r))" using copy_string_literal by simp
    moreover have "length (snd (copy_string r)) < length s" using Cons copy_string_shorter [of r] by simp
    ultimately show ?thesis by blast
  next
    case line
    define t where "t = tl r"
    let ?b = "takeWhile (\<lambda>c. \<not> is_line_ending c) t" and ?r = "dropWhile (\<lambda>c. \<not> is_line_ending c) t"
    have "s = piece_text (Line_Comment ?b) @ ?r" using Cons line by (cases r) (auto simp: t_def)
    moreover have "piece_ok (Line_Comment ?b) ?r"
      using hd_dropWhile [of "\<lambda>c. \<not> is_line_ending c" t] by (auto dest: set_takeWhileD)
    moreover have "length ?r < length s" using length_dropWhile_le [of "\<lambda>c. \<not> is_line_ending c" t] Cons by (simp add: t_def)
    ultimately show ?thesis by blast
  next
    case block
    then have s: "s = ''/*'' @ tl r" using Cons by (cases r) auto
    show ?thesis
    proof (cases "blank_block (tl r)")
      case None
      with blank_block_cases [of "tl r"] s show ?thesis by (auto simp: open_comment_def)
    next
      case (Some x)
      with blank_block_cases [of "tl r"] obtain b where "tl r = b @ ''*/'' @ snd x" "\<not> str_contains ''*/'' b" by (cases x) auto
      with s have "s = piece_text (Block_Comment b) @ snd x" "piece_ok (Block_Comment b) (snd x)" "length (snd x) < length s" by auto
      then show ?thesis by blast
    qed
  next
    case plain
    then have "s = piece_text (Plain b) @ r" "piece_ok (Plain b) r" "length r < length s" using Cons by auto
    then show ?thesis by blast
  qed
qed (use assms in simp)

lemma pieces_exist: "\<exists>ps rest. s = document ps @ rest \<and> pieces_ok ps rest \<and> (rest = [] \<or> open_comment rest)"
proof (induction s rule: length_induct)
  case (1 s)
  show ?case
  proof (cases "s = [] \<or> open_comment s")
    case True
    then show ?thesis by (intro exI [of _ "[]"] exI [of _ s]) simp
  next
    case False
    with first_piece [of s] obtain p r where p: "s = piece_text p @ r" "piece_ok p r" "length r < length s" by blast
    with 1 obtain ps rest where "r = document ps @ rest" "pieces_ok ps rest" "rest = [] \<or> open_comment rest" by blast
    with p show ?thesis by (intro exI [of _ "p # ps"] exI [of _ rest]) simp
  qed
qed


section \<open>The normalized document\<close>

text \<open>What becomes of the pieces: comments are blank, a trailing comma is a blank, and everything
  else stays. The text before a piece is in reverse order.\<close>

fun normalized :: "string \<Rightarrow> piece list \<Rightarrow> string" where
  "normalized before [] = []"
| "normalized before (p # ps) =
     (if p = Plain (CHR '','') \<and> is_trailing_comma before (blanked ps) then '' '' else piece_blanked p) @
     normalized (rev (piece_blanked p) @ before) ps"

lemma remove_from_blanks:
  "\<forall>c\<in>set b. c \<noteq> quote \<and> c \<noteq> CHR '','' \<Longrightarrow> remove_from before (b @ s) = b @ remove_from (rev b @ before) s"
  by (induction b arbitrary: before) simp_all

lemma blank_bytes: "c \<in> set (map blank_byte b) \<Longrightarrow> c \<noteq> quote \<and> c \<noteq> CHR '','' \<and> is_ascii c"
  by (auto simp: blank_byte_def is_line_ending_def quote_def is_ascii_def byte_def)

lemma ascii_bytes [simp]:
  "is_ascii (CHR ''/'')" "is_ascii (CHR '' '')" "is_ascii (CHR ''*'')" "is_ascii (CHR '','')" "is_ascii quote"
  "is_line_ending c \<Longrightarrow> is_ascii c"
  by (auto simp: is_ascii_def byte_def quote_def is_line_ending_def)

lemma document_Nil: "document ps = [] \<longleftrightarrow> ps = []"
proof (cases ps)
  case (Cons p qs)
  then show ?thesis by (cases p) simp_all
qed simp

lemma remove_from_pieces: "pieces_ok ps [] \<Longrightarrow> remove_from before (blanked ps) = normalized before ps"
proof (induction ps arbitrary: before)
  case (Cons p ps)
  then have IH: "remove_from before (blanked ps) = normalized before ps" for before by simp
  show ?case
  proof (cases p)
    case (Plain c)
    with Cons.prems show ?thesis by (simp add: IH)
  next
    case (Quoted s)
    have "piece_ok (Quoted s) (blanked ps)" using Cons.prems Quoted document_Nil [of ps] by (auto simp del: concat_eq_Nil_conv)
    from copy_quoted [OF this] show ?thesis by (simp add: Quoted IH)
  next
    case (Line_Comment b)
    have "\<forall>c\<in>set (piece_blanked p). c \<noteq> quote \<and> c \<noteq> CHR '',''"
      using blank_bytes [of _ b] by (auto simp: Line_Comment quote_def)
    from remove_from_blanks [OF this] show ?thesis by (simp add: Line_Comment IH)
  next
    case (Block_Comment b)
    have "\<forall>c\<in>set (piece_blanked p). c \<noteq> quote \<and> c \<noteq> CHR '',''"
      using blank_bytes [of _ b] by (auto simp: Block_Comment quote_def)
    from remove_from_blanks [OF this] show ?thesis by (simp add: Block_Comment IH)
  qed
qed simp

lemma utf8_ok_blanked:
  "utf8_ok (before @ document ps) \<Longrightarrow> pieces_ok ps [] \<Longrightarrow> utf8_ok (before @ blanked ps)"
proof (induction ps arbitrary: before)
  case (Cons p ps)
  have IH: "utf8_ok (a @ blanked ps)" if "utf8_ok (a @ document ps)" for a
    using Cons.IH [OF that] Cons.prems(2) by simp
  have comment: "utf8_ok (before @ piece_blanked p @ blanked ps)"
    if p: "utf8_ok before" "utf8_ok (document ps)" "\<forall>c\<in>set (piece_blanked p). is_ascii c"
    using p(1) utf8_ok_append [OF utf8_ok_ascii [OF p(3)] IH [of "[]"]] p(2) by (simp add: utf8_ok_append)
  show ?case
  proof (cases p)
    case (Plain c)
    with Cons.prems IH [of "before @ [c]"] show ?thesis by simp
  next
    case (Quoted s)
    with Cons.prems IH [of "before @ quote # s"] show ?thesis by simp
  next
    case (Line_Comment b)
    have p: "utf8_ok (before @ CHR ''/'' # CHR ''/'' # b @ document ps)" using Cons.prems(1) Line_Comment by simp
    from utf8_ok_split [OF p] have before: "utf8_ok before" "utf8_ok (b @ document ps)" by simp_all
    have "utf8_ok (document ps)"
    proof (cases "document ps")
      case (Cons c r)
      with Cons.prems(2) Line_Comment have "is_ascii c" by auto
      with utf8_ok_split [of b c r] before(2) Cons show ?thesis by simp
    qed (simp del: concat_eq_Nil_conv)
    moreover have "\<forall>c\<in>set (piece_blanked p). is_ascii c" using blank_bytes [of _ b] by (auto simp: Line_Comment)
    ultimately show ?thesis using comment before(1) by simp
  next
    case (Block_Comment b)
    have p: "utf8_ok (before @ CHR ''/'' # CHR ''*'' # b @ CHR ''*'' # CHR ''/'' # document ps)"
      using Cons.prems(1) Block_Comment by simp
    from utf8_ok_split [OF p] have before: "utf8_ok before" "utf8_ok (b @ CHR ''*'' # CHR ''/'' # document ps)" by simp_all
    from utf8_ok_split [OF before(2)] have "utf8_ok (document ps)" by simp
    moreover have "\<forall>c\<in>set (piece_blanked p). is_ascii c" using blank_bytes [of _ b] by (auto simp: Block_Comment)
    ultimately show ?thesis using comment before(1) by simp
  qed
qed simp

lemma utf8_ok_remove: "utf8_ok (acc @ s) \<Longrightarrow> utf8_ok (acc @ remove_from before s)"
proof (induction before s arbitrary: acc rule: remove_from.induct)
  case (2 before b rest)
  consider (quoted) "b = quote" | (comma) "b \<noteq> quote" "b = CHR '',''" "is_trailing_comma before rest"
    | (plain) "b \<noteq> quote" "\<not> (b = CHR '','' \<and> is_trailing_comma before rest)" by blast
  then show ?case
  proof cases
    case quoted
    with "2.IH"(1) [OF quoted, of "acc @ b # fst (copy_string rest)"] "2.prems" copy_string_splits [of rest]
    show ?thesis by simp
  next
    case comma
    have "utf8_ok acc" "utf8_ok rest"
      using "2.prems" comma utf8_ok_split [of acc "CHR '',''" rest] by simp_all
    then have "utf8_ok ((acc @ '' '') @ rest)" by (simp add: utf8_ok_append)
    then show ?thesis using "2.IH"(2) [of "acc @ '' ''"] comma by simp
  next
    case plain
    with "2.IH"(3) [OF plain(1), of "acc @ [b]"] "2.prems" show ?thesis by auto
  qed
qed simp

lemma normalize_pieces:
  assumes "utf8_ok contents" "contents = document ps" "pieces_ok ps []"
  shows "normalize_jsonc utf8_error contents = Inr (normalized [] ps)"
proof -
  have "strip_from contents contents = Inr (blanked ps)" using strip_pieces [OF assms(3), of contents] assms(2) by simp
  moreover have blanked: "utf8_ok (blanked ps)" using utf8_ok_blanked [of "[]" ps] assms by simp
  moreover have "utf8_ok (normalized [] ps)"
    using utf8_ok_remove [of "[]" "blanked ps" "[]"] blanked remove_from_pieces [OF assms(3)] by simp
  ultimately show ?thesis
    by (simp add: normalize_jsonc_def strip_jsonc_comments_def remove_trailing_commas_def from_utf8_def
        remove_from_pieces [OF assms(3)])
qed

lemma strip_open_comment:
  assumes "open_comment s"
  shows "strip_from contents s = Inl (unterminated_comment contents (length contents - length s))"
proof -
  obtain b where b: "s = ''/*'' @ b" "\<not> str_contains ''*/'' b" using assms by (auto simp: open_comment_def)
  have "blank_block b = None"
  proof (rule ccontr)
    assume "blank_block b \<noteq> None"
    with blank_block_cases [of b] obtain b' r where "b = b' @ ''*/'' @ r" by auto
    with b(2) show False by (auto simp: str_contains_iff)
  qed
  then show ?thesis by (simp add: b(1) quote_def)
qed

lemma normalize_open_comment:
  assumes "contents = document ps @ rest" "pieces_ok ps rest" "open_comment rest"
  shows "normalize_jsonc utf8_error contents = Inl (unterminated_comment contents (length (document ps)))"
  using strip_pieces [OF assms(2), of contents] strip_open_comment [OF assms(3), of contents] assms(1)
  by (simp add: normalize_jsonc_def strip_jsonc_comments_def)

text \<open>C22. A UTF-8 document is normalized exactly piece by piece: comments become blanks, a
  comma after a value and before a closing bracket becomes a blank, literals and all else
  stay.\<close>

theorem normalized_document_is_piecewise:
  assumes "utf8_ok contents"
  shows "normalize_jsonc utf8_error contents = Inr out \<longleftrightarrow>
    (\<exists>ps. contents = concat (map piece_text ps) \<and> pieces_ok ps [] \<and> out = normalized [] ps)"
proof
  assume ok: "normalize_jsonc utf8_error contents = Inr out"
  obtain ps rest where ps: "contents = document ps @ rest" "pieces_ok ps rest" "rest = [] \<or> open_comment rest"
    using pieces_exist [of contents] by blast
  have "rest = []" using ps(3) normalize_open_comment [OF ps(1,2), of utf8_error] ok by auto
  with ps normalize_pieces [OF assms, of ps utf8_error] ok
  show "\<exists>ps. contents = concat (map piece_text ps) \<and> pieces_ok ps [] \<and> out = normalized [] ps" by auto
next
  assume "\<exists>ps. contents = concat (map piece_text ps) \<and> pieces_ok ps [] \<and> out = normalized [] ps"
  then show "normalize_jsonc utf8_error contents = Inr out" using normalize_pieces [OF assms] by blast
qed

theorem normalized_document_is_piecewise_witness:
  "normalize_jsonc id (''[1,]//x'') = Inr (''[1 ]   '')"
proof -
  let ?ps = "[Plain (CHR ''[''), Plain (CHR ''1''), Plain (CHR '',''), Plain (CHR '']''), Line_Comment ''x'']"
  have ok: "utf8_ok ''[1,]//x''" by (rule utf8_ok_ascii) (simp add: is_ascii_def byte_def)
  have "pieces_ok ?ps []" "''[1,]//x'' = concat (map piece_text ?ps)" "''[1 ]   '' = normalized [] ?ps"
    by (simp_all add: quote_def is_line_ending_def blank_byte_def is_trailing_comma_def next_non_whitespace_def
        is_ascii_whitespace_def is_json_value_end_def is_ascii_digit_def)
  then show ?thesis
    by (intro iffD2 [OF normalized_document_is_piecewise [OF ok]] exI [of _ ?ps] conjI)
qed

definition blanked_from :: "char \<Rightarrow> char \<Rightarrow> bool" where
  "blanked_from c d = (d = c \<or> d = CHR '' '' \<and> \<not> is_line_ending c)"

lemma blanked_from_same [simp]: "list_all2 blanked_from s s"
  by (simp add: list_all2_same blanked_from_def)

lemma blanked_from_blanks: "list_all2 blanked_from b (map blank_byte b)"
  by (simp add: list_all2_conv_all_nth blanked_from_def blank_byte_def)

lemma blanked_from_piece: "list_all2 blanked_from (piece_text p) (piece_blanked p)"
  by (cases p) (auto simp: blanked_from_blanks blanked_from_def is_line_ending_def intro!: list_all2_appendI)

lemma normalized_positions: "list_all2 blanked_from (document ps) (normalized before ps)"
proof (induction ps arbitrary: before)
  case (Cons p ps)
  have "list_all2 blanked_from (piece_text p)
      (if p = Plain (CHR '','') \<and> is_trailing_comma before (blanked ps) then '' '' else piece_blanked p)"
    using blanked_from_piece [of p] by (auto simp: blanked_from_def is_line_ending_def)
  then show ?case using Cons.IH by (simp add: list_all2_appendI)
qed simp

lemma normalize_cases:
  assumes "utf8_ok contents"
  obtains (document) ps where "contents = document ps" "pieces_ok ps []"
      "\<And>e. normalize_jsonc e contents = Inr (normalized [] ps)"
    | (open_comment) ps rest where "contents = document ps @ rest" "pieces_ok ps rest" "open_comment rest"
      "\<And>e. normalize_jsonc e contents = Inl (unterminated_comment contents (length (document ps)))"
proof -
  obtain ps rest where ps: "contents = document ps @ rest" "pieces_ok ps rest" "rest = [] \<or> open_comment rest"
    using pieces_exist [of contents] by blast
  show thesis
  proof (cases "rest = []")
    case True
    with ps normalize_pieces [OF assms] show thesis by (intro document [of ps]) simp_all
  next
    case False
    with ps(3) have "open_comment rest" by simp
    with ps normalize_open_comment show thesis by (intro open_comment [of ps rest]) simp_all
  qed
qed

text \<open>The normalized document has the length of the document, and every byte is the same or
  a blank in place of a byte that is no line ending.\<close>

theorem normalizing_keeps_positions:
  assumes "utf8_ok contents" "normalize_jsonc utf8_error contents = Inr out"
  shows "length out = length contents \<and>
    (\<forall>i<length contents. out ! i = contents ! i \<or> out ! i = CHR '' '' \<and> \<not> is_line_ending (contents ! i))"
  using assms(1)
proof (cases rule: normalize_cases)
  case (document ps)
  then have "list_all2 blanked_from contents out" using normalized_positions [of ps "[]"] assms(2) by simp
  then show ?thesis by (simp add: list_all2_conv_all_nth blanked_from_def)
qed (use assms(2) in simp)

lemma normalize_example: "normalize_jsonc id ''/**/1'' = Inr ''    1''"
proof -
  let ?ps = "[Block_Comment [], Plain (CHR ''1'')]"
  have "utf8_ok ''/**/1''" by (rule utf8_ok_ascii) (simp add: is_ascii_def byte_def)
  moreover have "pieces_ok ?ps []" "''/**/1'' = document ?ps" by (simp_all add: str_contains_def quote_def)
  ultimately have "normalize_jsonc id ''/**/1'' = Inr (normalized [] ?ps)" by (intro normalize_pieces)
  then show ?thesis by simp
qed

theorem normalizing_keeps_positions_witness: "length ''    1'' = length ''/**/1''"
  by (rule conjunct1 [OF normalizing_keeps_positions [OF _ normalize_example]])
     (rule utf8_ok_ascii, simp add: is_ascii_def byte_def)

section \<open>Errors\<close>

definition newline :: char where
  "newline = CHR 0x0A"

text \<open>Lines are ended by line feeds; columns count characters.\<close>

lemma foldl_count_position:
  "foldl count_position (1, 1) s =
   (1 + count_list s newline,
    1 + length (filter (\<lambda>c. \<not> is_continuation c) (takeWhile (\<lambda>c. c \<noteq> newline) (rev s))))"
proof (induction s rule: rev_induct)
  case (snoc c s)
  have "\<not> is_continuation newline" by (simp add: is_continuation_def newline_def byte_def)
  with snoc show ?case by (cases "c = newline") (simp_all add: newline_def)
qed simp

definition open_comment_message :: "string \<Rightarrow> string" where
  "open_comment_message before =
     fmt [''Unterminated block comment in devcontainer metadata at line '', show_nat (1 + count_list before newline),
       '' column '', show_nat (1 + length (filter (\<lambda>c. \<not> is_continuation c) (takeWhile (\<lambda>c. c \<noteq> newline) (rev before))))]"

lemma unterminated_comment: "unterminated_comment (before @ rest) (length before) = open_comment_message before"
  using foldl_count_position [of before] by (simp add: unterminated_comment_def line_column_def open_comment_message_def)

lemma normalize_fails_iff:
  assumes "utf8_ok contents"
  shows "normalize_jsonc utf8_error contents = Inl e \<longleftrightarrow>
    (\<exists>ps rest. contents = document ps @ rest \<and> pieces_ok ps rest \<and> open_comment rest \<and>
       e = open_comment_message (document ps))"
proof -
  have right: "normalize_jsonc utf8_error contents = Inl (open_comment_message (document ps))"
    if "contents = document ps @ rest" "pieces_ok ps rest" "open_comment rest" for ps rest
    using normalize_open_comment [OF that] that(1) by (simp add: unterminated_comment)
  show ?thesis
    using assms
  proof (cases rule: normalize_cases)
    case (document ps)
    show ?thesis
    proof
      assume "\<exists>ps rest. contents = document ps @ rest \<and> pieces_ok ps rest \<and> open_comment rest \<and>
        e = open_comment_message (document ps)"
      then show "normalize_jsonc utf8_error contents = Inl e"
      proof (elim exE conjE)
        fix ps rest assume "contents = document ps @ rest" "pieces_ok ps rest" "open_comment rest"
          "e = open_comment_message (document ps)"
        then show ?thesis using right by simp
      qed
    qed (simp add: document(3))
  next
    case (open_comment ps rest)
    show ?thesis
    proof
      assume e: "normalize_jsonc utf8_error contents = Inl e"
      have "e = open_comment_message (document ps)" using right [OF open_comment(1-3)] e by simp
      with open_comment(1-3) show "\<exists>ps rest. contents = document ps @ rest \<and> pieces_ok ps rest \<and> open_comment rest \<and>
        e = open_comment_message (document ps)" by blast
    next
      assume "\<exists>ps rest. contents = document ps @ rest \<and> pieces_ok ps rest \<and> open_comment rest \<and>
        e = open_comment_message (document ps)"
      then show "normalize_jsonc utf8_error contents = Inl e"
      proof (elim exE conjE)
        fix ps rest assume "contents = document ps @ rest" "pieces_ok ps rest" "open_comment rest"
          "e = open_comment_message (document ps)"
        then show ?thesis using right by simp
      qed
    qed
  qed
qed

text \<open>For a UTF-8 document, normalizing fails exactly when a block comment outside of
  literals and comments is not closed, and the message names the line and the column where it
  starts.\<close>

theorem normalizing_fails_on_open_comments:
  assumes "utf8_ok contents"
  shows "normalize_jsonc utf8_error contents = Inl e \<longleftrightarrow>
    (\<exists>ps rest. contents = concat (map piece_text ps) @ rest \<and> pieces_ok ps rest \<and> open_comment rest \<and>
       e = open_comment_message (concat (map piece_text ps)))"
  using assms by (rule normalize_fails_iff)

theorem normalizing_fails_on_open_comments_witness:
  "normalize_jsonc id ''1 /* x'' =
     Inl ''Unterminated block comment in devcontainer metadata at line 1 column 3''"
proof -
  have ok: "utf8_ok ''1 /* x''" by (rule utf8_ok_ascii) (simp add: is_ascii_def byte_def)
  let ?ps = "[Plain (CHR ''1''), Plain (CHR '' '')]"
  have "open_comment ''/* x''" by (simp add: open_comment_def str_contains_def)
  moreover have "''Unterminated block comment in devcontainer metadata at line 1 column 3'' =
      open_comment_message (concat (map piece_text ?ps))"
    by (simp add: open_comment_message_def fmt_def newline_def is_continuation_def byte_def str_eval flip: numeral_3_eq_3)
  ultimately show ?thesis
    by (intro iffD2 [OF normalizing_fails_on_open_comments [OF ok]] exI [of _ ?ps] exI [of _ "''/* x''"] conjI)
       (simp_all add: quote_def)
qed

section \<open>JSON is left alone\<close>

text \<open>A document of single bytes and literals whose commas are not followed by a closing bracket.\<close>

fun plain_json :: "piece list \<Rightarrow> bool" where
  "plain_json [] = True"
| "plain_json (Plain c # ps) =
     ((c = CHR '','' \<longrightarrow> next_non_whitespace (concat (map piece_text ps)) \<notin> {Some (CHR '']''), Some (CHR ''}'')}) \<and> plain_json ps)"
| "plain_json (Quoted s # ps) = plain_json ps"
| "plain_json (_ # ps) = False"

lemma plain_json_blanked: "plain_json ps \<Longrightarrow> blanked ps = document ps"
  by (induction ps rule: plain_json.induct) simp_all

lemma plain_json_normalized: "plain_json ps \<Longrightarrow> normalized before ps = document ps"
proof (induction ps arbitrary: before rule: plain_json.induct)
  case (2 c ps)
  then show ?case using plain_json_blanked [of ps] by (auto simp: is_trailing_comma_def split: option.splits)
qed simp_all

text \<open>A document without comments whose commas are not followed by a closing bracket reaches
  the JSON parser unchanged, whatever its literals hold.\<close>

theorem json_is_left_alone:
  assumes "utf8_ok (concat (map piece_text ps))" "pieces_ok ps []" "plain_json ps"
  shows "parse_str utf8_error parse_json (concat (map piece_text ps)) = parse_json (concat (map piece_text ps))"
  using normalize_pieces [OF assms(1) refl assms(2), of utf8_error] plain_json_normalized [OF assms(3)]
  by (simp add: parse_str_def)

theorem json_is_left_alone_witness:
  "parse_str id (\<lambda>s. Inr (J_String s)) (concat (map piece_text [Plain (CHR ''[''), Quoted ''//\"'', Plain (CHR '']'')])) =
     Inr (J_String (CHR ''['' # quote # ''//\"]''))"
  by (subst json_is_left_alone)
     (simp_all add: quote_def backslash_def, intro utf8_ok_ascii, simp add: is_ascii_def byte_def)

end
