(* ===== verification/Devcontainer_Json.thy ===== *)
theory Devcontainer_Json
  imports Jsonc Rust_Path
begin

text \<open>
  Finding the metadata file of a workspace, the rest of \<open>src/devcontainer/json.rs\<close>. What the file
  system answers is a parameter: the kind of a path and the entries of a directory.
\<close>

datatype metadata_probe = Probe_File | Probe_Dir | Probe_Other | Probe_Not_Found | Probe_Error string

text \<open>An entry of a directory: its path and whether it is a directory itself.\<close>

datatype dir_listing =
    Dir_Not_Found
  | Dir_Error string
  | Dir_Entries "(string + string \<times> (string + bool)) list"

record workspace_files =
  wf_metadata :: "string \<Rightarrow> metadata_probe"
  wf_read_dir :: "string \<Rightarrow> dir_listing"
  wf_read_to_string :: "string \<Rightarrow> string result"

definition primary_metadata_path :: string where
  "primary_metadata_path = ''.devcontainer/devcontainer.json''"

definition root_metadata_path :: string where
  "root_metadata_path = ''.devcontainer.json''"

definition devcontainer_directory :: string where
  "devcontainer_directory = ''.devcontainer''"

definition metadata_file_name :: string where
  "metadata_file_name = ''devcontainer.json''"

definition metadata_file :: "workspace_files \<Rightarrow> string \<Rightarrow> string option result" where
  "metadata_file fs path =
     (case wf_metadata fs path of
        Probe_File \<Rightarrow> Inr (Some path)
      | Probe_Dir \<Rightarrow> Inl (fmt [''Devcontainer metadata path is a directory: '', path])
      | Probe_Other \<Rightarrow> Inl (fmt [''Devcontainer metadata path is not a file: '', path])
      | Probe_Not_Found \<Rightarrow> Inr None
      | Probe_Error e \<Rightarrow>
          Inl (with_context [''Failed to read devcontainer metadata file metadata: '', path] e))"

definition ensure_metadata_file :: "workspace_files \<Rightarrow> string \<Rightarrow> unit result" where
  "ensure_metadata_file fs path =
     bind_res (metadata_file fs path) (\<lambda>found.
       case found of
         Some _ \<Rightarrow> Inr ()
       | None \<Rightarrow> Inl (fmt [''Configured devcontainer metadata file does not exist: '', path]))"

definition resolve_explicit_path :: "workspace_files \<Rightarrow> string \<Rightarrow> string \<Rightarrow> string result" where
  "resolve_explicit_path fs workspace_root explicit_config_path =
     (let path = (if is_absolute explicit_config_path then explicit_config_path
                  else path_push workspace_root explicit_config_path)
      in bind_res (ensure_metadata_file fs path) (\<lambda>_. Inr path))"

definition nested_entry ::
  "workspace_files \<Rightarrow> string \<Rightarrow> string list \<Rightarrow> string + string \<times> (string + bool) \<Rightarrow> string list result" where
  "nested_entry fs directory candidates entry =
     bind_res (map_err (with_context [''Failed to read devcontainer directory entry: '', directory]) entry)
       (\<lambda>(entry_path, file_type).
     bind_res (map_err (with_context [''Failed to read devcontainer directory entry type: '', entry_path]) file_type)
       (\<lambda>is_dir.
     if \<not> is_dir then Inr candidates
     else bind_res (metadata_file fs (path_push entry_path metadata_file_name)) (\<lambda>found.
       Inr (case found of Some path \<Rightarrow> candidates @ [path] | None \<Rightarrow> candidates))))"

definition nested_metadata_files :: "workspace_files \<Rightarrow> string \<Rightarrow> string list result" where
  "nested_metadata_files fs workspace_root =
     (let directory = path_push workspace_root devcontainer_directory
      in case wf_read_dir fs directory of
           Dir_Not_Found \<Rightarrow> Inr []
         | Dir_Error e \<Rightarrow> Inl (with_context [''Failed to read devcontainer directory: '', directory] e)
         | Dir_Entries entries \<Rightarrow>
             bind_res (try_fold (nested_entry fs directory) [] entries) (\<lambda>candidates.
               Inr (sort_key path_components candidates)))"

fun choose_nested :: "string \<Rightarrow> string list \<Rightarrow> string result" where
  "choose_nested workspace_root [path] = Inr path"
| "choose_nested workspace_root [] =
     Inl (fmt [''Devcontainer metadata file was not found under workspace: '', workspace_root])"
| "choose_nested workspace_root paths =
     Inl (fmt [''Multiple devcontainer metadata files found; pass --config to choose one: '',
       str_join '', '' paths])"

definition discover :: "workspace_files \<Rightarrow> string \<Rightarrow> string option \<Rightarrow> string result" where
  "discover fs workspace_root explicit_config_path =
     (case explicit_config_path of
        Some p \<Rightarrow> resolve_explicit_path fs workspace_root p
      | None \<Rightarrow>
          bind_res (metadata_file fs (path_push workspace_root primary_metadata_path)) (\<lambda>primary.
          case primary of
            Some path \<Rightarrow> Inr path
          | None \<Rightarrow>
              bind_res (metadata_file fs (path_push workspace_root root_metadata_path)) (\<lambda>root_file.
              case root_file of
                Some path \<Rightarrow> Inr path
              | None \<Rightarrow>
                  bind_res (nested_metadata_files fs workspace_root) (choose_nested workspace_root))))"

definition parse_file ::
  "(string \<Rightarrow> string) \<Rightarrow> (string \<Rightarrow> json result) \<Rightarrow> workspace_files \<Rightarrow> string \<Rightarrow> json result" where
  "parse_file utf8_error parse_json fs path =
     bind_res (map_err (with_context [''Failed to read devcontainer metadata file: '', path]) (wf_read_to_string fs path))
       (\<lambda>contents.
     map_err (\<lambda>e. fmt [''Failed to parse devcontainer metadata file: '', path, '': '', e])
       (parse_str utf8_error parse_json contents))"

definition load_devcontainer_json ::
  "(string \<Rightarrow> string) \<Rightarrow> (string \<Rightarrow> json result) \<Rightarrow> workspace_files \<Rightarrow> string \<Rightarrow> string option \<Rightarrow>
   (string \<times> json) result" where
  "load_devcontainer_json utf8_error parse_json fs workspace_root explicit_config_path =
     bind_res (discover fs workspace_root explicit_config_path) (\<lambda>path.
     bind_res (parse_file utf8_error parse_json fs path) (\<lambda>v. Inr (path, v)))"

section \<open>Which file is found\<close>

text \<open>A nested file: it stands in a directory below \<open>.devcontainer\<close>.\<close>

definition is_nested_file :: "workspace_files \<Rightarrow> string \<Rightarrow> string \<Rightarrow> bool" where
  "is_nested_file fs workspace_root path =
     (\<exists>entries entry_path. wf_read_dir fs (path_push workspace_root devcontainer_directory) = Dir_Entries entries \<and>
        Inr (entry_path, Inr True) \<in> set entries \<and>
        path = path_push entry_path metadata_file_name \<and> wf_metadata fs path = Probe_File)"

lemma metadata_file_Inr_iff:
  "metadata_file fs path = Inr found \<longleftrightarrow>
    wf_metadata fs path = Probe_File \<and> found = Some path \<or> wf_metadata fs path = Probe_Not_Found \<and> found = None"
  by (auto simp: metadata_file_def split: metadata_probe.splits)

lemma nested_entry_set:
  assumes "nested_entry fs directory candidates entry = Inr candidates'"
  shows "set candidates' = set candidates \<union>
    {path. \<exists>entry_path. entry = Inr (entry_path, Inr True) \<and> path = path_push entry_path metadata_file_name \<and>
       wf_metadata fs path = Probe_File}"
proof -
  obtain entry_path is_dir where e: "entry = Inr (entry_path, Inr is_dir)"
    and step: "(if \<not> is_dir then Inr candidates
      else bind_res (metadata_file fs (path_push entry_path metadata_file_name)) (\<lambda>found.
        Inr (case found of Some path \<Rightarrow> candidates @ [path] | None \<Rightarrow> candidates))) = Inr candidates'"
    using assms by (auto simp: nested_entry_def bind_res_Inr_iff map_err_Inr_iff)
  show ?thesis
  proof (cases is_dir)
    case True
    with step obtain found where found: "metadata_file fs (path_push entry_path metadata_file_name) = Inr found"
      "candidates' = (case found of Some path \<Rightarrow> candidates @ [path] | None \<Rightarrow> candidates)"
      by (auto simp: bind_res_Inr_iff)
    from found(1) [unfolded metadata_file_Inr_iff] found(2) True show ?thesis by (elim disjE conjE) (auto simp: e)
  qed (use step e in simp)
qed

lemma nested_entries_set:
  "try_fold (nested_entry fs directory) candidates entries = Inr candidates' \<Longrightarrow>
   set candidates' = set candidates \<union>
     {path. \<exists>entry_path. Inr (entry_path, Inr True) \<in> set entries \<and> path = path_push entry_path metadata_file_name \<and>
       wf_metadata fs path = Probe_File}"
proof (induction entries arbitrary: candidates)
  case (Cons e entries)
  then obtain c where c: "nested_entry fs directory candidates e = Inr c" "try_fold (nested_entry fs directory) c entries = Inr candidates'"
    by (auto simp: bind_res_Inr_iff)
  show ?case unfolding Cons.IH [OF c(2)] nested_entry_set [OF c(1)] by auto
qed simp

lemma nested_metadata_files_set:
  "nested_metadata_files fs workspace_root = Inr paths \<Longrightarrow> set paths = {path. is_nested_file fs workspace_root path}"
  by (auto simp: nested_metadata_files_def is_nested_file_def Let_def bind_res_Inr_iff dest!: nested_entries_set
      split: dir_listing.splits)

lemma choose_nested_Inr [simp]: "choose_nested workspace_root paths = Inr path \<longleftrightarrow> paths = [path]"
  by (cases "(workspace_root, paths)" rule: choose_nested.cases) auto

text \<open>The file found is the explicit one, or the first of the two fixed places where there
  is a file, or the only file one directory below .devcontainer.\<close>

theorem found_file_is_preferred:
  assumes "discover fs workspace_root explicit_config_path = Inr path"
  shows "wf_metadata fs path = Probe_File \<and>
    (case explicit_config_path of
       Some p \<Rightarrow> path = path_push workspace_root p
     | None \<Rightarrow>
         path = path_push workspace_root primary_metadata_path \<or>
         wf_metadata fs (path_push workspace_root primary_metadata_path) = Probe_Not_Found \<and>
         (path = path_push workspace_root root_metadata_path \<or>
          wf_metadata fs (path_push workspace_root root_metadata_path) = Probe_Not_Found \<and>
          {path. is_nested_file fs workspace_root path} = {path}))"
proof (cases explicit_config_path)
  case (Some p)
  with assms show ?thesis
    by (auto simp: discover_def resolve_explicit_path_def Let_def bind_res_Inr_iff ensure_metadata_file_def
        metadata_file_Inr_iff path_push_def is_absolute_def split: option.splits if_splits)
next
  case None
  have nested: "{path. is_nested_file fs workspace_root path} = {path}"
    if "nested_metadata_files fs workspace_root = Inr [path]"
    using nested_metadata_files_set [OF that] by simp
  then have "wf_metadata fs path = Probe_File" if "nested_metadata_files fs workspace_root = Inr [path]"
    using that by (auto simp: is_nested_file_def)
  with None assms nested show ?thesis
    by (auto simp: discover_def bind_res_Inr_iff metadata_file_Inr_iff split: option.splits)
qed

definition example_files :: workspace_files where
  "example_files = \<lparr>wf_metadata = (\<lambda>p. if p = ''/w/.devcontainer/a/devcontainer.json'' then Probe_File else Probe_Not_Found),
     wf_read_dir = (\<lambda>p. Dir_Entries [Inr (''/w/.devcontainer/a'', Inr True), Inr (''/w/.devcontainer/b'', Inr True)]),
     wf_read_to_string = (\<lambda>_. Inl [])\<rparr>"

theorem found_file_is_preferred_witness:
  "{path. is_nested_file example_files ''/w'' path} = {''/w/.devcontainer/a/devcontainer.json''}"
proof -
  have "discover example_files ''/w'' None = Inr ''/w/.devcontainer/a/devcontainer.json''"
    by (simp add: discover_def example_files_def metadata_file_def nested_metadata_files_def nested_entry_def
        path_push_def is_absolute_def primary_metadata_path_def root_metadata_path_def devcontainer_directory_def
        metadata_file_name_def)
  from found_file_is_preferred [OF this] show ?thesis
    by (simp add: path_push_def is_absolute_def primary_metadata_path_def root_metadata_path_def)
qed

end
