(* ===== verification/Compose_Override_File.thy ===== *)
theory Compose_Override_File
  imports Docker_Mounts Canonical_Text Isolation_Types Compose_Ports_Override
begin

text \<open>
  The override file for Docker Compose, \<open>src/runtime/compose_cli/override_file.rs\<close>: a patch of
  services, networks and named resources, the methods that build it, and its text as YAML. Every
  function that appends to the text returns what it appends. A string is written between single
  quotes, or between double quotes with escapes when it has control characters; these are found
  by their UTF-8 encodings, the bytes below 0x20, 0x7F, and 0xC2 followed by 0x80 to 0x9F.
\<close>

section \<open>Patches\<close>

datatype override_environment_value =
    Env_Literal string
  | Env_Uninterpolated string
  | Env_Interpolated string "string list"

record network_ipam_config =
  oi_subnet :: string
  oi_gateway :: "string option"
  oi_ip_range :: "string option"
  oi_aux_addresses :: "(string, string) btree_map"

record network_patch =
  nw_name :: "string option"
  nw_ipam_config_override :: "network_ipam_config list"

record service_patch =
  sv_name :: string
  sv_image :: "string option"
  sv_container_name :: "string option"
  sv_network_mode :: "string option"
  sv_ipc :: "string option"
  sv_pid :: "string option"
  sv_pull_policy :: "string option"
  sv_labels :: "(string, string) btree_map"
  sv_environment :: "(string, override_environment_value) btree_map"
  sv_user :: "string option"
  sv_init :: "bool option"
  sv_privileged :: "bool option"
  sv_cap_add :: "string list"
  sv_security_opt :: "string list"
  sv_mounts :: "docker_mount_spec list"
  sv_network_aliases :: "(string, string list) btree_map"
  sv_volumes_from_override :: "string list option"
  sv_external_links_override :: "string list option"
  sv_ports_override :: "override_port_entry list"
  sv_entrypoint :: "string list"
  sv_command :: "string list"
  sv_forbidden_secret_values :: "string list"

record override_patch =
  op_services :: "(string, service_patch) btree_map"
  op_networks :: "(string, network_patch) btree_map"
  op_volumes :: "(string, string) btree_map"
  op_configs :: "(string, string) btree_map"
  op_secrets :: "(string, string) btree_map"
  op_forbidden_secret_values :: "string list"

definition new_service_patch :: "string \<Rightarrow> service_patch" where
  "new_service_patch name = \<lparr>sv_name = name, sv_image = None, sv_container_name = None, sv_network_mode = None,
     sv_ipc = None, sv_pid = None, sv_pull_policy = None, sv_labels = [], sv_environment = [], sv_user = None,
     sv_init = None, sv_privileged = None, sv_cap_add = [], sv_security_opt = [], sv_mounts = [],
     sv_network_aliases = [], sv_volumes_from_override = None, sv_external_links_override = None,
     sv_ports_override = [], sv_entrypoint = [], sv_command = [], sv_forbidden_secret_values = []\<rparr>"

definition set_labels :: "(string, string) btree_map \<Rightarrow> service_patch \<Rightarrow> service_patch" where
  "set_labels labels service = service\<lparr>sv_labels := foldl (\<lambda>m (key, v).
     if starts_with ''com.docker.compose.'' key then m else bt_insert key v m) (sv_labels service) labels\<rparr>"

definition set_environment :: "string \<Rightarrow> string \<Rightarrow> service_patch \<Rightarrow> service_patch" where
  "set_environment key v service = service\<lparr>sv_environment := bt_insert key (Env_Literal v) (sv_environment service)\<rparr>"

definition set_interpolated_environment :: "string \<Rightarrow> string \<Rightarrow> string list \<Rightarrow> service_patch \<Rightarrow> service_patch" where
  "set_interpolated_environment key placeholder redactions service =
     service\<lparr>sv_environment := bt_insert key (Env_Interpolated placeholder redactions) (sv_environment service)\<rparr>"

definition add_service_mounts :: "docker_mount_spec list \<Rightarrow> service_patch \<Rightarrow> service_patch" where
  "add_service_mounts mounts service = service\<lparr>sv_mounts := sv_mounts service @ mounts\<rparr>"

fun interpolated_redactions :: "override_environment_value \<Rightarrow> string list" where
  "interpolated_redactions (Env_Interpolated _ redactions) = redactions"
| "interpolated_redactions _ = []"

definition service_forbidden_secret_values :: "service_patch \<Rightarrow> string list" where
  "service_forbidden_secret_values service =
     sv_forbidden_secret_values service @ concat (map (\<lambda>(_, v). interpolated_redactions v) (sv_environment service))"

definition new_override_patch :: "service_patch \<Rightarrow> override_patch" where
  "new_override_patch primary = \<lparr>op_services = [(sv_name primary, primary)], op_networks = [], op_volumes = [],
     op_configs = [], op_secrets = [], op_forbidden_secret_values = service_forbidden_secret_values primary\<rparr>"

definition patch_service :: "service_patch \<Rightarrow> override_patch \<Rightarrow> override_patch" where
  "patch_service service patch = patch\<lparr>
     op_forbidden_secret_values := op_forbidden_secret_values patch @ service_forbidden_secret_values service,
     op_services := bt_insert (sv_name service) service (op_services patch)\<rparr>"

text \<open>\<open>entry(\<dots>).or_insert_with(\<dots>)\<close>, and what is done to the entry.\<close>

definition update_service :: "string \<Rightarrow> (service_patch \<Rightarrow> service_patch) \<Rightarrow> override_patch \<Rightarrow> override_patch" where
  "update_service service_name change patch =
     (let service = (case bt_get (op_services patch) service_name of
                       Some s \<Rightarrow> s | None \<Rightarrow> new_service_patch service_name)
      in patch\<lparr>op_services := bt_insert service_name (change service) (op_services patch)\<rparr>)"

definition add_alias :: "string \<Rightarrow> (string, string list) btree_map \<Rightarrow> string \<Rightarrow> (string, string list) btree_map" where
  "add_alias name aliases network =
     bt_insert network (insort_insert name (case bt_get aliases network of Some s \<Rightarrow> s | None \<Rightarrow> [])) aliases"

definition service_container_name ::
  "string \<Rightarrow> string \<Rightarrow> string \<Rightarrow> string list \<Rightarrow> override_patch \<Rightarrow> override_patch" where
  "service_container_name service_name container_name original_name networks =
     update_service service_name (\<lambda>service. service\<lparr>sv_container_name := Some container_name,
       sv_network_aliases := foldl (add_alias original_name) (sv_network_aliases service) networks\<rparr>)"

definition service_container_references :: "service_reference_rewrite \<Rightarrow> override_patch \<Rightarrow> override_patch" where
  "service_container_references references =
     update_service (rr_service references) (\<lambda>service. service\<lparr>sv_network_mode := rr_network_mode references,
       sv_ipc := rr_ipc references, sv_pid := rr_pid references,
       sv_volumes_from_override := rr_volumes_from references,
       sv_external_links_override := rr_external_links references\<rparr>)"

definition service_environment :: "string \<Rightarrow> string \<Rightarrow> string \<Rightarrow> override_patch \<Rightarrow> override_patch" where
  "service_environment service_name key v =
     update_service service_name (\<lambda>service.
       service\<lparr>sv_environment := bt_insert key (Env_Uninterpolated v) (sv_environment service)\<rparr>)"

definition update_network :: "string \<Rightarrow> (network_patch \<Rightarrow> network_patch) \<Rightarrow> override_patch \<Rightarrow> override_patch" where
  "update_network resource change patch =
     (let network = (case bt_get (op_networks patch) resource of
                       Some n \<Rightarrow> n | None \<Rightarrow> \<lparr>nw_name = None, nw_ipam_config_override = []\<rparr>)
      in patch\<lparr>op_networks := bt_insert resource (change network) (op_networks patch)\<rparr>)"

definition set_network_name :: "string \<Rightarrow> string \<Rightarrow> override_patch \<Rightarrow> override_patch" where
  "set_network_name resource name = update_network resource (\<lambda>n. n\<lparr>nw_name := Some name\<rparr>)"

definition network_ipam_override :: "string \<Rightarrow> network_ipam_config \<Rightarrow> override_patch \<Rightarrow> override_patch" where
  "network_ipam_override resource config = update_network resource (\<lambda>n. n\<lparr>nw_ipam_config_override := [config]\<rparr>)"

definition set_volume_name :: "string \<Rightarrow> string \<Rightarrow> override_patch \<Rightarrow> override_patch" where
  "set_volume_name resource name patch = patch\<lparr>op_volumes := bt_insert resource name (op_volumes patch)\<rparr>"

definition set_config_name :: "string \<Rightarrow> string \<Rightarrow> override_patch \<Rightarrow> override_patch" where
  "set_config_name resource name patch = patch\<lparr>op_configs := bt_insert resource name (op_configs patch)\<rparr>"

definition set_secret_name :: "string \<Rightarrow> string \<Rightarrow> override_patch \<Rightarrow> override_patch" where
  "set_secret_name resource name patch = patch\<lparr>op_secrets := bt_insert resource name (op_secrets patch)\<rparr>"

section \<open>The text\<close>

abbreviation line_end :: string where
  "line_end \<equiv> [CHR 0x0A]"

definition append_indent :: "nat \<Rightarrow> string" where
  "append_indent n = replicate n CHR 0x20"

definition push_yaml_unicode_escape :: "nat \<Rightarrow> string" where
  "push_yaml_unicode_escape v =
     [CHR 0x5C, CHR 0x75] @ map (\<lambda>shift. hex_digit (v div 2 ^ shift mod 16)) [12, 8, 4, 0]"

definition yaml_byte :: "char \<Rightarrow> string" where
  "yaml_byte c =
     (if c = CHR 0x22 then [CHR 0x5C, CHR 0x22]
      else if c = CHR 0x5C then [CHR 0x5C, CHR 0x5C]
      else if c = CHR 0x0A then [CHR 0x5C, CHR 0x6E]
      else if c = CHR 0x0D then [CHR 0x5C, CHR 0x72]
      else if c = CHR 0x09 then [CHR 0x5C, CHR 0x74]
      else if c = CHR 0x08 then [CHR 0x5C, CHR 0x62]
      else if c = CHR 0x0C then [CHR 0x5C, CHR 0x66]
      else if is_control_byte c then push_yaml_unicode_escape (byte c)
      else [c])"

fun yaml_escape :: "string \<Rightarrow> string" where
  "yaml_escape [] = []"
| "yaml_escape [c] = yaml_byte c"
| "yaml_escape (c # d # s) =
     (if is_control_pair c d then push_yaml_unicode_escape (byte d) @ yaml_escape s
      else yaml_byte c @ yaml_escape (d # s))"

definition yaml_double_quote :: "string \<Rightarrow> string" where
  "yaml_double_quote v = [CHR 0x22] @ yaml_escape v @ [CHR 0x22]"

definition yaml_quote :: "string \<Rightarrow> string" where
  "yaml_quote v =
     (if has_control v then yaml_double_quote v
      else [CHR 0x27] @ str_replace [CHR 0x27] [CHR 0x27, CHR 0x27] v @ [CHR 0x27])"

definition append_yaml_scalar :: "nat \<Rightarrow> string \<Rightarrow> string \<Rightarrow> string" where
  "append_yaml_scalar indent key v = append_indent indent @ key @ '': '' @ yaml_quote v @ line_end"

definition yaml_bool :: "bool \<Rightarrow> string" where
  "yaml_bool v = (if v then ''true'' else ''false'')"

definition append_yaml_bool :: "nat \<Rightarrow> string \<Rightarrow> bool \<Rightarrow> string" where
  "append_yaml_bool indent key v = append_indent indent @ key @ '': '' @ yaml_bool v @ line_end"

definition append_yaml_map :: "nat \<Rightarrow> string \<Rightarrow> (string, string) btree_map \<Rightarrow> string" where
  "append_yaml_map indent key m =
     (if m = [] then []
      else append_indent indent @ key @ '':'' @ line_end @
           concat (map (\<lambda>(name, v). append_indent (indent + 2) @ yaml_quote name @ '': '' @ yaml_quote v @ line_end) m))"

definition append_yaml_named_resources :: "string \<Rightarrow> (string, string) btree_map \<Rightarrow> string" where
  "append_yaml_named_resources section_name resources =
     (if resources = [] then []
      else section_name @ '':'' @ line_end @
           concat (map (\<lambda>(resource, name). append_indent 2 @ yaml_quote resource @ '':'' @ line_end @
                          append_yaml_scalar 4 ''name'' name) resources))"

definition yaml_optional :: "('a \<Rightarrow> string) \<Rightarrow> 'a option \<Rightarrow> string" where
  "yaml_optional write v = (case v of Some x \<Rightarrow> write x | None \<Rightarrow> [])"

definition append_yaml_ipam_config :: "network_ipam_config \<Rightarrow> string" where
  "append_yaml_ipam_config config =
     append_indent 8 @ ''- subnet: '' @ yaml_quote (oi_subnet config) @ line_end @
     yaml_optional (append_yaml_scalar 10 ''ip_range'') (oi_ip_range config) @
     yaml_optional (append_yaml_scalar 10 ''gateway'') (oi_gateway config) @
     append_yaml_map 10 ''aux_addresses'' (oi_aux_addresses config)"

definition append_yaml_network :: "string \<times> network_patch \<Rightarrow> string" where
  "append_yaml_network entry =
     (case entry of (resource, patch) \<Rightarrow>
        append_indent 2 @ yaml_quote resource @ '':'' @ line_end @
        yaml_optional (append_yaml_scalar 4 ''name'') (nw_name patch) @
        (if nw_ipam_config_override patch = [] then []
         else append_indent 4 @ ''ipam:'' @ line_end @ append_indent 6 @ ''config: !override'' @ line_end @
              concat (map append_yaml_ipam_config (nw_ipam_config_override patch))))"

definition append_yaml_networks :: "(string, network_patch) btree_map \<Rightarrow> string" where
  "append_yaml_networks networks =
     (if networks = [] then [] else ''networks:'' @ line_end @ concat (map append_yaml_network networks))"

definition append_yaml_items :: "nat \<Rightarrow> string list \<Rightarrow> string" where
  "append_yaml_items indent vs =
     concat (map (\<lambda>v. append_indent indent @ ''- '' @ yaml_quote v @ line_end) vs)"

definition append_yaml_network_aliases :: "nat \<Rightarrow> (string, string list) btree_map \<Rightarrow> string" where
  "append_yaml_network_aliases indent networks =
     (if networks = [] then []
      else append_indent indent @ ''networks:'' @ line_end @
           concat (map (\<lambda>(network, aliases).
             append_indent (indent + 2) @ yaml_quote network @ '':'' @ line_end @
             append_indent (indent + 4) @ ''aliases:'' @ line_end @
             append_yaml_items (indent + 6) aliases) networks))"

fun environment_text :: "override_environment_value \<Rightarrow> string" where
  "environment_text (Env_Literal v) = yaml_quote v"
| "environment_text (Env_Uninterpolated v) = yaml_quote (str_replace ''$'' ''$$'' v)"
| "environment_text (Env_Interpolated placeholder _) = yaml_quote (''${'' @ placeholder @ ''}'')"

definition append_yaml_environment :: "nat \<Rightarrow> (string, override_environment_value) btree_map \<Rightarrow> string" where
  "append_yaml_environment indent m =
     (if m = [] then []
      else append_indent indent @ ''environment:'' @ line_end @
           concat (map (\<lambda>(name, v). append_indent (indent + 2) @ yaml_quote name @ '': '' @ environment_text v @ line_end) m))"

definition append_yaml_string_list :: "nat \<Rightarrow> string \<Rightarrow> string list \<Rightarrow> string" where
  "append_yaml_string_list indent key vs =
     (if vs = [] then [] else append_indent indent @ key @ '':'' @ line_end @ append_yaml_items (indent + 2) vs)"

definition append_yaml_string_list_override :: "nat \<Rightarrow> string \<Rightarrow> string list option \<Rightarrow> string" where
  "append_yaml_string_list_override indent key vs =
     (case vs of
        None \<Rightarrow> []
      | Some vs \<Rightarrow>
          append_indent indent @ key @
          (if vs = [] then '': !override []'' @ line_end
           else '': !override'' @ line_end @ append_yaml_items (indent + 2) vs))"

fun mount_type_text :: "mount_type \<Rightarrow> string" where
  "mount_type_text Bind_Mount = ''bind''"
| "mount_type_text Volume_Mount = ''volume''"
| "mount_type_text Tmpfs_Mount = ''tmpfs''"

definition append_yaml_bind_mount_options :: "nat \<Rightarrow> docker_mount_spec \<Rightarrow> string" where
  "append_yaml_bind_mount_options indent mount =
     append_indent indent @ ''bind:'' @ line_end @
     yaml_optional (append_yaml_scalar (indent + 2) ''propagation'')
       (map_option bind_propagation_str (Option.bind (dms_bind_options mount) mbo_propagation)) @
     append_yaml_bool (indent + 2) ''create_host_path''
       (case Option.bind (dms_bind_options mount) mbo_create_mountpoint of Some b \<Rightarrow> b | None \<Rightarrow> False)"

definition append_yaml_volume_mount_options :: "nat \<Rightarrow> docker_mount_spec \<Rightarrow> string" where
  "append_yaml_volume_mount_options indent mount =
     (case dms_volume_options mount of
        None \<Rightarrow> []
      | Some opts \<Rightarrow>
          if mvo_no_copy opts = None \<and> mvo_subpath opts = None then []
          else append_indent indent @ ''volume:'' @ line_end @
               yaml_optional (append_yaml_bool (indent + 2) ''nocopy'') (mvo_no_copy opts) @
               yaml_optional (append_yaml_scalar (indent + 2) ''subpath'') (mvo_subpath opts))"

definition append_yaml_mount :: "nat \<Rightarrow> docker_mount_spec \<Rightarrow> string" where
  "append_yaml_mount indent mount =
     append_indent (indent + 2) @ ''- type: '' @ mount_type_text (dms_type mount) @ line_end @
     yaml_optional (append_yaml_scalar (indent + 4) ''source'') (dms_source mount) @
     append_yaml_scalar (indent + 4) ''target'' (dms_target mount) @
     (if dms_read_only mount then append_yaml_bool (indent + 4) ''read_only'' True else []) @
     yaml_optional (append_yaml_scalar (indent + 4) ''consistency'') (dms_consistency mount) @
     (case dms_type mount of
        Bind_Mount \<Rightarrow> append_yaml_bind_mount_options (indent + 4) mount
      | Volume_Mount \<Rightarrow> append_yaml_volume_mount_options (indent + 4) mount
      | Tmpfs_Mount \<Rightarrow> [])"

definition append_yaml_mounts :: "nat \<Rightarrow> docker_mount_spec list \<Rightarrow> string" where
  "append_yaml_mounts indent mounts =
     (if mounts = [] then []
      else append_indent indent @ ''volumes:'' @ line_end @ concat (map (append_yaml_mount indent) mounts))"

fun append_yaml_json_value :: "nat \<Rightarrow> json \<Rightarrow> string" where
  "append_yaml_json_value indent J_Null = ''null''"
| "append_yaml_json_value indent (J_Bool v) = yaml_bool v"
| "append_yaml_json_value indent (J_Number v) = number_text v"
| "append_yaml_json_value indent (J_String v) = yaml_quote v"
| "append_yaml_json_value indent (J_Array vs) =
     (if vs = [] then ''[]''
      else line_end @ concat (map (\<lambda>v.
        append_indent indent @ ''- '' @ append_yaml_json_value (indent + 2) v @ line_end) vs))"
| "append_yaml_json_value indent (J_Object m) =
     (if m = [] then ''{}''
      else line_end @ concat (map (\<lambda>(key, v).
        append_indent indent @ key @ '': '' @ append_yaml_json_value (indent + 2) v @ line_end) m))"

definition append_yaml_object_fields_after_prefix :: "nat \<Rightarrow> (string, json) btree_map \<Rightarrow> string" where
  "append_yaml_object_fields_after_prefix indent m =
     (case m of
        [] \<Rightarrow> ''{}'' @ line_end
      | (first_key, first_value) # rest \<Rightarrow>
          first_key @ '': '' @ append_yaml_json_value (indent + 2) first_value @ line_end @
          concat (map (\<lambda>(key, v). append_indent (indent + 2) @ key @ '': '' @
                         append_yaml_json_value (indent + 2) v @ line_end) rest))"

definition append_yaml_ports_override :: "nat \<Rightarrow> override_port_entry list \<Rightarrow> string" where
  "append_yaml_ports_override indent ports =
     (if ports = [] then []
      else append_indent indent @ ''ports: !override'' @ line_end @
           concat (map (\<lambda>port. append_indent (indent + 2) @ ''- '' @
                          append_yaml_object_fields_after_prefix (indent + 2) port) ports))"

definition append_yaml_service :: "service_patch \<Rightarrow> string" where
  "append_yaml_service service =
     yaml_optional (append_yaml_scalar 4 ''image'') (sv_image service) @
     yaml_optional (append_yaml_scalar 4 ''container_name'') (sv_container_name service) @
     yaml_optional (append_yaml_scalar 4 ''network_mode'') (sv_network_mode service) @
     yaml_optional (append_yaml_scalar 4 ''ipc'') (sv_ipc service) @
     yaml_optional (append_yaml_scalar 4 ''pid'') (sv_pid service) @
     yaml_optional (append_yaml_scalar 4 ''pull_policy'') (sv_pull_policy service) @
     append_yaml_map 4 ''labels'' (sv_labels service) @
     append_yaml_environment 4 (sv_environment service) @
     yaml_optional (append_yaml_scalar 4 ''user'') (sv_user service) @
     yaml_optional (append_yaml_bool 4 ''init'') (sv_init service) @
     yaml_optional (append_yaml_bool 4 ''privileged'') (sv_privileged service) @
     append_yaml_string_list 4 ''cap_add'' (sv_cap_add service) @
     append_yaml_string_list 4 ''security_opt'' (sv_security_opt service) @
     append_yaml_mounts 4 (sv_mounts service) @
     append_yaml_network_aliases 4 (sv_network_aliases service) @
     append_yaml_string_list_override 4 ''volumes_from'' (sv_volumes_from_override service) @
     append_yaml_string_list_override 4 ''external_links'' (sv_external_links_override service) @
     append_yaml_ports_override 4 (sv_ports_override service) @
     append_yaml_string_list 4 ''entrypoint'' (sv_entrypoint service) @
     append_yaml_string_list 4 ''command'' (sv_command service)"

definition override_content :: "override_patch \<Rightarrow> string" where
  "override_content patch =
     ''services:'' @ line_end @
     concat (map (\<lambda>(service_name, service).
       append_indent 2 @ yaml_quote service_name @ '':'' @ line_end @ append_yaml_service service) (op_services patch)) @
     append_yaml_networks (op_networks patch) @
     append_yaml_named_resources ''volumes'' (op_volumes patch) @
     append_yaml_named_resources ''configs'' (op_configs patch) @
     append_yaml_named_resources ''secrets'' (op_secrets patch)"

definition ensure_no_forbidden_secret_values :: "override_patch \<Rightarrow> string \<Rightarrow> unit result" where
  "ensure_no_forbidden_secret_values patch content =
     (if list_ex (\<lambda>secret. secret \<noteq> [] \<and> str_contains secret content) (op_forbidden_secret_values patch)
      then Inl ''Generated Docker Compose override contains a forbidden secret value''
      else Inr ())"

definition to_yaml :: "override_patch \<Rightarrow> string result" where
  "to_yaml patch =
     (let content = override_content patch
      in bind_res (ensure_no_forbidden_secret_values patch content) (\<lambda>_. Inr content))"

section \<open>Reading scalars\<close>

text \<open>
  What YAML says of quoted scalars: between single quotes a doubled quote is a quote and nothing
  else is special; between double quotes the escapes are read. Line breaks would be folded, so the
  reader refuses them.
\<close>

definition is_line_break :: "char \<Rightarrow> bool" where
  "is_line_break c = (c = CHR 0x0A \<or> c = CHR 0x0D)"

fun read_single_quoted :: "string \<Rightarrow> (string \<times> string) option" where
  "read_single_quoted [] = None"
| "read_single_quoted [c] = (if c = CHR 0x27 then Some ([], []) else None)"
| "read_single_quoted (c # d # s) =
     (if is_line_break c then None
      else if c \<noteq> CHR 0x27 then map_option (\<lambda>(v, rest). (c # v, rest)) (read_single_quoted (d # s))
      else if d = CHR 0x27 then map_option (\<lambda>(v, rest). (c # v, rest)) (read_single_quoted s)
      else Some ([], d # s))"

definition encode_code_point :: "nat \<Rightarrow> string" where
  "encode_code_point v =
     (if v < 0x80 then [char_of v]
      else if v < 0x800 then [char_of (0xC0 + v div 64), char_of (0x80 + v mod 64)]
      else [char_of (0xE0 + v div 4096), char_of (0x80 + v div 64 mod 64), char_of (0x80 + v mod 64)])"

definition simple_escapes :: "(char \<times> char) list" where
  "simple_escapes = [(CHR 0x22, CHR 0x22), (CHR 0x5C, CHR 0x5C), (CHR 0x6E, CHR 0x0A), (CHR 0x72, CHR 0x0D),
     (CHR 0x74, CHR 0x09), (CHR 0x62, CHR 0x08), (CHR 0x66, CHR 0x0C)]"

fun read_four_digits :: "string \<Rightarrow> (nat \<times> string) option" where
  "read_four_digits (a # b # c # d # s) =
     (case (to_digit 16 a, to_digit 16 b, to_digit 16 c, to_digit 16 d) of
        (Some w, Some x, Some y, Some z) \<Rightarrow> Some (((w * 16 + x) * 16 + y) * 16 + z, s)
      | _ \<Rightarrow> None)"
| "read_four_digits _ = None"

fun read_escape :: "string \<Rightarrow> (string \<times> string) option" where
  "read_escape [] = None"
| "read_escape (c # s) =
     (if c = CHR 0x75 then map_option (\<lambda>(n, rest). (encode_code_point n, rest)) (read_four_digits s)
      else map_option (\<lambda>d. ([d], s)) (map_of simple_escapes c))"

lemma read_four_digits_length: "read_four_digits s = Some (n, rest) \<Longrightarrow> length rest < length s"
  by (induction s rule: read_four_digits.induct) (auto split: option.splits)

lemma read_escape_length: "read_escape s = Some (v, rest) \<Longrightarrow> length rest < length s"
  by (cases s) (auto split: if_splits dest: read_four_digits_length)

function read_double_quoted :: "string \<Rightarrow> (string \<times> string) option" where
  "read_double_quoted [] = None"
| "read_double_quoted (c # s) =
     (if is_line_break c then None
      else if c = CHR 0x22 then Some ([], s)
      else if c = CHR 0x5C then
        (case read_escape s of
           None \<Rightarrow> None
         | Some (v, rest) \<Rightarrow> map_option (\<lambda>(w, rest). (v @ w, rest)) (read_double_quoted rest))
      else map_option (\<lambda>(v, rest). (c # v, rest)) (read_double_quoted s))"
  by pat_completeness auto
termination
  by (relation "measure length") (auto dest: read_escape_length)

declare read_double_quoted.simps [simp del]

definition read_scalar :: "string \<Rightarrow> (string \<times> string) option" where
  "read_scalar s =
     (case s of
        [] \<Rightarrow> None
      | c # rest \<Rightarrow>
          if c = CHR 0x27 then read_single_quoted rest
          else if c = CHR 0x22 then read_double_quoted rest
          else None)"

lemma double_quotes_Cons: "str_replace [CHR 0x27] t (c # v) =
   (if c = CHR 0x27 then t else [c]) @ str_replace [CHR 0x27] t v"
proof (cases "c = CHR 0x27")
  case False
  then have "split_once [CHR 0x27] (c # v) = map_option (\<lambda>(a, b). (c # a, b)) (split_once [CHR 0x27] v)" by simp
  with False show ?thesis
    by (simp add: str_replace.simps [of _ _ "c # v"] str_replace.simps [of _ _ v] split: option.splits)
qed (simp add: str_replace.simps [of _ _ "CHR 0x27 # v"])

lemma double_quotes: "str_replace [CHR 0x27] [CHR 0x27, CHR 0x27] v =
   concat (map (\<lambda>c. if c = CHR 0x27 then [c, c] else [c]) v)"
  by (induction v) (simp_all add: double_quotes_Cons str_replace.simps [of _ _ "[]"])

lemma has_control_plain: "\<not> has_control v \<Longrightarrow> list_all (\<lambda>c. \<not> is_control_byte c) v"
  by (induction v) auto

lemma line_break_is_control: "is_line_break c \<Longrightarrow> is_control_byte c"
  by (auto simp: is_line_break_def is_control_byte_def byte_def)

lemma read_single_quoted_back:
  assumes "list_all (\<lambda>c. \<not> is_control_byte c) v" "rest = [] \<or> hd rest \<noteq> CHR 0x27"
  shows "read_single_quoted (concat (map (\<lambda>c. if c = CHR 0x27 then [c, c] else [c]) v) @ CHR 0x27 # rest) =
         Some (v, rest)"
  using assms(1)
proof (induction v)
  case Nil
  then show ?case using assms(2) by (cases rest) (auto simp: is_line_break_def)
next
  case (Cons c v)
  obtain d s where next': "concat (map (\<lambda>c. if c = CHR 0x27 then [c, c] else [c]) v) @ CHR 0x27 # rest = d # s"
    by (cases "concat (map (\<lambda>c. if c = CHR 0x27 then [c, c] else [c]) v) @ CHR 0x27 # rest") auto
  have "\<not> is_line_break c" using Cons.prems line_break_is_control by auto
  then show ?case using Cons.IH Cons.prems next' by (cases "c = CHR 0x27") auto
qed

lemma to_digit_hex_digit: "n < 16 \<Longrightarrow> to_digit 16 (hex_digit n) = Some n"
proof -
  have "list_all (\<lambda>n. to_digit 16 (hex_digit n) = Some n) [0..<16]" by code_simp
  then show "n < 16 \<Longrightarrow> to_digit 16 (hex_digit n) = Some n" by (simp add: list_all_iff)
qed

lemma read_unicode_escape:
  assumes "n < 0x800"
  shows "read_double_quoted (push_yaml_unicode_escape n @ s) =
         map_option (\<lambda>(w, rest). (encode_code_point n @ w, rest)) (read_double_quoted s)"
proof -
  have digits: "read_four_digits (map (\<lambda>shift. hex_digit (n div 2 ^ shift mod 16)) [12, 8, 4, 0] @ s) = Some (n, s)"
  proof -
    have "n div 4096 mod 16 = 0" using assms by simp
    moreover have "n div 256 mod 16 = n div 16 div 16" using assms by (simp add: div_mult2_eq [symmetric] less_mult_imp_div_less)
    then have "((n div 256 mod 16) * 16 + n div 16 mod 16) * 16 + n mod 16 = n" by (simp only: div_mult_mod_eq)
    moreover have "to_digit 16 (hex_digit (k mod 16)) = Some (k mod 16)" for k by (simp add: to_digit_hex_digit)
    moreover have "to_digit 16 (hex_digit 0) = Some 0" "to_digit 16 (hex_digit (n div 256)) = Some (n div 256)"
      using assms by (simp_all add: to_digit_hex_digit less_mult_imp_div_less)
    moreover have "n div 256 mod 16 = n div 256" using assms by (simp add: less_mult_imp_div_less)
    ultimately show ?thesis by simp
  qed
  define t where "t = CHR 0x75 # map (\<lambda>shift. hex_digit (n div 2 ^ shift mod 16)) [12, 8, 4, 0] @ s"
  have "read_escape t = Some (encode_code_point n, s)"
    unfolding t_def read_escape.simps(2) digits by simp
  moreover have "push_yaml_unicode_escape n @ s = CHR 0x5C # t"
    by (simp add: push_yaml_unicode_escape_def t_def)
  ultimately show ?thesis by (simp add: read_double_quoted.simps(2) is_line_break_def)
qed

lemma control_byte_below: "is_control_byte c \<Longrightarrow> byte c < 0x80"
  by (auto simp: is_control_byte_def)

lemma char_of_byte [simp]: "char_of (byte c) = c"
  by (simp add: byte_def)

lemma read_plain_byte:
  "c \<noteq> CHR 0x22 \<Longrightarrow> c \<noteq> CHR 0x5C \<Longrightarrow> \<not> is_line_break c \<Longrightarrow>
   read_double_quoted (c # s) = map_option (\<lambda>(w, rest). (c # w, rest)) (read_double_quoted s)"
  by (simp add: read_double_quoted.simps(2))

lemma read_simple_escape:
  "map_of simple_escapes e = Some d \<Longrightarrow> e \<noteq> CHR 0x75 \<Longrightarrow>
   read_double_quoted (CHR 0x5C # e # s) = map_option (\<lambda>(w, rest). (d # w, rest)) (read_double_quoted s)"
  by (simp add: read_double_quoted.simps(2) [of "CHR 0x5C"] is_line_break_def)

lemma read_yaml_byte:
  "read_double_quoted (yaml_byte c @ s) = map_option (\<lambda>(w, rest). (c # w, rest)) (read_double_quoted s)"
proof (cases "c \<in> {CHR 0x22, CHR 0x5C, CHR 0x0A, CHR 0x0D, CHR 0x09, CHR 0x08, CHR 0x0C}")
  case True
  then obtain e where "yaml_byte c = [CHR 0x5C, e]" "map_of simple_escapes e = Some c" "e \<noteq> CHR 0x75"
    by (elim insertE) (auto simp: yaml_byte_def simple_escapes_def)
  then show ?thesis by (simp add: read_simple_escape)
next
  case plain: False
  show ?thesis
  proof (cases "is_control_byte c")
    case True
    then have "byte c < 0x80" by (rule control_byte_below)
    with plain True show ?thesis by (simp add: yaml_byte_def read_unicode_escape encode_code_point_def)
  next
    case False
    then have "\<not> is_line_break c" using line_break_is_control by blast
    with plain False show ?thesis by (simp add: yaml_byte_def read_plain_byte)
  qed
qed

lemma encode_control_pair: "is_control_pair c d \<Longrightarrow> encode_code_point (byte d) = [c, d]"
proof -
  assume pair: "is_control_pair c d"
  then have bounds: "byte c = 0xC2" "0x80 \<le> byte d" "byte d \<le> 0x9F" by (simp_all add: is_control_pair_def)
  then have quotient: "byte d div 64 = 2" by (intro div_nat_eqI) simp_all
  moreover from this bounds have "0x80 + byte d mod 64 = byte d"
    using div_mult_mod_eq [of "byte d" 64] by simp
  moreover have "0xC0 + byte d div 64 = byte c" using bounds quotient by simp
  moreover note bounds
  ultimately have "encode_code_point (byte d) = [char_of (byte c), char_of (byte d)]"
    by (simp add: encode_code_point_def)
  then show ?thesis by simp
qed

lemma read_double_quoted_back: "read_double_quoted (yaml_escape v @ CHR 0x22 # rest) = Some (v, rest)"
proof (induction v rule: yaml_escape.induct)
  case 1
  then show ?case by (simp add: read_double_quoted.simps is_line_break_def)
next
  case (2 c)
  then show ?case by (simp add: read_yaml_byte read_double_quoted.simps is_line_break_def)
next
  case (3 c d s)
  show ?case
  proof (cases "is_control_pair c d")
    case True
    then have "byte d < 0x800" by (simp add: is_control_pair_def)
    then show ?thesis using True 3 by (simp add: read_unicode_escape encode_control_pair)
  next
    case False
    then show ?thesis using 3 by (simp add: read_yaml_byte)
  qed
qed

lemma read_scalar_back:
  assumes "rest = [] \<or> hd rest \<noteq> CHR 0x27"
  shows "read_scalar (yaml_quote v @ rest) = Some (v, rest)"
proof (cases "has_control v")
  case True
  then show ?thesis by (simp add: read_scalar_def yaml_quote_def yaml_double_quote_def read_double_quoted_back)
next
  case False
  then show ?thesis
    using read_single_quoted_back [OF has_control_plain [OF False] assms]
    by (simp add: read_scalar_def yaml_quote_def double_quotes)
qed

lemma hex_digit_plain: "n < 16 \<Longrightarrow> \<not> is_control_byte (hex_digit n)"
proof -
  have "list_all (\<lambda>n. \<not> is_control_byte (hex_digit n)) [0..<16]" by code_simp
  then show "n < 16 \<Longrightarrow> \<not> is_control_byte (hex_digit n)" by (simp add: list_all_iff)
qed

lemma unicode_escape_plain: "list_all (\<lambda>c. \<not> is_control_byte c) (push_yaml_unicode_escape n)"
  by (simp add: push_yaml_unicode_escape_def hex_digit_plain is_control_byte_def [of "CHR 0x5C"]
      is_control_byte_def [of "CHR 0x75"] byte_def)

lemma yaml_byte_plain: "list_all (\<lambda>c. \<not> is_control_byte c) (yaml_byte c)"
  by (simp add: yaml_byte_def unicode_escape_plain) (simp add: is_control_byte_def byte_def)

lemma yaml_escape_plain: "list_all (\<lambda>c. \<not> is_control_byte c) (yaml_escape v)"
  by (induction v rule: yaml_escape.induct) (simp_all add: yaml_byte_plain unicode_escape_plain)

lemma yaml_quote_plain: "list_all (\<lambda>c. \<not> is_control_byte c) (yaml_quote v)"
proof -
  have quotes: "\<not> is_control_byte CHR 0x22" "\<not> is_control_byte CHR 0x27"
    by (simp_all add: is_control_byte_def byte_def)
  have "list_all (\<lambda>c. \<not> is_control_byte c) (concat (map (\<lambda>c. if c = CHR 0x27 then [c, c] else [c]) v))"
    if "list_all (\<lambda>c. \<not> is_control_byte c) v" using that by (induction v) auto
  then show ?thesis
    using has_control_plain [of v] yaml_escape_plain [of v] quotes
    by (simp add: yaml_quote_def yaml_double_quote_def double_quotes)
qed

text \<open>The control characters of two bytes: a byte that is written as it is is followed by the byte
  that follows it in the string, or by an ASCII byte.\<close>

abbreviation plain_ascii :: "string \<Rightarrow> bool" where
  "plain_ascii \<equiv> list_all (\<lambda>c. is_ascii c \<and> \<not> is_control_byte c)"

lemma has_control_plain_ascii: "plain_ascii x \<Longrightarrow> has_control (x @ s) = has_control s"
  by (induction x) (auto simp: is_control_pair_def is_ascii_def split: list.split)

lemma hex_digit_ascii: "n < 16 \<Longrightarrow> is_ascii (hex_digit n) \<and> \<not> is_control_byte (hex_digit n)"
proof -
  have "list_all (\<lambda>n. is_ascii (hex_digit n) \<and> \<not> is_control_byte (hex_digit n)) [0..<16]" by code_simp
  then show "n < 16 \<Longrightarrow> is_ascii (hex_digit n) \<and> \<not> is_control_byte (hex_digit n)" by (simp add: list_all_iff)
qed

lemma unicode_escape_ascii: "plain_ascii (push_yaml_unicode_escape n)"
  by (simp add: push_yaml_unicode_escape_def hex_digit_ascii is_ascii_def [of "CHR 0x5C"] is_ascii_def [of "CHR 0x75"]
      is_control_byte_def [of "CHR 0x5C"] is_control_byte_def [of "CHR 0x75"] byte_def)

lemma yaml_byte_ascii: "yaml_byte c = [c] \<and> \<not> is_control_byte c \<or> plain_ascii (yaml_byte c)"
  by (simp add: yaml_byte_def unicode_escape_ascii) (simp add: is_control_byte_def is_ascii_def byte_def)

lemma not_pair_ascii: "is_ascii d \<Longrightarrow> \<not> is_control_pair c d"
  by (simp add: is_control_pair_def is_ascii_def)

lemma escape_starts:
  "\<exists>e t. yaml_escape (d # s) @ z = e # t \<and> (e = d \<or> is_ascii e)"
proof -
  have byte: "\<exists>e t. yaml_byte d @ z = e # t \<and> (e = d \<or> is_ascii e)" for z
  proof -
    have "yaml_byte d \<noteq> []" by (simp add: yaml_byte_def push_yaml_unicode_escape_def)
    then obtain e t where "yaml_byte d = e # t" by (cases "yaml_byte d") simp_all
    then show ?thesis using yaml_byte_ascii [of d] by auto
  qed
  have slash: "is_ascii (CHR 0x5C)" by (simp add: is_ascii_def byte_def)
  show ?thesis
    using byte slash by (cases s) (simp_all add: push_yaml_unicode_escape_def)
qed

lemma byte_then_no_control:
  assumes "\<not> has_control t" "\<And>e r. t = e # r \<Longrightarrow> \<not> is_control_pair c e"
  shows "\<not> has_control (yaml_byte c @ t)"
proof (cases "plain_ascii (yaml_byte c)")
  case True
  then show ?thesis using has_control_plain_ascii assms(1) by simp
next
  case False
  then show ?thesis using yaml_byte_ascii [of c] assms by (cases t) auto
qed

lemma escape_no_control:
  assumes "\<not> has_control z" "\<exists>e r. z = e # r \<and> is_ascii e"
  shows "\<not> has_control (yaml_escape v @ z)"
proof (induction v rule: yaml_escape.induct)
  case (2 c)
  show ?case using byte_then_no_control [OF assms(1), of c] assms(2) not_pair_ascii by auto
next
  case (3 c d s)
  show ?case
  proof (cases "is_control_pair c d")
    case True
    then show ?thesis using 3 has_control_plain_ascii [OF unicode_escape_ascii] by simp
  next
    case False
    obtain e t where e: "yaml_escape (d # s) @ z = e # t" "e = d \<or> is_ascii e" using escape_starts by blast
    have "\<not> is_control_pair c e" using e(2) False not_pair_ascii by blast
    then have "\<not> has_control (yaml_byte c @ yaml_escape (d # s) @ z)"
      using 3(2) [OF False] e(1) by (intro byte_then_no_control) auto
    then show ?thesis using False by simp
  qed
qed (simp add: assms(1))

lemma doubled_no_control:
  assumes "\<not> has_control v" "\<not> has_control z" "\<exists>e r. z = e # r \<and> is_ascii e"
  shows "\<not> has_control (concat (map (\<lambda>c. if c = CHR 0x27 then [c, c] else [c]) v) @ z)"
  using assms(1)
proof (induction v)
  case (Cons c v)
  have quote: "is_ascii CHR 0x27" "\<not> is_control_byte CHR 0x27"
    by (simp_all add: is_ascii_def is_control_byte_def byte_def)
  let ?t = "concat (map (\<lambda>c. if c = CHR 0x27 then [c, c] else [c]) v) @ z"
  have t: "\<not> has_control ?t" using Cons by simp
  have pair: "\<not> is_control_pair c e" if "?t = e # r" for e r
  proof (cases v)
    case Nil
    then show ?thesis using that assms(3) not_pair_ascii by auto
  next
    case (Cons d w)
    then have "e = d" using that by (auto split: if_splits)
    then show ?thesis using \<open>\<not> has_control (c # v)\<close> Cons by simp
  qed
  show ?case
  proof (cases "c = CHR 0x27")
    case True
    then show ?thesis using t quote has_control_plain_ascii [of "[c, c]" ?t] by simp
  next
    case False
    then show ?thesis using t pair \<open>\<not> has_control (c # v)\<close> by (auto split: list.split)
  qed
qed (simp add: assms(2))

lemma yaml_quote_no_control: "\<not> has_control (yaml_quote v)"
proof -
  have quotes: "is_ascii CHR 0x22" "\<not> is_control_byte CHR 0x22" "is_ascii CHR 0x27" "\<not> is_control_byte CHR 0x27"
    by (simp_all add: is_ascii_def is_control_byte_def byte_def)
  have quote: "\<not> has_control (q # t)" if "is_ascii q" "\<not> is_control_byte q" "\<not> has_control t" for q t
    using has_control_plain_ascii [of "[q]" t] that by simp
  show ?thesis
  proof (cases "has_control v")
    case True
    have "\<not> has_control (yaml_escape v @ [CHR 0x22])"
      using quotes by (intro escape_no_control) simp_all
    then show ?thesis using True quote [OF quotes(1,2)] by (simp add: yaml_quote_def yaml_double_quote_def)
  next
    case False
    have "\<not> has_control (concat (map (\<lambda>c. if c = CHR 0x27 then [c, c] else [c]) v) @ [CHR 0x27])"
      using quotes False by (intro doubled_no_control) simp_all
    from quote [OF quotes(3,4) this] False show ?thesis
      by (simp only: yaml_quote_def double_quotes append_Cons append_Nil if_False) simp
  qed
qed

lemma has_control_pair: "\<not> has_control s \<Longrightarrow> s = a @ c # d # b \<Longrightarrow> \<not> is_control_pair c d"
  by (induction a arbitrary: s) auto

text \<open>C30. A string that is written with yaml_quote is read back by the rules of quoted YAML
  scalars, whatever follows except a quote, and the written text has no control characters,
  neither ASCII ones nor U+0080 to U+009F, so it stays on its line.\<close>

theorem quoted_scalars_read_back:
  assumes "rest = [] \<or> hd rest \<noteq> CHR 0x27"
  shows "read_scalar (yaml_quote v @ rest) = Some (v, rest) \<and>
         list_all (\<lambda>c. \<not> is_control_byte c) (yaml_quote v) \<and>
         (\<forall>before c d after. yaml_quote v = before @ c # d # after \<longrightarrow>
            \<not> (byte c = 0xC2 \<and> 0x80 \<le> byte d \<and> byte d \<le> 0x9F))"
  using read_scalar_back [OF assms] yaml_quote_plain has_control_pair [OF yaml_quote_no_control]
  unfolding is_control_pair_def by blast

theorem quoted_scalars_read_back_witness:
  "read_scalar (yaml_quote [CHR 0x27, CHR 0x0A, CHR 0xC2, CHR 0x85] @ '': x'') =
     Some ([CHR 0x27, CHR 0x0A, CHR 0xC2, CHR 0x85], '': x'') \<and>
   list_all (\<lambda>c. \<not> is_control_byte c) (yaml_quote [CHR 0x27, CHR 0x0A, CHR 0xC2, CHR 0x85])"
  using quoted_scalars_read_back [of "'': x''" "[CHR 0x27, CHR 0x0A, CHR 0xC2, CHR 0x85]"] by simp

end
