(* ===== verification/Docker_Exec.thy ===== *)
theory Docker_Exec
  imports Lifecycle_Run Utf8
begin

text \<open>
  Commands in a running container, \<open>src/docker/exec.rs\<close>: the checks around them and the
  environment that the login shell of the remote user sets. The call of Docker is a parameter.
  A warning is returned beside the result.
\<close>

type_synonym 'w docker_exec = "string \<Rightarrow> exec_command_spec \<Rightarrow> ('w, string, exec_output) io"

definition validate_exec_spec :: "exec_command_spec \<Rightarrow> unit result" where
  "validate_exec_spec spec =
     (if xs_command spec = [] then Inl ''Docker exec command must not be empty'' else Inr ())"

definition exec_capture_output :: "'w docker_exec \<Rightarrow> 'w docker_exec" where
  "exec_capture_output docker container spec =
     io_bind (io_lift (validate_exec_spec spec)) (\<lambda>_. docker container spec)"

definition ensure_success_exit_code ::
  "string \<Rightarrow> string list \<Rightarrow> string list \<Rightarrow> int \<Rightarrow> exec_output \<Rightarrow> unit result" where
  "ensure_success_exit_code container command redactions exit_code output =
     (if exit_code = 0 then Inr ()
      else Inl (fmt [''Docker exec failed in container '', container, '': command `'',
        redact_values (str_join '' '' command) redactions, ''` exited with exit code '', show_int exit_code,
        ''. stdout tail: `'', redact_values (output_tail (eo_stdout output)) redactions,
        ''` stderr tail: `'', redact_values (output_tail (eo_stderr output)) redactions, ''`'']))"

definition ensure_success_output :: "string \<Rightarrow> string list \<Rightarrow> exec_output \<Rightarrow> unit result" where
  "ensure_success_output container command output =
     ensure_success_exit_code container command [] (eo_exit_code output) output"

definition exec_capture :: "'w docker_exec \<Rightarrow> 'w docker_exec" where
  "exec_capture docker container spec =
     io_bind (exec_capture_output docker container spec) (\<lambda>output.
     io_bind (io_lift (ensure_success_exit_code container (xs_command spec) (xs_redactions spec)
                (eo_exit_code output) output)) (\<lambda>_.
     io_return output))"

section \<open>The environment of the login shell\<close>

definition effective_user_env_probe :: "user_env_probe option \<Rightarrow> user_env_probe" where
  "effective_user_env_probe probe = (case probe of Some p \<Rightarrow> p | None \<Rightarrow> Login_Interactive_Shell)"

fun probe_flags :: "user_env_probe \<Rightarrow> string option" where
  "probe_flags Probe_None = None"
| "probe_flags Login_Shell = Some ''-lc''"
| "probe_flags Interactive_Shell = Some ''-ic''"
| "probe_flags Login_Interactive_Shell = Some ''-lic''"

definition user_env_probe_command :: "user_env_probe \<Rightarrow> string option \<Rightarrow> string list option" where
  "user_env_probe_command probe user_shell =
     map_option (\<lambda>flags.
       [case user_shell of Some s \<Rightarrow> if trim s \<noteq> [] then trim s else ''/bin/sh'' | None \<Rightarrow> ''/bin/sh'', flags, ''env''])
       (probe_flags probe)"

definition env_probe_entry :: "string \<Rightarrow> (string \<times> string) option" where
  "env_probe_entry line =
     (case split_once ''='' line of
        None \<Rightarrow> None
      | Some (key, v) \<Rightarrow> if key = [] then None else Some (key, v))"

definition parse_env_probe_output :: "string \<Rightarrow> (string, string) btree_map" where
  "parse_env_probe_output output = bt_collect (filter_map env_probe_entry (str_lines output))"

definition merge_probe_env ::
  "(string, string) btree_map \<Rightarrow> (string, string) btree_map \<Rightarrow> (string, string) btree_map" where
  "merge_probe_env probe_env remote_env = bt_extend probe_env remote_env"

definition user_env_probe_failure_warning :: "string \<Rightarrow> exec_output result \<Rightarrow> string list \<Rightarrow> string" where
  "user_env_probe_failure_warning container result redactions =
     fmt [''User environment probe failed in container '', container,
          ''; continuing without probed environment: '',
          (case result of
             Inr output \<Rightarrow> fmt [''probe exited with exit code '', show_int (eo_exit_code output), ''. stderr tail: `'',
               redact_values (output_tail (eo_stderr output)) redactions, ''`'']
           | Inl e \<Rightarrow> redact_values e redactions)]"

definition resolve_exec_env ::
  "(string \<Rightarrow> string) \<Rightarrow> 'w docker_exec \<Rightarrow> string \<Rightarrow> string \<Rightarrow> string option \<Rightarrow> (string, string) btree_map \<Rightarrow>
   user_env_probe option \<Rightarrow> string list \<Rightarrow> 'w \<Rightarrow> ((string, string) btree_map \<times> string option) \<times> 'w" where
  "resolve_exec_env utf8_error docker container user user_shell remote_env probe redactions w =
     (case user_env_probe_command (effective_user_env_probe probe) user_shell of
        None \<Rightarrow> ((remote_env, None), w)
      | Some command \<Rightarrow>
          (case exec_capture_output docker container
                  \<lparr>xs_command = command, xs_user = Some user, xs_working_dir = None, xs_env = [],
                   xs_redactions = redactions, xs_tty = False\<rparr> w of
             (result, w') \<Rightarrow>
               (case result of
                  Inr output \<Rightarrow>
                    (if eo_exit_code output \<noteq> 0
                     then ((remote_env, Some (user_env_probe_failure_warning container result redactions)), w')
                     else (case from_utf8 utf8_error (eo_stdout output) of
                             Inl e \<Rightarrow> ((remote_env, Some (fmt [''User environment probe returned non-UTF-8 output in container '',
                               container, ''; continuing without probed environment: '', e])), w')
                           | Inr stdout \<Rightarrow> ((merge_probe_env (parse_env_probe_output stdout) remote_env, None), w')))
                | Inl e \<Rightarrow>
                    ((remote_env, Some (user_env_probe_failure_warning container result redactions)), w'))))"

lemma bt_ok_merge_probe_env: "bt_ok (merge_probe_env (parse_env_probe_output s) env)"
  by (simp add: merge_probe_env_def parse_env_probe_output_def bt_extend_eq bt.ok_insert_all)

lemma get_merge_probe_env:
  assumes "bt_ok env"
  shows "bt_get (merge_probe_env probed env) k =
         (case bt_get env k of Some v \<Rightarrow> Some v | None \<Rightarrow> bt_get probed k)"
proof -
  have "map_of (rev env) = map_of env"
    using bt_ok_distinct [OF assms] by (subst map_of_inject_set) (simp_all add: rev_map [symmetric])
  then show ?thesis by (simp add: merge_probe_env_def bt_extend_eq bt.get_insert_all bt_get_def [of env])
qed

text \<open>Probing the login shell returns a well-formed environment in which every variable of
  the remote environment keeps its value, and exactly the remote environment when there is a
  warning.\<close>

theorem probed_variables_never_replace_the_remote_environment:
  assumes "bt_ok remote_env"
    and "resolve_exec_env utf8_error docker container user user_shell remote_env probe redactions w =
         ((env, warning), w')"
  shows "bt_ok env \<and> (case bt_get remote_env k of Some v \<Rightarrow> bt_get env k = Some v | None \<Rightarrow> True) \<and>
         (case warning of Some _ \<Rightarrow> env = remote_env | None \<Rightarrow> True)"
proof -
  have kept: "case bt_get remote_env k of Some v \<Rightarrow> bt_get (merge_probe_env probed remote_env) k = Some v | None \<Rightarrow> True"
    for probed using get_merge_probe_env [OF assms(1)] by (simp split: option.split)
  have same: "case bt_get remote_env k of Some v \<Rightarrow> bt_get remote_env k = Some v | None \<Rightarrow> True"
    by (simp split: option.split)
  have "(env = remote_env) \<or>
        (\<exists>stdout. env = merge_probe_env (parse_env_probe_output stdout) remote_env \<and> warning = None)"
    using assms(2) by (auto simp: resolve_exec_env_def split: option.splits prod.splits sum.splits if_splits)
  then show ?thesis
  proof
    assume "env = remote_env"
    with same assms(1) show ?thesis by (simp split: option.split)
  next
    assume "\<exists>stdout. env = merge_probe_env (parse_env_probe_output stdout) remote_env \<and> warning = None"
    with kept show ?thesis by (auto simp: bt_ok_merge_probe_env)
  qed
qed

definition probing_docker :: "unit docker_exec" where
  "probing_docker container spec = io_return \<lparr>eo_stdout = ''A=1'' @ [CHR 0x0A] @ ''B=2'', eo_stderr = [], eo_exit_code = 0\<rparr>"

theorem probed_variables_never_replace_the_remote_environment_witness:
  "resolve_exec_env id probing_docker ''c'' ''me'' None [(''B'', ''3'')] None [] () =
     (([(''A'', ''1''), (''B'', ''3'')], None), ()) \<and>
   bt_get [(''A'', ''1''), (''B'', ''3'')] ''B'' = Some ''3''"
proof -
  have run: "resolve_exec_env id probing_docker ''c'' ''me'' None [(''B'', ''3'')] None [] () =
     (([(''A'', ''1''), (''B'', ''3'')], None), ())" by code_simp
  have "bt_ok [(''B'', ''3'')]" by (simp add: bt_ok_def)
  from probed_variables_never_replace_the_remote_environment [OF this run, of "''B''"] run
  show ?thesis by (simp add: bt_get_def)
qed

end
