(* ===== verification/Container_Users.thy ===== *)
theory Container_Users
  imports Docker_Exec Config_Hash
begin

text \<open>
  The users of the container, \<open>src/docker/user.rs\<close> and \<open>src/up/uid_gid.rs\<close>: which user the
  container runs as and which one the tools work as, and whether the ids of that user are changed
  to those of the user on the host. The calls of Docker are the fields of a record over the world.
\<close>

section \<open>Data\<close>

datatype remote_user_source = Explicit_User | Image_Metadata_User | Compose_Service_User | Image_Config_User | Root_Fallback

record remote_user_selection =
  rs_user :: string
  rs_source :: remote_user_source

datatype docker_user_identifier = User_Name string | User_Id u32

record docker_image_config_user =
  du_raw :: string
  du_user :: docker_user_identifier
  du_group :: "docker_user_identifier option"

record effective_user_resolve_input =
  ei_devcontainer_remote :: "string option"
  ei_devcontainer_container :: "string option"
  ei_image_metadata_remote :: "string option"
  ei_image_metadata_container :: "string option"
  ei_image_config :: "string option"

record effective_user =
  eu_user :: string
  eu_source :: remote_user_source

datatype effective_remote_user_origin = Explicit_Remote | Image_Metadata_Remote | Container_Origin

record effective_remote_user =
  er_user :: string
  er_source :: remote_user_source
  er_origin :: effective_remote_user_origin

record effective_users =
  eus_container_user :: effective_user
  eus_remote_user :: effective_remote_user

record host_user_ids =
  hu_uid :: u32
  hu_gid :: u32

datatype host_platform = Linux_Host | Non_Linux_Host

datatype uid_gid_sync_target_kind = Remote_User_Target | Container_User_Target

record uid_gid_sync_target =
  st_kind :: uid_gid_sync_target_kind
  st_user :: string
  st_host :: host_user_ids

datatype uid_gid_sync_noop_reason =
  Sync_Disabled | Sync_Non_Linux_Host | Sync_No_Explicit_User | Sync_Numeric_User_Without_Passwd | Sync_Root

datatype uid_gid_sync_decision = Decide_Sync uid_gid_sync_target | Decide_Noop uid_gid_sync_noop_reason

record resolved_user_ids =
  ri_name :: string
  ri_uid :: u32
  ri_gid :: u32

datatype uid_gid_sync_plan = Plan_Sync uid_gid_sync_target resolved_user_ids | Plan_Noop uid_gid_sync_noop_reason

definition default_uid_gid_sync_plan :: uid_gid_sync_plan where
  "default_uid_gid_sync_plan = Plan_Noop Sync_No_Explicit_User"

text \<open>The user that is resolved in the container, with what \<open>Lifecycle_Run\<close> needs of it.\<close>

record container_remote_user = resolved_remote_user +
  ru_uid :: u32
  ru_gid :: u32
  ru_source :: remote_user_source
  ru_fallback_from :: "string option"

record container_user_record =
  cu_name :: string
  cu_uid :: u32
  cu_gid :: u32
  cu_home :: string
  cu_shell :: "string option"

definition root_users :: effective_users where
  "root_users = \<lparr>eus_container_user = \<lparr>eu_user = ''root'', eu_source = Root_Fallback\<rparr>,
     eus_remote_user = \<lparr>er_user = ''root'', er_source = Root_Fallback, er_origin = Container_Origin\<rparr>\<rparr>"

definition remote_selection :: "effective_users \<Rightarrow> remote_user_selection" where
  "remote_selection users =
     \<lparr>rs_user = er_user (eus_remote_user users), rs_source = er_source (eus_remote_user users)\<rparr>"

definition remote_home :: "container_remote_user \<Rightarrow> string result" where
  "remote_home user = ok_or (ru_home user)
     (fmt [''Remote user home directory is unavailable because the user has no passwd entry: '', ru_user user])"

section \<open>User names\<close>

definition parse_u32 :: "string \<Rightarrow> u32 option" where
  "parse_u32 s = map_option of_nat (parse_unsigned (2 ^ 32 - 1) s)"

definition normalize_user :: "string option \<Rightarrow> string option" where
  "normalize_user v = (case v of None \<Rightarrow> None | Some s \<Rightarrow> if trim s = [] then None else Some (trim s))"

definition has_white_space :: "string \<Rightarrow> bool" where
  "has_white_space s = list_ex (\<lambda>w. str_contains w s) white_space"

definition parse_docker_user_identifier :: "string \<Rightarrow> string \<Rightarrow> docker_user_identifier result" where
  "parse_docker_user_identifier raw label =
     (let v = trim raw
      in if v = [] then Inl (fmt [''Docker image user '', label, '' must not be empty''])
         else if has_white_space v \<or> has_control v
         then Inl (fmt [''Docker image user '', label, '' contains unsupported whitespace or control characters: '', v])
         else if list_all is_ascii_digit v
         then (case parse_u32 v of
                 Some n \<Rightarrow> Inr (User_Id n)
               | None \<Rightarrow> Inl (with_context [''Docker image user '', label, '' must fit in u32: '', v]
                   ''number too large to fit in target type''))
         else Inr (User_Name v))"

definition parse_docker_image_config_user :: "string option \<Rightarrow> docker_image_config_user option result" where
  "parse_docker_image_config_user v =
     (case normalize_user v of
        None \<Rightarrow> Inr None
      | Some raw \<Rightarrow>
          (case split_on (\<lambda>c. c = CHR '':'') raw of
             [user] \<Rightarrow>
               bind_res (parse_docker_user_identifier user ''user'') (\<lambda>u.
               Inr (Some \<lparr>du_raw = raw, du_user = u, du_group = None\<rparr>))
           | [user, user_group] \<Rightarrow>
               bind_res (parse_docker_user_identifier user ''user'') (\<lambda>u.
               bind_res (parse_docker_user_identifier user_group ''group'') (\<lambda>g.
               Inr (Some \<lparr>du_raw = raw, du_user = u, du_group = Some g\<rparr>)))
           | _ \<Rightarrow> Inl (fmt [''Docker image user must contain at most one group separator: '', raw])))"

definition is_numeric_user_identity :: "string \<Rightarrow> bool" where
  "is_numeric_user_identity user =
     (docker_user_lookup_key user \<noteq> [] \<and> list_all is_ascii_digit (docker_user_lookup_key user))"

definition is_root_identity :: "string \<Rightarrow> bool" where
  "is_root_identity user = (docker_user_lookup_key user = ''root'' \<or> docker_user_lookup_key user = ''0'')"

section \<open>Choosing the users\<close>

definition or_else :: "'a option \<Rightarrow> 'a option \<Rightarrow> 'a option" where
  "or_else a b = (case a of Some x \<Rightarrow> Some x | None \<Rightarrow> b)"

definition resolve_effective_users_with_compose_service_user ::
  "effective_user_resolve_input \<Rightarrow> string option \<Rightarrow> effective_users result" where
  "resolve_effective_users_with_compose_service_user input compose_service_user =
     bind_res (parse_docker_image_config_user (ei_image_config input)) (\<lambda>image_config_user.
     let found = (\<lambda>source v. map_option (\<lambda>u. \<lparr>eu_user = u, eu_source = source\<rparr>) v);
         container_user =
           (case or_else (found Explicit_User (normalize_user (ei_devcontainer_container input)))
                (or_else (found Image_Metadata_User (normalize_user (ei_image_metadata_container input)))
                (or_else (found Compose_Service_User (normalize_user compose_service_user))
                         (found Image_Config_User (map_option du_raw image_config_user)))) of
              Some u \<Rightarrow> u
            | None \<Rightarrow> \<lparr>eu_user = ''root'', eu_source = Root_Fallback\<rparr>);
         remote_user =
           (case normalize_user (ei_devcontainer_remote input) of
              Some u \<Rightarrow> \<lparr>er_user = u, er_source = Explicit_User, er_origin = Explicit_Remote\<rparr>
            | None \<Rightarrow>
                (case normalize_user (ei_image_metadata_remote input) of
                   Some u \<Rightarrow> \<lparr>er_user = u, er_source = Image_Metadata_User, er_origin = Image_Metadata_Remote\<rparr>
                 | None \<Rightarrow> \<lparr>er_user = eu_user container_user, er_source = eu_source container_user,
                             er_origin = Container_Origin\<rparr>))
     in Inr \<lparr>eus_container_user = container_user, eus_remote_user = remote_user\<rparr>)"

definition resolve_effective_users :: "effective_user_resolve_input \<Rightarrow> effective_users result" where
  "resolve_effective_users input = resolve_effective_users_with_compose_service_user input None"

definition decide_uid_gid_sync ::
  "effective_users \<Rightarrow> bool \<Rightarrow> host_platform \<Rightarrow> host_user_ids \<Rightarrow> uid_gid_sync_decision" where
  "decide_uid_gid_sync users update_remote_user_uid platform host =
     (if \<not> update_remote_user_uid then Decide_Noop Sync_Disabled
      else if platform \<noteq> Linux_Host then Decide_Noop Sync_Non_Linux_Host
      else case (case er_origin (eus_remote_user users) of
                   Container_Origin \<Rightarrow>
                     if eu_source (eus_container_user users) \<in> {Explicit_User, Image_Metadata_User, Compose_Service_User}
                     then Some \<lparr>st_kind = Container_User_Target, st_user = eu_user (eus_container_user users), st_host = host\<rparr>
                     else None
                 | _ \<Rightarrow> Some \<lparr>st_kind = Remote_User_Target, st_user = er_user (eus_remote_user users), st_host = host\<rparr>) of
             None \<Rightarrow> Decide_Noop Sync_No_Explicit_User
           | Some target \<Rightarrow>
               if is_root_identity (st_user target) then Decide_Noop Sync_Root else Decide_Sync target)"

definition uid_gid_sync_runtime_user :: "string \<Rightarrow> uid_gid_sync_plan \<Rightarrow> string result" where
  "uid_gid_sync_runtime_user user plan =
     (case plan of
        Plan_Noop _ \<Rightarrow> Inr user
      | Plan_Sync target container \<Rightarrow>
          bind_res (parse_docker_image_config_user (Some user)) (\<lambda>parsed.
          case parsed of
            None \<Rightarrow> Inr user
          | Some p \<Rightarrow>
              if \<not> (case du_user p of User_Id uid \<Rightarrow> uid = ri_uid container | User_Name name \<Rightarrow> name = ri_name container)
              then Inr (du_raw p)
              else Inr ((case du_user p of User_Id _ \<Rightarrow> ri_name container | User_Name name \<Rightarrow> name) @
                (case du_group p of
                   None \<Rightarrow> []
                 | Some (User_Id gid) \<Rightarrow>
                     '':'' @ show_nat (unat (if gid = ri_gid container then hu_gid (st_host target) else gid))
                 | Some (User_Name g) \<Rightarrow> '':'' @ g))))"

section \<open>Looking users up in a container\<close>

definition user_lookup_not_found_exit_code :: int where
  "user_lookup_not_found_exit_code = 42"

definition lookup_user_command :: "string list" where
  "lookup_user_command = [''/bin/sh'', ''-c'', concat
     [''while IFS=: read -r name passwd uid gid gecos home shell; do if [ '', [CHR 0x22], ''$name'', [CHR 0x22], '' = '', [CHR 0x22],
      ''$DECUNE_REMOTE_USER'', [CHR 0x22], '' ] || [ '', [CHR 0x22], ''$uid'', [CHR 0x22], '' = '', [CHR 0x22], ''$DECUNE_REMOTE_USER'',
      [CHR 0x22], '' ]; then printf '', [CHR 0x27], ''%s:%s:%s:%s:%s:%s:%s'', [CHR 0x5C], ''n'', [CHR 0x27],
      concat (map (\<lambda>v. '' '' @ [CHR 0x22] @ ''$'' @ v @ [CHR 0x22])
        [''name'', ''passwd'', ''uid'', ''gid'', ''gecos'', ''home'', ''shell'']),
      ''; exit 0; fi; done </etc/passwd; status=$?; if [ '', [CHR 0x22], ''$status'', [CHR 0x22], '' -eq 0 ]; then exit '',
      show_int user_lookup_not_found_exit_code, ''; fi; exit '', [CHR 0x22], ''$status'', [CHR 0x22]]]"

definition parse_passwd_id :: "string \<Rightarrow> string \<Rightarrow> string \<Rightarrow> u32 result" where
  "parse_passwd_id reason v label = ok_or (parse_u32 (trim v))
     (with_context [''passwd record '', label, '' must be an unsigned integer: '', v] reason)"

text \<open>The parameter \<open>reason\<close> is the text of the error that \<open>str::parse\<close> returns for a number.\<close>

definition parse_passwd_record :: "(string \<Rightarrow> string) \<Rightarrow> string \<Rightarrow> container_user_record result" where
  "parse_passwd_record reason line =
     (let parts = split_on (\<lambda>c. c = CHR '':'') line; name = trim (parts ! 0); home = trim (parts ! 5)
      in if length parts < 7 then Inl ''passwd record must contain at least 7 fields''
         else if name = [] then Inl ''passwd record user name must not be empty''
         else if home = [] then Inl ''passwd record home directory must not be empty''
         else if \<not> starts_with ''/'' home
         then Inl (fmt [''passwd record home directory must be absolute: '', home])
         else bind_res (parse_passwd_id (reason (parts ! 2)) (parts ! 2) ''uid'') (\<lambda>uid.
              bind_res (parse_passwd_id (reason (parts ! 3)) (parts ! 3) ''gid'') (\<lambda>gid.
              Inr \<lparr>cu_name = name, cu_uid = uid, cu_gid = gid, cu_home = home,
                   cu_shell = normalize_user (Some (parts ! 6))\<rparr>)))"

record std_errors =
  se_utf8 :: "string \<Rightarrow> string"
  se_number :: "string \<Rightarrow> string"

definition first_line :: "string list \<Rightarrow> string" where
  "first_line lines = (case lines of [] \<Rightarrow> [] | line # _ \<Rightarrow> line)"

definition handle_user_lookup_output ::
  "std_errors \<Rightarrow> string \<Rightarrow> string \<Rightarrow> string list \<Rightarrow> exec_output \<Rightarrow> container_user_record option result" where
  "handle_user_lookup_output errors container user command output =
     (if eo_exit_code output \<noteq> 0 \<and> eo_exit_code output = user_lookup_not_found_exit_code then Inr None
      else case ensure_success_output container command output of
          Inl e \<Rightarrow> Inl (fmt [''Failed to query user in container '', container, '': '', user, '': '', e])
        | Inr _ \<Rightarrow>
            bind_res (map_err (with_context [''User lookup returned non-UTF-8 output in container: '', container])
                        (from_utf8 (se_utf8 errors) (eo_stdout output))) (\<lambda>stdout.
            bind_res (map_err (with_context [''Failed to parse passwd record for user: '', user])
                        (parse_passwd_record (se_number errors) (first_line (str_lines stdout)))) (\<lambda>record'.
            Inr (Some record'))))"

definition lookup_container_user ::
  "std_errors \<Rightarrow> 'w docker_exec \<Rightarrow> string \<Rightarrow> string \<Rightarrow> ('w, string, container_user_record option) io" where
  "lookup_container_user errors docker container user =
     io_bind (io_map_err (with_context [''Failed to query user in container '', container, '': '', user])
       (exec_capture_output docker container
          \<lparr>xs_command = lookup_user_command, xs_user = None, xs_working_dir = None,
           xs_env = [(''DECUNE_REMOTE_USER'', user)], xs_redactions = [], xs_tty = False\<rparr>)) (\<lambda>output.
     io_lift (handle_user_lookup_output errors container user lookup_user_command output))"

definition resolve_numeric_remote_user_ids ::
  "std_errors \<Rightarrow> 'w docker_exec \<Rightarrow> string \<Rightarrow> string \<Rightarrow> ('w, string, resolved_user_ids) io" where
  "resolve_numeric_remote_user_ids errors docker container user =
     (let command = [''/bin/sh'', ''-c'', ''id -u && id -g''];
          context' = with_context [''Failed to query numeric user in container '', container, '': '', user]
      in io_bind (io_map_err context' (exec_capture_output docker container
            \<lparr>xs_command = command, xs_user = Some user, xs_working_dir = None, xs_env = [],
             xs_redactions = [], xs_tty = False\<rparr>)) (\<lambda>output.
         io_lift
          (bind_res (map_err context' (ensure_success_output container command output)) (\<lambda>_.
           bind_res (map_err (with_context [''Numeric user lookup returned non-UTF-8 output in container: '', container])
                       (from_utf8 (se_utf8 errors) (eo_stdout output))) (\<lambda>stdout.
           let lines = str_lines stdout; uid_line = first_line lines; gid_line = first_line (drop 1 lines)
           in bind_res (map_err (with_context [''Failed to parse numeric user uid: '', user])
                          (parse_passwd_id (se_number errors uid_line) uid_line ''uid'')) (\<lambda>uid.
              bind_res (map_err (with_context [''Failed to parse numeric user gid: '', user])
                          (parse_passwd_id (se_number errors gid_line) gid_line ''gid'')) (\<lambda>gid.
              Inr \<lparr>ri_name = docker_user_lookup_key user, ri_uid = uid, ri_gid = gid\<rparr>)))))))"

definition resolve_selected_remote_user ::
  "std_errors \<Rightarrow> 'w docker_exec \<Rightarrow> string \<Rightarrow> remote_user_selection \<Rightarrow> ('w, string, container_remote_user) io" where
  "resolve_selected_remote_user errors docker container selection =
     io_bind (lookup_container_user errors docker container (docker_user_lookup_key (rs_user selection))) (\<lambda>found.
     case found of
       Some record' \<Rightarrow>
         io_return \<lparr>ru_user = rs_user selection, ru_home = Some (cu_home record'), ru_shell = cu_shell record',
           ru_uid = cu_uid record', ru_gid = cu_gid record', ru_source = rs_source selection, ru_fallback_from = None\<rparr>
     | None \<Rightarrow>
         if is_numeric_user_identity (rs_user selection)
         then io_bind (resolve_numeric_remote_user_ids errors docker container (rs_user selection)) (\<lambda>ids.
              io_return \<lparr>ru_user = rs_user selection, ru_home = None, ru_shell = None, ru_uid = ri_uid ids,
                ru_gid = ri_gid ids, ru_source = rs_source selection, ru_fallback_from = None\<rparr>)
         else io_fail (fmt [''Remote user does not exist in container '', container, '': '', rs_user selection]))"

definition resolve_remote_user ::
  "std_errors \<Rightarrow> 'w docker_exec \<Rightarrow> string \<Rightarrow> effective_users \<Rightarrow> uid_gid_sync_plan \<Rightarrow>
   ('w, string, container_remote_user) io" where
  "resolve_remote_user errors docker container users plan =
     (let selection = remote_selection users
      in io_bind (io_lift (uid_gid_sync_runtime_user (rs_user selection) plan)) (\<lambda>user.
         resolve_selected_remote_user errors docker container (selection\<lparr>rs_user := user\<rparr>)))"

section \<open>Lookup containers\<close>

record 'w user_docker =
  ud_exec :: "'w docker_exec"
  ud_image_user :: "string \<Rightarrow> ('w, string, string option) io"
  ud_create :: "string \<Rightarrow> ('w, string, string) io"
  ud_start :: "string \<Rightarrow> ('w, string, unit) io"
  ud_remove :: "string \<Rightarrow> ('w, string, unit) io"

definition image_config_user :: "'w user_docker \<Rightarrow> string \<Rightarrow> ('w, string, string option) io" where
  "image_config_user docker img =
     io_bind (io_map_err (with_context [''Failed to inspect Docker image for remote user: '', img])
                (ud_image_user docker img)) (\<lambda>user.
     io_lift (bind_res (parse_docker_image_config_user user) (\<lambda>parsed. Inr (map_option du_raw parsed))))"

definition resolve_effective_users_from_image ::
  "'w user_docker \<Rightarrow> string \<Rightarrow> effective_user_resolve_input \<Rightarrow> ('w, string, effective_users) io" where
  "resolve_effective_users_from_image docker img input =
     io_bind (image_config_user docker img) (\<lambda>user.
     io_lift (resolve_effective_users (input\<lparr>ei_image_config := user\<rparr>)))"

definition create_remote_user_lookup_container :: "'w user_docker \<Rightarrow> string \<Rightarrow> ('w, string, string) io" where
  "create_remote_user_lookup_container docker img =
     io_map_err (with_context [''Failed to create remote user lookup container from: '', img])
       (ud_create docker img)"

text \<open>The container is started, used and removed again, whatever the use returns. The name of
  its purpose is only part of the messages.\<close>

definition with_lookup_container ::
  "'w user_docker \<Rightarrow> string \<Rightarrow> string \<Rightarrow> (string \<Rightarrow> ('w, string, 'a) io) \<Rightarrow> ('w, string, 'a) io" where
  "with_lookup_container docker purpose img body =
     io_bind (create_remote_user_lookup_container docker img) (\<lambda>container w.
       case io_bind (ud_start docker container) (\<lambda>_. body container) w of
         (result, w1) \<Rightarrow>
           (case ud_remove docker container w1 of
              (Inr _, w2) \<Rightarrow> (result, w2)
            | (Inl cleanup_error, w2) \<Rightarrow>
                ((case result of
                    Inr _ \<Rightarrow> Inl (with_context [''Failed to remove '', purpose, '' lookup container: '', container] cleanup_error)
                  | Inl e \<Rightarrow> Inl (with_context [''Failed to remove '', purpose, '' lookup container '', container, '': '',
                                             cleanup_error] e)), w2)))"

definition resolve_remote_user_from_image ::
  "std_errors \<Rightarrow> 'w user_docker \<Rightarrow> string \<Rightarrow> effective_users \<Rightarrow> ('w, string, container_remote_user) io" where
  "resolve_remote_user_from_image errors docker img users =
     with_lookup_container docker ''remote user'' img (\<lambda>container.
       resolve_selected_remote_user errors (ud_exec docker) container (remote_selection users))"

definition sync_plan_for_target ::
  "std_errors \<Rightarrow> 'w user_docker \<Rightarrow> string \<Rightarrow> uid_gid_sync_target \<Rightarrow> string \<Rightarrow> ('w, string, uid_gid_sync_plan) io" where
  "sync_plan_for_target errors docker img target container =
     io_bind (lookup_container_user errors (ud_exec docker) container (docker_user_lookup_key (st_user target))) (\<lambda>found.
     case found of
       None \<Rightarrow>
         if is_numeric_user_identity (st_user target) then io_return (Plan_Noop Sync_Numeric_User_Without_Passwd)
         else io_fail (fmt [''UID/GID sync user does not exist in image '', img, '': '', st_user target])
     | Some record' \<Rightarrow>
         io_return (Plan_Sync target \<lparr>ri_name = cu_name record', ri_uid = cu_uid record', ri_gid = cu_gid record'\<rparr>))"

definition resolve_uid_gid_sync_plan_from_image ::
  "std_errors \<Rightarrow> 'w user_docker \<Rightarrow> string \<Rightarrow> effective_users \<Rightarrow> bool \<Rightarrow> host_platform \<Rightarrow> host_user_ids \<Rightarrow>
   ('w, string, uid_gid_sync_plan) io" where
  "resolve_uid_gid_sync_plan_from_image errors docker img users update_remote_user_uid platform host =
     (case decide_uid_gid_sync users update_remote_user_uid platform host of
        Decide_Noop reason \<Rightarrow> io_return (Plan_Noop reason)
      | Decide_Sync target \<Rightarrow>
          with_lookup_container docker ''UID/GID sync'' img (sync_plan_for_target errors docker img target))"

section \<open>Users of the configuration\<close>

definition layer_remote_user :: "config_layer \<Rightarrow> string option" where
  "layer_remote_user layer = Option.bind (cl_devcontainer layer) ldc_remote_user"

definition layer_container_user :: "config_layer \<Rightarrow> string option" where
  "layer_container_user layer = Option.bind (cl_devcontainer layer) ldc_container_user"

definition last_some :: "('a \<Rightarrow> 'b option) \<Rightarrow> 'a list \<Rightarrow> 'b option" where
  "last_some f xs = (case rev (filter_map f xs) of [] \<Rightarrow> None | x # _ \<Rightarrow> Some x)"

definition merged_metadata_remote_user :: "config_merge_input \<Rightarrow> string option" where
  "merged_metadata_remote_user layers =
     last_some layer_remote_user (mi_image_metadata layers @ mi_feature_metadata layers)"

definition merged_metadata_container_user :: "config_merge_input \<Rightarrow> string option" where
  "merged_metadata_container_user layers =
     last_some layer_container_user (mi_image_metadata layers @ mi_feature_metadata layers)"

definition effective_user_input_from_config_layers :: "config_merge_input \<Rightarrow> effective_user_resolve_input" where
  "effective_user_input_from_config_layers layers =
     \<lparr>ei_devcontainer_remote = Option.bind (mi_devcontainer layers) layer_remote_user,
      ei_devcontainer_container = Option.bind (mi_devcontainer layers) layer_container_user,
      ei_image_metadata_remote = merged_metadata_remote_user layers,
      ei_image_metadata_container = merged_metadata_container_user layers,
      ei_image_config = None\<rparr>"

definition and_then_some :: "'a option \<Rightarrow> 'b option \<Rightarrow> 'b option" where
  "and_then_some a b = (if a = None then None else b)"

definition effective_user_input_from_plan ::
  "config_merge_input \<Rightarrow> resolved_config \<Rightarrow> effective_user_resolve_input" where
  "effective_user_input_from_plan layers config =
     (let layer_input = effective_user_input_from_config_layers layers;
          remote = rdc_remote_user (rc_devcontainer config);
          container = rdc_container_user (rc_devcontainer config);
          devcontainer_remote = and_then_some (ei_devcontainer_remote layer_input) remote;
          devcontainer_container = and_then_some (ei_devcontainer_container layer_input) container
      in \<lparr>ei_devcontainer_remote = devcontainer_remote,
          ei_devcontainer_container = devcontainer_container,
          ei_image_metadata_remote =
            (if devcontainer_remote \<noteq> None then None else and_then_some (ei_image_metadata_remote layer_input) remote),
          ei_image_metadata_container =
            (if devcontainer_container \<noteq> None then None
             else and_then_some (ei_image_metadata_container layer_input) container),
          ei_image_config = None\<rparr>)"

definition no_user_is_configured :: "effective_user_resolve_input \<Rightarrow> bool" where
  "no_user_is_configured input =
     (ei_devcontainer_remote input = None \<and> ei_image_metadata_remote input = None \<and>
      ei_devcontainer_container input = None \<and> ei_image_metadata_container input = None)"

definition effective_users_depend_on_image_config_user :: "config_merge_input \<Rightarrow> bool" where
  "effective_users_depend_on_image_config_user layers =
     no_user_is_configured (effective_user_input_from_config_layers layers)"

fun uid_gid_sync_target_kind_name :: "uid_gid_sync_target_kind \<Rightarrow> string" where
  "uid_gid_sync_target_kind_name Remote_User_Target = ''remoteUser''"
| "uid_gid_sync_target_kind_name Container_User_Target = ''containerUser''"

fun uid_gid_sync_noop_reason_name :: "uid_gid_sync_noop_reason \<Rightarrow> string" where
  "uid_gid_sync_noop_reason_name Sync_Disabled = ''disabled''"
| "uid_gid_sync_noop_reason_name Sync_Non_Linux_Host = ''nonLinuxHost''"
| "uid_gid_sync_noop_reason_name Sync_No_Explicit_User = ''noExplicitUser''"
| "uid_gid_sync_noop_reason_name Sync_Numeric_User_Without_Passwd = ''numericUserWithoutPasswd''"
| "uid_gid_sync_noop_reason_name Sync_Root = ''root''"

definition noop_hash_input :: "uid_gid_sync_noop_reason \<Rightarrow> host_user_ids \<Rightarrow> uid_gid_sync_hash_input" where
  "noop_hash_input reason host =
     \<lparr>hug_state = Hash_Noop (uid_gid_sync_noop_reason_name reason), hug_host_uid = hu_uid host,
      hug_host_gid = hu_gid host, hug_target_kind = None, hug_target_user = None\<rparr>"

definition uid_gid_sync_hash_input_of ::
  "uid_gid_sync_plan \<Rightarrow> bool \<Rightarrow> host_platform \<Rightarrow> host_user_ids \<Rightarrow> uid_gid_sync_hash_input option" where
  "uid_gid_sync_hash_input_of plan update_remote_user_uid platform current_host =
     (if \<not> update_remote_user_uid \<or> platform \<noteq> Linux_Host then None
      else Some (case plan of
          Plan_Sync target _ \<Rightarrow>
            \<lparr>hug_state = Hash_Sync, hug_host_uid = hu_uid (st_host target), hug_host_gid = hu_gid (st_host target),
             hug_target_kind = Some (uid_gid_sync_target_kind_name (st_kind target)),
             hug_target_user = Some (st_user target)\<rparr>
        | Plan_Noop reason \<Rightarrow> noop_hash_input reason current_host))"

definition static_uid_gid_sync_hash_input ::
  "config_merge_input \<Rightarrow> bool \<Rightarrow> host_platform \<Rightarrow> host_user_ids \<Rightarrow> uid_gid_sync_hash_input option" where
  "static_uid_gid_sync_hash_input layers update_remote_user_uid platform current_host =
     (if \<not> update_remote_user_uid \<or> platform \<noteq> Linux_Host then None
      else if \<not> no_user_is_configured (effective_user_input_from_config_layers layers) then None
      else Some (noop_hash_input Sync_No_Explicit_User current_host))"

definition explicit_update_remote_user_uid :: "config_merge_input \<Rightarrow> bool option" where
  "explicit_update_remote_user_uid layers =
     foldl (\<lambda>explicit layer. case Option.bind (cl_devcontainer layer) ldc_update_remote_user_uid of
              Some v \<Rightarrow> Some v | None \<Rightarrow> explicit) None
       (mi_image_metadata layers @ mi_feature_metadata layers @
        filter_map (\<lambda>layer. layer) [mi_global layers, mi_devcontainer layers, mi_project layers, mi_cli layers])"

definition uid_gid_sync_warning ::
  "config_merge_input \<Rightarrow> uid_gid_sync_plan \<Rightarrow> bool \<Rightarrow> host_platform \<Rightarrow> string option" where
  "uid_gid_sync_warning layers plan update_remote_user_uid platform =
     (if platform \<noteq> Linux_Host
      then (if explicit_update_remote_user_uid layers = Some True
            then Some ''UID/GID sync is only supported on Linux hosts; skipping updateRemoteUserUID'' else None)
      else if update_remote_user_uid \<and> plan = Plan_Noop Sync_Numeric_User_Without_Passwd
      then Some ''UID/GID sync is skipped because the configured numeric user has no passwd entry''
      else None)"

fun uid_gid_sync_plan_requires_layer :: "uid_gid_sync_plan \<Rightarrow> bool" where
  "uid_gid_sync_plan_requires_layer (Plan_Sync _ _) = True"
| "uid_gid_sync_plan_requires_layer (Plan_Noop _) = False"

section \<open>White space and names\<close>

lemma white_space_nonempty: "w \<in> set white_space \<Longrightarrow> w \<noteq> []"
  by (auto simp: white_space_def)

lemma strip_any_hit: "w \<in> set ws \<Longrightarrow> w \<noteq> [] \<Longrightarrow> strip_any ws (w @ r) \<noteq> None"
  by (induction ws) (auto split: option.splits)

lemma strip_any_SomeD: "strip_any ws s = Some r \<Longrightarrow> \<exists>w\<in>set ws. w \<noteq> [] \<and> s = w @ r"
  by (induction ws) (auto simp: strip_prefix_Some_iff split: option.splits if_splits)

lemma str_contains_append: "str_contains w (a @ w @ b)"
  by (auto simp: str_contains_iff)

lemma trim_without_white_space:
  assumes "\<not> has_white_space s"
  shows "trim s = s"
proof (rule trim_id)
  have none: "\<not> str_contains w s" if "w \<in> set white_space" for w
    using assms that by (auto simp: has_white_space_def list_ex_iff)
  show "strip_any white_space s = None"
  proof (rule ccontr)
    assume "strip_any white_space s \<noteq> None"
    then obtain w r where "w \<in> set white_space" "s = w @ r" by (auto dest: strip_any_SomeD)
    with none str_contains_append [of w "[]" r] show False by auto
  qed
  show "strip_any (map rev white_space) (rev s) = None"
  proof (rule ccontr)
    assume "strip_any (map rev white_space) (rev s) \<noteq> None"
    then obtain r where "strip_any (map rev white_space) (rev s) = Some r" by blast
    then obtain v where v: "v \<in> set (map rev white_space)" "rev s = v @ r" by (blast dest: strip_any_SomeD)
    then obtain w where w: "w \<in> set white_space" "rev s = rev w @ r" by auto
    from w(2) have "s = rev r @ w @ []" by (metis append.right_neutral rev_append rev_rev_ident)
    with none [OF w(1)] str_contains_append [of w "rev r" "[]"] show False by simp
  qed
qed

lemma trim_prefix: "\<exists>p. trim_left white_space s = trim s @ p"
proof -
  obtain p where "rev (trim_left white_space s) = p @ trim_left (map rev white_space) (rev (trim_left white_space s))"
    using trim_left_suffix by blast
  then have "trim_left white_space s = trim s @ rev p" unfolding trim_def by (metis rev_append rev_rev_ident)
  then show ?thesis by blast
qed

lemma trim_trim [simp]: "trim (trim s) = trim s"
proof (rule trim_id)
  show "strip_any (map rev white_space) (rev (trim s)) = None" by (simp add: trim_def trim_left_stop)
  obtain p where p: "trim_left white_space s = trim s @ p" using trim_prefix by blast
  show "strip_any white_space (trim s) = None"
  proof (rule ccontr)
    assume "strip_any white_space (trim s) \<noteq> None"
    then obtain w r where "w \<in> set white_space" "w \<noteq> []" "trim s = w @ r" by (auto dest: strip_any_SomeD)
    then have "strip_any white_space (trim_left white_space s) \<noteq> None"
      using strip_any_hit [of w white_space "r @ p"] p by simp
    then show False by (simp add: trim_left_stop)
  qed
qed

lemma set_trim: "set (trim s) \<subseteq> set s"
proof -
  obtain p q where "s = q @ trim_left white_space s" "trim_left white_space s = trim s @ p"
    using trim_left_suffix trim_prefix by blast
  then have "s = q @ trim s @ p" by simp
  then have "set s = set q \<union> set (trim s) \<union> set p" by (metis set_append sup_assoc)
  then show ?thesis by blast
qed

lemma has_white_space_char:
  assumes "has_white_space (a @ CHR '':'' # b)"
  shows "has_white_space a \<or> has_white_space b"
proof -
  have plain: "list_all (\<lambda>w. CHR '':'' \<notin> set w) white_space" by (simp add: white_space_def)
  obtain w where w: "w \<in> set white_space" "str_contains w (a @ [CHR '':''] @ b)"
    using assms by (auto simp: has_white_space_def list_ex_iff)
  then obtain x y where "x @ w @ y = a @ [CHR '':''] @ b" by (auto simp: str_contains_iff)
  moreover have "set w \<inter> set [CHR '':''] = {}" using plain w(1) by (auto simp: list_all_iff)
  ultimately consider x' y' where "a = x' @ w @ y'" | x' y' where "b = x' @ w @ y'"
    using occurrence_avoids [of x w y a "[CHR '':'']" b] by blast
  then have "str_contains w a \<or> str_contains w b" by cases (simp_all add: str_contains_append)
  then show ?thesis using w(1) by (auto simp: has_white_space_def list_ex_iff)
qed

lemma digits_have_no_white_space:
  assumes "list_all is_ascii_digit s"
  shows "\<not> has_white_space s"
proof
  assume "has_white_space s"
  then obtain w a b where w: "w \<in> set white_space" "s = a @ w @ b"
    by (auto simp: has_white_space_def list_ex_iff str_contains_iff)
  have "list_all (\<lambda>w. \<not> list_all is_ascii_digit w) white_space" by code_simp
  with w(1) have "\<not> list_all is_ascii_digit w" by (simp add: list_all_iff)
  with w(2) assms show False by simp
qed

lemma digits_have_no_control: "list_all is_ascii_digit s \<Longrightarrow> \<not> has_control s"
  by (induction s)
     (auto simp: is_control_byte_def is_control_pair_def is_ascii_digit_def byte_def split: list.splits)

section \<open>Users as texts\<close>

fun identifier_text :: "docker_user_identifier \<Rightarrow> string" where
  "identifier_text (User_Name n) = n"
| "identifier_text (User_Id i) = show_nat (unat i)"

definition name_ok :: "string \<Rightarrow> bool" where
  "name_ok n = (n \<noteq> [] \<and> \<not> has_white_space n \<and> \<not> has_control n \<and> CHR '':'' \<notin> set n \<and>
     \<not> list_all is_ascii_digit n)"

fun identifier_ok :: "docker_user_identifier \<Rightarrow> bool" where
  "identifier_ok (User_Name n) = name_ok n"
| "identifier_ok (User_Id i) = True"

definition user_text :: "docker_user_identifier \<Rightarrow> docker_user_identifier option \<Rightarrow> string" where
  "user_text u g = identifier_text u @ (case g of None \<Rightarrow> [] | Some g \<Rightarrow> '':'' @ identifier_text g)"

lemma show_nat_is_digits: "list_all is_ascii_digit (show_nat n)"
  using show_nat_digits by (simp add: list_all_iff)

lemma colon_not_in_show: "CHR '':'' \<notin> set (show_nat n)"
  by (rule non_digit_not_in_show) (simp add: is_ascii_digit_def)

lemma identifier_text_plain:
  "identifier_ok u \<Longrightarrow> identifier_text u \<noteq> [] \<and> \<not> has_white_space (identifier_text u) \<and> CHR '':'' \<notin> set (identifier_text u)"
  by (cases u) (simp_all add: name_ok_def digits_have_no_white_space show_nat_is_digits colon_not_in_show)

lemma parse_u32_show: "parse_u32 (show_nat (unat (i :: u32))) = Some i"
proof -
  have "unat i \<le> 2 ^ 32 - 1" using unat_u32_bound [of i] by simp
  then show ?thesis by (simp add: parse_u32_def parse_unsigned_show_nat)
qed

lemma identifier_reads_back:
  "identifier_ok u \<Longrightarrow> parse_docker_user_identifier (identifier_text u) label = Inr u"
  by (cases u)
     (simp_all add: parse_docker_user_identifier_def name_ok_def trim_without_white_space parse_u32_show
        digits_have_no_white_space digits_have_no_control show_nat_is_digits)

lemma split_two: "CHR '':'' \<notin> set a \<Longrightarrow> CHR '':'' \<notin> set b \<Longrightarrow>
  split_on (\<lambda>c. c = CHR '':'') (a @ CHR '':'' # b) = [a, b]"
  by (induction a) (auto intro!: split_on_none)

lemma user_text_reads_back:
  assumes "identifier_ok u" "pred_option identifier_ok g"
  shows "parse_docker_image_config_user (Some (user_text u g)) =
         Inr (Some \<lparr>du_raw = user_text u g, du_user = u, du_group = g\<rparr>)"
proof (cases g)
  case None
  have "trim (identifier_text u) = identifier_text u" "split_on (\<lambda>c. c = CHR '':'') (identifier_text u) = [identifier_text u]"
    using identifier_text_plain [OF assms(1)] by (auto simp: trim_without_white_space intro: split_on_none)
  then show ?thesis
    using None identifier_text_plain [OF assms(1)] identifier_reads_back [OF assms(1)]
    by (simp add: parse_docker_image_config_user_def normalize_user_def user_text_def)
next
  case (Some h)
  then have h: "identifier_ok h" using assms(2) by simp
  let ?t = "identifier_text u @ CHR '':'' # identifier_text h"
  have "\<not> has_white_space ?t"
    using identifier_text_plain [OF assms(1)] identifier_text_plain [OF h] has_white_space_char by blast
  then have "trim ?t = ?t" by (rule trim_without_white_space)
  moreover have "split_on (\<lambda>c. c = CHR '':'') ?t = [identifier_text u, identifier_text h]"
    using identifier_text_plain [OF assms(1)] identifier_text_plain [OF h] by (intro split_two) simp_all
  ultimately show ?thesis
    using Some identifier_reads_back [OF assms(1)] identifier_reads_back [OF h]
    by (simp add: parse_docker_image_config_user_def normalize_user_def user_text_def)
qed

lemma parsed_identifier_ok:
  assumes "parse_docker_user_identifier s label = Inr u" "CHR '':'' \<notin> set s"
  shows "identifier_ok u"
  using assms set_trim [of s]
  by (auto simp: parse_docker_user_identifier_def Let_def name_ok_def split: if_splits option.splits)

lemma parsed_user_ok:
  assumes "parse_docker_image_config_user (Some s) = Inr (Some p)"
  shows "du_raw p = trim s \<and> identifier_ok (du_user p) \<and> pred_option identifier_ok (du_group p)"
proof -
  let ?pieces = "split_on (\<lambda>c. c = CHR '':'') (trim s)"
  have pieces: "CHR '':'' \<notin> set piece" if "piece \<in> set ?pieces" for piece
    using split_on_pieces [OF that] by blast
  have "trim s \<noteq> []" using assms by (auto simp: parse_docker_image_config_user_def normalize_user_def)
  then consider a u where "?pieces = [a]" "parse_docker_user_identifier a ''user'' = Inr u"
      "p = \<lparr>du_raw = trim s, du_user = u, du_group = None\<rparr>"
    | a b u g where "?pieces = [a, b]" "parse_docker_user_identifier a ''user'' = Inr u"
      "parse_docker_user_identifier b ''group'' = Inr g" "p = \<lparr>du_raw = trim s, du_user = u, du_group = Some g\<rparr>"
    using assms
    by (auto simp: parse_docker_image_config_user_def normalize_user_def bind_res_Inr_iff split: list.splits)
  then show ?thesis
  proof cases
    case 1
    then show ?thesis using pieces [of a] parsed_identifier_ok [of a "''user''" u] by simp
  next
    case 2
    then show ?thesis
      using pieces [of a] pieces [of b] parsed_identifier_ok [of a "''user''" u] parsed_identifier_ok [of b "''group''" g]
      by simp
  qed
qed

section \<open>Properties\<close>

definition matches_sync_user :: "resolved_user_ids \<Rightarrow> docker_user_identifier \<Rightarrow> bool" where
  "matches_sync_user container u = (u = User_Id (ri_uid container) \<or> u = User_Name (ri_name container))"

definition synced_group :: "uid_gid_sync_target \<Rightarrow> resolved_user_ids \<Rightarrow> docker_user_identifier \<Rightarrow> docker_user_identifier" where
  "synced_group target container g =
     (if g = User_Id (ri_gid container) then User_Id (hu_gid (st_host target)) else g)"

lemma runtime_user_of_sync_user:
  assumes "parse_docker_image_config_user (Some user) = Inr (Some p)" "matches_sync_user container (du_user p)"
  shows "uid_gid_sync_runtime_user user (Plan_Sync target container) =
         Inr (user_text (User_Name (ri_name container)) (map_option (synced_group target container) (du_group p)))"
  using assms
  by (auto simp: uid_gid_sync_runtime_user_def matches_sync_user_def user_text_def synced_group_def
      split: docker_user_identifier.splits option.splits)

lemma runtime_user_of_other_user:
  assumes "parse_docker_image_config_user (Some user) = Inr (Some p)" "\<not> matches_sync_user container (du_user p)"
  shows "uid_gid_sync_runtime_user user (Plan_Sync target container) = Inr (trim user)"
  using assms parsed_user_ok [OF assms(1)]
  by (auto simp: uid_gid_sync_runtime_user_def matches_sync_user_def split: docker_user_identifier.splits)

lemma parse_trimmed: "parse_docker_image_config_user (Some (trim s)) = parse_docker_image_config_user (Some s)"
  by (simp add: parse_docker_image_config_user_def normalize_user_def)

lemma runtime_user_reads_back:
  assumes "parse_docker_image_config_user (Some user) = Inr (Some p)" "name_ok (ri_name container)"
  shows "\<exists>user' p'. uid_gid_sync_runtime_user user (Plan_Sync target container) = Inr user' \<and>
           parse_docker_image_config_user (Some user') = Inr (Some p') \<and>
           (if matches_sync_user container (du_user p)
            then du_user p' = User_Name (ri_name container) \<and>
                 du_group p' = map_option (synced_group target container) (du_group p)
            else du_user p' = du_user p \<and> du_group p' = du_group p)"
proof (cases "matches_sync_user container (du_user p)")
  case True
  have "pred_option identifier_ok (map_option (synced_group target container) (du_group p))"
    using parsed_user_ok [OF assms(1)] by (cases "du_group p") (auto simp: synced_group_def)
  from user_text_reads_back [OF _ this, of "User_Name (ri_name container)"] assms(2)
    runtime_user_of_sync_user [OF assms(1) True, of target] True
  show ?thesis by simp
next
  case False
  with runtime_user_of_other_user [OF assms(1) False, of target] parse_trimmed [of user] assms(1)
  show ?thesis by simp
qed

text \<open>C27. After the ids of a user whose name is well-formed and not a number are changed,
  the user passed to Docker reads back as that user by name, a group that had its old id becomes
  the id of the host, and every other user stays what it was.\<close>

theorem synced_user_keeps_its_identity:
  assumes "parse_docker_image_config_user (Some user) = Inr (Some p)" "name_ok (ri_name container)"
  shows "\<exists>user' p'. uid_gid_sync_runtime_user user (Plan_Sync target container) = Inr user' \<and>
           parse_docker_image_config_user (Some user') = Inr (Some p') \<and>
           (if matches_sync_user container (du_user p)
            then du_user p' = User_Name (ri_name container) \<and>
                 du_group p' = map_option (synced_group target container) (du_group p)
            else du_user p' = du_user p \<and> du_group p' = du_group p)"
  by (rule runtime_user_reads_back [OF assms])

definition example_target :: uid_gid_sync_target where
  "example_target = \<lparr>st_kind = Remote_User_Target, st_user = ''1001'', st_host = \<lparr>hu_uid = 501, hu_gid = 20\<rparr>\<rparr>"

definition example_ids :: resolved_user_ids where
  "example_ids = \<lparr>ri_name = ''dev'', ri_uid = 1001, ri_gid = 1002\<rparr>"

theorem synced_user_keeps_its_identity_witness:
  "uid_gid_sync_runtime_user ''1001:1002'' (Plan_Sync example_target example_ids) = Inr ''dev:20'' \<and>
   (\<exists>user' p'. uid_gid_sync_runtime_user ''1001:1002'' (Plan_Sync example_target example_ids) = Inr user' \<and>
      parse_docker_image_config_user (Some user') = Inr (Some p') \<and> du_user p' = User_Name ''dev'')"
proof -
  have "user_text (User_Id 1001) (Some (User_Id 1002)) = ''1001:1002''" by code_simp
  then have parsed: "parse_docker_image_config_user (Some ''1001:1002'') =
      Inr (Some \<lparr>du_raw = ''1001:1002'', du_user = User_Id 1001, du_group = Some (User_Id 1002)\<rparr>)"
    using user_text_reads_back [of "User_Id 1001" "Some (User_Id 1002)"] by simp
  have name: "name_ok (ri_name example_ids)" by code_simp
  have same: "matches_sync_user example_ids (User_Id 1001)" by (simp add: matches_sync_user_def example_ids_def)
  have "user_text (User_Name ''dev'') (Some (User_Id 20)) = ''dev:20''" by code_simp
  then have run: "uid_gid_sync_runtime_user ''1001:1002'' (Plan_Sync example_target example_ids) = Inr ''dev:20''"
    using runtime_user_of_sync_user [OF parsed, of example_ids example_target] same
    by (simp add: synced_group_def example_ids_def example_target_def)
  have "\<exists>user' p'. uid_gid_sync_runtime_user ''1001:1002'' (Plan_Sync example_target example_ids) = Inr user' \<and>
      parse_docker_image_config_user (Some user') = Inr (Some p') \<and> du_user p' = User_Name (ri_name example_ids)"
    using synced_user_keeps_its_identity [OF parsed name, of example_target] same by auto
  then show ?thesis using run by (simp add: example_ids_def)
qed

text \<open>The text of a user and an optional group, each a name without white space, control
  characters and colons that is not a number, or an id, is read back as the same user and
  group.\<close>

theorem user_texts_read_back:
  assumes "identifier_ok u" "pred_option identifier_ok g"
  shows "parse_docker_image_config_user (Some (user_text u g)) =
         Inr (Some \<lparr>du_raw = user_text u g, du_user = u, du_group = g\<rparr>)"
  by (rule user_text_reads_back [OF assms])

theorem user_texts_read_back_witness:
  "parse_docker_image_config_user (Some (user_text (User_Name ''dev'') (Some (User_Id 20)))) =
   Inr (Some \<lparr>du_raw = user_text (User_Name ''dev'') (Some (User_Id 20)), du_user = User_Name ''dev'', du_group = Some (User_Id 20)\<rparr>)"
proof -
  have "name_ok ''dev''" by code_simp
  then show ?thesis by (intro user_texts_read_back) simp_all
qed

text \<open>How a use of a lookup container ends: the container that was created is removed after its use.\<close>

definition lookup_container_ends ::
  "'w user_docker \<Rightarrow> string \<Rightarrow> (string \<Rightarrow> ('w, string, 'a) io) \<Rightarrow> 'w \<Rightarrow> 'a result \<Rightarrow> 'w \<Rightarrow> bool" where
  "lookup_container_ends docker img body w result w' \<longleftrightarrow>
     (\<exists>e. ud_create docker img w = (Inl e, w') \<and> isl result) \<or>
     (\<exists>container w1 used w2 removed. ud_create docker img w = (Inr container, w1) \<and>
        io_bind (ud_start docker container) (\<lambda>_. body container) w1 = (used, w2) \<and>
        ud_remove docker container w2 = (removed, w') \<and>
        (isl result \<or> removed = Inr () \<and> result = used))"

lemma with_lookup_container_ends:
  assumes "with_lookup_container docker purpose img body w = (result, w')"
  shows "lookup_container_ends docker img body w result w'"
proof (cases "ud_create docker img w")
  case (Pair created w1)
  show ?thesis
  proof (cases created)
    case (Inl e)
    with Pair assms show ?thesis
      by (auto simp: lookup_container_ends_def with_lookup_container_def create_remote_user_lookup_container_def
          io_bind_def io_map_err_def)
  next
    case (Inr container)
    obtain used w2 where used: "io_bind (ud_start docker container) (\<lambda>_. body container) w1 = (used, w2)"
      by fastforce
    obtain removed w3 where removed: "ud_remove docker container w2 = (removed, w3)" by fastforce
    have "w' = w3 \<and> (isl result \<or> removed = Inr () \<and> result = used)"
      using Pair Inr used removed assms
      by (auto simp: with_lookup_container_def create_remote_user_lookup_container_def io_bind_def [of "io_map_err _ _"]
          io_map_err_def split: sum.splits)
    then show ?thesis unfolding lookup_container_ends_def using Pair Inr used removed by blast
  qed
qed

lemma sync_plan_result:
  assumes "sync_plan_for_target errors docker img target container w = (Inr plan, w')"
  shows "plan = Plan_Noop Sync_Numeric_User_Without_Passwd \<or> (\<exists>ids. plan = Plan_Sync target ids)"
  using assms by (auto simp: sync_plan_for_target_def io_bind_iff io_return_def io_fail_def split: option.splits if_splits)

lemma lookup_sync_plan_result:
  assumes "lookup_container_ends docker img (sync_plan_for_target errors docker img target) w (Inr plan) w'"
  shows "plan = Plan_Noop Sync_Numeric_User_Without_Passwd \<or> (\<exists>ids. plan = Plan_Sync target ids)"
proof -
  obtain container w1 w2 where
    "io_bind (ud_start docker container) (\<lambda>_. sync_plan_for_target errors docker img target container) w1 = (Inr plan, w2)"
    using assms by (auto simp: lookup_container_ends_def)
  then show ?thesis by (auto simp: io_bind_iff dest: sync_plan_result)
qed

text \<open>The user whose ids may be changed: named explicitly, and not root.\<close>

definition explicit_sync_target :: "effective_users \<Rightarrow> host_user_ids \<Rightarrow> uid_gid_sync_target \<Rightarrow> bool" where
  "explicit_sync_target users host target \<longleftrightarrow>
     st_host target = host \<and> \<not> is_root_identity (st_user target) \<and>
     ((st_kind target = Remote_User_Target \<and> st_user target = er_user (eus_remote_user users) \<and>
         er_origin (eus_remote_user users) \<noteq> Container_Origin) \<or>
      (st_kind target = Container_User_Target \<and> st_user target = eu_user (eus_container_user users) \<and>
         er_origin (eus_remote_user users) = Container_Origin \<and>
         eu_source (eus_container_user users) \<notin> {Image_Config_User, Root_Fallback}))"

lemma decided_target:
  "decide_uid_gid_sync users update platform host = Decide_Sync target \<longleftrightarrow>
   update \<and> platform = Linux_Host \<and> explicit_sync_target users host target"
  by (cases target; cases "eu_source (eus_container_user users)"; cases "er_origin (eus_remote_user users)")
    (auto simp: decide_uid_gid_sync_def explicit_sync_target_def)

text \<open>C28. Ids are changed only on Linux, only when it is configured, and only for a user
  that is not root and that the configuration, the image metadata or the Compose service names;
  only then is a container created to look the user up, the very container that was created is
  removed after its use whatever the outcome, and a success is reported only if the removal
  succeeded; otherwise nothing is run.\<close>

theorem only_explicit_users_are_synced:
  assumes "resolve_uid_gid_sync_plan_from_image errors docker img users update platform host w = (result, w')"
  shows "(update \<and> platform = Linux_Host \<and>
      (\<exists>target. explicit_sync_target users host target \<and>
         lookup_container_ends docker img (sync_plan_for_target errors docker img target) w result w' \<and>
         (\<forall>plan. result = Inr plan \<longrightarrow>
            plan = Plan_Noop Sync_Numeric_User_Without_Passwd \<or> (\<exists>ids. plan = Plan_Sync target ids)))) \<or>
    (\<not> (update \<and> platform = Linux_Host \<and> (\<exists>target. explicit_sync_target users host target)) \<and>
      w' = w \<and> (\<exists>reason. result = Inr (Plan_Noop reason)))"
proof (cases "decide_uid_gid_sync users update platform host")
  case (Decide_Noop reason)
  then have "\<not> (update \<and> platform = Linux_Host \<and> (\<exists>target. explicit_sync_target users host target))"
    using decided_target [of users update platform host] by auto
  then show ?thesis using assms Decide_Noop
    by (auto simp: resolve_uid_gid_sync_plan_from_image_def io_return_def)
next
  case (Decide_Sync target)
  then have "with_lookup_container docker ''UID/GID sync'' img (sync_plan_for_target errors docker img target) w = (result, w')"
    using assms by (simp add: resolve_uid_gid_sync_plan_from_image_def)
  from with_lookup_container_ends [OF this]
  have ends: "lookup_container_ends docker img (sync_plan_for_target errors docker img target) w result w'" .
  have "plan = Plan_Noop Sync_Numeric_User_Without_Passwd \<or> (\<exists>ids. plan = Plan_Sync target ids)"
    if "result = Inr plan" for plan
    by (rule lookup_sync_plan_result) (use ends that in simp)
  moreover have "update" "platform = Linux_Host" "explicit_sync_target users host target"
    using decided_target [THEN iffD1, OF Decide_Sync] by simp_all
  ultimately show ?thesis using ends by (intro disjI1 conjI exI [of _ target]) simp_all
qed

text \<open>A docker whose state is the list of its containers, with the user \<open>dev\<close>.\<close>

definition listing_docker :: "string list user_docker" where
  "listing_docker = \<lparr>
     ud_exec = (\<lambda>_ _. io_return \<lparr>eo_stdout = ''dev:x:7:8::/h:'', eo_stderr = [], eo_exit_code = 0\<rparr>),
     ud_image_user = (\<lambda>_. io_return None),
     ud_create = (\<lambda>_ containers. (Inr ''c'', ''c'' # containers)),
     ud_start = (\<lambda>_. io_return ()),
     ud_remove = (\<lambda>container containers. (Inr (), removeAll container containers))\<rparr>"

definition dev_users :: effective_users where
  "dev_users = \<lparr>eus_container_user = \<lparr>eu_user = ''dev'', eu_source = Explicit_User\<rparr>,
     eus_remote_user = \<lparr>er_user = ''dev'', er_source = Explicit_User, er_origin = Container_Origin\<rparr>\<rparr>"

definition dev_errors :: std_errors where
  "dev_errors = \<lparr>se_utf8 = id, se_number = id\<rparr>"

theorem only_explicit_users_are_synced_witness:
  "\<exists>target ids. resolve_uid_gid_sync_plan_from_image dev_errors listing_docker ''i'' dev_users True Linux_Host
       \<lparr>hu_uid = 1, hu_gid = 2\<rparr> [''other''] = (Inr (Plan_Sync target ids), [''other'']) \<and>
     st_user target = ''dev'' \<and> \<not> is_root_identity (st_user target) \<and>
     lookup_container_ends listing_docker ''i'' (sync_plan_for_target dev_errors listing_docker ''i'' target)
       [''other''] (Inr (Plan_Sync target ids)) [''other'']"
proof -
  let ?t = "\<lparr>st_kind = Container_User_Target, st_user = ''dev'', st_host = \<lparr>hu_uid = 1, hu_gid = 2\<rparr>\<rparr>"
  let ?ids = "\<lparr>ri_name = ''dev'', ri_uid = 7, ri_gid = 8\<rparr> :: resolved_user_ids"
  have key: "docker_user_lookup_key ''dev'' = ''dev''" by code_simp
  have decided: "decide_uid_gid_sync dev_users True Linux_Host \<lparr>hu_uid = 1, hu_gid = 2\<rparr> = Decide_Sync ?t"
    by (simp add: decide_uid_gid_sync_def dev_users_def is_root_identity_def key)
  have "from_utf8 id ''dev:x:7:8::/h:'' = Inr ''dev:x:7:8::/h:''" by code_simp
  moreover have "parse_passwd_record id (first_line (str_lines ''dev:x:7:8::/h:'')) =
      Inr \<lparr>cu_name = ''dev'', cu_uid = 7, cu_gid = 8, cu_home = ''/h'', cu_shell = None\<rparr>"
  proof -
    have "split_on (\<lambda>c. c = CHR '':'') (first_line (str_lines ''dev:x:7:8::/h:'')) =
        [''dev'', ''x'', ''7'', ''8'', [], ''/h'', []]" by code_simp
    moreover have "trim ''dev'' = ''dev''" "trim ''7'' = ''7''" "trim ''8'' = ''8''" "trim ''/h'' = ''/h''" "trim [] = []"
      by code_simp+
    moreover have "parse_u32 ''7'' = Some 7" "parse_u32 ''8'' = Some 8"
      by (simp_all add: parse_u32_def parse_unsigned_def to_digit_def)
    ultimately show ?thesis
      by (simp add: parse_passwd_record_def parse_passwd_id_def normalize_user_def starts_with_def)
  qed
  ultimately have found: "handle_user_lookup_output dev_errors container user command
       \<lparr>eo_stdout = ''dev:x:7:8::/h:'', eo_stderr = [], eo_exit_code = 0\<rparr> =
      Inr (Some \<lparr>cu_name = ''dev'', cu_uid = 7, cu_gid = 8, cu_home = ''/h'', cu_shell = None\<rparr>)"
    for container user command
    by (simp add: handle_user_lookup_output_def ensure_success_output_def ensure_success_exit_code_def dev_errors_def)
  have run: "resolve_uid_gid_sync_plan_from_image dev_errors listing_docker ''i'' dev_users True Linux_Host
       \<lparr>hu_uid = 1, hu_gid = 2\<rparr> [''other''] = (Inr (Plan_Sync ?t ?ids), [''other''])"
    using found decided
    by (simp add: resolve_uid_gid_sync_plan_from_image_def with_lookup_container_def
        create_remote_user_lookup_container_def sync_plan_for_target_def lookup_container_user_def
        exec_capture_output_def validate_exec_spec_def lookup_user_command_def listing_docker_def
        io_bind_def io_map_err_def io_lift_def io_return_def key)
  from only_explicit_users_are_synced [OF run] obtain target where
    facts: "explicit_sync_target dev_users \<lparr>hu_uid = 1, hu_gid = 2\<rparr> target"
      "lookup_container_ends listing_docker ''i'' (sync_plan_for_target dev_errors listing_docker ''i'' target)
         [''other''] (Inr (Plan_Sync ?t ?ids)) [''other'']"
      "target = ?t" by auto
  have "\<not> is_root_identity (st_user ?t)" using facts(1) unfolding explicit_sync_target_def facts(3) by (elim conjE)
  then show ?thesis using run facts(2) unfolding facts(3)
    by (intro exI [of _ ?t] exI [of _ ?ids] conjI) simp_all
qed

end
