(* ===== verification/Compose_Override_Patch.thy ===== *)
theory Compose_Override_Patch
  imports Compose_Override_File Container_Users
begin

text \<open>
  What \<open>decune up\<close> writes into the override file, \<open>src/up/start/compose_override.rs\<close>: the image,
  labels, mounts, environment, user and command of the primary service, the sidecars whose ports
  are forwarded, and the plans of published ports and of clone isolation. Values from the
  environment of the host are not written; the file refers to variables that are passed to
  Compose in its own environment.
\<close>

section \<open>Inputs\<close>

text \<open>The fields of \<open>UpPlan\<close> (\<open>src/up/types.rs\<close>) that the override uses.\<close>

record up_plan =
  up_image :: string
  up_base_image :: string
  up_resource_labels :: "(string, string) btree_map"
  up_config :: resolved_config
  up_sensitive_container_env :: sensitive_env_map
  up_compose_interpolation_env :: "(string, string) btree_map"
  up_compose_interpolation_redactions :: "string list"
  up_effective_users :: effective_users
  up_uid_gid_sync_plan :: uid_gid_sync_plan
  up_mounts :: "docker_mount_spec list"

record service_forward_runtime =
  sfr_service :: string
  sfr_mount :: docker_mount_spec

record isolation_override_plans =
  io_names :: name_rewrite_plan
  io_subnets :: subnet_plan
  io_endpoints :: endpoint_plan

record override_startup =
  os_entrypoint :: "string list"
  os_command :: "string list"

section \<open>The start command\<close>

definition feature_entrypoint_wrapper :: string where
  "feature_entrypoint_wrapper = ''/usr/local/share/decune/feature-entrypoint-wrapper.sh''"

definition devcontainer_keepalive_command :: "string list \<times> string list" where
  "devcontainer_keepalive_command =
     ([''/bin/sh''],
      [''-c'', ''trap '' @ [CHR 0x27] @ ''exit 0'' @ [CHR 0x27] @ '' TERM'' @ [CHR 0x0A] @
               ''while sleep 1 & wait $!; do :; done''])"

definition effective_startup_command ::
  "override_startup \<Rightarrow> compose_config_service option \<Rightarrow> override_startup" where
  "effective_startup_command image_startup compose_primary_service =
     (case compose_primary_service of
        None \<Rightarrow> image_startup
      | Some service \<Rightarrow>
          \<lparr>os_entrypoint = (case svc_entrypoint service of Some e \<Rightarrow> e | None \<Rightarrow> os_entrypoint image_startup),
           os_command = (case svc_command service of Some c \<Rightarrow> c | None \<Rightarrow> os_command image_startup)\<rparr>)"

definition compose_override_startup ::
  "(string \<Rightarrow> ('w, string, override_startup) io) \<Rightarrow> up_plan \<Rightarrow> compose_config_service option \<Rightarrow>
   ('w, string, override_startup option) io" where
  "compose_override_startup image_startup_command plan compose_primary_service =
     (let devcontainer = rc_devcontainer (up_config plan);
          (entrypoint, command) = devcontainer_keepalive_command
      in if rdc_entrypoints devcontainer \<noteq> []
         then io_bind (if rdc_override_command devcontainer then io_return (str_join '' '' entrypoint # command)
                       else io_bind (image_startup_command (up_image plan)) (\<lambda>image_startup.
                            let startup = effective_startup_command image_startup compose_primary_service
                            in io_return (os_entrypoint startup @ os_command startup))) (\<lambda>wrapped.
              io_return (Some \<lparr>os_entrypoint = [feature_entrypoint_wrapper], os_command = wrapped\<rparr>))
         else if rdc_override_command devcontainer
         then io_return (Some \<lparr>os_entrypoint = entrypoint, os_command = command\<rparr>)
         else io_return None)"

section \<open>Warnings\<close>

definition relocation_endpoint_display :: "compose_published_port_endpoint \<Rightarrow> string" where
  "relocation_endpoint_display endpoint =
     (case pe_host_ip endpoint of
        Omitted \<Rightarrow> show_nat (unat (pe_host_port endpoint))
      | Explicit v \<Rightarrow> fmt [v, '':'', show_nat (unat (pe_host_port endpoint))])"

definition compose_published_port_relocation_warning_messages ::
  "up_plan \<Rightarrow> compose_published_port_plan \<Rightarrow> string list" where
  "compose_published_port_relocation_warning_messages plan port_plan =
     (if \<not> rpp_warn_on_relocation (rco_published_ports (rc_compose (up_config plan))) then []
      else map (\<lambda>entry. fmt [''Compose published port relocation changed service `'', pl_service entry, ''` target '',
             show_nat (unat (pl_target_port entry)), ''/'', compose_port_protocol_name (pl_protocol entry),
             '' from '', relocation_endpoint_display (pl_requested entry), '' to '',
             relocation_endpoint_display (pl_planned entry)])
           (filter pl_relocated (plan_entries port_plan)))"

section \<open>Placeholders\<close>

definition to_ascii_uppercase_char :: "char \<Rightarrow> char" where
  "to_ascii_uppercase_char c = (if 97 \<le> byte c \<and> byte c \<le> 122 then char_of (byte c - 32) else c)"

text \<open>One underscore for each character that is not a letter or digit; the continuation bytes of
  a character belong to its first one.\<close>

definition safe_env_name :: "string \<Rightarrow> string" where
  "safe_env_name key =
     (let safe = concat (map (\<lambda>c. if is_ascii_alphanumeric c then [to_ascii_uppercase_char c]
                                  else if is_continuation c then [] else ''_'') key)
      in if safe = [] \<or> is_ascii_digit (hd safe) then CHR ''_'' # safe else safe)"

definition placeholder_candidate :: "string \<Rightarrow> nat \<Rightarrow> string" where
  "placeholder_candidate base index = base @ ''_'' @ show_nat index"

lemma placeholder_candidate_inj: "placeholder_candidate base m = placeholder_candidate base n \<longleftrightarrow> m = n"
  by (simp add: placeholder_candidate_def)

lemma finite_taken_candidates: "finite {i. n \<le> i \<and> placeholder_candidate base i \<in> set used}"
proof -
  have "inj (placeholder_candidate base)" by (simp add: inj_def placeholder_candidate_inj)
  then have "finite (placeholder_candidate base -` set used)" by (intro finite_vimageI) simp_all
  then show ?thesis by (rule rev_finite_subset) auto
qed

function free_candidate :: "string \<Rightarrow> nat \<Rightarrow> string list \<Rightarrow> string" where
  "free_candidate base index used =
     (if placeholder_candidate base index \<in> set used then free_candidate base (index + 1) used
      else placeholder_candidate base index)"
  by pat_completeness auto
termination
proof (relation "measure (\<lambda>(base, index, used). card {i. index \<le> i \<and> placeholder_candidate base i \<in> set used})", goal_cases)
  case (2 base index used)
  let ?taken = "\<lambda>n. {i. n \<le> i \<and> placeholder_candidate base i \<in> set used}"
  from 2 have "index \<in> ?taken index" "index \<notin> ?taken (index + 1)" "?taken (index + 1) \<subseteq> ?taken index" by auto
  then have "?taken (index + 1) \<subset> ?taken index" by blast
  then show ?case by (simp add: psubset_card_mono finite_taken_candidates)
qed simp

declare free_candidate.simps [simp del]

text \<open>Of the set of used names only membership matters; it is a list here.\<close>

definition compose_container_env_placeholder :: "string \<Rightarrow> string list \<Rightarrow> string \<times> string list" where
  "compose_container_env_placeholder key used =
     (let base = ''DECUNE_CONTAINER_ENV_'' @ safe_env_name key;
          placeholder = (if base \<notin> set used then base else free_candidate base 2 used)
      in (placeholder, placeholder # used))"

definition interpolation_step ::
  "(string, string) btree_map \<times> string list \<times> string list \<Rightarrow> string \<times> sensitive_env_value \<Rightarrow>
   (string, string) btree_map \<times> string list \<times> string list" where
  "interpolation_step acc entry =
     (case (acc, entry) of ((env, redactions, used), (key, v)) \<Rightarrow>
        (case compose_container_env_placeholder key used of
           (placeholder, used) \<Rightarrow> (bt_insert placeholder (sev_value v) env, redactions @ sev_redactions v, used)))"

definition compose_interpolation_env :: "sensitive_env_map \<Rightarrow> (string, string) btree_map \<times> string list" where
  "compose_interpolation_env sensitive_env =
     (case foldl interpolation_step ([], [], []) sensitive_env of (env, redactions, _) \<Rightarrow> (env, redactions))"

definition attach_compose_interpolation_env_to_plan :: "up_plan \<Rightarrow> up_plan" where
  "attach_compose_interpolation_env_to_plan plan =
     (case compose_interpolation_env (up_sensitive_container_env plan) of
        (env, redactions) \<Rightarrow> plan\<lparr>up_compose_interpolation_env := env, up_compose_interpolation_redactions := redactions\<rparr>)"

section \<open>The patch\<close>

definition compose_override_user :: "up_plan \<Rightarrow> string option result" where
  "compose_override_user plan =
     (let container_user = eus_container_user (up_effective_users plan);
          runtime_user = uid_gid_sync_runtime_user (eu_user container_user) (up_uid_gid_sync_plan plan)
      in if rdc_container_user (rc_devcontainer (up_config plan)) \<noteq> None
         then bind_res runtime_user (\<lambda>user. Inr (Some user))
         else if eu_source container_user \<noteq> Compose_Service_User then Inr None
         else bind_res runtime_user (\<lambda>user. Inr (if user = eu_user container_user then None else Some user)))"

definition compose_service_forward_labels :: "(string, string) btree_map \<Rightarrow> (string, string) btree_map" where
  "compose_service_forward_labels labels =
     (case bt_get labels ''decune.workspace_id'' of
        Some workspace_id \<Rightarrow> bt_insert ''decune.workspace_id'' workspace_id [(''decune.managed'', ''true'')]
      | None \<Rightarrow> [(''decune.managed'', ''true'')])"

definition add_container_env ::
  "sensitive_env_map \<Rightarrow> service_patch \<times> string list \<Rightarrow> string \<times> string \<Rightarrow> service_patch \<times> string list" where
  "add_container_env sensitive_env acc entry =
     (case (acc, entry) of ((service, used), (key, v)) \<Rightarrow>
        (case bt_get sensitive_env key of
           Some sensitive \<Rightarrow>
             (case compose_container_env_placeholder key used of
                (placeholder, used) \<Rightarrow>
                  (set_interpolated_environment key placeholder (sev_redactions sensitive) service, used))
         | None \<Rightarrow> (set_environment key v service, used)))"

definition override_ports_if_planned :: "port_override \<Rightarrow> string \<Rightarrow> service_patch \<Rightarrow> service_patch" where
  "override_ports_if_planned port_override service_name service =
     (case ports_for port_override service_name of
        Some ports \<Rightarrow> service\<lparr>sv_ports_override := ports\<rparr>
      | None \<Rightarrow> service)"

definition primary_service_patch ::
  "string \<Rightarrow> up_plan \<Rightarrow> override_startup option \<Rightarrow> port_override \<Rightarrow> service_patch result" where
  "primary_service_patch primary_service plan startup port_override =
     (let devcontainer = rc_devcontainer (up_config plan);
          service = add_service_mounts (up_mounts plan)
            ((set_labels (up_resource_labels plan) ((new_service_patch primary_service)\<lparr>sv_image := Some (up_image plan)\<rparr>))
               \<lparr>sv_cap_add := rdc_cap_add devcontainer, sv_security_opt := rdc_security_opt devcontainer\<rparr>);
          service = override_ports_if_planned port_override primary_service service;
          service = fst (foldl (add_container_env (up_sensitive_container_env plan)) (service, [])
                           (rdc_container_env devcontainer));
          service = (if up_image plan \<noteq> up_base_image plan then service\<lparr>sv_pull_policy := Some ''never''\<rparr> else service)
      in bind_res (compose_override_user plan) (\<lambda>user.
         let service = (case user of Some u \<Rightarrow> service\<lparr>sv_user := Some u\<rparr> | None \<Rightarrow> service);
             service = (case rdc_init devcontainer of Some b \<Rightarrow> service\<lparr>sv_init := Some b\<rparr> | None \<Rightarrow> service);
             service = (case rdc_privileged devcontainer of Some b \<Rightarrow> service\<lparr>sv_privileged := Some b\<rparr> | None \<Rightarrow> service)
         in Inr (case startup of
                   Some s \<Rightarrow> service\<lparr>sv_entrypoint := os_entrypoint s, sv_command := os_command s\<rparr>
                 | None \<Rightarrow> service)))"

definition forwarded_service_patch ::
  "up_plan \<Rightarrow> port_override \<Rightarrow> service_forward_runtime \<Rightarrow> service_patch" where
  "forwarded_service_patch plan port_override runtime =
     override_ports_if_planned port_override (sfr_service runtime)
       (add_service_mounts [sfr_mount runtime]
         (set_labels (compose_service_forward_labels (up_resource_labels plan)) (new_service_patch (sfr_service runtime))))"

definition apply_compose_endpoint_plan :: "endpoint_plan \<Rightarrow> override_patch \<Rightarrow> override_patch" where
  "apply_compose_endpoint_plan plan patch =
     foldl (\<lambda>patch (service, environment). foldl (\<lambda>patch (key, v). service_environment service key v patch) patch environment)
       patch (ep_services plan)"

definition apply_compose_subnet_plan :: "subnet_plan \<Rightarrow> override_patch \<Rightarrow> override_patch" where
  "apply_compose_subnet_plan plan patch =
     foldl (\<lambda>patch allocation. network_ipam_override (sa_network allocation)
         \<lparr>oi_subnet = sa_planned_subnet allocation, oi_gateway = sa_planned_gateway allocation,
          oi_ip_range = sa_planned_ip_range allocation, oi_aux_addresses = sa_planned_aux_addresses allocation\<rparr> patch)
       patch (sp_allocations plan)"

definition apply_resource_rewrite :: "override_patch \<Rightarrow> resource_name_rewrite \<Rightarrow> override_patch" where
  "apply_resource_rewrite patch rewrite =
     (case rn_kind rewrite of
        Network_Kind \<Rightarrow> set_network_name (rn_resource rewrite) (rn_rewritten_name rewrite) patch
      | Volume_Kind \<Rightarrow> set_volume_name (rn_resource rewrite) (rn_rewritten_name rewrite) patch
      | Config_Kind \<Rightarrow> set_config_name (rn_resource rewrite) (rn_rewritten_name rewrite) patch
      | Secret_Kind \<Rightarrow> set_secret_name (rn_resource rewrite) (rn_rewritten_name rewrite) patch
      | Service_Container \<Rightarrow> patch)"

definition apply_service_rewrite :: "override_patch \<Rightarrow> service_name_rewrite \<Rightarrow> override_patch" where
  "apply_service_rewrite patch rewrite = service_container_name (sr_service rewrite) (sr_rewritten_name rewrite)
     (sr_original_name rewrite) (sr_networks rewrite) patch"

definition apply_compose_name_rewrites :: "name_rewrite_plan \<Rightarrow> override_patch \<Rightarrow> override_patch" where
  "apply_compose_name_rewrites plan patch =
     foldl apply_resource_rewrite
       (foldl (\<lambda>patch references. service_container_references references patch)
         (foldl apply_service_rewrite patch (np_services plan)) (np_service_references plan))
       (np_resources plan)"

definition generated_compose_override_patch ::
  "string \<Rightarrow> up_plan \<Rightarrow> override_startup option \<Rightarrow> service_forward_runtime list \<Rightarrow> port_override \<Rightarrow>
   isolation_override_plans \<Rightarrow> override_patch result" where
  "generated_compose_override_patch primary_service plan startup service_forward port_override isolation =
     bind_res (primary_service_patch primary_service plan startup port_override) (\<lambda>service.
     let patch = new_override_patch service;
         patch = foldl (\<lambda>patch runtime. patch_service (forwarded_service_patch plan port_override runtime) patch)
                   patch service_forward;
         patch = foldl (\<lambda>patch (service_name, ports).
                    if service_name = primary_service \<or> list_ex (\<lambda>runtime. sfr_service runtime = service_name) service_forward
                    then patch
                    else patch_service ((new_service_patch service_name)\<lparr>sv_ports_override := ports\<rparr>) patch)
                   patch port_override
     in Inr (apply_compose_endpoint_plan (io_endpoints isolation)
              (apply_compose_subnet_plan (io_subnets isolation)
                (apply_compose_name_rewrites (io_names isolation) patch))))"

definition generated_override_text ::
  "string \<Rightarrow> up_plan \<Rightarrow> override_startup option \<Rightarrow> service_forward_runtime list \<Rightarrow> port_override \<Rightarrow>
   isolation_override_plans \<Rightarrow> string result" where
  "generated_override_text primary_service plan startup service_forward port_override isolation =
     bind_res (generated_compose_override_patch primary_service plan startup service_forward port_override isolation) to_yaml"

section \<open>Placeholders agree\<close>

fun assigned_placeholders :: "string list \<Rightarrow> string list \<Rightarrow> (string \<times> string) list" where
  "assigned_placeholders [] used = []"
| "assigned_placeholders (key # keys) used =
     (case compose_container_env_placeholder key used of
        (placeholder, used) \<Rightarrow> (key, placeholder) # assigned_placeholders keys used)"

lemma free_candidate_free: "free_candidate base index used \<notin> set used"
  by (induction base index used rule: free_candidate.induct) (simp add: free_candidate.simps)

lemma placeholder_fresh:
  "compose_container_env_placeholder key used = (placeholder, used') \<Longrightarrow>
   placeholder \<notin> set used \<and> used' = placeholder # used"
  by (auto simp: compose_container_env_placeholder_def Let_def free_candidate_free split: if_splits)

lemma fst_assigned_placeholders: "map fst (assigned_placeholders keys used) = keys"
  by (induction keys arbitrary: used) (simp_all split: prod.split)

lemma interpolation_step_eq:
  "compose_container_env_placeholder key used = (p, used') \<Longrightarrow>
   interpolation_step (env, redactions, used) (key, v) =
     (bt_insert p (sev_value v) env, redactions @ sev_redactions v, used')"
  by (simp add: interpolation_step_def)

lemma interpolation_keeps_used:
  "foldl interpolation_step (env, redactions, used) xs = (env', redactions', used') \<Longrightarrow> q \<in> set used \<Longrightarrow>
   bt_get env' q = bt_get env q"
proof (induction xs arbitrary: env redactions used)
  case (Cons x xs)
  obtain key v where x: "x = (key, v)" by (cases x)
  obtain placeholder next' where p: "compose_container_env_placeholder key used = (placeholder, next')" by fastforce
  with placeholder_fresh have fresh: "placeholder \<notin> set used" "next' = placeholder # used" by blast+
  have "bt_get env' q = bt_get (bt_insert placeholder (sev_value v) env) q"
    by (rule Cons.IH [of _ "redactions @ sev_redactions v" next'])
       (use Cons.prems x fresh interpolation_step_eq [OF p] in simp_all)
  then show ?case using fresh Cons.prems(2) by (auto simp: bt_get_insert)
qed simp

lemma interpolation_sets_placeholders:
  "foldl interpolation_step (env, redactions, used) xs = (env', redactions', used') \<Longrightarrow>
   (key, placeholder) \<in> set (assigned_placeholders (map fst xs) used) \<Longrightarrow> distinct (map fst xs) \<Longrightarrow>
   (key, v) \<in> set xs \<Longrightarrow> bt_get env' placeholder = Some (sev_value v)"
proof (induction xs arbitrary: env redactions used)
  case (Cons x xs)
  obtain k w where x: "x = (k, w)" by (cases x)
  obtain p next' where p: "compose_container_env_placeholder k used = (p, next')" by fastforce
  have next_def: "next' = p # used" using placeholder_fresh [OF p] by simp
  have rest: "foldl interpolation_step (bt_insert p (sev_value w) env, redactions @ sev_redactions w, next') xs =
      (env', redactions', used')"
    using Cons.prems(1) x interpolation_step_eq [OF p] by simp
  show ?case
  proof (cases "key = k")
    case True
    then have "v = w" using Cons.prems(3,4) x by (auto simp: image_iff)
    have "(key, placeholder) \<notin> set (assigned_placeholders (map fst xs) next')"
      using Cons.prems(3) x True fst_assigned_placeholders [of "map fst xs" next'] by (metis distinct.simps(2) fst_conv image_eqI list.set_map list.simps(9))
    then have "placeholder = p" using Cons.prems(2) x p by simp
    with interpolation_keeps_used [OF rest, of p] next_def \<open>v = w\<close> show ?thesis by (simp add: bt_get_insert)
  next
    case False
    with Cons.prems x p show ?thesis by (intro Cons.IH [OF rest]) auto
  qed
qed simp

lemma container_env_keeps_other_keys:
  "key \<notin> fst ` set xs \<Longrightarrow>
   bt_get (sv_environment (fst (foldl (add_container_env sensitive) (service, used) xs))) key =
   bt_get (sv_environment service) key"
proof (induction xs arbitrary: service used)
  case (Cons x xs)
  obtain k v where x: "x = (k, v)" by (cases x)
  obtain service' used' where step: "add_container_env sensitive (service, used) x = (service', used')" by fastforce
  have "bt_get (sv_environment service') key = bt_get (sv_environment service) key"
    using step Cons.prems x
    by (auto simp: add_container_env_def set_interpolated_environment_def set_environment_def bt_get_insert
        split: option.splits prod.splits)
  with Cons step show ?case by simp
qed simp

definition expected_environment ::
  "sensitive_env_map \<Rightarrow> (string \<times> string) list \<Rightarrow> string \<Rightarrow> string \<Rightarrow> override_environment_value \<Rightarrow> bool" where
  "expected_environment sensitive placeholders key v written =
     (case bt_get sensitive key of
        None \<Rightarrow> written = Env_Literal v
      | Some s \<Rightarrow> \<exists>placeholder. (key, placeholder) \<in> set placeholders \<and>
                   written = Env_Interpolated placeholder (sev_redactions s))"

lemma expected_environment_mono:
  "expected_environment sensitive ps key v written \<Longrightarrow> set ps \<subseteq> set qs \<Longrightarrow> expected_environment sensitive qs key v written"
  by (auto simp: expected_environment_def split: option.splits)

lemma container_env_writes:
  assumes "distinct (map fst xs)" "(key, v) \<in> set xs"
  shows "\<exists>written. bt_get (sv_environment (fst (foldl (add_container_env sensitive) (service, used) xs))) key = Some written \<and>
    expected_environment sensitive (assigned_placeholders (filter (bt_contains_key sensitive) (map fst xs)) used) key v written"
  using assms
proof (induction xs arbitrary: service used)
  case (Cons x xs)
  obtain k w where x: "x = (k, w)" by (cases x)
  obtain service' used' where step: "add_container_env sensitive (service, used) x = (service', used')" by fastforce
  let ?rest = "assigned_placeholders (filter (bt_contains_key sensitive) (map fst xs)) used'"
  let ?all = "assigned_placeholders (filter (bt_contains_key sensitive) (map fst (x # xs))) used"
  have all: "set ?rest \<subseteq> set ?all"
    using step x
    by (auto simp: add_container_env_def bt_contains_key_def [of sensitive k] split: option.splits prod.splits)
  show ?case
  proof (cases "key = k")
    case True
    then have same: "v = w" "key \<notin> fst ` set xs" using Cons.prems x by (auto simp: image_iff)
    have "\<exists>written. bt_get (sv_environment service') key = Some written \<and> expected_environment sensitive ?all key v written"
      using step x True same(1)
      by (auto simp: add_container_env_def expected_environment_def bt_contains_key_def [of sensitive k] bt_get_insert
          set_interpolated_environment_def set_environment_def split: option.splits prod.splits)
    with container_env_keeps_other_keys [OF same(2), of sensitive service' used'] step show ?thesis by simp
  next
    case False
    then have "distinct (map fst xs)" "(key, v) \<in> set xs" using Cons.prems x by auto
    from Cons.IH [OF this, of service' used'] obtain written where
      "bt_get (sv_environment (fst (foldl (add_container_env sensitive) (service', used') xs))) key = Some written"
      "expected_environment sensitive ?rest key v written" by blast
    with expected_environment_mono [OF this(2) all] step show ?thesis by auto
  qed
qed simp

section \<open>The plans reach the patch\<close>

text \<open>What the patch says of a service or a network: nothing unless it has an entry.\<close>

definition service_of :: "override_patch \<Rightarrow> string \<Rightarrow> service_patch" where
  "service_of patch name = (case bt_get (op_services patch) name of Some s \<Rightarrow> s | None \<Rightarrow> new_service_patch name)"

definition network_of :: "override_patch \<Rightarrow> string \<Rightarrow> network_patch" where
  "network_of patch resource = (case bt_get (op_networks patch) resource of
     Some n \<Rightarrow> n | None \<Rightarrow> \<lparr>nw_name = None, nw_ipam_config_override = []\<rparr>)"

named_theorems patch_views \<open>what an operation on a patch does to a service and to a network\<close>

lemma update_service_views [patch_views]:
  "service_of (update_service n f patch) m = (if m = n then f (service_of patch n) else service_of patch m)"
  "network_of (update_service n f patch) r = network_of patch r"
  by (simp_all add: update_service_def service_of_def network_of_def bt_get_insert Let_def)

lemma update_network_views [patch_views]:
  "service_of (update_network n f patch) m = service_of patch m"
  "network_of (update_network n f patch) r = (if r = n then f (network_of patch n) else network_of patch r)"
  by (simp_all add: update_network_def service_of_def network_of_def bt_get_insert Let_def)

lemma patch_service_views [patch_views]:
  "service_of (patch_service s patch) m = (if m = sv_name s then s else service_of patch m)"
  "network_of (patch_service s patch) r = network_of patch r"
  by (simp_all add: patch_service_def service_of_def network_of_def bt_get_insert)

lemma new_override_patch_views [patch_views]:
  "service_of (new_override_patch s) m = (if m = sv_name s then s else new_service_patch m)"
  "network_of (new_override_patch s) r = \<lparr>nw_name = None, nw_ipam_config_override = []\<rparr>"
  by (simp_all add: new_override_patch_def service_of_def network_of_def bt_get_def)

lemma resource_name_views [patch_views]:
  "service_of (set_volume_name r n patch) m = service_of patch m" "network_of (set_volume_name r n patch) k = network_of patch k"
  "service_of (set_config_name r n patch) m = service_of patch m" "network_of (set_config_name r n patch) k = network_of patch k"
  "service_of (set_secret_name r n patch) m = service_of patch m" "network_of (set_secret_name r n patch) k = network_of patch k"
  by (simp_all add: set_volume_name_def set_config_name_def set_secret_name_def service_of_def network_of_def)

text \<open>A loop over entries leaves the value of the last entry that sets it.\<close>

definition last_value :: "('a \<Rightarrow> 'b option) \<Rightarrow> 'a list \<Rightarrow> 'b \<Rightarrow> 'b" where
  "last_value f xs b = foldl (\<lambda>b x. case f x of Some v \<Rightarrow> v | None \<Rightarrow> b) b xs"

lemma foldl_last_value:
  assumes "\<And>patch x. view (step patch x) = (case f x of Some v \<Rightarrow> v | None \<Rightarrow> view patch)"
  shows "view (foldl step patch xs) = last_value f xs (view patch)"
  unfolding last_value_def by (induction xs arbitrary: patch) (simp_all add: assms)

lemma foldl_unchanged:
  assumes "\<And>patch x. view (step patch x) = view patch"
  shows "view (foldl step patch xs) = view patch"
  by (induction xs arbitrary: patch) (simp_all add: assms)

lemma foldl_entry_unchanged:
  assumes "\<And>patch x. x \<in> set xs \<Longrightarrow> view (step patch x) = view patch"
  shows "view (foldl step patch xs) = view patch"
  using assms by (induction xs arbitrary: patch) simp_all

definition planned_ipam_config :: "subnet_allocation \<Rightarrow> network_ipam_config" where
  "planned_ipam_config a = \<lparr>oi_subnet = sa_planned_subnet a, oi_gateway = sa_planned_gateway a,
     oi_ip_range = sa_planned_ip_range a, oi_aux_addresses = sa_planned_aux_addresses a\<rparr>"

lemma endpoint_plan_keeps:
  assumes "\<And>patch s k v. view (service_environment s k v patch) = view patch"
  shows "view (apply_compose_endpoint_plan plan patch) = view patch"
  unfolding apply_compose_endpoint_plan_def
  by (rule foldl_unchanged) (simp add: split_beta, rule foldl_unchanged, simp add: assms split_beta)

lemma endpoint_plan_views:
  "network_of (apply_compose_endpoint_plan plan patch) r = network_of patch r"
  "sv_ports_override (service_of (apply_compose_endpoint_plan plan patch) m) = sv_ports_override (service_of patch m)"
  "sv_container_name (service_of (apply_compose_endpoint_plan plan patch) m) = sv_container_name (service_of patch m)"
  by (rule endpoint_plan_keeps; simp add: service_environment_def patch_views)+

lemma subnet_plan_views:
  "service_of (apply_compose_subnet_plan plan patch) m = service_of patch m"
  "nw_name (network_of (apply_compose_subnet_plan plan patch) r) = nw_name (network_of patch r)"
  "nw_ipam_config_override (network_of (apply_compose_subnet_plan plan patch) r) =
     last_value (\<lambda>a. if sa_network a = r then Some [planned_ipam_config a] else None) (sp_allocations plan)
       (nw_ipam_config_override (network_of patch r))"
  unfolding apply_compose_subnet_plan_def
  by (rule foldl_unchanged foldl_last_value;
      simp add: network_ipam_override_def patch_views planned_ipam_config_def)+

lemma resource_rewrite_views:
  "service_of (apply_resource_rewrite patch x) m = service_of patch m"
  "nw_name (network_of (apply_resource_rewrite patch x) r) =
     (case if rn_kind x = Network_Kind \<and> rn_resource x = r then Some (Some (rn_rewritten_name x)) else None of
        Some v \<Rightarrow> v | None \<Rightarrow> nw_name (network_of patch r))"
  "nw_ipam_config_override (network_of (apply_resource_rewrite patch x) r) = nw_ipam_config_override (network_of patch r)"
  by (simp_all add: apply_resource_rewrite_def set_network_name_def patch_views split: resource_kind.split)

lemma service_rewrite_views:
  "network_of (apply_service_rewrite patch x) r = network_of patch r"
  "sv_ports_override (service_of (apply_service_rewrite patch x) m) = sv_ports_override (service_of patch m)"
  "sv_container_name (service_of (apply_service_rewrite patch x) m) =
     (case if sr_service x = m then Some (Some (sr_rewritten_name x)) else None of
        Some v \<Rightarrow> v | None \<Rightarrow> sv_container_name (service_of patch m))"
  by (simp_all add: apply_service_rewrite_def service_container_name_def patch_views)

lemma references_views:
  "network_of (service_container_references x patch) r = network_of patch r"
  "sv_ports_override (service_of (service_container_references x patch) m) = sv_ports_override (service_of patch m)"
  "sv_container_name (service_of (service_container_references x patch) m) = sv_container_name (service_of patch m)"
  by (simp_all add: service_container_references_def patch_views)

definition with_references :: "name_rewrite_plan \<Rightarrow> override_patch \<Rightarrow> override_patch" where
  "with_references plan patch = foldl (\<lambda>patch references. service_container_references references patch)
     (foldl apply_service_rewrite patch (np_services plan)) (np_service_references plan)"

lemma with_references_views:
  "network_of (with_references plan patch) r = network_of patch r"
  "sv_ports_override (service_of (with_references plan patch) m) = sv_ports_override (service_of patch m)"
  "sv_container_name (service_of (with_references plan patch) m) =
     last_value (\<lambda>x. if sr_service x = m then Some (Some (sr_rewritten_name x)) else None)
       (np_services plan) (sv_container_name (service_of patch m))"
proof -
  show "network_of (with_references plan patch) r = network_of patch r"
    unfolding with_references_def
    using foldl_unchanged [where view = "\<lambda>p. network_of p r" and step = apply_service_rewrite]
      foldl_unchanged [where view = "\<lambda>p. network_of p r" and step = "\<lambda>patch x. service_container_references x patch"]
    by (simp add: references_views service_rewrite_views)
  show "sv_ports_override (service_of (with_references plan patch) m) = sv_ports_override (service_of patch m)"
    unfolding with_references_def
    using foldl_unchanged [where view = "\<lambda>p. sv_ports_override (service_of p m)" and step = apply_service_rewrite]
      foldl_unchanged [where view = "\<lambda>p. sv_ports_override (service_of p m)"
        and step = "\<lambda>patch x. service_container_references x patch"]
    by (simp add: references_views service_rewrite_views)
  show "sv_container_name (service_of (with_references plan patch) m) =
     last_value (\<lambda>x. if sr_service x = m then Some (Some (sr_rewritten_name x)) else None)
       (np_services plan) (sv_container_name (service_of patch m))"
    unfolding with_references_def
    using foldl_unchanged [where view = "\<lambda>p. sv_container_name (service_of p m)"
        and step = "\<lambda>patch x. service_container_references x patch"]
      foldl_last_value [where view = "\<lambda>p. sv_container_name (service_of p m)" and step = apply_service_rewrite,
        OF service_rewrite_views(3)]
    by (simp add: references_views)
qed

lemma name_rewrite_views:
  "nw_name (network_of (apply_compose_name_rewrites plan patch) r) =
     last_value (\<lambda>x. if rn_kind x = Network_Kind \<and> rn_resource x = r then Some (Some (rn_rewritten_name x)) else None)
       (np_resources plan) (nw_name (network_of patch r))"
  "nw_ipam_config_override (network_of (apply_compose_name_rewrites plan patch) r) = nw_ipam_config_override (network_of patch r)"
  "sv_container_name (service_of (apply_compose_name_rewrites plan patch) m) =
     last_value (\<lambda>x. if sr_service x = m then Some (Some (sr_rewritten_name x)) else None)
       (np_services plan) (sv_container_name (service_of patch m))"
  "sv_ports_override (service_of (apply_compose_name_rewrites plan patch) m) = sv_ports_override (service_of patch m)"
proof -
  have whole: "apply_compose_name_rewrites plan patch =
      foldl apply_resource_rewrite (with_references plan patch) (np_resources plan)"
    by (simp add: apply_compose_name_rewrites_def with_references_def)
  show "nw_name (network_of (apply_compose_name_rewrites plan patch) r) =
     last_value (\<lambda>x. if rn_kind x = Network_Kind \<and> rn_resource x = r then Some (Some (rn_rewritten_name x)) else None)
       (np_resources plan) (nw_name (network_of patch r))"
    using foldl_last_value [where view = "\<lambda>p. nw_name (network_of p r)" and step = apply_resource_rewrite,
        OF resource_rewrite_views(2)]
    by (simp add: whole with_references_views)
  show "nw_ipam_config_override (network_of (apply_compose_name_rewrites plan patch) r) = nw_ipam_config_override (network_of patch r)"
    using foldl_unchanged [where view = "\<lambda>p. nw_ipam_config_override (network_of p r)" and step = apply_resource_rewrite, OF resource_rewrite_views(3)]
    by (simp add: whole with_references_views)
  have services: "service_of (apply_compose_name_rewrites plan patch) m = service_of (with_references plan patch) m"
    using foldl_unchanged [where view = "\<lambda>p. service_of p m" and step = apply_resource_rewrite, OF resource_rewrite_views(1)] by (simp add: whole)
  show "sv_container_name (service_of (apply_compose_name_rewrites plan patch) m) =
     last_value (\<lambda>x. if sr_service x = m then Some (Some (sr_rewritten_name x)) else None)
       (np_services plan) (sv_container_name (service_of patch m))"
    unfolding services by (rule with_references_views)
  show "sv_ports_override (service_of (apply_compose_name_rewrites plan patch) m) = sv_ports_override (service_of patch m)"
    unfolding services by (rule with_references_views)
qed

section \<open>The primary service and the sidecars\<close>

definition planned_ports :: "port_override \<Rightarrow> string \<Rightarrow> override_port_entry list" where
  "planned_ports port_override name = (case ports_for port_override name of Some ports \<Rightarrow> ports | None \<Rightarrow> [])"

lemma container_env_keeps_fields:
  "sv_name (fst (foldl (add_container_env sensitive) acc xs)) = sv_name (fst acc) \<and>
   sv_ports_override (fst (foldl (add_container_env sensitive) acc xs)) = sv_ports_override (fst acc) \<and>
   sv_container_name (fst (foldl (add_container_env sensitive) acc xs)) = sv_container_name (fst acc) \<and>
   sv_forbidden_secret_values (fst (foldl (add_container_env sensitive) acc xs)) = sv_forbidden_secret_values (fst acc)"
proof (induction xs arbitrary: acc)
  case (Cons x xs)
  have "sv_name (fst (add_container_env sensitive acc x)) = sv_name (fst acc) \<and>
      sv_ports_override (fst (add_container_env sensitive acc x)) = sv_ports_override (fst acc) \<and>
      sv_container_name (fst (add_container_env sensitive acc x)) = sv_container_name (fst acc) \<and>
      sv_forbidden_secret_values (fst (add_container_env sensitive acc x)) = sv_forbidden_secret_values (fst acc)"
    by (cases acc; cases x)
       (simp add: add_container_env_def set_interpolated_environment_def set_environment_def
          split: option.split prod.split)
  with Cons show ?case by simp
qed simp

lemma override_ports_if_planned_fields [simp]:
  "sv_name (override_ports_if_planned po n s) = sv_name s"
  "sv_container_name (override_ports_if_planned po n s) = sv_container_name s"
  "sv_environment (override_ports_if_planned po n s) = sv_environment s"
  "sv_ports_override s = [] \<Longrightarrow> sv_ports_override (override_ports_if_planned po n s) = planned_ports po n"
  by (simp_all add: override_ports_if_planned_def planned_ports_def split: option.split)

definition plain_primary :: "string \<Rightarrow> up_plan \<Rightarrow> port_override \<Rightarrow> service_patch" where
  "plain_primary primary_service plan port_override =
     override_ports_if_planned port_override primary_service (add_service_mounts (up_mounts plan)
       ((set_labels (up_resource_labels plan) ((new_service_patch primary_service)\<lparr>sv_image := Some (up_image plan)\<rparr>))
          \<lparr>sv_cap_add := rdc_cap_add (rc_devcontainer (up_config plan)),
           sv_security_opt := rdc_security_opt (rc_devcontainer (up_config plan))\<rparr>))"

definition primary_with_env :: "string \<Rightarrow> up_plan \<Rightarrow> port_override \<Rightarrow> service_patch" where
  "primary_with_env primary_service plan port_override =
     fst (foldl (add_container_env (up_sensitive_container_env plan)) (plain_primary primary_service plan port_override, [])
            (rdc_container_env (rc_devcontainer (up_config plan))))"

lemma primary_fields:
  assumes "primary_service_patch primary_service plan startup port_override = Inr service"
  shows "sv_name service = primary_service" "sv_container_name service = None"
    "sv_ports_override service = planned_ports port_override primary_service"
    "sv_environment service = sv_environment (primary_with_env primary_service plan port_override)"
proof -
  let ?w = "primary_with_env primary_service plan port_override"
  have "sv_name service = sv_name ?w \<and> sv_container_name service = sv_container_name ?w \<and>
      sv_ports_override service = sv_ports_override ?w \<and> sv_environment service = sv_environment ?w"
    using assms
    by (auto simp: primary_service_patch_def primary_with_env_def plain_primary_def Let_def bind_res_Inr_iff
        split: option.split)
  moreover have "sv_name ?w = primary_service \<and> sv_container_name ?w = None \<and>
      sv_ports_override ?w = planned_ports port_override primary_service"
    using container_env_keeps_fields [of "up_sensitive_container_env plan" "(plain_primary primary_service plan port_override, [])"]
    by (simp add: primary_with_env_def plain_primary_def add_service_mounts_def set_labels_def new_service_patch_def)
  ultimately show "sv_name service = primary_service" "sv_container_name service = None"
    "sv_ports_override service = planned_ports port_override primary_service"
    "sv_environment service = sv_environment ?w" by simp_all
qed

lemma forwarded_fields:
  "sv_name (forwarded_service_patch plan po runtime) = sfr_service runtime"
  "sv_container_name (forwarded_service_patch plan po runtime) = None"
  "sv_ports_override (forwarded_service_patch plan po runtime) = planned_ports po (sfr_service runtime)"
  by (simp_all add: forwarded_service_patch_def add_service_mounts_def set_labels_def new_service_patch_def)

abbreviation with_forwards :: "up_plan \<Rightarrow> port_override \<Rightarrow> service_forward_runtime list \<Rightarrow> override_patch \<Rightarrow> override_patch" where
  "with_forwards plan po service_forward patch \<equiv>
     foldl (\<lambda>patch runtime. patch_service (forwarded_service_patch plan po runtime) patch) patch service_forward"

definition add_ports_of_other_services ::
  "string \<Rightarrow> service_forward_runtime list \<Rightarrow> override_patch \<Rightarrow> string \<times> override_port_entry list \<Rightarrow> override_patch" where
  "add_ports_of_other_services primary_service service_forward patch entry =
     (case entry of (service_name, ports) \<Rightarrow>
        if service_name = primary_service \<or> list_ex (\<lambda>runtime. sfr_service runtime = service_name) service_forward then patch
        else patch_service ((new_service_patch service_name)\<lparr>sv_ports_override := ports\<rparr>) patch)"

lemma with_forwards_views:
  "network_of (with_forwards plan po sf patch) r = network_of patch r"
  "sv_ports_override (service_of (with_forwards plan po sf patch) m) =
     (if list_ex (\<lambda>runtime. sfr_service runtime = m) sf then planned_ports po m else sv_ports_override (service_of patch m))"
  "sv_container_name (service_of patch m) = None \<Longrightarrow> sv_container_name (service_of (with_forwards plan po sf patch) m) = None"
  "\<not> list_ex (\<lambda>runtime. sfr_service runtime = m) sf \<Longrightarrow> service_of (with_forwards plan po sf patch) m = service_of patch m"
  by (induction sf arbitrary: patch) (auto simp: patch_views forwarded_fields)

lemma other_services_views:
  fixes primary :: string
  defines "skipped m sf \<equiv> m = primary \<or> list_ex (\<lambda>runtime. sfr_service runtime = m) sf"
  shows "network_of (foldl (add_ports_of_other_services primary sf) patch xs) r = network_of patch r"
    "skipped m sf \<Longrightarrow> service_of (foldl (add_ports_of_other_services primary sf) patch xs) m = service_of patch m"
    "sv_container_name (service_of patch m) = None \<Longrightarrow>
     sv_container_name (service_of (foldl (add_ports_of_other_services primary sf) patch xs) m) = None"
    "\<not> skipped m sf \<Longrightarrow> distinct (map fst xs) \<Longrightarrow>
     sv_ports_override (service_of (foldl (add_ports_of_other_services primary sf) patch xs) m) =
       (case map_of xs m of Some ports \<Rightarrow> ports | None \<Rightarrow> sv_ports_override (service_of patch m))"
proof -
  show "network_of (foldl (add_ports_of_other_services primary sf) patch xs) r = network_of patch r"
    by (induction xs arbitrary: patch) (auto simp: add_ports_of_other_services_def patch_views)
  show "skipped m sf \<Longrightarrow> service_of (foldl (add_ports_of_other_services primary sf) patch xs) m = service_of patch m"
    by (induction xs arbitrary: patch)
       (auto simp: add_ports_of_other_services_def patch_views skipped_def new_service_patch_def)
  show "sv_container_name (service_of patch m) = None \<Longrightarrow>
     sv_container_name (service_of (foldl (add_ports_of_other_services primary sf) patch xs) m) = None"
    by (induction xs arbitrary: patch) (auto simp: add_ports_of_other_services_def patch_views new_service_patch_def)
  show "\<not> skipped m sf \<Longrightarrow> distinct (map fst xs) \<Longrightarrow>
     sv_ports_override (service_of (foldl (add_ports_of_other_services primary sf) patch xs) m) =
       (case map_of xs m of Some ports \<Rightarrow> ports | None \<Rightarrow> sv_ports_override (service_of patch m))"
  proof (induction xs arbitrary: patch)
    case (Cons x xs)
    have "map_of xs (fst x) = None" using Cons.prems(2) by (simp add: map_of_eq_None_iff)
    with Cons show ?case
      by (cases x) (auto simp: add_ports_of_other_services_def patch_views skipped_def new_service_patch_def split: option.split)
  qed simp
qed

lemma generated_patch_parts:
  assumes "generated_compose_override_patch primary_service plan startup sf po isolation = Inr patch"
  obtains service where "primary_service_patch primary_service plan startup po = Inr service"
    "patch = apply_compose_endpoint_plan (io_endpoints isolation)
       (apply_compose_subnet_plan (io_subnets isolation) (apply_compose_name_rewrites (io_names isolation)
         (foldl (add_ports_of_other_services primary_service sf)
           (with_forwards plan po sf (new_override_patch service)) po)))"
proof -
  have step: "(\<lambda>patch (service_name, ports).
      if service_name = primary_service \<or> list_ex (\<lambda>runtime. sfr_service runtime = service_name) sf then patch
      else patch_service ((new_service_patch service_name)\<lparr>sv_ports_override := ports\<rparr>) patch) =
     add_ports_of_other_services primary_service sf"
    by (intro ext) (simp add: add_ports_of_other_services_def)
  show ?thesis
    using assms that unfolding generated_compose_override_patch_def step Let_def by (auto simp: bind_res_Inr_iff)
qed

lemma base_patch_views:
  fixes sf :: "service_forward_runtime list"
  assumes "primary_service_patch primary_service plan startup po = Inr service" "bt_ok po"
  defines "base \<equiv> foldl (add_ports_of_other_services primary_service sf)
    (with_forwards plan po sf (new_override_patch service)) po"
  shows "network_of base r = \<lparr>nw_name = None, nw_ipam_config_override = []\<rparr>"
    "sv_container_name (service_of base m) = None"
    "sv_ports_override (service_of base m) = planned_ports po m"
proof -
  note fields = primary_fields [OF assms(1)]
  show "network_of base r = \<lparr>nw_name = None, nw_ipam_config_override = []\<rparr>"
    unfolding base_def by (simp add: other_services_views with_forwards_views patch_views)
  have none: "sv_container_name (service_of (new_override_patch service) m) = None"
    using fields by (simp add: patch_views new_service_patch_def)
  show "sv_container_name (service_of base m) = None"
    unfolding base_def by (intro other_services_views with_forwards_views none)
  show "sv_ports_override (service_of base m) = planned_ports po m"
  proof (cases "m = primary_service \<or> list_ex (\<lambda>runtime. sfr_service runtime = m) sf")
    case True
    then show ?thesis
      unfolding base_def using other_services_views(2) [OF True] fields
      by (auto simp: with_forwards_views patch_views)
  next
    case False
    then show ?thesis
      unfolding base_def using other_services_views(4) [OF False bt_ok_distinct [OF assms(2)]] fields
      by (auto simp: with_forwards_views patch_views new_service_patch_def planned_ports_def ports_for_def bt_get_def
          split: option.split)
  qed
qed

text \<open>C18. The generated override publishes exactly the planned ports of every service,
  gives every service and network the name of its last rewrite and every network the subnet of its
  last allocation, and says nothing of them without a plan.\<close>

theorem override_carries_the_plans:
  assumes "generated_compose_override_patch primary_service plan startup service_forward port_override isolation = Inr patch"
    and "bt_ok port_override"
  shows "sv_ports_override (service_of patch service) = planned_ports port_override service \<and>
    sv_container_name (service_of patch service) =
      last_value (\<lambda>rewrite. if sr_service rewrite = service then Some (Some (sr_rewritten_name rewrite)) else None)
        (np_services (io_names isolation)) None \<and>
    nw_name (network_of patch network) =
      last_value (\<lambda>rewrite. if rn_kind rewrite = Network_Kind \<and> rn_resource rewrite = network
                            then Some (Some (rn_rewritten_name rewrite)) else None)
        (np_resources (io_names isolation)) None \<and>
    nw_ipam_config_override (network_of patch network) =
      last_value (\<lambda>allocation. if sa_network allocation = network then Some [planned_ipam_config allocation] else None)
        (sp_allocations (io_subnets isolation)) []"
proof -
  obtain s where s: "primary_service_patch primary_service plan startup port_override = Inr s"
    and patch: "patch = apply_compose_endpoint_plan (io_endpoints isolation)
       (apply_compose_subnet_plan (io_subnets isolation) (apply_compose_name_rewrites (io_names isolation)
         (foldl (add_ports_of_other_services primary_service service_forward)
           (with_forwards plan port_override service_forward (new_override_patch s)) port_override)))"
    using generated_patch_parts [OF assms(1)] .
  note base = base_patch_views [OF s assms(2), of service_forward]
  show ?thesis
    unfolding patch by (simp add: endpoint_plan_views subnet_plan_views name_rewrite_views base)
qed

section \<open>The environment of the primary service\<close>

lemma name_rewrites_keep_environment:
  "sv_environment (service_of (apply_compose_name_rewrites plan patch) m) = sv_environment (service_of patch m)"
proof -
  have "sv_environment (service_of (with_references plan patch) m) = sv_environment (service_of patch m)"
    unfolding with_references_def
    using foldl_unchanged [where view = "\<lambda>p. sv_environment (service_of p m)" and step = apply_service_rewrite]
      foldl_unchanged [where view = "\<lambda>p. sv_environment (service_of p m)"
        and step = "\<lambda>patch x. service_container_references x patch"]
    by (simp add: apply_service_rewrite_def service_container_name_def service_container_references_def patch_views)
  then show ?thesis
    using foldl_unchanged [where view = "\<lambda>p. service_of p m" and step = apply_resource_rewrite,
        OF resource_rewrite_views(1)]
    by (simp add: apply_compose_name_rewrites_def with_references_def)
qed

definition endpoint_writes :: "endpoint_plan \<Rightarrow> (string \<times> string \<times> string) list" where
  "endpoint_writes plan = concat (map (\<lambda>(service, environment). map (\<lambda>(key, v). (service, key, v)) environment) (ep_services plan))"

definition endpoint_write_of :: "string \<Rightarrow> string \<Rightarrow> string \<times> string \<times> string \<Rightarrow> override_environment_value option option" where
  "endpoint_write_of m key write' =
     (case write' of (service, k, v) \<Rightarrow> if service = m \<and> k = key then Some (Some (Env_Uninterpolated v)) else None)"

lemma foldl_concat_map: "foldl f b (concat (map g xs)) = foldl (\<lambda>b x. foldl f b (g x)) b xs"
  by (induction xs arbitrary: b) simp_all

lemma endpoint_plan_as_writes:
  "apply_compose_endpoint_plan plan patch =
   foldl (\<lambda>patch (service, key, v). service_environment service key v patch) patch (endpoint_writes plan)"
  unfolding apply_compose_endpoint_plan_def endpoint_writes_def foldl_concat_map
  by (simp add: split_def foldl_map)

lemma endpoint_plan_environment:
  "bt_get (sv_environment (service_of (apply_compose_endpoint_plan plan patch) m)) key =
   last_value (endpoint_write_of m key) (endpoint_writes plan) (bt_get (sv_environment (service_of patch m)) key)"
  unfolding endpoint_plan_as_writes
  by (rule foldl_last_value [where view = "\<lambda>patch. bt_get (sv_environment (service_of patch m)) key"])
    (auto simp: endpoint_write_of_def service_environment_def patch_views bt_get_insert)

lemma primary_environment:
  assumes "generated_compose_override_patch primary_service plan startup sf po isolation = Inr patch"
    and "\<not> list_ex (\<lambda>runtime. sfr_service runtime = primary_service) sf"
  shows "bt_get (sv_environment (service_of patch primary_service)) key =
         last_value (endpoint_write_of primary_service key) (endpoint_writes (io_endpoints isolation))
           (bt_get (sv_environment (primary_with_env primary_service plan po)) key)"
proof -
  obtain s where s: "primary_service_patch primary_service plan startup po = Inr s"
    and patch: "patch = apply_compose_endpoint_plan (io_endpoints isolation)
       (apply_compose_subnet_plan (io_subnets isolation) (apply_compose_name_rewrites (io_names isolation)
         (foldl (add_ports_of_other_services primary_service sf)
           (with_forwards plan po sf (new_override_patch s)) po)))"
    using generated_patch_parts [OF assms(1)] .
  show ?thesis
    unfolding patch
    using primary_fields [OF s] assms(2)
    by (simp add: endpoint_plan_environment subnet_plan_views name_rewrites_keep_environment other_services_views with_forwards_views patch_views)
qed

lemma filtered_keys:
  assumes "bt_ok (cenv :: (string, string) btree_map)" "bt_ok (sensitive :: sensitive_env_map)"
    and "fst ` set sensitive \<subseteq> fst ` set cenv"
  shows "filter (bt_contains_key sensitive) (map fst cenv) = map fst sensitive"
proof (rule sorted_distinct_set_unique)
  have "bt_contains_key sensitive k \<longleftrightarrow> k \<in> fst ` set sensitive" for k
    using map_of_eq_None_iff [of sensitive k] by (simp add: bt_contains_key_def bt_get_def)
  then show "set (filter (bt_contains_key sensitive) (map fst cenv)) = set (map fst sensitive)"
    using assms(3) by auto
  show "sorted (filter (bt_contains_key sensitive) (map fst cenv))" "distinct (filter (bt_contains_key sensitive) (map fst cenv))"
    "sorted (map fst sensitive)" "distinct (map fst sensitive)"
    using assms(1,2) by (simp_all add: bt_ok_def strict_sorted_iff sorted_wrt_filter)
qed

lemma sensitive_placeholders:
  assumes "bt_ok (sensitive :: sensitive_env_map)" "bt_get sensitive key = Some s"
    and "(key, placeholder) \<in> set (assigned_placeholders (map fst sensitive) [])"
  shows "bt_get (fst (compose_interpolation_env sensitive)) placeholder = Some (sev_value s)"
proof -
  obtain env redactions used where run: "foldl interpolation_step ([], [], []) sensitive = (env, redactions, used)"
    by (metis prod_cases3)
  from interpolation_sets_placeholders [OF run assms(3) bt_ok_distinct [OF assms(1)] bt_get_SomeD [OF assms(2)]]
  show ?thesis by (simp add: compose_interpolation_env_def run)
qed

lemma primary_environment_values:
  assumes "bt_ok (rdc_container_env (rc_devcontainer (up_config plan)))" "bt_ok (up_sensitive_container_env plan)"
    and "fst ` set (up_sensitive_container_env plan) \<subseteq> fst ` set (rdc_container_env (rc_devcontainer (up_config plan)))"
    and "(key, v) \<in> set (rdc_container_env (rc_devcontainer (up_config plan)))"
  shows "\<exists>written. bt_get (sv_environment (primary_with_env primary_service plan po)) key = Some written \<and>
    (case bt_get (up_sensitive_container_env plan) key of
       None \<Rightarrow> written = Env_Literal v
     | Some s \<Rightarrow> \<exists>placeholder. written = Env_Interpolated placeholder (sev_redactions s) \<and>
         bt_get (fst (compose_interpolation_env (up_sensitive_container_env plan))) placeholder = Some (sev_value s))"
proof -
  let ?sensitive = "up_sensitive_container_env plan"
  obtain written where w: "bt_get (sv_environment (primary_with_env primary_service plan po)) key = Some written"
    "expected_environment ?sensitive (assigned_placeholders (map fst ?sensitive) []) key v written"
    using container_env_writes [OF bt_ok_distinct [OF assms(1)] assms(4), of ?sensitive "plain_primary primary_service plan po" "[]"]
    unfolding filtered_keys [OF assms(1-3)] primary_with_env_def by blast
  then show ?thesis
    using sensitive_placeholders [OF assms(2)] by (auto simp: expected_environment_def split: option.splits)
qed

text \<open>C19. For a primary service that is not itself the service of a forwarding sidecar, and
  sensitive variables that are variables of the container: a sensitive variable is written as a
  placeholder that the environment passed to Compose maps to its value, and any other variable
  with its value, unless the endpoints of the clone isolation set the variable for this service,
  whose last value is then written.\<close>

theorem override_refers_to_the_passed_values:
  assumes "generated_compose_override_patch primary_service plan startup sf po isolation = Inr patch"
    and "bt_ok (rdc_container_env (rc_devcontainer (up_config plan)))" "bt_ok (up_sensitive_container_env plan)"
    and "fst ` set (up_sensitive_container_env plan) \<subseteq> fst ` set (rdc_container_env (rc_devcontainer (up_config plan)))"
    and "\<not> list_ex (\<lambda>runtime. sfr_service runtime = primary_service) sf"
    and "(key, v) \<in> set (rdc_container_env (rc_devcontainer (up_config plan)))"
  shows "\<exists>written. bt_get (sv_environment (service_of patch primary_service)) key =
      last_value (endpoint_write_of primary_service key) (endpoint_writes (io_endpoints isolation)) (Some written) \<and>
    (case bt_get (up_sensitive_container_env plan) key of
       None \<Rightarrow> written = Env_Literal v
     | Some s \<Rightarrow> \<exists>placeholder. written = Env_Interpolated placeholder (sev_redactions s) \<and>
         bt_get (up_compose_interpolation_env (attach_compose_interpolation_env_to_plan plan)) placeholder =
           Some (sev_value s))"
proof -
  have "up_compose_interpolation_env (attach_compose_interpolation_env_to_plan plan) =
      fst (compose_interpolation_env (up_sensitive_container_env plan))"
    by (simp add: attach_compose_interpolation_env_to_plan_def split: prod.split)
  then show ?thesis
    using primary_environment_values [OF assms(2-4,6), of primary_service po]
    unfolding primary_environment [OF assms(1,5)] \<open>up_compose_interpolation_env _ = _\<close>
    by (elim exE conjE) (intro exI conjI, simp_all)
qed

section \<open>Secrets\<close>

lemma forbidden_kept [simp]:
  "op_forbidden_secret_values (update_service n f patch) = op_forbidden_secret_values patch"
  "op_forbidden_secret_values (update_network n g patch) = op_forbidden_secret_values patch"
  by (simp_all add: update_service_def update_network_def Let_def)

lemma forbidden_patch_service:
  "set (op_forbidden_secret_values patch) \<subseteq> set (op_forbidden_secret_values (patch_service s patch))"
  by (simp add: patch_service_def)

lemma foldl_growing:
  assumes "\<And>patch x. set (view patch) \<subseteq> set (view (step patch x))"
  shows "set (view patch) \<subseteq> set (view (foldl step patch xs))"
proof (induction xs arbitrary: patch)
  case (Cons x xs)
  then show ?case using assms [of patch x] by (auto simp: subset_iff)
qed simp

lemma forbidden_endpoints: "op_forbidden_secret_values (apply_compose_endpoint_plan plan patch) = op_forbidden_secret_values patch"
  by (rule endpoint_plan_keeps) (simp add: service_environment_def)

lemma forbidden_subnets: "op_forbidden_secret_values (apply_compose_subnet_plan plan patch) = op_forbidden_secret_values patch"
  unfolding apply_compose_subnet_plan_def by (rule foldl_unchanged) (simp add: network_ipam_override_def)

lemma forbidden_names: "op_forbidden_secret_values (apply_compose_name_rewrites plan patch) = op_forbidden_secret_values patch"
proof -
  have "op_forbidden_secret_values (apply_service_rewrite p x) = op_forbidden_secret_values p" for p x
    by (simp add: apply_service_rewrite_def service_container_name_def)
  moreover have "op_forbidden_secret_values (service_container_references y p) = op_forbidden_secret_values p" for p y
    by (simp add: service_container_references_def)
  moreover have "op_forbidden_secret_values (apply_resource_rewrite p z) = op_forbidden_secret_values p" for p z
    by (simp add: apply_resource_rewrite_def set_network_name_def set_volume_name_def set_config_name_def
        set_secret_name_def split: resource_kind.split)
  ultimately show ?thesis
    unfolding apply_compose_name_rewrites_def
    using foldl_unchanged [where view = op_forbidden_secret_values and step = apply_service_rewrite]
      foldl_unchanged [where view = op_forbidden_secret_values and step = "\<lambda>patch x. service_container_references x patch"]
      foldl_unchanged [where view = op_forbidden_secret_values and step = apply_resource_rewrite]
    by simp
qed

lemma forbidden_values_of_the_primary_service:
  assumes "generated_compose_override_patch primary_service plan startup sf po isolation = Inr patch"
    and "bt_get (sv_environment (primary_with_env primary_service plan po)) key = Some (Env_Interpolated placeholder redactions)"
  shows "set redactions \<subseteq> set (op_forbidden_secret_values patch)"
proof -
  obtain s where s: "primary_service_patch primary_service plan startup po = Inr s"
    and patch: "patch = apply_compose_endpoint_plan (io_endpoints isolation)
       (apply_compose_subnet_plan (io_subnets isolation) (apply_compose_name_rewrites (io_names isolation)
         (foldl (add_ports_of_other_services primary_service sf)
           (with_forwards plan po sf (new_override_patch s)) po)))"
    using generated_patch_parts [OF assms(1)] .
  have "(key, Env_Interpolated placeholder redactions) \<in> set (sv_environment s)"
    using primary_fields [OF s] bt_get_SomeD [OF assms(2)] by simp
  then have "set redactions \<subseteq> set (op_forbidden_secret_values (new_override_patch s))"
    by (force simp: new_override_patch_def service_forbidden_secret_values_def)
  also have "\<dots> \<subseteq> set (op_forbidden_secret_values (with_forwards plan po sf (new_override_patch s)))"
    by (rule foldl_growing) (rule forbidden_patch_service)
  also have "\<dots> \<subseteq> set (op_forbidden_secret_values (foldl (add_ports_of_other_services primary_service sf)
      (with_forwards plan po sf (new_override_patch s)) po))"
    by (rule foldl_growing) (auto simp: add_ports_of_other_services_def split: prod.split dest: subsetD [OF forbidden_patch_service])
  finally show ?thesis unfolding patch by (simp add: forbidden_endpoints forbidden_subnets forbidden_names)
qed

lemma to_yaml_avoids_forbidden:
  "to_yaml patch = Inr content \<Longrightarrow> secret \<in> set (op_forbidden_secret_values patch) \<Longrightarrow> secret \<noteq> [] \<Longrightarrow>
   \<not> str_contains secret content"
  by (auto simp: to_yaml_def ensure_no_forbidden_secret_values_def Let_def bind_res_Inr_iff list_ex_iff split: if_splits)

text \<open>C11. A generated override file does not contain any value to redact of a sensitive
  variable of the container environment.\<close>

theorem sensitive_values_stay_out_of_the_override:
  assumes "generated_override_text primary_service plan startup sf po isolation = Inr content"
    and "bt_ok (rdc_container_env (rc_devcontainer (up_config plan)))" "bt_ok (up_sensitive_container_env plan)"
    and "fst ` set (up_sensitive_container_env plan) \<subseteq> fst ` set (rdc_container_env (rc_devcontainer (up_config plan)))"
    and "bt_get (up_sensitive_container_env plan) key = Some s" "secret \<in> set (sev_redactions s)" "secret \<noteq> []"
  shows "\<not> str_contains secret content"
proof -
  obtain patch where patch: "generated_compose_override_patch primary_service plan startup sf po isolation = Inr patch"
    and content: "to_yaml patch = Inr content"
    using assms(1) by (auto simp: generated_override_text_def bind_res_Inr_iff)
  obtain v where "(key, v) \<in> set (rdc_container_env (rc_devcontainer (up_config plan)))"
    using assms(4) bt_get_SomeD [OF assms(5)] by force
  from primary_environment_values [OF assms(2-4) this, of primary_service po] assms(5)
  obtain placeholder where "bt_get (sv_environment (primary_with_env primary_service plan po)) key =
      Some (Env_Interpolated placeholder (sev_redactions s))" by auto
  from forbidden_values_of_the_primary_service [OF patch this] assms(6)
  show ?thesis using to_yaml_avoids_forbidden [OF content _ assms(7)] by blast
qed

section \<open>Examples\<close>

definition example_devcontainer :: resolved_devcontainer where
  "example_devcontainer = default_devcontainer\<lparr>rdc_container_env := [(''T'', ''s3cret'')]\<rparr>"

definition example_up_plan :: up_plan where
  "example_up_plan = \<lparr>up_image = ''i'', up_base_image = ''i'', up_resource_labels = [],
     up_config = (resolve_config \<lparr>mi_image_metadata = [], mi_feature_metadata = [], mi_global = None,
       mi_devcontainer = None, mi_project = None, mi_cli = None\<rparr>)\<lparr>rc_devcontainer := example_devcontainer\<rparr>,
     up_sensitive_container_env = [(''T'', \<lparr>sev_value = ''s3cret'', sev_redactions = [''s3cret'']\<rparr>)],
     up_compose_interpolation_env = [], up_compose_interpolation_redactions = [],
     up_effective_users = root_users, up_uid_gid_sync_plan = default_uid_gid_sync_plan, up_mounts = []\<rparr>"

definition example_isolation_plans :: isolation_override_plans where
  "example_isolation_plans = \<lparr>
     io_names = \<lparr>np_services = [\<lparr>sr_service = ''db'', sr_original_name = ''d'', sr_rewritten_name = ''d-2'', sr_networks = []\<rparr>],
       np_service_references = [], np_resources = []\<rparr>,
     io_subnets = \<lparr>sp_allocations = [], sp_networks_to_remove = []\<rparr>, io_endpoints = \<lparr>ep_services = []\<rparr>\<rparr>"

definition example_primary :: service_patch where
  "example_primary = (new_service_patch ''app'')\<lparr>sv_image := Some ''i'',
     sv_environment := [(''T'', Env_Interpolated ''DECUNE_CONTAINER_ENV_T'' [''s3cret''])]\<rparr>"

definition example_override :: override_patch where
  "example_override = service_container_name ''db'' ''d-2'' ''d'' [] (new_override_patch example_primary)"

lemma example_primary_service: "primary_service_patch ''app'' example_up_plan None [] = Inr example_primary"
proof -
  have placeholder: "compose_container_env_placeholder ''T'' [] = (''DECUNE_CONTAINER_ENV_T'', [''DECUNE_CONTAINER_ENV_T''])"
    by code_simp
  show ?thesis
    by (simp add: primary_service_patch_def example_up_plan_def example_primary_def example_devcontainer_def
        default_devcontainer_def override_ports_if_planned_def ports_for_def bt_get_def add_service_mounts_def
        set_labels_def new_service_patch_def add_container_env_def placeholder set_interpolated_environment_def
        compose_override_user_def root_users_def Let_def)
qed

lemma example_generated:
  "generated_compose_override_patch ''app'' example_up_plan None [] [] example_isolation_plans = Inr example_override"
  by (simp add: generated_compose_override_patch_def example_primary_service example_isolation_plans_def
      example_override_def apply_compose_name_rewrites_def apply_compose_subnet_plan_def
      apply_compose_endpoint_plan_def apply_service_rewrite_def Let_def)

lemma example_text: "\<exists>content. generated_override_text ''app'' example_up_plan None [] [] example_isolation_plans = Inr content"
proof -
  have "override_content example_override \<noteq> [] \<and> \<not> str_contains ''s3cret'' (override_content example_override) \<and>
      op_forbidden_secret_values example_override = [''s3cret'']" by code_simp
  then show ?thesis
    by (simp add: generated_override_text_def example_generated to_yaml_def ensure_no_forbidden_secret_values_def Let_def)
qed

lemma example_maps:
  "bt_ok (rdc_container_env (rc_devcontainer (up_config example_up_plan)))"
  "bt_ok (up_sensitive_container_env example_up_plan)"
  "fst ` set (up_sensitive_container_env example_up_plan) \<subseteq>
   fst ` set (rdc_container_env (rc_devcontainer (up_config example_up_plan)))"
  "(''T'', ''s3cret'') \<in> set (rdc_container_env (rc_devcontainer (up_config example_up_plan)))"
  "bt_get (up_sensitive_container_env example_up_plan) ''T'' = Some \<lparr>sev_value = ''s3cret'', sev_redactions = [''s3cret'']\<rparr>"
  by (simp_all add: example_up_plan_def example_devcontainer_def bt_ok_def bt_get_def)

theorem override_carries_the_plans_witness:
  "generated_compose_override_patch ''app'' example_up_plan None [] [] example_isolation_plans = Inr example_override \<and>
   sv_container_name (service_of example_override ''db'') = Some ''d-2''"
  using override_carries_the_plans [OF example_generated, of "''db''" "''n''"] example_generated
  by (simp add: last_value_def example_isolation_plans_def)

theorem override_refers_to_the_passed_values_witness:
  "\<exists>placeholder.
     bt_get (sv_environment (service_of example_override ''app'')) ''T'' = Some (Env_Interpolated placeholder [''s3cret'']) \<and>
     bt_get (up_compose_interpolation_env (attach_compose_interpolation_env_to_plan example_up_plan)) placeholder = Some ''s3cret''"
proof -
  have none: "\<not> list_ex (\<lambda>runtime. sfr_service runtime = ''app'') []" by simp
  have no_writes: "endpoint_writes (io_endpoints example_isolation_plans) = []"
    by (simp add: endpoint_writes_def example_isolation_plans_def)
  obtain written where w: "bt_get (sv_environment (service_of example_override ''app'')) ''T'' = Some written"
    "case bt_get (up_sensitive_container_env example_up_plan) ''T'' of
       None \<Rightarrow> written = Env_Literal ''s3cret''
     | Some s \<Rightarrow> \<exists>placeholder. written = Env_Interpolated placeholder (sev_redactions s) \<and>
         bt_get (up_compose_interpolation_env (attach_compose_interpolation_env_to_plan example_up_plan)) placeholder =
           Some (sev_value s)"
    using override_refers_to_the_passed_values [OF example_generated example_maps(1-3) none example_maps(4)]
    unfolding no_writes last_value_def foldl_Nil by (elim exE conjE)
  then obtain placeholder where "written = Env_Interpolated placeholder [''s3cret'']"
    "bt_get (up_compose_interpolation_env (attach_compose_interpolation_env_to_plan example_up_plan)) placeholder = Some ''s3cret''"
    unfolding example_maps(5) option.case sensitive_env_value.select_convs by (elim exE conjE)
  with w(1) show ?thesis by (intro exI [of _ placeholder] conjI) simp_all
qed

theorem sensitive_values_stay_out_of_the_override_witness:
  "\<exists>content. generated_override_text ''app'' example_up_plan None [] [] example_isolation_plans = Inr content \<and>
     \<not> str_contains ''s3cret'' content"
proof -
  obtain content where content:
    "generated_override_text ''app'' example_up_plan None [] [] example_isolation_plans = Inr content"
    using example_text by (elim exE)
  have "\<not> str_contains ''s3cret'' content"
    by (rule sensitive_values_stay_out_of_the_override [OF content example_maps(1-3) example_maps(5)]) simp_all
  with content show ?thesis by (intro exI conjI)
qed

end
