(* ===== verification/Spec2Isabelle.thy ===== *)
theory Spec2Isabelle
  imports Isolation_Names Isolation_Endpoints Compose_Ports_Startup Config_Variables Feature_Resolver
    Lifecycle_Sequence Config_Merge Config_Hash_View Devcontainer_Metadata
    Config_Raw Docker_Mounts Devcontainer_Json Compose_Override_Patch
begin

text \<open>
  A verification development for decune, a Rust program that starts development containers from
  a \<open>devcontainer.json\<close>. Paths below are relative to the repository, \<open>src/\<close> is the main crate.

  \<^bold>\<open>The program and its parts.\<close> \<open>decune up\<close> reads configuration from several layers (the metadata
  labels of the image, the metadata of Features, a global file, \<open>devcontainer.json\<close>, a project
  file, the command line), merges them into one resolved configuration, expands variables in it,
  and hashes it to decide whether the container must be created again. It orders the Features
  and records the versions it uses in a lock file. For a project that uses Docker Compose it
  plans the host ports the services publish, and for a second clone of the same project it moves
  fixed subnets and fixed names out of the way of the first clone. Both plans end in an override
  file for Compose. When the container runs, the lifecycle commands are executed in their order and
  what is completed is saved in a state file. Ports the container opens are forwarded to the host.

  \<^bold>\<open>Theories.\<close> Every theory names the Rust file and functions it models in its own introduction.
  Definitions keep the names of the source; a struct is a record, an enum a datatype, and a loop
  a fold or a recursion of its own.

  \<^item> \<open>Prelude\<close>: machine integers, \<open>Result\<close> as \<open>string + 'a\<close> with its bind, loops that stop at
    the first error, closures that talk to the world (type \<open>io\<close>), and list lemmas. \<open>Rust_Str\<close>: the
    operations of \<open>str\<close> on lists of bytes; \<open>Utf8\<close>: the check of UTF-8, control characters, lines;
    \<open>Rust_Path\<close>: \<open>std::path\<close>. \<open>Ordered_Map\<close>: \<open>BTreeMap\<close> as its ascending list of
    entries, with the contract every map client uses. \<open>Ip_Addr\<close>: the address parsers of \<open>std::net\<close>.
  \<^item> Configuration: \<open>Config_Types\<close> (\<open>config/types.rs\<close>, \<open>layer.rs\<close>, \<open>resolved.rs\<close>), \<open>Config_Raw\<close>
    (\<open>config/schema.rs\<close>, \<open>load.rs\<close>: a file becomes a layer), \<open>Config_Merge\<close>
    (\<open>config/merge.rs\<close>), \<open>Config_Variables\<close> (\<open>config/variables.rs\<close>), and for the hash
    \<open>Canonical_Text\<close> (\<open>config/canonical.rs\<close>, \<open>hex.rs\<close>), \<open>Config_Hash\<close> and \<open>Config_Hash_View\<close>
    (\<open>config/hash.rs\<close>).
  \<^item> \<open>devcontainer.json\<close>: \<open>Jsonc\<close> and \<open>Devcontainer_Json\<close> (\<open>devcontainer/json.rs\<close>: comments,
    trailing commas, the search for the file), \<open>Port_Specs\<close> (\<open>config/ports.rs\<close>, \<open>devcontainer/ports.rs\<close>),
    \<open>Devcontainer_Args\<close> (\<open>devcontainer/metadata/args.rs\<close>), \<open>Devcontainer_Metadata\<close>
    (\<open>devcontainer/metadata.rs\<close> and the rest of \<open>devcontainer/metadata\<close>).
  \<^item> Mounts and users: \<open>Host_Path\<close> (\<open>config/path.rs\<close>), \<open>Docker_Mounts\<close> (\<open>docker/mounts.rs\<close>),
    \<open>Docker_Exec\<close> (\<open>docker/exec.rs\<close>), \<open>Container_Users\<close> (\<open>docker/user.rs\<close>, \<open>up/uid_gid.rs\<close>).
  \<^item> Features: \<open>Feature_Reference\<close>, \<open>Feature_Options\<close> and \<open>Feature_Lock\<close> (\<open>reference.rs\<close>, \<open>options.rs\<close>
    and \<open>metadata.rs\<close>, \<open>lock.rs\<close> in \<open>devcontainer/features\<close>), \<open>Feature_Install\<close> (\<open>install.rs\<close>: the graph of
    dependencies and its order, over any resolver) and \<open>Feature_Resolver\<close> (\<open>install.rs\<close>,
    \<open>local.rs\<close>: the resolver decune uses, and the preparation of the plan around it).
  \<^item> Lifecycle: \<open>Lifecycle_Types\<close> (\<open>types.rs\<close>, \<open>parse.rs\<close>), \<open>Lifecycle_Run\<close> (\<open>command.rs\<close>,
    \<open>hooks.rs\<close>, \<open>context.rs\<close>) and \<open>Lifecycle_Sequence\<close> (\<open>sequence.rs\<close>, \<open>run.rs\<close>, the completion
    flags of \<open>state.rs\<close>), all in \<open>devcontainer/lifecycle\<close>.
  \<^item> Compose and clone isolation: \<open>Compose_Model\<close> (\<open>runtime/compose_cli/config.rs\<close>); \<open>Subnet\<close>,
    \<open>Isolation_Types\<close>, \<open>Isolation_Scan\<close>, \<open>Isolation_Names\<close>, \<open>Isolation_Plan\<close> and
    \<open>Isolation_Endpoints\<close> (\<open>runtime/compose_isolation\<close>).
  \<^item> Ports: \<open>Host_Ports\<close> (\<open>docker/ports.rs\<close>, \<open>host/forward\<close>: which host port a forwarded port gets);
    \<open>Compose_Ports\<close>, \<open>Compose_Ports_Plan\<close>, \<open>Compose_Ports_Runs\<close>, \<open>Compose_Ports_Override\<close> and
    \<open>Compose_Ports_Startup\<close> (\<open>runtime/compose_ports\<close>).
  \<^item> The override file: \<open>Compose_Override_File\<close> (\<open>runtime/compose_cli/override_file.rs\<close>) and
    \<open>Compose_Override_Patch\<close> (\<open>up/start/compose_override.rs\<close>), where the plans come together.

  \<^bold>\<open>What the theorems show.\<close>

  \<^item> Parsing: texts and their values correspond exactly (CIDR blocks, port specifications, run
    arguments, Feature references, lifecycle commands); a document is accepted only with exactly
    one source; build options and run arguments that pass cannot set what decune sets itself.
  \<^item> Text formats: a document with comments is blanked piece by piece and keeps its positions; mount
    strings, users of an image and the YAML scalars of the override file read back.
  \<^item> Merging: for every kind of value, which layer wins; keyed entries obey one contract, the locale
    \<open>keyed_entries\<close>, interpreted for mounts, dotfiles, ports, mappings and published ports. Labels
    of an image never contribute a command that runs on the host, and a configured port mapping
    reaches the plan of published ports.
  \<^item> Hash: the locale \<open>canonical\<close> says that a writer's text is a prefix code for a view of the
    value. It is interpreted for every writer, so two configurations have the same hashed text
    exactly when they have the same view, and values from the environment occur only as digests.
  \<^item> Variables: the expansion with and without tracking agree, and what is not marked for
    redaction does not depend on the values of the environment, local or of the container.
  \<^item> Features: in the order resolved with decune's own resolver, what a Feature depends on comes
    first; the rounds fail exactly on cycles and on options that are invalid; collecting the
    dependencies ends; every option reaches the install script once; canonical ids.
    \<open>resolver_contract\<close> is what the graph relies on of a resolver: an input with the key of an earlier
    one may differ in the spelling of its reference and in its tag, and in nothing the order depends on.
  \<^item> Lifecycle: the events of a run follow a transition relation (\<open>allowed\<close>, \<open>lawful\<close>); a creation
    command runs once across runs with saved flags, in order; secrets do not occur in errors.
  \<^item> Clone isolation: planned subnets are disjoint, inside the pool, free of the daemon's networks;
    the slot allocator (locale \<open>subnet_allocator\<close>) finds a free block whenever there is one;
    references follow renamed containers; what a network or name is not asked for stays.
  \<^item> Published and forwarded ports: two planned endpoints never clash (locale \<open>binding_conflict\<close>),
    a relocated port is the first free one, running bindings are kept, and the override publishes
    exactly the plan.
  \<^item> Mounts and users: mounts have distinct, normalized targets outside of reserved directories,
    planning without creating paths changes nothing, and a user whose ids are changed is still found
    by its name, while only users that are named explicitly are changed.
  \<^item> Override file: it carries the plans of ports, names and subnets exactly, refers to sensitive values
    by the placeholders that are passed to Compose, and contains none of these values.

  \<^bold>\<open>Bounds, loops and parameters.\<close> Integers are words where the source has fixed widths
  (\<open>u16\<close> ports, \<open>u32\<close> addresses, \<open>u64\<close> and \<open>i64\<close> numbers), with checked arithmetic written
  out; lengths and indexes are \<open>nat\<close>. All functions are total: recursions that are not structural
  have a measure. One loop asks the outside for new work, the collection of Feature dependencies,
  and it has fuel; if the Features of the world can make only finitely many requests, as many steps as
  there are configured Features and requests are enough (\<open>dependency_resolution_ends\<close>), although
  every request for a local Feature gets a number of its own. Parameters stand for what is outside of the
  repository: SHA-256, the text and float value of a JSON number, the errors of derived
  deserializers, the probes of sockets and ports, the registry and the contents of Feature directories, the
  execution of a command on the host or in the container, the file system, and the environment. No law of
  SHA-256 is assumed, but for one: the digests of Features tell their metadata apart
  (\<open>content_addressed\<close>, a hypothesis of the two theorems on the resolver).

  \<^bold>\<open>Not modelled.\<close> The JSON, TOML and YAML libraries and the derived deserializers; calls of
  Docker, Git, GitHub and SSH tools and the decoding of their output; OCI registries, archives and
  caches; the forward daemon's sockets and threads; terminal output; the tools inside of the
  container; files and locks. These are calls of the operating system and of other programs around
  the decisions modelled here. Warnings that the source writes to a log are left out where they
  do not change a result.
\<close>

end
